(* ===== verification/Prelude.thy ===== *)
theory Prelude
  imports Complex_Main "HOL-Library.Word" "HOL-Library.Log_Nat" "HOL-Library.AList"
begin

section \<open>Prelude: results, Python values, bytes and list facts\<close>

text \<open>
  What every component of the development shares: the exceptions of the Python
  code as values of a datatype and the sum type that carries them, slices and
  chunks of lists, the little-endian integers of \<open>int.to_bytes\<close>,
  \<open>int.from_bytes\<close> and \<open>struct\<close>, and the rules that make proofs about them
  short (collections \<open>py_simps\<close> for evaluation of results, \<open>byte_simps\<close> for
  the byte codecs).
\<close>

named_theorems py_simps
named_theorems byte_simps

subsection \<open>Exceptions as values\<close>

text \<open>
  The built-in exceptions the modelled code can raise.  \<open>RuntimeError\<close> keeps its
  message, because the retry loop classifies foreign exceptions by their text;
  the other built-in exceptions are raised with texts that no code reads.
\<close>

datatype py_exn =
    ValueError
  | TypeError
  | KeyError
  | IndexError
  | OverflowError
  | ZeroDivisionError
  | AttributeError
  | StructError
  | UnicodeDecodeError
  | TimeoutError
  | ConnectionError
  | RuntimeError string

type_synonym ('e, 'a) result = "'e + 'a"

definition bindE :: "('e, 'a) result \<Rightarrow> ('a \<Rightarrow> ('e, 'b) result) \<Rightarrow> ('e, 'b) result" where
  "bindE r f = (case r of Inl e \<Rightarrow> Inl e | Inr x \<Rightarrow> f x)"

lemma bindE_simps [simp, py_simps]:
  "bindE (Inl e) f = Inl e"
  "bindE (Inr x) f = f x"
  by (simp_all add: bindE_def)

lemma bindE_split_Inr:
  "bindE r f = Inr y \<longleftrightarrow> (\<exists>x. r = Inr x \<and> f x = Inr y)"
  by (cases r) auto

lemma bindE_split_Inl:
  "bindE r f = Inl e \<longleftrightarrow> r = Inl e \<or> (\<exists>x. r = Inr x \<and> f x = Inl e)"
  by (cases r) auto

text \<open>A comprehension or \<open>for\<close> loop whose body can raise: the first error stops it.\<close>

fun mapE :: "('a \<Rightarrow> ('e, 'b) result) \<Rightarrow> 'a list \<Rightarrow> ('e, 'b list) result" where
  "mapE f [] = Inr []"
| "mapE f (x # xs) = bindE (f x) (\<lambda>y. bindE (mapE f xs) (\<lambda>ys. Inr (y # ys)))"

lemma mapE_Inr_iff:
  "mapE f xs = Inr ys \<longleftrightarrow> list_all2 (\<lambda>x y. f x = Inr y) xs ys"
proof (induction xs arbitrary: ys)
  case Nil
  then show ?case by auto
next
  case (Cons x xs)
  then show ?case by (cases ys) (auto simp: bindE_split_Inr)
qed

lemma mapE_length: "mapE f xs = Inr ys \<Longrightarrow> length ys = length xs"
  by (auto simp: mapE_Inr_iff dest: list_all2_lengthD)

lemma mapE_all_ok: "(\<And>x. x \<in> set xs \<Longrightarrow> f x = Inr (g x)) \<Longrightarrow> mapE f xs = Inr (map g xs)"
  by (induction xs) auto

lemma mapE_append:
  "mapE f (xs @ ys) = bindE (mapE f xs) (\<lambda>us. bindE (mapE f ys) (\<lambda>vs. Inr (us @ vs)))"
proof (induction xs)
  case Nil
  then show ?case by (cases "mapE f ys") auto
next
  case (Cons x xs)
  then show ?case by (cases "f x"; cases "mapE f xs"; cases "mapE f ys") auto
qed

subsection \<open>Integer enums\<close>

text \<open>
  A Python \<open>IntEnum\<close> is a datatype with a code for each member; calling the class
  on an int is the search \<open>enum_of_code\<close>, which raises \<open>ValueError\<close> on a code
  that no member has.
\<close>

definition enum_of_code :: "'a list \<Rightarrow> ('a \<Rightarrow> int) \<Rightarrow> int \<Rightarrow> (py_exn, 'a) result" where
  "enum_of_code members code n =
     (case find (\<lambda>x. code x = n) members of Some x \<Rightarrow> Inr x | None \<Rightarrow> Inl ValueError)"

locale int_enum =
  fixes members :: "'a list" and code :: "'a \<Rightarrow> int"
  assumes all_members: "x \<in> set members"
    and distinct_codes: "distinct (map code members)"
begin

lemma code_inject: "code x = code y \<longleftrightarrow> x = y"
  using distinct_codes all_members [of x] all_members [of y]
  by (auto simp: distinct_map dest: inj_onD)

lemma of_code_code: "enum_of_code members code (code x) = Inr x"
proof -
  have "find (\<lambda>y. code y = code x) members = Some x"
    using all_members [of x] by (induction members) (auto simp: code_inject)
  then show ?thesis by (simp add: enum_of_code_def)
qed

lemma of_code_Inr_iff: "enum_of_code members code n = Inr x \<longleftrightarrow> n = code x"
proof
  assume "enum_of_code members code n = Inr x"
  then have "find (\<lambda>y. code y = n) members = Some x"
    by (simp add: enum_of_code_def split: option.splits)
  then show "n = code x" by (auto simp: find_Some_iff)
next
  assume "n = code x"
  then show "enum_of_code members code n = Inr x" by (simp add: of_code_code)
qed

lemma of_code_Inl_iff: "enum_of_code members code n = Inl e \<longleftrightarrow> e = ValueError \<and> n \<notin> range code"
proof -
  have "find (\<lambda>y. code y = n) members = None \<longleftrightarrow> n \<notin> range code"
    using all_members by (auto simp: find_None_iff)
  then show ?thesis by (auto simp: enum_of_code_def split: option.splits)
qed

end

subsection \<open>Text\<close>

text \<open>
  \<open>str.lower\<close> on ASCII text.  The code only compares its result with ASCII
  literals, which no other text lowers to.
\<close>

definition lower_char :: "char \<Rightarrow> char" where
  "lower_char c = (let n = (of_char c :: nat) in if 65 \<le> n \<and> n \<le> 90 then char_of (n + 32) else c)"

definition py_lower :: "string \<Rightarrow> string" where
  "py_lower s = map lower_char s"

lemma lower_char_idem [simp]: "lower_char (lower_char c) = lower_char c"
  by (auto simp: lower_char_def Let_def)

lemma py_lower_idem [simp]: "py_lower (py_lower s) = py_lower s"
  by (simp add: py_lower_def)

text \<open>Decimal text of an int, as an f-string prints it.\<close>

fun show_nat :: "nat \<Rightarrow> string" where
  "show_nat n = (if n < 10 then [char_of (48 + n)] else show_nat (n div 10) @ [char_of (48 + n mod 10)])"

declare show_nat.simps [simp del]

definition show_int :: "int \<Rightarrow> string" where
  "show_int k = (if k < 0 then ''-'' @ show_nat (nat (- k)) else show_nat (nat k))"

text \<open>\<open>sub in s\<close> of two strings.\<close>

fun contains :: "string \<Rightarrow> string \<Rightarrow> bool" where
  "contains sub [] \<longleftrightarrow> sub = []"
| "contains sub (c # s) \<longleftrightarrow> take (length sub) (c # s) = sub \<or> contains sub s"

subsection \<open>Slices and chunks\<close>

text \<open>\<open>xs[i:j]\<close> for \<open>0 \<le> i \<le> j\<close>: out-of-range bounds are cut, never an error.\<close>

definition slice :: "nat \<Rightarrow> nat \<Rightarrow> 'a list \<Rightarrow> 'a list" where
  "slice i j xs = take (j - i) (drop i xs)"

lemma length_slice [simp]: "length (slice i j xs) = min (j - i) (length xs - i)"
  by (simp add: slice_def min.commute)

lemma slice_all [simp]: "slice 0 (length xs) xs = xs"
  by (simp add: slice_def)

lemma slice_append_left: "j \<le> length xs \<Longrightarrow> slice i j (xs @ ys) = slice i j xs"
  by (cases "i \<le> j") (auto simp: slice_def)

lemma slice_append_right:
  "length xs \<le> i \<Longrightarrow> slice i j (xs @ ys) = slice (i - length xs) (j - length xs) ys"
  by (simp add: slice_def)

lemma slice_exact: "length xs = n \<Longrightarrow> slice 0 n (xs @ ys) = xs"
  by (simp add: slice_def)

text \<open>\<open>xs[:n]\<close>.\<close>

definition first_n :: "int \<Rightarrow> 'a list \<Rightarrow> 'a list" where
  "first_n n xs = (if 0 \<le> n then take (nat n) xs else take (nat (int (length xs) + n)) xs)"

lemma first_n_map: "first_n n (map f xs) = map f (first_n n xs)"
  by (simp add: first_n_def take_map)

lemma first_n_subset: "x \<in> set (first_n n xs) \<Longrightarrow> x \<in> set xs"
  by (auto simp: first_n_def dest: in_set_takeD split: if_splits)

text \<open>A new key goes to the end of a dict.\<close>

lemma update_new_key: "k \<notin> fst ` set al \<Longrightarrow> AList.update k v al = al @ [(k, v)]"
  by (induction al) auto

text \<open>
  \<open>[xs[i:i + n] for i in range(0, len(xs), n)]\<close>: the chunks of a list.  The
  step is positive wherever the code reaches it.
\<close>

function chunks :: "nat \<Rightarrow> 'a list \<Rightarrow> 'a list list" where
  "chunks n xs = (if xs = [] \<or> n = 0 then [] else take n xs # chunks n (drop n xs))"
  by pat_completeness auto
termination
  by (relation "measure (\<lambda>(n, xs). length xs)") auto

declare chunks.simps [simp del]

lemma chunks_Nil [simp]: "chunks n [] = []"
  by (subst chunks.simps) simp

lemma chunks_step: "xs \<noteq> [] \<Longrightarrow> 0 < n \<Longrightarrow> chunks n xs = take n xs # chunks n (drop n xs)"
  by (subst chunks.simps) simp

lemma concat_chunks: "0 < n \<Longrightarrow> concat (chunks n xs) = xs"
proof (induction n xs rule: chunks.induct)
  case (1 n xs)
  then show ?case by (cases "xs = []") (auto simp: chunks_step)
qed

lemma chunks_bounds: "ys \<in> set (chunks n xs) \<Longrightarrow> 0 < length ys \<and> length ys \<le> n"
proof (induction n xs rule: chunks.induct)
  case (1 n xs)
  show ?case
  proof (cases "xs = [] \<or> n = 0")
    case True
    with "1.prems" show ?thesis by (simp add: chunks.simps [of n xs])
  next
    case False
    with "1.prems" consider "ys = take n xs" | "ys \<in> set (chunks n (drop n xs))"
      by (auto simp: chunks.simps [of n xs])
    then show ?thesis
      using False "1.IH" by cases auto
  qed
qed

lemma chunks_all_but_last_full:
  "i + 1 < length (chunks n xs) \<Longrightarrow> length (chunks n xs ! i) = n"
proof (induction n xs arbitrary: i rule: chunks.induct)
  case (1 n xs)
  have ne: "\<not> (xs = [] \<or> n = 0)"
    using "1.prems" by (auto simp: chunks.simps [of n xs] split: if_splits)
  have long: "n < length xs"
  proof (rule ccontr)
    assume "\<not> n < length xs"
    then have "chunks n (drop n xs) = []" by simp
    with "1.prems" ne show False by (simp add: chunks.simps [of n xs])
  qed
  show ?case
  proof (cases i)
    case 0
    with ne long show ?thesis by (simp add: chunks.simps [of n xs])
  next
    case (Suc k)
    with "1.prems" ne have "k + 1 < length (chunks n (drop n xs))"
      by (simp add: chunks.simps [of n xs])
    with "1.IH" ne have "length (chunks n (drop n xs) ! k) = n" by blast
    with ne Suc show ?thesis by (simp add: chunks.simps [of n xs])
  qed
qed

subsection \<open>Bytes and little-endian integers\<close>

type_synonym byte = "8 word"
type_synonym bytes = "byte list"

text \<open>\<open>le_bytes n k\<close>: the \<open>n\<close> low bytes of \<open>k\<close>, least significant first.\<close>

fun le_bytes :: "nat \<Rightarrow> int \<Rightarrow> bytes" where
  "le_bytes 0 k = []"
| "le_bytes (Suc n) k = word_of_int k # le_bytes n (k div 256)"

text \<open>\<open>int.from_bytes(bs, 'little')\<close>, and the unsigned \<open>struct\<close> formats.\<close>

fun le_int :: "bytes \<Rightarrow> int" where
  "le_int [] = 0"
| "le_int (b # bs) = uint b + 256 * le_int bs"

text \<open>The signed \<open>struct\<close> formats (\<open>q\<close>, \<open>i\<close>): two's complement.\<close>

definition le_sint :: "bytes \<Rightarrow> int" where
  "le_sint bs = (let u = le_int bs; m = 256 ^ length bs in if 2 * u < m then u else u - m)"

lemma length_le_bytes [simp, byte_simps]: "length (le_bytes n k) = n"
  by (induction n arbitrary: k) auto

lemma le_int_bounds: "0 \<le> le_int bs \<and> le_int bs < 256 ^ length bs"
proof (induction bs)
  case Nil
  then show ?case by simp
next
  case (Cons b bs)
  have "uint b < 256" using uint_lt2p [of b] by simp
  with Cons show ?case using uint_ge_0 [of b] by auto
qed

lemma le_int_le_bytes: "le_int (le_bytes n k) = k mod 256 ^ n"
proof (induction n arbitrary: k)
  case 0
  then show ?case by simp
next
  case (Suc n)
  have "uint (word_of_int k :: byte) = k mod 256"
    by (simp add: uint_word_of_int)
  with Suc show ?case
    by (simp add: mod_mult2_eq' mod_mult2_eq zmod_zmult2_eq)
qed

lemma le_int_le_bytes_id [byte_simps]:
  "0 \<le> k \<Longrightarrow> k < 256 ^ n \<Longrightarrow> le_int (le_bytes n k) = k"
  by (simp add: le_int_le_bytes)

lemma byte_256_times [simp]: "(256 :: byte) * w = 0"
proof -
  have "(256 :: byte) = 0" by simp
  then show ?thesis by (simp only: mult_zero_left)
qed

lemma le_bytes_le_int: "length bs = n \<Longrightarrow> le_bytes n (le_int bs) = bs"
proof (induction bs arbitrary: n)
  case Nil
  then show ?case by simp
next
  case (Cons b bs)
  then obtain m where n: "n = Suc m" and m: "length bs = m" by (cases n) auto
  have lt: "uint b < 256" and ge: "0 \<le> uint b"
    using uint_lt2p [of b] by simp_all
  then have "(uint b + 256 * le_int bs) div 256 = le_int bs" by simp
  moreover have "word_of_int (uint b + 256 * le_int bs) = b"
  proof -
    have "word_of_int (256 * le_int bs) = (0 :: byte)" by simp
    then show ?thesis by (metis add.right_neutral of_int_add word_of_int_uint)
  qed
  ultimately show ?case using Cons.IH [OF m] n by simp
qed

lemma le_sint_le_bytes [byte_simps]:
  assumes "- (256 ^ n) \<le> 2 * k" and "2 * k < 256 ^ n" and "0 < n"
  shows "le_sint (le_bytes n k) = k"
proof (cases "0 \<le> k")
  case True
  with assms have "le_int (le_bytes n k) = k" by (simp add: le_int_le_bytes)
  with assms show ?thesis by (simp add: le_sint_def Let_def)
next
  case False
  have "k mod 256 ^ n = k + 256 ^ n"
  proof -
    have "(k + 256 ^ n) mod 256 ^ n = k + 256 ^ n"
      using False assms by (intro mod_pos_pos_trivial) auto
    then show ?thesis by simp
  qed
  with False assms show ?thesis by (simp add: le_sint_def Let_def le_int_le_bytes)
qed

lemma le_sint_bounds:
  "- (256 ^ length bs) \<le> 2 * le_sint bs \<and> 2 * le_sint bs < 256 ^ length bs \<or> bs = []"
  using le_int_bounds [of bs] by (auto simp: le_sint_def Let_def)

text \<open>
  The bounds checks of Python: \<open>int.to_bytes(n, 'little')\<close> raises
  \<open>OverflowError\<close>, the integer formats of \<open>struct.pack\<close> raise \<open>struct.error\<close>.
\<close>

definition to_bytes_little :: "nat \<Rightarrow> int \<Rightarrow> (py_exn, bytes) result" where
  "to_bytes_little n k =
     (if 0 \<le> k \<and> k < 256 ^ n then Inr (le_bytes n k) else Inl OverflowError)"

definition pack_uint :: "nat \<Rightarrow> int \<Rightarrow> (py_exn, bytes) result" where
  "pack_uint n k =
     (if 0 \<le> k \<and> k < 256 ^ n then Inr (le_bytes n k) else Inl StructError)"

definition pack_sint :: "nat \<Rightarrow> int \<Rightarrow> (py_exn, bytes) result" where
  "pack_sint n k =
     (if - (256 ^ n) \<le> 2 * k \<and> 2 * k < 256 ^ n then Inr (le_bytes n k) else Inl StructError)"

lemma to_bytes_little_ok [simp]:
  "0 \<le> k \<Longrightarrow> k < 256 ^ n \<Longrightarrow> to_bytes_little n k = Inr (le_bytes n k)"
  by (simp add: to_bytes_little_def)

lemma pack_uint_ok [simp]:
  "0 \<le> k \<Longrightarrow> k < 256 ^ n \<Longrightarrow> pack_uint n k = Inr (le_bytes n k)"
  by (simp add: pack_uint_def)

lemma pack_sint_ok [simp]:
  "- (256 ^ n) \<le> 2 * k \<Longrightarrow> 2 * k < 256 ^ n \<Longrightarrow> pack_sint n k = Inr (le_bytes n k)"
  by (simp add: pack_sint_def)

lemma pack_Inr_iff:
  "to_bytes_little n k = Inr bs \<longleftrightarrow> 0 \<le> k \<and> k < 256 ^ n \<and> bs = le_bytes n k"
  "pack_uint n k = Inr bs \<longleftrightarrow> 0 \<le> k \<and> k < 256 ^ n \<and> bs = le_bytes n k"
  "pack_sint n k = Inr bs \<longleftrightarrow> - (256 ^ n) \<le> 2 * k \<and> 2 * k < 256 ^ n \<and> bs = le_bytes n k"
  by (auto simp: to_bytes_little_def pack_uint_def pack_sint_def)

subsection \<open>Fixed-width codecs\<close>

text \<open>
  The interface of every fixed-width wire record: an encoder of constant width
  and a decoder that inverts it on the values that fit.  An array of such
  records is the concatenation of their encodings; the lemma below is the one
  induction that every array of the wire protocol rests on.
\<close>

locale fixed_codec =
  fixes enc :: "'a \<Rightarrow> bytes"
    and dec :: "bytes \<Rightarrow> 'a"
    and fits :: "'a \<Rightarrow> bool"
    and width :: nat
  assumes width_pos: "0 < width"
    and enc_width: "length (enc x) = width"
    and dec_enc: "fits x \<Longrightarrow> dec (enc x) = x"
begin

lemma length_array: "length (concat (map enc xs)) = width * length xs"
  by (induction xs) (simp_all add: enc_width)

lemma chunks_array: "chunks width (concat (map enc xs)) = map enc xs"
proof (induction xs)
  case Nil
  then show ?case by simp
next
  case (Cons x xs)
  have "enc x @ concat (map enc xs) \<noteq> []"
    using width_pos enc_width [of x] by (cases "enc x") auto
  with Cons width_pos show ?case
    by (simp add: chunks_step enc_width)
qed

lemma array_roundtrip:
  "(\<And>x. x \<in> set xs \<Longrightarrow> fits x) \<Longrightarrow> map dec (chunks width (concat (map enc xs))) = xs"
  by (simp add: chunks_array dec_enc map_idI)

lemma array_element:
  assumes "i < length xs" and "fits (xs ! i)"
  shows "dec (slice (width * i) (width * i + width) (concat (map enc xs) @ rest)) = xs ! i"
  using assms
proof (induction xs arbitrary: i)
  case Nil
  then show ?case by simp
next
  case (Cons x xs)
  show ?case
  proof (cases i)
    case 0
    with Cons.prems show ?thesis by (simp add: slice_def enc_width dec_enc)
  next
    case (Suc k)
    have "slice (width * i) (width * i + width) (concat (map enc (x # xs)) @ rest)
        = slice (width * k) (width * k + width) (concat (map enc xs) @ rest)"
      using Suc by (simp add: slice_append_right enc_width add.commute)
    with Suc Cons show ?thesis by simp
  qed
qed

end

interpretation u32_codec: fixed_codec "le_bytes 4" le_int "\<lambda>k. 0 \<le> k \<and> k < 2 ^ 32" 4
  by unfold_locales (auto simp: le_int_le_bytes)

interpretation u128_codec: fixed_codec "le_bytes 16" le_int "\<lambda>k. 0 \<le> k \<and> k < 2 ^ 128" 16
  by unfold_locales (auto simp: le_int_le_bytes)

end
