(* ===== verification/Py_Float.thy ===== *)
theory Py_Float
  imports Prelude
begin

section \<open>Python floats: IEEE 754 binary64 on rationals\<close>

text \<open>
  A Python \<open>float\<close> is an IEEE 754 binary64 number.  A finite one is modelled by
  the rational it denotes, and every arithmetic operation by the exact rational
  operation followed by \<open>fl\<close>, the rounding to nearest with ties to even that
  IEEE 754 and CPython prescribe, with the 53-bit significand, the gradual
  underflow below \<open>2 ^ -1022\<close> and the overflow to an infinity at \<open>2 ^ 1024\<close>.
  The two zeros are one value here: no modelled operation tells them apart.
\<close>

subsection \<open>Rounding a rational to an integer\<close>

text \<open>Round half to even: Python's \<open>round\<close>, and the rounding of a significand.\<close>

definition rhe :: "rat \<Rightarrow> int" where
  "rhe x = (let f = \<lfloor>x\<rfloor>; d = x - of_int f in
     if d < 1 / 2 then f
     else if 1 / 2 < d then f + 1
     else if even f then f else f + 1)"

text \<open>Truncation towards zero: Python's \<open>int\<close> of a float.\<close>

definition trunc :: "rat \<Rightarrow> int" where
  "trunc x = (if 0 \<le> x then \<lfloor>x\<rfloor> else \<lceil>x\<rceil>)"

lemma rhe_of_int [simp]: "rhe (of_int n) = n"
  by (simp add: rhe_def)

lemma rhe_error: "\<bar>of_int (rhe x) - x\<bar> \<le> 1 / 2"
proof -
  have "of_int \<lfloor>x\<rfloor> \<le> x" and "x < of_int \<lfloor>x\<rfloor> + 1" by linarith+
  then show ?thesis by (auto simp: rhe_def Let_def abs_le_iff)
qed

lemma rhe_floor_cases: "rhe x = \<lfloor>x\<rfloor> \<or> rhe x = \<lfloor>x\<rfloor> + 1"
  by (simp add: rhe_def Let_def)

lemma rhe_mono: "x \<le> y \<Longrightarrow> rhe x \<le> rhe y"
proof -
  assume le: "x \<le> y"
  then have fle: "\<lfloor>x\<rfloor> \<le> \<lfloor>y\<rfloor>" by (rule floor_mono)
  show ?thesis
  proof (cases "\<lfloor>x\<rfloor> = \<lfloor>y\<rfloor>")
    case True
    with le show ?thesis by (auto simp: rhe_def Let_def)
  next
    case False
    with fle have "\<lfloor>x\<rfloor> + 1 \<le> \<lfloor>y\<rfloor>" by simp
    then show ?thesis using rhe_floor_cases [of x] rhe_floor_cases [of y] by auto
  qed
qed

lemma rhe_unique: "\<bar>of_int n - x\<bar> < 1 / 2 \<Longrightarrow> rhe x = n"
proof -
  assume "\<bar>of_int n - x\<bar> < 1 / 2"
  moreover have "\<bar>of_int (rhe x) - x\<bar> \<le> 1 / 2" by (rule rhe_error)
  ultimately have "\<bar>of_int (rhe x) - (of_int n :: rat)\<bar> < 1" by linarith
  then have "\<bar>of_int (rhe x - n) :: rat\<bar> < 1" by simp
  then have "\<bar>rhe x - n\<bar> < 1" by linarith
  then show ?thesis by simp
qed

lemma rhe_minus: "rhe (- x) = - rhe x"
proof (cases "x = of_int \<lfloor>x\<rfloor>")
  case True
  then have "- x = of_int (- \<lfloor>x\<rfloor>)" by simp
  then have "rhe (- x) = - \<lfloor>x\<rfloor>" using rhe_of_int by metis
  moreover have "rhe x = \<lfloor>x\<rfloor>" using True rhe_of_int by metis
  ultimately show ?thesis by simp
next
  case False
  then have lt: "of_int \<lfloor>x\<rfloor> < x" "x < of_int \<lfloor>x\<rfloor> + 1" by (metis floor_correct le_less, linarith)
  then have "\<lfloor>- x\<rfloor> = - \<lfloor>x\<rfloor> - 1" by (intro floor_unique) auto
  with lt show ?thesis by (auto simp: rhe_def Let_def)
qed

lemma trunc_of_int [simp]: "trunc (of_int n) = n"
  by (simp add: trunc_def)

subsection \<open>The binary exponent\<close>

definition ilog2 :: "rat \<Rightarrow> int" where
  "ilog2 x = (let pq = quotient_of x; k = bitlen (fst pq) - bitlen (snd pq)
     in if 2 powi k \<le> x then k else k - 1)"

lemma bitlen_powi_bounds:
  assumes "0 < n"
  shows "(2 :: rat) powi (bitlen n - 1) \<le> of_int n" and "of_int n < (2 :: rat) powi bitlen n"
proof -
  have b: "2 ^ nat (bitlen n - 1) \<le> n" "n < 2 ^ nat (bitlen n)"
    using bitlen_bounds [OF assms] by auto
  have "1 \<le> bitlen n" using assms bitlen_eq_zero_iff [of n] bitlen_nonneg [of n] by linarith
  then have "(2 :: rat) powi (bitlen n - 1) = of_int (2 ^ nat (bitlen n - 1))"
    and "(2 :: rat) powi bitlen n = of_int (2 ^ nat (bitlen n))"
    by (simp_all add: power_int_def)
  then show "(2 :: rat) powi (bitlen n - 1) \<le> of_int n" and "of_int n < (2 :: rat) powi bitlen n"
    using b by (metis of_int_le_iff, metis of_int_less_iff)
qed

lemma ilog2_bounds:
  assumes "0 < x"
  shows "2 powi ilog2 x \<le> x" and "x < 2 powi (ilog2 x + 1)"
proof -
  obtain p q where pq: "quotient_of x = (p, q)" by fastforce
  have q: "0 < q" using pq by (rule quotient_of_denom_pos)
  have x: "x = of_int p / of_int q" using pq by (rule quotient_of_div)
  have p: "0 < p" using assms q x by (simp add: zero_less_divide_iff)
  let ?k = "bitlen p - bitlen q"
  have up: "x < 2 powi (?k + 1)"
  proof -
    have "x < 2 powi bitlen p / 2 powi (bitlen q - 1)"
      unfolding x using bitlen_powi_bounds(2) [OF p] bitlen_powi_bounds(1) [OF q] p q
      by (intro frac_less) auto
    also have "\<dots> = 2 powi (?k + 1)"
      by (simp add: power_int_diff [symmetric] algebra_simps)
    finally show ?thesis .
  qed
  have lo: "2 powi (?k - 1) \<le> x"
  proof -
    have "2 powi (?k - 1) = 2 powi (bitlen p - 1) / (2 :: rat) powi bitlen q"
      by (simp add: power_int_diff [symmetric] algebra_simps)
    also have "\<dots> \<le> x"
      unfolding x using bitlen_powi_bounds(1) [OF p] less_imp_le [OF bitlen_powi_bounds(2) [OF q]] p q
      by (intro frac_le) auto
    finally show ?thesis .
  qed
  show "2 powi ilog2 x \<le> x" and "x < 2 powi (ilog2 x + 1)"
    using up lo by (auto simp: ilog2_def pq Let_def)
qed

lemma powi2_less_iff [simp]: "(2 :: rat) powi a < 2 powi b \<longleftrightarrow> a < b"
  by (metis linorder_not_less one_less_numeral_iff power_int_increasing power_int_strict_increasing one_le_numeral semiring_norm(76))

lemma powi2_le_iff [simp]: "(2 :: rat) powi a \<le> 2 powi b \<longleftrightarrow> a \<le> b"
  by (metis linorder_not_less powi2_less_iff)

lemma ilog2_mono: "0 < x \<Longrightarrow> x \<le> y \<Longrightarrow> ilog2 x \<le> ilog2 y"
proof -
  assume x: "0 < x" and xy: "x \<le> y"
  have "2 powi ilog2 x < (2 :: rat) powi (ilog2 y + 1)"
    using ilog2_bounds [of x] ilog2_bounds [of y] x xy by linarith
  then show ?thesis by simp
qed

lemma ilog2_unique: "2 powi e \<le> x \<Longrightarrow> x < 2 powi (e + 1) \<Longrightarrow> ilog2 x = e"
proof -
  assume lo: "2 powi e \<le> x" and hi: "x < 2 powi (e + 1)"
  have pos: "0 < x" using lo by (rule less_le_trans [rotated]) simp
  have "2 powi e < (2 :: rat) powi (ilog2 x + 1)" "2 powi ilog2 x < (2 :: rat) powi (e + 1)"
    using ilog2_bounds [OF pos] lo hi by linarith+
  then show ?thesis by simp
qed

subsection \<open>Rounding to binary64\<close>

definition fexp :: "rat \<Rightarrow> int" where
  "fexp x = max (ilog2 \<bar>x\<bar> - 52) (- 1074)"

definition fl :: "rat \<Rightarrow> rat" where
  "fl x = (if x = 0 then 0 else of_int (rhe (x / 2 powi fexp x)) * 2 powi fexp x)"

lemma fl_0 [simp]: "fl 0 = 0"
  by (simp add: fl_def)

lemma fl_minus [simp]: "fl (- x) = - fl x"
  by (simp add: fl_def fexp_def rhe_minus)

lemma fexp_mono: "0 < x \<Longrightarrow> x \<le> y \<Longrightarrow> fexp x \<le> fexp y"
  using ilog2_mono [of x y] by (simp add: fexp_def)

text \<open>A significand has at most 53 bits.\<close>

lemma significand_less: "0 < x \<Longrightarrow> x / 2 powi fexp x < 2 ^ 53"
proof -
  assume x: "0 < x"
  have "x < 2 powi (ilog2 x + 1)" by (rule ilog2_bounds(2) [OF x])
  also have "\<dots> \<le> 2 powi (fexp x + 53)" using x by (simp add: fexp_def)
  also have "\<dots> = 2 ^ 53 * 2 powi fexp x"
    by (simp add: power_int_add power_int_numeral)
  finally show ?thesis by (simp add: divide_less_eq)
qed

lemma rhe_significand_le: "\<bar>rhe (x / 2 powi fexp x)\<bar> \<le> 2 ^ 53"
proof -
  have pos: "\<bar>rhe (y / 2 powi fexp y)\<bar> \<le> 2 ^ 53" if y: "0 < y" for y :: rat
  proof -
    have "rhe (y / 2 powi fexp y) \<le> rhe (of_int (2 ^ 53))"
      using significand_less [OF y] by (intro rhe_mono) simp
    moreover have "rhe (of_int 0) \<le> rhe (y / 2 powi fexp y)"
      using y by (intro rhe_mono) simp
    ultimately show ?thesis by (simp only: rhe_of_int)
  qed
  consider "x = 0" | "0 < x" | "0 < - x" by linarith
  then show ?thesis
  proof cases
    case 1
    then show ?thesis using rhe_of_int [of 0] by simp
  next
    case 2
    then show ?thesis by (rule pos)
  next
    case 3
    from pos [OF 3] show ?thesis by (simp add: rhe_minus fexp_def)
  qed
qed

text \<open>Every value with a 53-bit significand is a float, so rounding keeps it.\<close>

lemma fl_exact:
  assumes "\<bar>m\<bar> \<le> 2 ^ 53" and "- 1074 \<le> k"
  shows "fl (of_int m * 2 powi k) = of_int m * 2 powi k"
proof -
  have pos: "fl (of_int n * 2 powi k) = of_int n * 2 powi k"
    if n: "0 < n" "n \<le> 2 ^ 53" for n
  proof -
    let ?x = "of_int n * 2 powi k :: rat"
    have x: "0 < ?x" using n by simp
    show ?thesis
    proof (cases "fexp ?x \<le> k")
      case True
      have "?x / 2 powi fexp ?x = of_int n * 2 powi (k - fexp ?x)"
        by (simp add: power_int_diff)
      also have "\<dots> = of_int (n * 2 ^ nat (k - fexp ?x))"
        using True by (simp add: power_int_def)
      finally have "rhe (?x / 2 powi fexp ?x) = n * 2 ^ nat (k - fexp ?x)"
        by (simp only: rhe_of_int)
      moreover have "(2 :: rat) ^ nat (k - fexp ?x) * 2 powi fexp ?x = 2 powi k"
      proof -
        have "(2 :: rat) ^ nat (k - fexp ?x) = 2 powi (k - fexp ?x)"
          using True by (simp add: power_int_def)
        then show ?thesis by (simp flip: power_int_add)
      qed
      ultimately show ?thesis using x by (simp add: fl_def)
    next
      case False
      then have k: "k < ilog2 ?x - 52" using x assms(2) by (simp add: fexp_def abs_of_pos)
      have "(2 :: rat) powi (ilog2 ?x) \<le> ?x" by (rule ilog2_bounds(1) [OF x])
      also have "?x \<le> 2 ^ 53 * 2 powi k"
        using n by (intro mult_right_mono) (simp_all flip: of_int_le_iff)
      also have "\<dots> = 2 powi (k + 53)" by (simp add: power_int_add)
      finally have "ilog2 ?x = k + 53" using k by simp
      moreover have "?x = 2 powi (k + 53)"
        using \<open>2 powi ilog2 ?x \<le> ?x\<close> \<open>?x \<le> 2 ^ 53 * 2 powi k\<close> calculation
        by (simp add: power_int_add)
      ultimately have i: "ilog2 ?x = k + 53" and "?x = 2 powi (k + 53)" by blast+
      then have e: "fexp ?x = k + 1"
        unfolding fexp_def abs_of_pos [OF x] i using assms(2) by simp
      moreover have "?x = of_int (2 ^ 52) * 2 powi (k + 1)"
        unfolding \<open>?x = 2 powi (k + 53)\<close> by (simp add: power_int_add)
      ultimately show ?thesis using x by (simp add: fl_def rhe_of_int [of "2 ^ 52", simplified])
    qed
  qed
  consider "m = 0" | "0 < m" | "0 < - m" by linarith
  then show ?thesis
  proof cases
    case 1
    then show ?thesis by simp
  next
    case 2
    with pos assms(1) show ?thesis by simp
  next
    case 3
    with pos [of "- m"] assms(1) show ?thesis by simp
  qed
qed

lemma fl_of_int [simp]: "\<bar>n\<bar> \<le> 2 ^ 53 \<Longrightarrow> fl (of_int n) = of_int n"
  using fl_exact [of n 0] by simp

lemma fl_idem: "fl (fl x) = fl x"
  using fl_exact [OF rhe_significand_le, of "fexp x" x] by (simp add: fl_def [of x] fexp_def)

lemma fl_nonneg: "0 \<le> x \<Longrightarrow> 0 \<le> fl x"
proof -
  assume "0 \<le> x"
  then have "rhe (of_int 0) \<le> rhe (x / 2 powi fexp x)" by (intro rhe_mono) simp
  then show ?thesis by (simp add: fl_def rhe_of_int [of 0, simplified])
qed

lemma fl_mono_pos:
  assumes x: "0 < x" and xy: "x \<le> y"
  shows "fl x \<le> fl y"
proof (cases "fexp x = fexp y")
  case True
  have "rhe (x / 2 powi fexp x) \<le> rhe (y / 2 powi fexp x)"
    using xy by (intro rhe_mono divide_right_mono) simp_all
  with True x xy show ?thesis by (simp add: fl_def)
next
  case False
  with fexp_mono [OF x xy] have lt: "fexp x < fexp y" by simp
  have y: "0 < y" using x xy by simp
  have "- 1074 \<le> fexp x" by (simp add: fexp_def)
  with lt y have e: "fexp y = ilog2 y - 52" by (simp add: fexp_def [of y] max_def split: if_splits)
  have "fl x \<le> 2 ^ 53 * 2 powi fexp x"
  proof -
    have "(of_int (rhe (x / 2 powi fexp x)) :: rat) \<le> of_int (2 ^ 53)"
      using rhe_significand_le [of x] by (simp only: of_int_le_iff abs_le_iff)
    then have "of_int (rhe (x / 2 powi fexp x)) * 2 powi fexp x \<le> (2 ^ 53 :: rat) * 2 powi fexp x"
      by (intro mult_right_mono) simp_all
    with x show ?thesis by (simp add: fl_def)
  qed
  also have "\<dots> = 2 powi (fexp x + 53)" by (simp add: power_int_add)
  also have "\<dots> \<le> 2 powi (ilog2 y)" using lt e by simp
  also have "\<dots> \<le> fl y"
  proof -
    have "2 powi ilog2 y = 2 ^ 52 * (2 :: rat) powi fexp y" by (simp add: e power_int_diff)
    moreover have "of_int (2 ^ 52) \<le> y / 2 powi fexp y"
      using ilog2_bounds(1) [OF y] calculation by (simp add: le_divide_eq)
    then have "rhe (of_int (2 ^ 52)) \<le> rhe (y / 2 powi fexp y)" by (rule rhe_mono)
    then have "2 ^ 52 \<le> rhe (y / 2 powi fexp y)" by (simp only: rhe_of_int)
    then have "(of_int (2 ^ 52) :: rat) \<le> of_int (rhe (y / 2 powi fexp y))"
      by (simp only: of_int_le_iff)
    then have "(2 ^ 52 :: rat) * 2 powi fexp y \<le> of_int (rhe (y / 2 powi fexp y)) * 2 powi fexp y"
      by (intro mult_right_mono) simp_all
    ultimately show ?thesis using y by (simp add: fl_def)
  qed
  finally show ?thesis .
qed

lemma fl_mono: "x \<le> y \<Longrightarrow> fl x \<le> fl y"
proof -
  assume xy: "x \<le> y"
  consider "0 < x" | "x \<le> 0" "0 \<le> y" | "y < 0" by linarith
  then show ?thesis
  proof cases
    case 1
    then show ?thesis using xy by (rule fl_mono_pos)
  next
    case 2
    then have "fl x \<le> 0" using fl_nonneg [of "- x"] by simp
    also have "0 \<le> fl y" using 2 by (intro fl_nonneg)
    finally show ?thesis .
  next
    case 3
    then show ?thesis using fl_mono_pos [of "- y" "- x"] xy by simp
  qed
qed

text \<open>In the normal range the relative error is at most half a unit in the last place.\<close>

lemma fl_error:
  assumes "2 powi (- 1022) \<le> \<bar>x\<bar>"
  shows "\<bar>fl x - x\<bar> \<le> \<bar>x\<bar> / 2 ^ 53"
proof -
  have x0: "x \<noteq> 0" using assms power_int_not_zero [of "2 :: rat" "- 1022"] by auto
  then have x: "0 < \<bar>x\<bar>" by simp
  have "2 powi (- 1022) < (2 :: rat) powi (ilog2 \<bar>x\<bar> + 1)"
    using assms ilog2_bounds(2) [OF x] by linarith
  then have "- 1022 < ilog2 \<bar>x\<bar> + 1" by (simp only: powi2_less_iff)
  then have e: "fexp x = ilog2 \<bar>x\<bar> - 52" by (simp add: fexp_def)
  let ?u = "2 powi fexp x :: rat"
  have u: "0 < ?u" by simp
  have "\<bar>of_int (rhe (x / ?u)) - x / ?u\<bar> * ?u \<le> 1 / 2 * ?u"
    using u by (intro mult_right_mono rhe_error) simp
  moreover have "\<bar>of_int (rhe (x / ?u)) - x / ?u\<bar> * ?u = \<bar>fl x - x\<bar>"
  proof -
    have "\<bar>of_int (rhe (x / ?u)) - x / ?u\<bar> * ?u = \<bar>(of_int (rhe (x / ?u)) - x / ?u) * ?u\<bar>"
      using u by (simp add: abs_mult)
    also have "\<dots> = \<bar>fl x - x\<bar>" using x0 u by (simp add: fl_def left_diff_distrib)
    finally show ?thesis .
  qed
  moreover have "1 / 2 * ?u = 2 powi ilog2 \<bar>x\<bar> / 2 ^ 53"
    by (simp add: e power_int_diff)
  moreover have "2 powi ilog2 \<bar>x\<bar> / 2 ^ 53 \<le> \<bar>x\<bar> / 2 ^ 53"
    using ilog2_bounds(1) [OF x] by (intro divide_right_mono) simp_all
  ultimately show ?thesis by linarith
qed

lemma fl_error_normal:
  assumes "1 / 2 ^ n \<le> \<bar>x\<bar>" and "n \<le> 1022"
  shows "\<bar>fl x - x\<bar> \<le> \<bar>x\<bar> / 2 ^ 53"
proof (rule fl_error)
  have "2 powi (- 1022) \<le> (2 :: rat) powi (- int n)" using assms(2) by (simp only: powi2_le_iff)
  also have "\<dots> = 1 / 2 ^ n" by (simp add: power_int_minus divide_inverse)
  also have "\<dots> \<le> \<bar>x\<bar>" by (rule assms(1))
  finally show "2 powi (- 1022) \<le> \<bar>x\<bar>" .
qed

subsection \<open>The float type and its operations\<close>

datatype pyfloat = Fin rat | PInf | NInf | NaN

text \<open>The float nearest to a rational, with overflow to an infinity.\<close>

definition mk_float :: "rat \<Rightarrow> pyfloat" where
  "mk_float x = (let r = fl x in
     if 2 ^ 1024 \<le> r then PInf else if r \<le> - (2 ^ 1024) then NInf else Fin r)"

text \<open>\<open>float(n)\<close> of an int, and the conversion in mixed arithmetic: too large raises.\<close>

definition float_of_int :: "int \<Rightarrow> (py_exn, pyfloat) result" where
  "float_of_int n = (case mk_float (of_int n) of Fin r \<Rightarrow> Inr (Fin r) | _ \<Rightarrow> Inl OverflowError)"

text \<open>\<open>a / b\<close> of two ints: the correctly rounded quotient.\<close>

definition int_truediv :: "int \<Rightarrow> int \<Rightarrow> (py_exn, pyfloat) result" where
  "int_truediv a b =
     (if b = 0 then Inl ZeroDivisionError
      else case mk_float (of_int a / of_int b) of Fin r \<Rightarrow> Inr (Fin r) | _ \<Rightarrow> Inl OverflowError)"

fun f_neg :: "pyfloat \<Rightarrow> pyfloat" where
  "f_neg (Fin x) = Fin (- x)"
| "f_neg PInf = NInf"
| "f_neg NInf = PInf"
| "f_neg NaN = NaN"

fun f_abs :: "pyfloat \<Rightarrow> pyfloat" where
  "f_abs (Fin x) = Fin \<bar>x\<bar>"
| "f_abs NaN = NaN"
| "f_abs _ = PInf"

fun f_add :: "pyfloat \<Rightarrow> pyfloat \<Rightarrow> pyfloat" where
  "f_add (Fin x) (Fin y) = mk_float (x + y)"
| "f_add NaN _ = NaN"
| "f_add _ NaN = NaN"
| "f_add PInf NInf = NaN"
| "f_add NInf PInf = NaN"
| "f_add PInf _ = PInf"
| "f_add NInf _ = NInf"
| "f_add _ PInf = PInf"
| "f_add _ NInf = NInf"

definition f_sub :: "pyfloat \<Rightarrow> pyfloat \<Rightarrow> pyfloat" where
  "f_sub x y = f_add x (f_neg y)"

text \<open>The sign of a non-NaN float: \<open>-1\<close>, \<open>0\<close> or \<open>1\<close>.\<close>

fun f_sgn :: "pyfloat \<Rightarrow> rat" where
  "f_sgn (Fin x) = sgn x"
| "f_sgn PInf = 1"
| "f_sgn NInf = - 1"
| "f_sgn NaN = 0"

definition f_inf :: "rat \<Rightarrow> pyfloat" where
  "f_inf s = (if s = 0 then NaN else if 0 < s then PInf else NInf)"

fun f_mul :: "pyfloat \<Rightarrow> pyfloat \<Rightarrow> pyfloat" where
  "f_mul (Fin x) (Fin y) = mk_float (x * y)"
| "f_mul x y = (if x = NaN \<or> y = NaN then NaN else f_inf (f_sgn x * f_sgn y))"

fun f_div :: "pyfloat \<Rightarrow> pyfloat \<Rightarrow> (py_exn, pyfloat) result" where
  "f_div x (Fin y) =
     (if y = 0 then Inl ZeroDivisionError
      else case x of
          Fin a \<Rightarrow> Inr (mk_float (a / y))
        | NaN \<Rightarrow> Inr NaN
        | _ \<Rightarrow> Inr (f_inf (f_sgn x * sgn y)))"
| "f_div x NaN = Inr NaN"
| "f_div x _ = Inr (case x of Fin a \<Rightarrow> Fin 0 | _ \<Rightarrow> NaN)"

text \<open>Comparisons: every one with a NaN is false.\<close>

fun f_lt :: "pyfloat \<Rightarrow> pyfloat \<Rightarrow> bool" where
  "f_lt (Fin x) (Fin y) \<longleftrightarrow> x < y"
| "f_lt NaN _ \<longleftrightarrow> False"
| "f_lt _ NaN \<longleftrightarrow> False"
| "f_lt x y \<longleftrightarrow> (x = NInf \<and> y \<noteq> NInf) \<or> (y = PInf \<and> x \<noteq> PInf)"

definition f_le :: "pyfloat \<Rightarrow> pyfloat \<Rightarrow> bool" where
  "f_le x y \<longleftrightarrow> f_lt x y \<or> (x = y \<and> x \<noteq> NaN)"

lemma f_le_Fin [simp]: "f_le (Fin x) (Fin y) \<longleftrightarrow> x \<le> y"
  by (auto simp: f_le_def)

lemma f_le_NaN [simp]: "\<not> f_le NaN y" "\<not> f_le x NaN"
  by (cases y; simp add: f_le_def) (cases x; simp add: f_le_def)

lemma f_le_Inf [simp]:
  "f_le x PInf \<longleftrightarrow> x \<noteq> NaN" "f_le NInf x \<longleftrightarrow> x \<noteq> NaN"
  "f_le PInf (Fin y) \<longleftrightarrow> False" "f_le (Fin y) NInf \<longleftrightarrow> False"
  by (cases x; simp add: f_le_def)+

text \<open>\<open>min\<close> and \<open>max\<close> of two floats: the first one unless the second is strictly better.\<close>

definition py_min :: "pyfloat \<Rightarrow> pyfloat \<Rightarrow> pyfloat" where
  "py_min a b = (if f_lt b a then b else a)"

definition py_max :: "pyfloat \<Rightarrow> pyfloat \<Rightarrow> pyfloat" where
  "py_max a b = (if f_lt a b then b else a)"

text \<open>
  The order in which sorting by a float key puts its values.  Without a NaN it is the
  order of the comparisons above; a NaN, on which Python's sort has no order, is put
  last.
\<close>

instantiation pyfloat :: linorder
begin

definition less_eq_pyfloat :: "pyfloat \<Rightarrow> pyfloat \<Rightarrow> bool" where
  "less_eq_pyfloat x y \<longleftrightarrow> y = NaN \<or> f_le x y"

definition less_pyfloat :: "pyfloat \<Rightarrow> pyfloat \<Rightarrow> bool" where
  "less_pyfloat x y \<longleftrightarrow> x \<le> y \<and> \<not> y \<le> (x :: pyfloat)"

instance
proof
  fix x y z :: pyfloat
  show "x < y \<longleftrightarrow> x \<le> y \<and> \<not> y \<le> x" by (rule less_pyfloat_def)
  show "x \<le> x" by (cases x) (simp_all add: less_eq_pyfloat_def f_le_def)
  show "x \<le> y \<Longrightarrow> y \<le> z \<Longrightarrow> x \<le> z"
    by (cases x; cases y; cases z) (auto simp: less_eq_pyfloat_def f_le_def)
  show "x \<le> y \<Longrightarrow> y \<le> x \<Longrightarrow> x = y"
    by (cases x; cases y) (auto simp: less_eq_pyfloat_def f_le_def)
  show "x \<le> y \<or> y \<le> x"
    by (cases x; cases y) (auto simp: less_eq_pyfloat_def f_le_def)
qed

end

lemma le_float_iff: "y \<noteq> NaN \<Longrightarrow> x \<le> y \<longleftrightarrow> f_le x y"
  by (simp add: less_eq_pyfloat_def)

lemma le_Fin_iff [simp]: "Fin x \<le> Fin y \<longleftrightarrow> x \<le> y"
  by (simp add: less_eq_pyfloat_def)

text \<open>\<open>round(x)\<close> and \<open>int(x)\<close>: an infinity or a NaN raises.\<close>

fun py_round :: "pyfloat \<Rightarrow> (py_exn, int) result" where
  "py_round (Fin x) = Inr (rhe x)"
| "py_round NaN = Inl ValueError"
| "py_round _ = Inl OverflowError"

fun py_int :: "pyfloat \<Rightarrow> (py_exn, int) result" where
  "py_int (Fin x) = Inr (trunc x)"
| "py_int NaN = Inl ValueError"
| "py_int _ = Inl OverflowError"

text \<open>The finite values that are floats.\<close>

fun is_float :: "pyfloat \<Rightarrow> bool" where
  "is_float (Fin x) \<longleftrightarrow> fl x = x \<and> \<bar>x\<bar> < 2 ^ 1024"
| "is_float _ \<longleftrightarrow> True"

lemma fl_le_of_int: "x \<le> of_int n \<Longrightarrow> \<bar>n\<bar> \<le> 2 ^ 53 \<Longrightarrow> fl x \<le> of_int n"
  using fl_mono [of x "of_int n"] by simp

lemma fl_ge_of_int: "of_int n \<le> x \<Longrightarrow> \<bar>n\<bar> \<le> 2 ^ 53 \<Longrightarrow> of_int n \<le> fl x"
  using fl_mono [of "of_int n" x] by simp

lemma fl_abs: "\<bar>fl x\<bar> = fl \<bar>x\<bar>"
proof (cases "0 \<le> x")
  case True
  then show ?thesis using fl_nonneg by simp
next
  case False
  then have "0 \<le> fl (- x)" by (intro fl_nonneg) simp
  with False show ?thesis by simp
qed

lemma fl_abs_le_pow2:
  assumes "\<bar>x\<bar> \<le> 2 ^ n"
  shows "\<bar>fl x\<bar> \<le> 2 ^ n"
proof -
  have "fl \<bar>x\<bar> \<le> fl (of_int 1 * 2 powi int n)"
    using assms by (intro fl_mono) simp
  also have "\<dots> = of_int 1 * 2 powi int n" by (rule fl_exact) simp_all
  finally show ?thesis by (simp add: fl_abs)
qed

lemma mk_float_Fin:
  assumes "\<bar>x\<bar> \<le> 2 ^ n" and "n < 1024"
  shows "mk_float x = Fin (fl x)"
proof -
  have "\<bar>fl x\<bar> \<le> 2 ^ n" by (rule fl_abs_le_pow2 [OF assms(1)])
  also have "(2 :: rat) ^ n < 2 ^ 1024" using assms(2) by (intro power_strict_increasing) simp_all
  finally show ?thesis by (auto simp: mk_float_def Let_def abs_less_iff)
qed

lemma float_of_int_small: "\<bar>n\<bar> \<le> 2 ^ 53 \<Longrightarrow> float_of_int n = Inr (Fin (of_int n))"
proof -
  assume n: "\<bar>n\<bar> \<le> 2 ^ 53"
  then have "\<bar>of_int n :: rat\<bar> \<le> 2 ^ 53"
    by (metis of_int_abs of_int_le_iff of_int_numeral of_int_power)
  then have "mk_float (of_int n) = Fin (fl (of_int n))" by (rule mk_float_Fin) simp
  with n show ?thesis by (simp add: float_of_int_def)
qed

lemma is_float_mk_float: "is_float (mk_float x)"
  by (auto simp: mk_float_def Let_def fl_idem abs_less_iff)

end
