(* ===== verification/Sdk_Errors.thy ===== *)
theory Sdk_Errors
  imports Prelude
begin

section \<open>Errors of the SDK and their classification\<close>

text \<open>
  The error enums and helpers of \<open>archerdb/errors.py\<close>, the client exceptions of
  \<open>archerdb/client.py\<close>, and the predicate \<open>_is_retryable_error\<close> that the retry
  loop asks.  The two modules have unrelated base classes of the same name
  \<open>ArcherDBError\<close>; here they are the constructors \<open>Distributed\<close> and \<open>Client\<close>.
\<close>

subsection \<open>Distributed error codes\<close>

datatype state_error = STATE_ENTITY_NOT_FOUND | STATE_ENTITY_EXPIRED

fun state_error_code :: "state_error \<Rightarrow> int" where
  "state_error_code STATE_ENTITY_NOT_FOUND = 200"
| "state_error_code STATE_ENTITY_EXPIRED = 210"

fun state_message :: "state_error \<Rightarrow> string" where
  "state_message STATE_ENTITY_NOT_FOUND = ''Entity not found''"
| "state_message STATE_ENTITY_EXPIRED = ''Entity has expired due to TTL''"

datatype multi_region_error =
    FOLLOWER_READ_ONLY | STALE_FOLLOWER | PRIMARY_UNREACHABLE | REPLICATION_TIMEOUT
  | CONFLICT_DETECTED | GEO_SHARD_MISMATCH

fun multi_region_code :: "multi_region_error \<Rightarrow> int" where
  "multi_region_code FOLLOWER_READ_ONLY = 213"
| "multi_region_code STALE_FOLLOWER = 214"
| "multi_region_code PRIMARY_UNREACHABLE = 215"
| "multi_region_code REPLICATION_TIMEOUT = 216"
| "multi_region_code CONFLICT_DETECTED = 217"
| "multi_region_code GEO_SHARD_MISMATCH = 218"

fun multi_region_message :: "multi_region_error \<Rightarrow> string" where
  "multi_region_message FOLLOWER_READ_ONLY = ''Write operation rejected: follower regions are read-only''"
| "multi_region_message STALE_FOLLOWER = ''Follower data exceeds maximum staleness threshold''"
| "multi_region_message PRIMARY_UNREACHABLE = ''Cannot connect to primary region''"
| "multi_region_message REPLICATION_TIMEOUT = ''Cross-region replication timeout''"
| "multi_region_message CONFLICT_DETECTED = ''Write conflict detected in active-active replication''"
| "multi_region_message GEO_SHARD_MISMATCH = ''Entity geo-shard does not match target region''"

fun multi_region_retryable :: "multi_region_error \<Rightarrow> bool" where
  "multi_region_retryable FOLLOWER_READ_ONLY = False"
| "multi_region_retryable STALE_FOLLOWER = True"
| "multi_region_retryable PRIMARY_UNREACHABLE = True"
| "multi_region_retryable REPLICATION_TIMEOUT = True"
| "multi_region_retryable CONFLICT_DETECTED = False"
| "multi_region_retryable GEO_SHARD_MISMATCH = False"

datatype sharding_error =
    NOT_SHARD_LEADER | SHARD_UNAVAILABLE | RESHARDING_IN_PROGRESS | INVALID_SHARD_COUNT
  | SHARD_MIGRATION_FAILED

fun sharding_code :: "sharding_error \<Rightarrow> int" where
  "sharding_code NOT_SHARD_LEADER = 220"
| "sharding_code SHARD_UNAVAILABLE = 221"
| "sharding_code RESHARDING_IN_PROGRESS = 222"
| "sharding_code INVALID_SHARD_COUNT = 223"
| "sharding_code SHARD_MIGRATION_FAILED = 224"

fun sharding_message :: "sharding_error \<Rightarrow> string" where
  "sharding_message NOT_SHARD_LEADER = ''This node is not the leader for target shard''"
| "sharding_message SHARD_UNAVAILABLE = ''Target shard has no available replicas''"
| "sharding_message RESHARDING_IN_PROGRESS = ''Cluster is currently resharding''"
| "sharding_message INVALID_SHARD_COUNT = ''Target shard count is invalid''"
| "sharding_message SHARD_MIGRATION_FAILED = ''Data migration to new shard failed''"

fun sharding_retryable :: "sharding_error \<Rightarrow> bool" where
  "sharding_retryable NOT_SHARD_LEADER = True"
| "sharding_retryable SHARD_UNAVAILABLE = True"
| "sharding_retryable RESHARDING_IN_PROGRESS = True"
| "sharding_retryable INVALID_SHARD_COUNT = False"
| "sharding_retryable SHARD_MIGRATION_FAILED = False"

datatype encryption_error =
    ENCRYPTION_KEY_UNAVAILABLE | DECRYPTION_FAILED | ENCRYPTION_NOT_ENABLED
  | KEY_ROTATION_IN_PROGRESS | UNSUPPORTED_ENCRYPTION_VERSION

fun encryption_code :: "encryption_error \<Rightarrow> int" where
  "encryption_code ENCRYPTION_KEY_UNAVAILABLE = 410"
| "encryption_code DECRYPTION_FAILED = 411"
| "encryption_code ENCRYPTION_NOT_ENABLED = 412"
| "encryption_code KEY_ROTATION_IN_PROGRESS = 413"
| "encryption_code UNSUPPORTED_ENCRYPTION_VERSION = 414"

fun encryption_message :: "encryption_error \<Rightarrow> string" where
  "encryption_message ENCRYPTION_KEY_UNAVAILABLE = ''Cannot retrieve encryption key from provider''"
| "encryption_message DECRYPTION_FAILED = ''Failed to decrypt data (auth tag mismatch)''"
| "encryption_message ENCRYPTION_NOT_ENABLED = ''Encryption required but not configured''"
| "encryption_message KEY_ROTATION_IN_PROGRESS = ''Key rotation in progress, retry later''"
| "encryption_message UNSUPPORTED_ENCRYPTION_VERSION = ''File encrypted with unsupported version''"

fun encryption_retryable :: "encryption_error \<Rightarrow> bool" where
  "encryption_retryable ENCRYPTION_KEY_UNAVAILABLE = True"
| "encryption_retryable DECRYPTION_FAILED = False"
| "encryption_retryable ENCRYPTION_NOT_ENABLED = False"
| "encryption_retryable KEY_ROTATION_IN_PROGRESS = True"
| "encryption_retryable UNSUPPORTED_ENCRYPTION_VERSION = False"

definition state_errors :: "state_error list" where
  "state_errors = [STATE_ENTITY_NOT_FOUND, STATE_ENTITY_EXPIRED]"

definition multi_region_errors :: "multi_region_error list" where
  "multi_region_errors = [FOLLOWER_READ_ONLY, STALE_FOLLOWER, PRIMARY_UNREACHABLE,
     REPLICATION_TIMEOUT, CONFLICT_DETECTED, GEO_SHARD_MISMATCH]"

definition sharding_errors :: "sharding_error list" where
  "sharding_errors = [NOT_SHARD_LEADER, SHARD_UNAVAILABLE, RESHARDING_IN_PROGRESS,
     INVALID_SHARD_COUNT, SHARD_MIGRATION_FAILED]"

definition encryption_errors :: "encryption_error list" where
  "encryption_errors = [ENCRYPTION_KEY_UNAVAILABLE, DECRYPTION_FAILED, ENCRYPTION_NOT_ENABLED,
     KEY_ROTATION_IN_PROGRESS, UNSUPPORTED_ENCRYPTION_VERSION]"

interpretation state_enum: int_enum state_errors state_error_code
proof
  fix x show "x \<in> set state_errors" by (cases x) (simp_all add: state_errors_def)
qed (simp add: state_errors_def)

interpretation region_enum: int_enum multi_region_errors multi_region_code
proof
  fix x show "x \<in> set multi_region_errors" by (cases x) (simp_all add: multi_region_errors_def)
qed (simp add: multi_region_errors_def)

interpretation sharding_enum: int_enum sharding_errors sharding_code
proof
  fix x show "x \<in> set sharding_errors" by (cases x) (simp_all add: sharding_errors_def)
qed (simp add: sharding_errors_def)

interpretation encryption_enum: int_enum encryption_errors encryption_code
proof
  fix x show "x \<in> set encryption_errors" by (cases x) (simp_all add: encryption_errors_def)
qed (simp add: encryption_errors_def)

definition is_state_error :: "int \<Rightarrow> bool" where
  "is_state_error code \<longleftrightarrow> 200 \<le> code \<and> code \<le> 243"

definition is_multi_region_error :: "int \<Rightarrow> bool" where
  "is_multi_region_error code \<longleftrightarrow> 213 \<le> code \<and> code \<le> 218"

definition is_sharding_error :: "int \<Rightarrow> bool" where
  "is_sharding_error code \<longleftrightarrow> 220 \<le> code \<and> code \<le> 224"

definition is_encryption_error :: "int \<Rightarrow> bool" where
  "is_encryption_error code \<longleftrightarrow> 410 \<le> code \<and> code \<le> 414"

text \<open>\<open>TABLE[Enum(code)]\<close> under \<open>except ValueError: return None\<close>.\<close>

definition lookup_code :: "'e list \<Rightarrow> ('e \<Rightarrow> int) \<Rightarrow> ('e \<Rightarrow> 'a) \<Rightarrow> int \<Rightarrow> 'a option" where
  "lookup_code members code table n =
     (case enum_of_code members code n of Inr e \<Rightarrow> Some (table e) | Inl _ \<Rightarrow> None)"

definition state_error_message :: "int \<Rightarrow> string option" where
  "state_error_message = lookup_code state_errors state_error_code state_message"

definition multi_region_error_message :: "int \<Rightarrow> string option" where
  "multi_region_error_message = lookup_code multi_region_errors multi_region_code multi_region_message"

definition sharding_error_message :: "int \<Rightarrow> string option" where
  "sharding_error_message = lookup_code sharding_errors sharding_code sharding_message"

definition encryption_error_message :: "int \<Rightarrow> string option" where
  "encryption_error_message = lookup_code encryption_errors encryption_code encryption_message"

definition code_is_retryable :: "int \<Rightarrow> bool" where
  "code_is_retryable code =
     (if is_multi_region_error code then
        (case lookup_code multi_region_errors multi_region_code multi_region_retryable code of
           Some b \<Rightarrow> b | None \<Rightarrow> False)
      else if is_sharding_error code then
        (case lookup_code sharding_errors sharding_code sharding_retryable code of
           Some b \<Rightarrow> b | None \<Rightarrow> False)
      else if is_encryption_error code then
        (case lookup_code encryption_errors encryption_code encryption_retryable code of
           Some b \<Rightarrow> b | None \<Rightarrow> False)
      else False)"

definition error_message :: "int \<Rightarrow> string option" where
  "error_message code =
     (if is_multi_region_error code then multi_region_error_message code
      else if is_sharding_error code then sharding_error_message code
      else if is_encryption_error code then encryption_error_message code
      else None)"

subsection \<open>Exceptions\<close>

datatype client_error =
    ConnectionFailed | ConnectionTimeout | ClusterUnavailable | ViewChangeInProgress | NotPrimary
  | InvalidCoordinates | PolygonTooComplex | BatchTooLarge | InvalidEntityId
  | OperationTimeout | QueryResultTooLarge | OutOfSpace | SessionExpired | ClientClosedError
  | CircuitBreakerOpen

fun client_error_code :: "client_error \<Rightarrow> int" where
  "client_error_code ConnectionFailed = 1001"
| "client_error_code ConnectionTimeout = 1002"
| "client_error_code ClusterUnavailable = 2001"
| "client_error_code ViewChangeInProgress = 2002"
| "client_error_code NotPrimary = 2003"
| "client_error_code InvalidCoordinates = 3001"
| "client_error_code PolygonTooComplex = 3002"
| "client_error_code BatchTooLarge = 3003"
| "client_error_code InvalidEntityId = 3004"
| "client_error_code OperationTimeout = 4001"
| "client_error_code QueryResultTooLarge = 4002"
| "client_error_code OutOfSpace = 4003"
| "client_error_code SessionExpired = 4004"
| "client_error_code ClientClosedError = 5001"
| "client_error_code CircuitBreakerOpen = 600"

fun client_error_retryable :: "client_error \<Rightarrow> bool" where
  "client_error_retryable ConnectionFailed = True"
| "client_error_retryable ConnectionTimeout = True"
| "client_error_retryable ClusterUnavailable = True"
| "client_error_retryable ViewChangeInProgress = True"
| "client_error_retryable NotPrimary = True"
| "client_error_retryable InvalidCoordinates = False"
| "client_error_retryable PolygonTooComplex = False"
| "client_error_retryable BatchTooLarge = False"
| "client_error_retryable InvalidEntityId = False"
| "client_error_retryable OperationTimeout = True"
| "client_error_retryable QueryResultTooLarge = False"
| "client_error_retryable OutOfSpace = False"
| "client_error_retryable SessionExpired = True"
| "client_error_retryable ClientClosedError = False"
| "client_error_retryable CircuitBreakerOpen = True"

text \<open>
  \<open>RetryExhausted\<close> carries the number of attempts and the last error;
  \<open>PlainException\<close> is an instance of \<open>Exception\<close> itself with its text.
\<close>

datatype sdk_exn =
    Builtin py_exn
  | Distributed int string bool
  | Client client_error
  | RetryExhausted int sdk_exn
  | PlainException string

definition state_exception :: "state_error \<Rightarrow> sdk_exn" where
  "state_exception e = Distributed (state_error_code e) (state_message e) False"

definition multi_region_exception :: "multi_region_error \<Rightarrow> sdk_exn" where
  "multi_region_exception e =
     Distributed (multi_region_code e) (multi_region_message e) (multi_region_retryable e)"

definition sharding_exception :: "sharding_error \<Rightarrow> sdk_exn" where
  "sharding_exception e = Distributed (sharding_code e) (sharding_message e) (sharding_retryable e)"

definition encryption_exception :: "encryption_error \<Rightarrow> sdk_exn" where
  "encryption_exception e =
     Distributed (encryption_code e) (encryption_message e) (encryption_retryable e)"

text \<open>
  \<open>str(error)\<close>, where the retry loop reads it.  The built-in exceptions other than
  \<open>RuntimeError\<close> are raised by the modelled code with texts in which none of the
  words it looks for occurs.
\<close>

fun str_exn :: "sdk_exn \<Rightarrow> string" where
  "str_exn (Builtin (RuntimeError msg)) = msg"
| "str_exn (Distributed code msg r) = ''['' @ show_int code @ ''] '' @ msg"
| "str_exn (PlainException msg) = msg"
| "str_exn _ = ''''"

definition network_words :: "string list" where
  "network_words = [''timeout'', ''connection'', ''reset'', ''refused'', ''network'']"

definition is_retryable_error :: "sdk_exn \<Rightarrow> bool" where
  "is_retryable_error error =
     (case error of
        Client c \<Rightarrow> client_error_retryable c
      | RetryExhausted n e \<Rightarrow> False
      | Builtin TimeoutError \<Rightarrow> True
      | Builtin ConnectionError \<Rightarrow> True
      | _ \<Rightarrow> (let msg = py_lower (str_exn error) in \<exists>s\<in>set network_words. contains s msg))"

subsection \<open>Classification lemmas\<close>

lemma lookup_code_code:
  assumes "int_enum members code"
  shows "lookup_code members code table (code e) = Some (table e)"
  using int_enum.of_code_code [OF assms] by (simp add: lookup_code_def)

lemma range_code:
  "n \<in> range multi_region_code \<longleftrightarrow> is_multi_region_error n"
  "n \<in> range sharding_code \<longleftrightarrow> is_sharding_error n"
  "n \<in> range encryption_code \<longleftrightarrow> is_encryption_error n"
proof -
  show "n \<in> range multi_region_code \<longleftrightarrow> is_multi_region_error n"
  proof
    assume "n \<in> range multi_region_code"
    then obtain e where "n = multi_region_code e" by blast
    then show "is_multi_region_error n" by (cases e) (simp_all add: is_multi_region_error_def)
  next
    assume "is_multi_region_error n"
    then have "n \<in> set (map multi_region_code multi_region_errors)"
      by (simp add: is_multi_region_error_def multi_region_errors_def) linarith
    then show "n \<in> range multi_region_code" by auto
  qed
  show "n \<in> range sharding_code \<longleftrightarrow> is_sharding_error n"
  proof
    assume "n \<in> range sharding_code"
    then obtain e where "n = sharding_code e" by blast
    then show "is_sharding_error n" by (cases e) (simp_all add: is_sharding_error_def)
  next
    assume "is_sharding_error n"
    then have "n \<in> set (map sharding_code sharding_errors)"
      by (simp add: is_sharding_error_def sharding_errors_def) linarith
    then show "n \<in> range sharding_code" by auto
  qed
  show "n \<in> range encryption_code \<longleftrightarrow> is_encryption_error n"
  proof
    assume "n \<in> range encryption_code"
    then obtain e where "n = encryption_code e" by blast
    then show "is_encryption_error n" by (cases e) (simp_all add: is_encryption_error_def)
  next
    assume "is_encryption_error n"
    then have "n \<in> set (map encryption_code encryption_errors)"
      by (simp add: is_encryption_error_def encryption_errors_def) linarith
    then show "n \<in> range encryption_code" by auto
  qed
qed

lemma error_ranges_disjoint:
  "is_multi_region_error n \<Longrightarrow> \<not> is_sharding_error n \<and> \<not> is_encryption_error n"
  "is_sharding_error n \<Longrightarrow> \<not> is_encryption_error n"
  by (auto simp: is_multi_region_error_def is_sharding_error_def is_encryption_error_def)

lemma helpers_on_codes:
  "error_message (multi_region_code e1) = Some (multi_region_message e1)"
  "error_message (sharding_code e2) = Some (sharding_message e2)"
  "error_message (encryption_code e3) = Some (encryption_message e3)"
  "code_is_retryable (multi_region_code e1) \<longleftrightarrow> multi_region_retryable e1"
  "code_is_retryable (sharding_code e2) \<longleftrightarrow> sharding_retryable e2"
  "code_is_retryable (encryption_code e3) \<longleftrightarrow> encryption_retryable e3"
proof -
  have r: "is_multi_region_error (multi_region_code e1)" "is_sharding_error (sharding_code e2)"
      "is_encryption_error (encryption_code e3)"
    using range_code by blast+
  then have "\<not> is_multi_region_error (sharding_code e2)" "\<not> is_multi_region_error (encryption_code e3)"
      "\<not> is_sharding_error (encryption_code e3)"
    using error_ranges_disjoint by blast+
  note all = this r
  show "error_message (multi_region_code e1) = Some (multi_region_message e1)"
    and "code_is_retryable (multi_region_code e1) \<longleftrightarrow> multi_region_retryable e1"
    using all by (simp_all add: error_message_def code_is_retryable_def multi_region_error_message_def
        lookup_code_code [OF region_enum.int_enum_axioms])
  show "error_message (sharding_code e2) = Some (sharding_message e2)"
    and "code_is_retryable (sharding_code e2) \<longleftrightarrow> sharding_retryable e2"
    using all by (simp_all add: error_message_def code_is_retryable_def sharding_error_message_def
        lookup_code_code [OF sharding_enum.int_enum_axioms])
  show "error_message (encryption_code e3) = Some (encryption_message e3)"
    and "code_is_retryable (encryption_code e3) \<longleftrightarrow> encryption_retryable e3"
    using all by (simp_all add: error_message_def code_is_retryable_def encryption_error_message_def
        lookup_code_code [OF encryption_enum.int_enum_axioms])
qed

text \<open>The typed exceptions as a relation between codes, messages and flags.\<close>

definition typed_exceptions :: "sdk_exn set" where
  "typed_exceptions =
     range multi_region_exception \<union> range sharding_exception \<union> range encryption_exception"

text \<open>The code-based helpers agree with the typed exceptions in both directions:
  \<open>error_message\<close> returns a message for a code exactly when a typed exception carries
  that code, and then exactly that exception's message, and \<open>is_retryable\<close> is true
  exactly for the codes of the retryable ones (so never for an unknown code).\<close>

theorem error_helpers_agree_with_exceptions:
  "(error_message n = Some m \<longleftrightarrow> (\<exists>r. Distributed n m r \<in> typed_exceptions)) \<and>
   (code_is_retryable n \<longleftrightarrow> (\<exists>m. Distributed n m True \<in> typed_exceptions))"
proof (cases "is_multi_region_error n \<or> is_sharding_error n \<or> is_encryption_error n")
  case True
  then obtain e1 e2 e3 where
    "n = multi_region_code e1 \<or> n = sharding_code e2 \<or> n = encryption_code e3"
    using range_code [of n] by auto
  moreover have "is_multi_region_error (multi_region_code e)" for e using range_code by blast
  moreover have "is_sharding_error (sharding_code e)" for e using range_code by blast
  moreover have "is_encryption_error (encryption_code e)" for e using range_code by blast
  ultimately show ?thesis
    using error_ranges_disjoint
    by (auto simp: typed_exceptions_def multi_region_exception_def sharding_exception_def
        encryption_exception_def helpers_on_codes region_enum.code_inject sharding_enum.code_inject
        encryption_enum.code_inject image_iff)
next
  case False
  then have "n \<notin> range multi_region_code" "n \<notin> range sharding_code" "n \<notin> range encryption_code"
    using range_code by blast+
  with False show ?thesis
    by (auto simp: error_message_def code_is_retryable_def typed_exceptions_def
        multi_region_exception_def sharding_exception_def encryption_exception_def)
qed

end
