(* ===== verification/Retry.thy ===== *)
theory Retry
  imports Py_Float Sdk_Errors
begin

section \<open>Automatic retry\<close>

text \<open>
  \<open>RetryConfig\<close>, \<open>OperationOptions.merge_with\<close>, \<open>_calculate_retry_delay\<close> and
  \<open>_with_retry_sync\<close> of \<open>archerdb/client.py\<close>; the asynchronous variant is the same
  code with \<open>await\<close>.  \<open>time.time()\<close> and \<open>random.random()\<close> are sequences of float
  readings whose positions the environment holds, together with the state of the
  operation, the sleeps made and the two metrics the loop updates.
\<close>

record retry_config =
  enabled :: bool
  max_retries :: int
  base_backoff_ms :: int
  max_backoff_ms :: int
  total_timeout_ms :: int
  jitter :: bool

definition default_retry_config :: retry_config where
  "default_retry_config =
     \<lparr>enabled = True, max_retries = 5, base_backoff_ms = 100, max_backoff_ms = 1600,
      total_timeout_ms = 30000, jitter = True\<rparr>"

record operation_options =
  opt_max_retries :: "int option"
  opt_timeout_ms :: "int option"
  opt_base_backoff_ms :: "int option"
  opt_max_backoff_ms :: "int option"
  opt_jitter :: "bool option"

definition or_default :: "'a option \<Rightarrow> 'a \<Rightarrow> 'a" where
  "or_default x d = (case x of Some y \<Rightarrow> y | None \<Rightarrow> d)"

definition merge_with :: "operation_options \<Rightarrow> retry_config \<Rightarrow> retry_config" where
  "merge_with opts base =
     \<lparr>enabled = enabled base,
      max_retries = or_default (opt_max_retries opts) (max_retries base),
      base_backoff_ms = or_default (opt_base_backoff_ms opts) (base_backoff_ms base),
      max_backoff_ms = or_default (opt_max_backoff_ms opts) (max_backoff_ms base),
      total_timeout_ms = or_default (opt_timeout_ms opts) (total_timeout_ms base),
      jitter = or_default (opt_jitter opts) (jitter base)\<rparr>"

record 's retry_env =
  op_state :: 's
  now_idx :: nat
  rnd_idx :: nat
  sleeps :: "pyfloat list"
  retry_count :: int
  exhausted_count :: int

type_synonym readings = "nat \<Rightarrow> pyfloat"
type_synonym ('s, 'a) operation = "'s \<Rightarrow> (sdk_exn, 'a) result \<times> 's"

definition calculate_retry_delay ::
    "readings \<Rightarrow> int \<Rightarrow> retry_config \<Rightarrow> nat \<Rightarrow> (py_exn, int) result \<times> nat" where
  "calculate_retry_delay rnd attempt config r =
     (if attempt \<le> 1 then (Inr 0, r)
      else
        let base_delay = base_backoff_ms config * 2 ^ nat (attempt - 2);
            delay = min base_delay (max_backoff_ms config)
        in if \<not> jitter config then (Inr delay, r)
           else
             (bindE (int_truediv delay 2) (\<lambda>half.
              bindE (float_of_int delay) (\<lambda>d.
              py_int (f_add d (f_mul (rnd r) half)))), Suc r))"

text \<open>\<open>time.time() * 1000\<close>, and the reading minus the start.\<close>

definition read_ms :: "readings \<Rightarrow> 's retry_env \<Rightarrow> pyfloat \<times> 's retry_env" where
  "read_ms now env = (f_mul (now (now_idx env)) (Fin 1000), env\<lparr>now_idx := Suc (now_idx env)\<rparr>)"

definition run_operation :: "('s, 'a) operation \<Rightarrow> 's retry_env \<Rightarrow> (sdk_exn, 'a) result \<times> 's retry_env" where
  "run_operation operation env =
     (case operation (op_state env) of (r, s) \<Rightarrow> (r, env\<lparr>op_state := s\<rparr>))"

definition give_up :: "int \<Rightarrow> sdk_exn \<Rightarrow> 's retry_env \<Rightarrow> (sdk_exn, 'a) result \<times> 's retry_env" where
  "give_up attempts last_error env =
     (Inl (RetryExhausted attempts last_error), env\<lparr>exhausted_count := exhausted_count env + 1\<rparr>)"

text \<open>
  What one attempt decides: stop with a result, or go on with the last error.  The
  \<open>break\<close> statements leave the loop for the raise after it.
\<close>

datatype ('s, 'a) attempt_outcome =
    Stop "(sdk_exn, 'a) result \<times> 's retry_env"
  | Next sdk_exn "'s retry_env"

definition after_failure ::
    "readings \<Rightarrow> readings \<Rightarrow> retry_config \<Rightarrow> pyfloat \<Rightarrow> int \<Rightarrow> sdk_exn \<Rightarrow> 's retry_env \<Rightarrow>
     ('s, 'a) attempt_outcome" where
  "after_failure now rnd config start_time attempt error env =
     (let max_attempts = max_retries config + 1 in
      if \<not> is_retryable_error error then Stop (Inl error, env)
      else if max_attempts \<le> attempt then Stop (give_up max_attempts error env)
      else
        case calculate_retry_delay rnd (attempt + 1) config (rnd_idx env) of
          (Inl e, r) \<Rightarrow> Stop (Inl (Builtin e), env\<lparr>rnd_idx := r\<rparr>)
        | (Inr delay, r) \<Rightarrow>
            (case read_ms now (env\<lparr>rnd_idx := r\<rparr>) of (t, env) \<Rightarrow>
               (case float_of_int delay of
                  Inl e \<Rightarrow> Stop (Inl (Builtin e), env)
                | Inr d \<Rightarrow>
                    if f_le (Fin (of_int (total_timeout_ms config))) (f_add (f_sub t start_time) d)
                    then Stop (give_up max_attempts error env)
                    else if 0 < delay
                    then (case int_truediv delay 1000 of
                            Inl e \<Rightarrow> Stop (Inl (Builtin e), env)
                          | Inr secs \<Rightarrow> Next error (env\<lparr>sleeps := sleeps env @ [secs]\<rparr>))
                    else Next error env)))"

definition one_attempt ::
    "readings \<Rightarrow> readings \<Rightarrow> retry_config \<Rightarrow> ('s, 'a) operation \<Rightarrow> pyfloat \<Rightarrow> int \<Rightarrow> sdk_exn \<Rightarrow>
     's retry_env \<Rightarrow> ('s, 'a) attempt_outcome" where
  "one_attempt now rnd config operation start_time attempt last_error env =
     (let env = (if 1 < attempt then env\<lparr>retry_count := retry_count env + 1\<rparr> else env) in
      case read_ms now env of (t, env) \<Rightarrow>
        if f_le (Fin (of_int (total_timeout_ms config))) (f_sub t start_time)
        then Stop (give_up (attempt - 1) last_error env)
        else
          (case run_operation operation env of
             (Inr v, env) \<Rightarrow> Stop (Inr v, env)
           | (Inl error, env) \<Rightarrow> after_failure now rnd config start_time attempt error env))"

text \<open>The \<open>for\<close> loop: \<open>left\<close> attempts remain, the next one has number \<open>attempt\<close>.\<close>

fun retry_loop ::
    "readings \<Rightarrow> readings \<Rightarrow> retry_config \<Rightarrow> ('s, 'a) operation \<Rightarrow> pyfloat \<Rightarrow> nat \<Rightarrow> int \<Rightarrow> sdk_exn \<Rightarrow>
     's retry_env \<Rightarrow> (sdk_exn, 'a) result \<times> 's retry_env" where
  "retry_loop now rnd config operation start_time 0 attempt last_error env =
     give_up (max_retries config + 1) last_error env"
| "retry_loop now rnd config operation start_time (Suc left) attempt last_error env =
     (case one_attempt now rnd config operation start_time attempt last_error env of
        Stop r \<Rightarrow> r
      | Next error env \<Rightarrow>
          retry_loop now rnd config operation start_time left (attempt + 1) error env)"

definition with_retry_sync ::
    "readings \<Rightarrow> readings \<Rightarrow> retry_config \<Rightarrow> ('s, 'a) operation \<Rightarrow> 's retry_env \<Rightarrow>
     (sdk_exn, 'a) result \<times> 's retry_env" where
  "with_retry_sync now rnd config operation env =
     (if \<not> enabled config then run_operation operation env
      else
        case read_ms now env of (start_time, env) \<Rightarrow>
          let max_attempts = max_retries config + 1 in
          retry_loop now rnd config operation start_time (nat max_attempts) 1
            (PlainException ''No attempts made'') env)"

subsection \<open>The backoff schedule\<close>

definition backoff_ok :: "retry_config \<Rightarrow> bool" where
  "backoff_ok cfg \<longleftrightarrow> 0 \<le> base_backoff_ms cfg \<and> 0 \<le> max_backoff_ms cfg \<and> max_backoff_ms cfg \<le> 2 ^ 50"

definition random_ok :: "readings \<Rightarrow> bool" where
  "random_ok rnd \<longleftrightarrow> (\<forall>i. \<exists>x. rnd i = Fin x \<and> 0 \<le> x \<and> x < 1)"

lemma random_okD: "random_ok rnd \<Longrightarrow> \<exists>x. rnd i = Fin x \<and> 0 \<le> x \<and> x < 1"
  by (simp add: random_ok_def)

text \<open>Halves of integers of moderate size are floats.\<close>

lemma fl_half_int: "\<bar>k\<bar> \<le> 2 ^ 53 \<Longrightarrow> fl (of_int k / 2) = of_int k / 2"
  using fl_exact [of k "- 1"] by (simp add: power_int_minus)

text \<open>The delay without jitter, and the range that the jitter adds.\<close>

definition plain_delay :: "retry_config \<Rightarrow> int \<Rightarrow> int" where
  "plain_delay cfg attempt =
     (if attempt \<le> 1 then 0 else min (base_backoff_ms cfg * 2 ^ nat (attempt - 2)) (max_backoff_ms cfg))"

lemma plain_delay_bounds:
  assumes "backoff_ok cfg"
  shows "0 \<le> plain_delay cfg a \<and> plain_delay cfg a \<le> 2 ^ 50 \<and> plain_delay cfg a \<le> max_backoff_ms cfg"
  using assms by (auto simp: backoff_ok_def plain_delay_def min_def)

lemma jittered:
  assumes d: "0 \<le> d" "d \<le> 2 ^ 50" and x: "0 \<le> x" "x < 1"
  shows "\<exists>n. bindE (int_truediv d 2) (\<lambda>half. bindE (float_of_int d) (\<lambda>f.
      py_int (f_add f (f_mul (Fin x) half)))) = Inr n \<and> d \<le> n \<and> 2 * n \<le> 3 * d"
proof -
  let ?h = "of_int d / 2 :: rat"
  have d': "(0 :: rat) \<le> of_int d" "(of_int d :: rat) \<le> 2 ^ 50"
    using d by (simp, metis of_int_le_iff of_int_numeral of_int_power)
  have half: "fl ?h = ?h" using d by (intro fl_half_int) simp
  have td: "int_truediv d 2 = Inr (Fin ?h)"
    using d' half by (simp add: int_truediv_def mk_float_Fin [of ?h 50] abs_le_iff)
  have fd: "float_of_int d = Inr (Fin (of_int d))" using d by (intro float_of_int_small) simp
  have xh: "0 \<le> x * ?h" "x * ?h \<le> ?h" using x d' by (simp_all add: mult_left_le_one_le)
  have m: "mk_float (x * ?h) = Fin (fl (x * ?h))"
    using xh d' by (intro mk_float_Fin [of _ 50]) (simp_all add: abs_le_iff)
  have j: "0 \<le> fl (x * ?h)" "fl (x * ?h) \<le> ?h"
    using fl_mono [OF xh(2)] half fl_nonneg [OF xh(1)] by simp_all
  let ?s = "of_int d + fl (x * ?h)"
  have s: "of_int d \<le> ?s" "?s \<le> of_int (3 * d) / 2" using j by simp_all
  have ms: "mk_float ?s = Fin (fl ?s)"
    using s d' by (intro mk_float_Fin [of _ 52]) (simp_all add: abs_le_iff)
  have lo: "of_int d \<le> fl ?s" using s(1) d by (intro fl_ge_of_int) simp_all
  have hi: "fl ?s \<le> of_int (3 * d) / 2"
    using fl_mono [OF s(2)] fl_half_int [of "3 * d"] d by simp
  have "trunc (fl ?s) = \<lfloor>fl ?s\<rfloor>" using lo d' by (simp add: trunc_def)
  moreover have "d \<le> \<lfloor>fl ?s\<rfloor>" using lo by (simp add: le_floor_iff)
  moreover have "2 * \<lfloor>fl ?s\<rfloor> \<le> 3 * d"
  proof -
    have "of_int \<lfloor>fl ?s\<rfloor> \<le> (of_int (3 * d) / 2 :: rat)" using hi by linarith
    then have "(of_int (2 * \<lfloor>fl ?s\<rfloor>) :: rat) \<le> of_int (3 * d)" by simp
    then show ?thesis by (simp only: of_int_le_iff)
  qed
  moreover have "bindE (int_truediv d 2) (\<lambda>half. bindE (float_of_int d) (\<lambda>f.
      py_int (f_add f (f_mul (Fin x) half)))) = Inr (trunc (fl ?s))"
    unfolding td fd by (simp only: bindE_simps f_mul.simps m f_add.simps ms py_int.simps)
  ultimately show ?thesis by simp
qed

lemma calculate_retry_delay_bounds:
  assumes "backoff_ok cfg" and "random_ok rnd"
  shows "\<exists>n r'. calculate_retry_delay rnd attempt cfg r = (Inr n, r') \<and>
    plain_delay cfg attempt \<le> n \<and>
    (if jitter cfg then 2 * n \<le> 3 * plain_delay cfg attempt else n = plain_delay cfg attempt)"
proof (cases "attempt \<le> 1 \<or> \<not> jitter cfg")
  case True
  then show ?thesis by (auto simp: calculate_retry_delay_def plain_delay_def)
next
  case False
  obtain x where x: "rnd r = Fin x" "0 \<le> x" "x < 1" using random_okD [OF assms(2)] by blast
  have "0 \<le> plain_delay cfg attempt" "plain_delay cfg attempt \<le> 2 ^ 50"
    using plain_delay_bounds [OF assms(1)] by auto
  with jittered [OF this x(2,3)] False x(1) show ?thesis
    by (auto simp: calculate_retry_delay_def plain_delay_def Let_def)
qed

subsection \<open>The loop follows the operation\<close>

text \<open>The outcomes of consecutive calls of the operation.\<close>

fun outcomes :: "('s, 'a) operation \<Rightarrow> 's \<Rightarrow> nat \<Rightarrow> (sdk_exn, 'a) result list \<times> 's" where
  "outcomes operation s 0 = ([], s)"
| "outcomes operation s (Suc n) =
     (case operation s of (r, s') \<Rightarrow> (case outcomes operation s' n of (rs, s'') \<Rightarrow> (r # rs, s'')))"

definition retryable_failure :: "(sdk_exn, 'a) result \<Rightarrow> bool" where
  "retryable_failure r = (case r of Inl e \<Rightarrow> is_retryable_error e | Inr _ \<Rightarrow> False)"

text \<open>
  The contract of a retry: which results are correct after the outcomes \<open>rs\<close>, when
  \<open>last_error\<close> was the error before them.
\<close>

definition retry_result_ok ::
    "sdk_exn \<Rightarrow> (sdk_exn, 'a) result list \<Rightarrow> (sdk_exn, 'a) result \<Rightarrow> bool" where
  "retry_result_ok last_error rs r \<longleftrightarrow>
     (\<forall>x\<in>set (butlast rs). retryable_failure x) \<and>
     (case r of
        Inr v \<Rightarrow> rs \<noteq> [] \<and> last rs = Inr v
      | Inl e \<Rightarrow>
          rs \<noteq> [] \<and> last rs = Inl e \<and> \<not> is_retryable_error e \<or>
          (\<exists>k e'. e = RetryExhausted k e' \<and>
             (if rs = [] then e' = last_error else last rs = Inl e' \<and> is_retryable_error e')))"

lemma after_failure_outcome:
  assumes "backoff_ok cfg" and "random_ok rnd"
  shows "case (after_failure now rnd cfg st a e env :: ('s, 'a) attempt_outcome) of
      Stop (r, env') \<Rightarrow> op_state env' = op_state env \<and>
        (if is_retryable_error e then \<exists>k. r = Inl (RetryExhausted k e) else r = Inl e)
    | Next e' env' \<Rightarrow> op_state env' = op_state env \<and> e' = e \<and> is_retryable_error e"
proof -
  obtain n r' where n: "calculate_retry_delay rnd (a + 1) cfg (rnd_idx env) = (Inr n, r')"
      "plain_delay cfg (a + 1) \<le> n" "2 * n \<le> 3 * plain_delay cfg (a + 1) \<or> n = plain_delay cfg (a + 1)"
    using calculate_retry_delay_bounds [OF assms, of "a + 1" "rnd_idx env"] by (auto split: if_splits)
  have nb: "\<bar>n\<bar> \<le> 2 ^ 53" "0 \<le> n" using n plain_delay_bounds [OF assms(1), of "a + 1"] by auto
  have f: "float_of_int n = Inr (Fin (of_int n))" using nb by (intro float_of_int_small)
  have "\<bar>of_int n / 1000 :: rat\<bar> \<le> 2 ^ 53"
  proof -
    have "(of_int n :: rat) \<le> 2 ^ 53" using nb by (metis abs_of_nonneg of_int_le_iff of_int_numeral of_int_power)
    then show ?thesis using nb by simp
  qed
  then have "mk_float (of_int n / 1000) = Fin (fl (of_int n / 1000))" by (rule mk_float_Fin) simp
  then have d: "int_truediv n 1000 = Inr (Fin (fl (of_int n / 1000)))" by (simp add: int_truediv_def)
  show ?thesis
    using n(1) f d by (simp add: after_failure_def read_ms_def give_up_def Let_def)
qed

lemma outcomes_one: "operation s = (r, s') \<Longrightarrow> outcomes operation s 1 = ([r], s')"
  by simp

lemma retry_loop_follows:
  fixes operation :: "('s, 'a) operation"
  assumes "backoff_ok cfg" and "random_ok rnd"
    and "retry_loop now rnd cfg operation st left a le env = (r, env')"
    and "is_retryable_error le \<or> le = PlainException ''No attempts made''"
  shows "\<exists>n rs. n \<le> left \<and> outcomes operation (op_state env) n = (rs, op_state env') \<and>
    retry_result_ok le rs r"
  using assms(3,4)
proof (induction left arbitrary: a le env)
  case 0
  then show ?case
    by (intro exI [of _ 0] exI [of _ "[]"]) (auto simp: give_up_def retry_result_ok_def)
next
  case (Suc left)
  obtain env1 t where env1: "read_ms now (if 1 < a then env\<lparr>retry_count := retry_count env + 1\<rparr> else env)
      = (t, env1)" "op_state env1 = op_state env"
    by (auto simp: read_ms_def)
  show ?case
  proof (cases "f_le (Fin (of_int (total_timeout_ms cfg))) (f_sub t st)")
    case True
    then have "(r, env') = give_up (a - 1) le env1"
      using Suc.prems(1) env1(1) by (simp add: one_attempt_def)
    then show ?thesis
      using env1(2) by (intro exI [of _ 0] exI [of _ "[]"]) (auto simp: give_up_def retry_result_ok_def)
  next
    case False
    obtain x s' where op: "operation (op_state env) = (x, s')" by fastforce
    define env2 where "env2 = env1\<lparr>op_state := s'\<rparr>"
    have run: "run_operation operation env1 = (x, env2)"
      using op env1(2) by (simp add: run_operation_def env2_def)
    have one: "outcomes operation (op_state env) 1 = ([x], s')" using op by (rule outcomes_one)
    show ?thesis
    proof (cases x)
      case (Inr v)
      then have "r = Inr v" "env' = env2"
        using Suc.prems(1) env1(1) False run by (simp_all add: one_attempt_def)
      with one Inr show ?thesis
        by (intro exI [of _ 1] exI [of _ "[x]"]) (simp add: retry_result_ok_def env2_def)
    next
      case (Inl e)
      have att: "one_attempt now rnd cfg operation st a le env = after_failure now rnd cfg st a e env2"
        using env1(1) False run Inl by (simp add: one_attempt_def)
      note outcome = after_failure_outcome [OF assms(1,2), where now = now and st = st and a = a and e = e and env = env2]
      show ?thesis
      proof (cases "after_failure now rnd cfg st a e env2 :: ('s, 'a) attempt_outcome")
        case (Stop p)
        then have "p = (r, env')" using Suc.prems(1) att by simp
        with Stop outcome [where 'a = 'a] have "op_state env' = s'"
            "if is_retryable_error e then \<exists>k. r = Inl (RetryExhausted k e) else r = Inl e"
          by (simp_all add: env2_def)
        with one Inl show ?thesis
          by (intro exI [of _ 1] exI [of _ "[x]"]) (auto simp: retry_result_ok_def split: if_splits)
      next
        case (Next e' env3)
        with outcome [where 'a = 'a] have h: "op_state env3 = s'" "e' = e" "is_retryable_error e"
          by (simp_all add: env2_def)
        then have "retry_loop now rnd cfg operation st left (a + 1) e env3 = (r, env')"
          using Suc.prems(1) att Next by simp
        with h(3) obtain n rs where n: "n \<le> left"
            "outcomes operation (op_state env3) n = (rs, op_state env')" "retry_result_ok e rs r"
          using Suc.IH by blast
        have "outcomes operation (op_state env) (Suc n) = (x # rs, op_state env')"
          using op n(2) h(1) by simp
        moreover have "retry_result_ok le (x # rs) r"
          using n(3) h(3) Inl
          by (auto simp: retry_result_ok_def retryable_failure_def split: sum.splits if_splits)
        ultimately show ?thesis using n(1) by (intro exI [of _ "Suc n"]) auto
      qed
    qed
  qed
qed

subsection \<open>A clock that stands still\<close>

text \<open>
  With a constant clock the elapsed time is zero at every check, so only the delays
  count against the total timeout.
\<close>

definition frozen :: "readings \<Rightarrow> bool" where
  "frozen now \<longleftrightarrow> (\<exists>c. now = (\<lambda>i. Fin c) \<and> \<bar>c\<bar> \<le> 2 ^ 50)"

definition start_reading :: "readings \<Rightarrow> pyfloat" where
  "start_reading now = f_mul (now 0) (Fin 1000)"

lemma frozen_elapsed:
  assumes "frozen now"
  shows "f_mul (now i) (Fin 1000) = start_reading now"
    and "f_sub (f_mul (now i) (Fin 1000)) (start_reading now) = Fin 0"
proof -
  obtain c where c: "now = (\<lambda>i. Fin c)" "\<bar>c\<bar> \<le> 2 ^ 50" using assms by (auto simp: frozen_def)
  have "\<bar>c * 1000\<bar> \<le> 2 ^ 60" using c(2) by (simp add: abs_mult)
  then have "mk_float (c * 1000) = Fin (fl (c * 1000))" by (rule mk_float_Fin) simp
  moreover have "mk_float 0 = Fin 0" using mk_float_Fin [of 0 0] by simp
  ultimately show "f_mul (now i) (Fin 1000) = start_reading now"
    and "f_sub (f_mul (now i) (Fin 1000)) (start_reading now) = Fin 0"
    using c(1) by (simp_all add: start_reading_def f_sub_def)
qed

lemma frozen_diff: "frozen now \<Longrightarrow> f_sub (start_reading now) (start_reading now) = Fin 0"
  using frozen_elapsed [of now 0] by simp

lemma frozen_total:
  assumes "\<bar>n\<bar> \<le> 2 ^ 53"
  shows "f_le (Fin (of_int k)) (f_add (Fin 0) (Fin (of_int n))) \<longleftrightarrow> k \<le> n"
proof -
  have "\<bar>of_int n :: rat\<bar> \<le> 2 ^ 53" using assms by (metis of_int_abs of_int_le_iff of_int_numeral of_int_power)
  then have "mk_float (of_int n) = Fin (fl (of_int n))" by (rule mk_float_Fin) simp
  moreover have "fl (of_int n) = of_int n" using assms by (rule fl_of_int)
  ultimately show ?thesis by (auto simp: f_le_def)
qed

text \<open>The largest delay, jitter included, stays below the total timeout.\<close>

definition timeout_ample :: "retry_config \<Rightarrow> bool" where
  "timeout_ample cfg \<longleftrightarrow> 0 < total_timeout_ms cfg \<and> 3 * max_backoff_ms cfg < 2 * total_timeout_ms cfg"

lemma after_failure_goes_on:
  fixes env :: "'s retry_env"
  assumes "backoff_ok cfg" "random_ok rnd" "frozen now" "timeout_ample cfg"
    and "is_retryable_error e" "a \<le> max_retries cfg"
  shows "\<exists>env'. (after_failure now rnd cfg (start_reading now) a e env :: ('s, 'a) attempt_outcome) = Next e env'
    \<and> op_state env' = op_state env"
proof -
  obtain n r' where n: "calculate_retry_delay rnd (a + 1) cfg (rnd_idx env) = (Inr n, r')"
      "plain_delay cfg (a + 1) \<le> n" "2 * n \<le> 3 * plain_delay cfg (a + 1) \<or> n = plain_delay cfg (a + 1)"
    using calculate_retry_delay_bounds [OF assms(1,2), of "a + 1" "rnd_idx env"] by (auto split: if_splits)
  have pd: "0 \<le> plain_delay cfg (a + 1)" "plain_delay cfg (a + 1) \<le> 2 ^ 50"
      "plain_delay cfg (a + 1) \<le> max_backoff_ms cfg"
    using plain_delay_bounds [OF assms(1), of "a + 1"] by auto
  then have nb: "\<bar>n\<bar> \<le> 2 ^ 53" "n < total_timeout_ms cfg"
    using n assms(4) by (auto simp: timeout_ample_def)
  have f: "float_of_int n = Inr (Fin (of_int n))" using nb(1) by (rule float_of_int_small)
  have "\<bar>of_int n / 1000 :: rat\<bar> \<le> 2 ^ 53"
  proof -
    have "\<bar>of_int n :: rat\<bar> \<le> 2 ^ 53" using nb(1) by (metis of_int_abs of_int_le_iff of_int_numeral of_int_power)
    then show ?thesis by (simp add: abs_divide)
  qed
  then have "mk_float (of_int n / 1000) = Fin (fl (of_int n / 1000))" by (rule mk_float_Fin) simp
  then have d: "int_truediv n 1000 = Inr (Fin (fl (of_int n / 1000)))" by (simp add: int_truediv_def)
  have late: "\<not> f_le (Fin (of_int (total_timeout_ms cfg)))
      (f_add (f_sub (f_mul (now i) (Fin 1000)) (start_reading now)) (Fin (of_int n)))" for i
    using nb(2) by (simp only: frozen_elapsed(2) [OF assms(3)] frozen_total [OF nb(1)] not_le)
  show ?thesis
    using n(1) f d late assms(5,6)
    by (simp add: after_failure_def read_ms_def Let_def)
qed

lemma frozen_not_expired:
  "frozen now \<Longrightarrow> timeout_ample cfg \<Longrightarrow>
     \<not> f_le (Fin (of_int (total_timeout_ms cfg))) (f_sub (f_mul (now i) (Fin 1000)) (start_reading now))"
  by (simp add: frozen_elapsed(1) frozen_diff timeout_ample_def f_le_def)

lemma retry_loop_reaches:
  fixes operation :: "('s, 'a) operation"
  assumes "backoff_ok cfg" "random_ok rnd" "frozen now" "timeout_ample cfg"
  shows "outcomes operation (op_state env) (Suc k) = (rs @ [x], s') \<Longrightarrow> \<forall>y\<in>set rs. retryable_failure y \<Longrightarrow>
    \<not> retryable_failure x \<Longrightarrow> a + int k \<le> max_retries cfg + 1 \<Longrightarrow> k < left \<Longrightarrow>
    \<exists>env'. retry_loop now rnd cfg operation (start_reading now) left a le env = (x, env') \<and> op_state env' = s'"
proof (induction k arbitrary: rs a le env left)
  case 0
  obtain l where left: "left = Suc l" using 0 by (cases left) auto
  obtain y s1 where op: "operation (op_state env) = (y, s1)" by fastforce
  with 0 have xy: "rs = []" "x = y" "s' = s1" by (auto simp: append_eq_Cons_conv)
  obtain env1 where env1: "read_ms now (if 1 < a then env\<lparr>retry_count := retry_count env + 1\<rparr> else env)
      = (start_reading now, env1)" "op_state env1 = op_state env"
    by (auto simp: read_ms_def frozen_elapsed(1) [OF assms(3)])
  have run: "run_operation operation env1 = (y, env1\<lparr>op_state := s1\<rparr>)"
    using op env1(2) by (simp add: run_operation_def)
  have notlate: "\<not> f_le (Fin (of_int (total_timeout_ms cfg))) (f_sub (start_reading now) (start_reading now))"
    using frozen_not_expired [OF assms(3,4), of 0] by (simp add: start_reading_def)
  show ?case
  proof (cases y)
    case (Inr v)
    with run env1 notlate show ?thesis by (simp add: left one_attempt_def xy)
  next
    case (Inl e)
    with 0 xy have "\<not> is_retryable_error e" by (simp add: retryable_failure_def)
    with Inl run env1 notlate show ?thesis by (simp add: left one_attempt_def xy after_failure_def)
  qed
next
  case (Suc k)
  obtain l where left: "left = Suc l" using Suc.prems by (cases left) auto
  obtain y s1 where op: "operation (op_state env) = (y, s1)" by fastforce
  obtain rs1 s2 where rest: "outcomes operation s1 (Suc k) = (rs1, s2)" by fastforce
  with op Suc.prems(1) have "rs @ [x] = y # rs1" "s2 = s'" by auto
  moreover have "rs1 \<noteq> []" using rest by (auto split: prod.splits)
  ultimately obtain rs2 where rs: "rs = y # rs2" "rs1 = rs2 @ [x]" "s2 = s'"
    by (auto simp: append_eq_Cons_conv Cons_eq_append_conv)
  then obtain e where e: "y = Inl e" "is_retryable_error e"
    using Suc.prems(2) by (cases y) (auto simp: retryable_failure_def)
  obtain env1 where env1: "read_ms now (if 1 < a then env\<lparr>retry_count := retry_count env + 1\<rparr> else env)
      = (start_reading now, env1)" "op_state env1 = op_state env"
    by (auto simp: read_ms_def frozen_elapsed(1) [OF assms(3)])
  have run: "run_operation operation env1 = (Inl e, env1\<lparr>op_state := s1\<rparr>)"
    using op env1(2) e by (simp add: run_operation_def)
  have notlate: "\<not> f_le (Fin (of_int (total_timeout_ms cfg))) (f_sub (start_reading now) (start_reading now))"
    using frozen_not_expired [OF assms(3,4), of 0] by (simp add: start_reading_def)
  have "a \<le> max_retries cfg" using Suc.prems(4) by simp
  then obtain env2 where env2:
      "(after_failure now rnd cfg (start_reading now) a e (env1\<lparr>op_state := s1\<rparr>) :: ('s, 'a) attempt_outcome)
        = Next e env2" "op_state env2 = s1"
    using after_failure_goes_on [where 'a = 'a, OF assms e(2), of a "env1\<lparr>op_state := s1\<rparr>"] by auto
  have "retry_loop now rnd cfg operation (start_reading now) left a le env
      = retry_loop now rnd cfg operation (start_reading now) l (a + 1) e env2"
    using run env1 notlate env2(1) by (simp add: left one_attempt_def)
  moreover have "\<exists>env'. retry_loop now rnd cfg operation (start_reading now) l (a + 1) e env2 = (x, env')
      \<and> op_state env' = s'"
    using Suc.prems rs rest env2(2) left by (intro Suc.IH [of env2 rs2]) auto
  ultimately show ?case by simp
qed

subsection \<open>Calls that settle at once\<close>

text \<open>
  \<open>patient\<close>: at least one attempt is allowed, and no two successive clock readings are a
  total timeout apart, so the check in front of the first attempt passes.
\<close>

definition patient :: "readings \<Rightarrow> retry_config \<Rightarrow> bool" where
  "patient now cfg \<longleftrightarrow> (enabled cfg \<longrightarrow> 0 \<le> max_retries cfg \<and>
     (\<forall>i. \<not> f_le (Fin (of_int (total_timeout_ms cfg)))
        (f_sub (f_mul (now (Suc i)) (Fin 1000)) (f_mul (now i) (Fin 1000)))))"

lemma retry_settles:
  fixes operation :: "('s, 'a) operation"
  assumes "patient now cfg" and "operation (op_state env) = (r, st)" and "\<not> retryable_failure r"
  shows "\<exists>env'. with_retry_sync now rnd cfg operation env = (r, env') \<and> op_state env' = st"
proof (cases "enabled cfg")
  case False
  with assms(2) show ?thesis by (simp add: with_retry_sync_def run_operation_def)
next
  case True
  with assms(1) have "0 \<le> max_retries cfg" and
    notlate: "\<not> f_le (Fin (of_int (total_timeout_ms cfg)))
      (f_sub (f_mul (now (Suc i)) (Fin 1000)) (f_mul (now i) (Fin 1000)))" for i
    by (simp_all add: patient_def)
  then obtain l where l: "nat (max_retries cfg + 1) = Suc l" by (cases "nat (max_retries cfg + 1)") auto
  show ?thesis
  proof (cases r)
    case (Inl e)
    with assms(3) have "\<not> is_retryable_error e" by (simp add: retryable_failure_def)
    with True l notlate assms(2) Inl show ?thesis
      by (simp add: with_retry_sync_def read_ms_def one_attempt_def run_operation_def after_failure_def)
  next
    case (Inr v)
    with True l notlate assms(2) show ?thesis
      by (simp add: with_retry_sync_def read_ms_def one_attempt_def run_operation_def)
  qed
qed

lemma frozen_patient: "frozen now \<Longrightarrow> timeout_ample cfg \<Longrightarrow> 0 \<le> max_retries cfg \<Longrightarrow> patient now cfg"
  using frozen_not_expired [of now cfg] by (simp add: patient_def frozen_elapsed(1))

subsection \<open>Properties\<close>

text \<open>C6: What a retried operation returns is decided by the outcomes of its calls: at most
  \<open>max_retries + 1\<close> calls are made, every call but the last failed with a retryable
  error, and the result is the last call's value, or its non-retryable error, or
  \<open>RetryExhausted\<close> carrying its retryable error (no call is ever made after a success or
  a permanent error); with retries disabled there is exactly one call.\<close>

theorem with_retry_follows_operation:
  assumes "backoff_ok cfg" and "random_ok rnd" and "with_retry_sync now rnd cfg operation env = (r, env')"
  shows "\<exists>n rs. outcomes operation (op_state env) n = (rs, op_state env') \<and>
    (if enabled cfg
     then int n \<le> max 0 (max_retries cfg + 1) \<and> retry_result_ok (PlainException ''No attempts made'') rs r
     else n = 1 \<and> rs = [r])"
proof (cases "enabled cfg")
  case True
  obtain st env1 where st: "read_ms now env = (st, env1)" "op_state env1 = op_state env"
    by (auto simp: read_ms_def)
  with assms(3) True have "retry_loop now rnd cfg operation st (nat (max_retries cfg + 1)) 1
      (PlainException ''No attempts made'') env1 = (r, env')"
    by (simp add: with_retry_sync_def)
  from retry_loop_follows [OF assms(1,2) this] st(2) True show ?thesis by fastforce
next
  case False
  with assms(3) have "operation (op_state env) = (r, op_state env')"
    by (auto simp: with_retry_sync_def run_operation_def split: prod.splits)
  with False show ?thesis by (intro exI [of _ 1]) simp
qed

text \<open>An operation that times out twice and then returns.\<close>

definition flaky :: "(nat, int) operation" where
  "flaky n = (if n < 2 then (Inl (Builtin TimeoutError), Suc n) else (Inr 7, Suc n))"

definition fresh_env :: "'s \<Rightarrow> 's retry_env" where
  "fresh_env s = \<lparr>op_state = s, now_idx = 0, rnd_idx = 0, sleeps = [], retry_count = 0, exhausted_count = 0\<rparr>"

theorem with_retry_follows_operation_witness:
  "\<exists>n rs. outcomes flaky 0 n
      = (rs, op_state (snd (with_retry_sync (\<lambda>i. Fin 0) (\<lambda>i. Fin 0) default_retry_config flaky (fresh_env 0)))) \<and>
    int n \<le> 6 \<and> retry_result_ok (PlainException ''No attempts made'') rs
      (fst (with_retry_sync (\<lambda>i. Fin 0) (\<lambda>i. Fin 0) default_retry_config flaky (fresh_env 0)))"
  using with_retry_follows_operation [of default_retry_config "\<lambda>i. Fin 0" "\<lambda>i. Fin 0" flaky "fresh_env 0"
      "fst (with_retry_sync (\<lambda>i. Fin 0) (\<lambda>i. Fin 0) default_retry_config flaky (fresh_env 0))"
      "snd (with_retry_sync (\<lambda>i. Fin 0) (\<lambda>i. Fin 0) default_retry_config flaky (fresh_env 0))"]
  by (simp add: backoff_ok_def random_ok_def default_retry_config_def fresh_env_def)



text \<open>The delay before attempt \<open>a\<close> doubles from the base up to the cap; jitter adds a
  non-negative amount of at most half of it, in floats too, and never raises.\<close>

theorem retry_delay_within_jitter:
  assumes "backoff_ok cfg" and "random_ok rnd"
  shows "\<exists>n r'. calculate_retry_delay rnd a cfg r = (Inr n, r') \<and> plain_delay cfg a \<le> n \<and>
    (if jitter cfg then 2 * n \<le> 3 * plain_delay cfg a else n = plain_delay cfg a) \<and>
    plain_delay cfg (a + 1) \<le> max (2 * plain_delay cfg a) (base_backoff_ms cfg) \<and>
    plain_delay cfg a \<le> max_backoff_ms cfg"
proof -
  have step: "plain_delay cfg (a + 1) \<le> max (2 * plain_delay cfg a) (base_backoff_ms cfg)"
  proof (cases "a \<le> 1")
    case True
    then show ?thesis using assms(1) by (auto simp: plain_delay_def backoff_ok_def)
  next
    case False
    then have "nat (a + 1 - 2) = Suc (nat (a - 2))" by simp
    with False assms(1) show ?thesis by (auto simp: plain_delay_def backoff_ok_def min_def)
  qed
  show ?thesis
    using calculate_retry_delay_bounds [OF assms, of a r] plain_delay_bounds [OF assms(1), of a] step
    by blast
qed

theorem retry_delay_within_jitter_witness:
  "\<exists>n r'. calculate_retry_delay (\<lambda>i. Fin 0) 3 default_retry_config 0 = (Inr n, r') \<and> 200 \<le> n \<and> n \<le> 300"
proof -
  have "plain_delay default_retry_config 3 = 200" "jitter default_retry_config"
    by (simp_all add: plain_delay_def default_retry_config_def)
  with retry_delay_within_jitter [of default_retry_config "\<lambda>i. Fin 0" 3 0] show ?thesis
    by (auto simp: backoff_ok_def random_ok_def default_retry_config_def)
qed

text \<open>
  The number in \<open>RetryExhausted\<close> is not the number of attempts made: when the first
  delay alone exceeds the total timeout, one call is made and \<open>max_retries + 1\<close> reported.
\<close>

lemma retry_exhausted_overstates_attempts:
  assumes "frozen now" "enabled cfg" "\<not> jitter cfg" "1 \<le> max_retries cfg"
    and "0 < total_timeout_ms cfg" "total_timeout_ms cfg \<le> plain_delay cfg 2" "plain_delay cfg 2 \<le> 2 ^ 50"
    and "operation (op_state env) = (Inl e, s')" "is_retryable_error e"
  shows "\<exists>env'. with_retry_sync now rnd cfg operation env
      = (Inl (RetryExhausted (max_retries cfg + 1) e), env') \<and> op_state env' = s'"
proof -
  obtain l where l: "nat (max_retries cfg + 1) = Suc l" using assms(4) by (cases "nat (max_retries cfg + 1)") auto
  have d: "\<bar>plain_delay cfg 2\<bar> \<le> 2 ^ 53" using assms(5-7) by simp
  have delay: "calculate_retry_delay rnd 2 cfg r = (Inr (plain_delay cfg 2), r)" for r
    using assms(3) by (simp add: calculate_retry_delay_def plain_delay_def)
  have late: "f_le (Fin (of_int (total_timeout_ms cfg)))
      (f_add (f_sub (f_mul (now i) (Fin 1000)) (start_reading now)) (Fin (of_int (plain_delay cfg 2))))" for i
    using assms(6) d by (simp only: frozen_elapsed(2) [OF assms(1)] frozen_total)
  have notlate: "\<not> f_le (Fin (of_int (total_timeout_ms cfg)))
      (f_sub (start_reading now) (start_reading now))"
    using assms(5) frozen_elapsed [OF assms(1), of 0] by (simp add: f_le_def)
  show ?thesis
    using assms(2,4,8,9) delay late notlate float_of_int_small [OF d]
    by (simp add: with_retry_sync_def read_ms_def frozen_elapsed(1) [OF assms(1)] l one_attempt_def
        run_operation_def after_failure_def give_up_def frozen_elapsed(2) [OF assms(1)])
qed

end
