(* ===== verification/Sharding.thy ===== *)
theory Sharding
  imports Py_Float
begin

section \<open>Sharding: jump consistent hash and the shard key\<close>

text \<open>
  The sharding part of \<open>archerdb/types.py\<close>: \<open>jump_hash\<close>, \<open>compute_shard_key\<close>,
  \<open>get_shard_for_entity\<close> and \<open>ShardingStrategy\<close>.  The loop of \<open>jump_hash\<close>
  computes its next bucket in floats, with no bound on the number of buckets, so it
  is a partial function: \<open>None\<close> is a loop that does not return.  For up to
  \<open>2 ^ 53\<close> buckets every intermediate is exact enough for the loop to advance, and
  the lemmas below prove that it returns a bucket in range.
\<close>

unbundle bit_operations_syntax

definition MASK64 :: int where
  "MASK64 = 0xFFFFFFFFFFFFFFFF"

lemma and_MASK64: "k AND MASK64 = k mod 2 ^ 64"
proof -
  have "MASK64 = mask 64" by (simp add: MASK64_def mask_eq_exp_minus_1)
  then have "k AND MASK64 = take_bit 64 k" by (simp only: take_bit_eq_mask)
  then show ?thesis by (simp only: take_bit_eq_mod)
qed

lemma and_MASK64_bounds: "0 \<le> k AND MASK64 \<and> k AND MASK64 < 2 ^ 64"
  by (simp add: and_MASK64)

subsection \<open>Jump consistent hash\<close>

definition jump_lcg :: "int \<Rightarrow> int" where
  "jump_lcg k = (k * 2862933555777941757 + 1) AND MASK64"

definition jump_next :: "int \<Rightarrow> int \<Rightarrow> (py_exn, int) result" where
  "jump_next b k =
     bindE (int_truediv (push_bit 31 1) (drop_bit 33 k + 1)) (\<lambda>q.
     bindE (float_of_int (b + 1)) (\<lambda>f.
     py_int (f_mul f q)))"

partial_function (option) jump_loop ::
    "int \<Rightarrow> int \<Rightarrow> int \<Rightarrow> int \<Rightarrow> (py_exn, int) result option" where
  "jump_loop num_buckets b j k =
     (if j < num_buckets
      then (case jump_next j (jump_lcg k) of
              Inl e \<Rightarrow> Some (Inl e)
            | Inr j' \<Rightarrow> jump_loop num_buckets j j' (jump_lcg k))
      else Some (Inr b))"

declare jump_loop.simps [code]

definition jump_hash :: "int \<Rightarrow> int \<Rightarrow> (py_exn, int) result option" where
  "jump_hash key num_buckets =
     (if num_buckets \<le> 0 then Some (Inr 0)
      else jump_loop num_buckets (- 1) 0 (key AND MASK64))"

text \<open>Evaluation of the loop, one decided step at a time.\<close>

lemma jump_loop_stop: "\<not> j < n \<Longrightarrow> jump_loop n b j k = Some (Inr b)"
  by (subst jump_loop.simps) simp

lemma jump_loop_step:
  "j < n \<Longrightarrow> jump_lcg k = k' \<Longrightarrow> jump_next j k' = Inr j' \<Longrightarrow>
    jump_loop n b j k = jump_loop n j j' k'"
  by (subst jump_loop.simps) simp

text \<open>One step of the loop raises nothing and goes strictly forward.\<close>

lemma jump_lcg_bounds: "0 \<le> jump_lcg k \<and> jump_lcg k < 2 ^ 64"
  unfolding jump_lcg_def by (rule and_MASK64_bounds)

lemma jump_next_at_least:
  assumes k: "0 \<le> k" "k < 2 ^ 64" and b: "0 \<le> b" "b < 2 ^ 53"
    and c: "1 \<le> c" "c \<le> 2 ^ 31" "c * (drop_bit 33 k + 1) \<le> 2 ^ 31" "(b + 1) * c \<le> 2 ^ 53"
  shows "\<exists>j. jump_next b k = Inr j \<and> (b + 1) * c \<le> j"
proof -
  define d where d_def: "d = drop_bit 33 k + 1"
  have d: "1 \<le> d" "d \<le> 2 ^ 31"
  proof -
    have "k div 2 ^ 33 \<le> (2 ^ 64 - 1) div 2 ^ 33" using k by (intro zdiv_mono1) simp_all
    then show "d \<le> 2 ^ 31" by (simp add: d_def drop_bit_eq_div)
    show "1 \<le> d" using k by (simp add: d_def)
  qed
  let ?q = "(2 ^ 31 :: rat) / of_int d"
  have qc: "of_int c \<le> ?q" and q2: "?q \<le> 2 ^ 31"
  proof -
    have "(of_int (c * d) :: rat) \<le> of_int (2 ^ 31)" "(1 :: rat) \<le> of_int d"
      using c d by (simp_all only: of_int_le_iff of_int_1_le_iff d_def)
    then show "of_int c \<le> ?q" "?q \<le> 2 ^ 31"
      by (simp_all add: le_divide_eq divide_le_eq)
  qed
  have c1: "(1 :: rat) \<le> of_int c" using c by simp
  have q1: "1 \<le> ?q" using qc c1 by linarith
  have fqc: "of_int c \<le> fl ?q" using qc c by (intro fl_ge_of_int) simp_all
  have fq1: "1 \<le> fl ?q" using fqc c1 by linarith
  have fq2: "fl ?q \<le> 2 ^ 31" using fl_le_of_int [of ?q "2 ^ 31"] q2 by simp
  have "mk_float ?q = Fin (fl ?q)"
    using q1 q2 by (intro mk_float_Fin [of _ 31]) simp_all
  then have tq: "int_truediv (push_bit 31 1) d = Inr (Fin (fl ?q))"
    using d by (simp add: int_truediv_def push_bit_eq_mult)
  have bf: "float_of_int (b + 1) = Inr (Fin (of_int (b + 1)))"
    using b by (intro float_of_int_small) simp
  let ?p = "of_int (b + 1) * fl ?q"
  have b1: "(0 :: rat) \<le> of_int (b + 1)" "(of_int (b + 1) :: rat) \<le> 2 ^ 53"
    using b by simp_all
  have "of_int (b + 1) * of_int c \<le> ?p"
    using fqc b1 by (intro mult_left_mono) simp_all
  then have p1: "of_int ((b + 1) * c) \<le> ?p" by simp
  have bc: "0 \<le> (b + 1) * c" using b c by simp
  have fp: "of_int ((b + 1) * c) \<le> fl ?p"
    using p1 c bc by (intro fl_ge_of_int) linarith+
  have bc': "(0 :: rat) \<le> of_int ((b + 1) * c)" using bc by (simp only: of_int_0_le_iff)
  have "?p \<le> 2 ^ 53 * 2 ^ 31"
    using b1 fq1 fq2 by (intro mult_mono) simp_all
  then have "\<bar>?p\<bar> \<le> 2 ^ 84" using p1 bc' by (simp only: abs_le_iff) simp
  then have "mk_float ?p = Fin (fl ?p)"
    by (intro mk_float_Fin [of _ 84]) simp_all
  then have "jump_next b k = Inr (trunc (fl ?p))"
    unfolding jump_next_def d_def [symmetric] tq bf by simp
  moreover have "(b + 1) * c \<le> \<lfloor>fl ?p\<rfloor>" using fp by (simp only: le_floor_iff)
  moreover have "0 \<le> fl ?p" using fp bc' by linarith
  ultimately show ?thesis by (simp add: trunc_def)
qed

lemma jump_next_forward:
  assumes k: "0 \<le> k" "k < 2 ^ 64" and b: "0 \<le> b" "b < 2 ^ 53"
  shows "\<exists>j. jump_next b k = Inr j \<and> b < j"
proof -
  have "k div 2 ^ 33 \<le> (2 ^ 64 - 1) div 2 ^ 33" using k by (intro zdiv_mono1) simp_all
  then have "drop_bit 33 k + 1 \<le> 2 ^ 31" by (simp add: drop_bit_eq_div)
  then show ?thesis using jump_next_at_least [OF k b, of 1] b by auto
qed

text \<open>The loop returns: either the bucket it entered with, or one in \<open>[j, n)\<close>.\<close>

lemma jump_loop_returns:
  assumes "0 \<le> j" and "n \<le> 2 ^ 53"
  shows "\<exists>s. jump_loop n b j k = Some (Inr s) \<and> (if j < n then j \<le> s \<and> s < n else s = b)"
  using assms(1)
proof (induction "nat (n - j)" arbitrary: b j k rule: less_induct)
  case less
  show ?case
  proof (cases "j < n")
    case True
    obtain j' where j': "jump_next j (jump_lcg k) = Inr j'" "j < j'"
      using jump_next_forward [of "jump_lcg k" j] jump_lcg_bounds less.prems True assms(2) by auto
    then have "nat (n - j') < nat (n - j)" using True by simp
    moreover have "0 \<le> j'" using less.prems j' by simp
    ultimately obtain s where s: "jump_loop n j j' (jump_lcg k) = Some (Inr s)"
        "if j' < n then j' \<le> s \<and> s < n else s = j"
      using less.hyps by blast
    then have "jump_loop n b j k = Some (Inr s)"
      using True j' by (subst jump_loop.simps) simp
    with s True j' show ?thesis by (auto split: if_splits)
  next
    case False
    then show ?thesis by (subst jump_loop.simps) simp
  qed
qed

lemma jump_hash_returns:
  assumes "0 < n" and "n \<le> 2 ^ 53"
  shows "\<exists>s. jump_hash key n = Some (Inr s) \<and> 0 \<le> s \<and> s < n"
  using jump_loop_returns [of 0 n "- 1" "key AND MASK64"] assms by (auto simp: jump_hash_def)

text \<open>Growing the cluster by one bucket: the loop stops where it did, or in the new bucket.\<close>

lemma jump_loop_grow:
  assumes "0 \<le> j" and "n < 2 ^ 53"
  shows "jump_loop (n + 1) b j k = jump_loop n b j k \<or> jump_loop (n + 1) b j k = Some (Inr n)"
  using assms(1)
proof (induction "nat (n - j)" arbitrary: b j k rule: less_induct)
  case less
  consider "j < n" | "j = n" | "n < j" by linarith
  then show ?case
  proof cases
    case 1
    obtain j' where j': "jump_next j (jump_lcg k) = Inr j'" "j < j'"
      using jump_next_forward [of "jump_lcg k" j] jump_lcg_bounds less.prems 1 assms(2) by auto
    then have "nat (n - j') < nat (n - j)" and "0 \<le> j'" using 1 less.prems by simp_all
    then have "jump_loop (n + 1) j j' (jump_lcg k) = jump_loop n j j' (jump_lcg k)
        \<or> jump_loop (n + 1) j j' (jump_lcg k) = Some (Inr n)"
      using less.hyps by blast
    with 1 j' show ?thesis
      by (simp add: jump_loop.simps [of "n + 1" b j k] jump_loop.simps [of n b j k])
  next
    case 2
    obtain j' where j': "jump_next n (jump_lcg k) = Inr j'" "n < j'"
      using jump_next_forward [of "jump_lcg k" n] jump_lcg_bounds less.prems 2 assms(2) by auto
    then have "jump_loop (n + 1) n j' (jump_lcg k) = Some (Inr n)"
      by (subst jump_loop.simps) simp
    with 2 j' show ?thesis
      by (simp add: jump_loop.simps [of "n + 1" b n k])
  next
    case 3
    then show ?thesis
      by (simp add: jump_loop.simps [of "n + 1" b j k] jump_loop.simps [of n b j k])
  qed
qed

lemma jump_hash_grow:
  assumes "0 < n" and "n < 2 ^ 53"
  shows "jump_hash key (n + 1) = jump_hash key n \<or> jump_hash key (n + 1) = Some (Inr n)"
  using jump_loop_grow [of 0 n "- 1" "key AND MASK64"] assms by (simp add: jump_hash_def)

subsection \<open>The interface of a shard assignment\<close>

text \<open>
  What the rest of the client relies on: every entity is assigned to exactly one
  of the \<open>n\<close> shards, so splitting a list of entities by shard loses none and
  duplicates none.  A consistent assignment also moves an entity only to a shard
  that was added.
\<close>

locale shard_assignment =
  fixes shard :: "int \<Rightarrow> int \<Rightarrow> (py_exn, int) result option"
    and most :: int
  assumes in_range: "0 < n \<Longrightarrow> n \<le> most \<Longrightarrow> \<exists>s. shard e n = Some (Inr s) \<and> 0 \<le> s \<and> s < n"
begin

lemma exactly_one:
  assumes "0 < n" and "n \<le> most"
  shows "\<exists>!s. 0 \<le> s \<and> s < n \<and> shard e n = Some (Inr s)"
  using in_range [OF assms, of e] by auto

lemma split_complete:
  assumes "0 < n" and "n \<le> most"
  shows "(\<Sum>s\<in>{0..<n}. length (filter (\<lambda>e. shard e n = Some (Inr s)) es)) = length es"
proof (induction es)
  case Nil
  then show ?case by simp
next
  case (Cons e es)
  obtain t where t: "shard e n = Some (Inr t)" "0 \<le> t" "t < n"
    using in_range [OF assms, of e] by blast
  have "(\<Sum>s\<in>{0..<n}. length (filter (\<lambda>e. shard e n = Some (Inr s)) (e # es)))
      = (\<Sum>s\<in>{0..<n}. (if s = t then 1 else 0)
           + length (filter (\<lambda>e. shard e n = Some (Inr s)) es))"
    using t by (intro sum.cong) auto
  also have "\<dots> = 1 + length es"
    using t Cons by (simp add: sum.distrib)
  finally show ?case by simp
qed

end

locale consistent_assignment = shard_assignment +
  assumes grow: "0 < n \<Longrightarrow> n < most \<Longrightarrow>
    shard e (n + 1) = shard e n \<or> shard e (n + 1) = Some (Inr n)"
begin

lemma grow_many:
  assumes "0 < n" and "n + int d \<le> most"
  shows "shard e (n + int d) = shard e n \<or>
    (\<exists>s. shard e (n + int d) = Some (Inr s) \<and> n \<le> s)"
  using assms(2)
proof (induction d)
  case 0
  then show ?case by simp
next
  case (Suc d)
  then have "n + int d < most" by simp
  then have "shard e (n + int d + 1) = shard e (n + int d)
      \<or> shard e (n + int d + 1) = Some (Inr (n + int d))"
    using assms(1) by (intro grow) simp_all
  with Suc show ?case by (auto simp: algebra_simps)
qed

end

subsection \<open>The 64-bit shard key\<close>

definition C1 :: int where
  "C1 = 0xff51afd7ed558ccd"

definition C2 :: int where
  "C2 = 0xc4ceb9fe1a85ec53"

text \<open>The finalization mix that the code writes out once for each half.\<close>

definition fmix64 :: "int \<Rightarrow> int" where
  "fmix64 h =
     (let h = h XOR drop_bit 33 h;
          h = (h * C1) AND MASK64;
          h = h XOR drop_bit 33 h;
          h = (h * C2) AND MASK64
      in h XOR drop_bit 33 h)"

definition compute_shard_key :: "int \<Rightarrow> int" where
  "compute_shard_key entity_id =
     (let lo = entity_id AND MASK64;
          hi = drop_bit 64 entity_id AND MASK64
      in fmix64 lo XOR fmix64 hi)"

definition get_shard_for_entity :: "int \<Rightarrow> int \<Rightarrow> (py_exn, int) result option" where
  "get_shard_for_entity entity_id num_shards = jump_hash (compute_shard_key entity_id) num_shards"

interpretation jump: consistent_assignment get_shard_for_entity "2 ^ 53"
  by unfold_locales
     (use jump_hash_returns jump_hash_grow in \<open>auto simp: get_shard_for_entity_def\<close>)

text \<open>
  The mix on 64-bit words: a xor-shift by 33 is its own inverse there (the shifts
  add up to more than 64), and a multiplication by an odd constant is invertible.
\<close>

definition xorshift33 :: "64 word \<Rightarrow> 64 word" where
  "xorshift33 w = w XOR drop_bit 33 w"

lemma xorshift33_inverse: "xorshift33 (xorshift33 w) = w"
proof (rule bit_word_eqI)
  fix n
  assume "n < LENGTH(64)"
  then show "bit (xorshift33 (xorshift33 w)) n \<longleftrightarrow> bit w n"
    using bit_imp_le_length [of w "33 + (33 + n)"]
    by (auto simp: xorshift33_def bit_xor_iff bit_drop_bit_eq)
qed

lemma xorshift33_uint: "uint (xorshift33 w) = uint w XOR drop_bit 33 (uint w)"
  using take_bit_int_eq_self [of "uint w" 64] uint_lt2p [of w]
  by (simp add: xorshift33_def unsigned_xor_eq unsigned_drop_bit_eq)

lemma times_odd_inverses:
  "word_of_int C1 * (0x4f74430c22a54005 :: 64 word) = 1"
  "word_of_int C2 * (0x9cb4b2f8129337db :: 64 word) = 1"
  by (simp_all add: C1_def C2_def)

lemma uint_times_mask: "(uint (w :: 64 word) * c) AND MASK64 = uint (w * word_of_int c)"
  by (simp add: and_MASK64 uint_word_ariths uint_word_of_int mod_mult_right_eq)

definition fmix_word :: "64 word \<Rightarrow> 64 word" where
  "fmix_word w = xorshift33 (xorshift33 (xorshift33 w * word_of_int C1) * word_of_int C2)"

lemma fmix64_word: "fmix64 (uint w) = uint (fmix_word w)"
  unfolding fmix64_def fmix_word_def Let_def xorshift33_uint [symmetric] uint_times_mask ..

lemma fmix_word_inj: "fmix_word v = fmix_word w \<Longrightarrow> v = w"
proof -
  have step: "x * c = y * c \<Longrightarrow> c * d = 1 \<Longrightarrow> x = y" for x y c d :: "64 word"
  proof -
    assume eq: "x * c = y * c" and cd: "c * d = 1"
    have "x = x * c * d" by (simp add: mult.assoc cd)
    also have "\<dots> = y" unfolding eq by (simp add: mult.assoc cd)
    finally show "x = y" .
  qed
  have shift: "xorshift33 x = xorshift33 y \<Longrightarrow> x = y" for x y
    by (metis xorshift33_inverse)
  assume "fmix_word v = fmix_word w"
  then have "xorshift33 (xorshift33 v * word_of_int C1) * word_of_int C2
      = xorshift33 (xorshift33 w * word_of_int C1) * word_of_int C2"
    unfolding fmix_word_def by (rule shift)
  then have "xorshift33 (xorshift33 v * word_of_int C1) = xorshift33 (xorshift33 w * word_of_int C1)"
    by (rule step [OF _ times_odd_inverses(2)])
  then have "xorshift33 v * word_of_int C1 = xorshift33 w * word_of_int C1" by (rule shift)
  then have "xorshift33 v = xorshift33 w"
    by (rule step [OF _ times_odd_inverses(1)])
  then show "v = w" by (rule shift)
qed

lemma fmix64_inj:
  assumes "0 \<le> a" "a < 2 ^ 64" "0 \<le> b" "b < 2 ^ 64" "fmix64 a = fmix64 b"
  shows "a = b"
proof -
  have ua: "uint (word_of_int a :: 64 word) = a" and ub: "uint (word_of_int b :: 64 word) = b"
    using assms by (simp_all add: uint_word_of_int)
  have "uint (fmix_word (word_of_int a)) = uint (fmix_word (word_of_int b))"
    using assms(5) by (metis fmix64_word ua ub)
  then have "fmix_word (word_of_int a) = fmix_word (word_of_int b)"
    by (simp add: word_uint_eq_iff)
  then have "(word_of_int a :: 64 word) = word_of_int b" by (rule fmix_word_inj)
  then show ?thesis using ua ub by metis
qed

lemma fmix64_bounds: "0 \<le> a \<Longrightarrow> a < 2 ^ 64 \<Longrightarrow> 0 \<le> fmix64 a \<and> fmix64 a < 2 ^ 64"
proof -
  assume "0 \<le> a" "a < 2 ^ 64"
  then have "uint (word_of_int a :: 64 word) = a" by (simp add: uint_word_of_int)
  then have "fmix64 a = uint (fmix_word (word_of_int a))" by (metis fmix64_word)
  then show ?thesis using uint_lt2p [of "fmix_word (word_of_int a)"] by simp
qed

text \<open>Ids that share one half have different keys: the mix of the other half is injective.\<close>

lemma xor_left_cancel_int: "(a :: int) XOR b = a XOR c \<longleftrightarrow> b = c"
  by (metis xor.assoc xor_self_eq xor.left_neutral)

lemma compute_shard_key_halves:
  assumes "0 \<le> a" "a < 2 ^ 64" "0 \<le> b" "b < 2 ^ 64"
  shows "compute_shard_key (a + 2 ^ 64 * b) = fmix64 a XOR fmix64 b"
proof -
  have "(a + 2 ^ 64 * b) AND MASK64 = a" using assms by (simp add: and_MASK64)
  moreover have "drop_bit 64 (a + 2 ^ 64 * b) = b" using assms by (simp add: drop_bit_eq_div)
  moreover have "b AND MASK64 = b" using assms by (simp add: and_MASK64)
  ultimately show ?thesis by (simp add: compute_shard_key_def)
qed

subsection \<open>Sharding strategies\<close>

datatype sharding_strategy = MODULO | VIRTUAL_RING | JUMP_HASH

fun sharding_strategy_code :: "sharding_strategy \<Rightarrow> int" where
  "sharding_strategy_code MODULO = 0"
| "sharding_strategy_code VIRTUAL_RING = 1"
| "sharding_strategy_code JUMP_HASH = 2"

interpretation strategy_enum: int_enum "[MODULO, VIRTUAL_RING, JUMP_HASH]" sharding_strategy_code
proof
  fix x show "x \<in> set [MODULO, VIRTUAL_RING, JUMP_HASH]" by (cases x) simp_all
qed simp

definition requires_power_of_two :: "sharding_strategy \<Rightarrow> bool" where
  "requires_power_of_two s \<longleftrightarrow> s = MODULO"

definition strategy_from_string :: "string \<Rightarrow> (py_exn, sharding_strategy) result" where
  "strategy_from_string s =
     (case map_of [(''modulo'', MODULO), (''virtual_ring'', VIRTUAL_RING), (''jump_hash'', JUMP_HASH)]
             (py_lower s) of
        Some x \<Rightarrow> Inr x
      | None \<Rightarrow> Inl ValueError)"

fun strategy_to_string :: "sharding_strategy \<Rightarrow> string" where
  "strategy_to_string MODULO = ''modulo''"
| "strategy_to_string VIRTUAL_RING = ''virtual_ring''"
| "strategy_to_string JUMP_HASH = ''jump_hash''"

lemma strategy_string_roundtrip: "strategy_from_string (strategy_to_string s) = Inr s"
  by (cases s) (simp_all add: strategy_from_string_def py_lower_def lower_char_def)

lemma strategy_from_string_Inr:
  "strategy_from_string s = Inr x \<longleftrightarrow> py_lower s = strategy_to_string x"
  by (cases x) (auto simp: strategy_from_string_def split: if_splits)

subsection \<open>Properties\<close>

text \<open>C9: For every entity id and up to \<open>2 ^ 53\<close> shards the jump-hash loop returns, raises
  nothing, and yields a shard in \<open>[0, num_shards)\<close>.\<close>

theorem get_shard_for_entity_total:
  assumes "0 < n" and "n \<le> 2 ^ 53"
  shows "\<exists>!s. 0 \<le> s \<and> s < n \<and> get_shard_for_entity e n = Some (Inr s)"
  using assms by (rule jump.exactly_one)

theorem get_shard_for_entity_total_witness:
  "\<exists>!s. 0 \<le> s \<and> s < 16 \<and> get_shard_for_entity 42 16 = Some (Inr s)"
  using get_shard_for_entity_total [of 16 42] by simp

text \<open>C10: Growing the cluster from \<open>n\<close> to \<open>n + d\<close> shards never moves an entity between
  two old shards: it stays where it was or goes to one of the shards that were added.\<close>

theorem get_shard_for_entity_minimal_movement:
  assumes "0 < n" and "n + int d \<le> 2 ^ 53"
  shows "get_shard_for_entity e (n + int d) = get_shard_for_entity e n \<or>
    (\<exists>s. get_shard_for_entity e (n + int d) = Some (Inr s) \<and> n \<le> s \<and> s < n + int d)"
proof -
  have "\<exists>t. get_shard_for_entity e (n + int d) = Some (Inr t) \<and> 0 \<le> t \<and> t < n + int d"
    using assms by (intro jump.in_range) simp_all
  with jump.grow_many [OF assms] show ?thesis by fastforce
qed

theorem get_shard_for_entity_minimal_movement_witness:
  "get_shard_for_entity 42 (16 + int 1) = get_shard_for_entity 42 16 \<or>
    (\<exists>s. get_shard_for_entity 42 (16 + int 1) = Some (Inr s) \<and> 16 \<le> s \<and> s < 16 + int 1)"
  by (rule get_shard_for_entity_minimal_movement) simp_all

text \<open>The shard key of a 128-bit id is a 64-bit value, and two ids that agree in one
  64-bit half have equal keys only if they are equal: the finalization of a half
  loses nothing.\<close>

theorem compute_shard_key_injective_per_half:
  assumes "0 \<le> a" "a < 2 ^ 64" "0 \<le> b" "b < 2 ^ 64" "0 \<le> c" "c < 2 ^ 64"
  shows "(compute_shard_key (a + 2 ^ 64 * c) = compute_shard_key (b + 2 ^ 64 * c) \<longleftrightarrow> a = b) \<and>
    (compute_shard_key (c + 2 ^ 64 * a) = compute_shard_key (c + 2 ^ 64 * b) \<longleftrightarrow> a = b) \<and>
    0 \<le> compute_shard_key (a + 2 ^ 64 * c) \<and> compute_shard_key (a + 2 ^ 64 * c) < 2 ^ 64"
proof (intro conjI)
  have inj: "fmix64 a = fmix64 b \<longleftrightarrow> a = b" using fmix64_inj [of a b] assms by blast
  have keys: "compute_shard_key (x + 2 ^ 64 * c) = fmix64 c XOR fmix64 x"
      "compute_shard_key (c + 2 ^ 64 * x) = fmix64 c XOR fmix64 x"
    if "0 \<le> x" "x < 2 ^ 64" for x
    using compute_shard_key_halves [of x c] compute_shard_key_halves [of c x] that assms(5,6)
    by (simp_all only: xor.commute)
  show "compute_shard_key (a + 2 ^ 64 * c) = compute_shard_key (b + 2 ^ 64 * c) \<longleftrightarrow> a = b"
    by (simp only: keys assms(1-4) xor_left_cancel_int inj)
  show "compute_shard_key (c + 2 ^ 64 * a) = compute_shard_key (c + 2 ^ 64 * b) \<longleftrightarrow> a = b"
    by (simp only: keys assms(1-4) xor_left_cancel_int inj)
  have "take_bit 64 (fmix64 c XOR fmix64 a) = fmix64 c XOR fmix64 a"
    using fmix64_bounds [of a] fmix64_bounds [of c] assms by (simp add: take_bit_int_eq_self)
  then have "compute_shard_key (a + 2 ^ 64 * c) = (fmix64 c XOR fmix64 a) mod 2 ^ 64"
    using keys(1) [OF assms(1,2)] by (simp only: take_bit_eq_mod)
  then show "0 \<le> compute_shard_key (a + 2 ^ 64 * c)" "compute_shard_key (a + 2 ^ 64 * c) < 2 ^ 64"
    by simp_all
qed

theorem compute_shard_key_injective_per_half_witness:
  "compute_shard_key (7 + 2 ^ 64 * 5) \<noteq> compute_shard_key (8 + 2 ^ 64 * 5)"
  using compute_shard_key_injective_per_half [of 7 8 5] by simp

end
