(* ===== verification/Geo_Types.thy ===== *)
theory Geo_Types
  imports Py_Float
begin

section \<open>Geo types: enums, records, unit conversions and builders\<close>

text \<open>
  The data model of \<open>archerdb/types.py\<close>: its constants, result-code enums, the
  \<open>GeoEvent\<close> record and query filters, the unit conversions and the builder
  functions that validate user input.  Record fields carry a prefix where Python
  reuses a name across classes.
\<close>

subsection \<open>Result codes and operations\<close>

datatype insert_result =
    INSERT_OK | LINKED_EVENT_FAILED | LINKED_EVENT_CHAIN_OPEN | TIMESTAMP_MUST_BE_ZERO
  | RESERVED_FIELD | RESERVED_FLAG | ID_MUST_NOT_BE_ZERO | ENTITY_ID_MUST_NOT_BE_ZERO
  | INVALID_COORDINATES | LAT_OUT_OF_RANGE | LON_OUT_OF_RANGE
  | EXISTS_WITH_DIFFERENT_ENTITY_ID | EXISTS_WITH_DIFFERENT_COORDINATES | EXISTS
  | HEADING_OUT_OF_RANGE | TTL_INVALID | ENTITY_ID_MUST_NOT_BE_INT_MAX
  | STORAGE_SPACE_EXHAUSTED

definition insert_results :: "insert_result list" where
  "insert_results =
     [INSERT_OK, LINKED_EVENT_FAILED, LINKED_EVENT_CHAIN_OPEN, TIMESTAMP_MUST_BE_ZERO,
      RESERVED_FIELD, RESERVED_FLAG, ID_MUST_NOT_BE_ZERO, ENTITY_ID_MUST_NOT_BE_ZERO,
      INVALID_COORDINATES, LAT_OUT_OF_RANGE, LON_OUT_OF_RANGE,
      EXISTS_WITH_DIFFERENT_ENTITY_ID, EXISTS_WITH_DIFFERENT_COORDINATES, EXISTS,
      HEADING_OUT_OF_RANGE, TTL_INVALID, ENTITY_ID_MUST_NOT_BE_INT_MAX,
      STORAGE_SPACE_EXHAUSTED]"

fun insert_result_code :: "insert_result \<Rightarrow> int" where
  "insert_result_code INSERT_OK = 0"
| "insert_result_code LINKED_EVENT_FAILED = 1"
| "insert_result_code LINKED_EVENT_CHAIN_OPEN = 2"
| "insert_result_code TIMESTAMP_MUST_BE_ZERO = 3"
| "insert_result_code RESERVED_FIELD = 4"
| "insert_result_code RESERVED_FLAG = 5"
| "insert_result_code ID_MUST_NOT_BE_ZERO = 6"
| "insert_result_code ENTITY_ID_MUST_NOT_BE_ZERO = 7"
| "insert_result_code INVALID_COORDINATES = 8"
| "insert_result_code LAT_OUT_OF_RANGE = 9"
| "insert_result_code LON_OUT_OF_RANGE = 10"
| "insert_result_code EXISTS_WITH_DIFFERENT_ENTITY_ID = 11"
| "insert_result_code EXISTS_WITH_DIFFERENT_COORDINATES = 12"
| "insert_result_code EXISTS = 13"
| "insert_result_code HEADING_OUT_OF_RANGE = 14"
| "insert_result_code TTL_INVALID = 15"
| "insert_result_code ENTITY_ID_MUST_NOT_BE_INT_MAX = 16"
| "insert_result_code STORAGE_SPACE_EXHAUSTED = 17"

datatype delete_result_code =
    DELETE_OK | DELETE_LINKED_EVENT_FAILED | DELETE_ENTITY_ID_MUST_NOT_BE_ZERO
  | DELETE_ENTITY_NOT_FOUND | DELETE_ENTITY_ID_MUST_NOT_BE_INT_MAX
  | DELETE_STORAGE_SPACE_EXHAUSTED

definition delete_results :: "delete_result_code list" where
  "delete_results =
     [DELETE_OK, DELETE_LINKED_EVENT_FAILED, DELETE_ENTITY_ID_MUST_NOT_BE_ZERO,
      DELETE_ENTITY_NOT_FOUND, DELETE_ENTITY_ID_MUST_NOT_BE_INT_MAX,
      DELETE_STORAGE_SPACE_EXHAUSTED]"

fun delete_code :: "delete_result_code \<Rightarrow> int" where
  "delete_code DELETE_OK = 0"
| "delete_code DELETE_LINKED_EVENT_FAILED = 1"
| "delete_code DELETE_ENTITY_ID_MUST_NOT_BE_ZERO = 2"
| "delete_code DELETE_ENTITY_NOT_FOUND = 3"
| "delete_code DELETE_ENTITY_ID_MUST_NOT_BE_INT_MAX = 4"
| "delete_code DELETE_STORAGE_SPACE_EXHAUSTED = 5"

datatype ttl_result =
    TTL_SUCCESS | TTL_ENTITY_NOT_FOUND | TTL_INVALID_TTL | TTL_NOT_PERMITTED
  | TTL_ENTITY_IMMUTABLE | TTL_STORAGE_SPACE_EXHAUSTED

definition ttl_results :: "ttl_result list" where
  "ttl_results =
     [TTL_SUCCESS, TTL_ENTITY_NOT_FOUND, TTL_INVALID_TTL, TTL_NOT_PERMITTED,
      TTL_ENTITY_IMMUTABLE, TTL_STORAGE_SPACE_EXHAUSTED]"

fun ttl_code :: "ttl_result \<Rightarrow> int" where
  "ttl_code TTL_SUCCESS = 0"
| "ttl_code TTL_ENTITY_NOT_FOUND = 1"
| "ttl_code TTL_INVALID_TTL = 2"
| "ttl_code TTL_NOT_PERMITTED = 3"
| "ttl_code TTL_ENTITY_IMMUTABLE = 4"
| "ttl_code TTL_STORAGE_SPACE_EXHAUSTED = 5"

datatype shard_status = ACTIVE | SYNCING | UNAVAILABLE | MIGRATING | DECOMMISSIONING

definition shard_statuses :: "shard_status list" where
  "shard_statuses = [ACTIVE, SYNCING, UNAVAILABLE, MIGRATING, DECOMMISSIONING]"

fun shard_status_code :: "shard_status \<Rightarrow> int" where
  "shard_status_code ACTIVE = 0"
| "shard_status_code SYNCING = 1"
| "shard_status_code UNAVAILABLE = 2"
| "shard_status_code MIGRATING = 3"
| "shard_status_code DECOMMISSIONING = 4"

datatype geo_operation =
    INSERT_EVENTS | UPSERT_EVENTS | DELETE_ENTITIES | QUERY_UUID | QUERY_RADIUS
  | QUERY_POLYGON | ARCHERDB_PING | ARCHERDB_GET_STATUS | QUERY_LATEST
  | CLEANUP_EXPIRED | QUERY_UUID_BATCH | GET_TOPOLOGY | TTL_SET | TTL_EXTEND | TTL_CLEAR

definition geo_operations :: "geo_operation list" where
  "geo_operations =
     [INSERT_EVENTS, UPSERT_EVENTS, DELETE_ENTITIES, QUERY_UUID, QUERY_RADIUS,
      QUERY_POLYGON, ARCHERDB_PING, ARCHERDB_GET_STATUS, QUERY_LATEST,
      CLEANUP_EXPIRED, QUERY_UUID_BATCH, GET_TOPOLOGY, TTL_SET, TTL_EXTEND, TTL_CLEAR]"

fun geo_operation_code :: "geo_operation \<Rightarrow> int" where
  "geo_operation_code INSERT_EVENTS = 146"
| "geo_operation_code UPSERT_EVENTS = 147"
| "geo_operation_code DELETE_ENTITIES = 148"
| "geo_operation_code QUERY_UUID = 149"
| "geo_operation_code QUERY_RADIUS = 150"
| "geo_operation_code QUERY_POLYGON = 151"
| "geo_operation_code ARCHERDB_PING = 152"
| "geo_operation_code ARCHERDB_GET_STATUS = 153"
| "geo_operation_code QUERY_LATEST = 154"
| "geo_operation_code CLEANUP_EXPIRED = 155"
| "geo_operation_code QUERY_UUID_BATCH = 156"
| "geo_operation_code GET_TOPOLOGY = 157"
| "geo_operation_code TTL_SET = 158"
| "geo_operation_code TTL_EXTEND = 159"
| "geo_operation_code TTL_CLEAR = 160"

interpretation insert_enum: int_enum insert_results insert_result_code
proof
  fix x show "x \<in> set insert_results" by (cases x) (simp_all add: insert_results_def)
qed (simp add: insert_results_def)

interpretation delete_enum: int_enum delete_results delete_code
proof
  fix x show "x \<in> set delete_results" by (cases x) (simp_all add: delete_results_def)
qed (simp add: delete_results_def)

interpretation ttl_enum: int_enum ttl_results ttl_code
proof
  fix x show "x \<in> set ttl_results" by (cases x) (simp_all add: ttl_results_def)
qed (simp add: ttl_results_def)

interpretation status_enum: int_enum shard_statuses shard_status_code
proof
  fix x show "x \<in> set shard_statuses" by (cases x) (simp_all add: shard_statuses_def)
qed (simp add: shard_statuses_def)

interpretation operation_enum: int_enum geo_operations geo_operation_code
proof
  fix x show "x \<in> set geo_operations" by (cases x) (simp_all add: geo_operations_def)
qed (simp add: geo_operations_def)

subsection \<open>Constants\<close>

definition LAT_MAX :: pyfloat where "LAT_MAX = Fin 90"
definition LON_MAX :: pyfloat where "LON_MAX = Fin 180"
definition NANODEGREES_PER_DEGREE :: int where "NANODEGREES_PER_DEGREE = 1000000000"
definition MM_PER_METER :: int where "MM_PER_METER = 1000"
definition CENTIDEGREES_PER_DEGREE :: int where "CENTIDEGREES_PER_DEGREE = 100"
definition BATCH_SIZE_MAX :: nat where "BATCH_SIZE_MAX = 10000"
definition QUERY_LIMIT_MAX :: int where "QUERY_LIMIT_MAX = 81000"
definition POLYGON_VERTICES_MAX :: nat where "POLYGON_VERTICES_MAX = 10000"
definition POLYGON_HOLES_MAX :: nat where "POLYGON_HOLES_MAX = 100"
definition POLYGON_HOLE_VERTICES_MIN :: nat where "POLYGON_HOLE_VERTICES_MIN = 3"

subsection \<open>Records\<close>

record geo_event =
  event_id :: int
  entity_id :: int
  correlation_id :: int
  user_data :: int
  lat_nano :: int
  lon_nano :: int
  group_id :: int
  timestamp :: int
  altitude_mm :: int
  velocity_mms :: int
  ttl_seconds :: int
  accuracy_mm :: int
  heading_cdeg :: int
  event_flags :: int

record insert_events_error =
  ie_index :: int
  ie_result :: insert_result

record delete_entities_error =
  de_index :: int
  de_result :: delete_result_code

record query_uuid_batch_result =
  found_count :: int
  not_found_count :: int
  not_found_indices :: "int list"
  batch_events :: "geo_event list"

record query_radius_filter =
  center_lat_nano :: int
  center_lon_nano :: int
  radius_mm :: int
  rf_limit :: int
  rf_timestamp_min :: int
  rf_timestamp_max :: int
  rf_group_id :: int

record polygon_vertex =
  v_lat_nano :: int
  v_lon_nano :: int

record query_polygon_filter =
  pf_vertices :: "polygon_vertex list"
  pf_holes :: "polygon_vertex list list"
  pf_limit :: int
  pf_timestamp_min :: int
  pf_timestamp_max :: int
  pf_group_id :: int

record query_latest_filter =
  lf_limit :: int
  lf_group_id :: int
  cursor_timestamp :: int

record query_result =
  events :: "geo_event list"
  has_more :: bool
  cursor :: "int option"

record delete_result =
  deleted_count :: int
  dr_not_found_count :: int

record cleanup_result =
  entries_scanned :: int
  entries_removed :: int

definition has_removals :: "cleanup_result \<Rightarrow> bool" where
  "has_removals c \<longleftrightarrow> 0 < entries_removed c"

definition expiration_ratio :: "cleanup_result \<Rightarrow> (py_exn, pyfloat) result" where
  "expiration_ratio c =
     (if entries_scanned c = 0 then Inr (Fin 0)
      else int_truediv (entries_removed c) (entries_scanned c))"

subsection \<open>Unit conversions\<close>

text \<open>\<open>x * N\<close> of a float and one of the integer factors, which are exact floats.\<close>

definition times_int :: "pyfloat \<Rightarrow> int \<Rightarrow> (py_exn, pyfloat) result" where
  "times_int x n = bindE (float_of_int n) (\<lambda>f. Inr (f_mul x f))"

definition degrees_to_nano :: "pyfloat \<Rightarrow> (py_exn, int) result" where
  "degrees_to_nano degrees = bindE (times_int degrees NANODEGREES_PER_DEGREE) py_round"

definition nano_to_degrees :: "int \<Rightarrow> (py_exn, pyfloat) result" where
  "nano_to_degrees nano = int_truediv nano NANODEGREES_PER_DEGREE"

definition meters_to_mm :: "pyfloat \<Rightarrow> (py_exn, int) result" where
  "meters_to_mm meters = bindE (times_int meters MM_PER_METER) py_round"

definition mm_to_meters :: "int \<Rightarrow> (py_exn, pyfloat) result" where
  "mm_to_meters mm = int_truediv mm MM_PER_METER"

definition heading_to_centidegrees :: "pyfloat \<Rightarrow> (py_exn, int) result" where
  "heading_to_centidegrees degrees = bindE (times_int degrees CENTIDEGREES_PER_DEGREE) py_round"

definition centidegrees_to_heading :: "int \<Rightarrow> (py_exn, pyfloat) result" where
  "centidegrees_to_heading cdeg = int_truediv cdeg CENTIDEGREES_PER_DEGREE"

definition is_valid_latitude :: "pyfloat \<Rightarrow> bool" where
  "is_valid_latitude lat \<longleftrightarrow> f_le (f_neg LAT_MAX) lat \<and> f_le lat LAT_MAX"

definition is_valid_longitude :: "pyfloat \<Rightarrow> bool" where
  "is_valid_longitude lon \<longleftrightarrow> f_le (f_neg LON_MAX) lon \<and> f_le lon LON_MAX"

lemma is_valid_latitude_iff: "is_valid_latitude lat \<longleftrightarrow> (\<exists>x. lat = Fin x \<and> - 90 \<le> x \<and> x \<le> 90)"
  by (cases lat) (auto simp: is_valid_latitude_def LAT_MAX_def f_le_def)

lemma is_valid_longitude_iff: "is_valid_longitude lon \<longleftrightarrow> (\<exists>x. lon = Fin x \<and> - 180 \<le> x \<and> x \<le> 180)"
  by (cases lon) (auto simp: is_valid_longitude_def LON_MAX_def f_le_def)

lemma times_int_small:
  assumes "\<bar>x\<bar> \<le> 2 ^ 53" and "\<bar>n\<bar> \<le> 2 ^ 53"
  shows "times_int (Fin x) n = Inr (Fin (fl (x * of_int n)))"
proof -
  have "\<bar>of_int n :: rat\<bar> \<le> 2 ^ 53"
    using assms(2) by (metis of_int_abs of_int_le_iff of_int_numeral of_int_power)
  then have "\<bar>x\<bar> * \<bar>of_int n\<bar> \<le> 2 ^ 53 * 2 ^ 53"
    using assms(1) by (intro mult_mono) simp_all
  then have "\<bar>x * of_int n\<bar> \<le> 2 ^ 106" by (simp add: abs_mult)
  then have "mk_float (x * of_int n) = Fin (fl (x * of_int n))" by (rule mk_float_Fin) simp
  then show ?thesis by (simp add: times_int_def float_of_int_small [OF assms(2)])
qed

text \<open>Scaling by a positive factor and rounding stays within the scaled bound.\<close>

lemma scaled_round_bound:
  assumes x: "\<bar>x\<bar> \<le> of_int m" and n: "0 < n" and mn: "m * n \<le> 2 ^ 53"
  shows "\<bar>rhe (fl (x * of_int n))\<bar> \<le> m * n"
proof -
  have ub: "rhe (fl (y * of_int n)) \<le> m * n" if y: "y \<le> of_int m" "(0 :: rat) \<le> of_int m" for y
  proof -
    have m0: "0 \<le> m" using y(2) by (simp only: of_int_0_le_iff)
    have "y * of_int n \<le> of_int (m * n)" using y n by (simp add: mult_right_mono)
    moreover have "\<bar>m * n\<bar> \<le> 2 ^ 53" using m0 n mn by (simp add: abs_mult)
    ultimately have "fl (y * of_int n) \<le> of_int (m * n)" by (rule fl_le_of_int)
    then have "rhe (fl (y * of_int n)) \<le> rhe (of_int (m * n))" by (rule rhe_mono)
    then show ?thesis by (simp only: rhe_of_int)
  qed
  have m: "(0 :: rat) \<le> of_int m" using x by linarith
  have "rhe (fl (x * of_int n)) \<le> m * n" using x m by (intro ub) linarith
  moreover have "rhe (fl (- x * of_int n)) \<le> m * n" using x m by (intro ub) linarith
  ultimately show ?thesis by (simp add: rhe_minus)
qed

lemma degrees_to_nano_latitude:
  assumes "is_valid_latitude lat"
  shows "\<exists>n. degrees_to_nano lat = Inr n \<and> \<bar>n\<bar> \<le> 90000000000"
proof -
  obtain x where x: "lat = Fin x" "\<bar>x\<bar> \<le> 90"
    using assms by (auto simp: is_valid_latitude_iff abs_le_iff)
  have "\<bar>rhe (fl (x * of_int 1000000000))\<bar> \<le> 90 * 1000000000"
    using x by (intro scaled_round_bound) simp_all
  moreover have "degrees_to_nano lat = Inr (rhe (fl (x * of_int 1000000000)))"
    using x times_int_small [of x 1000000000]
    by (simp add: degrees_to_nano_def NANODEGREES_PER_DEGREE_def)
  ultimately show ?thesis by simp
qed

lemma degrees_to_nano_longitude:
  assumes "is_valid_longitude lon"
  shows "\<exists>n. degrees_to_nano lon = Inr n \<and> \<bar>n\<bar> \<le> 180000000000"
proof -
  obtain x where x: "lon = Fin x" "\<bar>x\<bar> \<le> 180"
    using assms by (auto simp: is_valid_longitude_iff abs_le_iff)
  have "\<bar>rhe (fl (x * of_int 1000000000))\<bar> \<le> 180 * 1000000000"
    using x by (intro scaled_round_bound) simp_all
  moreover have "degrees_to_nano lon = Inr (rhe (fl (x * of_int 1000000000)))"
    using x times_int_small [of x 1000000000]
    by (simp add: degrees_to_nano_def NANODEGREES_PER_DEGREE_def)
  ultimately show ?thesis by simp
qed

text \<open>
  Dividing an integer by a factor and multiplying back loses less than half a unit:
  two roundings, each of relative error at most \<open>2 ^ -53\<close>.
\<close>

lemma scale_roundtrip_error:
  assumes f: "0 < f" "f \<le> 2 ^ 53" and n: "\<bar>n\<bar> \<le> 2 ^ 50"
  shows "\<bar>fl (fl (of_int n / of_int f) * of_int f) - of_int n\<bar> < 1 / 2"
proof (cases "n = 0")
  case True
  then show ?thesis by simp
next
  case False
  let ?n = "of_int n :: rat" and ?f = "of_int f :: rat"
  have tiny: "(2 :: rat) powi (- 1022) \<le> 1 / 2 ^ 54"
    by (simp add: power_int_minus divide_simps)
  have fpos: "0 < ?f" and f2: "?f \<le> 2 ^ 53"
    using f by (simp, metis of_int_le_iff of_int_numeral of_int_power)
  have n1: "1 \<le> \<bar>?n\<bar>" using False by (metis int_one_le_iff_zero_less of_int_1_le_iff of_int_abs zero_less_abs_iff)
  have n2: "\<bar>?n\<bar> \<le> 2 ^ 50" using n by (metis of_int_abs of_int_le_iff of_int_numeral of_int_power)
  have q: "1 / 2 ^ 53 \<le> \<bar>?n / ?f\<bar>"
  proof -
    have "1 / 2 ^ 53 \<le> \<bar>?n\<bar> / ?f" using n1 f2 fpos by (intro frac_le) simp_all
    then show ?thesis using fpos by (simp add: abs_divide)
  qed
  define d where "d = fl (?n / ?f)"
  have "\<bar>d - ?n / ?f\<bar> \<le> \<bar>?n / ?f\<bar> / 2 ^ 53"
    unfolding d_def by (rule fl_error, rule order_trans [OF tiny order_trans [OF _ q]]) simp
  then have "\<bar>d - ?n / ?f\<bar> * ?f \<le> \<bar>?n / ?f\<bar> / 2 ^ 53 * ?f"
    using fpos by (intro mult_right_mono) simp_all
  then have e1: "\<bar>d * ?f - ?n\<bar> \<le> \<bar>?n\<bar> / 2 ^ 53"
  proof -
    assume h: "\<bar>d - ?n / ?f\<bar> * ?f \<le> \<bar>?n / ?f\<bar> / 2 ^ 53 * ?f"
    have "\<bar>d - ?n / ?f\<bar> * ?f = \<bar>(d - ?n / ?f) * ?f\<bar>" using fpos by (simp add: abs_mult)
    also have "(d - ?n / ?f) * ?f = d * ?f - ?n" using fpos by (simp add: left_diff_distrib)
    finally show ?thesis using h fpos by (simp add: abs_divide)
  qed
  have dn: "\<bar>d * ?f\<bar> \<le> \<bar>?n\<bar> + \<bar>?n\<bar> / 2 ^ 53" "\<bar>?n\<bar> - \<bar>?n\<bar> / 2 ^ 53 \<le> \<bar>d * ?f\<bar>"
    using e1 by linarith+
  have "1 / 2 \<le> \<bar>d * ?f\<bar>" using dn(2) n1 by (simp add: field_simps)
  then have "2 powi (- 1022) \<le> \<bar>d * ?f\<bar>" using tiny by (simp add: field_simps)
  then have "\<bar>fl (d * ?f) - d * ?f\<bar> \<le> \<bar>d * ?f\<bar> / 2 ^ 53" by (rule fl_error)
  moreover have "\<bar>d * ?f\<bar> / 2 ^ 53 \<le> (2 ^ 50 + 1) / 2 ^ 53"
    using dn(1) n2 by (simp add: field_simps)
  moreover have "\<bar>?n\<bar> / 2 ^ 53 \<le> 2 ^ 50 / 2 ^ 53" using n2 by (simp add: field_simps)
  ultimately have "\<bar>fl (d * ?f) - ?n\<bar> \<le> (2 ^ 50 + 1) / 2 ^ 53 + 2 ^ 50 / 2 ^ 53"
    using e1 by linarith
  also have "\<dots> < (1 / 2 :: rat)" by simp
  finally show ?thesis by (simp add: d_def)
qed

lemma int_truediv_small:
  assumes "0 < f" and "\<bar>n\<bar> \<le> 2 ^ 50"
  shows "int_truediv n f = Inr (Fin (fl (of_int n / of_int f)))"
    and "\<bar>fl (of_int n / of_int f)\<bar> \<le> (2 ^ 50 :: rat)"
proof -
  have "\<bar>of_int n :: rat\<bar> \<le> 2 ^ 50"
    using assms(2) by (metis of_int_abs of_int_le_iff of_int_numeral of_int_power)
  moreover have "(1 :: rat) \<le> of_int f" using assms(1) by simp
  ultimately have "\<bar>of_int n :: rat\<bar> / of_int f \<le> 2 ^ 50 / 1"
    by (intro frac_le) simp_all
  then have b: "\<bar>of_int n / of_int f :: rat\<bar> \<le> 2 ^ 50"
    using assms(1) by (simp add: abs_divide)
  then have "mk_float (of_int n / of_int f) = Fin (fl (of_int n / of_int f))"
    by (rule mk_float_Fin) simp
  with assms(1) show "int_truediv n f = Inr (Fin (fl (of_int n / of_int f)))"
    by (simp add: int_truediv_def)
  from b show "\<bar>fl (of_int n / of_int f)\<bar> \<le> (2 ^ 50 :: rat)" by (rule fl_abs_le_pow2)
qed

lemma scale_roundtrip:
  assumes f: "0 < f" "f \<le> 2 ^ 53" and n: "\<bar>n\<bar> \<le> 2 ^ 50"
  shows "bindE (int_truediv n f) (\<lambda>x. bindE (times_int x f) py_round) = Inr n"
proof -
  have "\<bar>fl (of_int n / of_int f)\<bar> \<le> (2 ^ 53 :: rat)"
    using int_truediv_small(2) [OF f(1) n] by simp
  then have "times_int (Fin (fl (of_int n / of_int f))) f
      = Inr (Fin (fl (fl (of_int n / of_int f) * of_int f)))"
    using f by (intro times_int_small) simp_all
  moreover have "rhe (fl (fl (of_int n / of_int f) * of_int f)) = n"
    using scale_roundtrip_error [OF f n] by (intro rhe_unique) linarith
  ultimately show ?thesis by (simp add: int_truediv_small(1) [OF f(1) n])
qed

subsection \<open>Builders\<close>

definition create_geo_event ::
    "int \<Rightarrow> pyfloat \<Rightarrow> pyfloat \<Rightarrow> int \<Rightarrow> int \<Rightarrow> int \<Rightarrow> pyfloat \<Rightarrow> pyfloat \<Rightarrow> int \<Rightarrow>
     pyfloat \<Rightarrow> pyfloat \<Rightarrow> int \<Rightarrow> (py_exn, geo_event) result" where
  "create_geo_event entity latitude longitude correlation udata gid altitude_m velocity_mps
       ttl accuracy_m heading flags =
     (if \<not> is_valid_latitude latitude then Inl ValueError
      else if \<not> is_valid_longitude longitude then Inl ValueError
      else
        bindE (degrees_to_nano latitude) (\<lambda>lat.
        bindE (degrees_to_nano longitude) (\<lambda>lon.
        bindE (meters_to_mm altitude_m) (\<lambda>alt.
        bindE (meters_to_mm velocity_mps) (\<lambda>vel.
        bindE (meters_to_mm accuracy_m) (\<lambda>acc.
        bindE (heading_to_centidegrees heading) (\<lambda>hdg.
        Inr \<lparr>event_id = 0, entity_id = entity, correlation_id = correlation,
             user_data = udata, lat_nano = lat, lon_nano = lon, group_id = gid,
             timestamp = 0, altitude_mm = alt, velocity_mms = vel, ttl_seconds = ttl,
             accuracy_mm = acc, heading_cdeg = hdg, event_flags = flags\<rparr>)))))))"

definition create_radius_query ::
    "pyfloat \<Rightarrow> pyfloat \<Rightarrow> pyfloat \<Rightarrow> int \<Rightarrow> int \<Rightarrow> int \<Rightarrow> int \<Rightarrow>
     (py_exn, query_radius_filter) result" where
  "create_radius_query latitude longitude radius_m limit tmin tmax gid =
     (if \<not> is_valid_latitude latitude then Inl ValueError
      else if \<not> is_valid_longitude longitude then Inl ValueError
      else if f_le radius_m (Fin 0) then Inl ValueError
      else
        bindE (degrees_to_nano latitude) (\<lambda>lat.
        bindE (degrees_to_nano longitude) (\<lambda>lon.
        bindE (meters_to_mm radius_m) (\<lambda>r.
        Inr \<lparr>center_lat_nano = lat, center_lon_nano = lon, radius_mm = r, rf_limit = limit,
             rf_timestamp_min = tmin, rf_timestamp_max = tmax, rf_group_id = gid\<rparr>))))"

text \<open>The loop body that the code writes for the outer ring and again for each hole.\<close>

definition check_vertex :: "pyfloat \<times> pyfloat \<Rightarrow> (py_exn, polygon_vertex) result" where
  "check_vertex p =
     (if \<not> is_valid_latitude (fst p) then Inl ValueError
      else if \<not> is_valid_longitude (snd p) then Inl ValueError
      else
        bindE (degrees_to_nano (fst p)) (\<lambda>lat.
        bindE (degrees_to_nano (snd p)) (\<lambda>lon.
        Inr \<lparr>v_lat_nano = lat, v_lon_nano = lon\<rparr>)))"

definition check_hole :: "(pyfloat \<times> pyfloat) list \<Rightarrow> (py_exn, polygon_vertex list) result" where
  "check_hole hole_vertices =
     (if length hole_vertices < POLYGON_HOLE_VERTICES_MIN then Inl ValueError
      else mapE check_vertex hole_vertices)"

definition check_holes ::
    "(pyfloat \<times> pyfloat) list list option \<Rightarrow> (py_exn, polygon_vertex list list) result" where
  "check_holes holes =
     (case holes of
        None \<Rightarrow> Inr []
      | Some hs \<Rightarrow>
          (if hs = [] then Inr []
           else if POLYGON_HOLES_MAX < length hs then Inl ValueError
           else mapE check_hole hs))"

definition create_polygon_query ::
    "(pyfloat \<times> pyfloat) list \<Rightarrow> (pyfloat \<times> pyfloat) list list option \<Rightarrow> int \<Rightarrow> int \<Rightarrow> int \<Rightarrow>
     int \<Rightarrow> (py_exn, query_polygon_filter) result" where
  "create_polygon_query vertices holes limit tmin tmax gid =
     (if length vertices < 3 then Inl ValueError
      else if POLYGON_VERTICES_MAX < length vertices then Inl ValueError
      else
        bindE (mapE check_vertex vertices) (\<lambda>polygon_vertices.
        bindE (check_holes holes) (\<lambda>polygon_holes.
        Inr \<lparr>pf_vertices = polygon_vertices, pf_holes = polygon_holes, pf_limit = limit,
             pf_timestamp_min = tmin, pf_timestamp_max = tmax, pf_group_id = gid\<rparr>)))"

definition vertex_in_range :: "polygon_vertex \<Rightarrow> bool" where
  "vertex_in_range v \<longleftrightarrow> \<bar>v_lat_nano v\<bar> \<le> 90000000000 \<and> \<bar>v_lon_nano v\<bar> \<le> 180000000000"

lemma check_vertex_Inr:
  assumes "check_vertex p = Inr v"
  shows "is_valid_latitude (fst p) \<and> is_valid_longitude (snd p) \<and> vertex_in_range v"
proof -
  from assms have ok: "is_valid_latitude (fst p)" "is_valid_longitude (snd p)"
    by (auto simp: check_vertex_def split: if_splits)
  obtain a b where "degrees_to_nano (fst p) = Inr a" "\<bar>a\<bar> \<le> 90000000000"
    and "degrees_to_nano (snd p) = Inr b" "\<bar>b\<bar> \<le> 180000000000"
    using degrees_to_nano_latitude [OF ok(1)] degrees_to_nano_longitude [OF ok(2)] by blast
  with assms ok show ?thesis by (auto simp: check_vertex_def vertex_in_range_def)
qed

lemma check_vertex_total:
  "(\<exists>v. check_vertex p = Inr v) \<longleftrightarrow> is_valid_latitude (fst p) \<and> is_valid_longitude (snd p)"
  using degrees_to_nano_latitude [of "fst p"] degrees_to_nano_longitude [of "snd p"]
  by (auto simp: check_vertex_def split: if_splits)

lemma check_vertex_Inl: "check_vertex p = Inl e \<Longrightarrow> e = ValueError"
  using degrees_to_nano_latitude [of "fst p"] degrees_to_nano_longitude [of "snd p"]
  by (auto simp: check_vertex_def split: if_splits)

lemma mapE_check_vertex:
  assumes "mapE check_vertex ps = Inr vs"
  shows "length vs = length ps" and "\<forall>v\<in>set vs. vertex_in_range v"
proof -
  from assms have "list_all2 (\<lambda>p v. check_vertex p = Inr v) ps vs" by (simp add: mapE_Inr_iff)
  then show "length vs = length ps" and "\<forall>v\<in>set vs. vertex_in_range v"
    by (induction rule: list_all2_induct) (auto dest: check_vertex_Inr)
qed

text \<open>The filter a caller gets is well formed: this is what the wire encoder relies on.\<close>

definition polygon_filter_ok :: "query_polygon_filter \<Rightarrow> bool" where
  "polygon_filter_ok f \<longleftrightarrow>
     3 \<le> length (pf_vertices f) \<and> length (pf_vertices f) \<le> POLYGON_VERTICES_MAX \<and>
     (\<forall>v\<in>set (pf_vertices f). vertex_in_range v) \<and>
     length (pf_holes f) \<le> POLYGON_HOLES_MAX \<and>
     (\<forall>h\<in>set (pf_holes f). POLYGON_HOLE_VERTICES_MIN \<le> length h \<and> (\<forall>v\<in>set h. vertex_in_range v))"

lemma mapE_check_hole:
  assumes "mapE check_hole hs = Inr gs"
  shows "length gs = length hs"
    and "\<forall>h\<in>set gs. POLYGON_HOLE_VERTICES_MIN \<le> length h \<and> (\<forall>v\<in>set h. vertex_in_range v)"
proof -
  from assms have "list_all2 (\<lambda>h g. check_hole h = Inr g) hs gs" by (simp add: mapE_Inr_iff)
  then show "length gs = length hs"
    and "\<forall>h\<in>set gs. POLYGON_HOLE_VERTICES_MIN \<le> length h \<and> (\<forall>v\<in>set h. vertex_in_range v)"
    by (induction rule: list_all2_induct)
       (auto simp: check_hole_def mapE_check_vertex split: if_splits)
qed

lemma check_holes_Inr:
  assumes "check_holes hs = Inr gs"
  shows "length gs = (case hs of None \<Rightarrow> 0 | Some h \<Rightarrow> length h)"
    and "length gs \<le> POLYGON_HOLES_MAX"
    and "\<forall>h\<in>set gs. POLYGON_HOLE_VERTICES_MIN \<le> length h \<and> (\<forall>v\<in>set h. vertex_in_range v)"
proof -
  consider "hs = None \<or> hs = Some []" "gs = []"
    | h where "hs = Some h" "length h \<le> POLYGON_HOLES_MAX" "mapE check_hole h = Inr gs"
    using assms by (auto simp: check_holes_def split: option.splits if_splits)
  note cases = this
  show "length gs = (case hs of None \<Rightarrow> 0 | Some h \<Rightarrow> length h)"
    by (rule cases) (auto simp: mapE_length)
  show "length gs \<le> POLYGON_HOLES_MAX"
    by (rule cases) (auto simp: mapE_length)
  show "\<forall>h\<in>set gs. POLYGON_HOLE_VERTICES_MIN \<le> length h \<and> (\<forall>v\<in>set h. vertex_in_range v)"
    by (rule cases) (simp, rule mapE_check_hole(2))
qed

lemma create_polygon_query_ok:
  assumes "create_polygon_query vs hs limit tmin tmax gid = Inr f"
  shows "polygon_filter_ok f \<and> length (pf_vertices f) = length vs \<and> pf_limit f = limit
    \<and> length (pf_holes f) = (case hs of None \<Rightarrow> 0 | Some h \<Rightarrow> length h)"
proof -
  from assms obtain ws gs where "mapE check_vertex vs = Inr ws" "check_holes hs = Inr gs"
    and n: "3 \<le> length vs" "length vs \<le> POLYGON_VERTICES_MAX"
    and f: "f = \<lparr>pf_vertices = ws, pf_holes = gs, pf_limit = limit,
             pf_timestamp_min = tmin, pf_timestamp_max = tmax, pf_group_id = gid\<rparr>"
    by (auto simp: create_polygon_query_def bindE_split_Inr split: if_splits)
  with mapE_check_vertex [of vs ws] check_holes_Inr [of hs gs] show ?thesis
    by (simp add: polygon_filter_ok_def)
qed

lemma create_polygon_query_reject:
  assumes "create_polygon_query vs hs limit tmin tmax gid = Inl e"
  shows "e = ValueError"
proof -
  have vertices: "e' = ValueError" if "mapE check_vertex ps = Inl e'" for ps e'
    using that by (induction ps) (auto simp: bindE_split_Inl dest: check_vertex_Inl)
  have hole: "e' = ValueError" if "check_hole h = Inl e'" for h e'
    using that vertices [of h e'] by (auto simp: check_hole_def split: if_splits)
  have many: "e' = ValueError" if "mapE check_hole h = Inl e'" for h e'
    using that by (induction h) (auto simp: bindE_split_Inl dest: hole)
  have "e' = ValueError" if "check_holes hs = Inl e'" for e'
    using that many by (auto simp: check_holes_def split: option.splits if_splits)
  with assms vertices show ?thesis
    by (auto simp: create_polygon_query_def bindE_split_Inl split: if_splits)
qed

text \<open>The rings a caller may pass.\<close>

definition ring_ok :: "(pyfloat \<times> pyfloat) list \<Rightarrow> bool" where
  "ring_ok ps \<longleftrightarrow> (\<forall>p\<in>set ps. is_valid_latitude (fst p) \<and> is_valid_longitude (snd p))"

definition polygon_input_ok ::
    "(pyfloat \<times> pyfloat) list \<Rightarrow> (pyfloat \<times> pyfloat) list list option \<Rightarrow> bool" where
  "polygon_input_ok vs hs \<longleftrightarrow>
     3 \<le> length vs \<and> length vs \<le> POLYGON_VERTICES_MAX \<and> ring_ok vs \<and>
     (case hs of None \<Rightarrow> True
      | Some h \<Rightarrow> length h \<le> POLYGON_HOLES_MAX \<and>
                  (\<forall>r\<in>set h. POLYGON_HOLE_VERTICES_MIN \<le> length r \<and> ring_ok r))"

lemma mapE_ok_iff: "(\<exists>ys. mapE f xs = Inr ys) \<longleftrightarrow> (\<forall>x\<in>set xs. \<exists>y. f x = Inr y)"
  by (induction xs) (auto simp: bindE_split_Inr)

lemma mapE_check_vertex_ok_iff: "(\<exists>ws. mapE check_vertex vs = Inr ws) \<longleftrightarrow> ring_ok vs"
  by (simp add: mapE_ok_iff ring_ok_def check_vertex_total)

lemma check_hole_ok_iff:
  "(\<exists>g. check_hole h = Inr g) \<longleftrightarrow> POLYGON_HOLE_VERTICES_MIN \<le> length h \<and> ring_ok h"
  by (simp add: check_hole_def mapE_check_vertex_ok_iff [symmetric] not_less)

lemma check_holes_ok_iff:
  "(\<exists>gs. check_holes hs = Inr gs) \<longleftrightarrow>
     (case hs of None \<Rightarrow> True
      | Some h \<Rightarrow> length h \<le> POLYGON_HOLES_MAX \<and>
                  (\<forall>r\<in>set h. POLYGON_HOLE_VERTICES_MIN \<le> length r \<and> ring_ok r))"
  by (cases hs) (auto simp: check_holes_def mapE_ok_iff check_hole_ok_iff)

lemma create_polygon_query_accepts:
  "(\<exists>f. create_polygon_query vs hs limit tmin tmax gid = Inr f) \<longleftrightarrow> polygon_input_ok vs hs"
proof -
  have "(\<exists>f. create_polygon_query vs hs limit tmin tmax gid = Inr f) \<longleftrightarrow>
      3 \<le> length vs \<and> length vs \<le> POLYGON_VERTICES_MAX \<and>
      (\<exists>ws. mapE check_vertex vs = Inr ws) \<and> (\<exists>gs. check_holes hs = Inr gs)"
    by (auto simp: create_polygon_query_def bindE_split_Inr)
  then show ?thesis by (simp only: mapE_check_vertex_ok_iff check_holes_ok_iff polygon_input_ok_def)
qed

subsection \<open>Properties\<close>

text \<open>C24: \<open>create_polygon_query\<close> accepts exactly the polygons with 3 to
  \<open>POLYGON_VERTICES_MAX\<close> vertices, at most \<open>POLYGON_HOLES_MAX\<close> holes of at least three
  vertices each and only valid coordinates; it rejects every other one with
  \<open>ValueError\<close> (never another exception, for NaN and infinities too), and the filter
  it builds has the caller's ring sizes and only in-range nanodegrees.\<close>

theorem create_polygon_query_validates:
  "case create_polygon_query vs hs limit tmin tmax gid of
     Inr f \<Rightarrow> polygon_input_ok vs hs \<and> polygon_filter_ok f \<and> length (pf_vertices f) = length vs \<and>
       length (pf_holes f) = (case hs of None \<Rightarrow> 0 | Some h \<Rightarrow> length h)
   | Inl e \<Rightarrow> \<not> polygon_input_ok vs hs \<and> e = ValueError"
  using create_polygon_query_accepts [of vs hs limit tmin tmax gid]
    create_polygon_query_ok [of vs hs limit tmin tmax gid]
    create_polygon_query_reject [of vs hs limit tmin tmax gid]
  by (cases "create_polygon_query vs hs limit tmin tmax gid") auto

text \<open>Reading a stored coordinate, altitude or heading back as a float and storing it
  again gives the same integer: the two float roundings of the division and the
  multiplication never reach half a unit, for every value of magnitude up to
  \<open>2 ^ 50\<close> (far beyond the coordinate range of 180 billion nanodegrees).\<close>

theorem unit_conversions_roundtrip:
  assumes "\<bar>n\<bar> \<le> 2 ^ 50"
  shows "bindE (nano_to_degrees n) degrees_to_nano = Inr n \<and>
    bindE (mm_to_meters n) meters_to_mm = Inr n \<and>
    bindE (centidegrees_to_heading n) heading_to_centidegrees = Inr n"
proof -
  have "bindE (int_truediv n f) (\<lambda>x. bindE (times_int x f) py_round) = Inr n"
    if "f \<in> {1000000000, 1000, 100}" for f
    using that assms by (intro scale_roundtrip) auto
  then show ?thesis
    by (simp add: nano_to_degrees_def degrees_to_nano_def [abs_def] mm_to_meters_def
        meters_to_mm_def [abs_def] centidegrees_to_heading_def heading_to_centidegrees_def [abs_def]
        NANODEGREES_PER_DEGREE_def MM_PER_METER_def CENTIDEGREES_PER_DEGREE_def)
qed

theorem unit_conversions_roundtrip_witness:
  "bindE (nano_to_degrees 37774900001) degrees_to_nano = Inr 37774900001"
  using unit_conversions_roundtrip [of 37774900001] by simp

text \<open>\<open>create_geo_event\<close> raises \<open>ValueError\<close> for every latitude or longitude out of
  range (NaN and infinities included), and whatever it returns has in-range
  nanodegree coordinates, the caller's ids, and the zero \<open>id\<close> and \<open>timestamp\<close> that the
  server requires.\<close>

theorem create_geo_event_validates:
  "case create_geo_event e lat lon corr ud gid alt vel ttl acc hdg flags of
     Inr ev \<Rightarrow> is_valid_latitude lat \<and> is_valid_longitude lon \<and>
       \<bar>lat_nano ev\<bar> \<le> 90 * NANODEGREES_PER_DEGREE \<and> \<bar>lon_nano ev\<bar> \<le> 180 * NANODEGREES_PER_DEGREE \<and>
       entity_id ev = e \<and> correlation_id ev = corr \<and> user_data ev = ud \<and> group_id ev = gid \<and>
       ttl_seconds ev = ttl \<and> event_flags ev = flags \<and> event_id ev = 0 \<and> timestamp ev = 0
   | Inl x \<Rightarrow> is_valid_latitude lat \<and> is_valid_longitude lon \<or> x = ValueError"
proof (cases "is_valid_latitude lat \<and> is_valid_longitude lon")
  case True
  then obtain a b where "degrees_to_nano lat = Inr a" "\<bar>a\<bar> \<le> 90000000000"
      "degrees_to_nano lon = Inr b" "\<bar>b\<bar> \<le> 180000000000"
    using degrees_to_nano_latitude degrees_to_nano_longitude by blast
  with True show ?thesis
    by (auto simp: create_geo_event_def bindE_split_Inr NANODEGREES_PER_DEGREE_def split: sum.splits)
next
  case False
  then show ?thesis by (auto simp: create_geo_event_def)
qed

end
