(* ===== verification/Wire_Format.thy ===== *)
theory Wire_Format
  imports Sharding Geo_Types
begin

section \<open>The wire format: ctypes records, filters, TTL and topology messages\<close>

text \<open>
  The serialization of \<open>archerdb/_native.py\<close> (with the ctypes layouts of
  \<open>bindings.py\<close> and \<open>lib.py\<close>) and the \<open>to_bytes\<close> and \<open>from_bytes\<close> methods of
  \<open>archerdb/types.py\<close>.  Storing an int in a ctypes field keeps its low bytes
  (\<open>le_bytes\<close> does the same); \<open>int.to_bytes\<close> and \<open>struct.pack\<close> raise instead.  A
  Python string that was decoded from the wire is represented by its UTF-8
  encoding, so decoding is a check.
\<close>

subsection \<open>128-bit integers\<close>

definition validate_uint :: "nat \<Rightarrow> int \<Rightarrow> (py_exn, unit) result" where
  "validate_uint bits number =
     (if 2 ^ bits - 1 < number then Inl OverflowError
      else if number < 0 then Inl OverflowError else Inr ())"

definition validate_int :: "nat \<Rightarrow> int \<Rightarrow> (py_exn, unit) result" where
  "validate_int bits number =
     (let min_val = - (2 ^ (bits - 1)); max_val = 2 ^ (bits - 1) - 1 in
      if number < min_val \<or> max_val < number then Inl OverflowError else Inr ())"

definition c_uint128 :: "int \<Rightarrow> bytes" where
  "c_uint128 obj = le_bytes 8 (obj AND MASK64) @ le_bytes 8 (drop_bit 64 obj)"

definition c_uint128_to_python :: "bytes \<Rightarrow> int" where
  "c_uint128_to_python bs = push_bit 64 (le_int (slice 8 16 bs)) OR le_int (slice 0 8 bs)"

definition c_int128 :: "int \<Rightarrow> bytes" where
  "c_int128 obj = (let u = (if obj < 0 then push_bit 128 1 + obj else obj) in
     le_bytes 8 (u AND MASK64) @ le_bytes 8 (drop_bit 64 u))"

definition c_int128_to_python :: "bytes \<Rightarrow> int" where
  "c_int128_to_python bs =
     (let value = push_bit 64 (le_int (slice 8 16 bs)) OR le_int (slice 0 8 bs) in
      if push_bit 127 1 \<le> value then value - push_bit 128 1 else value)"

lemma le_bytes_append: "le_bytes (m + n) k = le_bytes m k @ le_bytes n (k div 256 ^ m)"
proof (induction m arbitrary: k)
  case 0
  then show ?case by simp
next
  case (Suc m)
  have "k div 256 div 256 ^ m = k div (256 * 256 ^ m)" by (simp add: zdiv_zmult2_eq)
  with Suc [of "k div 256"] show ?case by simp
qed

lemma le_bytes_mod: "le_bytes n (k mod 256 ^ n) = le_bytes n k"
  by (metis le_int_le_bytes le_bytes_le_int length_le_bytes)

lemma c_uint128_eq: "c_uint128 k = le_bytes 16 k"
proof -
  have "le_bytes 8 (k AND MASK64) = le_bytes 8 k"
    using le_bytes_mod [of 8 k] by (simp add: and_MASK64)
  then show ?thesis
    using le_bytes_append [of 8 8 k] by (simp add: c_uint128_def drop_bit_eq_div)
qed

lemma length_c_uint128 [simp]: "length (c_uint128 k) = 16"
  by (simp add: c_uint128_def)

lemma le_int_append: "le_int (xs @ ys) = le_int xs + 256 ^ length xs * le_int ys"
  by (induction xs) (simp_all add: algebra_simps)

lemma push_or_add:
  assumes "0 \<le> (lo :: int)" and "lo < 2 ^ n"
  shows "push_bit n hi OR lo = 2 ^ n * hi + lo"
proof -
  have "lo = take_bit n lo" using assms by (simp add: take_bit_int_eq_self)
  then have low: "bit lo i \<Longrightarrow> i < n" for i by (metis bit_take_bit_iff)
  have "push_bit n hi AND lo = 0" by (intro bit_eqI) (auto simp: bit_simps dest: low)
  then have "push_bit n hi OR lo = push_bit n hi + lo" by (simp add: disjunctive_add_eq_or)
  then show ?thesis by (simp add: push_bit_eq_mult mult.commute)
qed

lemma c_uint128_to_python_eq: "length bs = 16 \<Longrightarrow> c_uint128_to_python bs = le_int bs"
proof -
  assume len: "length bs = 16"
  have "le_int bs = le_int (slice 0 8 bs @ slice 8 16 bs)"
    by (simp add: slice_def len)
  also have "\<dots> = le_int (slice 0 8 bs) + 2 ^ 64 * le_int (slice 8 16 bs)"
    using len by (simp add: le_int_append)
  finally show ?thesis
    using le_int_bounds [of "slice 0 8 bs"] len
    by (simp add: c_uint128_to_python_def push_or_add)
qed

lemma c_uint128_roundtrip: "0 \<le> k \<Longrightarrow> k < 2 ^ 128 \<Longrightarrow> c_uint128_to_python (c_uint128 k) = k"
  by (simp add: c_uint128_to_python_eq c_uint128_eq le_int_le_bytes_id)

interpretation c_uint128_codec:
  fixed_codec c_uint128 c_uint128_to_python "\<lambda>k. 0 \<le> k \<and> k < 2 ^ 128" 16
  by unfold_locales (auto intro: c_uint128_roundtrip)

lemma c_int128_roundtrip:
  assumes "- (2 ^ 127) \<le> k" and "k < 2 ^ 127"
  shows "c_int128_to_python (c_int128 k) = k"
proof -
  define u where "u = (if k < 0 then 2 ^ 128 + k else k)"
  have u: "0 \<le> u" "u < 2 ^ 128" using assms by (auto simp: u_def)
  have "c_int128 k = c_uint128 u" by (simp add: c_int128_def c_uint128_def u_def push_bit_eq_mult Let_def)
  then have "c_int128_to_python (c_int128 k) = (if 2 ^ 127 \<le> u then u - 2 ^ 128 else u)"
    using c_uint128_roundtrip [OF u]
    by (simp add: c_int128_to_python_def c_uint128_to_python_def push_bit_eq_mult)
  with assms show ?thesis by (auto simp: u_def)
qed

subsection \<open>Geo events\<close>

definition compute_pseudo_s2_cell :: "int \<Rightarrow> int \<Rightarrow> int" where
  "compute_pseudo_s2_cell lat lon = (let product = lat * lon in \<bar>product\<bar> AND MASK64)"

definition pack_composite_id :: "int \<Rightarrow> int \<Rightarrow> int" where
  "pack_composite_id s2_cell_id timestamp_ns = push_bit 64 s2_cell_id OR (timestamp_ns AND MASK64)"

text \<open>The fields of \<open>CGeoEvent\<close> in order: 128 bytes without padding.\<close>

definition geo_event_layout :: "geo_event \<Rightarrow> bytes" where
  "geo_event_layout e =
     c_uint128 (event_id e) @ c_uint128 (entity_id e) @ c_uint128 (correlation_id e) @
     c_uint128 (user_data e) @ le_bytes 8 (lat_nano e) @ le_bytes 8 (lon_nano e) @
     le_bytes 8 (group_id e) @ le_bytes 8 (timestamp e) @ le_bytes 4 (altitude_mm e) @
     le_bytes 4 (velocity_mms e) @ le_bytes 4 (ttl_seconds e) @ le_bytes 4 (accuracy_mm e) @
     le_bytes 2 (heading_cdeg e) @ le_bytes 2 (event_flags e) @ replicate 12 0"

text \<open>
  \<open>geo_event_to_wire\<close> reads the clock only for an event without an id: \<open>now t\<close> is
  the reading, and the index of the next one is returned.
\<close>

definition geo_event_to_wire :: "(nat \<Rightarrow> int) \<Rightarrow> nat \<Rightarrow> geo_event \<Rightarrow> bytes \<times> nat" where
  "geo_event_to_wire now t event =
     (if event_id event = 0
      then (let s2_cell = compute_pseudo_s2_cell (lat_nano event) (lon_nano event);
                composite_id = pack_composite_id s2_cell (now t)
            in (geo_event_layout (event\<lparr>event_id := composite_id\<rparr>), Suc t))
      else (geo_event_layout event, t))"

definition wire_to_geo_event :: "bytes \<Rightarrow> geo_event" where
  "wire_to_geo_event b =
     \<lparr>event_id = c_uint128_to_python (slice 0 16 b),
      entity_id = c_uint128_to_python (slice 16 32 b),
      correlation_id = c_uint128_to_python (slice 32 48 b),
      user_data = c_uint128_to_python (slice 48 64 b),
      lat_nano = le_sint (slice 64 72 b), lon_nano = le_sint (slice 72 80 b),
      group_id = le_int (slice 80 88 b), timestamp = le_int (slice 88 96 b),
      altitude_mm = le_sint (slice 96 100 b), velocity_mms = le_int (slice 100 104 b),
      ttl_seconds = le_int (slice 104 108 b), accuracy_mm = le_int (slice 108 112 b),
      heading_cdeg = le_int (slice 112 114 b), event_flags = le_int (slice 114 116 b)\<rparr>"

text \<open>The values that the fields hold without wrapping.\<close>

definition event_fits :: "geo_event \<Rightarrow> bool" where
  "event_fits e \<longleftrightarrow>
     0 \<le> event_id e \<and> event_id e < 2 ^ 128 \<and> 0 \<le> entity_id e \<and> entity_id e < 2 ^ 128 \<and>
     0 \<le> correlation_id e \<and> correlation_id e < 2 ^ 128 \<and> 0 \<le> user_data e \<and> user_data e < 2 ^ 128 \<and>
     - (2 ^ 63) \<le> lat_nano e \<and> lat_nano e < 2 ^ 63 \<and> - (2 ^ 63) \<le> lon_nano e \<and> lon_nano e < 2 ^ 63 \<and>
     0 \<le> group_id e \<and> group_id e < 2 ^ 64 \<and> 0 \<le> timestamp e \<and> timestamp e < 2 ^ 64 \<and>
     - (2 ^ 31) \<le> altitude_mm e \<and> altitude_mm e < 2 ^ 31 \<and>
     0 \<le> velocity_mms e \<and> velocity_mms e < 2 ^ 32 \<and> 0 \<le> ttl_seconds e \<and> ttl_seconds e < 2 ^ 32 \<and>
     0 \<le> accuracy_mm e \<and> accuracy_mm e < 2 ^ 32 \<and> 0 \<le> heading_cdeg e \<and> heading_cdeg e < 2 ^ 16 \<and>
     0 \<le> event_flags e \<and> event_flags e < 2 ^ 16"

lemma length_geo_event_layout [simp]: "length (geo_event_layout e) = 128"
  by (simp add: geo_event_layout_def)

lemma slice_whole: "length xs = j \<Longrightarrow> slice 0 j xs = xs"
  by (simp add: slice_def)

lemma slice_prefix: "length xs = j \<Longrightarrow> slice 0 j (xs @ ys) = xs"
  by (simp add: slice_def)

lemmas slice_fields = slice_append_right slice_append_left slice_prefix slice_whole

lemma event_roundtrip:
  assumes "event_fits e"
  shows "wire_to_geo_event (geo_event_layout e) = e"
proof -
  have u: "c_uint128_to_python (slice i (i + 16) b) = k"
    if "slice i (i + 16) b = c_uint128 k" "0 \<le> k" "k < 2 ^ 128" for i b k
    using that c_uint128_roundtrip by simp
  have f: "0 \<le> event_id e" "event_id e < 2 ^ 128" "0 \<le> entity_id e" "entity_id e < 2 ^ 128"
      "0 \<le> correlation_id e" "correlation_id e < 2 ^ 128" "0 \<le> user_data e" "user_data e < 2 ^ 128"
    using assms by (simp_all add: event_fits_def)
  show ?thesis
    using assms f
    by (simp add: geo_event_layout_def wire_to_geo_event_def slice_fields event_fits_def
        c_uint128_roundtrip le_int_le_bytes_id le_sint_le_bytes)
qed

interpretation geo_event_codec: fixed_codec geo_event_layout wire_to_geo_event event_fits 128
  by unfold_locales (auto intro: event_roundtrip)

text \<open>The loop that reads the events that follow a response header.\<close>

definition parse_events :: "bytes \<Rightarrow> geo_event list" where
  "parse_events event_data =
     map (\<lambda>i. wire_to_geo_event (slice (i * 128) ((i + 1) * 128) event_data))
       [0..<length event_data div 128]"

lemma length_parse_events [simp]: "length (parse_events d) = length d div 128"
  by (simp add: parse_events_def)

lemma parse_events_layout:
  assumes "\<forall>e\<in>set es. event_fits e" and "length rest < 128"
  shows "parse_events (concat (map geo_event_layout es) @ rest) = es"
proof -
  let ?d = "concat (map geo_event_layout es) @ rest"
  have n: "length ?d div 128 = length es"
    using assms(2) by (simp add: geo_event_codec.length_array)
  have "wire_to_geo_event (slice (i * 128) ((i + 1) * 128) ?d) = es ! i" if "i < length es" for i
    using geo_event_codec.array_element [of i es rest] assms(1) that
    by (simp add: mult.commute [of i] add.commute)
  then show ?thesis
    unfolding parse_events_def n by (intro nth_equalityI) simp_all
qed

subsection \<open>Query filters\<close>

definition query_uuid_filter_to_wire :: "int \<Rightarrow> bytes" where
  "query_uuid_filter_to_wire entity = c_uint128 entity @ replicate 16 0"

definition query_radius_filter_to_wire :: "query_radius_filter \<Rightarrow> bytes" where
  "query_radius_filter_to_wire f =
     le_bytes 8 (center_lat_nano f) @ le_bytes 8 (center_lon_nano f) @
     le_bytes 4 (min (radius_mm f) 0xFFFFFFFF) @ le_bytes 4 (rf_limit f) @
     le_bytes 8 (rf_timestamp_min f) @ le_bytes 8 (rf_timestamp_max f) @
     le_bytes 8 (rf_group_id f) @ replicate 80 0"

definition radius_filter_of_wire :: "bytes \<Rightarrow> query_radius_filter" where
  "radius_filter_of_wire b =
     \<lparr>center_lat_nano = le_sint (slice 0 8 b), center_lon_nano = le_sint (slice 8 16 b),
      radius_mm = le_int (slice 16 20 b), rf_limit = le_int (slice 20 24 b),
      rf_timestamp_min = le_int (slice 24 32 b), rf_timestamp_max = le_int (slice 32 40 b),
      rf_group_id = le_int (slice 40 48 b)\<rparr>"

definition query_latest_filter_to_wire :: "query_latest_filter \<Rightarrow> bytes" where
  "query_latest_filter_to_wire f =
     le_bytes 4 (lf_limit f) @ le_bytes 4 0 @ le_bytes 8 (lf_group_id f) @
     le_bytes 8 (cursor_timestamp f) @ replicate 104 0"

definition latest_filter_of_wire :: "bytes \<Rightarrow> query_latest_filter" where
  "latest_filter_of_wire b =
     \<lparr>lf_limit = le_int (slice 0 4 b), lf_group_id = le_int (slice 8 16 b),
      cursor_timestamp = le_int (slice 16 24 b)\<rparr>"

definition u32 :: "int \<Rightarrow> bool" where "u32 k \<longleftrightarrow> 0 \<le> k \<and> k < 2 ^ 32"
definition u64 :: "int \<Rightarrow> bool" where "u64 k \<longleftrightarrow> 0 \<le> k \<and> k < 2 ^ 64"
definition i64 :: "int \<Rightarrow> bool" where "i64 k \<longleftrightarrow> - (2 ^ 63) \<le> k \<and> k < 2 ^ 63"

lemmas width_defs = u32_def u64_def i64_def

lemma radius_filter_roundtrip:
  assumes "i64 (center_lat_nano f)" "i64 (center_lon_nano f)" "0 \<le> radius_mm f" "u32 (rf_limit f)"
    "u64 (rf_timestamp_min f)" "u64 (rf_timestamp_max f)" "u64 (rf_group_id f)"
  shows "radius_filter_of_wire (query_radius_filter_to_wire f) =
    f\<lparr>radius_mm := min (radius_mm f) (2 ^ 32 - 1)\<rparr>"
  using assms
  by (simp add: query_radius_filter_to_wire_def radius_filter_of_wire_def slice_fields width_defs
      le_int_le_bytes_id le_sint_le_bytes)

lemma latest_filter_roundtrip:
  assumes "u32 (lf_limit f)" "u64 (lf_group_id f)" "u64 (cursor_timestamp f)"
  shows "latest_filter_of_wire (query_latest_filter_to_wire f) = f"
  using assms
  by (simp add: query_latest_filter_to_wire_def latest_filter_of_wire_def slice_fields width_defs
      le_int_le_bytes_id)

subsection \<open>Polygon filters\<close>

definition pack_vertex :: "polygon_vertex \<Rightarrow> (py_exn, bytes) result" where
  "pack_vertex v =
     bindE (pack_sint 8 (v_lat_nano v)) (\<lambda>a.
     bindE (pack_sint 8 (v_lon_nano v)) (\<lambda>b. Inr (a @ b)))"

definition pack_hole :: "polygon_vertex list \<Rightarrow> (py_exn, bytes \<times> bytes) result" where
  "pack_hole h =
     bindE (pack_uint 4 (int (length h))) (\<lambda>n.
     bindE (pack_uint 4 0) (\<lambda>z.
     bindE (mapE pack_vertex h) (\<lambda>vs. Inr (n @ z, concat vs))))"

definition query_polygon_filter_to_wire :: "query_polygon_filter \<Rightarrow> (py_exn, bytes) result" where
  "query_polygon_filter_to_wire f =
     bindE (pack_uint 4 (int (length (pf_vertices f)))) (\<lambda>nv.
     bindE (pack_uint 4 (int (length (pf_holes f)))) (\<lambda>nh.
     bindE (pack_uint 4 (pf_limit f)) (\<lambda>lim.
     bindE (pack_uint 4 0) (\<lambda>z.
     bindE (pack_uint 8 (pf_timestamp_min f)) (\<lambda>tmin.
     bindE (pack_uint 8 (pf_timestamp_max f)) (\<lambda>tmax.
     bindE (pack_uint 8 (pf_group_id f)) (\<lambda>gid.
     bindE (mapE pack_vertex (pf_vertices f)) (\<lambda>vs.
     bindE (mapE pack_hole (pf_holes f)) (\<lambda>hs.
     Inr ((nv @ nh @ lim @ z @ tmin @ tmax @ gid @ replicate 88 0) @ concat vs @
          concat (map fst hs) @ concat (map snd hs)))))))))))"

text \<open>
  The reader that the documented layout prescribes, with the field positions of
  \<open>CQueryPolygonFilter\<close>, \<open>CPolygonVertex\<close> and \<open>CHoleDescriptor\<close>: what the server is
  meant to see.
\<close>

definition vertex_layout :: "polygon_vertex \<Rightarrow> bytes" where
  "vertex_layout v = le_bytes 8 (v_lat_nano v) @ le_bytes 8 (v_lon_nano v)"

definition read_vertex :: "bytes \<Rightarrow> polygon_vertex" where
  "read_vertex b = \<lparr>v_lat_nano = le_sint (slice 0 8 b), v_lon_nano = le_sint (slice 8 16 b)\<rparr>"

definition vertex_fits :: "polygon_vertex \<Rightarrow> bool" where
  "vertex_fits v \<longleftrightarrow> i64 (v_lat_nano v) \<and> i64 (v_lon_nano v)"

definition descriptor_layout :: "nat \<Rightarrow> bytes" where
  "descriptor_layout n = le_bytes 4 (int n) @ le_bytes 4 0"

definition read_descriptor :: "bytes \<Rightarrow> nat" where
  "read_descriptor b = nat (le_int (slice 0 4 b))"

interpretation vertex_codec: fixed_codec vertex_layout read_vertex vertex_fits 16
  by unfold_locales
     (simp_all add: vertex_layout_def read_vertex_def vertex_fits_def width_defs slice_fields
       le_sint_le_bytes)

interpretation descriptor_codec:
  fixed_codec descriptor_layout read_descriptor "\<lambda>n. n < 2 ^ 32" 8
  by unfold_locales
     (simp_all add: descriptor_layout_def read_descriptor_def slice_fields le_int_le_bytes_id)

fun split_counts :: "nat list \<Rightarrow> 'a list \<Rightarrow> 'a list list" where
  "split_counts [] xs = []"
| "split_counts (c # cs) xs = take c xs # split_counts cs (drop c xs)"

lemma split_counts_concat: "split_counts (map length xss) (concat xss) = xss"
  by (induction xss) simp_all

definition polygon_filter_of_wire :: "bytes \<Rightarrow> query_polygon_filter" where
  "polygon_filter_of_wire b =
     (let n = nat (le_int (slice 0 4 b)); h = nat (le_int (slice 4 8 b));
          body = drop 128 b;
          descriptors = take (8 * h) (drop (16 * n) body)
      in \<lparr>pf_vertices = map read_vertex (chunks 16 (take (16 * n) body)),
          pf_holes = split_counts (map read_descriptor (chunks 8 descriptors))
            (map read_vertex (chunks 16 (drop (16 * n + 8 * h) body))),
          pf_limit = le_int (slice 8 12 b), pf_timestamp_min = le_int (slice 16 24 b),
          pf_timestamp_max = le_int (slice 24 32 b), pf_group_id = le_int (slice 32 40 b)\<rparr>)"

definition polygon_filter_fits :: "query_polygon_filter \<Rightarrow> bool" where
  "polygon_filter_fits f \<longleftrightarrow>
     u32 (int (length (pf_vertices f))) \<and> u32 (int (length (pf_holes f))) \<and> u32 (pf_limit f) \<and>
     u64 (pf_timestamp_min f) \<and> u64 (pf_timestamp_max f) \<and> u64 (pf_group_id f) \<and>
     (\<forall>v\<in>set (pf_vertices f). vertex_fits v) \<and>
     (\<forall>h\<in>set (pf_holes f). u32 (int (length h)) \<and> (\<forall>v\<in>set h. vertex_fits v))"

lemma pack_vertex_eq: "pack_vertex v = (if vertex_fits v then Inr (vertex_layout v) else Inl StructError)"
  by (simp add: pack_vertex_def pack_sint_def vertex_fits_def vertex_layout_def width_defs)

lemma mapE_check:
  "mapE (\<lambda>x. if P x then Inr (g x) else Inl e) xs =
     (if \<forall>x\<in>set xs. P x then Inr (map g xs) else Inl e)"
  by (induction xs) auto

lemma mapE_pack_vertex:
  "mapE pack_vertex vs =
     (if \<forall>v\<in>set vs. vertex_fits v then Inr (map vertex_layout vs) else Inl StructError)"
  using mapE_check [of vertex_fits vertex_layout StructError vs]
  by (simp only: pack_vertex_eq [abs_def])

lemma pack_hole_eq:
  "pack_hole h =
     (if u32 (int (length h)) \<and> (\<forall>v\<in>set h. vertex_fits v)
      then Inr (descriptor_layout (length h), concat (map vertex_layout h)) else Inl StructError)"
  by (simp add: pack_hole_def mapE_pack_vertex pack_uint_def width_defs descriptor_layout_def)

lemma mapE_pack_hole:
  "mapE pack_hole hs =
     (if \<forall>h\<in>set hs. u32 (int (length h)) \<and> (\<forall>v\<in>set h. vertex_fits v)
      then Inr (map (\<lambda>h. (descriptor_layout (length h), concat (map vertex_layout h))) hs)
      else Inl StructError)"
  using mapE_check [of "\<lambda>h. u32 (int (length h)) \<and> (\<forall>v\<in>set h. vertex_fits v)"
      "\<lambda>h. (descriptor_layout (length h), concat (map vertex_layout h))" StructError hs]
  by (simp only: pack_hole_eq [abs_def])

definition polygon_header :: "query_polygon_filter \<Rightarrow> bytes" where
  "polygon_header f =
     le_bytes 4 (int (length (pf_vertices f))) @ le_bytes 4 (int (length (pf_holes f))) @
     le_bytes 4 (pf_limit f) @ le_bytes 4 0 @ le_bytes 8 (pf_timestamp_min f) @
     le_bytes 8 (pf_timestamp_max f) @ le_bytes 8 (pf_group_id f) @ replicate 88 0"

definition polygon_layout :: "query_polygon_filter \<Rightarrow> bytes" where
  "polygon_layout f =
     polygon_header f @ concat (map vertex_layout (pf_vertices f)) @
     concat (map (descriptor_layout \<circ> length) (pf_holes f)) @
     concat (map vertex_layout (concat (pf_holes f)))"

lemma query_polygon_filter_to_wire_eq:
  "query_polygon_filter_to_wire f =
     (if polygon_filter_fits f then Inr (polygon_layout f) else Inl StructError)"
proof -
  have "concat (map (\<lambda>h. concat (map vertex_layout h)) hs)
      = concat (map vertex_layout (concat hs))" for hs
    by (induction hs) simp_all
  then show ?thesis
    by (simp add: query_polygon_filter_to_wire_def mapE_pack_vertex mapE_pack_hole pack_uint_def
        polygon_filter_fits_def width_defs polygon_layout_def polygon_header_def comp_def)
qed

lemma length_polygon_layout:
  "length (polygon_layout f) = 128 + 16 * length (pf_vertices f) + 8 * length (pf_holes f)
     + 16 * length (concat (pf_holes f))"
  using vertex_codec.length_array [of "pf_vertices f"]
    vertex_codec.length_array [of "concat (pf_holes f)"]
    descriptor_codec.length_array [of "map length (pf_holes f)"]
  by (simp add: polygon_layout_def polygon_header_def)

lemma polygon_filter_roundtrip:
  assumes "polygon_filter_fits f"
  shows "polygon_filter_of_wire (polygon_layout f) = f"
proof -
  let ?vs = "concat (map vertex_layout (pf_vertices f))"
  let ?ds = "concat (map (descriptor_layout \<circ> length) (pf_holes f))"
  let ?hs = "concat (map vertex_layout (concat (pf_holes f)))"
  let ?b = "polygon_layout f"
  have counts: "nat (le_int (slice 0 4 ?b)) = length (pf_vertices f)"
      "nat (le_int (slice 4 8 ?b)) = length (pf_holes f)"
    and fields: "le_int (slice 8 12 ?b) = pf_limit f" "le_int (slice 16 24 ?b) = pf_timestamp_min f"
      "le_int (slice 24 32 ?b) = pf_timestamp_max f" "le_int (slice 32 40 ?b) = pf_group_id f"
    using assms
    by (simp_all add: polygon_layout_def polygon_header_def slice_fields polygon_filter_fits_def
        width_defs le_int_le_bytes_id)
  have body: "drop 128 ?b = ?vs @ ?ds @ ?hs"
    by (simp add: polygon_layout_def polygon_header_def)
  have lv: "length ?vs = 16 * length (pf_vertices f)" by (rule vertex_codec.length_array)
  have ld: "length ?ds = 8 * length (pf_holes f)"
    using descriptor_codec.length_array [of "map length (pf_holes f)"] by simp
  have parts: "take (16 * length (pf_vertices f)) (?vs @ ?ds @ ?hs) = ?vs"
      "take (8 * length (pf_holes f)) (drop (16 * length (pf_vertices f)) (?vs @ ?ds @ ?hs)) = ?ds"
      "drop (16 * length (pf_vertices f) + 8 * length (pf_holes f)) (?vs @ ?ds @ ?hs) = ?hs"
    using lv ld by simp_all
  have vs: "map read_vertex (chunks 16 ?vs) = pf_vertices f"
    using assms by (intro vertex_codec.array_roundtrip) (simp add: polygon_filter_fits_def)
  have hs: "map read_vertex (chunks 16 ?hs) = concat (pf_holes f)"
    using assms by (intro vertex_codec.array_roundtrip) (auto simp: polygon_filter_fits_def)
  have "map read_descriptor (chunks 8 (concat (map descriptor_layout (map length (pf_holes f)))))
      = map length (pf_holes f)"
    using assms by (intro descriptor_codec.array_roundtrip) (auto simp: polygon_filter_fits_def width_defs)
  then have ds: "map read_descriptor (chunks 8 ?ds) = map length (pf_holes f)" by simp
  show ?thesis
    unfolding polygon_filter_of_wire_def Let_def counts fields body parts vs hs ds
      split_counts_concat by simp
qed

subsection \<open>TTL messages\<close>

record ttl_set_request =
  ts_entity_id :: int
  ts_ttl_seconds :: int
  ts_flags :: int

record ttl_extend_request =
  te_entity_id :: int
  extend_by_seconds :: int
  te_flags :: int

record ttl_clear_request =
  tc_entity_id :: int
  tc_flags :: int

record ttl_response =
  tr_entity_id :: int
  previous_ttl_seconds :: int
  new_ttl_seconds :: int
  tr_result :: ttl_result

record ttl_clear_response =
  tcr_entity_id :: int
  tcr_previous_ttl_seconds :: int
  tcr_result :: ttl_result

definition ttl_set_to_bytes :: "ttl_set_request \<Rightarrow> (py_exn, bytes) result" where
  "ttl_set_to_bytes r =
     bindE (to_bytes_little 16 (ts_entity_id r)) (\<lambda>entity_bytes.
     bindE (pack_uint 4 (ts_ttl_seconds r)) (\<lambda>ttl.
     bindE (pack_uint 4 (ts_flags r)) (\<lambda>flags.
     Inr (entity_bytes @ ttl @ flags @ replicate 40 0))))"

definition ttl_extend_to_bytes :: "ttl_extend_request \<Rightarrow> (py_exn, bytes) result" where
  "ttl_extend_to_bytes r =
     bindE (to_bytes_little 16 (te_entity_id r)) (\<lambda>entity_bytes.
     bindE (pack_uint 4 (extend_by_seconds r)) (\<lambda>by.
     bindE (pack_uint 4 (te_flags r)) (\<lambda>flags.
     Inr (entity_bytes @ by @ flags @ replicate 40 0))))"

definition ttl_clear_to_bytes :: "ttl_clear_request \<Rightarrow> (py_exn, bytes) result" where
  "ttl_clear_to_bytes r =
     bindE (to_bytes_little 16 (tc_entity_id r)) (\<lambda>entity_bytes.
     bindE (pack_uint 4 (tc_flags r)) (\<lambda>flags.
     Inr (entity_bytes @ flags @ replicate 44 0)))"

definition ttl_set_response_from_bytes :: "bytes \<Rightarrow> (py_exn, ttl_response) result" where
  "ttl_set_response_from_bytes data =
     (if length data < 64 then Inl ValueError
      else bindE (enum_of_code ttl_results ttl_code (le_int (slice 24 25 data))) (\<lambda>res.
        Inr \<lparr>tr_entity_id = le_int (slice 0 16 data), previous_ttl_seconds = le_int (slice 16 20 data),
             new_ttl_seconds = le_int (slice 20 24 data), tr_result = res\<rparr>))"

definition ttl_extend_response_from_bytes :: "bytes \<Rightarrow> (py_exn, ttl_response) result" where
  "ttl_extend_response_from_bytes data =
     (if length data < 64 then Inl ValueError
      else bindE (enum_of_code ttl_results ttl_code (le_int (slice 24 25 data))) (\<lambda>res.
        Inr \<lparr>tr_entity_id = le_int (slice 0 16 data), previous_ttl_seconds = le_int (slice 16 20 data),
             new_ttl_seconds = le_int (slice 20 24 data), tr_result = res\<rparr>))"

definition ttl_clear_response_from_bytes :: "bytes \<Rightarrow> (py_exn, ttl_clear_response) result" where
  "ttl_clear_response_from_bytes data =
     (if length data < 64 then Inl ValueError
      else bindE (enum_of_code ttl_results ttl_code (le_int (slice 20 21 data))) (\<lambda>res.
        Inr \<lparr>tcr_entity_id = le_int (slice 0 16 data),
             tcr_previous_ttl_seconds = le_int (slice 16 20 data), tcr_result = res\<rparr>))"

lemma ttl_set_to_bytes_eq:
  "ttl_set_to_bytes r =
     (if 0 \<le> ts_entity_id r \<and> ts_entity_id r < 2 ^ 128
      then if u32 (ts_ttl_seconds r) \<and> u32 (ts_flags r)
           then Inr (le_bytes 16 (ts_entity_id r) @ le_bytes 4 (ts_ttl_seconds r) @
                     le_bytes 4 (ts_flags r) @ replicate 40 0)
           else Inl StructError
      else Inl OverflowError)"
  by (simp add: ttl_set_to_bytes_def to_bytes_little_def pack_uint_def width_defs)

lemma ttl_response_roundtrip:
  assumes "0 \<le> tr_entity_id r" "tr_entity_id r < 2 ^ 128" "u32 (previous_ttl_seconds r)"
    "u32 (new_ttl_seconds r)" "39 \<le> length rest"
  shows "ttl_set_response_from_bytes (le_bytes 16 (tr_entity_id r) @ le_bytes 4 (previous_ttl_seconds r) @
      le_bytes 4 (new_ttl_seconds r) @ le_bytes 1 (ttl_code (tr_result r)) @ rest) = Inr r"
proof -
  have "le_int (le_bytes 1 (ttl_code (tr_result r))) = ttl_code (tr_result r)"
    by (intro le_int_le_bytes_id) (cases "tr_result r"; simp)+
  then show ?thesis
    using assms
    by (simp add: ttl_set_response_from_bytes_def slice_fields width_defs le_int_le_bytes_id
        ttl_enum.of_code_code del: le_bytes.simps)
qed

subsection \<open>Query response header and server status\<close>

record query_response =
  qr_count :: int
  qr_has_more :: bool
  qr_partial_result :: bool

definition FLAG_HAS_MORE :: int where "FLAG_HAS_MORE = 1"
definition FLAG_PARTIAL_RESULT :: int where "FLAG_PARTIAL_RESULT = 2"

definition query_response_from_bytes :: "bytes \<Rightarrow> (py_exn, query_response) result" where
  "query_response_from_bytes data =
     (if length data < 8 then Inl ValueError
      else let flags = le_int (slice 4 5 data) in
        Inr \<lparr>qr_count = le_int (slice 0 4 data), qr_has_more = (flags AND FLAG_HAS_MORE \<noteq> 0),
             qr_partial_result = (flags AND FLAG_PARTIAL_RESULT \<noteq> 0)\<rparr>)"

definition query_response_header_size :: nat where "query_response_header_size = 8"

record status_response =
  ram_index_count :: int
  ram_index_capacity :: int
  ram_index_load_pct :: int
  tombstone_count :: int
  ttl_expirations :: int
  deletion_count :: int

definition empty_status :: status_response where
  "empty_status = \<lparr>ram_index_count = 0, ram_index_capacity = 0, ram_index_load_pct = 0,
     tombstone_count = 0, ttl_expirations = 0, deletion_count = 0\<rparr>"

definition load_factor :: "status_response \<Rightarrow> (py_exn, pyfloat) result" where
  "load_factor s = bindE (float_of_int (ram_index_load_pct s)) (\<lambda>x. f_div x (Fin 10000))"

subsection \<open>Topology messages\<close>

definition utf8_cont :: "byte \<Rightarrow> bool" where
  "utf8_cont b \<longleftrightarrow> 0x80 \<le> uint b \<and> uint b \<le> 0xBF"

text \<open>Strict UTF-8: no overlong forms, no surrogates, nothing above U+10FFFF.\<close>

fun utf8_valid :: "bytes \<Rightarrow> bool" where
  "utf8_valid [] \<longleftrightarrow> True"
| "utf8_valid (a # r) \<longleftrightarrow>
     (if uint a < 0x80 then utf8_valid r
      else if 0xC2 \<le> uint a \<and> uint a \<le> 0xDF then
        (case r of b # r1 \<Rightarrow> utf8_cont b \<and> utf8_valid r1 | _ \<Rightarrow> False)
      else if 0xE0 \<le> uint a \<and> uint a \<le> 0xEF then
        (case r of b # c # r1 \<Rightarrow>
           utf8_cont b \<and> utf8_cont c \<and> (uint a = 0xE0 \<longrightarrow> 0xA0 \<le> uint b) \<and>
           (uint a = 0xED \<longrightarrow> uint b \<le> 0x9F) \<and> utf8_valid r1
         | _ \<Rightarrow> False)
      else if 0xF0 \<le> uint a \<and> uint a \<le> 0xF4 then
        (case r of b # c # d # r1 \<Rightarrow>
           utf8_cont b \<and> utf8_cont c \<and> utf8_cont d \<and> (uint a = 0xF0 \<longrightarrow> 0x90 \<le> uint b) \<and>
           (uint a = 0xF4 \<longrightarrow> uint b \<le> 0x8F) \<and> utf8_valid r1
         | _ \<Rightarrow> False)
      else False)"

definition decode_utf8 :: "bytes \<Rightarrow> (py_exn, bytes) result" where
  "decode_utf8 bs = (if utf8_valid bs then Inr bs else Inl UnicodeDecodeError)"

definition MAX_ADDRESS_LEN :: nat where "MAX_ADDRESS_LEN = 64"
definition MAX_REPLICAS_PER_SHARD :: nat where "MAX_REPLICAS_PER_SHARD = 6"
definition TOPOLOGY_HEADER_SIZE :: nat where "TOPOLOGY_HEADER_SIZE = 56"

record shard_info =
  shard_id :: int
  primary :: bytes
  replicas :: "bytes list"
  si_status :: shard_status
  entity_count :: int
  size_bytes :: int

record topology_response =
  version :: int
  cluster_id :: int
  num_shards :: int
  resharding_status :: int
  topology_flags :: int
  shards :: "shard_info list"
  last_change_ns :: int

text \<open>\<open>raw.split(b'\x00')[0].decode('utf-8')\<close>\<close>

definition read_address :: "bytes \<Rightarrow> (py_exn, bytes) result" where
  "read_address raw = decode_utf8 (takeWhile (\<lambda>b. b \<noteq> 0) raw)"

definition shard_min_size :: nat where
  "shard_min_size = 4 + MAX_ADDRESS_LEN + MAX_REPLICAS_PER_SHARD * MAX_ADDRESS_LEN + 1 + 1 + 8 + 8"

text \<open>\<open>struct.unpack('<Q', data[i:i + 8])[0]\<close>: the slice must have eight bytes.\<close>

definition unpack_u64 :: "nat \<Rightarrow> bytes \<Rightarrow> (py_exn, int) result" where
  "unpack_u64 i data =
     (if length (slice i (i + 8) data) = 8 then Inr (le_int (slice i (i + 8) data)) else Inl StructError)"

definition shard_info_from_bytes :: "bytes \<Rightarrow> (py_exn, shard_info) result" where
  "shard_info_from_bytes data =
     (if length data < shard_min_size then Inl ValueError
      else
        bindE (read_address (slice 4 (4 + MAX_ADDRESS_LEN) data)) (\<lambda>prim.
        bindE (mapE (\<lambda>i. read_address (slice (68 + i * MAX_ADDRESS_LEN) (68 + (i + 1) * MAX_ADDRESS_LEN) data))
          [0..<MAX_REPLICAS_PER_SHARD]) (\<lambda>addrs.
        let offset = 68 + MAX_REPLICAS_PER_SHARD * MAX_ADDRESS_LEN;
            reps = filter (\<lambda>a. a \<noteq> []) addrs;
            replica_count = nat (uint (data ! offset));
            status = uint (data ! (offset + 1));
            offset = offset + 2;
            offset = offset + (8 - offset mod 8) mod 8
        in bindE (unpack_u64 offset data) (\<lambda>ec.
           bindE (unpack_u64 (offset + 8) data) (\<lambda>sb.
           bindE (enum_of_code shard_statuses shard_status_code status) (\<lambda>st.
           Inr \<lparr>shard_id = le_int (slice 0 4 data), primary = prim,
                replicas = (if replica_count < length reps then take replica_count reps else reps),
                si_status = st, entity_count = ec, size_bytes = sb\<rparr>))))))"

definition shard_info_size :: nat where
  "shard_info_size =
     (let header = 4 + MAX_ADDRESS_LEN + MAX_REPLICAS_PER_SHARD * MAX_ADDRESS_LEN + 1 + 1;
          padding = (8 - header mod 8) mod 8
      in header + padding + 8 + 8)"

definition topology_from_bytes :: "bytes \<Rightarrow> (py_exn, topology_response) result" where
  "topology_from_bytes data =
     (if length data < TOPOLOGY_HEADER_SIZE then Inl ValueError
      else
        let ns = le_int (slice 8 12 data);
            cluster = le_int (slice 12 20 data) OR push_bit 64 (le_int (slice 20 28 data));
            lo = le_int (slice 28 36 data);
            hi = le_int (slice 36 44 data);
            change = lo OR push_bit 64 hi;
            change = (if hi AND push_bit 63 1 \<noteq> 0 then change - push_bit 128 1 else change);
            slots = (length data - TOPOLOGY_HEADER_SIZE) div shard_info_size
        in if slots = 0 then Inl ValueError
           else
             bindE (mapE (\<lambda>i. let start = TOPOLOGY_HEADER_SIZE + i * shard_info_size in
                shard_info_from_bytes (slice start (start + shard_info_size) data))
               (filter (\<lambda>i. TOPOLOGY_HEADER_SIZE + i * shard_info_size + shard_info_size \<le> length data)
                 [0..<min (nat ns) slots])) (\<lambda>ss.
             Inr \<lparr>version = le_int (slice 0 8 data), cluster_id = cluster, num_shards = ns,
                  resharding_status = uint (data ! 44), topology_flags = uint (data ! 45),
                  shards = ss, last_change_ns = change\<rparr>))"

text \<open>The layouts of the server, and the values that they can carry.\<close>

definition pad_address :: "bytes \<Rightarrow> bytes" where
  "pad_address a = a @ replicate (MAX_ADDRESS_LEN - length a) 0"

definition shard_layout :: "shard_info \<Rightarrow> bytes" where
  "shard_layout s =
     le_bytes 4 (shard_id s) @ pad_address (primary s) @
     concat (map pad_address (replicas s @ replicate (MAX_REPLICAS_PER_SHARD - length (replicas s)) [])) @
     [word_of_int (int (length (replicas s))), word_of_int (shard_status_code (si_status s)), 0, 0] @
     le_bytes 8 (entity_count s) @ le_bytes 8 (size_bytes s)"

definition address_ok :: "bytes \<Rightarrow> bool" where
  "address_ok a \<longleftrightarrow> length a \<le> MAX_ADDRESS_LEN \<and> 0 \<notin> set a \<and> utf8_valid a"

definition shard_ok :: "shard_info \<Rightarrow> bool" where
  "shard_ok s \<longleftrightarrow> u32 (shard_id s) \<and> address_ok (primary s) \<and>
     length (replicas s) \<le> MAX_REPLICAS_PER_SHARD \<and>
     (\<forall>a\<in>set (replicas s). address_ok a \<and> a \<noteq> []) \<and> u64 (entity_count s) \<and> u64 (size_bytes s)"

lemma takeWhile_pad: "0 \<notin> set a \<Longrightarrow> takeWhile (\<lambda>b. b \<noteq> 0) (a @ replicate n 0) = a"
  by (cases n) (auto simp: takeWhile_append)

lemma read_pad_address: "address_ok a \<Longrightarrow> read_address (pad_address a) = Inr a"
  by (simp add: address_ok_def read_address_def pad_address_def takeWhile_pad decode_utf8_def)

lemma length_pad_address: "address_ok a \<Longrightarrow> length (pad_address a) = 64"
  by (simp add: address_ok_def pad_address_def MAX_ADDRESS_LEN_def)

lemma address_ok_Nil [simp]: "address_ok []"
  by (simp add: address_ok_def)

lemma length_pads: "\<forall>a\<in>set as. address_ok a \<Longrightarrow> length (concat (map pad_address as)) = 64 * length as"
  by (induction as) (simp_all add: length_pad_address)

lemma slice_pads:
  "i < length as \<Longrightarrow> \<forall>a\<in>set as. address_ok a \<Longrightarrow>
     slice (i * 64) ((i + 1) * 64) (concat (map pad_address as) @ rest) = pad_address (as ! i)"
proof (induction as arbitrary: i)
  case Nil
  then show ?case by simp
next
  case (Cons a as)
  then have len: "length (pad_address a) = 64" by (simp add: length_pad_address)
  show ?case
  proof (cases i)
    case 0
    then show ?thesis by (simp add: slice_prefix len)
  next
    case (Suc k)
    have "slice (i * 64) ((i + 1) * 64) (concat (map pad_address (a # as)) @ rest)
        = slice (k * 64) ((k + 1) * 64) (concat (map pad_address as) @ rest)"
      using Suc by (simp add: slice_append_right len)
    with Suc Cons show ?thesis by simp
  qed
qed

lemma shard_sizes: "shard_min_size = 470" "shard_info_size = 472"
  by (simp_all add: shard_min_size_def shard_info_size_def MAX_ADDRESS_LEN_def MAX_REPLICAS_PER_SHARD_def)

lemma uint_small_byte: "0 \<le> k \<Longrightarrow> k < 256 \<Longrightarrow> uint (word_of_int k :: byte) = k"
  by (simp add: uint_word_of_int)

lemma status_code_bounds: "0 \<le> shard_status_code st \<and> shard_status_code st < 256"
  by (cases st) simp_all

lemma length_shard_layout: "shard_ok s \<Longrightarrow> length (shard_layout s) = 472"
proof -
  assume ok: "shard_ok s"
  let ?as = "replicas s @ replicate (6 - length (replicas s)) []"
  have "\<forall>a\<in>set ?as. address_ok a" using ok by (auto simp: shard_ok_def)
  then have "length (concat (map pad_address ?as)) = 64 * length ?as" by (rule length_pads)
  moreover have "length ?as = 6" using ok by (simp add: shard_ok_def MAX_REPLICAS_PER_SHARD_def)
  ultimately show ?thesis
    using ok by (simp add: shard_layout_def MAX_REPLICAS_PER_SHARD_def shard_ok_def length_pad_address)
qed

lemma shard_info_roundtrip:
  assumes ok: "shard_ok s"
  shows "shard_info_from_bytes (shard_layout s) = Inr s"
proof -
  define as where "as = replicas s @ replicate (6 - length (replicas s)) []"
  define tl where "tl = [word_of_int (int (length (replicas s))),
      word_of_int (shard_status_code (si_status s)), 0, 0] @
      le_bytes 8 (entity_count s) @ le_bytes 8 (size_bytes s)"
  define pre where "pre = le_bytes 4 (shard_id s) @ pad_address (primary s)"
  have r6: "length (replicas s) \<le> 6" using ok by (simp add: shard_ok_def MAX_REPLICAS_PER_SHARD_def)
  have as: "\<forall>a\<in>set as. address_ok a" "length as = 6"
    using ok r6 by (auto simp: shard_ok_def as_def)
  have prim: "address_ok (primary s)" using ok by (simp add: shard_ok_def)
  have lpre: "length pre = 68" using prim by (simp add: pre_def length_pad_address)
  let ?c = "concat (map pad_address as)"
  have lc: "length ?c = 384" using length_pads [OF as(1)] as(2) by simp
  have layout: "shard_layout s = pre @ ?c @ tl"
    by (simp add: shard_layout_def pre_def as_def tl_def MAX_REPLICAS_PER_SHARD_def)
  have len: "length (shard_layout s) = 472" by (rule length_shard_layout [OF ok])
  have ltl: "length tl = 20" by (simp add: tl_def)
  have s1: "slice 4 68 (shard_layout s) = pad_address (primary s)"
    using prim by (simp add: layout pre_def slice_fields length_pad_address)
  have s0: "slice 0 4 (shard_layout s) = le_bytes 4 (shard_id s)"
    by (simp add: layout pre_def slice_fields)
  have reps: "slice (68 + i * 64) (68 + (i + 1) * 64) (shard_layout s) = pad_address (as ! i)"
    if "i < 6" for i
  proof -
    have "slice (68 + i * 64) (68 + (i + 1) * 64) (shard_layout s)
        = slice (i * 64) ((i + 1) * 64) (?c @ tl)"
      by (simp add: layout slice_append_right lpre)
    then show ?thesis using slice_pads [of i as tl] as that by simp
  qed
  have addrs: "mapE (\<lambda>i. read_address (slice (68 + i * 64) (68 + (i + 1) * 64) (shard_layout s)))
      [0..<6] = Inr (map (\<lambda>i. as ! i) [0..<6])"
  proof (rule mapE_all_ok)
    fix i assume i: "i \<in> set [0..<6]"
    then have i6: "i < 6" by auto
    then have "address_ok (as ! i)" using as by (metis nth_mem)
    then show "read_address (slice (68 + i * 64) (68 + (i + 1) * 64) (shard_layout s)) = Inr (as ! i)"
      unfolding reps [OF i6] by (rule read_pad_address)
  qed
  have "map (\<lambda>i. as ! i) [0..<6] = as" using as(2) by (metis map_nth)
  then have addrs': "mapE (\<lambda>i. read_address (slice (68 + i * 64) (68 + (i + 1) * 64) (shard_layout s)))
      [0..<6] = Inr as" using addrs by simp
  have filt: "filter (\<lambda>a. a \<noteq> []) as = replicas s"
    using ok by (auto simp: as_def shard_ok_def filter_id_conv)
  have at: "shard_layout s ! (452 + k) = tl ! k" for k
    by (simp add: layout nth_append lpre lc)
  have b0: "shard_layout s ! 452 = word_of_int (int (length (replicas s)))"
    and b1: "shard_layout s ! 453 = word_of_int (shard_status_code (si_status s))"
    using at [of 0] at [of 1] by (simp_all add: tl_def)
  have e1: "slice 456 464 (shard_layout s) = le_bytes 8 (entity_count s)"
    and e2: "slice 464 472 (shard_layout s) = le_bytes 8 (size_bytes s)"
    by (simp_all add: layout tl_def slice_append_right lpre lc slice_prefix slice_whole)
       (simp_all add: slice_def)
  have "uint (shard_layout s ! 452) = int (length (replicas s))"
    unfolding b0 by (rule uint_small_byte) (use r6 in simp_all)
  then have cnt: "unat (shard_layout s ! 452) = length (replicas s)"
    by (simp only: unat_eq_nat_uint nat_int)
  have st: "uint (shard_layout s ! 453) = shard_status_code (si_status s)"
    using status_code_bounds [of "si_status s"] by (simp add: b1 uint_small_byte)
  show ?thesis
    using ok addrs'
    by (simp add: shard_info_from_bytes_def shard_sizes len MAX_ADDRESS_LEN_def
        MAX_REPLICAS_PER_SHARD_def s0 s1 read_pad_address [OF prim] filt cnt st unpack_u64_def
        e1 e2 status_enum.of_code_code le_int_le_bytes_id shard_ok_def width_defs)
qed


text \<open>What the errors can be, and the shape of what is parsed.\<close>

lemma read_address_error: "read_address raw = Inl e \<Longrightarrow> e = UnicodeDecodeError"
  by (simp add: read_address_def decode_utf8_def split: if_splits)

lemma mapE_error: "mapE f xs = Inl e \<Longrightarrow> \<exists>x\<in>set xs. f x = Inl e"
  by (induction xs) (auto simp: bindE_split_Inl)

lemma shard_info_errors:
  assumes "shard_info_from_bytes data = Inl e" and "length data = 472"
  shows "e = ValueError \<or> e = UnicodeDecodeError"
  using assms
  by (auto simp: shard_info_from_bytes_def bindE_split_Inl Let_def shard_sizes MAX_ADDRESS_LEN_def
      MAX_REPLICAS_PER_SHARD_def unpack_u64_def status_enum.of_code_Inl_iff
      dest!: mapE_error read_address_error split: if_splits)

text \<open>The guard of \<open>from_bytes\<close> forgets the two bytes of padding.\<close>

lemma shard_info_short_payload:
  assumes "length data = 470 \<or> length data = 471"
  shows "\<exists>e. shard_info_from_bytes data = Inl e \<and> (e = StructError \<or> e = UnicodeDecodeError)"
proof (cases "shard_info_from_bytes data")
  case (Inl e)
  then show ?thesis
    using assms
    by (auto simp: shard_info_from_bytes_def bindE_split_Inl Let_def shard_sizes MAX_ADDRESS_LEN_def
      MAX_REPLICAS_PER_SHARD_def unpack_u64_def dest!: mapE_error read_address_error split: if_splits)
next
  case (Inr s)
  then show ?thesis
    using assms
    by (auto simp: shard_info_from_bytes_def bindE_split_Inr Let_def shard_sizes MAX_ADDRESS_LEN_def
      MAX_REPLICAS_PER_SHARD_def unpack_u64_def split: if_splits)
qed

lemma topology_slots_cut:
  "filter (\<lambda>i. 528 + i * 472 \<le> len) [0..<min n ((len - 56) div 472)] =
     [0..<min n ((len - 56) div (472 :: nat))]"
proof (rule filter_True, rule ballI)
  fix i assume "i \<in> set [0..<min n ((len - 56) div 472)]"
  then have "i + 1 \<le> (len - 56) div 472" by simp
  then have "(i + 1) * 472 \<le> (len - 56) div 472 * 472" by (rule mult_le_mono1)
  also have "\<dots> \<le> len - 56" by simp
  finally show "528 + i * 472 \<le> len" by (simp add: algebra_simps)
qed

lemma topology_from_bytes_errors:
  assumes "topology_from_bytes data = Inl e"
  shows "e = ValueError \<or> e = UnicodeDecodeError"
proof -
  have "x = ValueError \<or> x = UnicodeDecodeError"
    if "shard_info_from_bytes (slice (56 + i * 472) (528 + i * 472) data) = Inl x"
      and "528 + i * 472 \<le> length data" for i x
    using shard_info_errors [OF that(1)] that(2) by simp
  with assms show ?thesis
    by (auto simp: topology_from_bytes_def Let_def TOPOLOGY_HEADER_SIZE_def shard_sizes
        bindE_split_Inl add.commute dest!: mapE_error split: if_splits) metis
qed

lemma topology_from_bytes_shards:
  assumes "topology_from_bytes data = Inr t"
  shows "length (shards t) = min (nat (num_shards t)) ((length data - 56) div 472)"
    and "0 < (length data - 56) div 472"
  using assms
  by (auto simp: topology_from_bytes_def Let_def TOPOLOGY_HEADER_SIZE_def shard_sizes
      bindE_split_Inr topology_slots_cut split: if_splits dest: mapE_length)


definition topology_layout :: "topology_response \<Rightarrow> bytes" where
  "topology_layout t =
     (le_bytes 8 (version t) @ le_bytes 4 (num_shards t) @ c_uint128 (cluster_id t) @
      le_bytes 16 (last_change_ns t) @
      [word_of_int (resharding_status t), word_of_int (topology_flags t)] @ replicate 10 0) @
     concat (map shard_layout (shards t))"

definition topology_ok :: "topology_response \<Rightarrow> bool" where
  "topology_ok t \<longleftrightarrow> u64 (version t) \<and> 0 \<le> cluster_id t \<and> cluster_id t < 2 ^ 128 \<and>
     - (2 ^ 127) \<le> last_change_ns t \<and> last_change_ns t < 2 ^ 127 \<and>
     0 \<le> resharding_status t \<and> resharding_status t < 256 \<and> 0 \<le> topology_flags t \<and>
     topology_flags t < 256 \<and> num_shards t = int (length (shards t)) \<and> u32 (num_shards t) \<and>
     shards t \<noteq> [] \<and> (\<forall>s\<in>set (shards t). shard_ok s)"

lemma and_top_bit:
  assumes "0 \<le> (hi :: int)" and "hi < 2 ^ 64"
  shows "hi AND push_bit 63 1 \<noteq> 0 \<longleftrightarrow> 2 ^ 63 \<le> hi"
proof -
  have "hi AND push_bit 63 1 \<noteq> 0 \<longleftrightarrow> bit hi 63"
    by (simp only: bit_iff_and_push_bit_not_eq_0)
  also have "\<dots> \<longleftrightarrow> odd (hi div 2 ^ 63)" by (simp add: bit_iff_odd)
  also have "\<dots> \<longleftrightarrow> 2 ^ 63 \<le> hi"
  proof
    assume "odd (hi div 2 ^ 63)"
    then have "hi div 2 ^ 63 \<noteq> 0" by (metis even_zero)
    then show "2 ^ 63 \<le> hi" using assms by (metis div_pos_pos_trivial not_le)
  next
    assume "2 ^ 63 \<le> hi"
    then have "(hi - 2 ^ 63) div 2 ^ 63 = 0" using assms by simp
    then have "hi div 2 ^ 63 = 1" by simp
    then show "odd (hi div 2 ^ 63)" by simp
  qed
  finally show ?thesis .
qed

text \<open>The two halves with the sign correction are a signed 128-bit integer.\<close>

lemma signed_halves:
  assumes len: "length b = 16"
  shows "(let lo = le_int (slice 0 8 b); hi = le_int (slice 8 16 b); c = lo OR push_bit 64 hi in
    if hi AND push_bit 63 1 \<noteq> 0 then c - push_bit 128 1 else c) = le_sint b"
proof -
  let ?lo = "le_int (slice 0 8 b)" and ?hi = "le_int (slice 8 16 b)"
  have b: "0 \<le> ?lo" "?lo < 2 ^ 64" "0 \<le> ?hi" "?hi < 2 ^ 64"
    using le_int_bounds [of "slice 0 8 b"] le_int_bounds [of "slice 8 16 b"] len by simp_all
  have c: "?lo OR push_bit 64 ?hi = le_int b"
    using c_uint128_to_python_eq [OF len] by (simp add: c_uint128_to_python_def or.commute)
  have "le_int b = 2 ^ 64 * ?hi + ?lo" using c push_or_add [OF b(1,2), of ?hi] by (simp add: or.commute)
  then have "2 ^ 63 \<le> ?hi \<longleftrightarrow> 2 ^ 127 \<le> le_int b" using b by simp linarith
  then show ?thesis
    unfolding Let_def c and_top_bit [OF b(3,4)]
    by (auto simp: le_sint_def Let_def len push_bit_of_1)
qed

lemma slice_slice: "i + b \<le> j \<Longrightarrow> slice a b (slice i j xs) = slice (i + a) (i + b) xs"
  by (simp add: slice_def drop_take add.commute)

lemma slice_shards:
  assumes "\<forall>s\<in>set ss. shard_ok s" and "i < length ss"
  shows "slice (i * 472) ((i + 1) * 472) (concat (map shard_layout ss) @ rest) = shard_layout (ss ! i)"
  using assms
proof (induction ss arbitrary: i)
  case Nil
  then show ?case by simp
next
  case (Cons s ss)
  then have len: "length (shard_layout s) = 472" by (simp add: length_shard_layout)
  show ?case
  proof (cases i)
    case 0
    then show ?thesis by (simp add: slice_prefix len)
  next
    case (Suc k)
    have "slice (i * 472) ((i + 1) * 472) (concat (map shard_layout (s # ss)) @ rest)
        = slice (k * 472) ((k + 1) * 472) (concat (map shard_layout ss) @ rest)"
      using Suc by (simp add: slice_append_right len)
    with Suc Cons show ?thesis by simp
  qed
qed

lemma length_shards:
  "\<forall>s\<in>set ss. shard_ok s \<Longrightarrow> length (concat (map shard_layout ss)) = 472 * length ss"
  by (induction ss) (simp_all add: length_shard_layout)

lemma topology_roundtrip:
  assumes ok: "topology_ok t"
  shows "topology_from_bytes (topology_layout t @ rest) = Inr t"
proof -
  let ?ss = "concat (map shard_layout (shards t))"
  define h where "h = le_bytes 8 (version t) @ le_bytes 4 (num_shards t) @ c_uint128 (cluster_id t) @
      le_bytes 16 (last_change_ns t) @
      [word_of_int (resharding_status t), word_of_int (topology_flags t)] @ replicate 10 (0 :: byte)"
  have lh: "length h = 56" by (simp add: h_def)
  let ?d = "topology_layout t @ rest"
  have d: "?d = h @ ?ss @ rest" by (simp add: topology_layout_def h_def)
  have shards_ok: "\<forall>s\<in>set (shards t). shard_ok s" using ok by (simp add: topology_ok_def)
  have ls: "length ?ss = 472 * length (shards t)" by (rule length_shards [OF shards_ok])
  have slots: "length (shards t) \<le> (length ?d - 56) div 472" by (simp add: d lh ls)
  have fields: "le_int (slice 0 8 ?d) = version t" "le_int (slice 8 12 ?d) = num_shards t"
    using ok unfolding d h_def topology_ok_def
    by (simp_all add: slice_fields width_defs le_int_le_bytes_id)
  have cl: "slice 12 28 ?d = c_uint128 (cluster_id t)"
    and ch: "slice 28 44 ?d = le_bytes 16 (last_change_ns t)"
    unfolding d h_def by (simp_all add: slice_fields)
  have sub: "slice 12 20 ?d = slice 0 8 (slice 12 28 ?d)" "slice 20 28 ?d = slice 8 16 (slice 12 28 ?d)"
      "slice 28 36 ?d = slice 0 8 (slice 28 44 ?d)" "slice 36 44 ?d = slice 8 16 (slice 28 44 ?d)"
    by (simp_all add: slice_slice)
  have cluster: "le_int (slice 12 20 ?d) OR push_bit 64 (le_int (slice 20 28 ?d)) = cluster_id t"
    unfolding sub cl using c_uint128_roundtrip [of "cluster_id t"] ok
    by (simp add: topology_ok_def c_uint128_to_python_def or.commute)
  have change: "(let lo = le_int (slice 28 36 ?d); hi = le_int (slice 36 44 ?d); c = lo OR push_bit 64 hi
      in if hi AND push_bit 63 1 \<noteq> 0 then c - push_bit 128 1 else c) = last_change_ns t"
  proof -
    have "le_sint (le_bytes 16 (last_change_ns t)) = last_change_ns t"
      using ok by (intro le_sint_le_bytes) (simp_all add: topology_ok_def)
    then show ?thesis
      using signed_halves [of "le_bytes 16 (last_change_ns t)"] by (simp only: sub(3,4) ch length_le_bytes)
  qed
  have "?d ! 44 = word_of_int (resharding_status t)" "?d ! 45 = word_of_int (topology_flags t)"
    unfolding d h_def by (simp_all add: nth_append)
  then have bytes: "uint (?d ! 44) = resharding_status t" "uint (?d ! 45) = topology_flags t"
    using ok by (simp_all only: uint_small_byte topology_ok_def)
  have parse: "mapE (\<lambda>i. shard_info_from_bytes (slice (56 + i * 472) (56 + i * 472 + 472) ?d))
      [0..<length (shards t)] = Inr (map (\<lambda>i. shards t ! i) [0..<length (shards t)])"
  proof (rule mapE_all_ok)
    fix i assume "i \<in> set [0..<length (shards t)]"
    then have i: "i < length (shards t)" by simp
    have "slice (56 + i * 472) (56 + i * 472 + 472) ?d = slice (i * 472) ((i + 1) * 472) (?ss @ rest)"
      by (simp add: d slice_append_right lh)
    then have "slice (56 + i * 472) (56 + i * 472 + 472) ?d = shard_layout (shards t ! i)"
      using slice_shards [OF shards_ok i] by simp
    then show "shard_info_from_bytes (slice (56 + i * 472) (56 + i * 472 + 472) ?d) = Inr (shards t ! i)"
      using shards_ok i by (simp add: shard_info_roundtrip)
  qed
  have m: "min (nat (num_shards t)) ((length ?d - 56) div 472) = length (shards t)"
    using ok slots by (simp add: topology_ok_def)
  have "filter (\<lambda>i. 56 + i * 472 + 472 \<le> length ?d) [0..<length (shards t)] = [0..<length (shards t)]"
    using topology_slots_cut [of "length ?d" "nat (num_shards t)"] m by (simp add: add.commute add.left_commute)
  moreover have "(length ?d - 56) div 472 \<noteq> 0"
  proof -
    have "0 < length (shards t)" using ok by (simp add: topology_ok_def)
    then show ?thesis using slots by linarith
  qed
  moreover have "\<not> length ?d < 56" by (simp add: d lh)
  ultimately show ?thesis
    unfolding topology_from_bytes_def Let_def TOPOLOGY_HEADER_SIZE_def shard_sizes fields cluster bytes m
    using parse change by (simp only: Let_def map_nth if_False bindE_simps) simp
qed


subsection \<open>Properties\<close>

lemma pack_composite_id_fits:
  assumes "0 \<le> s2" and "s2 < 2 ^ 64"
  shows "pack_composite_id s2 ts = 2 ^ 64 * s2 + ts mod 2 ^ 64"
    and "0 \<le> pack_composite_id s2 ts \<and> pack_composite_id s2 ts < 2 ^ 128"
proof -
  show eq: "pack_composite_id s2 ts = 2 ^ 64 * s2 + ts mod 2 ^ 64"
    by (simp add: pack_composite_id_def and_MASK64 push_or_add)
  have "0 \<le> ts mod 2 ^ 64" "ts mod 2 ^ 64 < 2 ^ 64" by simp_all
  then show "0 \<le> pack_composite_id s2 ts \<and> pack_composite_id s2 ts < 2 ^ 128"
    unfolding eq using assms by simp
qed

lemma pseudo_cell_bounds: "0 \<le> compute_pseudo_s2_cell a b \<and> compute_pseudo_s2_cell a b < 2 ^ 64"
  unfolding compute_pseudo_s2_cell_def Let_def by (rule and_MASK64_bounds)

text \<open>The event that is put on the wire: the caller's, with an id if it had none.\<close>

definition sent_event :: "(nat \<Rightarrow> int) \<Rightarrow> nat \<Rightarrow> geo_event \<Rightarrow> geo_event" where
  "sent_event now t e =
     (if event_id e = 0
      then e\<lparr>event_id := 2 ^ 64 * (\<bar>lat_nano e * lon_nano e\<bar> mod 2 ^ 64) + now t mod 2 ^ 64\<rparr> else e)"

lemma sent_event_layout:
  "geo_event_to_wire now t e = (geo_event_layout (sent_event now t e), if event_id e = 0 then Suc t else t)"
  using pack_composite_id_fits(1) [of "compute_pseudo_s2_cell (lat_nano e) (lon_nano e)" "now t"]
    pseudo_cell_bounds [of "lat_nano e" "lon_nano e"]
  by (simp add: geo_event_to_wire_def sent_event_def compute_pseudo_s2_cell_def and_MASK64 Let_def)

lemma sent_event_fits: "event_fits e \<Longrightarrow> event_fits (sent_event now t e)"
  using pack_composite_id_fits [of "compute_pseudo_s2_cell (lat_nano e) (lon_nano e)" "now t"]
    pseudo_cell_bounds [of "lat_nano e" "lon_nano e"]
  by (simp add: sent_event_def event_fits_def compute_pseudo_s2_cell_def and_MASK64 Let_def)

text \<open>C23: Every event is exactly 128 bytes on the wire, and decoding them gives back the
  event field by field, signed fields included, as long as its fields fit their
  widths; an event without an id gets the composite of the pseudo cell of its
  coordinates and the low 64 bits of the clock, and only then is the clock read.\<close>

theorem geo_event_wire_roundtrip:
  assumes "event_fits e" and "geo_event_to_wire now t e = (b, t')"
  shows "length b = 128 \<and> wire_to_geo_event b = sent_event now t e \<and>
    t' = (if event_id e = 0 then Suc t else t)"
  using assms(2) event_roundtrip [OF sent_event_fits [OF assms(1), of now t]]
  by (auto simp: sent_event_layout)

definition sample_event :: geo_event where
  "sample_event =
     \<lparr>event_id = 0, entity_id = 7, correlation_id = 0, user_data = 0, lat_nano = - 37000000000,
      lon_nano = 122000000000, group_id = 3, timestamp = 0, altitude_mm = - 5, velocity_mms = 10,
      ttl_seconds = 60, accuracy_mm = 2, heading_cdeg = 9000, event_flags = 1\<rparr>"

theorem geo_event_wire_roundtrip_witness:
  "lat_nano (wire_to_geo_event (fst (geo_event_to_wire int 5 sample_event))) = - 37000000000"
proof -
  have "event_fits sample_event" by (simp add: event_fits_def sample_event_def)
  then have "wire_to_geo_event (fst (geo_event_to_wire int 5 sample_event)) = sent_event int 5 sample_event"
    using geo_event_wire_roundtrip [of sample_event int 5 "fst (geo_event_to_wire int 5 sample_event)"
        "snd (geo_event_to_wire int 5 sample_event)"] by simp
  then show ?thesis by (simp add: sent_event_def sample_event_def)
qed

text \<open>A polygon filter is serialized exactly when its counts, limit and timestamps fit
  their unsigned fields and its vertices fit signed 64 bits (otherwise \<open>struct.error\<close>),
  its size is the sum of the documented parts, and the documented layout
  reads it back: header, outer ring, descriptors and the vertices of every hole,
  each hole with its own vertices.\<close>

theorem polygon_wire_roundtrip:
  "case query_polygon_filter_to_wire f of
     Inr b \<Rightarrow> polygon_filter_fits f \<and> polygon_filter_of_wire b = f \<and>
       length b = 128 + 16 * length (pf_vertices f) + 8 * length (pf_holes f)
         + 16 * length (concat (pf_holes f))
   | Inl e \<Rightarrow> \<not> polygon_filter_fits f \<and> e = StructError"
  by (simp add: query_polygon_filter_to_wire_eq polygon_filter_roundtrip length_polygon_layout)

text \<open>Parsing a topology response in the server's layout gives back the version, the
  128-bit cluster id, the signed 128-bit change time, the flags and every shard with
  its primary, replicas, status and counters, whatever bytes (unused shard slots)
  follow.\<close>

theorem topology_wire_roundtrip:
  assumes "topology_ok t"
  shows "topology_from_bytes (topology_layout t @ rest) = Inr t"
  using assms by (rule topology_roundtrip)

definition sample_topology :: topology_response where
  "sample_topology =
     \<lparr>version = 3, cluster_id = 2 ^ 100, num_shards = 1, resharding_status = 2, topology_flags = 0,
      shards = [\<lparr>shard_id = 0, primary = [104, 58, 49], replicas = [[97], [98]],
                 si_status = MIGRATING, entity_count = 5, size_bytes = 640\<rparr>],
      last_change_ns = - 9\<rparr>"

theorem topology_wire_roundtrip_witness:
  "topology_from_bytes (topology_layout sample_topology @ replicate 472 0) = Inr sample_topology"
  by (rule topology_wire_roundtrip)
     (simp add: topology_ok_def sample_topology_def shard_ok_def width_defs address_ok_def
       MAX_ADDRESS_LEN_def MAX_REPLICAS_PER_SHARD_def)


end
