(* ===== verification/Native_Client.thy ===== *)
theory Native_Client
  imports Prelude
begin

section \<open>The native client: request tags, completions and connection state\<close>

text \<open>
  \<open>NativeClient\<close> of \<open>archerdb/_native.py\<close> up to the request level: \<open>connect\<close>,
  \<open>disconnect\<close>, \<open>submit\<close> (and \<open>submit_bytes\<close>, the same code on a byte buffer) and the
  completion callback.  A request context is a number; the map \<open>inflight\<close> holds the
  contexts by tag and \<open>completed\<close> the results of those whose event is set.  The C
  library is a parameter: its status codes, and the completions that it delivers
  while the caller waits, as a list in the order of delivery.
\<close>

unbundle bit_operations_syntax

record native_result =
  nr_status :: int
  data_size :: nat
  nr_data :: "bytes option"

record native_client =
  connected :: bool
  has_client :: bool
  inflight :: "int \<rightharpoonup> nat"
  completed :: "nat \<rightharpoonup> native_result"
  next_tag :: int
  next_ctx :: nat

definition init_native :: native_client where
  "init_native = \<lparr>connected = False, has_client = False, inflight = Map.empty,
     completed = Map.empty, next_tag = 1, next_ctx = 0\<rparr>"

datatype packet_status =
    PACKET_OK | TOO_MUCH_DATA | CLIENT_EVICTED | CLIENT_RELEASE_TOO_LOW | CLIENT_RELEASE_TOO_HIGH
  | CLIENT_SHUTDOWN | INVALID_OPERATION | INVALID_DATA_SIZE

fun packet_status_code :: "packet_status \<Rightarrow> int" where
  "packet_status_code PACKET_OK = 0"
| "packet_status_code TOO_MUCH_DATA = 1"
| "packet_status_code CLIENT_EVICTED = 2"
| "packet_status_code CLIENT_RELEASE_TOO_LOW = 3"
| "packet_status_code CLIENT_RELEASE_TOO_HIGH = 4"
| "packet_status_code CLIENT_SHUTDOWN = 5"
| "packet_status_code INVALID_OPERATION = 6"
| "packet_status_code INVALID_DATA_SIZE = 7"

subsection \<open>Completions\<close>

text \<open>
  A completion names a packet: its tag and its address, which identifies the
  context that owns it.
\<close>

record completion =
  c_tag :: int
  c_packet :: nat
  c_status :: int
  c_size :: nat
  c_data :: "bytes option"

definition completion_result :: "completion \<Rightarrow> native_result" where
  "completion_result c =
     \<lparr>nr_status = c_status c, data_size = c_size c,
      nr_data = (if 0 < c_size c then c_data c else None)\<rparr>"

text \<open>The tags from 0 to \<open>0xFFFF\<close>, for the search by packet address.\<close>

definition find_packet :: "(int \<rightharpoonup> nat) \<Rightarrow> nat \<Rightarrow> int option" where
  "find_packet m p = find (\<lambda>t. m t = Some p) [0..0xFFFF]"

definition on_completion :: "completion \<Rightarrow> native_client \<Rightarrow> native_client" where
  "on_completion c s =
     (case inflight s (c_tag c) of
        Some ctx \<Rightarrow>
          s\<lparr>inflight := (inflight s)(c_tag c := None),
            completed := (completed s)(ctx \<mapsto> completion_result c)\<rparr>
      | None \<Rightarrow>
          (case find_packet (inflight s) (c_packet c) of
             Some tag \<Rightarrow>
               s\<lparr>inflight := (inflight s)(tag := None),
                 completed := (completed s)(c_packet c \<mapsto> completion_result c)\<rparr>
           | None \<Rightarrow> s))"

definition deliver :: "completion list \<Rightarrow> native_client \<Rightarrow> native_client" where
  "deliver cs s = fold on_completion cs s"

subsection \<open>Connecting\<close>

definition native_connect :: "int \<Rightarrow> native_client \<Rightarrow> bool \<times> native_client" where
  "native_connect init_status s =
     (if connected s then (True, s)
      else let s = s\<lparr>has_client := True\<rparr> in
        if init_status = 0 then (True, s\<lparr>connected := True\<rparr>) else (False, s))"

text \<open>\<open>waited\<close>: the completions that arrive while \<open>disconnect\<close> waits for pending events.\<close>

definition native_disconnect :: "completion list \<Rightarrow> native_client \<Rightarrow> native_client" where
  "native_disconnect waited s =
     (if \<not> has_client s \<or> \<not> connected s then s
      else
        let pending = {ctx \<in> ran (inflight s). completed s ctx = None};
            s = deliver waited s
        in if \<not> has_client s \<or> \<not> connected s then s
           else if \<exists>ctx\<in>pending. completed s ctx = None
           then s\<lparr>connected := False, has_client := False\<rparr>
           else s\<lparr>connected := False, has_client := False, inflight := Map.empty\<rparr>)"

subsection \<open>Submitting\<close>

definition bump_tag :: "int \<Rightarrow> int" where
  "bump_tag tag = (let t = (tag + 1) AND 0xFFFF in if t = 0 then 1 else t)"

text \<open>The search for a free tag; \<open>None\<close> is a search that does not end.\<close>

partial_function (option) free_tag :: "(int \<rightharpoonup> nat) \<Rightarrow> int \<Rightarrow> int option" where
  "free_tag m tag = (if m tag \<noteq> None then free_tag m (bump_tag tag) else Some tag)"

declare free_tag.simps [code]

definition start_tag :: "int \<Rightarrow> int" where
  "start_tag nt = (let tag = nt AND 0xFFFF in if tag = 0 then 1 else tag)"

definition register_request :: "int \<Rightarrow> native_client \<Rightarrow> native_client" where
  "register_request tag s =
     s\<lparr>next_tag := (tag + 1) AND 0xFFFF, next_ctx := Suc (next_ctx s),
       inflight := (inflight s)(tag \<mapsto> next_ctx s)\<rparr>"

text \<open>The wait for the event of a context, after the completions that arrive meanwhile.\<close>

definition await_result :: "nat \<Rightarrow> native_client \<Rightarrow> native_result \<times> native_client" where
  "await_result ctx s =
     (case completed s ctx of
        None \<Rightarrow> (\<lparr>nr_status = - 2, data_size = 0, nr_data = None\<rparr>, s)
      | Some res \<Rightarrow>
          (res, if nr_status res = packet_status_code CLIENT_EVICTED
                then s\<lparr>connected := False, has_client := False\<rparr> else s))"

text \<open>
  \<open>submit\<close>: \<open>None\<close> is a tag search that never ends.  \<open>client_status\<close> is the answer of
  \<open>arch_client_submit\<close>, \<open>waited\<close> the completions delivered before the wait returns or
  times out.
\<close>

definition native_submit ::
    "int \<Rightarrow> completion list \<Rightarrow> native_client \<Rightarrow> ((py_exn, native_result) result \<times> native_client) option" where
  "native_submit client_status waited s =
     (if \<not> connected s \<or> \<not> has_client s
      then Some (Inl (RuntimeError ''Client not connected''), s)
      else
        case free_tag (inflight s) (start_tag (next_tag s)) of
          None \<Rightarrow> None
        | Some tag \<Rightarrow>
            let ctx = next_ctx s; s = register_request tag s in
            if client_status \<noteq> 0
            then Some (Inr \<lparr>nr_status = - 1, data_size = 0, nr_data = None\<rparr>,
                       s\<lparr>inflight := (inflight s)(tag := None)\<rparr>)
            else (case await_result ctx (deliver waited s) of (res, s) \<Rightarrow> Some (Inr res, s)))"

subsection \<open>Tags\<close>

definition tags :: "int set" where
  "tags = {1..0xFFFF}"

lemma and_FFFF: "(k :: int) AND 0xFFFF = k mod 2 ^ 16"
proof -
  have "k AND mask 16 = take_bit 16 k" by (simp add: take_bit_eq_mask)
  then show ?thesis by (simp add: mask_eq_exp_minus_1 take_bit_eq_mod)
qed

lemma bump_tag_in: "bump_tag t \<in> tags"
proof -
  have "0 \<le> (t + 1) mod 2 ^ 16 \<and> (t + 1) mod 2 ^ 16 < 2 ^ 16" by simp
  then show ?thesis by (auto simp: bump_tag_def tags_def and_FFFF Let_def)
qed

lemma start_tag_in: "start_tag t \<in> tags"
proof -
  have "0 \<le> t mod 2 ^ 16 \<and> t mod 2 ^ 16 < 2 ^ 16" by simp
  then show ?thesis by (auto simp: start_tag_def tags_def and_FFFF Let_def)
qed

lemma bump_tag_eq: "t \<in> tags \<Longrightarrow> bump_tag t = (if t = 0xFFFF then 1 else t + 1)"
  by (auto simp: bump_tag_def tags_def and_FFFF Let_def)

text \<open>The distance from one tag to another along the search order.\<close>

definition tag_distance :: "int \<Rightarrow> int \<Rightarrow> nat" where
  "tag_distance t goal = nat ((goal - t) mod 0xFFFF)"

lemma tag_distance_bump:
  assumes "t \<in> tags" "goal \<in> tags" "t \<noteq> goal"
  shows "tag_distance (bump_tag t) goal < tag_distance t goal"
proof -
  have b: "1 \<le> t" "t \<le> 65535" "1 \<le> goal" "goal \<le> 65535" using assms by (simp_all add: tags_def)
  have m: "(x :: int) mod 65535 = (if x < 0 then x + 65535 else x)" if "- 65535 < x" "x < 65535" for x
  proof (cases "x < 0")
    case True
    then have "(x + 65535) mod 65535 = x + 65535" using that by (intro mod_pos_pos_trivial) simp_all
    with True show ?thesis by simp
  next
    case False
    with that show ?thesis by simp
  qed
  show ?thesis
    using b assms by (auto simp: tag_distance_def bump_tag_eq m)
qed

lemma free_tag_finds:
  assumes "t \<in> tags" "goal \<in> tags" "m goal = None"
  shows "\<exists>u. free_tag m t = Some u \<and> u \<in> tags \<and> m u = None"
  using assms(1)
proof (induction "tag_distance t goal" arbitrary: t rule: less_induct)
  case less
  show ?case
  proof (cases "m t = None")
    case True
    with less.prems show ?thesis by (intro exI [of _ t]) (simp add: free_tag.simps)
  next
    case False
    then have "t \<noteq> goal" using assms(3) by auto
    with less.prems have "tag_distance (bump_tag t) goal < tag_distance t goal"
      using assms(2) by (rule_tac tag_distance_bump)
    then obtain u where "free_tag m (bump_tag t) = Some u" "u \<in> tags" "m u = None"
      using less.hyps bump_tag_in by blast
    with False show ?thesis by (subst free_tag.simps) auto
  qed
qed

lemma free_tag_sound: "free_tag m t = Some u \<Longrightarrow> m u = None \<and> (t \<in> tags \<longrightarrow> u \<in> tags)"
proof (rule free_tag.raw_induct [of "\<lambda>m t u. m u = None \<and> (t \<in> tags \<longrightarrow> u \<in> tags)"])
  fix ft and m :: "int \<rightharpoonup> nat" and t u
  assume "\<And>m t u. ft m t = Some u \<Longrightarrow> m u = None \<and> (t \<in> tags \<longrightarrow> u \<in> tags)"
    and "(if m t \<noteq> None then ft m (bump_tag t) else Some t) = Some u"
  then show "m u = None \<and> (t \<in> tags \<longrightarrow> u \<in> tags)"
    using bump_tag_in by (auto split: if_splits)
qed

lemma free_tag_Some_iff:
  assumes "t \<in> tags"
  shows "(\<exists>u. free_tag m t = Some u) \<longleftrightarrow> (\<exists>g\<in>tags. m g = None)"
  using free_tag_finds [OF assms] free_tag_sound assms by blast

subsection \<open>The invariant of the inflight table\<close>

text \<open>
  Every tag in use is a 16-bit tag other than zero, no context has two tags, and a
  context with a tag is one that was allocated and has no result yet.
\<close>

definition native_inv :: "native_client \<Rightarrow> bool" where
  "native_inv s \<longleftrightarrow>
     dom (inflight s) \<subseteq> tags \<and>
     (\<forall>t u c. inflight s t = Some c \<longrightarrow> inflight s u = Some c \<longrightarrow> t = u) \<and>
     (\<forall>t c. inflight s t = Some c \<longrightarrow> c < next_ctx s \<and> completed s c = None) \<and>
     (\<forall>c. completed s c \<noteq> None \<longrightarrow> c < next_ctx s) \<and>
     (connected s \<longrightarrow> has_client s)"

lemma native_inv_init: "native_inv init_native"
  by (simp add: native_inv_def init_native_def)

lemma find_packet_Some: "find_packet m p = Some t \<Longrightarrow> m t = Some p"
  by (auto simp: find_packet_def find_Some_iff)

lemma on_completion_inv: "native_inv s \<Longrightarrow> native_inv (on_completion c s)"
proof -
  assume inv: "native_inv s"
  have step: "native_inv (s\<lparr>inflight := (inflight s)(t := None), completed := (completed s)(k \<mapsto> r)\<rparr>)"
    if "inflight s t = Some k" for t k r
    using inv that unfolding native_inv_def
    by (auto split: if_splits)
  show ?thesis
    using inv step find_packet_Some
    by (auto simp: on_completion_def split: option.splits)
qed

lemma deliver_inv: "native_inv s \<Longrightarrow> native_inv (deliver cs s)"
  unfolding deliver_def by (induction cs arbitrary: s) (simp_all add: on_completion_inv)

lemma on_completion_frame:
  "connected (on_completion c s) = connected s" "has_client (on_completion c s) = has_client s"
  "next_ctx (on_completion c s) = next_ctx s" "next_tag (on_completion c s) = next_tag s"
  by (auto simp: on_completion_def split: option.splits)

lemma deliver_frame:
  "connected (deliver cs s) = connected s" "has_client (deliver cs s) = has_client s"
  "next_ctx (deliver cs s) = next_ctx s" "next_tag (deliver cs s) = next_tag s"
  unfolding deliver_def by (induction cs arbitrary: s) (simp_all add: on_completion_frame)

lemma native_connect_inv: "native_inv s \<Longrightarrow> native_inv (snd (native_connect st s))"
  by (simp add: native_connect_def native_inv_def Let_def)

lemma native_disconnect_inv: "native_inv s \<Longrightarrow> native_inv (native_disconnect cs s)"
  using deliver_inv [of s cs]
  by (simp add: native_disconnect_def Let_def) (auto simp: native_inv_def)

lemma register_inv:
  assumes "native_inv s" and "inflight s tag = None" and "tag \<in> tags"
  shows "native_inv (register_request tag s)"
proof -
  have "completed s (next_ctx s) = None" "\<And>t. inflight s t \<noteq> Some (next_ctx s)"
    using assms(1) by (auto simp: native_inv_def)
  then show ?thesis
    using assms unfolding native_inv_def register_request_def
    by (auto simp: less_Suc_eq split: if_splits)
qed

lemma await_inv: "native_inv s \<Longrightarrow> native_inv (snd (await_result ctx s))"
  by (auto simp: await_result_def native_inv_def split: option.splits)

lemma native_submit_inv:
  assumes "native_inv s" and "native_submit st cs s = Some (r, s')"
  shows "native_inv s'"
proof (cases "connected s \<and> has_client s")
  case False
  with assms show ?thesis by (auto simp: native_submit_def)
next
  case True
  then obtain tag where tag: "free_tag (inflight s) (start_tag (next_tag s)) = Some tag"
    using assms(2) by (cases "free_tag (inflight s) (start_tag (next_tag s))") (auto simp: native_submit_def)
  with free_tag_sound start_tag_in have "inflight s tag = None" "tag \<in> tags" by blast+
  with assms(1) have inv1: "native_inv (register_request tag s)" by (rule register_inv)
  then have "native_inv ((register_request tag s)\<lparr>inflight := (inflight (register_request tag s))(tag := None)\<rparr>)"
    unfolding native_inv_def by (auto split: if_splits)
  moreover have "native_inv (snd (await_result (next_ctx s) (deliver cs (register_request tag s))))"
    by (intro await_inv deliver_inv inv1)
  ultimately show ?thesis
    using assms(2) True tag by (auto simp: native_submit_def Let_def split: if_splits prod.splits)
qed

subsection \<open>Which completion answers a request\<close>

text \<open>
  What the library promises: it completes packets that were submitted, each at most
  once, with the tag and the address that the packet has.
\<close>

definition honest :: "native_client \<Rightarrow> completion list \<Rightarrow> bool" where
  "honest s cs \<longleftrightarrow> (\<forall>c\<in>set cs. inflight s (c_tag c) = Some (c_packet c)) \<and> distinct (map c_packet cs)"

lemma honest_step:
  assumes "native_inv s" and "honest s (c # cs)"
  shows "on_completion c s = s\<lparr>inflight := (inflight s)(c_tag c := None),
      completed := (completed s)(c_packet c \<mapsto> completion_result c)\<rparr>"
    and "honest (on_completion c s) cs"
proof -
  show eq: "on_completion c s = s\<lparr>inflight := (inflight s)(c_tag c := None),
      completed := (completed s)(c_packet c \<mapsto> completion_result c)\<rparr>"
    using assms(2) by (simp add: on_completion_def honest_def)
  have "c_tag d \<noteq> c_tag c" if "d \<in> set cs" for d
    using assms that unfolding honest_def by (metis distinct.simps(2) image_eqI list.map(2) list.set_intros option.inject set_map)
  then show "honest (on_completion c s) cs"
    using assms(2) by (auto simp: eq honest_def)
qed

lemma deliver_honest:
  assumes "native_inv s" and "honest s cs"
  shows "completed (deliver cs s) ctx =
      (case find (\<lambda>c. c_packet c = ctx) cs of Some c \<Rightarrow> Some (completion_result c) | None \<Rightarrow> completed s ctx)"
    and "inflight (deliver cs s) = inflight s |` (- c_tag ` set cs)"
proof -
  have "completed (deliver cs s) ctx =
      (case find (\<lambda>c. c_packet c = ctx) cs of Some c \<Rightarrow> Some (completion_result c) | None \<Rightarrow> completed s ctx)
    \<and> inflight (deliver cs s) = inflight s |` (- c_tag ` set cs)"
    using assms
  proof (induction cs arbitrary: s)
    case Nil
    then show ?case by (simp add: deliver_def restrict_map_def)
  next
    case (Cons c cs)
    note step = honest_step [OF Cons.prems]
    have ih: "completed (deliver cs (on_completion c s)) ctx =
        (case find (\<lambda>c. c_packet c = ctx) cs of Some c \<Rightarrow> Some (completion_result c)
         | None \<Rightarrow> completed (on_completion c s) ctx)"
      "inflight (deliver cs (on_completion c s)) = inflight (on_completion c s) |` (- c_tag ` set cs)"
      using Cons.IH [OF on_completion_inv [OF Cons.prems(1)] step(2)] by blast+
    have "find (\<lambda>d. d = c_packet c) (map c_packet cs) = None"
      using Cons.prems(2) by (auto simp: honest_def find_None_iff) (metis image_eqI)
    then have "find (\<lambda>d. c_packet d = c_packet c) cs = None"
      by (auto simp: find_None_iff)
    moreover have "deliver (c # cs) s = deliver cs (on_completion c s)" by (simp add: deliver_def)
    moreover have "completed (on_completion c s) ctx
        = (if ctx = c_packet c then Some (completion_result c) else completed s ctx)"
      "inflight (on_completion c s) = (inflight s)(c_tag c := None)"
      by (simp_all add: step(1))
    moreover have "(inflight s)(c_tag c := None) |` (- c_tag ` set cs) = inflight s |` (- c_tag ` set (c # cs))"
      by (auto simp: restrict_map_def)
    ultimately show ?case
      using ih by (auto split: option.splits)
  qed
  then show "completed (deliver cs s) ctx =
      (case find (\<lambda>c. c_packet c = ctx) cs of Some c \<Rightarrow> Some (completion_result c) | None \<Rightarrow> completed s ctx)"
    and "inflight (deliver cs s) = inflight s |` (- c_tag ` set cs)" by blast+
qed

subsection \<open>Reachable states\<close>

inductive native_reachable :: "native_client \<Rightarrow> bool" where
  native_start: "native_reachable init_native"
| native_connects: "native_reachable s \<Longrightarrow> native_reachable (snd (native_connect st s))"
| native_submits: "native_reachable s \<Longrightarrow> native_submit st cs s = Some (r, t) \<Longrightarrow> native_reachable t"
| native_completes: "native_reachable s \<Longrightarrow> native_reachable (on_completion c s)"
| native_disconnects: "native_reachable s \<Longrightarrow> native_reachable (native_disconnect cs s)"

lemma native_reachable_inv: "native_reachable s \<Longrightarrow> native_inv s"
  by (induction rule: native_reachable.induct)
     (blast intro: native_inv_init native_connect_inv native_submit_inv on_completion_inv
       native_disconnect_inv)+

subsection \<open>Properties\<close>


definition one_pending :: native_client where
  "one_pending = snd (the (native_submit 0 [] (snd (native_connect 0 init_native))))"

lemma connected_start:
  "connected (snd (native_connect 0 init_native)) \<and> has_client (snd (native_connect 0 init_native)) \<and>
   inflight (snd (native_connect 0 init_native)) = Map.empty \<and>
   completed (snd (native_connect 0 init_native)) = Map.empty \<and>
   next_tag (snd (native_connect 0 init_native)) = 1 \<and> next_ctx (snd (native_connect 0 init_native)) = 0"
  by (simp add: native_connect_def init_native_def)

lemma one_pending_eq:
  "native_submit 0 [] (snd (native_connect 0 init_native))
     = Some (Inr \<lparr>nr_status = - 2, data_size = 0, nr_data = None\<rparr>, one_pending)"
  "inflight one_pending = [1 \<mapsto> 0]"
  using connected_start
  by (simp_all add: one_pending_def native_submit_def free_tag.simps start_tag_def register_request_def
      deliver_def await_result_def Let_def)




text \<open>Requests that are never completed, one after the other.\<close>

definition silent_request :: "native_client \<Rightarrow> native_client" where
  "silent_request s = snd (the (native_submit 0 [] s))"

lemma card_tags: "card tags = 65535" "finite tags"
  by (simp_all add: tags_def)

lemma native_submit_hangs_iff:
  assumes "connected s" and "has_client s"
  shows "native_submit st cs s = None \<longleftrightarrow> (\<forall>t\<in>tags. inflight s t \<noteq> None)"
proof -
  have "native_submit st cs s = None \<longleftrightarrow> free_tag (inflight s) (start_tag (next_tag s)) = None"
    using assms by (auto simp: native_submit_def Let_def split: option.splits prod.splits)
  with free_tag_Some_iff [OF start_tag_in] show ?thesis by (metis option.exhaust option.discI)
qed

lemma silent_request_step:
  assumes "native_inv s" "connected s" "has_client s" "card (dom (inflight s)) < 65535"
  shows "native_inv (silent_request s) \<and> connected (silent_request s) \<and> has_client (silent_request s) \<and>
    card (dom (inflight (silent_request s))) = Suc (card (dom (inflight s)))"
proof -
  have sub: "dom (inflight s) \<subseteq> tags" using assms(1) by (simp add: native_inv_def)
  have "\<exists>t\<in>tags. inflight s t = None"
  proof (rule ccontr)
    assume "\<not> (\<exists>t\<in>tags. inflight s t = None)"
    then have "tags \<subseteq> dom (inflight s)" by auto
    with sub have "dom (inflight s) = tags" by (rule subset_antisym)
    with assms(4) card_tags(1) show False by simp
  qed
  then obtain tag where tag: "free_tag (inflight s) (start_tag (next_tag s)) = Some tag"
    using free_tag_Some_iff [OF start_tag_in] by blast
  then have free: "inflight s tag = None" "tag \<in> tags" using free_tag_sound start_tag_in by blast+
  have "completed s (next_ctx s) = None" using assms(1) by (auto simp: native_inv_def)
  then have "native_submit 0 [] s
      = Some (Inr \<lparr>nr_status = - 2, data_size = 0, nr_data = None\<rparr>, register_request tag s)"
    using assms(2,3) tag
    by (simp add: native_submit_def deliver_def await_result_def register_request_def Let_def)
  then have "silent_request s = register_request tag s" by (simp add: silent_request_def)
  moreover have "finite (dom (inflight s))" using sub card_tags(2) by (rule finite_subset)
  moreover have "tag \<notin> dom (inflight s)" using free(1) by auto
  ultimately show ?thesis
    using register_inv [OF assms(1) free] assms(2,3) by (simp add: register_request_def)
qed

text \<open>C30: Requests that time out keep their tags for ever: after 65535 requests whose
  completions never arrive, the search for a free tag in the next \<open>submit\<close> does not
  end, and it is holding the client lock.\<close>

theorem lost_completions_wedge_the_client:
  "native_submit st cs ((silent_request ^^ 65535) (snd (native_connect 0 init_native))) = None"
proof -
  let ?s = "\<lambda>n. (silent_request ^^ n) (snd (native_connect 0 init_native))"
  have "n \<le> 65535 \<Longrightarrow> native_inv (?s n) \<and> connected (?s n) \<and> has_client (?s n) \<and> card (dom (inflight (?s n))) = n" for n
  proof (induction n)
    case 0
    then show ?case using connected_start native_connect_inv [OF native_inv_init] by simp
  next
    case (Suc n)
    with silent_request_step [of "?s n"] show ?case by simp
  qed
  from this [of 65535] have s: "native_inv (?s 65535)" "connected (?s 65535)" "has_client (?s 65535)"
      "card (dom (inflight (?s 65535))) = 65535" by (simp_all only: order_refl)
  have "dom (inflight (?s 65535)) \<subseteq> tags" using s(1) by (simp only: native_inv_def)
  then have "dom (inflight (?s 65535)) = tags"
    using s(4) card_tags by (intro card_subset_eq) (simp_all only: card_tags)
  then have "\<forall>t\<in>tags. inflight (?s 65535) t \<noteq> None" by blast
  then show ?thesis by (simp only: native_submit_hangs_iff [OF s(2,3)])
qed

end
