(* ===== verification/Native_Ops.thy ===== *)
theory Native_Ops
  imports Wire_Format Native_Client Sdk_Errors
begin

section \<open>Native operations: requests and response parsing\<close>

text \<open>
  The high-level operations of \<open>NativeClient\<close> in \<open>archerdb/_native.py\<close>.  The
  blocking \<open>submit\<close> is a parameter of type \<open>transport\<close>, which threads a state of its
  own; serializing events also reads the clock, so an operation on events threads
  the number of the next clock reading too.
\<close>

type_synonym 's transport =
  "geo_operation \<Rightarrow> bytes \<Rightarrow> 's \<Rightarrow> (py_exn, native_result) result \<times> 's"

type_synonym ns_clock = "nat \<Rightarrow> int"

text \<open>The status tests that every write operation makes, with the texts of their errors.\<close>

definition check_write_status :: "string \<Rightarrow> native_result \<Rightarrow> (sdk_exn, native_result) result" where
  "check_write_status name r =
     (if nr_status r < 0
      then Inl (Builtin (RuntimeError
        (name @ '': connection/timeout error (status='' @ show_int (nr_status r) @ '')'')))
      else if nr_status r \<noteq> packet_status_code PACKET_OK
      then Inl (Builtin (RuntimeError
        (name @ '': server error (status='' @ show_int (nr_status r) @ '')'')))
      else Inr r)"

definition status_failed :: "native_result \<Rightarrow> bool" where
  "status_failed r \<longleftrightarrow> nr_status r < 0 \<or> nr_status r \<noteq> packet_status_code PACKET_OK"

text \<open>\<open>result.data\<close> is truthy: present and not empty.\<close>

definition payload :: "native_result \<Rightarrow> bytes" where
  "payload r = (case nr_data r of Some d \<Rightarrow> d | None \<Rightarrow> [])"

definition lift_builtin :: "(py_exn, 'a) result \<Rightarrow> (sdk_exn, 'a) result" where
  "lift_builtin r = (case r of Inl e \<Rightarrow> Inl (Builtin e) | Inr x \<Rightarrow> Inr x)"

lemma lift_builtin_simps [simp]:
  "lift_builtin (Inl e) = Inl (Builtin e)" "lift_builtin (Inr x) = Inr x"
  by (simp_all add: lift_builtin_def)

subsection \<open>Writes\<close>

fun events_to_wire :: "ns_clock \<Rightarrow> nat \<Rightarrow> geo_event list \<Rightarrow> bytes \<times> nat" where
  "events_to_wire now t [] = ([], t)"
| "events_to_wire now t (e # es) =
     (case geo_event_to_wire now t e of (b, t1) \<Rightarrow>
      (case events_to_wire now t1 es of (bs, t2) \<Rightarrow> (b @ bs, t2)))"

text \<open>One eight-byte row: the index and the result code.\<close>

definition row_index :: "bytes \<Rightarrow> nat \<Rightarrow> int" where
  "row_index data i = le_int (slice (i * 8) (i * 8 + 4) data)"

definition row_code :: "bytes \<Rightarrow> nat \<Rightarrow> int" where
  "row_code data i = le_int (slice (i * 8 + 4) (i * 8 + 8) data)"

definition parse_insert_results :: "native_result \<Rightarrow> (int \<times> insert_result) list" where
  "parse_insert_results r =
     (if 0 < data_size r \<and> payload r \<noteq> []
      then filter (\<lambda>p. snd p \<noteq> INSERT_OK)
        (map (\<lambda>i. (row_index (payload r) i,
            case enum_of_code insert_results insert_result_code (row_code (payload r) i) of
              Inr e \<Rightarrow> e | Inl _ \<Rightarrow> RESERVED_FIELD)) [0..<data_size r div 8])
      else [])"

definition parse_delete_results :: "native_result \<Rightarrow> (int \<times> delete_result_code) list" where
  "parse_delete_results r =
     (if 0 < data_size r \<and> payload r \<noteq> []
      then filter (\<lambda>p. snd p \<noteq> DELETE_OK)
        (map (\<lambda>i. (row_index (payload r) i,
            case enum_of_code delete_results delete_code (row_code (payload r) i) of
              Inr e \<Rightarrow> e | Inl _ \<Rightarrow> DELETE_ENTITY_NOT_FOUND)) [0..<data_size r div 8])
      else [])"

definition native_insert_events ::
    "'s transport \<Rightarrow> ns_clock \<Rightarrow> geo_event list \<Rightarrow> 's \<times> nat \<Rightarrow>
     (sdk_exn, (int \<times> insert_result) list) result \<times> 's \<times> nat" where
  "native_insert_events submit now es st =
     (if es = [] then (Inr [], st)
      else
        case st of (s, t) \<Rightarrow>
        case events_to_wire now t es of (wire, t) \<Rightarrow>
        case submit INSERT_EVENTS wire s of (r, s) \<Rightarrow>
          (bindE (lift_builtin r) (\<lambda>r. bindE (check_write_status ''insert_events'' r) (\<lambda>r.
             Inr (parse_insert_results r))), s, t))"

definition native_upsert_events ::
    "'s transport \<Rightarrow> ns_clock \<Rightarrow> geo_event list \<Rightarrow> 's \<times> nat \<Rightarrow>
     (sdk_exn, (int \<times> insert_result) list) result \<times> 's \<times> nat" where
  "native_upsert_events submit now es st =
     (if es = [] then (Inr [], st)
      else
        case st of (s, t) \<Rightarrow>
        case events_to_wire now t es of (wire, t) \<Rightarrow>
        case submit UPSERT_EVENTS wire s of (r, s) \<Rightarrow>
          (bindE (lift_builtin r) (\<lambda>r. bindE (check_write_status ''upsert_events'' r) (\<lambda>r.
             Inr (parse_insert_results r))), s, t))"

definition ids_to_wire :: "int list \<Rightarrow> (py_exn, bytes) result" where
  "ids_to_wire ids = bindE (mapE (to_bytes_little 16) ids) (\<lambda>bs. Inr (concat bs))"

definition native_delete_entities ::
    "'s transport \<Rightarrow> int list \<Rightarrow> 's \<Rightarrow> (sdk_exn, (int \<times> delete_result_code) list) result \<times> 's" where
  "native_delete_entities submit ids s =
     (if ids = [] then (Inr [], s)
      else
        case ids_to_wire ids of
          Inl e \<Rightarrow> (Inl (Builtin e), s)
        | Inr wire \<Rightarrow>
            (case submit DELETE_ENTITIES wire s of (r, s) \<Rightarrow>
               (bindE (lift_builtin r) (\<lambda>r. bindE (check_write_status ''delete_entities'' r) (\<lambda>r.
                  Inr (parse_delete_results r))), s)))"

subsection \<open>Queries\<close>

definition interpret_query_uuid :: "native_result \<Rightarrow> (sdk_exn, geo_event list) result" where
  "interpret_query_uuid r =
     (if status_failed r then Inr []
      else if data_size r < 16 \<or> payload r = [] then Inr []
      else
        let status = uint (payload r ! 0) in
        if status = 0
        then if data_size r < 16 + 128 then Inr []
             else Inr [wire_to_geo_event (slice 16 (16 + 128) (payload r))]
        else if status = state_error_code STATE_ENTITY_NOT_FOUND then Inr []
        else if status = state_error_code STATE_ENTITY_EXPIRED
        then Inl (state_exception STATE_ENTITY_EXPIRED)
        else Inl (Distributed status (''Query UUID failed with status '' @ show_int status) False))"

definition native_query_uuid ::
    "'s transport \<Rightarrow> int \<Rightarrow> 's \<Rightarrow> (sdk_exn, geo_event list) result \<times> 's" where
  "native_query_uuid submit entity s =
     (case submit QUERY_UUID (query_uuid_filter_to_wire entity) s of
        (r, s) \<Rightarrow> (bindE (lift_builtin r) interpret_query_uuid, s))"

text \<open>
  The two reading loops of \<open>query_uuid_batch\<close>: an element that would run past the
  payload is skipped without moving the offset.
\<close>

fun read_indices :: "nat \<Rightarrow> nat \<Rightarrow> nat \<Rightarrow> bytes \<Rightarrow> int list" where
  "read_indices 0 offset sz data = []"
| "read_indices (Suc n) offset sz data =
     (if offset + 2 \<le> sz
      then le_int (slice offset (offset + 2) data) # read_indices n (offset + 2) sz data
      else read_indices n offset sz data)"

fun read_batch_events :: "nat \<Rightarrow> nat \<Rightarrow> nat \<Rightarrow> bytes \<Rightarrow> geo_event list" where
  "read_batch_events 0 offset sz data = []"
| "read_batch_events (Suc n) offset sz data =
     (if offset + 128 \<le> sz
      then wire_to_geo_event (slice offset (offset + 128) data) # read_batch_events n (offset + 128) sz data
      else read_batch_events n offset sz data)"

text \<open>\<open>(n + 15) & ~15\<close>\<close>

definition align16 :: "nat \<Rightarrow> nat" where
  "align16 n = (n + 15) div 16 * 16"

definition all_not_found :: "nat \<Rightarrow> query_uuid_batch_result" where
  "all_not_found count =
     \<lparr>found_count = 0, not_found_count = int count, not_found_indices = map int [0..<count], batch_events = []\<rparr>"

definition interpret_uuid_batch :: "nat \<Rightarrow> native_result \<Rightarrow> query_uuid_batch_result" where
  "interpret_uuid_batch count r =
     (if status_failed r then all_not_found count
      else if data_size r < 16 \<or> payload r = [] then all_not_found count
      else
        let data = payload r;
            found = nat (le_int (slice 0 4 data));
            not_found = nat (le_int (slice 4 8 data));
            total = found + not_found;
            events_offset = align16 (16 + total * 2)
        in \<lparr>found_count = int found, not_found_count = int not_found,
            not_found_indices = read_indices not_found 16 (data_size r) data,
            batch_events = read_batch_events found events_offset (data_size r) data\<rparr>)"

definition native_query_uuid_batch ::
    "'s transport \<Rightarrow> int list \<Rightarrow> 's \<Rightarrow> (sdk_exn, query_uuid_batch_result) result \<times> 's" where
  "native_query_uuid_batch submit ids s =
     (let count = length ids in
      if count = 0
      then (Inr \<lparr>found_count = 0, not_found_count = 0, not_found_indices = [], batch_events = []\<rparr>, s)
      else
        let header = le_bytes 4 (int count) @ replicate 12 0 in
        case ids_to_wire ids of
          Inl e \<Rightarrow> (Inl (Builtin e), s)
        | Inr entity_bytes \<Rightarrow>
            (case submit QUERY_UUID_BATCH (header @ entity_bytes) s of
               (r, s) \<Rightarrow> (bindE (lift_builtin r) (\<lambda>r. Inr (interpret_uuid_batch count r)), s)))"

text \<open>The response of the three list queries: a 16-byte header, then events.\<close>

definition interpret_events :: "native_result \<Rightarrow> geo_event list" where
  "interpret_events r =
     (if status_failed r then []
      else if 16 < data_size r \<and> payload r \<noteq> [] then parse_events (drop 16 (payload r)) else [])"

definition native_query_radius ::
    "'s transport \<Rightarrow> query_radius_filter \<Rightarrow> 's \<Rightarrow> (sdk_exn, geo_event list) result \<times> 's" where
  "native_query_radius submit f s =
     (case submit QUERY_RADIUS (query_radius_filter_to_wire f) s of
        (r, s) \<Rightarrow> (bindE (lift_builtin r) (\<lambda>r. Inr (interpret_events r)), s))"

definition native_query_latest ::
    "'s transport \<Rightarrow> query_latest_filter \<Rightarrow> 's \<Rightarrow> (sdk_exn, geo_event list) result \<times> 's" where
  "native_query_latest submit f s =
     (case submit QUERY_LATEST (query_latest_filter_to_wire f) s of
        (r, s) \<Rightarrow> (bindE (lift_builtin r) (\<lambda>r. Inr (interpret_events r)), s))"

definition native_query_polygon ::
    "'s transport \<Rightarrow> query_polygon_filter \<Rightarrow> 's \<Rightarrow> (sdk_exn, geo_event list) result \<times> 's" where
  "native_query_polygon submit f s =
     (case query_polygon_filter_to_wire f of
        Inl e \<Rightarrow> (Inl (Builtin e), s)
      | Inr wire \<Rightarrow>
          (case submit QUERY_POLYGON wire s of
             (r, s) \<Rightarrow> (bindE (lift_builtin r) (\<lambda>r. Inr (interpret_events r)), s)))"

subsection \<open>Administration\<close>

definition pong :: bytes where "pong = [112, 111, 110, 103]"

definition native_ping :: "'s transport \<Rightarrow> 's \<Rightarrow> (sdk_exn, bool) result \<times> 's" where
  "native_ping submit s =
     (case submit ARCHERDB_PING (le_bytes 8 0x676e6970) s of
        (r, s) \<Rightarrow> (bindE (lift_builtin r) (\<lambda>r.
          if status_failed r then Inr False
          else if 4 \<le> data_size r \<and> payload r \<noteq> [] then Inr (slice 0 4 (payload r) = pong)
          else Inr True), s))"

definition interpret_status :: "native_result \<Rightarrow> status_response" where
  "interpret_status r =
     (if status_failed r then empty_status
      else if data_size r < 64 \<or> payload r = [] then empty_status
      else let d = payload r in
        \<lparr>ram_index_count = le_int (slice 0 8 d), ram_index_capacity = le_int (slice 8 16 d),
         ram_index_load_pct = le_int (slice 16 20 d), tombstone_count = le_int (slice 24 32 d),
         ttl_expirations = le_int (slice 32 40 d), deletion_count = le_int (slice 40 48 d)\<rparr>)"

definition native_get_status :: "'s transport \<Rightarrow> 's \<Rightarrow> (sdk_exn, status_response) result \<times> 's" where
  "native_get_status submit s =
     (case submit ARCHERDB_GET_STATUS (le_bytes 8 0) s of
        (r, s) \<Rightarrow> (bindE (lift_builtin r) (\<lambda>r. Inr (interpret_status r)), s))"

definition native_get_topology :: "'s transport \<Rightarrow> 's \<Rightarrow> (sdk_exn, bytes) result \<times> 's" where
  "native_get_topology submit s =
     (case submit GET_TOPOLOGY (le_bytes 8 0) s of
        (r, s) \<Rightarrow> (bindE (lift_builtin r) (\<lambda>r.
          if status_failed r then Inl (Distributed (nr_status r) ''Topology request failed'' False)
          else if data_size r = 0 \<or> payload r = []
          then Inl (Distributed (- 1) ''Empty topology response'' False)
          else Inr (payload r)), s))"

text \<open>The pattern of the three TTL operations, with the two texts and the response parser.\<close>

definition interpret_ttl ::
    "string \<Rightarrow> string \<Rightarrow> (bytes \<Rightarrow> (py_exn, 'a) result) \<Rightarrow> native_result \<Rightarrow> (sdk_exn, 'a) result" where
  "interpret_ttl failed invalid from_bytes r =
     (if status_failed r then Inl (Distributed (nr_status r) failed False)
      else if data_size r < 64 \<or> payload r = [] then Inl (Distributed (- 1) invalid False)
      else lift_builtin (from_bytes (payload r)))"

definition native_ttl_set ::
    "'s transport \<Rightarrow> ttl_set_request \<Rightarrow> 's \<Rightarrow> (sdk_exn, ttl_response) result \<times> 's" where
  "native_ttl_set submit q s =
     (case ttl_set_to_bytes q of
        Inl e \<Rightarrow> (Inl (Builtin e), s)
      | Inr wire \<Rightarrow>
          (case submit TTL_SET wire s of
             (r, s) \<Rightarrow> (bindE (lift_builtin r) (interpret_ttl ''TTL set request failed''
               ''Invalid TTL set response'' ttl_set_response_from_bytes), s)))"

definition native_ttl_extend ::
    "'s transport \<Rightarrow> ttl_extend_request \<Rightarrow> 's \<Rightarrow> (sdk_exn, ttl_response) result \<times> 's" where
  "native_ttl_extend submit q s =
     (case ttl_extend_to_bytes q of
        Inl e \<Rightarrow> (Inl (Builtin e), s)
      | Inr wire \<Rightarrow>
          (case submit TTL_EXTEND wire s of
             (r, s) \<Rightarrow> (bindE (lift_builtin r) (interpret_ttl ''TTL extend request failed''
               ''Invalid TTL extend response'' ttl_extend_response_from_bytes), s)))"

definition native_ttl_clear ::
    "'s transport \<Rightarrow> ttl_clear_request \<Rightarrow> 's \<Rightarrow> (sdk_exn, ttl_clear_response) result \<times> 's" where
  "native_ttl_clear submit q s =
     (case ttl_clear_to_bytes q of
        Inl e \<Rightarrow> (Inl (Builtin e), s)
      | Inr wire \<Rightarrow>
          (case submit TTL_CLEAR wire s of
             (r, s) \<Rightarrow> (bindE (lift_builtin r) (interpret_ttl ''TTL clear request failed''
               ''Invalid TTL clear response'' ttl_clear_response_from_bytes), s)))"

definition interpret_cleanup :: "native_result \<Rightarrow> int \<times> int" where
  "interpret_cleanup r =
     (if status_failed r then (0, 0)
      else if 16 \<le> data_size r \<and> payload r \<noteq> []
      then (le_int (slice 0 8 (payload r)), le_int (slice 8 16 (payload r)))
      else (0, 0))"

definition native_cleanup_expired ::
    "'s transport \<Rightarrow> int \<Rightarrow> 's \<Rightarrow> (sdk_exn, int \<times> int) result \<times> 's" where
  "native_cleanup_expired submit batch_size s =
     (case pack_uint 4 batch_size of
        Inl e \<Rightarrow> (Inl (Builtin e), s)
      | Inr b \<Rightarrow>
          (case submit CLEANUP_EXPIRED (b @ replicate 60 0) s of
             (r, s) \<Rightarrow> (bindE (lift_builtin r) (\<lambda>r. Inr (interpret_cleanup r)), s)))"

subsection \<open>Lemmas on the encodings\<close>

fun sent_events :: "ns_clock \<Rightarrow> nat \<Rightarrow> geo_event list \<Rightarrow> geo_event list" where
  "sent_events now t [] = []"
| "sent_events now t (e # es) =
     sent_event now t e # sent_events now (if event_id e = 0 then Suc t else t) es"

lemma events_to_wire_layout:
  "fst (events_to_wire now t es) = concat (map geo_event_layout (sent_events now t es))"
proof (induction es arbitrary: t)
  case Nil
  then show ?case by simp
next
  case (Cons e es)
  obtain bs t2 where "events_to_wire now (if event_id e = 0 then Suc t else t) es = (bs, t2)" by fastforce
  with Cons [of "if event_id e = 0 then Suc t else t"] show ?case by (auto simp: sent_event_layout)
qed

lemma length_sent_events [simp]: "length (sent_events now t es) = length es"
  by (induction es arbitrary: t) simp_all

lemma sent_events_fit: "\<forall>e\<in>set es. event_fits e \<Longrightarrow> \<forall>e\<in>set (sent_events now t es). event_fits e"
  by (induction es arbitrary: t) (simp_all add: sent_event_fits)

text \<open>The rows of a write response, as the server lays them out.\<close>

definition row_layout :: "int \<times> int \<Rightarrow> bytes" where
  "row_layout p = le_bytes 4 (fst p) @ le_bytes 4 (snd p)"

definition read_row :: "bytes \<Rightarrow> int \<times> int" where
  "read_row b = (le_int (slice 0 4 b), le_int (slice 4 8 b))"

interpretation row_codec: fixed_codec row_layout read_row "\<lambda>p. u32 (fst p) \<and> u32 (snd p)" 8
  by unfold_locales
     (simp_all add: row_layout_def read_row_def width_defs slice_fields le_int_le_bytes_id prod_eq_iff)

definition ok_response :: "bytes \<Rightarrow> native_result" where
  "ok_response d = \<lparr>nr_status = 0, data_size = length d, nr_data = (if d = [] then None else Some d)\<rparr>"

lemma ok_response_simps [simp]:
  "nr_status (ok_response d) = 0" "data_size (ok_response d) = length d" "payload (ok_response d) = d"
  "status_failed (ok_response d) = False"
  by (simp_all add: ok_response_def payload_def status_failed_def)

lemma rows_read:
  assumes "i < length ps" and "\<forall>p\<in>set ps. u32 (fst p) \<and> u32 (snd p)"
  shows "row_index (concat (map row_layout ps)) i = fst (ps ! i)"
    and "row_code (concat (map row_layout ps)) i = snd (ps ! i)"
proof -
  let ?d = "concat (map row_layout ps)"
  have e: "read_row (slice (8 * i) (8 * i + 8) ?d) = ps ! i"
    using row_codec.array_element [of i ps "[]"] assms by simp
  have "slice 0 4 (slice (8 * i) (8 * i + 8) ?d) = slice (i * 8) (i * 8 + 4) ?d"
      "slice 4 8 (slice (8 * i) (8 * i + 8) ?d) = slice (i * 8 + 4) (i * 8 + 8) ?d"
    by (simp_all add: slice_slice mult.commute)
  then show "row_index ?d i = fst (ps ! i)" and "row_code ?d i = snd (ps ! i)"
    using e by (simp_all add: read_row_def row_index_def row_code_def prod_eq_iff)
qed

lemma map_rows:
  assumes "\<forall>p\<in>set ps. u32 (fst p) \<and> u32 (snd p)"
  shows "map (\<lambda>i. (row_index (concat (map row_layout ps)) i, f (row_code (concat (map row_layout ps)) i)))
      [0..<length ps] = map (\<lambda>p. (fst p, f (snd p))) ps"
  using rows_read [OF _ assms] by (intro nth_equalityI) simp_all

definition decode_insert :: "int \<Rightarrow> insert_result" where
  "decode_insert c = (case enum_of_code insert_results insert_result_code c of Inr e \<Rightarrow> e | Inl _ \<Rightarrow> RESERVED_FIELD)"

lemma parse_insert_results_rows:
  assumes "\<forall>p\<in>set ps. u32 (fst p) \<and> u32 (snd p)"
  shows "parse_insert_results (ok_response (concat (map row_layout ps))) =
    filter (\<lambda>p. snd p \<noteq> INSERT_OK) (map (\<lambda>p. (fst p, decode_insert (snd p))) ps)"
proof (cases "ps = []")
  case True
  then show ?thesis by (simp add: parse_insert_results_def)
next
  case False
  let ?d = "concat (map row_layout ps)"
  have len: "length ?d = 8 * length ps" by (rule row_codec.length_array)
  with False have "?d \<noteq> []" by (cases ?d) auto
  with len show ?thesis
    using map_rows [OF assms, of decode_insert]
    by (simp add: parse_insert_results_def decode_insert_def)
qed

text \<open>The response of a batch lookup in the documented layout.\<close>

definition batch_layout :: "int list \<Rightarrow> geo_event list \<Rightarrow> bytes" where
  "batch_layout missing found =
     (let used = 16 + 2 * length missing;
          offset = align16 (16 + 2 * (length found + length missing))
      in le_bytes 4 (int (length found)) @ le_bytes 4 (int (length missing)) @ replicate 8 0 @
         concat (map (le_bytes 2) missing) @ replicate (offset - used) 0 @
         concat (map geo_event_layout found))"

interpretation u16_codec: fixed_codec "le_bytes 2" le_int "\<lambda>k. 0 \<le> k \<and> k < 2 ^ 16" 2
  by unfold_locales (auto simp: le_int_le_bytes)

lemma read_indices_layout:
  assumes "\<forall>k\<in>set ks. 0 \<le> k \<and> k < 2 ^ 16" and "length pre = off"
    and "off + 2 * length ks \<le> sz"
  shows "read_indices (length ks) off sz (pre @ concat (map (le_bytes 2) ks) @ rest) = ks"
  using assms
proof (induction ks arbitrary: pre off)
  case Nil
  then show ?case by simp
next
  case (Cons k ks)
  have "slice off (off + 2) (pre @ concat (map (le_bytes 2) (k # ks)) @ rest) = le_bytes 2 k"
    using Cons.prems(2) by (simp add: slice_append_right slice_prefix del: le_bytes.simps)
  moreover have "read_indices (length ks) (off + 2) sz ((pre @ le_bytes 2 k) @ concat (map (le_bytes 2) ks) @ rest) = ks"
    using Cons.prems by (intro Cons.IH) simp_all
  ultimately show ?case using Cons.prems by (simp add: le_int_le_bytes_id)
qed

lemma read_batch_events_layout:
  assumes "\<forall>e\<in>set es. event_fits e" and "length pre = off" and "off + 128 * length es \<le> sz"
  shows "read_batch_events (length es) off sz (pre @ concat (map geo_event_layout es) @ rest) = es"
  using assms
proof (induction es arbitrary: pre off)
  case Nil
  then show ?case by simp
next
  case (Cons e es)
  have "slice off (off + 128) (pre @ concat (map geo_event_layout (e # es)) @ rest) = geo_event_layout e"
    using Cons.prems(2) by (simp add: slice_append_right slice_prefix)
  moreover have "read_batch_events (length es) (off + 128) sz
      ((pre @ geo_event_layout e) @ concat (map geo_event_layout es) @ rest) = es"
    using Cons.prems by (intro Cons.IH) simp_all
  ultimately show ?case using Cons.prems by (simp add: event_roundtrip)
qed

lemma interpret_uuid_batch_layout:
  assumes "\<forall>k\<in>set missing. 0 \<le> k \<and> k < 2 ^ 16" "\<forall>e\<in>set found. event_fits e"
    and "length found < 2 ^ 32" "length missing < 2 ^ 32"
  shows "interpret_uuid_batch count (ok_response (batch_layout missing found)) =
    \<lparr>found_count = int (length found), not_found_count = int (length missing),
     not_found_indices = missing, batch_events = found\<rparr>"
proof -
  let ?off = "align16 (16 + 2 * (length found + length missing))"
  let ?hd = "le_bytes 4 (int (length found)) @ le_bytes 4 (int (length missing)) @ replicate 8 (0 :: byte)"
  let ?idx = "concat (map (le_bytes 2) missing)"
  let ?gap = "replicate (?off - (16 + 2 * length missing)) (0 :: byte)"
  let ?ev = "concat (map geo_event_layout found)"
  let ?d = "batch_layout missing found"
  have d: "?d = ?hd @ ?idx @ ?gap @ ?ev" by (simp add: batch_layout_def Let_def)
  have off: "16 + 2 * length missing \<le> ?off" by (simp add: align16_def)
  have lidx: "length ?idx = 2 * length missing" by (rule u16_codec.length_array)
  have lev: "length ?ev = 128 * length found" by (rule geo_event_codec.length_array)
  have len: "length ?d = ?off + 128 * length found" using off lidx lev by (simp add: d)
  have h: "le_int (slice 0 4 ?d) = int (length found)" "le_int (slice 4 8 ?d) = int (length missing)"
    using assms(3,4) unfolding d by (simp_all add: slice_fields le_int_le_bytes_id)
  have "read_indices (length missing) 16 (length ?d) (?hd @ ?idx @ (?gap @ ?ev)) = missing"
    using assms(1) off len by (intro read_indices_layout) simp_all
  moreover have "read_batch_events (length found) ?off (length ?d) ((?hd @ ?idx @ ?gap) @ ?ev @ []) = found"
    using assms(2) off lidx len by (intro read_batch_events_layout) simp_all
  ultimately have r: "read_indices (length missing) 16 (length ?d) ?d = missing"
      "read_batch_events (length found) ?off (length ?d) ?d = found"
    by (simp_all add: d)
  have ne: "?d \<noteq> []" "\<not> length ?d < 16" using len off by auto
  have eo: "align16 (16 + (length found + length missing) * 2) = ?off" by (simp add: mult.commute)
  show ?thesis
    using ne r by (simp add: interpret_uuid_batch_def h eo Let_def mult.commute [of _ 2])
qed

subsection \<open>Properties\<close>

text \<open>What the server reads from an insert request is the caller's batch: the payload is
  128 bytes per event, in order, and decodes to the events given, with fresh ids only
  where the caller left them zero; nothing is dropped or reordered.\<close>

theorem insert_request_carries_events:
  assumes "\<forall>e\<in>set es. event_fits e"
  shows "parse_events (fst (events_to_wire now t es)) = sent_events now t es \<and>
    length (fst (events_to_wire now t es)) = 128 * length es"
  using parse_events_layout [OF sent_events_fit [OF assms], of "[]"]
    geo_event_codec.length_array [of "sent_events now t es"]
  by (simp add: events_to_wire_layout)

theorem insert_request_carries_events_witness:
  "parse_events (fst (events_to_wire int 9 [sample_event, sample_event]))
     = [sent_event int 9 sample_event, sent_event int 10 sample_event]"
  using insert_request_carries_events [of "[sample_event, sample_event]" int 9]
  by (simp add: event_fits_def sample_event_def)

text \<open>From a write response only the failed rows are returned, in order and with their
  indices; a code that the enum does not know is reported as \<open>RESERVED_FIELD\<close> and
  never silently dropped.\<close>

theorem insert_errors_are_reported:
  assumes "\<forall>p\<in>set ps. u32 (fst p) \<and> u32 (snd p)"
  shows "parse_insert_results (ok_response (concat (map row_layout ps))) =
      filter (\<lambda>p. snd p \<noteq> INSERT_OK) (map (\<lambda>p. (fst p, decode_insert (snd p))) ps) \<and>
    (parse_insert_results (ok_response (concat (map row_layout ps))) = [] \<longleftrightarrow> (\<forall>p\<in>set ps. snd p = 0))"
proof -
  have "decode_insert c = INSERT_OK \<longleftrightarrow> c = 0" for c
  proof
    assume h: "decode_insert c = INSERT_OK"
    show "c = 0"
    proof (cases "enum_of_code insert_results insert_result_code c")
      case (Inl e)
      with h show ?thesis by (simp add: decode_insert_def)
    next
      case (Inr x)
      with h have "x = INSERT_OK" by (simp add: decode_insert_def)
      with Inr show ?thesis by (simp add: insert_enum.of_code_Inr_iff)
    qed
  next
    assume "c = 0"
    then have "c = insert_result_code INSERT_OK" by simp
    then show "decode_insert c = INSERT_OK"
      by (simp only: decode_insert_def insert_enum.of_code_code) simp
  qed
  then show ?thesis
    using parse_insert_results_rows [OF assms] by (auto simp: filter_empty_conv)
qed

theorem insert_errors_are_reported_witness:
  "parse_insert_results (ok_response (concat (map row_layout [(0, 0), (4, 9), (6, 99)])))
     = [(4, LAT_OUT_OF_RANGE), (6, RESERVED_FIELD)]"
  using insert_errors_are_reported [of "[(0, 0), (4, 9), (6, 99)]"]
  by (simp add: width_defs decode_insert_def enum_of_code_def insert_results_def)

text \<open>Parsing a batch lookup response in the documented layout (16-byte header, 16-bit
  missing indices, padding to the alignment computed from the total count, events)
  returns exactly its missing indices and events.\<close>

theorem uuid_batch_response_roundtrip:
  assumes "\<forall>k\<in>set missing. 0 \<le> k \<and> k < 2 ^ 16" "\<forall>e\<in>set found. event_fits e"
    and "length found < 2 ^ 32" "length missing < 2 ^ 32"
  shows "interpret_uuid_batch count (ok_response (batch_layout missing found)) =
    \<lparr>found_count = int (length found), not_found_count = int (length missing),
     not_found_indices = missing, batch_events = found\<rparr>"
  using assms by (rule interpret_uuid_batch_layout)

theorem uuid_batch_response_roundtrip_witness:
  "interpret_uuid_batch 3 (ok_response (batch_layout [1, 2] [sample_event])) =
    \<lparr>found_count = 1, not_found_count = 2, not_found_indices = [1, 2], batch_events = [sample_event]\<rparr>"
  using uuid_batch_response_roundtrip [of "[1, 2]" "[sample_event]" 3]
  by (simp add: event_fits_def sample_event_def)

subsection \<open>Types of what is read\<close>

lemma le_int_slice: "0 \<le> le_int (slice i (i + n) b) \<and> le_int (slice i (i + n) b) < 256 ^ n"
proof -
  have "(256 :: int) ^ length (slice i (i + n) b) \<le> 256 ^ n" by (intro power_increasing) simp_all
  with le_int_bounds [of "slice i (i + n) b"] show ?thesis by linarith
qed

lemma le_sint_slice:
  assumes "0 < n"
  shows "- (256 ^ n) \<le> 2 * le_sint (slice i (i + n) b) \<and> 2 * le_sint (slice i (i + n) b) < 256 ^ n"
proof -
  have "(256 :: int) ^ length (slice i (i + n) b) \<le> 256 ^ n" by (intro power_increasing) simp_all
  moreover have "(0 :: int) < 256 ^ n" "le_sint [] = 0" by (simp_all add: le_sint_def)
  moreover note le_sint_bounds [of "slice i (i + n) b"]
  ultimately show ?thesis by (elim disjE) (linarith, simp only:, simp)
qed

lemma c_uint128_to_python_bounds: "0 \<le> c_uint128_to_python bs \<and> c_uint128_to_python bs < 2 ^ 128"
proof -
  have lo: "0 \<le> le_int (slice 0 8 bs)" "le_int (slice 0 8 bs) < 2 ^ 64"
    and hi: "0 \<le> le_int (slice 8 16 bs)" "le_int (slice 8 16 bs) < 2 ^ 64"
    using le_int_slice [of 0 8 bs] le_int_slice [of 8 8 bs] by simp_all
  then have "c_uint128_to_python bs = 2 ^ 64 * le_int (slice 8 16 bs) + le_int (slice 0 8 bs)"
    by (simp add: c_uint128_to_python_def push_or_add)
  with lo hi show ?thesis by simp
qed

lemma wire_to_geo_event_fits: "event_fits (wire_to_geo_event b)"
  using le_sint_slice [of 8 64 b] le_sint_slice [of 8 72 b] le_int_slice [of 80 8 b] le_int_slice [of 88 8 b]
    le_sint_slice [of 4 96 b] le_int_slice [of 100 4 b] le_int_slice [of 104 4 b] le_int_slice [of 108 4 b]
    le_int_slice [of 112 2 b] le_int_slice [of 114 2 b]
    c_uint128_to_python_bounds
  by (simp add: event_fits_def wire_to_geo_event_def)


end
