(* ===== verification/Batch.thy ===== *)
theory Batch
  imports Geo_Types Sdk_Errors
begin

section \<open>Batches: builders, chunked submission and index translation\<close>

text \<open>
  \<open>GeoEventBatch\<close>, \<open>DeleteEntityBatch\<close>, \<open>_offset_batch_errors\<close>,
  \<open>_submit_multi_batch_sync\<close> and \<open>split_batch\<close> of \<open>archerdb/client.py\<close>.  The
  client's \<open>_submit_batch\<close> is a parameter that threads a state.  The asynchronous
  classes and functions are the same code with \<open>await\<close>.
\<close>

subsection \<open>Errors of a batch\<close>

text \<open>The elements of the error lists, which Python tells apart by \<open>isinstance\<close>.\<close>

datatype batch_error =
    InsertError insert_events_error
  | DeleteError delete_entities_error
  | OtherError string

fun offset_error :: "int \<Rightarrow> batch_error \<Rightarrow> batch_error" where
  "offset_error off (InsertError e) = InsertError \<lparr>ie_index = ie_index e + off, ie_result = ie_result e\<rparr>"
| "offset_error off (DeleteError e) = DeleteError \<lparr>de_index = de_index e + off, de_result = de_result e\<rparr>"
| "offset_error off (OtherError m) = OtherError m"

definition offset_batch_errors :: "batch_error list \<Rightarrow> int \<Rightarrow> batch_error list" where
  "offset_batch_errors errors off = (if off = 0 then errors else map (offset_error off) errors)"

lemma offset_error_0 [simp]: "offset_error 0 e = e"
  by (cases e) simp_all

lemma offset_error_add [simp]: "offset_error a (offset_error b e) = offset_error (a + b) e"
  by (cases e) simp_all

lemma offset_batch_errors_eq: "offset_batch_errors es off = map (offset_error off) es"
  by (simp add: offset_batch_errors_def map_idI)

subsection \<open>Chunked submission\<close>

type_synonym ('x, 's) submit_fn =
  "geo_operation \<Rightarrow> 'x list \<Rightarrow> 's \<Rightarrow> (sdk_exn, batch_error list) result \<times> 's"

text \<open>The loop over the chunks; \<open>off\<close> is the position of the first one.\<close>

fun submit_chunks ::
    "('x, 's) submit_fn \<Rightarrow> geo_operation \<Rightarrow> nat \<Rightarrow> nat \<Rightarrow> 'x list list \<Rightarrow> batch_error list \<Rightarrow> 's \<Rightarrow>
     (sdk_exn, batch_error list) result \<times> 's" where
  "submit_chunks submit op batch_size off [] all_errors s = (Inr all_errors, s)"
| "submit_chunks submit op batch_size off (chunk # rest) all_errors s =
     (case submit op chunk s of
        (Inl e, s) \<Rightarrow> (Inl e, s)
      | (Inr chunk_errors, s) \<Rightarrow>
          submit_chunks submit op batch_size (off + batch_size) rest
            (if chunk_errors \<noteq> [] then all_errors @ offset_batch_errors chunk_errors (int off)
             else all_errors) s)"

definition submit_multi_batch ::
    "('x, 's) submit_fn \<Rightarrow> geo_operation \<Rightarrow> 'x list \<Rightarrow> int \<Rightarrow> 's \<Rightarrow>
     (sdk_exn, batch_error list) result \<times> 's" where
  "submit_multi_batch submit op batch batch_size s =
     (if batch = [] then (Inr [], s)
      else if batch_size \<le> 0 then (Inl (Builtin ValueError), s)
      else submit_chunks submit op (nat batch_size) 0 (chunks (nat batch_size) batch) [] s)"

definition split_batch :: "'x list \<Rightarrow> int \<Rightarrow> (sdk_exn, 'x list list) result" where
  "split_batch xs chunk_size =
     (if chunk_size \<le> 0 then Inl (Builtin ValueError)
      else if xs = [] then Inr []
      else Inr (chunks (nat chunk_size) xs))"

text \<open>
  A server that judges every item by itself: the errors of a chunk are those of its
  items, at their positions in the chunk.
\<close>

fun item_errors :: "('x \<Rightarrow> int \<Rightarrow> batch_error option) \<Rightarrow> int \<Rightarrow> 'x list \<Rightarrow> batch_error list" where
  "item_errors verdict i [] = []"
| "item_errors verdict i (x # xs) =
     (case verdict x i of Some e \<Rightarrow> e # item_errors verdict (i + 1) xs
      | None \<Rightarrow> item_errors verdict (i + 1) xs)"

definition judges :: "('x, 's) submit_fn \<Rightarrow> geo_operation \<Rightarrow> ('x \<Rightarrow> int \<Rightarrow> batch_error option) \<Rightarrow> nat \<Rightarrow> bool" where
  "judges submit op verdict most \<longleftrightarrow>
     (\<forall>chunk s. chunk \<noteq> [] \<and> length chunk \<le> most \<longrightarrow> fst (submit op chunk s) = Inr (item_errors verdict 0 chunk)) \<and>
     (\<forall>x i j. verdict x (i + j) = map_option (offset_error j) (verdict x i))"

lemma item_errors_append:
  "item_errors verdict i (xs @ ys) = item_errors verdict i xs @ item_errors verdict (i + int (length xs)) ys"
  by (induction xs arbitrary: i) (auto simp: algebra_simps split: option.splits)

lemma item_errors_shift:
  assumes "\<forall>x i j. verdict x (i + j) = map_option (offset_error j) (verdict x i)"
  shows "item_errors verdict (i + j) xs = map (offset_error j) (item_errors verdict i xs)"
proof (induction xs arbitrary: i)
  case Nil
  then show ?case by simp
next
  case (Cons x xs)
  have "item_errors verdict (i + j + 1) xs = map (offset_error j) (item_errors verdict (i + 1) xs)"
    using Cons [of "i + 1"] by (simp add: algebra_simps)
  with assms show ?case by (auto split: option.splits)
qed

text \<open>The chunks are full but for the last one, so the offsets are their positions.\<close>

lemma submit_chunks_judged:
  assumes "judges submit op verdict n" "0 < n"
  shows "fst (submit_chunks submit op n off (chunks n xs) acc s) =
    Inr (acc @ item_errors verdict (int off) xs)"
proof (induction "length xs" arbitrary: xs off acc s rule: less_induct)
  case less
  show ?case
  proof (cases "xs = []")
    case True
    then show ?thesis by simp
  next
    case False
    have shift: "item_errors verdict (int off) (take n xs)
        = map (offset_error (int off)) (item_errors verdict 0 (take n xs))"
      using item_errors_shift [of verdict 0 "int off"] assms(1) by (simp add: judges_def)
    have "fst (submit op (take n xs) s) = Inr (item_errors verdict 0 (take n xs))"
      using assms False by (simp add: judges_def)
    then obtain s' where s': "submit op (take n xs) s = (Inr (item_errors verdict 0 (take n xs)), s')"
      by (metis prod.collapse)
    have rest: "item_errors verdict (int off) (take n xs) @ item_errors verdict (int (off + n)) (drop n xs)
        = item_errors verdict (int off) xs"
    proof (cases "length xs \<le> n")
      case True
      then show ?thesis by simp
    next
      case False
      then show ?thesis
        using item_errors_append [of verdict "int off" "take n xs" "drop n xs"] by simp
    qed
    have "length (drop n xs) < length xs" using False assms(2) by simp
    from less [OF this] show ?thesis
      using False assms(2) s' shift rest
      by (auto simp: chunks_step offset_batch_errors_eq)
  qed
qed

lemma submit_multi_batch_judged:
  assumes "judges submit op verdict (nat batch_size)" "0 < batch_size"
  shows "fst (submit_multi_batch submit op batch batch_size s) = Inr (item_errors verdict 0 batch)"
  using submit_chunks_judged [OF assms(1), of 0 batch "[]" s] assms(2)
  by (simp add: submit_multi_batch_def)

text \<open>The chunks that were sent, with the state threaded through.\<close>

definition logging :: "('x, 's) submit_fn \<Rightarrow> ('x, 's \<times> 'x list list) submit_fn" where
  "logging submit op chunk st =
     (case submit op chunk (fst st) of (r, s) \<Rightarrow> (r, s, snd st @ [chunk]))"

lemma submit_chunks_log:
  "case submit_chunks (logging submit) op n off cs acc (s, sent) of
     (Inr es, s', sent') \<Rightarrow> sent' = sent @ cs
   | (Inl e, s', sent') \<Rightarrow> \<exists>k < length cs. sent' = sent @ take (Suc k) cs"
proof (induction cs arbitrary: off acc s sent)
  case Nil
  then show ?case by simp
next
  case (Cons c cs)
  obtain r s1 where r: "submit op c s = (r, s1)" by fastforce
  show ?case
  proof (cases r)
    case (Inl e)
    with r show ?thesis by (auto simp: logging_def)
  next
    case (Inr es)
    have step: "submit_chunks (logging submit) op n off (c # cs) acc (s, sent)
        = submit_chunks (logging submit) op n (off + n) cs
            (if es \<noteq> [] then acc @ offset_batch_errors es (int off) else acc) (s1, sent @ [c])"
      using r Inr by (simp add: logging_def)
    show ?thesis
      unfolding step
      using Cons [where off = "off + n" and s = s1 and sent = "sent @ [c]"
          and acc = "if es \<noteq> [] then acc @ offset_batch_errors es (int off) else acc"]
      by (auto split: sum.splits)
  qed
qed

subsection \<open>The interface of a bounded batch builder\<close>

text \<open>\<open>for x in xs: batch.add(x)\<close>\<close>

fun add_all :: "('x \<Rightarrow> 'b \<Rightarrow> (sdk_exn, 'b) result) \<Rightarrow> 'x list \<Rightarrow> 'b \<Rightarrow> (sdk_exn, 'b) result" where
  "add_all add [] b = Inr b"
| "add_all add (x # xs) b = bindE (add x b) (add_all add xs)"

locale bounded_batch =
  fixes add :: "'x \<Rightarrow> 'b \<Rightarrow> (sdk_exn, 'b) result"
    and items :: "'b \<Rightarrow> 'x list"
    and valid :: "'x \<Rightarrow> bool"
    and most :: nat
  assumes add_valid: "length (items b) < most \<Longrightarrow> valid x \<Longrightarrow> \<exists>b'. add x b = Inr b' \<and> items b' = items b @ [x]"
    and add_invalid: "length (items b) < most \<Longrightarrow> \<not> valid x \<Longrightarrow> \<exists>e. add x b = Inl (Client e)"
    and add_full: "most \<le> length (items b) \<Longrightarrow> add x b = Inl (Client BatchTooLarge)"
begin

lemma add_all_Inr:
  "add_all add xs b = Inr b' \<Longrightarrow> length (items b) \<le> most \<Longrightarrow>
     items b' = items b @ xs \<and> (\<forall>x\<in>set xs. valid x) \<and> length (items b') \<le> most"
proof (induction xs arbitrary: b)
  case Nil
  then show ?case by simp
next
  case (Cons x xs)
  then obtain c where c: "add x b = Inr c" "add_all add xs c = Inr b'"
    by (auto simp: bindE_split_Inr)
  then have "length (items b) < most" using add_full [of b x] by (cases "most \<le> length (items b)") auto
  moreover from this have "valid x" using add_invalid [of b x] c(1) by fastforce
  ultimately have "items c = items b @ [x]" using add_valid [of b x] c(1) by auto
  with Cons.IH [OF c(2)] \<open>length (items b) < most\<close> \<open>valid x\<close> show ?case by auto
qed

lemma add_all_accepts:
  "\<forall>x\<in>set xs. valid x \<Longrightarrow> length (items b) + length xs \<le> most \<Longrightarrow> \<exists>b'. add_all add xs b = Inr b'"
proof (induction xs arbitrary: b)
  case Nil
  then show ?case by simp
next
  case (Cons x xs)
  then obtain c where "add x b = Inr c" "items c = items b @ [x]"
    using add_valid [of b x] by auto
  with Cons.IH [of c] Cons.prems show ?case by simp
qed

lemma add_all_error: "add_all add xs b = Inl e \<Longrightarrow> \<exists>c. e = Client c"
proof (induction xs arbitrary: b)
  case Nil
  then show ?case by simp
next
  case (Cons x xs)
  then consider "add x b = Inl e" | c where "add x b = Inr c" "add_all add xs c = Inl e"
    by (auto simp: bindE_split_Inl)
  then show ?case
  proof cases
    case 1
    then show ?thesis
      using add_full [of b x] add_valid [of b x] add_invalid [of b x]
      by (cases "most \<le> length (items b)"; cases "valid x") fastforce+
  next
    case 2
    then show ?thesis using Cons.IH by blast
  qed
qed

lemma add_all_iff:
  assumes "length (items b) \<le> most"
  shows "(\<exists>b'. add_all add xs b = Inr b') \<longleftrightarrow> (\<forall>x\<in>set xs. valid x) \<and> length (items b) + length xs \<le> most"
  using add_all_accepts [of xs b] add_all_Inr [OF _ assms, of xs] by (metis length_append)

end

subsection \<open>Event batches\<close>

record event_batch =
  eb_operation :: string
  eb_events :: "geo_event list"

definition new_event_batch :: "string \<Rightarrow> event_batch" where
  "new_event_batch operation = \<lparr>eb_operation = operation, eb_events = []\<rparr>"

definition validate_event :: "geo_event \<Rightarrow> (sdk_exn, unit) result" where
  "validate_event e =
     (if entity_id e = 0 then Inl (Client InvalidEntityId)
      else if \<not> (- 90000000000 \<le> lat_nano e \<and> lat_nano e \<le> 90000000000) then Inl (Client InvalidCoordinates)
      else if \<not> (- 180000000000 \<le> lon_nano e \<and> lon_nano e \<le> 180000000000) then Inl (Client InvalidCoordinates)
      else if \<not> (0 \<le> heading_cdeg e \<and> heading_cdeg e \<le> 36000) then Inl (Client InvalidCoordinates)
      else Inr ())"

definition event_batch_add :: "geo_event \<Rightarrow> event_batch \<Rightarrow> (sdk_exn, event_batch) result" where
  "event_batch_add e b =
     (if BATCH_SIZE_MAX \<le> length (eb_events b) then Inl (Client BatchTooLarge)
      else bindE (validate_event e) (\<lambda>_. Inr (b\<lparr>eb_events := eb_events b @ [e]\<rparr>)))"

definition event_batch_count :: "event_batch \<Rightarrow> nat" where
  "event_batch_count b = length (eb_events b)"

definition event_batch_is_full :: "event_batch \<Rightarrow> bool" where
  "event_batch_is_full b \<longleftrightarrow> BATCH_SIZE_MAX \<le> length (eb_events b)"

definition event_batch_clear :: "event_batch \<Rightarrow> event_batch" where
  "event_batch_clear b = b\<lparr>eb_events := []\<rparr>"

definition event_batch_commit ::
    "(geo_event, 's) submit_fn \<Rightarrow> event_batch \<Rightarrow> 's \<Rightarrow>
     (sdk_exn, batch_error list) result \<times> event_batch \<times> 's" where
  "event_batch_commit submit b s =
     (if eb_events b = [] then (Inr [], b, s)
      else
        let op = (if eb_operation b = ''insert'' then INSERT_EVENTS else UPSERT_EVENTS) in
        case submit op (eb_events b) s of
          (Inl e, s) \<Rightarrow> (Inl e, b, s)
        | (Inr results, s) \<Rightarrow> (Inr results, b\<lparr>eb_events := []\<rparr>, s))"

definition event_valid :: "geo_event \<Rightarrow> bool" where
  "event_valid e \<longleftrightarrow> entity_id e \<noteq> 0 \<and> \<bar>lat_nano e\<bar> \<le> 90000000000 \<and> \<bar>lon_nano e\<bar> \<le> 180000000000 \<and>
     0 \<le> heading_cdeg e \<and> heading_cdeg e \<le> 36000"

lemma validate_event_cases:
  "validate_event e = (if event_valid e then Inr ()
     else Inl (Client (if entity_id e = 0 then InvalidEntityId else InvalidCoordinates)))"
  by (auto simp: validate_event_def event_valid_def abs_le_iff)

interpretation event_builder: bounded_batch event_batch_add eb_events event_valid BATCH_SIZE_MAX
  by unfold_locales (auto simp: event_batch_add_def validate_event_cases)

subsection \<open>Delete batches\<close>

record delete_batch =
  db_entity_ids :: "int list"

definition new_delete_batch :: delete_batch where
  "new_delete_batch = \<lparr>db_entity_ids = []\<rparr>"

definition delete_batch_add :: "int \<Rightarrow> delete_batch \<Rightarrow> (sdk_exn, delete_batch) result" where
  "delete_batch_add entity b =
     (if BATCH_SIZE_MAX \<le> length (db_entity_ids b) then Inl (Client BatchTooLarge)
      else if entity = 0 then Inl (Client InvalidEntityId)
      else Inr (b\<lparr>db_entity_ids := db_entity_ids b @ [entity]\<rparr>))"

definition delete_batch_count :: "delete_batch \<Rightarrow> nat" where
  "delete_batch_count b = length (db_entity_ids b)"

definition delete_batch_clear :: "delete_batch \<Rightarrow> delete_batch" where
  "delete_batch_clear b = b\<lparr>db_entity_ids := []\<rparr>"

text \<open>The counting loop of \<open>commit\<close>.\<close>

fun count_deletes :: "int \<Rightarrow> int \<Rightarrow> batch_error list \<Rightarrow> int \<times> int" where
  "count_deletes deleted not_found [] = (deleted, not_found)"
| "count_deletes deleted not_found (e # es) =
     (case e of
        DeleteError d \<Rightarrow>
          (if de_result d = DELETE_ENTITY_NOT_FOUND then count_deletes (deleted - 1) (not_found + 1) es
           else if de_result d \<noteq> DELETE_OK then count_deletes (deleted - 1) not_found es
           else count_deletes deleted not_found es)
      | _ \<Rightarrow> count_deletes deleted not_found es)"

definition delete_batch_commit ::
    "(int, 's) submit_fn \<Rightarrow> delete_batch \<Rightarrow> 's \<Rightarrow>
     (sdk_exn, delete_result) result \<times> delete_batch \<times> 's" where
  "delete_batch_commit submit b s =
     (if db_entity_ids b = [] then (Inr \<lparr>deleted_count = 0, dr_not_found_count = 0\<rparr>, b, s)
      else
        case submit DELETE_ENTITIES (db_entity_ids b) s of
          (Inl e, s) \<Rightarrow> (Inl e, b, s)
        | (Inr results, s) \<Rightarrow>
            (case count_deletes (int (length (db_entity_ids b))) 0 results of
               (deleted, not_found) \<Rightarrow>
                 (Inr \<lparr>deleted_count = deleted, dr_not_found_count = not_found\<rparr>,
                  b\<lparr>db_entity_ids := []\<rparr>, s)))"

interpretation delete_builder: bounded_batch delete_batch_add db_entity_ids "\<lambda>i. i \<noteq> 0" BATCH_SIZE_MAX
  by unfold_locales (auto simp: delete_batch_add_def)

definition delete_failed :: "batch_error \<Rightarrow> bool" where
  "delete_failed e = (case e of DeleteError d \<Rightarrow> de_result d \<noteq> DELETE_OK | _ \<Rightarrow> False)"

definition delete_missing :: "batch_error \<Rightarrow> bool" where
  "delete_missing e = (case e of DeleteError d \<Rightarrow> de_result d = DELETE_ENTITY_NOT_FOUND | _ \<Rightarrow> False)"

lemma count_deletes_eq:
  "count_deletes d n es = (d - int (length (filter delete_failed es)), n + int (length (filter delete_missing es)))"
  by (induction d n es rule: count_deletes.induct)
     (auto simp: delete_failed_def delete_missing_def split: batch_error.splits)

subsection \<open>Properties\<close>


text \<open>A server that rejects the entity id 3.\<close>

definition reject_three :: "int \<Rightarrow> int \<Rightarrow> batch_error option" where
  "reject_three x i =
     (if x = 3 then Some (DeleteError \<lparr>de_index = i, de_result = DELETE_ENTITY_NOT_FOUND\<rparr>) else None)"

definition judging_server :: "(int, nat) submit_fn" where
  "judging_server op chunk n = (Inr (item_errors reject_three 0 chunk), Suc n)"


text \<open>The chunks that \<open>_submit_multi_batch\<close> sends partition the batch: when it succeeds,
  every item was sent exactly once and in order; when a chunk raises, exactly the
  chunks up to that one were sent, so the items after it never reach the server.\<close>

theorem multi_batch_sends_every_item_once:
  "case submit_multi_batch (logging submit) op batch (int (Suc n)) (s, []) of
     (Inr es, s', sent) \<Rightarrow> concat sent = batch \<and> list_all (\<lambda>c. 0 < length c \<and> length c \<le> Suc n) sent
   | (Inl e, s', sent) \<Rightarrow> \<exists>k < length (chunks (Suc n) batch). sent = take (Suc k) (chunks (Suc n) batch)"
proof (cases "batch = []")
  case True
  then show ?thesis by (simp add: submit_multi_batch_def)
next
  case False
  have bounds: "list_all (\<lambda>c. 0 < length c \<and> length c \<le> Suc n) (chunks (Suc n) batch)"
    using chunks_bounds [of _ "Suc n" batch] by (simp add: list_all_iff)
  show ?thesis
    using submit_chunks_log [where submit = submit and op = op and n = "Suc n" and off = 0
        and cs = "chunks (Suc n) batch" and acc = "[]" and s = s and sent = "[]"] False bounds
      concat_chunks [of "Suc n" batch]
    by (simp add: submit_multi_batch_def nat_add_distrib split: prod.splits sum.splits)
qed

text \<open>Filling an event batch succeeds exactly for at most \<open>BATCH_SIZE_MAX\<close> events that all
  have a non-zero entity id, in-range coordinates and heading; otherwise it raises a
  client error, and what a filled batch holds is the given events in order.\<close>

theorem event_batch_accepts_exactly_valid:
  "case add_all event_batch_add es (new_event_batch op) of
     Inr b \<Rightarrow> eb_events b = es \<and> list_all event_valid es \<and> length es \<le> BATCH_SIZE_MAX
   | Inl e \<Rightarrow> \<not> (list_all event_valid es \<and> length es \<le> BATCH_SIZE_MAX) \<and> (\<exists>c. e = Client c)"
proof (cases "add_all event_batch_add es (new_event_batch op)")
  case (Inl e)
  then show ?thesis
    using event_builder.add_all_error [OF Inl] event_builder.add_all_accepts [of es "new_event_batch op"]
    by (auto simp: new_event_batch_def list_all_iff)
next
  case (Inr b)
  then show ?thesis
    using event_builder.add_all_Inr [OF Inr] by (auto simp: new_event_batch_def list_all_iff)
qed

text \<open>Committing a delete batch accounts for every id: the deleted count is the number of
  ids minus the failed rows, the not-found count is the number of not-found rows; the
  batch is emptied only when the submission returned, and kept when it raised.\<close>

theorem delete_commit_accounts:
  assumes "db_entity_ids b \<noteq> []"
  shows "case delete_batch_commit submit b s of (r, b', s') \<Rightarrow>
    (case fst (submit DELETE_ENTITIES (db_entity_ids b) s) of
       Inl e \<Rightarrow> r = Inl e \<and> b' = b
     | Inr rows \<Rightarrow> db_entity_ids b' = [] \<and>
         r = Inr \<lparr>deleted_count = int (length (db_entity_ids b)) - int (length (filter delete_failed rows)),
                  dr_not_found_count = int (length (filter delete_missing rows))\<rparr>)"
  using assms by (auto simp: delete_batch_commit_def count_deletes_eq split: prod.splits sum.splits)

theorem delete_commit_accounts_witness:
  "fst (delete_batch_commit judging_server \<lparr>db_entity_ids = [1, 3]\<rparr> 0)
     = Inr \<lparr>deleted_count = 1, dr_not_found_count = 1\<rparr>"
  using delete_commit_accounts [of "\<lparr>db_entity_ids = [1, 3]\<rparr>" judging_server 0]
  by (simp add: judging_server_def reject_three_def delete_failed_def delete_missing_def
      split: prod.splits)

end
