(* ===== verification/Topology.thy ===== *)
theory Topology
  imports Wire_Format Sdk_Errors
begin

section \<open>Topology cache, shard routing and scatter-gather\<close>

text \<open>
  \<open>archerdb/topology.py\<close>: \<open>TopologyCache\<close> (each method one step under its lock),
  \<open>ShardRouter\<close>, \<open>merge_results\<close> and \<open>ScatterGatherExecutor\<close>.  Subscribers are
  identified by values of a type \<open>'c\<close>; the notifications that \<open>update\<close> hands to
  threads are a list of deliveries.
\<close>

subsection \<open>The cache\<close>

datatype topology_change_type =
    LEADER_CHANGE | REPLICA_ADDED | REPLICA_REMOVED | RESHARDING_STARTED | RESHARDING_COMPLETED
  | STATUS_CHANGE

record topology_change_notification =
  new_version :: int
  old_version :: int
  change_type :: topology_change_type
  affected_shard :: int
  tc_timestamp_ns :: int

record 'c topology_cache =
  topology :: "topology_response option"
  tc_version :: int
  tc_last_refresh :: pyfloat
  refresh_count :: int
  callbacks :: "'c option list"

definition new_cache :: "'c topology_cache" where
  "new_cache = \<lparr>topology = None, tc_version = 0, tc_last_refresh = Fin 0, refresh_count = 0, callbacks = []\<rparr>"

definition cache_get :: "'c topology_cache \<Rightarrow> topology_response option" where
  "cache_get c = topology c"

definition get_version :: "'c topology_cache \<Rightarrow> int" where
  "get_version c = tc_version c"

text \<open>\<open>seconds\<close> is the reading for \<open>_last_refresh\<close>, \<open>stamp_ns\<close> the one for the notification.\<close>

definition cache_update ::
    "pyfloat \<Rightarrow> int \<Rightarrow> topology_response \<Rightarrow> 'c topology_cache \<Rightarrow>
     'c topology_cache \<times> ('c \<times> topology_change_notification) list" where
  "cache_update seconds stamp_ns t c =
     (let old = tc_version c;
          c' = c\<lparr>topology := Some t, tc_version := version t, tc_last_refresh := seconds,
                 refresh_count := refresh_count c + 1\<rparr>
      in if version t \<noteq> old \<and> old \<noteq> 0
         then let notification = \<lparr>new_version = version t, old_version = old,
                    change_type = STATUS_CHANGE, affected_shard = 0, tc_timestamp_ns = stamp_ns\<rparr>
              in (c', map (\<lambda>cb. (the cb, notification)) (filter (\<lambda>cb. cb \<noteq> None) (callbacks c')))
         else (c', []))"

definition invalidate :: "'c topology_cache \<Rightarrow> 'c topology_cache" where
  "invalidate c = c\<lparr>tc_version := 0\<rparr>"

text \<open>\<open>on_change\<close> returns the index that the unregister closure captures.\<close>

definition on_change :: "'c \<Rightarrow> 'c topology_cache \<Rightarrow> nat \<times> 'c topology_cache" where
  "on_change cb c = (length (callbacks c), c\<lparr>callbacks := callbacks c @ [Some cb]\<rparr>)"

definition unregister :: "nat \<Rightarrow> 'c topology_cache \<Rightarrow> 'c topology_cache" where
  "unregister idx c = (if idx < length (callbacks c) then c\<lparr>callbacks := (callbacks c)[idx := None]\<rparr> else c)"

definition xor_fold :: "int \<Rightarrow> int" where
  "xor_fold entity =
     (let lo = entity AND MASK64; hi = drop_bit 64 entity AND MASK64 in lo XOR hi)"

definition compute_shard :: "int \<Rightarrow> 'c topology_cache \<Rightarrow> int" where
  "compute_shard entity c =
     (case topology c of
        None \<Rightarrow> 0
      | Some t \<Rightarrow> if num_shards t = 0 then 0 else xor_fold entity mod num_shards t)"

text \<open>A negative index counts from the end of the list; before its start it raises.\<close>

definition get_shard_primary :: "int \<Rightarrow> 'c topology_cache \<Rightarrow> (py_exn, bytes) result" where
  "get_shard_primary i c =
     (case topology c of
        None \<Rightarrow> Inr []
      | Some t \<Rightarrow>
          let n = int (length (shards t)) in
          if n \<le> i then Inr []
          else if 0 \<le> i then Inr (primary (shards t ! nat i))
          else if - n \<le> i then Inr (primary (shards t ! nat (n + i)))
          else Inl IndexError)"

definition get_all_shard_primaries :: "'c topology_cache \<Rightarrow> bytes list" where
  "get_all_shard_primaries c =
     (case topology c of None \<Rightarrow> [] | Some t \<Rightarrow> map primary (shards t))"

definition is_resharding :: "'c topology_cache \<Rightarrow> bool" where
  "is_resharding c = (case topology c of None \<Rightarrow> False | Some t \<Rightarrow> resharding_status t \<noteq> 0)"

definition get_active_shards :: "'c topology_cache \<Rightarrow> int list" where
  "get_active_shards c =
     (case topology c of None \<Rightarrow> [] | Some t \<Rightarrow> map shard_id (filter (\<lambda>s. si_status s = ACTIVE) (shards t)))"

definition get_shard_count :: "'c topology_cache \<Rightarrow> int" where
  "get_shard_count c = (case topology c of None \<Rightarrow> 0 | Some t \<Rightarrow> num_shards t)"

subsection \<open>The router\<close>

datatype routing_error =
    ShardRoutingError int
  | NotShardLeaderError int bytes
  | OtherRoutingError py_exn

definition route_by_entity_id :: "int \<Rightarrow> 'c topology_cache \<Rightarrow> (routing_error, int \<times> bytes) result" where
  "route_by_entity_id entity c =
     (let sid = compute_shard entity c in
      case get_shard_primary sid c of
        Inl e \<Rightarrow> Inl (OtherRoutingError e)
      | Inr prim \<Rightarrow> if prim = [] then Inl (ShardRoutingError sid) else Inr (sid, prim))"

text \<open>The refresh callback threads a state; its result tells whether it raised.\<close>

definition handle_not_shard_leader ::
    "('s \<Rightarrow> ('e, unit) result \<times> 's) option \<Rightarrow> routing_error \<Rightarrow> 's \<Rightarrow> bool \<times> 's" where
  "handle_not_shard_leader refresh_callback error s =
     (case error of
        NotShardLeaderError sid hint \<Rightarrow>
          (case refresh_callback of
             Some refresh \<Rightarrow> (case refresh s of (Inr _, s) \<Rightarrow> (True, s) | (Inl _, s) \<Rightarrow> (False, s))
           | None \<Rightarrow> (False, s))
      | _ \<Rightarrow> (False, s))"

subsection \<open>Merging the results of shards\<close>

record scatter_gather_result =
  sg_events :: "geo_event list"
  shard_results :: "(nat \<times> nat) list"
  partial_failures :: "(nat \<times> sdk_exn) list"
  sg_has_more :: bool

definition empty_scatter_result :: scatter_gather_result where
  "empty_scatter_result = \<lparr>sg_events = [], shard_results = [], partial_failures = [], sg_has_more = False\<rparr>"

text \<open>
  The dict \<open>seen\<close>, keyed by the entity id of its events, as the list of its values:
  a new key goes to the end, an overwritten value keeps its place.
\<close>

fun see_event :: "geo_event list \<Rightarrow> geo_event \<Rightarrow> geo_event list" where
  "see_event [] e = [e]"
| "see_event (x # xs) e =
     (if entity_id x = entity_id e then (if timestamp x < timestamp e then e else x) # xs
      else x # see_event xs e)"

text \<open>\<open>sorted(..., key=timestamp, reverse=True)\<close>: descending, and stable.\<close>

definition sort_recent :: "geo_event list \<Rightarrow> geo_event list" where
  "sort_recent es = sort_key (\<lambda>e. - timestamp e) es"

definition merge_results :: "query_result list \<Rightarrow> int \<Rightarrow> scatter_gather_result" where
  "merge_results results limit =
     (let seen = fold (\<lambda>r s. foldl see_event s (events r)) results [];
          more = (\<exists>r\<in>set results. has_more r);
          es = sort_recent seen;
          cut = (0 < limit \<and> limit < int (length es))
      in \<lparr>sg_events = (if cut then take (nat limit) es else es),
          shard_results = enumerate 0 (map (\<lambda>r. length (events r)) results),
          partial_failures = [], sg_has_more = more \<or> cut\<rparr>)"

subsection \<open>Scatter-gather\<close>

record scatter_gather_config =
  max_concurrency :: int
  allow_partial_results :: bool
  timeout_seconds :: pyfloat

definition default_scatter_gather_config :: scatter_gather_config where
  "default_scatter_gather_config = \<lparr>max_concurrency = 0, allow_partial_results = True, timeout_seconds = Fin 30\<rparr>"

type_synonym shard_outcome = "(sdk_exn, query_result) result"

text \<open>The loop over the finished futures, in the order in which they finish.\<close>

fun collect_sync ::
    "bool \<Rightarrow> (nat \<times> shard_outcome) list \<Rightarrow> query_result list \<Rightarrow> (nat \<times> sdk_exn) list \<Rightarrow>
     (sdk_exn, query_result list \<times> (nat \<times> sdk_exn) list) result" where
  "collect_sync partial [] results failures = Inr (results, failures)"
| "collect_sync partial ((i, Inr r) # fs) results failures =
     collect_sync partial fs (results @ [r]) failures"
| "collect_sync partial ((i, Inl e) # fs) results failures =
     (if \<not> partial then Inl e else collect_sync partial fs results (failures @ [(i, e)]))"

text \<open>
  \<open>finished\<close>: the futures that finish before the timeout, in that order;
  \<open>as_completed\<close> raises after them when one is missing, and no handler catches that.
\<close>

definition execute_sync ::
    "scatter_gather_config \<Rightarrow> bytes list \<Rightarrow> (nat \<times> shard_outcome) list \<Rightarrow> int \<Rightarrow>
     (sdk_exn, scatter_gather_result) result" where
  "execute_sync cfg primaries finished limit =
     (if primaries = [] then Inr empty_scatter_result
      else
        let max_workers = (if max_concurrency cfg = 0 then int (length primaries) else max_concurrency cfg) in
        if max_workers \<le> 0 then Inl (Builtin ValueError)
        else
          bindE (collect_sync (allow_partial_results cfg) finished [] []) (\<lambda>p.
          if length finished < length primaries then Inl (Builtin TimeoutError)
          else Inr ((merge_results (fst p) limit)\<lparr>partial_failures := snd p\<rparr>)))"

text \<open>The loop over the tasks in shard order: \<open>None\<close> is a task still pending at the timeout.\<close>

fun collect_async ::
    "bool \<Rightarrow> nat \<Rightarrow> shard_outcome option list \<Rightarrow> query_result list \<Rightarrow> (nat \<times> sdk_exn) list \<Rightarrow>
     (sdk_exn, query_result list \<times> (nat \<times> sdk_exn) list) result" where
  "collect_async partial i [] results failures = Inr (results, failures)"
| "collect_async partial i (None # ts) results failures =
     collect_async partial (Suc i) ts results (failures @ [(i, Builtin TimeoutError)])"
| "collect_async partial i (Some (Inr r) # ts) results failures =
     collect_async partial (Suc i) ts (results @ [r]) failures"
| "collect_async partial i (Some (Inl e) # ts) results failures =
     (if \<not> partial then Inl e else collect_async partial (Suc i) ts results (failures @ [(i, e)]))"

text \<open>A task that itself raises \<open>TimeoutError\<close> under \<open>allow_partial_results = False\<close> re-raises it.\<close>

definition execute_async ::
    "scatter_gather_config \<Rightarrow> bytes list \<Rightarrow> shard_outcome option list \<Rightarrow> int \<Rightarrow>
     (sdk_exn, scatter_gather_result) result" where
  "execute_async cfg primaries tasks limit =
     (if primaries = [] then Inr empty_scatter_result
      else
        bindE (collect_async (allow_partial_results cfg) 0 tasks [] []) (\<lambda>p.
        Inr ((merge_results (fst p) limit)\<lparr>partial_failures := snd p\<rparr>)))"

subsection \<open>Lemmas: shard assignment\<close>

lemma xor_fold_nonneg: "0 \<le> xor_fold entity"
  using and_MASK64_bounds by (simp add: xor_fold_def Let_def)

definition fold_assign :: "int \<Rightarrow> int \<Rightarrow> (py_exn, int) result option" where
  "fold_assign entity n = Some (Inr (xor_fold entity mod n))"

text \<open>The cache's assignment has the interface of the jump-hash one, but is another function.\<close>

interpretation folded: shard_assignment fold_assign "2 ^ 32 - 1"
  by unfold_locales (simp add: fold_assign_def)

subsection \<open>Lemmas: merging\<close>

lemma see_event_ids: "entity_id ` set (see_event xs e) = insert (entity_id e) (entity_id ` set xs)"
  by (induction xs) auto

lemma see_event_distinct: "distinct (map entity_id xs) \<Longrightarrow> distinct (map entity_id (see_event xs e))"
  by (induction xs) (auto simp: see_event_ids)

lemma see_event_set: "set (see_event xs e) \<subseteq> insert e (set xs)"
  by (induction xs) auto

text \<open>\<open>latest_of xs es\<close>: the list holds, for each entity of \<open>es\<close>, one of its newest events.\<close>

definition latest_of :: "geo_event list \<Rightarrow> geo_event list \<Rightarrow> bool" where
  "latest_of xs es \<longleftrightarrow>
     distinct (map entity_id xs) \<and> set xs \<subseteq> set es \<and> entity_id ` set xs = entity_id ` set es \<and>
     (\<forall>x\<in>set xs. \<forall>e\<in>set es. entity_id e = entity_id x \<longrightarrow> timestamp e \<le> timestamp x)"

lemma see_event_newest:
  "distinct (map entity_id xs) \<Longrightarrow> x \<in> set (see_event xs e) \<Longrightarrow>
     (\<forall>y\<in>insert e (set xs). entity_id y = entity_id x \<longrightarrow> timestamp y \<le> timestamp x)"
proof (induction xs)
  case Nil
  then show ?case by simp
next
  case (Cons z zs)
  show ?case
  proof (cases "entity_id z = entity_id e")
    case True
    have inj: "y = w" if "y \<in> set zs" "w \<in> set zs" "entity_id y = entity_id w" for y w
      using Cons.prems(1) that by (auto simp: distinct_map inj_on_def)
    have absent: "entity_id y \<noteq> entity_id e" if "y \<in> set zs" for y
      using Cons.prems(1) that True by (auto simp: image_iff)
    show ?thesis
    proof (intro ballI impI)
      fix y assume y: "y \<in> insert e (set (z # zs))" "entity_id y = entity_id x"
      show "timestamp y \<le> timestamp x"
      proof (cases "x \<in> set zs")
        case x: True
        with y absent [OF x] True have "y \<in> set zs" by auto
        with inj [OF this x] y show ?thesis by simp
      next
        case x: False
        with True Cons.prems(2) have "x = (if timestamp z < timestamp e then e else z)" by auto
        moreover from this True y absent [of y] have "y = e \<or> y = z" by (auto split: if_splits)
        ultimately show ?thesis by (auto split: if_splits)
      qed
    qed
  next
    case False
    with Cons.prems consider "x = z" | "x \<in> set (see_event zs e)" by auto
    then show ?thesis
    proof cases
      case 1
      with False Cons.prems(1) show ?thesis by (auto simp: image_iff)
    next
      case 2
      with Cons.IH Cons.prems(1) have "\<forall>y\<in>insert e (set zs). entity_id y = entity_id x \<longrightarrow> timestamp y \<le> timestamp x"
        by simp
      moreover have "entity_id z \<noteq> entity_id x"
      proof -
        have "entity_id x \<in> insert (entity_id e) (entity_id ` set zs)" using 2 see_event_ids by blast
        with False Cons.prems(1) show ?thesis by auto
      qed
      ultimately show ?thesis by auto
    qed
  qed
qed

lemma latest_see: "latest_of xs es \<Longrightarrow> latest_of (see_event xs e) (es @ [e])"
proof -
  assume l: "latest_of xs es"
  then have d: "distinct (map entity_id xs)" by (simp add: latest_of_def)
  have newest: "timestamp y \<le> timestamp x"
    if x: "x \<in> set (see_event xs e)" and y: "y \<in> set (es @ [e])" "entity_id y = entity_id x" for x y
  proof (cases "y = e")
    case True
    with see_event_newest [OF d x] y show ?thesis by blast
  next
    case False
    then have "y \<in> set es" using y by simp
    then obtain z where z: "z \<in> set xs" "entity_id z = entity_id y"
      using l by (metis (no_types, lifting) image_iff latest_of_def)
    then have "timestamp y \<le> timestamp z" using l \<open>y \<in> set es\<close> by (simp add: latest_of_def)
    also have "timestamp z \<le> timestamp x" using see_event_newest [OF d x] z y by auto
    finally show ?thesis .
  qed
  show ?thesis
    using l newest see_event_distinct [OF d] see_event_set [of xs e] see_event_ids [of xs e]
    by (auto simp: latest_of_def)
qed

lemma latest_foldl: "latest_of xs es \<Longrightarrow> latest_of (foldl see_event xs fs) (es @ fs)"
proof (induction fs arbitrary: xs es)
  case Nil
  then show ?case by simp
next
  case (Cons f fs)
  from Cons.IH [OF latest_see [OF Cons.prems], of f] show ?case by simp
qed

lemma latest_fold:
  "latest_of xs es \<Longrightarrow>
     latest_of (fold (\<lambda>r s. foldl see_event s (events r)) results xs) (es @ concat (map events results))"
proof (induction results arbitrary: xs es)
  case Nil
  then show ?case by simp
next
  case (Cons r results)
  from Cons.IH [OF latest_foldl [OF Cons.prems, of "events r"]] show ?case by simp
qed

definition seen_events :: "query_result list \<Rightarrow> geo_event list" where
  "seen_events results = fold (\<lambda>r s. foldl see_event s (events r)) results []"

lemma latest_seen: "latest_of (seen_events results) (concat (map events results))"
  using latest_fold [of "[]" "[]" results] by (simp add: latest_of_def seen_events_def)

lemma latest_sort: "latest_of xs es \<Longrightarrow> latest_of (sort_recent xs) es"
proof -
  assume l: "latest_of xs es"
  then show ?thesis by (simp add: latest_of_def sort_recent_def distinct_map)
qed

lemma sort_recent_sorted: "sorted_wrt (\<lambda>a b. timestamp b \<le> timestamp a) (sort_recent xs)"
  using sorted_sort_key [of "\<lambda>e. - timestamp e" xs] by (simp add: sort_recent_def sorted_wrt_map sorted_map)

lemma merge_events:
  "sg_events (merge_results rs limit) =
     (if 0 < limit then take (nat limit) (sort_recent (seen_events rs)) else sort_recent (seen_events rs))"
  "sg_has_more (merge_results rs limit) \<longleftrightarrow>
     (\<exists>r\<in>set rs. has_more r) \<or> 0 < limit \<and> limit < int (length (seen_events rs))"
  by (auto simp: merge_results_def seen_events_def sort_recent_def Let_def)

subsection \<open>Lemmas: collecting shard outcomes\<close>

definition failed_outcomes :: "(nat \<times> shard_outcome) list \<Rightarrow> (nat \<times> sdk_exn) list" where
  "failed_outcomes fs = concat (map (\<lambda>p. case snd p of Inl e \<Rightarrow> [(fst p, e)] | Inr _ \<Rightarrow> []) fs)"

definition good_outcomes :: "(nat \<times> shard_outcome) list \<Rightarrow> query_result list" where
  "good_outcomes fs = concat (map (\<lambda>p. case snd p of Inl e \<Rightarrow> [] | Inr r \<Rightarrow> [r]) fs)"

lemma outcomes_account: "length (good_outcomes fs) + length (failed_outcomes fs) = length fs"
  by (induction fs) (auto simp: good_outcomes_def failed_outcomes_def split: sum.splits)

lemma collect_sync_partial:
  "collect_sync True fs rs es = Inr (rs @ good_outcomes fs, es @ failed_outcomes fs)"
  by (induction fs arbitrary: rs es)
     (auto simp: good_outcomes_def failed_outcomes_def split: sum.splits elim: collect_sync.cases)

lemma collect_sync_strict:
  "collect_sync False fs rs es =
     (case failed_outcomes fs of [] \<Rightarrow> Inr (rs @ good_outcomes fs, es) | (i, e) # _ \<Rightarrow> Inl e)"
proof (induction fs arbitrary: rs)
  case Nil
  then show ?case by (simp add: good_outcomes_def failed_outcomes_def)
next
  case (Cons f fs)
  obtain i x where f: "f = (i, x)" by fastforce
  show ?case
  proof (cases x)
    case (Inl e)
    with f show ?thesis by (simp add: failed_outcomes_def)
  next
    case (Inr r)
    then have "good_outcomes (f # fs) = r # good_outcomes fs" "failed_outcomes (f # fs) = failed_outcomes fs"
      by (simp_all add: f failed_outcomes_def good_outcomes_def)
    with f Inr Cons [of "rs @ [r]"] show ?thesis by (simp split: list.splits prod.splits)
  qed
qed

subsection \<open>Properties\<close>

text \<open>With a complete topology in the cache every entity is routed: to the shard that
  the cache's assignment gives it (one of the \<open>num_shards\<close>, always the same one) and to
  that shard's primary, and routing raises exactly when that shard has no primary
  address.\<close>

theorem router_routes_every_entity:
  assumes "topology c = Some t" and "num_shards t = int (length (shards t))" and "0 < num_shards t"
  shows "\<exists>sid. 0 \<le> sid \<and> sid < num_shards t \<and> fold_assign e (num_shards t) = Some (Inr sid) \<and>
    route_by_entity_id e c =
      (if primary (shards t ! nat sid) = [] then Inl (ShardRoutingError sid)
       else Inr (sid, primary (shards t ! nat sid)))"
proof -
  let ?s = "xor_fold e mod num_shards t"
  have s: "0 \<le> ?s" "?s < num_shards t" using assms(3) by simp_all
  moreover have "compute_shard e c = ?s" using assms by (simp add: compute_shard_def)
  moreover have "get_shard_primary ?s c = Inr (primary (shards t ! nat ?s))"
    using assms(1,2) s by (simp add: get_shard_primary_def Let_def)
  ultimately show ?thesis
    by (intro exI [of _ ?s]) (simp add: fold_assign_def route_by_entity_id_def Let_def)
qed

definition sample_cache :: "unit topology_cache" where
  "sample_cache = fst (cache_update (Fin 1) 5 sample_topology new_cache)"

theorem router_routes_every_entity_witness:
  "route_by_entity_id 99 sample_cache = Inr (0, [104, 58, 49])"
proof -
  have "topology sample_cache = Some sample_topology"
    by (simp add: sample_cache_def cache_update_def new_cache_def sample_topology_def Let_def)
  from router_routes_every_entity [OF this, of 99] show ?thesis
    by (auto simp: sample_topology_def)
qed

text \<open>The cache's assignment and the documented jump-hash assignment disagree: for
  entity 1 in a cluster of two shards the router computes shard 1, while
  \<open>get_shard_for_entity\<close> gives shard 0.\<close>

theorem shard_assignments_disagree:
  "get_shard_for_entity 1 2 = Some (Inr 0) \<and> fold_assign 1 2 = Some (Inr 1)"
proof
  have key: "compute_shard_key 1 AND MASK64 = 12994781566227106604" by code_simp
  have k1: "jump_lcg 12994781566227106604 = 5586040366235191933" by code_simp
  obtain j where j: "jump_next 0 5586040366235191933 = Inr j" "2 \<le> j"
    using jump_next_at_least [of 5586040366235191933 0 2] by (auto simp: drop_bit_eq_div)
  then have "jump_loop 2 (-1) 0 12994781566227106604 = jump_loop 2 0 j 5586040366235191933"
    using jump_loop_step [of 0 2 12994781566227106604 _ j "-1"] by (simp add: k1)
  then have "jump_loop 2 (-1) 0 12994781566227106604 = Some (Inr 0)"
    using j by (simp add: jump_loop_stop)
  then show "get_shard_for_entity 1 2 = Some (Inr 0)"
    by (simp add: get_shard_for_entity_def jump_hash_def key)
  show "fold_assign 1 2 = Some (Inr 1)" by code_simp
qed

text \<open>C15: Merging shard results keeps, for every entity found by any shard, exactly one of its
  newest events and nothing else, newest first; a positive limit keeps the newest
  \<open>limit\<close> of them, and \<open>has_more\<close> is set exactly when a shard had more or the limit cut
  something.\<close>

theorem merge_keeps_newest_per_entity:
  "latest_of (sg_events (merge_results rs 0)) (concat (map events rs)) \<and>
   sorted_wrt (\<lambda>a b. timestamp b \<le> timestamp a) (sg_events (merge_results rs 0)) \<and>
   sg_events (merge_results rs (int (Suc n))) = take (Suc n) (sg_events (merge_results rs 0)) \<and>
   (sg_has_more (merge_results rs (int (Suc n))) \<longleftrightarrow>
      (\<exists>r\<in>set rs. has_more r) \<or> Suc n < length (sg_events (merge_results rs 0)))"
  using latest_sort [OF latest_seen [of rs]] sort_recent_sorted [of "seen_events rs"]
  by (auto simp: merge_events sort_recent_def simp del: of_nat_Suc)


definition answered :: query_result where
  "answered = \<lparr>events = [sample_event], has_more = False, cursor = None\<rparr>"


text \<open>A shard that does not answer in time makes the synchronous scatter query raise even
  when partial results are allowed, and the answers already received are lost; the
  asynchronous query returns them and records the timeout under the shard.\<close>

theorem scatter_timeout_divergence:
  assumes "allow_partial_results cfg" and "0 \<le> max_concurrency cfg"
  shows "execute_sync cfg [p, q] [(0, Inr r)] limit = Inl (Builtin TimeoutError) \<and>
    execute_async cfg [p, q] [Some (Inr r), None] limit =
      Inr ((merge_results [r] limit)\<lparr>partial_failures := [(1, Builtin TimeoutError)]\<rparr>)"
  using assms by (simp add: execute_sync_def execute_async_def Let_def)

theorem scatter_timeout_divergence_witness:
  "execute_sync default_scatter_gather_config [[97], [98]] [(0, Inr answered)] 5 = Inl (Builtin TimeoutError)"
  using scatter_timeout_divergence [of default_scatter_gather_config "[97]" "[98]" answered 5]
  by (simp add: default_scatter_gather_config_def)

text \<open>After an invalidation the next update notifies nobody, whatever version it brings.\<close>

lemma invalidated_update_is_silent: "snd (cache_update secs ns t (invalidate c)) = []"
  by (simp add: cache_update_def invalidate_def Let_def)

end
