(* ===== verification/Client.thy ===== *)
theory Client
  imports Retry Native_Ops Batch Topology
begin

section \<open>The synchronous client\<close>

text \<open>
  \<open>GeoClientSync\<close> of \<open>archerdb/client.py\<close>.  The native client underneath is a record
  of functions over a state of its own (\<open>platform\<close>), together with the clocks and the
  random source; \<open>sdk\<close> is the client object and everything it drives.  An operation
  returns its result, or the exception it raises, and the new state.
\<close>

subsection \<open>State\<close>

record 's platform =
  link_connected :: "'s \<Rightarrow> bool"
  link_connect :: "'s \<Rightarrow> bool \<times> 's"
  link_disconnect :: "'s \<Rightarrow> 's"
  link_submit :: "'s transport"
  clock :: readings
  random :: readings
  clock_ns :: ns_clock

record client_config =
  cfg_cluster_id :: int
  addresses :: "string list"
  connect_timeout_ms :: int
  request_timeout_ms :: int
  pool_size :: int
  retry :: "retry_config option"

text \<open>\<open>world\<close>: the native state, the clock positions, the sleeps and the retry metrics.\<close>

record ('s, 'c) sdk =
  is_closed :: bool
  base_retry :: retry_config
  sdk_cache :: "'c topology_cache"
  notified :: "('c \<times> topology_change_notification) list"
  world :: "('s \<times> nat) retry_env"

type_synonym ('s, 'c, 'a) step = "('s, 'c) sdk \<Rightarrow> (sdk_exn, 'a) result \<times> ('s, 'c) sdk"

text \<open>Sequencing of steps that can raise.\<close>

definition then_do :: "(sdk_exn, 'a) result \<times> 'x \<Rightarrow> ('a \<Rightarrow> 'x \<Rightarrow> (sdk_exn, 'b) result \<times> 'x) \<Rightarrow> (sdk_exn, 'b) result \<times> 'x" where
  "then_do m f = (case m of (Inl e, s) \<Rightarrow> (Inl e, s) | (Inr a, s) \<Rightarrow> f a s)"

lemma then_do_simps [simp, py_simps]:
  "then_do (Inl e, s) f = (Inl e, s)" "then_do (Inr a, s) f = f a s"
  by (simp_all add: then_do_def)

definition state_of :: "('s, 'c) sdk \<Rightarrow> 's" where
  "state_of s = fst (op_state (world s))"

subsection \<open>Connection\<close>

definition open_client ::
    "'s platform \<Rightarrow> client_config \<Rightarrow> ('s \<times> nat) retry_env \<Rightarrow> (sdk_exn, ('s, 'c) sdk) result \<times> ('s \<times> nat) retry_env" where
  "open_client p config w =
     (if addresses config = [] then (Inl (Builtin ValueError), w)
      else
        case link_connect p (fst (op_state w)) of (ok, n) \<Rightarrow>
          let w = w\<lparr>op_state := (n, snd (op_state w))\<rparr> in
          if \<not> ok then (Inl (Client ConnectionFailed), w)
          else (Inr \<lparr>is_closed = False, base_retry = or_default (retry config) default_retry_config,
                     sdk_cache = new_cache, notified = [], world = w\<rparr>, w))"

definition close :: "'s platform \<Rightarrow> ('s, 'c) sdk \<Rightarrow> ('s, 'c) sdk" where
  "close p s =
     (if \<not> is_closed s
      then let w = world s in
        s\<lparr>world := w\<lparr>op_state := (link_disconnect p (fst (op_state w)), snd (op_state w))\<rparr>, is_closed := True\<rparr>
      else s)"

definition client_is_connected :: "('s, 'c) sdk \<Rightarrow> bool" where
  "client_is_connected s \<longleftrightarrow> \<not> is_closed s"

definition ensure_connected :: "('s, 'c) sdk \<Rightarrow> (sdk_exn, unit) result" where
  "ensure_connected s = (if is_closed s then Inl (Client ClientClosedError) else Inr ())"

text \<open>The reconnection of \<open>do_submit\<close> and \<open>do_query\<close>: the result of \<open>connect\<close> is not looked at.\<close>

definition reconnect :: "'s platform \<Rightarrow> 's \<times> nat \<Rightarrow> 's \<times> nat" where
  "reconnect p st =
     (if \<not> link_connected p (fst st) then (snd (link_connect p (fst st)), snd st) else st)"

text \<open>An operation on the native state alone, which reads no clock.\<close>

definition on_link :: "('s \<Rightarrow> (sdk_exn, 'a) result \<times> 's) \<Rightarrow> ('s \<times> nat, 'a) operation" where
  "on_link f st = (case f (fst st) of (r, n) \<Rightarrow> (r, n, snd st))"

text \<open>A call of \<open>_with_retry_sync\<close>.\<close>

definition run_retry :: "'s platform \<Rightarrow> retry_config \<Rightarrow> ('s \<times> nat, 'a) operation \<Rightarrow> ('s, 'c, 'a) step" where
  "run_retry p cfg operation s =
     (case with_retry_sync (clock p) (random p) cfg operation (world s) of
        (r, w) \<Rightarrow> (r, s\<lparr>world := w\<rparr>))"

definition effective_retry :: "operation_options option \<Rightarrow> ('s, 'c) sdk \<Rightarrow> retry_config" where
  "effective_retry options s =
     (case options of Some opts \<Rightarrow> merge_with opts (base_retry s) | None \<Rightarrow> base_retry s)"

text \<open>\<open>_ensure_connected()\<close> in front of a call, and in front of an attempt.\<close>

definition guarded :: "('s, 'c, 'a) step \<Rightarrow> ('s, 'c, 'a) step" where
  "guarded f s = (case ensure_connected s of Inl e \<Rightarrow> (Inl e, s) | Inr _ \<Rightarrow> f s)"

definition attempt ::
    "'s platform \<Rightarrow> ('s, 'c) sdk \<Rightarrow> ('s \<times> nat, 'a) operation \<Rightarrow> ('s \<times> nat, 'a) operation" where
  "attempt p s f st = (case ensure_connected s of Inl e \<Rightarrow> (Inl e, st) | Inr _ \<Rightarrow> f (reconnect p st))"

subsection \<open>Writes\<close>

text \<open>
  \<open>_submit_batch\<close> on a list of events and on a list of ids: the code takes any list,
  and an operation applied to elements of the other kind fails on their attributes.
\<close>

definition do_submit_events ::
    "'s platform \<Rightarrow> geo_operation \<Rightarrow> geo_event list \<Rightarrow> ('s \<times> nat, batch_error list) operation" where
  "do_submit_events p op batch st =
     (let to_errors = map (\<lambda>(idx, code). InsertError \<lparr>ie_index = idx, ie_result = code\<rparr>) in
      if op = INSERT_EVENTS
      then (case native_insert_events (link_submit p) (clock_ns p) batch st of
              (r, st) \<Rightarrow> (bindE r (\<lambda>errors. Inr (to_errors errors)), st))
      else if op = UPSERT_EVENTS
      then (case native_upsert_events (link_submit p) (clock_ns p) batch st of
              (r, st) \<Rightarrow> (bindE r (\<lambda>errors. Inr (to_errors errors)), st))
      else if op = DELETE_ENTITIES
      then (if batch = [] then (Inr [], st) else (Inl (Builtin AttributeError), st))
      else (Inl (Builtin ValueError), st))"

definition do_submit_ids ::
    "'s platform \<Rightarrow> geo_operation \<Rightarrow> int list \<Rightarrow> ('s \<times> nat, batch_error list) operation" where
  "do_submit_ids p op batch st =
     (if op = DELETE_ENTITIES
      then (case on_link (native_delete_entities (link_submit p) batch) st of
              (r, st) \<Rightarrow> (bindE r (\<lambda>errors.
                Inr (map (\<lambda>(idx, code). DeleteError \<lparr>de_index = idx, de_result = code\<rparr>) errors)), st))
      else if op = INSERT_EVENTS \<or> op = UPSERT_EVENTS
      then (if batch = [] then (Inr [], st) else (Inl (Builtin AttributeError), st))
      else (Inl (Builtin ValueError), st))"

definition submit_events ::
    "'s platform \<Rightarrow> operation_options option \<Rightarrow> (geo_event, ('s, 'c) sdk) submit_fn" where
  "submit_events p options op batch s =
     run_retry p (effective_retry options s) (attempt p s (do_submit_events p op batch)) s"

definition submit_ids ::
    "'s platform \<Rightarrow> operation_options option \<Rightarrow> (int, ('s, 'c) sdk) submit_fn" where
  "submit_ids p options op batch s =
     run_retry p (effective_retry options s) (attempt p s (do_submit_ids p op batch)) s"

definition insert_events ::
    "'s platform \<Rightarrow> geo_event list \<Rightarrow> operation_options option \<Rightarrow> ('s, 'c, batch_error list) step" where
  "insert_events p es options =
     submit_multi_batch (submit_events p options) INSERT_EVENTS es (int BATCH_SIZE_MAX)"

definition upsert_events ::
    "'s platform \<Rightarrow> geo_event list \<Rightarrow> operation_options option \<Rightarrow> ('s, 'c, batch_error list) step" where
  "upsert_events p es options =
     submit_multi_batch (submit_events p options) UPSERT_EVENTS es (int BATCH_SIZE_MAX)"

definition create_batch :: event_batch where "create_batch = new_event_batch ''insert''"

definition create_upsert_batch :: event_batch where "create_upsert_batch = new_event_batch ''upsert''"

definition create_delete_batch :: delete_batch where "create_delete_batch = new_delete_batch"

definition insert_event :: "'s platform \<Rightarrow> geo_event \<Rightarrow> ('s, 'c, batch_error list) step" where
  "insert_event p e s =
     (case event_batch_add e create_batch of
        Inl x \<Rightarrow> (Inl x, s)
      | Inr batch \<Rightarrow>
          (case event_batch_commit (submit_events p None) batch s of (r, b, s) \<Rightarrow> (r, s)))"

definition delete_entities :: "'s platform \<Rightarrow> int list \<Rightarrow> ('s, 'c, delete_result) step" where
  "delete_entities p ids s =
     (case add_all delete_batch_add ids create_delete_batch of
        Inl x \<Rightarrow> (Inl x, s)
      | Inr batch \<Rightarrow>
          (case delete_batch_commit (submit_ids p None) batch s of (r, b, s) \<Rightarrow> (r, s)))"

subsection \<open>Queries\<close>

datatype query_filter =
    UuidFilter int
  | RadiusFilter query_radius_filter
  | PolygonFilter query_polygon_filter
  | LatestFilter query_latest_filter

text \<open>\<open>_submit_query\<close>: the operation and the kind of the filter always go together.\<close>

definition do_query :: "'s platform \<Rightarrow> query_filter \<Rightarrow> ('s \<times> nat, geo_event list) operation" where
  "do_query p f =
     on_link (case f of
        UuidFilter entity \<Rightarrow> native_query_uuid (link_submit p) entity
      | RadiusFilter q \<Rightarrow> native_query_radius (link_submit p) q
      | PolygonFilter q \<Rightarrow> native_query_polygon (link_submit p) q
      | LatestFilter q \<Rightarrow> native_query_latest (link_submit p) q)"

definition submit_query ::
    "'s platform \<Rightarrow> operation_options option \<Rightarrow> query_filter \<Rightarrow> ('s, 'c, geo_event list) step" where
  "submit_query p options f s =
     run_retry p (effective_retry options s) (attempt p s (do_query p f)) s"

definition submit_batch_uuid_query :: "'s platform \<Rightarrow> int list \<Rightarrow> ('s, 'c, query_uuid_batch_result) step" where
  "submit_batch_uuid_query p ids s =
     run_retry p (base_retry s) (attempt p s (on_link (native_query_uuid_batch (link_submit p) ids))) s"

definition get_latest_by_uuid :: "'s platform \<Rightarrow> int \<Rightarrow> ('s, 'c, geo_event option) step" where
  "get_latest_by_uuid p entity =
     guarded (\<lambda>s. then_do (submit_query p None (UuidFilter entity) s)
       (\<lambda>es s. (Inr (case es of [] \<Rightarrow> None | e # _ \<Rightarrow> Some e), s)))"

text \<open>
  The dict that \<open>get_latest_batch\<close> builds: \<open>i\<close> counts the ids, \<open>es\<close> are the events not
  handed out yet.
\<close>

fun assign_results ::
    "int set \<Rightarrow> nat \<Rightarrow> int list \<Rightarrow> geo_event list \<Rightarrow> (int \<rightharpoonup> geo_event option) \<Rightarrow> (int \<rightharpoonup> geo_event option)" where
  "assign_results missing i [] es m = m"
| "assign_results missing i (x # xs) es m =
     (if int i \<in> missing then assign_results missing (Suc i) xs es (m(x \<mapsto> None))
      else case es of
          e # es' \<Rightarrow> assign_results missing (Suc i) xs es' (m(x \<mapsto> Some e))
        | [] \<Rightarrow> assign_results missing (Suc i) xs [] (m(x \<mapsto> None)))"

definition get_latest_batch :: "'s platform \<Rightarrow> int list \<Rightarrow> ('s, 'c, int \<rightharpoonup> geo_event option) step" where
  "get_latest_batch p ids =
     guarded (\<lambda>s.
       if ids = [] then (Inr Map.empty, s)
       else if 10000 < length ids then (Inl (Client BatchTooLarge), s)
       else then_do (submit_batch_uuid_query p ids s) (\<lambda>res s.
         (Inr (assign_results (set (not_found_indices res)) 0 ids (batch_events res) Map.empty), s)))"

definition page :: "int \<Rightarrow> geo_event list \<Rightarrow> query_result" where
  "page limit es =
     \<lparr>events = es, has_more = (int (length es) = limit),
      cursor = (if es = [] then None else Some (timestamp (last es)))\<rparr>"

text \<open>The tail that the three list queries share, after their filter is built.\<close>

definition run_page_query ::
    "'s platform \<Rightarrow> operation_options option \<Rightarrow> int \<Rightarrow> query_filter \<Rightarrow> ('s, 'c, query_result) step" where
  "run_page_query p options limit f s =
     (if QUERY_LIMIT_MAX < limit then (Inl (Client QueryResultTooLarge), s)
      else then_do (submit_query p options f s) (\<lambda>es s. (Inr (page limit es), s)))"

definition query_radius ::
    "'s platform \<Rightarrow> pyfloat \<Rightarrow> pyfloat \<Rightarrow> pyfloat \<Rightarrow> int \<Rightarrow> int \<Rightarrow> int \<Rightarrow> int \<Rightarrow> operation_options option \<Rightarrow>
     ('s, 'c, query_result) step" where
  "query_radius p latitude longitude radius_m limit tmin tmax gid options =
     guarded (\<lambda>s. then_do (lift_builtin (create_radius_query latitude longitude radius_m limit tmin tmax gid), s)
       (\<lambda>q. run_page_query p options (rf_limit q) (RadiusFilter q)))"

definition query_polygon ::
    "'s platform \<Rightarrow> (pyfloat \<times> pyfloat) list \<Rightarrow> (pyfloat \<times> pyfloat) list list option \<Rightarrow> int \<Rightarrow> int \<Rightarrow> int \<Rightarrow> int \<Rightarrow>
     operation_options option \<Rightarrow> ('s, 'c, query_result) step" where
  "query_polygon p vertices holes limit tmin tmax gid options =
     guarded (\<lambda>s. then_do (lift_builtin (create_polygon_query vertices holes limit tmin tmax gid), s)
       (\<lambda>q. run_page_query p options (pf_limit q) (PolygonFilter q)))"

definition query_latest ::
    "'s platform \<Rightarrow> int \<Rightarrow> int \<Rightarrow> int \<Rightarrow> operation_options option \<Rightarrow> ('s, 'c, query_result) step" where
  "query_latest p limit gid cursor_ts options =
     guarded (\<lambda>s. let q = \<lparr>lf_limit = limit, lf_group_id = gid, cursor_timestamp = cursor_ts\<rparr>
       in run_page_query p options (lf_limit q) (LatestFilter q) s)"

subsection \<open>Administration and TTL\<close>

text \<open>These operations check once, do not reconnect, and retry the bare native call.\<close>

definition run_admin :: "'s platform \<Rightarrow> ('s \<Rightarrow> (sdk_exn, 'a) result \<times> 's) \<Rightarrow> ('s, 'c, 'a) step" where
  "run_admin p f s = run_retry p (base_retry s) (on_link f) s"

definition ping :: "'s platform \<Rightarrow> ('s, 'c, bool) step" where
  "ping p = guarded (run_admin p (native_ping (link_submit p)))"

definition get_status :: "'s platform \<Rightarrow> ('s, 'c, status_response) step" where
  "get_status p = guarded (run_admin p (native_get_status (link_submit p)))"

definition cleanup_expired :: "'s platform \<Rightarrow> int \<Rightarrow> ('s, 'c, cleanup_result) step" where
  "cleanup_expired p batch_size =
     guarded (\<lambda>s.
       if batch_size < 0 then (Inl (Builtin ValueError), s)
       else run_admin p (\<lambda>n. case native_cleanup_expired (link_submit p) batch_size n of
              (r, n) \<Rightarrow> (bindE r (\<lambda>(scanned, removed).
                Inr \<lparr>entries_scanned = scanned, entries_removed = removed\<rparr>), n)) s)"

definition set_ttl :: "'s platform \<Rightarrow> int \<Rightarrow> int \<Rightarrow> ('s, 'c, ttl_response) step" where
  "set_ttl p entity ttl =
     guarded (run_admin p (native_ttl_set (link_submit p)
       \<lparr>ts_entity_id = entity, ts_ttl_seconds = ttl, ts_flags = 0\<rparr>))"

definition extend_ttl :: "'s platform \<Rightarrow> int \<Rightarrow> int \<Rightarrow> ('s, 'c, ttl_response) step" where
  "extend_ttl p entity by_seconds =
     guarded (run_admin p (native_ttl_extend (link_submit p)
       \<lparr>te_entity_id = entity, extend_by_seconds = by_seconds, te_flags = 0\<rparr>))"

definition clear_ttl :: "'s platform \<Rightarrow> int \<Rightarrow> ('s, 'c, ttl_clear_response) step" where
  "clear_ttl p entity =
     guarded (run_admin p (native_ttl_clear (link_submit p) \<lparr>tc_entity_id = entity, tc_flags = 0\<rparr>))"

subsection \<open>Topology\<close>

text \<open>\<open>TopologyCache.update\<close> on the client's clock, which it reads again for a notification.\<close>

definition update_cache :: "'s platform \<Rightarrow> topology_response \<Rightarrow> ('s, 'c, unit) step" where
  "update_cache p t s =
     (let w = world s; c = sdk_cache s;
          seconds = clock p (now_idx w);
          w1 = w\<lparr>now_idx := Suc (now_idx w)\<rparr>
      in if version t \<noteq> get_version c \<and> get_version c \<noteq> 0
         then let w2 = w1\<lparr>now_idx := Suc (now_idx w1)\<rparr> in
           (case py_int (f_mul (clock p (now_idx w1)) (Fin 1000000000)) of
              Inl e \<Rightarrow> (Inl (Builtin e), s\<lparr>world := w2, sdk_cache := fst (cache_update seconds 0 t c)\<rparr>)
            | Inr stamp \<Rightarrow>
                (case cache_update seconds stamp t c of (c', ds) \<Rightarrow>
                   (Inr (), s\<lparr>world := w2, sdk_cache := c', notified := notified s @ ds\<rparr>)))
         else (Inr (), s\<lparr>world := w1, sdk_cache := fst (cache_update seconds 0 t c)\<rparr>))"

definition get_topology :: "'s platform \<Rightarrow> ('s, 'c, topology_response) step" where
  "get_topology p =
     guarded (\<lambda>s.
       then_do (run_admin p (\<lambda>n. case native_get_topology (link_submit p) n of
                  (r, n) \<Rightarrow> (bindE r (\<lambda>raw. lift_builtin (topology_from_bytes raw)), n)) s)
       (\<lambda>t s. then_do (update_cache p t s) (\<lambda>_ s. (Inr t, s))))"

definition refresh_topology :: "'s platform \<Rightarrow> ('s, 'c, topology_response) step" where
  "refresh_topology p = get_topology p"

text \<open>The callback that the client hands to its router.\<close>

definition refresh_topology_internal :: "'s platform \<Rightarrow> ('s, 'c, unit) step" where
  "refresh_topology_internal p s = then_do (get_topology p s) (\<lambda>_ s. (Inr (), s))"

definition router_handle :: "'s platform \<Rightarrow> routing_error \<Rightarrow> ('s, 'c) sdk \<Rightarrow> bool \<times> ('s, 'c) sdk" where
  "router_handle p error s = handle_not_shard_leader (Some (refresh_topology_internal p)) error s"

subsection \<open>Scatter-gather queries\<close>

text \<open>
  The workers run \<open>query_shard\<close> on the one native client in the order \<open>schedule\<close>, a
  list of shard positions; the first \<open>in_time\<close> of them finish before the timeout.
  Leaving the executor waits for the rest, so all of them have run in any case.
\<close>

fun run_shards ::
    "('s \<Rightarrow> (sdk_exn, geo_event list) result \<times> 's) \<Rightarrow> int \<Rightarrow> nat list \<Rightarrow> 's \<Rightarrow> (nat \<times> shard_outcome) list \<times> 's" where
  "run_shards f limit [] n = ([], n)"
| "run_shards f limit (i # is) n =
     (case f n of (r, n) \<Rightarrow>
      (case run_shards f limit is n of (os, n) \<Rightarrow> ((i, bindE r (\<lambda>es. Inr (page limit es))) # os, n)))"

definition scatter ::
    "scatter_gather_config option \<Rightarrow> nat list \<Rightarrow> nat \<Rightarrow> ('s \<Rightarrow> (sdk_exn, geo_event list) result \<times> 's) \<Rightarrow>
     int \<Rightarrow> int \<Rightarrow> ('s, 'c, scatter_gather_result) step" where
  "scatter config schedule in_time f filter_limit limit s =
     (let cfg = or_default config default_scatter_gather_config;
          primaries = get_all_shard_primaries (sdk_cache s)
      in if primaries = [] \<or> max_concurrency cfg < 0
         then (execute_sync cfg primaries [] limit, s)
         else
           let w = world s in
           case run_shards f filter_limit schedule (fst (op_state w)) of (os, n) \<Rightarrow>
             (execute_sync cfg primaries (take in_time os) limit,
              s\<lparr>world := w\<lparr>op_state := (n, snd (op_state w))\<rparr>\<rparr>))"

text \<open>\<open>if self._topology_cache.get() is None: self.get_topology()\<close>\<close>

definition load_topology :: "'s platform \<Rightarrow> ('s, 'c, unit) step" where
  "load_topology p s =
     (if cache_get (sdk_cache s) = None then then_do (get_topology p s) (\<lambda>_ s. (Inr (), s)) else (Inr (), s))"

definition query_radius_scatter ::
    "'s platform \<Rightarrow> nat list \<Rightarrow> nat \<Rightarrow> pyfloat \<Rightarrow> pyfloat \<Rightarrow> pyfloat \<Rightarrow> int \<Rightarrow> int \<Rightarrow> int \<Rightarrow> int \<Rightarrow>
     scatter_gather_config option \<Rightarrow> ('s, 'c, scatter_gather_result) step" where
  "query_radius_scatter p schedule in_time latitude longitude radius_m limit tmin tmax gid config =
     guarded (\<lambda>s. then_do (load_topology p s) (\<lambda>_ s.
       then_do (lift_builtin (create_radius_query latitude longitude radius_m limit tmin tmax gid), s) (\<lambda>q s.
       scatter config schedule in_time (native_query_radius (link_submit p) q) (rf_limit q) limit s)))"

definition query_polygon_scatter ::
    "'s platform \<Rightarrow> nat list \<Rightarrow> nat \<Rightarrow> (pyfloat \<times> pyfloat) list \<Rightarrow> (pyfloat \<times> pyfloat) list list option \<Rightarrow>
     int \<Rightarrow> int \<Rightarrow> int \<Rightarrow> int \<Rightarrow> scatter_gather_config option \<Rightarrow> ('s, 'c, scatter_gather_result) step" where
  "query_polygon_scatter p schedule in_time vertices holes limit tmin tmax gid config =
     guarded (\<lambda>s. then_do (load_topology p s) (\<lambda>_ s.
       then_do (lift_builtin (create_polygon_query vertices holes limit tmin tmax gid), s) (\<lambda>q s.
       scatter config schedule in_time (native_query_polygon (link_submit p) q) (pf_limit q) limit s)))"

subsection \<open>Lemmas\<close>

lemma guarded_open [simp]: "\<not> is_closed s \<Longrightarrow> guarded f s = f s"
  by (simp add: guarded_def ensure_connected_def)

lemma guarded_closed [simp]: "is_closed s \<Longrightarrow> guarded f s = (Inl (Client ClientClosedError), s)"
  by (simp add: guarded_def ensure_connected_def)

lemma attempt_closed: "is_closed s \<Longrightarrow> attempt p s f st = (Inl (Client ClientClosedError), st)"
  by (simp add: attempt_def ensure_connected_def)

lemma attempt_open:
  "\<not> is_closed s \<Longrightarrow> link_connected p (fst st) \<Longrightarrow> attempt p s f st = f st"
  by (simp add: attempt_def ensure_connected_def reconnect_def)

lemma run_retry_settles:
  assumes "patient (clock p) cfg" and "operation (op_state (world s)) = (r, st)" and "\<not> retryable_failure r"
  shows "\<exists>w. run_retry p cfg operation s = (r, s\<lparr>world := w\<rparr>) \<and> op_state w = st"
proof -
  obtain w where "with_retry_sync (clock p) (random p) cfg operation (world s) = (r, w)" "op_state w = st"
    using retry_settles [OF assms(1), of operation "world s" r st "random p"] assms(2,3) by blast
  then show ?thesis by (auto simp: run_retry_def)
qed

text \<open>The client object outside \<open>world\<close> is the same.\<close>

definition same_client :: "('s, 'c) sdk \<Rightarrow> ('s, 'c) sdk \<Rightarrow> bool" where
  "same_client s s' \<longleftrightarrow> s'\<lparr>world := world s\<rparr> = s"

lemma same_client_fields:
  "same_client s s' \<Longrightarrow> is_closed s' = is_closed s \<and> base_retry s' = base_retry s \<and>
     sdk_cache s' = sdk_cache s \<and> notified s' = notified s"
  unfolding same_client_def by (cases s, cases s') simp

lemma same_client_world [simp]: "same_client s (s\<lparr>world := w\<rparr>)"
  by (simp add: same_client_def)

lemma same_client_refl [simp]: "same_client s s"
  by (simp add: same_client_def)

lemma same_client_trans: "same_client a b \<Longrightarrow> same_client b c \<Longrightarrow> same_client a c"
  unfolding same_client_def by (cases a, cases b, cases c) simp

lemma effective_retry_same: "same_client s s' \<Longrightarrow> effective_retry options s' = effective_retry options s"
  using same_client_fields [of s s'] by (simp add: effective_retry_def split: option.splits)

text \<open>
  A closed client turns every operation away without a call on the native client: the
  guarded ones before any work, the writes inside their first attempt, whose error is
  not retried.
\<close>

lemma closed_retry_rejects:
  assumes "is_closed s" "patient (clock p) cfg"
  shows "\<exists>w. run_retry p cfg (attempt p s f) s = (Inl (Client ClientClosedError), s\<lparr>world := w\<rparr>)
     \<and> op_state w = op_state (world s)"
  using assms by (intro run_retry_settles)
    (auto simp: attempt_closed retryable_failure_def is_retryable_error_def)

lemma closed_submit_rejects:
  assumes "is_closed s" "patient (clock p) (effective_retry options s)"
  shows "\<exists>w. submit_events p options op es s = (Inl (Client ClientClosedError), s\<lparr>world := w\<rparr>)
      \<and> op_state w = op_state (world s)"
    and "\<exists>w. submit_ids p options op ids s = (Inl (Client ClientClosedError), s\<lparr>world := w\<rparr>)
      \<and> op_state w = op_state (world s)"
  using closed_retry_rejects [OF assms] by (simp_all add: submit_events_def submit_ids_def)

definition turned_away :: "('s, 'c) sdk \<Rightarrow> (sdk_exn, 'a) result \<times> ('s, 'c) sdk \<Rightarrow> bool" where
  "turned_away s out \<longleftrightarrow> fst out = Inl (Client ClientClosedError) \<and> same_client s (snd out) \<and>
     op_state (world (snd out)) = op_state (world s)"

lemma turned_awayI:
  "out = (Inl (Client ClientClosedError), s\<lparr>world := w\<rparr>) \<Longrightarrow> op_state w = op_state (world s) \<Longrightarrow> turned_away s out"
  by (simp add: turned_away_def)

lemma closed_multi_batch:
  assumes "is_closed s" "patient (clock p) (effective_retry options s)" "es \<noteq> []"
  shows "turned_away s (submit_multi_batch (submit_events p options) op es (int BATCH_SIZE_MAX) s)"
proof -
  obtain w where "submit_events p options op (take BATCH_SIZE_MAX es) s
      = (Inl (Client ClientClosedError), s\<lparr>world := w\<rparr>)" "op_state w = op_state (world s)"
    using closed_submit_rejects(1) [OF assms(1,2)] by blast
  with assms(3) show ?thesis
    by (intro turned_awayI [of _ w s])
       (simp_all add: submit_multi_batch_def BATCH_SIZE_MAX_def chunks_step)
qed

lemma closed_delete:
  assumes "is_closed s" "patient (clock p) (base_retry s)"
    and "ids \<noteq> []" "0 \<notin> set ids" "length ids \<le> BATCH_SIZE_MAX"
  shows "turned_away s (delete_entities p ids s)"
proof -
  obtain b where b: "add_all delete_batch_add ids create_delete_batch = Inr b"
    using delete_builder.add_all_accepts [of ids create_delete_batch] assms(4,5)
    by (auto simp: create_delete_batch_def new_delete_batch_def)
  then have "db_entity_ids b = ids"
    using delete_builder.add_all_Inr [of ids create_delete_batch b]
    by (simp add: create_delete_batch_def new_delete_batch_def)
  moreover obtain w where "submit_ids p None DELETE_ENTITIES ids s
      = (Inl (Client ClientClosedError), s\<lparr>world := w\<rparr>)" "op_state w = op_state (world s)"
    using closed_submit_rejects(2) [of s p None] assms(1,2) by (auto simp: effective_retry_def)
  ultimately show ?thesis using assms(3) b
    by (intro turned_awayI [of _ w s]) (simp_all add: delete_entities_def delete_batch_commit_def)
qed

text \<open>A platform on which every request comes back failed, whatever the reason.\<close>

definition always_fails :: "'s platform \<Rightarrow> bool" where
  "always_fails p \<longleftrightarrow> (\<forall>n. link_connected p n) \<and>
     (\<forall>op wire n. \<exists>r n'. link_submit p op wire n = (Inr r, n') \<and> status_failed r)"

lemma always_failsD:
  assumes "always_fails p"
  obtains r n' where "link_submit p op wire n = (Inr r, n')" "status_failed r"
  using assms unfolding always_fails_def by blast

lemma failed_read_settles:
  assumes "always_fails p" "\<not> is_closed s" "patient (clock p) cfg"
    and call: "\<And>n. \<exists>n'. f n = (Inr v, n')"
  shows "\<exists>w. run_retry p cfg (attempt p s (on_link f)) s = (Inr v, s\<lparr>world := w\<rparr>)"
proof -
  obtain n t where nt: "op_state (world s) = (n, t)" by fastforce
  obtain n' where "f n = (Inr v, n')" using call by blast
  then have "attempt p s (on_link f) (op_state (world s)) = (Inr v, n', t)"
    using assms(1,2) nt by (simp add: attempt_open always_fails_def on_link_def)
  from run_retry_settles [OF assms(3), of "attempt p s (on_link f)" s, OF this]
  show ?thesis by (auto simp: retryable_failure_def)
qed

lemma failed_query:
  assumes "always_fails p" "\<not> is_closed s" "patient (clock p) (effective_retry options s)"
    and "case f of PolygonFilter q \<Rightarrow> polygon_filter_fits q | _ \<Rightarrow> True"
  shows "\<exists>w. submit_query p options f s = (Inr [], s\<lparr>world := w\<rparr>)"
proof -
  have "\<exists>n'. (case f of
        UuidFilter entity \<Rightarrow> native_query_uuid (link_submit p) entity
      | RadiusFilter q \<Rightarrow> native_query_radius (link_submit p) q
      | PolygonFilter q \<Rightarrow> native_query_polygon (link_submit p) q
      | LatestFilter q \<Rightarrow> native_query_latest (link_submit p) q) n = (Inr [], n')" for n
  proof (cases f)
    case (UuidFilter x)
    then show ?thesis
      by (rule_tac always_failsD [OF assms(1), of QUERY_UUID "query_uuid_filter_to_wire x" n])
         (simp add: native_query_uuid_def interpret_query_uuid_def)
  next
    case (RadiusFilter q)
    then show ?thesis
      by (rule_tac always_failsD [OF assms(1), of QUERY_RADIUS "query_radius_filter_to_wire q" n])
         (simp add: native_query_radius_def interpret_events_def)
  next
    case (PolygonFilter q)
    with assms(4) have "query_polygon_filter_to_wire q = Inr (polygon_layout q)"
      by (simp add: query_polygon_filter_to_wire_eq)
    with PolygonFilter show ?thesis
      by (rule_tac always_failsD [OF assms(1), of QUERY_POLYGON "polygon_layout q" n])
         (simp add: native_query_polygon_def interpret_events_def)
  next
    case (LatestFilter q)
    then show ?thesis
      by (rule_tac always_failsD [OF assms(1), of QUERY_LATEST "query_latest_filter_to_wire q" n])
         (simp add: native_query_latest_def interpret_events_def)
  qed
  from failed_read_settles [OF assms(1-3) this] show ?thesis
    by (simp add: submit_query_def do_query_def)
qed

subsection \<open>Properties\<close>

text \<open>C3: After \<open>close\<close> every operation is turned away with \<open>ClientClosedError\<close> and reaches
  neither the native client nor the cache: reads, administration, TTL, topology and
  scatter queries, writes of a non-empty batch and deletions of acceptable ids.\<close>

theorem closed_client_rejects_everything:
  assumes "patient (clock p) (base_retry s)" and "es \<noteq> []"
    and "ids \<noteq> []" "0 \<notin> set ids" "length ids \<le> BATCH_SIZE_MAX" and s': "s' = close p s"
  shows "\<not> client_is_connected s' \<and> close p s' = s' \<and>
    turned_away s' (insert_events p es None s') \<and> turned_away s' (upsert_events p es None s') \<and>
    turned_away s' (delete_entities p ids s') \<and>
    turned_away s' (get_latest_by_uuid p entity s') \<and> turned_away s' (get_latest_batch p ids s') \<and>
    turned_away s' (query_radius p la lo ra li tmin tmax gid options s') \<and>
    turned_away s' (query_polygon p vs hs li tmin tmax gid options s') \<and>
    turned_away s' (query_latest p li gid ct options s') \<and>
    turned_away s' (ping p s') \<and> turned_away s' (get_status p s') \<and>
    turned_away s' (cleanup_expired p bs s') \<and> turned_away s' (set_ttl p entity ttl s') \<and>
    turned_away s' (extend_ttl p entity ttl s') \<and> turned_away s' (clear_ttl p entity s') \<and>
    turned_away s' (get_topology p s') \<and> turned_away s' (refresh_topology p s') \<and>
    turned_away s' (query_radius_scatter p sch k la lo ra li tmin tmax gid cfg s') \<and>
    turned_away s' (query_polygon_scatter p sch k vs hs li tmin tmax gid cfg s')"
proof -
  have c: "is_closed s'" and r: "base_retry s' = base_retry s" by (simp_all add: s' close_def Let_def)
  have pat: "patient (clock p) (effective_retry None s')" using assms(1) r by (simp add: effective_retry_def)
  have writes: "turned_away s' (insert_events p es None s')" "turned_away s' (upsert_events p es None s')"
    unfolding insert_events_def upsert_events_def by (rule closed_multi_batch [OF c pat assms(2)])+
  have deletes: "turned_away s' (delete_entities p ids s')"
    using assms(1,3-5) r c by (intro closed_delete) simp_all
  have closing: "\<not> client_is_connected s'" "close p s' = s'"
    using c by (simp_all add: client_is_connected_def close_def)
  from writes deletes closing c show ?thesis
    by (simp add: turned_away_def get_latest_by_uuid_def get_latest_batch_def query_radius_def
      query_polygon_def query_latest_def ping_def get_status_def cleanup_expired_def
      set_ttl_def extend_ttl_def clear_ttl_def get_topology_def refresh_topology_def
      query_radius_scatter_def query_polygon_scatter_def)
qed

text \<open>A platform whose native client counts the calls it gets and fails them.\<close>

definition failing_platform :: "nat platform" where
  "failing_platform =
     \<lparr>link_connected = \<lambda>n. True, link_connect = \<lambda>n. (True, n), link_disconnect = \<lambda>n. n,
      link_submit = \<lambda>op wire n. (Inr \<lparr>nr_status = - 2, data_size = 0, nr_data = None\<rparr>, Suc n),
      clock = \<lambda>i. Fin 0, random = \<lambda>i. Fin 0, clock_ns = \<lambda>i. 0\<rparr>"

definition fresh_client :: "'s \<Rightarrow> ('s, unit) sdk" where
  "fresh_client n =
     \<lparr>is_closed = False, base_retry = default_retry_config, sdk_cache = new_cache, notified = [],
      world = fresh_env (n, 0)\<rparr>"

lemma frozen_0: "frozen (\<lambda>i. Fin 0)"
  by (auto simp: frozen_def)

lemma default_patient: "patient (\<lambda>i. Fin 0) default_retry_config"
  by (rule frozen_patient [OF frozen_0]) (simp_all add: timeout_ample_def default_retry_config_def)

theorem closed_client_rejects_everything_witness:
  "turned_away (close failing_platform (fresh_client 0))
     (insert_events failing_platform [sample_event] None (close failing_platform (fresh_client 0))) \<and>
   turned_away (close failing_platform (fresh_client 0))
     (get_latest_batch failing_platform [7] (close failing_platform (fresh_client 0)))"
proof -
  have "patient (clock failing_platform) (base_retry (fresh_client 0))"
    using default_patient by (simp add: failing_platform_def fresh_client_def)
  from closed_client_rejects_everything [OF this, of "[sample_event]" "[7]"] show ?thesis
    by (simp add: BATCH_SIZE_MAX_def)
qed



end
