(* ===== verification/End_To_End.thy ===== *)
theory End_To_End
  imports Client
begin

section \<open>End to end: the client over the native client against a server\<close>

text \<open>
  What the server does is a parameter, a function from the request bytes to the
  response bytes over a state of its own.  The locale \<open>serving_link\<close> states what the
  client needs from a platform, \<open>event_store\<close> adds the documented contract of the
  database for inserts and lookups; both are interpreted on the native client's
  model talking to a concrete store.
\<close>

subsection \<open>The interface\<close>

locale serving_link =
  fixes p :: "'s platform"
    and ready :: "'s \<Rightarrow> bool"
    and srv :: "'s \<Rightarrow> 'w"
    and serve :: "geo_operation \<Rightarrow> bytes \<Rightarrow> 'w \<Rightarrow> bytes \<times> 'w"
  assumes ready_connected: "ready n \<Longrightarrow> link_connected p n"
    and answered: "ready n \<Longrightarrow> serve op wire (srv n) = (reply, w) \<Longrightarrow>
      \<exists>n'. link_submit p op wire n = (Inr (ok_response reply), n') \<and> ready n' \<and> srv n' = w"
begin

definition server_of :: "('s, 'c) sdk \<Rightarrow> 'w" where
  "server_of s = srv (state_of s)"

definition usable :: "operation_options option \<Rightarrow> ('s, 'c) sdk \<Rightarrow> bool" where
  "usable options s \<longleftrightarrow> \<not> is_closed s \<and> ready (state_of s) \<and> patient (clock p) (effective_retry options s)"

lemma retried_attempt:
  assumes "usable options s" and "f (op_state (world s)) = (r, st)" and "\<not> retryable_failure r"
  shows "\<exists>w. run_retry p (effective_retry options s) (attempt p s f) s = (r, s\<lparr>world := w\<rparr>) \<and> op_state w = st"
  using assms by (intro run_retry_settles)
    (simp_all add: usable_def attempt_open ready_connected state_of_def)

lemma usable_after:
  "usable options s \<Longrightarrow> ready (fst (op_state w)) \<Longrightarrow> usable options (s\<lparr>world := w\<rparr>)"
  using effective_retry_same [of s "s\<lparr>world := w\<rparr>" options] by (simp add: usable_def state_of_def)

end

subsection \<open>A store\<close>

text \<open>The server's view of the requests, and its answers in the documented layouts.\<close>

definition lookup_ids :: "bytes \<Rightarrow> int list" where
  "lookup_ids wire = take (nat (le_int (slice 0 4 wire))) (map c_uint128_to_python (chunks 16 (drop 16 wire)))"

definition answer_lookup :: "(int \<rightharpoonup> geo_event) \<Rightarrow> int list \<Rightarrow> bytes" where
  "answer_lookup db ids =
     batch_layout (map int (filter (\<lambda>i. db (ids ! i) = None) [0..<length ids])) (map (\<lambda>x. the (db x)) (filter (\<lambda>x. db x \<noteq> None) ids))"

definition latest_in :: "geo_event list \<Rightarrow> int \<rightharpoonup> geo_event" where
  "latest_in stored x = find (\<lambda>e. entity_id e = x) (rev stored)"

definition answer_insert :: "(geo_event \<Rightarrow> int) \<Rightarrow> geo_event list \<Rightarrow> bytes" where
  "answer_insert judge es = concat (map row_layout (map (\<lambda>(i, e). (int i, judge e)) (enumerate 0 es)))"

definition answer_uuid :: "(int \<rightharpoonup> geo_event) \<Rightarrow> int \<Rightarrow> bytes" where
  "answer_uuid db x =
     (case db x of
        Some e \<Rightarrow> replicate 16 0 @ geo_event_layout e
      | None \<Rightarrow> word_of_int (state_error_code STATE_ENTITY_NOT_FOUND) # replicate 15 0)"

text \<open>
  The contract of the database: an insert stores, in order, the events that it accepts
  (code 0) and answers one row per event; a lookup reads the last stored event of
  each entity.
\<close>

locale event_store = serving_link p ready srv serve
  for p :: "'s platform" and ready :: "'s \<Rightarrow> bool" and srv :: "'s \<Rightarrow> geo_event list" and serve +
  fixes judge :: "geo_event \<Rightarrow> int"
  assumes judge_code: "u32 (judge e)"
    and serve_insert: "serve INSERT_EVENTS wire stored =
      (answer_insert judge (parse_events wire), stored @ filter (\<lambda>e. judge e = 0) (parse_events wire))"
    and serve_lookups: "serve QUERY_UUID_BATCH wire stored = (answer_lookup (latest_in stored) (lookup_ids wire), stored)"
    and serve_lookup: "serve QUERY_UUID wire stored =
      (answer_uuid (latest_in stored) (c_uint128_to_python (slice 0 16 wire)), stored)"

text \<open>The error that the client reports for an event the server judges.\<close>

definition verdict :: "(geo_event \<Rightarrow> int) \<Rightarrow> geo_event \<Rightarrow> int \<Rightarrow> batch_error option" where
  "verdict judge e i =
     (if judge e = 0 then None else Some (InsertError \<lparr>ie_index = i, ie_result = decode_insert (judge e)\<rparr>))"

definition clock_after :: "ns_clock \<Rightarrow> nat \<Rightarrow> geo_event list \<Rightarrow> nat" where
  "clock_after now t es = snd (events_to_wire now t es)"

lemma decode_insert_ok: "decode_insert c = INSERT_OK \<longleftrightarrow> c = 0"
proof
  assume h: "decode_insert c = INSERT_OK"
  then have "enum_of_code insert_results insert_result_code c = Inr INSERT_OK"
    by (cases "enum_of_code insert_results insert_result_code c") (auto simp: decode_insert_def)
  then show "c = 0" by (simp add: insert_enum.of_code_Inr_iff)
next
  assume "c = 0"
  then have "c = insert_result_code INSERT_OK" by simp
  then show "decode_insert c = INSERT_OK"
    by (simp only: decode_insert_def insert_enum.of_code_code) simp
qed

lemma clock_after_Cons:
  "clock_after now t (e # es) = clock_after now (if event_id e = 0 then Suc t else t) es"
  by (simp add: clock_after_def sent_event_layout split: prod.splits)

lemma sent_events_append:
  "sent_events now t (xs @ ys) = sent_events now t xs @ sent_events now (clock_after now t xs) ys"
  by (induction xs arbitrary: t) (simp_all add: clock_after_Cons, simp add: clock_after_def)

lemma clock_after_append: "clock_after now t (xs @ ys) = clock_after now (clock_after now t xs) ys"
  by (induction xs arbitrary: t) (simp_all add: clock_after_Cons, simp add: clock_after_def)

lemma events_to_wire_pair:
  "events_to_wire now t es = (concat (map geo_event_layout (sent_events now t es)), clock_after now t es)"
  by (simp add: clock_after_def prod_eq_iff events_to_wire_layout)

text \<open>What the client makes of the rows of a write response.\<close>

lemma reported_errors:
  "map (\<lambda>(idx, code). InsertError \<lparr>ie_index = idx, ie_result = code\<rparr>)
     (filter (\<lambda>q. snd q \<noteq> INSERT_OK)
       (map (\<lambda>q. (fst q, decode_insert (snd q))) (map (\<lambda>(i, e). (int i, judge e)) (enumerate k es))))
   = item_errors (verdict judge) (int k) es"
proof (induction es arbitrary: k)
  case Nil
  then show ?case by simp
next
  case (Cons e es)
  have "int k + 1 = int (Suc k)" by simp
  with Cons [of "Suc k"] show ?case by (simp add: verdict_def decode_insert_ok add.commute)
qed

lemma parse_answer_insert:
  assumes "\<And>e. u32 (judge e)" and "length es < 2 ^ 32"
  shows "map (\<lambda>(idx, code). InsertError \<lparr>ie_index = idx, ie_result = code\<rparr>)
      (parse_insert_results (ok_response (answer_insert judge es))) = item_errors (verdict judge) 0 es"
proof -
  let ?ps = "map (\<lambda>(i, e). (int i, judge e)) (enumerate 0 es)"
  have "\<forall>q\<in>set ?ps. u32 (fst q) \<and> u32 (snd q)"
    using assms by (auto simp: in_set_enumerate_eq width_defs)
  from parse_insert_results_rows [OF this] show ?thesis
    using reported_errors [of judge 0 es] by (simp add: answer_insert_def)
qed

context event_store begin

lemma insert_chunk:
  assumes "ready n" "srv n = stored" "\<forall>e\<in>set es. event_fits e" "es \<noteq> []" "length es < 2 ^ 32"
  shows "\<exists>n'. do_submit_events p INSERT_EVENTS es (n, t)
      = (Inr (item_errors (verdict judge) 0 (sent_events (clock_ns p) t es)), n', clock_after (clock_ns p) t es)
    \<and> ready n' \<and> srv n' = stored @ filter (\<lambda>e. judge e = 0) (sent_events (clock_ns p) t es)"
proof -
  let ?sent = "sent_events (clock_ns p) t es"
  let ?wire = "concat (map geo_event_layout ?sent)"
  have parsed: "parse_events ?wire = ?sent"
    using parse_events_layout [of ?sent "[]"] sent_events_fit [OF assms(3)] by simp
  obtain n' where n': "link_submit p INSERT_EVENTS ?wire n = (Inr (ok_response (answer_insert judge ?sent)), n')"
      "ready n'" "srv n' = stored @ filter (\<lambda>e. judge e = 0) ?sent"
    using answered [of n INSERT_EVENTS ?wire] assms(1,2) by (auto simp: serve_insert parsed)
  have "parse_insert_results (ok_response (answer_insert judge ?sent)) = x \<Longrightarrow>
      map (\<lambda>(idx, code). InsertError \<lparr>ie_index = idx, ie_result = code\<rparr>) x = item_errors (verdict judge) 0 ?sent" for x
    using parse_answer_insert [of judge ?sent] judge_code assms(5) by auto
  with n' assms(4) show ?thesis
    by (simp add: do_submit_events_def native_insert_events_def events_to_wire_pair check_write_status_def)
qed

lemma insert_submission:
  assumes "usable options s" "op_state (world s) = (n, t)" "server_of s = stored"
    and "\<forall>e\<in>set es. event_fits e" "es \<noteq> []" "length es < 2 ^ 32"
  shows "\<exists>w n'. submit_events p options INSERT_EVENTS es s
      = (Inr (item_errors (verdict judge) 0 (sent_events (clock_ns p) t es)), s\<lparr>world := w\<rparr>)
    \<and> op_state w = (n', clock_after (clock_ns p) t es) \<and> ready n'
    \<and> srv n' = stored @ filter (\<lambda>e. judge e = 0) (sent_events (clock_ns p) t es)"
proof -
  have n: "ready n" "srv n = stored"
    using assms(1-3) by (simp_all add: usable_def server_of_def state_of_def)
  obtain n' where n': "do_submit_events p INSERT_EVENTS es (op_state (world s))
      = (Inr (item_errors (verdict judge) 0 (sent_events (clock_ns p) t es)), n', clock_after (clock_ns p) t es)"
      "ready n'" "srv n' = stored @ filter (\<lambda>e. judge e = 0) (sent_events (clock_ns p) t es)"
    using insert_chunk [OF n assms(4-6)] assms(2) by force
  from retried_attempt [of options s "do_submit_events p INSERT_EVENTS es", OF assms(1) n'(1)] n'(2,3)
  show ?thesis
    by (auto simp: submit_events_def retryable_failure_def)
qed

lemma insert_chunks:
  assumes "usable options s" "op_state (world s) = (n, t)" "server_of s = stored"
    and "\<forall>e\<in>set es. event_fits e" "0 < k" "k < 2 ^ 32"
  shows "\<exists>w n'. submit_chunks (submit_events p options) INSERT_EVENTS k off (chunks k es) acc s
      = (Inr (acc @ item_errors (verdict judge) (int off) (sent_events (clock_ns p) t es)), s\<lparr>world := w\<rparr>)
    \<and> op_state w = (n', clock_after (clock_ns p) t es) \<and> ready n'
    \<and> srv n' = stored @ filter (\<lambda>e. judge e = 0) (sent_events (clock_ns p) t es)"
  using assms(1-4)
proof (induction "length es" arbitrary: es s n t stored off acc rule: less_induct)
  case less
  let ?ns = "clock_ns p"
  show ?case
  proof (cases "es = []")
    case True
    with less.prems show ?thesis
      by (intro exI [of _ "world s"] exI [of _ n])
         (simp add: clock_after_def usable_def server_of_def state_of_def)
  next
    case False
    let ?c = "take k es" let ?d = "drop k es"
    let ?sent = "sent_events ?ns t ?c"
    have fits: "\<forall>e\<in>set ?c. event_fits e" "\<forall>e\<in>set ?d. event_fits e"
      using less.prems(4) by (meson in_set_takeD in_set_dropD)+
    have c: "?c \<noteq> []" "length ?c < 2 ^ 32" using False assms(5,6) by simp_all
    obtain w n' where w: "submit_events p options INSERT_EVENTS ?c s
          = (Inr (item_errors (verdict judge) 0 ?sent), s\<lparr>world := w\<rparr>)"
        "op_state w = (n', clock_after ?ns t ?c)" "ready n'"
        "srv n' = stored @ filter (\<lambda>e. judge e = 0) ?sent"
      using insert_submission [OF less.prems(1-3) fits(1) c] by blast
    let ?s = "s\<lparr>world := w\<rparr>"
    have s: "usable options ?s" "op_state (world ?s) = (n', clock_after ?ns t ?c)"
        "server_of ?s = stored @ filter (\<lambda>e. judge e = 0) ?sent"
      using usable_after [OF less.prems(1), of w] w by (simp_all add: server_of_def state_of_def)
    have shift: "item_errors (verdict judge) (int off) ?sent
        = map (offset_error (int off)) (item_errors (verdict judge) 0 ?sent)"
      using item_errors_shift [of "verdict judge" 0 "int off" ?sent] by (simp add: verdict_def)
    have next_off: "item_errors (verdict judge) (int off) (?sent @ sent_events ?ns (clock_after ?ns t ?c) ?d)
        = item_errors (verdict judge) (int off) ?sent @
          item_errors (verdict judge) (int (off + k)) (sent_events ?ns (clock_after ?ns t ?c) ?d)"
    proof (cases "length es \<le> k")
      case False
      then show ?thesis by (simp add: item_errors_append)
    qed simp
    have whole: "sent_events ?ns t es = ?sent @ sent_events ?ns (clock_after ?ns t ?c) ?d"
        "clock_after ?ns t es = clock_after ?ns (clock_after ?ns t ?c) ?d"
      using sent_events_append [of ?ns t ?c ?d] clock_after_append [of ?ns t ?c ?d] by simp_all
    have "length ?d < length es" using False assms(5) by simp
    from less.hyps [OF this s fits(2), of "off + k"
        "acc @ item_errors (verdict judge) (int off) ?sent"] w(1) False assms(5) shift
    show ?thesis
      by (auto simp: chunks_step offset_batch_errors_eq next_off whole)
  qed
qed

end

subsection \<open>Lookups\<close>

definition lookup_answers :: "(int \<rightharpoonup> geo_event) \<Rightarrow> int list \<Rightarrow> (int \<rightharpoonup> geo_event option)" where
  "lookup_answers db ids = (\<lambda>x. if x \<in> set ids then Some (db x) else None)"

text \<open>
  Pairing the found events with the ids that are not in the missing set puts every
  event under its own id, also when an id occurs more than once.
\<close>

lemma assign_results_lookup:
  assumes "\<forall>i<length ids. int (k + i) \<in> missing \<longleftrightarrow> db (ids ! i) = None"
  shows "assign_results missing k ids (map (\<lambda>x. the (db x)) (filter (\<lambda>x. db x \<noteq> None) ids)) m = m ++ lookup_answers db ids"
  using assms
proof (induction ids arbitrary: k m)
  case Nil
  then show ?case by (simp add: lookup_answers_def map_add_def)
next
  case (Cons x xs)
  have "int k \<in> missing \<longleftrightarrow> db x = None" using Cons.prems by (auto dest: spec [of _ 0])
  moreover have "\<forall>i<length xs. int (Suc k + i) \<in> missing \<longleftrightarrow> db (xs ! i) = None"
    using Cons.prems by (metis Suc_less_eq add_Suc_shift length_Cons nth_Cons_Suc)
  from Cons.IH [OF this] have rest: "assign_results missing (Suc k) xs (map (\<lambda>x. the (db x)) (filter (\<lambda>x. db x \<noteq> None) xs)) m'
      = m' ++ lookup_answers db xs" for m' .
  moreover have "m(x \<mapsto> db x) ++ lookup_answers db xs = m ++ lookup_answers db (x # xs)"
    by (rule ext) (simp add: lookup_answers_def map_add_def)
  ultimately show ?case by (cases "db x") simp_all
qed

interpretation u128_codec: fixed_codec "le_bytes 16" c_uint128_to_python "\<lambda>k. 0 \<le> k \<and> k < 2 ^ 128" 16
  by unfold_locales (use c_uint128_roundtrip in \<open>auto simp: c_uint128_eq\<close>)

definition u128s :: "int list \<Rightarrow> bool" where
  "u128s ids \<longleftrightarrow> (\<forall>x\<in>set ids. 0 \<le> x \<and> x < 2 ^ 128)"

lemma ids_to_wire_u128s: "u128s ids \<Longrightarrow> ids_to_wire ids = Inr (concat (map (le_bytes 16) ids))"
  unfolding ids_to_wire_def u128s_def by (subst mapE_all_ok [where g = "le_bytes 16"]) simp_all

lemma lookup_ids_request:
  assumes "u128s ids" "length ids < 2 ^ 32"
  shows "lookup_ids ((le_bytes 4 (int (length ids)) @ replicate 12 0) @ concat (map (le_bytes 16) ids)) = ids"
proof -
  have "map c_uint128_to_python (chunks 16 (concat (map (le_bytes 16) ids))) = ids"
    using assms(1) by (intro u128_codec.array_roundtrip) (auto simp: u128s_def)
  with assms(2) show ?thesis by (simp add: lookup_ids_def slice_prefix le_int_le_bytes_id)
qed

lemma few_selected:
  assumes "length xs \<le> 10000"
  shows "length (filter P xs) < 4294967296"
proof -
  have "length (filter P xs) \<le> 10000" using length_filter_le [of P xs] assms by (rule order_trans)
  also have "(10000 :: nat) < 4294967296" by simp
  finally show ?thesis .
qed

lemma interpret_answer_lookup:
  assumes "\<And>x e. db x = Some e \<Longrightarrow> event_fits e" "length ids \<le> 10000"
  defines "missing \<equiv> map int (filter (\<lambda>i. db (ids ! i) = None) [0..<length ids])"
    and "found \<equiv> map (\<lambda>x. the (db x)) (filter (\<lambda>x. db x \<noteq> None) ids)"
  shows "interpret_uuid_batch (length ids) (ok_response (answer_lookup db ids)) =
    \<lparr>found_count = int (length found), not_found_count = int (length missing),
     not_found_indices = missing, batch_events = found\<rparr>"
  unfolding answer_lookup_def missing_def found_def
proof (rule interpret_uuid_batch_layout)
  show "\<forall>e\<in>set (map (\<lambda>x. the (db x)) (filter (\<lambda>x. db x \<noteq> None) ids)). event_fits e"
    using assms(1) by auto
  show "length (map (\<lambda>x. the (db x)) (filter (\<lambda>x. db x \<noteq> None) ids)) < 2 ^ 32"
    and "length (map int (filter (\<lambda>i. db (ids ! i) = None) [0..<length ids])) < 2 ^ 32"
    using assms(2) by (simp_all add: few_selected)
qed (use assms(2) in auto)

lemma assign_answer_lookup:
  "assign_results (set (map int (filter (\<lambda>i. db (ids ! i) = None) [0..<length ids]))) 0 ids
     (map (\<lambda>x. the (db x)) (filter (\<lambda>x. db x \<noteq> None) ids)) Map.empty = lookup_answers db ids"
  by (subst assign_results_lookup) auto

lemma latest_in_fits: "\<forall>e\<in>set stored. event_fits e \<Longrightarrow> latest_in stored x = Some e \<Longrightarrow> event_fits e"
  by (auto simp: latest_in_def find_Some_iff) (metis length_rev nth_mem set_rev)

lemma interpret_answer_uuid:
  assumes "\<And>e. db x = Some e \<Longrightarrow> event_fits e"
  shows "interpret_query_uuid (ok_response (answer_uuid db x)) = Inr (case db x of Some e \<Rightarrow> [e] | None \<Rightarrow> [])"
proof (cases "db x")
  case None
  then show ?thesis by (simp add: answer_uuid_def interpret_query_uuid_def)
next
  case (Some e)
  have "slice 16 (16 + 128) (replicate 16 0 @ geo_event_layout e) = geo_event_layout e"
    by (simp add: slice_append_right slice_whole)
  moreover have "(replicate 16 0 @ geo_event_layout e) ! 0 = (0 :: byte)"
    by (simp add: nth_append)
  ultimately show ?thesis
    using Some assms by (simp add: answer_uuid_def interpret_query_uuid_def event_roundtrip)
qed

context event_store begin

lemma batch_lookup:
  assumes "usable None s" "server_of s = stored" "\<forall>e\<in>set stored. event_fits e"
    and "ids \<noteq> []" "length ids \<le> 10000" "u128s ids"
  shows "\<exists>w. get_latest_batch p ids s = (Inr (lookup_answers (latest_in stored) ids), s\<lparr>world := w\<rparr>)
    \<and> ready (fst (op_state w)) \<and> srv (fst (op_state w)) = stored"
proof -
  obtain n t where nt: "op_state (world s) = (n, t)" by fastforce
  have n: "ready n" "srv n = stored" and alive: "\<not> is_closed s"
    using assms(1,2) nt by (simp_all add: usable_def server_of_def state_of_def)
  let ?wire = "(le_bytes 4 (int (length ids)) @ replicate 12 0) @ concat (map (le_bytes 16) ids)"
  let ?db = "latest_in stored"
  let ?res = "interpret_uuid_batch (length ids) (ok_response (answer_lookup ?db ids))"
  have "lookup_ids ?wire = ids" using assms(5,6) by (intro lookup_ids_request) simp_all
  then obtain n' where n': "link_submit p QUERY_UUID_BATCH ?wire n = (Inr (ok_response (answer_lookup ?db ids)), n')"
      "ready n'" "srv n' = stored"
    using answered [of n QUERY_UUID_BATCH ?wire] n by (auto simp: serve_lookups)
  then have call: "on_link (native_query_uuid_batch (link_submit p) ids) (op_state (world s)) = (Inr ?res, n', t)"
    using assms(4,6) nt by (simp add: on_link_def native_query_uuid_batch_def ids_to_wire_u128s)
  obtain w where w: "run_retry p (effective_retry None s)
        (attempt p s (on_link (native_query_uuid_batch (link_submit p) ids))) s = (Inr ?res, s\<lparr>world := w\<rparr>)"
      "op_state w = (n', t)"
    using retried_attempt [of None s "on_link (native_query_uuid_batch (link_submit p) ids)", OF assms(1) call]
    by (auto simp: retryable_failure_def)
  have "?res = \<lparr>found_count = int (length (map (\<lambda>x. the (?db x)) (filter (\<lambda>x. ?db x \<noteq> None) ids))),
      not_found_count = int (length (map int (filter (\<lambda>i. ?db (ids ! i) = None) [0..<length ids]))),
      not_found_indices = map int (filter (\<lambda>i. ?db (ids ! i) = None) [0..<length ids]),
      batch_events = map (\<lambda>x. the (?db x)) (filter (\<lambda>x. ?db x \<noteq> None) ids)\<rparr>"
    using latest_in_fits [OF assms(3)] assms(5) by (intro interpret_answer_lookup) auto
  then have "assign_results (set (not_found_indices ?res)) 0 ids (batch_events ?res) Map.empty = lookup_answers ?db ids"
    using assign_answer_lookup [of ?db ids] by simp
  with w n'(2,3) alive assms(4,5) show ?thesis
    by (intro exI [of _ w]) (simp add: get_latest_batch_def submit_batch_uuid_query_def effective_retry_def)
qed

lemma single_lookup:
  assumes "usable None s" "server_of s = stored" "\<forall>e\<in>set stored. event_fits e"
    and "0 \<le> x" "x < 2 ^ 128"
  shows "\<exists>w. get_latest_by_uuid p x s = (Inr (latest_in stored x), s\<lparr>world := w\<rparr>)
    \<and> ready (fst (op_state w)) \<and> srv (fst (op_state w)) = stored"
proof -
  obtain n t where nt: "op_state (world s) = (n, t)" by fastforce
  have n: "ready n" "srv n = stored" and alive: "\<not> is_closed s"
    using assms(1,2) nt by (simp_all add: usable_def server_of_def state_of_def)
  let ?wire = "query_uuid_filter_to_wire x"
  let ?db = "latest_in stored"
  have "c_uint128_to_python (slice 0 16 ?wire) = x"
    using assms(4,5) by (simp add: query_uuid_filter_to_wire_def slice_prefix c_uint128_roundtrip)
  then obtain n' where n': "link_submit p QUERY_UUID ?wire n = (Inr (ok_response (answer_uuid ?db x)), n')"
      "ready n'" "srv n' = stored"
    using answered [of n QUERY_UUID ?wire] n by (auto simp: serve_lookup)
  have "interpret_query_uuid (ok_response (answer_uuid ?db x)) = Inr (case ?db x of Some e \<Rightarrow> [e] | None \<Rightarrow> [])"
    using latest_in_fits [OF assms(3)] by (rule interpret_answer_uuid)
  with n' nt have call: "do_query p (UuidFilter x) (op_state (world s))
      = (Inr (case ?db x of Some e \<Rightarrow> [e] | None \<Rightarrow> []), n', t)"
    by (simp add: do_query_def on_link_def native_query_uuid_def)
  from retried_attempt [of None s "do_query p (UuidFilter x)", OF assms(1) call] n'(2,3) alive
  show ?thesis
    by (auto simp: get_latest_by_uuid_def submit_query_def effective_retry_def retryable_failure_def
        split: option.splits)
qed

end

subsection \<open>The native client against a store\<close>

text \<open>
  One exchange: the C library accepts the packet and delivers the server's answer to it
  before the wait ends.  A search for a tag that does not end leaves the state as it
  was; with nothing in flight it always ends.
\<close>

record network =
  nc :: native_client
  store :: "geo_event list"

definition serve_store :: "(geo_event \<Rightarrow> int) \<Rightarrow> geo_operation \<Rightarrow> bytes \<Rightarrow> geo_event list \<Rightarrow> bytes \<times> geo_event list" where
  "serve_store judge op wire st =
     (case op of
        INSERT_EVENTS \<Rightarrow>
          (answer_insert judge (parse_events wire), st @ filter (\<lambda>e. judge e = 0) (parse_events wire))
      | QUERY_UUID_BATCH \<Rightarrow> (answer_lookup (latest_in st) (lookup_ids wire), st)
      | QUERY_UUID \<Rightarrow> (answer_uuid (latest_in st) (c_uint128_to_python (slice 0 16 wire)), st)
      | _ \<Rightarrow> ([], st))"

definition own_completion :: "int \<Rightarrow> bytes \<Rightarrow> native_client \<Rightarrow> completion" where
  "own_completion tag reply c =
     \<lparr>c_tag = tag, c_packet = next_ctx c, c_status = packet_status_code PACKET_OK,
      c_size = length reply, c_data = Some reply\<rparr>"

definition exchange :: "(geo_event \<Rightarrow> int) \<Rightarrow> network transport" where
  "exchange judge op wire n =
     (case serve_store judge op wire (store n) of (reply, st) \<Rightarrow>
      (case free_tag (inflight (nc n)) (start_tag (next_tag (nc n))) of
         None \<Rightarrow> (Inl (RuntimeError ''no free tag''), n)
       | Some tag \<Rightarrow>
           (case native_submit 0 [own_completion tag reply (nc n)] (nc n) of
              Some (r, c) \<Rightarrow> (r, \<lparr>nc = c, store = if connected (nc n) \<and> has_client (nc n) then st else store n\<rparr>)
            | None \<Rightarrow> (Inl (RuntimeError ''no free tag''), n))))"

definition net_platform ::
    "(geo_event \<Rightarrow> int) \<Rightarrow> readings \<Rightarrow> readings \<Rightarrow> ns_clock \<Rightarrow> network platform" where
  "net_platform judge now rnd ns =
     \<lparr>link_connected = \<lambda>n. connected (nc n),
      link_connect = \<lambda>n. (case native_connect 0 (nc n) of (ok, c) \<Rightarrow> (ok, n\<lparr>nc := c\<rparr>)),
      link_disconnect = \<lambda>n. n\<lparr>nc := native_disconnect [] (nc n)\<rparr>,
      link_submit = exchange judge, clock = now, random = rnd, clock_ns = ns\<rparr>"

definition net_ready :: "network \<Rightarrow> bool" where
  "net_ready n \<longleftrightarrow> connected (nc n) \<and> has_client (nc n) \<and> inflight (nc n) = Map.empty"

lemma net_platform_simps [simp]:
  "link_submit (net_platform judge now rnd ns) = exchange judge"
  "clock (net_platform judge now rnd ns) = now" "clock_ns (net_platform judge now rnd ns) = ns"
  "link_connected (net_platform judge now rnd ns) n = connected (nc n)"
  by (simp_all add: net_platform_def)

lemma completion_ok_response:
  "completion_result (own_completion tag reply c) = ok_response reply"
  by (simp add: completion_result_def own_completion_def ok_response_def)

lemma exchange_ready:
  assumes "net_ready n" and "serve_store judge op wire (store n) = (reply, st)"
  shows "\<exists>n'. exchange judge op wire n = (Inr (ok_response reply), n') \<and> net_ready n' \<and> store n' = st"
proof -
  have tag: "free_tag Map.empty t = Some t" for t by (subst free_tag.simps) simp
  have "ok_response reply = ok_response reply" "nr_status (ok_response reply) \<noteq> packet_status_code CLIENT_EVICTED"
    by simp_all
  with assms tag show ?thesis
    by (simp add: exchange_def native_submit_def net_ready_def register_request_def deliver_def
        on_completion_def completion_ok_response await_result_def Let_def)
       (simp add: own_completion_def)
qed

text \<open>A server code is what four bytes can hold.\<close>

definition code32 :: "(geo_event \<Rightarrow> int) \<Rightarrow> geo_event \<Rightarrow> int" where
  "code32 judge e = judge e mod 2 ^ 32"

interpretation net: event_store "net_platform (code32 judge) now rnd ns" net_ready store
    "serve_store (code32 judge)" "code32 judge" for judge now rnd ns
proof unfold_locales
  show "\<And>n. net_ready n \<Longrightarrow> link_connected (net_platform (code32 judge) now rnd ns) n"
    by (simp add: net_ready_def)
  show "\<And>n op wire reply w. net_ready n \<Longrightarrow> serve_store (code32 judge) op wire (store n) = (reply, w) \<Longrightarrow>
      \<exists>n'. link_submit (net_platform (code32 judge) now rnd ns) op wire n = (Inr (ok_response reply), n') \<and>
        net_ready n' \<and> store n' = w"
    using exchange_ready by simp
qed (simp_all add: serve_store_def code32_def width_defs)

definition net_usable :: "readings \<Rightarrow> operation_options option \<Rightarrow> (network, 'c) sdk \<Rightarrow> bool" where
  "net_usable now options s \<longleftrightarrow>
     \<not> is_closed s \<and> net_ready (state_of s) \<and> patient now (effective_retry options s) \<and>
     (\<forall>e\<in>set (store (state_of s)). event_fits e)"

lemma net_usableD:
  assumes "net_usable now options s"
  shows "net.usable judge now rnd ns options s" "net.server_of s = store (state_of s)"
    "\<forall>e\<in>set (store (state_of s)). event_fits e"
  using assms by (simp_all add: net_usable_def net.usable_def net.server_of_def)

lemma insert_events_effect:
  assumes "net_usable now options s" and "\<forall>e\<in>set es. event_fits e"
  shows "\<exists>w. insert_events (net_platform (code32 judge) now rnd ns) es options s
      = (Inr (item_errors (verdict (code32 judge)) 0 (sent_events ns (snd (op_state (world s))) es)), s\<lparr>world := w\<rparr>)
    \<and> store (fst (op_state w)) = store (state_of s)
        @ filter (\<lambda>e. code32 judge e = 0) (sent_events ns (snd (op_state (world s))) es)
    \<and> net_usable now options (s\<lparr>world := w\<rparr>)"
proof -
  obtain n t where nt: "op_state (world s) = (n, t)" by fastforce
  obtain w n' where w: "submit_chunks (submit_events (net_platform (code32 judge) now rnd ns) options)
        INSERT_EVENTS BATCH_SIZE_MAX 0 (chunks BATCH_SIZE_MAX es) [] s
      = (Inr (item_errors (verdict (code32 judge)) 0 (sent_events ns t es)), s\<lparr>world := w\<rparr>)"
      "op_state w = (n', clock_after ns t es)" "net_ready n'"
      "store n' = store (state_of s) @ filter (\<lambda>e. code32 judge e = 0) (sent_events ns t es)"
    using net.insert_chunks [OF net_usableD(1) [OF assms(1)] nt net_usableD(2) [OF assms(1)] assms(2),
        of BATCH_SIZE_MAX judge rnd ns 0 "[]"]
    by (auto simp: BATCH_SIZE_MAX_def)
  have "submit_multi_batch (submit_events (net_platform (code32 judge) now rnd ns) options) INSERT_EVENTS es
        (int BATCH_SIZE_MAX) s
      = (Inr (item_errors (verdict (code32 judge)) 0 (sent_events ns t es)),
         if es = [] then s else s\<lparr>world := w\<rparr>)"
    using w(1) by (simp add: submit_multi_batch_def BATCH_SIZE_MAX_def)
  moreover have "\<forall>e\<in>set (store n'). event_fits e"
    using w(4) net_usableD(3) [OF assms(1)] sent_events_fit [OF assms(2), of ns t] by auto
  ultimately show ?thesis
    using w assms(1) nt effective_retry_same [of s "s\<lparr>world := w\<rparr>" options]
    by (intro exI [of _ "if es = [] then world s else w"])
       (auto simp: insert_events_def net_usable_def state_of_def)
qed

lemma find_append_left: "\<exists>y\<in>set ys. P y \<Longrightarrow> find P (ys @ zs) = find P ys"
  by (induction ys) auto

lemma latest_in_append: "x \<in> entity_id ` set ys \<Longrightarrow> latest_in (xs @ ys) x = latest_in ys x"
  by (auto simp: latest_in_def intro!: find_append_left)

lemma sent_events_entities: "map entity_id (sent_events now t es) = map entity_id es"
  by (induction es arbitrary: t) (simp_all add: sent_event_def)

lemma nothing_rejected: "\<forall>e. judge e = 0 \<Longrightarrow> item_errors (verdict judge) i xs = []"
  by (induction xs arbitrary: i) (simp_all add: verdict_def)

subsection \<open>Properties\<close>


text \<open>A connected client on an empty store.\<close>

definition connected_client :: "(network, unit) sdk" where
  "connected_client =
     fresh_client \<lparr>nc = init_native\<lparr>connected := True, has_client := True\<rparr>, store = []\<rparr>"

definition test_net :: "network platform" where
  "test_net = net_platform (code32 (\<lambda>e. group_id e)) (\<lambda>i. Fin 0) (\<lambda>i. Fin 0) (\<lambda>i. 0)"

lemma connected_client_usable: "net_usable (\<lambda>i. Fin 0) None connected_client"
  using default_patient
  by (simp add: net_usable_def connected_client_def fresh_client_def fresh_env_def state_of_def
      net_ready_def init_native_def effective_retry_def)


text \<open>A batch lookup returns, for every id asked and for no other, the last stored event of
  that entity or \<open>None\<close>, ids asked more than once included; it leaves the database as
  it was, and a single lookup of any of the ids returns the same.\<close>

theorem batch_lookup_reads_store:
  assumes "net_usable now None s" and "ids \<noteq> []" "length ids \<le> 10000" "u128s ids" and "x \<in> set ids"
  shows "(\<exists>w. get_latest_batch (net_platform (code32 judge) now rnd ns) ids s
      = (Inr (lookup_answers (latest_in (store (state_of s))) ids), s\<lparr>world := w\<rparr>)
      \<and> store (fst (op_state w)) = store (state_of s)) \<and>
    (\<exists>w. get_latest_by_uuid (net_platform (code32 judge) now rnd ns) x s
      = (Inr (the (lookup_answers (latest_in (store (state_of s))) ids x)), s\<lparr>world := w\<rparr>)
      \<and> store (fst (op_state w)) = store (state_of s))"
proof -
  note u = net_usableD(1) [OF assms(1), of judge rnd ns] net_usableD(2,3) [OF assms(1)]
  have "0 \<le> x" "x < 2 ^ 128" using assms(4,5) by (simp_all add: u128s_def)
  with net.batch_lookup [OF u assms(2-4)] net.single_lookup [OF u, of x] assms(5)
  show ?thesis by (auto simp: lookup_answers_def)
qed

theorem batch_lookup_reads_store_witness:
  "\<exists>w. get_latest_batch test_net [5, 9, 5] connected_client
      = (Inr (lookup_answers (latest_in []) [5, 9, 5]), connected_client\<lparr>world := w\<rparr>)"
proof -
  have "store (state_of connected_client) = []"
    by (simp add: connected_client_def fresh_client_def fresh_env_def state_of_def)
  with batch_lookup_reads_store [OF connected_client_usable, of "[5, 9, 5]" 9 group_id "\<lambda>i. Fin 0" "\<lambda>i. 0"]
  show ?thesis by (auto simp: test_net_def u128s_def)
qed



end
