(* ===== verification/Circuit_Breaker.thy ===== *)
theory Circuit_Breaker
  imports Py_Float
begin

section \<open>The circuit breaker\<close>

text \<open>
  \<open>CircuitBreaker\<close> of \<open>archerdb/client.py\<close>.  Every method holds the lock from its
  first to its last statement, so an operation is one step.  The wall clock is a
  sequence of readings: \<open>now i\<close> is the value of the \<open>i\<close>th call of \<open>_now_ms\<close>, and
  the state holds the index of the next one in \<open>ticks\<close>.
\<close>

datatype circuit_state = CLOSED | OPEN | HALF_OPEN

record circuit_config =
  failure_threshold :: pyfloat
  minimum_requests :: int
  window_ms :: int
  open_duration_ms :: int
  half_open_requests :: int

definition default_circuit_config :: circuit_config where
  "default_circuit_config =
     \<lparr>failure_threshold = Fin (1 / 2), minimum_requests = 10, window_ms = 10000,
      open_duration_ms = 30000, half_open_requests = 5\<rparr>"

record circuit_breaker =
  cb_state :: circuit_state
  opened_at :: int
  total_requests :: int
  failed_requests :: int
  window_start_ms :: int
  half_open_successes :: int
  half_open_failures :: int
  half_open_total :: int
  state_changes :: int
  rejected_requests :: int
  ticks :: nat

type_synonym clock = "nat \<Rightarrow> int"

definition init_breaker :: "clock \<Rightarrow> circuit_breaker" where
  "init_breaker now =
     \<lparr>cb_state = CLOSED, opened_at = 0, total_requests = 0, failed_requests = 0,
      window_start_ms = now 0, half_open_successes = 0, half_open_failures = 0,
      half_open_total = 0, state_changes = 0, rejected_requests = 0, ticks = 1\<rparr>"

text \<open>\<open>_now_ms\<close>: the reading, and the state with the clock moved on.\<close>

definition now_ms :: "clock \<Rightarrow> circuit_breaker \<Rightarrow> int \<times> circuit_breaker" where
  "now_ms now s = (now (ticks s), s\<lparr>ticks := Suc (ticks s)\<rparr>)"

definition transition_to :: "clock \<Rightarrow> circuit_breaker \<Rightarrow> circuit_state \<Rightarrow> circuit_breaker" where
  "transition_to now s new_state =
     (if cb_state s = new_state then s
      else
        let s1 = s\<lparr>cb_state := new_state, state_changes := state_changes s + 1\<rparr> in
        if new_state = OPEN
        then (case now_ms now s1 of (n, s2) \<Rightarrow> s2\<lparr>opened_at := n\<rparr>)
        else s1)"

definition reset_half_open_counters :: "circuit_breaker \<Rightarrow> circuit_breaker" where
  "reset_half_open_counters s =
     s\<lparr>half_open_successes := 0, half_open_failures := 0, half_open_total := 0\<rparr>"

definition reset_counters :: "clock \<Rightarrow> circuit_breaker \<Rightarrow> circuit_breaker" where
  "reset_counters now s =
     (case now_ms now (s\<lparr>total_requests := 0, failed_requests := 0\<rparr>) of
        (n, s1) \<Rightarrow> s1\<lparr>window_start_ms := n\<rparr>)"

definition read_state :: "circuit_config \<Rightarrow> clock \<Rightarrow> circuit_breaker \<Rightarrow> circuit_state \<times> circuit_breaker" where
  "read_state cfg now s =
     (if cb_state s = OPEN
      then
        (case now_ms now s of (n, s1) \<Rightarrow>
           let elapsed = n - opened_at s1 in
           if open_duration_ms cfg \<le> elapsed
           then (let s2 = reset_half_open_counters (transition_to now s1 HALF_OPEN) in (cb_state s2, s2))
           else (cb_state s1, s1))
      else (cb_state s, s))"

definition allow_half_open_request :: "circuit_config \<Rightarrow> circuit_breaker \<Rightarrow> bool \<times> circuit_breaker" where
  "allow_half_open_request cfg s =
     (if half_open_requests cfg \<le> half_open_total s
      then (False, s\<lparr>rejected_requests := rejected_requests s + 1\<rparr>)
      else (True, s\<lparr>half_open_total := half_open_total s + 1\<rparr>))"

definition allow_request :: "circuit_config \<Rightarrow> clock \<Rightarrow> circuit_breaker \<Rightarrow> bool \<times> circuit_breaker" where
  "allow_request cfg now s =
     (case cb_state s of
        CLOSED \<Rightarrow> (True, s)
      | OPEN \<Rightarrow>
          (case now_ms now s of (n, s1) \<Rightarrow>
             let elapsed = n - opened_at s1 in
             if open_duration_ms cfg \<le> elapsed
             then allow_half_open_request cfg
                    (reset_half_open_counters (transition_to now s1 HALF_OPEN))
             else (False, s1\<lparr>rejected_requests := rejected_requests s1 + 1\<rparr>))
      | HALF_OPEN \<Rightarrow> allow_half_open_request cfg s)"

definition record_in_window :: "circuit_config \<Rightarrow> clock \<Rightarrow> circuit_breaker \<Rightarrow> bool \<Rightarrow> circuit_breaker" where
  "record_in_window cfg now s failed =
     (case now_ms now s of (n, s1) \<Rightarrow>
        let s2 = (if window_ms cfg \<le> n - window_start_ms s1
                  then s1\<lparr>window_start_ms := n, total_requests := 0, failed_requests := 0\<rparr>
                  else s1);
            s3 = s2\<lparr>total_requests := total_requests s2 + 1\<rparr>
        in if failed then s3\<lparr>failed_requests := failed_requests s3 + 1\<rparr> else s3)"

definition check_threshold ::
    "circuit_config \<Rightarrow> clock \<Rightarrow> circuit_breaker \<Rightarrow> (py_exn, circuit_breaker) result" where
  "check_threshold cfg now s =
     (if total_requests s < minimum_requests cfg then Inr s
      else
        bindE (int_truediv (failed_requests s) (total_requests s)) (\<lambda>failure_rate.
        if f_le (failure_threshold cfg) failure_rate then Inr (transition_to now s OPEN)
        else Inr s))"

definition record_success :: "circuit_config \<Rightarrow> clock \<Rightarrow> circuit_breaker \<Rightarrow> circuit_breaker" where
  "record_success cfg now s =
     (case cb_state s of
        CLOSED \<Rightarrow> record_in_window cfg now s False
      | HALF_OPEN \<Rightarrow>
          (let s1 = s\<lparr>half_open_successes := half_open_successes s + 1\<rparr> in
           if half_open_requests cfg \<le> half_open_successes s1
           then reset_counters now (transition_to now s1 CLOSED)
           else s1)
      | OPEN \<Rightarrow> s)"

definition record_failure ::
    "circuit_config \<Rightarrow> clock \<Rightarrow> circuit_breaker \<Rightarrow> (py_exn, circuit_breaker) result" where
  "record_failure cfg now s =
     (case cb_state s of
        CLOSED \<Rightarrow> check_threshold cfg now (record_in_window cfg now s True)
      | HALF_OPEN \<Rightarrow>
          Inr (transition_to now (s\<lparr>half_open_failures := half_open_failures s + 1\<rparr>) OPEN)
      | OPEN \<Rightarrow> Inr s)"

definition force_open :: "clock \<Rightarrow> circuit_breaker \<Rightarrow> circuit_breaker" where
  "force_open now s =
     (let s1 = (if cb_state s \<noteq> OPEN then s\<lparr>state_changes := state_changes s + 1\<rparr> else s)
      in case now_ms now (s1\<lparr>cb_state := OPEN\<rparr>) of (n, s2) \<Rightarrow> s2\<lparr>opened_at := n\<rparr>)"

definition force_close :: "clock \<Rightarrow> circuit_breaker \<Rightarrow> circuit_breaker" where
  "force_close now s =
     (let s1 = (if cb_state s \<noteq> CLOSED then s\<lparr>state_changes := state_changes s + 1\<rparr> else s)
      in reset_half_open_counters (reset_counters now (s1\<lparr>cb_state := CLOSED\<rparr>)))"

definition failure_rate :: "circuit_breaker \<Rightarrow> (py_exn, pyfloat) result" where
  "failure_rate s =
     (if total_requests s = 0 then Inr (Fin 0)
      else int_truediv (failed_requests s) (total_requests s))"

lemmas breaker_defs = now_ms_def transition_to_def reset_half_open_counters_def
  reset_counters_def read_state_def allow_half_open_request_def allow_request_def
  record_in_window_def record_success_def force_open_def force_close_def Let_def

subsection \<open>The step relation and its invariant\<close>

inductive breaker_step :: "circuit_config \<Rightarrow> clock \<Rightarrow> circuit_breaker \<Rightarrow> circuit_breaker \<Rightarrow> bool"
  for cfg :: circuit_config and now :: clock where
  step_state: "breaker_step cfg now s (snd (read_state cfg now s))"
| step_allow: "breaker_step cfg now s (snd (allow_request cfg now s))"
| step_success: "breaker_step cfg now s (record_success cfg now s)"
| step_failure: "record_failure cfg now s = Inr t \<Longrightarrow> breaker_step cfg now s t"
| step_force_open: "breaker_step cfg now s (force_open now s)"
| step_force_close: "breaker_step cfg now s (force_close now s)"

inductive breaker_reachable :: "circuit_config \<Rightarrow> clock \<Rightarrow> circuit_breaker \<Rightarrow> bool"
  for cfg :: circuit_config and now :: clock where
  reach_init: "breaker_reachable cfg now (init_breaker now)"
| reach_step: "breaker_reachable cfg now s \<Longrightarrow> breaker_step cfg now s t \<Longrightarrow> breaker_reachable cfg now t"

inductive_cases breaker_stepE: "breaker_step cfg now s t"

definition breaker_inv :: "circuit_config \<Rightarrow> circuit_breaker \<Rightarrow> bool" where
  "breaker_inv cfg s \<longleftrightarrow>
     0 \<le> failed_requests s \<and> failed_requests s \<le> total_requests s \<and>
     0 \<le> half_open_total s \<and> half_open_total s \<le> half_open_requests cfg \<and>
     0 \<le> half_open_successes s \<and>
     (cb_state s = HALF_OPEN \<longrightarrow> half_open_successes s < half_open_requests cfg)"

definition config_ok :: "circuit_config \<Rightarrow> bool" where
  "config_ok cfg \<longleftrightarrow> 0 < half_open_requests cfg"

text \<open>\<open>record_failure\<close> divides by the number of requests it has just counted.\<close>

lemma rate_defined:
  assumes "0 \<le> f" and "f \<le> t" and "0 < t"
  shows "int_truediv f t = Inr (Fin (fl (of_int f / of_int t)))"
proof -
  have "\<bar>of_int f / of_int t :: rat\<bar> \<le> 2 ^ 0" using assms by (simp add: divide_le_eq)
  then have "mk_float (of_int f / of_int t) = Fin (fl (of_int f / of_int t))"
    by (rule mk_float_Fin) simp
  with assms show ?thesis by (simp add: int_truediv_def)
qed

lemma record_in_window_inv:
  assumes "breaker_inv cfg s" and "cb_state s = CLOSED"
  shows "breaker_inv cfg (record_in_window cfg now s failed)"
    and "cb_state (record_in_window cfg now s failed) = CLOSED"
    and "0 < total_requests (record_in_window cfg now s failed)"
  using assms by (auto simp: breaker_inv_def breaker_defs)

lemma transition_inv:
  "breaker_inv cfg s \<Longrightarrow> st \<noteq> HALF_OPEN \<Longrightarrow> breaker_inv cfg (transition_to now s st)"
  by (auto simp: breaker_inv_def breaker_defs)

lemma record_failure_total:
  assumes "breaker_inv cfg s"
  shows "\<exists>t. record_failure cfg now s = Inr t \<and> breaker_inv cfg t"
proof (cases "cb_state s")
  case CLOSED
  let ?w = "record_in_window cfg now s True"
  have w: "breaker_inv cfg ?w" "0 < total_requests ?w"
    using record_in_window_inv [OF assms CLOSED] by auto
  then have "int_truediv (failed_requests ?w) (total_requests ?w)
      = Inr (Fin (fl (of_int (failed_requests ?w) / of_int (total_requests ?w))))"
    by (intro rate_defined) (auto simp: breaker_inv_def)
  with w CLOSED show ?thesis
    by (auto simp: record_failure_def check_threshold_def transition_inv)
next
  case OPEN
  with assms show ?thesis by (simp add: record_failure_def)
next
  case HALF_OPEN
  with assms show ?thesis
    by (auto simp: record_failure_def intro!: transition_inv) (auto simp: breaker_inv_def)
qed

lemma breaker_step_inv:
  assumes "config_ok cfg" and "breaker_step cfg now s t" and "breaker_inv cfg s"
  shows "breaker_inv cfg t"
  using assms(2)
proof (cases rule: breaker_step.cases)
  case step_state
  with assms show ?thesis by (auto simp: breaker_inv_def config_ok_def breaker_defs split: if_splits)
next
  case step_allow
  with assms show ?thesis
    by (auto simp: breaker_inv_def config_ok_def breaker_defs split: circuit_state.splits)
next
  case step_success
  with assms show ?thesis
    by (auto simp: breaker_inv_def config_ok_def breaker_defs split: circuit_state.splits)
next
  case step_failure
  with record_failure_total [OF assms(3), of now] show ?thesis by auto
next
  case step_force_open
  with assms show ?thesis by (auto simp: breaker_inv_def breaker_defs)
next
  case step_force_close
  with assms show ?thesis by (auto simp: breaker_inv_def breaker_defs config_ok_def)
qed

lemma breaker_reachable_inv:
  assumes "config_ok cfg" and "breaker_reachable cfg now s"
  shows "breaker_inv cfg s"
  using assms(2)
proof (induction rule: breaker_reachable.induct)
  case reach_init
  with assms(1) show ?case by (simp add: breaker_inv_def init_breaker_def config_ok_def)
next
  case (reach_step s t)
  with assms(1) show ?case by (blast intro: breaker_step_inv)
qed

subsection \<open>Half-open probing\<close>

text \<open>
  \<open>half_open_run s n t\<close>: from \<open>s\<close> to \<open>t\<close> the breaker stayed half-open while
  callers asked for admission, recorded successes and read the state, and \<open>n\<close>
  requests were admitted.
\<close>

inductive half_open_run ::
    "circuit_config \<Rightarrow> clock \<Rightarrow> circuit_breaker \<Rightarrow> int \<Rightarrow> circuit_breaker \<Rightarrow> bool"
  for cfg :: circuit_config and now :: clock where
  ho_start: "cb_state s = HALF_OPEN \<Longrightarrow> half_open_run cfg now s 0 s"
| ho_allow: "half_open_run cfg now s n t \<Longrightarrow> allow_request cfg now t = (b, u) \<Longrightarrow>
    half_open_run cfg now s (if b then n + 1 else n) u"
| ho_success: "half_open_run cfg now s n t \<Longrightarrow> cb_state (record_success cfg now t) = HALF_OPEN \<Longrightarrow>
    half_open_run cfg now s n (record_success cfg now t)"
| ho_state: "half_open_run cfg now s n t \<Longrightarrow> half_open_run cfg now s n (snd (read_state cfg now t))"

text \<open>The outcome of a probe: enough successes close the breaker, any failure reopens it.\<close>

lemma half_open_success_cases:
  assumes "cb_state s = HALF_OPEN"
  shows "record_success cfg now s =
    (if half_open_requests cfg \<le> half_open_successes s + 1
     then s\<lparr>half_open_successes := half_open_successes s + 1, cb_state := CLOSED,
            state_changes := state_changes s + 1, total_requests := 0, failed_requests := 0,
            window_start_ms := now (ticks s), ticks := Suc (ticks s)\<rparr>
     else s\<lparr>half_open_successes := half_open_successes s + 1\<rparr>)"
  using assms by (simp add: breaker_defs)

lemma half_open_success_total:
  "cb_state s = HALF_OPEN \<Longrightarrow> half_open_total (record_success cfg now s) = half_open_total s"
  by (simp add: half_open_success_cases)

lemma half_open_run_total:
  "half_open_run cfg now s n t \<Longrightarrow>
     cb_state t = HALF_OPEN \<and> half_open_total t = half_open_total s + n \<and>
     (half_open_total s \<le> half_open_requests cfg \<longrightarrow> half_open_total t \<le> half_open_requests cfg)"
proof (induction rule: half_open_run.induct)
  case (ho_start s)
  then show ?case by simp
next
  case (ho_allow s n t b u)
  then show ?case by (auto simp: allow_request_def allow_half_open_request_def split: if_splits)
next
  case (ho_success s n t)
  then show ?case using half_open_success_total [of t cfg now] by auto
next
  case (ho_state s n t)
  then show ?case by (auto simp: read_state_def)
qed

text \<open>C5: In any reachable state, while the breaker stays half-open it admits at most
  \<open>half_open_requests\<close> probe requests, however admissions, recorded successes and
  state reads are interleaved.\<close>

theorem half_open_admits_at_most:
  assumes "config_ok cfg" and "breaker_reachable cfg now s" and "half_open_run cfg now s n t"
  shows "n \<le> half_open_requests cfg"
proof -
  have "breaker_inv cfg s" using assms(1,2) by (rule breaker_reachable_inv)
  then have "0 \<le> half_open_total s" "half_open_total s \<le> half_open_requests cfg"
    by (simp_all add: breaker_inv_def)
  with half_open_run_total [OF assms(3)] show ?thesis by simp
qed

definition probing_example :: circuit_breaker where
  "probing_example = snd (read_state default_circuit_config (\<lambda>i. 40000 * int i)
     (force_open (\<lambda>i. 40000 * int i) (init_breaker (\<lambda>i. 40000 * int i))))"

theorem half_open_admits_at_most_witness:
  "half_open_run default_circuit_config (\<lambda>i. 40000 * int i) probing_example 1
     (snd (allow_request default_circuit_config (\<lambda>i. 40000 * int i) probing_example))
   \<and> (1 :: int) \<le> half_open_requests default_circuit_config"
proof -
  let ?now = "\<lambda>i. 40000 * int i"
  let ?u = "snd (allow_request default_circuit_config ?now probing_example)"
  have probing: "cb_state probing_example = HALF_OPEN" "half_open_total probing_example = 0"
    by (simp_all add: probing_example_def breaker_defs init_breaker_def default_circuit_config_def)
  then have "allow_request default_circuit_config ?now probing_example = (True, ?u)"
    by (simp add: allow_request_def allow_half_open_request_def default_circuit_config_def)
  with ho_start [OF probing(1)]
  have "half_open_run default_circuit_config ?now probing_example (if True then 0 + 1 else 0) ?u"
    by (rule ho_allow)
  then have run: "half_open_run default_circuit_config ?now probing_example 1 ?u" by simp
  have "breaker_reachable default_circuit_config ?now probing_example"
    unfolding probing_example_def by (rule reach_step [OF reach_step [OF reach_init step_force_open] step_state])
  then have "(1 :: int) \<le> half_open_requests default_circuit_config"
    using half_open_admits_at_most [OF _ _ run] by (simp add: config_ok_def default_circuit_config_def)
  with run show ?thesis by blast
qed

text \<open>Consecutive admission requests with no outcome recorded between them.\<close>

fun ask :: "circuit_config \<Rightarrow> clock \<Rightarrow> circuit_breaker \<Rightarrow> nat \<Rightarrow> bool list" where
  "ask cfg now s 0 = []"
| "ask cfg now s (Suc k) =
     (case allow_request cfg now s of (b, s') \<Rightarrow> b # ask cfg now s' k)"

text \<open>A half-open breaker whose probe budget is spent rejects every further request
  for as long as no outcome is recorded, whatever the clock says: unlike the open
  state it has no deadline, so probes whose callers never report back wedge it.\<close>

theorem half_open_spent_rejects_forever:
  assumes "cb_state s = HALF_OPEN" and "half_open_requests cfg \<le> half_open_total s"
  shows "ask cfg now s k = replicate k False"
  using assms
  by (induction k arbitrary: s) (auto simp: allow_request_def allow_half_open_request_def)

theorem half_open_spent_rejects_forever_witness:
  "ask default_circuit_config (\<lambda>i. 1000000 * int i)
     ((init_breaker (\<lambda>i. 0))\<lparr>cb_state := HALF_OPEN, half_open_total := 5\<rparr>) 3 = [False, False, False]"
  using half_open_spent_rejects_forever
    [of "(init_breaker (\<lambda>i. 0))\<lparr>cb_state := HALF_OPEN, half_open_total := 5\<rparr>"
        default_circuit_config "\<lambda>i. 1000000 * int i" 3]
  by (simp add: default_circuit_config_def eval_nat_numeral)

subsection \<open>The opening threshold\<close>

text \<open>
  The failure rate is a float quotient, so the comparison with one half could be
  off by a rounding; for windows of at most \<open>2 ^ 50\<close> requests it never is.
\<close>

lemma half_rate_exact:
  assumes "0 \<le> f" and "f \<le> t" and "0 < t" and "t \<le> 2 ^ 50"
  shows "1 / 2 \<le> fl (of_int f / of_int t) \<longleftrightarrow> t \<le> 2 * f"
proof
  assume "t \<le> 2 * f"
  then have "(of_int t :: rat) \<le> 2 * of_int f" by (metis of_int_le_iff of_int_mult of_int_numeral)
  then have "fl (1 / 2) \<le> fl (of_int f / of_int t)"
    using assms by (intro fl_mono) (simp add: le_divide_eq)
  moreover have "fl (1 / 2) = 1 / 2" using fl_exact [of 1 "- 1"] by (simp add: power_int_minus)
  ultimately show "1 / 2 \<le> fl (of_int f / of_int t)" by simp
next
  assume half: "1 / 2 \<le> fl (of_int f / of_int t)"
  show "t \<le> 2 * f"
  proof (rule ccontr)
    assume "\<not> t \<le> 2 * f"
    then have "2 * f + 1 \<le> t" by simp
    then have "(of_int (2 * f + 1) :: rat) \<le> of_int t" by (simp only: of_int_le_iff)
    then have small: "2 * (of_int f :: rat) + 1 \<le> of_int t" by simp
    have t: "(0 :: rat) < of_int t" "(of_int t :: rat) \<le> 2 ^ 50"
      using assms by (simp, metis of_int_le_iff of_int_numeral of_int_power)
    let ?x = "of_int f / of_int t :: rat"
    have gap: "?x \<le> 1 / 2 - 1 / 2 ^ 51"
    proof -
      have "of_int f \<le> (of_int t - 1) / (2 :: rat)" using small by (simp add: le_divide_eq)
      then have "?x \<le> (of_int t - 1) / 2 / of_int t" using t(1) by (intro divide_right_mono) simp_all
      also have "\<dots> = 1 / 2 - 1 / (2 * of_int t)" using t by (simp add: field_simps)
      also have "\<dots> \<le> 1 / 2 - 1 / 2 ^ 51"
        using t by (intro diff_left_mono frac_le) simp_all
      finally show ?thesis .
    qed
    have "f \<noteq> 0" using half by auto
    then have "1 \<le> (of_int f :: rat)" using assms(1) by simp
    then have "1 / 2 ^ 50 \<le> ?x" using t by (intro frac_le) simp_all
    then have "1 / 2 ^ 50 \<le> \<bar>?x\<bar>" by linarith
    then have "\<bar>fl ?x - ?x\<bar> \<le> \<bar>?x\<bar> / 2 ^ 53" by (rule fl_error_normal) simp
    also have "\<bar>?x\<bar> = ?x" using assms by simp
    also have "?x / 2 ^ 53 \<le> (1 / 2) / 2 ^ 53"
    proof (rule divide_right_mono)
      show "?x \<le> 1 / 2" by (rule order_trans [OF gap]) simp
    qed simp
    finally have "\<bar>fl ?x - ?x\<bar> \<le> 1 / 2 ^ 54" by simp
    then have "fl ?x \<le> ?x + 1 / 2 ^ 54" by linarith
    with gap half show False by simp
  qed
qed

text \<open>The requests and failures in the window after one more failure at time \<open>n\<close>.\<close>

definition window_after :: "circuit_config \<Rightarrow> circuit_breaker \<Rightarrow> int \<Rightarrow> int \<times> int" where
  "window_after cfg s n =
     (if window_ms cfg \<le> n - window_start_ms s then (1, 1)
      else (total_requests s + 1, failed_requests s + 1))"

text \<open>C20: With the default configuration, a failure recorded in a reachable closed state
  raises nothing and opens the breaker exactly when the window then holds at least
  ten requests of which at least half failed; the float division does not shift the
  threshold for windows of up to \<open>2 ^ 50\<close> requests.\<close>

theorem breaker_opens_exactly_at_threshold:
  assumes "breaker_reachable default_circuit_config now s" and "cb_state s = CLOSED"
    and "window_after default_circuit_config s (now (ticks s)) = (n, f)"
    and "n \<le> 2 ^ 50"
  shows "\<exists>t. record_failure default_circuit_config now s = Inr t \<and>
    cb_state t = (if 10 \<le> n \<and> n \<le> 2 * f then OPEN else CLOSED) \<and>
    total_requests t = n \<and> failed_requests t = f"
proof -
  let ?cfg = default_circuit_config
  have inv: "breaker_inv ?cfg s"
    using assms(1) by (intro breaker_reachable_inv) (simp_all add: config_ok_def default_circuit_config_def)
  let ?w = "record_in_window ?cfg now s True"
  have w: "total_requests ?w = n" "failed_requests ?w = f" "cb_state ?w = CLOSED"
    using assms(2,3) by (auto simp: record_in_window_def now_ms_def window_after_def Let_def split: if_splits)
  have bounds: "0 \<le> f" "f \<le> n" "0 < n"
    using inv assms(3) by (auto simp: breaker_inv_def window_after_def split: if_splits)
  have rate: "int_truediv f n = Inr (Fin (fl (of_int f / of_int n)))"
    using bounds by (rule rate_defined)
  have half: "1 / 2 \<le> fl (of_int f / of_int n) \<longleftrightarrow> n \<le> 2 * f"
    using bounds assms(4) by (rule half_rate_exact)
  have "record_failure ?cfg now s = Inr (if 10 \<le> n \<and> n \<le> 2 * f
      then transition_to now ?w OPEN else ?w)"
    using assms(2) w rate half
    by (auto simp: record_failure_def check_threshold_def default_circuit_config_def)
  then show ?thesis using w by (simp add: transition_to_def now_ms_def Let_def)
qed

theorem breaker_opens_exactly_at_threshold_witness:
  "\<exists>t. record_failure default_circuit_config int (init_breaker int) = Inr t \<and>
    cb_state t = CLOSED \<and> total_requests t = 1 \<and> failed_requests t = 1"
  using breaker_opens_exactly_at_threshold [OF reach_init, of int 1 1]
  by (simp add: init_breaker_def window_after_def default_circuit_config_def)

text \<open>An open breaker admits nothing until \<open>open_duration_ms\<close> has passed since it
  opened and counts every rejection; the first request after that moves it to
  half-open with fresh counters and is admitted as the first probe.\<close>

theorem open_breaker_fails_fast_then_probes:
  assumes "config_ok cfg" and "cb_state s = OPEN"
  shows "allow_request cfg now s =
    (if now (ticks s) - opened_at s < open_duration_ms cfg
     then (False, s\<lparr>ticks := Suc (ticks s), rejected_requests := rejected_requests s + 1\<rparr>)
     else (True, s\<lparr>ticks := Suc (ticks s), cb_state := HALF_OPEN,
                   state_changes := state_changes s + 1, half_open_successes := 0,
                   half_open_failures := 0, half_open_total := 1\<rparr>))"
  using assms by (simp add: breaker_defs config_ok_def)

theorem open_breaker_fails_fast_then_probes_witness:
  "fst (allow_request default_circuit_config int
     ((init_breaker int)\<lparr>cb_state := OPEN, opened_at := 0\<rparr>)) = False"
  using open_breaker_fails_fast_then_probes
    [of default_circuit_config "(init_breaker int)\<lparr>cb_state := OPEN, opened_at := 0\<rparr>" int]
  by (simp add: init_breaker_def config_ok_def default_circuit_config_def)

end
