(* ===== verification/Id_Generator.thy ===== *)
theory Id_Generator
  imports Wire_Format
begin

section \<open>Identifiers\<close>

text \<open>
  \<open>_IDGenerator\<close> and \<open>id()\<close> of \<open>archerdb/client.py\<close>: 128-bit identifiers of a 48-bit
  millisecond time and 80 random bits that count up within a millisecond.  A call
  takes the reading of \<open>time.time_ns()\<close> and the value of \<open>os.urandom(10)\<close> it would draw.
\<close>

record id_generator =
  last_time_ms :: int
  last_random :: int

definition init_id_generator :: "int \<Rightarrow> int \<Rightarrow> id_generator" where
  "init_id_generator now_ns drawn = \<lparr>last_time_ms = now_ns div (1000 * 1000), last_random = drawn\<rparr>"

definition generate :: "int \<Rightarrow> int \<Rightarrow> id_generator \<Rightarrow> (py_exn, int) result \<times> id_generator" where
  "generate now_ns drawn g =
     (let time_ms = now_ns div (1000 * 1000);
          (time_ms, g) = (if time_ms \<le> last_time_ms g then (last_time_ms g, g)
                          else (time_ms, g\<lparr>last_time_ms := time_ms, last_random := drawn\<rparr>));
          g = g\<lparr>last_random := last_random g + 1\<rparr>
      in if last_random g = 2 ^ 80
         then (Inl (RuntimeError ''random bits overflow on monotonic increment''), g)
         else (Inr (push_bit 80 time_ms OR last_random g), g))"

text \<open>A run of calls, up to the first one that raises.\<close>

fun generate_run :: "(int \<times> int) list \<Rightarrow> id_generator \<Rightarrow> int list \<times> id_generator" where
  "generate_run [] g = ([], g)"
| "generate_run ((now_ns, drawn) # rest) g =
     (case generate now_ns drawn g of
        (Inl e, g) \<Rightarrow> ([], g)
      | (Inr i, g) \<Rightarrow> (case generate_run rest g of (is, g) \<Rightarrow> (i # is, g)))"

definition generator_ok :: "id_generator \<Rightarrow> bool" where
  "generator_ok g \<longleftrightarrow> 0 \<le> last_time_ms g \<and> last_time_ms g < 2 ^ 48 \<and>
     0 \<le> last_random g \<and> last_random g < 2 ^ 80"

definition readings_ok :: "(int \<times> int) list \<Rightarrow> bool" where
  "readings_ok qs \<longleftrightarrow>
     (\<forall>(now_ns, drawn)\<in>set qs. now_ns div 1000000 < 2 ^ 48 \<and> 0 \<le> drawn \<and> drawn < 2 ^ 80)"

text \<open>The identifier that a state stands for: the last one given, or the bound below the next.\<close>

definition id_of :: "id_generator \<Rightarrow> int" where
  "id_of g = last_time_ms g * 2 ^ 80 + last_random g"

lemma id_layout: "0 \<le> r \<Longrightarrow> r < 2 ^ 80 \<Longrightarrow> push_bit 80 t OR r = t * 2 ^ 80 + (r :: int)"
  using push_or_add [of r 80 t] by (simp add: mult.commute)

text \<open>
  One call that returns: the identifier lies above the last one, the time never goes
  back, and the state stays well formed.
\<close>

lemma generate_Inr:
  assumes "generator_ok g" "now_ns div 1000000 < 2 ^ 48" "0 \<le> drawn" "drawn < 2 ^ 80"
    and "generate now_ns drawn g = (Inr i, g')"
  shows "generator_ok g' \<and> i = id_of g' \<and> id_of g < id_of g' \<and>
    last_time_ms g' = max (last_time_ms g) (now_ns div 1000000)"
proof (cases "now_ns div 1000000 \<le> last_time_ms g")
  case True
  with assms(1,5) have "i = push_bit 80 (last_time_ms g) OR (last_random g + 1)"
      "g' = g\<lparr>last_random := last_random g + 1\<rparr>" "last_random g + 1 < 2 ^ 80"
    by (auto simp: generate_def Let_def generator_ok_def split: if_splits)
  with assms(1) True id_layout [of "last_random g + 1" "last_time_ms g"] show ?thesis
    by (simp add: generator_ok_def id_of_def)
next
  case False
  then have t: "last_time_ms g + 1 \<le> now_ns div 1000000" by simp
  from False assms(3-5) have g': "i = push_bit 80 (now_ns div 1000000) OR (drawn + 1)"
      "g' = g\<lparr>last_time_ms := now_ns div 1000000, last_random := drawn + 1\<rparr>" "drawn + 1 < 2 ^ 80"
    by (auto simp: generate_def Let_def split: if_splits)
  have "id_of g < id_of g'"
  proof -
    have "id_of g < (last_time_ms g + 1) * 2 ^ 80"
      using assms(1) by (simp add: id_of_def generator_ok_def algebra_simps)
    also have "\<dots> \<le> now_ns div 1000000 * 2 ^ 80" using t by (intro mult_right_mono) simp_all
    also have "\<dots> \<le> id_of g'" using g' assms(3) by (simp add: id_of_def)
    finally show ?thesis .
  qed
  with g' assms(1-3) False id_layout [of "drawn + 1" "now_ns div 1000000"] show ?thesis
    by (simp add: generator_ok_def id_of_def)
qed

lemma id_of_bounds:
  assumes "generator_ok g"
  shows "0 \<le> id_of g" "id_of g < 2 ^ 128" "id_of g div 2 ^ 80 = last_time_ms g"
proof -
  have "last_time_ms g * 2 ^ 80 \<le> (2 ^ 48 - 1) * 2 ^ 80"
    using assms by (intro mult_right_mono) (simp_all add: generator_ok_def)
  then show "id_of g < 2 ^ 128" using assms by (simp add: id_of_def generator_ok_def)
qed (use assms in \<open>simp_all add: id_of_def generator_ok_def\<close>)

subsection \<open>Properties\<close>

text \<open>C16: As long as no call has raised, the identifiers of one generator increase strictly
  (so none is given twice), whatever the clock does between the calls, clock steps
  backwards included; each is a non-zero 128-bit value above the starting one.\<close>

theorem ids_strictly_increase:
  assumes "generator_ok g" and "readings_ok qs" and "generate_run qs g = (is, g')"
  shows "sorted_wrt (<) is \<and> (\<forall>i\<in>set is. id_of g < i \<and> 0 < i \<and> i < 2 ^ 128 \<and> last_time_ms g \<le> i div 2 ^ 80)"
  using assms
proof (induction qs arbitrary: g "is")
  case Nil
  then show ?case by simp
next
  case (Cons q qs)
  obtain now_ns drawn where q: "q = (now_ns, drawn)" by fastforce
  with Cons.prems(2) have r: "now_ns div 1000000 < 2 ^ 48" "0 \<le> drawn" "drawn < 2 ^ 80" "readings_ok qs"
    by (auto simp: readings_ok_def)
  show ?case
  proof (cases "fst (generate now_ns drawn g)")
    case (Inl e)
    with q Cons.prems(3) show ?thesis by (auto split: prod.splits)
  next
    case (Inr i)
    then obtain g1 where g1: "generate now_ns drawn g = (Inr i, g1)" by (cases "generate now_ns drawn g") auto
    obtain is1 where is1: "generate_run qs g1 = (is1, g')" "is = i # is1"
      using Cons.prems(3) g1 q by (auto split: prod.splits)
    note step = generate_Inr [OF Cons.prems(1) r(1-3) g1]
    then have rest: "sorted_wrt (<) is1 \<and> (\<forall>j\<in>set is1. id_of g1 < j \<and> 0 < j \<and> j < 2 ^ 128 \<and> last_time_ms g1 \<le> j div 2 ^ 80)"
      using Cons.IH [OF _ r(4) is1(1)] by blast
    have "0 \<le> id_of g" using id_of_bounds(1) [OF Cons.prems(1)] .
    with step rest is1(2) id_of_bounds(2,3) [of g1] show ?thesis by auto
  qed
qed

theorem ids_strictly_increase_witness:
  "sorted_wrt (<) (fst (generate_run [(5000000, 7), (5000000, 9), (4000000, 1), (6000000, 2)]
     \<lparr>last_time_ms = 4, last_random = 3\<rparr>))"
proof -
  let ?qs = "[(5000000, 7), (5000000, 9), (4000000, 1), (6000000, 2)] :: (int \<times> int) list"
  let ?g = "\<lparr>last_time_ms = 4, last_random = 3\<rparr>"
  have "generator_ok ?g" "readings_ok ?qs" by (simp_all add: generator_ok_def readings_ok_def)
  from ids_strictly_increase [OF this, of "fst (generate_run ?qs ?g)" "snd (generate_run ?qs ?g)"]
  show ?thesis by simp
qed

text \<open>After the overflow error the generator is left with 81 random bits: the next call in
  the same millisecond \<open>t\<close> succeeds with an identifier whose extra bit is merged into
  the time, below every recent one when \<open>t\<close> is odd, and stamped \<open>t + 1\<close> when it is even.\<close>

theorem overflow_breaks_monotonicity:
  assumes "last_random g = 2 ^ 80 - 1" and "0 \<le> last_time_ms g"
    and "now1 div 1000000 \<le> last_time_ms g" "now2 div 1000000 \<le> last_time_ms g"
    and "generate now1 d1 g = (r1, g1)" and "generate now2 d2 g1 = (r2, g2)"
  shows "r1 = Inl (RuntimeError ''random bits overflow on monotonic increment'') \<and>
    (if odd (last_time_ms g) then r2 = Inr (last_time_ms g * 2 ^ 80 + 1) \<and> last_time_ms g * 2 ^ 80 + 1 < id_of g
     else r2 = Inr ((last_time_ms g + 1) * 2 ^ 80 + 1))"
proof -
  let ?t = "last_time_ms g"
  have r1: "r1 = Inl (RuntimeError ''random bits overflow on monotonic increment'')"
      "g1 = g\<lparr>last_random := 2 ^ 80\<rparr>"
    using assms(1,3,5) by (auto simp: generate_def Let_def)
  then have r2: "r2 = Inr (push_bit 80 ?t OR (2 ^ 80 + 1))"
    using assms(4,6) by (auto simp: generate_def Let_def)
  have "push_bit 80 ?t OR (2 ^ 80 + 1) = push_bit 80 (?t OR 1) OR (1 :: int)"
  proof -
    have "(2 ^ 80 + 1 :: int) = push_bit 80 1 OR 1" using id_layout [of 1 1] by simp
    then show ?thesis by (simp add: push_bit_or or.assoc)
  qed
  also have "\<dots> = (?t OR 1) * 2 ^ 80 + 1" by (rule id_layout) simp_all
  also have "?t OR 1 = (if odd ?t then ?t else ?t + 1)" by (auto simp: or_one_eq)
  finally show ?thesis using r1 r2 assms(1) by (simp add: id_of_def)
qed

theorem overflow_breaks_monotonicity_witness:
  "fst (generate 5000000 0 (snd (generate 5000000 0 \<lparr>last_time_ms = 5, last_random = 2 ^ 80 - 1\<rparr>)))
     = Inr (5 * 2 ^ 80 + 1)"
proof -
  let ?g = "\<lparr>last_time_ms = 5, last_random = 2 ^ 80 - 1\<rparr>"
  show ?thesis
    using overflow_breaks_monotonicity [of ?g 5000000 5000000 0 "fst (generate 5000000 0 ?g)"
        "snd (generate 5000000 0 ?g)" 0 "fst (generate 5000000 0 (snd (generate 5000000 0 ?g)))"
        "snd (generate 5000000 0 (snd (generate 5000000 0 ?g)))"] by simp
qed

end
