(* ===== verification/Py_Text.thy ===== *)
theory Py_Text
  imports Py_Float
begin

section \<open>Python text: splitting, numbers from text and text of floats\<close>

text \<open>
  The string operations of the standard library that the parsers and printers use, on
  strings of 8-bit characters: \<open>strip\<close>, \<open>split\<close>, \<open>int(s)\<close>, \<open>float(s)\<close> (grouping
  underscores, exponents and the names of the special values included, correctly
  rounded) and \<open>str(x)\<close> of a float: the shortest digits that read back as the same
  float.
\<close>

subsection \<open>Whitespace and splitting\<close>

definition is_space :: "char \<Rightarrow> bool" where
  "is_space c \<longleftrightarrow> (let n = (of_char c :: nat) in
     (9 \<le> n \<and> n \<le> 13) \<or> (28 \<le> n \<and> n \<le> 32) \<or> n = 133 \<or> n = 160)"

definition is_digit :: "char \<Rightarrow> bool" where
  "is_digit c \<longleftrightarrow> (let n = (of_char c :: nat) in 48 \<le> n \<and> n \<le> 57)"

definition lstrip :: "string \<Rightarrow> string" where "lstrip s = dropWhile is_space s"

definition rstrip :: "string \<Rightarrow> string" where "rstrip s = rev (dropWhile is_space (rev s))"

definition strip :: "string \<Rightarrow> string" where "strip s = rstrip (lstrip s)"

text \<open>\<open>s.split(c)\<close> of a one-character separator, and \<open>s.split()\<close>.\<close>

fun split_on :: "char \<Rightarrow> string \<Rightarrow> string list" where
  "split_on c [] = [[]]"
| "split_on c (x # xs) =
     (if x = c then [] # split_on c xs
      else case split_on c xs of p # ps \<Rightarrow> (x # p) # ps | [] \<Rightarrow> [[x]])"

text \<open>\<open>sep.join(parts)\<close>\<close>

fun join_with :: "string \<Rightarrow> string list \<Rightarrow> string" where
  "join_with sep [] = []"
| "join_with sep [p] = p"
| "join_with sep (p # ps) = p @ sep @ join_with sep ps"

function split_words :: "string \<Rightarrow> string list" where
  "split_words s =
     (let t = lstrip s in
      if t = [] then [] else takeWhile (\<lambda>c. \<not> is_space c) t # split_words (dropWhile (\<lambda>c. \<not> is_space c) t))"
  by pat_completeness auto
termination
proof (relation "measure length")
  fix s t assume "t = lstrip s" "t \<noteq> []"
  then have "length t \<le> length s" "\<not> is_space (hd t)"
    by (auto simp: lstrip_def length_dropWhile_le hd_dropWhile)
  then have "length (dropWhile (\<lambda>c. \<not> is_space c) t) < length s"
    using \<open>t \<noteq> []\<close> length_dropWhile_le [of "\<lambda>c. \<not> is_space c" "tl t"] by (cases t) auto
  then show "(dropWhile (\<lambda>c. \<not> is_space c) t, s) \<in> measure length" by simp
qed simp

declare split_words.simps [simp del]

lemma split_on_plain: "c \<notin> set s \<Longrightarrow> split_on c s = [s]"
  by (induction s) auto

lemma split_on_cut: "c \<notin> set s \<Longrightarrow> split_on c (s @ c # t) = s # split_on c t"
  by (induction s) (auto split: list.splits)

lemma split_on_no_sep: "p \<in> set (split_on c s) \<Longrightarrow> c \<notin> set p"
  by (induction s arbitrary: p) (auto split: if_splits list.splits)

lemma split_on_nonempty [simp]: "split_on c s \<noteq> []"
  by (induction s) (auto split: list.splits)

subsection \<open>Numbers from text\<close>

definition digit_value :: "char \<Rightarrow> nat" where "digit_value c = of_char c - 48"

definition read_nat :: "string \<Rightarrow> nat" where "read_nat s = foldl (\<lambda>n c. n * 10 + digit_value c) 0 s"

text \<open>An underscore is allowed between two digits only.\<close>

fun underscores_ok :: "bool \<Rightarrow> string \<Rightarrow> bool" where
  "underscores_ok after_digit [] \<longleftrightarrow> True"
| "underscores_ok after_digit (c # s) \<longleftrightarrow>
     (if c = CHR ''_'' then after_digit \<and> s \<noteq> [] \<and> is_digit (hd s) \<and> underscores_ok False s
      else underscores_ok (is_digit c) s)"

definition ungroup :: "string \<Rightarrow> string option" where
  "ungroup s = (if underscores_ok False s then Some (filter (\<lambda>c. c \<noteq> CHR ''_'') s) else None)"

text \<open>A leading sign.\<close>

definition split_sign :: "string \<Rightarrow> bool \<times> string" where
  "split_sign s = (case s of c # t \<Rightarrow> if c = CHR ''-'' then (True, t) else if c = CHR ''+'' then (False, t) else (False, s)
     | [] \<Rightarrow> (False, []))"

definition int_of_string :: "string \<Rightarrow> (py_exn, int) result" where
  "int_of_string s =
     (case ungroup (strip s) of
        None \<Rightarrow> Inl ValueError
      | Some t \<Rightarrow>
          (case split_sign t of (neg, ds) \<Rightarrow>
             if ds = [] \<or> \<not> list_all is_digit ds then Inl ValueError
             else Inr (if neg then - int (read_nat ds) else int (read_nat ds))))"

text \<open>Digits with an optional fraction and an optional exponent.\<close>

definition parse_exponent :: "string \<Rightarrow> int option" where
  "parse_exponent r =
     (case r of
        [] \<Rightarrow> Some 0
      | e # t \<Rightarrow>
          if e \<noteq> CHR ''e'' \<and> e \<noteq> CHR ''E'' then None
          else case split_sign t of (neg, ds) \<Rightarrow>
            if ds = [] \<or> \<not> list_all is_digit ds then None
            else Some (if neg then - int (read_nat ds) else int (read_nat ds)))"

definition split_fraction :: "string \<Rightarrow> string \<times> string" where
  "split_fraction r =
     (case r of c # t \<Rightarrow> if c = CHR ''.'' then (takeWhile is_digit t, dropWhile is_digit t) else ([], r)
      | [] \<Rightarrow> ([], []))"

definition parse_unsigned :: "string \<Rightarrow> rat option" where
  "parse_unsigned s =
     (let ip = takeWhile is_digit s in
      case split_fraction (dropWhile is_digit s) of (fp, r) \<Rightarrow>
        if ip @ fp = [] then None
        else map_option (\<lambda>e. of_nat (read_nat (ip @ fp)) * 10 powi (e - int (length fp))) (parse_exponent r))"

definition float_of_string :: "string \<Rightarrow> (py_exn, pyfloat) result" where
  "float_of_string s =
     (case ungroup (strip s) of
        None \<Rightarrow> Inl ValueError
      | Some t \<Rightarrow>
          (case split_sign t of (neg, u) \<Rightarrow>
             let l = py_lower u in
             if l = ''inf'' \<or> l = ''infinity'' then Inr (if neg then NInf else PInf)
             else if l = ''nan'' then Inr NaN
             else case parse_unsigned u of
                None \<Rightarrow> Inl ValueError
              | Some x \<Rightarrow> Inr (mk_float (if neg then - x else x))))"

subsection \<open>Text of a float\<close>

text \<open>The decimal point of a positive rational: \<open>10 ^ (d - 1) \<le> x < 10 ^ d\<close>.\<close>

fun leading_zeros :: "nat \<Rightarrow> rat \<Rightarrow> nat" where
  "leading_zeros 0 x = 0"
| "leading_zeros (Suc n) x = (if 1 / 10 \<le> x then 0 else Suc (leading_zeros n (10 * x)))"

definition dec_point :: "rat \<Rightarrow> int" where
  "dec_point x = (if 1 \<le> x then int (length (show_nat (nat \<lfloor>x\<rfloor>))) else - int (leading_zeros 400 x))"

text \<open>
  The \<open>n\<close>-digit decimals next to \<open>x\<close> that read back as \<open>x\<close>, the nearest one first; the
  result is a significand and a power of ten.
\<close>

definition pick_digits :: "rat \<Rightarrow> nat \<Rightarrow> (int \<times> int) option" where
  "pick_digits x n =
     (let e = dec_point x - int n;
          u = 10 powi e;
          k = \<lfloor>x / u\<rfloor>;
          below = (fl (of_int k * u) = x);
          above = (fl (of_int (k + 1) * u) = x)
      in if below \<and> above then Some (if x - of_int k * u \<le> of_int (k + 1) * u - x then k else k + 1, e)
         else if below then Some (k, e)
         else if above then Some (k + 1, e)
         else None)"

text \<open>Seventeen digits determine every binary64 number, so the search ends.\<close>

fun search_digits :: "rat \<Rightarrow> nat list \<Rightarrow> int \<times> int" where
  "search_digits x [] = (\<lfloor>x / 10 powi (dec_point x - 17)\<rfloor>, dec_point x - 17)"
| "search_digits x (n # ns) = (case pick_digits x n of Some r \<Rightarrow> r | None \<Rightarrow> search_digits x ns)"

definition shortest_digits :: "rat \<Rightarrow> int \<times> int" where
  "shortest_digits x = search_digits x [1..<18]"

text \<open>Digits and decimal point as \<open>repr\<close> lays them out.\<close>

definition drop_zeros :: "string \<Rightarrow> string" where
  "drop_zeros s = rev (dropWhile (\<lambda>c. c = CHR ''0'') (rev s))"

definition zeros :: "nat \<Rightarrow> string" where "zeros n = replicate n (CHR ''0'')"

definition show_exponent :: "int \<Rightarrow> string" where
  "show_exponent e =
     (if e < 0 then ''e-'' else ''e+'') @ (if \<bar>e\<bar> < 10 then ''0'' else []) @ show_nat (nat \<bar>e\<bar>)"

definition layout_decimal :: "string \<Rightarrow> int \<Rightarrow> string" where
  "layout_decimal ds p =
     (if - 4 < p \<and> p \<le> 0 then ''0.'' @ zeros (nat (- p)) @ ds
      else if 0 < p \<and> p < int (length ds) then take (nat p) ds @ ''.'' @ drop (nat p) ds
      else if 0 < p \<and> p \<le> 16 then ds @ zeros (nat p - length ds) @ ''.0''
      else take 1 ds @ (if 1 < length ds then ''.'' @ drop 1 ds else []) @ show_exponent (p - 1))"

definition show_positive :: "rat \<Rightarrow> string" where
  "show_positive x =
     (case shortest_digits x of (k, e) \<Rightarrow>
        let s = show_nat (nat k) in layout_decimal (drop_zeros s) (int (length s) + e))"

fun show_float :: "pyfloat \<Rightarrow> string" where
  "show_float (Fin x) = (if x = 0 then ''0.0'' else if x < 0 then ''-'' @ show_positive (- x) else show_positive x)"
| "show_float PInf = ''inf''"
| "show_float NInf = ''-inf''"
| "show_float NaN = ''nan''"

text \<open>\<open>f"{x:.nf}"\<close>: the exact value rounded half to even to \<open>n\<close> decimals, \<open>0 < n\<close>.\<close>

fun show_fixed :: "nat \<Rightarrow> pyfloat \<Rightarrow> string" where
  "show_fixed n (Fin x) =
     (let t = nat (rhe (\<bar>x\<bar> * 10 ^ n)); f = show_nat (t mod 10 ^ n) in
      (if x < 0 then ''-'' else []) @ show_nat (t div 10 ^ n) @ ''.'' @ zeros (n - length f) @ f)"
| "show_fixed n PInf = ''inf''"
| "show_fixed n NInf = ''-inf''"
| "show_fixed n NaN = ''nan''"

subsection \<open>Lemmas: digits\<close>

lemma is_digit_show [simp]: "n < (10 :: nat) \<Longrightarrow> is_digit (char_of (48 + n))"
  by (simp add: is_digit_def Let_def)

lemma digit_value_show [simp]: "n < (10 :: nat) \<Longrightarrow> digit_value (char_of (48 + n)) = n"
  by (simp add: digit_value_def)

lemma show_nat_digits: "list_all is_digit (show_nat n)"
proof (induction n rule: show_nat.induct)
  case (1 n)
  then show ?case by (subst show_nat.simps) (simp add: list_all_iff del: show_nat.simps)
qed

lemma show_nat_nonempty [simp]: "show_nat n \<noteq> []"
  by (subst show_nat.simps) simp

lemma read_nat_append: "read_nat (a @ b) = read_nat a * 10 ^ length b + read_nat b"
proof (induction b rule: rev_induct)
  case Nil
  then show ?case by (simp add: read_nat_def)
next
  case (snoc x b)
  have step: "read_nat (c @ [x]) = read_nat c * 10 + digit_value x" for c by (simp add: read_nat_def)
  show ?case
    using snoc step [of "a @ b"] step [of b] by (simp add: algebra_simps)
qed

lemma read_nat_show [simp]: "read_nat (show_nat n) = n"
proof (induction n rule: show_nat.induct)
  case (1 n)
  then show ?case
    by (subst show_nat.simps) (simp add: read_nat_append, simp add: read_nat_def)
qed

lemma read_nat_zeros [simp]: "read_nat (zeros n) = 0"
  by (induction n) (simp_all add: zeros_def read_nat_def digit_value_def)

lemma zeros_digits: "list_all is_digit (zeros n)"
  by (simp add: zeros_def list_all_iff is_digit_def)

lemma length_zeros [simp]: "length (zeros n) = n"
  by (simp add: zeros_def)

lemma drop_zeros_split: "s = drop_zeros s @ zeros (length s - length (drop_zeros s))"
proof -
  let ?P = "\<lambda>c. c = CHR ''0''"
  have "rev s = takeWhile ?P (rev s) @ dropWhile ?P (rev s)" by simp
  then have "s = rev (dropWhile ?P (rev s)) @ rev (takeWhile ?P (rev s))" by (metis rev_append rev_rev_ident)
  moreover have "takeWhile ?P (rev s) = zeros (length (takeWhile ?P (rev s)))"
    by (auto simp: zeros_def intro!: replicate_eqI dest: set_takeWhileD)
  then have "rev (takeWhile ?P (rev s)) = zeros (length (takeWhile ?P (rev s)))"
    by (metis rev_replicate zeros_def)
  ultimately have "s = drop_zeros s @ zeros (length (takeWhile ?P (rev s)))"
    by (simp add: drop_zeros_def)
  then show ?thesis by (metis add_diff_cancel_left' length_append length_zeros)
qed

lemma drop_zeros_digits: "list_all is_digit s \<Longrightarrow> list_all is_digit (drop_zeros s)"
  by (subst (asm) drop_zeros_split) simp

lemma drop_zeros_value:
  "of_nat (read_nat (drop_zeros s)) * 10 powi (int (length s) + e - int (length (drop_zeros s)))
     = of_nat (read_nat s) * (10 :: rat) powi e"
proof -
  let ?k = "length s - length (drop_zeros s)"
  have len: "length s = length (drop_zeros s) + ?k"
    by (subst drop_zeros_split) (simp add: drop_zeros_def length_dropWhile_le)
  have "read_nat s = read_nat (drop_zeros s) * 10 ^ ?k"
    by (subst drop_zeros_split) (simp add: read_nat_append)
  moreover have "(10 :: rat) powi (int (length s) + e - int (length (drop_zeros s))) = 10 ^ ?k * 10 powi e"
  proof -
    have "int (length s) + e - int (length (drop_zeros s)) = int ?k + e" using len by simp
    moreover have "(10 :: rat) powi (int ?k + e) = 10 powi int ?k * 10 powi e"
      by (rule power_int_add) simp
    ultimately show ?thesis by (simp only: power_int_of_nat)
  qed
  ultimately show ?thesis by simp
qed

subsection \<open>Lemmas: reading what was printed\<close>

text \<open>The characters of a printed number.\<close>

definition number_char :: "char \<Rightarrow> bool" where
  "number_char c \<longleftrightarrow> is_digit c \<or> c \<in> {CHR ''.'', CHR ''e'', CHR ''-'', CHR ''+''}"

lemma number_char_plain: "number_char c \<Longrightarrow> \<not> is_space c \<and> c \<noteq> CHR ''_''"
  by (auto simp: number_char_def is_space_def is_digit_def Let_def)

lemma digits_number: "list_all is_digit s \<Longrightarrow> list_all number_char s"
  by (auto simp: list_all_iff number_char_def)

lemma strip_plain: "\<forall>c\<in>set s. \<not> is_space c \<Longrightarrow> strip s = s"
proof -
  have d: "dropWhile is_space t = t" if "\<forall>c\<in>set t. \<not> is_space c" for t
    using that by (cases t) auto
  assume "\<forall>c\<in>set s. \<not> is_space c"
  then show ?thesis using d [of s] d [of "rev s"] by (simp add: strip_def lstrip_def rstrip_def)
qed

lemma ungroup_plain: "CHR ''_'' \<notin> set s \<Longrightarrow> ungroup s = Some s"
proof -
  have "CHR ''_'' \<notin> set s \<Longrightarrow> underscores_ok b s" for b by (induction s arbitrary: b) auto
  then show "CHR ''_'' \<notin> set s \<Longrightarrow> ungroup s = Some s"
    by (auto simp: ungroup_def filter_id_conv)
qed

lemma takeWhile_digits:
  "list_all is_digit a \<Longrightarrow> r = [] \<or> \<not> is_digit (hd r) \<Longrightarrow>
     takeWhile is_digit (a @ r) = a \<and> dropWhile is_digit (a @ r) = r"
  by (cases r) (auto simp: list_all_iff takeWhile_append takeWhile_eq_Nil_iff dropWhile_append3)

lemma parse_unsigned_digits:
  assumes "list_all is_digit a" "a \<noteq> []"
  shows "parse_unsigned a = Some (of_nat (read_nat a))"
proof -
  have "takeWhile is_digit a = a" "dropWhile is_digit a = []" using assms(1) by (auto simp: list_all_iff)
  then show ?thesis
    using assms(2) unfolding parse_unsigned_def by (simp only:) (simp add: split_fraction_def parse_exponent_def)
qed

lemma parse_unsigned_parts:
  assumes "list_all is_digit a" "list_all is_digit b" "a @ b \<noteq> []" "x = [] \<or> \<not> is_digit (hd x)"
    and "parse_exponent x = Some e"
  shows "parse_unsigned (a @ CHR ''.'' # b @ x) = Some (of_nat (read_nat (a @ b)) * 10 powi (e - int (length b)))"
    and "b = [] \<Longrightarrow> x = [] \<or> hd x \<noteq> CHR ''.'' \<Longrightarrow> parse_unsigned (a @ x) = Some (of_nat (read_nat a) * 10 powi e)"
proof -
  have "\<not> is_digit CHR ''.''" by (simp add: is_digit_def)
  with takeWhile_digits [OF assms(1), of "CHR ''.'' # b @ x"] takeWhile_digits [OF assms(2,4)] assms(3,5)
  show "parse_unsigned (a @ CHR ''.'' # b @ x) = Some (of_nat (read_nat (a @ b)) * 10 powi (e - int (length b)))"
    by (simp add: parse_unsigned_def split_fraction_def)
  assume "b = []" "x = [] \<or> hd x \<noteq> CHR ''.''"
  show "parse_unsigned (a @ x) = Some (of_nat (read_nat a) * 10 powi e)"
  proof (cases x)
    case Nil
    have "a \<noteq> []" using assms(3) \<open>b = []\<close> by simp
    with parse_unsigned_digits [OF assms(1)] Nil assms(5) show ?thesis
      by (simp add: parse_exponent_def)
  next
    case (Cons c t)
    with takeWhile_digits [OF assms(1,4)] assms(3,5) \<open>b = []\<close> \<open>x = [] \<or> hd x \<noteq> CHR ''.''\<close> show ?thesis
      by (simp add: parse_unsigned_def split_fraction_def)
  qed
qed

lemma parse_show_exponent: "parse_exponent (show_exponent e) = Some e"
proof -
  let ?ds = "(if \<bar>e\<bar> < 10 then ''0'' else []) @ show_nat (nat \<bar>e\<bar>)"
  have "read_nat (CHR ''0'' # s) = read_nat s" for s
    by (simp add: read_nat_def digit_value_def)
  then have "read_nat ?ds = nat \<bar>e\<bar>" by simp
  moreover have "list_all is_digit ?ds" "?ds \<noteq> []"
    using show_nat_digits [of "nat \<bar>e\<bar>"] by (simp_all add: is_digit_def)
  moreover have "show_exponent e = CHR ''e'' # (if e < 0 then CHR ''-'' else CHR ''+'') # ?ds"
    by (simp add: show_exponent_def)
  ultimately show ?thesis
    by (cases "e < 0") (simp_all only: parse_exponent_def split_sign_def list.case, simp_all)
qed

lemma parse_layout:
  assumes ds: "list_all is_digit ds" "ds \<noteq> []"
  shows "parse_unsigned (layout_decimal ds p) = Some (of_nat (read_nat ds) * 10 powi (p - int (length ds)))"
proof -
  have z: "list_all is_digit (zeros n)" for n by (rule zeros_digits)
  consider "- 4 < p" "p \<le> 0" | "0 < p" "p < int (length ds)" | "0 < p" "int (length ds) \<le> p" "p \<le> 16"
    | "\<not> (- 4 < p \<and> p \<le> 0)" "\<not> (0 < p \<and> p < int (length ds))" "\<not> (0 < p \<and> p \<le> 16)" by linarith
  then show ?thesis
  proof cases
    case 1
    have zero: "list_all is_digit ''0''" by (simp add: is_digit_def)
    have "read_nat (''0'' @ zeros (nat (- p)) @ ds) = read_nat ds"
      using read_nat_append [of "zeros (nat (- p))" ds] read_nat_append [of "''0''" "zeros (nat (- p)) @ ds"]
      by (simp add: read_nat_def [of "''0''"] digit_value_def)
    moreover have "- int (length (zeros (nat (- p)) @ ds)) = p - int (length ds)" using 1 by simp
    ultimately show ?thesis
      using parse_unsigned_parts(1) [OF zero, of "zeros (nat (- p)) @ ds" "[]" 0] z ds 1
      by (simp add: layout_decimal_def parse_exponent_def)
  next
    case 2
    then have "- int (length (drop (nat p) ds)) = p - int (length ds)" by simp
    moreover have "list_all is_digit (take (nat p) ds)" "list_all is_digit (drop (nat p) ds)"
      using ds by (auto simp: list_all_iff dest: in_set_takeD in_set_dropD)
    ultimately show ?thesis
      using parse_unsigned_parts(1) [of "take (nat p) ds" "drop (nat p) ds" "[]" 0] ds 2
      by (simp add: layout_decimal_def parse_exponent_def)
  next
    case 3
    let ?k = "nat p - length ds"
    have zero: "list_all is_digit ''0''" by (simp add: is_digit_def)
    have v: "read_nat ((ds @ zeros ?k) @ ''0'') = read_nat ds * 10 ^ Suc ?k"
      using read_nat_append [of "ds @ zeros ?k" "''0''"] read_nat_append [of ds "zeros ?k"]
      by (simp add: read_nat_def [of "''0''"] digit_value_def)
    have "(10 :: rat) ^ Suc ?k * 10 powi (0 - 1) = 10 powi (p - int (length ds))"
    proof -
      have "p - int (length ds) = int ?k" using 3 by simp
      then have "(10 :: rat) powi (p - int (length ds)) = 10 ^ ?k" by (simp only: power_int_of_nat)
      moreover have "(10 :: rat) ^ Suc ?k * 10 powi (0 - 1) = 10 ^ ?k" by (simp add: power_int_minus)
      ultimately show ?thesis by simp
    qed
    then have "of_nat (read_nat ((ds @ zeros ?k) @ ''0'')) * (10 :: rat) powi (0 - int (length ''0''))
        = of_nat (read_nat ds) * 10 powi (p - int (length ds))"
      unfolding v of_nat_mult of_nat_power by (simp add: algebra_simps)
    moreover have "layout_decimal ds p = (ds @ zeros ?k) @ CHR ''.'' # ''0'' @ []"
      using 3 by (simp add: layout_decimal_def)
    ultimately show ?thesis
      using parse_unsigned_parts(1) [OF _ zero, of "ds @ zeros ?k" "[]" 0] z [of ?k] ds
      by (simp add: parse_exponent_def)
  next
    case 4
    then have l: "layout_decimal ds p = take 1 ds @ (if 1 < length ds then ''.'' @ drop 1 ds else []) @ show_exponent (p - 1)"
      by (auto simp: layout_decimal_def)
    have x: "show_exponent (p - 1) = [] \<or> \<not> is_digit (hd (show_exponent (p - 1)))"
      "show_exponent (p - 1) = [] \<or> hd (show_exponent (p - 1)) \<noteq> CHR ''.''"
      by (simp_all add: show_exponent_def is_digit_def)
    obtain d t where d: "ds = d # t" using ds by (cases ds) auto
    show ?thesis
    proof (cases "t = []")
      case True
      then show ?thesis
        using parse_unsigned_parts(2) [of "[d]" "[]" "show_exponent (p - 1)" "p - 1"] x ds l d
        by (simp add: parse_show_exponent)
    next
      case False
      then show ?thesis
        using parse_unsigned_parts(1) [of "[d]" t "show_exponent (p - 1)" "p - 1"] x ds l d
        by (simp add: parse_show_exponent diff_diff_eq)
    qed
  qed
qed

lemma layout_decimal_chars:
  assumes "list_all is_digit ds"
  shows "list_all number_char (layout_decimal ds p)"
proof -
  have "list_all number_char ds" "list_all number_char (take n ds)" "list_all number_char (drop n ds)" for n
    using assms by (auto simp: list_all_iff number_char_def dest: in_set_takeD in_set_dropD)
  moreover have "list_all number_char (zeros n)" "list_all number_char (show_nat n)" for n
    using zeros_digits show_nat_digits by (simp_all add: digits_number)
  moreover have "list_all number_char ''0.''" "list_all number_char ''.0''" "list_all number_char ''.''"
      "list_all number_char ''e-''" "list_all number_char ''e+''" "list_all number_char ''0''"
    by (simp_all add: number_char_def is_digit_def)
  ultimately show ?thesis by (simp add: layout_decimal_def show_exponent_def)
qed

lemma layout_decimal_head:
  assumes "list_all is_digit ds" "ds \<noteq> []"
  shows "\<exists>c t. layout_decimal ds p = c # t \<and> is_digit c"
proof -
  obtain d r where ds: "ds = d # r" "is_digit d" using assms by (cases ds) auto
  have "is_digit CHR ''0''" by (simp add: is_digit_def)
  with ds show ?thesis by (auto simp: layout_decimal_def take_Cons')
qed

lemma read_plain:
  assumes "list_all number_char u" "u = c # t" "is_digit c" "parse_unsigned u = Some x"
  shows "float_of_string u = Inr (mk_float x)" "float_of_string (CHR ''-'' # u) = Inr (mk_float (- x))"
proof -
  have low: "lower_char c \<noteq> CHR ''i''" "lower_char c \<noteq> CHR ''n''"
  proof -
    have n: "(of_char c :: nat) \<le> 57" using assms(3) by (simp add: is_digit_def Let_def)
    then have "lower_char c = c" by (simp add: lower_char_def Let_def)
    moreover have "c \<noteq> CHR ''i''" "c \<noteq> CHR ''n''" using n by auto
    ultimately show "lower_char c \<noteq> CHR ''i''" "lower_char c \<noteq> CHR ''n''" by simp_all
  qed
  have sign: "split_sign u = (False, u)"
  proof -
    have "c \<noteq> CHR ''-''" "c \<noteq> CHR ''+''" using assms(3) by (auto simp: is_digit_def)
    then show ?thesis using assms(2) by (simp add: split_sign_def)
  qed
  have plain: "\<forall>a\<in>set v. \<not> is_space a" "CHR ''_'' \<notin> set v" if "list_all number_char v" for v
    using that number_char_plain by (auto simp: list_all_iff)
  then have whole: "ungroup (strip v) = Some v" if "list_all number_char v" for v
    using strip_plain [OF plain(1) [OF that]] ungroup_plain [OF plain(2) [OF that]] by simp
  have "list_all number_char (CHR ''-'' # u)" using assms(1) by (simp add: number_char_def)
  then have "ungroup (strip u) = Some u" "ungroup (strip (CHR ''-'' # u)) = Some (CHR ''-'' # u)"
    using whole assms(1) by blast+
  then show "float_of_string u = Inr (mk_float x)" "float_of_string (CHR ''-'' # u) = Inr (mk_float (- x))"
    using low sign assms(2,4)
    by (simp_all add: float_of_string_def py_lower_def) (simp_all add: split_sign_def py_lower_def)
qed

lemma read_show_positive:
  assumes "shortest_digits x = (k, e)" "0 < k"
  shows "float_of_string (show_positive x) = Inr (mk_float (of_int k * 10 powi e))"
    and "float_of_string (CHR ''-'' # show_positive x) = Inr (mk_float (- (of_int k * 10 powi e)))"
proof -
  let ?s = "show_nat (nat k)"
  let ?ds = "drop_zeros ?s"
  have ds: "list_all is_digit ?ds" by (rule drop_zeros_digits [OF show_nat_digits])
  have "?ds \<noteq> []"
  proof
    assume "?ds = []"
    then have "read_nat ?s = 0" using drop_zeros_split [of ?s] by (metis append_Nil read_nat_zeros)
    with assms(2) show False by simp
  qed
  note ds = ds this
  let ?u = "layout_decimal ?ds (int (length ?s) + e)"
  have u: "show_positive x = ?u" using assms(1) by (simp add: show_positive_def Let_def)
  have "parse_unsigned ?u = Some (of_int k * 10 powi e)"
    using parse_layout [OF ds] drop_zeros_value [of ?s e] assms(2) by simp
  moreover obtain c t where "?u = c # t" "is_digit c" using layout_decimal_head [OF ds] by blast
  ultimately show "float_of_string (show_positive x) = Inr (mk_float (of_int k * 10 powi e))"
      "float_of_string (CHR ''-'' # show_positive x) = Inr (mk_float (- (of_int k * 10 powi e)))"
    unfolding u using read_plain [OF layout_decimal_chars [OF ds(1)]] by blast+
qed

lemma search_digits_found:
  "n \<in> set ns \<Longrightarrow> pick_digits x n \<noteq> None \<Longrightarrow> \<exists>m. pick_digits x m = Some (search_digits x ns)"
  by (induction ns) (auto split: option.splits)

lemma pick_digits_reads:
  "pick_digits x n = Some (k, e) \<Longrightarrow> fl (of_int k * 10 powi e) = x"
  by (auto simp: pick_digits_def Let_def split: if_splits)

text \<open>
  Text of a float reads back as the float, when some decimal of at most 17 digits next to
  it does.
\<close>

lemma read_show_float:
  assumes "0 < x" "x < 2 ^ 1024" "n \<in> set [1..<18]" "pick_digits x n \<noteq> None"
  shows "float_of_string (show_float (Fin x)) = Inr (Fin x)"
    and "float_of_string (show_float (Fin (- x))) = Inr (Fin (- x))"
proof -
  obtain k e where ke: "shortest_digits x = (k, e)" by fastforce
  then obtain m where "pick_digits x m = Some (k, e)"
    using search_digits_found [OF assms(3,4)] by (auto simp: shortest_digits_def)
  then have v: "fl (of_int k * 10 powi e) = x" by (rule pick_digits_reads)
  have k: "0 < k"
  proof (rule ccontr)
    assume "\<not> 0 < k"
    then have "(of_int k :: rat) * 10 powi e \<le> 0" by (simp add: mult_le_0_iff)
    then have "fl (of_int k * 10 powi e) \<le> 0" using fl_mono [of _ 0] by simp
    with v assms(1) show False by simp
  qed
  have "mk_float (of_int k * 10 powi e) = Fin x" "mk_float (- (of_int k * 10 powi e)) = Fin (- x)"
    using v assms(1,2) by (simp_all add: mk_float_def Let_def)
  then show "float_of_string (show_float (Fin x)) = Inr (Fin x)"
      "float_of_string (show_float (Fin (- x))) = Inr (Fin (- x))"
    using read_show_positive [OF ke k] assms(1) by simp_all
qed

subsection \<open>Lemmas: floats next to decimals with nine places\<close>

lemma leading_zeros_le: "1 / 10 ^ Suc k \<le> x \<Longrightarrow> leading_zeros n x \<le> k"
proof (induction n arbitrary: k x)
  case 0
  then show ?case by simp
next
  case (Suc n)
  show ?case
  proof (cases "1 / 10 \<le> x")
    case True
    then show ?thesis by simp
  next
    case False
    with Suc.prems obtain j where k: "k = Suc j" by (cases k) auto
    then have "1 / 10 ^ Suc j \<le> 10 * x" using Suc.prems by (simp add: field_simps)
    with Suc.IH k False show ?thesis by simp
  qed
qed

lemma length_show_nat_le: "n < 1000 \<Longrightarrow> length (show_nat n) \<le> 3"
  by (simp add: show_nat.simps [of n] show_nat.simps [of "n div 10"] show_nat.simps [of "n div 10 div 10"])

lemma fl_ninth_error:
  assumes "0 < n"
  shows "\<bar>fl (of_int n / 10 ^ 9) - of_int n / 10 ^ 9\<bar> \<le> of_int n / 10 ^ 9 / 2 ^ 53"
proof -
  have "(1 :: rat) \<le> of_int n" using assms by simp
  then have "1 / 2 ^ 30 \<le> \<bar>of_int n / 10 ^ 9 :: rat\<bar>" by (simp add: field_simps)
  from fl_error_normal [OF this] show ?thesis using assms by simp
qed

lemma ninth_bounds:
  assumes "0 < n" "n \<le> 180000000000"
  shows "1 / 10 ^ 10 \<le> fl (of_int n / 10 ^ 9)" "fl (of_int n / 10 ^ 9) < 181"
proof -
  let ?y = "of_int n / 10 ^ 9 :: rat"
  have "(1 :: rat) \<le> of_int n" using assms(1) by simp
  moreover have "of_int n \<le> (180000000000 :: rat)" using assms(2) by (metis of_int_le_iff of_int_numeral)
  ultimately have y: "1 / 10 ^ 9 \<le> ?y" "?y \<le> 180" by (simp_all add: field_simps)
  have "\<bar>fl ?y - ?y\<bar> \<le> ?y / 2 ^ 53" by (rule fl_ninth_error [OF assms(1)])
  moreover have "?y / 2 ^ 53 \<le> ?y / 2" using y(1) by (intro divide_left_mono) simp_all
  ultimately have "?y / 2 \<le> fl ?y" by linarith
  moreover have "1 / 10 ^ 9 / 2 \<le> ?y / 2" by (rule divide_right_mono [OF y(1)]) simp
  moreover have "(1 / 10 ^ 10 :: rat) \<le> 1 / 10 ^ 9 / 2" by simp
  ultimately show "1 / 10 ^ 10 \<le> fl ?y" by (meson order_trans)
  have "fl ?y \<le> of_int 180" using y by (intro fl_le_of_int) simp_all
  then show "fl ?y < 181" by simp
qed

lemma pick_ninth:
  assumes n: "0 < n" "n \<le> 180000000000"
  defines "x \<equiv> fl (of_int n / 10 ^ 9)"
  shows "\<exists>m\<in>set [1..<18]. pick_digits x m \<noteq> None"
proof -
  note b = ninth_bounds [OF n, folded x_def]
  have d: "- 9 \<le> dec_point x" "dec_point x \<le> 3"
  proof -
    have "\<lfloor>x\<rfloor> \<le> 181" using b(2) by linarith
    then have "nat \<lfloor>x\<rfloor> \<le> nat 181" by (rule nat_mono)
    then have "nat \<lfloor>x\<rfloor> < 1000" by linarith
    from length_show_nat_le [OF this] leading_zeros_le [of 9 x 400] b(1)
    show "- 9 \<le> dec_point x" "dec_point x \<le> 3" by (auto simp: dec_point_def)
  qed
  define m where "m = nat (dec_point x + 10)"
  have m: "m \<in> set [1..<18]" "dec_point x - int m = - 10" using d by (auto simp: m_def)
  let ?y = "of_int n / 10 ^ 9 :: rat"
  have u: "10 powi (- 10) = (1 / 10 ^ 10 :: rat)" by (simp add: power_int_def power_one_over)
  have xu: "x / 10 powi (- 10) = x * 10 ^ 10" unfolding u by simp
  have val: "fl (of_int (10 * n) * 10 powi (- 10)) = x" unfolding u x_def by simp
  have n': "(of_int n :: rat) \<le> 180000000000" using n(2) by (metis of_int_le_iff of_int_numeral)
  have "\<bar>x - ?y\<bar> \<le> ?y / 2 ^ 53" unfolding x_def by (rule fl_ninth_error [OF n(1)])
  also have "\<dots> \<le> 180000000000 / 10 ^ 9 / 2 ^ 53" using n' by (intro divide_right_mono) simp_all
  also have "\<dots> < 1 / 10 ^ 10" by simp
  finally have lt: "\<bar>x - ?y\<bar> * 10 ^ 10 < 1 / 10 ^ 10 * 10 ^ 10" by (rule mult_strict_right_mono) simp
  have eq: "x * 10 ^ 10 - of_int (10 * n) = (x - ?y) * 10 ^ 10"
    unfolding left_diff_distrib by simp
  have "\<bar>x * 10 ^ 10 - of_int (10 * n)\<bar> < 1" unfolding eq abs_mult using lt by simp
  then have "\<lfloor>x * 10 ^ 10\<rfloor> = 10 * n \<or> \<lfloor>x * 10 ^ 10\<rfloor> + 1 = 10 * n" by linarith
  with val have "fl (of_int \<lfloor>x * 10 ^ 10\<rfloor> * 10 powi (- 10)) = x
      \<or> fl (of_int (\<lfloor>x * 10 ^ 10\<rfloor> + 1) * 10 powi (- 10)) = x" by metis
  then have "pick_digits x m \<noteq> None" unfolding pick_digits_def m(2) Let_def xu by auto
  with m(1) show ?thesis by blast
qed

text \<open>The float of a nanodegree value reads back from its text.\<close>

lemma read_show_ninth:
  assumes "\<bar>n\<bar> \<le> 180000000000"
  shows "float_of_string (show_float (Fin (fl (of_int n / 10 ^ 9)))) = Inr (Fin (fl (of_int n / 10 ^ 9)))"
proof -
  have pos: "float_of_string (show_float (Fin (fl (of_int k / 10 ^ 9)))) = Inr (Fin (fl (of_int k / 10 ^ 9))) \<and>
      float_of_string (show_float (Fin (- fl (of_int k / 10 ^ 9)))) = Inr (Fin (- fl (of_int k / 10 ^ 9)))"
    if "0 < k" "k \<le> 180000000000" for k :: int
  proof -
    let ?x = "fl (of_int k / 10 ^ 9)"
    have "?x < 2 ^ 1024" using ninth_bounds(2) [OF that] by (rule order.strict_trans) simp
    moreover have "0 < ?x" using ninth_bounds(1) [OF that] by (rule less_le_trans [rotated]) simp
    ultimately show ?thesis using read_show_float pick_ninth [OF that] by blast
  qed
  consider "0 < n" | "n = 0" | "0 < - n" by linarith
  then show ?thesis
  proof cases
    case 1
    then show ?thesis using pos [of n] assms by simp
  next
    case 2
    have zero: "list_all is_digit ''0''" "is_digit CHR ''0''" by (simp_all add: is_digit_def)
    have "parse_unsigned ''0.0'' = Some 0"
      using parse_unsigned_parts(1) [OF zero(1,1), of "[]" 0]
      by (simp add: parse_exponent_def read_nat_def digit_value_def)
    moreover have "list_all number_char ''0.0''" using zero(2) by (simp add: number_char_def)
    ultimately have "float_of_string ''0.0'' = Inr (mk_float 0)"
      using read_plain(1) [of "''0.0''" "CHR ''0''" "''.0''" 0] zero(2) by simp
    moreover have "mk_float 0 = Fin 0" by (simp add: mk_float_def)
    ultimately show ?thesis using 2 by simp
  next
    case 3
    have "(of_int n / 10 ^ 9 :: rat) = - (of_int (- n) / 10 ^ 9)" by simp
    then have "fl (of_int n / 10 ^ 9) = - fl (of_int (- n) / 10 ^ 9)" by (simp only: fl_minus)
    moreover have "- n \<le> 180000000000" using assms by simp
    ultimately show ?thesis using conjunct2 [OF pos [OF 3]] by simp
  qed
qed

end
