(* ===== verification/Py_Json.thy ===== *)
theory Py_Json
  imports Py_Text
begin

section \<open>JSON values as Python objects\<close>

text \<open>
  What \<open>json.loads\<close> yields: an object is the list of its members, each name once, as the
  dict it becomes; numbers are ints or floats.
\<close>

datatype json =
    JNull
  | JBool bool
  | JInt int
  | JFloat pyfloat
  | JStr string
  | JList "json list"
  | JObj "(string \<times> json) list"

text \<open>\<open>d.get(k, default)\<close>, and \<open>float\<close> and \<open>bool\<close> of a JSON value.\<close>

definition json_get :: "(string \<times> json) list \<Rightarrow> string \<Rightarrow> json \<Rightarrow> json" where
  "json_get d k dflt = (case map_of d k of Some v \<Rightarrow> v | None \<Rightarrow> dflt)"

fun json_float :: "json \<Rightarrow> (py_exn, pyfloat) result" where
  "json_float (JBool b) = Inr (Fin (if b then 1 else 0))"
| "json_float (JInt n) = float_of_int n"
| "json_float (JFloat x) = Inr x"
| "json_float (JStr s) = float_of_string s"
| "json_float _ = Inl TypeError"

fun json_bool :: "json \<Rightarrow> bool" where
  "json_bool JNull = False"
| "json_bool (JBool b) = b"
| "json_bool (JInt n) = (n \<noteq> 0)"
| "json_bool (JFloat x) = (x \<noteq> Fin 0)"
| "json_bool (JStr s) = (s \<noteq> [])"
| "json_bool (JList xs) = (xs \<noteq> [])"
| "json_bool (JObj d) = (d \<noteq> [])"

text \<open>\<open>f"{s:n}"\<close> of a string and of a number.\<close>

definition pad_right :: "nat \<Rightarrow> string \<Rightarrow> string" where
  "pad_right n s = s @ replicate (n - length s) CHR '' ''"

definition pad_left :: "nat \<Rightarrow> string \<Rightarrow> string" where
  "pad_left n s = replicate (n - length s) CHR '' '' @ s"

text \<open>A JSON number as it takes part in a comparison, which is exact between ints and floats.\<close>

definition json_number :: "json \<Rightarrow> (py_exn, pyfloat) result" where
  "json_number v =
     (case v of
        JInt n \<Rightarrow> Inr (Fin (of_int n))
      | JFloat x \<Rightarrow> Inr x
      | JBool b \<Rightarrow> Inr (Fin (if b then 1 else 0))
      | _ \<Rightarrow> Inl TypeError)"

text \<open>The items a \<open>for\<close> loop over a JSON value yields.\<close>

fun json_items :: "json \<Rightarrow> (py_exn, json list) result" where
  "json_items (JList xs) = Inr xs"
| "json_items (JObj d) = Inr (map (\<lambda>kv. JStr (fst kv)) d)"
| "json_items (JStr s) = Inr (map (\<lambda>c. JStr [c]) s)"
| "json_items _ = Inl TypeError"

end
