(* ===== verification/Region_Discovery.thy ===== *)
theory Region_Discovery
  imports Py_Json
begin

section \<open>Region discovery\<close>

text \<open>
  The configuration, the region data types and \<open>RegionDiscoveryClient\<close> of
  \<open>archerdb/geo_routing.py\<close>.  The body of an answer is a JSON value.  Instants are
  microseconds; a \<open>datetime\<close> has a zone or has none, and comparing the two kinds raises.

  What the module takes from elsewhere is in \<open>region_libs\<close>: the C library's
  trigonometry, \<open>sum\<close> of a list of floats (plain or compensated, as the Python release
  has it), \<open>datetime.fromisoformat\<close> and the text of a JSON list or object.
\<close>

subsection \<open>Configuration\<close>

definition DEFAULT_PROBE_INTERVAL_MS :: int where "DEFAULT_PROBE_INTERVAL_MS = 30000"
definition DEFAULT_FAILOVER_TIMEOUT_MS :: int where "DEFAULT_FAILOVER_TIMEOUT_MS = 5000"
definition DEFAULT_PROBE_SAMPLE_COUNT :: int where "DEFAULT_PROBE_SAMPLE_COUNT = 5"
definition DEFAULT_UNHEALTHY_THRESHOLD :: int where "DEFAULT_UNHEALTHY_THRESHOLD = 3"

record geo_routing_config =
  discovery_endpoint :: "string option"
  direct_endpoint :: "string option"
  preferred_region :: "string option"
  failover_enabled :: bool
  probe_interval_ms :: int
  failover_timeout_ms :: int
  probe_sample_count :: int
  unhealthy_threshold :: int
  background_probing :: bool

definition default_geo_routing_config :: geo_routing_config where
  "default_geo_routing_config =
     \<lparr>discovery_endpoint = None, direct_endpoint = None, preferred_region = None,
      failover_enabled = True, probe_interval_ms = DEFAULT_PROBE_INTERVAL_MS,
      failover_timeout_ms = DEFAULT_FAILOVER_TIMEOUT_MS,
      probe_sample_count = DEFAULT_PROBE_SAMPLE_COUNT,
      unhealthy_threshold = DEFAULT_UNHEALTHY_THRESHOLD, background_probing = True\<rparr>"

definition is_geo_routing_enabled :: "geo_routing_config \<Rightarrow> bool" where
  "is_geo_routing_enabled cfg \<longleftrightarrow> discovery_endpoint cfg \<noteq> None"

subsection \<open>Regions\<close>

datatype region_health = HEALTHY | DEGRADED | UNHEALTHY | UNKNOWN

fun region_health_code :: "region_health \<Rightarrow> int" where
  "region_health_code HEALTHY = 0"
| "region_health_code DEGRADED = 1"
| "region_health_code UNHEALTHY = 2"
| "region_health_code UNKNOWN = 3"

interpretation health_enum: int_enum "[HEALTHY, DEGRADED, UNHEALTHY, UNKNOWN]" region_health_code
proof
  show "x \<in> set [HEALTHY, DEGRADED, UNHEALTHY, UNKNOWN]" for x by (cases x) simp_all
qed simp

record region_location =
  latitude :: pyfloat
  longitude :: pyfloat

record region_info =
  ri_name :: string
  ri_endpoint :: string
  ri_location :: region_location
  ri_healthy :: bool

definition default_region_location :: region_location where
  "default_region_location = \<lparr>latitude = Fin 0, longitude = Fin 0\<rparr>"

datatype py_datetime = Aware int | Naive int

record region_libs =
  libm_sin :: "pyfloat \<Rightarrow> (py_exn, pyfloat) result"
  libm_cos :: "pyfloat \<Rightarrow> (py_exn, pyfloat) result"
  libm_asin :: "pyfloat \<Rightarrow> (py_exn, pyfloat) result"
  libm_sqrt :: "pyfloat \<Rightarrow> (py_exn, pyfloat) result"
  libm_square :: "pyfloat \<Rightarrow> (py_exn, pyfloat) result"
  float_sum :: "pyfloat list \<Rightarrow> pyfloat"
  fromisoformat :: "string \<Rightarrow> py_datetime option"
  str_container :: "json \<Rightarrow> string"

text \<open>\<open>str\<close> of a JSON value.\<close>

fun json_str :: "region_libs \<Rightarrow> json \<Rightarrow> string" where
  "json_str lib JNull = ''None''"
| "json_str lib (JBool b) = (if b then ''True'' else ''False'')"
| "json_str lib (JInt n) = show_int n"
| "json_str lib (JFloat x) = show_float x"
| "json_str lib (JStr s) = s"
| "json_str lib j = str_container lib j"

definition region_location_from_json :: "json \<Rightarrow> (py_exn, region_location) result" where
  "region_location_from_json j =
     (case j of
        JObj loc \<Rightarrow>
          bindE (json_float (json_get loc ''lat'' (JInt 0))) (\<lambda>lat.
          bindE (json_float (json_get loc ''lon'' (JInt 0))) (\<lambda>lon.
          Inr \<lparr>latitude = lat, longitude = lon\<rparr>))
      | _ \<Rightarrow> Inl AttributeError)"

text \<open>
  \<open>RegionInfo.from_dict\<close>.  A region that is not an object fails at the membership test
  or right after it: \<open>in\<close> is a substring test on a string and a membership test on a list.
\<close>

fun region_info_from_dict :: "region_libs \<Rightarrow> json \<Rightarrow> (py_exn, region_info) result" where
  "region_info_from_dict lib (JObj data) =
     bindE (case map_of data ''location'' of
              None \<Rightarrow> Inr default_region_location
            | Some loc \<Rightarrow> region_location_from_json loc) (\<lambda>location.
     Inr \<lparr>ri_name = json_str lib (json_get data ''name'' (JStr [])),
          ri_endpoint = json_str lib (json_get data ''endpoint'' (JStr [])),
          ri_location = location,
          ri_healthy = json_bool (json_get data ''healthy'' (JBool True))\<rparr>)"
| "region_info_from_dict lib (JStr s) =
     Inl (if contains ''location'' s then TypeError else AttributeError)"
| "region_info_from_dict lib (JList xs) =
     Inl (if JStr ''location'' \<in> set xs then TypeError else AttributeError)"
| "region_info_from_dict lib _ = Inl TypeError"

subsection \<open>Discovery responses\<close>

record discovery_response =
  dr_regions :: "region_info list"
  dr_expires :: "py_datetime option"
  dr_fetched_at :: int

text \<open>\<open>s.replace("Z", "+00:00")\<close>\<close>

definition replace_zulu :: "string \<Rightarrow> string" where
  "replace_zulu s = concat (map (\<lambda>c. if c = CHR ''Z'' then ''+00:00'' else [c]) s)"

definition parse_expires :: "region_libs \<Rightarrow> (string \<times> json) list \<Rightarrow> py_datetime option" where
  "parse_expires lib data =
     (case map_of data ''expires'' of
        Some (JStr s) \<Rightarrow> fromisoformat lib (replace_zulu s)
      | _ \<Rightarrow> None)"

definition discovery_response_from_dict ::
    "region_libs \<Rightarrow> int \<Rightarrow> json \<Rightarrow> (py_exn, discovery_response) result" where
  "discovery_response_from_dict lib now j =
     (case j of
        JObj data \<Rightarrow>
          bindE (json_items (json_get data ''regions'' (JList []))) (\<lambda>items.
          bindE (mapE (region_info_from_dict lib) items) (\<lambda>regions.
          Inr \<lparr>dr_regions = regions, dr_expires = parse_expires lib data, dr_fetched_at = now\<rparr>))
      | _ \<Rightarrow> Inl AttributeError)"

definition is_expired :: "int \<Rightarrow> discovery_response \<Rightarrow> (py_exn, bool) result" where
  "is_expired now r =
     (case dr_expires r of
        None \<Rightarrow>
          bindE (int_truediv (now - dr_fetched_at r) (10 ^ 6)) (\<lambda>seconds.
          Inr (f_lt (Fin 300) seconds))
      | Some (Aware t) \<Rightarrow> Inr (t < now)
      | Some (Naive t) \<Rightarrow> Inl TypeError)"

subsection \<open>The discovery client\<close>

text \<open>
  A fetch is given as its outcome: the JSON body of a successful answer, or the failure
  of the transport, of the HTTP status or of the JSON parser.
\<close>

datatype fetch_exn = Transport string | Malformed py_exn

datatype discovery_exn = DiscoveryError fetch_exn | DiscoveryRaised py_exn

type_synonym fetch_outcome = "(fetch_exn, json) result"

record discovery_client =
  dc_endpoint :: string
  dc_timeout_ms :: int
  dc_cache :: "discovery_response option"

definition new_discovery_client :: "string \<Rightarrow> int \<Rightarrow> discovery_client" where
  "new_discovery_client endpoint timeout =
     \<lparr>dc_endpoint = endpoint, dc_timeout_ms = timeout, dc_cache = None\<rparr>"

definition fetch_sync ::
    "region_libs \<Rightarrow> fetch_outcome \<Rightarrow> int \<Rightarrow> (fetch_exn, discovery_response) result" where
  "fetch_sync lib reply now =
     bindE reply (\<lambda>body.
       case discovery_response_from_dict lib now body of
         Inl e \<Rightarrow> Inl (Malformed e)
       | Inr r \<Rightarrow> Inr r)"

text \<open>The cached answer, when it may be used.\<close>

definition fresh_cache :: "bool \<Rightarrow> int \<Rightarrow> discovery_client \<Rightarrow> (py_exn, region_info list option) result" where
  "fresh_cache force_refresh now c =
     (case dc_cache c of
        None \<Rightarrow> Inr None
      | Some r \<Rightarrow>
          if force_refresh then Inr None
          else bindE (is_expired now r) (\<lambda>expired. Inr (if expired then None else Some (dr_regions r))))"

text \<open>
  \<open>now\<close> is the clock when the cache is checked, \<open>later\<close> when the answer is parsed.
\<close>

definition discover ::
    "region_libs \<Rightarrow> bool \<Rightarrow> int \<Rightarrow> fetch_outcome \<Rightarrow> int \<Rightarrow> discovery_client \<Rightarrow>
     (discovery_exn, region_info list) result \<times> discovery_client" where
  "discover lib force_refresh now reply later c =
     (case fresh_cache force_refresh now c of
        Inl e \<Rightarrow> (Inl (DiscoveryRaised e), c)
      | Inr (Some regions) \<Rightarrow> (Inr regions, c)
      | Inr None \<Rightarrow>
          (case fetch_sync lib reply later of
             Inr response \<Rightarrow> (Inr (dr_regions response), c\<lparr>dc_cache := Some response\<rparr>)
           | Inl e \<Rightarrow>
               (case dc_cache c of
                  Some cached \<Rightarrow> (Inr (dr_regions cached), c)
                | None \<Rightarrow> (Inl (DiscoveryError e), c))))"

definition get_cached :: "discovery_client \<Rightarrow> region_info list option" where
  "get_cached c = map_option dr_regions (dc_cache c)"

definition clear_cache :: "discovery_client \<Rightarrow> discovery_client" where
  "clear_cache c = c\<lparr>dc_cache := None\<rparr>"

text \<open>\<open>discover_async\<close> is the same text with an awaited fetch.\<close>

definition discover_async ::
    "region_libs \<Rightarrow> bool \<Rightarrow> int \<Rightarrow> fetch_outcome \<Rightarrow> int \<Rightarrow> discovery_client \<Rightarrow>
     (discovery_exn, region_info list) result \<times> discovery_client" where
  "discover_async lib force_refresh now reply later c =
     (case fresh_cache force_refresh now c of
        Inl e \<Rightarrow> (Inl (DiscoveryRaised e), c)
      | Inr (Some regions) \<Rightarrow> (Inr regions, c)
      | Inr None \<Rightarrow>
          (case fetch_sync lib reply later of
             Inr response \<Rightarrow> (Inr (dr_regions response), c\<lparr>dc_cache := Some response\<rparr>)
           | Inl e \<Rightarrow>
               (case dc_cache c of
                  Some cached \<Rightarrow> (Inr (dr_regions cached), c)
                | None \<Rightarrow> (Inl (DiscoveryError e), c))))"

lemma discover_async_eq: "discover_async = discover"
  by (intro ext) (simp add: discover_async_def discover_def)

subsection \<open>What discovery promises\<close>

lemma discover_answers_from_cache:
  "discover lib force now reply later c = (Inr regions, c') \<Longrightarrow> get_cached c' = Some regions"
  by (auto simp: discover_def fresh_cache_def get_cached_def bindE_def
      split: sum.splits option.splits if_splits)

lemma discover_error_keeps_client:
  "discover lib force now reply later c = (Inl e, c') \<Longrightarrow> c' = c"
  by (auto simp: discover_def split: sum.splits option.splits)

text \<open>Once an answer whose expiry can be compared is cached, \<open>discover\<close> never raises: it
  returns the cached regions while they are fresh, the new ones when the fetch and the
  parsing succeed, and the stale ones otherwise; and what it returns is what is cached
  afterwards.\<close>

theorem discovery_survives_outages:
  assumes "dc_cache c = Some r" and "is_expired now r = Inr stale"
  shows "\<exists>regions c'. discover lib force now reply later c = (Inr regions, c') \<and>
           get_cached c' = Some regions \<and>
           (\<not> stale \<and> \<not> force \<longrightarrow> regions = dr_regions r \<and> c' = c) \<and>
           (stale \<or> force \<longrightarrow>
              (case fetch_sync lib reply later of
                 Inr fresh \<Rightarrow> dc_cache c' = Some fresh
               | Inl e \<Rightarrow> c' = c))"
proof -
  have "fresh_cache force now c = Inr (if force \<or> stale then None else Some (dr_regions r))"
    using assms by (simp add: fresh_cache_def)
  then show ?thesis
    using assms(1) by (auto simp: discover_def get_cached_def split: sum.splits)
qed

text \<open>A run of plain \<open>discover\<close> calls, each with its clock readings and its fetch.\<close>

fun discover_run ::
    "region_libs \<Rightarrow> (int \<times> fetch_outcome \<times> int) list \<Rightarrow> discovery_client \<Rightarrow>
     (discovery_exn, region_info list) result list \<times> discovery_client" where
  "discover_run lib [] c = ([], c)"
| "discover_run lib ((now, reply, later) # calls) c =
     (case discover lib False now reply later c of (r, c) \<Rightarrow>
      case discover_run lib calls c of (rs, c) \<Rightarrow> (r # rs, c))"

text \<open>An answer whose \<open>expires\<close> has no time zone is served once; every later
  \<open>discover\<close> raises a \<open>TypeError\<close> (not the documented \<open>DiscoveryError\<close>), whatever the
  endpoint answers, for ever.\<close>

theorem zoneless_expiry_wedges_discovery:
  assumes "dc_cache c = None"
    and "fetch_sync lib reply later = Inr response" and "dr_expires response = Some (Naive t)"
  shows "fst (discover lib False now reply later c) = Inr (dr_regions response) \<and>
         fst (discover_run lib calls (snd (discover lib False now reply later c)))
           = replicate (length calls) (Inl (DiscoveryRaised TypeError))"
proof -
  have first: "discover lib False now reply later c = (Inr (dr_regions response), c\<lparr>dc_cache := Some response\<rparr>)"
    using assms(1,2) by (simp add: discover_def fresh_cache_def)
  have stuck: "discover lib False now' reply' later' c' = (Inl (DiscoveryRaised TypeError), c')"
    if "dc_cache c' = Some response" for now' reply' later' c'
    using that assms(3) by (simp add: discover_def fresh_cache_def is_expired_def)
  have "discover_run lib calls c' = (replicate (length calls) (Inl (DiscoveryRaised TypeError)), c')"
    if "dc_cache c' = Some response" for c'
    by (induction calls) (auto simp: stuck [OF that])
  then show ?thesis by (simp add: first)
qed

text \<open>A C library for evaluation: the values the witnesses need.\<close>

definition sample_libs :: region_libs where
  "sample_libs =
     \<lparr>libm_sin = Inr, libm_cos = (\<lambda>_. Inr (Fin 1)), libm_asin = Inr, libm_sqrt = Inr,
      libm_square = (\<lambda>x. Inr (f_mul x x)), float_sum = (\<lambda>xs. foldl f_add (Fin 0) xs),
      fromisoformat = (\<lambda>s. if s = ''2024-01-15T12:00:00'' then Some (Naive 1705320000000000)
        else if s = ''2024-01-15T12:00:00+00:00'' then Some (Aware 1705320000000000) else None),
      str_container = (\<lambda>_. ''...'')\<rparr>"

definition sample_reply :: "string \<Rightarrow> fetch_outcome" where
  "sample_reply expires =
     Inr (JObj [(''regions'', JList [JObj [(''name'', JStr ''us-east-1''), (''endpoint'', JStr ''h:5000'')]]),
                (''expires'', JStr expires)])"

lemma discovery_survives_outages_witness:
  "\<exists>regions c'. discover sample_libs False 1705320000000001 (Inl (Transport ''down'')) 0
       ((new_discovery_client ''e'' 5000)\<lparr>dc_cache := Some
          \<lparr>dr_regions = [], dr_expires = Some (Aware 1705320000000000), dr_fetched_at = 0\<rparr>\<rparr>) = (Inr regions, c') \<and>
     get_cached c' = Some regions"
  using discovery_survives_outages
    [of "(new_discovery_client ''e'' 5000)\<lparr>dc_cache := Some
          \<lparr>dr_regions = [], dr_expires = Some (Aware 1705320000000000), dr_fetched_at = 0\<rparr>\<rparr>"
        "\<lparr>dr_regions = [], dr_expires = Some (Aware 1705320000000000), dr_fetched_at = 0\<rparr>"
        1705320000000001 True sample_libs False "Inl (Transport ''down'')" 0]
  by (auto simp: is_expired_def)

lemma sample_reply_parses:
  "fetch_sync sample_libs (sample_reply ''2024-01-15T12:00:00'') now = Inr
     \<lparr>dr_regions = [\<lparr>ri_name = ''us-east-1'', ri_endpoint = ''h:5000'',
                      ri_location = default_region_location, ri_healthy = True\<rparr>],
      dr_expires = Some (Naive 1705320000000000), dr_fetched_at = now\<rparr>"
  by (simp add: fetch_sync_def sample_reply_def discovery_response_from_dict_def json_get_def
      parse_expires_def replace_zulu_def sample_libs_def)

lemma zoneless_expiry_wedges_discovery_witness:
  "fst (discover_run sample_libs [(0, sample_reply ''2024-01-15T12:00:00Z'', 0), (1, Inl (Transport ''x''), 1)]
     (snd (discover sample_libs False 0 (sample_reply ''2024-01-15T12:00:00'') 0 (new_discovery_client ''e'' 5000))))
   = [Inl (DiscoveryRaised TypeError), Inl (DiscoveryRaised TypeError)]"
  using zoneless_expiry_wedges_discovery
    [of "new_discovery_client ''e'' 5000" sample_libs "sample_reply ''2024-01-15T12:00:00''" 0 _ _ 0
        "[(0, sample_reply ''2024-01-15T12:00:00Z'', 0), (1, Inl (Transport ''x''), 1)]", OF _ sample_reply_parses]
  by (simp add: new_discovery_client_def)

end
