(* ===== verification/Health_View.thy ===== *)
theory Health_View
  imports Prelude
begin

section \<open>The contract of a health view\<close>

text \<open>
  Two parts of the SDK judge the health of something by the outcomes reported to them: the
  latency prober of its regions and the health tracker of its connection.  What both
  promise, and what follows for a run of events in any order, is stated once here.
\<close>

text \<open>
  The contract of a health view: only a reviving event makes a name healthy again, and
  enough damaging events without one make it unhealthy.
\<close>

locale health_view =
  fixes step :: "'e \<Rightarrow> 's \<Rightarrow> 's"
    and healthy :: "'s \<Rightarrow> 'n \<Rightarrow> bool"
    and damage :: "'s \<Rightarrow> 'n \<Rightarrow> int"
    and good bad :: "'e \<Rightarrow> 'n \<Rightarrow> bool"
    and known :: "'s \<Rightarrow> 'n \<Rightarrow> bool"
    and inv :: "'s \<Rightarrow> bool"
    and limit :: int
  assumes step_inv: "inv s \<Longrightarrow> inv (step e s)"
    and step_known: "known s n \<Longrightarrow> known (step e s) n"
    and damage_nonneg: "inv s \<Longrightarrow> 0 \<le> damage s n"
    and step_damage: "inv s \<Longrightarrow> known s n \<Longrightarrow> \<not> good e n \<Longrightarrow>
      damage (step e s) n = damage s n + (if bad e n then 1 else 0)"
    and limit_unhealthy: "inv s \<Longrightarrow> known s n \<Longrightarrow> 0 < damage s n \<Longrightarrow> limit \<le> damage s n \<Longrightarrow> \<not> healthy s n"
    and step_stays: "inv s \<Longrightarrow> \<not> healthy s n \<Longrightarrow> \<not> good e n \<Longrightarrow> \<not> healthy (step e s) n"
    and step_revives: "inv s \<Longrightarrow> known s n \<Longrightarrow> good e n \<Longrightarrow> healthy (step e s) n"
begin

lemma run_inv: "inv s \<Longrightarrow> inv (fold step es s)"
  by (induction es arbitrary: s) (auto intro: step_inv)

lemma run_known: "known s n \<Longrightarrow> known (fold step es s) n"
  by (induction es arbitrary: s) (auto intro: step_known)

lemma run_stays:
  "inv s \<Longrightarrow> \<not> healthy s n \<Longrightarrow> \<forall>e\<in>set es. \<not> good e n \<Longrightarrow> \<not> healthy (fold step es s) n"
  by (induction es arbitrary: s) (simp_all add: step_inv step_stays)

lemma run_damage:
  "inv s \<Longrightarrow> known s n \<Longrightarrow> \<forall>e\<in>set es. \<not> good e n \<Longrightarrow>
     damage (fold step es s) n = damage s n + int (length (filter (\<lambda>e. bad e n) es))"
  by (induction es arbitrary: s) (auto simp: step_damage step_inv step_known)

lemma run_condemns:
  assumes "inv s" "known s n" "\<forall>e\<in>set es. \<not> good e n"
    and "0 < length (filter (\<lambda>e. bad e n) es)" "limit \<le> int (length (filter (\<lambda>e. bad e n) es))"
  shows "\<not> healthy (fold step es s) n"
proof -
  have "int (length (filter (\<lambda>e. bad e n) es)) \<le> damage (fold step es s) n"
    using run_damage [OF assms(1-3)] damage_nonneg [OF assms(1), of n] by simp
  with assms(4,5) show ?thesis
    by (intro limit_unhealthy run_inv run_known assms(1,2)) linarith+
qed

lemma run_revived:
  "inv s \<Longrightarrow> known s n \<Longrightarrow> good e n \<Longrightarrow> healthy (fold step (es @ [e]) s) n"
  by (simp add: step_revives run_inv run_known)

end

end
