(* ===== verification/Latency_Prober.thy ===== *)
theory Latency_Prober
  imports Region_Discovery Health_View "HOL-Library.AList"
begin

section \<open>Region latency, routing metrics and the latency prober\<close>

text \<open>
  \<open>RegionLatencyStats\<close>, \<open>GeoRoutingMetrics\<close> and \<open>LatencyProber\<close> of
  \<open>archerdb/geo_routing.py\<close>.  A dict is an association list in insertion order:
  \<open>AList.update\<close> replaces the value of a key in place and appends a new key.  A probe of
  a region is given the outcome of its TCP connection (the measured round trip, or the
  exception) and two clock readings; the background thread is the caller of
  \<open>probe_all_regions\<close> between other operations.
\<close>

subsection \<open>Latency statistics of a region\<close>

record latency_measurement =
  rtt_ms :: pyfloat
  lm_timestamp :: pyfloat

record region_latency_stats =
  region_name :: string
  samples :: "latency_measurement list"
  max_samples :: nat
  last_probe_time :: pyfloat
  consecutive_failures :: int
  health :: region_health

text \<open>\<open>deque(maxlen=n)\<close>: a negative bound raises; \<open>append\<close> drops from the left.\<close>

definition new_latency_stats :: "string \<Rightarrow> int \<Rightarrow> (py_exn, region_latency_stats) result" where
  "new_latency_stats name maxlen =
     (if maxlen < 0 then Inl ValueError
      else Inr \<lparr>region_name = name, samples = [], max_samples = nat maxlen,
                last_probe_time = Fin 0, consecutive_failures = 0, health = UNKNOWN\<rparr>)"

definition deque_append :: "nat \<Rightarrow> 'a list \<Rightarrow> 'a \<Rightarrow> 'a list" where
  "deque_append maxlen xs x = drop (length xs + 1 - maxlen) (xs @ [x])"

definition add_sample :: "pyfloat \<Rightarrow> pyfloat \<Rightarrow> pyfloat \<Rightarrow> region_latency_stats \<Rightarrow> region_latency_stats" where
  "add_sample rtt sampled probed s =
     (let s1 = s\<lparr>samples := deque_append (max_samples s) (samples s) \<lparr>rtt_ms = rtt, lm_timestamp = sampled\<rparr>,
                 last_probe_time := probed, consecutive_failures := 0\<rparr>
      in if health s1 = UNHEALTHY \<or> health s1 = UNKNOWN then s1\<lparr>health := HEALTHY\<rparr> else s1)"

definition record_region_failure :: "int \<Rightarrow> pyfloat \<Rightarrow> region_latency_stats \<Rightarrow> region_latency_stats" where
  "record_region_failure threshold probed s =
     (let s1 = s\<lparr>consecutive_failures := consecutive_failures s + 1, last_probe_time := probed\<rparr>
      in if threshold \<le> consecutive_failures s1 then s1\<lparr>health := UNHEALTHY\<rparr> else s1)"

text \<open>The length is a small positive int, so the division is the one of two floats.\<close>

definition get_average_rtt_ms :: "region_libs \<Rightarrow> region_latency_stats \<Rightarrow> pyfloat option" where
  "get_average_rtt_ms lib s =
     (if samples s = [] then None
      else case f_div (float_sum lib (map rtt_ms (samples s))) (Fin (of_nat (length (samples s)))) of
        Inr x \<Rightarrow> Some x
      | Inl _ \<Rightarrow> None)"

definition stats_is_healthy :: "region_latency_stats \<Rightarrow> bool" where
  "stats_is_healthy s \<longleftrightarrow> health s = HEALTHY \<or> health s = UNKNOWN"

lemma length_deque_append [simp]: "length (deque_append n xs x) = min n (length xs + 1)"
  by (simp add: deque_append_def)

lemma add_sample_simps [simp]:
  "health (add_sample r t u s) = (if health s = DEGRADED then DEGRADED else HEALTHY)"
  "consecutive_failures (add_sample r t u s) = 0"
  "max_samples (add_sample r t u s) = max_samples s"
  "samples (add_sample r t u s) = deque_append (max_samples s) (samples s) \<lparr>rtt_ms = r, lm_timestamp = t\<rparr>"
  by (cases "health s"; simp add: add_sample_def Let_def)+

lemma record_region_failure_simps [simp]:
  "health (record_region_failure k u s) = (if k \<le> consecutive_failures s + 1 then UNHEALTHY else health s)"
  "consecutive_failures (record_region_failure k u s) = consecutive_failures s + 1"
  "max_samples (record_region_failure k u s) = max_samples s"
  "samples (record_region_failure k u s) = samples s"
  by (simp_all add: record_region_failure_def Let_def)

subsection \<open>Routing metrics\<close>

record geo_routing_metrics =
  queries_by_region :: "(string \<times> int) list"
  region_switches :: "(string \<times> (string \<times> int) list) list"
  region_latencies_ms :: "(string \<times> pyfloat) list"

definition new_geo_routing_metrics :: geo_routing_metrics where
  "new_geo_routing_metrics = \<lparr>queries_by_region = [], region_switches = [], region_latencies_ms = []\<rparr>"

text \<open>\<open>d[k] = d.get(k, 0) + 1\<close>\<close>

definition count_key :: "'k \<Rightarrow> ('k \<times> int) list \<Rightarrow> ('k \<times> int) list" where
  "count_key k d = AList.update k ((case map_of d k of Some n \<Rightarrow> n | None \<Rightarrow> 0) + 1) d"

definition record_region_query :: "string \<Rightarrow> geo_routing_metrics \<Rightarrow> geo_routing_metrics" where
  "record_region_query region m = m\<lparr>queries_by_region := count_key region (queries_by_region m)\<rparr>"

definition record_switch :: "string \<Rightarrow> string \<Rightarrow> geo_routing_metrics \<Rightarrow> geo_routing_metrics" where
  "record_switch from_region to_region m =
     (let table = (if from_region \<in> fst ` set (region_switches m) then region_switches m
                   else AList.update from_region [] (region_switches m));
          switches = (case map_of table from_region of Some d \<Rightarrow> d | None \<Rightarrow> [])
      in m\<lparr>region_switches := AList.update from_region (count_key to_region switches) table\<rparr>)"

definition update_latency :: "string \<Rightarrow> pyfloat \<Rightarrow> geo_routing_metrics \<Rightarrow> geo_routing_metrics" where
  "update_latency region latency m =
     m\<lparr>region_latencies_ms := AList.update region latency (region_latencies_ms m)\<rparr>"

definition switch_count :: "geo_routing_metrics \<Rightarrow> string \<Rightarrow> string \<Rightarrow> int" where
  "switch_count m from_region to_region =
     (case map_of (region_switches m) from_region of
        None \<Rightarrow> 0
      | Some d \<Rightarrow> (case map_of d to_region of None \<Rightarrow> 0 | Some n \<Rightarrow> n))"

definition quoted :: "string \<Rightarrow> string" where
  "quoted s = [CHR 0x22] @ s @ [CHR 0x22]"

definition geo_metrics_lines :: "geo_routing_metrics \<Rightarrow> string list" where
  "geo_metrics_lines m =
     map (\<lambda>(region, count). ''archerdb_client_queries_total{region='' @ quoted region @ ''} '' @ show_int count)
       (queries_by_region m)
     @ concat (map (\<lambda>(from_r, to_dict).
         map (\<lambda>(to_r, count). ''archerdb_client_region_switches_total{from='' @ quoted from_r
             @ '',to='' @ quoted to_r @ ''} '' @ show_int count) to_dict) (region_switches m))
     @ map (\<lambda>(region, latency). ''archerdb_client_region_latency_ms{region='' @ quoted region @ ''} ''
             @ show_fixed 1 latency) (region_latencies_ms m)"

definition geo_prometheus_metrics :: "geo_routing_metrics \<Rightarrow> string" where
  "geo_prometheus_metrics m = join_with [CHR 0x0A] (geo_metrics_lines m)"

lemma count_key_lookup [simp]:
  "map_of (count_key k d) k = Some ((case map_of d k of Some n \<Rightarrow> n | None \<Rightarrow> 0) + 1)"
  "j \<noteq> k \<Longrightarrow> map_of (count_key k d) j = map_of d j"
  by (simp_all add: count_key_def update_conv')

lemma switch_count_record [simp]:
  "switch_count (record_switch a b m) c d = switch_count m c d + (if c = a \<and> d = b then 1 else 0)"
proof (cases "map_of (region_switches m) a")
  case None
  then have "a \<notin> fst ` set (region_switches m)" by (simp add: map_of_eq_None_iff)
  with None show ?thesis
    by (cases "c = a"; cases "d = b") (simp_all add: record_switch_def switch_count_def Let_def update_conv')
next
  case (Some t)
  then have "a \<in> fst ` set (region_switches m)" by (metis map_of_eq_None_iff option.distinct(1))
  with Some show ?thesis
    by (cases "c = a"; cases "d = b")
      (simp_all add: record_switch_def switch_count_def Let_def update_conv' split: option.splits)
qed

subsection \<open>The prober\<close>

record latency_prober =
  lp_regions :: "region_info list"
  lp_stats :: "(string \<times> region_latency_stats) list"
  lp_running :: bool
  lp_stop_set :: bool
  lp_thread :: bool

definition new_latency_prober :: latency_prober where
  "new_latency_prober =
     \<lparr>lp_regions = [], lp_stats = [], lp_running = False, lp_stop_set = False, lp_thread = False\<rparr>"

fun add_missing_stats ::
    "int \<Rightarrow> region_info list \<Rightarrow> (string \<times> region_latency_stats) list \<Rightarrow>
     (py_exn, unit) result \<times> (string \<times> region_latency_stats) list" where
  "add_missing_stats maxlen [] d = (Inr (), d)"
| "add_missing_stats maxlen (r # rs) d =
     (if map_of d (ri_name r) \<noteq> None then add_missing_stats maxlen rs d
      else case new_latency_stats (ri_name r) maxlen of
             Inl e \<Rightarrow> (Inl e, d)
           | Inr s \<Rightarrow> add_missing_stats maxlen rs (AList.update (ri_name r) s d))"

definition set_regions ::
    "geo_routing_config \<Rightarrow> region_info list \<Rightarrow> latency_prober \<Rightarrow> (py_exn, unit) result \<times> latency_prober" where
  "set_regions cfg regions p =
     (case add_missing_stats (probe_sample_count cfg) regions (lp_stats p) of
        (r, d) \<Rightarrow> (r, p\<lparr>lp_regions := regions, lp_stats := d\<rparr>))"

definition prober_start :: "geo_routing_config \<Rightarrow> latency_prober \<Rightarrow> latency_prober" where
  "prober_start cfg p =
     (if \<not> background_probing cfg then p
      else if lp_running p then p
      else p\<lparr>lp_running := True, lp_stop_set := False, lp_thread := True\<rparr>)"

definition prober_stop :: "latency_prober \<Rightarrow> latency_prober" where
  "prober_stop p =
     (if \<not> lp_running p then p
      else p\<lparr>lp_running := False, lp_stop_set := True, lp_thread := False\<rparr>)"

text \<open>
  The host and port of an endpoint: the scheme and the path are cut, the port is what
  follows the last colon, 5000 when there is none.
\<close>

fun after_first :: "string \<Rightarrow> string \<Rightarrow> string" where
  "after_first sep [] = []"
| "after_first sep (c # s) =
     (if take (length sep) (c # s) = sep then drop (length sep) (c # s) else after_first sep s)"

definition rsplit_colon :: "string \<Rightarrow> string \<times> string" where
  "rsplit_colon s =
     (let port = rev (takeWhile (\<lambda>c. c \<noteq> CHR '':'') (rev s))
      in (take (length s - length port - 1) s, port))"

definition parse_endpoint :: "string \<Rightarrow> (py_exn, string \<times> int) result" where
  "parse_endpoint endpoint =
     (let e1 = (if contains ''://'' endpoint then after_first ''://'' endpoint else endpoint);
          e2 = takeWhile (\<lambda>c. c \<noteq> CHR ''/'') e1
      in case (if CHR '':'' \<in> set e2 then rsplit_colon e2 else (e2, ''5000'')) of
           (host, port_str) \<Rightarrow> bindE (int_of_string port_str) (\<lambda>port. Inr (host, port)))"

text \<open>
  One probe: \<open>connect_to\<close> is what connecting to a host and port within the timeout
  yields, the clock readings are those of \<open>LatencyMeasurement\<close> and of \<open>last_probe_time\<close>.
\<close>

record probe_env =
  connect_to :: "string \<Rightarrow> int \<Rightarrow> (py_exn, pyfloat) result"
  sampled_at :: pyfloat
  probed_at :: pyfloat

definition probe_region :: "probe_env \<Rightarrow> region_info \<Rightarrow> (py_exn, pyfloat) result" where
  "probe_region env r =
     bindE (parse_endpoint (ri_endpoint r)) (\<lambda>(host, port). connect_to env host port)"

text \<open>\<open>stats.get_average_rtt_ms() or rtt_ms\<close>\<close>

definition average_or :: "region_libs \<Rightarrow> region_latency_stats \<Rightarrow> pyfloat \<Rightarrow> pyfloat" where
  "average_or lib s rtt =
     (case get_average_rtt_ms lib s of None \<Rightarrow> rtt | Some x \<Rightarrow> if x = Fin 0 then rtt else x)"

definition probe_succeeded ::
    "region_libs \<Rightarrow> probe_env \<Rightarrow> string \<Rightarrow> pyfloat \<Rightarrow> latency_prober \<times> geo_routing_metrics \<Rightarrow>
     latency_prober \<times> geo_routing_metrics" where
  "probe_succeeded lib env name rtt pm =
     (case pm of (p, m) \<Rightarrow>
        case map_of (lp_stats p) name of
          None \<Rightarrow> (p, m)
        | Some s \<Rightarrow>
            let s1 = add_sample rtt (sampled_at env) (probed_at env) s
            in (p\<lparr>lp_stats := AList.update name s1 (lp_stats p)\<rparr>,
                update_latency name (average_or lib s1 rtt) m))"

definition probe_failed ::
    "geo_routing_config \<Rightarrow> probe_env \<Rightarrow> string \<Rightarrow> latency_prober \<Rightarrow> latency_prober" where
  "probe_failed cfg env name p =
     (case map_of (lp_stats p) name of
        None \<Rightarrow> p
      | Some s \<Rightarrow>
          p\<lparr>lp_stats := AList.update name
               (record_region_failure (unhealthy_threshold cfg) (probed_at env) s) (lp_stats p)\<rparr>)"

definition probe_one ::
    "region_libs \<Rightarrow> geo_routing_config \<Rightarrow> probe_env \<Rightarrow> region_info \<Rightarrow>
     latency_prober \<times> geo_routing_metrics \<Rightarrow> latency_prober \<times> geo_routing_metrics" where
  "probe_one lib cfg env r pm =
     (case probe_region env r of
        Inr rtt \<Rightarrow> probe_succeeded lib env (ri_name r) rtt pm
      | Inl e \<Rightarrow> (case pm of (p, m) \<Rightarrow> (probe_failed cfg env (ri_name r) p, m)))"

text \<open>A cycle probes the regions in order; the \<open>i\<close>th probe has the environment \<open>envs i\<close>.\<close>

fun probe_each ::
    "region_libs \<Rightarrow> geo_routing_config \<Rightarrow> (nat \<Rightarrow> probe_env) \<Rightarrow> region_info list \<Rightarrow>
     latency_prober \<times> geo_routing_metrics \<Rightarrow> latency_prober \<times> geo_routing_metrics" where
  "probe_each lib cfg envs [] pm = pm"
| "probe_each lib cfg envs (r # rs) pm =
     probe_each lib cfg (\<lambda>i. envs (Suc i)) rs (probe_one lib cfg (envs 0) r pm)"

definition probe_all_regions ::
    "region_libs \<Rightarrow> geo_routing_config \<Rightarrow> (nat \<Rightarrow> probe_env) \<Rightarrow>
     latency_prober \<times> geo_routing_metrics \<Rightarrow> latency_prober \<times> geo_routing_metrics" where
  "probe_all_regions lib cfg envs pm = probe_each lib cfg envs (lp_regions (fst pm)) pm"

text \<open>
  The loop of the background thread, over the cycles it is scheduled for: each entry
  tells whether the loop condition still holds then, and the environments of its probes.
\<close>

fun probe_loop ::
    "region_libs \<Rightarrow> geo_routing_config \<Rightarrow> (bool \<times> (nat \<Rightarrow> probe_env)) list \<Rightarrow>
     latency_prober \<times> geo_routing_metrics \<Rightarrow> latency_prober \<times> geo_routing_metrics" where
  "probe_loop lib cfg [] pm = pm"
| "probe_loop lib cfg ((keep_running, envs) # cycles) pm =
     (if keep_running then probe_loop lib cfg cycles (probe_all_regions lib cfg envs pm) else pm)"

definition get_stats :: "latency_prober \<Rightarrow> string \<Rightarrow> region_latency_stats option" where
  "get_stats p name = map_of (lp_stats p) name"

definition probe_now ::
    "region_libs \<Rightarrow> geo_routing_config \<Rightarrow> probe_env \<Rightarrow> string \<Rightarrow>
     latency_prober \<times> geo_routing_metrics \<Rightarrow> pyfloat option \<times> latency_prober \<times> geo_routing_metrics" where
  "probe_now lib cfg env name pm =
     (case filter (\<lambda>r. ri_name r = name) (lp_regions (fst pm)) of
        [] \<Rightarrow> (None, pm)
      | r # _ \<Rightarrow>
          (case probe_region env r of
             Inr rtt \<Rightarrow> (Some rtt, probe_succeeded lib env name rtt pm)
           | Inl e \<Rightarrow> (None, case pm of (p, m) \<Rightarrow> (probe_failed cfg env name p, m))))"

subsection \<open>The statistics after an operation\<close>

lemma get_stats_succeeded:
  "get_stats (fst (probe_succeeded lib env name rtt pm)) n =
     (if n = name then map_option (add_sample rtt (sampled_at env) (probed_at env)) (get_stats (fst pm) n)
      else get_stats (fst pm) n)"
  by (cases pm) (simp add: probe_succeeded_def get_stats_def update_conv' Let_def split: option.splits)

lemma get_stats_failed:
  "get_stats (probe_failed cfg env name p) n =
     (if n = name then map_option (record_region_failure (unhealthy_threshold cfg) (probed_at env)) (get_stats p n)
      else get_stats p n)"
  by (simp add: probe_failed_def get_stats_def update_conv' split: option.splits)

lemma get_stats_probe_one:
  "get_stats (fst (probe_one lib cfg env r pm)) n =
     (if n = ri_name r
      then map_option (\<lambda>s. case probe_region env r of
             Inr rtt \<Rightarrow> add_sample rtt (sampled_at env) (probed_at env) s
           | Inl e \<Rightarrow> record_region_failure (unhealthy_threshold cfg) (probed_at env) s) (get_stats (fst pm) n)
      else get_stats (fst pm) n)"
  by (cases pm) (simp add: probe_one_def get_stats_succeeded get_stats_failed split: sum.splits)

lemma add_missing_stats_lookup:
  "add_missing_stats maxlen rs d = (r, d') \<Longrightarrow>
     map_of d' n = (case map_of d n of
       Some s \<Rightarrow> Some s
     | None \<Rightarrow> if n \<in> ri_name ` set rs \<and> 0 \<le> maxlen
               then Some \<lparr>region_name = n, samples = [], max_samples = nat maxlen,
                          last_probe_time = Fin 0, consecutive_failures = 0, health = UNKNOWN\<rparr>
               else None)"
  by (induction rs arbitrary: d)
    (force simp: new_latency_stats_def update_conv' split: if_splits option.splits)+

lemma get_stats_set_regions:
  "get_stats (snd (set_regions cfg rs p)) n = (case get_stats p n of
       Some s \<Rightarrow> Some s
     | None \<Rightarrow> if n \<in> ri_name ` set rs \<and> 0 \<le> probe_sample_count cfg
               then Some \<lparr>region_name = n, samples = [], max_samples = nat (probe_sample_count cfg),
                          last_probe_time = Fin 0, consecutive_failures = 0, health = UNKNOWN\<rparr>
               else None)"
  using add_missing_stats_lookup [of "probe_sample_count cfg" rs "lp_stats p"]
  by (auto simp: set_regions_def get_stats_def split: prod.splits)

lemma get_stats_start_stop [simp]:
  "get_stats (prober_start cfg p) = get_stats p" "get_stats (prober_stop p) = get_stats p"
  "get_stats new_latency_prober n = None"
  by (auto simp: prober_start_def prober_stop_def get_stats_def new_latency_prober_def)

subsection \<open>Health under any interleaving\<close>

text \<open>
  What can happen to the statistics: a probe of the background thread or of
  \<open>probe_now\<close>, a new list of regions, and the mark that a failover sets.
\<close>

definition mark_unhealthy :: "string \<Rightarrow> latency_prober \<Rightarrow> latency_prober" where
  "mark_unhealthy name p =
     (case get_stats p name of
        None \<Rightarrow> p
      | Some s \<Rightarrow> p\<lparr>lp_stats := AList.update name (s\<lparr>health := UNHEALTHY\<rparr>) (lp_stats p)\<rparr>)"

lemma get_stats_mark:
  "get_stats (mark_unhealthy name p) n =
     (if n = name then map_option (\<lambda>s. s\<lparr>health := UNHEALTHY\<rparr>) (get_stats p n) else get_stats p n)"
  by (simp add: mark_unhealthy_def get_stats_def update_conv' split: option.splits)

definition is_region_healthy :: "latency_prober \<Rightarrow> string \<Rightarrow> bool" where
  "is_region_healthy p name =
     (case get_stats p name of None \<Rightarrow> True | Some s \<Rightarrow> stats_is_healthy s)"

datatype probe_event = Probe probe_env region_info | Regions "region_info list" | Condemn string

fun probe_step ::
    "region_libs \<Rightarrow> geo_routing_config \<Rightarrow> probe_event \<Rightarrow>
     latency_prober \<times> geo_routing_metrics \<Rightarrow> latency_prober \<times> geo_routing_metrics" where
  "probe_step lib cfg (Probe env r) pm = probe_one lib cfg env r pm"
| "probe_step lib cfg (Regions rs) pm = (snd (set_regions cfg rs (fst pm)), snd pm)"
| "probe_step lib cfg (Condemn n) pm = (mark_unhealthy n (fst pm), snd pm)"

fun revives :: "probe_event \<Rightarrow> string \<Rightarrow> bool" where
  "revives (Probe env r) n \<longleftrightarrow> ri_name r = n \<and> (case probe_region env r of Inr rtt \<Rightarrow> True | Inl e \<Rightarrow> False)"
| "revives _ n \<longleftrightarrow> False"

fun fails :: "probe_event \<Rightarrow> string \<Rightarrow> bool" where
  "fails (Probe env r) n \<longleftrightarrow> ri_name r = n \<and> (case probe_region env r of Inr rtt \<Rightarrow> False | Inl e \<Rightarrow> True)"
| "fails _ n \<longleftrightarrow> False"

subsection \<open>The invariant of the statistics\<close>

definition stats_ok :: "geo_routing_config \<Rightarrow> region_latency_stats \<Rightarrow> bool" where
  "stats_ok cfg s \<longleftrightarrow>
     max_samples s = nat (probe_sample_count cfg) \<and>
     length (samples s) \<le> max_samples s \<and>
     0 \<le> consecutive_failures s \<and>
     (0 < consecutive_failures s \<and> unhealthy_threshold cfg \<le> consecutive_failures s \<longrightarrow> health s = UNHEALTHY) \<and>
     (health s = UNKNOWN \<longrightarrow> samples s = []) \<and>
     health s \<noteq> DEGRADED"

definition prober_ok :: "geo_routing_config \<Rightarrow> latency_prober \<Rightarrow> bool" where
  "prober_ok cfg p \<longleftrightarrow> (\<forall>n s. get_stats p n = Some s \<longrightarrow> stats_ok cfg s)"

lemma stats_ok_add_sample: "stats_ok cfg s \<Longrightarrow> stats_ok cfg (add_sample rtt t u s)"
  by (auto simp: stats_ok_def)

lemma stats_ok_failure: "stats_ok cfg s \<Longrightarrow> stats_ok cfg (record_region_failure (unhealthy_threshold cfg) u s)"
  by (auto simp: stats_ok_def)

lemma stats_ok_marked: "stats_ok cfg s \<Longrightarrow> stats_ok cfg (s\<lparr>health := UNHEALTHY\<rparr>)"
  by (auto simp: stats_ok_def)

lemma stats_ok_fresh:
  "stats_ok cfg \<lparr>region_name = n, samples = [], max_samples = nat (probe_sample_count cfg),
     last_probe_time = Fin 0, consecutive_failures = 0, health = UNKNOWN\<rparr>"
  by (simp add: stats_ok_def)

lemma prober_ok_step: "prober_ok cfg (fst pm) \<Longrightarrow> prober_ok cfg (fst (probe_step lib cfg e pm))"
proof (cases e)
  case (Probe env r)
  assume "prober_ok cfg (fst pm)"
  with Probe show ?thesis
    by (cases "probe_region env r")
      (auto simp: prober_ok_def get_stats_probe_one stats_ok_add_sample stats_ok_failure split: if_splits)
next
  case (Regions rs)
  assume "prober_ok cfg (fst pm)"
  with Regions show ?thesis
    by (auto simp: prober_ok_def get_stats_set_regions stats_ok_fresh split: option.splits if_splits)
next
  case (Condemn n)
  assume "prober_ok cfg (fst pm)"
  with Condemn show ?thesis
    by (auto simp: prober_ok_def get_stats_mark stats_ok_marked split: if_splits)
qed

lemma prober_ok_new: "prober_ok cfg new_latency_prober"
  by (simp add: prober_ok_def)

definition failures_of :: "latency_prober \<Rightarrow> string \<Rightarrow> int" where
  "failures_of p n = (case get_stats p n of None \<Rightarrow> 0 | Some s \<Rightarrow> consecutive_failures s)"

interpretation probed: health_view "probe_step lib cfg" "\<lambda>pm. is_region_healthy (fst pm)"
  "\<lambda>pm. failures_of (fst pm)" revives fails "\<lambda>pm n. get_stats (fst pm) n \<noteq> None"
  "\<lambda>pm. prober_ok cfg (fst pm)" "unhealthy_threshold cfg"
proof
  fix pm :: "latency_prober \<times> geo_routing_metrics" and e :: probe_event and n :: string
  note defs = is_region_healthy_def stats_is_healthy_def failures_of_def get_stats_mark
    get_stats_probe_one get_stats_set_regions
  show "get_stats (fst pm) n \<noteq> None \<Longrightarrow> get_stats (fst (probe_step lib cfg e pm)) n \<noteq> None"
    by (cases e) (auto simp: defs)
  assume ok: "prober_ok cfg (fst pm)"
  then show "prober_ok cfg (fst (probe_step lib cfg e pm))" by (rule prober_ok_step)
  have s: "stats_ok cfg s" if "get_stats (fst pm) n = Some s" for s
    using ok that by (auto simp: prober_ok_def)
  show "0 \<le> failures_of (fst pm) n"
    using s by (auto simp: failures_of_def stats_ok_def split: option.splits)
  show "\<not> is_region_healthy (fst pm) n \<Longrightarrow> \<not> revives e n \<Longrightarrow>
      \<not> is_region_healthy (fst (probe_step lib cfg e pm)) n"
    by (cases e) (auto simp: defs split: option.splits sum.splits if_splits)
  assume known: "get_stats (fst pm) n \<noteq> None"
  then show "\<not> revives e n \<Longrightarrow> failures_of (fst (probe_step lib cfg e pm)) n =
      failures_of (fst pm) n + (if fails e n then 1 else 0)"
    by (cases e) (auto simp: defs split: option.splits sum.splits if_splits)
  show "0 < failures_of (fst pm) n \<Longrightarrow> unhealthy_threshold cfg \<le> failures_of (fst pm) n \<Longrightarrow>
      \<not> is_region_healthy (fst pm) n"
    using s known by (auto simp: defs stats_ok_def)
  show "revives e n \<Longrightarrow> is_region_healthy (fst (probe_step lib cfg e pm)) n"
    using s known by (cases e) (auto simp: defs stats_ok_def split: sum.splits)
qed

lemma probe_now_step:
  "snd (probe_now lib cfg env name pm) = pm \<or>
   (\<exists>r. ri_name r = name \<and> snd (probe_now lib cfg env name pm) = probe_step lib cfg (Probe env r) pm)"
proof (cases "filter (\<lambda>r. ri_name r = name) (lp_regions (fst pm))")
  case Nil
  then show ?thesis by (simp add: probe_now_def)
next
  case (Cons r rs)
  then have "ri_name r = name" by (auto simp: filter_eq_Cons_iff)
  with Cons show ?thesis by (auto simp: probe_now_def probe_one_def split: sum.splits)
qed

lemma prober_ok_each: "prober_ok cfg (fst pm) \<Longrightarrow> prober_ok cfg (fst (probe_each lib cfg envs rs pm))"
proof (induction rs arbitrary: envs pm)
  case (Cons r rs)
  have "prober_ok cfg (fst (probe_one lib cfg (envs 0) r pm))"
    using prober_ok_step [OF Cons.prems, of lib "Probe (envs 0) r"] by simp
  with Cons.IH show ?case by simp
qed simp

lemma prober_ok_loop: "prober_ok cfg (fst pm) \<Longrightarrow> prober_ok cfg (fst (probe_loop lib cfg cycles pm))"
  by (induction lib cfg cycles pm rule: probe_loop.induct)
    (simp_all add: probe_all_regions_def prober_ok_each)

lemma prober_ok_now:
  "prober_ok cfg (fst pm) \<Longrightarrow> prober_ok cfg (fst (snd (probe_now lib cfg env name pm)))"
  using probe_now_step [of lib cfg env name pm] prober_ok_step [of cfg pm lib] by metis

text \<open>Whatever interleaving of probes, region lists and failover marks a prober has seen,
  also across further cycles of its loop and an immediate probe, every statistic keeps at
  most \<open>probe_sample_count\<close> samples, is never degraded, is unknown only without samples, and
  is unhealthy once its failures in a row reach the threshold.\<close>

theorem probing_keeps_statistics:
  "prober_ok cfg (fst (fold (probe_step lib cfg) es (new_latency_prober, m))) \<and>
   prober_ok cfg (fst (probe_loop lib cfg cycles (fold (probe_step lib cfg) es (new_latency_prober, m)))) \<and>
   prober_ok cfg (fst (snd (probe_now lib cfg env name (fold (probe_step lib cfg) es (new_latency_prober, m)))))"
proof -
  have "prober_ok cfg (fst (fold (probe_step lib cfg) es (new_latency_prober, m)))"
    by (rule probed.run_inv) (simp add: prober_ok_new)
  then show ?thesis by (simp add: prober_ok_loop prober_ok_now)
qed

text \<open>C19: After \<open>unhealthy_threshold\<close> failed probes of a known region with no successful one
  between them, whatever else happens meanwhile, the region is unhealthy, and the first
  successful probe makes it healthy again.\<close>

theorem region_condemned_until_it_answers:
  assumes "get_stats (fst (fold (probe_step lib cfg) es0 (new_latency_prober, m))) n \<noteq> None"
    and "\<forall>e\<in>set es. \<not> revives e n"
    and "0 < length (filter (\<lambda>e. fails e n) es)"
    and "unhealthy_threshold cfg \<le> int (length (filter (\<lambda>e. fails e n) es))"
    and "revives answer n"
  shows "\<not> is_region_healthy (fst (fold (probe_step lib cfg) (es0 @ es) (new_latency_prober, m))) n \<and>
         is_region_healthy (fst (fold (probe_step lib cfg) (es0 @ es @ [answer]) (new_latency_prober, m))) n"
proof -
  let ?pm = "fold (probe_step lib cfg) es0 (new_latency_prober, m)"
  have ok: "prober_ok cfg (fst ?pm)"
    by (rule probed.run_inv) (simp add: prober_ok_new)
  have down: "\<not> is_region_healthy (fst (fold (probe_step lib cfg) es ?pm)) n"
    using assms(1-4) ok by (intro probed.run_condemns) auto
  have "is_region_healthy (fst (fold (probe_step lib cfg) (es @ [answer]) ?pm)) n"
    using assms(1,5) ok by (intro probed.run_revived) auto
  with down show ?thesis by simp
qed

definition refusing :: probe_env where
  "refusing = \<lparr>connect_to = (\<lambda>_ _. Inl ConnectionError), sampled_at = Fin 1, probed_at = Fin 1\<rparr>"

definition answering :: "rat \<Rightarrow> probe_env" where
  "answering rtt = \<lparr>connect_to = (\<lambda>_ _. Inr (Fin rtt)), sampled_at = Fin 1, probed_at = Fin 1\<rparr>"

definition sample_region :: "string \<Rightarrow> region_info" where
  "sample_region name =
     \<lparr>ri_name = name, ri_endpoint = ''https://h:80/x'', ri_location = default_region_location, ri_healthy = True\<rparr>"

lemma probe_sample_region [simp]:
  "probe_region refusing (sample_region n) = Inl ConnectionError"
  "probe_region (answering x) (sample_region n) = Inr (Fin x)"
  by (simp_all add: probe_region_def sample_region_def refusing_def answering_def parse_endpoint_def
      rsplit_colon_def int_of_string_def strip_def lstrip_def rstrip_def is_space_def ungroup_def
      is_digit_def split_sign_def)

lemma sample_fields [simp]:
  "ri_name (sample_region n) = n" "ri_healthy (sample_region n)"
  "unhealthy_threshold default_geo_routing_config = 3"
  "probe_sample_count default_geo_routing_config = 5"
  by (simp_all add: sample_region_def default_geo_routing_config_def DEFAULT_UNHEALTHY_THRESHOLD_def
      DEFAULT_PROBE_SAMPLE_COUNT_def)

lemma region_condemned_until_it_answers_witness:
  "\<not> is_region_healthy (fst (fold (probe_step sample_libs default_geo_routing_config)
       ([Regions [sample_region ''eu'', sample_region ''us'']] @
        [Probe refusing (sample_region ''eu''), Probe (answering 7) (sample_region ''us''),
         Probe refusing (sample_region ''eu''), Probe refusing (sample_region ''eu'')])
       (new_latency_prober, new_geo_routing_metrics))) ''eu''"
  using region_condemned_until_it_answers
    [of sample_libs default_geo_routing_config "[Regions [sample_region ''eu'', sample_region ''us'']]"
        new_geo_routing_metrics "''eu''"
        "[Probe refusing (sample_region ''eu''), Probe (answering 7) (sample_region ''us''),
          Probe refusing (sample_region ''eu''), Probe refusing (sample_region ''eu'')]"
        "Probe (answering 5) (sample_region ''eu'')"]
  by (simp add: get_stats_set_regions)

end
