(* ===== verification/Geo_Router.thy ===== *)
theory Geo_Router
  imports Latency_Prober
begin

section \<open>Region selection and the geo router\<close>

text \<open>
  \<open>RegionSelector\<close> and \<open>GeoRouter\<close> of \<open>archerdb/geo_routing.py\<close>.  The router, its
  prober and its selector share one metrics object and the selector reads the prober's
  statistics, so the prober and the metrics are passed to the operations that use them.
  Sorting by a float key is \<open>sort_key\<close>, which is stable like Python's sort; round-trip
  times and distances are never a NaN, on which Python's order is not defined.
\<close>

subsection \<open>The selector\<close>

record region_selector =
  client_location :: "(pyfloat \<times> pyfloat) option"
  current_region :: "string option"

definition new_region_selector :: region_selector where
  "new_region_selector = \<lparr>client_location = None, current_region = None\<rparr>"

definition set_client_location :: "pyfloat \<Rightarrow> pyfloat \<Rightarrow> region_selector \<Rightarrow> region_selector" where
  "set_client_location lat lon sel = sel\<lparr>client_location := Some (lat, lon)\<rparr>"

text \<open>A string as a condition: empty and missing are both false.\<close>

definition truthy :: "string option \<Rightarrow> bool" where
  "truthy s \<longleftrightarrow> (case s of None \<Rightarrow> False | Some t \<Rightarrow> t \<noteq> [])"

text \<open>\<open>math.radians\<close>: the product with the float \<open>pi / 180\<close>.\<close>

definition math_radians :: "pyfloat \<Rightarrow> pyfloat" where
  "math_radians x = f_mul x (Fin (fl (884279719003555 / 281474976710656 / 180)))"

definition half :: "pyfloat \<Rightarrow> pyfloat" where
  "half x = f_mul x (Fin (1 / 2))"

definition haversine_distance ::
    "region_libs \<Rightarrow> pyfloat \<Rightarrow> pyfloat \<Rightarrow> pyfloat \<Rightarrow> pyfloat \<Rightarrow> (py_exn, pyfloat) result" where
  "haversine_distance lib lat1 lon1 lat2 lon2 =
     (let dlat = math_radians (f_sub lat2 lat1);
          dlon = math_radians (f_sub lon2 lon1)
      in bindE (bindE (libm_sin lib (half dlat)) (libm_square lib)) (\<lambda>sin_lat2.
         bindE (libm_cos lib (math_radians lat1)) (\<lambda>cos1.
         bindE (libm_cos lib (math_radians lat2)) (\<lambda>cos2.
         bindE (bindE (libm_sin lib (half dlon)) (libm_square lib)) (\<lambda>sin_lon2.
         let a = f_add sin_lat2 (f_mul (f_mul cos1 cos2) sin_lon2) in
         bindE (bindE (libm_sqrt lib a) (libm_asin lib)) (\<lambda>arc.
         Inr (f_mul (Fin 6371) (f_mul (Fin 2) arc))))))))"

text \<open>The first element of the list sorted by a key.\<close>

definition first_by :: "('a \<times> pyfloat) list \<Rightarrow> 'a option" where
  "first_by xs = (case sort_key snd xs of [] \<Rightarrow> None | (x, _) # _ \<Rightarrow> Some x)"

definition first_region :: "region_info list \<Rightarrow> region_info option" where
  "first_region rs = (case rs of [] \<Rightarrow> None | r # _ \<Rightarrow> Some r)"

definition select_by_distance ::
    "region_libs \<Rightarrow> region_selector \<Rightarrow> region_info list \<Rightarrow> (py_exn, region_info option) result" where
  "select_by_distance lib sel regions =
     (case client_location sel of
        None \<Rightarrow> Inr (first_region regions)
      | Some (client_lat, client_lon) \<Rightarrow>
          bindE (mapE (\<lambda>r. bindE (haversine_distance lib client_lat client_lon
                      (latitude (ri_location r)) (longitude (ri_location r))) (\<lambda>dist. Inr (r, dist))) regions)
            (\<lambda>distances. if distances \<noteq> [] then Inr (first_by distances) else Inr (first_region regions)))"

definition measured :: "region_libs \<Rightarrow> latency_prober \<Rightarrow> region_info list \<Rightarrow> (region_info \<times> pyfloat) list" where
  "measured lib p regions =
     concat (map (\<lambda>r. case get_stats p (ri_name r) of
         None \<Rightarrow> []
       | Some s \<Rightarrow> (case get_average_rtt_ms lib s of None \<Rightarrow> [] | Some rtt \<Rightarrow> [(r, rtt)])) regions)"

definition select_by_latency ::
    "region_libs \<Rightarrow> latency_prober \<Rightarrow> region_selector \<Rightarrow> region_info list \<Rightarrow>
     (py_exn, region_info option) result" where
  "select_by_latency lib p sel regions =
     (let latencies = measured lib p regions in
      if latencies \<noteq> [] then Inr (first_by latencies)
      else if client_location sel \<noteq> None then select_by_distance lib sel regions
      else Inr (first_region regions))"

definition available :: "latency_prober \<Rightarrow> string list \<Rightarrow> region_info list \<Rightarrow> region_info list" where
  "available p exclude regions =
     filter (\<lambda>r. is_region_healthy p (ri_name r))
       (filter (\<lambda>r. ri_healthy r \<and> ri_name r \<notin> set exclude) regions)"

definition note_selected ::
    "region_info \<Rightarrow> region_selector \<times> geo_routing_metrics \<Rightarrow> region_selector \<times> geo_routing_metrics" where
  "note_selected r sm =
     (case sm of (sel, m) \<Rightarrow>
        if Some (ri_name r) \<noteq> current_region sel
        then (sel\<lparr>current_region := Some (ri_name r)\<rparr>,
              if truthy (current_region sel) then record_switch (the (current_region sel)) (ri_name r) m else m)
        else (sel, m))"

definition region_select ::
    "region_libs \<Rightarrow> geo_routing_config \<Rightarrow> latency_prober \<Rightarrow> region_info list \<Rightarrow> string list \<Rightarrow>
     region_selector \<times> geo_routing_metrics \<Rightarrow>
     (py_exn, region_info option) result \<times> region_selector \<times> geo_routing_metrics" where
  "region_select lib cfg p regions exclude sm =
     (let healthy = available p exclude regions in
      if healthy = [] then (Inr None, sm)
      else
        let preferred = (if truthy (preferred_region cfg)
                         then filter (\<lambda>r. Some (ri_name r) = preferred_region cfg) healthy else [])
        in case preferred of
             r # _ \<Rightarrow> (Inr (Some r), sm)
           | [] \<Rightarrow>
               (case select_by_latency lib p (fst sm) healthy of
                  Inl e \<Rightarrow> (Inl e, sm)
                | Inr None \<Rightarrow> (Inr None, sm)
                | Inr (Some r) \<Rightarrow> (Inr (Some r), note_selected r sm)))"

definition failover ::
    "region_libs \<Rightarrow> geo_routing_config \<Rightarrow> string \<Rightarrow> region_info list \<Rightarrow>
     latency_prober \<times> region_selector \<times> geo_routing_metrics \<Rightarrow>
     (py_exn, region_info option) result \<times> latency_prober \<times> region_selector \<times> geo_routing_metrics" where
  "failover lib cfg failing regions st =
     (case st of (p, sel, m) \<Rightarrow>
        if \<not> failover_enabled cfg then (Inr None, p, sel, m)
        else
          let p = mark_unhealthy failing p in
          case region_select lib cfg p regions [failing] (sel, m) of
            (Inr (Some r), sel, m) \<Rightarrow> (Inr (Some r), p, sel, record_switch failing (ri_name r) m)
          | (res, sel, m) \<Rightarrow> (res, p, sel, m))"

subsection \<open>What a selection promises\<close>

lemma first_by_None_iff [simp]: "first_by xs = None \<longleftrightarrow> xs = []"
proof -
  have "length (sort_key snd xs) = length xs" by simp
  then show ?thesis by (cases "sort_key snd xs"; cases xs) (auto simp: first_by_def)
qed

lemma first_by_least:
  assumes "first_by xs = Some x"
  shows "\<exists>k. (x, k) \<in> set xs \<and> (\<forall>(y, j)\<in>set xs. k \<le> j)"
proof -
  obtain k ys where s: "sort_key snd xs = (x, k) # ys"
    using assms by (auto simp: first_by_def split: list.splits)
  have "set xs = insert (x, k) (set ys)" using s by (metis list.simps(15) set_sort)
  moreover have "sorted (map snd ((x, k) # ys))" using s by (metis sorted_sort_key)
  ultimately have "(x, k) \<in> set xs \<and> (\<forall>(y, j)\<in>set xs. k \<le> j)" by auto
  then show ?thesis by blast
qed

lemma mem_measured_iff:
  "(r, x) \<in> set (measured lib p rs) \<longleftrightarrow>
     r \<in> set rs \<and> (\<exists>s. get_stats p (ri_name r) = Some s \<and> get_average_rtt_ms lib s = Some x)"
proof -
  have "(r, x) \<in> set (case get_stats p (ri_name q) of None \<Rightarrow> []
          | Some s \<Rightarrow> (case get_average_rtt_ms lib s of None \<Rightarrow> [] | Some rtt \<Rightarrow> [(q, rtt)])) \<longleftrightarrow>
        q = r \<and> (\<exists>s. get_stats p (ri_name q) = Some s \<and> get_average_rtt_ms lib s = Some x)" for q
    by (cases "get_stats p (ri_name q)"; cases "get_average_rtt_ms lib (the (get_stats p (ri_name q)))") auto
  then show ?thesis by (simp add: measured_def)
qed

lemma select_by_distance_sound:
  assumes "select_by_distance lib sel rs = Inr res"
  shows "(case res of None \<Rightarrow> rs = [] | Some r \<Rightarrow> r \<in> set rs)"
proof (cases "client_location sel")
  case None
  with assms show ?thesis by (auto simp: select_by_distance_def first_region_def split: list.splits)
next
  case (Some loc)
  obtain lat lon where loc: "client_location sel = Some (lat, lon)" using Some by (cases loc) auto
  let ?f = "\<lambda>r. bindE (haversine_distance lib lat lon (latitude (ri_location r)) (longitude (ri_location r)))
      (\<lambda>dist. Inr (r, dist))"
  obtain ds where ds: "mapE ?f rs = Inr ds"
    and res: "res = (if ds \<noteq> [] then first_by ds else first_region rs)"
    using assms loc by (auto simp: select_by_distance_def bindE_split_Inr split: if_splits)
  have "list_all2 (\<lambda>r d. ?f r = Inr d) rs ds" using ds by (simp add: mapE_Inr_iff)
  then have "map fst ds = rs"
    by (induction rs ds rule: list_all2_induct) (auto simp: bindE_split_Inr)
  then have "r \<in> set rs" if "first_by ds = Some r" for r
    using first_by_least [OF that] by (force simp flip: \<open>map fst ds = rs\<close>)
  with res \<open>map fst ds = rs\<close> show ?thesis
    by (cases "first_by ds") (auto simp: first_region_def)
qed

lemma first_region_sound: "case first_region rs of None \<Rightarrow> rs = [] | Some r \<Rightarrow> r \<in> set rs"
  by (cases rs) (simp_all add: first_region_def)

lemma select_by_latency_sound:
  assumes "select_by_latency lib p sel rs = Inr res"
  shows "(case res of None \<Rightarrow> rs = [] | Some r \<Rightarrow> r \<in> set rs)"
proof (cases "measured lib p rs = []")
  case True
  with assms select_by_distance_sound first_region_sound show ?thesis
    by (auto simp: select_by_latency_def split: if_splits)
next
  case False
  then obtain r where r: "res = Some r" "first_by (measured lib p rs) = Some r"
    using assms by (cases "first_by (measured lib p rs)") (auto simp: select_by_latency_def)
  then show ?thesis using first_by_least [OF r(2)] by (auto simp: mem_measured_iff)
qed

lemma set_available [simp]:
  "r \<in> set (available p exclude regions) \<longleftrightarrow>
     r \<in> set regions \<and> ri_healthy r \<and> ri_name r \<notin> set exclude \<and> is_region_healthy p (ri_name r)"
  by (auto simp: available_def)

lemma region_select_from_available:
  assumes "available p exclude regions \<noteq> []"
  shows "(\<exists>r\<in>set (available p exclude regions). fst (region_select lib cfg p regions exclude sm) = Inr (Some r)) \<or>
         (\<exists>e. fst (region_select lib cfg p regions exclude sm) = Inl e \<and>
            measured lib p (available p exclude regions) = [] \<and> client_location (fst sm) \<noteq> None)"
proof -
  let ?a = "available p exclude regions"
  define preferred where "preferred = (if truthy (preferred_region cfg)
      then filter (\<lambda>r. Some (ri_name r) = preferred_region cfg) ?a else [])"
  have sub: "set preferred \<subseteq> set ?a" by (auto simp: preferred_def simp del: set_available)
  show ?thesis
  proof (cases preferred)
    case (Cons r rs)
    with sub have "r \<in> set ?a" by auto
    with assms Cons show ?thesis by (simp add: region_select_def flip: preferred_def)
  next
    case Nil
    show ?thesis
    proof (cases "select_by_latency lib p (fst sm) ?a")
      case (Inl e)
      then have "measured lib p ?a = [] \<and> client_location (fst sm) \<noteq> None"
        by (auto simp: select_by_latency_def Let_def split: if_splits)
      with assms Nil Inl show ?thesis by (simp add: region_select_def flip: preferred_def)
    next
      case (Inr res)
      with assms obtain r where "res = Some r" "r \<in> set ?a"
        using select_by_latency_sound [OF Inr] by (cases res) auto
      with assms Nil Inr show ?thesis by (simp add: region_select_def flip: preferred_def)
    qed
  qed
qed

lemma region_select_Some:
  assumes "region_select lib cfg p regions exclude sm = (Inr (Some r), sm')"
  shows "r \<in> set (available p exclude regions)"
proof (cases "available p exclude regions = []")
  case True
  with assms show ?thesis by (simp add: region_select_def)
next
  case False
  from region_select_from_available [OF False, of lib cfg sm] assms show ?thesis by auto
qed

text \<open>A selection returns a region of the list that is healthy for the server and for the
  prober and is not excluded, and returns none exactly when there is no such region; it
  raises only out of the distance computation, when none of them was measured.\<close>

theorem region_select_available:
  "case fst (region_select lib cfg p regions exclude sm) of
     Inr (Some r) \<Rightarrow> r \<in> set regions \<and> ri_healthy r \<and> ri_name r \<notin> set exclude \<and> is_region_healthy p (ri_name r)
   | Inr None \<Rightarrow> available p exclude regions = []
   | Inl e \<Rightarrow> measured lib p (available p exclude regions) = [] \<and> client_location (fst sm) \<noteq> None"
proof (cases "available p exclude regions = []")
  case True
  then show ?thesis by (simp add: region_select_def)
next
  case False
  from region_select_from_available [OF False, of lib cfg sm] show ?thesis by auto
qed

text \<open>Without a usable preference, a selection among regions of which some were measured
  returns one with the least average round trip.\<close>

theorem region_select_lowest_latency:
  assumes "\<forall>r\<in>set (available p exclude regions). Some (ri_name r) \<noteq> preferred_region cfg"
    and "(q, x) \<in> set (measured lib p (available p exclude regions))"
  shows "\<exists>r k. fst (region_select lib cfg p regions exclude sm) = Inr (Some r) \<and>
           current_region (fst (snd (region_select lib cfg p regions exclude sm))) = Some (ri_name r) \<and>
           (r, k) \<in> set (measured lib p (available p exclude regions)) \<and>
           (\<forall>(s, j)\<in>set (measured lib p (available p exclude regions)). k \<le> j)"
proof -
  let ?a = "available p exclude regions"
  have ne: "measured lib p ?a \<noteq> []" using assms(2) by auto
  then obtain r where r: "first_by (measured lib p ?a) = Some r"
    by (cases "first_by (measured lib p ?a)") auto
  have a: "?a \<noteq> []" using assms(2) by (auto simp: measured_def)
  have nil: "filter (\<lambda>r. Some (ri_name r) = preferred_region cfg) ?a = []"
    using assms(1) by (simp add: filter_empty_conv)
  have "region_select lib cfg p regions exclude sm = (Inr (Some r), note_selected r sm)"
    using a ne r nil by (simp add: region_select_def select_by_latency_def)
  moreover have "current_region (fst (note_selected r sm)) = Some (ri_name r)"
    by (cases sm) (auto simp: note_selected_def)
  ultimately show ?thesis using first_by_least [OF r] by auto
qed

subsection \<open>The router\<close>

record geo_router =
  gr_metrics :: geo_routing_metrics
  gr_discovery :: "discovery_client option"
  gr_prober :: "latency_prober option"
  gr_selector :: "region_selector option"
  gr_regions :: "region_info list"
  gr_endpoint :: "string option"
  gr_started :: bool

definition new_geo_router :: "geo_routing_config \<Rightarrow> geo_router" where
  "new_geo_router cfg =
     (let base = \<lparr>gr_metrics = new_geo_routing_metrics, gr_discovery = None, gr_prober = None,
                  gr_selector = None, gr_regions = [], gr_endpoint = None, gr_started = False\<rparr>
      in if truthy (discovery_endpoint cfg)
         then base\<lparr>gr_discovery := Some (new_discovery_client (the (discovery_endpoint cfg)) (failover_timeout_ms cfg)),
                   gr_prober := Some new_latency_prober, gr_selector := Some new_region_selector\<rparr>
         else base)"

text \<open>
  The three stages of \<open>start\<close>: discovery, probing, selection.  \<open>now\<close> and \<open>later\<close> are the
  clock readings and \<open>reply\<close> the outcome of the fetch of the discovery.
\<close>

definition run_discovery ::
    "region_libs \<Rightarrow> bool \<Rightarrow> int \<Rightarrow> fetch_outcome \<Rightarrow> int \<Rightarrow> geo_router \<Rightarrow>
     (discovery_exn, unit) result \<times> geo_router" where
  "run_discovery lib force_refresh now reply later g =
     (case gr_discovery g of
        None \<Rightarrow> (Inr (), g)
      | Some c \<Rightarrow>
          (case discover lib force_refresh now reply later c of
             (Inl e, c) \<Rightarrow> (Inl e, g\<lparr>gr_discovery := Some c\<rparr>)
           | (Inr regions, c) \<Rightarrow> (Inr (), g\<lparr>gr_discovery := Some c, gr_regions := regions\<rparr>)))"

definition begin_probing :: "geo_routing_config \<Rightarrow> geo_router \<Rightarrow> (discovery_exn, unit) result \<times> geo_router" where
  "begin_probing cfg g =
     (case gr_prober g of
        None \<Rightarrow> (Inr (), g)
      | Some p \<Rightarrow>
          if gr_regions g = [] then (Inr (), g)
          else (case set_regions cfg (gr_regions g) p of
                  (Inl e, p) \<Rightarrow> (Inl (DiscoveryRaised e), g\<lparr>gr_prober := Some p\<rparr>)
                | (Inr _, p) \<Rightarrow> (Inr (), g\<lparr>gr_prober := Some (prober_start cfg p)\<rparr>)))"

definition initial_selection ::
    "region_libs \<Rightarrow> geo_routing_config \<Rightarrow> geo_router \<Rightarrow> (discovery_exn, unit) result \<times> geo_router" where
  "initial_selection lib cfg g =
     (case (gr_selector g, gr_prober g) of
        (Some sel, Some p) \<Rightarrow>
          if gr_regions g = [] then (Inr (), g)
          else (case region_select lib cfg p (gr_regions g) [] (sel, gr_metrics g) of
                  (res, sel, m) \<Rightarrow>
                    let g1 = g\<lparr>gr_selector := Some sel, gr_metrics := m\<rparr> in
                    (case res of
                       Inl e \<Rightarrow> (Inl (DiscoveryRaised e), g1)
                     | Inr None \<Rightarrow> (Inr (), g1)
                     | Inr (Some r) \<Rightarrow> (Inr (), g1\<lparr>gr_endpoint := Some (ri_endpoint r)\<rparr>)))
      | _ \<Rightarrow> (Inr (), g))"

definition get_endpoint :: "geo_router \<Rightarrow> string" where
  "get_endpoint g = (case gr_endpoint g of None \<Rightarrow> [] | Some e \<Rightarrow> e)"

definition router_start ::
    "region_libs \<Rightarrow> geo_routing_config \<Rightarrow> int \<Rightarrow> fetch_outcome \<Rightarrow> int \<Rightarrow> geo_router \<Rightarrow>
     (discovery_exn, string) result \<times> geo_router" where
  "router_start lib cfg now reply later g =
     (if \<not> is_geo_routing_enabled cfg
      then (let g1 = g\<lparr>gr_endpoint := direct_endpoint cfg\<rparr> in (Inr (get_endpoint g1), g1))
      else case run_discovery lib False now reply later g of
             (Inl e, g) \<Rightarrow> (Inl e, g)
           | (Inr _, g) \<Rightarrow>
               (case begin_probing cfg g of
                  (Inl e, g) \<Rightarrow> (Inl e, g)
                | (Inr _, g) \<Rightarrow>
                    (case initial_selection lib cfg g of
                       (Inl e, g) \<Rightarrow> (Inl e, g)
                     | (Inr _, g) \<Rightarrow>
                         (let g1 = g\<lparr>gr_started := True\<rparr> in (Inr (get_endpoint g1), g1)))))"

definition router_stop :: "geo_router \<Rightarrow> geo_router" where
  "router_stop g = g\<lparr>gr_prober := map_option prober_stop (gr_prober g), gr_started := False\<rparr>"

definition get_current_region :: "geo_router \<Rightarrow> string option" where
  "get_current_region g = (case gr_selector g of None \<Rightarrow> None | Some sel \<Rightarrow> current_region sel)"

definition handle_failure ::
    "region_libs \<Rightarrow> geo_routing_config \<Rightarrow> geo_router \<Rightarrow> (py_exn, string option) result \<times> geo_router" where
  "handle_failure lib cfg g =
     (if \<not> failover_enabled cfg then (Inr None, g)
      else if \<not> truthy (get_current_region g) then (Inr None, g)
      else
        case (gr_selector g, gr_prober g) of
          (Some sel, Some p) \<Rightarrow>
            (case failover lib cfg (the (get_current_region g)) (gr_regions g) (p, sel, gr_metrics g) of
               (res, p, sel, m) \<Rightarrow>
                 let g1 = g\<lparr>gr_prober := Some p, gr_selector := Some sel, gr_metrics := m\<rparr> in
                 (case res of
                    Inl e \<Rightarrow> (Inl e, g1)
                  | Inr None \<Rightarrow> (Inr None, g1)
                  | Inr (Some r) \<Rightarrow> (Inr (Some (ri_endpoint r)), g1\<lparr>gr_endpoint := Some (ri_endpoint r)\<rparr>)))
        | _ \<Rightarrow> (Inr None, g))"

definition router_record_query :: "geo_router \<Rightarrow> geo_router" where
  "router_record_query g =
     (if truthy (get_current_region g)
      then g\<lparr>gr_metrics := record_region_query (the (get_current_region g)) (gr_metrics g)\<rparr> else g)"

text \<open>Every exception of a refresh is logged and dropped.\<close>

definition refresh_regions ::
    "region_libs \<Rightarrow> geo_routing_config \<Rightarrow> int \<Rightarrow> fetch_outcome \<Rightarrow> int \<Rightarrow> geo_router \<Rightarrow> geo_router" where
  "refresh_regions lib cfg now reply later g =
     (case gr_discovery g of
        None \<Rightarrow> g
      | Some _ \<Rightarrow>
          (case run_discovery lib True now reply later g of
             (Inl e, g) \<Rightarrow> g
           | (Inr _, g) \<Rightarrow>
               g\<lparr>gr_prober := map_option (\<lambda>p. snd (set_regions cfg (gr_regions g) p)) (gr_prober g)\<rparr>))"

definition get_region_stats ::
    "region_libs \<Rightarrow> geo_router \<Rightarrow> (string \<times> region_health \<times> pyfloat option \<times> int \<times> nat) list" where
  "get_region_stats lib g =
     (case gr_prober g of
        None \<Rightarrow> []
      | Some p \<Rightarrow> map (\<lambda>(name, s). (name, health s, get_average_rtt_ms lib s, consecutive_failures s,
                                   length (samples s))) (lp_stats p))"

subsection \<open>The asynchronous variants\<close>

text \<open>
  \<open>start_async\<close> and \<open>refresh_regions_async\<close> repeat the synchronous text with the
  awaited discovery in its place.
\<close>

definition run_discovery_async ::
    "region_libs \<Rightarrow> bool \<Rightarrow> int \<Rightarrow> fetch_outcome \<Rightarrow> int \<Rightarrow> geo_router \<Rightarrow>
     (discovery_exn, unit) result \<times> geo_router" where
  "run_discovery_async lib force_refresh now reply later g =
     (case gr_discovery g of
        None \<Rightarrow> (Inr (), g)
      | Some c \<Rightarrow>
          (case discover_async lib force_refresh now reply later c of
             (Inl e, c) \<Rightarrow> (Inl e, g\<lparr>gr_discovery := Some c\<rparr>)
           | (Inr regions, c) \<Rightarrow> (Inr (), g\<lparr>gr_discovery := Some c, gr_regions := regions\<rparr>)))"

definition router_start_async ::
    "region_libs \<Rightarrow> geo_routing_config \<Rightarrow> int \<Rightarrow> fetch_outcome \<Rightarrow> int \<Rightarrow> geo_router \<Rightarrow>
     (discovery_exn, string) result \<times> geo_router" where
  "router_start_async lib cfg now reply later g =
     (if \<not> is_geo_routing_enabled cfg
      then (let g1 = g\<lparr>gr_endpoint := direct_endpoint cfg\<rparr> in (Inr (get_endpoint g1), g1))
      else case run_discovery_async lib False now reply later g of
             (Inl e, g) \<Rightarrow> (Inl e, g)
           | (Inr _, g) \<Rightarrow>
               (case begin_probing cfg g of
                  (Inl e, g) \<Rightarrow> (Inl e, g)
                | (Inr _, g) \<Rightarrow>
                    (case initial_selection lib cfg g of
                       (Inl e, g) \<Rightarrow> (Inl e, g)
                     | (Inr _, g) \<Rightarrow>
                         (let g1 = g\<lparr>gr_started := True\<rparr> in (Inr (get_endpoint g1), g1)))))"

definition refresh_regions_async ::
    "region_libs \<Rightarrow> geo_routing_config \<Rightarrow> int \<Rightarrow> fetch_outcome \<Rightarrow> int \<Rightarrow> geo_router \<Rightarrow> geo_router" where
  "refresh_regions_async lib cfg now reply later g =
     (case gr_discovery g of
        None \<Rightarrow> g
      | Some _ \<Rightarrow>
          (case run_discovery_async lib True now reply later g of
             (Inl e, g) \<Rightarrow> g
           | (Inr _, g) \<Rightarrow>
               g\<lparr>gr_prober := map_option (\<lambda>p. snd (set_regions cfg (gr_regions g) p)) (gr_prober g)\<rparr>))"

lemma router_async_eq:
  "run_discovery_async = run_discovery" "router_start_async = router_start"
  "refresh_regions_async = refresh_regions"
proof -
  show d: "run_discovery_async = run_discovery"
    by (intro ext) (simp only: run_discovery_async_def run_discovery_def discover_async_eq)
  show "router_start_async = router_start"
    by (intro ext) (simp only: router_start_async_def router_start_def d)
  show "refresh_regions_async = refresh_regions"
    by (intro ext) (simp only: refresh_regions_async_def refresh_regions_def d)
qed

subsection \<open>Failing over\<close>

lemma handle_failure_fails_over:
  assumes "handle_failure lib cfg g = (Inr (Some e), g')"
  obtains c sel p r sel' m' where "get_current_region g = Some c" "c \<noteq> []"
    "gr_selector g = Some sel" "gr_prober g = Some p"
    "region_select lib cfg (mark_unhealthy c p) (gr_regions g) [c] (sel, gr_metrics g) = (Inr (Some r), sel', m')"
    "g' = g\<lparr>gr_prober := Some (mark_unhealthy c p), gr_selector := Some sel',
            gr_metrics := record_switch c (ri_name r) m', gr_endpoint := Some e\<rparr>"
    "e = ri_endpoint r"
proof -
  obtain c where c: "get_current_region g = Some c" "c \<noteq> []" and on: "failover_enabled cfg"
    using assms by (cases "get_current_region g") (auto simp: handle_failure_def truthy_def split: if_splits)
  obtain sel where sel: "gr_selector g = Some sel"
    using c by (cases "gr_selector g") (simp_all add: get_current_region_def)
  obtain p where p: "gr_prober g = Some p"
    using assms c sel by (cases "gr_prober g") (auto simp: handle_failure_def split: if_splits)
  obtain res sel' m' where
    s: "region_select lib cfg (mark_unhealthy c p) (gr_regions g) [c] (sel, gr_metrics g) = (res, sel', m')"
    by (cases "region_select lib cfg (mark_unhealthy c p) (gr_regions g) [c] (sel, gr_metrics g)") auto
  have h: "handle_failure lib cfg g =
      (let g1 = g\<lparr>gr_prober := Some (mark_unhealthy c p), gr_selector := Some sel', gr_metrics := m'\<rparr> in
       case res of
         Inl e \<Rightarrow> (Inl e, g1)
       | Inr None \<Rightarrow> (Inr None, g1)
       | Inr (Some r) \<Rightarrow> (Inr (Some (ri_endpoint r)),
           g1\<lparr>gr_metrics := record_switch c (ri_name r) m', gr_endpoint := Some (ri_endpoint r)\<rparr>))"
    using c on sel p s
    by (simp add: handle_failure_def truthy_def failover_def Let_def split: sum.split option.split)
  consider e1 where "res = Inl e1" | "res = Inr None" | r where "res = Inr (Some r)"
    by (metis option.exhaust sum.exhaust)
  then show thesis
  proof cases
    case 3
    with that [OF c sel p, of r sel' m'] s h assms show ?thesis by (simp add: Let_def)
  qed (use h assms in \<open>simp_all add: Let_def\<close>)
qed

text \<open>C11: A failover moves to the endpoint of another region that the server and the prober
  hold healthy, and the failing region stays out of every later selection until a probe
  of it succeeds, whatever is probed or discovered in between.\<close>

theorem failover_leaves_failing_region:
  assumes "handle_failure lib cfg g = (Inr (Some e), g')"
    and "get_current_region g = Some c"
    and "gr_prober g = Some p" and "prober_ok cfg p" and "get_stats p c \<noteq> None"
    and "\<forall>ev\<in>set es. \<not> revives ev c"
  shows "get_endpoint g' = e \<and>
         (\<exists>r\<in>set (gr_regions g). ri_endpoint r = e \<and> ri_healthy r \<and> ri_name r \<noteq> c \<and> is_region_healthy p (ri_name r)) \<and>
         (\<forall>p' m'. fold (probe_step lib cfg) es (the (gr_prober g'), gr_metrics g') = (p', m') \<longrightarrow>
            (\<forall>regions exclude. c \<notin> ri_name ` set (available p' exclude regions)))"
proof -
  from assms(1) obtain c' sel p0 r sel' m1 where h: "get_current_region g = Some c'" "gr_prober g = Some p0"
    "region_select lib cfg (mark_unhealthy c' p0) (gr_regions g) [c'] (sel, gr_metrics g) = (Inr (Some r), sel', m1)"
    "g' = g\<lparr>gr_prober := Some (mark_unhealthy c' p0), gr_selector := Some sel',
            gr_metrics := record_switch c' (ri_name r) m1, gr_endpoint := Some e\<rparr>"
    "e = ri_endpoint r"
    by (rule handle_failure_fails_over)
  then have eq: "c' = c" "p0 = p" using assms(2,3) by simp_all
  have r: "r \<in> set (gr_regions g)" "ri_healthy r" "ri_name r \<noteq> c" "is_region_healthy (mark_unhealthy c p) (ri_name r)"
    using region_select_Some [OF h(3)] by (simp_all add: eq)
  then have healthy: "is_region_healthy p (ri_name r)"
    by (auto simp: is_region_healthy_def get_stats_mark split: if_splits)
  let ?pm = "(mark_unhealthy c p, gr_metrics g')"
  have ok: "prober_ok cfg (fst ?pm)"
    using prober_ok_step [of cfg "(p, gr_metrics g')" lib "Condemn c"] assms(4) by simp
  have "\<not> is_region_healthy (fst ?pm) c"
    using assms(5) by (auto simp: is_region_healthy_def get_stats_mark stats_is_healthy_def)
  then have "\<not> is_region_healthy (fst (fold (probe_step lib cfg) es ?pm)) c"
    using ok assms(6) by (intro probed.run_stays)
  then have "c \<notin> ri_name ` set (available p' exclude regions)"
    if "fold (probe_step lib cfg) es ?pm = (p', m')" for p' m' exclude regions
    using that by auto
  with r healthy h(4,5) show ?thesis
    by (auto simp: eq get_endpoint_def)
qed

text \<open>A failover without a usable preferred region counts its switch twice, once in the
  selection and once after it.\<close>

theorem failover_counts_switch_twice:
  assumes "handle_failure lib cfg g = (Inr (Some e), g')"
    and "get_current_region g = Some c" and "preferred_region cfg = None"
  shows "\<exists>r\<in>set (gr_regions g). ri_endpoint r = e \<and>
           switch_count (gr_metrics g') c (ri_name r) = switch_count (gr_metrics g) c (ri_name r) + 2"
proof -
  from assms(1) obtain c' sel p r sel' m' where h: "get_current_region g = Some c'" "c' \<noteq> []" "gr_selector g = Some sel"
    "region_select lib cfg (mark_unhealthy c' p) (gr_regions g) [c'] (sel, gr_metrics g) = (Inr (Some r), sel', m')"
    "g' = g\<lparr>gr_prober := Some (mark_unhealthy c' p), gr_selector := Some sel',
            gr_metrics := record_switch c' (ri_name r) m', gr_endpoint := Some e\<rparr>"
    "e = ri_endpoint r"
    by (rule handle_failure_fails_over)
  then have eq: "c' = c" using assms(2) by simp
  have cur: "current_region sel = Some c" using h(1,3) eq by (simp add: get_current_region_def)
  have r: "r \<in> set (gr_regions g)" "ri_name r \<noteq> c"
    using region_select_Some [OF h(4)] by (simp_all add: eq)
  have "(sel', m') = note_selected r (sel, gr_metrics g)"
    using h(4) assms(3) by (auto simp: eq region_select_def truthy_def Let_def split: if_splits sum.splits option.splits)
  then have "m' = record_switch c (ri_name r) (gr_metrics g)"
    using cur r(2) h(2) by (auto simp: note_selected_def truthy_def eq)
  with h(5,6) r show ?thesis by (auto simp: eq)
qed

subsection \<open>A preferred region never fails over\<close>

text \<open>What happens to a started router, the background probes included.\<close>

datatype router_event =
    RProbe probe_env region_info
  | RFailure
  | RRefresh int fetch_outcome int
  | RQuery
  | RStop

fun router_step :: "region_libs \<Rightarrow> geo_routing_config \<Rightarrow> router_event \<Rightarrow> geo_router \<Rightarrow> geo_router" where
  "router_step lib cfg (RProbe env r) g =
     (case gr_prober g of
        None \<Rightarrow> g
      | Some p \<Rightarrow> (case probe_one lib cfg env r (p, gr_metrics g) of
                    (p, m) \<Rightarrow> g\<lparr>gr_prober := Some p, gr_metrics := m\<rparr>))"
| "router_step lib cfg RFailure g = snd (handle_failure lib cfg g)"
| "router_step lib cfg (RRefresh now reply later) g = refresh_regions lib cfg now reply later g"
| "router_step lib cfg RQuery g = router_record_query g"
| "router_step lib cfg RStop g = router_stop g"

lemma run_discovery_keeps:
  "run_discovery lib force now reply later g = (res, g') \<Longrightarrow>
     gr_selector g' = gr_selector g \<and> gr_prober g' = gr_prober g \<and> gr_endpoint g' = gr_endpoint g"
  by (auto simp: run_discovery_def split: option.splits prod.splits sum.splits)

lemma begin_probing_keeps:
  "begin_probing cfg g = (res, g') \<Longrightarrow>
     gr_selector g' = gr_selector g \<and> gr_regions g' = gr_regions g \<and> gr_metrics g' = gr_metrics g"
proof -
  have "gr_selector (snd (begin_probing cfg g)) = gr_selector g \<and>
      gr_regions (snd (begin_probing cfg g)) = gr_regions g \<and> gr_metrics (snd (begin_probing cfg g)) = gr_metrics g"
    by (simp add: begin_probing_def split: option.split prod.split sum.split)
  then show "begin_probing cfg g = (res, g') \<Longrightarrow> gr_selector g' = gr_selector g \<and> gr_regions g' = gr_regions g \<and> gr_metrics g' = gr_metrics g" by simp
qed

lemma initial_selection_keeps:
  "initial_selection lib cfg g = (res, g') \<Longrightarrow> gr_regions g' = gr_regions g \<and> gr_started g' = gr_started g"
proof -
  have "gr_regions (snd (initial_selection lib cfg g)) = gr_regions g \<and>
      gr_started (snd (initial_selection lib cfg g)) = gr_started g"
    by (simp add: initial_selection_def Let_def split: option.split prod.split sum.split)
  then show "initial_selection lib cfg g = (res, g') \<Longrightarrow> gr_regions g' = gr_regions g \<and> gr_started g' = gr_started g" by simp
qed

lemma no_current_region_pins:
  assumes "get_current_region g = None"
  shows "get_current_region (router_step lib cfg ev g) = None \<and>
         gr_endpoint (router_step lib cfg ev g) = gr_endpoint g"
proof (cases ev)
  case (RProbe env r)
  with assms show ?thesis by (auto simp: get_current_region_def split: option.split prod.split)
next
  case RFailure
  with assms show ?thesis by (simp add: handle_failure_def truthy_def)
next
  case (RRefresh now reply later)
  obtain res g' where d: "run_discovery lib True now reply later g = (res, g')" by fastforce
  have "refresh_regions lib cfg now reply later g = g \<or>
        gr_selector (refresh_regions lib cfg now reply later g) = gr_selector g' \<and>
        gr_endpoint (refresh_regions lib cfg now reply later g) = gr_endpoint g'"
    by (simp add: refresh_regions_def d split: option.split sum.split)
  then show ?thesis
    using RRefresh assms run_discovery_keeps [OF d] by (auto simp: get_current_region_def)
next
  case RQuery
  with assms show ?thesis by (simp add: router_record_query_def truthy_def)
next
  case RStop
  with assms show ?thesis by (simp add: router_stop_def get_current_region_def)
qed

lemma no_current_region_run:
  "get_current_region g = None \<Longrightarrow>
     get_current_region (fold (router_step lib cfg) evs g) = None \<and>
     gr_endpoint (fold (router_step lib cfg) evs g) = gr_endpoint g"
  by (induction evs arbitrary: g) (simp_all add: no_current_region_pins)

lemma new_router_start_stages:
  assumes "discovery_endpoint cfg = Some url" "url \<noteq> []"
    and "router_start lib cfg now reply later (new_geo_router cfg) = (Inr e, g)"
  obtains g1 g2 where "run_discovery lib False now reply later (new_geo_router cfg) = (Inr (), g1)"
    "begin_probing cfg g1 = (Inr (), g2)" "initial_selection lib cfg g2 = (Inr (), g\<lparr>gr_started := gr_started g2\<rparr>)"
    "gr_regions g1 = gr_regions g" "gr_selector g2 = Some new_region_selector" "gr_prober g1 = Some new_latency_prober"
proof -
  obtain res1 g1 where d: "run_discovery lib False now reply later (new_geo_router cfg) = (res1, g1)" by fastforce
  obtain res2 g2 where b: "begin_probing cfg g1 = (res2, g2)" by fastforce
  obtain res3 g3 where i: "initial_selection lib cfg g2 = (res3, g3)" by fastforce
  have ok: "res1 = Inr ()" "res2 = Inr ()" "res3 = Inr ()" "g = g3\<lparr>gr_started := True\<rparr>"
  proof -
    have "is_geo_routing_enabled cfg" using assms(1) by (simp add: is_geo_routing_enabled_def)
    then show "res1 = Inr ()" "res2 = Inr ()" "res3 = Inr ()" "g = g3\<lparr>gr_started := True\<rparr>"
      using assms(3) d b i by (cases res1; cases res2; cases res3; simp add: router_start_def Let_def)+
  qed
  have "gr_regions g3 = gr_regions g2" "gr_started g3 = gr_started g2"
    using initial_selection_keeps [OF i] by simp_all
  then show thesis
    using that d b i ok run_discovery_keeps [OF d] begin_probing_keeps [OF b] assms(1,2)
    by (auto simp: new_geo_router_def truthy_def)
qed

text \<open>When a new router starts on its configured preferred region, no later event moves it:
  the selection never records the region as current, so every \<open>handle_failure\<close> returns
  nothing and the endpoint stays, however often it fails and whatever is probed.\<close>

theorem preferred_region_never_fails_over:
  assumes "discovery_endpoint cfg = Some url" "url \<noteq> []"
    and "preferred_region cfg = Some name" "name \<noteq> []"
    and "router_start lib cfg now reply later (new_geo_router cfg) = (Inr e, g)"
    and "r \<in> set (gr_regions g)" "ri_name r = name" "ri_healthy r"
  shows "fst (handle_failure lib cfg (fold (router_step lib cfg) evs g)) = Inr None \<and>
         get_endpoint (fold (router_step lib cfg) evs g) = get_endpoint g"
proof -
  from assms(1,2,5) obtain g1 g2 where s: "begin_probing cfg g1 = (Inr (), g2)"
    "initial_selection lib cfg g2 = (Inr (), g\<lparr>gr_started := gr_started g2\<rparr>)"
    "gr_regions g1 = gr_regions g" "gr_selector g2 = Some new_region_selector" "gr_prober g1 = Some new_latency_prober"
    by (rule new_router_start_stages)
  have ne: "gr_regions g1 \<noteq> []" using s(3) assms(6) by auto
  have regs: "gr_regions g2 = gr_regions g1" using begin_probing_keeps [OF s(1)] by simp
  obtain p where p: "gr_prober g2 = Some p" "p = prober_start cfg (snd (set_regions cfg (gr_regions g1) new_latency_prober))"
    using s(1,5) ne by (auto simp: begin_probing_def split: prod.splits sum.splits)
  have "is_region_healthy p n" for n
    by (simp add: p(2) is_region_healthy_def get_stats_set_regions stats_is_healthy_def split: option.splits)
  then have av: "r \<in> set (available p [] (gr_regions g2))" using assms(6,8) s(3) regs by simp
  let ?pref = "filter (\<lambda>r. Some (ri_name r) = preferred_region cfg) (available p [] (gr_regions g2))"
  have "r \<in> set ?pref" using av assms(3,7) by simp
  then obtain q qs where q: "?pref = q # qs" by (cases ?pref) auto
  have "available p [] (gr_regions g2) \<noteq> []" using q by auto
  then have "region_select lib cfg p (gr_regions g2) [] sm = (Inr (Some q), sm)" for sm
    using q assms(3,4) by (simp add: region_select_def truthy_def)
  then have "gr_selector (snd (initial_selection lib cfg g2)) = Some new_region_selector"
    using s(4) p(1) by (simp add: initial_selection_def Let_def)
  then have none: "get_current_region g = None"
    unfolding s(2) by (simp add: get_current_region_def new_region_selector_def)
  then show ?thesis
    using no_current_region_run [OF none, of lib cfg evs]
    by (simp add: handle_failure_def truthy_def get_endpoint_def)
qed

subsection \<open>Concrete routers\<close>

definition two_regions :: "fetch_outcome" where
  "two_regions = Inr (JObj [(''regions'', JList
     [JObj [(''name'', JStr ''eu''), (''endpoint'', JStr ''eu:1'')],
      JObj [(''name'', JStr ''us''), (''endpoint'', JStr ''us:2'')]])])"

definition routed_config :: "string option \<Rightarrow> geo_routing_config" where
  "routed_config preferred =
     default_geo_routing_config\<lparr>discovery_endpoint := Some ''http://d'', preferred_region := preferred\<rparr>"

definition two_region_infos :: "region_info list" where
  "two_region_infos =
     [\<lparr>ri_name = ''eu'', ri_endpoint = ''eu:1'', ri_location = default_region_location, ri_healthy = True\<rparr>,
      \<lparr>ri_name = ''us'', ri_endpoint = ''us:2'', ri_location = default_region_location, ri_healthy = True\<rparr>]"

definition started :: "string option \<Rightarrow> geo_router" where
  "started preferred = snd (router_start sample_libs (routed_config preferred) 0 two_regions 0
     (new_geo_router (routed_config preferred)))"

lemma two_regions_parse:
  "fetch_sync lib two_regions now = Inr \<lparr>dr_regions = two_region_infos, dr_expires = None, dr_fetched_at = now\<rparr>"
  by (simp add: fetch_sync_def two_regions_def two_region_infos_def discovery_response_from_dict_def
      json_get_def parse_expires_def)

lemmas router_eval = router_start_def run_discovery_def new_geo_router_def truthy_def routed_config_def
  default_geo_routing_config_def new_discovery_client_def is_geo_routing_enabled_def discover_def fresh_cache_def
  begin_probing_def set_regions_def two_region_infos_def new_latency_prober_def new_latency_stats_def
  DEFAULT_PROBE_SAMPLE_COUNT_def prober_start_def initial_selection_def region_select_def available_def
  is_region_healthy_def get_stats_def stats_is_healthy_def new_region_selector_def select_by_latency_def
  measured_def get_average_rtt_ms_def first_region_def note_selected_def get_endpoint_def Let_def

lemma started_eval:
  "router_start sample_libs (routed_config (Some ''eu'')) 0 two_regions 0
     (new_geo_router (routed_config (Some ''eu''))) = (Inr ''eu:1'', started (Some ''eu'')) \<and>
   gr_regions (started (Some ''eu'')) = two_region_infos"
  "router_start sample_libs (routed_config None) 0 two_regions 0
     (new_geo_router (routed_config None)) = (Inr ''eu:1'', started None) \<and>
   get_current_region (started None) = Some ''eu'' \<and> gr_regions (started None) = two_region_infos"
  by (simp_all add: started_def get_current_region_def two_regions_parse router_eval)

lemma preferred_region_never_fails_over_witness:
  "get_endpoint (fold (router_step sample_libs (routed_config (Some ''eu'')))
     [RProbe refusing (sample_region ''eu''), RFailure, RFailure] (started (Some ''eu''))) = ''eu:1''"
  using preferred_region_never_fails_over
    [of "routed_config (Some ''eu'')" "''http://d''" "''eu''" sample_libs 0 two_regions 0 "''eu:1''"
        "started (Some ''eu'')" "hd two_region_infos" "[RProbe refusing (sample_region ''eu''), RFailure, RFailure]"]
    started_eval(1)
  by (simp add: routed_config_def two_region_infos_def)
    (simp add: started_def two_regions_parse router_eval)

lemma failing_over_eval:
  "fst (handle_failure sample_libs (routed_config None) (started None)) = Inr (Some ''us:2'')"
  "\<exists>p. gr_prober (started None) = Some p \<and> prober_ok (routed_config None) p \<and> get_stats p ''eu'' \<noteq> None"
proof -
  show "fst (handle_failure sample_libs (routed_config None) (started None)) = Inr (Some ''us:2'')"
    by (simp add: handle_failure_def failover_def mark_unhealthy_def get_current_region_def started_def
        two_regions_parse router_eval)
  have "gr_prober (started None) =
      Some (prober_start (routed_config None) (snd (set_regions (routed_config None) two_region_infos new_latency_prober)))"
    by (simp add: started_def two_regions_parse router_eval)
  moreover have "prober_ok (routed_config None) (snd (set_regions (routed_config None) two_region_infos new_latency_prober))"
    using prober_ok_step [of "routed_config None" "(new_latency_prober, new_geo_routing_metrics)" sample_libs
        "Regions two_region_infos"] by (simp add: prober_ok_new)
  moreover have "get_stats (snd (set_regions (routed_config None) two_region_infos new_latency_prober)) ''eu'' \<noteq> None"
    by (simp add: get_stats_set_regions two_region_infos_def routed_config_def)
  ultimately show "\<exists>p. gr_prober (started None) = Some p \<and> prober_ok (routed_config None) p \<and> get_stats p ''eu'' \<noteq> None"
    by (simp add: prober_ok_def)
qed

lemma failover_leaves_failing_region_witness:
  "\<exists>r\<in>set two_region_infos. ri_endpoint r = ''us:2'' \<and> ri_healthy r \<and> ri_name r \<noteq> ''eu''"
proof -
  obtain p where "gr_prober (started None) = Some p" "prober_ok (routed_config None) p" "get_stats p ''eu'' \<noteq> None"
    using failing_over_eval(2) by blast
  then show ?thesis
    using failover_leaves_failing_region [of sample_libs "routed_config None" "started None" "''us:2''"
        "snd (handle_failure sample_libs (routed_config None) (started None))" "''eu''" p
        "[Probe refusing (sample_region ''eu''), Probe (answering 3) (sample_region ''us'')]"]
      failing_over_eval(1) started_eval(2) by (auto simp: prod_eq_iff)
qed

lemma failover_counts_switch_twice_witness:
  "switch_count (gr_metrics (snd (handle_failure sample_libs (routed_config None) (started None)))) ''eu'' ''us'' = 2"
  using failover_counts_switch_twice [of sample_libs "routed_config None" "started None" "''us:2''"
        "snd (handle_failure sample_libs (routed_config None) (started None))" "''eu''"]
      failing_over_eval(1) started_eval(2)
  by (auto simp: prod_eq_iff routed_config_def two_region_infos_def)
    (simp_all add: switch_count_def started_def two_regions_parse router_eval new_geo_routing_metrics_def)

definition measured_prober :: latency_prober where
  "measured_prober = fst (fold (probe_step sample_libs default_geo_routing_config)
     [Regions [sample_region ''eu'', sample_region ''us''], Probe (answering 7) (sample_region ''eu''),
      Probe (answering 3) (sample_region ''us''), Probe (answering 5) (sample_region ''us'')]
     (new_latency_prober, new_geo_routing_metrics))"

lemma mk_small: "\<bar>n\<bar> \<le> 2 ^ 53 \<Longrightarrow> mk_float (of_int n) = Fin (of_int n)"
proof -
  assume n: "\<bar>n\<bar> \<le> 2 ^ 53"
  then have "\<bar>of_int n :: rat\<bar> \<le> 2 ^ 53" by (metis of_int_abs of_int_le_iff of_int_numeral of_int_power)
  moreover have "(2 ^ 53 :: rat) < 2 ^ 1024" by (intro power_strict_increasing) simp_all
  ultimately show ?thesis using n by (auto simp: mk_float_def Let_def abs_le_iff)
qed

lemma measured_eval:
  "measured sample_libs measured_prober (available measured_prober [] [sample_region ''eu'', sample_region ''us'']) =
     [(sample_region ''eu'', Fin 7), (sample_region ''us'', Fin 4)]"
  "available measured_prober [] [sample_region ''eu'', sample_region ''us''] = [sample_region ''eu'', sample_region ''us'']"
proof -
  define fresh where "fresh n = \<lparr>region_name = n, samples = [], max_samples = 5, last_probe_time = Fin 0,
      consecutive_failures = 0, health = UNKNOWN\<rparr>" for n
  have clock: "sampled_at (answering x) = Fin 1" "probed_at (answering x) = Fin 1" for x
    by (simp_all add: answering_def)
  have s: "get_stats measured_prober ''eu'' = Some (add_sample (Fin 7) (Fin 1) (Fin 1) (fresh ''eu''))"
    "get_stats measured_prober ''us'' =
       Some (add_sample (Fin 5) (Fin 1) (Fin 1) (add_sample (Fin 3) (Fin 1) (Fin 1) (fresh ''us'')))"
    by (simp_all add: measured_prober_def get_stats_probe_one get_stats_set_regions clock fresh_def)
  have eu: "map_option (map rtt_ms \<circ> samples) (get_stats measured_prober ''eu'') = Some [Fin 7]"
    and us: "map_option (map rtt_ms \<circ> samples) (get_stats measured_prober ''us'') = Some [Fin 3, Fin 5]"
    and h: "is_region_healthy measured_prober ''eu''" "is_region_healthy measured_prober ''us''"
    by (simp_all add: s fresh_def deque_append_def is_region_healthy_def stats_is_healthy_def)
  show av: "available measured_prober [] [sample_region ''eu'', sample_region ''us''] = [sample_region ''eu'', sample_region ''us'']"
    using h by (simp add: available_def)
  have avg: "map_option (get_average_rtt_ms sample_libs) (get_stats measured_prober n) = Some (Some (Fin (of_int k)))"
    if prem: "map_option (map rtt_ms \<circ> samples) (get_stats measured_prober n) = Some xs" "xs \<noteq> []"
      "f_div (foldl f_add (Fin 0) xs) (Fin (of_nat (length xs))) = Inr (Fin (of_int k))" for n xs k
  proof -
    obtain st where st: "get_stats measured_prober n = Some st" "map rtt_ms (samples st) = xs"
      using prem(1) by auto
    then have "samples st \<noteq> []" "length (samples st) = length xs" using prem(2) by auto
    with st prem(3) show ?thesis
      by (simp add: get_average_rtt_ms_def sample_libs_def del: f_div.simps foldl_Cons)
  qed
  have m: "mk_float 3 = Fin 3" "mk_float 8 = Fin 8" "mk_float 4 = Fin 4" "mk_float 7 = Fin 7"
    by (rule mk_small [of 3, simplified] mk_small [of 8, simplified] mk_small [of 4, simplified] mk_small [of 7, simplified])+
  have "f_div (foldl f_add (Fin 0) [Fin 7]) (Fin (of_nat (length [Fin 7]))) = Inr (Fin (of_int 7))"
    by (simp add: m)
  from avg [OF eu _ this]
  have "map_option (get_average_rtt_ms sample_libs) (get_stats measured_prober ''eu'') = Some (Some (Fin 7))" by simp
  moreover have "f_div (foldl f_add (Fin 0) [Fin 3, Fin 5]) (Fin (of_nat (length [Fin 3, Fin 5]))) = Inr (Fin (of_int 4))"
    by (simp add: m)
  from avg [OF us _ this]
  have "map_option (get_average_rtt_ms sample_libs) (get_stats measured_prober ''us'') = Some (Some (Fin 4))" by simp
  ultimately show "measured sample_libs measured_prober (available measured_prober [] [sample_region ''eu'', sample_region ''us'']) =
     [(sample_region ''eu'', Fin 7), (sample_region ''us'', Fin 4)]"
    unfolding av by (auto simp: measured_def)
qed

lemma region_select_lowest_latency_witness:
  "\<exists>r k. fst (region_select sample_libs default_geo_routing_config measured_prober
       [sample_region ''eu'', sample_region ''us''] [] (new_region_selector, new_geo_routing_metrics)) = Inr (Some r) \<and>
     (r, k) \<in> {(sample_region ''eu'', Fin 7), (sample_region ''us'', Fin 4)} \<and> k \<le> Fin 4"
  using region_select_lowest_latency
    [of measured_prober "[]" "[sample_region ''eu'', sample_region ''us'']" default_geo_routing_config
        "sample_region ''eu''" "Fin 7" sample_libs "(new_region_selector, new_geo_routing_metrics)"]
    measured_eval
  by (auto simp: default_geo_routing_config_def)

end
