(* ===== verification/Sdk_Metrics.thy ===== *)
theory Sdk_Metrics
  imports Py_Text "HOL-Library.AList"
begin

section \<open>Metrics\<close>

text \<open>
  \<open>MetricLabels\<close>, \<open>Counter\<close>, \<open>Gauge\<close>, \<open>Histogram\<close> and \<open>SDKMetrics\<close> of
  \<open>archerdb/observability.py\<close>.  A dict is an association list in insertion order; counter
  values and sums are Python floats, histogram counts are ints.  The timestamp that
  \<open>MetricValue\<close> gets from the clock is left out: nothing reads it.
\<close>

subsection \<open>Labels\<close>

record metric_labels =
  ml_operation :: string
  ml_status :: string

definition labels_to_dict :: "metric_labels \<Rightarrow> (string \<times> string) list" where
  "labels_to_dict l =
     filter (\<lambda>(k, v). v \<noteq> []) [(''operation'', ml_operation l), (''status'', ml_status l)]"

subsection \<open>Counters\<close>

record counter =
  ct_name :: string
  ct_description :: string
  ct_values :: "(string \<times> pyfloat) list"

definition new_counter :: "string \<Rightarrow> string \<Rightarrow> counter" where
  "new_counter name description = \<lparr>ct_name = name, ct_description = description, ct_values = []\<rparr>"

definition counter_label_key :: "metric_labels option \<Rightarrow> string" where
  "counter_label_key labels =
     (case labels of None \<Rightarrow> '''' | Some l \<Rightarrow> ml_operation l @ '':'' @ ml_status l)"

definition counter_parse_key :: "string \<Rightarrow> metric_labels" where
  "counter_parse_key key =
     (if key = [] then \<lparr>ml_operation = [], ml_status = []\<rparr>
      else
        let parts = split_on (CHR '':'') key in
        \<lparr>ml_operation = (if 0 < length parts then parts ! 0 else []),
         ml_status = (if 1 < length parts then parts ! 1 else [])\<rparr>)"

text \<open>\<open>d[k]\<close> of a \<open>defaultdict(float)\<close>.\<close>

definition float_at :: "(string \<times> pyfloat) list \<Rightarrow> string \<Rightarrow> pyfloat" where
  "float_at d k = (case map_of d k of Some v \<Rightarrow> v | None \<Rightarrow> Fin 0)"

definition counter_inc :: "metric_labels option \<Rightarrow> pyfloat \<Rightarrow> counter \<Rightarrow> counter" where
  "counter_inc labels x c =
     (let key = counter_label_key labels in
      c\<lparr>ct_values := AList.update key (f_add (float_at (ct_values c) key) x) (ct_values c)\<rparr>)"

definition counter_get :: "metric_labels option \<Rightarrow> counter \<Rightarrow> pyfloat" where
  "counter_get labels c = float_at (ct_values c) (counter_label_key labels)"

definition counter_get_all :: "counter \<Rightarrow> (pyfloat \<times> metric_labels) list" where
  "counter_get_all c = map (\<lambda>(key, x). (x, counter_parse_key key)) (ct_values c)"

subsection \<open>Gauges\<close>

record gauge =
  gg_name :: string
  gg_description :: string
  gg_value :: pyfloat

definition new_gauge :: "string \<Rightarrow> string \<Rightarrow> gauge" where
  "new_gauge name description = \<lparr>gg_name = name, gg_description = description, gg_value = Fin 0\<rparr>"

definition gauge_set :: "pyfloat \<Rightarrow> gauge \<Rightarrow> gauge" where
  "gauge_set x g = g\<lparr>gg_value := x\<rparr>"

definition gauge_inc :: "pyfloat \<Rightarrow> gauge \<Rightarrow> gauge" where
  "gauge_inc x g = g\<lparr>gg_value := f_add (gg_value g) x\<rparr>"

definition gauge_dec :: "pyfloat \<Rightarrow> gauge \<Rightarrow> gauge" where
  "gauge_dec x g = g\<lparr>gg_value := f_sub (gg_value g) x\<rparr>"

subsection \<open>Histograms\<close>

definition default_buckets :: "pyfloat list" where
  "default_buckets =
     map Fin [fl (5 / 1000), fl (1 / 100), fl (25 / 1000), fl (5 / 100), fl (75 / 1000), fl (1 / 10),
              fl (25 / 100), fl (5 / 10), fl (75 / 100), 1, fl (25 / 10), 5, fl (75 / 10), 10] @ [PInf]"

record histogram =
  hg_name :: string
  hg_description :: string
  hg_buckets :: "pyfloat list"
  hg_counts :: "(string \<times> (pyfloat \<times> int) list) list"
  hg_sums :: "(string \<times> pyfloat) list"
  hg_totals :: "(string \<times> int) list"

definition new_histogram :: "string \<Rightarrow> string \<Rightarrow> pyfloat list \<Rightarrow> histogram" where
  "new_histogram name description buckets =
     \<lparr>hg_name = name, hg_description = description, hg_buckets = buckets,
      hg_counts = [], hg_sums = [], hg_totals = []\<rparr>"

definition histogram_label_key :: "metric_labels option \<Rightarrow> string" where
  "histogram_label_key labels = (case labels of None \<Rightarrow> '''' | Some l \<Rightarrow> ml_operation l)"

text \<open>
  \<open>self._counts[key][bucket] += 1\<close> for every bucket the value does not exceed; reading a
  missing key enters the zero counts.
\<close>

definition zero_counts :: "pyfloat list \<Rightarrow> (pyfloat \<times> int) list" where
  "zero_counts buckets = fold (\<lambda>b d. AList.update b 0 d) buckets []"

definition bump_bucket ::
    "pyfloat list \<Rightarrow> string \<Rightarrow> pyfloat \<Rightarrow> (string \<times> (pyfloat \<times> int) list) list \<Rightarrow>
     (string \<times> (pyfloat \<times> int) list) list" where
  "bump_bucket buckets key b counts =
     (let row = (case map_of counts key of Some r \<Rightarrow> r | None \<Rightarrow> zero_counts buckets);
          n = (case map_of row b of Some n \<Rightarrow> n | None \<Rightarrow> 0)
      in AList.update key (AList.update b (n + 1) row) counts)"

definition observe :: "pyfloat \<Rightarrow> metric_labels option \<Rightarrow> histogram \<Rightarrow> histogram" where
  "observe x labels h =
     (let key = histogram_label_key labels in
      h\<lparr>hg_sums := AList.update key (f_add (float_at (hg_sums h) key) x) (hg_sums h),
        hg_totals := AList.update key ((case map_of (hg_totals h) key of Some n \<Rightarrow> n | None \<Rightarrow> 0) + 1) (hg_totals h),
        hg_counts := fold (\<lambda>b counts. if f_le x b then bump_bucket (hg_buckets h) key b counts else counts)
                       (hg_buckets h) (hg_counts h)\<rparr>)"

definition get_count :: "metric_labels option \<Rightarrow> histogram \<Rightarrow> int" where
  "get_count labels h = (case map_of (hg_totals h) (histogram_label_key labels) of Some n \<Rightarrow> n | None \<Rightarrow> 0)"

definition get_sum :: "metric_labels option \<Rightarrow> histogram \<Rightarrow> pyfloat" where
  "get_sum labels h = float_at (hg_sums h) (histogram_label_key labels)"

definition get_bucket :: "pyfloat \<Rightarrow> metric_labels option \<Rightarrow> histogram \<Rightarrow> int" where
  "get_bucket b labels h =
     (case map_of (hg_counts h) (histogram_label_key labels) of
        None \<Rightarrow> 0
      | Some row \<Rightarrow> (case map_of row b of Some n \<Rightarrow> n | None \<Rightarrow> 0))"

subsection \<open>Keys\<close>

text \<open>The labels of a counter survive the trip through their key exactly when neither the
  operation nor the status contains a colon.\<close>

theorem counter_key_roundtrip:
  "counter_parse_key (counter_label_key (Some l)) = l \<longleftrightarrow>
     CHR '':'' \<notin> set (ml_operation l) \<and> CHR '':'' \<notin> set (ml_status l)"
proof
  let ?parts = "split_on (CHR '':'') (ml_operation l @ '':'' @ ml_status l)"
  have parsed: "counter_parse_key (counter_label_key (Some l)) =
      \<lparr>ml_operation = ?parts ! 0, ml_status = (if 1 < length ?parts then ?parts ! 1 else [])\<rparr>"
    by (simp add: counter_parse_key_def counter_label_key_def Let_def)
  assume "counter_parse_key (counter_label_key (Some l)) = l"
  note eq = trans [OF parsed [symmetric] this]
  have op: "ml_operation l = ?parts ! 0"
    using arg_cong [OF eq, of ml_operation] by (simp only: metric_labels.select_convs)
  have st: "ml_status l = (if 1 < length ?parts then ?parts ! 1 else [])"
    using arg_cong [OF eq, of ml_status] by (simp only: metric_labels.select_convs)
  have "?parts ! 0 \<in> set ?parts" by simp
  then have "CHR '':'' \<notin> set (ml_operation l)" using split_on_no_sep op by metis
  moreover have "CHR '':'' \<notin> set (ml_status l)"
  proof (cases "1 < length ?parts")
    case True
    then have "?parts ! 1 \<in> set ?parts" by simp
    from split_on_no_sep [OF this] st True show ?thesis by simp
  next
    case False
    with st show ?thesis by simp
  qed
  ultimately show "CHR '':'' \<notin> set (ml_operation l) \<and> CHR '':'' \<notin> set (ml_status l)" by blast
next
  assume "CHR '':'' \<notin> set (ml_operation l) \<and> CHR '':'' \<notin> set (ml_status l)"
  then show "counter_parse_key (counter_label_key (Some l)) = l"
    by (simp add: counter_parse_key_def counter_label_key_def split_on_cut split_on_plain)
qed

subsection \<open>What counters and histograms hold\<close>

lemma float_at_update [simp]:
  "float_at (AList.update k x d) j = (if j = k then x else float_at d j)"
  by (simp add: float_at_def update_conv')

lemma float_count:
  "0 \<le> n \<Longrightarrow> n < 2 ^ 53 \<Longrightarrow> f_add (Fin (of_int n)) (Fin 1) = Fin (of_int (n + 1))"
proof -
  assume n: "0 \<le> n" "n < 2 ^ 53"
  then have "(of_int (n + 1) :: rat) \<le> 2 ^ 53" by (metis of_int_le_iff of_int_numeral of_int_power zless_imp_add1_zle add.commute)
  moreover have "(2 ^ 53 :: rat) < 2 ^ 1024" by (intro power_strict_increasing) simp_all
  moreover have "(0 :: rat) < 2 ^ 1024" by simp
  moreover have "0 \<le> (of_int (n + 1) :: rat)" using n by simp
  ultimately have "of_int (n + 1) < (2 ^ 1024 :: rat)" "\<not> of_int (n + 1) \<le> (- (2 ^ 1024) :: rat)" by linarith+
  moreover have "fl (of_int (n + 1)) = of_int (n + 1)" using n by (intro fl_of_int) simp
  ultimately show ?thesis by (simp add: mk_float_def Let_def del: of_int_add of_int_1) simp
qed

text \<open>Reading a bucket of a key.\<close>

definition bucket_at :: "(string \<times> (pyfloat \<times> int) list) list \<Rightarrow> string \<Rightarrow> pyfloat \<Rightarrow> int" where
  "bucket_at counts key b =
     (case map_of counts key of
        None \<Rightarrow> 0
      | Some row \<Rightarrow> (case map_of row b of Some n \<Rightarrow> n | None \<Rightarrow> 0))"

lemma get_bucket_at: "get_bucket b labels h = bucket_at (hg_counts h) (histogram_label_key labels) b"
  by (simp add: get_bucket_def bucket_at_def)

lemma zero_counts_lookup: "map_of (zero_counts bs) b = (if b \<in> set bs then Some 0 else None)"
proof -
  have "map_of (fold (\<lambda>b d. AList.update b 0 d) bs d) b = (if b \<in> set bs then Some 0 else map_of d b)"
    for d :: "(pyfloat \<times> int) list"
    by (induction bs arbitrary: d) (auto simp: update_conv')
  then show ?thesis by (simp add: zero_counts_def)
qed

lemma bump_bucket_at:
  "bucket_at (bump_bucket bs key b counts) k c = bucket_at counts k c + (if k = key \<and> c = b then 1 else 0)"
  by (auto simp: bucket_at_def bump_bucket_def Let_def update_conv' zero_counts_lookup split: option.splits)

lemma bump_run_at:
  "distinct qs \<Longrightarrow>
     bucket_at (fold (\<lambda>b counts. if f_le x b then bump_bucket bs key b counts else counts) qs counts) k c =
     bucket_at counts k c + (if k = key \<and> c \<in> set qs \<and> f_le x c then 1 else 0)"
  by (induction qs arbitrary: counts) (auto simp: bump_bucket_at)

lemma observe_simps [simp]:
  "hg_buckets (observe x labels h) = hg_buckets h"
  "get_count j (observe x labels h) = get_count j h + (if histogram_label_key j = histogram_label_key labels then 1 else 0)"
  by (auto simp: observe_def get_count_def Let_def update_conv' split: option.splits)

lemma get_bucket_observe:
  assumes "distinct (hg_buckets h)"
  shows "get_bucket b j (observe x labels h) = get_bucket b j h +
    (if histogram_label_key j = histogram_label_key labels \<and> b \<in> set (hg_buckets h) \<and> f_le x b then 1 else 0)"
  using assms by (simp add: get_bucket_at observe_def Let_def bump_run_at)

text \<open>A run of observations, and those of a key.\<close>

definition observe_all :: "(pyfloat \<times> metric_labels option) list \<Rightarrow> histogram \<Rightarrow> histogram" where
  "observe_all os h = fold (\<lambda>(x, labels). observe x labels) os h"

definition observed :: "metric_labels option \<Rightarrow> (pyfloat \<times> metric_labels option) list \<Rightarrow> pyfloat list" where
  "observed j os = map fst (filter (\<lambda>(x, labels). histogram_label_key labels = histogram_label_key j) os)"

lemma observe_all_counts:
  assumes "distinct (hg_buckets h)"
  shows "hg_buckets (observe_all os h) = hg_buckets h \<and>
         get_count j (observe_all os h) = get_count j h + int (length (observed j os)) \<and>
         get_bucket b j (observe_all os h) = get_bucket b j h +
           (if b \<in> set (hg_buckets h) then int (length (filter (\<lambda>x. f_le x b) (observed j os))) else 0)"
  using assms
proof (induction os arbitrary: h)
  case Nil
  then show ?case by (simp add: observe_all_def observed_def)
next
  case (Cons o1 os)
  obtain x labels where o: "o1 = (x, labels)" by (cases o1) auto
  have "distinct (hg_buckets (observe x labels h))" using Cons.prems by simp
  from Cons.IH [OF this] Cons.prems o show ?case
    by (simp add: observe_all_def observed_def get_bucket_observe)
qed

text \<open>C26: A histogram with distinct buckets holds, for each key and bucket, how many of the
  values observed under that key do not exceed the bucket's bound: the buckets are
  cumulative, and the infinite one counts every value that is not a NaN.\<close>

theorem histogram_buckets_count:
  assumes "distinct buckets" and "b \<in> set buckets"
  shows "get_bucket b j (observe_all os (new_histogram name description buckets)) =
           int (length (filter (\<lambda>x. f_le x b) (observed j os))) \<and>
         get_count j (observe_all os (new_histogram name description buckets)) = int (length (observed j os)) \<and>
         (b' \<in> set buckets \<and> f_le b b' \<longrightarrow>
            get_bucket b j (observe_all os (new_histogram name description buckets)) \<le>
            get_bucket b' j (observe_all os (new_histogram name description buckets))) \<and>
         (b = PInf \<and> NaN \<notin> set (observed j os) \<longrightarrow>
            get_bucket b j (observe_all os (new_histogram name description buckets)) =
            get_count j (observe_all os (new_histogram name description buckets)))"
proof -
  let ?h = "new_histogram name description buckets"
  have new: "hg_buckets ?h = buckets" "get_count j ?h = 0" "get_bucket c j ?h = 0" for c
    by (simp_all add: new_histogram_def get_count_def get_bucket_def)
  have count: "get_bucket c j (observe_all os ?h) = int (length (filter (\<lambda>x. f_le x c) (observed j os)))"
    if "c \<in> set buckets" for c
    using observe_all_counts [of ?h os j c] assms(1) that new by simp
  have total: "get_count j (observe_all os ?h) = int (length (observed j os))"
    using observe_all_counts [of ?h os j b] assms(1) new by simp
  have trans: "f_le x b'" if "f_le b b'" "f_le x b" for x
  proof -
    have "b' \<noteq> NaN" "b \<noteq> NaN" using that by auto
    with that show ?thesis using order_trans [of x b b'] by (simp add: le_float_iff)
  qed
  have "length (filter (\<lambda>x. f_le x b) xs) \<le> length (filter (\<lambda>x. f_le x b') xs)" if "f_le b b'" for xs
    using trans [OF that] by (induction xs) auto
  moreover have "filter (\<lambda>x. f_le x PInf) (observed j os) = observed j os" if "NaN \<notin> set (observed j os)"
    using that by (auto intro: filter_True)
  ultimately show ?thesis using count [OF assms(2)] count [of b'] total by auto
qed

lemma histogram_buckets_count_witness:
  "get_bucket PInf None (observe_all [(Fin 2, None), (Fin 1, None)] (new_histogram ''h'' [] [Fin 1, PInf])) = 2 \<and>
   get_bucket (Fin 1) None (observe_all [(Fin 2, None), (Fin 1, None)] (new_histogram ''h'' [] [Fin 1, PInf])) = 1"
  using histogram_buckets_count [of "[Fin 1, PInf]" PInf None "[(Fin 2, None), (Fin 1, None)]" "''h''" "[]" PInf]
    histogram_buckets_count [of "[Fin 1, PInf]" "Fin 1" None "[(Fin 2, None), (Fin 1, None)]" "''h''" "[]" PInf]
  by (simp add: observed_def)

subsection \<open>The registry\<close>

record sdk_metrics =
  requests_total :: counter
  request_duration :: histogram
  connections_active :: gauge
  reconnections_total :: counter
  session_renewals_total :: counter
  retries_total :: counter
  retry_exhausted_total :: counter
  primary_discoveries_total :: counter

definition new_sdk_metrics :: sdk_metrics where
  "new_sdk_metrics =
     \<lparr>requests_total = new_counter ''archerdb_client_requests_total''
        ''Total number of requests by operation and status'',
      request_duration = new_histogram ''archerdb_client_request_duration_seconds''
        ''Request duration in seconds by operation'' default_buckets,
      connections_active = new_gauge ''archerdb_client_connections_active'' ''Number of active connections'',
      reconnections_total = new_counter ''archerdb_client_reconnections_total''
        ''Total number of reconnection attempts'',
      session_renewals_total = new_counter ''archerdb_client_session_renewals_total''
        ''Total number of session renewals'',
      retries_total = new_counter ''archerdb_client_retries_total'' ''Total number of retry attempts'',
      retry_exhausted_total = new_counter ''archerdb_client_retry_exhausted_total''
        ''Total number of operations that exhausted all retry attempts'',
      primary_discoveries_total = new_counter ''archerdb_client_primary_discoveries_total''
        ''Total number of primary discovery events''\<rparr>"

definition record_request :: "string \<Rightarrow> string \<Rightarrow> pyfloat \<Rightarrow> sdk_metrics \<Rightarrow> sdk_metrics" where
  "record_request operation status duration_seconds m =
     (let labels = Some \<lparr>ml_operation = operation, ml_status = status\<rparr> in
      m\<lparr>requests_total := counter_inc labels (Fin 1) (requests_total m),
        request_duration := observe duration_seconds labels (request_duration m)\<rparr>)"

definition record_connection_opened :: "sdk_metrics \<Rightarrow> sdk_metrics" where
  "record_connection_opened m = m\<lparr>connections_active := gauge_inc (Fin 1) (connections_active m)\<rparr>"

definition record_connection_closed :: "sdk_metrics \<Rightarrow> sdk_metrics" where
  "record_connection_closed m = m\<lparr>connections_active := gauge_dec (Fin 1) (connections_active m)\<rparr>"

definition record_reconnection :: "sdk_metrics \<Rightarrow> sdk_metrics" where
  "record_reconnection m = m\<lparr>reconnections_total := counter_inc None (Fin 1) (reconnections_total m)\<rparr>"

definition record_session_renewal :: "sdk_metrics \<Rightarrow> sdk_metrics" where
  "record_session_renewal m = m\<lparr>session_renewals_total := counter_inc None (Fin 1) (session_renewals_total m)\<rparr>"

definition record_retry :: "sdk_metrics \<Rightarrow> sdk_metrics" where
  "record_retry m = m\<lparr>retries_total := counter_inc None (Fin 1) (retries_total m)\<rparr>"

definition record_retry_exhausted :: "sdk_metrics \<Rightarrow> sdk_metrics" where
  "record_retry_exhausted m = m\<lparr>retry_exhausted_total := counter_inc None (Fin 1) (retry_exhausted_total m)\<rparr>"

definition record_primary_discovery :: "sdk_metrics \<Rightarrow> sdk_metrics" where
  "record_primary_discovery m =
     m\<lparr>primary_discoveries_total := counter_inc None (Fin 1) (primary_discoveries_total m)\<rparr>"

text \<open>The exposition text, line by line.\<close>

definition help_line :: "string \<Rightarrow> string \<Rightarrow> string" where
  "help_line name description = ''# HELP '' @ name @ '' '' @ description"

definition type_line :: "string \<Rightarrow> string \<Rightarrow> string" where
  "type_line name kind = ''# TYPE '' @ name @ '' '' @ kind"

definition plain_counter_lines :: "counter \<Rightarrow> string list" where
  "plain_counter_lines c =
     [help_line (ct_name c) (ct_description c), type_line (ct_name c) ''counter'',
      ct_name c @ '' '' @ show_float (counter_get None c)]"

definition label_text :: "metric_labels \<Rightarrow> string" where
  "label_text l =
     join_with '','' (map (\<lambda>(k, v). k @ ''='' @ [CHR 0x22] @ v @ [CHR 0x22]) (labels_to_dict l))"

definition request_lines :: "counter \<Rightarrow> string list" where
  "request_lines c =
     [help_line (ct_name c) (ct_description c), type_line (ct_name c) ''counter''] @
     map (\<lambda>(x, l). if label_text l \<noteq> [] then ct_name c @ ''{'' @ label_text l @ ''} '' @ show_float x
                   else ct_name c @ '' '' @ show_float x) (counter_get_all c)"

definition duration_lines :: "histogram \<Rightarrow> string list" where
  "duration_lines h =
     [help_line (hg_name h) (hg_description h), type_line (hg_name h) ''histogram'',
      hg_name h @ ''_count '' @ show_int (get_count None h),
      hg_name h @ ''_sum '' @ show_float (get_sum None h)]"

definition gauge_lines :: "gauge \<Rightarrow> string list" where
  "gauge_lines g =
     [help_line (gg_name g) (gg_description g), type_line (gg_name g) ''gauge'',
      gg_name g @ '' '' @ show_float (gg_value g)]"

definition prometheus_lines :: "sdk_metrics \<Rightarrow> string list" where
  "prometheus_lines m =
     request_lines (requests_total m) @ duration_lines (request_duration m) @
     gauge_lines (connections_active m) @
     plain_counter_lines (reconnections_total m) @ plain_counter_lines (session_renewals_total m) @
     plain_counter_lines (retries_total m) @ plain_counter_lines (retry_exhausted_total m) @
     plain_counter_lines (primary_discoveries_total m)"

definition to_prometheus :: "sdk_metrics \<Rightarrow> string" where
  "to_prometheus m = join_with [CHR 0x0A] (prometheus_lines m)"

subsection \<open>What the registry accounts for\<close>

datatype metric_event =
    Request string string pyfloat
  | Opened
  | Closed
  | Reconnected
  | Renewed
  | Retried
  | Exhausted
  | Discovered

fun metric_step :: "metric_event \<Rightarrow> sdk_metrics \<Rightarrow> sdk_metrics" where
  "metric_step (Request operation status d) m = record_request operation status d m"
| "metric_step Opened m = record_connection_opened m"
| "metric_step Closed m = record_connection_closed m"
| "metric_step Reconnected m = record_reconnection m"
| "metric_step Renewed m = record_session_renewal m"
| "metric_step Retried m = record_retry m"
| "metric_step Exhausted m = record_retry_exhausted m"
| "metric_step Discovered m = record_primary_discovery m"

lemmas recorders = record_request_def record_connection_opened_def record_connection_closed_def
  record_reconnection_def record_session_renewal_def record_retry_def record_retry_exhausted_def
  record_primary_discovery_def

fun request_of :: "metric_event \<Rightarrow> (string \<times> string) option" where
  "request_of (Request operation status d) = Some (operation, status)"
| "request_of _ = None"

lemma counter_get_inc:
  "counter_get l (counter_inc l' x c) =
     (if counter_label_key l = counter_label_key l' then f_add (counter_get l c) x else counter_get l c)"
  by (simp add: counter_get_def counter_inc_def Let_def)

lemma counter_keys_differ:
  "CHR '':'' \<notin> set (ml_operation l) \<Longrightarrow> CHR '':'' \<notin> set (ml_operation l') \<Longrightarrow>
     counter_label_key (Some l) = counter_label_key (Some l') \<longleftrightarrow> l = l'"
proof
  assume no: "CHR '':'' \<notin> set (ml_operation l)" "CHR '':'' \<notin> set (ml_operation l')"
    and "counter_label_key (Some l) = counter_label_key (Some l')"
  then have eq: "ml_operation l @ CHR '':'' # ml_status l = ml_operation l' @ CHR '':'' # ml_status l'"
    by (simp add: counter_label_key_def)
  have tw: "takeWhile (\<lambda>c. c \<noteq> CHR '':'') (a @ CHR '':'' # b) = a" if "CHR '':'' \<notin> set a" for a b
    using that by (induction a) auto
  have "ml_operation l = ml_operation l'" using arg_cong [OF eq, of "takeWhile (\<lambda>c. c \<noteq> CHR '':'')"] no by (simp add: tw)
  with eq show "l = l'" by (cases l; cases l') simp
qed simp

lemma metric_step_requests:
  assumes "CHR '':'' \<notin> set operation" "\<forall>x s. request_of e = Some (x, s) \<longrightarrow> CHR '':'' \<notin> set x"
  shows "counter_get (Some \<lparr>ml_operation = operation, ml_status = status\<rparr>) (requests_total (metric_step e m)) =
      (if request_of e = Some (operation, status)
       then f_add (counter_get (Some \<lparr>ml_operation = operation, ml_status = status\<rparr>) (requests_total m)) (Fin 1)
       else counter_get (Some \<lparr>ml_operation = operation, ml_status = status\<rparr>) (requests_total m))"
proof (cases e)
  case (Request x s d)
  with assms show ?thesis
    using counter_keys_differ [of "\<lparr>ml_operation = operation, ml_status = status\<rparr>" "\<lparr>ml_operation = x, ml_status = s\<rparr>"]
    by (auto simp: record_request_def Let_def counter_get_inc)
qed (simp_all add: recorders)

lemma metric_step_durations:
  "get_count (Some \<lparr>ml_operation = operation, ml_status = status\<rparr>) (request_duration (metric_step e m)) =
     get_count (Some \<lparr>ml_operation = operation, ml_status = status\<rparr>) (request_duration m) +
     (if \<exists>s. request_of e = Some (operation, s) then 1 else 0)"
  by (cases e) (auto simp: recorders Let_def histogram_label_key_def)

lemma requests_run:
  assumes "CHR '':'' \<notin> set operation" "\<forall>e\<in>set es. \<forall>x s. request_of e = Some (x, s) \<longrightarrow> CHR '':'' \<notin> set x"
    and "counter_get (Some \<lparr>ml_operation = operation, ml_status = status\<rparr>) (requests_total m) = Fin (of_int n)"
    and "0 \<le> n" "n + int (length es) \<le> 2 ^ 53"
  shows "counter_get (Some \<lparr>ml_operation = operation, ml_status = status\<rparr>) (requests_total (fold metric_step es m)) =
      Fin (of_int (n + int (length (filter (\<lambda>e. request_of e = Some (operation, status)) es))))"
  using assms(2-)
proof (induction es arbitrary: m n)
  case Nil
  then show ?case by simp
next
  case (Cons e es)
  let ?l = "Some \<lparr>ml_operation = operation, ml_status = status\<rparr>"
  let ?k = "if request_of e = Some (operation, status) then n + 1 else n"
  have "counter_get ?l (requests_total (metric_step e m)) = Fin (of_int ?k)"
    using metric_step_requests [OF assms(1), of e status m] Cons.prems float_count [of n] by auto
  then have "counter_get ?l (requests_total (fold metric_step es (metric_step e m))) =
      Fin (of_int (?k + int (length (filter (\<lambda>e. request_of e = Some (operation, status)) es))))"
    using Cons.prems by (intro Cons.IH) (auto split: if_splits)
  then show ?case by (simp add: algebra_simps)
qed

lemma durations_run:
  "get_count (Some \<lparr>ml_operation = operation, ml_status = status\<rparr>) (request_duration (fold metric_step es m)) =
     get_count (Some \<lparr>ml_operation = operation, ml_status = status\<rparr>) (request_duration m) +
     int (length (filter (\<lambda>e. \<exists>s. request_of e = Some (operation, s)) es))"
  by (induction es arbitrary: m) (simp_all add: metric_step_durations)

text \<open>After any run of at most \<open>2 ^ 53\<close> events whose operations hold no colon, the request
  counter of an operation and a status is exactly the number of such requests, and the
  duration histogram has counted every request of the operation.\<close>

theorem metrics_account_for_requests:
  assumes "CHR '':'' \<notin> set operation"
    and "\<forall>e\<in>set es. \<forall>x s. request_of e = Some (x, s) \<longrightarrow> CHR '':'' \<notin> set x"
    and "int (length es) \<le> 2 ^ 53"
  shows "counter_get (Some \<lparr>ml_operation = operation, ml_status = status\<rparr>)
             (requests_total (fold metric_step es new_sdk_metrics)) =
           Fin (of_nat (length (filter (\<lambda>e. request_of e = Some (operation, status)) es))) \<and>
         get_count (Some \<lparr>ml_operation = operation, ml_status = status\<rparr>)
             (request_duration (fold metric_step es new_sdk_metrics)) =
           int (length (filter (\<lambda>e. \<exists>s. request_of e = Some (operation, s)) es))"
proof -
  have "counter_get (Some \<lparr>ml_operation = operation, ml_status = status\<rparr>) (requests_total new_sdk_metrics) = Fin (of_int 0)"
    by (simp add: new_sdk_metrics_def new_counter_def counter_get_def float_at_def)
  from requests_run [OF assms(1,2) this] assms(3)
  have "counter_get (Some \<lparr>ml_operation = operation, ml_status = status\<rparr>)
      (requests_total (fold metric_step es new_sdk_metrics)) =
      Fin (of_int (0 + int (length (filter (\<lambda>e. request_of e = Some (operation, status)) es))))" by simp
  moreover have "get_count (Some \<lparr>ml_operation = operation, ml_status = status\<rparr>) (request_duration new_sdk_metrics) = 0"
    by (simp add: new_sdk_metrics_def new_histogram_def get_count_def)
  ultimately show ?thesis by (simp add: durations_run)
qed

lemma metrics_account_for_requests_witness:
  "counter_get (Some \<lparr>ml_operation = ''insert'', ml_status = ''error''\<rparr>)
     (requests_total (fold metric_step [Request ''insert'' ''error'' (Fin 1), Retried, Request ''insert'' ''success'' (Fin 2)]
        new_sdk_metrics)) = Fin 1"
  using metrics_account_for_requests [of "''insert''"
      "[Request ''insert'' ''error'' (Fin 1), Retried, Request ''insert'' ''success'' (Fin 2)]" "''error''"]
  by simp

text \<open>The exported duration count and sum stay at zero whatever is recorded, as long as every
  request names its operation: the export reads the statistics of the unlabelled requests.\<close>

theorem exported_durations_stay_zero:
  assumes "\<forall>e\<in>set es. \<forall>x s. request_of e = Some (x, s) \<longrightarrow> x \<noteq> []"
  shows "''archerdb_client_request_duration_seconds_count 0'' \<in> set (prometheus_lines (fold metric_step es new_sdk_metrics)) \<and>
         get_count None (request_duration (fold metric_step es new_sdk_metrics)) = 0 \<and>
         get_sum None (request_duration (fold metric_step es new_sdk_metrics)) = Fin 0"
proof -
  have step: "hg_name (request_duration (metric_step e m)) = hg_name (request_duration m) \<and>
      get_count None (request_duration (metric_step e m)) = get_count None (request_duration m) \<and>
      get_sum None (request_duration (metric_step e m)) = get_sum None (request_duration m)"
    if "\<forall>x s. request_of e = Some (x, s) \<longrightarrow> x \<noteq> []" for e m
    using that by (cases e) (auto simp: recorders Let_def histogram_label_key_def get_sum_def update_conv' observe_def get_count_def)
  have "hg_name (request_duration (fold metric_step es m)) = hg_name (request_duration m) \<and>
      get_count None (request_duration (fold metric_step es m)) = get_count None (request_duration m) \<and>
      get_sum None (request_duration (fold metric_step es m)) = get_sum None (request_duration m)" for m
    using assms by (induction es arbitrary: m) (auto simp: step)
  moreover have "hg_name (request_duration new_sdk_metrics) = ''archerdb_client_request_duration_seconds''"
    "get_count None (request_duration new_sdk_metrics) = 0" "get_sum None (request_duration new_sdk_metrics) = Fin 0"
    by (simp_all add: new_sdk_metrics_def new_histogram_def get_count_def get_sum_def float_at_def)
  moreover have "show_int 0 = ''0''" by code_simp
  ultimately show ?thesis
    by (simp add: prometheus_lines_def duration_lines_def)
qed

lemma exported_durations_stay_zero_witness:
  "''archerdb_client_request_duration_seconds_count 0'' \<in>
     set (prometheus_lines (fold metric_step [Request ''insert'' ''success'' (Fin 2)] new_sdk_metrics))"
  using exported_durations_stay_zero [of "[Request ''insert'' ''success'' (Fin 2)]"] by simp

end
