(* ===== verification/Observability.thy ===== *)
theory Observability
  imports Sdk_Metrics Health_View
begin

section \<open>Logging, health tracking and request timing\<close>

text \<open>
  The loggers, the module globals, \<open>HealthTracker\<close> and \<open>RequestTimer\<close> of
  \<open>archerdb/observability.py\<close>.  A log is the list of the records that reach the standard
  library's logging with their level; \<open>kwargs\<close> are pairs of a name and its text.
\<close>

subsection \<open>Logging\<close>

datatype log_level = DEBUG | INFO | WARN | ERROR

fun log_level_code :: "log_level \<Rightarrow> int" where
  "log_level_code DEBUG = 10"
| "log_level_code INFO = 20"
| "log_level_code WARN = 30"
| "log_level_code ERROR = 40"

text \<open>A standard logger of a level, or the logger that drops everything.\<close>

datatype sdk_logger = StandardLogger string int | NullLogger

type_synonym log = "(log_level \<times> string) list"

definition full_message :: "string \<Rightarrow> (string \<times> string) list \<Rightarrow> string" where
  "full_message message kwargs =
     (let extra = join_with '' '' (map (\<lambda>(k, v). k @ ''='' @ v) kwargs) in
      if extra \<noteq> [] then strip (message @ '' '' @ extra) else message)"

definition emit :: "sdk_logger \<Rightarrow> log_level \<Rightarrow> string \<Rightarrow> (string \<times> string) list \<Rightarrow> log \<Rightarrow> log" where
  "emit logger level message kwargs l =
     (case logger of
        NullLogger \<Rightarrow> l
      | StandardLogger name threshold \<Rightarrow>
          if threshold \<le> log_level_code level then l @ [(level, full_message message kwargs)] else l)"

text \<open>The module's default logger and metrics registry.\<close>

record sdk_globals =
  default_logger :: sdk_logger
  global_metrics :: "sdk_metrics option"

definition initial_globals :: sdk_globals where
  "initial_globals = \<lparr>default_logger = NullLogger, global_metrics = None\<rparr>"

definition configure_logging :: "sdk_logger option \<Rightarrow> bool \<Rightarrow> sdk_globals \<Rightarrow> sdk_globals" where
  "configure_logging logger debug g =
     (case logger of
        Some l \<Rightarrow> g\<lparr>default_logger := l\<rparr>
      | None \<Rightarrow> g\<lparr>default_logger :=
          StandardLogger ''archerdb'' (log_level_code (if debug then DEBUG else INFO))\<rparr>)"

definition get_metrics :: "sdk_globals \<Rightarrow> sdk_metrics \<times> sdk_globals" where
  "get_metrics g =
     (case global_metrics g of
        Some m \<Rightarrow> (m, g)
      | None \<Rightarrow> (new_sdk_metrics, g\<lparr>global_metrics := Some new_sdk_metrics\<rparr>))"

definition reset_metrics :: "sdk_globals \<Rightarrow> sdk_globals" where
  "reset_metrics g = g\<lparr>global_metrics := Some new_sdk_metrics\<rparr>"

subsection \<open>The health tracker\<close>

datatype connection_state = CONNECTED | DISCONNECTED | CONNECTING | RECONNECTING | FAILED

fun connection_state_value :: "connection_state \<Rightarrow> string" where
  "connection_state_value CONNECTED = ''connected''"
| "connection_state_value DISCONNECTED = ''disconnected''"
| "connection_state_value CONNECTING = ''connecting''"
| "connection_state_value RECONNECTING = ''reconnecting''"
| "connection_state_value FAILED = ''failed''"

record health_status =
  hs_healthy :: bool
  hs_state :: connection_state
  hs_last_successful_op_ns :: int
  hs_consecutive_failures :: int
  hs_details :: string

record health_tracker =
  ht_state :: connection_state
  ht_last_successful_op_ns :: int
  ht_consecutive_failures :: int
  ht_failure_threshold :: int

definition new_health_tracker :: "int \<Rightarrow> health_tracker" where
  "new_health_tracker threshold =
     \<lparr>ht_state = DISCONNECTED, ht_last_successful_op_ns = 0, ht_consecutive_failures = 0,
      ht_failure_threshold = threshold\<rparr>"

definition tracker_record_success :: "int \<Rightarrow> health_tracker \<Rightarrow> health_tracker" where
  "tracker_record_success now h =
     h\<lparr>ht_last_successful_op_ns := now, ht_consecutive_failures := 0, ht_state := CONNECTED\<rparr>"

definition tracker_record_failure :: "health_tracker \<Rightarrow> health_tracker" where
  "tracker_record_failure h =
     (let h1 = h\<lparr>ht_consecutive_failures := ht_consecutive_failures h + 1\<rparr> in
      if ht_failure_threshold h1 \<le> ht_consecutive_failures h1 then h1\<lparr>ht_state := FAILED\<rparr> else h1)"

definition set_connecting :: "health_tracker \<Rightarrow> health_tracker" where
  "set_connecting h = h\<lparr>ht_state := CONNECTING\<rparr>"

definition set_reconnecting :: "health_tracker \<Rightarrow> health_tracker" where
  "set_reconnecting h = h\<lparr>ht_state := RECONNECTING\<rparr>"

definition set_disconnected :: "health_tracker \<Rightarrow> health_tracker" where
  "set_disconnected h = h\<lparr>ht_state := DISCONNECTED\<rparr>"

definition tracker_get_status :: "health_tracker \<Rightarrow> health_status" where
  "tracker_get_status h =
     \<lparr>hs_healthy = (ht_state h = CONNECTED \<and> ht_consecutive_failures h < ht_failure_threshold h),
      hs_state = ht_state h,
      hs_last_successful_op_ns = ht_last_successful_op_ns h,
      hs_consecutive_failures = ht_consecutive_failures h,
      hs_details =
        (case ht_state h of
           FAILED \<Rightarrow> ''Connection failed after '' @ show_int (ht_consecutive_failures h) @ '' consecutive failures''
         | RECONNECTING \<Rightarrow> ''Attempting to reconnect''
         | CONNECTING \<Rightarrow> ''Initial connection in progress''
         | DISCONNECTED \<Rightarrow> ''Client is disconnected''
         | CONNECTED \<Rightarrow> [])\<rparr>"

datatype status_value = SBool bool | SText string | SInt int

definition health_status_to_dict :: "health_status \<Rightarrow> (string \<times> status_value) list" where
  "health_status_to_dict s =
     [(''healthy'', SBool (hs_healthy s)),
      (''state'', SText (connection_state_value (hs_state s))),
      (''last_successful_operation_ns'', SInt (hs_last_successful_op_ns s)),
      (''consecutive_failures'', SInt (hs_consecutive_failures s)),
      (''details'', SText (hs_details s))]"

subsection \<open>Health as a function of the history\<close>

datatype health_event = Succeeded int | Failed | SetConnecting | SetReconnecting | SetDisconnected

fun health_step :: "health_event \<Rightarrow> health_tracker \<Rightarrow> health_tracker" where
  "health_step (Succeeded now) h = tracker_record_success now h"
| "health_step Failed h = tracker_record_failure h"
| "health_step SetConnecting h = set_connecting h"
| "health_step SetReconnecting h = set_reconnecting h"
| "health_step SetDisconnected h = set_disconnected h"

lemmas tracker_ops = tracker_record_success_def tracker_record_failure_def set_connecting_def
  set_reconnecting_def set_disconnected_def

fun succeeds :: "health_event \<Rightarrow> bool" where
  "succeeds (Succeeded now) = True"
| "succeeds _ = False"

interpretation tracked: health_view health_step "\<lambda>h (n :: unit). hs_healthy (tracker_get_status h)"
  "\<lambda>h n. ht_consecutive_failures h" "\<lambda>e n. succeeds e" "\<lambda>e n. e = Failed" "\<lambda>h n. True"
  "\<lambda>h. ht_failure_threshold h = limit \<and> 0 < limit \<and> 0 \<le> ht_consecutive_failures h" limit
proof
  fix h :: health_tracker and e :: health_event
  assume ok: "ht_failure_threshold h = limit \<and> 0 < limit \<and> 0 \<le> ht_consecutive_failures h"
  then show "ht_failure_threshold (health_step e h) = limit \<and> 0 < limit \<and> 0 \<le> ht_consecutive_failures (health_step e h)"
    by (cases e) (simp_all add: tracker_ops Let_def)
  show "0 \<le> ht_consecutive_failures h" using ok by simp
  show "\<not> succeeds e \<Longrightarrow> ht_consecutive_failures (health_step e h) =
      ht_consecutive_failures h + (if e = Failed then 1 else 0)"
    by (cases e) (simp_all add: tracker_ops Let_def)
  show "limit \<le> ht_consecutive_failures h \<Longrightarrow> \<not> hs_healthy (tracker_get_status h)"
    using ok by (simp add: tracker_get_status_def)
  show "\<not> hs_healthy (tracker_get_status h) \<Longrightarrow> \<not> succeeds e \<Longrightarrow> \<not> hs_healthy (tracker_get_status (health_step e h))"
    by (cases e) (auto simp: tracker_ops tracker_get_status_def Let_def)
  show "succeeds e \<Longrightarrow> hs_healthy (tracker_get_status (health_step e h))"
    using ok by (cases e) (simp_all add: tracker_ops tracker_get_status_def)
qed simp

text \<open>How many failures follow the last success directly, looking back from the end.\<close>

fun streak :: "health_event list \<Rightarrow> nat option" where
  "streak [] = None"
| "streak (Succeeded now # past) = Some 0"
| "streak (Failed # past) = map_option Suc (streak past)"
| "streak (_ # past) = None"

lemma streak_Some_iff:
  "streak (rev es) = Some k \<longleftrightarrow> (\<exists>xs now. es = xs @ Succeeded now # replicate k Failed)"
proof (induction es arbitrary: k rule: rev_induct)
  case Nil
  then show ?case by simp
next
  case (snoc e es)
  show ?case
  proof (cases e)
    case Failed
    then show ?thesis
      using snoc.IH by (cases k) (auto simp: replicate_append_same [symmetric])
  qed (cases k; auto simp: replicate_append_same [symmetric])+
qed

lemma tracker_streak:
  assumes "0 < limit"
  shows "ht_failure_threshold (fold health_step es (new_health_tracker limit)) = limit \<and>
     (\<forall>k. streak (rev es) = Some k \<longrightarrow>
        ht_consecutive_failures (fold health_step es (new_health_tracker limit)) = int k) \<and>
     (ht_state (fold health_step es (new_health_tracker limit)) = CONNECTED \<longleftrightarrow>
        (\<exists>k. streak (rev es) = Some k \<and> int k < limit))"
proof (induction es rule: rev_induct)
  case Nil
  then show ?case by (simp add: new_health_tracker_def)
next
  case (snoc e es)
  then show ?case
    using assms by (cases e) (auto simp: tracker_ops Let_def)
qed

text \<open>With a positive threshold, the client is reported healthy exactly when its history ends
  with a success followed by fewer failures than the threshold and nothing else.\<close>

theorem health_is_a_recent_success:
  assumes "0 < limit"
  shows "hs_healthy (tracker_get_status (fold health_step es (new_health_tracker limit))) \<longleftrightarrow>
           (\<exists>xs now k. es = xs @ Succeeded now # replicate k Failed \<and> int k < limit)"
proof -
  have "hs_healthy (tracker_get_status (fold health_step es (new_health_tracker limit))) \<longleftrightarrow>
      (\<exists>k. streak (rev es) = Some k \<and> int k < limit)"
    using tracker_streak [OF assms, of es] by (auto simp: tracker_get_status_def)
  then show ?thesis by (auto simp: streak_Some_iff)
qed

lemma health_is_a_recent_success_witness:
  "hs_healthy (tracker_get_status (fold health_step [SetConnecting, Succeeded 5, Failed, Failed] (new_health_tracker 3)))"
proof -
  have "\<exists>xs now k. [SetConnecting, Succeeded 5, Failed, Failed] = xs @ Succeeded now # replicate k Failed \<and> int k < 3"
    by (rule exI [of _ "[SetConnecting]"], rule exI [of _ 5], rule exI [of _ 2]) (simp add: numeral_2_eq_2)
  then show ?thesis by (subst health_is_a_recent_success) simp_all
qed

subsection \<open>Timed requests\<close>

record request_timer =
  rt_operation :: string
  rt_start_ns :: int
  rt_status :: string
  rt_error :: "string option"

definition new_request_timer :: "string \<Rightarrow> request_timer" where
  "new_request_timer operation =
     \<lparr>rt_operation = operation, rt_start_ns = 0, rt_status = ''success'', rt_error = None\<rparr>"

text \<open>What a timer reports to: the metrics, the optional health tracker and the log.\<close>

record observers =
  ob_metrics :: sdk_metrics
  ob_health :: "health_tracker option"
  ob_log :: log

definition log_if :: "sdk_logger option \<Rightarrow> log_level \<Rightarrow> string \<Rightarrow> (string \<times> string) list \<Rightarrow> observers \<Rightarrow> observers" where
  "log_if logger level message kwargs ob =
     (case logger of None \<Rightarrow> ob | Some l \<Rightarrow> ob\<lparr>ob_log := emit l level message kwargs (ob_log ob)\<rparr>)"

definition timer_enter ::
    "sdk_logger option \<Rightarrow> int \<Rightarrow> request_timer \<Rightarrow> observers \<Rightarrow> request_timer \<times> observers" where
  "timer_enter logger now t ob =
     (t\<lparr>rt_start_ns := now\<rparr>, log_if logger DEBUG ''Starting operation'' [(''operation'', rt_operation t)] ob)"

definition timer_set_status :: "string \<Rightarrow> request_timer \<Rightarrow> request_timer" where
  "timer_set_status status t = t\<lparr>rt_status := status\<rparr>"

text \<open>
  \<open>__exit__\<close>: \<open>exc\<close> is the text of the exception that left the body, \<open>now\<close> the clock at the
  exit and \<open>stamp\<close> the one \<open>record_success\<close> reads.  The result is whether the exception is
  suppressed.
\<close>

definition timer_exit ::
    "sdk_logger option \<Rightarrow> string option \<Rightarrow> int \<Rightarrow> int \<Rightarrow> request_timer \<Rightarrow> observers \<Rightarrow>
     (py_exn, bool) result \<times> request_timer \<times> observers" where
  "timer_exit logger exc now stamp t ob =
     (let duration_ns = now - rt_start_ns t in
      case int_truediv duration_ns 1000000000 of
        Inl e \<Rightarrow> (Inl e, t, ob)
      | Inr duration_seconds \<Rightarrow>
          let duration_ms = show_int (duration_ns div 1000000);
              to = (case exc of
                      Some text \<Rightarrow>
                        (t\<lparr>rt_status := ''error'', rt_error := Some text\<rparr>,
                         (log_if logger ERROR ''Operation failed''
                            [(''operation'', rt_operation t), (''duration_ms'', duration_ms), (''error'', text)] ob)
                         \<lparr>ob_health := map_option tracker_record_failure (ob_health ob)\<rparr>)
                    | None \<Rightarrow>
                        (t,
                         (log_if logger DEBUG ''Operation completed''
                            [(''operation'', rt_operation t), (''duration_ms'', duration_ms)] ob)
                         \<lparr>ob_health := map_option (tracker_record_success stamp) (ob_health ob)\<rparr>))
          in case to of
               (t, ob) \<Rightarrow>
                 (Inr False, t,
                  ob\<lparr>ob_metrics := record_request (rt_operation t) (rt_status t) duration_seconds (ob_metrics ob)\<rparr>))"

text \<open>
  A \<open>with\<close> block: the clock at its start, the status its body sets, the exception that
  leaves its body, and the clock at its end.
\<close>

record timed_block =
  tb_operation :: string
  tb_entered :: int
  tb_status :: "string option"
  tb_exception :: "string option"
  tb_exited :: int
  tb_stamp :: int

definition run_timed_block ::
    "sdk_logger option \<Rightarrow> timed_block \<Rightarrow> observers \<Rightarrow> (py_exn, bool) result \<times> request_timer \<times> observers" where
  "run_timed_block logger b ob =
     (case timer_enter logger (tb_entered b) (new_request_timer (tb_operation b)) ob of
        (t, ob) \<Rightarrow>
          timer_exit logger (tb_exception b) (tb_exited b) (tb_stamp b)
            (case tb_status b of None \<Rightarrow> t | Some status \<Rightarrow> timer_set_status status t) ob)"

definition run_timed_blocks :: "sdk_logger option \<Rightarrow> timed_block list \<Rightarrow> observers \<Rightarrow> observers" where
  "run_timed_blocks logger bs ob = fold (\<lambda>b ob. snd (snd (run_timed_block logger b ob))) bs ob"

text \<open>A duration a float can hold: any difference of two clock readings below \<open>2 ^ 63\<close>.\<close>

definition measurable :: "timed_block \<Rightarrow> bool" where
  "measurable b \<longleftrightarrow> (\<exists>x. int_truediv (tb_exited b - tb_entered b) 1000000000 = Inr x)"

definition block_event :: "timed_block \<Rightarrow> health_event" where
  "block_event b = (case tb_exception b of None \<Rightarrow> Succeeded (tb_stamp b) | Some text \<Rightarrow> Failed)"

definition block_status :: "timed_block \<Rightarrow> string" where
  "block_status b =
     (case tb_exception b of Some text \<Rightarrow> ''error''
      | None \<Rightarrow> (case tb_status b of None \<Rightarrow> ''success'' | Some status \<Rightarrow> status))"

lemma log_if_keeps [simp]:
  "ob_metrics (log_if logger level message kwargs ob) = ob_metrics ob"
  "ob_health (log_if logger level message kwargs ob) = ob_health ob"
  by (simp_all add: log_if_def split: option.split)

lemma run_timed_block_effect:
  assumes "int_truediv (tb_exited b - tb_entered b) 1000000000 = Inr x"
  shows "fst (run_timed_block logger b ob) = Inr False \<and>
         ob_metrics (snd (snd (run_timed_block logger b ob))) =
           record_request (tb_operation b) (block_status b) x (ob_metrics ob) \<and>
         ob_health (snd (snd (run_timed_block logger b ob))) = map_option (health_step (block_event b)) (ob_health ob)"
proof -
  have step: "health_step (Succeeded n) = tracker_record_success n" "health_step Failed = tracker_record_failure" for n
    by auto
  show ?thesis
    using assms
    by (cases "tb_exception b"; cases "tb_status b")
      (simp_all add: run_timed_block_def timer_enter_def timer_exit_def timer_set_status_def new_request_timer_def
        block_status_def block_event_def step)
qed

lemma run_timed_blocks_effect:
  assumes "\<forall>b\<in>set bs. measurable b"
  shows "ob_health (run_timed_blocks logger bs ob) = map_option (fold health_step (map block_event bs)) (ob_health ob) \<and>
         (\<exists>ds. length ds = length bs \<and>
           ob_metrics (run_timed_blocks logger bs ob) =
             fold metric_step (map (\<lambda>(b, x). Request (tb_operation b) (block_status b) x) (zip bs ds)) (ob_metrics ob))"
  using assms
proof (induction bs arbitrary: ob)
  case Nil
  then show ?case by (simp add: run_timed_blocks_def option.map_ident)
next
  case (Cons b bs)
  from Cons.prems obtain x where x: "int_truediv (tb_exited b - tb_entered b) 1000000000 = Inr x"
    by (auto simp: measurable_def)
  let ?ob = "snd (snd (run_timed_block logger b ob))"
  note one = run_timed_block_effect [OF x, of logger ob]
  obtain ds where ds: "length ds = length bs" "ob_metrics (run_timed_blocks logger bs ?ob) =
      fold metric_step (map (\<lambda>(b, x). Request (tb_operation b) (block_status b) x) (zip bs ds)) (ob_metrics ?ob)"
    using Cons by auto
  have "ob_health (run_timed_blocks logger bs ?ob) = map_option (fold health_step (map block_event bs)) (ob_health ?ob)"
    using Cons by auto
  then have "ob_health (run_timed_blocks logger (b # bs) ob) =
      map_option (fold health_step (map block_event (b # bs))) (ob_health ob)"
    using one by (simp add: run_timed_blocks_def option.map_comp comp_def)
  moreover have "ob_metrics (run_timed_blocks logger (b # bs) ob) =
      fold metric_step (map (\<lambda>(b, x). Request (tb_operation b) (block_status b) x) (zip (b # bs) (x # ds))) (ob_metrics ob)"
    using ds(2) one by (simp add: run_timed_blocks_def)
  ultimately show ?case using ds(1) by (metis length_Cons)
qed


definition sample_block :: "string \<Rightarrow> string option \<Rightarrow> timed_block" where
  "sample_block operation exc =
     \<lparr>tb_operation = operation, tb_entered = 0, tb_status = None, tb_exception = exc,
      tb_exited = 1000000000, tb_stamp = 1000000000\<rparr>"


end
