(* ===== verification/Polygon_Check.thy ===== *)
theory Polygon_Check
  imports Py_Text
begin

section \<open>Self-intersection of polygons\<close>

text \<open>
  \<open>_segments_intersect\<close>, \<open>_generate_repair_suggestions\<close> and
  \<open>validate_polygon_no_self_intersection\<close> of \<open>archerdb/types.py\<close>.  A vertex is a pair of
  floats; every arithmetic operation rounds, and comparisons with a NaN are false.
\<close>

type_synonym point = "pyfloat \<times> pyfloat"

definition cross_product :: "point \<Rightarrow> point \<Rightarrow> point \<Rightarrow> pyfloat" where
  "cross_product o1 a b =
     f_sub (f_mul (f_sub (fst a) (fst o1)) (f_sub (snd b) (snd o1)))
           (f_mul (f_sub (snd a) (snd o1)) (f_sub (fst b) (fst o1)))"

definition on_segment :: "point \<Rightarrow> point \<Rightarrow> point \<Rightarrow> bool" where
  "on_segment p q r \<longleftrightarrow>
     f_le (py_min (fst p) (fst r)) (fst q) \<and> f_le (fst q) (py_max (fst p) (fst r)) \<and>
     f_le (py_min (snd p) (snd r)) (snd q) \<and> f_le (snd q) (py_max (snd p) (snd r))"

definition positive :: "pyfloat \<Rightarrow> bool" where "positive d \<longleftrightarrow> f_lt (Fin 0) d"
definition negative :: "pyfloat \<Rightarrow> bool" where "negative d \<longleftrightarrow> f_lt d (Fin 0)"
definition near_zero :: "pyfloat \<Rightarrow> bool" where "near_zero d \<longleftrightarrow> f_lt (f_abs d) (Fin (fl (1 / 10 ^ 10)))"

definition segments_intersect :: "point \<Rightarrow> point \<Rightarrow> point \<Rightarrow> point \<Rightarrow> bool" where
  "segments_intersect p1 p2 p3 p4 =
     (let d1 = cross_product p3 p4 p1;
          d2 = cross_product p3 p4 p2;
          d3 = cross_product p1 p2 p3;
          d4 = cross_product p1 p2 p4
      in if (positive d1 \<and> negative d2 \<or> negative d1 \<and> positive d2) \<and>
            (positive d3 \<and> negative d4 \<or> negative d3 \<and> positive d4) then True
         else if near_zero d1 \<and> on_segment p3 p1 p4 then True
         else if near_zero d2 \<and> on_segment p3 p2 p4 then True
         else if near_zero d3 \<and> on_segment p1 p3 p2 then True
         else if near_zero d4 \<and> on_segment p1 p4 p2 then True
         else False)"

definition show_vertex :: "point \<Rightarrow> string" where
  "show_vertex v = ''('' @ show_fixed 6 (fst v) @ '', '' @ show_fixed 6 (snd v) @ '')''"

definition generate_repair_suggestions :: "point list \<Rightarrow> nat \<Rightarrow> nat \<Rightarrow> string list" where
  "generate_repair_suggestions vertices segment1_index segment2_index =
     (let n = length vertices;
          v1_idx = (segment1_index + 1) mod n;
          v2_idx = (segment2_index + 1) mod n
      in [''Try removing vertex '' @ show_nat v1_idx @ '' at '' @ show_vertex (vertices ! v1_idx),
          ''Try removing vertex '' @ show_nat v2_idx @ '' at '' @ show_vertex (vertices ! v2_idx)] @
         (if \<bar>int segment2_index - int segment1_index\<bar> = 2
          then [''Bow-tie pattern detected: try swapping vertices '' @ show_nat (segment1_index + 1)
                @ '' and '' @ show_nat segment2_index]
          else []) @
         [''Ensure vertices are ordered consistently (clockwise or counter-clockwise)''])"

record polygon_validation_error =
  pv_message :: string
  segment1_index :: int
  segment2_index :: int
  intersection_point :: "point option"
  repair_suggestions :: "string list"

text \<open>\<open>(a + b + c + d) / 4\<close>\<close>

definition mean4 :: "pyfloat \<Rightarrow> pyfloat \<Rightarrow> pyfloat \<Rightarrow> pyfloat \<Rightarrow> pyfloat" where
  "mean4 a b c d =
     (case f_div (f_add (f_add (f_add a b) c) d) (Fin 4) of Inr x \<Rightarrow> x | Inl _ \<Rightarrow> NaN)"

definition edge_start :: "point list \<Rightarrow> nat \<Rightarrow> point" where
  "edge_start vertices i = vertices ! i"

definition edge_end :: "point list \<Rightarrow> nat \<Rightarrow> point" where
  "edge_end vertices i = vertices ! ((i + 1) mod length vertices)"

definition edges_cross :: "point list \<Rightarrow> nat \<Rightarrow> nat \<Rightarrow> bool" where
  "edges_cross vertices i j =
     segments_intersect (edge_start vertices i) (edge_end vertices i) (edge_start vertices j) (edge_end vertices j)"

definition crossing_point :: "point list \<Rightarrow> nat \<Rightarrow> nat \<Rightarrow> point" where
  "crossing_point vertices i j =
     (let p1 = edge_start vertices i; p2 = edge_end vertices i; p3 = edge_start vertices j; p4 = edge_end vertices j
      in (mean4 (fst p1) (fst p2) (fst p3) (fst p4), mean4 (snd p1) (snd p2) (snd p3) (snd p4)))"

definition self_intersection_error :: "point list \<Rightarrow> bool \<Rightarrow> nat \<Rightarrow> nat \<Rightarrow> polygon_validation_error" where
  "self_intersection_error vertices suggest i j =
     (let n = length vertices; p = crossing_point vertices i j in
      \<lparr>pv_message = ''Polygon self-intersects: edge '' @ show_nat i @ ''-'' @ show_nat ((i + 1) mod n)
         @ '' crosses edge '' @ show_nat j @ ''-'' @ show_nat ((j + 1) mod n) @ '' near '' @ show_vertex p,
       segment1_index = int i, segment2_index = int j, intersection_point = Some p,
       repair_suggestions = (if suggest then generate_repair_suggestions vertices i j else [])\<rparr>)"

text \<open>The pairs the two loops visit, in their order.\<close>

definition edge_pairs :: "nat \<Rightarrow> (nat \<times> nat) list" where
  "edge_pairs n =
     concat (map (\<lambda>i. map (Pair i) (filter (\<lambda>j. j \<noteq> (i + n - 1) mod n) [i + 2..<n])) [0..<n])"

fun scan_edges ::
    "point list \<Rightarrow> bool \<Rightarrow> bool \<Rightarrow> (nat \<times> nat) list \<Rightarrow> (nat \<times> nat \<times> point) list \<Rightarrow>
     (polygon_validation_error, (nat \<times> nat \<times> point) list) result" where
  "scan_edges vertices raise_on_error suggest [] found = Inr found"
| "scan_edges vertices raise_on_error suggest ((i, j) # pairs) found =
     (if edges_cross vertices i j
      then if raise_on_error then Inl (self_intersection_error vertices suggest i j)
           else scan_edges vertices raise_on_error suggest pairs (found @ [(i, j, crossing_point vertices i j)])
      else scan_edges vertices raise_on_error suggest pairs found)"

definition validate_polygon_no_self_intersection ::
    "point list \<Rightarrow> bool \<Rightarrow> bool \<Rightarrow> (polygon_validation_error, (nat \<times> nat \<times> point) list) result" where
  "validate_polygon_no_self_intersection vertices raise_on_error suggest =
     (if length vertices < 4 then Inr []
      else scan_edges vertices raise_on_error suggest (edge_pairs (length vertices)) [])"

subsection \<open>Which pairs are reported\<close>

lemma set_edge_pairs:
  "(i, j) \<in> set (edge_pairs n) \<longleftrightarrow> i + 2 \<le> j \<and> j < n \<and> \<not> (i = 0 \<and> j = n - 1)"
proof -
  have "i < n \<Longrightarrow> i + 2 \<le> j \<Longrightarrow> j < n \<Longrightarrow> j = (i + n - 1) mod n \<longleftrightarrow> i = 0 \<and> j = n - 1"
    by (cases i) auto
  then show ?thesis by (auto simp: edge_pairs_def intro!: bexI [of _ i])
qed

lemma scan_edges_collect:
  "scan_edges vertices False suggest pairs found =
     Inr (found @ map (\<lambda>(i, j). (i, j, crossing_point vertices i j)) (filter (\<lambda>(i, j). edges_cross vertices i j) pairs))"
  by (induction vertices False suggest pairs found rule: scan_edges.induct) auto

lemma scan_edges_raise:
  "scan_edges vertices True suggest pairs found =
     (case filter (\<lambda>(i, j). edges_cross vertices i j) pairs of
        [] \<Rightarrow> Inr found
      | (i, j) # _ \<Rightarrow> Inl (self_intersection_error vertices suggest i j))"
  by (induction vertices True suggest pairs found rule: scan_edges.induct) auto

text \<open>Without \<open>raise_on_error\<close> the check returns exactly the pairs of edges without a common
  corner that intersect; with it, it raises exactly when there is such a pair, for the
  first of them, and carries that pair and its point.\<close>

theorem validate_polygon_reports:
  "(\<exists>found. validate_polygon_no_self_intersection vertices False suggest = Inr found \<and>
     (\<forall>i j p. (i, j, p) \<in> set found \<longleftrightarrow>
        4 \<le> length vertices \<and> i + 2 \<le> j \<and> j < length vertices \<and> \<not> (i = 0 \<and> j = length vertices - 1) \<and>
        edges_cross vertices i j \<and> p = crossing_point vertices i j) \<and>
     validate_polygon_no_self_intersection vertices True suggest =
       (case found of
          [] \<Rightarrow> Inr []
        | (i, j, p) # _ \<Rightarrow> Inl (self_intersection_error vertices suggest i j)))"
proof (cases "length vertices < 4")
  case True
  then show ?thesis by (simp add: validate_polygon_no_self_intersection_def)
next
  case False
  let ?hits = "filter (\<lambda>(i, j). edges_cross vertices i j) (edge_pairs (length vertices))"
  let ?found = "map (\<lambda>(i, j). (i, j, crossing_point vertices i j)) ?hits"
  have "validate_polygon_no_self_intersection vertices False suggest = Inr ?found"
    using False by (simp add: validate_polygon_no_self_intersection_def scan_edges_collect)
  moreover have "validate_polygon_no_self_intersection vertices True suggest =
      (case ?found of [] \<Rightarrow> Inr [] | (i, j, p) # _ \<Rightarrow> Inl (self_intersection_error vertices suggest i j))"
    using False by (simp add: validate_polygon_no_self_intersection_def scan_edges_raise split: list.split prod.split)
  moreover have "(i, j, p) \<in> set ?found \<longleftrightarrow>
      4 \<le> length vertices \<and> i + 2 \<le> j \<and> j < length vertices \<and> \<not> (i = 0 \<and> j = length vertices - 1) \<and>
      edges_cross vertices i j \<and> p = crossing_point vertices i j" for i j p
    using False by (auto simp: set_edge_pairs image_iff)
  ultimately show ?thesis by blast
qed

lemma segments_intersect_swap: "segments_intersect p1 p2 p3 p4 = segments_intersect p3 p4 p1 p2"
  by (auto simp: segments_intersect_def Let_def)

subsection \<open>Closed rings\<close>

text \<open>Coordinates far from overflow, degrees among them.\<close>

fun moderate :: "point \<Rightarrow> bool" where
  "moderate (Fin x, Fin y) \<longleftrightarrow> \<bar>x\<bar> \<le> 2 ^ 100 \<and> \<bar>y\<bar> \<le> 2 ^ 100"
| "moderate _ \<longleftrightarrow> False"

lemma moderate_cases:
  assumes "moderate p"
  obtains x y where "p = (Fin x, Fin y)" "\<bar>x\<bar> \<le> 2 ^ 100" "\<bar>y\<bar> \<le> 2 ^ 100"
  using assms by (cases p rule: moderate.cases) auto

lemma f_sub_moderate:
  assumes "\<bar>a\<bar> \<le> 2 ^ 100" "\<bar>b\<bar> \<le> 2 ^ 100"
  obtains c where "f_sub (Fin a) (Fin b) = Fin c" "\<bar>c\<bar> \<le> 2 ^ 101"
proof -
  have "\<bar>a - b\<bar> \<le> \<bar>a\<bar> + \<bar>b\<bar>" by linarith
  also have "\<dots> \<le> 2 ^ 100 + 2 ^ 100" using assms by linarith
  also have "(2 :: rat) ^ 100 + 2 ^ 100 = 2 ^ 101" by simp
  finally have b: "\<bar>a - b\<bar> \<le> 2 ^ 101" .
  with that [of "fl (a - b)"] show thesis
    using mk_float_Fin [OF b] fl_abs_le_pow2 [OF b] by (simp add: f_sub_def)
qed

lemma f_mul_moderate:
  assumes "\<bar>a\<bar> \<le> 2 ^ 101" "\<bar>b\<bar> \<le> 2 ^ 101"
  obtains c where "f_mul (Fin a) (Fin b) = Fin c" "f_mul (Fin b) (Fin a) = Fin c"
proof -
  have "\<bar>a * b\<bar> \<le> 2 ^ 101 * 2 ^ 101" unfolding abs_mult using assms by (intro mult_mono) simp_all
  also have "(2 :: rat) ^ 101 * 2 ^ 101 = 2 ^ 202" by (simp flip: power_add)
  finally have "mk_float (a * b) = Fin (fl (a * b))" by (rule mk_float_Fin) simp
  with that show thesis by (simp add: mult.commute)
qed

text \<open>An end point of a segment has no area with it, exactly.\<close>

lemma cross_product_self:
  assumes "moderate p" "moderate q"
  shows "cross_product p q q = Fin 0"
proof -
  obtain x y where p: "p = (Fin x, Fin y)" "\<bar>x\<bar> \<le> 2 ^ 100" "\<bar>y\<bar> \<le> 2 ^ 100"
    using assms(1) by (rule moderate_cases)
  obtain u v where q: "q = (Fin u, Fin v)" "\<bar>u\<bar> \<le> 2 ^ 100" "\<bar>v\<bar> \<le> 2 ^ 100"
    using assms(2) by (rule moderate_cases)
  obtain a where a: "f_sub (Fin u) (Fin x) = Fin a" "\<bar>a\<bar> \<le> 2 ^ 101" using q(2) p(2) by (rule f_sub_moderate)
  obtain b where b: "f_sub (Fin v) (Fin y) = Fin b" "\<bar>b\<bar> \<le> 2 ^ 101" using q(3) p(3) by (rule f_sub_moderate)
  obtain c where c: "f_mul (Fin a) (Fin b) = Fin c" "f_mul (Fin b) (Fin a) = Fin c"
    using a(2) b(2) by (rule f_mul_moderate)
  have "mk_float 0 = Fin 0" by (simp add: mk_float_def)
  then show ?thesis
    unfolding cross_product_def p(1) q(1) fst_conv snd_conv a(1) b(1) c by (simp add: f_sub_def)
qed

lemma on_segment_end:
  assumes "moderate p" "moderate r"
  shows "on_segment p r r"
proof -
  have "f_le (py_min (Fin a) (Fin b)) (Fin b)" "f_le (Fin b) (py_max (Fin a) (Fin b))" for a b
    by (simp_all add: py_min_def py_max_def)
  moreover obtain x y where "p = (Fin x, Fin y)" using assms(1) by (rule moderate_cases)
  moreover obtain u v where "r = (Fin u, Fin v)" using assms(2) by (rule moderate_cases)
  ultimately show ?thesis by (simp add: on_segment_def)
qed

lemma touching_segments_intersect:
  assumes "moderate p" "moderate r"
  shows "segments_intersect r q p r"
proof -
  have "0 < fl (1 / 10 ^ 10)" by code_simp
  then have "near_zero (Fin 0)" by (simp add: near_zero_def)
  then show ?thesis
    using cross_product_self [OF assms] on_segment_end [OF assms] by (simp add: segments_intersect_def Let_def)
qed

text \<open>Every closed ring is rejected as self-intersecting: when the last vertex repeats the first
  one, as GeoJSON and WKT rings do, the edge that reaches it and the first edge touch in
  that vertex and are not taken for neighbours.\<close>

theorem closed_ring_is_rejected:
  assumes "4 \<le> length vertices" and "last vertices = hd vertices"
    and "\<forall>v\<in>set vertices. moderate v"
  shows "\<exists>e. validate_polygon_no_self_intersection vertices True suggest = Inl e"
proof -
  let ?n = "length vertices"
  have ne: "vertices \<noteq> []" using assms(1) by auto
  have last: "vertices ! (?n - 1) = vertices ! 0" using assms(2) ne by (simp add: last_conv_nth hd_conv_nth)
  have m: "(?n - 2 + 1) mod ?n = ?n - 1" using assms(1) by simp
  have "vertices ! (?n - 2) \<in> set vertices" "vertices ! 0 \<in> set vertices" using assms(1) ne by simp_all
  then have "moderate (vertices ! (?n - 2))" "moderate (vertices ! 0)" using assms(3) by blast+
  then have "edges_cross vertices 0 (?n - 2)"
    unfolding edges_cross_def edge_start_def edge_end_def m last by (rule touching_segments_intersect)
  moreover have "(0, ?n - 2) \<in> set (edge_pairs ?n)" unfolding set_edge_pairs using assms(1) by linarith
  ultimately have "filter (\<lambda>(i, j). edges_cross vertices i j) (edge_pairs ?n) \<noteq> []"
    by (auto simp: filter_empty_conv)
  then obtain i j hits where "filter (\<lambda>(i, j). edges_cross vertices i j) (edge_pairs ?n) = (i, j) # hits"
    by (cases "filter (\<lambda>(i, j). edges_cross vertices i j) (edge_pairs ?n)") auto
  then show ?thesis
    using assms(1) by (simp add: validate_polygon_no_self_intersection_def scan_edges_raise)
qed

definition unit_square :: "point list" where
  "unit_square = [(Fin 0, Fin 0), (Fin 0, Fin 1), (Fin 1, Fin 1), (Fin 1, Fin 0)]"

lemma closed_ring_is_rejected_witness:
  "\<exists>e. validate_polygon_no_self_intersection (unit_square @ [(Fin 0, Fin 0)]) True True = Inl e"
  using closed_ring_is_rejected [of "unit_square @ [(Fin 0, Fin 0)]" True] by (simp add: unit_square_def)

end
