(* ===== verification/Degree_Text.thy ===== *)
theory Degree_Text
  imports Py_Text
begin

section \<open>The text of coordinates in degrees\<close>

text \<open>
  Coordinates are nanodegrees divided by \<open>10 ^ 9\<close>.  Here: which characters the text of
  such a float has, and that it has an exponent exactly below a ten-thousandth of a degree.
\<close>

lemma leading_zeros_ge: "x < 1 / 10 ^ k \<Longrightarrow> k \<le> n \<Longrightarrow> k \<le> leading_zeros n x"
proof (induction n arbitrary: k x)
  case 0
  then show ?case by simp
next
  case (Suc n)
  show ?case
  proof (cases k)
    case 0
    then show ?thesis by simp
  next
    case (Suc j)
    have "(1 :: rat) / 10 ^ Suc j \<le> 1 / 10" by (simp add: field_simps)
    then have "x < 1 / 10" using Suc.prems(1) unfolding Suc by linarith
    moreover have "10 * x < 1 / 10 ^ j" using Suc.prems Suc by (simp add: field_simps)
    then have "j \<le> leading_zeros n (10 * x)" using Suc.IH Suc.prems Suc by simp
    ultimately show ?thesis using Suc by simp
  qed
qed

lemma show_nat_length_le: "n < 10 ^ k \<Longrightarrow> 0 < k \<Longrightarrow> length (show_nat n) \<le> k"
proof (induction k arbitrary: n)
  case 0
  then show ?case by simp
next
  case (Suc k)
  then show ?case
    by (cases "n < 10"; cases k) (auto simp: show_nat.simps [of n])
qed

lemma show_nat_length_ge: "10 ^ k \<le> n \<Longrightarrow> k < length (show_nat n)"
proof (induction k arbitrary: n)
  case 0
  then show ?case by simp
next
  case (Suc k)
  then have "10 ^ k \<le> n div 10" by (simp add: less_eq_div_iff_mult_less_eq)
  then have "k < length (show_nat (n div 10))" by (rule Suc.IH)
  moreover have "10 \<le> n"
  proof -
    have "(10 :: nat) * 1 \<le> 10 * 10 ^ k" by (rule mult_le_mono) simp_all
    also have "\<dots> \<le> n" using Suc.prems by simp
    finally show ?thesis by simp
  qed
  ultimately show ?case by (simp add: show_nat.simps [of n])
qed

text \<open>The decimal point of a float between nanodegrees and a thousand degrees.\<close>

lemma dec_point_ge: "1 / 10 ^ 4 \<le> x \<Longrightarrow> - 3 \<le> dec_point x"
  using leading_zeros_le [of 3 x 400] by (simp add: dec_point_def)

lemma dec_point_small: "x < 1 / 10 ^ 4 \<Longrightarrow> dec_point x \<le> - 4"
  using leading_zeros_ge [of x 4 400] by (auto simp: dec_point_def)

lemma dec_point_lower: "0 < x \<Longrightarrow> x < 1000 \<Longrightarrow> 1 / 10 ^ 10 \<le> x \<Longrightarrow> 10 powi (dec_point x - 1) \<le> x \<and> x < 10 powi dec_point x"
proof -
  assume x: "0 < x" "x < 1000" "1 / 10 ^ 10 \<le> x"
  show ?thesis
  proof (cases "1 \<le> x")
    case True
    let ?n = "nat \<lfloor>x\<rfloor>"
    let ?l = "length (show_nat ?n)"
    have n: "of_nat ?n \<le> x" "x < of_nat ?n + 1" using True by linarith+
    have "?l \<noteq> 0" by simp
    have "?n < 10 ^ ?l" using show_nat_length_ge [of ?l ?n] by (meson less_irrefl not_le)
    then have "of_nat (?n + 1) \<le> (10 ^ ?l :: rat)" by (metis Suc_eq_plus1 Suc_leI of_nat_le_iff of_nat_numeral of_nat_power)
    moreover have "10 ^ (?l - 1) \<le> ?n"
    proof (rule ccontr)
      assume "\<not> 10 ^ (?l - 1) \<le> ?n"
      then have lt: "?n < 10 ^ (?l - 1)" by simp
      have "1 \<le> ?n" using True by linarith
      then have "?l - 1 \<noteq> 0" using lt by (cases "?l - 1") auto
      then have "?l \<le> ?l - 1" using show_nat_length_le [OF lt] by simp
      with \<open>?l \<noteq> 0\<close> show False by linarith
    qed
    then have "(10 ^ (?l - 1) :: rat) \<le> of_nat ?n" by (metis of_nat_le_iff of_nat_numeral of_nat_power)
    moreover have "(10 :: rat) powi (int ?l - 1) = 10 ^ (?l - 1)"
      using \<open>?l \<noteq> 0\<close> by (simp add: power_int_def nat_diff_distrib)
    ultimately have "10 powi (int ?l - 1) \<le> x" "x < 10 ^ ?l" using n by linarith+
    then show ?thesis using True by (simp add: dec_point_def)
  next
    case False
    let ?z = "leading_zeros 400 x"
    have "?z \<le> 9" using leading_zeros_le [of 9 x 400] x(3) by simp
    have "x < 1 / 10 ^ ?z" 
    proof (rule ccontr)
      assume "\<not> x < 1 / 10 ^ ?z"
      then have ge: "1 / 10 ^ ?z \<le> x" by simp
      show False
      proof (cases ?z)
        case 0
        with ge False show ?thesis by simp
      next
        case (Suc j)
        with ge leading_zeros_le [of j x 400] show ?thesis by simp
      qed
    qed
    moreover have "1 / 10 ^ Suc ?z \<le> x"
    proof (rule ccontr)
      assume "\<not> 1 / 10 ^ Suc ?z \<le> x"
      then have "x < 1 / 10 ^ Suc ?z" by simp
      from leading_zeros_ge [OF this, of 400] \<open>?z \<le> 9\<close> show False by simp
    qed
    ultimately show ?thesis using False
      by (simp add: dec_point_def power_int_def power_one_over nat_add_distrib field_simps)
  qed
qed

text \<open>Where the shortest decimal has its point: at the decimal point of the float, or one place
  later when rounding up reached the next power of ten.\<close>

lemma search_digits_found_in:
  "\<exists>n\<in>set ns. pick_digits x n \<noteq> None \<Longrightarrow> \<exists>m\<in>set ns. pick_digits x m = Some (search_digits x ns)"
  by (induction ns) (auto split: option.splits)

lemma shortest_digits_point:
  assumes "1 / 10 ^ 10 \<le> x" "x < 1000" "\<exists>m\<in>set [1..<18]. pick_digits x m \<noteq> None"
    and "shortest_digits x = (k, e)"
  shows "0 < k \<and> fl (of_int k * 10 powi e) = x \<and>
     (int (length (show_nat (nat k))) + e = dec_point x \<or>
      int (length (show_nat (nat k))) + e = dec_point x + 1 \<and> x = fl (10 powi dec_point x))"
proof -
  let ?d = "dec_point x"
  from search_digits_found_in [OF assms(3)] assms(4) obtain m where m: "m \<in> set [1..<18]" "pick_digits x m = Some (k, e)"
    by (auto simp: shortest_digits_def)
  have m1: "1 \<le> m" using m(1) by simp
  let ?u = "10 powi (?d - int m) :: rat"
  have e: "e = ?d - int m" and k: "k = \<lfloor>x / ?u\<rfloor> \<or> k = \<lfloor>x / ?u\<rfloor> + 1"
    using m(2) by (auto simp: pick_digits_def Let_def split: if_splits)
  have fl: "fl (of_int k * 10 powi e) = x" using m(2) by (rule pick_digits_reads)
  have "0 < x" using assms(1) by (rule less_le_trans [rotated]) simp
  with dec_point_lower assms(1,2) have d: "10 powi (?d - 1) \<le> x" "x < 10 powi ?d" by blast+
  have u: "0 < ?u" by simp
  have "10 powi (?d - 1) = 10 ^ (m - 1) * ?u" "10 powi ?d = 10 ^ m * ?u"
    using m1 by (simp_all flip: power_int_of_nat power_int_add add: of_nat_diff)
  then have q: "10 ^ (m - 1) \<le> x / ?u" "x / ?u < 10 ^ m"
    using d u by (simp_all add: le_divide_eq divide_less_eq)
  then have "10 ^ (m - 1) \<le> \<lfloor>x / ?u\<rfloor>" "\<lfloor>x / ?u\<rfloor> < 10 ^ m"
    by (simp_all add: le_floor_iff floor_less_iff)
  with k have kb: "10 ^ (m - 1) \<le> k" "k \<le> 10 ^ m" by auto
  have "0 < k" using kb(1) by (rule less_le_trans [rotated]) simp
  have lo: "m - 1 < length (show_nat (nat k))"
    using kb(1) by (intro show_nat_length_ge) (simp add: nat_le_eq_zle le_nat_iff)
  show ?thesis
  proof (cases "k = 10 ^ m")
    case True
    have "length (show_nat (nat k)) \<le> m + 1"
      using True by (intro show_nat_length_le) (simp_all add: nat_power_eq)
    moreover have "m < length (show_nat (nat k))"
      using True by (intro show_nat_length_ge) (simp add: nat_power_eq)
    moreover have "of_int k * 10 powi e = (10 powi ?d :: rat)"
      unfolding True e using \<open>10 powi ?d = 10 ^ m * ?u\<close> by simp
    ultimately show ?thesis using fl \<open>0 < k\<close> e by auto
  next
    case False
    with kb(2) have "k < 10 ^ m" by simp
    then have "nat k < 10 ^ m" using \<open>0 < k\<close> by (simp add: nat_less_iff)
    then have "length (show_nat (nat k)) \<le> m" using m1 by (intro show_nat_length_le) simp_all
    with lo show ?thesis using fl \<open>0 < k\<close> e by auto
  qed
qed

definition plain_char :: "char \<Rightarrow> bool" where
  "plain_char c \<longleftrightarrow> is_digit c \<or> c = CHR ''.''"

lemma digits_plain: "list_all is_digit s \<Longrightarrow> list_all plain_char s"
  by (auto simp: list_all_iff plain_char_def)

lemma layout_plain:
  assumes "list_all is_digit ds" "- 4 < p" "p \<le> 16"
  shows "list_all plain_char (layout_decimal ds p)"
proof -
  have "list_all plain_char ds" "list_all plain_char (take n ds)" "list_all plain_char (drop n ds)"
      "list_all plain_char (zeros n)" for n
    using assms(1) zeros_digits by (auto simp: list_all_iff plain_char_def dest: in_set_takeD in_set_dropD)
  moreover have "list_all plain_char ''0.''" "list_all plain_char ''.0''" "list_all plain_char ''.''"
    by (simp_all add: plain_char_def is_digit_def)
  moreover have "layout_decimal ds p = ''0.'' @ zeros (nat (- p)) @ ds \<or>
      layout_decimal ds p = take (nat p) ds @ ''.'' @ drop (nat p) ds \<or>
      layout_decimal ds p = ds @ zeros (nat p - length ds) @ ''.0''"
    using assms(2,3) unfolding layout_decimal_def by (cases "p \<le> 0"; cases "p < int (length ds)") auto
  ultimately show ?thesis by (elim disjE) (simp_all only: list_all_append conj_absorb simp_thms)
qed

lemma layout_exponent:
  assumes "list_all is_digit ds" "ds \<noteq> []" "p \<le> - 4"
  shows "\<exists>a b. layout_decimal ds p = a @ CHR ''e'' # b \<and> list_all plain_char a \<and> a \<noteq> [] \<and> list_all number_char b"
proof -
  let ?a = "take 1 ds @ (if 1 < length ds then ''.'' @ drop 1 ds else [])"
  obtain b where b: "show_exponent (p - 1) = CHR ''e'' # b" "list_all number_char b"
  proof -
    have "list_all number_char (show_nat n)" "list_all number_char ''-''" "list_all number_char ''+''" "list_all number_char ''0''" for n
      using digits_number [OF show_nat_digits] by (simp_all add: number_char_def is_digit_def)
    moreover have "show_exponent (p - 1) = CHR ''e'' # ''-'' @ (if \<bar>p - 1\<bar> < 10 then ''0'' else []) @ show_nat (nat \<bar>p - 1\<bar>)"
      using assms(3) by (simp add: show_exponent_def)
    ultimately show thesis
      using that [of "''-'' @ (if \<bar>p - 1\<bar> < 10 then ''0'' else []) @ show_nat (nat \<bar>p - 1\<bar>)"] by simp
  qed
  have "list_all plain_char (take 1 ds)" "list_all plain_char (drop 1 ds)" "list_all plain_char ''.''"
    using assms(1) by (auto simp: list_all_iff plain_char_def dest: in_set_takeD in_set_dropD)
  then have "list_all plain_char ?a" by simp
  moreover have "?a \<noteq> []" using assms(2) by (cases ds) auto
  moreover have "layout_decimal ds p = ?a @ CHR ''e'' # b"
    using assms(3) b(1) by (simp add: layout_decimal_def)
  ultimately show ?thesis using b(2) by blast
qed

text \<open>The text of a degree value: plain from a ten-thousandth on, with an exponent below.\<close>

lemma show_degree_text:
  assumes n: "0 < n" "n \<le> 180000000000"
  defines "x \<equiv> fl (of_int n / 10 ^ 9)"
  shows "show_positive x \<noteq> [] \<and> list_all number_char (show_positive x)"
    and "100000 \<le> n \<Longrightarrow> list_all plain_char (show_positive x)"
    and "n < 100000 \<Longrightarrow> \<exists>a b. show_positive x = a @ CHR ''e'' # b \<and> list_all plain_char a \<and> a \<noteq> [] \<and> list_all number_char b"
proof -
  note b = ninth_bounds [OF n, folded x_def]
  have x3: "x < 1000" using b(2) by linarith
  obtain k e where ke: "shortest_digits x = (k, e)" by fastforce
  let ?s = "show_nat (nat k)"
  let ?ds = "drop_zeros ?s"
  let ?p = "int (length ?s) + e"
  note sp = shortest_digits_point [OF b(1) x3 pick_ninth [OF n, folded x_def] ke]
  have ds: "list_all is_digit ?ds" by (rule drop_zeros_digits [OF show_nat_digits])
  have ne: "?ds \<noteq> []"
  proof
    assume "?ds = []"
    then have "read_nat ?s = 0" using drop_zeros_split [of ?s] by (metis append_Nil read_nat_zeros)
    with sp show False by simp
  qed
  have shown: "show_positive x = layout_decimal ?ds ?p" using ke by (simp add: show_positive_def Let_def)
  show "show_positive x \<noteq> [] \<and> list_all number_char (show_positive x)"
    unfolding shown using layout_decimal_head [OF ds ne, of ?p] layout_decimal_chars [OF ds, of ?p] by auto
  have x0: "0 < x" using b(1) by (rule less_le_trans [rotated]) simp
  have d3: "dec_point x \<le> 3"
  proof (rule ccontr)
    assume "\<not> dec_point x \<le> 3"
    then have "10 powi 3 \<le> (10 powi (dec_point x - 1) :: rat)" by (intro power_int_increasing) simp_all
    also have "\<dots> \<le> x" using dec_point_lower [OF x0 x3 b(1)] by blast
    finally show False using x3 by simp
  qed
  show "list_all plain_char (show_positive x)" if "100000 \<le> n"
  proof -
    have "1 / 10 ^ 4 \<le> fl (1 / 10 ^ 4)" by code_simp
    also have "\<dots> \<le> x"
    proof -
      have "(100000 :: rat) \<le> of_int n" using that by (metis of_int_le_iff of_int_numeral)
      then have "1 / 10 ^ 4 \<le> of_int n / (10 ^ 9 :: rat)" by (simp add: field_simps)
      then show ?thesis unfolding x_def by (rule fl_mono)
    qed
    finally have "- 3 \<le> dec_point x" by (rule dec_point_ge)
    then show ?thesis unfolding shown using sp d3 by (intro layout_plain [OF ds]) auto
  qed
  show "\<exists>a b. show_positive x = a @ CHR ''e'' # b \<and> list_all plain_char a \<and> a \<noteq> [] \<and> list_all number_char b"
    if "n < 100000"
  proof -
    have lt: "x < 1 / 10 ^ 4"
    proof -
      have "n \<le> 99999" using that by simp
      then have "(of_int n :: rat) \<le> 99999" by (metis of_int_le_iff of_int_numeral)
      then have "of_int n / (10 ^ 9 :: rat) \<le> 99999 / 10 ^ 9" by (simp add: field_simps)
      then have "x \<le> fl (99999 / 10 ^ 9)" unfolding x_def by (rule fl_mono)
      also have "\<dots> < 1 / 10 ^ 4" by code_simp
      finally show ?thesis .
    qed
    then have d: "dec_point x \<le> - 4" by (rule dec_point_small)
    have "?p \<le> - 4"
    proof (rule ccontr)
      assume "\<not> ?p \<le> - 4"
      with sp d have "dec_point x = - 4" "x = fl (10 powi dec_point x)" by auto
      then have "x = fl (1 / 10 ^ 4)" by (simp add: power_int_def power_one_over)
      moreover have "1 / 10 ^ 4 \<le> fl (1 / 10 ^ 4)" by code_simp
      ultimately show False using lt by simp
    qed
    then show ?thesis unfolding shown by (intro layout_exponent [OF ds ne])
  qed
qed

end

