(* ===== verification/Geo_Format.thy ===== *)
theory Geo_Format
  imports Py_Json Degree_Text Geo_Types
begin

section \<open>GeoJSON and WKT\<close>

text \<open>
  The parsers and printers of \<open>archerdb/types.py\<close> for points and polygons.  A GeoJSON
  argument is a text, for \<open>json.loads\<close> (the parameter \<open>loads\<close>; \<open>None\<close> is a
  \<open>JSONDecodeError\<close>), or a JSON value.  The regular expressions are written out as the
  matching they describe: no character class of theirs overlaps with what follows it, so
  there is nothing to backtrack over.
\<close>

datatype geo_exn = GeoFormatError | Foreign py_exn

definition foreign :: "(py_exn, 'a) result \<Rightarrow> (geo_exn, 'a) result" where
  "foreign r = (case r of Inl e \<Rightarrow> Inl (Foreign e) | Inr x \<Rightarrow> Inr x)"

datatype geo_format = NATIVE | GEOJSON | WKT

fun geo_format_code :: "geo_format \<Rightarrow> int" where
  "geo_format_code NATIVE = 0"
| "geo_format_code GEOJSON = 1"
| "geo_format_code WKT = 2"

interpretation format_enum: int_enum "[NATIVE, GEOJSON, WKT]" geo_format_code
proof
  show "x \<in> set [NATIVE, GEOJSON, WKT]" for x by (cases x) simp_all
qed simp

subsection \<open>Coordinates\<close>

definition degrees_to_nanodegrees :: "pyfloat \<Rightarrow> (py_exn, int) result" where
  "degrees_to_nanodegrees degrees = bindE (times_int degrees NANODEGREES_PER_DEGREE) py_int"

definition nanodegrees_to_degrees :: "int \<Rightarrow> (py_exn, pyfloat) result" where
  "nanodegrees_to_degrees nanodegrees = int_truediv nanodegrees NANODEGREES_PER_DEGREE"

definition validate_latitude :: "pyfloat \<Rightarrow> (geo_exn, unit) result" where
  "validate_latitude lat =
     (if f_lt lat (f_neg LAT_MAX) \<or> f_lt LAT_MAX lat then Inl GeoFormatError else Inr ())"

definition validate_longitude :: "pyfloat \<Rightarrow> (geo_exn, unit) result" where
  "validate_longitude lon =
     (if f_lt lon (f_neg LON_MAX) \<or> f_lt LON_MAX lon then Inl GeoFormatError else Inr ())"

text \<open>What every parser does with a longitude and a latitude it has read.\<close>

definition checked_point :: "pyfloat \<Rightarrow> pyfloat \<Rightarrow> (geo_exn, int \<times> int) result" where
  "checked_point lon lat =
     bindE (validate_latitude lat) (\<lambda>_.
     bindE (validate_longitude lon) (\<lambda>_.
     bindE (foreign (degrees_to_nanodegrees lat)) (\<lambda>la.
     bindE (foreign (degrees_to_nanodegrees lon)) (\<lambda>lo.
     Inr (la, lo)))))"

subsection \<open>GeoJSON\<close>

datatype geo_input = GText string | GValue json

type_synonym json_loads = "string \<Rightarrow> json option"

definition load_geojson :: "json_loads \<Rightarrow> geo_input \<Rightarrow> (geo_exn, (string \<times> json) list) result" where
  "load_geojson loads inp =
     (case (case inp of GText s \<Rightarrow> loads s | GValue j \<Rightarrow> Some j) of
        Some (JObj d) \<Rightarrow> Inr d
      | _ \<Rightarrow> Inl GeoFormatError)"

definition json_point :: "json \<Rightarrow> json \<Rightarrow> (geo_exn, int \<times> int) result" where
  "json_point x y =
     bindE (foreign (json_float x)) (\<lambda>lon.
     bindE (foreign (json_float y)) (\<lambda>lat.
     checked_point lon lat))"

definition parse_geojson_point :: "json_loads \<Rightarrow> geo_input \<Rightarrow> (geo_exn, int \<times> int) result" where
  "parse_geojson_point loads inp =
     bindE (load_geojson loads inp) (\<lambda>d.
     if map_of d ''type'' \<noteq> Some (JStr ''Point'') then Inl GeoFormatError
     else case map_of d ''coordinates'' of
            Some (JList (x # y # _)) \<Rightarrow> json_point x y
          | _ \<Rightarrow> Inl GeoFormatError)"

fun json_len :: "json \<Rightarrow> (py_exn, nat) result" where
  "json_len (JList xs) = Inr (length xs)"
| "json_len (JStr s) = Inr (length s)"
| "json_len (JObj d) = Inr (length d)"
| "json_len _ = Inl TypeError"

definition parse_ring :: "json \<Rightarrow> (geo_exn, (int \<times> int) list) result" where
  "parse_ring ring =
     bindE (foreign (json_len ring)) (\<lambda>n.
     if n < 3 then Inl GeoFormatError
     else
       bindE (foreign (json_items ring)) (\<lambda>points.
       mapE (\<lambda>p. case p of JList (x # y # _) \<Rightarrow> json_point x y | _ \<Rightarrow> Inl GeoFormatError) points))"

definition parse_geojson_polygon ::
    "json_loads \<Rightarrow> geo_input \<Rightarrow> (geo_exn, (int \<times> int) list \<times> (int \<times> int) list list) result" where
  "parse_geojson_polygon loads inp =
     bindE (load_geojson loads inp) (\<lambda>d.
     if map_of d ''type'' \<noteq> Some (JStr ''Polygon'') then Inl GeoFormatError
     else case map_of d ''coordinates'' of
            Some (JList (ring # rings)) \<Rightarrow>
              bindE (parse_ring ring) (\<lambda>exterior.
              bindE (mapE parse_ring rings) (\<lambda>holes.
              Inr (exterior, holes)))
          | _ \<Rightarrow> Inl GeoFormatError)"

definition degree_pair :: "int \<times> int \<Rightarrow> (py_exn, pyfloat \<times> pyfloat) result" where
  "degree_pair p =
     bindE (nanodegrees_to_degrees (snd p)) (\<lambda>lon.
     bindE (nanodegrees_to_degrees (fst p)) (\<lambda>lat.
     Inr (lon, lat)))"

definition to_geojson_point :: "int \<Rightarrow> int \<Rightarrow> (py_exn, json) result" where
  "to_geojson_point la lo =
     bindE (degree_pair (la, lo)) (\<lambda>(lon, lat).
     Inr (JObj [(''type'', JStr ''Point''), (''coordinates'', JList [JFloat lon, JFloat lat])]))"

definition ring_to_coords :: "(int \<times> int) list \<Rightarrow> (py_exn, json) result" where
  "ring_to_coords ring =
     bindE (mapE degree_pair ring) (\<lambda>ps.
     Inr (JList (map (\<lambda>(lon, lat). JList [JFloat lon, JFloat lat]) ps)))"

definition to_geojson_polygon ::
    "(int \<times> int) list \<Rightarrow> (int \<times> int) list list \<Rightarrow> (py_exn, json) result" where
  "to_geojson_polygon exterior holes =
     bindE (mapE ring_to_coords (exterior # holes)) (\<lambda>rings.
     Inr (JObj [(''type'', JStr ''Polygon''), (''coordinates'', JList rings)]))"

subsection \<open>WKT\<close>

text \<open>A word in any case, and the number pattern \<open>-?[\d.]+\<close> of points.\<close>

definition eat_word :: "string \<Rightarrow> string \<Rightarrow> string option" where
  "eat_word w s = (if py_lower (take (length w) s) = py_lower w then Some (drop (length w) s) else None)"

definition eat_char :: "char \<Rightarrow> string \<Rightarrow> string option" where
  "eat_char c s = (case s of x # t \<Rightarrow> if x = c then Some t else None | [] \<Rightarrow> None)"

definition match_number :: "string \<Rightarrow> (string \<times> string) option" where
  "match_number s =
     (let (sign, r) = (case s of c # t \<Rightarrow> if c = CHR ''-'' then (''-'', t) else ([], s) | [] \<Rightarrow> ([], []))
      in if takeWhile plain_char r = [] then None
         else Some (sign @ takeWhile plain_char r, dropWhile plain_char r))"

text \<open>\<open>\s+\<close>, and the optional third coordinate \<open>(?:\s+[-\d.]+)?\<close>.\<close>

definition eat_spaces1 :: "string \<Rightarrow> string option" where
  "eat_spaces1 s = (case s of c # t \<Rightarrow> if is_space c then Some (lstrip t) else None | [] \<Rightarrow> None)"

definition eat_altitude :: "string \<Rightarrow> string" where
  "eat_altitude s =
     (case eat_spaces1 s of
        None \<Rightarrow> s
      | Some r \<Rightarrow>
          (let q = (\<lambda>c. plain_char c \<or> c = CHR ''-'')
           in if takeWhile q r = [] then s else dropWhile q r))"

definition match_wkt_point :: "string \<Rightarrow> (string \<times> string) option" where
  "match_wkt_point wkt =
     Option.bind (eat_word ''POINT'' (lstrip wkt)) (\<lambda>r.
     Option.bind (eat_char (CHR ''('') (lstrip r)) (\<lambda>r.
     Option.bind (match_number (lstrip r)) (\<lambda>(x, r).
     Option.bind (eat_spaces1 r) (\<lambda>r.
     Option.bind (match_number r) (\<lambda>(y, r).
     Option.bind (eat_char (CHR '')'') (lstrip (eat_altitude r))) (\<lambda>r.
     if list_all is_space r then Some (x, y) else None))))))"

definition parse_wkt_point :: "string \<Rightarrow> (geo_exn, int \<times> int) result" where
  "parse_wkt_point wkt =
     (case match_wkt_point wkt of
        None \<Rightarrow> Inl GeoFormatError
      | Some (x, y) \<Rightarrow>
          bindE (foreign (float_of_string x)) (\<lambda>lon.
          bindE (foreign (float_of_string y)) (\<lambda>lat.
          checked_point lon lat)))"

definition wkt_ring_point :: "string \<Rightarrow> (geo_exn, int \<times> int) result" where
  "wkt_ring_point point_str =
     (case split_words (strip point_str) of
        x # y # _ \<Rightarrow>
          bindE (foreign (float_of_string x)) (\<lambda>lon.
          bindE (foreign (float_of_string y)) (\<lambda>lat.
          checked_point lon lat))
      | _ \<Rightarrow> Inl GeoFormatError)"

definition parse_wkt_ring :: "string \<Rightarrow> (geo_exn, (int \<times> int) list) result" where
  "parse_wkt_ring ring_str =
     (let s = strip ring_str in
      if s = [] \<or> hd s \<noteq> CHR ''('' \<or> last s \<noteq> CHR '')'' then Inl GeoFormatError
      else
        let body = strip (butlast (tl s)) in
        if body = [] then Inl GeoFormatError
        else
          bindE (mapE wkt_ring_point (split_on (CHR '','') body)) (\<lambda>points.
          if length points < 3 then Inl GeoFormatError else Inr points))"

text \<open>The rings between balanced parentheses; \<open>i\<close> is the index of the next character.\<close>

fun scan_rings :: "string \<Rightarrow> nat \<Rightarrow> int \<Rightarrow> nat \<Rightarrow> string \<Rightarrow> string list" where
  "scan_rings whole i depth start [] = []"
| "scan_rings whole i depth start (c # cs) =
     (if c = CHR ''('' then scan_rings whole (i + 1) (depth + 1) (if depth = 0 then i else start) cs
      else if c = CHR '')'' then
        (if depth - 1 = 0 then slice start (i + 1) whole # scan_rings whole (i + 1) (depth - 1) start cs
         else scan_rings whole (i + 1) (depth - 1) start cs)
      else scan_rings whole (i + 1) depth start cs)"

text \<open>\<open>^\s*POLYGON\s*\(\s*(.*)\s*\)\s*$\<close>: the group ends at the last closing parenthesis.\<close>

definition match_wkt_polygon :: "string \<Rightarrow> string option" where
  "match_wkt_polygon wkt =
     Option.bind (eat_word ''POLYGON'' (lstrip wkt)) (\<lambda>r.
     Option.bind (eat_char (CHR ''('') (lstrip r)) (\<lambda>r.
     let t = rstrip r in
     if t = [] \<or> last t \<noteq> CHR '')'' then None else Some (lstrip (butlast t))))"

definition parse_wkt_polygon :: "string \<Rightarrow> (geo_exn, (int \<times> int) list \<times> (int \<times> int) list list) result" where
  "parse_wkt_polygon wkt =
     (case match_wkt_polygon wkt of
        None \<Rightarrow> Inl GeoFormatError
      | Some body \<Rightarrow>
          let rings_str = strip body in
          (case scan_rings rings_str 0 0 0 rings_str of
             [] \<Rightarrow> Inl GeoFormatError
           | ring # rings \<Rightarrow>
               bindE (parse_wkt_ring ring) (\<lambda>exterior.
               bindE (mapE parse_wkt_ring rings) (\<lambda>holes.
               Inr (exterior, holes)))))"

definition to_wkt_point :: "int \<Rightarrow> int \<Rightarrow> (py_exn, string) result" where
  "to_wkt_point la lo =
     bindE (nanodegrees_to_degrees la) (\<lambda>lat.
     bindE (nanodegrees_to_degrees lo) (\<lambda>lon.
     Inr (''POINT('' @ show_float lon @ '' '' @ show_float lat @ '')'')))"

definition ring_to_wkt :: "(int \<times> int) list \<Rightarrow> (py_exn, string) result" where
  "ring_to_wkt ring =
     bindE (mapE degree_pair ring) (\<lambda>ps.
     Inr (''('' @ join_with '', '' (map (\<lambda>(lon, lat). show_float lon @ '' '' @ show_float lat) ps) @ '')''))"

definition to_wkt_polygon :: "(int \<times> int) list \<Rightarrow> (int \<times> int) list list \<Rightarrow> (py_exn, string) result" where
  "to_wkt_polygon exterior holes =
     bindE (mapE ring_to_wkt (exterior # holes)) (\<lambda>rings.
     Inr (''POLYGON('' @ join_with '', '' rings @ '')''))"

subsection \<open>Coordinates that were stored\<close>

definition deg :: "int \<Rightarrow> rat" where "deg n = fl (of_int n / 10 ^ 9)"

definition reread :: "int \<Rightarrow> int" where "reread n = trunc (fl (deg n * 10 ^ 9))"

definition stored :: "int \<times> int \<Rightarrow> bool" where
  "stored p \<longleftrightarrow> \<bar>fst p\<bar> \<le> 90000000000 \<and> \<bar>snd p\<bar> \<le> 180000000000"

lemma deg_0 [simp]: "deg 0 = 0" by (simp add: deg_def)

lemma deg_minus: "deg (- n) = - deg n" by (simp add: deg_def)

lemma nanodegrees_to_degrees_stored:
  "\<bar>n\<bar> \<le> 180000000000 \<Longrightarrow> nanodegrees_to_degrees n = Inr (Fin (deg n))"
  using int_truediv_small(1) [of 1000000000 n]
  by (simp add: nanodegrees_to_degrees_def NANODEGREES_PER_DEGREE_def deg_def)

lemma degrees_to_nanodegrees_stored:
  assumes "\<bar>n\<bar> \<le> 180000000000"
  shows "degrees_to_nanodegrees (Fin (deg n)) = Inr (reread n)"
proof -
  have "\<bar>deg n\<bar> \<le> 2 ^ 53"
    using int_truediv_small(2) [of 1000000000 n] assms by (simp add: deg_def)
  then have "times_int (Fin (deg n)) 1000000000 = Inr (Fin (fl (deg n * of_int 1000000000)))"
    by (intro times_int_small) simp_all
  then show ?thesis by (simp add: degrees_to_nanodegrees_def NANODEGREES_PER_DEGREE_def reread_def)
qed

text \<open>Truncation loses at most one nanodegree, and only towards zero.\<close>

lemma reread_cases:
  assumes "\<bar>n\<bar> \<le> 180000000000"
  shows "reread n = n \<or> reread n = n - sgn n"
proof -
  let ?v = "fl (deg n * 10 ^ 9)"
  have "\<bar>?v - of_int n\<bar> < 1 / 2"
    using scale_roundtrip_error [of 1000000000 n] assms by (simp add: deg_def)
  then have v: "of_int n - 1 < ?v" "?v < of_int n + 1" by linarith+
  consider "0 < n" | "n = 0" | "n < 0" by linarith
  then show ?thesis
  proof cases
    case 1
    then have "1 \<le> (of_int n :: rat)" by simp
    then have "0 \<le> ?v" using v(1) by linarith
    moreover have "\<lfloor>?v\<rfloor> = n \<or> \<lfloor>?v\<rfloor> = n - 1" using v by linarith
    ultimately show ?thesis using 1 by (simp add: reread_def trunc_def)
  next
    case 2
    then show ?thesis using trunc_of_int [of 0] by (simp add: reread_def)
  next
    case 3
    then have "(of_int n :: rat) \<le> - 1" by (metis of_int_1 of_int_le_iff of_int_minus zle_diff1_eq diff_0 add1_zle_eq add.inverse_inverse)
    then have "?v \<le> 0" using v(2) by linarith
    moreover have "\<lceil>?v\<rceil> = n \<or> \<lceil>?v\<rceil> = n + 1" using v by linarith
    ultimately show ?thesis using 3 by (cases "?v = 0") (auto simp: reread_def trunc_def)
  qed
qed

lemma deg_bound:
  assumes "\<bar>n\<bar> \<le> k * 1000000000" "0 \<le> k" "k \<le> 2 ^ 53"
  shows "\<bar>deg n\<bar> \<le> of_int k"
proof -
  have n: "(of_int n :: rat) \<le> of_int (k * 1000000000)" "of_int (- (k * 1000000000)) \<le> (of_int n :: rat)"
    using assms(1) by (simp_all only: of_int_le_iff abs_le_iff) linarith+
  then have "of_int n / 10 ^ 9 \<le> (of_int k :: rat)" "of_int (- k) \<le> (of_int n / 10 ^ 9 :: rat)"
    by (simp_all add: field_simps)
  then have "deg n \<le> of_int k" "of_int (- k) \<le> deg n"
    unfolding deg_def using assms(2,3) by (auto intro!: fl_le_of_int fl_ge_of_int simp del: of_int_minus)
  then show ?thesis by (simp add: abs_le_iff)
qed

lemma checked_point_stored:
  assumes "stored (a, b)"
  shows "checked_point (Fin (deg b)) (Fin (deg a)) = Inr (reread a, reread b)"
proof -
  have "\<bar>deg a\<bar> \<le> 90" "\<bar>deg b\<bar> \<le> 180"
    using deg_bound [of a 90] deg_bound [of b 180] assms by (simp_all add: stored_def)
  moreover have "\<bar>a\<bar> \<le> 180000000000" "\<bar>b\<bar> \<le> 180000000000" using assms by (simp_all add: stored_def)
  ultimately show ?thesis
    by (simp add: checked_point_def validate_latitude_def validate_longitude_def LAT_MAX_def LON_MAX_def
        degrees_to_nanodegrees_stored foreign_def abs_le_iff not_less minus_le_iff)
qed

lemma degree_pair_stored: "stored (a, b) \<Longrightarrow> degree_pair (a, b) = Inr (Fin (deg b), Fin (deg a))"
  by (simp add: degree_pair_def stored_def nanodegrees_to_degrees_stored)

definition reread_point :: "int \<times> int \<Rightarrow> int \<times> int" where
  "reread_point p = (reread (fst p), reread (snd p))"

definition within_one :: "int \<times> int \<Rightarrow> int \<times> int \<Rightarrow> bool" where
  "within_one p q \<longleftrightarrow> (fst q = fst p \<or> fst q = fst p - sgn (fst p)) \<and> (snd q = snd p \<or> snd q = snd p - sgn (snd p))"

lemma reread_within_one: "stored p \<Longrightarrow> within_one p (reread_point p)"
  using reread_cases [of "fst p"] reread_cases [of "snd p"]
  by (simp add: stored_def within_one_def reread_point_def)

subsection \<open>Round trips of points\<close>

text \<open>The coordinates whose text has no exponent.\<close>

definition plain_nano :: "int \<Rightarrow> bool" where "plain_nano n \<longleftrightarrow> n = 0 \<or> 100000 \<le> \<bar>n\<bar>"

definition show_deg :: "int \<Rightarrow> string" where "show_deg n = show_float (Fin (deg n))"

lemma show_deg_cases:
  assumes "\<bar>n\<bar> \<le> 180000000000"
  shows "\<exists>u. (show_deg n = u \<or> show_deg n = CHR ''-'' # u) \<and> u \<noteq> [] \<and> list_all number_char u \<and>
     (if plain_nano n then list_all plain_char u
      else \<exists>a b. u = a @ CHR ''e'' # b \<and> list_all plain_char a \<and> a \<noteq> [])"
proof -
  have pos: "0 < deg k" if "0 < k" "k \<le> 180000000000" for k
    using ninth_bounds(1) [OF that] by (simp add: deg_def less_le_trans [rotated])
  have shown: "show_positive (deg k) \<noteq> [] \<and> list_all number_char (show_positive (deg k)) \<and>
      (if plain_nano k then list_all plain_char (show_positive (deg k))
       else \<exists>a b. show_positive (deg k) = a @ CHR ''e'' # b \<and> list_all plain_char a \<and> a \<noteq> [])"
    if "0 < k" "k \<le> 180000000000" for k
  proof (cases "plain_nano k")
    case True
    with show_degree_text [OF that] that show ?thesis by (simp add: deg_def plain_nano_def)
  next
    case False
    then have "k < 100000" using that by (simp add: plain_nano_def)
    from show_degree_text(3) [OF that this] show_degree_text(1) [OF that] False show ?thesis
      unfolding deg_def by metis
  qed
  consider "0 < n" | "n = 0" | "0 < - n" by linarith
  then show ?thesis
  proof cases
    case 1
    then have "show_deg n = show_positive (deg n)" using pos [of n] assms by (simp add: show_deg_def)
    with shown [of n] 1 assms show ?thesis by (intro exI [of _ "show_positive (deg n)"]) (cases "plain_nano n"; simp)
  next
    case 2
    then have "show_deg n = ''0.0''" by (simp add: show_deg_def)
    with 2 show ?thesis
      by (intro exI [of _ "''0.0''"]) (simp add: plain_nano_def plain_char_def number_char_def is_digit_def)
  next
    case 3
    have "plain_nano (- n) = plain_nano n" by (simp add: plain_nano_def)
    moreover have "show_deg n = CHR ''-'' # show_positive (deg (- n))"
      using pos [of "- n"] 3 assms by (simp add: show_deg_def deg_minus)
    ultimately show ?thesis using shown [of "- n"] 3 assms by (intro exI [of _ "show_positive (deg (- n))"]) (cases "plain_nano n"; simp)
  qed
qed

lemma show_deg_chars:
  assumes "\<bar>n\<bar> \<le> 180000000000"
  shows "show_deg n \<noteq> []" "list_all number_char (show_deg n)"
proof -
  have "number_char CHR ''-''" by (simp add: number_char_def)
  with show_deg_cases [OF assms] show "show_deg n \<noteq> []" "list_all number_char (show_deg n)" by auto
qed

lemma read_show_deg: "\<bar>n\<bar> \<le> 180000000000 \<Longrightarrow> float_of_string (show_deg n) = Inr (Fin (deg n))"
  using read_show_ninth by (simp add: show_deg_def deg_def)

lemma match_number_text:
  assumes "list_all plain_char u" "u \<noteq> []" "r = [] \<or> \<not> plain_char (hd r)"
  shows "match_number (u @ r) = Some (u, r)" "match_number (CHR ''-'' # u @ r) = Some (CHR ''-'' # u, r)"
proof -
  have "\<forall>c\<in>set u. plain_char c" using assms(1) by (simp add: list_all_iff)
  moreover have "takeWhile plain_char r = []" "dropWhile plain_char r = r" using assms(3) by (cases r; simp)+
  ultimately have cut: "takeWhile plain_char (u @ r) = u" "dropWhile plain_char (u @ r) = r"
    by (simp_all add: takeWhile_append2 dropWhile_append2)
  obtain c t where u: "u = c # t" "plain_char c" using assms(1,2) by (cases u) auto
  then have "c \<noteq> CHR ''-''" by (auto simp: plain_char_def is_digit_def)
  with cut u(1) assms(2) show "match_number (u @ r) = Some (u, r)"
    "match_number (CHR ''-'' # u @ r) = Some (CHR ''-'' # u, r)"
    by (simp_all add: match_number_def)
qed

lemma match_number_deg:
  assumes "\<bar>n\<bar> \<le> 180000000000" "r = [] \<or> \<not> plain_char (hd r)"
  shows "if plain_nano n then match_number (show_deg n @ r) = Some (show_deg n, r)
         else \<exists>x t. match_number (show_deg n @ r) = Some (x, CHR ''e'' # t)"
proof -
  obtain u where u: "show_deg n = u \<or> show_deg n = CHR ''-'' # u" "u \<noteq> []"
    "if plain_nano n then list_all plain_char u else \<exists>a b. u = a @ CHR ''e'' # b \<and> list_all plain_char a \<and> a \<noteq> []"
    using show_deg_cases [OF assms(1)] by blast
  show ?thesis
  proof (cases "plain_nano n")
    case True
    with u match_number_text [of u r] assms(2) show ?thesis by auto
  next
    case False
    then obtain a b where a: "u = a @ CHR ''e'' # b" "list_all plain_char a" "a \<noteq> []" using u(3) by auto
    have "\<not> plain_char CHR ''e''" by (simp add: plain_char_def is_digit_def)
    then show ?thesis
      using match_number_text [OF a(2,3), of "CHR ''e'' # b @ r"] u(1) a(1) False by auto
  qed
qed

lemma lstrip_head: "s \<noteq> [] \<Longrightarrow> \<not> is_space (hd s) \<Longrightarrow> lstrip s = s"
  by (cases s) (simp_all add: lstrip_def)

lemma show_deg_head:
  assumes "\<bar>n\<bar> \<le> 180000000000"
  shows "lstrip (show_deg n @ r) = show_deg n @ r"
proof -
  have "number_char (hd (show_deg n))" using show_deg_chars [OF assms] by (cases "show_deg n") auto
  then show ?thesis
    using number_char_plain show_deg_chars(1) [OF assms] by (intro lstrip_head) auto
qed

lemma match_wkt_point_deg:
  assumes "stored (a, b)"
  shows "match_wkt_point (''POINT('' @ show_deg b @ '' '' @ show_deg a @ '')'') =
     (if plain_nano a \<and> plain_nano b then Some (show_deg b, show_deg a) else None)"
proof -
  have n: "\<bar>a\<bar> \<le> 180000000000" "\<bar>b\<bar> \<le> 180000000000" using assms by (simp_all add: stored_def)
  have sp: "is_space CHR '' ''" "\<not> is_space CHR ''P''" "\<not> is_space CHR ''(''" "\<not> is_space CHR '')''" "\<not> is_space CHR ''e''"
    by (simp_all add: is_space_def)
  have np: "\<not> plain_char CHR '' ''" "\<not> plain_char CHR '')''"
    by (simp_all add: plain_char_def is_digit_def)
  have point: "lstrip (''POINT('' @ s) = ''POINT('' @ s" "eat_word ''POINT'' (''POINT('' @ s) = Some (''('' @ s)"
    "lstrip (''('' @ s) = ''('' @ s" "eat_char CHR ''('' (''('' @ s) = Some s" for s
    by (simp_all add: lstrip_def sp eat_word_def eat_char_def)
  have close: "eat_altitude '')'' = '')''" "lstrip '')'' = '')''" "eat_char CHR '')'' '')'' = Some []"
    by (simp_all add: eat_altitude_def eat_spaces1_def lstrip_def eat_char_def sp)
  have space: "eat_spaces1 ('' '' @ show_deg a @ s) = Some (show_deg a @ s)" for s
    by (simp add: eat_spaces1_def sp show_deg_head [OF n(1)])
  have stuck: "eat_spaces1 (CHR ''e'' # t) = None" "lstrip (eat_altitude (CHR ''e'' # t)) = CHR ''e'' # t"
    "eat_char CHR '')'' (CHR ''e'' # t) = None" for t
    by (simp_all add: eat_spaces1_def eat_altitude_def lstrip_def eat_char_def sp)
  have first: "match_wkt_point (''POINT('' @ show_deg b @ r) =
      Option.bind (match_number (show_deg b @ r)) (\<lambda>(x, r).
      Option.bind (eat_spaces1 r) (\<lambda>r.
      Option.bind (match_number r) (\<lambda>(y, r).
      Option.bind (eat_char (CHR '')'') (lstrip (eat_altitude r))) (\<lambda>r.
      if list_all is_space r then Some (x, y) else None))))" for r
    unfolding match_wkt_point_def point bind.bind_lunit show_deg_head [OF n(2)] ..
  note lon = match_number_deg [OF n(2), of "'' '' @ show_deg a @ '')''"]
  note lat = match_number_deg [OF n(1), of "'')''"]
  show ?thesis
  proof (cases "plain_nano b")
    case False
    then obtain x t where "match_number (show_deg b @ '' '' @ show_deg a @ '')'') = Some (x, CHR ''e'' # t)"
      using lon np by auto
    then show ?thesis unfolding first using False by (simp add: stuck)
  next
    case True
    then have lon: "match_number (show_deg b @ '' '' @ show_deg a @ '')'') = Some (show_deg b, '' '' @ show_deg a @ '')'')"
      using lon np by simp
    show ?thesis
    proof (cases "plain_nano a")
      case False
      then obtain x t where "match_number (show_deg a @ '')'') = Some (x, CHR ''e'' # t)"
        using lat np by auto
      then show ?thesis unfolding first lon using False by (simp add: space [simplified] stuck)
    next
      case a: True
      then have "match_number (show_deg a @ '')'') = Some (show_deg a, '')'')" using lat np by simp
      then show ?thesis unfolding first lon using a True by (simp add: space [simplified] close)
    qed
  qed
qed

lemma to_wkt_point_stored:
  "stored (a, b) \<Longrightarrow> to_wkt_point a b = Inr (''POINT('' @ show_deg b @ '' '' @ show_deg a @ '')'')"
  by (simp add: to_wkt_point_def stored_def nanodegrees_to_degrees_stored show_deg_def)

lemma read_stored_point:
  assumes "stored (a, b)"
  shows "bindE (foreign (float_of_string (show_deg b))) (\<lambda>lon.
         bindE (foreign (float_of_string (show_deg a))) (\<lambda>lat. checked_point lon lat)) = Inr (reread_point (a, b))"
proof -
  have "\<bar>a\<bar> \<le> 180000000000" "\<bar>b\<bar> \<le> 180000000000" using assms by (simp_all add: stored_def)
  then show ?thesis
    using checked_point_stored [OF assms] by (simp add: read_show_deg foreign_def reread_point_def)
qed

lemma geojson_point_reread:
  assumes "stored (a, b)"
  shows "to_geojson_point a b = Inr (JObj [(''type'', JStr ''Point''), (''coordinates'', JList [JFloat (Fin (deg b)), JFloat (Fin (deg a))])])"
    and "parse_geojson_point loads (GValue (JObj [(''type'', JStr ''Point''),
           (''coordinates'', JList [JFloat (Fin (deg b)), JFloat (Fin (deg a))])])) = Inr (reread_point (a, b))"
  using degree_pair_stored [OF assms] checked_point_stored [OF assms]
  by (simp_all add: to_geojson_point_def parse_geojson_point_def load_geojson_def json_point_def foreign_def reread_point_def)

text \<open>A stored point printed as GeoJSON is read back within one nanodegree in each
  coordinate: the parser truncates the product with \<open>10 ^ 9\<close>, so it may fall one short,
  towards zero, and never more.\<close>

theorem geojson_point_roundtrip:
  assumes "stored (a, b)"
  shows "\<exists>j q. to_geojson_point a b = Inr j \<and> parse_geojson_point loads (GValue j) = Inr q \<and> within_one (a, b) q"
  using geojson_point_reread [OF assms] reread_within_one [OF assms] by blast

lemma geojson_point_roundtrip_witness:
  "\<exists>j q. to_geojson_point 37774900001 (- 122419400001) = Inr j \<and>
     parse_geojson_point (\<lambda>_. None) (GValue j) = Inr q \<and> within_one (37774900001, - 122419400001) q"
  using geojson_point_roundtrip [of 37774900001 "- 122419400001" "\<lambda>_. None"] by (simp add: stored_def)

text \<open>The round trip is not exact: a latitude of fifteen nanodegrees comes back as fourteen,
  while the builders of events, which round, keep it.\<close>

theorem geojson_loses_a_nanodegree:
  "bindE (to_geojson_point 15 0) (\<lambda>j. case parse_geojson_point loads (GValue j) of Inr q \<Rightarrow> Inr q | Inl e \<Rightarrow> Inl ValueError)
     = Inr (14, 0) \<and>
   bindE (nano_to_degrees 15) degrees_to_nano = Inr 15"
proof -
  have "reread 15 = 14" "reread 0 = 0" by code_simp+
  moreover have "bindE (nano_to_degrees 15) degrees_to_nano = Inr 15"
    using scale_roundtrip [of 1000000000 15]
    by (simp add: nano_to_degrees_def degrees_to_nano_def [abs_def] NANODEGREES_PER_DEGREE_def)
  ultimately show ?thesis
    using geojson_point_reread(1) [of 15 0] geojson_point_reread(2) [of 15 0 loads] by (simp add: stored_def reread_point_def)
qed

text \<open>A stored point printed as WKT is read back like its GeoJSON exactly when no coordinate is
  below a ten-thousandth of a degree without being zero: such a coordinate is printed with
  an exponent, which the pattern of the parser does not know.\<close>

theorem wkt_point_roundtrip:
  assumes "stored (a, b)"
  shows "\<exists>s j. to_wkt_point a b = Inr s \<and> to_geojson_point a b = Inr j \<and>
    parse_wkt_point s = (if plain_nano a \<and> plain_nano b then parse_geojson_point loads (GValue j) else Inl GeoFormatError)"
proof -
  let ?s = "''POINT('' @ show_deg b @ '' '' @ show_deg a @ '')''"
  have "parse_wkt_point ?s = (if plain_nano a \<and> plain_nano b then Inr (reread_point (a, b)) else Inl GeoFormatError)"
    using read_stored_point [OF assms] unfolding parse_wkt_point_def match_wkt_point_deg [OF assms] by simp
  then show ?thesis using to_wkt_point_stored [OF assms] geojson_point_reread [OF assms] by auto
qed

lemma wkt_point_roundtrip_witness:
  "\<exists>s. to_wkt_point 51500000000 99999 = Inr s \<and> parse_wkt_point s = Inl GeoFormatError"
  using wkt_point_roundtrip [of 51500000000 99999 "\<lambda>_. None"] by (auto simp: stored_def plain_nano_def)

subsection \<open>Round trips of polygons\<close>

definition ring_text :: "(int \<times> int) list \<Rightarrow> string" where
  "ring_text ring = join_with '', '' (map (\<lambda>(a, b). show_deg b @ '' '' @ show_deg a) ring)"

lemma mapE_degree_pair:
  "\<forall>p\<in>set ring. stored p \<Longrightarrow> mapE degree_pair ring = Inr (map (\<lambda>(a, b). (Fin (deg b), Fin (deg a))) ring)"
  by (rule mapE_all_ok) (auto simp: degree_pair_stored)

lemma ring_to_wkt_stored:
  "\<forall>p\<in>set ring. stored p \<Longrightarrow> ring_to_wkt ring = Inr (''('' @ ring_text ring @ '')'')"
  by (simp add: ring_to_wkt_def mapE_degree_pair ring_text_def show_deg_def comp_def split_def)

lemma parse_ring_stored:
  assumes "\<forall>p\<in>set ring. stored p" "3 \<le> length ring"
  shows "bindE (foreign (ring_to_coords ring)) parse_ring = Inr (map reread_point ring)"
proof -
  have "mapE (\<lambda>p. case p of JList (x # y # _) \<Rightarrow> json_point x y | _ \<Rightarrow> Inl GeoFormatError)
      (map (\<lambda>(a, b). JList [JFloat (Fin (deg b)), JFloat (Fin (deg a))]) ring) = Inr (map reread_point ring)"
    using assms(1)
  proof (induction ring)
    case (Cons p ring)
    obtain a b where p: "p = (a, b)" by (cases p)
    then have "json_point (JFloat (Fin (deg b))) (JFloat (Fin (deg a))) = Inr (reread_point p)"
      using Cons.prems checked_point_stored [of a b] by (simp add: json_point_def foreign_def reread_point_def)
    with Cons p show ?case by simp
  qed simp
  moreover have "ring_to_coords ring = Inr (JList (map (\<lambda>(a, b). JList [JFloat (Fin (deg b)), JFloat (Fin (deg a))]) ring))"
    using assms(1) by (simp add: ring_to_coords_def mapE_degree_pair comp_def split_def)
  ultimately show ?thesis using assms(2) by (simp add: parse_ring_def foreign_def)
qed

lemma split_words_pair:
  assumes "x \<noteq> []" "\<forall>c\<in>set x. \<not> is_space c" "y \<noteq> []" "\<forall>c\<in>set y. \<not> is_space c"
  shows "split_words (x @ '' '' @ y) = [x, y]"
proof -
  have word: "split_words (w @ r) = w # split_words r"
    if "w \<noteq> []" "\<forall>c\<in>set w. \<not> is_space c" "r = [] \<or> is_space (hd r)" for w r
  proof -
    have "lstrip (w @ r) = w @ r" using that(1,2) by (intro lstrip_head) auto
    moreover have "takeWhile (\<lambda>c. \<not> is_space c) r = []" "dropWhile (\<lambda>c. \<not> is_space c) r = r"
      using that(3) by (cases r; simp)+
    ultimately show ?thesis
      using that(1,2) by (subst split_words.simps) (simp add: Let_def takeWhile_append2 dropWhile_append2)
  qed
  have sp: "is_space CHR '' ''" by (simp add: is_space_def)
  have same: "split_words s = split_words t" if "lstrip s = lstrip t" for s t
    using that by (subst (1 2) split_words.simps) simp
  have "split_words ('' '' @ y) = split_words y" by (rule same) (simp add: lstrip_def sp)
  moreover have "split_words y = [y]" using word [of y "[]"] assms(3,4) by (simp add: split_words.simps [of "[]"] lstrip_def)
  ultimately show ?thesis using word [OF assms(1,2), of "'' '' @ y"] sp by simp
qed

lemma strip_ends:
  assumes "s \<noteq> []" "\<not> is_space (hd s)" "\<not> is_space (last s)"
  shows "strip s = s" "rstrip s = s"
proof -
  have "rev s \<noteq> []" "\<not> is_space (hd (rev s))" using assms by (simp_all add: hd_rev)
  then have "dropWhile is_space (rev s) = rev s" by (cases "rev s") auto
  then show "rstrip s = s" by (simp add: rstrip_def)
  then show "strip s = s" using lstrip_head assms(1,2) by (simp add: strip_def)
qed

text \<open>The text of a vertex: no space at its ends, no comma and no parenthesis.\<close>

definition vertex_text :: "int \<times> int \<Rightarrow> string" where
  "vertex_text p = show_deg (snd p) @ '' '' @ show_deg (fst p)"

lemma vertex_text_chars:
  assumes "stored p"
  shows "vertex_text p \<noteq> []" "\<not> is_space (hd (vertex_text p))" "\<not> is_space (last (vertex_text p))"
    "CHR '','' \<notin> set (vertex_text p)" "CHR ''('' \<notin> set (vertex_text p)" "CHR '')'' \<notin> set (vertex_text p)"
proof -
  have n: "\<bar>fst p\<bar> \<le> 180000000000" "\<bar>snd p\<bar> \<le> 180000000000" using assms by (simp_all add: stored_def)
  have c: "number_char c" if "c \<in> set (show_deg (fst p)) \<union> set (show_deg (snd p))" for c
    using that show_deg_chars(2) [OF n(1)] show_deg_chars(2) [OF n(2)] by (auto simp: list_all_iff)
  have no: "\<not> number_char CHR '',''" "\<not> number_char CHR ''(''" "\<not> number_char CHR '')''"
    by (simp_all add: number_char_def is_digit_def)
  show "vertex_text p \<noteq> []" by (simp add: vertex_text_def)
  show "\<not> is_space (hd (vertex_text p))" "\<not> is_space (last (vertex_text p))"
    using c number_char_plain show_deg_chars(1) [OF n(1)] show_deg_chars(1) [OF n(2)]
    by (simp_all add: vertex_text_def)
  show "CHR '','' \<notin> set (vertex_text p)" "CHR ''('' \<notin> set (vertex_text p)" "CHR '')'' \<notin> set (vertex_text p)"
    using c no by (auto simp: vertex_text_def)
qed

lemma wkt_ring_point_stored:
  assumes "stored p"
  shows "wkt_ring_point (vertex_text p) = Inr (reread_point p)" "wkt_ring_point (CHR '' '' # vertex_text p) = Inr (reread_point p)"
proof -
  obtain a b where p: "p = (a, b)" by (cases p)
  have n: "\<bar>a\<bar> \<le> 180000000000" "\<bar>b\<bar> \<le> 180000000000" using assms p by (simp_all add: stored_def)
  have "\<forall>c\<in>set (show_deg a). \<not> is_space c" "\<forall>c\<in>set (show_deg b). \<not> is_space c"
    using show_deg_chars(2) [OF n(1)] show_deg_chars(2) [OF n(2)] number_char_plain by (auto simp: list_all_iff)
  then have "split_words (vertex_text p) = [show_deg b, show_deg a]"
    using show_deg_chars(1) [OF n(1)] show_deg_chars(1) [OF n(2)] p by (simp add: vertex_text_def split_words_pair del: append.simps)
  moreover have "strip (vertex_text p) = vertex_text p" using vertex_text_chars(1-3) [OF assms] by (rule strip_ends)
  moreover have "strip (CHR '' '' # vertex_text p) = strip (vertex_text p)" by (simp add: strip_def lstrip_def is_space_def)
  ultimately show "wkt_ring_point (vertex_text p) = Inr (reread_point p)"
    "wkt_ring_point (CHR '' '' # vertex_text p) = Inr (reread_point p)"
    using read_stored_point [of a b] assms p by (simp_all add: wkt_ring_point_def)
qed

lemma split_on_join:
  "\<forall>q\<in>set (p # ps). CHR '','' \<notin> set q \<Longrightarrow>
     split_on (CHR '','') (join_with '', '' (p # ps)) = p # map (\<lambda>q. CHR '' '' # q) ps"
proof (induction ps arbitrary: p)
  case Nil
  then show ?case by (simp add: split_on_plain)
next
  case (Cons q ps)
  have "split_on (CHR '','') (CHR '' '' # s) = (CHR '' '' # hd (split_on (CHR '','') s)) # tl (split_on (CHR '','') s)" for s
    by (cases s) (auto split: list.splits)
  moreover have "split_on (CHR '','') (join_with '', '' (q # ps)) = q # map (\<lambda>q. CHR '' '' # q) ps"
    using Cons by simp
  ultimately show ?case using Cons.prems split_on_cut [of "CHR '',''" p] by simp
qed

lemma ring_text_vertices: "ring_text ring = join_with '', '' (map vertex_text ring)"
  by (simp add: ring_text_def vertex_text_def [abs_def] split_def)

lemma join_with_Cons: "ps \<noteq> [] \<Longrightarrow> join_with sep (p # ps) = p @ sep @ join_with sep ps"
  by (cases ps) simp_all

lemma join_with_last: "ps \<noteq> [] \<Longrightarrow> last ps \<noteq> [] \<Longrightarrow> last (join_with sep ps) = last (last ps) \<and> join_with sep ps \<noteq> []"
proof (induction ps)
  case (Cons p ps)
  then show ?case by (cases "ps = []") (simp_all add: join_with_Cons)
qed simp

lemma join_with_hd: "p \<noteq> [] \<Longrightarrow> hd (join_with sep (p # ps)) = hd p"
  by (cases ps) simp_all

lemma join_with_set: "c \<in> set (join_with sep ps) \<Longrightarrow> c \<in> set sep \<or> (\<exists>p\<in>set ps. c \<in> set p)"
proof (induction ps)
  case (Cons p ps)
  then show ?case by (cases "ps = []") (auto simp: join_with_Cons)
qed simp

lemma ring_text_chars:
  assumes "\<forall>p\<in>set ring. stored p" "ring \<noteq> []"
  shows "strip (ring_text ring) = ring_text ring" "ring_text ring \<noteq> []"
    "CHR ''('' \<notin> set (ring_text ring)" "CHR '')'' \<notin> set (ring_text ring)"
proof -
  obtain p ps where ring: "ring = p # ps" using assms(2) by (cases ring) auto
  have p: "stored p" "stored (last ring)" using assms ring by auto
  have last: "last (map vertex_text ring) = vertex_text (last ring)" using assms(2) by (rule last_map)
  have l: "last (ring_text ring) = last (vertex_text (last ring))" "ring_text ring \<noteq> []"
    using join_with_last [of "map vertex_text ring" "'', ''"] assms(2) vertex_text_chars(1) [OF p(2)] last
    by (simp_all add: ring_text_vertices)
  have h: "hd (ring_text ring) = hd (vertex_text p)"
    using join_with_hd [OF vertex_text_chars(1) [OF p(1)]] by (simp add: ring_text_vertices ring)
  show "strip (ring_text ring) = ring_text ring"
    using l h vertex_text_chars(2) [OF p(1)] vertex_text_chars(3) [OF p(2)] by (intro strip_ends) simp_all
  show "ring_text ring \<noteq> []" by (rule l(2))
  show "CHR ''('' \<notin> set (ring_text ring)" "CHR '')'' \<notin> set (ring_text ring)"
    using join_with_set [of _ "'', ''" "map vertex_text ring"] vertex_text_chars(5,6) assms(1)
    by (fastforce simp: ring_text_vertices)+
qed

lemma parse_wkt_ring_stored:
  assumes "\<forall>p\<in>set ring. stored p" "3 \<le> length ring"
  shows "parse_wkt_ring (''('' @ ring_text ring @ '')'') = Inr (map reread_point ring)"
proof -
  obtain p ps where ring: "ring = p # ps" using assms(2) by (cases ring) auto
  have ne: "ring \<noteq> []" using ring by simp
  note chars = ring_text_chars [OF assms(1) ne]
  have whole: "strip (''('' @ ring_text ring @ '')'') = ''('' @ ring_text ring @ '')''"
    by (rule strip_ends) (simp_all add: is_space_def)
  have body: "butlast (tl (''('' @ ring_text ring @ '')'')) = ring_text ring" by simp
  have "split_on (CHR '','') (ring_text ring) = vertex_text p # map (\<lambda>q. CHR '' '' # q) (map vertex_text ps)"
    using assms(1) vertex_text_chars(4) unfolding ring_text_vertices ring list.map by (intro split_on_join) auto
  moreover have "mapE wkt_ring_point (vertex_text p # map (\<lambda>q. CHR '' '' # q) (map vertex_text ps)) = Inr (map reread_point ring)"
  proof -
    have "mapE wkt_ring_point (map (\<lambda>q. CHR '' '' # q) (map vertex_text qs)) = Inr (map reread_point qs)"
      if "\<forall>q\<in>set qs. stored q" for qs
      using that by (induction qs) (simp_all add: wkt_ring_point_stored)
    then show ?thesis using assms(1) by (simp add: ring wkt_ring_point_stored)
  qed
  ultimately show ?thesis
    unfolding parse_wkt_ring_def whole body Let_def using chars(1,2) assms(2) by simp
qed

text \<open>Scanning the rings.\<close>

lemma scan_skip:
  "CHR ''('' \<notin> set u \<Longrightarrow> CHR '')'' \<notin> set u \<Longrightarrow>
     scan_rings whole i depth start (u @ v) = scan_rings whole (i + length u) depth start v"
  by (induction u arbitrary: i) auto

lemma scan_one_ring:
  assumes "CHR ''('' \<notin> set body" "CHR '')'' \<notin> set body"
    and "whole = pre @ (''('' @ body @ '')'') @ post"
  shows "scan_rings whole (length pre) 0 start ((''('' @ body @ '')'') @ post) =
     (''('' @ body @ '')'') # scan_rings whole (length pre + length body + 2) 0 (length pre) post"
proof -
  have "slice (length pre) (length pre + length body + 2) whole = ''('' @ body @ '')''"
    unfolding assms(3) slice_def by simp
  then show ?thesis
    using scan_skip [OF assms(1,2), of whole "length pre + 1" 1 "length pre" "CHR '')'' # post"]
    by (simp add: ac_simps)
qed

lemma scan_all_rings:
  assumes "\<forall>b\<in>set bodies. CHR ''('' \<notin> set b \<and> CHR '')'' \<notin> set b"
    and "whole = pre @ join_with '', '' (map (\<lambda>b. ''('' @ b @ '')'') bodies)"
  shows "scan_rings whole (length pre) 0 start (join_with '', '' (map (\<lambda>b. ''('' @ b @ '')'') bodies)) =
     map (\<lambda>b. ''('' @ b @ '')'') bodies"
  using assms
proof (induction bodies arbitrary: pre start)
  case (Cons b bodies)
  let ?ring = "\<lambda>b. ''('' @ b @ '')''"
  show ?case
  proof (cases "bodies = []")
    case True
    have "scan_rings whole (length pre) 0 start (?ring b @ []) =
        ?ring b # scan_rings whole (length pre + length b + 2) 0 (length pre) []"
      using Cons.prems True by (intro scan_one_ring) simp_all
    with True show ?thesis by simp
  next
    case False
    let ?rest = "join_with '', '' (map ?ring bodies)"
    have split: "join_with '', '' (map ?ring (b # bodies)) = ?ring b @ ('', '' @ ?rest)"
      using False by (simp add: join_with_Cons)
    have "scan_rings whole (length pre) 0 start (?ring b @ ('', '' @ ?rest)) =
        ?ring b # scan_rings whole (length pre + length b + 2) 0 (length pre) ('', '' @ ?rest)"
      using Cons.prems unfolding split by (intro scan_one_ring) simp_all
    also have "scan_rings whole (length pre + length b + 2) 0 (length pre) ('', '' @ ?rest) =
        scan_rings whole (length (pre @ ?ring b @ '', '')) 0 (length pre) ?rest"
      using scan_skip [of "'', ''" whole "length pre + length b + 2" 0 "length pre" ?rest] by simp
    also have "\<dots> = map ?ring bodies"
      using Cons.prems unfolding split by (intro Cons.IH) simp_all
    finally show ?thesis unfolding split by simp
  qed
qed simp

lemma parse_wkt_polygon_stored:
  assumes "\<forall>ring\<in>set (exterior # holes). 3 \<le> length ring \<and> (\<forall>p\<in>set ring. stored p)"
  shows "parse_wkt_polygon (''POLYGON('' @ join_with '', '' (map (\<lambda>ring. ''('' @ ring_text ring @ '')'') (exterior # holes)) @ '')'')
    = Inr (map reread_point exterior, map (map reread_point) holes)"
proof -
  let ?ring = "\<lambda>ring. ''('' @ ring_text ring @ '')''"
  let ?whole = "join_with '', '' (map ?ring (exterior # holes))"
  have h: "hd ?whole = CHR ''(''" using join_with_hd [of "?ring exterior" "'', ''" "map ?ring holes"] by simp
  have "last (map ?ring (exterior # holes)) = ?ring (last (exterior # holes))" by (rule last_map) simp
  then have l: "last ?whole = CHR '')''" "?whole \<noteq> []"
    using join_with_last [of "map ?ring (exterior # holes)" "'', ''"] by simp_all
  have sp: "\<not> is_space CHR ''P''" "\<not> is_space CHR ''(''" "\<not> is_space CHR '')''" by (simp_all add: is_space_def)
  have strip: "strip ?whole = ?whole" "lstrip ?whole = ?whole"
    using h l sp by (simp_all add: strip_ends lstrip_head)
  have "rstrip (?whole @ '')'') = ?whole @ '')''" using l h sp by (intro strip_ends) simp_all
  moreover have "lstrip (''POLYGON('' @ s) = ''POLYGON('' @ s" "eat_word ''POLYGON'' (''POLYGON('' @ s) = Some (''('' @ s)"
      "lstrip (''('' @ s) = ''('' @ s" "eat_char CHR ''('' (''('' @ s) = Some s" for s
    by (simp_all add: lstrip_def sp eat_word_def eat_char_def)
  ultimately have m: "match_wkt_polygon (''POLYGON('' @ ?whole @ '')'') = Some ?whole"
    unfolding match_wkt_polygon_def by (simp add: strip(2) Let_def del: append.simps list.map)
  have rings: "scan_rings ?whole 0 0 0 ?whole = map ?ring (exterior # holes)"
  proof -
    have "\<forall>b\<in>set (map ring_text (exterior # holes)). CHR ''('' \<notin> set b \<and> CHR '')'' \<notin> set b"
    proof -
      have "CHR ''('' \<notin> set (ring_text ring) \<and> CHR '')'' \<notin> set (ring_text ring)"
        if "ring \<in> set (exterior # holes)" for ring
      proof -
        have ok: "\<forall>p\<in>set ring. stored p" "ring \<noteq> []" using assms that by force+
        show ?thesis using ring_text_chars(3,4) [OF ok] by blast
      qed
      then show ?thesis by auto
    qed
    moreover have "map ?ring (exterior # holes) = map (\<lambda>b. ''('' @ b @ '')'') (map ring_text (exterior # holes))"
      by simp
    ultimately show ?thesis using scan_all_rings [of "map ring_text (exterior # holes)" ?whole "[]" 0]
      by (metis append_Nil list.size(3))
  qed
  have one: "parse_wkt_ring (?ring ring) = Inr (map reread_point ring)" if "ring \<in> set (exterior # holes)" for ring
    using assms that by (intro parse_wkt_ring_stored) auto
  have "mapE parse_wkt_ring (map ?ring rs) = Inr (map (map reread_point) rs)"
    if "set rs \<subseteq> set (exterior # holes)" for rs
    using that one by (induction rs) simp_all
  from this [of holes] have "mapE parse_wkt_ring (map ?ring holes) = Inr (map (map reread_point) holes)" by auto
  moreover have "parse_wkt_ring (?ring exterior) = Inr (map reread_point exterior)" by (rule one) simp
  moreover have "parse_wkt_polygon (''POLYGON('' @ ?whole @ '')'') =
      (case map ?ring (exterior # holes) of
         [] \<Rightarrow> Inl GeoFormatError
       | ring # rings \<Rightarrow>
           bindE (parse_wkt_ring ring) (\<lambda>exterior.
           bindE (mapE parse_wkt_ring rings) (\<lambda>holes. Inr (exterior, holes))))"
    unfolding parse_wkt_polygon_def m option.case Let_def strip(1) rings ..
  ultimately show ?thesis by (simp del: append.simps)
qed

text \<open>C22: A polygon of stored vertices, with rings of at least three, printed as GeoJSON and
  printed as WKT is read back by the two parsers as the same polygon, with every ring and
  vertex in place and each coordinate within one nanodegree.\<close>

theorem polygon_formats_agree:
  assumes "\<forall>ring\<in>set (exterior # holes). 3 \<le> length ring \<and> (\<forall>p\<in>set ring. stored p)"
  shows "\<exists>j s e hs. to_geojson_polygon exterior holes = Inr j \<and> to_wkt_polygon exterior holes = Inr s \<and>
    parse_geojson_polygon loads (GValue j) = Inr (e, hs) \<and> parse_wkt_polygon s = Inr (e, hs) \<and>
    list_all2 within_one exterior e \<and> list_all2 (list_all2 within_one) holes hs"
proof -
  let ?rings = "exterior # holes"
  have st: "\<forall>p\<in>set ring. stored p" if "ring \<in> set ?rings" for ring using assms that by blast
  let ?coords = "\<lambda>ring. JList (map (\<lambda>(a, b). JList [JFloat (Fin (deg b)), JFloat (Fin (deg a))]) ring)"
  have c: "ring_to_coords ring = Inr (?coords ring)" if "ring \<in> set ?rings" for ring
    using st [OF that] by (simp add: ring_to_coords_def mapE_degree_pair comp_def split_def)
  then have "mapE ring_to_coords ?rings = Inr (map ?coords ?rings)" by (rule mapE_all_ok)
  then have j: "to_geojson_polygon exterior holes =
      Inr (JObj [(''type'', JStr ''Polygon''), (''coordinates'', JList (map ?coords ?rings))])"
    by (simp add: to_geojson_polygon_def)
  have p: "parse_ring (?coords ring) = Inr (map reread_point ring)" if "ring \<in> set ?rings" for ring
  proof -
    have "3 \<le> length ring" using assms that by blast
    from parse_ring_stored [OF st [OF that] this] c [OF that] show ?thesis by (simp add: foreign_def)
  qed
  have "mapE parse_ring (map ?coords rs) = Inr (map (map reread_point) rs)" if "set rs \<subseteq> set ?rings" for rs
    using that p by (induction rs) simp_all
  note many = this
  have "mapE parse_ring (map ?coords holes) = Inr (map (map reread_point) holes)" by (rule many) auto
  with p [of exterior] have gj: "parse_geojson_polygon loads (GValue (JObj [(''type'', JStr ''Polygon''), (''coordinates'', JList (map ?coords ?rings))]))
      = Inr (map reread_point exterior, map (map reread_point) holes)"
    by (auto simp: parse_geojson_polygon_def load_geojson_def)
  have "mapE ring_to_wkt ?rings = Inr (map (\<lambda>ring. ''('' @ ring_text ring @ '')'') ?rings)"
    by (rule mapE_all_ok) (rule ring_to_wkt_stored [OF st])
  then have w: "to_wkt_polygon exterior holes =
      Inr (''POLYGON('' @ join_with '', '' (map (\<lambda>ring. ''('' @ ring_text ring @ '')'') ?rings) @ '')'')"
    unfolding to_wkt_polygon_def by simp
  have "list_all2 within_one ring (map reread_point ring)" if "ring \<in> set ?rings" for ring
    using st [OF that] by (auto simp: list_all2_conv_all_nth intro: reread_within_one)
  then have "list_all2 within_one exterior (map reread_point exterior)"
      "list_all2 (list_all2 within_one) holes (map (map reread_point) holes)"
    by (auto simp: list_all2_conv_all_nth)
  then show ?thesis using j w gj parse_wkt_polygon_stored [OF assms] by blast
qed

lemma polygon_formats_agree_witness:
  "\<exists>j s e hs. to_geojson_polygon [(0, 0), (0, 7), (99999, 8)] [[(1, 1), (1, 2), (- 2, 2)]] = Inr j \<and>
     to_wkt_polygon [(0, 0), (0, 7), (99999, 8)] [[(1, 1), (1, 2), (- 2, 2)]] = Inr s \<and>
     parse_geojson_polygon (\<lambda>_. None) (GValue j) = Inr (e, hs) \<and> parse_wkt_polygon s = Inr (e, hs)"
  using polygon_formats_agree [of "[(0, 0), (0, 7), (99999, 8)]" "[[(1, 1), (1, 2), (- 2, 2)]]" "\<lambda>_. None"]
  by (auto simp: stored_def)

subsection \<open>Errors that escape\<close>

text \<open>The parsers document only \<open>GeoFormatError\<close>, but other exceptions escape them: a NaN
  passes the range checks and fails in the conversion to an int, a coordinate that is not
  a number fails in \<open>float\<close>, and a number with two points is matched and then rejected.\<close>

theorem geo_parsers_leak_exceptions:
  "parse_geojson_point loads (GValue (JObj [(''type'', JStr ''Point''), (''coordinates'', JList [JFloat NaN, JInt 0])]))
     = Inl (Foreign ValueError) \<and>
   parse_geojson_point loads (GValue (JObj [(''type'', JStr ''Point''), (''coordinates'', JList [JNull, JInt 0])]))
     = Inl (Foreign TypeError) \<and>
   parse_wkt_point ''POINT(1.2.3 4)'' = Inl (Foreign ValueError)"
proof (intro conjI)
  have num: "json_float (JInt 0) = Inr (Fin 0)" using float_of_int_small [of 0] by simp
  have zero: "degrees_to_nanodegrees (Fin 0) = Inr 0"
    using degrees_to_nanodegrees_stored [of 0] trunc_of_int [of 0] by (simp add: reread_def)
  have nan: "degrees_to_nanodegrees NaN = Inl ValueError"
    using float_of_int_small [of 1000000000]
    by (simp add: degrees_to_nanodegrees_def times_int_def NANODEGREES_PER_DEGREE_def)
  show "parse_geojson_point loads (GValue (JObj [(''type'', JStr ''Point''), (''coordinates'', JList [JFloat NaN, JInt 0])]))
     = Inl (Foreign ValueError)"
    using num by (simp add: parse_geojson_point_def load_geojson_def json_point_def checked_point_def foreign_def
        validate_latitude_def validate_longitude_def LAT_MAX_def LON_MAX_def zero nan)
  show "parse_geojson_point loads (GValue (JObj [(''type'', JStr ''Point''), (''coordinates'', JList [JNull, JInt 0])]))
     = Inl (Foreign TypeError)"
    by (simp add: parse_geojson_point_def load_geojson_def json_point_def foreign_def)
  have "match_wkt_point ''POINT(1.2.3 4)'' = Some (''1.2.3'', ''4'')" by code_simp
  moreover have "float_of_string ''1.2.3'' = Inl ValueError" by code_simp
  ultimately show "parse_wkt_point ''POINT(1.2.3 4)'' = Inl (Foreign ValueError)"
    by (simp add: parse_wkt_point_def foreign_def)
qed

end
