(* ===== verification/Vector_Clock.thy ===== *)
theory Vector_Clock
  imports Prelude
begin

section \<open>Vector clocks and conflict resolution types\<close>

text \<open>
  \<open>VectorClock\<close> of \<open>archerdb/types.py\<close>: the entries are a list, searched from
  the front, and every \<open>set\<close> reads the wall clock.  The wall clock is a sequence
  of readings \<open>now 0, now 1, \<dots>\<close> of which each operation consumes the ones it
  makes: operations take the index of the next reading and return the one after.
\<close>

record vector_clock_entry =
  region_id :: int
  ve_timestamp :: int

record vector_clock =
  entries :: "vector_clock_entry list"
  wall_time_ns :: int

datatype vector_clock_comparison = LESS_THAN | GREATER_THAN | EQUAL | CONCURRENT

fun entry_get :: "vector_clock_entry list \<Rightarrow> int \<Rightarrow> int" where
  "entry_get [] r = 0"
| "entry_get (e # es) r = (if region_id e = r then ve_timestamp e else entry_get es r)"

definition vc_get :: "vector_clock \<Rightarrow> int \<Rightarrow> int" where
  "vc_get c r = entry_get (entries c) r"

text \<open>The loop of \<open>set\<close>: overwrite the first entry of the region, or append one.\<close>

fun entry_set :: "vector_clock_entry list \<Rightarrow> int \<Rightarrow> int \<Rightarrow> vector_clock_entry list" where
  "entry_set [] r ts = [\<lparr>region_id = r, ve_timestamp = ts\<rparr>]"
| "entry_set (e # es) r ts =
     (if region_id e = r then e\<lparr>ve_timestamp := ts\<rparr> # es else e # entry_set es r ts)"

definition vc_set ::
    "(nat \<Rightarrow> int) \<Rightarrow> nat \<Rightarrow> vector_clock \<Rightarrow> int \<Rightarrow> int \<Rightarrow> vector_clock \<times> nat" where
  "vc_set now t c r ts =
     (c\<lparr>entries := entry_set (entries c) r ts, wall_time_ns := now t\<rparr>, Suc t)"

definition vc_increment ::
    "(nat \<Rightarrow> int) \<Rightarrow> nat \<Rightarrow> vector_clock \<Rightarrow> int \<Rightarrow> int \<times> vector_clock \<times> nat" where
  "vc_increment now t c r =
     (let current = vc_get c r; new_ts = current + 1 in (new_ts, vc_set now t c r new_ts))"

fun merge_entries ::
    "(nat \<Rightarrow> int) \<Rightarrow> nat \<Rightarrow> vector_clock \<Rightarrow> vector_clock_entry list \<Rightarrow> vector_clock \<times> nat" where
  "merge_entries now t c [] = (c, t)"
| "merge_entries now t c (e # es) =
     (let current = vc_get c (region_id e) in
      if current < ve_timestamp e
      then (case vc_set now t c (region_id e) (ve_timestamp e) of
              (c', t') \<Rightarrow> merge_entries now t' c' es)
      else merge_entries now t c es)"

definition vc_merge ::
    "(nat \<Rightarrow> int) \<Rightarrow> nat \<Rightarrow> vector_clock \<Rightarrow> vector_clock \<Rightarrow> vector_clock \<times> nat" where
  "vc_merge now t c other =
     (case merge_entries now t c (entries other) of
        (c', t') \<Rightarrow>
          (if wall_time_ns c' < wall_time_ns other
           then (c'\<lparr>wall_time_ns := wall_time_ns other\<rparr>, t')
           else (c', t')))"

text \<open>The two loops of \<open>compare\<close>: the flags \<open>self_less\<close> and \<open>self_greater\<close>.\<close>

fun compare_self ::
    "vector_clock \<Rightarrow> bool \<times> bool \<Rightarrow> vector_clock_entry list \<Rightarrow> bool \<times> bool" where
  "compare_self other (lt, gt) [] = (lt, gt)"
| "compare_self other (lt, gt) (e # es) =
     (let other_ts = vc_get other (region_id e) in
      compare_self other
        (if ve_timestamp e < other_ts then (True, gt)
         else if other_ts < ve_timestamp e then (lt, True)
         else (lt, gt)) es)"

fun compare_other ::
    "vector_clock \<Rightarrow> bool \<times> bool \<Rightarrow> vector_clock_entry list \<Rightarrow> bool \<times> bool" where
  "compare_other self (lt, gt) [] = (lt, gt)"
| "compare_other self (lt, gt) (e # es) =
     (let self_ts = vc_get self (region_id e) in
      compare_other self
        (if self_ts < ve_timestamp e then (True, gt)
         else if ve_timestamp e < self_ts then (lt, True)
         else (lt, gt)) es)"

definition vc_compare :: "vector_clock \<Rightarrow> vector_clock \<Rightarrow> vector_clock_comparison" where
  "vc_compare self other =
     (case compare_other self (compare_self other (False, False) (entries self)) (entries other) of
        (self_less, self_greater) \<Rightarrow>
          (if self_less \<and> self_greater then CONCURRENT
           else if self_less then LESS_THAN
           else if self_greater then GREATER_THAN
           else EQUAL))"

definition is_concurrent :: "vector_clock \<Rightarrow> vector_clock \<Rightarrow> bool" where
  "is_concurrent self other \<longleftrightarrow> vc_compare self other = CONCURRENT"

subsection \<open>The invariant\<close>

text \<open>A region has one entry, and counters never go below the default zero.\<close>

definition vc_inv :: "vector_clock \<Rightarrow> bool" where
  "vc_inv c \<longleftrightarrow> distinct (map region_id (entries c)) \<and> (\<forall>e\<in>set (entries c). 0 \<le> ve_timestamp e)"

lemma entry_get_absent [simp]: "r \<notin> region_id ` set es \<Longrightarrow> entry_get es r = 0"
  by (induction es) auto

lemma entry_get_mem:
  "distinct (map region_id es) \<Longrightarrow> e \<in> set es \<Longrightarrow> entry_get es (region_id e) = ve_timestamp e"
  by (induction es) auto

lemma entry_get_set [simp]:
  "entry_get (entry_set es r ts) q = (if q = r then ts else entry_get es q)"
  by (induction es) auto

lemma regions_entry_set: "region_id ` set (entry_set es r ts) = insert r (region_id ` set es)"
  by (induction es) auto

lemma entry_set_distinct:
  "distinct (map region_id es) \<Longrightarrow> distinct (map region_id (entry_set es r ts))"
  by (induction es) (auto simp: regions_entry_set)

lemma entry_set_nonneg:
  "\<forall>e\<in>set es. 0 \<le> ve_timestamp e \<Longrightarrow> 0 \<le> ts \<Longrightarrow> \<forall>e\<in>set (entry_set es r ts). 0 \<le> ve_timestamp e"
  by (induction es) auto

lemma vc_get_set [simp]:
  "vc_get (fst (vc_set now t c r ts)) q = (if q = r then ts else vc_get c q)"
  by (simp add: vc_set_def vc_get_def)

lemma vc_inv_set: "vc_inv c \<Longrightarrow> 0 \<le> ts \<Longrightarrow> vc_inv (fst (vc_set now t c r ts))"
  using entry_set_nonneg [of "entries c" ts r]
  by (simp add: vc_inv_def vc_set_def entry_set_distinct)

lemma entry_get_nonneg: "\<forall>e\<in>set es. 0 \<le> ve_timestamp e \<Longrightarrow> 0 \<le> entry_get es r"
  by (induction es) auto

lemma vc_get_nonneg: "vc_inv c \<Longrightarrow> 0 \<le> vc_get c r"
  using entry_get_nonneg [of "entries c" r] by (simp add: vc_inv_def vc_get_def)

lemma merge_entries_get:
  assumes "distinct (map region_id es)" and "\<forall>e\<in>set es. 0 \<le> ve_timestamp e" and "vc_inv c"
  shows "vc_get (fst (merge_entries now t c es)) r = max (vc_get c r) (entry_get es r)"
    and "vc_inv (fst (merge_entries now t c es))"
proof -
  from assms have "vc_get (fst (merge_entries now t c es)) r = max (vc_get c r) (entry_get es r)
      \<and> vc_inv (fst (merge_entries now t c es))"
  proof (induction es arbitrary: t c)
    case Nil
    then show ?case using vc_get_nonneg [of c r] by simp
  next
    case (Cons e es)
    obtain c' t' where set: "vc_set now t c (region_id e) (ve_timestamp e) = (c', t')" by fastforce
    then have c': "c' = fst (vc_set now t c (region_id e) (ve_timestamp e))" by simp
    with Cons.prems have inv': "vc_inv c'" by (simp add: vc_inv_set)
    have get': "vc_get c' q = (if q = region_id e then ve_timestamp e else vc_get c q)" for q
      by (simp add: c')
    have absent: "entry_get es (region_id e) = 0" using Cons.prems by (intro entry_get_absent) auto
    show ?case
    proof (cases "vc_get c (region_id e) < ve_timestamp e")
      case True
      then have "merge_entries now t c (e # es) = merge_entries now t' c' es" by (simp add: set)
      with Cons.IH [of c' t'] Cons.prems inv' show ?thesis
        using True absent by (auto simp: get')
    next
      case False
      then have "merge_entries now t c (e # es) = merge_entries now t c es" by simp
      with Cons.IH [of c t] Cons.prems show ?thesis
        using False absent vc_get_nonneg [OF Cons.prems(3)] by auto
    qed
  qed
  then show "vc_get (fst (merge_entries now t c es)) r = max (vc_get c r) (entry_get es r)"
    and "vc_inv (fst (merge_entries now t c es))" by auto
qed

lemma vc_merge_get:
  assumes "vc_inv a" and "vc_inv b"
  shows "vc_get (fst (vc_merge now t a b)) r = max (vc_get a r) (vc_get b r)"
    and "vc_inv (fst (vc_merge now t a b))"
proof -
  obtain c t' where m: "merge_entries now t a (entries b) = (c, t')" by fastforce
  from assms(2) have b: "distinct (map region_id (entries b))" "\<forall>e\<in>set (entries b). 0 \<le> ve_timestamp e"
    by (simp_all add: vc_inv_def)
  have get: "vc_get c r = max (vc_get a r) (vc_get b r)" and inv: "vc_inv c"
    using merge_entries_get(1) [OF b assms(1), of now t r]
      merge_entries_get(2) [OF b assms(1), of now t] by (simp_all add: m vc_get_def)
  have same: "vc_get (c\<lparr>wall_time_ns := w\<rparr>) r = vc_get c r" "vc_inv (c\<lparr>wall_time_ns := w\<rparr>) = vc_inv c" for w
    by (simp_all add: vc_get_def vc_inv_def)
  show "vc_get (fst (vc_merge now t a b)) r = max (vc_get a r) (vc_get b r)"
    and "vc_inv (fst (vc_merge now t a b))"
    using get inv by (simp_all add: vc_merge_def m same)
qed

subsection \<open>Comparison is the pointwise order\<close>

lemma compare_self_flags:
  "compare_self other (lt, gt) es =
     (lt \<or> (\<exists>e\<in>set es. ve_timestamp e < vc_get other (region_id e)),
      gt \<or> (\<exists>e\<in>set es. vc_get other (region_id e) < ve_timestamp e))"
  by (induction es arbitrary: lt gt) (auto simp: Let_def)

lemma compare_other_flags:
  "compare_other self (lt, gt) es =
     (lt \<or> (\<exists>e\<in>set es. vc_get self (region_id e) < ve_timestamp e),
      gt \<or> (\<exists>e\<in>set es. ve_timestamp e < vc_get self (region_id e)))"
  by (induction es arbitrary: lt gt) (auto simp: Let_def)

lemma entries_differ_iff:
  assumes "vc_inv a" and "vc_inv b"
  shows "(\<exists>e\<in>set (entries a). ve_timestamp e < vc_get b (region_id e)) \<or>
      (\<exists>e\<in>set (entries b). vc_get a (region_id e) < ve_timestamp e) \<longleftrightarrow> (\<exists>r. vc_get a r < vc_get b r)"
proof -
  have da: "distinct (map region_id (entries a))" and db: "distinct (map region_id (entries b))"
    using assms by (simp_all add: vc_inv_def)
  have "vc_get a r < vc_get b r \<Longrightarrow>
      (\<exists>e\<in>set (entries a). ve_timestamp e < vc_get b (region_id e)) \<or>
      (\<exists>e\<in>set (entries b). vc_get a (region_id e) < ve_timestamp e)" for r
  proof -
    assume less: "vc_get a r < vc_get b r"
    have "r \<in> region_id ` set (entries b)"
    proof (rule ccontr)
      assume "r \<notin> region_id ` set (entries b)"
      then have "vc_get b r = 0" by (simp add: vc_get_def)
      with less vc_get_nonneg [OF assms(1), of r] show False by simp
    qed
    then obtain e where "e \<in> set (entries b)" "r = region_id e" by blast
    with less entry_get_mem [OF db] show ?thesis by (auto simp: vc_get_def)
  qed
  then show ?thesis
    using entry_get_mem [OF da] entry_get_mem [OF db] by (auto simp: vc_get_def) metis+
qed

lemma vc_compare_pointwise:
  assumes "vc_inv a" and "vc_inv b"
  shows "vc_compare a b =
    (let less = (\<exists>r. vc_get a r < vc_get b r); greater = (\<exists>r. vc_get b r < vc_get a r) in
     if less \<and> greater then CONCURRENT
     else if less then LESS_THAN else if greater then GREATER_THAN else EQUAL)"
proof -
  have l: "(\<exists>e\<in>set (entries a). ve_timestamp e < vc_get b (region_id e)) \<or>
      (\<exists>e\<in>set (entries b). vc_get a (region_id e) < ve_timestamp e) \<longleftrightarrow> (\<exists>r. vc_get a r < vc_get b r)"
    by (rule entries_differ_iff [OF assms])
  have g: "(\<exists>e\<in>set (entries a). vc_get b (region_id e) < ve_timestamp e) \<or>
      (\<exists>e\<in>set (entries b). ve_timestamp e < vc_get a (region_id e)) \<longleftrightarrow> (\<exists>r. vc_get b r < vc_get a r)"
    using entries_differ_iff [OF assms(2,1)] by blast
  show ?thesis
    by (simp add: vc_compare_def compare_self_flags compare_other_flags l g Let_def)
qed

subsection \<open>Properties\<close>

lemma vc_inv_increment:
  "vc_increment now t c r = (n, c', t') \<Longrightarrow>
     n = vc_get c r + 1 \<and> (\<forall>q. vc_get c' q = (if q = r then n else vc_get c q)) \<and>
     (vc_inv c \<longrightarrow> vc_inv c')"
  using vc_inv_set [of c "vc_get c r + 1" now t r] vc_get_nonneg [of c r]
    vc_get_set [of now t c r "vc_get c r + 1"]
  by (cases "vc_set now t c r (vc_get c r + 1)") (auto simp: vc_increment_def Let_def simp del: vc_get_set)

text \<open>Comparing two well-formed clocks decides the pointwise order of their
  counters: \<open>EQUAL\<close>, \<open>LESS_THAN\<close> and \<open>GREATER_THAN\<close> are equality and the two strict
  orders, everything else is \<open>CONCURRENT\<close>, and swapping the clocks swaps the answer;
  the order of the entries and absent regions make no difference.\<close>

theorem vc_compare_decides_causality:
  assumes "vc_inv a" and "vc_inv b"
  shows "(vc_compare a b = EQUAL \<longleftrightarrow> vc_get a = vc_get b) \<and>
    (vc_compare a b = LESS_THAN \<longleftrightarrow> vc_get a < vc_get b) \<and>
    (vc_compare a b = GREATER_THAN \<longleftrightarrow> vc_get b < vc_get a) \<and>
    (is_concurrent a b \<longleftrightarrow> \<not> vc_get a \<le> vc_get b \<and> \<not> vc_get b \<le> vc_get a)"
proof -
  have less: "vc_get a < vc_get b \<longleftrightarrow> (\<exists>r. vc_get a r < vc_get b r) \<and> \<not> (\<exists>r. vc_get b r < vc_get a r)"
    by (auto simp: less_fun_def le_fun_def not_le) (meson not_le)+
  have greater: "vc_get b < vc_get a \<longleftrightarrow> (\<exists>r. vc_get b r < vc_get a r) \<and> \<not> (\<exists>r. vc_get a r < vc_get b r)"
    by (auto simp: less_fun_def le_fun_def not_le) (meson not_le)+
  have eq: "vc_get a = vc_get b \<longleftrightarrow> \<not> (\<exists>r. vc_get a r < vc_get b r) \<and> \<not> (\<exists>r. vc_get b r < vc_get a r)"
    by (auto simp: fun_eq_iff not_less intro: antisym)
  have le: "vc_get a \<le> vc_get b \<longleftrightarrow> \<not> (\<exists>r. vc_get b r < vc_get a r)"
    "vc_get b \<le> vc_get a \<longleftrightarrow> \<not> (\<exists>r. vc_get a r < vc_get b r)"
    by (auto simp: le_fun_def not_less)
  show ?thesis
    by (simp add: vc_compare_pointwise [OF assms] is_concurrent_def less greater eq le Let_def)
qed

definition clock_a :: vector_clock where
  "clock_a = \<lparr>entries = [\<lparr>region_id = 1, ve_timestamp = 2\<rparr>], wall_time_ns = 0\<rparr>"

definition clock_b :: vector_clock where
  "clock_b = \<lparr>entries = [\<lparr>region_id = 2, ve_timestamp = 1\<rparr>], wall_time_ns = 0\<rparr>"

theorem vc_compare_decides_causality_witness:
  "is_concurrent clock_a clock_b \<and> \<not> vc_get clock_a \<le> vc_get clock_b"
proof -
  have "vc_inv clock_a" "vc_inv clock_b" "is_concurrent clock_a clock_b"
    by (simp_all add: vc_inv_def clock_a_def clock_b_def is_concurrent_def vc_compare_def vc_get_def)
  with vc_compare_decides_causality [of clock_a clock_b] show ?thesis by blast
qed

text \<open>C17: Merging another clock into a clock gives the least upper bound of the two:
  every counter is the larger of the two, the result is not below either operand and
  is below every common upper bound, the well-formedness of the entries is kept, and
  the wall time never falls behind the other clock's.\<close>

theorem vc_merge_least_upper_bound:
  assumes "vc_inv a" and "vc_inv b" and "vc_merge now t a b = (c, t')"
  shows "vc_inv c \<and> vc_get c = sup (vc_get a) (vc_get b) \<and>
    vc_compare a c \<in> {EQUAL, LESS_THAN} \<and> vc_compare b c \<in> {EQUAL, LESS_THAN} \<and>
    wall_time_ns b \<le> wall_time_ns c"
proof -
  have c: "vc_inv c" and get: "vc_get c r = max (vc_get a r) (vc_get b r)" for r
    using vc_merge_get [OF assms(1,2), of now t] assms(3) by simp_all
  have "\<not> (\<exists>r. vc_get c r < vc_get a r)" "\<not> (\<exists>r. vc_get c r < vc_get b r)"
    by (auto simp: get)
  then have "vc_compare a c \<in> {EQUAL, LESS_THAN}" "vc_compare b c \<in> {EQUAL, LESS_THAN}"
    by (auto simp: vc_compare_pointwise [OF assms(1) c] vc_compare_pointwise [OF assms(2) c] Let_def)
  moreover have "wall_time_ns b \<le> wall_time_ns c"
    using assms(3) by (auto simp: vc_merge_def split: prod.splits if_splits)
  ultimately show ?thesis using c by (auto simp: get fun_eq_iff sup_max)
qed

theorem vc_merge_least_upper_bound_witness:
  "vc_get (fst (vc_merge int 0 clock_a clock_b)) 1 = 2"
proof -
  have inv: "vc_inv clock_a" "vc_inv clock_b"
    by (simp_all add: vc_inv_def clock_a_def clock_b_def)
  have "vc_get (fst (vc_merge int 0 clock_a clock_b)) = sup (vc_get clock_a) (vc_get clock_b)"
    using vc_merge_least_upper_bound [OF inv, of int 0 "fst (vc_merge int 0 clock_a clock_b)"
        "snd (vc_merge int 0 clock_a clock_b)"] by simp
  then have "vc_get (fst (vc_merge int 0 clock_a clock_b)) 1 = sup (vc_get clock_a 1) (vc_get clock_b 1)"
    by simp
  then show ?thesis by (simp add: clock_a_def clock_b_def vc_get_def sup_max)
qed

end
