(* ===== verification/Region_Types.thy ===== *)
theory Region_Types
  imports Vector_Clock Py_Float
begin

section \<open>Geo-sharding and replication types\<close>

text \<open>
  The remaining data types of \<open>archerdb/types.py\<close> for regions and for conflict resolution
  in active-active replication.  They carry no operation but the two failure predicates of
  \<open>CrossRegionQueryResult\<close>.
\<close>

definition MAX_REGIONS :: int where "MAX_REGIONS = 16"
definition MAX_REGION_NAME_LEN :: int where "MAX_REGION_NAME_LEN = 32"
definition MAX_ENDPOINT_LEN :: int where "MAX_ENDPOINT_LEN = 128"

datatype geo_shard_policy = NO_GEO_SHARDING | BY_ENTITY_LOCATION | BY_ENTITY_ID_PREFIX | EXPLICIT

fun geo_shard_policy_code :: "geo_shard_policy \<Rightarrow> int" where
  "geo_shard_policy_code NO_GEO_SHARDING = 0"
| "geo_shard_policy_code BY_ENTITY_LOCATION = 1"
| "geo_shard_policy_code BY_ENTITY_ID_PREFIX = 2"
| "geo_shard_policy_code EXPLICIT = 3"

interpretation shard_policy_enum: int_enum "[NO_GEO_SHARDING, BY_ENTITY_LOCATION, BY_ENTITY_ID_PREFIX, EXPLICIT]" geo_shard_policy_code
proof
  show "x \<in> set [NO_GEO_SHARDING, BY_ENTITY_LOCATION, BY_ENTITY_ID_PREFIX, EXPLICIT]" for x by (cases x) simp_all
qed simp

record geo_region =
  gr_name :: string
  center_lat_deg :: pyfloat
  center_lon_deg :: pyfloat
  region_endpoint :: string
  priority :: int
  active :: bool
  writable :: bool

definition default_geo_region :: geo_region where
  "default_geo_region =
     \<lparr>gr_name = [], center_lat_deg = Fin 0, center_lon_deg = Fin 0, region_endpoint = [],
      priority = 0, active = True, writable = True\<rparr>"

record geo_shard_config =
  policy :: geo_shard_policy
  gsc_regions :: "geo_region list"
  local_region_idx :: int
  cross_region_queries_enabled :: bool
  cross_region_timeout_ms :: int

definition default_geo_shard_config :: geo_shard_config where
  "default_geo_shard_config =
     \<lparr>policy = NO_GEO_SHARDING, gsc_regions = [], local_region_idx = 0,
      cross_region_queries_enabled = True, cross_region_timeout_ms = 5000\<rparr>"

record cross_region_query_result =
  regions_queried :: int
  regions_responded :: int
  regions_failed :: int
  cr_total_count :: int
  truncated :: bool
  failed_regions :: "int list"
  latencies_us :: "int list"

definition has_partial_failure :: "cross_region_query_result \<Rightarrow> bool" where
  "has_partial_failure r \<longleftrightarrow> 0 < regions_failed r \<and> 0 < regions_responded r"

definition has_total_failure :: "cross_region_query_result \<Rightarrow> bool" where
  "has_total_failure r \<longleftrightarrow> 0 < regions_failed r \<and> regions_responded r = 0"

text \<open>With counts that are counts, a failure is partial or total, never both.\<close>

lemma failure_partial_or_total:
  "0 \<le> regions_responded r \<Longrightarrow>
     (0 < regions_failed r \<longleftrightarrow> has_partial_failure r \<or> has_total_failure r) \<and>
     \<not> (has_partial_failure r \<and> has_total_failure r)"
  by (auto simp: has_partial_failure_def has_total_failure_def)

datatype conflict_policy = LAST_WRITER_WINS | PRIMARY_WINS | CUSTOM_HOOK

fun conflict_policy_code :: "conflict_policy \<Rightarrow> int" where
  "conflict_policy_code LAST_WRITER_WINS = 0"
| "conflict_policy_code PRIMARY_WINS = 1"
| "conflict_policy_code CUSTOM_HOOK = 2"

datatype conflict_winner = LOCAL | REMOTE | MERGED

fun conflict_winner_code :: "conflict_winner \<Rightarrow> int" where
  "conflict_winner_code LOCAL = 0"
| "conflict_winner_code REMOTE = 1"
| "conflict_winner_code MERGED = 2"

datatype conflict_reason = LATER_TIMESTAMP | PRIMARY_REGION | CUSTOM_RESOLUTION | FALLBACK

fun conflict_reason_code :: "conflict_reason \<Rightarrow> int" where
  "conflict_reason_code LATER_TIMESTAMP = 0"
| "conflict_reason_code PRIMARY_REGION = 1"
| "conflict_reason_code CUSTOM_RESOLUTION = 2"
| "conflict_reason_code FALLBACK = 3"

interpretation conflict_policy_enum: int_enum "[LAST_WRITER_WINS, PRIMARY_WINS, CUSTOM_HOOK]" conflict_policy_code
proof
  show "x \<in> set [LAST_WRITER_WINS, PRIMARY_WINS, CUSTOM_HOOK]" for x by (cases x) simp_all
qed simp

interpretation conflict_winner_enum: int_enum "[LOCAL, REMOTE, MERGED]" conflict_winner_code
proof
  show "x \<in> set [LOCAL, REMOTE, MERGED]" for x by (cases x) simp_all
qed simp

interpretation conflict_reason_enum: int_enum "[LATER_TIMESTAMP, PRIMARY_REGION, CUSTOM_RESOLUTION, FALLBACK]" conflict_reason_code
proof
  show "x \<in> set [LATER_TIMESTAMP, PRIMARY_REGION, CUSTOM_RESOLUTION, FALLBACK]" for x by (cases x) simp_all
qed simp

record conflict_resolution =
  cr_winner :: conflict_winner
  cr_reason :: conflict_reason

record conflict_stats =
  conflicts_detected :: int
  conflicts_resolved :: int
  last_writer_wins_count :: int
  primary_wins_count :: int
  custom_resolved_count :: int

record conflict_audit_entry =
  ca_entity_id :: int
  local_region :: int
  remote_region :: int
  ca_policy :: conflict_policy
  ca_winner :: conflict_winner
  ca_reason :: conflict_reason
  ca_timestamp_ns :: int

end
