(* ===== verification/Async_Client.thy ===== *)
theory Async_Client
  imports Client
begin

section \<open>The asynchronous client\<close>

text \<open>
  \<open>GeoClientAsync\<close>, its two batch classes, \<open>_with_retry_async\<close> and
  \<open>_submit_multi_batch_async\<close> of \<open>archerdb/client.py\<close>.  The class has no native
  client: writes and queries are skeletons that answer by themselves, and
  \<open>self._native\<close>, which the administrative operations use, is never assigned.  Its
  state is that of the synchronous client over a native state of type \<open>unit\<close>; of the
  platform it uses the clock and the random source.

  A coroutine hands the event loop to another one only where it waits.  The skeleton
  operations never wait and never fail with an error that is retried, so each method
  is one step; only the scatter queries wait, for the tasks they create.
\<close>

type_synonym 'c async_sdk = "(unit, 'c) sdk"
type_synonym ('c, 'a) async_step = "'c async_sdk \<Rightarrow> (sdk_exn, 'a) result \<times> 'c async_sdk"

subsection \<open>Retry, chunks and batches\<close>

text \<open>These are the synchronous definitions: the code repeats them line by line with \<open>await\<close>.\<close>

definition with_retry_async ::
    "readings \<Rightarrow> readings \<Rightarrow> retry_config \<Rightarrow> ('s, 'a) operation \<Rightarrow> 's retry_env \<Rightarrow>
     (sdk_exn, 'a) result \<times> 's retry_env" where
  "with_retry_async now rnd config operation env =
     (if \<not> enabled config then run_operation operation env
      else
        case read_ms now env of (start_time, env) \<Rightarrow>
          let max_attempts = max_retries config + 1 in
          retry_loop now rnd config operation start_time (nat max_attempts) 1
            (PlainException ''No attempts made'') env)"

lemma with_retry_async_eq: "with_retry_async = with_retry_sync"
  by (intro ext) (simp add: with_retry_async_def with_retry_sync_def)

definition submit_multi_batch_async ::
    "('x, 's) submit_fn \<Rightarrow> geo_operation \<Rightarrow> 'x list \<Rightarrow> int \<Rightarrow> 's \<Rightarrow>
     (sdk_exn, batch_error list) result \<times> 's" where
  "submit_multi_batch_async submit op batch batch_size s =
     (if batch = [] then (Inr [], s)
      else if batch_size \<le> 0 then (Inl (Builtin ValueError), s)
      else submit_chunks submit op (nat batch_size) 0 (chunks (nat batch_size) batch) [] s)"

definition async_event_batch_add :: "geo_event \<Rightarrow> event_batch \<Rightarrow> (sdk_exn, event_batch) result" where
  "async_event_batch_add e b =
     (if BATCH_SIZE_MAX \<le> length (eb_events b) then Inl (Client BatchTooLarge)
      else bindE (validate_event e) (\<lambda>_. Inr (b\<lparr>eb_events := eb_events b @ [e]\<rparr>)))"

definition async_event_batch_commit ::
    "(geo_event, 's) submit_fn \<Rightarrow> event_batch \<Rightarrow> 's \<Rightarrow>
     (sdk_exn, batch_error list) result \<times> event_batch \<times> 's" where
  "async_event_batch_commit submit b s =
     (if eb_events b = [] then (Inr [], b, s)
      else
        let op = (if eb_operation b = ''insert'' then INSERT_EVENTS else UPSERT_EVENTS) in
        case submit op (eb_events b) s of
          (Inl e, s) \<Rightarrow> (Inl e, b, s)
        | (Inr results, s) \<Rightarrow> (Inr results, b\<lparr>eb_events := []\<rparr>, s))"

definition async_delete_batch_add :: "int \<Rightarrow> delete_batch \<Rightarrow> (sdk_exn, delete_batch) result" where
  "async_delete_batch_add entity b =
     (if BATCH_SIZE_MAX \<le> length (db_entity_ids b) then Inl (Client BatchTooLarge)
      else if entity = 0 then Inl (Client InvalidEntityId)
      else Inr (b\<lparr>db_entity_ids := db_entity_ids b @ [entity]\<rparr>))"

definition async_delete_batch_commit ::
    "(int, 's) submit_fn \<Rightarrow> delete_batch \<Rightarrow> 's \<Rightarrow>
     (sdk_exn, delete_result) result \<times> delete_batch \<times> 's" where
  "async_delete_batch_commit submit b s =
     (if db_entity_ids b = [] then (Inr \<lparr>deleted_count = 0, dr_not_found_count = 0\<rparr>, b, s)
      else
        case submit DELETE_ENTITIES (db_entity_ids b) s of
          (Inl e, s) \<Rightarrow> (Inl e, b, s)
        | (Inr results, s) \<Rightarrow>
            (case count_deletes (int (length (db_entity_ids b))) 0 results of
               (deleted, not_found) \<Rightarrow>
                 (Inr \<lparr>deleted_count = deleted, dr_not_found_count = not_found\<rparr>,
                  b\<lparr>db_entity_ids := []\<rparr>, s)))"

interpretation async_event_builder: bounded_batch async_event_batch_add eb_events event_valid BATCH_SIZE_MAX
  by unfold_locales (auto simp: async_event_batch_add_def validate_event_cases)

interpretation async_delete_builder: bounded_batch async_delete_batch_add db_entity_ids "\<lambda>i. i \<noteq> 0" BATCH_SIZE_MAX
  by unfold_locales (auto simp: async_delete_batch_add_def)

subsection \<open>Connection\<close>

definition open_async ::
    "client_config \<Rightarrow> (unit \<times> nat) retry_env \<Rightarrow> (sdk_exn, 'c async_sdk) result" where
  "open_async config w =
     (if addresses config = [] then Inl (Builtin ValueError)
      else Inr \<lparr>is_closed = False, base_retry = or_default (retry config) default_retry_config,
                sdk_cache = new_cache, notified = [], world = w\<rparr>)"

definition close_async :: "'c async_sdk \<Rightarrow> 'c async_sdk" where
  "close_async s = s\<lparr>is_closed := True\<rparr>"

text \<open>\<open>async with\<close>: \<open>_connect\<close> does nothing, and leaving the block closes the client.\<close>

definition with_async_client :: "('c, 'a) async_step \<Rightarrow> ('c, 'a) async_step" where
  "with_async_client body s = (case body s of (r, s) \<Rightarrow> (r, close_async s))"

text \<open>A call of \<open>_with_retry_async\<close>.\<close>

definition await_retry ::
    "unit platform \<Rightarrow> retry_config \<Rightarrow> (unit \<times> nat, 'a) operation \<Rightarrow> ('c, 'a) async_step" where
  "await_retry p cfg operation s =
     (case with_retry_async (clock p) (random p) cfg operation (world s) of
        (r, w) \<Rightarrow> (r, s\<lparr>world := w\<rparr>))"

lemma await_retry_eq: "await_retry = run_retry"
  by (intro ext) (simp add: await_retry_def run_retry_def with_retry_async_eq)

subsection \<open>Writes\<close>

definition submit_batch_async ::
    "unit platform \<Rightarrow> operation_options option \<Rightarrow> ('x, 'c async_sdk) submit_fn" where
  "submit_batch_async p options op batch =
     guarded (\<lambda>s. await_retry p (effective_retry options s) (\<lambda>st. (Inr [], st)) s)"

definition insert_events_async ::
    "unit platform \<Rightarrow> geo_event list \<Rightarrow> operation_options option \<Rightarrow> ('c, batch_error list) async_step" where
  "insert_events_async p es options =
     submit_multi_batch_async (submit_batch_async p options) INSERT_EVENTS es (int BATCH_SIZE_MAX)"

definition upsert_events_async ::
    "unit platform \<Rightarrow> geo_event list \<Rightarrow> operation_options option \<Rightarrow> ('c, batch_error list) async_step" where
  "upsert_events_async p es options =
     submit_multi_batch_async (submit_batch_async p options) UPSERT_EVENTS es (int BATCH_SIZE_MAX)"

definition create_batch_async :: event_batch where
  "create_batch_async = new_event_batch ''insert''"

definition create_upsert_batch_async :: event_batch where
  "create_upsert_batch_async = new_event_batch ''upsert''"

definition create_delete_batch_async :: delete_batch where
  "create_delete_batch_async = new_delete_batch"

definition insert_event_async :: "unit platform \<Rightarrow> geo_event \<Rightarrow> ('c, batch_error list) async_step" where
  "insert_event_async p e s =
     (case async_event_batch_add e create_batch_async of
        Inl x \<Rightarrow> (Inl x, s)
      | Inr batch \<Rightarrow>
          (case async_event_batch_commit (submit_batch_async p None) batch s of (r, b, s) \<Rightarrow> (r, s)))"

definition delete_entities_async :: "unit platform \<Rightarrow> int list \<Rightarrow> ('c, delete_result) async_step" where
  "delete_entities_async p ids s =
     (case add_all async_delete_batch_add ids create_delete_batch_async of
        Inl x \<Rightarrow> (Inl x, s)
      | Inr batch \<Rightarrow>
          (case async_delete_batch_commit (submit_batch_async p None) batch s of (r, b, s) \<Rightarrow> (r, s)))"

subsection \<open>Queries\<close>

definition submit_query_async :: "unit platform \<Rightarrow> query_filter \<Rightarrow> ('c, geo_event list) async_step" where
  "submit_query_async p f =
     guarded (\<lambda>s. await_retry p (base_retry s) (\<lambda>st. (Inr [], st)) s)"

definition submit_batch_uuid_query_async ::
    "unit platform \<Rightarrow> int list \<Rightarrow> ('c, query_uuid_batch_result) async_step" where
  "submit_batch_uuid_query_async p ids =
     guarded (\<lambda>s. await_retry p (base_retry s)
       (\<lambda>st. (Inr \<lparr>found_count = 0, not_found_count = int (length ids),
                    not_found_indices = [0..int (length ids) - 1], batch_events = []\<rparr>, st)) s)"

definition get_latest_by_uuid_async :: "unit platform \<Rightarrow> int \<Rightarrow> ('c, geo_event option) async_step" where
  "get_latest_by_uuid_async p entity =
     guarded (\<lambda>s. then_do (submit_query_async p (UuidFilter entity) s)
       (\<lambda>es s. (Inr (case es of [] \<Rightarrow> None | e # _ \<Rightarrow> Some e), s)))"

definition get_latest_batch_async ::
    "unit platform \<Rightarrow> int list \<Rightarrow> ('c, int \<rightharpoonup> geo_event option) async_step" where
  "get_latest_batch_async p ids =
     guarded (\<lambda>s.
       if ids = [] then (Inr Map.empty, s)
       else if 10000 < length ids then (Inl (Client BatchTooLarge), s)
       else then_do (submit_batch_uuid_query_async p ids s) (\<lambda>res s.
         (Inr (assign_results (set (not_found_indices res)) 0 ids (batch_events res) Map.empty), s)))"

text \<open>The tail that the three list queries share, after their filter is built.\<close>

definition run_page_query_async ::
    "unit platform \<Rightarrow> int \<Rightarrow> query_filter \<Rightarrow> ('c, query_result) async_step" where
  "run_page_query_async p limit f s =
     (if QUERY_LIMIT_MAX < limit then (Inl (Client QueryResultTooLarge), s)
      else then_do (submit_query_async p f s) (\<lambda>es s. (Inr (page limit es), s)))"

definition query_radius_async ::
    "unit platform \<Rightarrow> pyfloat \<Rightarrow> pyfloat \<Rightarrow> pyfloat \<Rightarrow> int \<Rightarrow> int \<Rightarrow> int \<Rightarrow> int \<Rightarrow>
     ('c, query_result) async_step" where
  "query_radius_async p latitude longitude radius_m limit tmin tmax gid =
     guarded (\<lambda>s. then_do (lift_builtin (create_radius_query latitude longitude radius_m limit tmin tmax gid), s)
       (\<lambda>q. run_page_query_async p (rf_limit q) (RadiusFilter q)))"

definition query_polygon_async ::
    "unit platform \<Rightarrow> (pyfloat \<times> pyfloat) list \<Rightarrow> (pyfloat \<times> pyfloat) list list option \<Rightarrow>
     int \<Rightarrow> int \<Rightarrow> int \<Rightarrow> int \<Rightarrow> ('c, query_result) async_step" where
  "query_polygon_async p vertices holes limit tmin tmax gid =
     guarded (\<lambda>s. then_do (lift_builtin (create_polygon_query vertices holes limit tmin tmax gid), s)
       (\<lambda>q. run_page_query_async p (pf_limit q) (PolygonFilter q)))"

definition query_latest_async ::
    "unit platform \<Rightarrow> int \<Rightarrow> int \<Rightarrow> int \<Rightarrow> ('c, query_result) async_step" where
  "query_latest_async p limit gid cursor_ts =
     guarded (\<lambda>s. let q = \<lparr>lf_limit = limit, lf_group_id = gid, cursor_timestamp = cursor_ts\<rparr>
       in run_page_query_async p (lf_limit q) (LatestFilter q) s)"

subsection \<open>Administration, TTL and topology\<close>

text \<open>Reading the attribute \<open>self._native\<close> raises before anything is handed to a thread.\<close>

definition through_native :: "(unit \<times> nat, 'a) operation" where
  "through_native st = (Inl (Builtin AttributeError), st)"

definition run_admin_async :: "unit platform \<Rightarrow> (unit \<times> nat, 'a) operation \<Rightarrow> ('c, 'a) async_step" where
  "run_admin_async p f s = await_retry p (base_retry s) f s"

definition ping_async :: "unit platform \<Rightarrow> ('c, bool) async_step" where
  "ping_async p = guarded (run_admin_async p through_native)"

definition get_status_async :: "unit platform \<Rightarrow> ('c, status_response) async_step" where
  "get_status_async p = guarded (run_admin_async p through_native)"

definition cleanup_expired_async :: "unit platform \<Rightarrow> int \<Rightarrow> ('c, cleanup_result) async_step" where
  "cleanup_expired_async p batch_size =
     guarded (\<lambda>s.
       if batch_size < 0 then (Inl (Builtin ValueError), s)
       else run_admin_async p (\<lambda>st. case through_native st of
              (r, st) \<Rightarrow> (bindE r (\<lambda>(scanned, removed).
                Inr \<lparr>entries_scanned = scanned, entries_removed = removed\<rparr>), st)) s)"

definition set_ttl_async :: "unit platform \<Rightarrow> int \<Rightarrow> int \<Rightarrow> ('c, ttl_response) async_step" where
  "set_ttl_async p entity ttl = guarded (run_admin_async p through_native)"

definition extend_ttl_async :: "unit platform \<Rightarrow> int \<Rightarrow> int \<Rightarrow> ('c, ttl_response) async_step" where
  "extend_ttl_async p entity by_seconds = guarded (run_admin_async p through_native)"

definition clear_ttl_async :: "unit platform \<Rightarrow> int \<Rightarrow> ('c, ttl_clear_response) async_step" where
  "clear_ttl_async p entity = guarded (run_admin_async p through_native)"

definition get_topology_async :: "unit platform \<Rightarrow> ('c, topology_response) async_step" where
  "get_topology_async p =
     guarded (\<lambda>s.
       then_do (run_admin_async p (\<lambda>st. case through_native st of
                  (r, st) \<Rightarrow> (bindE r (\<lambda>raw. lift_builtin (topology_from_bytes raw)), st)) s)
       (\<lambda>t s. then_do (update_cache p t s) (\<lambda>_ s. (Inr t, s))))"

definition refresh_topology_async :: "unit platform \<Rightarrow> ('c, topology_response) async_step" where
  "refresh_topology_async p = get_topology_async p"

text \<open>The callback of the router does nothing.\<close>

definition refresh_topology_callback :: "('c, unit) async_step" where
  "refresh_topology_callback s = (Inr (), s)"

definition async_router_handle :: "routing_error \<Rightarrow> 'c async_sdk \<Rightarrow> bool \<times> 'c async_sdk" where
  "async_router_handle error s = handle_not_shard_leader (Some refresh_topology_callback) error s"

subsection \<open>Scatter-gather queries\<close>

text \<open>
  The tasks start in the order of the shards.  \<open>others i = Some g\<close>: before task \<open>i\<close> runs,
  the other coroutines change the client by \<open>g\<close>; \<open>others i = None\<close>: the task is still
  pending at the timeout and is cancelled.
\<close>

fun run_tasks ::
    "(nat \<Rightarrow> ('c async_sdk \<Rightarrow> 'c async_sdk) option) \<Rightarrow> ('c, query_result) async_step \<Rightarrow> nat \<Rightarrow> bytes list \<Rightarrow>
     'c async_sdk \<Rightarrow> shard_outcome option list \<times> 'c async_sdk" where
  "run_tasks others query i [] s = ([], s)"
| "run_tasks others query i (prim # rest) s =
     (case others i of
        None \<Rightarrow> (case run_tasks others query (Suc i) rest s of (os, s) \<Rightarrow> (None # os, s))
      | Some g \<Rightarrow>
          (case query (g s) of (r, s) \<Rightarrow>
           (case run_tasks others query (Suc i) rest s of (os, s) \<Rightarrow> (Some r # os, s))))"

definition scatter_async ::
    "scatter_gather_config option \<Rightarrow> (nat \<Rightarrow> ('c async_sdk \<Rightarrow> 'c async_sdk) option) \<Rightarrow>
     ('c, geo_event list) async_step \<Rightarrow> int \<Rightarrow> int \<Rightarrow> ('c, scatter_gather_result) async_step" where
  "scatter_async config others f filter_limit limit s =
     (let cfg = or_default config default_scatter_gather_config;
          primaries = get_all_shard_primaries (sdk_cache s);
          query_shard = (\<lambda>s. then_do (f s) (\<lambda>es s. (Inr (page filter_limit es), s)))
      in case run_tasks others query_shard 0 primaries s of
           (tasks, s) \<Rightarrow> (execute_async cfg primaries tasks limit, s))"

definition load_topology_async :: "unit platform \<Rightarrow> ('c, unit) async_step" where
  "load_topology_async p s =
     (if cache_get (sdk_cache s) = None
      then then_do (get_topology_async p s) (\<lambda>_ s. (Inr (), s)) else (Inr (), s))"

definition query_radius_scatter_async ::
    "unit platform \<Rightarrow> (nat \<Rightarrow> ('c async_sdk \<Rightarrow> 'c async_sdk) option) \<Rightarrow> pyfloat \<Rightarrow> pyfloat \<Rightarrow> pyfloat \<Rightarrow>
     int \<Rightarrow> int \<Rightarrow> int \<Rightarrow> int \<Rightarrow> scatter_gather_config option \<Rightarrow> ('c, scatter_gather_result) async_step" where
  "query_radius_scatter_async p others latitude longitude radius_m limit tmin tmax gid config =
     guarded (\<lambda>s. then_do (load_topology_async p s) (\<lambda>_ s.
       then_do (lift_builtin (create_radius_query latitude longitude radius_m limit tmin tmax gid), s) (\<lambda>q s.
       scatter_async config others (submit_query_async p (RadiusFilter q)) (rf_limit q) limit s)))"

definition query_polygon_scatter_async ::
    "unit platform \<Rightarrow> (nat \<Rightarrow> ('c async_sdk \<Rightarrow> 'c async_sdk) option) \<Rightarrow> (pyfloat \<times> pyfloat) list \<Rightarrow>
     (pyfloat \<times> pyfloat) list list option \<Rightarrow> int \<Rightarrow> int \<Rightarrow> int \<Rightarrow> int \<Rightarrow> scatter_gather_config option \<Rightarrow>
     ('c, scatter_gather_result) async_step" where
  "query_polygon_scatter_async p others vertices holes limit tmin tmax gid config =
     guarded (\<lambda>s. then_do (load_topology_async p s) (\<lambda>_ s.
       then_do (lift_builtin (create_polygon_query vertices holes limit tmin tmax gid), s) (\<lambda>q s.
       scatter_async config others (submit_query_async p (PolygonFilter q)) (pf_limit q) limit s)))"

subsection \<open>Lemmas\<close>

text \<open>An attempt whose outcome is not retried is the whole call.\<close>

lemma await_retry_settles:
  assumes "patient (clock p) cfg" and "\<And>st. f st = (r, st)" and "\<not> retryable_failure r"
  shows "\<exists>w. await_retry p cfg f s = (r, s\<lparr>world := w\<rparr>)"
  using run_retry_settles [OF assms(1), of f s r "op_state (world s)"] assms(2,3)
  by (auto simp: await_retry_eq)

lemma skeleton_answers:
  assumes "\<not> is_closed s" and "patient (clock p) (base_retry s)"
  shows "\<exists>w. submit_query_async p f s = (Inr [], s\<lparr>world := w\<rparr>)"
    and "\<exists>w. submit_batch_async p None op batch s = (Inr [], s\<lparr>world := w\<rparr>)"
    and "\<exists>w. submit_batch_uuid_query_async p ids s = (Inr \<lparr>found_count = 0, not_found_count = int (length ids),
      not_found_indices = [0..int (length ids) - 1], batch_events = []\<rparr>, s\<lparr>world := w\<rparr>)"
  using assms
  by (simp_all add: submit_query_async_def submit_batch_async_def submit_batch_uuid_query_async_def
    effective_retry_def await_retry_settles retryable_failure_def)

text \<open>The text of the exception names no network condition.\<close>

lemma attribute_error_final [simp]: "\<not> is_retryable_error (Builtin AttributeError)"
  by code_simp

lemma admin_raises:
  assumes "\<not> is_closed s" and "patient (clock p) (base_retry s)"
    and "\<And>st. f st = (Inl (Builtin AttributeError), st)"
  shows "\<exists>w. run_admin_async p f s = (Inl (Builtin AttributeError), s\<lparr>world := w\<rparr>)"
  using assms unfolding run_admin_async_def
  by (intro await_retry_settles) (simp_all add: retryable_failure_def)

text \<open>Chunks that all succeed without errors.\<close>

lemma submit_chunks_clean:
  assumes "\<And>chunk s. P s \<Longrightarrow> fst (submit op chunk s) = Inr [] \<and> P (snd (submit op chunk s))" and "P s"
  shows "fst (submit_chunks submit op n off cs acc s) = Inr acc \<and> P (snd (submit_chunks submit op n off cs acc s))"
  using assms(2)
proof (induction cs arbitrary: off s)
  case Nil
  then show ?case by simp
next
  case (Cons c cs)
  from assms(1) [OF Cons.prems, of c] obtain s' where s': "submit op c s = (Inr [], s')" "P s'"
    by (cases "submit op c s") auto
  from Cons.IH [OF this(2), of "off + n"] s'(1) show ?case by simp
qed

lemma async_insert_answers:
  assumes "\<not> is_closed s" and "patient (clock p) (base_retry s)"
  shows "fst (insert_events_async p es None s) = Inr [] \<and> same_client s (snd (insert_events_async p es None s))"
proof -
  have step: "fst (submit_batch_async p None op chunk u) = Inr [] \<and>
      same_client s (snd (submit_batch_async p None op chunk u))" if u: "same_client s u" for op and chunk :: "geo_event list" and u
  proof -
    have "\<not> is_closed u" "patient (clock p) (base_retry u)" using assms same_client_fields [OF u] by simp_all
    then obtain w where "submit_batch_async p None op chunk u = (Inr [], u\<lparr>world := w\<rparr>)"
      using skeleton_answers(2) by blast
    then show ?thesis using same_client_trans [OF u, of "u\<lparr>world := w\<rparr>"] by simp
  qed
  have "fst (submit_chunks (submit_batch_async p None) INSERT_EVENTS n 0 cs [] s) = Inr [] \<and>
      same_client s (snd (submit_chunks (submit_batch_async p None) INSERT_EVENTS n 0 cs [] s))"
    for n and cs :: "geo_event list list"
    by (rule submit_chunks_clean) (use step in auto)
  then show ?thesis by (simp add: insert_events_async_def submit_multi_batch_async_def BATCH_SIZE_MAX_def)
qed

lemma async_delete_answers:
  assumes "\<not> is_closed s" and "patient (clock p) (base_retry s)"
    and "0 \<notin> set ids" and "length ids \<le> BATCH_SIZE_MAX"
  shows "\<exists>s'. same_client s s' \<and>
    delete_entities_async p ids s = (Inr \<lparr>deleted_count = int (length ids), dr_not_found_count = 0\<rparr>, s')"
proof -
  obtain b where b: "add_all async_delete_batch_add ids create_delete_batch_async = Inr b"
    using async_delete_builder.add_all_accepts [of ids create_delete_batch_async] assms(3,4)
    by (auto simp: create_delete_batch_async_def new_delete_batch_def)
  then have ids: "db_entity_ids b = ids"
    using async_delete_builder.add_all_Inr [of ids create_delete_batch_async b]
    by (simp add: create_delete_batch_async_def new_delete_batch_def)
  obtain w where "submit_batch_async p None DELETE_ENTITIES ids s = (Inr [], s\<lparr>world := w\<rparr>)"
    using skeleton_answers(2) [OF assms(1,2)] by blast
  then show ?thesis
    using b ids by (cases "ids = []") (auto simp: delete_entities_async_def async_delete_batch_commit_def)
qed

lemma assign_results_missing:
  "(\<forall>k < length xs. int (i + k) \<in> missing) \<Longrightarrow>
     assign_results missing i xs es m = (\<lambda>x. if x \<in> set xs then Some None else m x)"
proof (induction xs arbitrary: i m)
  case Nil
  then show ?case by simp
next
  case (Cons x xs)
  have "int i \<in> missing" using Cons.prems by force
  moreover have "\<forall>k < length xs. int (Suc i + k) \<in> missing"
    using Cons.prems by (metis Suc_less_eq add_Suc_shift length_Cons)
  ultimately have "assign_results missing i (x # xs) es m = (\<lambda>y. if y \<in> set xs then Some None else (m(x \<mapsto> None)) y)"
    using Cons.IH [of "Suc i" "m(x \<mapsto> None)"] by (simp only: assign_results.simps if_True)
  then show ?case by (auto simp: fun_eq_iff)
qed

lemma async_lookup_answers:
  assumes "\<not> is_closed s" and "patient (clock p) (base_retry s)" and "length ids \<le> 10000"
  shows "fst (get_latest_batch_async p ids s) = Inr (\<lambda>x. if x \<in> set ids then Some None else None)"
proof (cases "ids = []")
  case True
  with assms show ?thesis by (simp add: get_latest_batch_async_def)
next
  case False
  obtain w where w: "submit_batch_uuid_query_async p ids s = (Inr \<lparr>found_count = 0, not_found_count = int (length ids),
      not_found_indices = [0..int (length ids) - 1], batch_events = []\<rparr>, s\<lparr>world := w\<rparr>)"
    using skeleton_answers(3) [OF assms(1,2)] by blast
  have "assign_results (set [0..int (length ids) - 1]) 0 ids [] Map.empty
      = (\<lambda>x. if x \<in> set ids then Some None else None)"
    by (rule assign_results_missing) auto
  with False assms w show ?thesis by (simp add: get_latest_batch_async_def)
qed

lemma bare_native_raises:
  assumes "\<not> is_closed s" and "patient (clock p) (base_retry s)"
  shows "fst (run_admin_async p (through_native :: (unit \<times> nat, 'a) operation) s) = Inl (Builtin AttributeError)"
  using admin_raises [OF assms, of "through_native :: (unit \<times> nat, 'a) operation"]
  by (auto simp: through_native_def)

lemma async_native_raises:
  assumes "\<not> is_closed s" and "patient (clock p) (base_retry s)"
  shows "\<exists>w. get_topology_async p s = (Inl (Builtin AttributeError), s\<lparr>world := w\<rparr>)"
    and "0 \<le> bs \<Longrightarrow> \<exists>w. cleanup_expired_async p bs s = (Inl (Builtin AttributeError), s\<lparr>world := w\<rparr>)"
proof -
  obtain w where w: "run_admin_async p (\<lambda>st. case through_native st of
      (r, st) \<Rightarrow> (bindE r (\<lambda>raw. lift_builtin (topology_from_bytes raw)), st)) s
      = (Inl (Builtin AttributeError), s\<lparr>world := w\<rparr>)"
    using admin_raises [OF assms, of "\<lambda>st. case through_native st of
      (r, st) \<Rightarrow> (bindE r (\<lambda>raw. lift_builtin (topology_from_bytes raw)), st)"]
    by (auto simp: through_native_def)
  then show "\<exists>w. get_topology_async p s = (Inl (Builtin AttributeError), s\<lparr>world := w\<rparr>)"
    using assms(1) by (auto simp: get_topology_async_def)
  show "\<exists>w. cleanup_expired_async p bs s = (Inl (Builtin AttributeError), s\<lparr>world := w\<rparr>)" if "0 \<le> bs"
    using that assms by (simp add: cleanup_expired_async_def through_native_def admin_raises)
qed

text \<open>Tasks that the other coroutines leave alone: every shard answers with nothing.\<close>

lemma run_tasks_empty:
  assumes "\<And>u. same_client s u \<Longrightarrow> \<exists>w. query u = (Inr r, u\<lparr>world := w\<rparr>)" and "\<And>i. others i = Some id"
  shows "same_client s u \<Longrightarrow> \<exists>u'. same_client s u' \<and>
    run_tasks others query i ps u = (replicate (length ps) (Some (Inr r)), u')"
proof (induction ps arbitrary: i u)
  case Nil
  then show ?case by auto
next
  case (Cons prim rest)
  obtain w where w: "query u = (Inr r, u\<lparr>world := w\<rparr>)" using assms(1) [OF Cons.prems] by blast
  have "same_client s (u\<lparr>world := w\<rparr>)" using same_client_trans [OF Cons.prems] by simp
  from Cons.IH [OF this, of "Suc i"] w assms(2) show ?case by auto
qed

lemma collect_async_good:
  "collect_async partial i (map (\<lambda>r. Some (Inr r)) rs) results failures = Inr (results @ rs, failures)"
  by (induction rs arbitrary: i results) auto

lemma seen_events_pages: "seen_events (replicate n (page limit [])) = []"
  by (induction n) (simp_all add: seen_events_def page_def)

text \<open>With a topology in the cache, a scatter query counts every shard and finds nothing.\<close>

lemma async_scatter_empty:
  assumes "\<not> is_closed s" and "patient (clock p) (base_retry s)" and "topology (sdk_cache s) = Some t"
    and "create_radius_query la lo ra li tmin tmax gid = Inr q"
  shows "\<exists>res. fst (query_radius_scatter_async p (\<lambda>i. Some id) la lo ra li tmin tmax gid cfg s) = Inr res \<and>
    sg_events res = [] \<and> partial_failures res = [] \<and> length (shard_results res) = length (shards t)"
proof -
  let ?query = "\<lambda>s. then_do (submit_query_async p (RadiusFilter q) s) (\<lambda>es s. (Inr (page (rf_limit q) es), s))"
  let ?ps = "map primary (shards t)" and ?r = "page (rf_limit q) []"
  have "\<exists>w. ?query u = (Inr ?r, u\<lparr>world := w\<rparr>)" if u: "same_client s u" for u
    using skeleton_answers(1) [of u p "RadiusFilter q"] same_client_fields [OF u] assms(1,2) by fastforce
  from run_tasks_empty [of s ?query, OF this, of "\<lambda>i. Some id" s 0 ?ps] obtain u' where
    tasks: "run_tasks (\<lambda>i. Some id) ?query 0 ?ps s = (map (\<lambda>r. Some (Inr r)) (replicate (length ?ps) ?r), u')"
    by (auto simp: map_replicate)
  have "sg_events (merge_results (replicate n ?r) li) = []" for n
    by (simp add: merge_events seen_events_pages sort_recent_def)
  moreover have "length (shard_results (merge_results (replicate n ?r) li)) = n" for n
    by (simp add: merge_results_def Let_def)
  ultimately show ?thesis
    using assms(1,3,4) tasks
    by (simp add: query_radius_scatter_async_def load_topology_async_def cache_get_def scatter_async_def
      get_all_shard_primaries_def execute_async_def collect_async_good empty_scatter_result_def Let_def
      lift_builtin_def del: map_replicate)
qed

text \<open>A closed client turns every call away before the retry loop.\<close>

lemma async_closed_rejects:
  assumes "is_closed s" and "es \<noteq> []"
  shows "turned_away s (insert_events_async p es opts s)" "turned_away s (upsert_events_async p es opts s)"
    "turned_away s (get_latest_by_uuid_async p entity s)" "turned_away s (ping_async p s)"
    "turned_away s (get_topology_async p s)" "turned_away s (cleanup_expired_async p bs s)"
  using assms
  by (simp_all add: turned_away_def insert_events_async_def upsert_events_async_def submit_multi_batch_async_def
    submit_batch_async_def chunks_step BATCH_SIZE_MAX_def get_latest_by_uuid_async_def ping_async_def
    get_topology_async_def cleanup_expired_async_def)

text \<open>
  The router is told that the topology was refreshed although the callback refreshed
  nothing: the cache is as before.
\<close>

lemma async_router_claims_refresh:
  "async_router_handle (NotShardLeaderError sid hint) s = (True, s)"
  by (simp add: async_router_handle_def handle_not_shard_leader_def refresh_topology_callback_def)

subsection \<open>Properties\<close>


definition async_platform :: "unit platform" where
  "async_platform =
     \<lparr>link_connected = \<lambda>n. False, link_connect = \<lambda>n. (False, n), link_disconnect = \<lambda>n. n,
      link_submit = \<lambda>op wire n. (Inl AttributeError, n),
      clock = \<lambda>i. Fin 0, random = \<lambda>i. Fin 0, clock_ns = \<lambda>i. 0\<rparr>"


text \<open>No administrative operation of an open asynchronous client ever works: ping, status,
  cleanup, the TTL operations and the topology query raise \<open>AttributeError\<close>, without a
  retry and without a change of the cache, so the topology stays unknown and every
  scatter query raises as well, even for invalid coordinates.\<close>

theorem async_admin_always_raises:
  assumes "\<not> is_closed s" and "patient (clock p) (base_retry s)" and "0 \<le> bs"
    and "cache_get (sdk_cache s) = None"
  shows "fst (ping_async p s) = Inl (Builtin AttributeError) \<and>
    fst (get_status_async p s) = Inl (Builtin AttributeError) \<and>
    fst (cleanup_expired_async p bs s) = Inl (Builtin AttributeError) \<and>
    fst (set_ttl_async p entity ttl s) = Inl (Builtin AttributeError) \<and>
    fst (extend_ttl_async p entity ttl s) = Inl (Builtin AttributeError) \<and>
    fst (clear_ttl_async p entity s) = Inl (Builtin AttributeError) \<and>
    fst (refresh_topology_async p s) = Inl (Builtin AttributeError) \<and>
    cache_get (sdk_cache (snd (refresh_topology_async p s))) = None \<and>
    fst (query_radius_scatter_async p others la lo ra li tmin tmax gid cfg s) = Inl (Builtin AttributeError)"
proof -
  obtain w where w: "get_topology_async p s = (Inl (Builtin AttributeError), s\<lparr>world := w\<rparr>)"
    using async_native_raises(1) [OF assms(1,2)] by blast
  obtain w' where "cleanup_expired_async p bs s = (Inl (Builtin AttributeError), s\<lparr>world := w'\<rparr>)"
    using async_native_raises(2) [OF assms(1-3)] by blast
  then show ?thesis
    using assms(1,2,4) w
    by (simp add: bare_native_raises ping_async_def get_status_async_def set_ttl_async_def extend_ttl_async_def
      clear_ttl_async_def refresh_topology_async_def query_radius_scatter_async_def load_topology_async_def)
qed

theorem async_admin_always_raises_witness:
  "fst (ping_async async_platform (fresh_client ())) = Inl (Builtin AttributeError) \<and>
   fst (query_radius_scatter_async async_platform (\<lambda>i. Some id) (Fin 500) (Fin 0) (Fin 1) 10 0 0 0 None
     (fresh_client ())) = Inl (Builtin AttributeError)"
proof -
  have "\<not> is_closed (fresh_client ())" "patient (clock async_platform) (base_retry (fresh_client ()))"
    "cache_get (sdk_cache (fresh_client ())) = None"
    using default_patient by (simp_all add: async_platform_def fresh_client_def cache_get_def new_cache_def)
  from async_admin_always_raises [OF this(1,2) _ this(3), of 0] show ?thesis by simp
qed

end
