(* ===== verification/Bench_Run.thy ===== *)
theory Bench_Run
  imports Py_Float
begin

section \<open>Running a benchmark\<close>

text \<open>
  \<open>test_infrastructure/benchmarks/\<close>: \<open>config.py\<close>, \<open>executor.py\<close> and \<open>histogram.py\<close>.  A
  workload is a function on a state of its own that returns a sample or raises; the clock is
  a sequence of readings in nanoseconds.  Parameters: the HDR histogram library, which may
  be missing, and the mean and standard deviation of \<open>statistics\<close>.  The progress display
  is left out.
\<close>

subsection \<open>Configuration\<close>

record benchmark_config =
  bc_topology :: int
  time_limit_sec :: pyfloat
  op_count_limit :: int
  min_samples :: int
  target_samples :: int
  warmup_iterations :: int
  target_cv :: pyfloat
  max_stability_runs :: int
  data_pattern :: string
  data_size :: int
  bc_seed :: "int option"
  read_write_ratio :: pyfloat

text \<open>The defaults; the warmup iterations come from a protocol file when there is one.\<close>

definition default_benchmark_config :: "int option \<Rightarrow> benchmark_config" where
  "default_benchmark_config protocol =
     \<lparr>bc_topology = 3, time_limit_sec = Fin 60, op_count_limit = 10000, min_samples = 1000,
      target_samples = 10000, warmup_iterations = (case protocol of Some n \<Rightarrow> n | None \<Rightarrow> 100),
      target_cv = Fin (fl (1 / 10)), max_stability_runs = 10, data_pattern = ''uniform'',
      data_size = 10000, bc_seed = None, read_write_ratio = Fin 1\<rparr>"

definition check_config :: "benchmark_config \<Rightarrow> (py_exn, unit) result" where
  "check_config c =
     (if bc_topology c \<notin> {1, 3, 5, 6} then Inl ValueError
      else if data_pattern c \<notin> {''uniform'', ''city_concentrated'', ''hotspot''} then Inl ValueError
      else if \<not> (f_le (Fin 0) (read_write_ratio c) \<and> f_le (read_write_ratio c) (Fin 1)) then Inl ValueError
      else if min_samples c < 1 then Inl ValueError
      else if f_le (time_limit_sec c) (Fin 0) then Inl ValueError
      else if op_count_limit c < 1 then Inl ValueError
      else Inr ())"

subsection \<open>The executor\<close>

record sample =
  latency_ns :: int
  sm_timestamp_ns :: int
  success :: bool

record benchmark_result =
  br_samples :: "sample list"
  br_config :: benchmark_config
  duration_ns :: int
  warmup_stable :: bool

type_synonym 's workload = "'s \<Rightarrow> (py_exn, sample) result \<times> 's"

text \<open>
  The measuring loop: \<open>left\<close> operations may still be made, \<open>i\<close> is the next clock reading.
  The time is checked before the count.
\<close>

fun measure ::
    "'s workload \<Rightarrow> (nat \<Rightarrow> int) \<Rightarrow> int \<Rightarrow> int \<Rightarrow> nat \<Rightarrow> nat \<Rightarrow> sample list \<Rightarrow> 's \<Rightarrow>
     (py_exn, sample list) result \<times> nat \<times> 's" where
  "measure w clock limit start 0 i samples s = (Inr samples, Suc i, s)"
| "measure w clock limit start (Suc left) i samples s =
     (if limit \<le> clock i - start then (Inr samples, Suc i, s)
      else
        case w s of
          (Inl e, s) \<Rightarrow> (Inl e, Suc i, s)
        | (Inr sample, s) \<Rightarrow> measure w clock limit start left (Suc i) (samples @ [sample]) s)"

definition bench_run ::
    "benchmark_config \<Rightarrow> 's workload \<Rightarrow> (nat \<Rightarrow> int) \<Rightarrow> nat \<Rightarrow> 's \<Rightarrow>
     (py_exn, benchmark_result) result \<times> nat \<times> 's" where
  "bench_run c w clock i s =
     (let start = clock i in
      case py_int (f_mul (time_limit_sec c) (Fin 1000000000)) of
        Inl e \<Rightarrow> (Inl e, Suc i, s)
      | Inr limit \<Rightarrow>
          (case measure w clock limit start (nat (op_count_limit c)) (Suc i) [] s of
             (Inl e, i, s) \<Rightarrow> (Inl e, i, s)
           | (Inr samples, i, s) \<Rightarrow>
               let duration = clock i - start in
               (if int (length samples) < min_samples c then Inl ValueError
                else Inr \<lparr>br_samples = samples, br_config = c, duration_ns = duration, warmup_stable = True\<rparr>,
                Suc i, s)))"

text \<open>Warmup: the first calls, and the further ones while the last thirty are not stable.\<close>

record stats_lib =
  stat_mean :: "int list \<Rightarrow> pyfloat"
  stat_stdev :: "int list \<Rightarrow> pyfloat"

fun warm_calls :: "'s workload \<Rightarrow> nat \<Rightarrow> int list \<Rightarrow> 's \<Rightarrow> (py_exn, int list) result \<times> 's" where
  "warm_calls w 0 latencies s = (Inr latencies, s)"
| "warm_calls w (Suc n) latencies s =
     (case w s of
        (Inl e, s) \<Rightarrow> (Inl e, s)
      | (Inr sample, s) \<Rightarrow> warm_calls w n (latencies @ [latency_ns sample]) s)"

definition last_30 :: "int list \<Rightarrow> int list" where
  "last_30 latencies = drop (length latencies - 30) latencies"

definition window_stable :: "stats_lib \<Rightarrow> benchmark_config \<Rightarrow> int list \<Rightarrow> (py_exn, bool) result" where
  "window_stable lib c latencies =
     (if length latencies < 30 then Inr False
      else
        let recent = last_30 latencies; mean = stat_mean lib recent in
        if f_lt (Fin 0) mean
        then bindE (f_div (stat_stdev lib recent) mean) (\<lambda>cv. Inr (f_lt cv (target_cv c)))
        else Inr False)"

fun stabilize ::
    "stats_lib \<Rightarrow> benchmark_config \<Rightarrow> 's workload \<Rightarrow> nat \<Rightarrow> int list \<Rightarrow> 's \<Rightarrow> (py_exn, bool) result \<times> 's" where
  "stabilize lib c w 0 latencies s = (Inr False, s)"
| "stabilize lib c w (Suc n) latencies s =
     (case window_stable lib c latencies of
        Inl e \<Rightarrow> (Inl e, s)
      | Inr True \<Rightarrow> (Inr True, s)
      | Inr False \<Rightarrow>
          (case w s of
             (Inl e, s) \<Rightarrow> (Inl e, s)
           | (Inr sample, s) \<Rightarrow> stabilize lib c w n (latencies @ [latency_ns sample]) s))"

definition bench_warmup ::
    "stats_lib \<Rightarrow> benchmark_config \<Rightarrow> 's workload \<Rightarrow> 's \<Rightarrow> (py_exn, bool) result \<times> 's" where
  "bench_warmup lib c w s =
     (case warm_calls w (nat (warmup_iterations c)) [] s of
        (Inl e, s) \<Rightarrow> (Inl e, s)
      | (Inr latencies, s) \<Rightarrow> stabilize lib c w (nat (max_stability_runs c * warmup_iterations c)) latencies s)"

definition run_with_warmup ::
    "stats_lib \<Rightarrow> benchmark_config \<Rightarrow> 's workload \<Rightarrow> (nat \<Rightarrow> int) \<Rightarrow> nat \<Rightarrow> 's \<Rightarrow>
     (py_exn, benchmark_result) result \<times> nat \<times> 's" where
  "run_with_warmup lib c w clock i s =
     (case bench_warmup lib c w s of
        (Inl e, s) \<Rightarrow> (Inl e, i, s)
      | (Inr settled, s) \<Rightarrow>
          (case bench_run c w clock i s of
             (Inl e, i, s) \<Rightarrow> (Inl e, i, s)
           | (Inr r, i, s) \<Rightarrow> (Inr (r\<lparr>warmup_stable := settled\<rparr>), i, s)))"

subsection \<open>The latency histogram\<close>

record 'h hdr_lib =
  hdr_new :: "int \<Rightarrow> int \<Rightarrow> int \<Rightarrow> 'h"
  hdr_record :: "int \<Rightarrow> 'h \<Rightarrow> 'h"
  hdr_value_at :: "pyfloat \<Rightarrow> 'h \<Rightarrow> int"
  hdr_reset :: "'h \<Rightarrow> 'h"

record 'h latency_histogram =
  lh_min_value :: int
  lh_max_value :: int
  lh_digits :: int
  lh_count :: int
  lh_max_recorded :: int
  lh_hdr :: "'h option"
  lh_samples :: "int list"

definition new_latency_histogram :: "'h hdr_lib option \<Rightarrow> int \<Rightarrow> int \<Rightarrow> int \<Rightarrow> 'h latency_histogram" where
  "new_latency_histogram lib low high digits =
     \<lparr>lh_min_value = low, lh_max_value = high, lh_digits = digits, lh_count = 0, lh_max_recorded = 0,
      lh_hdr = map_option (\<lambda>l. hdr_new l low high digits) lib, lh_samples = []\<rparr>"

definition clamp_latency :: "'h latency_histogram \<Rightarrow> int \<Rightarrow> int" where
  "clamp_latency h x = max (lh_min_value h) (min x (lh_max_value h))"

definition record_latency :: "'h hdr_lib option \<Rightarrow> int \<Rightarrow> 'h latency_histogram \<Rightarrow> 'h latency_histogram" where
  "record_latency lib latency h =
     (let v = clamp_latency h latency;
          h = h\<lparr>lh_count := lh_count h + 1, lh_max_recorded := max (lh_max_recorded h) v\<rparr>
      in case (lh_hdr h, lib) of
           (Some t, Some l) \<Rightarrow> h\<lparr>lh_hdr := Some (hdr_record l v t)\<rparr>
         | _ \<Rightarrow> h\<lparr>lh_samples := lh_samples h @ [v]\<rparr>)"

text \<open>\<open>xs[i]\<close>: a negative index counts from the end.\<close>

definition py_nth :: "'a list \<Rightarrow> int \<Rightarrow> (py_exn, 'a) result" where
  "py_nth xs i =
     (let n = int (length xs) in
      if 0 \<le> i \<and> i < n then Inr (xs ! nat i)
      else if i < 0 \<and> - n \<le> i then Inr (xs ! nat (n + i))
      else Inl IndexError)"

definition fallback_percentile :: "pyfloat \<Rightarrow> 'h latency_histogram \<Rightarrow> (py_exn, int) result" where
  "fallback_percentile p h =
     (if lh_samples h = [] then Inr 0
      else
        let sorted_samples = sort (lh_samples h) in
        bindE (f_div p (Fin 100)) (\<lambda>q.
        bindE (float_of_int (int (length sorted_samples) - 1)) (\<lambda>n.
        bindE (py_int (f_mul q n)) (\<lambda>idx.
        py_nth sorted_samples idx))))"

definition percentile :: "'h hdr_lib option \<Rightarrow> pyfloat \<Rightarrow> 'h latency_histogram \<Rightarrow> (py_exn, int) result" where
  "percentile lib p h =
     (if lh_count h = 0 then Inr 0
      else case (lh_hdr h, lib) of
        (Some t, Some l) \<Rightarrow> Inr (hdr_value_at l p t)
      | _ \<Rightarrow> fallback_percentile p h)"

definition percentiles :: "'h hdr_lib option \<Rightarrow> 'h latency_histogram \<Rightarrow> (py_exn, (string \<times> int) list) result" where
  "percentiles lib h =
     bindE (percentile lib (Fin 50) h) (\<lambda>p50.
     bindE (percentile lib (Fin 95) h) (\<lambda>p95.
     bindE (percentile lib (Fin 99) h) (\<lambda>p99.
     bindE (percentile lib (Fin (fl (999 / 10))) h) (\<lambda>p999.
     Inr [(''p50'', p50), (''p95'', p95), (''p99'', p99), (''p999'', p999), (''max'', lh_max_recorded h)]))))"

definition reset_histogram :: "'h hdr_lib option \<Rightarrow> 'h latency_histogram \<Rightarrow> 'h latency_histogram" where
  "reset_histogram lib h =
     (let h = h\<lparr>lh_count := 0, lh_max_recorded := 0\<rparr> in
      case (lh_hdr h, lib) of
        (Some t, Some l) \<Rightarrow> h\<lparr>lh_hdr := Some (hdr_reset l t)\<rparr>
      | _ \<Rightarrow> h\<lparr>lh_samples := []\<rparr>)"

definition from_samples :: "'h hdr_lib option \<Rightarrow> int list \<Rightarrow> 'h latency_histogram" where
  "from_samples lib samples =
     fold (record_latency lib) samples (new_latency_histogram lib 1 3600000000 3)"

subsection \<open>What a run collects\<close>

text \<open>The samples of consecutive calls of a workload.\<close>

fun sampled :: "'s workload \<Rightarrow> nat \<Rightarrow> 's \<Rightarrow> (sample list \<times> 's) option" where
  "sampled w 0 s = Some ([], s)"
| "sampled w (Suc n) s =
     (case w s of
        (Inl e, s) \<Rightarrow> None
      | (Inr x, s) \<Rightarrow> (case sampled w n s of None \<Rightarrow> None | Some (xs, s) \<Rightarrow> Some (x # xs, s)))"

lemma sampled_length: "sampled w n s = Some (xs, s') \<Longrightarrow> length xs = n"
  by (induction n arbitrary: s xs) (auto split: prod.splits sum.splits option.splits)

lemma measure_follows:
  "measure w clock limit start left i acc s = (Inr out, j, s') \<Longrightarrow>
     \<exists>k xs. out = acc @ xs \<and> sampled w k s = Some (xs, s') \<and> k \<le> left \<and> j = Suc (i + k) \<and>
       (k = left \<or> limit \<le> clock (i + k) - start) \<and> (\<forall>m < k. clock (i + m) - start < limit)"
proof (induction left arbitrary: i acc s)
  case 0
  then show ?case by auto
next
  case (Suc left)
  show ?case
  proof (cases "limit \<le> clock i - start")
    case True
    with Suc.prems show ?thesis by (intro exI [of _ 0] exI [of _ "[]"]) auto
  next
    case False
    with Suc.prems obtain x u where x: "w s = (Inr x, u)"
      "measure w clock limit start left (Suc i) (acc @ [x]) u = (Inr out, j, s')"
      by (auto split: prod.splits sum.splits)
    from Suc.IH [OF x(2)] obtain k xs where k: "out = (acc @ [x]) @ xs" "sampled w k u = Some (xs, s')" "k \<le> left"
      "j = Suc (Suc i + k)" "k = left \<or> limit \<le> clock (Suc i + k) - start" "\<forall>m < k. clock (Suc i + m) - start < limit"
      by blast
    have "\<forall>m < Suc k. clock (i + m) - start < limit" using k(6) False by (auto simp: less_Suc_eq_0_disj)
    with k x(1) show ?thesis by (intro exI [of _ "Suc k"] exI [of _ "x # xs"]) auto
  qed
qed

lemma measure_error:
  "measure w clock limit start left i acc s = (Inl e, j, s') \<Longrightarrow> \<exists>u. w u = (Inl e, s')"
  by (induction left arbitrary: i acc s) (auto split: if_splits prod.splits sum.splits)

lemma warm_calls_follow:
  "warm_calls w n acc s = (Inr out, s') \<Longrightarrow> \<exists>xs. sampled w n s = Some (xs, s') \<and> out = acc @ map latency_ns xs"
proof (induction n arbitrary: acc s)
  case 0
  then show ?case by simp
next
  case (Suc n)
  then obtain x u where x: "w s = (Inr x, u)" "warm_calls w n (acc @ [latency_ns x]) u = (Inr out, s')"
    by (auto split: prod.splits sum.splits)
  from Suc.IH [OF x(2)] x(1) show ?case by auto
qed

lemma stabilize_follows:
  "stabilize lib c w n acc s = (Inr b, s') \<Longrightarrow>
     \<exists>k xs. k \<le> n \<and> sampled w k s = Some (xs, s') \<and>
       (if b then window_stable lib c (acc @ map latency_ns xs) = Inr True else k = n) \<and>
       (\<forall>m < k. window_stable lib c (acc @ map latency_ns (take m xs)) = Inr False)"
proof (induction n arbitrary: acc s)
  case 0
  then show ?case by auto
next
  case (Suc n)
  show ?case
  proof (cases "window_stable lib c acc")
    case (Inl e)
    with Suc.prems show ?thesis by simp
  next
    case st: (Inr d)
    show ?thesis
    proof (cases d)
      case True
      with Suc.prems st show ?thesis by (intro exI [of _ 0] exI [of _ "[]"]) auto
    next
      case False
      with Suc.prems st obtain x u where x: "w s = (Inr x, u)"
        "stabilize lib c w n (acc @ [latency_ns x]) u = (Inr b, s')"
        by (auto split: prod.splits sum.splits)
      from Suc.IH [OF x(2)] obtain k xs where k: "k \<le> n" "sampled w k u = Some (xs, s')"
        "if b then window_stable lib c ((acc @ [latency_ns x]) @ map latency_ns xs) = Inr True else k = n"
        "\<forall>m < k. window_stable lib c ((acc @ [latency_ns x]) @ map latency_ns (take m xs)) = Inr False"
        by blast
      have "\<forall>m < Suc k. window_stable lib c (acc @ map latency_ns (take m (x # xs))) = Inr False"
        using k(4) st False by (auto simp: less_Suc_eq_0_disj)
      moreover have "sampled w (Suc k) s = Some (x # xs, s')" using x(1) k(2) by simp
      ultimately show ?thesis using k(1,3)
        by (intro exI [of _ "Suc k"] exI [of _ "x # xs"]) (auto split: if_splits)
    qed
  qed
qed

subsection \<open>What a percentile is\<close>

text \<open>The rank that the fallback computes, in binary64.\<close>

definition rank_of :: "rat \<Rightarrow> nat \<Rightarrow> nat" where
  "rank_of p n = nat (trunc (fl (fl (p / 100) * of_nat (n - 1))))"

lemma rank_of_bound:
  assumes "0 \<le> p" "p \<le> 100" "0 < n" "n \<le> 2 ^ 53"
  shows "rank_of p n < n"
proof -
  have "0 \<le> fl (p / 100)" "fl (p / 100) \<le> 1"
    using fl_nonneg [of "p / 100"] fl_le_of_int [of "p / 100" 1] assms(1,2) by simp_all
  then have q: "fl (p / 100) * of_nat (n - 1) \<le> of_int (int (n - 1))"
    using mult_right_mono [of "fl (p / 100)" 1 "of_nat (n - 1)"] by simp
  have "\<bar>int (n - 1)\<bar> \<le> 2 ^ 53" using assms(4) by simp
  from fl_le_of_int [OF q this] have "fl (fl (p / 100) * of_nat (n - 1)) \<le> of_int (int (n - 1))" .
  moreover have "0 \<le> fl (fl (p / 100) * of_nat (n - 1))" using \<open>0 \<le> fl (p / 100)\<close> by (intro fl_nonneg) simp
  ultimately have "trunc (fl (fl (p / 100) * of_nat (n - 1))) \<le> int (n - 1)"
    by (simp add: trunc_def floor_le_iff)
  then show ?thesis using assms(3) by (simp add: rank_of_def)
qed

lemma rank_of_mono: "0 \<le> p \<Longrightarrow> p \<le> q \<Longrightarrow> rank_of p n \<le> rank_of q n"
proof -
  assume p: "0 \<le> p" "p \<le> q"
  have "fl (p / 100) \<le> fl (q / 100)" using p by (intro fl_mono) simp
  then have "fl (p / 100) * of_nat (n - 1) \<le> fl (q / 100) * of_nat (n - 1)" by (rule mult_right_mono) simp
  then have "fl (fl (p / 100) * of_nat (n - 1)) \<le> fl (fl (q / 100) * of_nat (n - 1))" by (rule fl_mono)
  moreover have "0 \<le> fl (fl (p / 100) * of_nat (n - 1))" using p(1) by (intro fl_nonneg mult_nonneg_nonneg) simp_all
  ultimately have "trunc (fl (fl (p / 100) * of_nat (n - 1))) \<le> trunc (fl (fl (q / 100) * of_nat (n - 1)))"
    by (simp add: trunc_def floor_mono)
  then show ?thesis by (simp add: rank_of_def)
qed

lemma fallback_percentile_eq:
  assumes "0 \<le> p" "p \<le> 100" "lh_samples h \<noteq> []" "length (lh_samples h) \<le> 2 ^ 53"
  shows "fallback_percentile (Fin p) h = Inr (sort (lh_samples h) ! rank_of p (length (lh_samples h)))"
proof -
  let ?n = "length (lh_samples h)"
  have n: "0 < ?n" using assms(3) by simp
  have "\<bar>p / 100\<bar> \<le> 2 ^ 1" using assms(1,2) by simp
  then have "mk_float (p / 100) = Fin (fl (p / 100))" by (rule mk_float_Fin) simp
  then have d: "f_div (Fin p) (Fin 100) = Inr (Fin (fl (p / 100)))" by simp
  have small: "\<bar>int ?n - 1\<bar> \<le> 2 ^ 53" using assms(4) n by simp
  have m: "float_of_int (int ?n - 1) = Inr (Fin (of_nat (?n - 1)))"
    using float_of_int_small [OF small] of_nat_diff [of 1 ?n, where 'a = rat] n by (simp add: Suc_leI)
  have q: "0 \<le> fl (p / 100)" "fl (p / 100) \<le> 1"
    using fl_nonneg [of "p / 100"] fl_le_of_int [of "p / 100" 1] assms(1,2) by simp_all
  have "fl (p / 100) * of_nat (?n - 1) \<le> 1 * of_nat (?n - 1)" by (rule mult_right_mono [OF q(2)]) simp
  also have "\<dots> \<le> 2 ^ 53"
  proof -
    have "(of_nat (?n - 1) :: rat) \<le> of_nat (2 ^ 53)" using assms(4) by (simp only: of_nat_le_iff)
    then show ?thesis by simp
  qed
  finally have "\<bar>fl (p / 100) * of_nat (?n - 1)\<bar> \<le> 2 ^ 53" using q(1) by simp
  then have f: "mk_float (fl (p / 100) * of_nat (?n - 1)) = Fin (fl (fl (p / 100) * of_nat (?n - 1)))"
    by (rule mk_float_Fin) simp
  have "0 \<le> fl (fl (p / 100) * of_nat (?n - 1))" using q(1) by (intro fl_nonneg) simp
  then have t: "trunc (fl (fl (p / 100) * of_nat (?n - 1))) = int (rank_of p ?n)"
    by (simp add: rank_of_def trunc_def)
  have "rank_of p ?n < ?n" using rank_of_bound [OF assms(1,2) n assms(4)] .
  then have "py_nth (sort (lh_samples h)) (int (rank_of p ?n)) = Inr (sort (lh_samples h) ! rank_of p ?n)"
    by (simp add: py_nth_def Let_def)
  with d m f t assms(3) show ?thesis by (simp add: fallback_percentile_def Let_def)
qed

text \<open>The histogram without the library, after any samples.\<close>

lemma recorded_samples:
  "lh_samples (fold (record_latency None) xs h) = lh_samples h @ map (clamp_latency h) xs \<and>
   lh_count (fold (record_latency None) xs h) = lh_count h + int (length xs) \<and>
   lh_max_recorded (fold (record_latency None) xs h) = fold max (map (clamp_latency h) xs) (lh_max_recorded h)"
proof (induction xs arbitrary: h)
  case Nil
  then show ?case by simp
next
  case (Cons x xs)
  have "clamp_latency (record_latency None x h) = clamp_latency h"
    by (auto simp: record_latency_def clamp_latency_def Let_def fun_eq_iff split: option.splits)
  with Cons.IH [of "record_latency None x h"] show ?case
    by (simp add: record_latency_def Let_def max.commute split: option.splits)
qed

subsection \<open>Properties\<close>

text \<open>C39: A run that returns holds the samples of consecutive calls of the workload, at least
  \<open>min_samples\<close> and at most \<open>op_count_limit\<close> of them; it stopped because that limit was
  reached or because the time was over, and the time was not over before any of the calls.
  A run that collects too few raises \<open>ValueError\<close>; so a configuration whose operation limit
  is below \<open>min_samples\<close>, which the check accepts, never returns a result.\<close>

theorem bench_run_collects:
  assumes "bench_run c w clock i s = (out, j, s')"
  shows "case out of
      Inr r \<Rightarrow> (\<exists>k limit. sampled w k s = Some (br_samples r, s') \<and> length (br_samples r) = k \<and>
         min_samples c \<le> int k \<and> k \<le> nat (op_count_limit c) \<and>
         py_int (f_mul (time_limit_sec c) (Fin 1000000000)) = Inr limit \<and>
         (k = nat (op_count_limit c) \<or> limit \<le> clock (Suc i + k) - clock i) \<and>
         (\<forall>m < k. clock (Suc i + m) - clock i < limit) \<and> duration_ns r = clock (Suc (Suc i + k)) - clock i)
    | Inl e \<Rightarrow> e = ValueError \<or> py_int (f_mul (time_limit_sec c) (Fin 1000000000)) = Inl e \<or> (\<exists>u. fst (w u) = Inl e)"
proof (cases "py_int (f_mul (time_limit_sec c) (Fin 1000000000))")
  case (Inl e)
  with assms show ?thesis by (auto simp: bench_run_def Let_def)
next
  case limit: (Inr limit)
  obtain r i' u where m: "measure w clock limit (clock i) (nat (op_count_limit c)) (Suc i) [] s = (r, i', u)"
    by (cases "measure w clock limit (clock i) (nat (op_count_limit c)) (Suc i) [] s") auto
  show ?thesis
  proof (cases r)
    case (Inl e)
    from measure_error [OF m [unfolded Inl]] obtain v where "w v = (Inl e, u)" by blast
    with assms limit m Inl show ?thesis by (auto simp: bench_run_def Let_def intro!: exI [of _ v])
  next
    case (Inr xs)
    from measure_follows [OF m [unfolded Inr]] obtain k ys where k: "xs = [] @ ys" "sampled w k s = Some (ys, u)"
      "k \<le> nat (op_count_limit c)" "i' = Suc (Suc i + k)"
      "k = nat (op_count_limit c) \<or> limit \<le> clock (Suc i + k) - clock i"
      "\<forall>m < k. clock (Suc i + m) - clock i < limit" by blast
    show ?thesis
    proof (cases "int (length xs) < min_samples c")
      case True
      with assms limit m Inr show ?thesis by (auto simp: bench_run_def Let_def)
    next
      case False
      with assms limit m Inr have "out = Inr \<lparr>br_samples = xs, br_config = c, duration_ns = clock i' - clock i,
          warmup_stable = True\<rparr>" "s' = u"
        by (simp_all add: bench_run_def Let_def)
      with k limit False sampled_length [OF k(2)] show ?thesis by auto
    qed
  qed
qed

definition ticking :: "nat \<Rightarrow> (py_exn, sample) result \<times> nat" where
  "ticking n = (Inr \<lparr>latency_ns = int n, sm_timestamp_ns = 0, success = True\<rparr>, Suc n)"

definition short_config :: benchmark_config where
  "short_config = (default_benchmark_config None)\<lparr>op_count_limit := 3, min_samples := 2\<rparr>"

theorem bench_run_collects_witness:
  "\<exists>r. bench_run short_config ticking (\<lambda>i. int i) 0 5 = (Inr r, 6, 8) \<and> length (br_samples r) = 3 \<and>
     sampled ticking 3 5 = Some (br_samples r, 8)"
proof -
  have "mk_float 60000000000 = Fin (fl (of_int 60000000000))" using mk_float_Fin [of 60000000000 40] by simp
  then have l: "py_int (f_mul (time_limit_sec short_config) (Fin 1000000000)) = Inr 60000000000"
    using fl_of_int [of 60000000000] trunc_of_int [of 60000000000]
    by (simp add: short_config_def default_benchmark_config_def)
  then obtain r where r: "bench_run short_config ticking (\<lambda>i. int i) 0 5 = (Inr r, 6, 8)" "length (br_samples r) = 3"
    by (simp add: bench_run_def Let_def short_config_def default_benchmark_config_def numeral_3_eq_3 ticking_def)
  from bench_run_collects [OF r(1)] r show ?thesis by auto
qed

text \<open>Warmup ends after at least \<open>warmup_iterations\<close> and at most
  \<open>(1 + max_stability_runs) * warmup_iterations\<close> calls; it reports success exactly when the
  last thirty latencies were found stable, and then at the first such moment.\<close>

theorem warmup_is_bounded:
  assumes "bench_warmup lib c w s = (Inr settled, s')" and "0 \<le> warmup_iterations c" and "0 \<le> max_stability_runs c"
  shows "\<exists>k xs. sampled w k s = Some (xs, s') \<and> warmup_iterations c \<le> int k \<and>
    int k \<le> (1 + max_stability_runs c) * warmup_iterations c \<and>
    (settled \<longrightarrow> window_stable lib c (map latency_ns xs) = Inr True) \<and>
    (\<not> settled \<longrightarrow> int k = (1 + max_stability_runs c) * warmup_iterations c) \<and>
    (\<forall>m < k. warmup_iterations c \<le> int m \<longrightarrow> window_stable lib c (map latency_ns (take m xs)) = Inr False)"
proof -
  let ?n = "nat (warmup_iterations c)" and ?more = "nat (max_stability_runs c * warmup_iterations c)"
  have append: "sampled w (a + b) s = Some (xs @ ys, v)"
    if "sampled w a s = Some (xs, u)" "sampled w b u = Some (ys, v)" for a b s xs u ys v
    using that by (induction a arbitrary: s xs) (auto split: prod.splits sum.splits option.splits)
  from assms(1) obtain ls u where warm: "warm_calls w ?n [] s = (Inr ls, u)"
    and st: "stabilize lib c w ?more ls u = (Inr settled, s')"
    by (auto simp: bench_warmup_def split: prod.splits sum.splits)
  from warm_calls_follow [OF warm] obtain xs where xs: "sampled w ?n s = Some (xs, u)" "ls = map latency_ns xs" by auto
  from stabilize_follows [OF st] obtain k ys where ys: "k \<le> ?more" "sampled w k u = Some (ys, s')"
    "if settled then window_stable lib c (ls @ map latency_ns ys) = Inr True else k = ?more"
    "\<forall>m < k. window_stable lib c (ls @ map latency_ns (take m ys)) = Inr False" by blast
  have len: "length xs = ?n" using sampled_length [OF xs(1)] .
  have before: "window_stable lib c (map latency_ns (take m (xs @ ys))) = Inr False"
    if "m < ?n + k" "warmup_iterations c \<le> int m" for m
  proof -
    have "m - ?n < k" "?n \<le> m" using that assms(2) by linarith+
    with ys(4) xs(2) len show ?thesis by simp
  qed
  have "int ?more = max_stability_runs c * warmup_iterations c" using assms(2,3) by simp
  moreover from this have "int k \<le> max_stability_runs c * warmup_iterations c" using ys(1) by linarith
  ultimately show ?thesis
    using append [OF xs(1) ys(2)] ys xs(2) assms(2) before
    by (intro exI [of _ "?n + k"] exI [of _ "xs @ ys"]) (auto simp: algebra_simps)
qed

definition steady_stats :: stats_lib where
  "steady_stats = \<lparr>stat_mean = (\<lambda>xs. Fin 10), stat_stdev = (\<lambda>xs. Fin 0)\<rparr>"

theorem warmup_is_bounded_witness:
  "\<exists>xs. sampled ticking 4 0 = Some (xs, 4)"
proof -
  let ?c = "(default_benchmark_config (Some 2))\<lparr>max_stability_runs := 1\<rparr>"
  have "bench_warmup steady_stats ?c ticking 0 = (Inr False, 4)"
    by (simp add: bench_warmup_def default_benchmark_config_def ticking_def window_stable_def numeral_2_eq_2)
  from warmup_is_bounded [OF this] show ?thesis by (auto simp: default_benchmark_config_def)
qed

text \<open>Without the HDR library the reported percentiles of a non-empty run are recorded values,
  clamped to the histogram's range, they do not decrease from p50 to p999, and none exceeds
  the reported maximum, which is the largest of them; an empty histogram reports zeros.\<close>

theorem percentiles_are_ordered:
  assumes "length xs \<le> 2 ^ 53"
  shows "\<exists>a b c d m. percentiles (None :: 'h hdr_lib option) (from_samples None xs) =
      Inr [(''p50'', a), (''p95'', b), (''p99'', c), (''p999'', d), (''max'', m)] \<and>
    a \<le> b \<and> b \<le> c \<and> c \<le> d \<and> d \<le> m \<and>
    (if xs = [] then a = 0 \<and> m = 0
     else {a, b, c, d} \<subseteq> set (map (\<lambda>x. max 1 (min x 3600000000)) xs) \<and>
       m = Max (set (map (\<lambda>x. max 1 (min x 3600000000)) xs)))"
proof -
  let ?h = "from_samples (None :: 'h hdr_lib option) xs" and ?ys = "map (\<lambda>x. max 1 (min x (3600000000 :: int))) xs"
  have h: "lh_samples ?h = ?ys" "lh_count ?h = int (length xs)" "lh_max_recorded ?h = fold max ?ys 0"
    using recorded_samples [of xs "new_latency_histogram (None :: 'h hdr_lib option) 1 3600000000 3"]
    by (simp_all add: from_samples_def new_latency_histogram_def clamp_latency_def [abs_def])
  show ?thesis
  proof (cases "xs = []")
    case True
    with h show ?thesis by (simp add: percentiles_def percentile_def)
  next
    case False
    let ?n = "length ?ys" and ?v = "\<lambda>p. sort ?ys ! rank_of p (length ?ys)"
    have ne: "lh_samples ?h \<noteq> []" and n: "0 < ?n" "?n \<le> 2 ^ 53" using False h assms by simp_all
    have len: "length (lh_samples ?h) \<le> 2 ^ 53" using h assms by simp
    have hi: "fl (999 / 10) \<le> 100" "99 \<le> fl (999 / 10)"
      using fl_le_of_int [of "999 / 10" 100] fl_ge_of_int [of 99 "999 / 10"] by simp_all
    have p: "percentile (None :: 'h hdr_lib option) (Fin p) ?h = Inr (?v p)" if "0 \<le> p" "p \<le> 100" for p
      using fallback_percentile_eq [OF that ne len] h False by (simp add: percentile_def split: option.splits)
    have "percentiles (None :: 'h hdr_lib option) ?h = Inr [(''p50'', ?v 50), (''p95'', ?v 95), (''p99'', ?v 99),
        (''p999'', ?v (fl (999 / 10))), (''max'', lh_max_recorded ?h)]"
      using p [of 50] p [of 95] p [of 99] p [of "fl (999 / 10)"] hi by (simp add: percentiles_def)
    moreover have mono: "?v p \<le> ?v q" if "0 \<le> p" "p \<le> q" "q \<le> 100" for p q
      using rank_of_mono [OF that(1,2), of ?n] rank_of_bound [of q ?n] that n
      by (intro sorted_nth_mono) simp_all
    moreover have mem: "?v p \<in> set ?ys" if "0 \<le> p" "p \<le> 100" for p
      using rank_of_bound [OF that n] nth_mem [of "rank_of p ?n" "sort ?ys"] by simp
    moreover have mx: "lh_max_recorded ?h = Max (set ?ys)"
    proof -
      have "fold max ?ys 0 = Max (insert 0 (set ?ys))" using Max.set_eq_fold [of 0 ?ys] by simp
      moreover have "Max (insert 0 (set ?ys)) = Max (set ?ys)"
        using False by (intro Max_eqI) (auto simp: Max_ge_iff intro: Max_in)
      ultimately show ?thesis using h(3) by simp
    qed
    moreover have "?v (fl (999 / 10)) \<le> Max (set ?ys)" using mem [of "fl (999 / 10)"] hi by (intro Max_ge) simp_all
    ultimately show ?thesis
      using False hi mono [of 50 95] mono [of 95 99] mono [of 99 "fl (999 / 10)"] mem [of 50] mem [of 95] mem [of 99]
        mem [of "fl (999 / 10)"] by (intro exI conjI) auto
  qed
qed

theorem percentiles_are_ordered_witness:
  "\<exists>ps. percentiles (None :: unit hdr_lib option) (from_samples None [3, 9, 4]) = Inr ps \<and> map_of ps ''max'' = Some 9"
proof -
  have "Max (set (map (\<lambda>x. max 1 (min x 3600000000)) [3, 9, 4])) = (9 :: int)" by simp
  with percentiles_are_ordered [of "[3, 9, 4]", where 'h = unit] show ?thesis by fastforce
qed

end
