(* ===== verification/Bench_Compare.thy ===== *)
theory Bench_Compare
  imports Bench_Run "HOL-Library.AList"
begin

section \<open>Judging benchmark results\<close>

text \<open>
  \<open>regression.py\<close>, \<open>history.py\<close> and \<open>scalability.py\<close> of
  \<open>test_infrastructure/benchmarks/\<close>: comparison with a baseline, the regression report, and
  the scaling factors.  A result is an association list from metric names to floats; a key
  \<open>error\<close> marks a failed benchmark.  Reading and writing of the baseline files, time stamps
  and the text of the reports are left out.
\<close>

subsection \<open>The regression report\<close>

datatype metric_status = Regression | Improvement | Unchanged

type_synonym metrics = "(string \<times> pyfloat) list"

definition change_percent :: "pyfloat \<Rightarrow> pyfloat \<Rightarrow> (py_exn, pyfloat) result" where
  "change_percent current base = bindE (f_div (f_sub current base) base) (\<lambda>q. Inr (f_mul q (Fin 100)))"

definition compare_metric ::
    "pyfloat \<Rightarrow> pyfloat \<Rightarrow> bool \<Rightarrow> pyfloat \<Rightarrow> (py_exn, metric_status \<times> pyfloat) result" where
  "compare_metric current base higher_is_better threshold =
     (if base = Fin 0 then Inr (Unchanged, Fin 0)
      else bindE (change_percent current base) (\<lambda>change.
        Inr (if higher_is_better
             then (if f_lt change (f_neg threshold) then (Regression, change)
                   else if f_lt threshold change then (Improvement, change)
                   else (Unchanged, change))
             else (if f_lt threshold change then (Regression, change)
                   else if f_lt change (f_neg threshold) then (Improvement, change)
                   else (Unchanged, change)))))"

record comparison =
  cm_metric :: string
  cm_current :: pyfloat
  cm_baseline :: pyfloat
  cm_change_pct :: pyfloat
  cm_status :: metric_status

record comparison_lists =
  cl_regressions :: "comparison list"
  cl_improvements :: "comparison list"
  cl_unchanged :: "comparison list"
  cl_comparisons :: "(string \<times> comparison) list"

definition empty_comparison_lists :: comparison_lists where
  "empty_comparison_lists = \<lparr>cl_regressions = [], cl_improvements = [], cl_unchanged = [], cl_comparisons = []\<rparr>"

definition file_comparison :: "string \<Rightarrow> comparison \<Rightarrow> comparison_lists \<Rightarrow> comparison_lists" where
  "file_comparison key c r =
     (let r = r\<lparr>cl_comparisons := AList.update key c (cl_comparisons r)\<rparr> in
      case cm_status c of
        Regression \<Rightarrow> r\<lparr>cl_regressions := cl_regressions r @ [c]\<rparr>
      | Improvement \<Rightarrow> r\<lparr>cl_improvements := cl_improvements r @ [c]\<rparr>
      | Unchanged \<Rightarrow> r\<lparr>cl_unchanged := cl_unchanged r @ [c]\<rparr>)"

text \<open>The metrics the report looks at, in order: the key, the metric, and its direction.\<close>

definition report_metrics :: "(string \<times> string \<times> bool) list" where
  "report_metrics =
     [(''throughput'', ''throughput_events_per_sec'', True),
      (''p50_ms'', ''p50_ms'', False), (''p95_ms'', ''p95_ms'', False), (''p99_ms'', ''p99_ms'', False),
      (''read_p95_ms'', ''read_p95_ms'', False), (''read_p99_ms'', ''read_p99_ms'', False),
      (''write_p95_ms'', ''write_p95_ms'', False), (''write_p99_ms'', ''write_p99_ms'', False)]"

fun compare_all ::
    "metrics \<Rightarrow> metrics \<Rightarrow> (string \<times> string \<times> bool) list \<Rightarrow> comparison_lists \<Rightarrow> (py_exn, comparison_lists) result" where
  "compare_all current base [] r = Inr r"
| "compare_all current base ((key, metric, higher) # rest) r =
     (case (map_of current metric, map_of base metric) of
        (Some x, Some b) \<Rightarrow>
          bindE (compare_metric x b higher (Fin 10)) (\<lambda>(status, change).
          compare_all current base rest
            (file_comparison key \<lparr>cm_metric = metric, cm_current = x, cm_baseline = b, cm_change_pct = change,
                                  cm_status = status\<rparr> r))
      | _ \<Rightarrow> compare_all current base rest r)"

definition report_comparison :: "metrics \<Rightarrow> metrics \<Rightarrow> (py_exn, comparison_lists) result" where
  "report_comparison current base = compare_all current base report_metrics empty_comparison_lists"

record regression_report =
  rr_topology :: int
  rr_summary :: string
  rr_parts :: "(string \<times> comparison_lists) list"
  rr_regressions :: "comparison list"
  rr_improvements :: "comparison list"

text \<open>A result file: for each benchmark, the results by topology.\<close>

type_synonym result_file = "(string \<times> (string \<times> metrics) list) list"

definition bench_entry :: "result_file \<Rightarrow> string \<Rightarrow> int \<Rightarrow> metrics" where
  "bench_entry file name topology =
     (case map_of file name of
        None \<Rightarrow> []
      | Some by_topology \<Rightarrow> (case map_of by_topology (show_int topology) of None \<Rightarrow> [] | Some m \<Rightarrow> m))"

definition comparable :: "metrics \<Rightarrow> metrics \<Rightarrow> bool" where
  "comparable current base \<longleftrightarrow> current \<noteq> [] \<and> base \<noteq> [] \<and>
     map_of current ''error'' = None \<and> map_of base ''error'' = None"

fun report_parts ::
    "result_file \<Rightarrow> result_file \<Rightarrow> int \<Rightarrow> string list \<Rightarrow> regression_report \<Rightarrow> (py_exn, regression_report) result" where
  "report_parts current base topology [] r = Inr r"
| "report_parts current base topology (name # names) r =
     (let x = bench_entry current name topology; b = bench_entry base name topology in
      if comparable x b
      then bindE (report_comparison x b) (\<lambda>c.
        report_parts current base topology names
          (r\<lparr>rr_parts := rr_parts r @ [(name, c)], rr_regressions := rr_regressions r @ cl_regressions c,
             rr_improvements := rr_improvements r @ cl_improvements c\<rparr>))
      else report_parts current base topology names r)"

definition report_names :: "string list" where
  "report_names = [''throughput'', ''latency_read'', ''latency_write'', ''mixed'']"

definition generate_regression_report ::
    "result_file \<Rightarrow> int \<Rightarrow> result_file option \<Rightarrow> (py_exn, regression_report) result" where
  "generate_regression_report current topology baseline =
     (let r = \<lparr>rr_topology = topology, rr_summary = ''unknown'', rr_parts = [], rr_regressions = [], rr_improvements = []\<rparr> in
      case baseline of
        None \<Rightarrow> Inr (r\<lparr>rr_summary := ''no_baseline''\<rparr>)
      | Some base \<Rightarrow>
          bindE (report_parts current base topology report_names r) (\<lambda>r.
          Inr (r\<lparr>rr_summary :=
            (if rr_regressions r \<noteq> [] then ''fail''
             else if rr_improvements r \<noteq> [] then ''improved'' else ''pass'')\<rparr>)))"

subsection \<open>The history's comparison\<close>

record comparison_entry =
  ce_metric :: string
  ce_current :: pyfloat
  ce_baseline :: pyfloat
  ce_delta_pct :: pyfloat
  is_regression :: bool
  is_improvement :: bool

definition higher_better_metrics :: "string list" where
  "higher_better_metrics = [''throughput_events_per_sec'']"

definition lower_better_metrics :: "string list" where
  "lower_better_metrics =
     [''p50_ms'', ''p95_ms'', ''p99_ms'', ''mean_ms'', ''read_p50_ms'', ''read_p95_ms'', ''read_p99_ms'',
      ''write_p50_ms'', ''write_p95_ms'', ''write_p99_ms'']"

text \<open>The code iterates over a set; the result is read without regard to its order.\<close>

fun history_compare ::
    "pyfloat \<Rightarrow> metrics \<Rightarrow> metrics \<Rightarrow> string list \<Rightarrow> (py_exn, (string \<times> comparison_entry) list) result" where
  "history_compare threshold current base [] = Inr []"
| "history_compare threshold current base (metric # rest) =
     (case (map_of current metric, map_of base metric) of
        (Some x, Some b) \<Rightarrow>
          if b = Fin 0 then history_compare threshold current base rest
          else
            bindE (change_percent x b) (\<lambda>delta.
            bindE (history_compare threshold current base rest) (\<lambda>others.
            Inr ((metric, \<lparr>ce_metric = metric, ce_current = x, ce_baseline = b, ce_delta_pct = delta,
                 is_regression = (if metric \<in> set higher_better_metrics then f_lt delta (f_neg threshold)
                                  else f_lt threshold delta),
                 is_improvement = (if metric \<in> set higher_better_metrics then f_lt threshold delta
                                   else f_lt delta (f_neg threshold))\<rparr>) # others)))
      | _ \<Rightarrow> history_compare threshold current base rest)"

definition history_compare_to_baseline ::
    "metrics \<Rightarrow> metrics \<Rightarrow> pyfloat \<Rightarrow> (py_exn, (string \<times> comparison_entry) list) result" where
  "history_compare_to_baseline current base threshold =
     history_compare threshold current base (higher_better_metrics @ lower_better_metrics)"

definition history_detect_regression :: "metrics \<Rightarrow> metrics \<Rightarrow> pyfloat \<Rightarrow> (py_exn, bool) result" where
  "history_detect_regression current base threshold =
     bindE (history_compare_to_baseline current base threshold) (\<lambda>cs. Inr (\<exists>c\<in>set cs. is_regression (snd c)))"

subsection \<open>Scaling\<close>

definition scaling_factor :: "pyfloat \<Rightarrow> int \<Rightarrow> pyfloat \<Rightarrow> (py_exn, pyfloat) result" where
  "scaling_factor base topology throughput =
     (if topology = 1 then Inr (Fin 1)
      else if 0 < topology \<and> f_lt (Fin 0) throughput
      then bindE (f_div throughput base) (\<lambda>speedup. bindE (float_of_int topology) (\<lambda>n. f_div speedup n))
      else Inr (Fin 0))"

definition calculate_scaling_factor :: "(int \<times> pyfloat) list \<Rightarrow> (py_exn, (int \<times> pyfloat) list) result" where
  "calculate_scaling_factor throughputs =
     (let base = (case map_of throughputs 1 of None \<Rightarrow> Fin 0 | Some x \<Rightarrow> x) in
      if base = Fin 0 then Inr (map (\<lambda>(t, x). (t, Fin 0)) throughputs)
      else mapE (\<lambda>(t, x). bindE (scaling_factor base t x) (\<lambda>f. Inr (t, f))) throughputs)"

definition check_linear_scaling :: "(int \<times> pyfloat) list \<Rightarrow> bool" where
  "check_linear_scaling factors \<longleftrightarrow> factors \<noteq> [] \<and>
     (\<forall>(t, f)\<in>set factors. \<not> (f_lt f (Fin (fl (4 / 5))) \<or> f_lt (Fin (fl (6 / 5))) f))"

definition classify_scaling :: "pyfloat \<Rightarrow> string" where
  "classify_scaling f =
     (if f_lt f (Fin (fl (1 / 100))) then ''no data''
      else if f_lt f (Fin (fl (4 / 5))) then ''sub-linear''
      else if f_le f (Fin (fl (6 / 5))) then ''linear''
      else ''super-linear'')"

record scalability_result =
  topologies_tested :: "int list"
  throughput_by_topology :: "(int \<times> pyfloat) list"
  scaling_factors :: "(int \<times> pyfloat) list"
  is_linear :: bool

text \<open>
  \<open>run_scalability_suite\<close>: \<open>throughput_of\<close> is what the orchestrator reports for a topology,
  or \<open>None\<close> when it raises.  The configuration is built outside the handler.
\<close>

definition topology_config :: "benchmark_config \<Rightarrow> int \<Rightarrow> benchmark_config" where
  "topology_config c t =
     (default_benchmark_config None)\<lparr>bc_topology := t, time_limit_sec := time_limit_sec c,
       op_count_limit := op_count_limit c, min_samples := min_samples c,
       warmup_iterations := warmup_iterations c, data_pattern := data_pattern c,
       data_size := data_size c, bc_seed := bc_seed c\<rparr>"

fun throughputs ::
    "benchmark_config \<Rightarrow> (int \<Rightarrow> pyfloat option) \<Rightarrow> int list \<Rightarrow> (int \<times> pyfloat) list \<Rightarrow>
     (py_exn, (int \<times> pyfloat) list) result" where
  "throughputs c throughput_of [] acc = Inr acc"
| "throughputs c throughput_of (t # ts) acc =
     bindE (check_config (topology_config c t)) (\<lambda>_.
     throughputs c throughput_of ts
       (AList.update t (case throughput_of t of Some x \<Rightarrow> x | None \<Rightarrow> Fin 0) acc))"

definition run_scalability_suite ::
    "benchmark_config \<Rightarrow> (int \<Rightarrow> pyfloat option) \<Rightarrow> int list \<Rightarrow> (py_exn, scalability_result) result" where
  "run_scalability_suite c throughput_of topologies =
     bindE (throughputs c throughput_of topologies []) (\<lambda>by_topology.
     bindE (calculate_scaling_factor by_topology) (\<lambda>factors.
     Inr \<lparr>topologies_tested = topologies, throughput_by_topology = by_topology,
          scaling_factors = factors, is_linear = check_linear_scaling factors\<rparr>))"

subsection \<open>What the report contains\<close>

lemma change_percent_total: "base \<noteq> Fin 0 \<Longrightarrow> \<exists>c. change_percent current base = Inr c"
  by (cases base; cases "f_sub current base") (auto simp: change_percent_def)

text \<open>The verdict on one metric, which always exists.\<close>

definition metric_verdict :: "pyfloat \<Rightarrow> pyfloat \<Rightarrow> bool \<Rightarrow> metric_status" where
  "metric_verdict x b higher = (case compare_metric x b higher (Fin 10) of Inr p \<Rightarrow> fst p | Inl e \<Rightarrow> Unchanged)"

lemma compare_metric_total:
  "\<exists>c. compare_metric x b higher (Fin 10) = Inr (metric_verdict x b higher, c)"
proof (cases "b = Fin 0")
  case True
  then show ?thesis by (simp add: compare_metric_def metric_verdict_def)
next
  case False
  then obtain c where "change_percent x b = Inr c" using change_percent_total by blast
  with False show ?thesis by (simp add: compare_metric_def metric_verdict_def)
qed

text \<open>The metrics of the report on which both results have a value, with their verdicts.\<close>

fun verdicts :: "metrics \<Rightarrow> metrics \<Rightarrow> (string \<times> string \<times> bool) list \<Rightarrow> (string \<times> metric_status) list" where
  "verdicts current base [] = []"
| "verdicts current base ((key, metric, higher) # rest) =
     (case (map_of current metric, map_of base metric) of
        (Some x, Some b) \<Rightarrow> (metric, metric_verdict x b higher) # verdicts current base rest
      | _ \<Rightarrow> verdicts current base rest)"

definition of_status :: "metric_status \<Rightarrow> comparison_lists \<Rightarrow> comparison list" where
  "of_status st r = (case st of Regression \<Rightarrow> cl_regressions r | Improvement \<Rightarrow> cl_improvements r | Unchanged \<Rightarrow> cl_unchanged r)"

lemma of_status_file [simp]:
  "of_status st (file_comparison key c r) = of_status st r @ (if cm_status c = st then [c] else [])"
  by (cases st; cases "cm_status c") (auto simp: of_status_def file_comparison_def Let_def)

lemma compare_all_verdicts:
  "\<exists>r'. compare_all current base specs r = Inr r' \<and>
     (\<forall>st. map cm_metric (of_status st r') =
        map cm_metric (of_status st r) @ map fst (filter (\<lambda>v. snd v = st) (verdicts current base specs)))"
proof (induction specs arbitrary: r)
  case Nil
  then show ?case by simp
next
  case (Cons spec rest)
  obtain key metric higher where spec: "spec = (key, metric, higher)" by (cases spec)
  show ?case
  proof (cases "map_of current metric = None \<or> map_of base metric = None")
    case True
    then have "compare_all current base (spec # rest) r = compare_all current base rest r"
      "verdicts current base (spec # rest) = verdicts current base rest"
      by (auto simp: spec split: option.splits)
    with Cons show ?thesis by simp
  next
    case False
    then obtain x b where xb: "map_of current metric = Some x" "map_of base metric = Some b" by auto
    obtain c where c: "compare_metric x b higher (Fin 10) = Inr (metric_verdict x b higher, c)"
      using compare_metric_total by blast
    let ?r = "file_comparison key \<lparr>cm_metric = metric, cm_current = x, cm_baseline = b, cm_change_pct = c,
      cm_status = metric_verdict x b higher\<rparr> r"
    obtain r' where r': "compare_all current base rest ?r = Inr r'"
      "\<forall>st. map cm_metric (of_status st r') =
         map cm_metric (of_status st ?r) @ map fst (filter (\<lambda>v. snd v = st) (verdicts current base rest))"
      using Cons by blast
    have "compare_all current base (spec # rest) r = Inr r'" using xb c r'(1) by (simp add: spec)
    with xb r'(2) show ?thesis by (auto simp: spec)
  qed
qed

lemma report_comparison_verdicts:
  "\<exists>r. report_comparison current base = Inr r \<and>
     (\<forall>st. map cm_metric (of_status st r) = map fst (filter (\<lambda>v. snd v = st) (verdicts current base report_metrics)))"
  using compare_all_verdicts [of current base report_metrics empty_comparison_lists]
  by (auto simp: report_comparison_def of_status_def empty_comparison_lists_def split: metric_status.splits)

text \<open>A benchmark got worse: its entries can be compared and some metric regressed.\<close>

definition worse :: "result_file \<Rightarrow> result_file \<Rightarrow> int \<Rightarrow> metric_status \<Rightarrow> string \<Rightarrow> bool" where
  "worse current base topology st name \<longleftrightarrow>
     comparable (bench_entry current name topology) (bench_entry base name topology) \<and>
     (\<exists>m. (m, st) \<in> set (verdicts (bench_entry current name topology) (bench_entry base name topology) report_metrics))"

lemma report_parts_lists:
  "\<exists>r'. report_parts current base topology names r = Inr r' \<and>
     (rr_regressions r' = [] \<longleftrightarrow> rr_regressions r = [] \<and> (\<forall>n\<in>set names. \<not> worse current base topology Regression n)) \<and>
     (rr_improvements r' = [] \<longleftrightarrow> rr_improvements r = [] \<and> (\<forall>n\<in>set names. \<not> worse current base topology Improvement n)) \<and>
     rr_topology r' = rr_topology r"
proof (induction names arbitrary: r)
  case Nil
  then show ?case by simp
next
  case (Cons name names)
  let ?x = "bench_entry current name topology" and ?b = "bench_entry base name topology"
  show ?case
  proof (cases "comparable ?x ?b")
    case False
    with Cons show ?thesis by (simp add: worse_def Let_def)
  next
    case True
    obtain c where c: "report_comparison ?x ?b = Inr c"
      "\<forall>st. map cm_metric (of_status st c) = map fst (filter (\<lambda>v. snd v = st) (verdicts ?x ?b report_metrics))"
      using report_comparison_verdicts by blast
    have e: "of_status st c = [] \<longleftrightarrow> \<not> worse current base topology st name" for st
    proof -
      have "of_status st c = [] \<longleftrightarrow> filter (\<lambda>v. snd v = st) (verdicts ?x ?b report_metrics) = []"
        using c(2) by (metis map_is_Nil_conv)
      also have "\<dots> \<longleftrightarrow> \<not> worse current base topology st name"
        using True by (auto simp: worse_def filter_empty_conv)
      finally show ?thesis .
    qed
    have reg: "cl_regressions c = [] \<longleftrightarrow> \<not> worse current base topology Regression name"
      and imp: "cl_improvements c = [] \<longleftrightarrow> \<not> worse current base topology Improvement name"
      using e [of Regression] e [of Improvement] by (simp_all add: of_status_def)
    from Cons [of "r\<lparr>rr_parts := rr_parts r @ [(name, c)], rr_regressions := rr_regressions r @ cl_regressions c,
        rr_improvements := rr_improvements r @ cl_improvements c\<rparr>"] c(1) True reg imp
    show ?thesis by (auto simp: Let_def)
  qed
qed

subsection \<open>The history's view\<close>

lemma history_compare_total:
  "\<exists>cs. history_compare threshold current base ms = Inr cs \<and>
     (\<forall>m\<in>set ms. \<forall>x b. map_of current m = Some x \<longrightarrow> map_of base m = Some b \<longrightarrow> b \<noteq> Fin 0 \<longrightarrow>
        (\<exists>e d. (m, e) \<in> set cs \<and> change_percent x b = Inr d \<and>
          is_regression e = (if m \<in> set higher_better_metrics then f_lt d (f_neg threshold) else f_lt threshold d) \<and>
          is_improvement e = (if m \<in> set higher_better_metrics then f_lt threshold d else f_lt d (f_neg threshold))))"
proof (induction ms)
  case Nil
  then show ?case by simp
next
  case (Cons m ms)
  then obtain cs where cs: "history_compare threshold current base ms = Inr cs"
    and IH: "\<forall>m\<in>set ms. \<forall>x b. map_of current m = Some x \<longrightarrow> map_of base m = Some b \<longrightarrow> b \<noteq> Fin 0 \<longrightarrow>
        (\<exists>e d. (m, e) \<in> set cs \<and> change_percent x b = Inr d \<and>
          is_regression e = (if m \<in> set higher_better_metrics then f_lt d (f_neg threshold) else f_lt threshold d) \<and>
          is_improvement e = (if m \<in> set higher_better_metrics then f_lt threshold d else f_lt d (f_neg threshold)))"
    by blast
  show ?case
  proof (cases "\<exists>x b. map_of current m = Some x \<and> map_of base m = Some b \<and> b \<noteq> Fin 0")
    case False
    then have "history_compare threshold current base (m # ms) = Inr cs"
      using cs by (auto split: option.splits)
    with IH False show ?thesis by auto
  next
    case True
    then obtain x b where xb: "map_of current m = Some x" "map_of base m = Some b" "b \<noteq> Fin 0" by blast
    obtain d where d: "change_percent x b = Inr d" using change_percent_total [OF xb(3)] by blast
    let ?e = "\<lparr>ce_metric = m, ce_current = x, ce_baseline = b, ce_delta_pct = d,
      is_regression = (if m \<in> set higher_better_metrics then f_lt d (f_neg threshold) else f_lt threshold d),
      is_improvement = (if m \<in> set higher_better_metrics then f_lt threshold d else f_lt d (f_neg threshold))\<rparr>"
    have "history_compare threshold current base (m # ms) = Inr ((m, ?e) # cs)" using xb d cs by simp
    moreover have "\<exists>e d'. (m, e) \<in> set ((m, ?e) # cs) \<and> change_percent x b = Inr d' \<and>
        is_regression e = (if m \<in> set higher_better_metrics then f_lt d' (f_neg threshold) else f_lt threshold d') \<and>
        is_improvement e = (if m \<in> set higher_better_metrics then f_lt threshold d' else f_lt d' (f_neg threshold))"
      using d by (intro exI [of _ ?e] exI [of _ d]) simp
    ultimately show ?thesis using IH xb by fastforce
  qed
qed

subsection \<open>Properties\<close>

text \<open>A regression report never raises on two result files, and its summary says what the
  metrics say: \<open>fail\<close> exactly when some metric of a comparable benchmark got worse by
  more than the threshold, \<open>improved\<close> when none did and some got better, else \<open>pass\<close>.\<close>

theorem report_fails_iff_some_metric_regressed:
  "\<exists>r. generate_regression_report current topology (Some base) = Inr r \<and>
    (rr_summary r = ''fail'' \<longleftrightarrow> (\<exists>n\<in>set report_names. worse current base topology Regression n)) \<and>
    (rr_summary r = ''improved'' \<longleftrightarrow>
       (\<forall>n\<in>set report_names. \<not> worse current base topology Regression n) \<and>
       (\<exists>n\<in>set report_names. worse current base topology Improvement n)) \<and>
    (rr_summary r = ''pass'' \<longleftrightarrow>
       (\<forall>n\<in>set report_names. \<not> worse current base topology Regression n \<and> \<not> worse current base topology Improvement n))"
proof -
  let ?r = "\<lparr>rr_topology = topology, rr_summary = ''unknown'', rr_parts = [], rr_regressions = [], rr_improvements = []\<rparr>"
  from report_parts_lists [of current base topology report_names ?r] obtain r where
    r: "report_parts current base topology report_names ?r = Inr r"
      "rr_regressions r = [] \<longleftrightarrow> (\<forall>n\<in>set report_names. \<not> worse current base topology Regression n)"
      "rr_improvements r = [] \<longleftrightarrow> (\<forall>n\<in>set report_names. \<not> worse current base topology Improvement n)"
    by auto
  define s where "s = (if rr_regressions r \<noteq> [] then ''fail'' else if rr_improvements r \<noteq> [] then ''improved'' else ''pass'')"
  have "generate_regression_report current topology (Some base) = Inr (r\<lparr>rr_summary := s\<rparr>)"
    using r(1) by (simp add: generate_regression_report_def s_def)
  moreover have "s = ''fail'' \<longleftrightarrow> rr_regressions r \<noteq> []" "s = ''improved'' \<longleftrightarrow> rr_regressions r = [] \<and> rr_improvements r \<noteq> []"
    "s = ''pass'' \<longleftrightarrow> rr_regressions r = [] \<and> rr_improvements r = []" by (simp_all add: s_def)
  ultimately show ?thesis using r(2,3)
    by (intro exI [of _ "r\<lparr>rr_summary := s\<rparr>"]) (simp, blast)
qed



lemma topology_config_ok:
  "check_config (topology_config c t) = Inr () \<longleftrightarrow>
     t \<in> {1, 3, 5, 6} \<and> check_config (topology_config c 1) = Inr ()"
  by (auto simp: check_config_def topology_config_def split: if_splits)

text \<open>A cluster whose single-node run failed is judged not linear, whatever the others did.\<close>

lemma failed_single_node_is_not_linear:
  assumes "check_config (topology_config c 1) = Inr ()" and "throughput_of 1 = None"
  shows "\<exists>r. run_scalability_suite c throughput_of [1, 3, 5, 6] = Inr r \<and> \<not> is_linear r"
proof -
  have "0 < fl (4 / 5)" using fl_ge_of_int [of 0 "4 / 5"] fl_mono [of "1 / 2" "4 / 5"] fl_exact [of 1 "- 1"]
    by (simp add: power_int_minus)
  then show ?thesis
    using topology_config_ok [of c 3] topology_config_ok [of c 5] topology_config_ok [of c 6] assms
    by (simp add: run_scalability_suite_def calculate_scaling_factor_def check_linear_scaling_def Let_def)
qed

text \<open>A cluster whose throughput grows in proportion to its size is judged linear, with a
  scaling factor of exactly one for every topology.\<close>

theorem perfect_scaling_is_linear:
  assumes "check_config (topology_config c 1) = Inr ()" and "0 < b" and "b \<le> 2 ^ 50"
  shows "\<exists>r. run_scalability_suite c (\<lambda>t. Some (Fin (of_int (t * b)))) [1, 3, 5, 6] = Inr r \<and>
      scaling_factors r = [(1, Fin 1), (3, Fin 1), (5, Fin 1), (6, Fin 1)] \<and> is_linear r"
proof -
  have one: "f_div (Fin (of_int (t * b))) (Fin (of_int (1 * b))) = Inr (Fin (of_int t))" if "t \<in> {3, 5, 6}" for t
  proof -
    have "of_int (t * b) / of_int (1 * b) = (of_int t :: rat)" using assms(2) by simp
    moreover have "mk_float (of_int t) = Fin (of_int t)"
      using mk_float_Fin [of "of_int t" 10] fl_of_int [of t] that by auto
    ultimately show ?thesis using assms(2) by simp
  qed
  have two: "f_div (Fin (of_int t)) (Fin (of_int t)) = Inr (Fin 1)" if "t \<in> {3, 5, 6}" for t :: int
    using that mk_float_Fin [of 1 1] fl_of_int [of 1] by auto
  have sf: "scaling_factor (Fin (of_int (1 * b))) t (Fin (of_int (t * b))) = Inr (Fin 1)" if "t \<in> {3, 5, 6}" for t
    using one [OF that] two [OF that] float_of_int_small [of t] that assms(2)
    by (auto simp: scaling_factor_def)
  have near: "fl (4 / 5) \<le> 1" "1 \<le> fl (6 / 5)"
    using fl_le_of_int [of "4 / 5" 1] fl_ge_of_int [of 1 "6 / 5"] by simp_all
  show ?thesis
    using assms(1) topology_config_ok [of c 3] topology_config_ok [of c 5] topology_config_ok [of c 6]
      sf [of 3] sf [of 5] sf [of 6] assms(2) near
    by (simp add: run_scalability_suite_def calculate_scaling_factor_def scaling_factor_def [of _ 1] check_linear_scaling_def)
qed

theorem perfect_scaling_is_linear_witness:
  "\<exists>r. run_scalability_suite (default_benchmark_config None) (\<lambda>t. Some (Fin (of_int (t * 1000)))) [1, 3, 5, 6] = Inr r \<and>
     scaling_factors r = [(1, Fin 1), (3, Fin 1), (5, Fin 1), (6, Fin 1)] \<and> is_linear r"
  by (rule perfect_scaling_is_linear) (simp_all add: check_config_def topology_config_def default_benchmark_config_def)

end
