(* ===== verification/Log_Capture.thy ===== *)
theory Log_Capture
  imports Prelude "HOL-Library.Sublist"
begin

section \<open>Captured process logs\<close>

text \<open>
  \<open>LogCapture\<close> of \<open>test_infrastructure/harness/log_capture.py\<close>: a text buffer with a count
  of its encoded bytes, cut in half when the count exceeds the limit.  A Python string is a
  list of code points, and encoding it raises on a lone surrogate.  Each method runs under
  the lock, so it is one step.
\<close>

type_synonym code_points = "nat list"

definition utf8_width :: "nat \<Rightarrow> nat" where
  "utf8_width c = (if c < 0x80 then 1 else if c < 0x800 then 2 else if c < 0x10000 then 3 else 4)"

definition surrogate :: "nat \<Rightarrow> bool" where
  "surrogate c \<longleftrightarrow> 0xD800 \<le> c \<and> c \<le> 0xDFFF"

text \<open>\<open>len(s.encode("utf-8"))\<close>; \<open>UnicodeEncodeError\<close> is a \<open>ValueError\<close>.\<close>

definition utf8_size :: "code_points \<Rightarrow> (py_exn, nat) result" where
  "utf8_size s = (if list_ex surrogate s then Inl ValueError else Inr (sum_list (map utf8_width s)))"

record log_capture =
  lc_max_bytes :: int
  lc_buffer :: code_points
  lc_total_bytes :: int

definition new_log_capture :: "int \<Rightarrow> log_capture" where
  "new_log_capture max_bytes = \<lparr>lc_max_bytes = max_bytes, lc_buffer = [], lc_total_bytes = 0\<rparr>"

text \<open>\<open>content.find("\n", start)\<close>, as the number of code points up to and with the newline.\<close>

fun through_newline :: "code_points \<Rightarrow> nat option" where
  "through_newline [] = None"
| "through_newline (c # cs) = (if c = 10 then Some 1 else map_option Suc (through_newline cs))"

definition cut_point :: "code_points \<Rightarrow> nat" where
  "cut_point content =
     (let half_point = length content div 2 in
      case through_newline (drop half_point content) of
        Some k \<Rightarrow> half_point + k
      | None \<Rightarrow> half_point)"

definition rotate_locked :: "log_capture \<Rightarrow> (py_exn, unit) result \<times> log_capture" where
  "rotate_locked l =
     (let kept = drop (cut_point (lc_buffer l)) (lc_buffer l);
          l = l\<lparr>lc_buffer := kept\<rparr>
      in case utf8_size kept of
           Inl e \<Rightarrow> (Inl e, l)
         | Inr n \<Rightarrow> (Inr (), l\<lparr>lc_total_bytes := int n\<rparr>))"

definition log_write :: "code_points \<Rightarrow> log_capture \<Rightarrow> (py_exn, unit) result \<times> log_capture" where
  "log_write data l =
     (let l = l\<lparr>lc_buffer := lc_buffer l @ data\<rparr> in
      case utf8_size data of
        Inl e \<Rightarrow> (Inl e, l)
      | Inr n \<Rightarrow>
          (let l = l\<lparr>lc_total_bytes := lc_total_bytes l + int n\<rparr> in
           if lc_max_bytes l < lc_total_bytes l then rotate_locked l else (Inr (), l)))"

definition rotate_logs :: "int option \<Rightarrow> log_capture \<Rightarrow> (py_exn, unit) result \<times> log_capture" where
  "rotate_logs max_bytes l =
     (let l = (case max_bytes of None \<Rightarrow> l | Some m \<Rightarrow> l\<lparr>lc_max_bytes := m\<rparr>) in
      if lc_max_bytes l < lc_total_bytes l then rotate_locked l else (Inr (), l))"

text \<open>\<open>splitlines(keepends=True)\<close>: Python's line boundaries, with CR LF as one.\<close>

definition line_break :: "nat \<Rightarrow> bool" where
  "line_break c \<longleftrightarrow> c \<in> {0x0A, 0x0B, 0x0C, 0x0D, 0x1C, 0x1D, 0x1E, 0x85, 0x2028, 0x2029}"

fun split_lines :: "code_points \<Rightarrow> code_points \<Rightarrow> code_points list" where
  "split_lines acc [] = (if acc = [] then [] else [acc])"
| "split_lines acc (c # cs) =
     (if c = 13 \<and> cs \<noteq> [] \<and> hd cs = 10 then (acc @ [13, 10]) # split_lines [] (tl cs)
      else if line_break c then (acc @ [c]) # split_lines [] cs
      else split_lines (acc @ [c]) cs)"

definition get_logs :: "int \<Rightarrow> log_capture \<Rightarrow> code_points" where
  "get_logs max_lines l =
     (let content = lc_buffer l in
      if max_lines \<le> 0 then content
      else
        let lines = split_lines [] content in
        if int (length lines) \<le> max_lines then content
        else concat (drop (length lines - nat max_lines) lines))"

definition get_all :: "log_capture \<Rightarrow> code_points" where
  "get_all l = lc_buffer l"

definition log_clear :: "log_capture \<Rightarrow> log_capture" where
  "log_clear l = l\<lparr>lc_buffer := [], lc_total_bytes := 0\<rparr>"

definition log_len :: "log_capture \<Rightarrow> int" where
  "log_len l = lc_total_bytes l"

subsection \<open>Rotation\<close>

lemma through_newline_bound: "through_newline cs = Some k \<Longrightarrow> 0 < k \<and> k \<le> length cs \<and> cs ! (k - 1) = 10"
proof (induction cs arbitrary: k)
  case Nil
  then show ?case by simp
next
  case (Cons c cs)
  show ?case
  proof (cases "c = 10")
    case True
    with Cons.prems show ?thesis by auto
  next
    case False
    with Cons.prems obtain j where "through_newline cs = Some j" "k = Suc j" by auto
    with Cons.IH [of j] show ?thesis by (cases j) auto
  qed
qed

lemma cut_point_bounds: "length cs div 2 \<le> cut_point cs \<and> cut_point cs \<le> length cs"
  using through_newline_bound [of "drop (length cs div 2) cs"]
  by (fastforce simp: cut_point_def Let_def split: option.splits)

text \<open>What is kept starts a line, unless the second half holds no newline at all.\<close>

lemma cut_point_line:
  "10 \<in> set (drop (length cs div 2) cs) \<Longrightarrow> 0 < cut_point cs \<and> cs ! (cut_point cs - 1) = 10"
proof -
  have "10 \<in> set ds \<Longrightarrow> \<exists>k. through_newline ds = Some k" for ds by (induction ds) auto
  moreover assume "10 \<in> set (drop (length cs div 2) cs)"
  ultimately obtain k where k: "through_newline (drop (length cs div 2) cs) = Some k" by blast
  from through_newline_bound [OF this] have b: "0 < k" "cs ! (length cs div 2 + (k - 1)) = 10" by auto
  then have "length cs div 2 + (k - 1) = length cs div 2 + k - 1" by simp
  with b k show ?thesis by (simp add: cut_point_def Let_def)
qed

lemma utf8_size_valid: "list_all (\<lambda>c. \<not> surrogate c) s \<Longrightarrow> utf8_size s = Inr (sum_list (map utf8_width s))"
  by (induction s) (auto simp: utf8_size_def)

text \<open>The state of a capture that was only given text that can be encoded.\<close>

definition log_ok :: "log_capture \<Rightarrow> bool" where
  "log_ok l \<longleftrightarrow> list_all (\<lambda>c. \<not> surrogate c) (lc_buffer l) \<and>
     lc_total_bytes l = int (sum_list (map utf8_width (lc_buffer l)))"

lemma rotate_locked_ok:
  assumes "list_all (\<lambda>c. \<not> surrogate c) (lc_buffer l)"
  shows "rotate_locked l = (Inr (), l\<lparr>lc_buffer := drop (cut_point (lc_buffer l)) (lc_buffer l),
      lc_total_bytes := int (sum_list (map utf8_width (drop (cut_point (lc_buffer l)) (lc_buffer l))))\<rparr>)"
proof -
  have "list_all (\<lambda>c. \<not> surrogate c) (drop (cut_point (lc_buffer l)) (lc_buffer l))"
    using assms by (auto simp: list_all_iff dest: in_set_dropD)
  then show ?thesis by (simp add: rotate_locked_def Let_def utf8_size_valid)
qed

text \<open>A write as one equation: the text kept of the old buffer with the new data, and its size.\<close>

definition kept_text :: "int \<Rightarrow> code_points \<Rightarrow> code_points" where
  "kept_text limit b = (if limit < int (sum_list (map utf8_width b)) then drop (cut_point b) b else b)"

lemma log_write_eq:
  assumes "log_ok l" and "list_all (\<lambda>c. \<not> surrogate c) data"
  shows "log_write data l = (Inr (), l\<lparr>lc_buffer := kept_text (lc_max_bytes l) (lc_buffer l @ data),
    lc_total_bytes := int (sum_list (map utf8_width (kept_text (lc_max_bytes l) (lc_buffer l @ data))))\<rparr>)"
proof -
  define b where "b = lc_buffer l @ data"
  define l1 where "l1 = l\<lparr>lc_buffer := b, lc_total_bytes := int (sum_list (map utf8_width b))\<rparr>"
  have "lc_total_bytes l + int (sum_list (map utf8_width data)) = int (sum_list (map utf8_width b))"
    using assms(1) by (simp add: log_ok_def b_def)
  then have w: "log_write data l = (if lc_max_bytes l < int (sum_list (map utf8_width b)) then rotate_locked l1 else (Inr (), l1))"
    using assms(2) by (simp add: log_write_def Let_def utf8_size_valid l1_def b_def [symmetric])
  have "rotate_locked l1 = (Inr (), l1\<lparr>lc_buffer := drop (cut_point b) b,
      lc_total_bytes := int (sum_list (map utf8_width (drop (cut_point b) b)))\<rparr>)"
    using assms rotate_locked_ok [of l1] by (simp add: l1_def b_def log_ok_def)
  with w show ?thesis by (simp add: kept_text_def l1_def b_def [symmetric])
qed

lemma kept_text_suffix: "suffix (kept_text limit b) b"
  by (simp add: kept_text_def suffix_drop)

lemma kept_text_set: "set (kept_text limit b) \<subseteq> set b"
  using kept_text_suffix set_mono_suffix by blast

lemma kept_text_short: "int (length (kept_text limit b)) \<le> limit \<or> 2 * length (kept_text limit b) \<le> length b + 1"
  if "list_all (\<lambda>c. c < 0x80) b"
proof -
  have "sum_list (map utf8_width b) = length b"
    using that by (induction b) (simp_all add: utf8_width_def)
  then show ?thesis using cut_point_bounds [of b] by (auto simp: kept_text_def)
qed

subsection \<open>Lines\<close>

lemma concat_split_lines: "concat (split_lines acc cs) = acc @ cs"
proof (induction acc cs rule: split_lines.induct)
  case (1 acc)
  then show ?case by simp
next
  case (2 acc c cs)
  then show ?case by (cases cs) auto
qed

lemma get_logs_suffix: "suffix (get_logs n l) (lc_buffer l)"
proof -
  let ?ls = "split_lines [] (lc_buffer l)"
  have "lc_buffer l = concat (take k ?ls) @ concat (drop k ?ls)" for k
    using concat_split_lines [of "[]" "lc_buffer l"] by (metis append_take_drop_id concat_append self_append_conv2)
  then show ?thesis by (simp add: get_logs_def Let_def suffix_def) blast
qed

subsection \<open>Properties\<close>

text \<open>What a capture holds is always a suffix of everything written to it, with the byte
  count of its encoding; and when every write is ASCII and no longer than the limit, the
  buffer never exceeds the limit.\<close>

theorem log_keeps_a_recent_suffix:
  assumes "\<forall>w\<in>set ws. list_all (\<lambda>c. \<not> surrogate c) w" and "0 \<le> limit"
  shows "suffix (get_all (fold (\<lambda>w l. snd (log_write w l)) ws (new_log_capture limit))) (concat ws) \<and>
    log_ok (fold (\<lambda>w l. snd (log_write w l)) ws (new_log_capture limit)) \<and>
    ((\<forall>w\<in>set ws. int (length w) \<le> limit \<and> list_all (\<lambda>c. c < 0x80) w) \<longrightarrow>
       log_len (fold (\<lambda>w l. snd (log_write w l)) ws (new_log_capture limit)) \<le> limit)"
proof -
  let ?run = "\<lambda>ws. fold (\<lambda>w l. snd (log_write w l)) ws (new_log_capture limit)"
  let ?short = "\<lambda>w. int (length w) \<le> limit \<and> list_all (\<lambda>c. c < 0x80) w"
  have ascii: "sum_list (map utf8_width cs) = length cs" if "list_all (\<lambda>c. c < 0x80) cs" for cs
    using that by (induction cs) (simp_all add: utf8_width_def)
  have "suffix (lc_buffer (?run ws)) (concat ws) \<and> log_ok (?run ws) \<and> lc_max_bytes (?run ws) = limit \<and>
      ((\<forall>w\<in>set ws. ?short w) \<longrightarrow> int (length (lc_buffer (?run ws))) \<le> limit \<and> list_all (\<lambda>c. c < 0x80) (lc_buffer (?run ws)))"
    using assms(1)
  proof (induction ws rule: rev_induct)
    case Nil
    then show ?case using assms(2) by (simp add: new_log_capture_def log_ok_def)
  next
    case (snoc w ws)
    let ?l = "?run ws"
    define b where "b = lc_buffer ?l @ w"
    have IH: "suffix (lc_buffer ?l) (concat ws)" "log_ok ?l" "lc_max_bytes ?l = limit"
      "(\<forall>w\<in>set ws. ?short w) \<longrightarrow> int (length (lc_buffer ?l)) \<le> limit \<and> list_all (\<lambda>c. c < 0x80) (lc_buffer ?l)"
      and valid: "list_all (\<lambda>c. \<not> surrogate c) w" using snoc by auto
    have l': "?run (ws @ [w]) = ?l\<lparr>lc_buffer := kept_text limit b,
        lc_total_bytes := int (sum_list (map utf8_width (kept_text limit b)))\<rparr>"
      using log_write_eq [OF IH(2) valid] IH(3) by (simp add: b_def)
    have "suffix b (concat ws @ w)" using IH(1) by (simp add: b_def)
    then have suf: "suffix (kept_text limit b) (concat ws @ w)"
      using kept_text_suffix suffix_order.trans by blast
    have ok: "list_all (\<lambda>c. \<not> surrogate c) (kept_text limit b)"
      using kept_text_set [of limit b] IH(2) valid by (auto simp: b_def log_ok_def list_all_iff)
    have short: "int (length (kept_text limit b)) \<le> limit \<and> list_all (\<lambda>c. c < 0x80) (kept_text limit b)"
      if "\<forall>w\<in>set (ws @ [w]). ?short w"
    proof -
      have a: "list_all (\<lambda>c. c < 0x80) b" "int (length b) \<le> 2 * limit" using that IH(4) by (auto simp: b_def)
      from kept_text_short [OF a(1), of limit] a(2) have "int (length (kept_text limit b)) \<le> limit" by auto
      then show ?thesis using a(1) kept_text_set [of limit b] by (auto simp: list_all_iff)
    qed
    show ?case using l' suf ok short IH(3) by (simp add: log_ok_def)
  qed
  then show ?thesis using ascii by (auto simp: get_all_def log_len_def log_ok_def)
qed

theorem log_keeps_a_recent_suffix_witness:
  "log_len (fold (\<lambda>w l. snd (log_write w l)) [[97, 10], [98, 99, 10], [100, 10]] (new_log_capture 4)) \<le> 4"
  using log_keeps_a_recent_suffix [of "[[97, 10], [98, 99, 10], [100, 10]]" 4] by (simp add: surrogate_def)

text \<open>Asking for the last lines returns a suffix of the buffer made of whole lines, at most as
  many as asked for, and all of them when there are no more.\<close>

theorem get_logs_returns_last_lines:
  "suffix (get_logs n l) (get_all l) \<and>
   (\<exists>lines. get_logs n l = concat lines \<and> suffix lines (split_lines [] (get_all l)) \<and>
      (0 < n \<longrightarrow> int (length lines) = min n (int (length (split_lines [] (get_all l))))))"
proof -
  let ?ls = "split_lines [] (lc_buffer l)"
  have all: "lc_buffer l = concat ?ls" by (simp add: concat_split_lines)
  have "\<exists>lines. get_logs n l = concat lines \<and> suffix lines ?ls \<and> (0 < n \<longrightarrow> int (length lines) = min n (int (length ?ls)))"
  proof (cases "n \<le> 0 \<or> int (length ?ls) \<le> n")
    case True
    then show ?thesis using all by (intro exI [of _ ?ls]) (auto simp: get_logs_def Let_def)
  next
    case False
    then show ?thesis
      by (intro exI [of _ "drop (length ?ls - nat n) ?ls"]) (auto simp: get_logs_def Let_def suffix_drop)
  qed
  then show ?thesis using get_logs_suffix [of n l] by (simp add: get_all_def)
qed

end
