(* ===== verification/Port_Allocator.thy ===== *)
theory Port_Allocator
  imports Prelude
begin

section \<open>Ports for test clusters\<close>

text \<open>
  \<open>test_infrastructure/harness/port_allocator.py\<close>.  The module's set of allocated ports is
  the state; the operating system is a function \<open>bind\<close> on a state of its own, which says
  whether the socket can be bound.  Python itself rejects a port outside 16 bits, with an
  \<open>OverflowError\<close> that the loop does not catch.  One \<open>find_available_port\<close> runs under the
  lock, so it is one step; \<open>allocate_ports\<close> is a sequence of them.
\<close>

type_synonym 's bind = "int \<Rightarrow> 's \<Rightarrow> bool \<times> 's"

fun search_ports ::
    "'s bind \<Rightarrow> string \<Rightarrow> int list \<Rightarrow> int set \<Rightarrow> 's \<Rightarrow> (py_exn, int) result \<times> int set \<times> 's" where
  "search_ports bind msg [] allocated s = (Inl (RuntimeError msg), allocated, s)"
| "search_ports bind msg (port # rest) allocated s =
     (if port \<in> allocated then search_ports bind msg rest allocated s
      else if \<not> (0 \<le> port \<and> port \<le> 65535) then (Inl OverflowError, allocated, s)
      else
        case bind port s of
          (True, s) \<Rightarrow> (Inr port, insert port allocated, s)
        | (False, s) \<Rightarrow> search_ports bind msg rest allocated s)"

definition find_available_port ::
    "'s bind \<Rightarrow> int \<Rightarrow> int \<Rightarrow> int set \<Rightarrow> 's \<Rightarrow> (py_exn, int) result \<times> int set \<times> 's" where
  "find_available_port bind start stop allocated s =
     search_ports bind (''No available port found in range '' @ show_int start @ ''-'' @ show_int stop)
       [start..stop - 1] allocated s"

text \<open>The loop of \<open>allocate_ports\<close>: \<open>n\<close> ports to go.\<close>

fun allocate_from ::
    "'s bind \<Rightarrow> nat \<Rightarrow> int \<Rightarrow> int list \<Rightarrow> int set \<Rightarrow> 's \<Rightarrow> (py_exn, int list) result \<times> int set \<times> 's" where
  "allocate_from bind 0 start ports allocated s = (Inr ports, allocated, s)"
| "allocate_from bind (Suc n) start ports allocated s =
     (case find_available_port bind start (start + 1000) allocated s of
        (Inl e, allocated, s) \<Rightarrow> (Inl e, allocated, s)
      | (Inr port, allocated, s) \<Rightarrow> allocate_from bind n (port + 1) (ports @ [port]) allocated s)"

definition first_port :: "int \<Rightarrow> int" where
  "first_port base_port = (if 0 < base_port then base_port else 3100)"

definition allocate_ports ::
    "'s bind \<Rightarrow> int \<Rightarrow> int \<Rightarrow> int set \<Rightarrow> 's \<Rightarrow> (py_exn, int list) result \<times> int set \<times> 's" where
  "allocate_ports bind count base_port allocated s =
     allocate_from bind (nat count) (first_port base_port) [] allocated s"

definition release_port :: "int \<Rightarrow> int set \<Rightarrow> int set" where
  "release_port port allocated = allocated - {port}"

definition release_all_ports :: "int set \<Rightarrow> int set" where
  "release_all_ports allocated = {}"

subsection \<open>One search\<close>

lemma search_ports_Inr:
  "search_ports bind msg ps A s = (Inr p, A', s') \<Longrightarrow>
     p \<in> set ps \<and> p \<notin> A \<and> A' = insert p A \<and> 0 \<le> p \<and> p \<le> 65535 \<and> (\<exists>u. bind p u = (True, s'))"
proof (induction bind msg ps A s rule: search_ports.induct)
  case (1 bind msg A s)
  then show ?case by simp
next
  case (2 bind msg port rest A s)
  show ?case
  proof (cases "port \<in> A \<or> \<not> (0 \<le> port \<and> port \<le> 65535)")
    case True
    with 2 show ?thesis by (auto split: if_splits)
  next
    case False
    with 2 show ?thesis by (cases "bind port s"; cases "fst (bind port s)") auto
  qed
qed

lemma search_ports_Inl: "search_ports bind msg ps A s = (Inl e, A', s') \<Longrightarrow> A' = A"
  by (induction bind msg ps A s rule: search_ports.induct) (auto split: if_splits prod.splits bool.splits)

text \<open>When nothing in range is free, the message names the range.\<close>

lemma search_ports_busy:
  "\<forall>p\<in>set ps. p \<in> A \<or> (0 \<le> p \<and> p \<le> 65535 \<and> (\<forall>s. bind p s = (False, s))) \<Longrightarrow>
     search_ports bind msg ps A s = (Inl (RuntimeError msg), A, s)"
  by (induction ps) auto

lemma find_port_Inr:
  "find_available_port bind start stop A s = (Inr p, A', s') \<Longrightarrow>
     start \<le> p \<and> p < stop \<and> p \<notin> A \<and> A' = insert p A \<and> 0 \<le> p \<and> p \<le> 65535"
  unfolding find_available_port_def by (drule search_ports_Inr) auto

lemma find_port_Inl: "find_available_port bind start stop A s = (Inl e, A', s') \<Longrightarrow> A' = A"
  unfolding find_available_port_def by (rule search_ports_Inl)

lemma find_port_busy:
  "(\<And>p. start \<le> p \<Longrightarrow> p < stop \<Longrightarrow> p \<in> A \<or> (0 \<le> p \<and> p \<le> 65535 \<and> (\<forall>s. bind p s = (False, s)))) \<Longrightarrow>
     find_available_port bind start stop A s =
       (Inl (RuntimeError (''No available port found in range '' @ show_int start @ ''-'' @ show_int stop)), A, s)"
  unfolding find_available_port_def by (rule search_ports_busy) auto

subsection \<open>A row of ports\<close>

lemma allocate_from_Inr:
  "allocate_from bind n start ports A s = (Inr out, A', s') \<Longrightarrow>
     \<exists>new. out = ports @ new \<and> length new = n \<and> sorted_wrt (<) new \<and> A' = A \<union> set new \<and> set new \<inter> A = {} \<and>
       (\<forall>p\<in>set new. start \<le> p \<and> 0 \<le> p \<and> p \<le> 65535)"
proof (induction n arbitrary: start ports A s)
  case 0
  then show ?case by auto
next
  case (Suc n)
  obtain r A1 s1 where f: "find_available_port bind start (start + 1000) A s = (r, A1, s1)"
    by (cases "find_available_port bind start (start + 1000) A s") auto
  with Suc.prems obtain p where r: "r = Inr p" by (cases r) auto
  with f have p: "start \<le> p" "0 \<le> p" "p \<le> 65535" "p \<notin> A" "A1 = insert p A"
    using find_port_Inr [of bind start "start + 1000" A s p A1 s1] by simp_all
  from Suc.prems f r have "allocate_from bind n (p + 1) (ports @ [p]) A1 s1 = (Inr out, A', s')" by simp
  from Suc.IH [OF this] obtain new where new: "out = (ports @ [p]) @ new" "length new = n"
    "sorted_wrt (<) new" "A' = A1 \<union> set new" "set new \<inter> A1 = {}" "\<forall>q\<in>set new. p + 1 \<le> q \<and> 0 \<le> q \<and> q \<le> 65535"
    by blast
  from new p show ?case by (intro exI [of _ "p # new"]) force
qed

text \<open>A failure keeps the ports found before it.\<close>

lemma allocate_from_Inl:
  "allocate_from bind n start ports A s = (Inl e, A', s') \<Longrightarrow> A \<subseteq> A'"
proof (induction n arbitrary: start ports A s)
  case 0
  then show ?case by simp
next
  case (Suc n)
  obtain r A1 s1 where f: "find_available_port bind start (start + 1000) A s = (r, A1, s1)"
    by (cases "find_available_port bind start (start + 1000) A s") auto
  show ?case
  proof (cases r)
    case (Inl e')
    with f have "A1 = A" by (intro find_port_Inl) simp
    with Suc.prems f Inl show ?thesis by simp
  next
    case (Inr p)
    with f have "A1 = insert p A" using find_port_Inr [of bind start "start + 1000" A s p A1 s1] by simp
    moreover have "A1 \<subseteq> A'" using Suc.prems f Inr by (intro Suc.IH [of "p + 1" "ports @ [p]" A1 s1]) simp
    ultimately show ?thesis by auto
  qed
qed

subsection \<open>Several holders\<close>

text \<open>
  Threads that take and give back ports, in any interleaving of their steps: a holder
  releases a port it holds.
\<close>

datatype 'h port_event = Take 'h int int | Give 'h int

fun port_step ::
    "'s bind \<Rightarrow> 'h port_event \<Rightarrow> (int set \<times> ('h \<Rightarrow> int set)) \<times> 's \<Rightarrow> (int set \<times> ('h \<Rightarrow> int set)) \<times> 's" where
  "port_step bind (Take h start stop) ((allocated, held), s) =
     (case find_available_port bind start stop allocated s of
        (Inl e, allocated, s) \<Rightarrow> ((allocated, held), s)
      | (Inr p, allocated, s) \<Rightarrow> ((allocated, held(h := insert p (held h))), s))"
| "port_step bind (Give h p) ((allocated, held), s) =
     (if p \<in> held h then ((release_port p allocated, held(h := held h - {p})), s) else ((allocated, held), s))"

definition ports_owned :: "int set \<times> ('h \<Rightarrow> int set) \<Rightarrow> bool" where
  "ports_owned st \<longleftrightarrow>
     (\<forall>h. snd st h \<subseteq> fst st) \<and> (\<forall>h k. h \<noteq> k \<longrightarrow> snd st h \<inter> snd st k = {})"

lemma port_step_owned: "ports_owned (fst st) \<Longrightarrow> ports_owned (fst (port_step bind e st))"
proof (cases e)
  case (Take h start stop)
  assume o: "ports_owned (fst st)"
  obtain A held s where st: "st = ((A, held), s)" by (metis prod.exhaust)
  obtain r A1 s1 where f: "find_available_port bind start stop A s = (r, A1, s1)"
    by (cases "find_available_port bind start stop A s") auto
  show ?thesis
  proof (cases r)
    case (Inl x)
    with f have "A1 = A" by (intro find_port_Inl) simp
    with Inl f st o Take show ?thesis by simp
  next
    case (Inr p)
    with f have "p \<notin> A" "A1 = insert p A" using find_port_Inr [of bind start stop A s p A1 s1] by simp_all
    with Inr f st o Take show ?thesis by (auto simp: ports_owned_def)
  qed
next
  case (Give h p)
  assume "ports_owned (fst st)"
  then show ?thesis using Give
    by (cases st; cases "fst st") (auto simp: ports_owned_def release_port_def disjoint_iff subset_iff)
qed

subsection \<open>Properties\<close>

text \<open>A row of ports is what its cluster needs: as many as asked for, increasing, from the
  given base on, all of 16 bits and none in use before; exactly they are recorded, and
  releasing them restores the record.\<close>

theorem allocated_row_is_fresh:
  assumes "allocate_ports bind count base_port A s = (Inr ports, A', s')"
  shows "length ports = nat count \<and> sorted_wrt (<) ports \<and>
    (\<forall>p\<in>set ports. first_port base_port \<le> p \<and> 0 \<le> p \<and> p \<le> 65535) \<and>
    set ports \<inter> A = {} \<and> A' = A \<union> set ports \<and> fold release_port ports A' = A"
proof -
  have rel: "fold release_port ps B = B - set ps" for ps B
    by (induction ps arbitrary: B) (auto simp: release_port_def)
  from allocate_from_Inr [OF assms [unfolded allocate_ports_def]] show ?thesis
    by (auto simp: rel)
qed

text \<open>An operating system on which the even ports are free.\<close>

definition even_free :: "nat bind" where
  "even_free p n = (even p, Suc n)"

theorem allocated_row_is_fresh_witness:
  "fst (allocate_ports even_free 2 0 {3102} 0) = Inr [3100, 3104] \<and> fold release_port [3100, 3104] {3102, 3100, 3104} = {3102}"
proof -
  have "[3100..4099] = 3100 # [3101..(4099 :: int)]" using upto_rec1 [of 3100 4099] by simp
  then have one: "find_available_port even_free 3100 4100 {3102} 0 = (Inr 3100, {3100, 3102}, 1)"
    by (simp add: find_available_port_def even_free_def)
  have "[3101..4100] = 3101 # 3102 # 3103 # 3104 # [3105..4100]"
    using upto_rec1 [of 3101 4100] upto_rec1 [of 3102 4100] upto_rec1 [of 3103 4100] upto_rec1 [of 3104 4100] by simp
  then have two: "find_available_port even_free 3101 4101 {3100, 3102} 1 = (Inr 3104, {3104, 3100, 3102}, 4)"
    by (simp add: find_available_port_def even_free_def)
  have "allocate_ports even_free 2 0 {3102} 0 = (Inr [3100, 3104], {3104, 3100, 3102}, 4)"
    using one two by (simp add: allocate_ports_def first_port_def numeral_2_eq_2)
  from allocated_row_is_fresh [OF this] this show ?thesis by (simp add: insert_commute)
qed

text \<open>Whatever interleaving of searches and releases the threads of a process make, no
  port is held by two of them, and every held port is recorded.\<close>

theorem ports_never_shared:
  "ports_owned (fst (fold (port_step bind) es (({}, \<lambda>h. {}), s)))"
proof -
  have "ports_owned (fst st) \<Longrightarrow> ports_owned (fst (fold (port_step bind) es st))" for st
    by (induction es arbitrary: st) (simp_all add: port_step_owned)
  then show ?thesis by (simp add: ports_owned_def)
qed

text \<open>A failed allocation leaks: the ports it had found stay recorded, although the caller
  never learns them and cannot release them.\<close>

theorem failed_allocation_leaks:
  assumes "\<forall>p. \<forall>s. bind p s = (p = 3100, s)"
  shows "allocate_ports bind 2 0 {} s =
    (Inl (RuntimeError (''No available port found in range '' @ show_int 3101 @ ''-'' @ show_int 4101)), {3100}, s)"
proof -
  have "[3100..4099] = 3100 # [3101..(4099 :: int)]" using upto_rec1 [of 3100 4099] by simp
  then have one: "find_available_port bind 3100 4100 {} s = (Inr 3100, {3100}, s)"
    using assms by (simp add: find_available_port_def)
  have two: "find_available_port bind 3101 4101 {3100} s
      = (Inl (RuntimeError (''No available port found in range '' @ show_int 3101 @ ''-'' @ show_int 4101)), {3100}, s)"
    by (rule find_port_busy) (use assms in auto)
  show ?thesis
    by (simp add: allocate_ports_def first_port_def numeral_2_eq_2 one two)
qed

theorem failed_allocation_leaks_witness:
  "allocate_ports (\<lambda>p s. (p = 3100, s)) 2 0 {} (0 :: nat) =
    (Inl (RuntimeError (''No available port found in range '' @ show_int 3101 @ ''-'' @ show_int 4101)), {3100}, 0)"
  using failed_allocation_leaks [of "\<lambda>p s. (p = 3100, s)" "0 :: nat"] by simp

end
