(* ===== verification/Test_Processes.thy ===== *)
theory Test_Processes
  imports Log_Capture Port_Allocator
begin

section \<open>The world of the test harness\<close>

text \<open>
  What \<open>test_infrastructure/harness/cluster.py\<close> uses of \<open>subprocess\<close>, \<open>time\<close>, \<open>urllib\<close>
  and the file system.  The world is a clock in milliseconds, the processes ever spawned (a
  process is known by its position), the existing paths and the allocated ports of
  \<open>port_allocator.py\<close>.  What the harness cannot know is the record \<open>env\<close>: how the next
  process will behave, what \<open>archerdb format\<close> does, what an HTTP request answers and how
  long it takes, which ports can be bound.  Time passes in sleeps, waits and requests only.
\<close>

type_synonym path = string

text \<open>The life of a process: when it exits of itself (if it does) and with which code, how
  long after \<open>SIGTERM\<close> and with which code it exits (if it reacts), and what it prints when.\<close>

record life =
  lf_exit :: "(nat \<times> int) option"
  lf_term :: "(nat \<times> int) option"
  lf_lines :: "(nat \<times> code_points) list"

record proc =
  pr_args :: "string list"
  pr_born :: int
  pr_life :: life
  pr_end :: "(int \<times> int) option"

record world =
  now :: int
  procs :: "proc list"
  files :: "path set"
  allocated :: "int set"

record http_response =
  status_code :: int
  response_text :: code_points

record env =
  env_life :: "nat \<Rightarrow> life option"
  env_format :: "string list \<Rightarrow> path set \<Rightarrow> int \<times> code_points \<times> path set"
  env_http :: "int \<Rightarrow> int \<Rightarrow> string \<Rightarrow> nat \<times> http_response option"
  env_bind :: "int \<Rightarrow> int \<Rightarrow> bool"
  env_listening :: "int \<Rightarrow> int \<Rightarrow> nat \<times> bool"
  env_tmp :: "path set \<Rightarrow> path"

subsection \<open>Time, processes, requests\<close>

definition sleep :: "nat \<Rightarrow> world \<Rightarrow> world" where
  "sleep ms w = w\<lparr>now := now w + int ms\<rparr>"

text \<open>\<open>subprocess.Popen\<close>; \<open>None\<close> when the program cannot be started (an \<open>OSError\<close>).\<close>

definition popen :: "env \<Rightarrow> string list \<Rightarrow> world \<Rightarrow> (nat \<times> world) option" where
  "popen env args w =
     (case env_life env (length (procs w)) of
        None \<Rightarrow> None
      | Some l \<Rightarrow>
          Some (length (procs w),
            w\<lparr>procs := procs w @
              [\<lparr>pr_args = args, pr_born = now w, pr_life = l,
                pr_end = map_option (\<lambda>(d, code). (now w + int d, code)) (lf_exit l)\<rparr>]\<rparr>))"

text \<open>\<open>poll()\<close>: the exit code of a process that has ended.\<close>

definition poll :: "nat \<Rightarrow> world \<Rightarrow> int option" where
  "poll pid w =
     (case pr_end (procs w ! pid) of
        None \<Rightarrow> None
      | Some (t, code) \<Rightarrow> if t \<le> now w then Some code else None)"

definition set_end :: "nat \<Rightarrow> int \<times> int \<Rightarrow> world \<Rightarrow> world" where
  "set_end pid e w = w\<lparr>procs := (procs w)[pid := (procs w ! pid)\<lparr>pr_end := Some e\<rparr>]\<rparr>"

text \<open>\<open>terminate()\<close> and \<open>kill()\<close> leave a process alone that has ended.  A process that reacts
  to \<open>SIGTERM\<close> ends then, unless it ends before; \<open>SIGKILL\<close> cannot be ignored.\<close>

definition terminate :: "nat \<Rightarrow> world \<Rightarrow> world" where
  "terminate pid w =
     (if poll pid w \<noteq> None then w
      else
        case lf_term (pr_life (procs w ! pid)) of
          None \<Rightarrow> w
        | Some (d, code) \<Rightarrow>
            (case pr_end (procs w ! pid) of
               None \<Rightarrow> set_end pid (now w + int d, code) w
             | Some (t, c) \<Rightarrow> if t \<le> now w + int d then w else set_end pid (now w + int d, code) w))"

definition kill :: "nat \<Rightarrow> world \<Rightarrow> world" where
  "kill pid w = (if poll pid w \<noteq> None then w else set_end pid (now w, -9) w)"

text \<open>\<open>wait()\<close>: the world when the process has ended, or \<open>None\<close> when it never does.\<close>

definition wait :: "nat \<Rightarrow> world \<Rightarrow> world option" where
  "wait pid w = (case pr_end (procs w ! pid) of None \<Rightarrow> None | Some (t, c) \<Rightarrow> Some (w\<lparr>now := max (now w) t\<rparr>))"

text \<open>\<open>wait(timeout)\<close>: \<open>False\<close> for \<open>TimeoutExpired\<close>.\<close>

definition wait_timeout :: "nat \<Rightarrow> nat \<Rightarrow> world \<Rightarrow> bool \<times> world" where
  "wait_timeout pid ms w =
     (case pr_end (procs w ! pid) of
        None \<Rightarrow> (False, sleep ms w)
      | Some (t, c) \<Rightarrow> if t \<le> now w + int ms then (True, w\<lparr>now := max (now w) t\<rparr>) else (False, sleep ms w))"

text \<open>\<open>_http_get\<close>: \<open>None\<close> for \<open>_HttpRequestError\<close>; an HTTP error status is a response.\<close>

definition http_get :: "env \<Rightarrow> int \<Rightarrow> string \<Rightarrow> world \<Rightarrow> http_response option \<times> world" where
  "http_get env port url_path w =
     (case env_http env (now w) port url_path of (d, r) \<Rightarrow> (r, sleep d w))"

text \<open>What the thread \<open>capture_logs\<close> has written for a process by now: each line in turn, until
  a write raises.\<close>

fun capture_lines :: "code_points list \<Rightarrow> log_capture \<Rightarrow> log_capture" where
  "capture_lines [] l = l"
| "capture_lines (line # lines) l =
     (case log_write line l of
        (Inl e, l) \<Rightarrow> l
      | (Inr u, l) \<Rightarrow> capture_lines lines l)"

definition printed :: "proc \<Rightarrow> int \<Rightarrow> code_points list" where
  "printed p t =
     map snd (filter (\<lambda>(d, line). pr_born p + int d \<le> t \<and>
        (case pr_end p of None \<Rightarrow> True | Some (e, c) \<Rightarrow> pr_born p + int d \<le> e)) (lf_lines (pr_life p)))"

definition capture_of :: "nat option \<Rightarrow> world \<Rightarrow> log_capture" where
  "capture_of pid w =
     (case pid of
        None \<Rightarrow> new_log_capture 1048576
      | Some pid \<Rightarrow> capture_lines (printed (procs w ! pid) (now w)) (new_log_capture 1048576))"

subsection \<open>Laws of processes\<close>

text \<open>A process runs when it was spawned and has not ended.\<close>

definition running :: "nat \<Rightarrow> world \<Rightarrow> bool" where
  "running pid w \<longleftrightarrow> pid < length (procs w) \<and> poll pid w = None"

definition running_pids :: "world \<Rightarrow> nat set" where
  "running_pids w = {pid. running pid w}"

text \<open>What every operation of the harness keeps: the clock does not go back, no process is
  forgotten, and none that has ended comes back.\<close>

definition later :: "world \<Rightarrow> world \<Rightarrow> bool" where
  "later w w' \<longleftrightarrow> now w \<le> now w' \<and> length (procs w) \<le> length (procs w') \<and>
     (\<forall>pid<length (procs w). poll pid w \<noteq> None \<longrightarrow> poll pid w' \<noteq> None)"

lemma later_refl [simp, intro]: "later w w"
  by (simp add: later_def)

lemma later_trans [trans]: "later u v \<Longrightarrow> later v w \<Longrightarrow> later u w"
  unfolding later_def by (meson le_trans order_trans less_le_trans)

lemma later_running: "later w w' \<Longrightarrow> running pid w' \<Longrightarrow> pid < length (procs w) \<Longrightarrow> running pid w"
  unfolding later_def running_def by blast

lemma poll_time: "poll pid w \<noteq> None \<Longrightarrow> now w \<le> t \<Longrightarrow> poll pid (w\<lparr>now := t\<rparr>) = poll pid w"
  by (auto simp: poll_def split: option.splits if_splits)

lemma later_time: "now w \<le> t \<Longrightarrow> later w (w\<lparr>now := t\<rparr>)"
  unfolding later_def by (simp add: poll_time)

lemma later_sleep [simp, intro]: "later w (sleep ms w)"
  unfolding sleep_def by (rule later_time) simp

lemma sleep_simps [simp]:
  "procs (sleep ms w) = procs w" "files (sleep ms w) = files w" "allocated (sleep ms w) = allocated w"
  "now (sleep ms w) = now w + int ms"
  by (simp_all add: sleep_def)

lemma poll_frame [simp]:
  "poll pid (w\<lparr>files := F\<rparr>) = poll pid w" "poll pid (w\<lparr>allocated := A\<rparr>) = poll pid w"
  by (simp_all add: poll_def split: option.split)

lemma later_frame [simp, intro]: "later w (w\<lparr>files := F\<rparr>)" "later w (w\<lparr>allocated := A\<rparr>)"
  by (simp_all add: later_def)

lemma popen_Some:
  assumes "popen env args w = Some (pid, w')"
  shows "pid = length (procs w)" and "length (procs w') = Suc (length (procs w))" and "later w w'"
    and "now w' = now w" and "files w' = files w" and "allocated w' = allocated w"
    and "p < length (procs w) \<Longrightarrow> poll p w' = poll p w"
  using assms by (auto simp: popen_def later_def poll_def nth_append split: option.splits)

lemma set_end_simps [simp]:
  "now (set_end pid e w) = now w" "length (procs (set_end pid e w)) = length (procs w)"
  "files (set_end pid e w) = files w" "allocated (set_end pid e w) = allocated w"
  by (simp_all add: set_end_def)

lemma poll_set_end_other [simp]: "p \<noteq> pid \<Longrightarrow> poll p (set_end pid e w) = poll p w"
  by (simp add: set_end_def poll_def split: option.split)

lemma later_set_end: "poll pid w = None \<Longrightarrow> later w (set_end pid e w)"
  unfolding later_def by (auto simp: set_end_simps) (metis option.distinct(1) poll_set_end_other)

lemma later_terminate [simp, intro]: "later w (terminate pid w)"
  by (auto simp: terminate_def later_set_end split: option.splits)

lemma later_kill [simp, intro]: "later w (kill pid w)"
  by (auto simp: kill_def later_set_end)

lemma kill_ends: "pid < length (procs w) \<Longrightarrow> poll pid (kill pid w) \<noteq> None"
  by (auto simp: kill_def set_end_def poll_def)

lemma wait_ended: "poll pid w \<noteq> None \<Longrightarrow> wait pid w = Some w"
  by (auto simp: poll_def wait_def split: option.splits if_splits)

lemma wait_timeout_True: "wait_timeout pid ms w = (True, w') \<Longrightarrow> poll pid w' \<noteq> None"
  by (auto simp: wait_timeout_def poll_def split: option.splits if_splits)

lemma wait_timeout_later: "later w (snd (wait_timeout pid ms w))"
  by (auto simp: wait_timeout_def intro: later_time split: option.splits)

lemma wait_timeout_frame [simp]:
  "procs (snd (wait_timeout pid ms w)) = procs w" "files (snd (wait_timeout pid ms w)) = files w"
  "allocated (snd (wait_timeout pid ms w)) = allocated w" "now (snd (wait_timeout pid ms w)) \<le> now w + int ms"
  by (auto simp: wait_timeout_def split: option.splits)

lemma terminate_frame [simp]:
  "length (procs (terminate pid w)) = length (procs w)" "files (terminate pid w) = files w"
  "allocated (terminate pid w) = allocated w" "now (terminate pid w) = now w"
  by (auto simp: terminate_def split: option.splits)

lemma kill_frame [simp]:
  "length (procs (kill pid w)) = length (procs w)" "files (kill pid w) = files w"
  "allocated (kill pid w) = allocated w" "now (kill pid w) = now w"
  by (auto simp: kill_def)

lemma http_get_frame:
  assumes "http_get env port url w = (r, w')"
  shows "procs w' = procs w" and "files w' = files w" and "allocated w' = allocated w" and "later w w'"
  using assms by (auto simp: http_get_def split: prod.splits)

end
