(* ===== verification/Cluster.thy ===== *)
theory Cluster
  imports Test_Processes Py_Text "HOL-Library.AList"
begin

section \<open>Test clusters\<close>

text \<open>
  \<open>ArcherDBCluster\<close> of \<open>test_infrastructure/harness/cluster.py\<close>: starting the nodes of a
  cluster, waiting for them, stopping and restarting them.  The object is the record
  \<open>cluster\<close>; every method is a function of the environment, the object and the world.  A
  method whose result is \<open>None\<close> never returns.  Times are in milliseconds.  A log capture is
  known by the process it listens to; log threads and printed messages are left out.
\<close>

subsection \<open>Data\<close>

record cluster_config =
  node_count :: int
  replica_count :: "int option"
  base_port :: int
  config_data_dir :: "path option"
  config_cluster_id :: int
  cache_grid :: string
  ram_index_size :: string
  memory_lsm_manifest :: string
  preserve_on_failure :: bool
  archerdb_bin :: path
  startup_timeout :: int
  metrics_base_port :: int
  primary_head_start_timeout :: int

definition default_cluster_config :: "string option \<Rightarrow> cluster_config" where
  "default_cluster_config preserve_env =
     \<lparr>node_count = 1, replica_count = None, base_port = 0, config_data_dir = None, config_cluster_id = 0,
      cache_grid = ''64MiB'', ram_index_size = ''8MiB'', memory_lsm_manifest = ''64MiB'',
      preserve_on_failure = (preserve_env = Some ''1''), archerdb_bin = [], startup_timeout = 60000,
      metrics_base_port = 0, primary_head_start_timeout = 0\<rparr>"

text \<open>The exceptions, by their messages.  \<open>InvalidReplica\<close> and \<open>ReplicaNotFound\<close> are
  \<open>ValueError\<close>s, \<open>SpawnFailed\<close> is an \<open>OSError\<close>, the others \<open>RuntimeError\<close>s; \<open>Py_Error\<close>
  carries what a dict, a list or the port allocator raises.\<close>

datatype cluster_exn =
    RootNotFound
  | BinaryNotFound path
  | AlreadyStarted
  | NotStarted
  | BadReplicaCount int int
  | FormatFailed int code_points
  | InitTimeout int int code_points
  | StartFailed int int code_points
  | Crashed int int code_points
  | RestartFailed int int code_points
  | InvalidReplica int
  | ReplicaNotFound int
  | NoDataDirectory
  | SpawnFailed
  | Py_Error py_exn

record cluster =
  config :: cluster_config
  processes :: "(int \<times> nat) list"
  log_captures :: "int \<rightharpoonup> nat option"
  cluster_ports :: "int list"
  metrics_ports :: "int list"
  data_dir :: "path option"
  temp_dir_created :: bool
  started :: bool
  failed :: bool
  bin_path :: path

text \<open>\<open>_find_project_root\<close>, over the directories above the file, the nearest first.\<close>

definition find_project_root :: "path list \<Rightarrow> path set \<Rightarrow> path option" where
  "find_project_root ancestors fs =
     find (\<lambda>d. d @ ''/zig-out/bin/archerdb'' \<in> fs \<or> d @ ''/build.zig'' \<in> fs) (take 10 ancestors)"

definition binary_path :: "cluster_config \<Rightarrow> string option \<Rightarrow> path list \<Rightarrow> path set \<Rightarrow> (cluster_exn, path) result" where
  "binary_path cfg from_env ancestors fs =
     (if archerdb_bin cfg \<noteq> [] then Inr (archerdb_bin cfg)
      else
        case from_env of
          Some (ch # rest) \<Rightarrow> Inr (ch # rest)
        | _ \<Rightarrow>
            (case find_project_root ancestors fs of
               None \<Rightarrow> Inl RootNotFound
             | Some base \<Rightarrow> Inr (base @ ''/zig-out/bin/archerdb'')))"

definition new_cluster :: "cluster_config \<Rightarrow> string option \<Rightarrow> path list \<Rightarrow> path set \<Rightarrow> (cluster_exn, cluster) result" where
  "new_cluster cfg from_env ancestors fs =
     bindE (binary_path cfg from_env ancestors fs) (\<lambda>p.
     if p \<notin> fs then Inl (BinaryNotFound p)
     else Inr \<lparr>config = cfg, processes = [], log_captures = Map.empty, cluster_ports = [], metrics_ports = [],
               data_dir = None, temp_dir_created = False, started = False, failed = False, bin_path = p\<rparr>)"

subsection \<open>Preparing the nodes\<close>

definition element_at :: "'a list \<Rightarrow> int \<Rightarrow> (cluster_exn, 'a) result" where
  "element_at xs i = (if 0 \<le> i \<and> i < int (length xs) then Inr (xs ! nat i) else Inl (Py_Error IndexError))"

definition addresses :: "cluster \<Rightarrow> string" where
  "addresses c = join_with '','' (map (\<lambda>p. ''127.0.0.1:'' @ show_int p) (cluster_ports c))"

definition data_file :: "path \<Rightarrow> int \<Rightarrow> path" where
  "data_file d i = d @ ''/replica-'' @ show_int i @ ''.archerdb''"

definition setup_data_dir :: "env \<Rightarrow> cluster \<Rightarrow> world \<Rightarrow> path \<times> cluster \<times> world" where
  "setup_data_dir env c w =
     (case config_data_dir (config c) of
        Some (ch # rest) \<Rightarrow>
          (ch # rest, c\<lparr>data_dir := Some (ch # rest)\<rparr>, w\<lparr>files := insert (ch # rest) (files w)\<rparr>)
      | _ \<Rightarrow>
          (let d = env_tmp env (files w) in
           (d, c\<lparr>data_dir := Some d, temp_dir_created := True\<rparr>, w\<lparr>files := insert d (files w)\<rparr>)))"

text \<open>\<open>config.replica_count or config.node_count\<close>: zero counts as missing.\<close>

definition replica_total :: "cluster_config \<Rightarrow> int" where
  "replica_total cfg =
     (case replica_count cfg of None \<Rightarrow> node_count cfg | Some r \<Rightarrow> if r = 0 then node_count cfg else r)"

definition take_ports :: "env \<Rightarrow> int \<Rightarrow> int \<Rightarrow> world \<Rightarrow> (cluster_exn, int list) result \<times> world" where
  "take_ports env count base w =
     (case allocate_ports (\<lambda>p u. (env_bind env (now w) p, u)) count base (allocated w) () of
        (Inl e, A, u) \<Rightarrow> (Inl (Py_Error e), w\<lparr>allocated := A\<rparr>)
      | (Inr ps, A, u) \<Rightarrow> (Inr ps, w\<lparr>allocated := A\<rparr>))"

definition metrics_base :: "cluster_config \<Rightarrow> int list \<Rightarrow> int" where
  "metrics_base cfg ps = (if 0 < metrics_base_port cfg then metrics_base_port cfg else last ps + 100)"

definition setup_ports :: "env \<Rightarrow> cluster \<Rightarrow> world \<Rightarrow> (cluster_exn, unit) result \<times> cluster \<times> world" where
  "setup_ports env c w =
     (case take_ports env (node_count (config c)) (base_port (config c)) w of
        (Inl e, w) \<Rightarrow> (Inl e, c, w)
      | (Inr ps, w) \<Rightarrow>
          (case take_ports env (node_count (config c)) (metrics_base (config c) ps) w of
             (Inl e, w) \<Rightarrow> (Inl e, c\<lparr>cluster_ports := ps\<rparr>, w)
           | (Inr ms, w) \<Rightarrow> (Inr (), c\<lparr>cluster_ports := ps, metrics_ports := ms\<rparr>, w)))"

definition format_args :: "cluster \<Rightarrow> int \<Rightarrow> int \<Rightarrow> path \<Rightarrow> string list" where
  "format_args c replicas i file =
     [bin_path c, ''format'', ''--development=true'', ''--cluster='' @ show_int (config_cluster_id (config c)),
      ''--replica-count='' @ show_int replicas,
      ''--'' @ (if i < replicas then ''replica'' else ''standby'') @ ''='' @ show_int i, file]"

fun format_files ::
    "env \<Rightarrow> cluster \<Rightarrow> path \<Rightarrow> int \<Rightarrow> int list \<Rightarrow> world \<Rightarrow> (cluster_exn, unit) result \<times> world" where
  "format_files env c d replicas [] w = (Inr (), w)"
| "format_files env c d replicas (i # is) w =
     (if data_file d i \<in> files w then format_files env c d replicas is w
      else
        case env_format env (format_args c replicas i (data_file d i)) (files w) of
          (code, err, fs) \<Rightarrow>
            if code \<noteq> 0 then (Inl (FormatFailed i err), w\<lparr>files := fs\<rparr>)
            else format_files env c d replicas is (w\<lparr>files := fs\<rparr>))"

text \<open>The command line of a node; \<open>extra\<close> stands between the addresses and the cache size.\<close>

definition node_args :: "cluster \<Rightarrow> string list \<Rightarrow> int \<Rightarrow> path \<Rightarrow> string list" where
  "node_args c extra metrics_port file =
     [bin_path c, ''start'', ''--development=true'', ''--experimental=true'', ''--addresses='' @ addresses c] @ extra @
     [''--cache-grid='' @ cache_grid (config c), ''--ram-index-size='' @ ram_index_size (config c),
      ''--memory-lsm-manifest='' @ memory_lsm_manifest (config c), ''--metrics-port='' @ show_int metrics_port,
      ''--metrics-bind=127.0.0.1'', file]"

definition spawn_node ::
    "env \<Rightarrow> string list \<Rightarrow> path \<Rightarrow> int \<Rightarrow> cluster \<Rightarrow> world \<Rightarrow> (cluster_exn, nat) result \<times> cluster \<times> world" where
  "spawn_node env extra file i c w =
     (let c = c\<lparr>log_captures := (log_captures c)(i \<mapsto> None)\<rparr> in
      case element_at (metrics_ports c) i of
        Inl e \<Rightarrow> (Inl e, c, w)
      | Inr port \<Rightarrow>
          (case popen env (node_args c extra port file) w of
             None \<Rightarrow> (Inl SpawnFailed, c, w)
           | Some (pid, w) \<Rightarrow>
               (Inr pid, c\<lparr>processes := AList.update i pid (processes c),
                           log_captures := (log_captures c)(i \<mapsto> Some pid)\<rparr>, w)))"

subsection \<open>What the nodes say\<close>

definition cps :: "string \<Rightarrow> code_points" where
  "cps s = map of_char s"

fun cp_contains :: "code_points \<Rightarrow> code_points \<Rightarrow> bool" where
  "cp_contains sub [] \<longleftrightarrow> sub = []"
| "cp_contains sub (c # s) \<longleftrightarrow> take (length sub) (c # s) = sub \<or> cp_contains sub s"

text \<open>\<open>\s\<close> of a regular expression on text.\<close>

definition cp_space :: "nat \<Rightarrow> bool" where
  "cp_space c \<longleftrightarrow> c \<in> {9, 10, 11, 12, 13, 28, 29, 30, 31, 32, 0x85, 0xA0, 0x1680, 0x2028, 0x2029, 0x202F, 0x205F, 0x3000} \<or>
     0x2000 \<le> c \<and> c \<le> 0x200A"

text \<open>The search for \<open>archerdb_region_info\{[^}]*role="primary"[^}]*\}\s+1\<close>: both \<open>[^}]*\<close> end
  at the first closing brace, and no white space is a 1.\<close>

definition primary_here :: "code_points \<Rightarrow> bool" where
  "primary_here t =
     (let name = cps ''archerdb_region_info{'' in
      take (length name) t = name \<and>
      (let rest = drop (length name) t;
           labels = takeWhile (\<lambda>c. c \<noteq> of_char CHR ''}'') rest;
           after = drop (length labels + 1) rest in
       length labels < length rest \<and> cp_contains (cps ''role=\"primary\"'') labels \<and>
       after \<noteq> [] \<and> cp_space (hd after) \<and> take 1 (dropWhile cp_space after) = cps ''1''))"

fun reports_primary :: "code_points \<Rightarrow> bool" where
  "reports_primary [] \<longleftrightarrow> primary_here []"
| "reports_primary (c # t) \<longleftrightarrow> primary_here (c # t) \<or> reports_primary t"

definition metrics_say_primary :: "env \<Rightarrow> int \<Rightarrow> world \<Rightarrow> bool \<times> world" where
  "metrics_say_primary env port w =
     (case http_get env port ''/metrics'' w of
        (Some r, w) \<Rightarrow> (status_code r = 200 \<and> reports_primary (response_text r), w)
      | (None, w) \<Rightarrow> (False, w))"

definition captured :: "cluster \<Rightarrow> int \<Rightarrow> world \<Rightarrow> (cluster_exn, log_capture) result" where
  "captured c i w =
     (case log_captures c i of None \<Rightarrow> Inl (Py_Error KeyError) | Some pid \<Rightarrow> Inr (capture_of pid w))"

definition process_of :: "cluster \<Rightarrow> int \<Rightarrow> (cluster_exn, nat) result" where
  "process_of c i = (case map_of (processes c) i of None \<Rightarrow> Inl (Py_Error KeyError) | Some pid \<Rightarrow> Inr pid)"

subsection \<open>Waiting loops\<close>

function wait_for_node_listener ::
    "env \<Rightarrow> cluster \<Rightarrow> int \<Rightarrow> int \<Rightarrow> int \<Rightarrow> world \<Rightarrow> (cluster_exn, bool) result \<times> world" where
  "wait_for_node_listener env c i port deadline w =
     (if now w < deadline
      then
        case process_of c i of
          Inl e \<Rightarrow> (Inl e, w)
        | Inr pid \<Rightarrow>
            if poll pid w \<noteq> None then (Inr False, w)
            else
              case env_listening env (now w) port of
                (d, accepts) \<Rightarrow>
                  if accepts then (Inr True, sleep d w)
                  else wait_for_node_listener env c i port deadline (sleep (d + 250) w)
      else (Inr False, w))"
  by pat_completeness auto
termination by (relation "measure (\<lambda>(env, c, i, port, deadline, w). nat (deadline - now w))") auto

function wait_for_node_started ::
    "cluster \<Rightarrow> int \<Rightarrow> int \<Rightarrow> world \<Rightarrow> (cluster_exn, bool) result \<times> world" where
  "wait_for_node_started c i deadline w =
     (if now w < deadline
      then
        case process_of c i of
          Inl e \<Rightarrow> (Inl e, w)
        | Inr pid \<Rightarrow>
            if poll pid w \<noteq> None then (Inr False, w)
            else
              case captured c i w of
                Inl e \<Rightarrow> (Inl e, w)
              | Inr l \<Rightarrow>
                  if cp_contains (cps ''listening on'') (get_all l) then (Inr True, w)
                  else wait_for_node_started c i deadline (sleep 250 w)
      else (Inr False, w))"
  by pat_completeness auto
termination by (relation "measure (\<lambda>(c, i, deadline, w). nat (deadline - now w))") auto

declare wait_for_node_listener.simps [simp del] wait_for_node_started.simps [simp del]

text \<open>One pass of \<open>wait_for_ready\<close> over the nodes.\<close>

fun ready_pass ::
    "env \<Rightarrow> int list \<Rightarrow> int set \<Rightarrow> cluster \<Rightarrow> world \<Rightarrow> (cluster_exn, int set) result \<times> cluster \<times> world" where
  "ready_pass env [] ready c w = (Inr ready, c, w)"
| "ready_pass env (i # is) ready c w =
     (if i \<in> ready then ready_pass env is ready c w
      else
        case process_of c i of
          Inl e \<Rightarrow> (Inl e, c, w)
        | Inr pid \<Rightarrow>
            (case poll pid w of
               Some code \<Rightarrow>
                 (case captured c i w of
                    Inl e \<Rightarrow> (Inl e, c, w)
                  | Inr l \<Rightarrow> (Inl (Crashed i code (get_logs 50 l)), c\<lparr>failed := True\<rparr>, w))
             | None \<Rightarrow>
                 (case element_at (metrics_ports c) i of
                    Inl e \<Rightarrow> (Inl e, c, w)
                  | Inr port \<Rightarrow>
                      (case http_get env port ''/health/ready'' w of
                         (Some r, w) \<Rightarrow> ready_pass env is (if status_code r = 200 then insert i ready else ready) c w
                       | (None, w) \<Rightarrow> ready_pass env is ready c w))))"

lemma ready_pass_now: "now w \<le> now (snd (snd (ready_pass env is ready c w)))"
proof (induction env "is" ready c w rule: ready_pass.induct)
  case (2 env i "is" ready c w)
  then show ?case
    by (auto simp: http_get_def split: sum.split option.split prod.split) force+
qed simp

lemma ready_pass_world:
  "ready_pass env is ready c w = (r, c', w') \<Longrightarrow> now w \<le> now w'"
  using ready_pass_now [of w env "is" ready c] by simp

function wait_ready_loop ::
    "env \<Rightarrow> int \<Rightarrow> int set \<Rightarrow> cluster \<Rightarrow> world \<Rightarrow> (cluster_exn, bool) result \<times> cluster \<times> world" where
  "wait_ready_loop env deadline ready c w =
     (if now w < deadline
      then
        case ready_pass env [0..node_count (config c) - 1] ready c w of
          (Inl e, c, w) \<Rightarrow> (Inl e, c, w)
        | (Inr ready, c, w) \<Rightarrow>
            if int (card ready) = node_count (config c) then (Inr True, c, w)
            else wait_ready_loop env deadline ready c (sleep 500 w)
      else (Inr False, c, w))"
  by pat_completeness auto
termination
  by (relation "measure (\<lambda>(env, deadline, ready, c, w). nat (deadline - now w))")
    (auto dest: ready_pass_world [OF sym])

declare wait_ready_loop.simps [simp del]

definition wait_for_ready ::
    "env \<Rightarrow> int option \<Rightarrow> cluster \<Rightarrow> world \<Rightarrow> (cluster_exn, bool) result \<times> cluster \<times> world" where
  "wait_for_ready env timeout c w =
     (if \<not> started c then (Inl NotStarted, c, w)
      else wait_ready_loop env (now w + (case timeout of None \<Rightarrow> startup_timeout (config c) | Some t \<Rightarrow> t)) {} c w)"

definition is_node_running :: "cluster \<Rightarrow> int \<Rightarrow> world \<Rightarrow> bool" where
  "is_node_running c i w = (case map_of (processes c) i of None \<Rightarrow> False | Some pid \<Rightarrow> poll pid w = None)"

fun leader_pass :: "env \<Rightarrow> cluster \<Rightarrow> int list \<Rightarrow> world \<Rightarrow> (cluster_exn, int option) result \<times> world" where
  "leader_pass env c [] w = (Inr None, w)"
| "leader_pass env c (i # is) w =
     (case element_at (metrics_ports c) i of
        Inl e \<Rightarrow> (Inl e, w)
      | Inr port \<Rightarrow>
          (case metrics_say_primary env port w of
             (True, w) \<Rightarrow> (bindE (element_at (cluster_ports c) i) (\<lambda>p. Inr (Some p)), w)
           | (False, w) \<Rightarrow> leader_pass env c is w))"

lemma metrics_now: "metrics_say_primary env port w = (r, w') \<Longrightarrow> now w \<le> now w'"
  by (auto simp: metrics_say_primary_def http_get_def split: option.splits prod.splits)

lemma leader_pass_now: "leader_pass env c is w = (r, w') \<Longrightarrow> now w \<le> now w'"
proof (induction "is" arbitrary: w)
  case (Cons i "is")
  then show ?case
    by (fastforce split: sum.splits prod.splits bool.splits dest: metrics_now)
qed simp

function wait_leader_loop ::
    "env \<Rightarrow> int \<Rightarrow> cluster \<Rightarrow> world \<Rightarrow> (cluster_exn, int option) result \<times> world" where
  "wait_leader_loop env deadline c w =
     (if now w < deadline
      then
        case leader_pass env c [0..node_count (config c) - 1] w of
          (Inl e, w) \<Rightarrow> (Inl e, w)
        | (Inr (Some port), w) \<Rightarrow> (Inr (Some port), w)
        | (Inr None, w) \<Rightarrow> wait_leader_loop env deadline c (sleep 500 w)
      else (Inr None, w))"
  by pat_completeness auto
termination
  by (relation "measure (\<lambda>(env, deadline, c, w). nat (deadline - now w))")
    (auto dest: leader_pass_now [OF sym])

declare wait_leader_loop.simps [simp del]

definition wait_for_leader ::
    "env \<Rightarrow> int option \<Rightarrow> cluster \<Rightarrow> world \<Rightarrow> (cluster_exn, int option) result \<times> world" where
  "wait_for_leader env timeout c w =
     (if \<not> started c then (Inl NotStarted, w)
      else if node_count (config c) = 1 then (bindE (element_at (cluster_ports c) 0) (\<lambda>p. Inr (Some p)), w)
      else wait_leader_loop env (now w + (case timeout of None \<Rightarrow> startup_timeout (config c) | Some t \<Rightarrow> t)) c w)"

definition get_leader_address :: "env \<Rightarrow> cluster \<Rightarrow> world \<Rightarrow> (cluster_exn, string option) result \<times> world" where
  "get_leader_address env c w =
     (case wait_for_leader env (Some 5000) c w of
        (Inl e, w) \<Rightarrow> (Inl e, w)
      | (Inr (Some p), w) \<Rightarrow> (Inr (if p = 0 then None else Some (''127.0.0.1:'' @ show_int p)), w)
      | (Inr None, w) \<Rightarrow> (Inr None, w))"

fun leader_replica_pass :: "env \<Rightarrow> cluster \<Rightarrow> int list \<Rightarrow> world \<Rightarrow> (cluster_exn, int option) result \<times> world" where
  "leader_replica_pass env c [] w = (Inr None, w)"
| "leader_replica_pass env c (i # is) w =
     (if \<not> is_node_running c i w then leader_replica_pass env c is w
      else
        case element_at (metrics_ports c) i of
          Inl e \<Rightarrow> (Inl e, w)
        | Inr port \<Rightarrow>
            (case metrics_say_primary env port w of
               (True, w) \<Rightarrow> (Inr (Some i), w)
             | (False, w) \<Rightarrow> leader_replica_pass env c is w))"

definition get_leader_replica :: "env \<Rightarrow> cluster \<Rightarrow> world \<Rightarrow> (cluster_exn, int option) result \<times> world" where
  "get_leader_replica env c w =
     (if node_count (config c) = 1 then (Inr (if is_node_running c 0 w then Some 0 else None), w)
      else leader_replica_pass env c [0..node_count (config c) - 1] w)"

definition get_ports :: "cluster \<Rightarrow> int list" where
  "get_ports c = cluster_ports c"

definition get_metrics_ports :: "cluster \<Rightarrow> int list" where
  "get_metrics_ports c = metrics_ports c"

definition node_logs :: "cluster \<Rightarrow> int \<Rightarrow> world \<Rightarrow> code_points" where
  "node_logs c i w = (case log_captures c i of None \<Rightarrow> [] | Some pid \<Rightarrow> get_logs 1000 (capture_of pid w))"

text \<open>\<open>splitlines()\<close> and \<open>xs[-n:]\<close>; a count of zero keeps everything.\<close>

definition chomp :: "code_points \<Rightarrow> code_points" where
  "chomp line =
     (if drop (length line - 2) line = [13, 10] then take (length line - 2) line
      else if line \<noteq> [] \<and> line_break (last line) then butlast line
      else line)"

definition last_n :: "int \<Rightarrow> 'a list \<Rightarrow> 'a list" where
  "last_n n xs =
     (if 0 < n then drop (length xs - nat n) xs else drop (nat (- n)) xs)"

fun cp_join :: "code_points \<Rightarrow> code_points list \<Rightarrow> code_points" where
  "cp_join sep [] = []"
| "cp_join sep [p] = p"
| "cp_join sep (p # ps) = p @ sep @ cp_join sep ps"

definition get_recent_logs :: "cluster \<Rightarrow> int \<Rightarrow> world \<Rightarrow> code_points" where
  "get_recent_logs c max_lines w =
     cp_join [10, 10]
       (map (\<lambda>i. let tail = last_n max_lines (map chomp (split_lines [] (node_logs c i w))) in
              cps (''replica '' @ show_int i @ '':'') @ [10] @
              (if tail = [] then cps ''(no logs)'' else cp_join [10] tail))
         [0..node_count (config c) - 1])"

subsection \<open>Stopping\<close>

text \<open>Terminate, wait, and kill when that takes too long; \<open>stop\<close> gives a node 5 seconds.\<close>

definition stop_process :: "nat \<Rightarrow> nat \<Rightarrow> world \<Rightarrow> world option" where
  "stop_process ms pid w =
     (if poll pid w \<noteq> None then Some w
      else
        case wait_timeout pid ms (terminate pid w) of
          (True, w) \<Rightarrow> Some w
        | (False, w) \<Rightarrow> wait pid (kill pid w))"

fun stop_processes :: "nat list \<Rightarrow> world \<Rightarrow> world option" where
  "stop_processes [] w = Some w"
| "stop_processes (pid # pids) w = Option.bind (stop_process 5000 pid w) (stop_processes pids)"

definition remove_tree :: "path \<Rightarrow> path set \<Rightarrow> path set" where
  "remove_tree d fs = Set.filter (\<lambda>f. f \<noteq> d \<and> \<not> prefix (d @ ''/'') f) fs"

definition cleanup_data_dir :: "cluster \<Rightarrow> world \<Rightarrow> world" where
  "cleanup_data_dir c w =
     (case data_dir c of
        None \<Rightarrow> w
      | Some d \<Rightarrow>
          if temp_dir_created c \<and> \<not> (preserve_on_failure (config c) \<and> failed c)
          then w\<lparr>files := remove_tree d (files w)\<rparr> else w)"

definition cluster_stop :: "cluster \<Rightarrow> world \<Rightarrow> (cluster \<times> world) option" where
  "cluster_stop c w =
     map_option (\<lambda>w.
       (c\<lparr>processes := [], cluster_ports := [], metrics_ports := [], started := False\<rparr>,
        cleanup_data_dir c
          (w\<lparr>allocated := fold release_port (metrics_ports c) (fold release_port (cluster_ports c) (allocated w))\<rparr>)))
       (stop_processes (map snd (processes c)) w)"

definition stop_node :: "int \<Rightarrow> bool \<Rightarrow> cluster \<Rightarrow> world \<Rightarrow> ((cluster_exn, unit) result \<times> world) option" where
  "stop_node i graceful c w =
     (case map_of (processes c) i of
        None \<Rightarrow> Some (Inl (ReplicaNotFound i), w)
      | Some pid \<Rightarrow>
          if poll pid w \<noteq> None then Some (Inr (), w)
          else map_option (\<lambda>w. (Inr (), w)) (if graceful then stop_process 10000 pid w else wait pid (kill pid w)))"

definition kill_node :: "int \<Rightarrow> cluster \<Rightarrow> world \<Rightarrow> ((cluster_exn, unit) result \<times> world) option" where
  "kill_node i c w = stop_node i False c w"

subsection \<open>Starting\<close>

text \<open>Start the replicas in turn; large clusters wait for each before the next.\<close>

definition head_start :: "cluster_config \<Rightarrow> int" where
  "head_start cfg =
     (if 0 < primary_head_start_timeout cfg then primary_head_start_timeout cfg else min 120000 (startup_timeout cfg))"

fun start_replicas ::
    "env \<Rightarrow> path \<Rightarrow> int \<Rightarrow> int list \<Rightarrow> cluster \<Rightarrow> world \<Rightarrow> (cluster_exn, unit) result \<times> cluster \<times> world" where
  "start_replicas env d replicas [] c w = (Inr (), c, w)"
| "start_replicas env d replicas (i # is) c w =
     (case spawn_node env [''--replica-count='' @ show_int replicas] (data_file d i) i c w of
        (Inl e, c, w) \<Rightarrow> (Inl e, c, w)
      | (Inr pid, c, w) \<Rightarrow>
          if 5 \<le> node_count (config c)
          then
            case wait_for_node_started c i (now w + head_start (config c)) w of
              (Inl e, w) \<Rightarrow> (Inl e, c, w)
            | (Inr True, w) \<Rightarrow> start_replicas env d replicas is c w
            | (Inr False, w) \<Rightarrow>
                (case captured c i w of
                   Inl e \<Rightarrow> (Inl e, c, w)
                 | Inr l \<Rightarrow> (Inl (InitTimeout i (head_start (config c)) (get_logs 120 l)), c\<lparr>failed := True\<rparr>, w))
          else start_replicas env d replicas is c w)"

fun check_started :: "(int \<times> nat) list \<Rightarrow> cluster \<Rightarrow> world \<Rightarrow> (cluster_exn, unit) result \<times> cluster" where
  "check_started [] c w = (Inr (), c)"
| "check_started ((i, pid) # rest) c w =
     (case poll pid w of
        None \<Rightarrow> check_started rest c w
      | Some code \<Rightarrow>
          (case captured c i w of
             Inl e \<Rightarrow> (Inl e, c)
           | Inr l \<Rightarrow> (Inl (StartFailed i code (get_logs 50 l)), c\<lparr>failed := True\<rparr>)))"

text \<open>The \<open>try\<close> block of \<open>start\<close>.\<close>

definition start_nodes ::
    "env \<Rightarrow> path \<Rightarrow> int \<Rightarrow> cluster \<Rightarrow> world \<Rightarrow> (cluster_exn, unit) result \<times> cluster \<times> world" where
  "start_nodes env d replicas c w =
     (case start_replicas env d replicas [0..node_count (config c) - 1] c w of
        (Inl e, c, w) \<Rightarrow> (Inl e, c, w)
      | (Inr u, c, w) \<Rightarrow>
          (let w = sleep 500 w in
           case check_started (processes c) c w of (r, c) \<Rightarrow> (r, c, w)))"

definition cluster_start ::
    "env \<Rightarrow> cluster \<Rightarrow> world \<Rightarrow> ((cluster_exn, unit) result \<times> cluster \<times> world) option" where
  "cluster_start env c w =
     (if started c then Some (Inl AlreadyStarted, c, w)
      else
        case setup_data_dir env c w of
          (d, c, w) \<Rightarrow>
            (let replicas = replica_total (config c) in
             if replicas \<le> 0 \<or> node_count (config c) < replicas
             then Some (Inl (BadReplicaCount replicas (node_count (config c))), c, w)
             else
               case setup_ports env c w of
                 (Inl e, c, w) \<Rightarrow> Some (Inl e, c, w)
               | (Inr u, c, w) \<Rightarrow>
                   (case format_files env c d replicas [0..node_count (config c) - 1] w of
                      (Inl e, w) \<Rightarrow> Some (Inl e, c, w)
                    | (Inr u, w) \<Rightarrow>
                        (case start_nodes env d replicas c w of
                           (Inr u, c, w) \<Rightarrow> Some (Inr (), c\<lparr>started := True\<rparr>, w)
                         | (Inl e, c, w) \<Rightarrow>
                             map_option (\<lambda>(c, w). (Inl e, c, w)) (cluster_stop (c\<lparr>failed := True\<rparr>) w)))))"

definition start_node ::
    "env \<Rightarrow> int \<Rightarrow> cluster \<Rightarrow> world \<Rightarrow> (cluster_exn, unit) result \<times> cluster \<times> world" where
  "start_node env i c w =
     (if i < 0 \<or> node_count (config c) \<le> i then (Inl (InvalidReplica i), c, w)
      else
        case data_dir c of
          None \<Rightarrow> (Inl NoDataDirectory, c, w)
        | Some d \<Rightarrow>
            (case spawn_node env [] (data_file d i) i c w of
               (Inl e, c, w) \<Rightarrow> (Inl e, c, w)
             | (Inr pid, c, w) \<Rightarrow>
                 (let w = sleep 500 w in
                  case poll pid w of
                    None \<Rightarrow> (Inr (), c, w)
                  | Some code \<Rightarrow> (Inl (RestartFailed i code (get_logs 50 (capture_of (Some pid) w))), c, w))))"

text \<open>\<open>__exit__\<close>: leaving the \<open>with\<close> block, with or without an exception.\<close>

definition cluster_exit :: "bool \<Rightarrow> cluster \<Rightarrow> world \<Rightarrow> (cluster \<times> world) option" where
  "cluster_exit raised c w = cluster_stop (if raised then c\<lparr>failed := True\<rparr> else c) w"

end
