(* ===== verification/Cluster_Safety.thy ===== *)
theory Cluster_Safety
  imports Cluster
begin

section \<open>What starting and stopping a cluster leaves behind\<close>

text \<open>
  The processes, ports and files of an \<open>ArcherDBCluster\<close>: stopping always returns and leaves
  nothing running, a failed start cleans its processes up but not always its ports, and over
  any sequence of operations the only processes left to stop are those the object knows, as
  long as a node is restarted only when it is down.
\<close>

subsection \<open>Stopping\<close>

lemma stop_process_spec:
  assumes "pid < length (procs w)"
  shows "\<exists>w'. stop_process ms pid w = Some w' \<and> later w w' \<and> \<not> running pid w' \<and> now w' \<le> now w + int ms \<and>
    length (procs w') = length (procs w) \<and> files w' = files w \<and> allocated w' = allocated w \<and>
    (\<forall>p. p \<noteq> pid \<longrightarrow> procs w' ! p = procs w ! p)"
proof (cases "poll pid w = None")
  case False
  then show ?thesis by (auto simp: stop_process_def running_def)
next
  case True
  let ?t = "terminate pid w"
  have other: "procs ?t ! p = procs w ! p" if "p \<noteq> pid" for p
    using that by (auto simp: terminate_def set_end_def split: option.split)
  obtain b u where u: "wait_timeout pid ms ?t = (b, u)" by (cases "wait_timeout pid ms ?t")
  have l: "later w u" using later_trans [OF later_terminate wait_timeout_later [of ?t pid ms]] u by simp
  have f: "procs u = procs ?t" "files u = files w" "allocated u = allocated w" "now u \<le> now w + int ms"
    using wait_timeout_frame [of pid ms ?t] u by simp_all
  show ?thesis
  proof (cases b)
    case True
    with u have "poll pid u \<noteq> None" by (intro wait_timeout_True) simp
    with True u l f other \<open>poll pid w = None\<close> show ?thesis by (auto simp: stop_process_def running_def)
  next
    case False
    have valid: "pid < length (procs u)" using assms f(1) by simp
    have "wait pid (kill pid u) = Some (kill pid u)" using kill_ends [OF valid] by (rule wait_ended)
    moreover have "procs (kill pid u) ! p = procs w ! p" if "p \<noteq> pid" for p
      using that other f(1) by (simp add: kill_def set_end_def)
    ultimately show ?thesis
      using False u f \<open>poll pid w = None\<close> kill_ends [OF valid] later_trans [OF l later_kill [of u pid]]
      by (auto simp: stop_process_def running_def)
  qed
qed

lemma stop_processes_spec:
  assumes "\<forall>pid\<in>set pids. pid < length (procs w)"
  shows "\<exists>w'. stop_processes pids w = Some w' \<and> later w w' \<and> (\<forall>pid\<in>set pids. \<not> running pid w') \<and>
    now w' \<le> now w + 5000 * int (length pids) \<and> length (procs w') = length (procs w) \<and>
    files w' = files w \<and> allocated w' = allocated w \<and> (\<forall>p. p \<notin> set pids \<longrightarrow> procs w' ! p = procs w ! p)"
  using assms
proof (induction pids arbitrary: w)
  case Nil
  then show ?case by simp
next
  case (Cons pid pids)
  then obtain u where u: "stop_process 5000 pid w = Some u" "later w u" "\<not> running pid u" "now u \<le> now w + 5000"
    "length (procs u) = length (procs w)" "files u = files w" "allocated u = allocated w"
    "\<forall>p. p \<noteq> pid \<longrightarrow> procs u ! p = procs w ! p"
    using stop_process_spec [of pid w 5000] by auto
  have "\<forall>p\<in>set pids. p < length (procs u)" using Cons.prems u(5) by simp
  from Cons.IH [OF this] obtain w' where w': "stop_processes pids u = Some w'" "later u w'" "\<forall>p\<in>set pids. \<not> running p w'"
    "now w' \<le> now u + 5000 * int (length pids)" "length (procs w') = length (procs u)" "files w' = files u"
    "allocated w' = allocated u" "\<forall>p. p \<notin> set pids \<longrightarrow> procs w' ! p = procs u ! p"
    by blast
  have "\<not> running pid w'"
    using later_running [OF w'(2), of pid] u(3,5) w'(5) Cons.prems by auto
  moreover have "later w w'" using u(2) w'(2) by (rule later_trans)
  ultimately show ?case using u w' by simp
qed

lemma fold_release: "fold release_port ps A = A - set ps"
  by (induction ps arbitrary: A) (auto simp: release_port_def)

lemma cleanup_simps [simp]:
  "procs (cleanup_data_dir c w) = procs w" "now (cleanup_data_dir c w) = now w"
  "allocated (cleanup_data_dir c w) = allocated w" "poll pid (cleanup_data_dir c w) = poll pid w"
  "running pid (cleanup_data_dir c w) = running pid w"
  by (simp_all add: cleanup_data_dir_def running_def split: option.split)

text \<open>The processes an object knows were spawned in this world.\<close>

definition known_spawned :: "cluster \<Rightarrow> world \<Rightarrow> bool" where
  "known_spawned c w \<longleftrightarrow> (\<forall>pid\<in>snd ` set (processes c). pid < length (procs w))"

lemma cluster_stop_spec:
  assumes "known_spawned c w"
  shows "\<exists>c' w'. cluster_stop c w = Some (c', w') \<and> later w w' \<and>
    processes c' = [] \<and> cluster_ports c' = [] \<and> metrics_ports c' = [] \<and> \<not> started c' \<and> config c' = config c \<and>
    (\<forall>pid\<in>snd ` set (processes c). \<not> running pid w') \<and>
    now w' \<le> now w + 5000 * int (length (processes c)) \<and>
    allocated w' = allocated w - set (cluster_ports c) - set (metrics_ports c) \<and>
    files w' = files (cleanup_data_dir c w) \<and> length (procs w') = length (procs w) \<and>
    (\<forall>p. p \<notin> snd ` set (processes c) \<longrightarrow> procs w' ! p = procs w ! p)"
proof -
  obtain u where u: "stop_processes (map snd (processes c)) w = Some u" "later w u"
    "\<forall>pid\<in>snd ` set (processes c). \<not> running pid u" "now u \<le> now w + 5000 * int (length (processes c))"
    "length (procs u) = length (procs w)" "files u = files w" "allocated u = allocated w"
    "\<forall>p. p \<notin> snd ` set (processes c) \<longrightarrow> procs u ! p = procs w ! p"
    using assms stop_processes_spec [of "map snd (processes c)" w] by (auto simp: known_spawned_def)
  let ?u = "u\<lparr>allocated := allocated w - set (cluster_ports c) - set (metrics_ports c)\<rparr>"
  have "later w (cleanup_data_dir c ?u)" using u(2) by (simp add: later_def)
  moreover have "files (cleanup_data_dir c ?u) = files (cleanup_data_dir c w)"
    using u(6) by (auto simp: cleanup_data_dir_def split: option.split)
  moreover have "\<not> running p ?u" if "p \<in> snd ` set (processes c)" for p
    using u(3) that by (auto simp: running_def)
  ultimately show ?thesis using u by (simp add: cluster_stop_def fold_release)
qed

subsection \<open>Starting\<close>

text \<open>Which processes may be running: those of the world before, and those the object knows.\<close>

definition accounted :: "nat set \<Rightarrow> cluster \<Rightarrow> world \<Rightarrow> bool" where
  "accounted old c w \<longleftrightarrow> known_spawned c w \<and>
     (\<forall>pid. running pid w \<longrightarrow> pid \<in> old \<or> (\<exists>i. map_of (processes c) i = Some pid))"

lemma accounted_later:
  assumes "accounted old c w" and "later w w'" and "length (procs w') = length (procs w)"
    and "processes c' = processes c"
  shows "accounted old c' w'"
  using assms later_running [OF assms(2)] by (auto simp: accounted_def known_spawned_def running_def)

lemma snd_update: "snd ` set (AList.update k v al) \<subseteq> insert v (snd ` set al)"
  by (induction al) auto

text \<open>Stopping an accounted cluster leaves only what ran before it.\<close>

lemma stop_tidies:
  assumes "accounted old c w"
  shows "\<exists>c' w'. cluster_stop c w = Some (c', w') \<and> (\<forall>pid. running pid w' \<longrightarrow> pid \<in> old)"
proof -
  from cluster_stop_spec [of c w] assms obtain c' w' where st: "cluster_stop c w = Some (c', w')" "later w w'"
    "\<forall>pid\<in>snd ` set (processes c). \<not> running pid w'" "length (procs w') = length (procs w)"
    by (auto simp: accounted_def)
  have "pid \<in> old" if "running pid w'" for pid
  proof -
    have "running pid w" using later_running [OF st(2) that] that st(4) by (simp add: running_def)
    moreover have "map_of (processes c) i \<noteq> Some pid" for i
      using st(3) that map_of_SomeD [of "processes c" i pid] by force
    ultimately show ?thesis using assms unfolding accounted_def by blast
  qed
  with st(1) show ?thesis by blast
qed

text \<open>What starting processes leaves alone.\<close>

definition same_setup :: "cluster \<Rightarrow> cluster \<Rightarrow> bool" where
  "same_setup c c' \<longleftrightarrow> config c' = config c \<and> data_dir c' = data_dir c \<and> started c' = started c \<and>
     cluster_ports c' = cluster_ports c \<and> metrics_ports c' = metrics_ports c \<and> temp_dir_created c' = temp_dir_created c"

lemma same_setup_refl [simp]: "same_setup c c"
  by (simp add: same_setup_def)

lemma same_setup_trans: "same_setup a b \<Longrightarrow> same_setup b c \<Longrightarrow> same_setup a c"
  by (simp add: same_setup_def)

text \<open>A new process replaces one of its replica that does not run.\<close>

lemma spawn_accounted:
  assumes "spawn_node env extra file i c w = (r, c', w')" and "accounted old c w"
    and "\<not> is_node_running c i w"
  shows "accounted old c' w' \<and> later w w' \<and> same_setup c c' \<and> files w' = files w \<and> allocated w' = allocated w \<and>
    (\<forall>j. j \<noteq> i \<longrightarrow> map_of (processes c') j = map_of (processes c) j)"
proof -
  let ?c = "c\<lparr>log_captures := (log_captures c)(i \<mapsto> None)\<rparr>"
  have same: ?thesis if "c' = ?c" "w' = w"
    unfolding that using assms(2) by (simp add: accounted_def known_spawned_def same_setup_def)
  show ?thesis
  proof (cases "element_at (metrics_ports c) i")
    case (Inl e)
    with assms(1) have "c' = ?c" "w' = w" by (simp_all add: spawn_node_def Let_def)
    then show ?thesis by (rule same)
  next
    case (Inr port)
    show ?thesis
    proof (cases "popen env (node_args ?c extra port file) w")
      case None
      with Inr assms(1) have "c' = ?c" "w' = w" by (simp_all add: spawn_node_def Let_def)
      then show ?thesis by (rule same)
    next
      case (Some q)
      then obtain pid u where q: "popen env (node_args ?c extra port file) w = Some (pid, u)" by (cases q) auto
      note u = popen_Some [OF q]
      have c': "processes c' = AList.update i pid (processes c)" "w' = u" and frame: "same_setup c c'"
        using assms(1) Inr q by (auto simp: spawn_node_def Let_def same_setup_def)
      have "\<forall>p\<in>snd ` set (processes c'). p < length (procs w')"
        using snd_update [of i pid "processes c"] assms(2) u(1,2) c'
        by (auto simp: accounted_def known_spawned_def dest!: subsetD)
      moreover have "p \<in> old \<or> (\<exists>j. map_of (processes c') j = Some p)" if "running p w'" for p
      proof (cases "p < length (procs w)")
        case False
        with that u(1,2) c' have "p = pid" by (auto simp: running_def)
        then show ?thesis using c'(1) by (intro disjI2 exI [of _ i]) (simp add: update_conv')
      next
        case True
        with that u(7) c'(2) have "running p w" by (simp add: running_def)
        moreover have "map_of (processes c) i \<noteq> Some p"
          using assms(3) \<open>running p w\<close> by (auto simp: is_node_running_def running_def)
        ultimately show ?thesis using assms(2) c'(1) by (auto simp: accounted_def update_conv')
      qed
      ultimately show ?thesis using frame u(3,5,6) c'
        by (auto simp: accounted_def known_spawned_def update_conv')
    qed
  qed
qed

lemma wait_started_frame:
  "wait_for_node_started c i deadline w = (r, w') \<Longrightarrow>
     later w w' \<and> procs w' = procs w \<and> files w' = files w \<and> allocated w' = allocated w"
proof (induction c i deadline w arbitrary: r w' rule: wait_for_node_started.induct)
  case (1 c i deadline w)
  show ?case
  proof (cases "now w < deadline \<and> (\<exists>pid l. process_of c i = Inr pid \<and> poll pid w = None \<and> captured c i w = Inr l \<and>
      \<not> cp_contains (cps ''listening on'') (get_all l))")
    case False
    with 1(2) show ?thesis
      by (subst (asm) wait_for_node_started.simps) (auto split: if_splits sum.splits)
  next
    case True
    then have "wait_for_node_started c i deadline w = wait_for_node_started c i deadline (sleep 250 w)"
      by (subst wait_for_node_started.simps) auto
    with 1 True have "later (sleep 250 w) w' \<and> procs w' = procs w \<and> files w' = files w \<and> allocated w' = allocated w"
      by fastforce
    with later_trans [OF later_sleep] show ?thesis by blast
  qed
qed

lemma start_replicas_accounted:
  assumes "start_replicas env d replicas is c w = (r, c', w')" and "accounted old c w"
    and "distinct is" and "\<forall>i\<in>set is. map_of (processes c) i = None"
  shows "accounted old c' w' \<and> later w w' \<and> same_setup c c' \<and> files w' = files w \<and> allocated w' = allocated w"
  using assms
proof (induction "is" arbitrary: c w)
  case Nil
  then show ?case by simp
next
  case (Cons i "is")
  obtain q c1 w1 where s: "spawn_node env [''--replica-count='' @ show_int replicas] (data_file d i) i c w = (q, c1, w1)"
    by (cases "spawn_node env [''--replica-count='' @ show_int replicas] (data_file d i) i c w") auto
  have "\<not> is_node_running c i w" using Cons.prems(4) by (simp add: is_node_running_def)
  note one = spawn_accounted [OF s Cons.prems(2) this]
  obtain b w2 where b: "wait_for_node_started c1 i (now w1 + head_start (config c1)) w1 = (b, w2)"
    by (cases "wait_for_node_started c1 i (now w1 + head_start (config c1)) w1")
  note two = wait_started_frame [OF b]
  have acc2: "accounted old c2 w2" if "processes c2 = processes c1" for c2
    using one two that by (simp add: accounted_later [of old c1 w1])
  have later2: "later w w2" using one two later_trans by blast
  have rest: ?case if "start_replicas env d replicas is c1 u = (r, c', w')" and u: "u = w1 \<or> u = w2" for u
  proof -
    have "accounted old c' w' \<and> later u w' \<and> same_setup c1 c' \<and> files w' = files u \<and> allocated w' = allocated u"
    proof (rule Cons.IH [OF that(1)])
      show "accounted old c1 u" using u one acc2 [of c1] by blast
      show "distinct is" using Cons.prems(3) by simp
      show "\<forall>j\<in>set is. map_of (processes c1) j = None"
        using one Cons.prems(3,4) by (metis distinct.simps(2) list.set_intros(2))
    qed
    then show ?thesis using one two u later2 later_trans same_setup_trans by metis
  qed
  show ?case
  proof (cases q)
    case (Inl e)
    with s Cons.prems(1) have "c' = c1" "w' = w1" by simp_all
    with one show ?thesis by blast
  next
    case (Inr pid)
    show ?thesis
    proof (cases "5 \<le> node_count (config c1)")
      case False
      with Inr s Cons.prems(1) have "start_replicas env d replicas is c1 w1 = (r, c', w')" by simp
      then show ?thesis by (rule rest) simp
    next
      case True
      show ?thesis
      proof (cases "b = Inr True")
        case ok: True
        with True Inr s b Cons.prems(1) have "start_replicas env d replicas is c1 w2 = (r, c', w')" by simp
        then show ?thesis by (rule rest) simp
      next
        case False
        have "w' = w2 \<and> processes c' = processes c1 \<and> same_setup c1 c'"
          using True Inr s b Cons.prems(1) False
          by (auto simp: same_setup_def split: sum.splits bool.splits)
        with acc2 [of c'] one two later2 same_setup_trans show ?thesis by metis
      qed
    qed
  qed
qed

lemma check_started_same:
  "check_started ps c w = (r, c') \<Longrightarrow> processes c' = processes c \<and> same_setup c c'"
  by (induction ps c w rule: check_started.induct) (auto simp: same_setup_def split: option.splits sum.splits)

lemma start_nodes_accounted:
  assumes "start_nodes env d replicas c w = (r, c', w')" and "accounted old c w" and "processes c = []"
  shows "accounted old c' w' \<and> later w w' \<and> same_setup c c' \<and> files w' = files w \<and> allocated w' = allocated w"
proof -
  obtain q c1 w1 where s: "start_replicas env d replicas [0..node_count (config c) - 1] c w = (q, c1, w1)"
    by (cases "start_replicas env d replicas [0..node_count (config c) - 1] c w") auto
  have one: "accounted old c1 w1 \<and> later w w1 \<and> same_setup c c1 \<and> files w1 = files w \<and> allocated w1 = allocated w"
    using start_replicas_accounted [OF s assms(2)] assms(3) by simp
  show ?thesis
  proof (cases q)
    case (Inl e)
    with assms(1) s have "c' = c1" "w' = w1" by (simp_all add: start_nodes_def)
    with one show ?thesis by blast
  next
    case (Inr u)
    then obtain c2 where k: "check_started (processes c1) c1 (sleep 500 w1) = (r, c2)" "c' = c2" "w' = sleep 500 w1"
      using assms(1) s by (auto simp: start_nodes_def Let_def split: prod.splits)
    note check_started_same [OF k(1)]
    moreover have "accounted old c2 (sleep 500 w1)"
      using one calculation by (simp add: accounted_later [of old c1 w1])
    moreover have "later w (sleep 500 w1)" "same_setup c c2"
      using one calculation later_trans same_setup_trans by blast+
    ultimately show ?thesis using one unfolding k(2,3) by simp
  qed
qed

text \<open>The preparations touch neither processes nor the clock.\<close>

definition prepares :: "cluster \<times> world \<Rightarrow> cluster \<times> world \<Rightarrow> bool" where
  "prepares s s' \<longleftrightarrow> processes (fst s') = processes (fst s) \<and> started (fst s') = started (fst s) \<and>
     config (fst s') = config (fst s) \<and> failed (fst s') = failed (fst s) \<and>
     procs (snd s') = procs (snd s) \<and> now (snd s') = now (snd s)"

lemma prepares_trans: "prepares s t \<Longrightarrow> prepares t u \<Longrightarrow> prepares s u"
  by (simp add: prepares_def)

lemma prepares_accounted:
  assumes "prepares (c, w) (c', w')" and "accounted old c w"
  shows "accounted old c' w' \<and> later w w'"
proof -
  have "poll pid w' = poll pid w" for pid using assms(1) by (simp add: prepares_def poll_def split: option.split)
  then have "later w w'" using assms(1) by (simp add: prepares_def later_def)
  then show ?thesis using assms by (simp add: prepares_def accounted_later [of old c w])
qed

lemma setup_data_dir_prepares:
  assumes "setup_data_dir env c w = (d, c', w')"
  shows "prepares (c, w) (c', w')" and "data_dir c' = Some d" and "allocated w' = allocated w" and "d \<in> files w'"
    and "cluster_ports c' = cluster_ports c"
  using assms by (auto simp: setup_data_dir_def prepares_def Let_def split: option.splits list.splits)

lemma take_ports_frame:
  assumes "take_ports env n base w = (r, w')"
  shows "procs w' = procs w \<and> now w' = now w \<and> files w' = files w"
  using assms by (auto simp: take_ports_def split: prod.splits sum.splits)

lemma take_ports_Inr:
  assumes "take_ports env n base w = (Inr ps, w')"
  shows "length ps = nat n \<and> distinct ps \<and> set ps \<inter> allocated w = {} \<and> allocated w' = allocated w \<union> set ps"
proof -
  obtain u where "allocate_ports (\<lambda>p u. (env_bind env (now w) p, u)) n base (allocated w) () = (Inr ps, allocated w', u)"
    using assms by (auto simp: take_ports_def split: prod.splits sum.splits)
  then show ?thesis unfolding allocate_ports_def by (auto dest!: allocate_from_Inr simp: strict_sorted_iff)
qed

lemma take_ports_mono:
  assumes "take_ports env n base w = (r, w')"
  shows "allocated w \<subseteq> allocated w'"
proof (cases r)
  case (Inr ps)
  with take_ports_Inr [of env n base w ps w'] assms show ?thesis by auto
next
  case (Inl e)
  then obtain e u where "allocate_ports (\<lambda>p u. (env_bind env (now w) p, u)) n base (allocated w) () = (Inl e, allocated w', u)"
    using assms by (auto simp: take_ports_def split: prod.splits sum.splits)
  then show ?thesis unfolding allocate_ports_def by (auto dest!: allocate_from_Inl)
qed

lemma setup_ports_frame:
  assumes "setup_ports env c w = (r, c', w')"
  shows "prepares (c, w) (c', w') \<and> data_dir c' = data_dir c \<and> files w' = files w \<and>
    temp_dir_created c' = temp_dir_created c \<and> allocated w \<subseteq> allocated w'"
proof -
  obtain q w1 where q: "take_ports env (node_count (config c)) (base_port (config c)) w = (q, w1)"
    by (cases "take_ports env (node_count (config c)) (base_port (config c)) w")
  note one = take_ports_frame [OF q] take_ports_mono [OF q]
  show ?thesis
  proof (cases q)
    case (Inl e)
    with q assms have "c' = c" "w' = w1" by (simp_all add: setup_ports_def)
    with one show ?thesis by (simp add: prepares_def)
  next
    case (Inr ps)
    let ?m = "metrics_base (config c) ps"
    obtain q2 w2 where q2: "take_ports env (node_count (config c)) ?m w1 = (q2, w2)"
      by (cases "take_ports env (node_count (config c)) ?m w1")
    note two = take_ports_frame [OF q2] take_ports_mono [OF q2]
    have "w' = w2" "c' = (case q2 of Inl e \<Rightarrow> c\<lparr>cluster_ports := ps\<rparr> | Inr ms \<Rightarrow> c\<lparr>cluster_ports := ps, metrics_ports := ms\<rparr>)"
      using Inr q q2 assms by (auto simp: setup_ports_def split: sum.splits)
    with one two show ?thesis by (cases q2) (auto simp: prepares_def)
  qed
qed

lemma setup_ports_Inr:
  assumes "setup_ports env c w = (Inr (), c', w')"
  shows "length (cluster_ports c') = nat (node_count (config c)) \<and>
    length (metrics_ports c') = nat (node_count (config c)) \<and>
    distinct (cluster_ports c' @ metrics_ports c') \<and>
    (set (cluster_ports c') \<union> set (metrics_ports c')) \<inter> allocated w = {} \<and>
    allocated w' = allocated w \<union> set (cluster_ports c') \<union> set (metrics_ports c')"
proof -
  obtain ps w1 where q: "take_ports env (node_count (config c)) (base_port (config c)) w = (Inr ps, w1)"
    using assms by (auto simp: setup_ports_def split: prod.splits sum.splits)
  let ?m = "metrics_base (config c) ps"
  obtain ms where q2: "take_ports env (node_count (config c)) ?m w1 = (Inr ms, w')"
    and c': "c' = c\<lparr>cluster_ports := ps, metrics_ports := ms\<rparr>"
    using assms q by (auto simp: setup_ports_def split: prod.splits sum.splits)
  from take_ports_Inr [OF q] take_ports_Inr [OF q2] c' show ?thesis by auto
qed

lemma format_files_prepares:
  assumes "format_files env c d replicas is w = (r, w')"
  shows "prepares (c, w) (c, w')" and "allocated w' = allocated w"
proof -
  have "procs w' = procs w \<and> now w' = now w \<and> allocated w' = allocated w"
    using assms by (induction env c d replicas "is" w rule: format_files.induct) (auto split: if_splits prod.splits)
  then show "prepares (c, w) (c, w')" "allocated w' = allocated w" by (simp_all add: prepares_def)
qed

lemma cluster_start_spec:
  assumes "accounted old c w" and "\<not> started c \<longrightarrow> processes c = []"
  shows "\<exists>r c' w'. cluster_start env c w = Some (r, c', w') \<and> accounted old c' w' \<and> later w w' \<and> config c' = config c \<and>
    (\<not> started c' \<longrightarrow> processes c' = []) \<and> (\<not> started c \<longrightarrow> started c' = (r = Inr ()))"
proof (cases "started c")
  case True
  with assms show ?thesis by (simp add: cluster_start_def)
next
  case False
  obtain d c1 w1 where p1: "setup_data_dir env c w = (d, c1, w1)" by (metis prod_cases3)
  obtain q c2 w2 where p2: "setup_ports env c1 w1 = (q, c2, w2)" by (metis prod_cases3)
  let ?n = "replica_total (config c1)"
  obtain f w3 where p3: "format_files env c2 d ?n [0..node_count (config c2) - 1] w2 = (f, w3)"
    by (cases "format_files env c2 d ?n [0..node_count (config c2) - 1] w2")
  have a1: "prepares (c, w) (c1, w1)" using setup_data_dir_prepares(1) [OF p1] .
  have a2: "prepares (c, w) (c2, w2)" using prepares_trans [OF a1] setup_ports_frame [OF p2] by blast
  have a3: "prepares (c, w) (c2, w3)" using prepares_trans [OF a2] format_files_prepares(1) [OF p3] by blast
  have idle: ?thesis if "prepares (c, w) (c', w')" "cluster_start env c w = Some (Inl e, c', w')" for c' w' e
    using that prepares_accounted [OF that(1) assms(1)] assms(2) False by (auto simp: prepares_def)
  show ?thesis
  proof (cases "?n \<le> 0 \<or> node_count (config c1) < ?n")
    case True
    with p1 False show ?thesis by (intro idle [OF a1]) (simp add: cluster_start_def Let_def)
  next
    case n: False
    show ?thesis
    proof (cases q)
      case (Inl e)
      with p1 p2 False n show ?thesis by (intro idle [OF a2]) (simp add: cluster_start_def Let_def)
    next
      case q: (Inr u)
      show ?thesis
      proof (cases f)
        case (Inl e)
        with p1 p2 p3 q False n show ?thesis by (intro idle [OF a3]) (simp add: cluster_start_def Let_def)
      next
        case f: (Inr u')
        obtain r c4 w4 where p4: "start_nodes env d ?n c2 w3 = (r, c4, w4)" by (metis prod_cases3)
        have "processes c2 = []" using a2 assms(2) False by (simp add: prepares_def)
        note s = start_nodes_accounted [OF p4 conjunct1 [OF prepares_accounted [OF a3 assms(1)]] this]
        have l: "later w w4" using later_trans s prepares_accounted [OF a3 assms(1)] by blast
        have cfg: "config c4 = config c" using s a2 by (simp add: same_setup_def prepares_def)
        have eq: "cluster_start env c w = (case r of Inr v \<Rightarrow> Some (Inr (), c4\<lparr>started := True\<rparr>, w4)
            | Inl e \<Rightarrow> map_option (\<lambda>(c, w). (Inl e, c, w)) (cluster_stop (c4\<lparr>failed := True\<rparr>) w4))"
          using p1 p2 p3 p4 q f False n by (simp add: cluster_start_def Let_def split: sum.split)
        show ?thesis
        proof (cases r)
          case (Inr v)
          with eq s l cfg show ?thesis by (auto simp: accounted_def known_spawned_def)
        next
          case (Inl e)
          let ?c = "c4\<lparr>failed := True\<rparr>"
          have k: "accounted old ?c w4" using s by (simp add: accounted_def known_spawned_def)
          then obtain c' w' where st: "cluster_stop ?c w4 = Some (c', w')" "later w4 w'" "processes c' = []" "\<not> started c'"
            "config c' = config ?c" "\<forall>pid\<in>snd ` set (processes ?c). \<not> running pid w'" "length (procs w') = length (procs w4)"
            using cluster_stop_spec [of ?c w4] by (auto simp: accounted_def)
          have "pid \<in> old" if "running pid w'" for pid
          proof -
            have "running pid w4" using later_running [OF st(2) that] that st(7) by (simp add: running_def)
            moreover have "map_of (processes ?c) i \<noteq> Some pid" for i
              using st(6) that map_of_SomeD [of "processes ?c" i pid] by force
            ultimately show ?thesis using k unfolding accounted_def by blast
          qed
          then have "accounted old c' w'" using st(3) by (simp add: accounted_def known_spawned_def)
          moreover have "later w w'" using l st(2) by (rule later_trans)
          moreover have "cluster_start env c w = Some (Inl e, c', w')" using eq Inl st(1) by simp
          ultimately show ?thesis using st(3,4,5) cfg by (intro exI [of _ "Inl e"] exI [of _ c'] exI [of _ w']) simp
        qed
      qed
    qed
  qed
qed

subsection \<open>Waiting and asking\<close>

text \<open>A loop that waits changes nothing but the clock.\<close>

definition only_time :: "world \<Rightarrow> world \<Rightarrow> bool" where
  "only_time w w' \<longleftrightarrow> now w \<le> now w' \<and> procs w' = procs w \<and> files w' = files w \<and> allocated w' = allocated w"

lemma only_time_refl [simp]: "only_time w w"
  by (simp add: only_time_def)

lemma only_time_sleep [simp]: "only_time w (sleep ms w)"
  by (simp add: only_time_def)

lemma only_time_trans [trans]: "only_time u v \<Longrightarrow> only_time v w \<Longrightarrow> only_time u w"
  by (auto simp: only_time_def)

lemma only_time_later: "only_time w w' \<Longrightarrow> later w w'"
  by (auto simp: only_time_def later_def poll_def split: option.splits if_splits)

lemma http_only_time: "http_get env port url w = (r, w') \<Longrightarrow> only_time w w'"
  by (auto simp: http_get_def split: prod.splits)

lemma metrics_only_time: "metrics_say_primary env port w = (b, w') \<Longrightarrow> only_time w w'"
  by (auto simp: metrics_say_primary_def split: prod.splits option.splits dest: http_only_time)

lemma leader_pass_only_time: "leader_pass env c is w = (r, w') \<Longrightarrow> only_time w w'"
proof (induction "is" arbitrary: w)
  case (Cons i "is")
  then show ?case
    by (fastforce split: sum.splits prod.splits bool.splits dest: metrics_only_time intro: only_time_trans)
qed simp

lemma wait_leader_only_time: "wait_leader_loop env deadline c w = (r, w') \<Longrightarrow> only_time w w'"
proof (induction env deadline c w arbitrary: r w' rule: wait_leader_loop.induct)
  case (1 env deadline c w)
  obtain q u where q: "leader_pass env c [0..node_count (config c) - 1] w = (q, u)"
    by (cases "leader_pass env c [0..node_count (config c) - 1] w")
  note u = leader_pass_only_time [OF q]
  show ?case
  proof (cases "now w < deadline \<and> q = Inr None")
    case True
    with q 1(2) have "wait_leader_loop env deadline c (sleep 500 u) = (r, w')"
      by (subst (asm) wait_leader_loop.simps) simp
    with 1(1) True q have "only_time (sleep 500 u) w'" by fastforce
    with u only_time_trans only_time_sleep show ?thesis by blast
  next
    case False
    with q 1(2) u show ?thesis
      by (subst (asm) wait_leader_loop.simps) (auto split: if_splits sum.splits option.splits)
  qed
qed

lemma wait_for_leader_only_time: "wait_for_leader env timeout c w = (r, w') \<Longrightarrow> only_time w w'"
  by (auto simp: wait_for_leader_def split: if_splits dest: wait_leader_only_time)

text \<open>A pass over the nodes: who is ready has answered 200 during it.\<close>

definition answered_ready :: "env \<Rightarrow> cluster \<Rightarrow> int \<Rightarrow> int \<Rightarrow> int \<Rightarrow> bool" where
  "answered_ready env c i from to \<longleftrightarrow>
     (\<exists>t port d r. from \<le> t \<and> t \<le> to \<and> element_at (metrics_ports c) i = Inr port \<and>
        env_http env t port ''/health/ready'' = (d, Some r) \<and> status_code r = 200)"

lemma answered_ready_mono:
  "answered_ready env c i from to \<Longrightarrow> from' \<le> from \<Longrightarrow> to \<le> to' \<Longrightarrow> answered_ready env c i from' to'"
  unfolding answered_ready_def by (meson order_trans)

lemma ready_pass_spec:
  assumes "ready_pass env is ready c w = (r, c', w')"
  shows "only_time w w' \<and> processes c' = processes c \<and> same_setup c c' \<and>
    (\<forall>new. r = Inr new \<longrightarrow> c' = c \<and> ready \<subseteq> new \<and> new \<subseteq> ready \<union> set is \<and>
       (\<forall>i\<in>new - ready. answered_ready env c i (now w) (now w'))) \<and>
    (\<forall>e. r = Inl e \<longrightarrow> (\<forall>i code l. e = Crashed i code l \<longrightarrow> failed c' \<and>
       (\<exists>pid. map_of (processes c) i = Some pid \<and> poll pid w' = Some code)))"
  using assms
proof (induction "is" arbitrary: ready w)
  case Nil
  then show ?case by auto
next
  case (Cons i "is")
  have skip: ?case if "ready_pass env is ready' c u = (r, c', w')" "only_time w u" "ready \<subseteq> ready'"
      "ready' \<subseteq> insert i ready" "i \<in> ready' - ready \<longrightarrow> answered_ready env c i (now w) (now u)" for ready' u
  proof -
    note IH = Cons.IH [OF that(1)]
    have "now w \<le> now u" "now u \<le> now w'" using that(2) IH by (auto simp: only_time_def)
    have new: "answered_ready env c j (now w) (now w')" if "r = Inr new" "j \<in> new - ready" for new j
    proof (cases "j \<in> ready'")
      case True
      with that(2) \<open>ready' \<subseteq> insert i ready\<close> have "j = i" by blast
      with True that(2) \<open>i \<in> ready' - ready \<longrightarrow> _\<close> have "answered_ready env c j (now w) (now u)" by blast
      then show ?thesis using \<open>now u \<le> now w'\<close> by (rule answered_ready_mono [OF _ order_refl])
    next
      case False
      with that IH have "answered_ready env c j (now u) (now w')" by blast
      then show ?thesis using \<open>now w \<le> now u\<close> by (rule answered_ready_mono) (rule order_refl)
    qed
    have sub: "ready \<subseteq> new \<and> new \<subseteq> ready \<union> set (i # is)" if "r = Inr new" for new
    proof -
      have "ready' \<subseteq> new" "new \<subseteq> ready' \<union> set is" using IH \<open>r = Inr new\<close> by simp_all
      with \<open>ready \<subseteq> ready'\<close> \<open>ready' \<subseteq> insert i ready\<close> show ?thesis by auto
    qed
    show ?thesis
    proof (intro conjI allI impI)
      show "only_time w w'" using only_time_trans [OF that(2) conjunct1 [OF IH]] .
      show "processes c' = processes c" "same_setup c c'" using IH by simp_all
      show "c' = c" "ready \<subseteq> x" "x \<subseteq> ready \<union> set (i # is)" "\<forall>j\<in>x - ready. answered_ready env c j (now w) (now w')"
        if "r = Inr x" for x
        using IH that sub [OF that] new [OF that] by simp_all
      show "failed c'" "\<exists>pid. map_of (processes c) j = Some pid \<and> poll pid w' = Some code"
        if "r = Inl e" "e = Crashed j code l" for e j code l
        using IH that by simp_all
    qed
  qed
  have stop: ?case if "(Inl e, c'', w) = (r, c', w')" "c'' = c \<or> c'' = c\<lparr>failed := True\<rparr>"
      "\<forall>j code l. e = Crashed j code l \<longrightarrow> failed c'' \<and> (\<exists>pid. map_of (processes c) j = Some pid \<and> poll pid w = Some code)"
      for e c''
    using that by (auto simp: same_setup_def)
  show ?case
  proof (cases "i \<in> ready")
    case True
    with Cons.prems show ?thesis by (intro skip [of ready w]) auto
  next
    case False
    show ?thesis
    proof (cases "process_of c i")
      case (Inl e)
      with False Cons.prems show ?thesis by (intro stop [of e c]) (auto simp: process_of_def split: option.splits)
    next
      case (Inr pid)
      then have pid: "map_of (processes c) i = Some pid" by (auto simp: process_of_def split: option.splits)
      show ?thesis
      proof (cases "poll pid w")
        case (Some code)
        show ?thesis
        proof (cases "captured c i w")
          case (Inl e)
          with False Inr Some pid Cons.prems show ?thesis
            by (intro stop [of e c]) (auto simp: process_of_def captured_def split: option.splits)
        next
          case l: (Inr l)
          with False Inr Some pid Cons.prems show ?thesis
            by (intro stop [of "Crashed i code (get_logs 50 l)" "c\<lparr>failed := True\<rparr>"]) (auto simp: process_of_def)
        qed
      next
        case None
        show ?thesis
        proof (cases "element_at (metrics_ports c) i")
          case (Inl e)
          with False Inr None pid Cons.prems show ?thesis
            by (intro stop [of e c]) (auto simp: process_of_def element_at_def split: if_splits)
        next
          case port: (Inr port)
          obtain q u where q: "http_get env port ''/health/ready'' w = (q, u)" by (cases "http_get env port ''/health/ready'' w")
          note t = http_only_time [OF q]
          define ready' where "ready' = (case q of Some a \<Rightarrow> if status_code a = 200 then insert i ready else ready | None \<Rightarrow> ready)"
          have "ready_pass env is ready' c u = (r, c', w')"
            using False Inr None pid port q Cons.prems by (cases q) (auto simp: process_of_def ready'_def)
          moreover have "answered_ready env c i (now w) (now u)" if "i \<in> ready' - ready"
            using that q port t
            by (auto simp: ready'_def answered_ready_def http_get_def only_time_def split: option.splits if_splits prod.splits)
          ultimately show ?thesis using t
            by (intro skip [of ready' u]) (auto simp: ready'_def split: option.splits if_splits)
        qed
      qed
    qed
  qed
qed

lemma wait_ready_spec:
  assumes "wait_ready_loop env deadline ready c w = (r, c', w')"
    and "\<forall>i\<in>ready. answered_ready env c i from (now w)" and "ready \<subseteq> {0..node_count (config c) - 1}"
    and "from \<le> now w"
  shows "only_time w w' \<and> processes c' = processes c \<and> same_setup c c' \<and>
    (r = Inr True \<longrightarrow> (\<forall>i\<in>{0..node_count (config c) - 1}. answered_ready env c i from (now w'))) \<and>
    (r = Inr False \<longrightarrow> deadline \<le> now w') \<and>
    (\<forall>i code l. r = Inl (Crashed i code l) \<longrightarrow> failed c' \<and>
       (\<exists>pid. map_of (processes c) i = Some pid \<and> poll pid w' = Some code))"
  using assms
proof (induction env deadline ready c w arbitrary: r c' w' rule: wait_ready_loop.induct)
  case (1 env deadline ready c w)
  let ?is = "[0..node_count (config c) - 1]"
  obtain q c1 w1 where q: "ready_pass env ?is ready c w = (q, c1, w1)" by (metis prod_cases3)
  note p = ready_pass_spec [OF q]
  show ?case
  proof (cases "now w < deadline")
    case False
    with 1(2) have "r = Inr False" "c' = c" "w' = w"
      by (subst (asm) wait_ready_loop.simps, simp)+
    with False show ?thesis by simp
  next
    case True
    show ?thesis
    proof (cases q)
      case (Inl e)
      with True q 1(2) have "r = Inl e" "c' = c1" "w' = w1"
        by (subst (asm) wait_ready_loop.simps, simp)+
      with p Inl show ?thesis by simp
    next
      case (Inr new)
      with p have new: "c1 = c" "only_time w w1" "ready \<subseteq> new" "new \<subseteq> {0..node_count (config c) - 1}"
        using 1(4) by auto
      have ans: "\<forall>i\<in>new. answered_ready env c i from (now w1)"
      proof
        fix i assume "i \<in> new"
        show "answered_ready env c i from (now w1)"
        proof (cases "i \<in> ready")
          case True
          with 1(3) new(2) show ?thesis by (auto simp: only_time_def elim: answered_ready_mono)
        next
          case False
          with p Inr \<open>i \<in> new\<close> have "answered_ready env c i (now w) (now w1)" by simp
          then show ?thesis using 1(5) by (rule answered_ready_mono) simp
        qed
      qed
      show ?thesis
      proof (cases "int (card new) = node_count (config c)")
        case full: True
        with True Inr q new 1(2) have "r = Inr True" "c' = c" "w' = w1"
          by (subst (asm) wait_ready_loop.simps, simp)+
        moreover have "new = {0..node_count (config c) - 1}"
          using full new(4) by (intro card_subset_eq) simp_all
        ultimately show ?thesis using ans new(2) by simp
      next
        case False
        with True Inr q new 1(2) have loop: "wait_ready_loop env deadline new c (sleep 500 w1) = (r, c', w')"
          by (subst (asm) wait_ready_loop.simps) simp
        have t: "only_time w (sleep 500 w1)" using new(2) only_time_sleep only_time_trans by blast
        have "\<forall>i\<in>new. answered_ready env c i from (now (sleep 500 w1))"
          using ans answered_ready_mono [OF _ order_refl, of env c _ "from" "now w1" "now w1 + 500"] by simp
        moreover have "from \<le> now (sleep 500 w1)" using t 1(5) by (simp add: only_time_def)
        moreover have "(Inr new, c, w1) = ready_pass env ?is ready c w" using q Inr new(1) by simp
        ultimately have rest: "only_time (sleep 500 w1) w' \<and> processes c' = processes c \<and> same_setup c c' \<and>
          (r = Inr True \<longrightarrow> (\<forall>i\<in>{0..node_count (config c) - 1}. answered_ready env c i from (now w'))) \<and>
          (r = Inr False \<longrightarrow> deadline \<le> now w') \<and>
          (\<forall>i code l. r = Inl (Crashed i code l) \<longrightarrow> failed c' \<and>
             (\<exists>pid. map_of (processes c) i = Some pid \<and> poll pid w' = Some code))"
          by (intro 1(1) [OF True _ refl refl False loop _ new(4)])
        show ?thesis using only_time_trans [OF t conjunct1 [OF rest]] conjunct2 [OF rest] by simp
      qed
    qed
  qed
qed

lemma wait_for_ready_time:
  assumes "wait_for_ready env t c w = (r, c', w')"
  shows "only_time w w' \<and> processes c' = processes c \<and> same_setup c c'"
proof (cases "started c")
  case False
  with assms show ?thesis by (simp add: wait_for_ready_def)
next
  case True
  with assms wait_ready_spec [of env _ "{}" c w r c' w' "now w"] show ?thesis by (simp add: wait_for_ready_def)
qed

subsection \<open>Operations in sequence\<close>

datatype cluster_op =
    Op_Start
  | Op_Stop
  | Op_Stop_Node int bool
  | Op_Start_Node int
  | Op_Wait_Ready "int option"
  | Op_Wait_Leader "int option"
  | Op_Exit bool
  | Op_Pass nat

definition cluster_step :: "env \<Rightarrow> cluster_op \<Rightarrow> cluster \<times> world \<Rightarrow> (cluster \<times> world) option" where
  "cluster_step env op s =
     (case s of (c, w) \<Rightarrow>
       (case op of
          Op_Start \<Rightarrow> map_option snd (cluster_start env c w)
        | Op_Stop \<Rightarrow> cluster_stop c w
        | Op_Stop_Node i graceful \<Rightarrow> map_option (\<lambda>(r, w). (c, w)) (stop_node i graceful c w)
        | Op_Start_Node i \<Rightarrow> Some (snd (start_node env i c w))
        | Op_Wait_Ready t \<Rightarrow> Some (snd (wait_for_ready env t c w))
        | Op_Wait_Leader t \<Rightarrow> Some (c, snd (wait_for_leader env t c w))
        | Op_Exit raised \<Rightarrow> cluster_exit raised c w
        | Op_Pass ms \<Rightarrow> Some (c, sleep ms w)))"

text \<open>A node is restarted only on a started cluster and when it does not run.\<close>

definition careful :: "cluster_op \<Rightarrow> cluster \<times> world \<Rightarrow> bool" where
  "careful op s \<longleftrightarrow>
     (case op of Op_Start_Node i \<Rightarrow> started (fst s) \<and> \<not> is_node_running (fst s) i (snd s) | _ \<Rightarrow> True)"

fun cluster_run :: "env \<Rightarrow> cluster_op list \<Rightarrow> cluster \<times> world \<Rightarrow> (cluster \<times> world) option" where
  "cluster_run env [] s = Some s"
| "cluster_run env (op # ops) s = Option.bind (cluster_step env op s) (cluster_run env ops)"

fun careful_run :: "env \<Rightarrow> cluster_op list \<Rightarrow> cluster \<times> world \<Rightarrow> bool" where
  "careful_run env [] s \<longleftrightarrow> True"
| "careful_run env (op # ops) s \<longleftrightarrow> careful op s \<and>
     (case cluster_step env op s of None \<Rightarrow> True | Some s \<Rightarrow> careful_run env ops s)"

definition tidy :: "nat set \<Rightarrow> cluster \<times> world \<Rightarrow> bool" where
  "tidy old s \<longleftrightarrow> accounted old (fst s) (snd s) \<and> (\<not> started (fst s) \<longrightarrow> processes (fst s) = [])"

lemma stop_node_spec:
  assumes "known_spawned c w"
  shows "\<exists>r w'. stop_node i graceful c w = Some (r, w') \<and> later w w' \<and> length (procs w') = length (procs w) \<and>
    now w' \<le> now w + 10000 \<and> (\<forall>pid. map_of (processes c) i = Some pid \<longrightarrow> r = Inr () \<and> \<not> running pid w')"
proof (cases "map_of (processes c) i")
  case None
  then show ?thesis by (simp add: stop_node_def)
next
  case (Some pid)
  then have valid: "pid < length (procs w)" using assms by (force simp: known_spawned_def dest: map_of_SomeD)
  show ?thesis
  proof (cases "poll pid w = None")
    case False
    with Some show ?thesis by (auto simp: stop_node_def running_def)
  next
    case True
    show ?thesis
    proof (cases graceful)
      case yes: True
      from stop_process_spec [OF valid, of 10000] True Some yes show ?thesis by (auto simp: stop_node_def)
    next
      case False
      have "wait pid (kill pid w) = Some (kill pid w)" using kill_ends [OF valid] by (rule wait_ended)
      with True Some False kill_ends [OF valid] show ?thesis by (auto simp: stop_node_def running_def)
    qed
  qed
qed

lemma start_node_tidy:
  assumes "tidy old (c, w)" and "started c" and "\<not> is_node_running c i w"
  shows "tidy old (snd (start_node env i c w))"
proof -
  have a: "accounted old c w" using assms(1) by (simp add: tidy_def)
  show ?thesis
  proof (cases "i < 0 \<or> node_count (config c) \<le> i \<or> data_dir c = None")
    case True
    with assms(1) show ?thesis by (auto simp: start_node_def split: option.split)
  next
    case False
    then obtain d where d: "data_dir c = Some d" by auto
    obtain r c1 w1 where s: "spawn_node env [] (data_file d i) i c w = (r, c1, w1)" by (metis prod_cases3)
    note one = spawn_accounted [OF s a assms(3)]
    have "started c1" "accounted old c1 w1" using one assms(2) by (simp_all add: same_setup_def)
    moreover have "accounted old c1 (sleep 500 w1)"
      using calculation(2) by (rule accounted_later) simp_all
    moreover have "snd (start_node env i c w) = (c1, w1) \<or> snd (start_node env i c w) = (c1, sleep 500 w1)"
      using False d s by (auto simp: start_node_def Let_def split: sum.split option.split)
    ultimately show ?thesis by (auto simp: tidy_def)
  qed
qed

lemma cluster_step_tidy:
  assumes "tidy old s" and "careful op s"
  shows "\<exists>s'. cluster_step env op s = Some s' \<and> tidy old s'"
proof -
  obtain c w where s: "s = (c, w)" by (cases s)
  have a: "accounted old c w" and idle: "\<not> started c \<longrightarrow> processes c = []" and k: "known_spawned c w"
    using assms(1) s by (auto simp: tidy_def accounted_def)
  have time: "tidy old (c', w')" if "only_time w w'" "processes c' = processes c" "same_setup c c'" for c' w'
    using that a idle accounted_later [OF a only_time_later [OF that(1)], of c']
    by (simp add: tidy_def same_setup_def only_time_def)
  have halt: "\<exists>s'. cluster_stop c' w = Some s' \<and> tidy old s'" if c': "c' = c \<or> c' = c\<lparr>failed := True\<rparr>" for c'
  proof -
    have "known_spawned c' w" "processes c' = processes c" using k c' by (auto simp: known_spawned_def)
    with cluster_stop_spec [of c' w] obtain c'' w'' where st: "cluster_stop c' w = Some (c'', w'')" "later w w''"
      "processes c'' = []" "\<forall>pid\<in>snd ` set (processes c). \<not> running pid w''" "length (procs w'') = length (procs w)"
      by auto
    have "pid \<in> old" if "running pid w''" for pid
    proof -
      have "running pid w" using later_running [OF st(2) that] that st(5) by (simp add: running_def)
      moreover have "map_of (processes c) i \<noteq> Some pid" for i
        using st(4) that map_of_SomeD [of "processes c" i pid] by force
      ultimately show ?thesis using a unfolding accounted_def by blast
    qed
    then show ?thesis using st(1,3) by (simp add: tidy_def accounted_def known_spawned_def)
  qed
  show ?thesis
  proof (cases op)
    case Op_Start
    with cluster_start_spec [OF a idle, of env] s show ?thesis by (auto simp: cluster_step_def tidy_def)
  next
    case Op_Stop
    with halt [of c] s show ?thesis by (simp add: cluster_step_def)
  next
    case (Op_Stop_Node i graceful)
    from stop_node_spec [OF k, of i graceful] obtain r w' where w': "stop_node i graceful c w = Some (r, w')"
      "later w w'" "length (procs w') = length (procs w)" by blast
    have "accounted old c w'" using a w'(2,3) by (rule accounted_later) simp
    then show ?thesis using Op_Stop_Node s w'(1) idle by (simp add: cluster_step_def tidy_def)
  next
    case (Op_Start_Node i)
    with assms s start_node_tidy [of old c w i env] show ?thesis by (simp add: cluster_step_def careful_def)
  next
    case (Op_Wait_Ready t)
    obtain r c' w' where q: "wait_for_ready env t c w = (r, c', w')" by (metis prod_cases3)
    have "only_time w w' \<and> processes c' = processes c \<and> same_setup c c'" by (rule wait_for_ready_time [OF q])
    with time Op_Wait_Ready q s show ?thesis by (simp add: cluster_step_def)
  next
    case (Op_Wait_Leader t)
    obtain r w' where q: "wait_for_leader env t c w = (r, w')" by (cases "wait_for_leader env t c w")
    with time [of w' c] wait_for_leader_only_time [OF q] Op_Wait_Leader s show ?thesis by (simp add: cluster_step_def)
  next
    case (Op_Exit raised)
    with halt [of "if raised then c\<lparr>failed := True\<rparr> else c"] s show ?thesis
      by (simp add: cluster_step_def cluster_exit_def)
  next
    case (Op_Pass ms)
    with time [of "sleep ms w" c] s show ?thesis by (simp add: cluster_step_def)
  qed
qed

lemma cluster_run_tidy:
  "tidy old s \<Longrightarrow> careful_run env ops s \<Longrightarrow> \<exists>s'. cluster_run env ops s = Some s' \<and> tidy old s'"
proof (induction ops arbitrary: s)
  case (Cons op ops)
  from cluster_step_tidy [OF Cons.prems(1), of op env] Cons.prems(2) obtain s' where
    "cluster_step env op s = Some s'" "tidy old s'" by auto
  with Cons show ?case by simp
qed simp

lemma cluster_run_append:
  "cluster_run env (ops @ ops') s = Option.bind (cluster_run env ops s) (cluster_run env ops')"
proof (induction ops arbitrary: s)
  case (Cons op ops)
  then show ?case by (cases "cluster_step env op s") simp_all
qed simp

subsection \<open>Ports of a start\<close>

text \<open>Only the formatting raises \<open>FormatFailed\<close>.\<close>

lemma spawn_not_format: "spawn_node env extra file i c w = (Inl e, c', w') \<Longrightarrow> e \<noteq> FormatFailed j err"
  by (auto simp: spawn_node_def Let_def element_at_def split: sum.splits option.splits if_splits)

lemma wait_started_not_format: "wait_for_node_started c i deadline w = (Inl e, w') \<Longrightarrow> e \<noteq> FormatFailed j err"
proof (induction c i deadline w arbitrary: w' rule: wait_for_node_started.induct)
  case (1 c i deadline w)
  then show ?case
    by (subst (asm) (2) wait_for_node_started.simps)
      (auto simp: process_of_def captured_def split: if_splits sum.splits option.splits)
qed

lemma start_replicas_not_format: "start_replicas env d n is c w = (Inl e, c', w') \<Longrightarrow> e \<noteq> FormatFailed j err"
proof (induction "is" arbitrary: c w)
  case (Cons i "is")
  then show ?case
    by (auto simp: captured_def split: prod.splits sum.splits if_splits bool.splits option.splits
        dest: spawn_not_format wait_started_not_format)
qed simp

lemma check_started_not_format: "check_started ps c w = (Inl e, c') \<Longrightarrow> e \<noteq> FormatFailed j err"
  by (induction ps c w rule: check_started.induct) (auto simp: captured_def split: option.splits sum.splits)

lemma start_nodes_not_format: "start_nodes env d n c w = (Inl e, c', w') \<Longrightarrow> e \<noteq> FormatFailed j err"
  by (auto simp: start_nodes_def Let_def split: prod.splits sum.splits
      dest: start_replicas_not_format check_started_not_format)

text \<open>The four phases of a start that gets as far as formatting.\<close>

lemma cluster_start_phases:
  assumes "cluster_start env c w = Some (r, c', w')" and "\<not> started c"
    and "r = Inr () \<or> (\<exists>i err. r = Inl (FormatFailed i err))"
  obtains d c1 w1 c2 w2 f w3 where
    "setup_data_dir env c w = (d, c1, w1)"
    "0 < replica_total (config c1)" "replica_total (config c1) \<le> node_count (config c1)"
    "setup_ports env c1 w1 = (Inr (), c2, w2)"
    "format_files env c2 d (replica_total (config c1)) [0..node_count (config c2) - 1] w2 = (f, w3)"
    "r = Inl e \<Longrightarrow> f = Inl e \<and> c' = c2 \<and> w' = w3"
    "r = Inr () \<Longrightarrow> \<exists>c3. start_nodes env d (replica_total (config c1)) c2 w3 = (Inr (), c3, w') \<and> c' = c3\<lparr>started := True\<rparr>"
proof -
  obtain d c1 w1 where p1: "setup_data_dir env c w = (d, c1, w1)" by (metis prod_cases3)
  obtain q c2 w2 where p2: "setup_ports env c1 w1 = (q, c2, w2)" by (metis prod_cases3)
  let ?n = "replica_total (config c1)"
  obtain f w3 where p3: "format_files env c2 d ?n [0..node_count (config c2) - 1] w2 = (f, w3)"
    by (cases "format_files env c2 d ?n [0..node_count (config c2) - 1] w2")
  have n: "0 < ?n" "?n \<le> node_count (config c1)"
    using assms p1 by (auto simp: cluster_start_def Let_def split: if_splits)
  have q: "q = Inr ()"
  proof (cases q)
    case (Inl e)
    with assms p1 p2 n have "r = Inl e" by (auto simp: cluster_start_def Let_def)
    moreover have "e \<noteq> FormatFailed j err" for j err
      using p2 Inl by (auto simp: setup_ports_def take_ports_def split: prod.splits sum.splits)
    ultimately show ?thesis using assms(3) by auto
  qed simp
  have rest: "r = Inl e \<Longrightarrow> f = Inl e \<and> c' = c2 \<and> w' = w3"
    "r = Inr () \<Longrightarrow> \<exists>c3. start_nodes env d ?n c2 w3 = (Inr (), c3, w') \<and> c' = c3\<lparr>started := True\<rparr>" for e
    using assms p1 p2 p3 n q start_nodes_not_format [of env d ?n c2 w3]
    by (auto simp: cluster_start_def Let_def split: sum.splits prod.splits option.splits)
  show thesis using that [OF p1 n p2 [unfolded q] p3 rest] .
qed

subsection \<open>Properties\<close>

text \<open>Stopping a cluster always returns, within five seconds per node, and leaves nothing
  behind: none of its processes runs, its ports can be allocated again, a temporary data
  directory is removed unless it is to be kept for debugging.\<close>

theorem stop_leaves_nothing:
  assumes "known_spawned c w"
  shows "\<exists>c' w'. cluster_stop c w = Some (c', w') \<and> now w' \<le> now w + 5000 * int (length (processes c)) \<and>
    (\<forall>i pid. map_of (processes c) i = Some pid \<longrightarrow> \<not> running pid w') \<and> running_pids w' \<subseteq> running_pids w \<and>
    allocated w' = allocated w - set (cluster_ports c) - set (metrics_ports c) \<and>
    (\<forall>d. data_dir c = Some d \<longrightarrow> temp_dir_created c \<longrightarrow> \<not> (preserve_on_failure (config c) \<and> failed c) \<longrightarrow>
       (\<forall>f\<in>files w'. f \<noteq> d \<and> \<not> prefix (d @ ''/'') f)) \<and>
    processes c' = [] \<and> cluster_ports c' = [] \<and> metrics_ports c' = [] \<and> \<not> started c'"
proof -
  from cluster_stop_spec [OF assms] obtain c' w' where s: "cluster_stop c w = Some (c', w')" "later w w'"
    "\<forall>pid\<in>snd ` set (processes c). \<not> running pid w'" "now w' \<le> now w + 5000 * int (length (processes c))"
    "allocated w' = allocated w - set (cluster_ports c) - set (metrics_ports c)"
    "files w' = files (cleanup_data_dir c w)" "length (procs w') = length (procs w)"
    "processes c' = []" "cluster_ports c' = []" "metrics_ports c' = []" "\<not> started c'"
    by blast
  have "\<not> running pid w'" if "map_of (processes c) i = Some pid" for i pid
    using s(3) map_of_SomeD [OF that] by force
  moreover have "running_pids w' \<subseteq> running_pids w"
    using later_running [OF s(2)] s(7) by (auto simp: running_pids_def running_def)
  moreover have "f \<noteq> d \<and> \<not> prefix (d @ ''/'') f"
    if "data_dir c = Some d" "temp_dir_created c" "\<not> (preserve_on_failure (config c) \<and> failed c)" "f \<in> files w'" for d f
    using that s(6) by (simp add: cleanup_data_dir_def remove_tree_def)
  ultimately show ?thesis using s by blast
qed

text \<open>A node that ignores \<open>SIGTERM\<close>, and a cluster of it.\<close>

definition stubborn_life :: life where
  "stubborn_life = \<lparr>lf_exit = None, lf_term = None, lf_lines = []\<rparr>"

definition demo_env :: env where
  "demo_env = \<lparr>env_life = (\<lambda>n. Some stubborn_life), env_format = (\<lambda>args fs. (0, [], insert (last args) fs)),
     env_http = (\<lambda>t port p. (1, Some \<lparr>status_code = 200, response_text = []\<rparr>)), env_bind = (\<lambda>t p. True),
     env_listening = (\<lambda>t p. (1, True)), env_tmp = (\<lambda>fs. ''/tmp/t'')\<rparr>"

definition demo_world :: world where
  "demo_world = \<lparr>now = 0, procs = [\<lparr>pr_args = [], pr_born = 0, pr_life = stubborn_life, pr_end = None\<rparr>],
     files = {}, allocated = {3100, 3200}\<rparr>"

definition demo_cluster :: cluster where
  "demo_cluster = \<lparr>config = default_cluster_config None, processes = [(0, 0)], log_captures = [0 \<mapsto> Some 0],
     cluster_ports = [3100], metrics_ports = [3200], data_dir = Some ''/tmp/t'', temp_dir_created = True,
     started = True, failed = False, bin_path = ''archerdb''\<rparr>"

lemmas demo_defs = demo_env_def demo_world_def demo_cluster_def stubborn_life_def default_cluster_config_def

theorem stop_leaves_nothing_witness:
  "\<exists>c' w'. cluster_stop demo_cluster demo_world = Some (c', w') \<and> now w' \<le> 5000 \<and> \<not> running 0 w' \<and> allocated w' = {}"
proof -
  have "known_spawned demo_cluster demo_world" by (simp add: known_spawned_def demo_defs)
  from stop_leaves_nothing [OF this] show ?thesis by (auto simp: demo_defs)
qed

text \<open>A start that fails leaves no process running that did not run before, whatever went
  wrong and however many nodes were up: those that were started are stopped.\<close>

theorem failed_start_leaves_nothing_running:
  assumes "cluster_start env c w = Some (Inl e, c', w')" and "\<not> started c" and "processes c = []"
  shows "running_pids w' \<subseteq> running_pids w \<and> processes c' = [] \<and> \<not> started c'"
proof -
  have "accounted (running_pids w) c w" using assms(3) by (simp add: accounted_def known_spawned_def running_pids_def)
  from cluster_start_spec [OF this, of env] assms have s: "accounted (running_pids w) c' w'"
    "processes c' = []" "\<not> started c'" by auto
  then show ?thesis by (auto simp: accounted_def running_pids_def)
qed

theorem failed_start_leaves_nothing_running_witness:
  "\<exists>c' w'. cluster_start demo_env (demo_cluster\<lparr>config := (default_cluster_config None)\<lparr>replica_count := Some 2\<rparr>,
      started := False, processes := []\<rparr>) demo_world = Some (Inl (BadReplicaCount 2 1), c', w') \<and>
     running_pids w' \<subseteq> running_pids demo_world"
proof -
  let ?c = "demo_cluster\<lparr>config := (default_cluster_config None)\<lparr>replica_count := Some 2\<rparr>, started := False, processes := []\<rparr>"
  obtain c' w' where s: "cluster_start demo_env ?c demo_world = Some (Inl (BadReplicaCount 2 1), c', w')"
    by (simp add: cluster_start_def setup_data_dir_def replica_total_def demo_defs Let_def)
  from failed_start_leaves_nothing_running [OF s] have "running_pids w' \<subseteq> running_pids demo_world" by simp
  with s show ?thesis by blast
qed

text \<open>Starting and then stopping a cluster gives the allocator back exactly what it had:
  the ports of a running cluster are its own, one data and one metrics port per node.\<close>

theorem start_then_stop_restores_ports:
  assumes "cluster_start env c w = Some (Inr (), c', w')" and "\<not> started c" and "processes c = []"
  shows "length (cluster_ports c') = nat (node_count (config c)) \<and>
    length (metrics_ports c') = nat (node_count (config c)) \<and> distinct (cluster_ports c' @ metrics_ports c') \<and>
    (\<exists>c'' w''. cluster_stop c' w' = Some (c'', w'') \<and> allocated w'' = allocated w \<and>
       running_pids w'' \<subseteq> running_pids w)"
proof -
  obtain d c1 w1 c2 w2 w3 c3 where p: "setup_data_dir env c w = (d, c1, w1)"
    "setup_ports env c1 w1 = (Inr (), c2, w2)"
    "format_files env c2 d (replica_total (config c1)) [0..node_count (config c2) - 1] w2 = (Inr (), w3)"
    "start_nodes env d (replica_total (config c1)) c2 w3 = (Inr (), c3, w')" "c' = c3\<lparr>started := True\<rparr>"
    using assms(1,2) by (auto simp: cluster_start_def Let_def split: prod.splits sum.splits if_splits option.splits)
  have c1: "config c1 = config c" "allocated w1 = allocated w" "prepares (c, w) (c1, w1)"
    using setup_data_dir_prepares [OF p(1)] by (simp_all add: prepares_def)
  have c2: "prepares (c, w) (c2, w3)" "allocated w3 = allocated w2"
    using c1(3) setup_ports_frame [OF p(2)] format_files_prepares [OF p(3)] prepares_trans by blast+
  have old: "accounted (running_pids w) c w"
    using assms(3) by (simp add: accounted_def known_spawned_def running_pids_def)
  have "processes c2 = []" using c2 assms(3) by (simp add: prepares_def)
  note s = start_nodes_accounted [OF p(4) conjunct1 [OF prepares_accounted [OF c2(1) old]] this]
  then have "tidy (running_pids w) (c', w')" using p(5) by (simp add: tidy_def accounted_def known_spawned_def)
  from cluster_step_tidy [OF this, of Op_Stop env] obtain c'' w'' where st: "cluster_stop c' w' = Some (c'', w'')"
    "tidy (running_pids w) (c'', w'')" by (auto simp: cluster_step_def careful_def)
  have k: "known_spawned c' w'" using s p(5) by (simp add: accounted_def known_spawned_def)
  have ports: "cluster_ports c' = cluster_ports c2" "metrics_ports c' = metrics_ports c2"
    using s p(5) by (simp_all add: same_setup_def)
  have "allocated w'' = allocated w' - set (cluster_ports c') - set (metrics_ports c')" "processes c'' = []"
    using cluster_stop_spec [OF k] st(1) by auto
  then have "allocated w'' = allocated w" "running_pids w'' \<subseteq> running_pids w"
    using setup_ports_Inr [OF p(2)] s c1 c2(2) ports st(2)
    by (auto simp: tidy_def accounted_def running_pids_def)
  then show ?thesis using setup_ports_Inr [OF p(2)] ports c1(1) st(1) by simp
qed

text \<open>A failed format leaks: the ports of all nodes stay allocated, since \<open>start\<close> raises
  before its handler and a \<open>with\<close> block then never calls \<open>__exit__\<close>.\<close>

theorem failed_format_leaks_ports:
  assumes "cluster_start env c w = Some (Inl (FormatFailed i err), c', w')" and "\<not> started c"
  shows "length (cluster_ports c') = nat (node_count (config c)) \<and>
    length (metrics_ports c') = nat (node_count (config c)) \<and>
    (set (cluster_ports c') \<union> set (metrics_ports c')) \<inter> allocated w = {} \<and>
    allocated w' = allocated w \<union> set (cluster_ports c') \<union> set (metrics_ports c')"
proof -
  obtain d c1 w1 c2 w2 f w3 where p: "setup_data_dir env c w = (d, c1, w1)" "setup_ports env c1 w1 = (Inr (), c2, w2)"
    and f: "format_files env c2 d (replica_total (config c1)) [0..node_count (config c2) - 1] w2 = (f, w3)"
    and r: "c' = c2" "w' = w3"
    by (rule cluster_start_phases [OF assms, of "FormatFailed i err"]) auto
  have "config c1 = config c" "allocated w1 = allocated w" "allocated w3 = allocated w2"
    using setup_data_dir_prepares [OF p(1)] format_files_prepares [OF f] by (simp_all add: prepares_def)
  with setup_ports_Inr [OF p(2)] r show ?thesis by simp
qed

text \<open>Both need a start that gets through; one node on free ports does.\<close>

lemma take_one_port:
  assumes "env_bind env (now w) (first_port base)" and "first_port base \<notin> allocated w" and "base \<le> 65535"
  shows "take_ports env 1 base w = (Inr [first_port base], w\<lparr>allocated := insert (first_port base) (allocated w)\<rparr>)"
proof -
  have "[first_port base..first_port base + 999] = first_port base # [first_port base + 1..first_port base + 999]"
    by (rule upto_rec1) simp
  moreover have "0 \<le> first_port base" "first_port base \<le> 65535" using assms(3) by (simp_all add: first_port_def)
  ultimately show ?thesis
    using assms by (simp add: take_ports_def allocate_ports_def find_available_port_def add.commute)
qed

definition fresh_cluster :: cluster where
  "fresh_cluster = \<lparr>config = default_cluster_config None, processes = [], log_captures = Map.empty,
     cluster_ports = [], metrics_ports = [], data_dir = None, temp_dir_created = False,
     started = False, failed = False, bin_path = ''archerdb''\<rparr>"

definition empty_world :: world where
  "empty_world = \<lparr>now = 0, procs = [], files = {}, allocated = {}\<rparr>"

definition ready_cluster :: cluster where
  "ready_cluster = fresh_cluster\<lparr>cluster_ports := [3100], metrics_ports := [3200],
     data_dir := Some ''/tmp/t'', temp_dir_created := True\<rparr>"

lemmas fresh_defs = fresh_cluster_def empty_world_def ready_cluster_def demo_env_def default_cluster_config_def stubborn_life_def

lemma demo_setup:
  assumes "env_bind env = (\<lambda>t p. True)" and "env_tmp env = (\<lambda>fs. ''/tmp/t'')"
  shows "setup_data_dir env fresh_cluster empty_world =
      (''/tmp/t'', fresh_cluster\<lparr>data_dir := Some ''/tmp/t'', temp_dir_created := True\<rparr>, empty_world\<lparr>files := {''/tmp/t''}\<rparr>)"
    and "setup_ports env (fresh_cluster\<lparr>data_dir := Some ''/tmp/t'', temp_dir_created := True\<rparr>) (empty_world\<lparr>files := {''/tmp/t''}\<rparr>) =
      (Inr (), ready_cluster, empty_world\<lparr>files := {''/tmp/t''}, allocated := {3200, 3100}\<rparr>)"
proof -
  show "setup_data_dir env fresh_cluster empty_world =
      (''/tmp/t'', fresh_cluster\<lparr>data_dir := Some ''/tmp/t'', temp_dir_created := True\<rparr>, empty_world\<lparr>files := {''/tmp/t''}\<rparr>)"
    using assms by (simp add: setup_data_dir_def fresh_defs Let_def)
  let ?w = "empty_world\<lparr>files := {''/tmp/t''}\<rparr>"
  have "take_ports env 1 0 ?w = (Inr [3100], ?w\<lparr>allocated := {3100}\<rparr>)"
    using take_one_port [of env ?w 0] assms by (simp add: first_port_def fresh_defs)
  moreover have "take_ports env 1 3200 (?w\<lparr>allocated := {3100}\<rparr>) = (Inr [3200], ?w\<lparr>allocated := {3200, 3100}\<rparr>)"
    using take_one_port [of env "?w\<lparr>allocated := {3100}\<rparr>" 3200] assms by (simp add: first_port_def fresh_defs)
  ultimately show "setup_ports env (fresh_cluster\<lparr>data_dir := Some ''/tmp/t'', temp_dir_created := True\<rparr>) ?w =
      (Inr (), ready_cluster, ?w\<lparr>allocated := {3200, 3100}\<rparr>)"
    by (simp add: setup_ports_def metrics_base_def fresh_cluster_def ready_cluster_def default_cluster_config_def)
qed

lemma fresh_simps:
  "started fresh_cluster = False" "config fresh_cluster = default_cluster_config None"
  "started ready_cluster = False" "config ready_cluster = default_cluster_config None"
  "processes ready_cluster = []" "metrics_ports ready_cluster = [3200]"
  "node_count (default_cluster_config None) = 1" "replica_total (default_cluster_config None) = 1"
  by (simp_all add: fresh_cluster_def ready_cluster_def default_cluster_config_def replica_total_def)

lemma demo_start: "\<exists>c' w'. cluster_start demo_env fresh_cluster empty_world = Some (Inr (), c', w')"
proof -
  have s: "env_bind demo_env = (\<lambda>t p. True)" "env_tmp demo_env = (\<lambda>fs. ''/tmp/t'')" by (simp_all add: demo_env_def)
  let ?w = "empty_world\<lparr>files := {''/tmp/t''}, allocated := {3200, 3100}\<rparr>"
  obtain F where f: "format_files demo_env ready_cluster ''/tmp/t'' 1 [0] ?w = (Inr (), ?w\<lparr>files := F\<rparr>)"
    by (simp add: demo_env_def data_file_def empty_world_def)
  obtain pid u where p: "popen demo_env (node_args (ready_cluster\<lparr>log_captures := (log_captures ready_cluster)(0 \<mapsto> None)\<rparr>)
      [''--replica-count='' @ show_int 1] 3200 (data_file ''/tmp/t'' 0)) (?w\<lparr>files := F\<rparr>) = Some (pid, u)"
    and "poll pid (sleep 500 u) = None"
    by (simp add: popen_def demo_env_def stubborn_life_def empty_world_def poll_def)
  then have "\<exists>c' w'. start_nodes demo_env ''/tmp/t'' 1 ready_cluster (?w\<lparr>files := F\<rparr>) = (Inr (), c', w')"
    by (simp add: start_nodes_def spawn_node_def fresh_simps element_at_def Let_def)
  then show ?thesis
    using f by (auto simp: cluster_start_def Let_def demo_setup [OF s] fresh_simps)
qed

theorem start_then_stop_restores_ports_witness:
  "\<exists>c' w' c'' w''. cluster_start demo_env fresh_cluster empty_world = Some (Inr (), c', w') \<and>
     length (cluster_ports c') = 1 \<and> cluster_stop c' w' = Some (c'', w'') \<and> allocated w'' = {}"
proof -
  obtain c' w' where "cluster_start demo_env fresh_cluster empty_world = Some (Inr (), c', w')" using demo_start by blast
  with start_then_stop_restores_ports [OF this] show ?thesis by (auto simp: fresh_defs)
qed

theorem failed_format_leaks_ports_witness:
  "\<exists>c' w'. cluster_start (demo_env\<lparr>env_format := (\<lambda>args fs. (1, [], fs))\<rparr>) fresh_cluster empty_world =
       Some (Inl (FormatFailed 0 []), c', w') \<and> length (cluster_ports c') = 1 \<and> set (cluster_ports c') \<subseteq> allocated w'"
proof -
  let ?env = "demo_env\<lparr>env_format := (\<lambda>args fs. (1, [], fs))\<rparr>"
  have e: "env_bind ?env = (\<lambda>t p. True)" "env_tmp ?env = (\<lambda>fs. ''/tmp/t'')" by (simp_all add: demo_env_def)
  have "\<exists>c' w'. cluster_start ?env fresh_cluster empty_world = Some (Inl (FormatFailed 0 []), c', w')"
    by (simp add: cluster_start_def Let_def demo_setup [OF e] fresh_simps data_file_def)
  then obtain c' w' where s: "cluster_start ?env fresh_cluster empty_world = Some (Inl (FormatFailed 0 []), c', w')" by blast
  from failed_format_leaks_ports [OF s] s show ?thesis by (auto simp: fresh_defs)
qed



text \<open>Restarting a node that still runs orphans it: the object forgets the old process, so
  stopping the cluster does not stop it.\<close>

theorem restart_of_running_node_orphans:
  assumes "map_of (processes c) i = Some pid" and "pr_end (procs w ! pid) = None" and "known_spawned c w"
    and "distinct (map snd (processes c))" and "distinct (map fst (processes c))"
    and "start_node env i c w = (Inr (), c', w')"
  shows "\<exists>c'' w''. cluster_stop c' w' = Some (c'', w'') \<and> running pid w''"
proof -
  have valid: "pid < length (procs w)"
    using assms(1,3) by (force simp: known_spawned_def dest: map_of_SomeD)
  have guard: "\<not> (i < 0 \<or> node_count (config c) \<le> i)" using assms(6) by (auto simp: start_node_def)
  obtain d where d: "data_dir c = Some d" using assms(6) guard by (auto simp: start_node_def split: option.splits)
  obtain r c1 w1 where s: "spawn_node env [] (data_file d i) i c w = (r, c1, w1)" by (metis prod_cases3)
  obtain new where new: "r = Inr new" "c' = c1" "w' = sleep 500 w1"
    using assms(6) guard d s by (auto simp: start_node_def Let_def split: sum.splits option.splits)
  let ?c = "c\<lparr>log_captures := (log_captures c)(i \<mapsto> None)\<rparr>"
  obtain port where q: "popen env (node_args ?c [] port (data_file d i)) w = Some (new, w1)"
    and c1: "processes c1 = AList.update i new (processes c)"
    using s new(1) by (auto simp: spawn_node_def Let_def split: sum.splits option.splits prod.splits)
  note u = popen_Some [OF q]
  have old: "procs w' ! pid = procs w ! pid" using q valid new(3) by (auto simp: popen_def nth_append split: option.splits)
  have forgotten: "pid \<notin> snd ` set (processes c')"
  proof
    assume "pid \<in> snd ` set (processes c')"
    then obtain j where j: "(j, pid) \<in> set (processes c')" by auto
    have "distinct (map fst (processes c'))" using assms(5) new(2) c1 by (simp add: distinct_update)
    with j have "map_of (processes c') j = Some pid" by simp
    then have "(if j = i then Some new else map_of (processes c) j) = Some pid"
      using new(2) c1 by (simp add: update_conv' split: if_splits)
    moreover have "new \<noteq> pid" using valid u(1) by simp
    ultimately have "j \<noteq> i" "map_of (processes c) j = Some pid" by (auto split: if_splits)
    then have "(j, pid) \<in> set (processes c)" "(i, pid) \<in> set (processes c)"
      using assms(1) by (auto dest: map_of_SomeD)
    with assms(4) \<open>j \<noteq> i\<close> show False
      using inj_onD [of snd "set (processes c)" "(j, pid)" "(i, pid)"] by (simp add: distinct_map)
  qed
  have "known_spawned c' w'"
    using snd_update [of i new "processes c"] assms(3) u(1,2) new(2,3) c1 by (fastforce simp: known_spawned_def)
  from cluster_stop_spec [OF this] obtain c'' w'' where st: "cluster_stop c' w' = Some (c'', w'')" "later w' w''"
    "\<forall>p. p \<notin> snd ` set (processes c') \<longrightarrow> procs w'' ! p = procs w' ! p" "length (procs w'') = length (procs w')"
    by blast
  have "procs w'' ! pid = procs w ! pid" using st(3) forgotten old by simp
  moreover have "pid < length (procs w'')" using st(4) u(2) valid new(3) by simp
  ultimately have "running pid w''" using assms(2) by (simp add: running_def poll_def)
  with st(1) show ?thesis by blast
qed

theorem restart_of_running_node_orphans_witness:
  "\<exists>c' w' c'' w''. start_node demo_env 0 demo_cluster demo_world = (Inr (), c', w') \<and>
     cluster_stop c' w' = Some (c'', w'') \<and> running 0 w''"
proof -
  have "\<exists>c' w'. start_node demo_env 0 demo_cluster demo_world = (Inr (), c', w')"
    by (simp add: start_node_def spawn_node_def element_at_def popen_def poll_def demo_defs Let_def)
  then obtain c' w' where s: "start_node demo_env 0 demo_cluster demo_world = (Inr (), c', w')" by blast
  have "\<exists>c'' w''. cluster_stop c' w' = Some (c'', w'') \<and> running 0 w''"
    by (rule restart_of_running_node_orphans [OF _ _ _ _ _ s]) (simp_all add: demo_defs known_spawned_def)
  with s show ?thesis by blast
qed

text \<open>\<open>wait_for_ready\<close> always returns, and what it says is true: \<open>True\<close> when every node has
  answered the health check with 200 since the call, \<open>False\<close> only once the timeout is over,
  and a crash report when that node's process has ended with that code.\<close>

theorem wait_for_ready_correct:
  assumes "wait_for_ready env timeout c w = (r, c', w')"
  shows "only_time w w' \<and>
    (r = Inr True \<longrightarrow> (\<forall>i\<in>{0..node_count (config c) - 1}. answered_ready env c i (now w) (now w'))) \<and>
    (r = Inr False \<longrightarrow> now w + (case timeout of None \<Rightarrow> startup_timeout (config c) | Some t \<Rightarrow> t) \<le> now w') \<and>
    (\<forall>i code l. r = Inl (Crashed i code l) \<longrightarrow> failed c' \<and>
       (\<exists>pid. map_of (processes c) i = Some pid \<and> poll pid w' = Some code)) \<and>
    (\<not> started c \<longrightarrow> r = Inl NotStarted)"
proof (cases "started c")
  case False
  with assms show ?thesis by (auto simp: wait_for_ready_def)
next
  case True
  with assms have loop: "wait_ready_loop env (now w + (case timeout of None \<Rightarrow> startup_timeout (config c) | Some t \<Rightarrow> t))
      {} c w = (r, c', w')" by (simp add: wait_for_ready_def)
  from wait_ready_spec [OF loop, of "now w"] True show ?thesis by simp
qed

theorem wait_for_ready_correct_witness:
  "\<exists>r c' w'. wait_for_ready demo_env (Some 0) demo_cluster demo_world = (r, c', w') \<and> only_time demo_world w'"
proof -
  obtain r c' w' where q: "wait_for_ready demo_env (Some 0) demo_cluster demo_world = (r, c', w')" by (metis prod_cases3)
  with wait_for_ready_correct [OF q] show ?thesis by simp
qed

text \<open>After the only node of a cluster has been stopped, \<open>get_leader_replica\<close> says that there
  is no leader, but \<open>wait_for_leader\<close> still returns its port at once.\<close>

theorem stopped_node_is_still_leader:
  assumes "started c" and "node_count (config c) = 1" and "cluster_ports c = [p]"
    and "map_of (processes c) 0 = Some pid" and "known_spawned c w"
  shows "\<exists>w'. stop_node 0 graceful c w = Some (Inr (), w') \<and> get_leader_replica env c w' = (Inr None, w') \<and>
    wait_for_leader env timeout c w' = (Inr (Some p), w')"
proof -
  from stop_node_spec [OF assms(5), of 0 graceful] assms(4) obtain w' where
    w': "stop_node 0 graceful c w = Some (Inr (), w')" "\<not> running pid w'" "length (procs w') = length (procs w)" by auto
  have "pid < length (procs w)" using assms(4,5) by (force simp: known_spawned_def dest: map_of_SomeD)
  with w'(2,3) have "\<not> is_node_running c 0 w'" using assms(4) by (simp add: running_def is_node_running_def)
  with w'(1) assms show ?thesis by (simp add: get_leader_replica_def wait_for_leader_def element_at_def)
qed

theorem stopped_node_is_still_leader_witness:
  "\<exists>w'. stop_node 0 True demo_cluster demo_world = Some (Inr (), w') \<and>
     get_leader_replica demo_env demo_cluster w' = (Inr None, w') \<and>
     wait_for_leader demo_env None demo_cluster w' = (Inr (Some 3100), w')"
  by (rule stopped_node_is_still_leader [where pid = 0]) (simp_all add: demo_defs known_spawned_def)

end

