(* ===== verification/Consistency_Checks.thy ===== *)
theory Consistency_Checks
  imports Cluster_Safety Py_Json
begin

section \<open>Checking the nodes of a cluster\<close>

text \<open>
  \<open>ConsistencyChecker\<close> of \<open>test_infrastructure/topology/consistency.py\<close>: the health of the
  nodes, whether they hold the same entities, and the status of an operation on each.  What
  a request meets is a parameter \<open>net\<close>: by time, method, port, path and body, how long it
  takes and what \<open>urlopen\<close> does.  \<open>json.loads\<close> is a parameter \<open>loads\<close>.  Values are compared
  as Python compares them, apart from NaN.
\<close>

subsection \<open>Requests\<close>

datatype wire_answer =
    Url_Error
  | Other_Error py_exn
  | Response int bool "byte list"
  | Http_Error int "byte list"

datatype load_result = Loaded json | Bad_Json | Bad_Encoding

datatype http_payload = PJson json | PBytes "byte list"

datatype check_exn =
    Request_Failed
  | Json_Error
  | Raised py_exn
  | Cluster_Error cluster_exn
  | Query_Status int
  | Query_Exhausted int "check_exn option"

type_synonym net = "int \<Rightarrow> string \<Rightarrow> int \<Rightarrow> string \<Rightarrow> json option \<Rightarrow> nat \<times> wire_answer"
type_synonym loads = "byte list \<Rightarrow> load_result"

fun http_outcome :: "loads \<Rightarrow> wire_answer \<Rightarrow> (check_exn, int \<times> http_payload) result" where
  "http_outcome loads Url_Error = Inl Request_Failed"
| "http_outcome loads (Other_Error e) = Inl (Raised e)"
| "http_outcome loads (Response status is_json body) =
     (if is_json \<and> body \<noteq> []
      then case loads body of
             Loaded j \<Rightarrow> Inr (status, PJson j)
           | Bad_Json \<Rightarrow> Inl Json_Error
           | Bad_Encoding \<Rightarrow> Inl (Raised UnicodeDecodeError)
      else Inr (status, PBytes body))"
| "http_outcome loads (Http_Error code body) =
     (if body \<noteq> []
      then case loads body of
             Loaded j \<Rightarrow> Inr (code, PJson j)
           | Bad_Json \<Rightarrow> Inr (code, PBytes body)
           | Bad_Encoding \<Rightarrow> Inl (Raised UnicodeDecodeError)
      else Inr (code, PBytes body))"

definition http_request ::
    "net \<Rightarrow> loads \<Rightarrow> string \<Rightarrow> int \<Rightarrow> string \<Rightarrow> json option \<Rightarrow> world \<Rightarrow>
     (check_exn, int \<times> http_payload) result \<times> world" where
  "http_request net loads meth port url_path body w =
     (case net (now w) meth port url_path body of (d, a) \<Rightarrow> (http_outcome loads a, sleep d w))"

definition port_of :: "int list \<Rightarrow> int \<Rightarrow> (check_exn, int) result" where
  "port_of ports i = (case element_at ports i of Inl e \<Rightarrow> Inl (Cluster_Error e) | Inr p \<Rightarrow> Inr p)"

subsection \<open>Health\<close>

definition node_key :: "int \<Rightarrow> string \<Rightarrow> string" where
  "node_key i kind = ''node_'' @ show_int i @ kind"

text \<open>The loop of \<open>verify_cluster_health\<close>; only a \<open>RuntimeError\<close> of the request is caught.\<close>

fun health_pass ::
    "net \<Rightarrow> loads \<Rightarrow> cluster \<Rightarrow> int list \<Rightarrow> world \<Rightarrow> (check_exn, (string \<times> bool) list) result \<times> world" where
  "health_pass net loads c [] w = (Inr [], w)"
| "health_pass net loads c (i # is) w =
     (let continue = (\<lambda>healthy w.
            case health_pass net loads c is w of (r, w) \<Rightarrow> (bindE r (\<lambda>h. Inr ((node_key i [], healthy) # h)), w)) in
      if \<not> is_node_running c i w then continue False w
      else
        case port_of (get_metrics_ports c) i of
          Inl e \<Rightarrow> (Inl e, w)
        | Inr port \<Rightarrow>
            (case http_request net loads ''GET'' port ''/health/ready'' None w of
               (Inr (status, body), w) \<Rightarrow> continue (status = 200) w
             | (Inl Request_Failed, w) \<Rightarrow> continue False w
             | (Inl e, w) \<Rightarrow> (Inl e, w)))"

definition verify_cluster_health ::
    "env \<Rightarrow> net \<Rightarrow> loads \<Rightarrow> cluster \<Rightarrow> world \<Rightarrow> (check_exn, (string \<times> bool) list) result \<times> world" where
  "verify_cluster_health env net loads c w =
     (case health_pass net loads c [0..node_count (config c) - 1] w of
        (Inl e, w) \<Rightarrow> (Inl e, w)
      | (Inr health, w) \<Rightarrow>
          (case get_leader_replica env c w of
             (Inl e, w) \<Rightarrow> (Inl (Cluster_Error e), w)
           | (Inr leader, w) \<Rightarrow> (Inr (health @ [(''has_leader'', leader \<noteq> None)]), w)))"

subsection \<open>Data\<close>

text \<open>A JSON value as a member of a set: \<open>True\<close>, \<open>1\<close> and \<open>1.0\<close> are one value, lists and
  objects have no hash.\<close>

fun hash_key :: "json \<Rightarrow> (check_exn, json) result" where
  "hash_key (JBool b) = Inr (JInt (if b then 1 else 0))"
| "hash_key (JFloat x) =
     (case x of Fin q \<Rightarrow> if of_int \<lfloor>q\<rfloor> = q then Inr (JInt \<lfloor>q\<rfloor>) else Inr (JFloat x) | _ \<Rightarrow> Inr (JFloat x))"
| "hash_key (JList xs) = Inl (Raised TypeError)"
| "hash_key (JObj d) = Inl (Raised TypeError)"
| "hash_key j = Inr j"

text \<open>\<open>set(e["entity_id"] for e in payload.get("events", []))\<close>.\<close>

fun event_entity :: "json \<Rightarrow> (check_exn, json) result" where
  "event_entity (JObj d) = (case map_of d ''entity_id'' of None \<Rightarrow> Inl (Raised KeyError) | Some v \<Rightarrow> hash_key v)"
| "event_entity _ = Inl (Raised TypeError)"

fun payload_entities :: "http_payload \<Rightarrow> (check_exn, json set) result" where
  "payload_entities (PJson (JObj d)) =
     (case json_items (json_get d ''events'' (JList [])) of
        Inl e \<Rightarrow> Inl (Raised e)
      | Inr events \<Rightarrow> bindE (mapE event_entity events) (\<lambda>ids. Inr (set ids)))"
| "payload_entities _ = Inl (Raised AttributeError)"

definition query_node ::
    "net \<Rightarrow> loads \<Rightarrow> cluster \<Rightarrow> int \<Rightarrow> string list \<Rightarrow> world \<Rightarrow> (check_exn, json set) result \<times> world" where
  "query_node net loads c i ids w =
     (case port_of (get_ports c) i of
        Inl e \<Rightarrow> (Inl e, w)
      | Inr port \<Rightarrow>
          (case http_request net loads ''POST'' port ''/query/uuid/batch''
              (Some (JObj [(''entity_ids'', JList (map JStr ids))])) w of
             (Inl e, w) \<Rightarrow> (Inl e, w)
           | (Inr (status, body), w) \<Rightarrow>
               (if status \<noteq> 200 then Inl (Query_Status status) else payload_entities body, w)))"

text \<open>The attempts that are left, of \<open>attempts\<close>; the last one is not followed by a delay.\<close>

fun query_attempts ::
    "net \<Rightarrow> loads \<Rightarrow> cluster \<Rightarrow> int \<Rightarrow> string list \<Rightarrow> int \<Rightarrow> nat \<Rightarrow> nat \<Rightarrow> check_exn option \<Rightarrow> world \<Rightarrow>
     (check_exn, json set) result \<times> world" where
  "query_attempts net loads c i ids attempts delay 0 last_error w = (Inl (Query_Exhausted attempts last_error), w)"
| "query_attempts net loads c i ids attempts delay (Suc n) last_error w =
     (case query_node net loads c i ids w of
        (Inr found, w) \<Rightarrow> (Inr found, w)
      | (Inl e, w) \<Rightarrow> query_attempts net loads c i ids attempts delay n (Some e) (if n = 0 then w else sleep delay w))"

definition query_node_with_retry ::
    "net \<Rightarrow> loads \<Rightarrow> cluster \<Rightarrow> int \<Rightarrow> string list \<Rightarrow> int \<Rightarrow> nat \<Rightarrow> world \<Rightarrow> (check_exn, json set) result \<times> world" where
  "query_node_with_retry net loads c i ids attempts delay w =
     query_attempts net loads c i ids attempts delay (nat attempts) None w"

datatype check_value = Verdict bool | Status int | Error_Text check_exn | Unknown_Operation

text \<open>The loop of \<open>verify_data_consistency\<close>; \<open>reference\<close> is what the first node that answered
  had.\<close>

fun consistency_pass ::
    "net \<Rightarrow> loads \<Rightarrow> cluster \<Rightarrow> string list \<Rightarrow> int \<Rightarrow> nat \<Rightarrow> json set option \<Rightarrow> int list \<Rightarrow> world \<Rightarrow>
     (string \<times> check_value) list \<times> world" where
  "consistency_pass net loads c ids attempts delay reference [] w = ([], w)"
| "consistency_pass net loads c ids attempts delay reference (i # is) w =
     (if \<not> is_node_running c i w then consistency_pass net loads c ids attempts delay reference is w
      else
        case query_node_with_retry net loads c i ids attempts delay w of
          (Inl e, w) \<Rightarrow>
            (case consistency_pass net loads c ids attempts delay reference is w of
               (results, w) \<Rightarrow> ((node_key i ''_error'', Error_Text e) # results, w))
        | (Inr found, w) \<Rightarrow>
            (case consistency_pass net loads c ids attempts delay
                (case reference of None \<Rightarrow> Some found | Some known \<Rightarrow> Some known) is w of
               (results, w) \<Rightarrow>
                 ((node_key i ''_consistent'',
                   Verdict (case reference of None \<Rightarrow> True | Some known \<Rightarrow> found = known)) # results, w)))"

definition verify_data_consistency ::
    "net \<Rightarrow> loads \<Rightarrow> cluster \<Rightarrow> string list \<Rightarrow> int \<Rightarrow> nat \<Rightarrow> world \<Rightarrow> (string \<times> check_value) list \<times> world" where
  "verify_data_consistency net loads c ids attempts delay w =
     consistency_pass net loads c ids attempts delay None [0..node_count (config c) - 1] w"

subsection \<open>Operations\<close>

definition endpoint_map :: "(string \<times> string) list" where
  "endpoint_map =
     [(''ping'', ''/health/ping''), (''status'', ''/status''), (''topology'', ''/topology''),
      (''query-uuid'', ''/query/uuid''), (''query-uuid-batch'', ''/query/uuid/batch''),
      (''query-radius'', ''/query/radius''), (''query-polygon'', ''/query/polygon''),
      (''query-latest'', ''/query/latest'')]"

text \<open>\<open>status_code == expected.get("status_code", 200)\<close>.\<close>

fun status_matches :: "int \<Rightarrow> json \<Rightarrow> bool" where
  "status_matches n (JInt m) \<longleftrightarrow> n = m"
| "status_matches n (JFloat x) \<longleftrightarrow> x = Fin (of_int n)"
| "status_matches n (JBool b) \<longleftrightarrow> n = (if b then 1 else 0)"
| "status_matches n _ \<longleftrightarrow> False"

fun operation_pass ::
    "net \<Rightarrow> loads \<Rightarrow> cluster \<Rightarrow> string \<Rightarrow> string \<Rightarrow> json \<Rightarrow> (string \<times> json) list \<Rightarrow> int list \<Rightarrow> world \<Rightarrow>
     (string \<times> check_value) list \<times> world" where
  "operation_pass net loads c operation endpoint input expected [] w = ([], w)"
| "operation_pass net loads c operation endpoint input expected (i # is) w =
     (if \<not> is_node_running c i w then operation_pass net loads c operation endpoint input expected is w
      else
        case (case port_of (get_ports c) i of
                Inl e \<Rightarrow> (Inl e, w)
              | Inr port \<Rightarrow>
                  (if operation \<in> {''ping'', ''status'', ''topology''}
                   then http_request net loads ''GET'' port endpoint None w
                   else http_request net loads ''POST'' port endpoint (Some input) w)) of
          (Inl e, w) \<Rightarrow>
            (case operation_pass net loads c operation endpoint input expected is w of
               (results, w) \<Rightarrow> ((node_key i ''_error'', Error_Text e) # results, w))
        | (Inr (status, body), w) \<Rightarrow>
            (case operation_pass net loads c operation endpoint input expected is w of
               (results, w) \<Rightarrow>
                 ((node_key i ''_status'', Status status) #
                  (node_key i ''_correct'', Verdict (status_matches status (json_get expected ''status_code'' (JInt 200)))) #
                  results, w)))"

definition verify_operation_correctness ::
    "net \<Rightarrow> loads \<Rightarrow> cluster \<Rightarrow> string \<Rightarrow> json \<Rightarrow> (string \<times> json) list \<Rightarrow> world \<Rightarrow> (string \<times> check_value) list \<times> world" where
  "verify_operation_correctness net loads c operation input expected w =
     (case map_of endpoint_map operation of
        None \<Rightarrow> ([(''error'', Unknown_Operation)], w)
      | Some endpoint \<Rightarrow>
          operation_pass net loads c operation endpoint input expected [0..node_count (config c) - 1] w)"

subsection \<open>What the checks amount to\<close>

text \<open>What the running nodes answer, in order.\<close>

fun node_answers ::
    "net \<Rightarrow> loads \<Rightarrow> cluster \<Rightarrow> string list \<Rightarrow> int \<Rightarrow> nat \<Rightarrow> int list \<Rightarrow> world \<Rightarrow>
     (int \<times> (check_exn, json set) result) list \<times> world" where
  "node_answers net loads c ids attempts delay [] w = ([], w)"
| "node_answers net loads c ids attempts delay (i # is) w =
     (if \<not> is_node_running c i w then node_answers net loads c ids attempts delay is w
      else
        case query_node_with_retry net loads c i ids attempts delay w of
          (r, w) \<Rightarrow> (case node_answers net loads c ids attempts delay is w of (rs, w) \<Rightarrow> ((i, r) # rs, w)))"

fun first_answer :: "(int \<times> (check_exn, json set) result) list \<Rightarrow> json set option" where
  "first_answer [] = None"
| "first_answer ((i, Inl e) # rs) = first_answer rs"
| "first_answer ((i, Inr found) # rs) = Some found"

fun judge :: "json set option \<Rightarrow> int \<times> (check_exn, json set) result \<Rightarrow> string \<times> check_value" where
  "judge reference (i, Inl e) = (node_key i ''_error'', Error_Text e)"
| "judge reference (i, Inr found) = (node_key i ''_consistent'', Verdict (Some found = reference))"

lemma consistency_pass_judges:
  "consistency_pass net loads c ids attempts delay reference is w =
     (case node_answers net loads c ids attempts delay is w of
        (rs, w') \<Rightarrow> (map (judge (case reference of None \<Rightarrow> first_answer rs | Some known \<Rightarrow> Some known)) rs, w'))"
proof (induction "is" arbitrary: reference w)
  case Nil
  then show ?case by simp
next
  case (Cons i "is")
  obtain r u where r: "query_node_with_retry net loads c i ids attempts delay w = (r, u)"
    by (cases "query_node_with_retry net loads c i ids attempts delay w")
  show ?case
  proof (cases "is_node_running c i w")
    case False
    with Cons show ?thesis by simp
  next
    case True
    with Cons r show ?thesis
      by (cases r; cases reference; cases "node_answers net loads c ids attempts delay is u") auto
  qed
qed

lemma first_answer_in: "first_answer rs = Some s \<Longrightarrow> \<exists>i. (i, Inr s) \<in> set rs"
  by (induction rs rule: first_answer.induct) auto

lemma first_answer_None: "first_answer rs = None \<longleftrightarrow> (\<forall>i s. (i, Inr s) \<notin> set rs)"
  by (induction rs rule: first_answer.induct) auto

lemma node_key_suffix [simp]:
  "suffix ''_consistent'' (node_key i ''_consistent'')"
  "\<not> suffix ''_consistent'' (node_key i ''_error'')"
proof -
  show "suffix ''_consistent'' (node_key i ''_consistent'')" by (simp add: node_key_def suffix_def)
  show "\<not> suffix ''_consistent'' (node_key i ''_error'')"
  proof
    assume "suffix ''_consistent'' (node_key i ''_error'')"
    then have "last ''_consistent'' = last (node_key i ''_error'')" by (auto simp: suffix_def)
    then show False by (simp add: node_key_def)
  qed
qed

text \<open>The assertion of the class's documentation.\<close>

definition documented_check :: "(string \<times> check_value) list \<Rightarrow> bool" where
  "documented_check results \<longleftrightarrow> (\<forall>(k, v)\<in>set results. suffix ''_consistent'' k \<longrightarrow> v = Verdict True)"

text \<open>The attempts at one node.\<close>

fun attempt_world :: "net \<Rightarrow> loads \<Rightarrow> cluster \<Rightarrow> int \<Rightarrow> string list \<Rightarrow> nat \<Rightarrow> nat \<Rightarrow> world \<Rightarrow> world" where
  "attempt_world net loads c i ids delay 0 w = w"
| "attempt_world net loads c i ids delay (Suc m) w =
     attempt_world net loads c i ids delay m (sleep delay (snd (query_node net loads c i ids w)))"

definition node_attempt :: "net \<Rightarrow> loads \<Rightarrow> cluster \<Rightarrow> int \<Rightarrow> string list \<Rightarrow> nat \<Rightarrow> nat \<Rightarrow> world \<Rightarrow> (check_exn, json set) result \<times> world" where
  "node_attempt net loads c i ids delay m w = query_node net loads c i ids (attempt_world net loads c i ids delay m w)"

lemma query_attempts_success:
  "m < n \<Longrightarrow> node_attempt net loads c i ids delay m w = (Inr found, w') \<Longrightarrow>
     (\<forall>k<m. \<exists>e. fst (node_attempt net loads c i ids delay k w) = Inl e) \<Longrightarrow>
     query_attempts net loads c i ids total_attempts delay n last_error w = (Inr found, w')"
proof (induction n arbitrary: m w last_error)
  case (Suc n)
  show ?case
  proof (cases m)
    case 0
    with Suc show ?thesis by (simp add: node_attempt_def)
  next
    case (Suc m')
    let ?u = "sleep delay (snd (query_node net loads c i ids w))"
    from Suc.prems(3) Suc obtain e where e: "fst (query_node net loads c i ids w) = Inl e" by (auto simp: node_attempt_def)
    have "node_attempt net loads c i ids delay m' ?u = (Inr found, w')" using Suc.prems(2) Suc by (simp add: node_attempt_def)
    moreover have "\<exists>e. fst (node_attempt net loads c i ids delay k ?u) = Inl e" if "k < m'" for k
      using Suc.prems(3) Suc that by (auto simp: node_attempt_def dest: spec [of _ "Suc k"])
    moreover have "m' < n" using Suc.prems(1) Suc by simp
    ultimately have "query_attempts net loads c i ids total_attempts delay n (Some e) ?u = (Inr found, w')"
      using Suc.IH [of m' ?u] by blast
    with e \<open>m' < n\<close> show ?thesis by (cases "query_node net loads c i ids w") auto
  qed
qed simp

lemma query_attempts_failure:
  "\<forall>k<n. \<exists>e. fst (node_attempt net loads c i ids delay k w) = Inl e \<Longrightarrow>
     node_attempt net loads c i ids delay (n - 1) w = (Inl e, w') \<Longrightarrow> 0 < n \<Longrightarrow>
     query_attempts net loads c i ids total_attempts delay n last_error w = (Inl (Query_Exhausted total_attempts (Some e)), w')"
proof (induction n arbitrary: w last_error)
  case (Suc n)
  show ?case
  proof (cases n)
    case 0
    with Suc show ?thesis by (simp add: node_attempt_def)
  next
    case (Suc m)
    let ?u = "sleep delay (snd (query_node net loads c i ids w))"
    from Suc.prems(1) obtain e0 where e0: "fst (query_node net loads c i ids w) = Inl e0" by (auto simp: node_attempt_def)
    have "\<forall>k<n. \<exists>e. fst (node_attempt net loads c i ids delay k ?u) = Inl e"
      using Suc.prems(1) by (auto simp: node_attempt_def dest: spec [of _ "Suc _"])
    moreover have "node_attempt net loads c i ids delay (n - 1) ?u = (Inl e, w')" using Suc.prems(2) Suc by (simp add: node_attempt_def)
    ultimately have "query_attempts net loads c i ids total_attempts delay n (Some e0) ?u =
        (Inl (Query_Exhausted total_attempts (Some e)), w')"
      using Suc.IH [of ?u] Suc by simp
    with e0 Suc show ?thesis by (cases "query_node net loads c i ids w") auto
  qed
qed simp

subsection \<open>Properties\<close>

text \<open>The documented assertion on the result of \<open>verify_data_consistency\<close> holds exactly when
  all running nodes that answered hold the same entities: it detects any difference, and it
  is vacuous when no node answers.\<close>

theorem consistency_check_compares_answers:
  assumes "node_answers net loads c ids attempts delay [0..node_count (config c) - 1] w = (answers, w')"
  shows "\<exists>results. verify_data_consistency net loads c ids attempts delay w = (results, w') \<and>
    length results = length answers \<and>
    (documented_check results \<longleftrightarrow> (\<forall>i s j t. (i, Inr s) \<in> set answers \<and> (j, Inr t) \<in> set answers \<longrightarrow> s = t))"
proof -
  let ?results = "map (judge (first_answer answers)) answers"
  have "verify_data_consistency net loads c ids attempts delay w = (?results, w')"
    using assms by (simp add: verify_data_consistency_def consistency_pass_judges)
  moreover have "documented_check ?results \<longleftrightarrow> (\<forall>i s. (i, Inr s) \<in> set answers \<longrightarrow> Some s = first_answer answers)"
  proof -
    have "(case judge f a of (k, v) \<Rightarrow> suffix ''_consistent'' k \<longrightarrow> v = Verdict True) \<longleftrightarrow> (\<forall>s. snd a = Inr s \<longrightarrow> Some s = f)" for f a
      by (cases a; cases "snd a") auto
    then show ?thesis by (auto simp: documented_check_def)
  qed
  moreover have "(\<forall>i s. (i, Inr s) \<in> set answers \<longrightarrow> Some s = first_answer answers) \<longleftrightarrow>
      (\<forall>i s j t. (i, Inr s) \<in> set answers \<and> (j, Inr t) \<in> set answers \<longrightarrow> s = t)"
  proof (cases "first_answer answers")
    case None
    then show ?thesis unfolding first_answer_None by auto
  next
    case (Some f)
    from first_answer_in [OF this] obtain i where "(i, Inr f) \<in> set answers" by blast
    with Some show ?thesis by (metis option.inject)
  qed
  ultimately show ?thesis by simp
qed

text \<open>A network on which nothing answers, and one on which every request gets an empty result.\<close>

definition dead_net :: net where
  "dead_net t meth port p body = (1, Url_Error)"

definition empty_net :: net where
  "empty_net t meth port p body = (1, Response 200 True [1])"

theorem consistency_check_compares_answers_witness:
  "\<exists>results w'. verify_data_consistency dead_net (\<lambda>b. Bad_Json) demo_cluster [''a''] 1 1000 demo_world = (results, w') \<and>
     length results = 1 \<and> documented_check results"
proof -
  have "\<exists>w'. node_answers dead_net (\<lambda>b. Bad_Json) demo_cluster [''a''] 1 1000 [0..node_count (config demo_cluster) - 1] demo_world =
      ([(0, Inl (Query_Exhausted 1 (Some Request_Failed)))], w')"
    by (simp add: demo_defs is_node_running_def poll_def query_node_with_retry_def query_node_def port_of_def get_ports_def
        element_at_def http_request_def dead_net_def)
  then obtain w' where n: "node_answers dead_net (\<lambda>b. Bad_Json) demo_cluster [''a''] 1 1000
      [0..node_count (config demo_cluster) - 1] demo_world = ([(0, Inl (Query_Exhausted 1 (Some Request_Failed)))], w')"
    by blast
  from consistency_check_compares_answers [OF n] show ?thesis by auto
qed

text \<open>A node is asked until it answers and at most as often as configured: the first
  successful node_attempt is the result, and when all fail the error carries the last one.\<close>

theorem node_query_retries:
  assumes "0 < attempts"
  shows "(\<forall>m found w'. m < nat attempts \<longrightarrow> node_attempt net loads c i ids delay m w = (Inr found, w') \<longrightarrow>
      (\<forall>k<m. \<exists>e. fst (node_attempt net loads c i ids delay k w) = Inl e) \<longrightarrow>
      query_node_with_retry net loads c i ids attempts delay w = (Inr found, w')) \<and>
    (\<forall>e w'. (\<forall>k<nat attempts. \<exists>e. fst (node_attempt net loads c i ids delay k w) = Inl e) \<longrightarrow>
      node_attempt net loads c i ids delay (nat attempts - 1) w = (Inl e, w') \<longrightarrow>
      query_node_with_retry net loads c i ids attempts delay w = (Inl (Query_Exhausted attempts (Some e)), w'))"
  using assms query_attempts_success [of _ "nat attempts" net loads c i ids delay w]
    query_attempts_failure [of "nat attempts" net loads c i ids delay w]
  by (simp add: query_node_with_retry_def)

theorem node_query_retries_witness:
  "\<exists>w'. query_node_with_retry empty_net (\<lambda>b. Loaded (JObj [])) demo_cluster 0 [''a''] 2 1000 demo_world = (Inr {}, w') \<and>
     (\<exists>u. query_node_with_retry dead_net (\<lambda>b. Bad_Json) demo_cluster 0 [''a''] 2 1000 demo_world =
        (Inl (Query_Exhausted 2 (Some Request_Failed)), u))"
proof -
  note sims = node_attempt_def query_node_def port_of_def get_ports_def element_at_def http_request_def demo_cluster_def
  have "\<exists>w'. node_attempt empty_net (\<lambda>b. Loaded (JObj [])) demo_cluster 0 [''a''] 1000 0 demo_world = (Inr {}, w')"
    by (simp add: sims empty_net_def json_get_def)
  then obtain w' where one: "node_attempt empty_net (\<lambda>b. Loaded (JObj [])) demo_cluster 0 [''a''] 1000 0 demo_world = (Inr {}, w')"
    by blast
  have "fst (node_attempt dead_net (\<lambda>b. Bad_Json) demo_cluster 0 [''a''] 1000 k demo_world) = Inl Request_Failed" for k
    by (simp add: sims dead_net_def)
  then obtain u where two: "node_attempt dead_net (\<lambda>b. Bad_Json) demo_cluster 0 [''a''] 1000 (nat 2 - 1) demo_world = (Inl Request_Failed, u)"
    and fails: "\<forall>k<nat 2. \<exists>e. fst (node_attempt dead_net (\<lambda>b. Bad_Json) demo_cluster 0 [''a''] 1000 k demo_world) = Inl e"
    by (metis eq_fst_iff)
  from conjunct1 [OF node_query_retries [of 2 empty_net "\<lambda>b. Loaded (JObj [])" demo_cluster 0 "[''a'']" 1000 demo_world],
      THEN spec, of 0, THEN spec, of "{}", THEN spec, of w'] one
  have "query_node_with_retry empty_net (\<lambda>b. Loaded (JObj [])) demo_cluster 0 [''a''] 2 1000 demo_world = (Inr {}, w')" by simp
  moreover from conjunct2 [OF node_query_retries [of 2 dead_net "\<lambda>b. Bad_Json" demo_cluster 0 "[''a'']" 1000 demo_world]] two fails
  have "query_node_with_retry dead_net (\<lambda>b. Bad_Json) demo_cluster 0 [''a''] 2 1000 demo_world =
      (Inl (Query_Exhausted 2 (Some Request_Failed)), u)" by simp
  ultimately show ?thesis by blast
qed

end
