(* ===== verification/Failover.thy ===== *)
theory Failover
  imports Cluster_Safety
begin

section \<open>Failovers\<close>

text \<open>
  \<open>FailoverSimulator\<close> of \<open>test_infrastructure/topology/failover.py\<close>: stopping the leader and
  waiting for another one.  Exceptions are those of the cluster and the simulator's own
  \<open>RuntimeError\<close>; times are in milliseconds.
\<close>

datatype failover_exn = No_Leader | Failover_Cluster cluster_exn

record failover_result =
  old_leader :: int
  new_leader :: "int option"
  recovery_time_ms :: int
  data_loss :: bool
  operations_during_failover :: int
  operations_succeeded :: int

lemma leader_replica_pass_spec:
  "leader_replica_pass env c is w = (r, w') \<Longrightarrow> only_time w w' \<and>
     (\<forall>i. r = Inr (Some i) \<longrightarrow> i \<in> set is \<and> (\<exists>u. only_time w u \<and> only_time u w' \<and> is_node_running c i u))"
proof (induction "is" arbitrary: w)
  case Nil
  then show ?case by auto
next
  case (Cons i "is")
  have next_node: ?case if "leader_replica_pass env c is u = (r, w')" "only_time w u" for u
    using Cons.IH [OF that(1)] only_time_trans [OF that(2)] by (auto; meson)
  show ?case
  proof (cases "is_node_running c i w")
    case False
    with Cons.prems show ?thesis by (intro next_node [of w]) simp_all
  next
    case True
    show ?thesis
    proof (cases "element_at (metrics_ports c) i")
      case (Inl e)
      with True Cons.prems show ?thesis by auto
    next
      case (Inr port)
      obtain b u where b: "metrics_say_primary env port w = (b, u)" by (cases "metrics_say_primary env port w")
      note t = metrics_only_time [OF b]
      show ?thesis
      proof (cases b)
        case False
        with b True Inr Cons.prems t show ?thesis by (intro next_node [of u]) simp_all
      next
        case yes: True
        with b True Inr Cons.prems have "r = Inr (Some i)" "w' = u" by simp_all
        with True t show ?thesis by (auto intro: exI [of _ w])
      qed
    qed
  qed
qed

lemma get_leader_replica_spec:
  assumes "get_leader_replica env c w = (r, w')"
  shows "only_time w w' \<and>
    (\<forall>i. r = Inr (Some i) \<longrightarrow> i \<in> {0..node_count (config c) - 1} \<and>
       (\<exists>u. only_time w u \<and> only_time u w' \<and> is_node_running c i u))"
proof (cases "node_count (config c) = 1")
  case True
  with assms show ?thesis by (auto simp: get_leader_replica_def split: if_splits intro: exI [of _ w])
next
  case False
  with assms leader_replica_pass_spec show ?thesis by (fastforce simp: get_leader_replica_def)
qed

subsection \<open>The simulator\<close>

function wait_for_new_leader ::
    "env \<Rightarrow> int \<Rightarrow> int \<Rightarrow> cluster \<Rightarrow> world \<Rightarrow> (failover_exn, int option) result \<times> world" where
  "wait_for_new_leader env old deadline c w =
     (if now w < deadline
      then
        case get_leader_replica env c w of
          (Inl e, w) \<Rightarrow> (Inl (Failover_Cluster e), w)
        | (Inr (Some i), w) \<Rightarrow>
            if i \<noteq> old then (Inr (Some i), w) else wait_for_new_leader env old deadline c (sleep 500 w)
        | (Inr None, w) \<Rightarrow> wait_for_new_leader env old deadline c (sleep 500 w)
      else (Inr None, w))"
  by pat_completeness auto
termination
  by (relation "measure (\<lambda>(env, old, deadline, c, w). nat (deadline - now w))")
    (auto dest!: get_leader_replica_spec [OF sym] simp: only_time_def)

declare wait_for_new_leader.simps [simp del]

definition trigger_leader_failure ::
    "env \<Rightarrow> int \<Rightarrow> bool \<Rightarrow> cluster \<Rightarrow> world \<Rightarrow> ((failover_exn, failover_result) result \<times> world) option" where
  "trigger_leader_failure env recovery_timeout graceful c w =
     (case get_leader_replica env c w of
        (Inl e, w) \<Rightarrow> Some (Inl (Failover_Cluster e), w)
      | (Inr None, w) \<Rightarrow> Some (Inl No_Leader, w)
      | (Inr (Some old), w) \<Rightarrow>
          map_option (\<lambda>(r, u).
            case r of
              Inl e \<Rightarrow> (Inl (Failover_Cluster e), u)
            | Inr v \<Rightarrow>
                (case wait_for_new_leader env old (now u + recovery_timeout) c u of
                   (Inl e, u) \<Rightarrow> (Inl e, u)
                 | (Inr new, u) \<Rightarrow>
                     (Inr \<lparr>old_leader = old, new_leader = new, recovery_time_ms = now u - now w, data_loss = False,
                           operations_during_failover = 0, operations_succeeded = 0\<rparr>, u)))
            (stop_node old graceful c w))"

text \<open>An operation of the test: whether it succeeds, or \<open>None\<close> when it raises.  The loop may run
  forever when operations take no time.\<close>

partial_function (option) run_operations ::
    "(world \<Rightarrow> bool option \<times> world) \<Rightarrow> int \<Rightarrow> nat \<Rightarrow> nat \<Rightarrow> world \<Rightarrow> ((nat \<times> nat) \<times> world) option" where
  "run_operations operation deadline attempted successful w =
     (if now w < deadline
      then
        case operation w of
          (outcome, w) \<Rightarrow>
            run_operations operation deadline (attempted + 1) (if outcome = Some True then successful + 1 else successful) w
      else Some ((attempted, successful), w))"

definition run_operations_during_failover ::
    "(world \<Rightarrow> bool option \<times> world) \<Rightarrow> int \<Rightarrow> world \<Rightarrow> ((nat \<times> nat) \<times> world) option" where
  "run_operations_during_failover operation duration w = run_operations operation (now w + duration) 0 0 w"

text \<open>\<open>n\<close> failovers to go.\<close>

fun sequential_failovers ::
    "env \<Rightarrow> int \<Rightarrow> bool \<Rightarrow> bool \<Rightarrow> nat \<Rightarrow> failover_result list \<Rightarrow> cluster \<Rightarrow> world \<Rightarrow>
     ((failover_exn, failover_result list) result \<times> cluster \<times> world) option" where
  "sequential_failovers env recovery_timeout graceful restart 0 results c w = Some (Inr results, c, w)"
| "sequential_failovers env recovery_timeout graceful restart (Suc n) results c w =
     Option.bind (trigger_leader_failure env recovery_timeout graceful c w) (\<lambda>(r, w).
       case r of
         Inl e \<Rightarrow> Some (Inl e, c, w)
       | Inr result \<Rightarrow>
           if restart \<and> new_leader result \<noteq> None
           then
             case start_node env (old_leader result) c (sleep 2000 w) of
               (Inl e, c, w) \<Rightarrow> Some (Inl (Failover_Cluster e), c, w)
             | (Inr u, c, w) \<Rightarrow>
                 sequential_failovers env recovery_timeout graceful restart n (results @ [result]) c (sleep 2000 w)
           else sequential_failovers env recovery_timeout graceful restart n (results @ [result]) c w)"

definition trigger_sequential_failovers ::
    "env \<Rightarrow> int \<Rightarrow> int \<Rightarrow> bool \<Rightarrow> bool \<Rightarrow> cluster \<Rightarrow> world \<Rightarrow>
     ((failover_exn, failover_result list) result \<times> cluster \<times> world) option" where
  "trigger_sequential_failovers env recovery_timeout count graceful restart c w =
     sequential_failovers env recovery_timeout graceful restart (nat count) [] c w"

subsection \<open>What a failover does\<close>

lemma wait_for_new_leader_spec:
  assumes "wait_for_new_leader env old deadline c w = (r, w')"
  shows "only_time w w' \<and> (r = Inr None \<longrightarrow> deadline \<le> now w') \<and>
    (\<forall>i. r = Inr (Some i) \<longrightarrow> i \<noteq> old \<and> i \<in> {0..node_count (config c) - 1} \<and>
       (\<exists>u. only_time w u \<and> only_time u w' \<and> is_node_running c i u))"
  using assms
proof (induction env old deadline c w arbitrary: r w' rule: wait_for_new_leader.induct)
  case (1 env old deadline c w)
  obtain q u where q: "get_leader_replica env c w = (q, u)" by (cases "get_leader_replica env c w")
  note l = get_leader_replica_spec [OF q]
  have again: ?case if loop: "wait_for_new_leader env old deadline c (sleep 500 u) = (r, w')"
    and IH: "wait_for_new_leader env old deadline c (sleep 500 u) = (r, w') \<Longrightarrow>
      only_time (sleep 500 u) w' \<and> (r = Inr None \<longrightarrow> deadline \<le> now w') \<and>
      (\<forall>i. r = Inr (Some i) \<longrightarrow> i \<noteq> old \<and> i \<in> {0..node_count (config c) - 1} \<and>
         (\<exists>v. only_time (sleep 500 u) v \<and> only_time v w' \<and> is_node_running c i v))"
  proof -
    have t: "only_time w (sleep 500 u)" using l only_time_sleep only_time_trans by blast
    note IH = IH [OF loop]
    have "only_time w w'" using only_time_trans [OF t conjunct1 [OF IH]] .
    moreover have "\<exists>v. only_time w v \<and> only_time v w' \<and> is_node_running c i v" if "r = Inr (Some i)" for i
      using IH that only_time_trans [OF t] by blast
    ultimately show ?thesis using IH by simp
  qed
  show ?case
  proof (cases "now w < deadline")
    case False
    with 1(3) show ?thesis by (subst (asm) wait_for_new_leader.simps) auto
  next
    case True
    show ?thesis
    proof (cases q)
      case (Inl e)
      with True q 1(3) l show ?thesis by (subst (asm) wait_for_new_leader.simps) auto
    next
      case (Inr leader)
      show ?thesis
      proof (cases "leader = None \<or> leader = Some old")
        case retry: True
        with True q Inr 1(3) have loop: "wait_for_new_leader env old deadline c (sleep 500 u) = (r, w')"
          by (subst (asm) wait_for_new_leader.simps) auto
        show ?thesis
        proof (cases leader)
          case None
          show ?thesis by (rule again [OF loop]) (rule 1(1) [OF True q [symmetric] Inr None])
        next
          case (Some i)
          with retry have "\<not> i \<noteq> old" by simp
          show ?thesis by (rule again [OF loop]) (rule 1(2) [OF True q [symmetric] Inr Some \<open>\<not> i \<noteq> old\<close>])
        qed
      next
        case False
        then obtain i where "leader = Some i" "i \<noteq> old" by auto
        with True q Inr 1(3) have "r = Inr (Some i)" "w' = u"
          by (subst (asm) wait_for_new_leader.simps, simp)+
        with l Inr \<open>leader = Some i\<close> \<open>i \<noteq> old\<close> show ?thesis by simp
      qed
    qed
  qed
qed

lemma only_time_not_running: "only_time u v \<Longrightarrow> \<not> running pid u \<Longrightarrow> \<not> running pid v"
  using later_running [OF only_time_later] by (fastforce simp: running_def only_time_def)

lemma failover_spec:
  assumes "trigger_leader_failure env timeout graceful c w = Some (Inr r, w')" and "known_spawned c w"
  shows "is_node_running c (old_leader r) w \<and> \<not> is_node_running c (old_leader r) w' \<and>
    0 \<le> recovery_time_ms r \<and> recovery_time_ms r \<le> now w' - now w \<and>
    (case new_leader r of
       None \<Rightarrow> timeout \<le> recovery_time_ms r
     | Some i \<Rightarrow> i \<noteq> old_leader r \<and> i \<in> {0..node_count (config c) - 1} \<and>
         (\<exists>u. only_time u w' \<and> \<not> is_node_running c (old_leader r) u \<and> is_node_running c i u))"
proof -
  obtain old u where l: "get_leader_replica env c w = (Inr (Some old), u)"
    using assms(1) by (auto simp: trigger_leader_failure_def split: prod.splits sum.splits option.splits)
  from get_leader_replica_spec [OF l] obtain v where t: "only_time w u" "only_time w v" "is_node_running c old v" by blast
  have run: "is_node_running c old w"
  proof -
    from t(3) obtain pid where pid: "map_of (processes c) old = Some pid" "poll pid v = None"
      by (auto simp: is_node_running_def split: option.splits)
    then have "pid < length (procs w)" using assms(2) by (force simp: known_spawned_def dest: map_of_SomeD)
    with pid(2) t(2) have "running pid v" by (simp add: running_def only_time_def)
    with later_running [OF only_time_later [OF t(2)]] \<open>pid < length (procs w)\<close> have "running pid w" by blast
    with pid(1) show ?thesis by (simp add: is_node_running_def running_def)
  qed
  then obtain pid where pid: "map_of (processes c) old = Some pid" by (auto simp: is_node_running_def split: option.splits)
  have k: "known_spawned c u" using assms(2) t(1) by (simp add: known_spawned_def only_time_def)
  from stop_node_spec [OF k, of old graceful] pid obtain x where x: "stop_node old graceful c u = Some (Inr (), x)"
    "later u x" "\<not> running pid x" "length (procs x) = length (procs u)" by auto
  obtain q y where y: "wait_for_new_leader env old (now x + timeout) c x = (q, y)"
    by (cases "wait_for_new_leader env old (now x + timeout) c x")
  from assms(1) l x(1) y obtain new where q: "q = Inr new" "w' = y"
    and r: "old_leader r = old" "new_leader r = new" "recovery_time_ms r = now y - now u"
    by (cases q) (auto simp: trigger_leader_failure_def)
  note s = wait_for_new_leader_spec [OF y]
  have dead: "\<not> is_node_running c old z" if "only_time x z" for z
  proof -
    have "\<not> running pid z" using only_time_not_running [OF that x(3)] .
    moreover have "pid < length (procs z)"
      using k x(4) that map_of_SomeD [OF pid] by (force simp: known_spawned_def only_time_def)
    ultimately show ?thesis using pid by (simp add: is_node_running_def running_def)
  qed
  have time: "now w \<le> now u" "now u \<le> now x" "now x \<le> now y"
    using t(1) x(2) s by (simp_all add: only_time_def later_def)
  show ?thesis
  proof (cases new)
    case None
    with s q r run dead [of y] time show ?thesis by simp
  next
    case (Some i)
    with s q obtain z where "only_time x z" "only_time z y" "is_node_running c i z" by auto
    with Some s q r run dead [of y] dead [of z] time show ?thesis by auto
  qed
qed

subsection \<open>Properties\<close>

text \<open>C35: A failover takes the leadership away: the old leader was running, is stopped for good,
  and a new leader is another node of the cluster that ran after the stop; without one the
  simulator has waited for the whole recovery timeout.\<close>

theorem failover_moves_leadership:
  assumes "trigger_leader_failure env timeout graceful c w = Some (Inr r, w')" and "known_spawned c w"
  shows "is_node_running c (old_leader r) w \<and> \<not> is_node_running c (old_leader r) w' \<and>
    0 \<le> recovery_time_ms r \<and> recovery_time_ms r \<le> now w' - now w \<and>
    (case new_leader r of
       None \<Rightarrow> timeout \<le> recovery_time_ms r
     | Some i \<Rightarrow> i \<noteq> old_leader r \<and> i \<in> {0..node_count (config c) - 1} \<and>
         (\<exists>u. only_time u w' \<and> \<not> is_node_running c (old_leader r) u \<and> is_node_running c i u))"
  using assms by (rule failover_spec)

lemma demo_failover: "\<exists>r w'. trigger_leader_failure demo_env 0 True demo_cluster demo_world = Some (Inr r, w')"
proof -
  have l: "get_leader_replica demo_env demo_cluster demo_world = (Inr (Some 0), demo_world)"
    by (simp add: get_leader_replica_def is_node_running_def poll_def demo_defs)
  have "known_spawned demo_cluster demo_world" by (simp add: known_spawned_def demo_defs)
  from stop_node_spec [OF this, of 0 True] obtain x where x: "stop_node 0 True demo_cluster demo_world = Some (Inr (), x)"
    by (auto simp: demo_cluster_def)
  then show ?thesis by (simp add: trigger_leader_failure_def l wait_for_new_leader.simps)
qed

theorem failover_moves_leadership_witness:
  "\<exists>r w'. trigger_leader_failure demo_env 0 True demo_cluster demo_world = Some (Inr r, w') \<and>
     is_node_running demo_cluster (old_leader r) demo_world \<and> \<not> is_node_running demo_cluster (old_leader r) w'"
proof -
  obtain r w' where t: "trigger_leader_failure demo_env 0 True demo_cluster demo_world = Some (Inr r, w')"
    using demo_failover by blast
  have "known_spawned demo_cluster demo_world" by (simp add: known_spawned_def demo_defs)
  from failover_moves_leadership [OF t this] t show ?thesis by blast
qed

text \<open>A cluster of one node has nowhere to fail over to: no new leader is ever found, and the
  second of several failovers raises, which loses the results of the first.\<close>

theorem single_node_has_no_second_failover:
  assumes "node_count (config c) = 1" and "known_spawned c w"
    and "trigger_leader_failure env timeout graceful c w = Some (Inr r, w')"
  shows "new_leader r = None \<and>
    trigger_sequential_failovers env timeout 2 graceful restart c w = Some (Inl No_Leader, c, w')"
proof -
  have l: "get_leader_replica env c u = (Inr (if is_node_running c 0 u then Some 0 else None), u)" for u
    using assms(1) by (simp add: get_leader_replica_def)
  note s = failover_spec [OF assms(3,2)]
  have old: "old_leader r = 0"
    using assms(3) by (auto simp: trigger_leader_failure_def l split: if_splits sum.splits prod.splits)
      (metis old.unit.exhaust sum.exhaust)+
  with s assms(1) have none: "new_leader r = None" by (cases "new_leader r") auto
  from s old have "trigger_leader_failure env timeout graceful c w' = Some (Inl No_Leader, w')"
    by (simp add: trigger_leader_failure_def l)
  with none assms(3) show ?thesis by (simp add: trigger_sequential_failovers_def numeral_2_eq_2)
qed

theorem single_node_has_no_second_failover_witness:
  "\<exists>w'. trigger_sequential_failovers demo_env 0 2 True True demo_cluster demo_world = Some (Inl No_Leader, demo_cluster, w')"
proof -
  obtain r w' where t: "trigger_leader_failure demo_env 0 True demo_cluster demo_world = Some (Inr r, w')"
    using demo_failover by blast
  have "known_spawned demo_cluster demo_world" "node_count (config demo_cluster) = 1"
    by (simp_all add: known_spawned_def demo_defs)
  from single_node_has_no_second_failover [OF this(2,1) t] show ?thesis by blast
qed

text \<open>Running operations for a while ends when every operation takes time, after at most one
  operation per millisecond, and counts each of them, the successful ones apart.\<close>

theorem run_operations_returns:
  assumes "\<And>u. now u + 1 \<le> now (snd (operation u))"
  shows "\<exists>n k w'. run_operations_during_failover operation duration w = Some ((n, k), w') \<and> k \<le> n \<and>
    int n \<le> max 0 duration \<and> now w + duration \<le> now w'"
proof -
  have "\<exists>n k w'. run_operations operation deadline a s u = Some ((n, k), w') \<and> (s \<le> a \<longrightarrow> k \<le> n) \<and>
      int n \<le> int a + max 0 (deadline - now u) \<and> deadline \<le> now w'" for deadline a s u
  proof (induction "nat (deadline - now u)" arbitrary: a s u rule: less_induct)
    case less
    show ?case
    proof (cases "now u < deadline")
      case False
      then show ?thesis by (subst run_operations.simps) auto
    next
      case True
      obtain r v where v: "operation u = (r, v)" by (cases "operation u")
      let ?s = "if r = Some True then s + 1 else s"
      have v': "now u + 1 \<le> now v" using assms [of u] v by simp
      with True less [of v "a + 1" ?s] obtain n k w' where
        "run_operations operation deadline (a + 1) ?s v = Some ((n, k), w')" "?s \<le> a + 1 \<longrightarrow> k \<le> n"
        "int n \<le> int (a + 1) + max 0 (deadline - now v)" "deadline \<le> now w'" by auto
      with True v v' show ?thesis by (subst run_operations.simps) auto
    qed
  qed
  from this [of "now w + duration" 0 0 w] show ?thesis by (simp add: run_operations_during_failover_def)
qed

theorem run_operations_returns_witness:
  "\<exists>n k w'. run_operations_during_failover (\<lambda>u. (None, sleep 7 u)) 20 demo_world = Some ((n, k), w') \<and> n \<le> 20"
  using run_operations_returns [of "\<lambda>u. (None, sleep 7 u)" 20 demo_world] by force

end
