(* ===== verification/Partition.thy ===== *)
theory Partition
  imports Prelude
begin

section \<open>Network partitions\<close>

text \<open>
  \<open>NetworkPartitioner\<close> of \<open>test_infrastructure/topology/partition.py\<close>.  The state is the
  \<open>INPUT\<close> chain of the kernel, whose rules are the partitioner's DROP rules and rules of
  others, and the list the object keeps.  Whether a command succeeds is a function of how
  many were run; one that fails raises \<open>CalledProcessError\<close>.
\<close>

datatype chain_rule = Drop int int | Foreign nat

record firewall =
  input_chain :: "chain_rule list"
  commands_run :: nat

record partitioner =
  pt_ports :: "int list"
  active_rules :: "(int \<times> int) list"

datatype partition_exn = Called_Process_Error | Index_Error

definition new_partitioner :: "int list \<Rightarrow> partitioner" where
  "new_partitioner ports = \<lparr>pt_ports = ports, active_rules = []\<rparr>"

definition block_port_pair ::
    "(nat \<Rightarrow> bool) \<Rightarrow> int \<Rightarrow> int \<Rightarrow> partitioner \<times> firewall \<Rightarrow> (partition_exn, unit) result \<times> partitioner \<times> firewall" where
  "block_port_pair succeeds from_port to_port s =
     (case s of (p, f) \<Rightarrow>
        if succeeds (commands_run f)
        then (Inr (), p\<lparr>active_rules := active_rules p @ [(from_port, to_port)]\<rparr>,
              f\<lparr>input_chain := input_chain f @ [Drop from_port to_port], commands_run := commands_run f + 1\<rparr>)
        else (Inl Called_Process_Error, p, f\<lparr>commands_run := commands_run f + 1\<rparr>))"

text \<open>\<open>self.ports[i]\<close>, with Python's negative indices.\<close>

definition port_index :: "int list \<Rightarrow> int \<Rightarrow> (partition_exn, int) result" where
  "port_index ports i =
     (if 0 \<le> i \<and> i < int (length ports) then Inr (ports ! nat i)
      else if - int (length ports) \<le> i \<and> i < 0 then Inr (ports ! nat (int (length ports) + i))
      else Inl Index_Error)"

fun block_pairs ::
    "(nat \<Rightarrow> bool) \<Rightarrow> (int \<times> int) list \<Rightarrow> partitioner \<times> firewall \<Rightarrow>
     (partition_exn, unit) result \<times> partitioner \<times> firewall" where
  "block_pairs succeeds [] s = (Inr (), s)"
| "block_pairs succeeds ((m, j) # rest) s =
     (case bindE (port_index (pt_ports (fst s)) m) (\<lambda>a. bindE (port_index (pt_ports (fst s)) j) (\<lambda>b. Inr (a, b))) of
        Inl e \<Rightarrow> (Inl e, s)
      | Inr (a, b) \<Rightarrow>
          (case block_port_pair succeeds a b s of
             (Inl e, s) \<Rightarrow> (Inl e, s)
           | (Inr u, s) \<Rightarrow> block_pairs succeeds rest s))"

text \<open>Minority to majority, in the order of the nested loops, then the other direction.\<close>

definition partition_nodes ::
    "(nat \<Rightarrow> bool) \<Rightarrow> int list \<Rightarrow> int list \<Rightarrow> partitioner \<times> firewall \<Rightarrow>
     (partition_exn, unit) result \<times> partitioner \<times> firewall" where
  "partition_nodes succeeds minority majority s =
     block_pairs succeeds (List.product minority majority @ List.product majority minority) s"

definition heal ::
    "(nat \<Rightarrow> bool) \<Rightarrow> partitioner \<times> firewall \<Rightarrow> (partition_exn, unit) result \<times> partitioner \<times> firewall" where
  "heal succeeds s =
     (case s of (p, f) \<Rightarrow>
        if active_rules p = [] then (Inr (), p, f)
        else if succeeds (commands_run f)
        then (Inr (), p\<lparr>active_rules := []\<rparr>, f\<lparr>input_chain := [], commands_run := commands_run f + 1\<rparr>)
        else (Inl Called_Process_Error, p, f\<lparr>commands_run := commands_run f + 1\<rparr>))"

datatype probe_outcome = Exit_Code int | Probe_Timeout | Not_Found

definition is_available :: "string option \<Rightarrow> probe_outcome \<Rightarrow> bool" where
  "is_available skip probe =
     (if skip = Some ''1'' then False
      else case probe of Exit_Code n \<Rightarrow> n = 0 | Probe_Timeout \<Rightarrow> False | Not_Found \<Rightarrow> False)"

subsection \<open>What is blocked\<close>

text \<open>A packet is dropped by a rule that names its source and its destination port.\<close>

definition drops :: "firewall \<Rightarrow> int \<Rightarrow> int \<Rightarrow> bool" where
  "drops f source destination \<longleftrightarrow> Drop source destination \<in> set (input_chain f)"

definition drop_rules :: "(int \<times> int) list \<Rightarrow> chain_rule list" where
  "drop_rules rules = map (\<lambda>(a, b). Drop a b) rules"

text \<open>The object knows its rules: the chain is what was there and then they.\<close>

definition tracks :: "chain_rule list \<Rightarrow> partitioner \<times> firewall \<Rightarrow> bool" where
  "tracks base s \<longleftrightarrow> input_chain (snd s) = base @ drop_rules (active_rules (fst s))"

lemma block_pairs_tracks:
  "block_pairs succeeds pairs s = (r, s') \<Longrightarrow> tracks base s \<Longrightarrow> tracks base s' \<and> pt_ports (fst s') = pt_ports (fst s)"
proof (induction pairs arbitrary: s)
  case (Cons pair pairs)
  obtain m j where pair: "pair = (m, j)" by (cases pair)
  obtain p f where s: "s = (p, f)" by (cases s)
  show ?case
  proof (cases "bindE (port_index (pt_ports p) m) (\<lambda>a. bindE (port_index (pt_ports p) j) (\<lambda>b. Inr (a, b)))")
    case (Inl e)
    with Cons.prems pair s show ?thesis by auto
  next
    case (Inr ab)
    obtain a b where ab: "ab = (a, b)" by (cases ab)
    show ?thesis
    proof (cases "succeeds (commands_run f)")
      case False
      with Cons.prems pair s Inr ab show ?thesis by (auto simp: block_port_pair_def tracks_def)
    next
      case True
      let ?s = "(p\<lparr>active_rules := active_rules p @ [(a, b)]\<rparr>,
        f\<lparr>input_chain := input_chain f @ [Drop a b], commands_run := commands_run f + 1\<rparr>)"
      have "block_pairs succeeds pairs ?s = (r, s')"
        using Cons.prems(1) pair s Inr ab True by (simp add: block_port_pair_def)
      moreover have "tracks base ?s" using Cons.prems(2) s by (simp add: tracks_def drop_rules_def)
      ultimately show ?thesis using Cons.IH [of ?s] s by simp
    qed
  qed
qed simp

lemma block_pairs_rules:
  assumes "\<forall>(m, j)\<in>set pairs. 0 \<le> m \<and> m < int (length (pt_ports (fst s))) \<and> 0 \<le> j \<and> j < int (length (pt_ports (fst s)))"
    and "block_pairs succeeds pairs s = (Inr (), s')"
  shows "active_rules (fst s') =
    active_rules (fst s) @ map (\<lambda>(m, j). (pt_ports (fst s) ! nat m, pt_ports (fst s) ! nat j)) pairs"
  using assms
proof (induction pairs arbitrary: s)
  case (Cons pair pairs)
  obtain m j where pair: "pair = (m, j)" by (cases pair)
  obtain p f where s: "s = (p, f)" by (cases s)
  let ?a = "pt_ports p ! nat m" and ?b = "pt_ports p ! nat j"
  have ix: "port_index (pt_ports p) m = Inr ?a" "port_index (pt_ports p) j = Inr ?b"
    using Cons.prems(1) pair s by (simp_all add: port_index_def)
  have ok: "succeeds (commands_run f)"
    using Cons.prems(2) pair s ix by (auto simp: block_port_pair_def split: if_splits)
  let ?s = "(p\<lparr>active_rules := active_rules p @ [(?a, ?b)]\<rparr>,
    f\<lparr>input_chain := input_chain f @ [Drop ?a ?b], commands_run := commands_run f + 1\<rparr>)"
  have "block_pairs succeeds pairs ?s = (Inr (), s')"
    using Cons.prems(2) pair s ix ok by (simp add: block_port_pair_def)
  from Cons.IH [OF _ this] Cons.prems(1) pair s show ?case by simp
qed simp

lemma Drop_in_drop_rules [simp]: "Drop a b \<in> set (drop_rules rules) \<longleftrightarrow> (a, b) \<in> set rules"
  by (force simp: drop_rules_def)

subsection \<open>Properties\<close>

text \<open>A partition drops exactly the packets between the data ports of the two groups, in both
  directions: nothing inside a group, and nothing whose source port is not a data port, as
  that of every connection a node opens.\<close>

theorem partition_blocks_port_pairs:
  assumes "\<forall>i\<in>set minority \<union> set majority. 0 \<le> i \<and> i < int (length ports)"
    and "partition_nodes succeeds minority majority (new_partitioner ports, f) = (Inr (), p, f')"
    and "\<forall>a b. \<not> drops f a b"
  shows "(drops f' a b \<longleftrightarrow>
    (\<exists>m\<in>set minority. \<exists>j\<in>set majority.
       (a = ports ! nat m \<and> b = ports ! nat j) \<or> (a = ports ! nat j \<and> b = ports ! nat m))) \<and>
    (a \<notin> set ports \<longrightarrow> \<not> drops f' a b)"
proof -
  let ?s = "(new_partitioner ports, f)"
  let ?pairs = "List.product minority majority @ List.product majority minority"
  have s: "block_pairs succeeds ?pairs ?s = (Inr (), p, f')" using assms(2) by (simp add: partition_nodes_def)
  have "tracks (input_chain f) ?s" by (simp add: tracks_def drop_rules_def new_partitioner_def)
  from block_pairs_tracks [OF s this] have "input_chain f' = input_chain f @ drop_rules (active_rules p)" by (simp add: tracks_def)
  moreover have "active_rules p = map (\<lambda>(m, j). (ports ! nat m, ports ! nat j)) ?pairs"
    using block_pairs_rules [OF _ s] assms(1) by (auto simp: new_partitioner_def)
  ultimately have d: "drops f' a b \<longleftrightarrow> (a, b) \<in> (\<lambda>(m, j). (ports ! nat m, ports ! nat j)) ` set ?pairs"
    using assms(3) by (simp add: drops_def image_Un)
  moreover have "ports ! nat i \<in> set ports" if "i \<in> set minority \<union> set majority" for i
    using bspec [OF assms(1) that] by (intro nth_mem) linarith
  ultimately show ?thesis by auto
qed

definition open_firewall :: firewall where
  "open_firewall = \<lparr>input_chain = [Foreign 7], commands_run = 0\<rparr>"

theorem partition_blocks_port_pairs_witness:
  "\<exists>p f'. partition_nodes (\<lambda>n. True) [0] [1] (new_partitioner [3100, 3101], open_firewall) = (Inr (), p, f') \<and>
     drops f' 3100 3101 \<and> \<not> drops f' 50000 3101"
proof -
  obtain p f' where s: "partition_nodes (\<lambda>n. True) [0] [1] (new_partitioner [3100, 3101], open_firewall) = (Inr (), p, f')"
    by (simp add: partition_nodes_def port_index_def new_partitioner_def block_port_pair_def)
  have o: "\<forall>a b. \<not> drops open_firewall a b" by (simp add: drops_def open_firewall_def)
  have "drops f' 3100 3101"
    using partition_blocks_port_pairs [OF _ s o, of 3100 3101] by simp
  moreover have "\<not> drops f' 50000 3101"
    using partition_blocks_port_pairs [OF _ s o, of 50000 3101] by simp
  ultimately show ?thesis using s by blast
qed

text \<open>However a partition ends, also after a failed command, healing removes every rule of
  the partitioner; but it flushes the chain, so that rules of others go as well.\<close>

theorem heal_flushes_the_chain:
  assumes "partition_nodes succeeds minority majority (new_partitioner ports, f) = (r, p, f')"
    and "heal succeeds (p, f') = (Inr (), p', f'')"
  shows "active_rules p' = [] \<and> input_chain f'' = (if active_rules p = [] then input_chain f else [])"
proof -
  have "tracks (input_chain f) (new_partitioner ports, f)" by (simp add: tracks_def drop_rules_def new_partitioner_def)
  from block_pairs_tracks [OF assms(1) [unfolded partition_nodes_def] this]
  have "input_chain f' = input_chain f @ drop_rules (active_rules p)" by (simp add: tracks_def)
  with assms(2) show ?thesis by (auto simp: heal_def drop_rules_def split: if_splits)
qed

theorem heal_flushes_the_chain_witness:
  "\<exists>p f' p' f''. partition_nodes (\<lambda>n. n \<noteq> 1) [0] [1] (new_partitioner [3100, 3101], open_firewall) =
       (Inl Called_Process_Error, p, f') \<and> active_rules p = [(3100, 3101)] \<and>
     heal (\<lambda>n. n \<noteq> 1) (p, f') = (Inr (), p', f'') \<and> input_chain f'' = []"
proof -
  obtain p f' where s: "partition_nodes (\<lambda>n. n \<noteq> 1) [0] [1] (new_partitioner [3100, 3101], open_firewall) =
      (Inl Called_Process_Error, p, f')" and a: "active_rules p = [(3100, 3101)]" and n: "commands_run f' = 2"
    by (simp add: partition_nodes_def port_index_def new_partitioner_def block_port_pair_def open_firewall_def)
  then obtain p' f'' where h: "heal (\<lambda>n. n \<noteq> 1) (p, f') = (Inr (), p', f'')" by (simp add: heal_def)
  from heal_flushes_the_chain [OF s h] a s h show ?thesis by auto
qed

end
