(* ===== verification/Topology_Runner.thy ===== *)
theory Topology_Runner
  imports Cluster_Safety Py_Json
begin

section \<open>The topology test runner\<close>

text \<open>
  \<open>test_infrastructure/topology/runner.py\<close>: every operation over every SDK on a cluster of
  each size, going on after failures, and the summary of the results.  A dict is the list of
  its items in the order of their insertion.  The fixture files, the SDK runners of the test
  suite and where the binary is looked for are parameters; an error is recorded as the exception
  where the code records its text, and the wall-clock texts are left out except for
  whether \<open>end_time\<close> is there.
\<close>

datatype runner_exn =
    Cluster_Error cluster_exn
  | Fixture_Missing string
  | Unknown_SDK string
  | Test_Error string

record sdk_env =
  se_fixture :: "string \<Rightarrow> (runner_exn, (string \<times> json) list) result option"
  se_run :: "string \<Rightarrow> int \<Rightarrow> string \<Rightarrow> json \<Rightarrow> world \<Rightarrow> (runner_exn, json) result \<times> world"
  se_binary :: "string option"
  se_ancestors :: "path list"
  se_preserve :: "string option"

definition TOPOLOGIES :: "int list" where
  "TOPOLOGIES = [1, 3, 5, 6]"

definition OPERATIONS :: "string list" where
  "OPERATIONS =
     [''insert'', ''upsert'', ''delete'', ''query-uuid'', ''query-uuid-batch'', ''query-radius'', ''query-polygon'',
      ''query-latest'', ''ping'', ''status'', ''topology'', ''ttl-set'', ''ttl-extend'', ''ttl-clear'']"

definition SDKS :: "string list" where
  "SDKS = [''python'', ''node'', ''go'', ''java'', ''c'']"

subsection \<open>One operation over one SDK\<close>

definition get_sdk_runner :: "string \<Rightarrow> (runner_exn, string) result" where
  "get_sdk_runner sdk = (if sdk \<in> set SDKS then Inr sdk else Inl (Unknown_SDK sdk))"

definition has_error :: "json \<Rightarrow> bool" where
  "has_error result = (case result of JObj d \<Rightarrow> json_bool (json_get d ''error'' JNull) | _ \<Rightarrow> False)"

definition run_operation_test :: "sdk_env \<Rightarrow> int \<Rightarrow> string \<Rightarrow> string \<Rightarrow> world \<Rightarrow> (runner_exn, bool) result \<times> world" where
  "run_operation_test se port sdk operation w =
     (case se_fixture se operation of
        None \<Rightarrow> (Inl (Fixture_Missing operation), w)
      | Some (Inl e) \<Rightarrow> (Inl e, w)
      | Some (Inr fixture) \<Rightarrow>
          (case get_sdk_runner sdk of
             Inl e \<Rightarrow> (Inl e, w)
           | Inr runner \<Rightarrow>
               (case se_run se runner port operation (json_get fixture ''input'' (JObj [])) w of
                  (Inl e, w) \<Rightarrow> (Inl e, w)
                | (Inr result, w) \<Rightarrow> (Inr (\<not> has_error result), w))))"

subsection \<open>One topology\<close>

record sdk_result =
  sr_passed :: bool
  sr_error :: "runner_exn option"

datatype suite_error =
    No_Leader_Elected int
  | Operation_Failed string string runner_exn
  | Suite_Failed int runner_exn

record topology_results =
  tr_topology :: int
  tr_operations :: "(string \<times> (string \<times> sdk_result) list) list"
  tr_errors :: "suite_error list"
  tr_ended :: bool

text \<open>The two loops: an exception of a test is a failed test and a recorded error.\<close>

fun run_sdks ::
    "sdk_env \<Rightarrow> int \<Rightarrow> string \<Rightarrow> string list \<Rightarrow> (string \<times> sdk_result) list \<Rightarrow> suite_error list \<Rightarrow> world \<Rightarrow>
     (string \<times> sdk_result) list \<times> suite_error list \<times> world" where
  "run_sdks se port operation [] results errors w = (results, errors, w)"
| "run_sdks se port operation (sdk # sdks) results errors w =
     (case run_operation_test se port sdk operation w of
        (Inr success, w) \<Rightarrow>
          run_sdks se port operation sdks (AList.update sdk \<lparr>sr_passed = success, sr_error = None\<rparr> results) errors w
      | (Inl e, w) \<Rightarrow>
          run_sdks se port operation sdks (AList.update sdk \<lparr>sr_passed = False, sr_error = Some e\<rparr> results)
            (errors @ [Operation_Failed sdk operation e]) w)"

fun run_operations_over ::
    "sdk_env \<Rightarrow> int \<Rightarrow> string list \<Rightarrow> string list \<Rightarrow> (string \<times> (string \<times> sdk_result) list) list \<Rightarrow> suite_error list \<Rightarrow>
     world \<Rightarrow> (string \<times> (string \<times> sdk_result) list) list \<times> suite_error list \<times> world" where
  "run_operations_over se port sdks [] operations errors w = (operations, errors, w)"
| "run_operations_over se port sdks (op # ops) operations errors w =
     (case run_sdks se port op sdks [] errors w of
        (results, errors, w) \<Rightarrow> run_operations_over se port sdks ops (AList.update op results operations) errors w)"

text \<open>The body of the \<open>with\<close> block: an exception, a \<open>return\<close> before the tests, or their results.
  The answer of \<open>wait_for_ready\<close> is not looked at.\<close>

datatype suite_outcome =
    Suite_Raised cluster_exn
  | Suite_Returned suite_error
  | Suite_Done "(string \<times> (string \<times> sdk_result) list) list" "suite_error list"

definition suite_body :: "env \<Rightarrow> sdk_env \<Rightarrow> int \<Rightarrow> string list \<Rightarrow> cluster \<Rightarrow> world \<Rightarrow> suite_outcome \<times> cluster \<times> world" where
  "suite_body env se topology sdks c w =
     (case wait_for_ready env None c w of
        (Inl e, c, w) \<Rightarrow> (Suite_Raised e, c, w)
      | (Inr ready, c, w) \<Rightarrow>
          (case wait_for_leader env None c w of
             (Inl e, w) \<Rightarrow> (Suite_Raised e, c, w)
           | (Inr None, w) \<Rightarrow> (Suite_Returned (No_Leader_Elected topology), c, w)
           | (Inr (Some port), w) \<Rightarrow>
               (case run_operations_over se port sdks OPERATIONS [] [] w of
                  (operations, errors, w) \<Rightarrow> (Suite_Done operations errors, c, w))))"

definition suite_config :: "sdk_env \<Rightarrow> int \<Rightarrow> cluster_config" where
  "suite_config se topology = (default_cluster_config (se_preserve se))\<lparr>node_count := topology\<rparr>"

definition suite_results :: "int \<Rightarrow> suite_outcome \<Rightarrow> topology_results" where
  "suite_results topology out =
     (case out of
        Suite_Raised e \<Rightarrow>
          \<lparr>tr_topology = topology, tr_operations = [], tr_errors = [Suite_Failed topology (Cluster_Error e)], tr_ended = True\<rparr>
      | Suite_Returned e \<Rightarrow> \<lparr>tr_topology = topology, tr_operations = [], tr_errors = [e], tr_ended = False\<rparr>
      | Suite_Done operations errors \<Rightarrow>
          \<lparr>tr_topology = topology, tr_operations = operations, tr_errors = errors, tr_ended = True\<rparr>)"

text \<open>\<open>run_topology_suite\<close>: when the constructor or \<open>start\<close> raises there is nothing to leave;
  the block is left through \<open>__exit__\<close> otherwise.  \<open>None\<close> would be a stop that never returns.\<close>

definition run_topology_suite ::
    "env \<Rightarrow> sdk_env \<Rightarrow> int \<Rightarrow> string list option \<Rightarrow> world \<Rightarrow> (topology_results \<times> world) option" where
  "run_topology_suite env se topology chosen w =
     (let sdks = (case chosen of None \<Rightarrow> SDKS | Some sdks \<Rightarrow> sdks) in
      case new_cluster (suite_config se topology) (se_binary se) (se_ancestors se) (files w) of
        Inl e \<Rightarrow> Some (suite_results topology (Suite_Raised e), w)
      | Inr c \<Rightarrow>
          Option.bind (cluster_start env c w) (\<lambda>(r, c, w).
            case r of
              Inl e \<Rightarrow> Some (suite_results topology (Suite_Raised e), w)
            | Inr u \<Rightarrow>
                (case suite_body env se topology sdks c w of
                   (out, c, w) \<Rightarrow>
                     map_option (\<lambda>(c, w). (suite_results topology out, w))
                       (cluster_exit (case out of Suite_Raised e \<Rightarrow> True | _ \<Rightarrow> False) c w))))"

text \<open>\<open>run_full_suite\<close>: the topologies one after the other; nothing of a suite escapes as an
  exception, so its handler is never reached.\<close>

fun run_suites :: "env \<Rightarrow> sdk_env \<Rightarrow> int list \<Rightarrow> world \<Rightarrow> ((string \<times> topology_results) list \<times> world) option" where
  "run_suites env se [] w = Some ([], w)"
| "run_suites env se (t # ts) w =
     Option.bind (run_topology_suite env se t None w) (\<lambda>(r, w).
       map_option (\<lambda>(rs, w). ((show_int t, r) # rs, w)) (run_suites env se ts w))"

definition run_full_suite :: "env \<Rightarrow> sdk_env \<Rightarrow> world \<Rightarrow> ((string \<times> topology_results) list \<times> world) option" where
  "run_full_suite env se w = run_suites env se TOPOLOGIES w"

subsection \<open>The summary\<close>

record tally =
  passed :: nat
  failed_tests :: nat

definition no_tests :: tally where
  "no_tests = \<lparr>passed = 0, failed_tests = 0\<rparr>"

definition tally_add :: "bool \<Rightarrow> tally \<Rightarrow> tally" where
  "tally_add ok t = (if ok then t\<lparr>passed := passed t + 1\<rparr> else t\<lparr>failed_tests := failed_tests t + 1\<rparr>)"

definition tally_in :: "string \<Rightarrow> bool \<Rightarrow> (string \<times> tally) list \<Rightarrow> (string \<times> tally) list" where
  "tally_in k ok d = AList.update k (tally_add ok (case map_of d k of None \<Rightarrow> no_tests | Some t \<Rightarrow> t)) d"

text \<open>The results of a topology as they are read back: \<open>run_full_suite\<close> puts an \<open>error\<close> key into
  them only where it caught an exception.\<close>

datatype topology_entry = Entry_Error runner_exn | Entry_Results topology_results

datatype topology_summary = Summary_Error runner_exn | Summary_Tally tally

record summary =
  sm_tests :: nat
  sm_passed :: nat
  sm_failed :: nat
  sm_by_topology :: "(string \<times> topology_summary) list"
  sm_by_sdk :: "(string \<times> tally) list"
  sm_by_operation :: "(string \<times> tally) list"

definition count_test :: "string \<Rightarrow> string \<Rightarrow> bool \<Rightarrow> tally \<times> summary \<Rightarrow> tally \<times> summary" where
  "count_test op sdk ok s =
     (case s of (t, sm) \<Rightarrow>
        (tally_add ok t,
         sm\<lparr>sm_tests := sm_tests sm + 1, sm_passed := sm_passed sm + (if ok then 1 else 0),
            sm_failed := sm_failed sm + (if ok then 0 else 1),
            sm_by_sdk := tally_in sdk ok (sm_by_sdk sm), sm_by_operation := tally_in op ok (sm_by_operation sm)\<rparr>))"

definition count_operation :: "string \<times> (string \<times> sdk_result) list \<Rightarrow> tally \<times> summary \<Rightarrow> tally \<times> summary" where
  "count_operation entry s =
     (case entry of (op, results) \<Rightarrow> fold (\<lambda>(sdk, r). count_test op sdk (sr_passed r)) results s)"

definition count_topology :: "string \<times> topology_entry \<Rightarrow> summary \<Rightarrow> summary" where
  "count_topology entry sm =
     (case entry of
        (topo, Entry_Error e) \<Rightarrow> sm\<lparr>sm_by_topology := AList.update topo (Summary_Error e) (sm_by_topology sm)\<rparr>
      | (topo, Entry_Results r) \<Rightarrow>
          (case fold count_operation (tr_operations r) (no_tests, sm) of
             (t, sm) \<Rightarrow> sm\<lparr>sm_by_topology := AList.update topo (Summary_Tally t) (sm_by_topology sm)\<rparr>))"

definition generate_summary :: "(string \<times> topology_entry) list \<Rightarrow> summary" where
  "generate_summary topologies =
     fold count_topology topologies
       \<lparr>sm_tests = 0, sm_passed = 0, sm_failed = 0, sm_by_topology = [], sm_by_sdk = [], sm_by_operation = []\<rparr>"

subsection \<open>What a run leaves behind\<close>

text \<open>A call of an SDK runner takes time, and nothing else of what the harness looks at.\<close>

definition sdks_take_time :: "sdk_env \<Rightarrow> bool" where
  "sdks_take_time se \<longleftrightarrow> (\<forall>sdk port op input w. only_time w (snd (se_run se sdk port op input w)))"

lemma operation_test_only_time:
  assumes "sdks_take_time se" and "run_operation_test se port sdk op w = (r, w')"
  shows "only_time w w'"
proof -
  have "only_time w u" if "se_run se runner port op input w = (q, u)" for runner input q u
    using assms(1) that unfolding sdks_take_time_def by (metis snd_conv)
  with assms(2) show ?thesis
    by (auto simp: run_operation_test_def split: option.splits sum.splits prod.splits)
qed

lemma run_sdks_only_time:
  assumes "sdks_take_time se" and "run_sdks se port op sdks results errors w = (rs, es, w')"
  shows "only_time w w'"
  using assms(2)
proof (induction sdks arbitrary: results errors w)
  case Nil
  then show ?case by simp
next
  case (Cons sdk sdks)
  obtain r u where r: "run_operation_test se port sdk op w = (r, u)" by fastforce
  have "only_time u w'" using Cons.IH Cons.prems r by (cases r) auto
  with operation_test_only_time [OF assms(1) r] show ?case by (rule only_time_trans)
qed

lemma run_operations_over_only_time:
  assumes "sdks_take_time se" and "run_operations_over se port sdks ops rs0 es0 w = (rs, es, w')"
  shows "only_time w w'"
  using assms(2)
proof (induction ops arbitrary: rs0 es0 w)
  case Nil
  then show ?case by simp
next
  case (Cons op ops)
  obtain r e u where r: "run_sdks se port op sdks [] es0 w = (r, e, u)" by (metis prod_cases3)
  have "only_time u w'" using Cons.IH Cons.prems r by simp
  with run_sdks_only_time [OF assms(1) r] show ?case by (rule only_time_trans)
qed

lemma suite_body_time:
  assumes "sdks_take_time se" and "suite_body env se topology sdks c w = (out, c', w')"
  shows "only_time w w' \<and> processes c' = processes c \<and> same_setup c c'"
proof -
  obtain r c1 w1 where r: "wait_for_ready env None c w = (r, c1, w1)" by (metis prod_cases3)
  note one = wait_for_ready_time [OF r]
  show ?thesis
  proof (cases r)
    case (Inl e)
    with assms(2) r one show ?thesis by (simp add: suite_body_def)
  next
    case (Inr b)
    obtain l w2 where l: "wait_for_leader env None c1 w1 = (l, w2)" by fastforce
    have two: "only_time w w2" using one wait_for_leader_only_time [OF l] only_time_trans by blast
    show ?thesis
    proof (cases "\<exists>port. l = Inr (Some port)")
      case False
      with assms(2) r Inr l one two show ?thesis by (auto simp: suite_body_def split: sum.splits option.splits)
    next
      case True
      then obtain port where port: "l = Inr (Some port)" by blast
      obtain rs es w3 where o: "run_operations_over se port sdks OPERATIONS [] [] w2 = (rs, es, w3)" by (metis prod_cases3)
      have "only_time w w3" using two run_operations_over_only_time [OF assms(1) o] by (rule only_time_trans)
      with assms(2) r Inr l port o one show ?thesis by (simp add: suite_body_def)
    qed
  qed
qed

lemma tidy_exit:
  assumes "tidy old (c, w)"
  shows "\<exists>c' w'. cluster_exit raised c w = Some (c', w') \<and> (\<forall>pid. running pid w' \<longrightarrow> pid \<in> old)"
proof -
  have "careful (Op_Exit raised) (c, w)" by (simp add: careful_def)
  from cluster_step_tidy [OF assms this, of undefined] obtain c' w' where
    e: "cluster_exit raised c w = Some (c', w')" "tidy old (c', w')" by (auto simp: cluster_step_def)
  let ?c = "if raised then c\<lparr>failed := True\<rparr> else c"
  have "known_spawned ?c w" using assms by (simp add: tidy_def accounted_def known_spawned_def)
  from cluster_stop_spec [OF this] e(1) have "processes c' = []" by (auto simp: cluster_exit_def)
  with e show ?thesis by (auto simp: tidy_def accounted_def)
qed

lemma run_topology_suite_returns:
  assumes "sdks_take_time se"
  shows "\<exists>r w'. run_topology_suite env se topology chosen w = Some (r, w') \<and> tr_topology r = topology \<and>
    running_pids w' \<subseteq> running_pids w"
proof (cases "new_cluster (suite_config se topology) (se_binary se) (se_ancestors se) (files w)")
  case (Inl e)
  then show ?thesis by (simp add: run_topology_suite_def suite_results_def)
next
  case (Inr c)
  let ?old = "running_pids w"
  have "processes c = []" "\<not> started c" using Inr by (auto simp: new_cluster_def bindE_split_Inr split: if_splits)
  then have t: "accounted ?old c w" "\<not> started c \<longrightarrow> processes c = []" "\<not> started c"
    by (simp_all add: accounted_def known_spawned_def running_pids_def)
  from cluster_start_spec [OF t(1,2), of env] t(3) obtain r c1 w1 where
    s: "cluster_start env c w = Some (r, c1, w1)" "accounted ?old c1 w1" "\<not> started c1 \<longrightarrow> processes c1 = []"
      "started c1 \<longleftrightarrow> r = Inr ()" by blast
  show ?thesis
  proof (cases r)
    case e: (Inl e)
    with s have "\<forall>pid. running pid w1 \<longrightarrow> pid \<in> ?old" by (simp add: accounted_def)
    with Inr s(1) e show ?thesis
      by (auto simp: run_topology_suite_def Let_def suite_results_def running_pids_def)
  next
    case u: (Inr u)
    let ?sdks = "case chosen of None \<Rightarrow> SDKS | Some sdks \<Rightarrow> sdks"
    obtain out c2 w2 where b: "suite_body env se topology ?sdks c1 w1 = (out, c2, w2)" by (metis prod_cases3)
    note body = suite_body_time [OF assms b]
    have "accounted ?old c2 w2" using accounted_later [OF s(2), of w2 c2] body
      by (auto simp: only_time_later only_time_def)
    then have "tidy ?old (c2, w2)" using body s(3) by (simp add: tidy_def same_setup_def)
    from tidy_exit [OF this] obtain c3 w3 where
      x: "cluster_exit (case out of Suite_Raised e \<Rightarrow> True | _ \<Rightarrow> False) c2 w2 = Some (c3, w3)"
        "\<forall>pid. running pid w3 \<longrightarrow> pid \<in> ?old" by blast
    have "run_topology_suite env se topology chosen w = Some (suite_results topology out, w3)"
      using Inr s(1) u b x(1) by (simp add: run_topology_suite_def Let_def)
    moreover have "tr_topology (suite_results topology out) = topology"
      by (simp add: suite_results_def split: suite_outcome.split)
    ultimately show ?thesis using x(2) by (auto simp: running_pids_def)
  qed
qed

lemma run_suites_returns:
  assumes "sdks_take_time se"
  shows "\<exists>rs w'. run_suites env se ts w = Some (rs, w') \<and> map fst rs = map show_int ts \<and>
    map (tr_topology \<circ> snd) rs = ts \<and> running_pids w' \<subseteq> running_pids w"
proof (induction ts arbitrary: w)
  case Nil
  show ?case by simp
next
  case (Cons t ts)
  from run_topology_suite_returns [OF assms, of env t None w] obtain r w1 where
    r: "run_topology_suite env se t None w = Some (r, w1)" "tr_topology r = t" "running_pids w1 \<subseteq> running_pids w"
    by blast
  from Cons.IH [of w1] obtain rs w2 where
    "run_suites env se ts w1 = Some (rs, w2)" "map fst rs = map show_int ts" "map (tr_topology \<circ> snd) rs = ts"
    "running_pids w2 \<subseteq> running_pids w1" by blast
  with r show ?case by auto
qed

subsection \<open>What a run tests\<close>

definition failures :: "string \<Rightarrow> (string \<times> sdk_result) list \<Rightarrow> suite_error list" where
  "failures op results =
     List.map_filter (\<lambda>(sdk, r). map_option (Operation_Failed sdk op) (sr_error r)) results"

lemma failures_simps [simp]:
  "failures op [] = []"
  "failures op ((sdk, r) # rs) = (case sr_error r of None \<Rightarrow> [] | Some e \<Rightarrow> [Operation_Failed sdk op e]) @ failures op rs"
  by (simp_all add: failures_def map_filter_simps split: option.split)

lemma run_sdks_spec:
  assumes "run_sdks se port op sdks results errors w = (rs, es, w')"
    and "distinct sdks" and "set sdks \<inter> fst ` set results = {}"
  shows "\<exists>new. rs = results @ new \<and> map fst new = sdks \<and> es = errors @ failures op new \<and>
    (\<forall>(sdk, r) \<in> set new. sr_passed r \<longrightarrow> sr_error r = None)"
  using assms
proof (induction sdks arbitrary: results errors w)
  case Nil
  then show ?case by simp
next
  case (Cons sdk sdks)
  obtain q u where q: "run_operation_test se port sdk op w = (q, u)" by fastforce
  define r where "r = (case q of Inr ok \<Rightarrow> \<lparr>sr_passed = ok, sr_error = None\<rparr> | Inl e \<Rightarrow> \<lparr>sr_passed = False, sr_error = Some e\<rparr>)"
  have "run_sdks se port op sdks (results @ [(sdk, r)]) (errors @ failures op [(sdk, r)]) u = (rs, es, w')"
    using Cons.prems q by (cases q) (simp_all add: r_def update_new_key)
  from Cons.IH [OF this] Cons.prems obtain new where
    "rs = (results @ [(sdk, r)]) @ new" "map fst new = sdks" "es = (errors @ failures op [(sdk, r)]) @ failures op new"
    "\<forall>(sdk, r) \<in> set new. sr_passed r \<longrightarrow> sr_error r = None" by auto
  moreover have "sr_passed r \<longrightarrow> sr_error r = None" by (simp add: r_def split: sum.split)
  ultimately show ?case by (intro exI [of _ "(sdk, r) # new"]) auto
qed

definition all_failures :: "(string \<times> (string \<times> sdk_result) list) list \<Rightarrow> suite_error list" where
  "all_failures operations = concat (map (\<lambda>(op, rs). failures op rs) operations)"

lemma run_operations_over_spec:
  assumes "run_operations_over se port sdks ops operations errors w = (rs, es, w')"
    and "distinct ops" and "distinct sdks" and "set ops \<inter> fst ` set operations = {}"
  shows "\<exists>new. rs = operations @ new \<and> map fst new = ops \<and> es = errors @ all_failures new \<and>
    (\<forall>(op, r) \<in> set new. map fst r = sdks \<and> (\<forall>(sdk, t) \<in> set r. sr_passed t \<longrightarrow> sr_error t = None))"
  using assms(1,2,4)
proof (induction ops arbitrary: operations errors w)
  case Nil
  then show ?case by (simp add: all_failures_def)
next
  case (Cons op ops)
  obtain q e u where q: "run_sdks se port op sdks [] errors w = (q, e, u)" by (metis prod_cases3)
  from run_sdks_spec [OF q assms(3)] have one: "map fst q = sdks" "e = errors @ failures op q"
    "\<forall>(sdk, t) \<in> set q. sr_passed t \<longrightarrow> sr_error t = None" by auto
  have "run_operations_over se port sdks ops (operations @ [(op, q)]) e u = (rs, es, w')"
    using Cons.prems q by (simp add: update_new_key)
  from Cons.IH [OF this] Cons.prems obtain new where
    "rs = (operations @ [(op, q)]) @ new" "map fst new = ops" "es = e @ all_failures new"
    "\<forall>(op, r) \<in> set new. map fst r = sdks \<and> (\<forall>(sdk, t) \<in> set r. sr_passed t \<longrightarrow> sr_error t = None)" by auto
  with one show ?case by (intro exI [of _ "(op, q) # new"]) (auto simp: all_failures_def)
qed

lemma suite_body_tests:
  assumes "suite_body env se topology sdks c w = (Suite_Done operations errors, c', w')" and "distinct sdks"
  shows "map fst operations = OPERATIONS \<and> errors = all_failures operations \<and>
    (\<forall>(op, r) \<in> set operations. map fst r = sdks \<and> (\<forall>(sdk, t) \<in> set r. sr_passed t \<longrightarrow> sr_error t = None))"
proof -
  obtain port u v where o: "run_operations_over se port sdks OPERATIONS [] [] u = (operations, errors, v)"
    using assms(1) by (auto simp: suite_body_def split: prod.splits sum.splits option.splits)
  have "distinct OPERATIONS" by code_simp
  from run_operations_over_spec [OF o this assms(2)] show ?thesis by auto
qed

subsection \<open>The summary adds up\<close>

definition sum_passed :: "(string \<times> tally) list \<Rightarrow> nat" where
  "sum_passed d = sum_list (map (passed \<circ> snd) d)"

definition sum_failed :: "(string \<times> tally) list \<Rightarrow> nat" where
  "sum_failed d = sum_list (map (failed_tests \<circ> snd) d)"

lemma tally_in_sums:
  "sum_passed (tally_in k ok d) = sum_passed d + (if ok then 1 else 0)"
  "sum_failed (tally_in k ok d) = sum_failed d + (if ok then 0 else 1)"
  by (induction d) (auto simp: tally_in_def sum_passed_def sum_failed_def tally_add_def no_tests_def)

definition balanced :: "summary \<Rightarrow> bool" where
  "balanced sm \<longleftrightarrow> sm_tests sm = sm_passed sm + sm_failed sm \<and>
     sum_passed (sm_by_sdk sm) = sm_passed sm \<and> sum_failed (sm_by_sdk sm) = sm_failed sm \<and>
     sum_passed (sm_by_operation sm) = sm_passed sm \<and> sum_failed (sm_by_operation sm) = sm_failed sm"

text \<open>What counting the given outcomes does to the tally of the topology and to the summary.\<close>

definition counted :: "bool list \<Rightarrow> tally \<times> summary \<Rightarrow> tally \<times> summary \<Rightarrow> bool" where
  "counted oks s s' \<longleftrightarrow>
     passed (fst s') = passed (fst s) + length (filter (\<lambda>ok. ok) oks) \<and>
     failed_tests (fst s') = failed_tests (fst s) + length (filter Not oks) \<and>
     sm_passed (snd s') = sm_passed (snd s) + length (filter (\<lambda>ok. ok) oks) \<and>
     sm_failed (snd s') = sm_failed (snd s) + length (filter Not oks) \<and>
     sm_by_topology (snd s') = sm_by_topology (snd s) \<and> (balanced (snd s) \<longrightarrow> balanced (snd s'))"

lemma counted_refl [simp]: "counted [] s s"
  by (simp add: counted_def)

lemma counted_append: "counted a s t \<Longrightarrow> counted b t u \<Longrightarrow> counted (a @ b) s u"
  by (simp add: counted_def)

lemma count_test_counted: "counted [ok] s (count_test op sdk ok s)"
  by (cases s) (auto simp: counted_def count_test_def balanced_def tally_in_sums tally_add_def)

lemma count_results_counted:
  "counted (map (sr_passed \<circ> snd) rs) s (fold (\<lambda>(sdk, r). count_test op sdk (sr_passed r)) rs s)"
proof (induction rs arbitrary: s)
  case (Cons p rs)
  obtain sdk r where p: "p = (sdk, r)" by fastforce
  from counted_append [OF count_test_counted Cons.IH] show ?case by (simp add: p)
qed simp

definition outcomes :: "(string \<times> (string \<times> sdk_result) list) list \<Rightarrow> bool list" where
  "outcomes operations = concat (map (\<lambda>(op, rs). map (sr_passed \<circ> snd) rs) operations)"

lemma count_operations_counted: "counted (outcomes ops) s (fold count_operation ops s)"
proof (induction ops arbitrary: s)
  case Nil
  show ?case by (simp add: outcomes_def)
next
  case (Cons p ops)
  obtain op rs where p: "p = (op, rs)" by fastforce
  from counted_append [OF count_results_counted [of rs s op] Cons.IH] show ?case
    by (simp add: p count_operation_def outcomes_def)
qed

text \<open>The outcomes of everything a summary is made of, and the tally of each topology.\<close>

definition entry_outcomes :: "topology_entry \<Rightarrow> bool list" where
  "entry_outcomes entry = (case entry of Entry_Error e \<Rightarrow> [] | Entry_Results r \<Rightarrow> outcomes (tr_operations r))"

definition entry_summary :: "topology_entry \<Rightarrow> topology_summary" where
  "entry_summary entry =
     (case entry of
        Entry_Error e \<Rightarrow> Summary_Error e
      | Entry_Results r \<Rightarrow>
          Summary_Tally \<lparr>passed = length (filter (\<lambda>ok. ok) (entry_outcomes entry)),
            failed_tests = length (filter Not (entry_outcomes entry))\<rparr>)"

lemma count_topology_spec:
  assumes "topo \<notin> fst ` set (sm_by_topology sm)" and "balanced sm"
  shows "balanced (count_topology (topo, entry) sm) \<and>
    sm_by_topology (count_topology (topo, entry) sm) = sm_by_topology sm @ [(topo, entry_summary entry)] \<and>
    sm_passed (count_topology (topo, entry) sm) = sm_passed sm + length (filter (\<lambda>ok. ok) (entry_outcomes entry)) \<and>
    sm_failed (count_topology (topo, entry) sm) = sm_failed sm + length (filter Not (entry_outcomes entry))"
proof (cases entry)
  case (Entry_Error e)
  then show ?thesis
    using assms by (simp add: count_topology_def entry_outcomes_def entry_summary_def update_new_key balanced_def)
next
  case (Entry_Results r)
  obtain t sm' where f: "fold count_operation (tr_operations r) (no_tests, sm) = (t, sm')" by fastforce
  have c: "counted (outcomes (tr_operations r)) (no_tests, sm) (t, sm')"
    using count_operations_counted [of "tr_operations r" "(no_tests, sm)"] unfolding f .
  then have "t = \<lparr>passed = length (filter (\<lambda>ok. ok) (outcomes (tr_operations r))),
      failed_tests = length (filter Not (outcomes (tr_operations r)))\<rparr>"
    by (simp add: counted_def no_tests_def)
  with c f Entry_Results assms show ?thesis
    by (simp add: count_topology_def entry_outcomes_def entry_summary_def update_new_key counted_def balanced_def)
qed

lemma fold_topologies_spec:
  assumes "distinct (map fst entries)" and "fst ` set entries \<inter> fst ` set (sm_by_topology sm) = {}" and "balanced sm"
  shows "balanced (fold count_topology entries sm) \<and>
    sm_by_topology (fold count_topology entries sm) = sm_by_topology sm @ map (\<lambda>(topo, e). (topo, entry_summary e)) entries \<and>
    sm_passed (fold count_topology entries sm) =
      sm_passed sm + length (filter (\<lambda>ok. ok) (concat (map (entry_outcomes \<circ> snd) entries))) \<and>
    sm_failed (fold count_topology entries sm) =
      sm_failed sm + length (filter Not (concat (map (entry_outcomes \<circ> snd) entries)))"
  using assms
proof (induction entries arbitrary: sm)
  case Nil
  then show ?case by simp
next
  case (Cons p entries)
  obtain topo e where p: "p = (topo, e)" by fastforce
  have one: "balanced (count_topology p sm)"
    "sm_by_topology (count_topology p sm) = sm_by_topology sm @ [(topo, entry_summary e)]"
    "sm_passed (count_topology p sm) = sm_passed sm + length (filter (\<lambda>ok. ok) (entry_outcomes e))"
    "sm_failed (count_topology p sm) = sm_failed sm + length (filter Not (entry_outcomes e))"
    using count_topology_spec [of topo sm e] Cons.prems by (auto simp: p)
  have "distinct (map fst entries)" "fst ` set entries \<inter> fst ` set (sm_by_topology (count_topology p sm)) = {}"
    using Cons.prems by (auto simp: p one(2) [unfolded p])
  from Cons.IH [OF this one(1)] show ?case by (simp add: p one(2,3,4) [unfolded p])
qed

text \<open>The results of a suite are those of the body, or of an exception before it.\<close>

lemma suite_outcome_of:
  assumes "run_topology_suite env se topology chosen w = Some (r, w')"
  shows "\<exists>out. r = suite_results topology out \<and> (\<forall>ops es. out = Suite_Done ops es \<longrightarrow> (\<exists>c u c' u'.
      suite_body env se topology (case chosen of None \<Rightarrow> SDKS | Some sdks \<Rightarrow> sdks) c u = (out, c', u')))"
proof (cases "\<exists>e. r = suite_results topology (Suite_Raised e)")
  case True
  then show ?thesis by blast
next
  case False
  then obtain c u out c' u' where
    "suite_body env se topology (case chosen of None \<Rightarrow> SDKS | Some sdks \<Rightarrow> sdks) c u = (out, c', u')"
    "r = suite_results topology out"
    using assms by (auto simp: run_topology_suite_def Let_def split: sum.splits bind_split_asm prod.splits)
  then show ?thesis by blast
qed

subsection \<open>Properties\<close>

text \<open>A full run goes through the four topologies in order, whatever fails in them; it
  returns, and leaves no process running that was not there before.\<close>

theorem full_suite_leaves_nothing_running:
  assumes "sdks_take_time se"
  shows "\<exists>results w'. run_full_suite env se w = Some (results, w') \<and>
    map (tr_topology \<circ> snd) results = [1, 3, 5, 6] \<and> distinct (map fst results) \<and>
    running_pids w' \<subseteq> running_pids w"
proof -
  have "distinct (map show_int TOPOLOGIES)" by code_simp
  with run_suites_returns [OF assms, of env TOPOLOGIES w] show ?thesis
    unfolding run_full_suite_def by (metis TOPOLOGIES_def)
qed

definition demo_sdks :: sdk_env where
  "demo_sdks = \<lparr>se_fixture = \<lambda>op. if op = ''ping'' then None else Some (Inr []),
     se_run = \<lambda>sdk port op input w. (if sdk = ''c'' then Inr (JObj [(''error'', JStr ''refused'')]) else Inr JNull, sleep 5 w),
     se_binary = Some ''archerdb'', se_ancestors = [], se_preserve = None\<rparr>"

lemma demo_sdks_take_time: "sdks_take_time demo_sdks"
  by (simp add: sdks_take_time_def demo_sdks_def)

theorem full_suite_leaves_nothing_running_witness:
  "\<exists>results w'. run_full_suite demo_env demo_sdks empty_world = Some (results, w') \<and>
     map (tr_topology \<circ> snd) results = [1, 3, 5, 6] \<and> running_pids w' = {}"
  using full_suite_leaves_nothing_running [OF demo_sdks_take_time, of demo_env empty_world]
  by (auto simp: running_pids_def running_def empty_world_def)

text \<open>A topology whose cluster came up with a leader is tested completely, through every
  failure: each of the 14 operations has one result per SDK, and the recorded errors are
  those of the results, in order.  Otherwise there are no results and exactly one error.\<close>

theorem topology_suite_is_complete:
  assumes "run_topology_suite env se topology (Some sdks) w = Some (r, w')" and "distinct sdks"
  shows "(tr_operations r = [] \<and> (\<exists>e. tr_errors r = [e])) \<or>
    (map fst (tr_operations r) = OPERATIONS \<and> tr_errors r = all_failures (tr_operations r) \<and>
     (\<forall>(op, rs) \<in> set (tr_operations r). map fst rs = sdks \<and> (\<forall>(sdk, t) \<in> set rs. sr_passed t \<longrightarrow> sr_error t = None)))"
proof -
  from suite_outcome_of [OF assms(1)] obtain out where out: "r = suite_results topology out"
    and body: "\<forall>ops es. out = Suite_Done ops es \<longrightarrow> (\<exists>c u c' u'. suite_body env se topology sdks c u = (out, c', u'))"
    by auto
  show ?thesis
  proof (cases out)
    case (Suite_Done ops es)
    with body obtain c u c' u' where "suite_body env se topology sdks c u = (Suite_Done ops es, c', u')" by blast
    from suite_body_tests [OF this assms(2)] show ?thesis by (simp add: out Suite_Done suite_results_def)
  qed (simp_all add: out suite_results_def)
qed

text \<open>The summary of any results adds up: the tests are those that passed and those that failed,
  so many as there are results, and the counts by topology, by SDK and by operation each
  have the same totals.\<close>

theorem summary_adds_up:
  assumes "distinct (map fst entries)"
  shows "sm_passed (generate_summary entries) = length (filter (\<lambda>ok. ok) (concat (map (entry_outcomes \<circ> snd) entries))) \<and>
    sm_failed (generate_summary entries) = length (filter Not (concat (map (entry_outcomes \<circ> snd) entries))) \<and>
    sm_tests (generate_summary entries) = length (concat (map (entry_outcomes \<circ> snd) entries)) \<and>
    sum_passed (sm_by_sdk (generate_summary entries)) = sm_passed (generate_summary entries) \<and>
    sum_failed (sm_by_sdk (generate_summary entries)) = sm_failed (generate_summary entries) \<and>
    sum_passed (sm_by_operation (generate_summary entries)) = sm_passed (generate_summary entries) \<and>
    sum_failed (sm_by_operation (generate_summary entries)) = sm_failed (generate_summary entries) \<and>
    sm_by_topology (generate_summary entries) = map (\<lambda>(topo, e). (topo, entry_summary e)) entries"
proof -
  let ?sm = "\<lparr>sm_tests = 0, sm_passed = 0, sm_failed = 0, sm_by_topology = [], sm_by_sdk = [], sm_by_operation = []\<rparr>"
  have "balanced ?sm" by (simp add: balanced_def sum_passed_def sum_failed_def)
  with fold_topologies_spec [of entries ?sm] assms
  have s: "balanced (generate_summary entries)"
    "sm_by_topology (generate_summary entries) = map (\<lambda>(topo, e). (topo, entry_summary e)) entries"
    "sm_passed (generate_summary entries) = length (filter (\<lambda>ok. ok) (concat (map (entry_outcomes \<circ> snd) entries)))"
    "sm_failed (generate_summary entries) = length (filter Not (concat (map (entry_outcomes \<circ> snd) entries)))"
    by (simp_all add: generate_summary_def)
  have "length (filter (\<lambda>ok. ok) xs) + length (filter Not xs) = length xs" for xs :: "bool list"
    using sum_length_filter_compl [of "\<lambda>ok. ok" xs] by (simp add: comp_def)
  with s show ?thesis by (simp add: balanced_def)
qed

definition demo_entries :: "(string \<times> topology_entry) list" where
  "demo_entries =
     [(''1'', Entry_Results \<lparr>tr_topology = 1, tr_operations = [(''ping'', [(''go'', \<lparr>sr_passed = True, sr_error = None\<rparr>),
         (''c'', \<lparr>sr_passed = False, sr_error = None\<rparr>)])], tr_errors = [], tr_ended = True\<rparr>),
      (''3'', Entry_Error (Test_Error ''no''))]"

theorem summary_adds_up_witness:
  "sm_tests (generate_summary demo_entries) = 2 \<and> sm_passed (generate_summary demo_entries) = 1 \<and>
   sm_failed (generate_summary demo_entries) = 1"
  using summary_adds_up [of demo_entries]
  by (simp add: demo_entries_def entry_outcomes_def outcomes_def)

text \<open>A topology whose cluster does not start, or finds no leader, is summarised as zero passed and
  zero failed tests, like one without a problem: its error is not in the summary.\<close>

theorem unstarted_topology_is_not_failed:
  assumes "run_topology_suite env se topology chosen w = Some (r, w')" and "tr_operations r = []"
  shows "tr_errors r \<noteq> [] \<and>
    sm_by_topology (generate_summary [(k, Entry_Results r)]) = [(k, Summary_Tally no_tests)] \<and>
    sm_failed (generate_summary [(k, Entry_Results r)]) = 0"
proof -
  from suite_outcome_of [OF assms(1)] obtain out sdks where out: "r = suite_results topology out"
    and body: "\<forall>ops es. out = Suite_Done ops es \<longrightarrow> (\<exists>c u c' u'. suite_body env se topology sdks c u = (out, c', u'))"
    by blast
  have "out \<noteq> Suite_Done ops es" for ops es
  proof
    assume d: "out = Suite_Done ops es"
    from body obtain c u c' u' where "suite_body env se topology sdks c u = (Suite_Done ops es, c', u')"
      unfolding d by blast
    then have "ops \<noteq> []"
      by (auto simp: suite_body_def OPERATIONS_def split: prod.splits sum.splits option.splits)
    with assms(2) out d show False by (simp add: suite_results_def)
  qed
  then have "tr_errors r \<noteq> []" by (simp add: out suite_results_def split: suite_outcome.split)
  moreover have "count_topology (k, Entry_Results r) sm = sm\<lparr>sm_by_topology := AList.update k (Summary_Tally no_tests) (sm_by_topology sm)\<rparr>" for sm
    using assms(2) by (simp add: count_topology_def)
  ultimately show ?thesis by (simp add: generate_summary_def)
qed

theorem topology_suite_is_complete_witness:
  "\<exists>r w'. run_topology_suite demo_env demo_sdks 1 (Some [''go'', ''c'']) (empty_world\<lparr>files := {''archerdb''}\<rparr>) = Some (r, w') \<and>
     (tr_operations r \<noteq> [] \<longrightarrow> map fst (tr_operations r) = OPERATIONS \<and> tr_errors r = all_failures (tr_operations r))"
proof -
  from run_topology_suite_returns [OF demo_sdks_take_time] obtain r w' where
    r: "run_topology_suite demo_env demo_sdks 1 (Some [''go'', ''c'']) (empty_world\<lparr>files := {''archerdb''}\<rparr>) = Some (r, w')"
    by blast
  with topology_suite_is_complete [OF r] show ?thesis by auto
qed

theorem unstarted_topology_is_not_failed_witness:
  "\<exists>r. run_topology_suite demo_env (demo_sdks\<lparr>se_binary := Some ''missing''\<rparr>) 3 None empty_world = Some (r, empty_world) \<and>
     tr_errors r \<noteq> [] \<and> sm_by_topology (generate_summary [(''3'', Entry_Results r)]) = [(''3'', Summary_Tally no_tests)] \<and>
     sm_failed (generate_summary [(''3'', Entry_Results r)]) = 0"
proof -
  let ?e = "BinaryNotFound ''missing''" and ?se = "demo_sdks\<lparr>se_binary := Some ''missing''\<rparr>"
  have "run_topology_suite demo_env ?se 3 None empty_world = Some (suite_results 3 (Suite_Raised ?e), empty_world)"
    by (simp add: run_topology_suite_def new_cluster_def binary_path_def suite_config_def default_cluster_config_def empty_world_def)
  from unstarted_topology_is_not_failed [OF this, of "''3''"] this show ?thesis by (simp add: suite_results_def)
qed

end
