(* ===== verification/Data_Generator.thy ===== *)
theory Data_Generator
  imports Py_Float "HOL-Library.Multiset" "HOL-Library.List_Lexorder" "HOL-Library.Char_ord"
begin

section \<open>Test data\<close>

text \<open>
  \<open>test_infrastructure/generators/\<close>: the city database, the distributions of points and
  \<open>generate_events\<close>.  A \<open>random.Random\<close> is a state with the readings of \<open>random()\<close>,
  \<open>gauss\<close> and its source of bits; \<open>uniform\<close>, \<open>randint\<close> and \<open>shuffle\<close> are those of the
  standard library.  The cosine is a parameter.  A result \<open>None\<close> is a call that never
  returns.
\<close>

subsection \<open>Cities\<close>

record city =
  city_lat :: rat
  city_lon :: rat
  city_region :: string

definition city_of :: "rat \<Rightarrow> rat \<Rightarrow> string \<Rightarrow> city" where
  "city_of lat lon region = \<lparr>city_lat = lat / 10000, city_lon = lon / 10000, city_region = region\<rparr>"

text \<open>The coordinates, in ten-thousandths of a degree as they are written.\<close>

definition cities :: "(string \<times> city) list" where
  "cities =
     [(''new_york'', city_of 407128 (- 740060) ''north_america_east''),
      (''san_francisco'', city_of 377749 (- 1224194) ''north_america_west''),
      (''los_angeles'', city_of 340522 (- 1182437) ''north_america_west''),
      (''chicago'', city_of 418781 (- 876298) ''north_america_central''),
      (''toronto'', city_of 436532 (- 793832) ''north_america_east''),
      (''mexico_city'', city_of 194326 (- 991332) ''north_america_south''),
      (''london'', city_of 515074 (- 1278) ''europe''),
      (''paris'', city_of 488566 23522 ''europe''),
      (''berlin'', city_of 525200 134050 ''europe''),
      (''amsterdam'', city_of 523676 49041 ''europe''),
      (''moscow'', city_of 557558 376173 ''europe_east''),
      (''tokyo'', city_of 356762 1396503 ''asia_pacific''),
      (''singapore'', city_of 13521 1038198 ''equatorial''),
      (''mumbai'', city_of 190760 728777 ''south_asia''),
      (''beijing'', city_of 399042 1164074 ''asia_east''),
      (''shanghai'', city_of 312304 1214737 ''asia_east''),
      (''hong_kong'', city_of 223193 1141694 ''asia_east''),
      (''seoul'', city_of 375665 1269780 ''asia_east''),
      (''bangkok'', city_of 137563 1005018 ''asia_southeast''),
      (''sydney'', city_of (- 338688) 1512093 ''oceania''),
      (''melbourne'', city_of (- 378136) 1449631 ''oceania''),
      (''sao_paulo'', city_of (- 235505) (- 466333) ''south_america''),
      (''buenos_aires'', city_of (- 346037) (- 583816) ''south_america''),
      (''cape_town'', city_of (- 339249) 184241 ''africa''),
      (''johannesburg'', city_of (- 262041) 280473 ''africa''),
      (''nairobi'', city_of (- 12921) 368219 ''africa_east''),
      (''auckland'', city_of (- 368485) 1747633 ''pacific_dateline''),
      (''reykjavik'', city_of 641466 (- 219426) ''high_latitude''),
      (''anchorage'', city_of 612181 (- 1499003) ''high_latitude'')]"

text \<open>A decimal literal of the source is the nearest float.\<close>

definition get_city_coords :: "string \<Rightarrow> (py_exn, pyfloat \<times> pyfloat) result" where
  "get_city_coords name =
     (case map_of cities name of
        None \<Rightarrow> Inl KeyError
      | Some c \<Rightarrow> Inr (Fin (fl (city_lat c)), Fin (fl (city_lon c))))"

definition list_cities_by_region :: "string \<Rightarrow> string list" where
  "list_cities_by_region region = map fst (filter (\<lambda>(name, c). city_region c = region) cities)"

text \<open>\<open>sorted(set(...))\<close>: each region once, in the order of the characters.\<close>

definition get_regions :: "string list" where
  "get_regions = sort (remdups (map (\<lambda>(name, c). city_region c) cities))"

definition edge_cases :: "(string \<times> pyfloat \<times> pyfloat) list" where
  "edge_cases =
     [(''north_pole'', Fin 90, Fin 0),
      (''south_pole'', Fin (- 90), Fin 0),
      (''antimeridian_east'', Fin 0, Fin 180),
      (''antimeridian_west'', Fin 0, Fin (- 180)),
      (''null_island'', Fin 0, Fin 0),
      (''max_lat_east'', Fin (fl (89999 / 1000)), Fin (fl (179999 / 1000))),
      (''max_lat_west'', Fin (fl (89999 / 1000)), Fin (fl (- 179999 / 1000))),
      (''min_lat_east'', Fin (fl (- 89999 / 1000)), Fin (fl (179999 / 1000))),
      (''min_lat_west'', Fin (fl (- 89999 / 1000)), Fin (fl (- 179999 / 1000)))]"

subsection \<open>Random numbers\<close>

record 's rng =
  rng_random :: "'s \<Rightarrow> pyfloat \<times> 's"
  rng_gauss :: "pyfloat \<Rightarrow> pyfloat \<Rightarrow> 's \<Rightarrow> pyfloat \<times> 's"
  rng_below :: "nat \<Rightarrow> 's \<Rightarrow> nat \<times> 's"
  rng_bits :: "nat \<Rightarrow> 's \<Rightarrow> nat \<times> 's"

definition rng_uniform :: "'s rng \<Rightarrow> pyfloat \<Rightarrow> pyfloat \<Rightarrow> 's \<Rightarrow> pyfloat \<times> 's" where
  "rng_uniform r a b s = (case rng_random r s of (u, s) \<Rightarrow> (f_add a (f_mul (f_sub b a) u), s))"

definition rng_randint :: "'s rng \<Rightarrow> int \<Rightarrow> int \<Rightarrow> 's \<Rightarrow> (py_exn, int) result \<times> 's" where
  "rng_randint r a b s =
     (if b < a then (Inl ValueError, s)
      else case rng_below r (nat (b - a + 1)) s of (k, s) \<Rightarrow> (Inr (a + int k), s))"

text \<open>\<open>shuffle\<close>: position \<open>i\<close>, from the last one down to 1, is exchanged with one up to it.\<close>

definition swap_at :: "nat \<Rightarrow> nat \<Rightarrow> 'a list \<Rightarrow> 'a list" where
  "swap_at i j xs = xs[i := xs ! j, j := xs ! i]"

fun shuffle_from :: "'s rng \<Rightarrow> nat \<Rightarrow> 'a list \<Rightarrow> 's \<Rightarrow> 'a list \<times> 's" where
  "shuffle_from r 0 xs s = (xs, s)"
| "shuffle_from r (Suc i) xs s =
     (case rng_below r (Suc i + 1) s of (j, s) \<Rightarrow> shuffle_from r i (swap_at (Suc i) j xs) s)"

definition rng_shuffle :: "'s rng \<Rightarrow> 'a list \<Rightarrow> 's \<Rightarrow> 'a list \<times> 's" where
  "rng_shuffle r xs s = shuffle_from r (length xs - 1) xs s"

subsection \<open>Distributions\<close>

type_synonym coords = "pyfloat \<times> pyfloat"

fun uniform_points :: "'s rng \<Rightarrow> coords \<Rightarrow> coords \<Rightarrow> nat \<Rightarrow> 's \<Rightarrow> coords list \<times> 's" where
  "uniform_points r lat_range lon_range 0 s = ([], s)"
| "uniform_points r lat_range lon_range (Suc n) s =
     (case rng_uniform r (fst lat_range) (snd lat_range) s of
        (lat, s) \<Rightarrow>
          (case rng_uniform r (fst lon_range) (snd lon_range) s of
             (lon, s) \<Rightarrow>
               (case uniform_points r lat_range lon_range n s of
                  (points, s) \<Rightarrow> ((lat, lon) # points, s))))"

definition uniform_distribution :: "'s rng \<Rightarrow> int \<Rightarrow> coords \<Rightarrow> coords \<Rightarrow> 's \<Rightarrow> coords list \<times> 's" where
  "uniform_distribution r wanted lat_range lon_range s = uniform_points r lat_range lon_range (nat wanted) s"

definition whole_lat :: coords where
  "whole_lat = (Fin (- 90), Fin 90)"

definition whole_lon :: coords where
  "whole_lon = (Fin (- 180), Fin 180)"

definition clamp_lat :: "pyfloat \<Rightarrow> pyfloat" where
  "clamp_lat lat = py_max (Fin (- 90)) (py_min (Fin 90) lat)"

text \<open>The two loops that wrap a longitude.\<close>

partial_function (option) wrap_down :: "pyfloat \<Rightarrow> pyfloat option" where
  "wrap_down lon = (if f_lt (Fin 180) lon then wrap_down (f_sub lon (Fin 360)) else Some lon)"

partial_function (option) wrap_up :: "pyfloat \<Rightarrow> pyfloat option" where
  "wrap_up lon = (if f_lt lon (Fin (- 180)) then wrap_up (f_add lon (Fin 360)) else Some lon)"

definition wrap_lon :: "pyfloat \<Rightarrow> pyfloat option" where
  "wrap_lon lon = Option.bind (wrap_down lon) wrap_up"

fun gaussian_points ::
    "'s rng \<Rightarrow> coords \<Rightarrow> pyfloat \<Rightarrow> pyfloat \<Rightarrow> nat \<Rightarrow> 's \<Rightarrow> (coords list \<times> 's) option" where
  "gaussian_points r center lat_std lon_std 0 s = Some ([], s)"
| "gaussian_points r center lat_std lon_std (Suc n) s =
     (case rng_gauss r (fst center) lat_std s of
        (lat, s) \<Rightarrow>
          (case rng_gauss r (snd center) lon_std s of
             (lon, s) \<Rightarrow>
               Option.bind (wrap_lon lon) (\<lambda>lon.
               map_option (\<lambda>(points, s). ((clamp_lat lat, lon) # points, s))
                 (gaussian_points r center lat_std lon_std n s))))"

text \<open>\<open>gaussian_cluster\<close>; \<open>cosine\<close> is \<open>math.cos(math.radians(x))\<close>.\<close>

definition lon_deviation :: "(pyfloat \<Rightarrow> pyfloat) \<Rightarrow> pyfloat \<Rightarrow> pyfloat \<Rightarrow> (py_exn, pyfloat) result" where
  "lon_deviation cosine center_lat std_km =
     f_div std_km (f_mul (Fin 111) (py_max (cosine center_lat) (Fin (fl (1 / 100)))))"

definition gaussian_cluster ::
    "(pyfloat \<Rightarrow> pyfloat) \<Rightarrow> 's rng \<Rightarrow> coords \<Rightarrow> int \<Rightarrow> pyfloat \<Rightarrow> 's \<Rightarrow> ((py_exn, coords list) result \<times> 's) option" where
  "gaussian_cluster cosine r center wanted std_km s =
     (case bindE (f_div std_km (Fin 111)) (\<lambda>lat_std.
           bindE (lon_deviation cosine (fst center) std_km) (\<lambda>lon_std. Inr (lat_std, lon_std))) of
        Inl e \<Rightarrow> Some (Inl e, s)
      | Inr (lat_std, lon_std) \<Rightarrow>
          map_option (\<lambda>(points, s). (Inr points, s)) (gaussian_points r center lat_std lon_std (nat wanted) s))"

text \<open>The clusters of \<open>city_concentrated\<close> and \<open>hotspot_pattern\<close>: cluster \<open>i\<close> gets one point
  more while \<open>i\<close> is below the remainder.  A center is looked up when its turn comes.\<close>

fun clusters ::
    "(pyfloat \<Rightarrow> pyfloat) \<Rightarrow> 's rng \<Rightarrow> ('c \<Rightarrow> (py_exn, coords) result) \<Rightarrow> int \<Rightarrow> int \<Rightarrow> pyfloat \<Rightarrow> int \<Rightarrow> 'c list \<Rightarrow> 's \<Rightarrow>
     ((py_exn, coords list) result \<times> 's) option" where
  "clusters cosine r center per_cluster remainder std_km i [] s = Some (Inr [], s)"
| "clusters cosine r center per_cluster remainder std_km i (c # cs) s =
     (case center c of
        Inl e \<Rightarrow> Some (Inl e, s)
      | Inr p \<Rightarrow>
          Option.bind (gaussian_cluster cosine r p (per_cluster + (if i < remainder then 1 else 0)) std_km s) (\<lambda>(q, s).
            case q of
              Inl e \<Rightarrow> Some (Inl e, s)
            | Inr points \<Rightarrow>
                map_option (\<lambda>(q, s). (bindE q (\<lambda>more. Inr (points @ more)), s))
                  (clusters cosine r center per_cluster remainder std_km (i + 1) cs s)))"

text \<open>What both patterns do with their centers, in \<open>share\<close> of the points.\<close>

definition concentrated ::
    "(pyfloat \<Rightarrow> pyfloat) \<Rightarrow> 's rng \<Rightarrow> ('c \<Rightarrow> (py_exn, coords) result) \<Rightarrow> 'c list \<Rightarrow> int \<Rightarrow> pyfloat \<Rightarrow> pyfloat \<Rightarrow> 's \<Rightarrow>
     ((py_exn, coords list) result \<times> 's) option" where
  "concentrated cosine r center centers wanted share std_km s =
     (if centers = [] then (case uniform_distribution r wanted whole_lat whole_lon s of (points, s) \<Rightarrow> Some (Inr points, s))
      else
        case bindE (float_of_int wanted) (\<lambda>n. py_int (f_mul n share)) of
          Inl e \<Rightarrow> Some (Inl e, s)
        | Inr near \<Rightarrow>
            Option.bind (clusters cosine r center (near div int (length centers)) (near mod int (length centers)) std_km 0 centers s)
              (\<lambda>(q, s). case q of
                 Inl e \<Rightarrow> Some (Inl e, s)
               | Inr points \<Rightarrow>
                   (case uniform_distribution r (wanted - near) whole_lat whole_lon s of
                      (scattered, s) \<Rightarrow>
                        (case rng_shuffle r (points @ scattered) s of (all, s) \<Rightarrow> Some (Inr all, s)))))"

definition city_concentrated ::
    "(pyfloat \<Rightarrow> pyfloat) \<Rightarrow> 's rng \<Rightarrow> string list \<Rightarrow> int \<Rightarrow> pyfloat \<Rightarrow> pyfloat \<Rightarrow> 's \<Rightarrow>
     ((py_exn, coords list) result \<times> 's) option" where
  "city_concentrated cosine r names wanted concentration std_km s =
     concentrated cosine r get_city_coords names wanted concentration std_km s"

definition hotspot_pattern ::
    "(pyfloat \<Rightarrow> pyfloat) \<Rightarrow> 's rng \<Rightarrow> coords list \<Rightarrow> int \<Rightarrow> pyfloat \<Rightarrow> pyfloat \<Rightarrow> 's \<Rightarrow>
     ((py_exn, coords list) result \<times> 's) option" where
  "hotspot_pattern cosine r hotspots wanted hotspot_ratio std_km s =
     concentrated cosine r Inr hotspots wanted hotspot_ratio std_km s"

subsection \<open>Events\<close>

record dataset_config =
  ds_size :: int
  ds_pattern :: string
  ds_cities :: "string list"
  ds_hotspots :: "coords list"
  ds_concentration :: pyfloat
  ds_hotspot_ratio :: pyfloat
  ds_seed :: "int option"
  ds_ttl_range :: "int \<times> int"
  ds_std_km :: pyfloat
  ds_include_user_data :: bool

definition default_dataset_config :: dataset_config where
  "default_dataset_config =
     \<lparr>ds_size = 100, ds_pattern = ''uniform'', ds_cities = [], ds_hotspots = [], ds_concentration = Fin (fl (4 / 5)),
      ds_hotspot_ratio = Fin (fl (19 / 20)), ds_seed = None, ds_ttl_range = (60, 3600), ds_std_km = Fin 20,
      ds_include_user_data = True\<rparr>"

record test_event =
  te_entity_id :: string
  te_latitude :: pyfloat
  te_longitude :: pyfloat
  te_ttl_seconds :: int
  te_user_data :: "int option"

text \<open>\<open>format(n, '032x')\<close>.\<close>

definition hex_digit :: "nat \<Rightarrow> char" where
  "hex_digit d = (if d < 10 then char_of (48 + d) else char_of (87 + d))"

fun hex_text :: "nat \<Rightarrow> nat \<Rightarrow> string" where
  "hex_text 0 n = []"
| "hex_text (Suc k) n = hex_text k (n div 16) @ [hex_digit (n mod 16)]"

fun make_events ::
    "'s rng \<Rightarrow> int \<times> int \<Rightarrow> bool \<Rightarrow> coords list \<Rightarrow> 's \<Rightarrow> (py_exn, test_event list) result \<times> 's" where
  "make_events r ttl_range with_data [] s = (Inr [], s)"
| "make_events r ttl_range with_data ((lat, lon) # rest) s =
     (case rng_bits r 128 s of
        (bits, s) \<Rightarrow>
          (case rng_randint r (fst ttl_range) (snd ttl_range) s of
             (Inl e, s) \<Rightarrow> (Inl e, s)
           | (Inr ttl, s) \<Rightarrow>
               (case (if with_data then (case rng_randint r 0 1000 s of (d, s) \<Rightarrow> (bindE d (\<lambda>d. Inr (Some d)), s))
                      else (Inr None, s)) of
                  (Inl e, s) \<Rightarrow> (Inl e, s)
                | (Inr data, s) \<Rightarrow>
                    (case make_events r ttl_range with_data rest s of
                       (q, s) \<Rightarrow>
                         (bindE q (\<lambda>events. Inr (\<lparr>te_entity_id = hex_text 32 bits, te_latitude = lat, te_longitude = lon,
                            te_ttl_seconds = ttl, te_user_data = data\<rparr> # events)), s)))))"

text \<open>\<open>seeded\<close> is \<open>random.Random(seed)\<close>, \<open>fresh\<close> the generator seeded from the clock and the
  system.\<close>

definition event_coords ::
    "(pyfloat \<Rightarrow> pyfloat) \<Rightarrow> 's rng \<Rightarrow> dataset_config \<Rightarrow> 's \<Rightarrow> ((py_exn, coords list) result \<times> 's) option" where
  "event_coords cosine r cfg s =
     (if ds_pattern cfg = ''uniform''
      then (case uniform_distribution r (ds_size cfg) whole_lat whole_lon s of (points, s) \<Rightarrow> Some (Inr points, s))
      else if ds_pattern cfg = ''city_concentrated''
      then (if ds_cities cfg = [] then Some (Inl ValueError, s)
            else city_concentrated cosine r (ds_cities cfg) (ds_size cfg) (ds_concentration cfg) (ds_std_km cfg) s)
      else if ds_pattern cfg = ''hotspot''
      then (if ds_hotspots cfg = [] then Some (Inl ValueError, s)
            else hotspot_pattern cosine r (ds_hotspots cfg) (ds_size cfg) (ds_hotspot_ratio cfg) (Fin (1 / 2)) s)
      else Some (Inl ValueError, s))"

definition generate_events ::
    "(pyfloat \<Rightarrow> pyfloat) \<Rightarrow> 's rng \<Rightarrow> (int \<Rightarrow> 's) \<Rightarrow> 's \<Rightarrow> dataset_config \<Rightarrow>
     ((py_exn, test_event list) result \<times> 's) option" where
  "generate_events cosine r seeded fresh cfg =
     Option.bind (event_coords cosine r cfg (case ds_seed cfg of Some seed \<Rightarrow> seeded seed | None \<Rightarrow> fresh)) (\<lambda>(q, s).
       case q of
         Inl e \<Rightarrow> Some (Inl e, s)
       | Inr coords \<Rightarrow> Some (make_events r (ds_ttl_range cfg) (ds_include_user_data cfg) coords s))"

text \<open>The datasets of three sizes; the options a caller gives replace the defaults.\<close>

definition sized_dataset ::
    "(pyfloat \<Rightarrow> pyfloat) \<Rightarrow> 's rng \<Rightarrow> (int \<Rightarrow> 's) \<Rightarrow> 's \<Rightarrow> int \<Rightarrow> string \<Rightarrow> int \<Rightarrow> (dataset_config \<Rightarrow> dataset_config) \<Rightarrow>
     ((py_exn, test_event list) result \<times> 's) option" where
  "sized_dataset cosine r seeded fresh n_events pattern seed options =
     generate_events cosine r seeded fresh
       (options (default_dataset_config\<lparr>ds_size := n_events, ds_pattern := pattern, ds_seed := Some seed\<rparr>))"

definition small_dataset where
  "small_dataset cosine r seeded fresh = sized_dataset cosine r seeded fresh 100"

definition medium_dataset where
  "medium_dataset cosine r seeded fresh = sized_dataset cosine r seeded fresh 10000"

definition large_dataset where
  "large_dataset cosine r seeded fresh = sized_dataset cosine r seeded fresh 100000"

text \<open>The metadata of \<open>generate_dataset_file\<close>, next to the events it describes.\<close>

record dataset_metadata =
  dm_pattern :: string
  dm_size :: int
  dm_seed :: "int option"
  dm_concentration :: "pyfloat option"
  dm_hotspot_ratio :: "pyfloat option"
  dm_cities :: "string list"
  dm_hotspots :: "coords list"
  dm_timestamp :: string
  dm_ttl_range :: "int \<times> int"

definition generate_dataset_file ::
    "(pyfloat \<Rightarrow> pyfloat) \<Rightarrow> 's rng \<Rightarrow> (int \<Rightarrow> 's) \<Rightarrow> 's \<Rightarrow> string \<Rightarrow> dataset_config \<Rightarrow>
     ((py_exn, dataset_metadata \<times> test_event list) result \<times> 's) option" where
  "generate_dataset_file cosine r seeded fresh timestamp cfg =
     map_option (\<lambda>(q, s). (bindE q (\<lambda>events. Inr
         (\<lparr>dm_pattern = ds_pattern cfg, dm_size = ds_size cfg, dm_seed = ds_seed cfg,
           dm_concentration = (if ds_pattern cfg = ''city_concentrated'' then Some (ds_concentration cfg) else None),
           dm_hotspot_ratio = (if ds_pattern cfg = ''hotspot'' then Some (ds_hotspot_ratio cfg) else None),
           dm_cities = ds_cities cfg, dm_hotspots = ds_hotspots cfg, dm_timestamp = timestamp,
           dm_ttl_range = ds_ttl_range cfg\<rparr>, events)), s))
       (generate_events cosine r seeded fresh cfg)"

subsection \<open>The wrap of a longitude returns\<close>

lemma f_sub_Fin: "f_sub (Fin x) (Fin y) = mk_float (x - y)"
  by (simp add: f_sub_def)

lemma abs_le_2_53: "\<bar>x\<bar> \<le> (9007199254740992 :: rat) \<Longrightarrow> mk_float x = Fin (fl x)"
  by (rule mk_float_Fin [of x 53]) simp_all

lemma wrap_down_returns:
  assumes "\<bar>x\<bar> \<le> 2 ^ 53"
  shows "\<exists>y. wrap_down (Fin x) = Some (Fin y) \<and> y \<le> 180 \<and> min x (- 180) \<le> y"
  using assms
proof (induction "nat \<lceil>x\<rceil>" arbitrary: x rule: less_induct)
  case less
  show ?case
  proof (cases "180 < x")
    case False
    then show ?thesis by (subst wrap_down.simps) auto
  next
    case True
    let ?y = "fl (x - 360)"
    have step: "f_sub (Fin x) (Fin 360) = Fin ?y"
      using less.prems True by (simp add: f_sub_Fin abs_le_2_53 abs_le_iff)
    have c: "x \<le> of_int \<lceil>x\<rceil>" "\<lceil>x\<rceil> \<le> 2 ^ 53" "180 < \<lceil>x\<rceil>"
      using less.prems True by (simp_all add: ceiling_le_iff less_ceiling_iff abs_le_iff)
    have up: "?y \<le> of_int (\<lceil>x\<rceil> - 360)" by (rule fl_le_of_int) (use c in linarith)+
    have lo: "of_int (- 180) \<le> ?y" by (rule fl_ge_of_int) (use True in auto)
    have "\<lceil>?y\<rceil> \<le> \<lceil>x\<rceil> - 360" using up by (simp only: ceiling_le_iff)
    then have "nat \<lceil>?y\<rceil> < nat \<lceil>x\<rceil>" using c by simp
    moreover have "\<bar>?y\<bar> \<le> 2 ^ 53"
    proof -
      have "(of_int (\<lceil>x\<rceil> - 360) :: rat) \<le> of_int (2 ^ 53)" using c by (simp only: of_int_le_iff)
      from order_trans [OF up this] have "?y \<le> 2 ^ 53" by simp
      then show ?thesis using lo by (simp add: abs_le_iff)
    qed
    ultimately obtain y where "wrap_down (Fin ?y) = Some (Fin y)" "y \<le> 180" "min ?y (- 180) \<le> y"
      using less.hyps by blast
    moreover have "wrap_down (Fin x) = wrap_down (Fin ?y)"
      using True by (subst wrap_down.simps) (simp add: step)
    moreover have "min x (- 180) \<le> min ?y (- 180)" using lo by (simp add: min_def)
    ultimately show ?thesis by auto
  qed
qed

lemma wrap_up_returns:
  assumes "\<bar>x\<bar> \<le> 2 ^ 53" and "x \<le> 180"
  shows "\<exists>y. wrap_up (Fin x) = Some (Fin y) \<and> - 180 \<le> y \<and> y \<le> 180"
  using assms
proof (induction "nat (- \<lfloor>x\<rfloor>)" arbitrary: x rule: less_induct)
  case less
  show ?case
  proof (cases "x < - 180")
    case False
    then show ?thesis using less.prems by (subst wrap_up.simps) auto
  next
    case True
    let ?y = "fl (x + 360)"
    have step: "f_add (Fin x) (Fin 360) = Fin ?y"
      using less.prems True by (simp add: abs_le_2_53 abs_le_iff)
    have c: "of_int \<lfloor>x\<rfloor> \<le> x" "- (2 ^ 53) \<le> \<lfloor>x\<rfloor>" "\<lfloor>x\<rfloor> < - 180"
      using less.prems True by (simp_all add: le_floor_iff floor_less_iff abs_le_iff)
    have lo: "of_int (\<lfloor>x\<rfloor> + 360) \<le> ?y" by (rule fl_ge_of_int) (use c in linarith)+
    have up: "?y \<le> of_int 180" by (rule fl_le_of_int) (use True in auto)
    have "\<lfloor>x\<rfloor> + 360 \<le> \<lfloor>?y\<rfloor>" using lo by (simp only: le_floor_iff)
    then have "nat (- \<lfloor>?y\<rfloor>) < nat (- \<lfloor>x\<rfloor>)" using c by simp
    moreover have "\<bar>?y\<bar> \<le> 2 ^ 53"
    proof -
      have "(of_int (- (2 ^ 53)) :: rat) \<le> of_int (\<lfloor>x\<rfloor> + 360)" using c by (simp only: of_int_le_iff)
      then show ?thesis using up lo by (simp add: abs_le_iff)
    qed
    moreover have "?y \<le> 180" using up by simp
    ultimately obtain y where "wrap_up (Fin ?y) = Some (Fin y)" "- 180 \<le> y" "y \<le> 180"
      using less.hyps by blast
    moreover have "wrap_up (Fin x) = wrap_up (Fin ?y)"
      using True by (subst wrap_up.simps) (simp add: step del: f_add.simps)
    ultimately show ?thesis by auto
  qed
qed

lemma wrap_lon_returns:
  assumes "\<bar>x\<bar> \<le> 2 ^ 53"
  shows "\<exists>y. wrap_lon (Fin x) = Some (Fin y) \<and> - 180 \<le> y \<and> y \<le> 180"
proof -
  obtain z where z: "wrap_down (Fin x) = Some (Fin z)" "z \<le> 180" "min x (- 180) \<le> z"
    using wrap_down_returns [OF assms] by blast
  have "\<bar>z\<bar> \<le> 2 ^ 53" using assms z by (auto simp: abs_le_iff min_def split: if_splits)
  then show ?thesis using wrap_up_returns [of z] z by (auto simp: wrap_lon_def)
qed

text \<open>Where a step of 360 is lost in the rounding, or at an infinity, it does not.\<close>

lemma wrap_down_stuck:
  assumes "f_lt (Fin 180) x" and "f_sub x (Fin 360) = x"
  shows "wrap_down x = None"
proof (rule ccontr)
  assume "wrap_down x \<noteq> None"
  then obtain y where y: "wrap_down x = Some y" by blast
  have "\<not> (f_lt (Fin 180) x \<and> f_sub x (Fin 360) = x)"
    by (rule wrap_down.raw_induct [where P = "\<lambda>z y. \<not> (f_lt (Fin 180) z \<and> f_sub z (Fin 360) = z)", OF _ y])
      (auto split: if_splits)
  with assms show False by blast
qed

subsection \<open>Well behaved generators of random numbers\<close>

text \<open>
  What \<open>random.Random\<close> documents: \<open>random()\<close> is in \<open>[0, 1)\<close>, \<open>_randbelow(n)\<close> is below
  \<open>n\<close>; a Gaussian of the library is at most 9 deviations from its mean, as it is
  \<open>sqrt(-2 log(1 - random()))\<close> of them and \<open>1 - random()\<close> is at least \<open>2 ** -53\<close>.
\<close>

definition good_rng :: "'s rng \<Rightarrow> bool" where
  "good_rng r \<longleftrightarrow>
     (\<forall>s. \<exists>u s'. rng_random r s = (Fin u, s') \<and> 0 \<le> u \<and> u < 1) \<and>
     (\<forall>n s. 0 < n \<longrightarrow> fst (rng_below r n s) < n) \<and>
     (\<forall>m d s. \<exists>g s'. rng_gauss r (Fin m) (Fin d) s = (Fin g, s') \<and> \<bar>g\<bar> \<le> \<bar>m\<bar> + 9 * \<bar>d\<bar>)"

lemma good_rngD:
  assumes "good_rng r"
  shows "\<exists>u s'. rng_random r s = (Fin u, s') \<and> 0 \<le> u \<and> u < 1"
    and "0 < n \<Longrightarrow> fst (rng_below r n s) < n"
    and "\<exists>g s'. rng_gauss r (Fin m) (Fin d) s = (Fin g, s') \<and> \<bar>g\<bar> \<le> \<bar>m\<bar> + 9 * \<bar>d\<bar>"
  using assms unfolding good_rng_def by blast+

definition valid_point :: "coords \<Rightarrow> bool" where
  "valid_point p \<longleftrightarrow>
     f_le (Fin (- 90)) (fst p) \<and> f_le (fst p) (Fin 90) \<and> f_le (Fin (- 180)) (snd p) \<and> f_le (snd p) (Fin 180)"

lemma valid_point_Fin [simp]:
  "valid_point (Fin a, Fin b) \<longleftrightarrow> - 90 \<le> a \<and> a \<le> 90 \<and> - 180 \<le> b \<and> b \<le> 180"
  by (auto simp: valid_point_def)

lemma edge_cases_valid: "\<forall>(name, p) \<in> set edge_cases. valid_point p"
proof -
  have "- 90 \<le> fl (89999 / 1000) \<and> fl (89999 / 1000) \<le> 90 \<and> - 180 \<le> fl (179999 / 1000) \<and> fl (179999 / 1000) \<le> 180"
    by code_simp
  then show ?thesis by (simp add: edge_cases_def)
qed

text \<open>Every region has a city, and no city is left out of its region's list.\<close>

lemma regions_partition_cities:
  "sorted get_regions \<and> distinct get_regions \<and>
   (\<Union>region \<in> set get_regions. set (list_cities_by_region region)) = fst ` set cities"
  by (auto simp: get_regions_def list_cities_by_region_def image_iff split: prod.splits)

lemma rng_uniform_symmetric:
  assumes r: "good_rng r" and b: "0 < b" "b \<le> 180"
  shows "\<exists>v s'. rng_uniform r (Fin (- of_int b)) (Fin (of_int b)) s = (Fin v, s') \<and> - of_int b \<le> v \<and> v \<le> of_int b"
proof -
  let ?b = "of_int b :: rat"
  obtain u s' where u: "rng_random r s = (Fin u, s')" "0 \<le> u" "u < 1" using good_rngD(1) [OF r] by blast
  have b': "0 < ?b" "?b \<le> 180" using b by simp_all
  have le: "2 * ?b * u \<le> 2 * ?b" using b'(1) u(2,3) by simp
  then have m: "0 \<le> 2 * ?b * u" "2 * ?b * u \<le> 360" using b' u(2) by (simp, linarith)
  have up: "fl (2 * ?b * u) \<le> of_int (2 * b)" by (rule fl_le_of_int) (use b le in simp_all)
  have lo: "0 \<le> fl (2 * ?b * u)" by (rule fl_nonneg [OF m(1)])
  have d: "f_sub (Fin ?b) (Fin (- ?b)) = Fin (2 * ?b)"
    using b b' fl_of_int [of "2 * b"] abs_le_2_53 [of "2 * ?b"] by (simp add: f_sub_Fin)
  have p: "f_mul (Fin (2 * ?b)) (Fin u) = Fin (fl (2 * ?b * u))" using m by (simp add: abs_le_2_53)
  let ?v = "fl (- ?b + fl (2 * ?b * u))"
  have a: "f_add (Fin (- ?b)) (Fin (fl (2 * ?b * u))) = Fin ?v"
    using up lo b' by (simp add: abs_le_2_53 abs_le_iff)
  have "of_int (- b) \<le> ?v" by (rule fl_ge_of_int) (use lo b in auto)
  moreover have "?v \<le> of_int b" by (rule fl_le_of_int) (use up b in auto)
  ultimately show ?thesis by (simp add: rng_uniform_def u(1) d p a del: f_add.simps f_mul.simps)
qed

lemma uniform_points_valid:
  assumes "good_rng r"
  shows "length (fst (uniform_points r whole_lat whole_lon n s)) = n \<and>
         (\<forall>p \<in> set (fst (uniform_points r whole_lat whole_lon n s)). valid_point p)"
proof (induction n arbitrary: s)
  case 0
  show ?case by simp
next
  case (Suc n)
  obtain a s1 where a: "rng_uniform r (Fin (- 90)) (Fin 90) s = (Fin a, s1)" "- 90 \<le> a" "a \<le> 90"
    using rng_uniform_symmetric [OF assms, of 90 s] by auto
  obtain b s2 where b: "rng_uniform r (Fin (- 180)) (Fin 180) s1 = (Fin b, s2)" "- 180 \<le> b" "b \<le> 180"
    using rng_uniform_symmetric [OF assms, of 180 s1] by auto
  show ?case using Suc [of s2] a b
    by (auto simp: whole_lat_def whole_lon_def split: prod.splits)
qed

lemma uniform_distribution_valid:
  assumes "good_rng r" and "uniform_distribution r n whole_lat whole_lon s = (points, s')"
  shows "length points = nat n" and "\<forall>p \<in> set points. valid_point p"
  using uniform_points_valid [OF assms(1), of "nat n" s] assms(2) by (simp_all add: uniform_distribution_def)

lemma clamp_lat_Fin: "\<exists>y. clamp_lat (Fin x) = Fin y \<and> - 90 \<le> y \<and> y \<le> 90"
  by (auto simp: clamp_lat_def py_max_def py_min_def)

lemma gaussian_points_valid:
  assumes r: "good_rng r" and m: "\<bar>lon\<bar> + 9 * \<bar>d\<bar> \<le> 2 ^ 53"
  shows "\<exists>points s'. gaussian_points r (Fin lat, Fin lon) (Fin e) (Fin d) n s = Some (points, s') \<and>
           length points = n \<and> (\<forall>p \<in> set points. valid_point p)"
proof (induction n arbitrary: s)
  case 0
  show ?case by simp
next
  case (Suc n)
  obtain g s1 where g: "rng_gauss r (Fin lat) (Fin e) s = (Fin g, s1)" using good_rngD(3) [OF r] by blast
  obtain h s2 where h: "rng_gauss r (Fin lon) (Fin d) s1 = (Fin h, s2)" "\<bar>h\<bar> \<le> \<bar>lon\<bar> + 9 * \<bar>d\<bar>"
    using good_rngD(3) [OF r] by blast
  obtain y where y: "wrap_lon (Fin h) = Some (Fin y)" "- 180 \<le> y" "y \<le> 180"
    using wrap_lon_returns [of h] h(2) m by fastforce
  obtain x where x: "clamp_lat (Fin g) = Fin x" "- 90 \<le> x" "x \<le> 90" using clamp_lat_Fin by blast
  show ?case using Suc [of s2] by (auto simp: g h(1) y x)
qed

subsection \<open>Sizes and ranges\<close>

lemma shuffle_from_mset:
  assumes "good_rng r" and "xs = [] \<or> i < length xs"
  shows "mset (fst (shuffle_from r i xs s)) = mset xs"
  using assms(2)
proof (induction i arbitrary: xs s)
  case 0
  show ?case by simp
next
  case (Suc i)
  show ?case
  proof (cases "rng_below r (Suc i + 1) s")
    case (Pair j s1)
    have "j < Suc i + 1" using good_rngD(2) [OF assms(1), of "Suc i + 1" s] Pair by simp
    show ?thesis
    proof (cases "xs = []")
      case True
      then show ?thesis using Suc.IH [of "[]" s1] Pair by (simp add: swap_at_def)
    next
      case False
      then have l: "Suc i < length xs" "j < length xs" using Suc.prems \<open>j < Suc i + 1\<close> by simp_all
      then have "mset (swap_at (Suc i) j xs) = mset xs" unfolding swap_at_def by (intro mset_swap)
      moreover have "mset (fst (shuffle_from r i (swap_at (Suc i) j xs) s1)) = mset (swap_at (Suc i) j xs)"
        using l by (intro Suc.IH) (simp add: swap_at_def)
      ultimately show ?thesis using Pair by simp
    qed
  qed
qed

lemma rng_shuffle_same:
  assumes "good_rng r" and "rng_shuffle r xs s = (ys, s')"
  shows "mset ys = mset xs"
  using shuffle_from_mset [OF assms(1), of xs "length xs - 1" s] assms(2)
  by (cases "xs = []") (auto simp: rng_shuffle_def)

text \<open>What the parameters of a cluster have to be: a cosine within its range, a spread up to \<open>2 ** 48\<close> km.\<close>

definition good_cosine :: "(pyfloat \<Rightarrow> pyfloat) \<Rightarrow> bool" where
  "good_cosine cosine \<longleftrightarrow> (\<forall>x. \<exists>c. cosine (Fin x) = Fin c \<and> - 1 \<le> c \<and> c \<le> 1)"

definition good_spread :: "pyfloat \<Rightarrow> bool" where
  "good_spread std_km \<longleftrightarrow> f_le (Fin 0) std_km \<and> f_le std_km (Fin (2 ^ 48))"

definition good_center :: "coords \<Rightarrow> bool" where
  "good_center p \<longleftrightarrow> (\<exists>a b. p = (Fin a, Fin b) \<and> \<bar>b\<bar> \<le> 2 ^ 52)"

lemma good_spreadE:
  assumes "good_spread d"
  obtains x where "d = Fin x" and "0 \<le> x" and "x \<le> 2 ^ 48"
  using assms by (cases d) (auto simp: good_spread_def)

lemma lon_deviation_bounded:
  assumes "good_cosine cosine" and "0 \<le> x" and "x \<le> 2 ^ 48"
  shows "\<exists>e. lon_deviation cosine (Fin lat) (Fin x) = Inr (Fin e) \<and> \<bar>e\<bar> \<le> 2 ^ 48"
proof -
  obtain c where c: "cosine (Fin lat) = Fin c" "c \<le> 1" using assms(1) unfolding good_cosine_def by blast
  have "\<bar>fl (1 / 100) - 1 / 100\<bar> \<le> \<bar>1 / 100\<bar> / 2 ^ 53" by (rule fl_error_normal [of 7]) simp_all
  then have "\<bar>fl (1 / 100) - 1 / 100\<bar> \<le> 1 / 2000" by (rule order_trans) simp
  then have small: "1 / 111 \<le> fl (1 / 100)" "fl (1 / 100) \<le> 1" unfolding abs_le_iff by linarith+
  define m where "m = (if c < fl (1 / 100) then fl (1 / 100) else c)"
  have m: "py_max (Fin c) (Fin (fl (1 / 100))) = Fin m" "1 \<le> 111 * m" "111 * m \<le> 111"
    using c(2) small by (auto simp: m_def py_max_def)
  let ?q = "fl (111 * m)"
  have q: "f_mul (Fin 111) (Fin m) = Fin ?q" using m by (simp add: abs_le_2_53)
  have "of_int 1 \<le> ?q" by (rule fl_ge_of_int) (use m in simp_all)
  then have q1: "1 \<le> ?q" by simp
  then have "x / ?q \<le> x / 1" using assms(2) by (intro divide_left_mono) simp_all
  moreover have "0 \<le> x / ?q" using assms(2) q1 by simp
  ultimately have b: "\<bar>x / ?q\<bar> \<le> 2 ^ 48" using assms(3) by simp
  have "mk_float (x / ?q) = Fin (fl (x / ?q))" by (rule mk_float_Fin [OF b]) simp
  then show ?thesis using fl_abs_le_pow2 [OF b] q1
    by (simp add: lon_deviation_def c(1) m(1) q del: f_mul.simps)
qed

lemma gaussian_cluster_valid:
  assumes "good_rng r" and "good_cosine cosine" and "good_center p" and "good_spread d"
  shows "\<exists>points s'. gaussian_cluster cosine r p n d s = Some (Inr points, s') \<and>
           length points = nat n \<and> (\<forall>q \<in> set points. valid_point q)"
proof -
  obtain a b where p: "p = (Fin a, Fin b)" "\<bar>b\<bar> \<le> 2 ^ 52" using assms(3) unfolding good_center_def by blast
  obtain x where x: "d = Fin x" "0 \<le> x" "x \<le> 2 ^ 48" using assms(4) by (rule good_spreadE)
  obtain e where e: "lon_deviation cosine (Fin a) (Fin x) = Inr (Fin e)" "\<bar>e\<bar> \<le> 2 ^ 48"
    using lon_deviation_bounded [OF assms(2) x(2,3)] by blast
  have lat: "f_div (Fin x) (Fin 111) = Inr (Fin (fl (x / 111)))" using x by (simp add: abs_le_2_53)
  have "\<bar>b\<bar> + 9 * \<bar>e\<bar> \<le> 2 ^ 53" using p(2) e(2) by simp
  from gaussian_points_valid [OF assms(1) this, of a "fl (x / 111)" "nat n" s]
  obtain points s' where g: "gaussian_points r p (Fin (fl (x / 111))) (Fin e) (nat n) s = Some (points, s')"
      "length points = nat n" "\<forall>q \<in> set points. valid_point q"
    unfolding p(1) by blast
  from lat g show ?thesis by (simp add: gaussian_cluster_def x(1) p(1) e(1) bindE_def del: f_div.simps)
qed

lemma clusters_valid:
  assumes r: "good_rng r" and c: "good_cosine cosine" and d: "good_spread d" and per: "0 \<le> per"
    and "\<forall>x \<in> set cs. \<exists>p. center x = Inr p \<and> good_center p"
  shows "\<exists>points s'. clusters cosine r center per rm d i cs s = Some (Inr points, s') \<and>
           int (length points) = int (length cs) * per + max 0 (min (int (length cs)) (rm - i)) \<and>
           (\<forall>q \<in> set points. valid_point q)"
  using assms(5)
proof (induction cs arbitrary: i s)
  case Nil
  show ?case by simp
next
  case (Cons x cs)
  obtain p where p: "center x = Inr p" "good_center p" using Cons.prems by auto
  obtain mine s1 where m: "gaussian_cluster cosine r p (per + (if i < rm then 1 else 0)) d s = Some (Inr mine, s1)"
      "length mine = nat (per + (if i < rm then 1 else 0))" "\<forall>q \<in> set mine. valid_point q"
    using gaussian_cluster_valid [OF r c p(2) d] by blast
  obtain more s2 where o: "clusters cosine r center per rm d (i + 1) cs s1 = Some (Inr more, s2)"
      "int (length more) = int (length cs) * per + max 0 (min (int (length cs)) (rm - (i + 1)))"
      "\<forall>q \<in> set more. valid_point q"
    using Cons.IH [of "i + 1" s1] Cons.prems by auto
  have "int (length (mine @ more)) =
          int (length (x # cs)) * per + max 0 (min (int (length (x # cs))) (rm - i))"
    using m(2) o(2) per by (simp add: algebra_simps max_def min_def)
  then show ?case using p(1) m(1,3) o(1,3) by (auto simp: bindE_def)
qed

lemma concentrated_length:
  assumes r: "good_rng r" and c: "good_cosine cosine" and d: "good_spread d"
    and cs: "cs \<noteq> []" "\<forall>x \<in> set cs. \<exists>p. center x = Inr p \<and> good_center p"
    and n: "0 \<le> n" "n \<le> 2 ^ 53" and h: "0 \<le> h" "of_int n * h \<le> 2 ^ 53"
  shows "\<exists>points s'. concentrated cosine r center cs n (Fin h) d s = Some (Inr points, s') \<and>
           int (length points) = max n (trunc (fl (of_int n * h))) \<and> (\<forall>q \<in> set points. valid_point q)"
proof -
  let ?x = "fl (of_int n * h)" and ?k = "int (length cs)"
  have k: "0 < ?k" using cs(1) by simp
  have n': "0 \<le> (of_int n :: rat)" using n by simp
  with h have x: "0 \<le> of_int n * h" "of_int n * h \<le> 2 ^ 53" by simp_all
  have y: "0 \<le> ?x" by (rule fl_nonneg [OF x(1)])
  define near where "near = trunc ?x"
  have near: "0 \<le> near" using y by (simp add: near_def trunc_def)
  have f: "float_of_int n = Inr (Fin (of_int n))" using n by (intro float_of_int_small) simp
  have i: "bindE (float_of_int n) (\<lambda>m. py_int (f_mul m (Fin h))) = Inr near"
    using x by (simp add: f abs_le_2_53 near_def abs_le_iff)
  have per: "0 \<le> near div ?k" using near k by (simp add: pos_imp_zdiv_nonneg_iff)
  obtain points s1 where p:
      "clusters cosine r center (near div ?k) (near mod ?k) d 0 cs s = Some (Inr points, s1)"
      "int (length points) = ?k * (near div ?k) + max 0 (min ?k (near mod ?k - 0))"
      "\<forall>q \<in> set points. valid_point q"
    using clusters_valid [OF r c d per cs(2)] by blast
  have "0 \<le> near mod ?k" "near mod ?k < ?k" using k by simp_all
  then have l: "int (length points) = near" using p(2) by simp
  obtain far s2 where u: "uniform_distribution r (n - near) whole_lat whole_lon s1 = (far, s2)" by fastforce
  obtain all s3 where a: "rng_shuffle r (points @ far) s2 = (all, s3)" by fastforce
  have m: "mset all = mset (points @ far)" by (rule rng_shuffle_same [OF r a])
  have "int (length all) = max n near"
    using mset_eq_length [OF m] uniform_distribution_valid(1) [OF r u] l near by simp
  moreover have "\<forall>q \<in> set all. valid_point q"
    using mset_eq_setD [OF m] uniform_distribution_valid(2) [OF r u] p(3) by auto
  ultimately show ?thesis using cs(1) by (simp add: concentrated_def i p(1) u a flip: near_def)
qed

lemma share_at_most:
  assumes "0 \<le> n" and "n \<le> 2 ^ 53" and "0 \<le> h" and "h \<le> (1 :: rat)"
  shows "of_int n * h \<le> 2 ^ 53" and "trunc (fl (of_int n * h)) \<le> n"
proof -
  have n: "0 \<le> (of_int n :: rat)" "(of_int n :: rat) \<le> of_int (2 ^ 53)" using assms(1,2) by (simp_all only: of_int_le_iff of_int_0_le_iff)
  then have "of_int n * h \<le> of_int n * 1" using assms(4) by (intro mult_left_mono)
  then have le: "of_int n * h \<le> of_int n" by simp
  then show "of_int n * h \<le> 2 ^ 53" using n(2) by simp
  have "0 \<le> of_int n * h" using n(1) assms(3) by simp
  then have "0 \<le> fl (of_int n * h)" "fl (of_int n * h) \<le> of_int n"
    using fl_nonneg fl_le_of_int [OF le] assms(1,2) by simp_all
  then show "trunc (fl (of_int n * h)) \<le> n" by (simp add: trunc_def floor_le_iff)
qed

lemma concentrated_valid:
  assumes "good_rng r" and "good_cosine cosine" and "good_spread d"
    and "cs \<noteq> []" "\<forall>x \<in> set cs. \<exists>p. center x = Inr p \<and> good_center p"
    and "0 \<le> n" "n \<le> 2 ^ 53" and "0 \<le> h" "h \<le> 1"
  shows "\<exists>points s'. concentrated cosine r center cs n (Fin h) d s = Some (Inr points, s') \<and>
           int (length points) = n \<and> (\<forall>q \<in> set points. valid_point q)"
  using concentrated_length [OF assms(1-8), of s] share_at_most [OF assms(6-9)] by (simp add: max_def)

lemma get_city_coords_good: "name \<in> fst ` set cities \<Longrightarrow> \<exists>p. get_city_coords name = Inr p \<and> good_center p"
proof -
  assume "name \<in> fst ` set cities"
  then obtain c where c: "map_of cities name = Some c" by (metis map_of_eq_None_iff not_None_eq)
  have "\<forall>(name, c) \<in> set cities. \<bar>city_lon c\<bar> \<le> 2 ^ 8" by (simp add: cities_def city_of_def)
  then have "\<bar>fl (city_lon c)\<bar> \<le> 2 ^ 8" using map_of_SomeD [OF c] by (intro fl_abs_le_pow2) auto
  then show ?thesis by (simp add: get_city_coords_def c good_center_def)
qed

definition valid_event :: "dataset_config \<Rightarrow> test_event \<Rightarrow> bool" where
  "valid_event cfg e \<longleftrightarrow>
     valid_point (te_latitude e, te_longitude e) \<and> length (te_entity_id e) = 32 \<and>
     set (te_entity_id e) \<subseteq> set ''0123456789abcdef'' \<and>
     fst (ds_ttl_range cfg) \<le> te_ttl_seconds e \<and> te_ttl_seconds e \<le> snd (ds_ttl_range cfg) \<and>
     (case te_user_data e of None \<Rightarrow> \<not> ds_include_user_data cfg
      | Some d \<Rightarrow> ds_include_user_data cfg \<and> 0 \<le> d \<and> d \<le> 1000)"

lemma hex_digit_in: "d < 16 \<Longrightarrow> hex_digit d \<in> set ''0123456789abcdef''"
proof -
  assume "d < 16"
  moreover have "\<forall>d \<in> set [0..<16]. hex_digit d \<in> set ''0123456789abcdef''" by code_simp
  ultimately show ?thesis by simp
qed

lemma hex_text_digits: "length (hex_text k n) = k \<and> set (hex_text k n) \<subseteq> set ''0123456789abcdef''"
proof -
  have "length (hex_text k n) = k \<and> set (hex_text k n) \<subseteq> D" if "\<forall>d < 16. hex_digit d \<in> D" for D
    using that by (induction k n rule: hex_text.induct) simp_all
  then show ?thesis using hex_digit_in by blast
qed

lemma rng_randint_in:
  assumes "good_rng r" and "a \<le> b"
  shows "\<exists>x s'. rng_randint r a b s = (Inr x, s') \<and> a \<le> x \<and> x \<le> b"
proof (cases "rng_below r (nat (b - a + 1)) s")
  case (Pair k s')
  have "k < nat (b - a + 1)"
    using good_rngD(2) [OF assms(1), of "nat (b - a + 1)" s] Pair assms(2) by simp
  with Pair assms(2) show ?thesis by (simp add: rng_randint_def)
qed

lemma make_events_valid:
  assumes r: "good_rng r" and ttl: "fst (ds_ttl_range cfg) \<le> snd (ds_ttl_range cfg)"
    and "\<forall>p \<in> set points. valid_point p"
  shows "\<exists>events s'. make_events r (ds_ttl_range cfg) (ds_include_user_data cfg) points s = (Inr events, s') \<and>
           length events = length points \<and> (\<forall>e \<in> set events. valid_event cfg e)"
  using assms(3)
proof (induction points arbitrary: s)
  case Nil
  show ?case by simp
next
  case (Cons p points)
  obtain lat lon where p: "p = (lat, lon)" by fastforce
  obtain bits s1 where b: "rng_bits r 128 s = (bits, s1)" by fastforce
  obtain t s2 where t: "rng_randint r (fst (ds_ttl_range cfg)) (snd (ds_ttl_range cfg)) s1 = (Inr t, s2)"
      "fst (ds_ttl_range cfg) \<le> t" "t \<le> snd (ds_ttl_range cfg)"
    using rng_randint_in [OF r ttl] by blast
  obtain d s3 where d: "rng_randint r 0 1000 s2 = (Inr d, s3)" "0 \<le> d" "d \<le> 1000"
    using rng_randint_in [OF r, of 0 1000 s2] by auto
  have v: "valid_point (lat, lon)" using Cons.prems p by simp
  obtain more s4 where m: "make_events r (ds_ttl_range cfg) (ds_include_user_data cfg) points
        (if ds_include_user_data cfg then s3 else s2) = (Inr more, s4)"
      "length more = length points" "\<forall>e \<in> set more. valid_event cfg e"
    using Cons.IH [of "if ds_include_user_data cfg then s3 else s2"] Cons.prems by auto
  show ?case using v t(2,3) d(2,3) m(2,3) hex_text_digits [of 32 bits]
    by (cases "ds_include_user_data cfg") (use m(1) in \<open>auto simp: p b t(1) d(1) valid_event_def\<close>)
qed

subsection \<open>What a dataset holds\<close>

definition good_share :: "pyfloat \<Rightarrow> bool" where
  "good_share f \<longleftrightarrow> f_le (Fin 0) f \<and> f_le f (Fin 1)"

definition good_dataset_config :: "dataset_config \<Rightarrow> bool" where
  "good_dataset_config cfg \<longleftrightarrow>
     0 \<le> ds_size cfg \<and> ds_size cfg \<le> 2 ^ 53 \<and> fst (ds_ttl_range cfg) \<le> snd (ds_ttl_range cfg) \<and>
     (ds_pattern cfg = ''uniform'' \<or>
      ds_pattern cfg = ''city_concentrated'' \<and> ds_cities cfg \<noteq> [] \<and> set (ds_cities cfg) \<subseteq> fst ` set cities \<and>
        good_share (ds_concentration cfg) \<and> good_spread (ds_std_km cfg) \<or>
      ds_pattern cfg = ''hotspot'' \<and> ds_hotspots cfg \<noteq> [] \<and> (\<forall>p \<in> set (ds_hotspots cfg). good_center p) \<and>
        good_share (ds_hotspot_ratio cfg))"

lemma good_shareE:
  assumes "good_share f"
  obtains h where "f = Fin h" and "0 \<le> h" and "h \<le> 1"
  using assms by (cases f) (auto simp: good_share_def)

lemma event_coords_valid:
  assumes r: "good_rng r" and c: "good_cosine cosine" and g: "good_dataset_config cfg"
  shows "\<exists>points s'. event_coords cosine r cfg s = Some (Inr points, s') \<and>
           int (length points) = ds_size cfg \<and> (\<forall>q \<in> set points. valid_point q)"
proof -
  have n: "0 \<le> ds_size cfg" "ds_size cfg \<le> 2 ^ 53" using g by (simp_all add: good_dataset_config_def)
  consider (uniform) "ds_pattern cfg = ''uniform''"
    | (city) "ds_pattern cfg = ''city_concentrated''" "ds_cities cfg \<noteq> []" "set (ds_cities cfg) \<subseteq> fst ` set cities"
        "good_share (ds_concentration cfg)" "good_spread (ds_std_km cfg)"
    | (hotspot) "ds_pattern cfg = ''hotspot''" "ds_hotspots cfg \<noteq> []" "\<forall>p \<in> set (ds_hotspots cfg). good_center p"
        "good_share (ds_hotspot_ratio cfg)"
    using g unfolding good_dataset_config_def by blast
  then show ?thesis
  proof cases
    case uniform
    obtain points s' where u: "uniform_distribution r (ds_size cfg) whole_lat whole_lon s = (points, s')" by fastforce
    with uniform uniform_distribution_valid [OF r u] n show ?thesis by (simp add: event_coords_def)
  next
    case city
    from city(4) obtain h where h: "ds_concentration cfg = Fin h" "0 \<le> h" "h \<le> 1" by (rule good_shareE)
    have "\<forall>x \<in> set (ds_cities cfg). \<exists>p. get_city_coords x = Inr p \<and> good_center p"
      using city(3) get_city_coords_good by blast
    from concentrated_valid [OF r c city(5,2) this n h(2,3)] city(1,2) show ?thesis
      by (simp add: event_coords_def city_concentrated_def h(1))
  next
    case hotspot
    from hotspot(4) obtain h where h: "ds_hotspot_ratio cfg = Fin h" "0 \<le> h" "h \<le> 1" by (rule good_shareE)
    have d: "good_spread (Fin (1 / 2))" by (simp add: good_spread_def)
    have "\<forall>x \<in> set (ds_hotspots cfg). \<exists>p. (Inr x :: (py_exn, coords) result) = Inr p \<and> good_center p"
      using hotspot(3) by simp
    from concentrated_valid [OF r c d hotspot(2) this n h(2,3)] hotspot(1,2) show ?thesis
      by (simp add: event_coords_def hotspot_pattern_def h(1))
  qed
qed

text \<open>C36: With a share between 0 and 1, \<open>generate_events\<close> returns for every pattern, and
  returns exactly as many events as the configuration asks for: each one inside the world, with
  a 32-digit hexadecimal entity id, a time to live within the range, and user data exactly when
  it is asked for.\<close>

theorem generate_events_as_configured:
  assumes "good_rng r" and "good_cosine cosine" and "good_dataset_config cfg"
  shows "\<exists>events s'. generate_events cosine r seeded fresh cfg = Some (Inr events, s') \<and>
           int (length events) = ds_size cfg \<and> (\<forall>e \<in> set events. valid_event cfg e)"
proof -
  let ?s = "case ds_seed cfg of Some seed \<Rightarrow> seeded seed | None \<Rightarrow> fresh"
  obtain points s1 where p: "event_coords cosine r cfg ?s = Some (Inr points, s1)"
      "int (length points) = ds_size cfg" "\<forall>q \<in> set points. valid_point q"
    using event_coords_valid [OF assms] by blast
  have "fst (ds_ttl_range cfg) \<le> snd (ds_ttl_range cfg)" using assms(3) by (simp add: good_dataset_config_def)
  from make_events_valid [OF assms(1) this p(3), of s1] p(1,2) show ?thesis
    by (auto simp: generate_events_def)
qed

text \<open>A generator that counts, for the examples.\<close>

definition counting_rng :: "nat rng" where
  "counting_rng =
     \<lparr>rng_random = \<lambda>s. (Fin (of_nat (s mod 8) / 8), s + 1), rng_gauss = \<lambda>m d s. (m, s + 1),
      rng_below = \<lambda>n s. (s mod n, s + 1), rng_bits = \<lambda>k s. (s mod 2 ^ k, s + 1)\<rparr>"

lemma counting_rng_good: "good_rng counting_rng"
proof -
  have "(of_nat (s mod 8) :: rat) / 8 < 1" for s
  proof -
    have "(of_nat (s mod 8) :: rat) < of_nat 8" by (simp only: of_nat_less_iff mod_less_divisor)
    then show ?thesis by simp
  qed
  then show ?thesis unfolding good_rng_def counting_rng_def by (auto intro!: exI [of _ "of_nat (s mod 8) / 8" for s])
qed

definition three_events :: dataset_config where
  "three_events = default_dataset_config\<lparr>ds_size := 3, ds_pattern := ''hotspot'',
     ds_hotspots := [(Fin 10, Fin 20)], ds_seed := Some 42\<rparr>"

lemma three_events_good: "good_dataset_config three_events"
proof -
  have "0 \<le> fl (19 / 20)" "fl (19 / 20) \<le> of_int 1"
    by (rule fl_nonneg, simp) (rule fl_le_of_int, simp_all)
  then show ?thesis
    by (simp add: good_dataset_config_def three_events_def default_dataset_config_def good_share_def good_center_def)
qed

theorem generate_events_as_configured_witness:
  "\<exists>events s'. generate_events (\<lambda>x. Fin 1) counting_rng nat 0 three_events = Some (Inr events, s') \<and>
     int (length events) = 3 \<and> (\<forall>e \<in> set events. valid_event three_events e)"
  using generate_events_as_configured [OF counting_rng_good _ three_events_good, of "\<lambda>x. Fin 1" nat 0]
  by (simp add: good_cosine_def three_events_def)

text \<open>A concentration above 1 is not refused: a configuration that is otherwise as it should
  be then gets a dataset of \<open>size * concentration\<close> events, more than its size.\<close>

theorem overfull_share_oversizes_dataset:
  assumes "good_rng r" and "good_cosine cosine" and "good_dataset_config (cfg\<lparr>ds_concentration := Fin 1\<rparr>)"
    and "ds_pattern cfg = ''city_concentrated''" and "ds_concentration cfg = Fin h" and "0 \<le> h"
    and "of_int (ds_size cfg) * h \<le> 2 ^ 53"
  shows "\<exists>events s'. generate_events cosine r seeded fresh cfg = Some (Inr events, s') \<and>
           int (length events) = max (ds_size cfg) (trunc (fl (of_int (ds_size cfg) * h)))"
proof -
  let ?s = "case ds_seed cfg of Some seed \<Rightarrow> seeded seed | None \<Rightarrow> fresh"
  have g: "0 \<le> ds_size cfg" "ds_size cfg \<le> 2 ^ 53" "fst (ds_ttl_range cfg) \<le> snd (ds_ttl_range cfg)"
      "ds_cities cfg \<noteq> []" "set (ds_cities cfg) \<subseteq> fst ` set cities" "good_spread (ds_std_km cfg)"
    using assms(3,4) by (simp_all add: good_dataset_config_def)
  have "\<forall>x \<in> set (ds_cities cfg). \<exists>p. get_city_coords x = Inr p \<and> good_center p"
    using g(5) get_city_coords_good by blast
  from concentrated_length [OF assms(1,2) g(6,4) this g(1,2) assms(6,7), of ?s]
  obtain points s1 where p: "event_coords cosine r cfg ?s = Some (Inr points, s1)"
      "int (length points) = max (ds_size cfg) (trunc (fl (of_int (ds_size cfg) * h)))"
      "\<forall>q \<in> set points. valid_point q"
    using assms(4,5) g(4) by (auto simp: event_coords_def city_concentrated_def)
  from make_events_valid [OF assms(1) g(3) p(3), of s1] p(1,2) show ?thesis
    by (auto simp: generate_events_def)
qed

definition six_for_three :: dataset_config where
  "six_for_three = default_dataset_config\<lparr>ds_size := 3, ds_pattern := ''city_concentrated'',
     ds_cities := [''tokyo''], ds_concentration := Fin 2\<rparr>"

theorem overfull_share_oversizes_dataset_witness:
  "\<exists>events s'. generate_events (\<lambda>x. Fin 1) counting_rng nat 0 six_for_three = Some (Inr events, s') \<and>
     int (length events) = 6"
proof -
  have "good_dataset_config (six_for_three\<lparr>ds_concentration := Fin 1\<rparr>)"
    by (simp add: good_dataset_config_def six_for_three_def default_dataset_config_def good_share_def good_spread_def
        cities_def)
  moreover have "fl 6 = 6" using fl_of_int [of 6] by simp
  moreover have "trunc 6 = 6" using trunc_of_int [of 6] by simp
  ultimately show ?thesis
    using overfull_share_oversizes_dataset [OF counting_rng_good, of "\<lambda>x. Fin 1" six_for_three 2 nat 0]
    by (simp add: good_cosine_def six_for_three_def)
qed

text \<open>The two loops that wrap a longitude return for everything up to \<open>2 ** 53\<close>, with a value
  in range; where a step of 360 is lost in the rounding, as at \<open>2 ** 63\<close>, or at an infinity, they never do.\<close>

theorem longitude_wrap_returns:
  assumes "\<bar>x\<bar> \<le> 2 ^ 53"
  shows "(\<exists>y. wrap_lon (Fin x) = Some (Fin y) \<and> - 180 \<le> y \<and> y \<le> 180) \<and>
         wrap_lon (Fin (2 ^ 63)) = None \<and> wrap_lon PInf = None"
proof -
  have "f_sub (Fin (2 ^ 63)) (Fin 360) = Fin (2 ^ 63)" by code_simp
  then have "wrap_down (Fin (2 ^ 63)) = None" by (intro wrap_down_stuck) simp_all
  moreover have "wrap_down PInf = None" by (rule wrap_down_stuck) (simp_all add: f_sub_def)
  ultimately show ?thesis using wrap_lon_returns [OF assms] by (simp add: wrap_lon_def)
qed

theorem longitude_wrap_returns_witness:
  "(\<exists>y. wrap_lon (Fin 900) = Some (Fin y) \<and> - 180 \<le> y \<and> y \<le> 180) \<and>
   wrap_lon (Fin (2 ^ 63)) = None \<and> wrap_lon PInf = None"
  by (rule longitude_wrap_returns) simp

end
