(* ===== verification/Bench_Adapter.thy ===== *)
theory Bench_Adapter
  imports Data_Generator Geo_Types Py_Json
begin

section \<open>The adapter between test data and the SDK\<close>

text \<open>
  \<open>test_infrastructure/benchmarks/sdk_adapter.py\<close>: addresses, entity ids and event dicts as the
  SDK's types.  An event dict has JSON values; texts are strings of 8-bit characters.
\<close>

definition normalize_addresses ::
    "string list option \<Rightarrow> string option \<Rightarrow> int option \<Rightarrow> (py_exn, string list) result" where
  "normalize_addresses addresses host port =
     (case addresses of
        Some (a # as) \<Rightarrow> Inr (a # as)
      | _ \<Rightarrow>
          (case (host, port) of
             (Some h, Some p) \<Rightarrow> Inr [h @ '':'' @ show_int p]
           | _ \<Rightarrow> Inl ValueError))"

subsection \<open>Entity ids\<close>

text \<open>\<open>int(s, 16)\<close>: blanks around, a sign, a prefix \<open>0x\<close>, and underscores between digits.\<close>

definition hex_value :: "char \<Rightarrow> nat option" where
  "hex_value c = (let n = (of_char c :: nat) in
     if 48 \<le> n \<and> n \<le> 57 then Some (n - 48)
     else if 97 \<le> n \<and> n \<le> 102 then Some (n - 87)
     else if 65 \<le> n \<and> n \<le> 70 then Some (n - 55)
     else None)"

fun hex_groups_ok :: "bool \<Rightarrow> string \<Rightarrow> bool" where
  "hex_groups_ok after_digit [] \<longleftrightarrow> True"
| "hex_groups_ok after_digit (c # s) \<longleftrightarrow>
     (if c = CHR ''_'' then after_digit \<and> s \<noteq> [] \<and> hex_value (hd s) \<noteq> None \<and> hex_groups_ok False s
      else hex_groups_ok (hex_value c \<noteq> None) s)"

definition read_hex :: "string \<Rightarrow> nat" where
  "read_hex s = foldl (\<lambda>n c. n * 16 + (case hex_value c of Some d \<Rightarrow> d | None \<Rightarrow> 0)) 0 s"

definition int_of_hex :: "string \<Rightarrow> (py_exn, int) result" where
  "int_of_hex s =
     (case split_sign (strip s) of (neg, t) \<Rightarrow>
        let prefixed = (take 2 t = ''0x'' \<or> take 2 t = ''0X'');
            u = (if prefixed then drop 2 t else t);
            ds = filter (\<lambda>c. c \<noteq> CHR ''_'') u
        in if ds = [] \<or> \<not> hex_groups_ok prefixed u \<or> \<not> list_all (\<lambda>c. hex_value c \<noteq> None) ds then Inl ValueError
           else Inr (if neg then - int (read_hex ds) else int (read_hex ds)))"

text \<open>The text of anything that is neither an int nor a string is never one of a number that
  \<open>int\<close> reads: that of a float has a point, a sign of an exponent or a name, that of
  \<open>None\<close>, a list or a dict a letter or bracket.\<close>

definition parse_id_text :: "string \<Rightarrow> (py_exn, int) result" where
  "parse_id_text value =
     (let txt = strip value; lowered = py_lower txt; compact = filter (\<lambda>c. c \<noteq> CHR ''-'') txt in
      if txt = [] then Inl ValueError
      else if take 2 lowered = ''0x'' then int_of_hex lowered
      else if length compact = 32 then int_of_hex compact
      else if \<exists>c \<in> set lowered. c \<in> set ''abcdef'' then int_of_hex lowered
      else int_of_string txt)"

definition parse_entity_id :: "json \<Rightarrow> (py_exn, int) result" where
  "parse_entity_id value =
     (case value of
        JInt n \<Rightarrow> Inr n
      | JBool b \<Rightarrow> Inr (if b then 1 else 0)
      | JStr s \<Rightarrow> parse_id_text s
      | _ \<Rightarrow> Inl ValueError)"

subsection \<open>Events\<close>

fun json_int :: "json \<Rightarrow> (py_exn, int) result" where
  "json_int (JBool b) = Inr (if b then 1 else 0)"
| "json_int (JInt n) = Inr n"
| "json_int (JFloat x) = py_int x"
| "json_int (JStr s) = int_of_string s"
| "json_int _ = Inl TypeError"

type_synonym members = "(string \<times> json) list"

definition json_item :: "members \<Rightarrow> string \<Rightarrow> (py_exn, json) result" where
  "json_item d k = (case map_of d k of None \<Rightarrow> Inl KeyError | Some v \<Rightarrow> Inr v)"

definition int_member :: "members \<Rightarrow> string \<Rightarrow> (py_exn, int) result" where
  "int_member d k = json_int (json_get d k (JInt 0))"

definition float_member :: "members \<Rightarrow> string \<Rightarrow> (py_exn, pyfloat) result" where
  "float_member d k = json_float (json_get d k (JFloat (Fin 0)))"

definition id_member :: "members \<Rightarrow> string \<Rightarrow> (py_exn, int) result" where
  "id_member d k = parse_entity_id (json_get d k (JInt 0))"

definition event_dict_to_geo_event :: "members \<Rightarrow> (py_exn, geo_event) result" where
  "event_dict_to_geo_event d =
     bindE (json_item d ''entity_id'') (\<lambda>e. bindE (parse_entity_id e) (\<lambda>entity.
     bindE (id_member d ''correlation_id'') (\<lambda>correlation.
     bindE (id_member d ''user_data'') (\<lambda>udata.
     bindE (int_member d ''group_id'') (\<lambda>gid.
     bindE (int_member d ''ttl_seconds'') (\<lambda>ttl.
     bindE (int_member d ''flags'') (\<lambda>flags.
     if map_of d ''lat_nano'' \<noteq> None \<and> map_of d ''lon_nano'' \<noteq> None
     then
       bindE (id_member d ''id'') (\<lambda>eid.
       bindE (bindE (json_item d ''lat_nano'') json_int) (\<lambda>lat.
       bindE (bindE (json_item d ''lon_nano'') json_int) (\<lambda>lon.
       bindE (int_member d ''timestamp'') (\<lambda>ts.
       bindE (int_member d ''altitude_mm'') (\<lambda>alt.
       bindE (int_member d ''velocity_mms'') (\<lambda>vel.
       bindE (int_member d ''accuracy_mm'') (\<lambda>acc.
       bindE (int_member d ''heading_cdeg'') (\<lambda>hdg.
       Inr \<lparr>event_id = eid, entity_id = entity, correlation_id = correlation, user_data = udata,
            lat_nano = lat, lon_nano = lon, group_id = gid, timestamp = ts, altitude_mm = alt,
            velocity_mms = vel, ttl_seconds = ttl, accuracy_mm = acc, heading_cdeg = hdg,
            event_flags = flags\<rparr>))))))))
     else
       bindE (bindE (json_item d ''latitude'') json_float) (\<lambda>lat.
       bindE (bindE (json_item d ''longitude'') json_float) (\<lambda>lon.
       bindE (float_member d ''altitude_m'') (\<lambda>alt.
       bindE (float_member d ''velocity_mps'') (\<lambda>vel.
       bindE (float_member d ''accuracy_m'') (\<lambda>acc.
       bindE (float_member d ''heading'') (\<lambda>hdg.
       create_geo_event entity lat lon correlation udata gid alt vel ttl acc hdg flags)))))))))))))"

fun batch_to_geo_events :: "members list \<Rightarrow> (py_exn, geo_event list) result" where
  "batch_to_geo_events [] = Inr []"
| "batch_to_geo_events (d # ds) =
     bindE (event_dict_to_geo_event d) (\<lambda>e. bindE (batch_to_geo_events ds) (\<lambda>es. Inr (e # es)))"

text \<open>The dict that \<open>generate_events\<close> makes of an event.\<close>

definition event_members :: "test_event \<Rightarrow> members" where
  "event_members e =
     [(''entity_id'', JStr (te_entity_id e)), (''latitude'', JFloat (te_latitude e)),
      (''longitude'', JFloat (te_longitude e)), (''ttl_seconds'', JInt (te_ttl_seconds e))] @
     (case te_user_data e of None \<Rightarrow> [] | Some d \<Rightarrow> [(''user_data'', JInt d)])"

subsection \<open>Generated ids are read back\<close>

lemma hex_value_digit: "d < 16 \<Longrightarrow> hex_value (hex_digit d) = Some d"
  by (auto simp: hex_digit_def hex_value_def Let_def)

lemma read_hex_snoc: "read_hex (s @ [c]) = read_hex s * 16 + (case hex_value c of Some d \<Rightarrow> d | None \<Rightarrow> 0)"
  by (simp add: read_hex_def)

lemma read_hex_text: "read_hex (hex_text k n) = n mod 16 ^ k"
proof (induction k arbitrary: n)
  case 0
  show ?case by (simp add: read_hex_def)
next
  case (Suc k)
  have "read_hex (hex_text (Suc k) n) = n div 16 mod 16 ^ k * 16 + n mod 16"
    by (simp add: read_hex_snoc hex_value_digit Suc.IH)
  also have "\<dots> = n mod 16 ^ Suc k" using mod_mult2_eq [of n 16 "16 ^ k"] by (simp add: mult.commute)
  finally show ?case .
qed

abbreviation hex_chars :: "char set" where "hex_chars \<equiv> set ''0123456789abcdef''"

lemma hex_charsD:
  assumes "c \<in> hex_chars"
  shows "\<not> is_space c" "c \<noteq> CHR ''_''" "c \<noteq> CHR ''-''" "c \<noteq> CHR ''+''" "c \<noteq> CHR ''x''" "c \<noteq> CHR ''X''"
    "hex_value c \<noteq> None" "lower_char c = c"
proof -
  have "\<forall>c \<in> hex_chars. \<not> is_space c \<and> c \<noteq> CHR ''_'' \<and> c \<noteq> CHR ''-'' \<and> c \<noteq> CHR ''+'' \<and> c \<noteq> CHR ''x'' \<and>
      c \<noteq> CHR ''X'' \<and> hex_value c \<noteq> None \<and> lower_char c = c" by code_simp
  with assms show "\<not> is_space c" "c \<noteq> CHR ''_''" "c \<noteq> CHR ''-''" "c \<noteq> CHR ''+''" "c \<noteq> CHR ''x''" "c \<noteq> CHR ''X''"
    "hex_value c \<noteq> None" "lower_char c = c" by blast+
qed

lemma dropWhile_space_hex: "set s \<subseteq> hex_chars \<Longrightarrow> dropWhile is_space s = s"
  by (cases s) (use hex_charsD(1) in auto)

lemma strip_hex: "set s \<subseteq> hex_chars \<Longrightarrow> strip s = s"
  by (simp add: strip_def lstrip_def rstrip_def dropWhile_space_hex)

lemma hex_groups_plain: "set s \<subseteq> hex_chars \<Longrightarrow> hex_groups_ok b s"
  by (induction s arbitrary: b) (use hex_charsD(2) in auto)

lemma int_of_hex_plain:
  assumes "s \<noteq> []" and "set s \<subseteq> hex_chars"
  shows "int_of_hex s = Inr (int (read_hex s))"
proof -
  have c: "c \<in> hex_chars" if "c \<in> set s" for c using assms(2) that by blast
  have sign: "split_sign s = (False, s)"
    using c hex_charsD(3,4) assms(1) by (cases s) (auto simp: split_sign_def)
  have x: "CHR ''x'' \<notin> set (take 2 s)" "CHR ''X'' \<notin> set (take 2 s)"
    using c hex_charsD(5,6) in_set_takeD by metis+
  have "take 2 s \<noteq> ''0x''" "take 2 s \<noteq> ''0X''" by (rule notI, use x in simp)+
  moreover have "filter (\<lambda>c. c \<noteq> CHR ''_'') s = s"
    using c hex_charsD(2) by (simp add: filter_id_conv)
  moreover have "list_all (\<lambda>c. hex_value c \<noteq> None) s" using c hex_charsD(7) by (simp add: list_all_iff)
  ultimately show ?thesis
    using assms hex_groups_plain [OF assms(2)] by (simp add: int_of_hex_def strip_hex sign)
qed
lemma parse_id_hex32:
  assumes "length s = 32" and "set s \<subseteq> hex_chars"
  shows "parse_id_text s = Inr (int (read_hex s))"
proof -
  have ne: "s \<noteq> []" using assms(1) by auto
  have c: "c \<in> hex_chars" if "c \<in> set s" for c using assms(2) that by blast
  have "map lower_char s = s" using c hex_charsD(8) by (simp add: map_idI)
  then have low: "py_lower s = s" by (simp add: py_lower_def)
  have "CHR ''x'' \<notin> set (take 2 s)" using c hex_charsD(5) in_set_takeD by metis
  then have "take 2 s \<noteq> ''0x''" by (intro notI) simp
  moreover have "filter (\<lambda>c. c \<noteq> CHR ''-'') s = s" using c hex_charsD(3) by (simp add: filter_id_conv)
  ultimately show ?thesis
    using ne assms low int_of_hex_plain [OF ne assms(2)] by (simp add: parse_id_text_def strip_hex Let_def)
qed

lemma zero_conversions:
  "meters_to_mm (Fin 0) = Inr 0" "heading_to_centidegrees (Fin 0) = Inr 0"
  by (simp_all add: meters_to_mm_def heading_to_centidegrees_def times_int_def MM_PER_METER_def
      CENTIDEGREES_PER_DEGREE_def float_of_int_small mk_float_def rhe_of_int [of 0, simplified])

definition carries_event :: "test_event \<Rightarrow> geo_event \<Rightarrow> bool" where
  "carries_event e g \<longleftrightarrow>
     entity_id g = int (read_hex (te_entity_id e)) \<and> ttl_seconds g = te_ttl_seconds e \<and>
     user_data g = (case te_user_data e of None \<Rightarrow> 0 | Some d \<Rightarrow> d) \<and>
     degrees_to_nano (te_latitude e) = Inr (lat_nano g) \<and> degrees_to_nano (te_longitude e) = Inr (lon_nano g) \<and>
     \<bar>lat_nano g\<bar> \<le> 90000000000 \<and> \<bar>lon_nano g\<bar> \<le> 180000000000"

lemma event_members_carried:
  assumes "valid_event cfg e"
  shows "\<exists>g. event_dict_to_geo_event (event_members e) = Inr g \<and> carries_event e g"
proof -
  have p: "is_valid_latitude (te_latitude e)" "is_valid_longitude (te_longitude e)"
    using assms by (simp_all add: valid_event_def valid_point_def is_valid_latitude_def is_valid_longitude_def
        LAT_MAX_def LON_MAX_def)
  obtain lat where lat: "degrees_to_nano (te_latitude e) = Inr lat" "\<bar>lat\<bar> \<le> 90000000000"
    using degrees_to_nano_latitude [OF p(1)] by blast
  obtain lon where lon: "degrees_to_nano (te_longitude e) = Inr lon" "\<bar>lon\<bar> \<le> 180000000000"
    using degrees_to_nano_longitude [OF p(2)] by blast
  have i: "parse_id_text (te_entity_id e) = Inr (int (read_hex (te_entity_id e)))"
    using assms by (intro parse_id_hex32) (simp_all only: valid_event_def)
  show ?thesis
    by (cases "te_user_data e")
      (simp_all add: event_dict_to_geo_event_def event_members_def json_item_def id_member_def int_member_def
        float_member_def json_get_def parse_entity_id_def i create_geo_event_def p lat lon zero_conversions carries_event_def)
qed

lemma batch_carried:
  "\<forall>e \<in> set es. valid_event cfg e \<Longrightarrow>
     \<exists>gs. batch_to_geo_events (map event_members es) = Inr gs \<and> list_all2 carries_event es gs"
proof (induction es)
  case Nil
  show ?case by simp
next
  case (Cons e es)
  from Cons obtain gs where "batch_to_geo_events (map event_members es) = Inr gs" "list_all2 carries_event es gs" by auto
  with event_members_carried [of cfg e] Cons.prems show ?case by auto
qed

text \<open>An id is printed and read back: \<open>parse_entity_id(format(n, '032x'))\<close> is \<open>n\<close>.\<close>

theorem entity_id_roundtrip: "n < 2 ^ 128 \<Longrightarrow> parse_entity_id (JStr (hex_text 32 n)) = Inr (int n)"
proof -
  assume "n < 2 ^ 128"
  then have "n < 16 ^ 32" by simp
  then have "read_hex (hex_text 32 n) = n" by (simp add: read_hex_text)
  then show ?thesis using hex_text_digits [of 32 n] by (simp only: parse_entity_id_def json.case parse_id_hex32)
qed

theorem entity_id_roundtrip_witness: "parse_entity_id (JStr (hex_text 32 255)) = Inr 255"
  using entity_id_roundtrip [of 255] by simp

text \<open>C31: Generated test data reaches the SDK whole: for a configuration that is as it should be, every
  generated event is converted without an exception into an event of the SDK with its id,
  its time to live, its user data and its coordinates in nanodegrees.\<close>

theorem generated_events_reach_the_sdk:
  assumes "good_rng r" and "good_cosine cosine" and "good_dataset_config cfg"
  shows "\<exists>events s' gs. generate_events cosine r seeded fresh cfg = Some (Inr events, s') \<and>
    batch_to_geo_events (map event_members events) = Inr gs \<and> int (length gs) = ds_size cfg \<and>
    list_all2 carries_event events gs"
proof -
  let ?s = "case ds_seed cfg of Some seed \<Rightarrow> seeded seed | None \<Rightarrow> fresh"
  obtain points s1 where p: "event_coords cosine r cfg ?s = Some (Inr points, s1)"
      "int (length points) = ds_size cfg" "\<forall>q \<in> set points. valid_point q"
    using event_coords_valid [OF assms] by blast
  have "fst (ds_ttl_range cfg) \<le> snd (ds_ttl_range cfg)" using assms(3) by (simp add: good_dataset_config_def)
  from make_events_valid [OF assms(1) this p(3), of s1] obtain events s' where
    e: "make_events r (ds_ttl_range cfg) (ds_include_user_data cfg) points s1 = (Inr events, s')"
      "length events = length points" "\<forall>e \<in> set events. valid_event cfg e" by blast
  from batch_carried [OF e(3)] obtain gs where
    gs: "batch_to_geo_events (map event_members events) = Inr gs" "list_all2 carries_event events gs" by blast
  have "int (length gs) = ds_size cfg" using list_all2_lengthD [OF gs(2)] e(2) p(2) by simp
  with gs e(1) p(1) show ?thesis by (simp add: generate_events_def)
qed

theorem generated_events_reach_the_sdk_witness:
  "\<exists>events s' gs. generate_events (\<lambda>x. Fin 1) counting_rng nat 0 three_events = Some (Inr events, s') \<and>
     batch_to_geo_events (map event_members events) = Inr gs \<and> length gs = 3"
  using generated_events_reach_the_sdk [OF counting_rng_good _ three_events_good, of "\<lambda>x. Fin 1" nat 0]
  by (auto simp: good_cosine_def three_events_def)

end
