(* ===== verification/Bench_Workloads.thy ===== *)
theory Bench_Workloads
  imports Bench_Adapter Bench_Run
begin

section \<open>The workloads of the benchmarks\<close>

text \<open>
  \<open>test_infrastructure/benchmarks/workloads/\<close>: throughput, read latency, write latency and mixed.
  A workload is a record of its fields next to a state \<open>'c\<close> of everything outside: the
  SDK client, the clock and the random numbers, whose operations are the record
  \<open>bench_client\<close>.  An insert returns the number of reported errors, a lookup whether
  an event was found, both \<open>None\<close> for any exception.  Data come from \<open>gen\<close>, which is
  \<open>generate_events\<close> where that returns.
\<close>

record 'c bench_client =
  bk_build :: "string list \<Rightarrow> 'c \<Rightarrow> (py_exn, unit) result \<times> 'c"
  bk_insert :: "geo_event list \<Rightarrow> 'c \<Rightarrow> nat option \<times> 'c"
  bk_lookup :: "int \<Rightarrow> 'c \<Rightarrow> bool option \<times> 'c"
  bk_close :: "'c \<Rightarrow> 'c"
  bk_clock :: "'c \<Rightarrow> int \<times> 'c"
  bk_random :: "'c \<Rightarrow> pyfloat \<times> 'c"
  bk_below :: "nat \<Rightarrow> 'c \<Rightarrow> nat \<times> 'c"

type_synonym data_source = "dataset_config \<Rightarrow> (py_exn, test_event list) result"

definition generate_geo_events :: "data_source \<Rightarrow> dataset_config \<Rightarrow> (py_exn, geo_event list) result" where
  "generate_geo_events gen cfg = bindE (gen cfg) (\<lambda>evs. batch_to_geo_events (map event_members evs))"

subsection \<open>Measured calls\<close>

definition timed :: "'c bench_client \<Rightarrow> ('c \<Rightarrow> bool \<times> 'c) \<Rightarrow> 'c \<Rightarrow> sample \<times> 'c" where
  "timed b f c =
     (case bk_clock b c of (start, c) \<Rightarrow>
        (case f c of (ok, c) \<Rightarrow>
           (case bk_clock b c of (stop, c) \<Rightarrow>
              (\<lparr>latency_ns = stop - start, sm_timestamp_ns = stop, success = ok\<rparr>, c))))"

definition insert_ok :: "'c bench_client \<Rightarrow> geo_event list \<Rightarrow> 'c \<Rightarrow> bool \<times> 'c" where
  "insert_ok b batch c = (case bk_insert b batch c of (r, c) \<Rightarrow> (r = Some 0, c))"

definition lookup_ok :: "'c bench_client \<Rightarrow> int \<Rightarrow> 'c \<Rightarrow> bool \<times> 'c" where
  "lookup_ok b eid c = (case bk_lookup b eid c of (r, c) \<Rightarrow> (r = Some True, c))"

text \<open>\<open>rng.choice(xs)\<close> of a non-empty list.\<close>

definition choice :: "'c bench_client \<Rightarrow> 'a list \<Rightarrow> 'c \<Rightarrow> 'a \<times> 'c" where
  "choice b xs c = (case bk_below b (length xs) c of (i, c) \<Rightarrow> (xs ! i, c))"

text \<open>The client that a workload builds when it has none.\<close>

definition ensure_client :: "'c bench_client \<Rightarrow> string list \<Rightarrow> bool \<Rightarrow> 'c \<Rightarrow> (py_exn, unit) result \<times> 'c" where
  "ensure_client b addresses has_client c = (if has_client then (Inr (), c) else bk_build b addresses c)"

definition drop_client :: "'c bench_client \<Rightarrow> bool \<Rightarrow> 'c \<Rightarrow> 'c" where
  "drop_client b has_client c = (if has_client then bk_close b c else c)"

subsection \<open>Throughput\<close>

record throughput_workload =
  tw_data :: dataset_config
  tw_batch_size :: int
  tw_addresses :: "string list"
  tw_batches :: "geo_event list list"
  tw_index :: nat
  tw_connected :: bool

definition new_throughput_workload ::
    "string list option \<Rightarrow> string option \<Rightarrow> int option \<Rightarrow> dataset_config \<Rightarrow> int \<Rightarrow> (py_exn, throughput_workload) result" where
  "new_throughput_workload addresses host port data batch_size =
     bindE (normalize_addresses addresses host port) (\<lambda>as.
     Inr \<lparr>tw_data = data, tw_batch_size = batch_size, tw_addresses = as, tw_batches = [], tw_index = 0, tw_connected = False\<rparr>)"

fun convert_batches :: "members list list \<Rightarrow> (py_exn, geo_event list list) result" where
  "convert_batches [] = Inr []"
| "convert_batches (d # ds) =
     bindE (batch_to_geo_events d) (\<lambda>b. bindE (convert_batches ds) (\<lambda>bs. Inr (b # bs)))"

text \<open>\<open>range(0, n, batch_size)\<close> raises for a step of 0 and is empty for a negative one.\<close>

definition throughput_setup ::
    "data_source \<Rightarrow> 'c bench_client \<Rightarrow> throughput_workload \<times> 'c \<Rightarrow> (py_exn, unit) result \<times> throughput_workload \<times> 'c" where
  "throughput_setup gen b s =
     (case s of (t, c) \<Rightarrow>
        case bindE (gen (tw_data t)) (\<lambda>evs.
            if tw_batch_size t = 0 then Inl ValueError
            else convert_batches (chunks (nat (tw_batch_size t)) (map event_members evs))) of
          Inl e \<Rightarrow> (Inl e, t, c)
        | Inr batches \<Rightarrow>
            (case bk_build b (tw_addresses t) c of
               (Inl e, c) \<Rightarrow> (Inl e, t\<lparr>tw_batches := batches, tw_index := 0\<rparr>, c)
             | (Inr u, c) \<Rightarrow> (Inr (), t\<lparr>tw_batches := batches, tw_index := 0, tw_connected := True\<rparr>, c)))"

definition throughput_execute_one :: "'c bench_client \<Rightarrow> (throughput_workload \<times> 'c) workload" where
  "throughput_execute_one b s =
     (case s of (t, c) \<Rightarrow>
        if tw_batches t = [] then (Inl (RuntimeError ''Workload not setup. Call setup() first.''), t, c)
        else
          case ensure_client b (tw_addresses t) (tw_connected t) c of
            (Inl e, c) \<Rightarrow> (Inl e, t, c)
          | (Inr u, c) \<Rightarrow>
              (case timed b (insert_ok b (tw_batches t ! (tw_index t mod length (tw_batches t)))) c of
                 (x, c) \<Rightarrow> (Inr x, t\<lparr>tw_index := tw_index t + 1, tw_connected := True\<rparr>, c)))"

definition get_events_per_batch :: "throughput_workload \<Rightarrow> int" where
  "get_events_per_batch t = tw_batch_size t"

definition throughput_cleanup :: "'c bench_client \<Rightarrow> throughput_workload \<times> 'c \<Rightarrow> throughput_workload \<times> 'c" where
  "throughput_cleanup b s =
     (case s of (t, c) \<Rightarrow> (t\<lparr>tw_batches := [], tw_index := 0, tw_connected := False\<rparr>, drop_client b (tw_connected t) c))"

subsection \<open>Read latency\<close>

record read_workload =
  rw_entity_ids :: "int list"
  rw_addresses :: "string list"
  rw_connected :: bool

fun parse_entity_ids :: "json list \<Rightarrow> (py_exn, int list) result" where
  "parse_entity_ids [] = Inr []"
| "parse_entity_ids (v # vs) = bindE (parse_entity_id v) (\<lambda>i. bindE (parse_entity_ids vs) (\<lambda>is. Inr (i # is)))"

definition new_read_workload ::
    "string list option \<Rightarrow> string option \<Rightarrow> int option \<Rightarrow> json list \<Rightarrow> (py_exn, read_workload) result" where
  "new_read_workload addresses host port ids =
     bindE (parse_entity_ids ids) (\<lambda>is. bindE (normalize_addresses addresses host port) (\<lambda>as.
     Inr \<lparr>rw_entity_ids = is, rw_addresses = as, rw_connected = False\<rparr>))"

definition read_setup :: "'c bench_client \<Rightarrow> read_workload \<times> 'c \<Rightarrow> (py_exn, unit) result \<times> read_workload \<times> 'c" where
  "read_setup b s =
     (case s of (t, c) \<Rightarrow>
        if rw_entity_ids t = [] then (Inl ValueError, t, c)
        else case bk_build b (rw_addresses t) c of
            (Inl e, c) \<Rightarrow> (Inl e, t, c)
          | (Inr u, c) \<Rightarrow> (Inr (), t\<lparr>rw_connected := True\<rparr>, c))"

definition read_execute_one :: "'c bench_client \<Rightarrow> (read_workload \<times> 'c) workload" where
  "read_execute_one b s =
     (case s of (t, c) \<Rightarrow>
        if rw_entity_ids t = [] then (Inl (RuntimeError ''Workload not setup. Call setup() first.''), t, c)
        else
          case ensure_client b (rw_addresses t) (rw_connected t) c of
            (Inl e, c) \<Rightarrow> (Inl e, t, c)
          | (Inr u, c) \<Rightarrow>
              (case choice b (rw_entity_ids t) c of (eid, c) \<Rightarrow>
                 (case timed b (lookup_ok b eid) c of (x, c) \<Rightarrow> (Inr x, t\<lparr>rw_connected := True\<rparr>, c))))"

definition read_cleanup :: "'c bench_client \<Rightarrow> read_workload \<times> 'c \<Rightarrow> read_workload \<times> 'c" where
  "read_cleanup b s = (case s of (t, c) \<Rightarrow> (t\<lparr>rw_connected := False\<rparr>, drop_client b (rw_connected t) c))"

subsection \<open>Write latency\<close>

record write_workload =
  ww_data :: dataset_config
  ww_addresses :: "string list"
  ww_events :: "geo_event list"
  ww_index :: nat
  ww_connected :: bool

definition new_write_workload ::
    "string list option \<Rightarrow> string option \<Rightarrow> int option \<Rightarrow> dataset_config \<Rightarrow> (py_exn, write_workload) result" where
  "new_write_workload addresses host port data =
     bindE (normalize_addresses addresses host port) (\<lambda>as.
     Inr \<lparr>ww_data = data, ww_addresses = as, ww_events = [], ww_index = 0, ww_connected = False\<rparr>)"

definition write_setup ::
    "data_source \<Rightarrow> 'c bench_client \<Rightarrow> write_workload \<times> 'c \<Rightarrow> (py_exn, unit) result \<times> write_workload \<times> 'c" where
  "write_setup gen b s =
     (case s of (t, c) \<Rightarrow>
        case generate_geo_events gen (ww_data t) of
          Inl e \<Rightarrow> (Inl e, t, c)
        | Inr evs \<Rightarrow>
            (case bk_build b (ww_addresses t) c of
               (Inl e, c) \<Rightarrow> (Inl e, t\<lparr>ww_events := evs, ww_index := 0\<rparr>, c)
             | (Inr u, c) \<Rightarrow> (Inr (), t\<lparr>ww_events := evs, ww_index := 0, ww_connected := True\<rparr>, c)))"

definition write_execute_one :: "'c bench_client \<Rightarrow> (write_workload \<times> 'c) workload" where
  "write_execute_one b s =
     (case s of (t, c) \<Rightarrow>
        if ww_events t = [] then (Inl (RuntimeError ''Workload not setup. Call setup() first.''), t, c)
        else
          case ensure_client b (ww_addresses t) (ww_connected t) c of
            (Inl e, c) \<Rightarrow> (Inl e, t, c)
          | (Inr u, c) \<Rightarrow>
              (case timed b (insert_ok b [ww_events t ! (ww_index t mod length (ww_events t))]) c of
                 (x, c) \<Rightarrow> (Inr x, t\<lparr>ww_index := ww_index t + 1, ww_connected := True\<rparr>, c)))"

definition write_cleanup :: "'c bench_client \<Rightarrow> write_workload \<times> 'c \<Rightarrow> write_workload \<times> 'c" where
  "write_cleanup b s =
     (case s of (t, c) \<Rightarrow> (t\<lparr>ww_events := [], ww_index := 0, ww_connected := False\<rparr>, drop_client b (ww_connected t) c))"

subsection \<open>Mixed\<close>

record mixed_sample = sample +
  operation_type :: string

record mixed_workload =
  mw_data :: dataset_config
  mw_read_ratio :: pyfloat
  mw_addresses :: "string list"
  mw_read_ids :: "int list"
  mw_write_events :: "geo_event list"
  mw_write_index :: nat
  mw_read_samples :: "mixed_sample list"
  mw_write_samples :: "mixed_sample list"
  mw_connected :: bool

definition new_mixed_workload ::
    "string list option \<Rightarrow> string option \<Rightarrow> int option \<Rightarrow> dataset_config \<Rightarrow> pyfloat \<Rightarrow> (py_exn, mixed_workload) result" where
  "new_mixed_workload addresses host port data ratio =
     (if \<not> (f_le (Fin 0) ratio \<and> f_le ratio (Fin 1)) then Inl ValueError
      else
        bindE (normalize_addresses addresses host port) (\<lambda>as.
        Inr \<lparr>mw_data = data, mw_read_ratio = ratio, mw_addresses = as, mw_read_ids = [], mw_write_events = [],
             mw_write_index = 0, mw_read_samples = [], mw_write_samples = [], mw_connected = False\<rparr>))"

text \<open>The data of the reads and of the writes; a seed of 0 counts as none for the writes.\<close>

definition half_config :: "dataset_config \<Rightarrow> int option \<Rightarrow> dataset_config" where
  "half_config cfg seed =
     default_dataset_config\<lparr>ds_size := ds_size cfg div 2, ds_pattern := ds_pattern cfg, ds_seed := seed,
       ds_cities := ds_cities cfg, ds_hotspots := ds_hotspots cfg\<rparr>"

definition write_seed :: "int option \<Rightarrow> int option" where
  "write_seed seed = (case seed of Some n \<Rightarrow> if n = 0 then None else Some (n + 1) | None \<Rightarrow> None)"

definition mixed_setup ::
    "data_source \<Rightarrow> 'c bench_client \<Rightarrow> mixed_workload \<times> 'c \<Rightarrow> (py_exn, unit) result \<times> mixed_workload \<times> 'c" where
  "mixed_setup gen b s =
     (case s of (t, c) \<Rightarrow>
        case generate_geo_events gen (half_config (mw_data t) (ds_seed (mw_data t))) of
          Inl e \<Rightarrow> (Inl e, t, c)
        | Inr initial \<Rightarrow>
            let t = t\<lparr>mw_read_ids := map entity_id initial\<rparr> in
            case generate_geo_events gen (half_config (mw_data t) (write_seed (ds_seed (mw_data t)))) of
              Inl e \<Rightarrow> (Inl e, t, c)
            | Inr writes \<Rightarrow>
                let t = t\<lparr>mw_write_events := writes, mw_write_index := 0\<rparr> in
                case bk_build b (mw_addresses t) c of
                  (Inl e, c) \<Rightarrow> (Inl e, t, c)
                | (Inr u, c) \<Rightarrow>
                    (Inr (), t\<lparr>mw_connected := True, mw_read_samples := [], mw_write_samples := []\<rparr>,
                     if initial = [] then c else snd (bk_insert b initial c)))"

definition mixed_of :: "sample \<Rightarrow> string \<Rightarrow> mixed_sample" where
  "mixed_of x kind = \<lparr>latency_ns = latency_ns x, sm_timestamp_ns = sm_timestamp_ns x, success = success x, operation_type = kind\<rparr>"

definition execute_read :: "'c bench_client \<Rightarrow> mixed_workload \<times> 'c \<Rightarrow> mixed_sample \<times> mixed_workload \<times> 'c" where
  "execute_read b s =
     (case s of (t, c) \<Rightarrow>
        (case choice b (mw_read_ids t) c of (eid, c) \<Rightarrow>
           (case timed b (lookup_ok b eid) c of (x, c) \<Rightarrow> (mixed_of x ''read'', t, c))))"

text \<open>The written entity joins the ids to read before the insert, whatever comes of it.\<close>

definition execute_write :: "'c bench_client \<Rightarrow> mixed_workload \<times> 'c \<Rightarrow> mixed_sample \<times> mixed_workload \<times> 'c" where
  "execute_write b s =
     (case s of (t, c) \<Rightarrow>
        let event = mw_write_events t ! (mw_write_index t mod length (mw_write_events t));
            t = t\<lparr>mw_write_index := mw_write_index t + 1, mw_read_ids := mw_read_ids t @ [entity_id event]\<rparr>
        in (case timed b (insert_ok b [event]) c of (x, c) \<Rightarrow> (mixed_of x ''write'', t, c)))"

definition execute_none :: "'c bench_client \<Rightarrow> mixed_workload \<times> 'c \<Rightarrow> mixed_sample \<times> mixed_workload \<times> 'c" where
  "execute_none b s =
     (case s of (t, c) \<Rightarrow>
        (case bk_clock b c of (now_ns, c) \<Rightarrow>
           (\<lparr>latency_ns = 0, sm_timestamp_ns = now_ns, success = False, operation_type = ''none''\<rparr>, t, c)))"

definition track_sample :: "mixed_sample \<Rightarrow> mixed_workload \<Rightarrow> mixed_workload" where
  "track_sample x t =
     (if operation_type x = ''read'' then t\<lparr>mw_read_samples := mw_read_samples t @ [x]\<rparr>
      else if operation_type x = ''write'' then t\<lparr>mw_write_samples := mw_write_samples t @ [x]\<rparr>
      else t)"

definition mixed_operation :: "'c bench_client \<Rightarrow> bool \<Rightarrow> mixed_workload \<times> 'c \<Rightarrow> mixed_sample \<times> mixed_workload \<times> 'c" where
  "mixed_operation b is_read s =
     (if is_read \<and> mw_read_ids (fst s) \<noteq> [] then execute_read b s
      else if mw_write_events (fst s) \<noteq> [] then execute_write b s
      else if mw_read_ids (fst s) \<noteq> [] then execute_read b s
      else execute_none b s)"

definition mixed_execute_one ::
    "'c bench_client \<Rightarrow> mixed_workload \<times> 'c \<Rightarrow> (py_exn, mixed_sample) result \<times> mixed_workload \<times> 'c" where
  "mixed_execute_one b s =
     (case s of (t, c) \<Rightarrow>
        if mw_read_ids t = [] \<and> mw_write_events t = []
        then (Inl (RuntimeError ''Workload not setup. Call setup() first.''), t, c)
        else
          case ensure_client b (mw_addresses t) (mw_connected t) c of
            (Inl e, c) \<Rightarrow> (Inl e, t, c)
          | (Inr u, c) \<Rightarrow>
              (case bk_random b c of (x, c) \<Rightarrow>
                 (case mixed_operation b (f_lt x (mw_read_ratio t)) (t\<lparr>mw_connected := True\<rparr>, c) of
                    (y, t, c) \<Rightarrow> (Inr y, track_sample y t, c))))"

text \<open>As the executor sees it, which looks at the fields of a plain sample only.\<close>

definition mixed_step :: "'c bench_client \<Rightarrow> (mixed_workload \<times> 'c) workload" where
  "mixed_step b s = (case mixed_execute_one b s of (r, s) \<Rightarrow> (bindE r (\<lambda>x. Inr (sample.truncate x)), s))"

definition mixed_cleanup :: "'c bench_client \<Rightarrow> mixed_workload \<times> 'c \<Rightarrow> mixed_workload \<times> 'c" where
  "mixed_cleanup b s =
     (case s of (t, c) \<Rightarrow>
        (t\<lparr>mw_read_ids := [], mw_write_events := [], mw_read_samples := [], mw_write_samples := [],
           mw_write_index := 0, mw_connected := False\<rparr>, drop_client b (mw_connected t) c))"

subsection \<open>Counting calls\<close>

text \<open>A measure that every sample of a workload increases by one counts its calls.\<close>

definition counts_calls :: "('s \<Rightarrow> bool) \<Rightarrow> ('s \<Rightarrow> nat) \<Rightarrow> 's workload \<Rightarrow> bool" where
  "counts_calls P f w \<longleftrightarrow> (\<forall>s x s'. P s \<and> w s = (Inr x, s') \<longrightarrow> P s' \<and> f s' = Suc (f s))"

lemma counts_callsD: "counts_calls P f w \<Longrightarrow> P s \<Longrightarrow> w s = (Inr x, s') \<Longrightarrow> P s' \<and> f s' = Suc (f s)"
  unfolding counts_calls_def by blast

lemma warm_calls_count:
  assumes "counts_calls P f w" and "P s" and "warm_calls w n latencies s = (Inr ls, s')"
  shows "P s' \<and> f s' = f s + n"
  using assms(2,3)
proof (induction n arbitrary: latencies s)
  case 0
  then show ?case by simp
next
  case (Suc n)
  from Suc.prems(2) obtain x u where x: "w s = (Inr x, u)" "warm_calls w n (latencies @ [latency_ns x]) u = (Inr ls, s')"
    by (auto split: prod.splits sum.splits)
  from Suc.IH [OF _ x(2)] counts_callsD [OF assms(1) Suc.prems(1) x(1)] show ?case by simp
qed

lemma stabilize_count:
  assumes "counts_calls P f w" and "P s" and "stabilize lib c w n latencies s = (Inr settled, s')"
  shows "P s' \<and> f s \<le> f s'"
  using assms(2,3)
proof (induction n arbitrary: latencies s)
  case 0
  then show ?case by simp
next
  case (Suc n)
  show ?case
  proof (cases "window_stable lib c latencies = Inr False")
    case False
    with Suc.prems show ?thesis by (auto split: sum.splits bool.splits)
  next
    case True
    with Suc.prems(2) obtain x u where x: "w s = (Inr x, u)" "stabilize lib c w n (latencies @ [latency_ns x]) u = (Inr settled, s')"
      by (auto split: prod.splits sum.splits)
    from Suc.IH [OF _ x(2)] counts_callsD [OF assms(1) Suc.prems(1) x(1)] show ?thesis by simp
  qed
qed

lemma sampled_count:
  assumes "counts_calls P f w" and "P s" and "sampled w n s = Some (xs, s')"
  shows "P s' \<and> f s' = f s + length xs"
  using assms(2,3)
proof (induction n arbitrary: s xs)
  case 0
  then show ?case by simp
next
  case (Suc n)
  from Suc.prems(2) obtain x u ys where x: "w s = (Inr x, u)" "sampled w n u = Some (ys, s')" "xs = x # ys"
    by (auto split: prod.splits sum.splits option.splits)
  from Suc.IH [OF _ x(2)] counts_callsD [OF assms(1) Suc.prems(1) x(1)] show ?case by (simp add: x(3))
qed

lemma bench_run_count:
  assumes "counts_calls P f w" and "P s" and "bench_run cfg w clock i s = (Inr r, j, s')"
  shows "P s' \<and> f s' = f s + length (br_samples r)"
proof -
  obtain limit i' where m: "measure w clock limit (clock i) (nat (op_count_limit cfg)) (Suc i) [] s = (Inr (br_samples r), i', s')"
    using assms(3) by (auto simp: bench_run_def Let_def split: sum.splits prod.splits if_splits)
  from measure_follows [OF this] obtain k where "sampled w k s = Some (br_samples r, s')" by auto
  with assms(1,2) show ?thesis by (rule sampled_count)
qed

lemma run_with_warmup_count:
  assumes "counts_calls P f w" and "P s" and "run_with_warmup lib cfg w clock i s = (Inr r, j, s')"
  shows "P s' \<and> f s + nat (warmup_iterations cfg) + length (br_samples r) \<le> f s'"
proof -
  obtain ls s1 where one: "warm_calls w (nat (warmup_iterations cfg)) [] s = (Inr ls, s1)"
    using assms(3) by (auto simp: run_with_warmup_def bench_warmup_def split: sum.splits prod.splits)
  with assms(3) obtain settled s2 where
    two: "stabilize lib cfg w (nat (max_stability_runs cfg * warmup_iterations cfg)) ls s1 = (Inr settled, s2)"
    by (auto simp: run_with_warmup_def bench_warmup_def split: sum.splits prod.splits)
  obtain q where three: "bench_run cfg w clock i s2 = (Inr q, j, s')" "br_samples r = br_samples q"
    using assms(3) one two by (auto simp: run_with_warmup_def bench_warmup_def split: sum.splits prod.splits)
  from warm_calls_count [OF assms(1,2) one] have a: "P s1" "f s1 = f s + nat (warmup_iterations cfg)" by simp_all
  from stabilize_count [OF assms(1) a(1) two] have b: "P s2" "f s1 \<le> f s2" by simp_all
  from bench_run_count [OF assms(1) b(1) three(1)] a b three(2) show ?thesis by simp
qed

subsection \<open>The mixed workload\<close>

definition has_data :: "mixed_workload \<times> 'c \<Rightarrow> bool" where
  "has_data s \<longleftrightarrow> mw_read_ids (fst s) \<noteq> [] \<or> mw_write_events (fst s) \<noteq> []"

definition tracked :: "mixed_workload \<times> 'c \<Rightarrow> nat" where
  "tracked s = length (mw_read_samples (fst s)) + length (mw_write_samples (fst s))"

lemma mixed_operation_spec:
  assumes "mixed_operation b is_read (t, c) = (x, t', c')" and "has_data (t, c)"
  shows "operation_type x = (if is_read \<and> mw_read_ids t \<noteq> [] \<or> mw_write_events t = [] then ''read'' else ''write'') \<and>
    has_data (t', c') \<and> mw_read_samples t' = mw_read_samples t \<and> mw_write_samples t' = mw_write_samples t"
  using assms
  by (auto simp: mixed_operation_def execute_read_def execute_write_def mixed_of_def has_data_def Let_def
      split: prod.splits if_splits)

lemma mixed_execute_one_spec:
  assumes "mixed_execute_one b (t, c) = (Inr x, t', c')"
  shows "\<exists>u c1 c2. bk_random b c1 = (u, c2) \<and>
    operation_type x = (if f_lt u (mw_read_ratio t) \<and> mw_read_ids t \<noteq> [] \<or> mw_write_events t = [] then ''read'' else ''write'') \<and>
    has_data (t', c') \<and> tracked (t', c') = Suc (tracked (t, c)) \<and>
    mw_read_samples t' = mw_read_samples t @ (if operation_type x = ''read'' then [x] else []) \<and>
    mw_write_samples t' = mw_write_samples t @ (if operation_type x = ''write'' then [x] else [])"
proof -
  have d: "has_data (t\<lparr>mw_connected := True\<rparr>, v)" for v :: 'a
    using assms by (auto simp: mixed_execute_one_def has_data_def split: if_splits)
  obtain c1 u c2 t2 where r: "bk_random b c1 = (u, c2)"
    and o: "mixed_operation b (f_lt u (mw_read_ratio t)) (t\<lparr>mw_connected := True\<rparr>, c2) = (x, t2, c')"
    and t': "t' = track_sample x t2"
    using assms by (auto simp: mixed_execute_one_def split: if_splits sum.splits prod.splits)
  note s = mixed_operation_spec [OF o d]
  with r show ?thesis
    by (intro exI [of _ u] exI [of _ c1] exI [of _ c2])
      (auto simp: t' track_sample_def has_data_def tracked_def)
qed

lemma mixed_counts: "counts_calls has_data tracked (mixed_step b)"
  unfolding counts_calls_def mixed_step_def
  using mixed_execute_one_spec
  by (fastforce split: prod.splits simp: bindE_split_Inr)

subsection \<open>Throughput batches\<close>

lemma convert_batches_lengths:
  "convert_batches ds = Inr bs \<Longrightarrow> map length bs = map length ds"
proof (induction ds arbitrary: bs)
  case (Cons d ds)
  have "length b = length d" if "batch_to_geo_events d = Inr b" for d b
    using that by (induction d arbitrary: b) (auto simp: bindE_split_Inr)
  with Cons show ?case by (auto simp: bindE_split_Inr)
qed simp

lemma throughput_setup_batches:
  assumes "throughput_setup gen b (t, c) = (Inr (), t', c')" and "0 < tw_batch_size t"
  obtains evs where "gen (tw_data t) = Inr evs" and "tw_batch_size t' = tw_batch_size t" and "tw_index t' = 0"
    and "map length (tw_batches t') = map length (chunks (nat (tw_batch_size t)) evs)"
proof -
  obtain evs bs where e: "gen (tw_data t) = Inr evs"
    "convert_batches (chunks (nat (tw_batch_size t)) (map event_members evs)) = Inr bs"
    "t' = t\<lparr>tw_batches := bs, tw_index := 0, tw_connected := True\<rparr>"
    using assms by (auto simp: throughput_setup_def bindE_split_Inr bindE_split_Inl split: sum.splits prod.splits if_splits)
  have "map length (chunks n (map f xs)) = map length (chunks n xs)" for n and f :: "test_event \<Rightarrow> members" and xs
  proof (induction n xs rule: chunks.induct)
    case (1 n xs)
    then show ?case
      by (simp add: chunks.simps [of n xs] chunks.simps [of n "map f xs"] drop_map)
  qed
  with convert_batches_lengths [OF e(2)] have "map length bs = map length (chunks (nat (tw_batch_size t)) evs)" by simp
  with e show ?thesis by (intro that) simp_all
qed

text \<open>How many events the first \<open>k\<close> calls insert, and how many the benchmark reports for them.\<close>

definition inserted_events :: "throughput_workload \<Rightarrow> nat \<Rightarrow> nat" where
  "inserted_events t k = (\<Sum>j<k. length (tw_batches t ! (j mod length (tw_batches t))))"

definition reported_events :: "throughput_workload \<Rightarrow> nat \<Rightarrow> int" where
  "reported_events t k = int k * get_events_per_batch t"

subsection \<open>Properties\<close>

text \<open>A mixed benchmark counts the calls of its warmup as measured ones: the read and write
  samples together are at least the measured operations and the configured warmup
  iterations, so their percentiles are not those of the run they are reported with.\<close>

theorem mixed_samples_include_warmup:
  assumes "run_with_warmup lib cfg (mixed_step b) clock i (t, c) = (Inr r, j, t', c')"
    and "mw_read_ids t \<noteq> [] \<or> mw_write_events t \<noteq> []"
    and "mw_read_samples t = []" and "mw_write_samples t = []"
  shows "length (br_samples r) + nat (warmup_iterations cfg) \<le>
    length (mw_read_samples t') + length (mw_write_samples t')"
proof -
  have "has_data (t, c)" using assms(2) by (simp add: has_data_def)
  from run_with_warmup_count [OF mixed_counts this assms(1)] assms(3,4) show ?thesis by (simp add: tracked_def)
qed

definition toy_client :: "nat bench_client" where
  "toy_client = \<lparr>bk_build = \<lambda>as c. (Inr (), c), bk_insert = \<lambda>es c. (Some 0, c + 1), bk_lookup = \<lambda>i c. (Some True, c + 1),
     bk_close = id, bk_clock = \<lambda>c. (int c, c + 1), bk_random = \<lambda>c. (Fin (if even c then 0 else 1 / 2), c + 1),
     bk_below = \<lambda>n c. (c mod n, c)\<rparr>"

definition toy_mixed :: "pyfloat \<Rightarrow> mixed_workload" where
  "toy_mixed ratio = \<lparr>mw_data = default_dataset_config, mw_read_ratio = ratio, mw_addresses = [''a''], mw_read_ids = [7],
     mw_write_events = [], mw_write_index = 0, mw_read_samples = [], mw_write_samples = [], mw_connected = True\<rparr>"

definition toy_bench_config :: benchmark_config where
  "toy_bench_config = (default_benchmark_config (Some 2))\<lparr>op_count_limit := 3, min_samples := 1, max_stability_runs := 0\<rparr>"

lemma toy_mixed_step:
  "mixed_step toy_client (toy_mixed r\<lparr>mw_read_samples := xs\<rparr>, c) =
     (Inr \<lparr>latency_ns = 2, sm_timestamp_ns = int c + 3, success = True\<rparr>,
      toy_mixed r\<lparr>mw_read_samples := xs @ [\<lparr>latency_ns = 2, sm_timestamp_ns = int c + 3, success = True, operation_type = ''read''\<rparr>]\<rparr>, c + 4)"
  by (simp add: mixed_step_def mixed_execute_one_def toy_client_def toy_mixed_def ensure_client_def mixed_operation_def
      execute_read_def choice_def timed_def lookup_ok_def mixed_of_def track_sample_def sample.defs)

theorem mixed_samples_include_warmup_witness:
  "\<exists>r j t' c'. run_with_warmup lib toy_bench_config (mixed_step toy_client) (\<lambda>n. int n) 0 (toy_mixed (Fin 1), 0) = (Inr r, j, t', c') \<and>
     length (br_samples r) = 3 \<and> 5 \<le> length (mw_read_samples t') + length (mw_write_samples t')"
proof -
  let ?m = "\<lambda>xs. toy_mixed (Fin 1)\<lparr>mw_read_samples := xs\<rparr>"
  have start: "(toy_mixed (Fin 1), 0 :: nat) = (?m [], 0)" by (simp add: toy_mixed_def)
  have limit: "py_int (f_mul (Fin 60) (Fin 1000000000)) = Inr 60000000000" by code_simp
  have "\<exists>r j t' c'. run_with_warmup lib toy_bench_config (mixed_step toy_client) (\<lambda>n. int n) 0 (?m [], 0) = (Inr r, j, t', c') \<and>
      length (br_samples r) = 3"
    by (simp add: run_with_warmup_def bench_warmup_def bench_run_def toy_bench_config_def default_benchmark_config_def
        toy_mixed_step limit Let_def eval_nat_numeral del: f_mul.simps)
  then obtain r j t' c' where r: "run_with_warmup lib toy_bench_config (mixed_step toy_client) (\<lambda>n. int n) 0 (toy_mixed (Fin 1), 0) = (Inr r, j, t', c')"
    "length (br_samples r) = 3" unfolding start by blast
  from mixed_samples_include_warmup [OF r(1)] r show ?thesis
    by (auto simp: toy_mixed_def toy_bench_config_def default_benchmark_config_def)
qed

text \<open>The throughput benchmark reports every batch as full: it never reports fewer events than it
  has inserted, and more whenever the generated events do not fill one batch.\<close>

theorem throughput_overstates_short_batches:
  assumes "throughput_setup gen b (t, c) = (Inr (), t', c')" and "0 < tw_batch_size t" and "gen (tw_data t) = Inr evs"
    and "evs \<noteq> []"
  shows "int (inserted_events t' k) \<le> reported_events t' k \<and>
    (int (length evs) < tw_batch_size t \<longrightarrow>
       inserted_events t' k = k * length evs \<and> (0 < k \<longrightarrow> int (inserted_events t' k) < reported_events t' k))"
proof -
  let ?n = "nat (tw_batch_size t)"
  obtain evs' where g: "gen (tw_data t) = Inr evs'" "tw_batch_size t' = tw_batch_size t"
    "map length (tw_batches t') = map length (chunks ?n evs')"
    using throughput_setup_batches [OF assms(1,2)] by blast
  have s: "map length (tw_batches t') = map length (chunks ?n evs)" using g(1,3) assms(3) by simp
  then have m: "length (tw_batches t') = length (chunks ?n evs)" by (rule map_eq_imp_length_eq)
  have "chunks ?n evs \<noteq> []" using assms(2,4) by (simp add: chunks_step)
  then have pos: "0 < length (tw_batches t')" using m by simp
  have len: "length (tw_batches t' ! i) = length (chunks ?n evs ! i)" if "i < length (tw_batches t')" for i
    using arg_cong [OF s, of "\<lambda>xs. xs ! i"] that m by simp
  have le: "length (tw_batches t' ! (j mod length (tw_batches t'))) \<le> ?n" for j
  proof -
    have i: "j mod length (tw_batches t') < length (tw_batches t')" using pos by simp
    then have "chunks ?n evs ! (j mod length (tw_batches t')) \<in> set (chunks ?n evs)" using m by (simp add: nth_mem)
    with len [OF i] chunks_bounds show ?thesis by fastforce
  qed
  have "inserted_events t' k \<le> (\<Sum>j<k. ?n)" unfolding inserted_events_def by (intro sum_mono le)
  then have "inserted_events t' k \<le> k * ?n" by simp
  then have "int (inserted_events t' k) \<le> int (k * ?n)" by (rule zle_int [THEN iffD2])
  then have up: "int (inserted_events t' k) \<le> reported_events t' k"
    using assms(2) g(2) by (simp add: reported_events_def get_events_per_batch_def)
  have exact: "inserted_events t' k = k * length evs" if "int (length evs) < tw_batch_size t"
  proof -
    have "chunks ?n evs = [evs]" using that assms(2,4) by (simp add: chunks_step)
    with len [of 0] m have "length (tw_batches t') = 1" "length (tw_batches t' ! 0) = length evs" by simp_all
    then show ?thesis by (simp add: inserted_events_def)
  qed
  have "int (inserted_events t' k) < reported_events t' k" if "int (length evs) < tw_batch_size t" "0 < k"
    using exact [OF that(1)] that g(2) by (simp add: reported_events_def get_events_per_batch_def)
  with up exact show ?thesis by blast
qed

definition one_event :: test_event where
  "one_event = \<lparr>te_entity_id = hex_text 32 5, te_latitude = Fin 0, te_longitude = Fin 0, te_ttl_seconds = 60, te_user_data = None\<rparr>"

definition toy_throughput :: throughput_workload where
  "toy_throughput = \<lparr>tw_data = default_dataset_config, tw_batch_size = 1000, tw_addresses = [''a''], tw_batches = [],
     tw_index = 0, tw_connected = False\<rparr>"

theorem throughput_overstates_short_batches_witness:
  "\<exists>t' c'. throughput_setup (\<lambda>cfg. Inr [one_event]) toy_client (toy_throughput, 0) = (Inr (), t', c') \<and>
     inserted_events t' 2 = 2 \<and> 2 < reported_events t' 2"
proof -
  have "valid_event (default_dataset_config\<lparr>ds_include_user_data := False\<rparr>) one_event"
    using hex_text_digits [of 32 5] by (simp add: valid_event_def one_event_def default_dataset_config_def)
  from event_members_carried [OF this] obtain g where "event_dict_to_geo_event (event_members one_event) = Inr g" by blast
  then have "\<exists>t' c'. throughput_setup (\<lambda>cfg. Inr [one_event]) toy_client (toy_throughput, 0) = (Inr (), t', c')"
    by (simp add: throughput_setup_def toy_throughput_def toy_client_def chunks_step)
  then obtain t' c' where s: "throughput_setup (\<lambda>cfg. Inr [one_event]) toy_client (toy_throughput, 0) = (Inr (), t', c')" by blast
  from throughput_overstates_short_batches [OF s, of "[one_event]" 2] s show ?thesis by (simp add: toy_throughput_def)
qed

text \<open>The ratios 1 and 0 are pure: with a ratio of 1 and something to read every operation is a
  read, with a ratio of 0 and something to write every operation is a write, and each
  operation adds its sample to its own list only.\<close>

theorem pure_ratios_do_one_kind:
  assumes "mixed_execute_one b (t, c) = (Inr x, t', c')"
    and "\<forall>c. \<exists>u c'. bk_random b c = (Fin u, c') \<and> 0 \<le> u \<and> u < 1"
  shows "(mw_read_ratio t = Fin 1 \<and> mw_read_ids t \<noteq> [] \<longrightarrow>
      operation_type x = ''read'' \<and> mw_read_samples t' = mw_read_samples t @ [x] \<and> mw_write_samples t' = mw_write_samples t) \<and>
    (mw_read_ratio t = Fin 0 \<and> mw_write_events t \<noteq> [] \<longrightarrow>
      operation_type x = ''write'' \<and> mw_write_samples t' = mw_write_samples t @ [x] \<and> mw_read_samples t' = mw_read_samples t)"
proof -
  from mixed_execute_one_spec [OF assms(1)] obtain u c1 c2 where s: "bk_random b c1 = (u, c2)"
    "operation_type x = (if f_lt u (mw_read_ratio t) \<and> mw_read_ids t \<noteq> [] \<or> mw_write_events t = [] then ''read'' else ''write'')"
    "mw_read_samples t' = mw_read_samples t @ (if operation_type x = ''read'' then [x] else [])"
    "mw_write_samples t' = mw_write_samples t @ (if operation_type x = ''write'' then [x] else [])" by blast
  from assms(2) obtain v where v: "u = Fin v" "0 \<le> v" "v < 1" using s(1) by (metis prod.inject)
  show ?thesis using s(2,3,4) v by auto
qed

theorem pure_ratios_do_one_kind_witness:
  "\<exists>x t' c'. mixed_execute_one toy_client (toy_mixed (Fin 1), 0) = (Inr x, t', c') \<and> operation_type x = ''read''"
proof -
  obtain x t' c' where "mixed_execute_one toy_client (toy_mixed (Fin 1), 0) = (Inr x, t', c')"
    by (simp add: mixed_execute_one_def toy_client_def toy_mixed_def ensure_client_def mixed_operation_def
        execute_read_def choice_def timed_def lookup_ok_def)
  with pure_ratios_do_one_kind [OF this] show ?thesis by (auto simp: toy_client_def toy_mixed_def)
qed

end
