(* ===== verification/Bench_Orchestrator.thy ===== *)
theory Bench_Orchestrator
  imports Bench_Workloads Cluster_Safety
begin

section \<open>The benchmark orchestrator\<close>

text \<open>
  \<open>test_infrastructure/benchmarks/orchestrator.py\<close> and \<open>stats.py\<close>: a fresh cluster per benchmark,
  the four benchmarks on it, the full suite and the check of the targets.  The state of
  a benchmark is the world of the cluster harness next to what the SDK client keeps.
  Parameters: numpy and scipy, the HDR library, the clocks of the measurements.  A result
  dict is the list of its items; \<open>config\<close> and the timestamps in it are left out.
\<close>

datatype bench_exn =
    Bench_Cluster cluster_exn
  | Bench_Py py_exn
  | Bench_Runtime string
  | Bench_Client

definition lift_py :: "(py_exn, 'a) result \<Rightarrow> (bench_exn, 'a) result" where
  "lift_py r = (case r of Inl e \<Rightarrow> Inl (Bench_Py e) | Inr x \<Rightarrow> Inr x)"

subsection \<open>Statistics\<close>

record numpy =
  np_mean :: "pyfloat list \<Rightarrow> pyfloat"
  np_std :: "pyfloat list \<Rightarrow> pyfloat"
  np_min :: "pyfloat list \<Rightarrow> pyfloat"
  np_max :: "pyfloat list \<Rightarrow> pyfloat"
  sp_sem :: "pyfloat list \<Rightarrow> pyfloat"
  sp_interval :: "pyfloat \<Rightarrow> int \<Rightarrow> pyfloat \<Rightarrow> pyfloat \<Rightarrow> pyfloat \<times> pyfloat"
  sp_ttest_greater :: "pyfloat list \<Rightarrow> pyfloat list \<Rightarrow> pyfloat"

definition confidence_interval :: "numpy \<Rightarrow> pyfloat list \<Rightarrow> pyfloat \<Rightarrow> (py_exn, pyfloat \<times> pyfloat) result" where
  "confidence_interval np samples confidence =
     (if length samples < 2 then Inl ValueError
      else
        let mean = np_mean np samples; se = sp_sem np samples in
        if se = Fin 0 then Inr (mean, mean)
        else Inr (sp_interval np confidence (int (length samples) - 1) mean se))"

text \<open>A quotient of numpy floats raises nothing; the mean is not zero here.\<close>

definition coefficient_of_variation :: "numpy \<Rightarrow> pyfloat list \<Rightarrow> (py_exn, pyfloat) result" where
  "coefficient_of_variation np samples =
     (if length samples < 2 then Inl ValueError
      else
        let mean = np_mean np samples in
        if mean = Fin 0 then Inr (Fin 0) else f_div (np_std np samples) mean)"

definition is_stable :: "numpy \<Rightarrow> pyfloat list \<Rightarrow> pyfloat \<Rightarrow> (py_exn, bool) result" where
  "is_stable np samples threshold =
     (if length samples < 2 then Inr False
      else bindE (coefficient_of_variation np samples) (\<lambda>cv. Inr (f_lt cv threshold)))"

definition detect_regression :: "numpy \<Rightarrow> pyfloat list \<Rightarrow> pyfloat list \<Rightarrow> pyfloat \<Rightarrow> (py_exn, bool \<times> pyfloat) result" where
  "detect_regression np baseline current alpha =
     (if length baseline < 2 then Inl ValueError
      else if length current < 2 then Inl ValueError
      else let p = sp_ttest_greater np current baseline in Inr (f_lt p alpha, p))"

record sample_stats =
  st_mean :: pyfloat
  st_std :: pyfloat
  st_cv :: pyfloat
  st_ci_low :: pyfloat
  st_ci_high :: pyfloat
  st_min :: pyfloat
  st_max :: pyfloat
  st_count :: int

definition summarize :: "numpy \<Rightarrow> pyfloat list \<Rightarrow> (py_exn, sample_stats) result" where
  "summarize np samples =
     (if length samples < 2 then Inl ValueError
      else
        bindE (coefficient_of_variation np samples) (\<lambda>cv.
        bindE (confidence_interval np samples (Fin (fl (95 / 100)))) (\<lambda>(lo, hi).
        Inr \<lparr>st_mean = np_mean np samples, st_std = np_std np samples, st_cv = cv, st_ci_low = lo, st_ci_high = hi,
             st_min = np_min np samples, st_max = np_max np samples, st_count = int (length samples)\<rparr>)))"

subsection \<open>A cluster for one benchmark\<close>

definition cluster_profile :: "int \<Rightarrow> string option \<Rightarrow> cluster_config \<Rightarrow> cluster_config" where
  "cluster_profile topology grid cfg =
     (let pick = (\<lambda>dflt. case grid of Some (ch # rest) \<Rightarrow> ch # rest | _ \<Rightarrow> dflt) in
      if topology = 6 then
        cfg\<lparr>cache_grid := pick ''64MiB'', ram_index_size := ''2MiB'', memory_lsm_manifest := ''8MiB'',
          startup_timeout := max 240000 (60000 * topology), primary_head_start_timeout := 180000\<rparr>
      else if 5 \<le> topology then
        cfg\<lparr>cache_grid := pick ''64MiB'', ram_index_size := ''4MiB'', memory_lsm_manifest := ''16MiB'',
          startup_timeout := max 180000 (40000 * topology), primary_head_start_timeout := 120000\<rparr>
      else
        cfg\<lparr>cache_grid := pick ''512MiB'', ram_index_size := ''8MiB'', memory_lsm_manifest := ''64MiB'',
          startup_timeout := max 60000 (30000 * topology), primary_head_start_timeout := 0\<rparr>)"

definition isolated_config :: "string option \<Rightarrow> int \<Rightarrow> string option \<Rightarrow> cluster_config" where
  "isolated_config preserve topology grid =
     cluster_profile topology grid
       ((default_cluster_config preserve)\<lparr>node_count := topology,
         replica_count := Some (if topology = 6 then 5 else topology)\<rparr>)"

text \<open>Where the harness finds its binary and whether it keeps its files.\<close>

record harness_env =
  he_env :: env
  he_binary :: "string option"
  he_ancestors :: "path list"
  he_preserve :: "string option"

text \<open>\<open>_isolated_cluster\<close> around a body on the cluster: the \<open>try\<close> block, and the stop in every case.\<close>

type_synonym ('d, 'a) cluster_body = "cluster \<Rightarrow> world \<times> 'd \<Rightarrow> (bench_exn, 'a) result \<times> world \<times> 'd"

definition isolated_try ::
    "env \<Rightarrow> ('d, 'a) cluster_body \<Rightarrow> cluster \<Rightarrow> world \<times> 'd \<Rightarrow> ((bench_exn, 'a) result \<times> cluster \<times> world \<times> 'd) option" where
  "isolated_try env body c s =
     (case s of (w, d) \<Rightarrow>
        Option.bind (cluster_start env c w) (\<lambda>(r, c, w).
          case r of
            Inl e \<Rightarrow> Some (Inl (Bench_Cluster e), c, w, d)
          | Inr u \<Rightarrow>
              (case wait_for_leader env (Some (startup_timeout (config c))) c w of
                 (Inl e, w) \<Rightarrow> Some (Inl (Bench_Cluster e), c, w, d)
               | (Inr None, w) \<Rightarrow> Some (Inl (Bench_Runtime ''Timed out waiting for benchmark cluster leader''), c, w, d)
               | (Inr (Some port), w) \<Rightarrow> (case body c (w, d) of (r, s) \<Rightarrow> Some (r, c, s)))))"

definition isolated_cluster ::
    "harness_env \<Rightarrow> int \<Rightarrow> string option \<Rightarrow> ('d, 'a) cluster_body \<Rightarrow> world \<times> 'd \<Rightarrow>
     ((bench_exn, 'a) result \<times> world \<times> 'd) option" where
  "isolated_cluster he topology grid body s =
     (case new_cluster (isolated_config (he_preserve he) topology grid) (he_binary he) (he_ancestors he) (files (fst s)) of
        Inl e \<Rightarrow> Some (Inl (Bench_Cluster e), s)
      | Inr c \<Rightarrow>
          Option.bind (isolated_try (he_env he) body c s) (\<lambda>(r, c, w, d).
            map_option (\<lambda>(c, w). (r, w, d)) (cluster_stop c w)))"

definition get_leader_port :: "env \<Rightarrow> cluster \<Rightarrow> world \<Rightarrow> (bench_exn, int) result \<times> world" where
  "get_leader_port env c w =
     (case wait_for_leader env (Some 30000) c w of
        (Inl e, w) \<Rightarrow> (Inl (Bench_Cluster e), w)
      | (Inr None, w) \<Rightarrow> (Inl (Bench_Runtime ''Failed to find cluster leader''), w)
      | (Inr (Some port), w) \<Rightarrow> (Inr port, w))"

definition ordered_ports :: "cluster \<Rightarrow> int \<Rightarrow> int list" where
  "ordered_ports c leader =
     leader # filter (\<lambda>p. p \<noteq> leader) (first_n (replica_total (config c)) (cluster_ports c))"

definition node_address :: "int \<Rightarrow> string" where
  "node_address port = ''127.0.0.1:'' @ show_int port"

definition get_cluster_ports :: "env \<Rightarrow> cluster \<Rightarrow> world \<Rightarrow> (bench_exn, int list) result \<times> world" where
  "get_cluster_ports env c w =
     (case get_leader_port env c w of
        (Inl e, w) \<Rightarrow> (Inl e, w)
      | (Inr leader, w) \<Rightarrow> (Inr (ordered_ports c leader), w))"

definition get_cluster_addresses :: "env \<Rightarrow> cluster \<Rightarrow> world \<Rightarrow> (bench_exn, string list) result \<times> world" where
  "get_cluster_addresses env c w =
     (case get_cluster_ports env c w of (r, w) \<Rightarrow> (bindE r (\<lambda>ps. Inr (map node_address ps)), w))"

text \<open>Trying the addresses in turn, each attempt taking its time.\<close>

fun try_listeners :: "env \<Rightarrow> int list \<Rightarrow> world \<Rightarrow> bool \<times> world" where
  "try_listeners env [] w = (False, w)"
| "try_listeners env (p # ps) w =
     (case env_listening env (now w) p of
        (d, accepts) \<Rightarrow> if accepts then (True, sleep d w) else try_listeners env ps (sleep d w))"

lemma try_listeners_now: "try_listeners env ps w = (r, w') \<Longrightarrow> now w \<le> now w'"
proof (induction ps arbitrary: w)
  case (Cons p ps)
  obtain d a where l: "env_listening env (now w) p = (d, a)" by fastforce
  show ?case
  proof (cases a)
    case False
    with Cons.prems l have "try_listeners env ps (sleep d w) = (r, w')" by simp
    from Cons.IH [OF this] show ?thesis by (simp add: sleep_def)
  qed (use Cons.prems l in \<open>auto simp: sleep_def\<close>)
qed simp

function wait_listeners :: "env \<Rightarrow> int list \<Rightarrow> int \<Rightarrow> world \<Rightarrow> bool \<times> world" where
  "wait_listeners env ps deadline w =
     (if now w < deadline
      then
        case try_listeners env ps w of
          (True, w) \<Rightarrow> (True, w)
        | (False, w) \<Rightarrow> wait_listeners env ps deadline (sleep 250 w)
      else (False, w))"
  by pat_completeness auto
termination
  by (relation "Wellfounded.measure (\<lambda>(env, ps, deadline, w). nat (deadline - now w))")
    (auto dest: try_listeners_now [OF sym] simp: sleep_def)

declare wait_listeners.simps [simp del]

definition wait_for_data_plane_ready :: "env \<Rightarrow> cluster \<Rightarrow> world \<Rightarrow> (bench_exn, unit) result \<times> world" where
  "wait_for_data_plane_ready env c w =
     (let deadline = now w + max 30000 (startup_timeout (config c)) in
      case get_cluster_ports env c w of
        (Inl e, w) \<Rightarrow> (Inl e, w)
      | (Inr ps, w) \<Rightarrow>
          (case wait_listeners env ps deadline w of
             (True, w) \<Rightarrow> (Inr (), w)
           | (False, w) \<Rightarrow> (Inl (Bench_Runtime ''Timed out waiting for benchmark data plane readiness''), w)))"

subsection \<open>One measured session\<close>

definition require_success :: "string \<Rightarrow> benchmark_result \<Rightarrow> (bench_exn, unit) result" where
  "require_success name r =
     (if length (filter (\<lambda>x. \<not> success x) (br_samples r)) \<noteq> 0 then Inl (Bench_Runtime name) else Inr ())"

text \<open>A latency in microseconds goes into the histogram, milliseconds come out.\<close>

definition calculate_percentiles :: "'h hdr_lib option \<Rightarrow> int list \<Rightarrow> (py_exn, (string \<times> json) list) result" where
  "calculate_percentiles lib latencies =
     (let h = fold (\<lambda>l. record_latency lib (l div 1000)) latencies (new_latency_histogram lib 1 3600000000 3);
          ms = (\<lambda>p. bindE (percentile lib (Fin p) h) (\<lambda>us. int_truediv us 1000))
      in bindE (ms 50) (\<lambda>p50. bindE (ms 95) (\<lambda>p95. bindE (ms 99) (\<lambda>p99.
         Inr [(''p50_ms'', JFloat p50), (''p95_ms'', JFloat p95), (''p99_ms'', JFloat p99)]))))"

text \<open>\<open>n / 1e9\<close> and \<open>n / 1e6\<close>.\<close>

definition in_seconds :: "int \<Rightarrow> (py_exn, pyfloat) result" where
  "in_seconds ns = bindE (float_of_int ns) (\<lambda>x. f_div x (Fin 1000000000))"

fun in_milliseconds :: "int list \<Rightarrow> (py_exn, pyfloat list) result" where
  "in_milliseconds [] = Inr []"
| "in_milliseconds (n # ns) =
     bindE (bindE (float_of_int n) (\<lambda>x. f_div x (Fin 1000000))) (\<lambda>x.
     bindE (in_milliseconds ns) (\<lambda>xs. Inr (x # xs)))"

text \<open>What every benchmark does with its workload: warm up, measure, refuse failures, report, clean up.\<close>

definition session ::
    "stats_lib \<Rightarrow> benchmark_config \<Rightarrow> (nat \<Rightarrow> int) \<Rightarrow> string \<Rightarrow> ('t \<times> 'c) workload \<Rightarrow>
     (benchmark_result \<Rightarrow> 't \<Rightarrow> (py_exn, (string \<times> json) list) result) \<Rightarrow> ('t \<times> 'c \<Rightarrow> 't \<times> 'c) \<Rightarrow> 't \<times> 'c \<Rightarrow>
     (bench_exn, (string \<times> json) list) result \<times> 'c" where
  "session lib cfg clock name step report cleanup s =
     (case run_with_warmup lib cfg step clock 0 s of
        (Inl e, i, s) \<Rightarrow> (Inl (Bench_Py e), snd (cleanup s))
      | (Inr r, i, s) \<Rightarrow> (bindE (require_success name r) (\<lambda>u. lift_py (report r (fst s))), snd (cleanup s)))"

definition bench_data :: "benchmark_config \<Rightarrow> dataset_config" where
  "bench_data cfg =
     default_dataset_config\<lparr>ds_size := data_size cfg, ds_pattern := data_pattern cfg, ds_seed := bc_seed cfg\<rparr>"

definition run_report :: "string \<Rightarrow> int \<Rightarrow> benchmark_result \<Rightarrow> (py_exn, (string \<times> json) list) result" where
  "run_report name topology r =
     bindE (in_seconds (duration_ns r)) (\<lambda>d.
     Inr [(''benchmark_type'', JStr name), (''topology'', JInt topology), (''duration_sec'', JFloat d),
          (''warmup_stable'', JBool (warmup_stable r))])"

definition latency_report ::
    "numpy \<Rightarrow> 'h hdr_lib option \<Rightarrow> string \<Rightarrow> int \<Rightarrow> benchmark_result \<Rightarrow> (py_exn, (string \<times> json) list) result" where
  "latency_report np hdr name topology r =
     bindE (calculate_percentiles hdr (map latency_ns (br_samples r))) (\<lambda>ps.
     bindE (in_milliseconds (map latency_ns (br_samples r))) (\<lambda>ms.
     bindE (summarize np ms) (\<lambda>st.
     bindE (run_report name topology r) (\<lambda>base.
     Inr (base @ [(''sample_count'', JInt (int (length (br_samples r))))] @ ps @
          [(''mean_ms'', JFloat (st_mean st)), (''std_ms'', JFloat (st_std st)), (''cv'', JFloat (st_cv st)),
           (''ci_low_ms'', JFloat (st_ci_low st)), (''ci_high_ms'', JFloat (st_ci_high st))])))))"

subsection \<open>The four benchmarks\<close>

definition throughput_report ::
    "'h hdr_lib option \<Rightarrow> int \<Rightarrow> benchmark_result \<Rightarrow> throughput_workload \<Rightarrow> (py_exn, (string \<times> json) list) result" where
  "throughput_report hdr topology r t =
     bindE (in_seconds (duration_ns r)) (\<lambda>d.
     let total_events = int (length (br_samples r)) * get_events_per_batch t in
     bindE (if f_lt (Fin 0) d
            then bindE (float_of_int total_events) (\<lambda>n. bindE (f_div n d) (\<lambda>q. Inr (JFloat q)))
            else Inr (JInt 0)) (\<lambda>throughput.
     bindE (calculate_percentiles hdr (map latency_ns (br_samples r))) (\<lambda>ps.
     bindE (run_report ''throughput'' topology r) (\<lambda>base.
     Inr (base @ [(''throughput_events_per_sec'', throughput), (''total_events'', JInt total_events),
            (''total_batches'', JInt (int (length (br_samples r)))), (''batch_size'', JInt (get_events_per_batch t))] @ ps)))))"

definition throughput_session ::
    "stats_lib \<Rightarrow> 'h hdr_lib option \<Rightarrow> data_source \<Rightarrow> 'c bench_client \<Rightarrow> (nat \<Rightarrow> int) \<Rightarrow> int \<Rightarrow> benchmark_config \<Rightarrow> string list \<Rightarrow> 'c \<Rightarrow>
     (bench_exn, (string \<times> json) list) result \<times> 'c" where
  "throughput_session lib hdr gen b clock topology cfg addrs c =
     (case new_throughput_workload (Some addrs) None None (bench_data cfg) 1000 of
        Inl e \<Rightarrow> (Inl (Bench_Py e), c)
      | Inr t \<Rightarrow>
          (case throughput_setup gen b (t, c) of
             (Inl e, t, c) \<Rightarrow> (Inl (Bench_Py e), c)
           | (Inr u, t, c) \<Rightarrow>
               session lib cfg clock ''throughput'' (throughput_execute_one b) (throughput_report hdr topology)
                 (throughput_cleanup b) (t, c)))"

text \<open>The preload of the read benchmark; its client is closed in every case.
  \<open>Bench_Client\<close> is an exception of the SDK client.\<close>

definition preload :: "'c bench_client \<Rightarrow> string list \<Rightarrow> members list \<Rightarrow> 'c \<Rightarrow> (bench_exn, unit) result \<times> 'c" where
  "preload b addrs evs c =
     (case bk_build b addrs c of
        (Inl e, c) \<Rightarrow> (Inl (Bench_Py e), c)
      | (Inr u, c) \<Rightarrow>
          (case batch_to_geo_events evs of
             Inl e \<Rightarrow> (Inl (Bench_Py e), bk_close b c)
           | Inr batch \<Rightarrow>
               (case bk_insert b batch c of
                  (r, c) \<Rightarrow>
                    (case r of
                       None \<Rightarrow> Inl Bench_Client
                     | Some n \<Rightarrow> if n = 0 then Inr () else Inl (Bench_Runtime ''Failed to pre-load data''),
                     bk_close b c))))"

definition read_session ::
    "stats_lib \<Rightarrow> numpy \<Rightarrow> 'h hdr_lib option \<Rightarrow> data_source \<Rightarrow> 'c bench_client \<Rightarrow> (nat \<Rightarrow> int) \<Rightarrow> int \<Rightarrow> benchmark_config \<Rightarrow> string list \<Rightarrow> 'c \<Rightarrow>
     (bench_exn, (string \<times> json) list) result \<times> 'c" where
  "read_session lib np hdr gen b clock topology cfg addrs c =
     (case gen (bench_data cfg) of
        Inl e \<Rightarrow> (Inl (Bench_Py e), c)
      | Inr evs \<Rightarrow>
          (case preload b addrs (map event_members evs) c of
             (Inl e, c) \<Rightarrow> (Inl e, c)
           | (Inr u, c) \<Rightarrow>
               (case new_read_workload (Some addrs) None None (map (\<lambda>e. JStr (te_entity_id e)) evs) of
                  Inl e \<Rightarrow> (Inl (Bench_Py e), c)
                | Inr t \<Rightarrow>
                    (case read_setup b (t, c) of
                       (Inl e, t, c) \<Rightarrow> (Inl (Bench_Py e), c)
                     | (Inr u, t, c) \<Rightarrow>
                         session lib cfg clock ''latency_read'' (read_execute_one b)
                           (\<lambda>r t. latency_report np hdr ''latency_read'' topology r) (read_cleanup b) (t, c)))))"

definition write_session ::
    "stats_lib \<Rightarrow> numpy \<Rightarrow> 'h hdr_lib option \<Rightarrow> data_source \<Rightarrow> 'c bench_client \<Rightarrow> (nat \<Rightarrow> int) \<Rightarrow> int \<Rightarrow> benchmark_config \<Rightarrow> string list \<Rightarrow> 'c \<Rightarrow>
     (bench_exn, (string \<times> json) list) result \<times> 'c" where
  "write_session lib np hdr gen b clock topology cfg addrs c =
     (case new_write_workload (Some addrs) None None (bench_data cfg) of
        Inl e \<Rightarrow> (Inl (Bench_Py e), c)
      | Inr t \<Rightarrow>
          (case write_setup gen b (t, c) of
             (Inl e, t, c) \<Rightarrow> (Inl (Bench_Py e), c)
           | (Inr u, t, c) \<Rightarrow>
               session lib cfg clock ''latency_write'' (write_execute_one b)
                 (\<lambda>r t. latency_report np hdr ''latency_write'' topology r) (write_cleanup b) (t, c)))"

definition kind_metrics ::
    "numpy \<Rightarrow> 'h hdr_lib option \<Rightarrow> string \<Rightarrow> mixed_sample list \<Rightarrow> (py_exn, (string \<times> json) list) result" where
  "kind_metrics np hdr kind samples =
     (if length samples < 2 then Inr []
      else
        bindE (calculate_percentiles hdr (map latency_ns samples)) (\<lambda>ps.
        bindE (in_milliseconds (map latency_ns samples)) (\<lambda>ms.
        bindE (summarize np ms) (\<lambda>st.
        Inr ([(kind @ ''_count'', JInt (int (length samples)))] @ map (\<lambda>(k, v). (kind @ ''_'' @ k, v)) ps @
             [(kind @ ''_mean_ms'', JFloat (st_mean st))])))))"

definition mixed_report ::
    "numpy \<Rightarrow> 'h hdr_lib option \<Rightarrow> int \<Rightarrow> benchmark_config \<Rightarrow> benchmark_result \<Rightarrow> mixed_workload \<Rightarrow>
     (py_exn, (string \<times> json) list) result" where
  "mixed_report np hdr topology cfg r t =
     bindE (calculate_percentiles hdr (map latency_ns (br_samples r))) (\<lambda>ps.
     bindE (kind_metrics np hdr ''read'' (mw_read_samples t)) (\<lambda>reads.
     bindE (kind_metrics np hdr ''write'' (mw_write_samples t)) (\<lambda>writes.
     bindE (run_report ''mixed'' topology r) (\<lambda>base.
     Inr (base @ [(''read_write_ratio'', JFloat (read_write_ratio cfg)),
            (''total_operations'', JInt (int (length (br_samples r))))] @ ps @ reads @ writes)))))"

definition mixed_session ::
    "stats_lib \<Rightarrow> numpy \<Rightarrow> 'h hdr_lib option \<Rightarrow> data_source \<Rightarrow> 'c bench_client \<Rightarrow> (nat \<Rightarrow> int) \<Rightarrow> int \<Rightarrow> benchmark_config \<Rightarrow> string list \<Rightarrow> 'c \<Rightarrow>
     (bench_exn, (string \<times> json) list) result \<times> 'c" where
  "mixed_session lib np hdr gen b clock topology cfg addrs c =
     (case new_mixed_workload (Some addrs) None None (bench_data cfg) (read_write_ratio cfg) of
        Inl e \<Rightarrow> (Inl (Bench_Py e), c)
      | Inr t \<Rightarrow>
          (case mixed_setup gen b (t, c) of
             (Inl e, t, c) \<Rightarrow> (Inl (Bench_Py e), c)
           | (Inr u, t, c) \<Rightarrow>
               session lib cfg clock ''mixed'' (mixed_step b) (mixed_report np hdr topology cfg) (mixed_cleanup b) (t, c)))"

subsection \<open>A benchmark on its own cluster\<close>

text \<open>Time passes for the world while a session runs: \<open>b\<close> works on the world and the rest.\<close>

datatype bench_kind = Throughput | Latency_Read | Latency_Write | Mixed

record 'h bench_tools =
  bt_stats :: stats_lib
  bt_numpy :: numpy
  bt_hdr :: "'h hdr_lib option"
  bt_source :: data_source
  bt_clock :: "bench_kind \<Rightarrow> int \<Rightarrow> nat \<Rightarrow> int"

definition run_session ::
    "'h bench_tools \<Rightarrow> 'c bench_client \<Rightarrow> bench_kind \<Rightarrow> int \<Rightarrow> benchmark_config \<Rightarrow> string list \<Rightarrow> 'c \<Rightarrow>
     (bench_exn, (string \<times> json) list) result \<times> 'c" where
  "run_session bt b kind topology cfg addrs c =
     (let clock = bt_clock bt kind topology in
      case kind of
        Throughput \<Rightarrow> throughput_session (bt_stats bt) (bt_hdr bt) (bt_source bt) b clock topology cfg addrs c
      | Latency_Read \<Rightarrow> read_session (bt_stats bt) (bt_numpy bt) (bt_hdr bt) (bt_source bt) b clock topology cfg addrs c
      | Latency_Write \<Rightarrow> write_session (bt_stats bt) (bt_numpy bt) (bt_hdr bt) (bt_source bt) b clock topology cfg addrs c
      | Mixed \<Rightarrow> mixed_session (bt_stats bt) (bt_numpy bt) (bt_hdr bt) (bt_source bt) b clock topology cfg addrs c)"

definition benchmark_body ::
    "env \<Rightarrow> 'h bench_tools \<Rightarrow> (world \<times> 'd) bench_client \<Rightarrow> bench_kind \<Rightarrow> int \<Rightarrow> benchmark_config \<Rightarrow>
     ('d, (string \<times> json) list) cluster_body" where
  "benchmark_body env bt b kind topology cfg c s =
     (case s of (w, d) \<Rightarrow>
        case wait_for_data_plane_ready env c w of
          (Inl e, w) \<Rightarrow> (Inl e, w, d)
        | (Inr u, w) \<Rightarrow>
            (case get_cluster_addresses env c w of
               (Inl e, w) \<Rightarrow> (Inl e, w, d)
             | (Inr addrs, w) \<Rightarrow> run_session bt b kind topology cfg addrs (w, d)))"

definition run_benchmark ::
    "harness_env \<Rightarrow> 'h bench_tools \<Rightarrow> (world \<times> 'd) bench_client \<Rightarrow> bench_kind \<Rightarrow> int \<Rightarrow> benchmark_config \<Rightarrow> world \<times> 'd \<Rightarrow>
     ((bench_exn, (string \<times> json) list) result \<times> world \<times> 'd) option" where
  "run_benchmark he bt b kind topology cfg s =
     isolated_cluster he topology None (benchmark_body (he_env he) bt b kind topology cfg) s"

subsection \<open>The full suite\<close>

text \<open>What a suite runs per topology; the configuration is rebuilt, with the fields that the code
  passes on and the defaults for the others.\<close>

definition topology_bench_config :: "int option \<Rightarrow> int \<Rightarrow> benchmark_config \<Rightarrow> benchmark_config" where
  "topology_bench_config protocol topology cfg =
     (default_benchmark_config protocol)\<lparr>bc_topology := topology, time_limit_sec := time_limit_sec cfg,
       op_count_limit := op_count_limit cfg, min_samples := min_samples cfg, warmup_iterations := warmup_iterations cfg,
       data_pattern := data_pattern cfg, data_size := data_size cfg, bc_seed := bc_seed cfg,
       read_write_ratio := read_write_ratio cfg\<rparr>"

definition suite_kinds :: "bool \<Rightarrow> bench_kind list" where
  "suite_kinds include_mixed = [Throughput, Latency_Read, Latency_Write] @ (if include_mixed then [Mixed] else [])"

text \<open>The results so far, by benchmark and topology; an exception is an error entry.  After each
  benchmark the results are written to the checkpoint.\<close>

datatype bench_outcome = Bench_Done "(string \<times> json) list" | Bench_Error bench_exn

definition entry_of :: "(bench_exn, (string \<times> json) list) result \<Rightarrow> bench_outcome" where
  "entry_of r = (case r of Inr report \<Rightarrow> Bench_Done report | Inl e \<Rightarrow> Bench_Error e)"

type_synonym suite_state = "((bench_kind \<times> string) \<times> bench_outcome) list"

type_synonym 'd kind_runner = "bench_kind \<Rightarrow> int \<Rightarrow> benchmark_config \<Rightarrow> world \<times> 'd \<Rightarrow>
  ((bench_exn, (string \<times> json) list) result \<times> world \<times> 'd) option"

fun run_kinds ::
    "'d kind_runner \<Rightarrow> int \<Rightarrow> benchmark_config \<Rightarrow> bench_kind list \<Rightarrow> suite_state \<Rightarrow> suite_state list \<Rightarrow> world \<times> 'd \<Rightarrow>
     (suite_state \<times> suite_state list \<times> world \<times> 'd) option" where
  "run_kinds run topology cfg [] results checkpoints s = Some (results, checkpoints, s)"
| "run_kinds run topology cfg (k # ks) results checkpoints s =
     Option.bind (run k topology cfg s) (\<lambda>(r, s).
       let results = AList.update (k, show_int topology) (entry_of r) results
       in run_kinds run topology cfg ks results (checkpoints @ [results]) s)"

text \<open>The configuration of a topology is checked outside the handlers.\<close>

fun run_topologies ::
    "'d kind_runner \<Rightarrow> int option \<Rightarrow> benchmark_config \<Rightarrow> bool \<Rightarrow> int list \<Rightarrow> suite_state \<Rightarrow> suite_state list \<Rightarrow> world \<times> 'd \<Rightarrow>
     ((py_exn, suite_state) result \<times> suite_state list \<times> world \<times> 'd) option" where
  "run_topologies run protocol cfg mixed [] results checkpoints s = Some (Inr results, checkpoints @ [results], s)"
| "run_topologies run protocol cfg mixed (t # ts) results checkpoints s =
     (let topo_config = topology_bench_config protocol t cfg in
      case check_config topo_config of
        Inl e \<Rightarrow> Some (Inl e, checkpoints, s)
      | Inr u \<Rightarrow>
          Option.bind (run_kinds run t topo_config (suite_kinds mixed) results checkpoints s)
            (\<lambda>(results, checkpoints, s). run_topologies run protocol cfg mixed ts results checkpoints s))"

definition default_suite_config :: "int option \<Rightarrow> benchmark_config" where
  "default_suite_config protocol =
     (default_benchmark_config protocol)\<lparr>time_limit_sec := Fin 60, op_count_limit := 10000\<rparr>"

definition run_full_bench_suite ::
    "harness_env \<Rightarrow> 'h bench_tools \<Rightarrow> (world \<times> 'd) bench_client \<Rightarrow> int option \<Rightarrow> int list option \<Rightarrow> bool \<Rightarrow> benchmark_config option \<Rightarrow>
     world \<times> 'd \<Rightarrow> ((py_exn, suite_state) result \<times> suite_state list \<times> world \<times> 'd) option" where
  "run_full_bench_suite he bt b protocol topologies mixed cfg s =
     run_topologies (run_benchmark he bt b) protocol
       (case cfg of None \<Rightarrow> default_suite_config protocol | Some c \<Rightarrow> c) mixed
       (case topologies of None \<Rightarrow> [1, 3, 5, 6] | Some ts \<Rightarrow> ts) [] [] s"

subsection \<open>Targets\<close>

record target_check =
  tc_value :: json
  tc_target :: pyfloat
  tc_passed :: bool

definition members_of :: "suite_state \<Rightarrow> bench_kind \<Rightarrow> (string \<times> json) list" where
  "members_of results kind =
     (case map_of results (kind, ''3'') of Some (Bench_Done report) \<Rightarrow> report | _ \<Rightarrow> [])"

definition target_entry ::
    "(string \<times> json) list \<Rightarrow> string \<Rightarrow> (pyfloat \<Rightarrow> bool) \<Rightarrow> pyfloat \<Rightarrow> string \<Rightarrow> (py_exn, (string \<times> target_check) list) result" where
  "target_entry report key ok target name =
     (case map_of report key of
        None \<Rightarrow> Inr []
      | Some v \<Rightarrow> bindE (json_number v) (\<lambda>x. Inr [(name, \<lparr>tc_value = v, tc_target = target, tc_passed = ok x\<rparr>)]))"

definition check_targets :: "suite_state \<Rightarrow> (py_exn, (string \<times> target_check) list) result" where
  "check_targets results =
     (let tp = members_of results Throughput; rd = members_of results Latency_Read; wr = members_of results Latency_Write in
      bindE (target_entry tp ''throughput_events_per_sec'' (f_le (Fin 770000)) (Fin 770000) ''throughput_3node_baseline'') (\<lambda>a.
      bindE (target_entry tp ''throughput_events_per_sec'' (f_le (Fin 1000000)) (Fin 1000000) ''throughput_3node_stretch'') (\<lambda>b.
      bindE (target_entry rd ''p95_ms'' (\<lambda>x. f_lt x (Fin 1)) (Fin 1) ''read_latency_p95'') (\<lambda>c.
      bindE (target_entry rd ''p99_ms'' (\<lambda>x. f_lt x (Fin 10)) (Fin 10) ''read_latency_p99'') (\<lambda>d.
      bindE (target_entry wr ''p95_ms'' (\<lambda>x. f_lt x (Fin 10)) (Fin 10) ''write_latency_p95'') (\<lambda>e.
      bindE (target_entry wr ''p99_ms'' (\<lambda>x. f_lt x (Fin 50)) (Fin 50) ''write_latency_p99'') (\<lambda>f.
      Inr (a @ b @ c @ d @ e @ f))))))))"

subsection \<open>Only time passes during a session\<close>

definition passes :: "world \<times> 'd \<Rightarrow> world \<times> 'd \<Rightarrow> bool" where
  "passes s s' \<longleftrightarrow> only_time (fst s) (fst s')"

lemma passes_refl [simp, intro]: "passes s s"
  by (simp add: passes_def)

lemma passes_trans [trans]: "passes s t \<Longrightarrow> passes t u \<Longrightarrow> passes s u"
  unfolding passes_def by (rule only_time_trans)

text \<open>A client whose operations take time, and change nothing else of what the harness looks at.\<close>

definition client_takes_time :: "(world \<times> 'd) bench_client \<Rightarrow> bool" where
  "client_takes_time b \<longleftrightarrow>
     (\<forall>x c. passes c (snd (bk_build b x c))) \<and> (\<forall>x c. passes c (snd (bk_insert b x c))) \<and>
     (\<forall>x c. passes c (snd (bk_lookup b x c))) \<and> (\<forall>c. passes c (bk_close b c)) \<and>
     (\<forall>c. passes c (snd (bk_clock b c))) \<and> (\<forall>c. passes c (snd (bk_random b c))) \<and>
     (\<forall>n c. passes c (snd (bk_below b n c)))"

lemma client_passes:
  assumes "client_takes_time b"
  shows "bk_build b x c = (r1, c') \<Longrightarrow> passes c c'" and "bk_insert b es c = (r2, c') \<Longrightarrow> passes c c'"
    and "bk_lookup b i c = (r3, c') \<Longrightarrow> passes c c'" and "passes c (bk_close b c)"
    and "bk_clock b c = (r4, c') \<Longrightarrow> passes c c'" and "bk_random b c = (r5, c') \<Longrightarrow> passes c c'"
    and "bk_below b n c = (r6, c') \<Longrightarrow> passes c c'"
  using assms unfolding client_takes_time_def by (metis snd_conv)+

text \<open>A relation that every call of a workload keeps is kept by a whole run.\<close>

definition every_call :: "('s \<Rightarrow> 's \<Rightarrow> bool) \<Rightarrow> 's workload \<Rightarrow> bool" where
  "every_call R w \<longleftrightarrow> (\<forall>s. R s s) \<and> (\<forall>s t u. R s t \<longrightarrow> R t u \<longrightarrow> R s u) \<and> (\<forall>s r s'. w s = (r, s') \<longrightarrow> R s s')"

lemma every_callD:
  assumes "every_call R w"
  shows "R s s" and "R s t \<Longrightarrow> R t u \<Longrightarrow> R s u" and "w s = (r, s') \<Longrightarrow> R s s'"
  using assms unfolding every_call_def by blast+

lemma warm_calls_keep: "every_call R w \<Longrightarrow> warm_calls w n ls s = (r, s') \<Longrightarrow> R s s'"
proof (induction n arbitrary: ls s)
  case (Suc n)
  obtain q u where q: "w s = (q, u)" by fastforce
  have "R s u" by (rule every_callD(3) [OF Suc.prems(1) q])
  moreover have "R u s'"
  proof (cases q)
    case (Inl e)
    with Suc.prems(2) q show ?thesis using every_callD(1) [OF Suc.prems(1)] by auto
  next
    case (Inr x)
    with Suc.prems(2) q have "warm_calls w n (ls @ [latency_ns x]) u = (r, s')" by simp
    with Suc.IH Suc.prems(1) show ?thesis by blast
  qed
  ultimately show ?case by (rule every_callD(2) [OF Suc.prems(1)])
qed (use every_callD(1) in auto)

lemma stabilize_keep: "every_call R w \<Longrightarrow> stabilize lib c w n ls s = (r, s') \<Longrightarrow> R s s'"
proof (induction n arbitrary: ls s)
  case (Suc n)
  note refl = every_callD(1) [OF Suc.prems(1)]
  show ?case
  proof (cases "window_stable lib c ls = Inr False")
    case False
    with Suc.prems(2) refl show ?thesis by (auto split: sum.splits bool.splits)
  next
    case True
    obtain q u where q: "w s = (q, u)" by fastforce
    have "R s u" by (rule every_callD(3) [OF Suc.prems(1) q])
    moreover have "R u s'"
    proof (cases q)
      case (Inl e)
      with Suc.prems(2) True q refl show ?thesis by auto
    next
      case (Inr x)
      with Suc.prems(2) True q have "stabilize lib c w n (ls @ [latency_ns x]) u = (r, s')" by simp
      with Suc.IH Suc.prems(1) show ?thesis by blast
    qed
    ultimately show ?thesis by (rule every_callD(2) [OF Suc.prems(1)])
  qed
qed (use every_callD(1) in auto)

lemma measure_keep: "every_call R w \<Longrightarrow> measure w clock limit start n i acc s = (r, j, s') \<Longrightarrow> R s s'"
proof (induction n arbitrary: i acc s)
  case (Suc n)
  note refl = every_callD(1) [OF Suc.prems(1)]
  show ?case
  proof (cases "limit \<le> clock i - start")
    case True
    with Suc.prems(2) refl show ?thesis by auto
  next
    case False
    obtain q u where q: "w s = (q, u)" by fastforce
    have "R s u" by (rule every_callD(3) [OF Suc.prems(1) q])
    moreover have "R u s'"
    proof (cases q)
      case (Inl e)
      with Suc.prems(2) False q refl show ?thesis by auto
    next
      case (Inr x)
      with Suc.prems(2) False q have "measure w clock limit start n (Suc i) (acc @ [x]) u = (r, j, s')" by simp
      with Suc.IH Suc.prems(1) show ?thesis by blast
    qed
    ultimately show ?thesis by (rule every_callD(2) [OF Suc.prems(1)])
  qed
qed (use every_callD(1) in auto)

lemma bench_run_keep:
  assumes "every_call R w" and "bench_run c w clock i s = (r, j, s')"
  shows "R s s'"
proof (cases "py_int (f_mul (time_limit_sec c) (Fin 1000000000))")
  case (Inl e)
  with assms show ?thesis using every_callD(1) by (auto simp: bench_run_def)
next
  case (Inr limit)
  obtain q k u where "measure w clock limit (clock i) (nat (op_count_limit c)) (Suc i) [] s = (q, k, u)" by (metis prod_cases3)
  with assms Inr measure_keep [OF assms(1) this] show ?thesis
    by (auto simp: bench_run_def Let_def split: sum.splits)
qed

lemma run_with_warmup_keep:
  assumes k: "every_call R w" and r: "run_with_warmup lib c w clock i s = (r, j, s')"
  shows "R s s'"
proof -
  obtain q u where q: "bench_warmup lib c w s = (q, u)" by fastforce
  have "R s u"
  proof -
    obtain x v where x: "warm_calls w (nat (warmup_iterations c)) [] s = (x, v)" by fastforce
    note one = warm_calls_keep [OF k x]
    show ?thesis
    proof (cases x)
      case (Inl e)
      with q x one show ?thesis by (simp add: bench_warmup_def)
    next
      case (Inr ls)
      with q x have "stabilize lib c w (nat (max_stability_runs c * warmup_iterations c)) ls v = (q, u)"
        by (simp add: bench_warmup_def)
      from every_callD(2) [OF k one stabilize_keep [OF k this]] show ?thesis .
    qed
  qed
  moreover have "R u s'"
  proof (cases q)
    case (Inl e)
    with r q show ?thesis using every_callD(1) [OF k] by (simp add: run_with_warmup_def)
  next
    case (Inr settled)
    obtain y k2 v where y: "bench_run c w clock i u = (y, k2, v)" by (metis prod_cases3)
    have "v = s'" using r q Inr y by (cases y) (simp_all add: run_with_warmup_def)
    with bench_run_keep [OF k y] show ?thesis by simp
  qed
  ultimately show ?thesis by (rule every_callD(2) [OF k])
qed

lemma timed_passes:
  assumes "client_takes_time b" and "\<And>c r c'. f c = (r, c') \<Longrightarrow> passes c c'" and "timed b f c = (x, c')"
  shows "passes c c'"
proof -
  obtain t1 c1 where 1: "bk_clock b c = (t1, c1)" by (metis surj_pair)
  obtain ok c2 where 2: "f c1 = (ok, c2)" by (metis surj_pair)
  obtain t2 c3 where 3: "bk_clock b c2 = (t2, c3)" by (metis surj_pair)
  have "passes c c1" by (rule client_passes(5) [OF assms(1) 1])
  also have "passes c1 c2" by (rule assms(2) [OF 2])
  also have "passes c2 c3" by (rule client_passes(5) [OF assms(1) 3])
  finally show ?thesis using assms(3) 1 2 3 by (simp add: timed_def)
qed

lemma insert_ok_passes: "client_takes_time b \<Longrightarrow> insert_ok b es c = (r, c') \<Longrightarrow> passes c c'"
  by (auto simp: insert_ok_def split: prod.splits dest: client_passes(2))

lemma lookup_ok_passes: "client_takes_time b \<Longrightarrow> lookup_ok b i c = (r, c') \<Longrightarrow> passes c c'"
  by (auto simp: lookup_ok_def split: prod.splits dest: client_passes(3))

lemma choice_passes: "client_takes_time b \<Longrightarrow> choice b xs c = (r, c') \<Longrightarrow> passes c c'"
  by (auto simp: choice_def split: prod.splits dest: client_passes(7))

lemma ensure_client_passes: "client_takes_time b \<Longrightarrow> ensure_client b as k c = (r, c') \<Longrightarrow> passes c c'"
  by (auto simp: ensure_client_def split: if_splits dest: client_passes(1))

lemma drop_client_passes: "client_takes_time b \<Longrightarrow> passes c (drop_client b k c)"
  by (simp add: drop_client_def client_passes(4))

lemma timed_insert_passes: "client_takes_time b \<Longrightarrow> timed b (insert_ok b es) c = (x, c') \<Longrightarrow> passes c c'"
  by (rule timed_passes) (auto dest: insert_ok_passes)

lemma timed_lookup_passes: "client_takes_time b \<Longrightarrow> timed b (lookup_ok b i) c = (x, c') \<Longrightarrow> passes c c'"
  by (rule timed_passes) (auto dest: lookup_ok_passes)

definition state_passes :: "'t \<times> world \<times> 'd \<Rightarrow> 't \<times> world \<times> 'd \<Rightarrow> bool" where
  "state_passes s s' \<longleftrightarrow> passes (snd s) (snd s')"

lemma every_call_passes:
  "(\<And>t c r t' c'. w (t, c) = (r, t', c') \<Longrightarrow> passes c c') \<Longrightarrow> every_call state_passes w"
  unfolding every_call_def state_passes_def
  by (auto intro: passes_trans)

lemma throughput_every_call: "client_takes_time b \<Longrightarrow> every_call state_passes (throughput_execute_one b)"
proof (rule every_call_passes)
  fix t c r t' c'
  assume b: "client_takes_time b" and e: "throughput_execute_one b (t, c) = (r, t', c')"
  obtain q c1 where q: "ensure_client b (tw_addresses t) (tw_connected t) c = (q, c1)" by (metis surj_pair)
  obtain x c2 where x: "timed b (insert_ok b (tw_batches t ! (tw_index t mod length (tw_batches t)))) c1 = (x, c2)" by (metis surj_pair)
  show "passes c c'"
    using e q x ensure_client_passes [OF b q] timed_insert_passes [OF b x]
    by (auto simp: throughput_execute_one_def split: if_splits sum.splits intro: passes_trans)
qed

lemma read_every_call: "client_takes_time b \<Longrightarrow> every_call state_passes (read_execute_one b)"
proof (rule every_call_passes)
  fix t c r t' c'
  assume b: "client_takes_time b" and e: "read_execute_one b (t, c) = (r, t', c')"
  obtain q c1 where q: "ensure_client b (rw_addresses t) (rw_connected t) c = (q, c1)" by (metis surj_pair)
  obtain i c2 where i: "choice b (rw_entity_ids t) c1 = (i, c2)" by (metis surj_pair)
  obtain x c3 where x: "timed b (lookup_ok b i) c2 = (x, c3)" by (metis surj_pair)
  show "passes c c'"
    using e q i x ensure_client_passes [OF b q] choice_passes [OF b i] timed_lookup_passes [OF b x]
    by (auto simp: read_execute_one_def split: if_splits sum.splits intro: passes_trans)
qed

lemma write_every_call: "client_takes_time b \<Longrightarrow> every_call state_passes (write_execute_one b)"
proof (rule every_call_passes)
  fix t c r t' c'
  assume b: "client_takes_time b" and e: "write_execute_one b (t, c) = (r, t', c')"
  obtain q c1 where q: "ensure_client b (ww_addresses t) (ww_connected t) c = (q, c1)" by (metis surj_pair)
  obtain x c2 where x: "timed b (insert_ok b [ww_events t ! (ww_index t mod length (ww_events t))]) c1 = (x, c2)" by (metis surj_pair)
  show "passes c c'"
    using e q x ensure_client_passes [OF b q] timed_insert_passes [OF b x]
    by (auto simp: write_execute_one_def split: if_splits sum.splits intro: passes_trans)
qed

lemma mixed_operation_passes:
  assumes b: "client_takes_time b" and e: "mixed_operation b is_read (t, c) = (x, t', c')"
  shows "passes c c'"
proof -
  have rd: "passes c c'" if "execute_read b (t, c) = (x, t', c')"
  proof -
    obtain i c1 where i: "choice b (mw_read_ids t) c = (i, c1)" by (metis surj_pair)
    obtain y c2 where y: "timed b (lookup_ok b i) c1 = (y, c2)" by (metis surj_pair)
    show ?thesis using that i y choice_passes [OF b i] timed_lookup_passes [OF b y]
      by (auto simp: execute_read_def intro: passes_trans)
  qed
  have wr: "passes c c'" if "execute_write b (t, c) = (x, t', c')"
    using that by (auto simp: execute_write_def Let_def split: prod.splits dest: timed_insert_passes [OF b])
  have no: "passes c c'" if "execute_none b (t, c) = (x, t', c')"
    using that by (auto simp: execute_none_def split: prod.splits dest: client_passes(5) [OF b])
  show ?thesis using e rd wr no by (auto simp: mixed_operation_def split: if_splits)
qed

lemma mixed_every_call: "client_takes_time b \<Longrightarrow> every_call state_passes (mixed_step b)"
proof (rule every_call_passes)
  fix t c r t' c'
  assume b: "client_takes_time b" and "mixed_step b (t, c) = (r, t', c')"
  then obtain q where e: "mixed_execute_one b (t, c) = (q, t', c')" by (auto simp: mixed_step_def split: prod.splits)
  obtain q1 c1 where q: "ensure_client b (mw_addresses t) (mw_connected t) c = (q1, c1)" by (metis surj_pair)
  obtain u c2 where u: "bk_random b c1 = (u, c2)" by (metis surj_pair)
  obtain x t3 c3 where x: "mixed_operation b (f_lt u (mw_read_ratio t)) (t\<lparr>mw_connected := True\<rparr>, c2) = (x, t3, c3)"
    by (metis prod_cases3)
  show "passes c c'"
    using e q u x ensure_client_passes [OF b q] client_passes(6) [OF b u] mixed_operation_passes [OF b x]
    by (auto simp: mixed_execute_one_def split: if_splits sum.splits intro: passes_trans)
qed

lemma session_passes:
  assumes "every_call state_passes step" and "\<And>t c. passes c (snd (cleanup (t, c)))"
    and "session lib cfg clock name step report cleanup (t, c) = (r, c')"
  shows "passes c c'"
proof -
  obtain q i t1 c1 where q: "run_with_warmup lib cfg step clock 0 (t, c) = (q, i, t1, c1)" by (metis prod_cases4)
  have "passes c c1" using run_with_warmup_keep [OF assms(1) q] by (simp add: state_passes_def)
  moreover have "c' = snd (cleanup (t1, c1))"
    using assms(3) q by (auto simp: session_def split: sum.splits)
  ultimately show ?thesis using assms(2) passes_trans by blast
qed

lemma cleanups_pass:
  assumes "client_takes_time b"
  shows "passes c (snd (throughput_cleanup b (t, c)))" and "passes c (snd (read_cleanup b (t1, c)))"
    and "passes c (snd (write_cleanup b (t2, c)))" and "passes c (snd (mixed_cleanup b (t3, c)))"
  using drop_client_passes [OF assms]
  by (simp_all add: throughput_cleanup_def read_cleanup_def write_cleanup_def mixed_cleanup_def)

lemma setups_pass:
  assumes b: "client_takes_time b"
  shows "throughput_setup gen b (t, c) = (r, t', c') \<Longrightarrow> passes c c'"
    and "read_setup b (t1, c) = (r1, t1', c') \<Longrightarrow> passes c c'"
    and "write_setup gen b (t2, c) = (r2, t2', c') \<Longrightarrow> passes c c'"
    and "mixed_setup gen b (t3, c) = (r3, t3', c') \<Longrightarrow> passes c c'"
proof -
  have build: "passes c c'" if "bk_build b x c = (q, c')" for x q c'
    by (rule client_passes(1) [OF b that])
  show "passes c c'" if "throughput_setup gen b (t, c) = (r, t', c')"
    using that build by (auto simp: throughput_setup_def split: sum.splits prod.splits if_splits)
  show "passes c c'" if "read_setup b (t1, c) = (r1, t1', c')"
    using that build by (auto simp: read_setup_def split: sum.splits prod.splits if_splits)
  show "passes c c'" if "write_setup gen b (t2, c) = (r2, t2', c')"
    using that build by (auto simp: write_setup_def split: sum.splits prod.splits if_splits)
  have "passes c (snd (bk_insert b evs c1))" if "passes c c1" for evs c1
    using client_passes(2) [OF b] that passes_trans by (metis surj_pair snd_conv)
  with build show "passes c c'" if "mixed_setup gen b (t3, c) = (r3, t3', c')"
    using that by (auto simp: mixed_setup_def Let_def split: sum.splits prod.splits if_splits)
qed

lemma preload_passes:
  assumes b: "client_takes_time b" and e: "preload b addrs evs c = (r, c')"
  shows "passes c c'"
proof -
  obtain q c1 where q: "bk_build b addrs c = (q, c1)" by (metis surj_pair)
  note one = client_passes(1) [OF b q]
  show ?thesis
  proof (cases "q = Inr () \<and> batch_to_geo_events evs \<in> range Inr")
    case False
    with e q one passes_trans [OF one client_passes(4) [OF b]] show ?thesis
      by (auto simp: preload_def split: sum.splits)
  next
    case True
    then obtain batch where t: "q = Inr ()" "batch_to_geo_events evs = Inr batch" by blast
    obtain x c2 where x: "bk_insert b batch c1 = (x, c2)" by (metis surj_pair)
    have "c' = bk_close b c2" using e q t x by (simp add: preload_def)
    with passes_trans [OF passes_trans [OF one client_passes(2) [OF b x]] client_passes(4) [OF b]]
    show ?thesis by simp
  qed
qed

lemma throughput_session_passes:
  assumes b: "client_takes_time b"
    and e: "throughput_session lib hdr gen b clock topology cfg addrs c = (r, c')"
  shows "passes c c'"
proof (cases "new_throughput_workload (Some addrs) None None (bench_data cfg) 1000")
  case (Inl x)
  with e show ?thesis by (simp add: throughput_session_def)
next
  case (Inr t)
  obtain q t1 c1 where q: "throughput_setup gen b (t, c) = (q, t1, c1)" by (metis prod_cases3)
  note one = setups_pass(1) [OF b q]
  show ?thesis
  proof (cases q)
    case (Inl x)
    with e \<open>_ = Inr t\<close> q one show ?thesis by (simp add: throughput_session_def)
  next
    case s: (Inr u)
    have "passes c1 c'"
      by (rule session_passes [OF throughput_every_call [OF b] cleanups_pass(1) [OF b]])
        (use e Inr q s in \<open>simp add: throughput_session_def\<close>)
    with one show ?thesis by (rule passes_trans)
  qed
qed

lemma write_session_passes:
  assumes b: "client_takes_time b"
    and e: "write_session lib np hdr gen b clock topology cfg addrs c = (r, c')"
  shows "passes c c'"
proof (cases "new_write_workload (Some addrs) None None (bench_data cfg)")
  case (Inl x)
  with e show ?thesis by (simp add: write_session_def)
next
  case (Inr t)
  obtain q t1 c1 where q: "write_setup gen b (t, c) = (q, t1, c1)" by (metis prod_cases3)
  note one = setups_pass(3) [OF b q]
  show ?thesis
  proof (cases q)
    case (Inl x)
    with e \<open>_ = Inr t\<close> q one show ?thesis by (simp add: write_session_def)
  next
    case s: (Inr u)
    have "passes c1 c'"
      by (rule session_passes [OF write_every_call [OF b] cleanups_pass(3) [OF b]])
        (use e Inr q s in \<open>simp add: write_session_def\<close>)
    with one show ?thesis by (rule passes_trans)
  qed
qed

lemma mixed_session_passes:
  assumes b: "client_takes_time b"
    and e: "mixed_session lib np hdr gen b clock topology cfg addrs c = (r, c')"
  shows "passes c c'"
proof (cases "new_mixed_workload (Some addrs) None None (bench_data cfg) (read_write_ratio cfg)")
  case (Inl x)
  with e show ?thesis by (simp add: mixed_session_def)
next
  case (Inr t)
  obtain q t1 c1 where q: "mixed_setup gen b (t, c) = (q, t1, c1)" by (metis prod_cases3)
  note one = setups_pass(4) [OF b q]
  show ?thesis
  proof (cases q)
    case (Inl x)
    with e \<open>_ = Inr t\<close> q one show ?thesis by (simp add: mixed_session_def)
  next
    case s: (Inr u)
    have "passes c1 c'"
      by (rule session_passes [OF mixed_every_call [OF b] cleanups_pass(4) [OF b]])
        (use e Inr q s in \<open>simp add: mixed_session_def\<close>)
    with one show ?thesis by (rule passes_trans)
  qed
qed

lemma read_session_passes:
  assumes b: "client_takes_time b"
    and e: "read_session lib np hdr gen b clock topology cfg addrs c = (r, c')"
  shows "passes c c'"
proof (cases "gen (bench_data cfg)")
  case (Inl x)
  with e show ?thesis by (simp add: read_session_def)
next
  case g: (Inr evs)
  obtain p c0 where p: "preload b addrs (map event_members evs) c = (p, c0)" by (metis surj_pair)
  note zero = preload_passes [OF b p]
  show ?thesis
  proof (cases "p = Inr () \<and> new_read_workload (Some addrs) None None (map (\<lambda>e. JStr (te_entity_id e)) evs) \<in> range Inr")
    case False
    with e g p zero show ?thesis by (auto simp: read_session_def split: sum.splits)
  next
    case True
    then obtain t where t: "p = Inr ()" "new_read_workload (Some addrs) None None (map (\<lambda>e. JStr (te_entity_id e)) evs) = Inr t"
      by blast
    obtain q t1 c1 where q: "read_setup b (t, c0) = (q, t1, c1)" by (metis prod_cases3)
    note one = passes_trans [OF zero setups_pass(2) [OF b q]]
    show ?thesis
    proof (cases q)
      case (Inl x)
      with e g p t q one show ?thesis by (simp add: read_session_def)
    next
      case s: (Inr u)
      have "passes c1 c'"
        by (rule session_passes [OF read_every_call [OF b] cleanups_pass(2) [OF b]])
          (use e g p t q s in \<open>simp add: read_session_def\<close>)
      with one show ?thesis by (rule passes_trans)
    qed
  qed
qed

lemma run_session_passes:
  assumes "client_takes_time b" and "run_session bt b kind topology cfg addrs c = (r, c')"
  shows "passes c c'"
  using assms(2)
  by (cases kind) (simp_all add: run_session_def throughput_session_passes [OF assms(1)] read_session_passes [OF assms(1)]
    write_session_passes [OF assms(1)] mixed_session_passes [OF assms(1)])

subsection \<open>A benchmark leaves nothing behind\<close>

lemma get_leader_port_only_time: "get_leader_port env c w = (r, w') \<Longrightarrow> only_time w w'"
  by (auto simp: get_leader_port_def split: sum.splits prod.splits option.splits dest: wait_for_leader_only_time)

lemma get_cluster_ports_only_time: "get_cluster_ports env c w = (r, w') \<Longrightarrow> only_time w w'"
  by (auto simp: get_cluster_ports_def split: sum.splits prod.splits dest: get_leader_port_only_time)

lemma get_cluster_addresses_only_time: "get_cluster_addresses env c w = (r, w') \<Longrightarrow> only_time w w'"
  by (auto simp: get_cluster_addresses_def split: prod.splits dest: get_cluster_ports_only_time)

lemma try_listeners_only_time: "try_listeners env ps w = (r, w') \<Longrightarrow> only_time w w'"
proof (induction ps arbitrary: w)
  case (Cons p ps)
  obtain d a where l: "env_listening env (now w) p = (d, a)" by fastforce
  show ?case
  proof (cases a)
    case False
    with Cons.prems l have "try_listeners env ps (sleep d w) = (r, w')" by simp
    from only_time_trans [OF only_time_sleep Cons.IH [OF this]] show ?thesis .
  qed (use Cons.prems l in auto)
qed simp

lemma wait_listeners_only_time: "wait_listeners env ps deadline w = (r, w') \<Longrightarrow> only_time w w'"
proof (induction env ps deadline w rule: wait_listeners.induct)
  case (1 env ps deadline w)
  obtain q u where q: "try_listeners env ps w = (q, u)" by (metis surj_pair)
  note one = try_listeners_only_time [OF q]
  show ?case
  proof (cases "now w < deadline \<and> \<not> q")
    case True
    with 1(2) q have "wait_listeners env ps deadline (sleep 250 u) = (r, w')"
      by (subst (asm) wait_listeners.simps) simp
    with 1(1) True q have "only_time (sleep 250 u) w'" by fastforce
    with one show ?thesis using only_time_sleep only_time_trans by blast
  next
    case False
    with 1(2) q one show ?thesis by (subst (asm) wait_listeners.simps) (auto split: if_splits)
  qed
qed

lemma wait_for_data_plane_only_time: "wait_for_data_plane_ready env c w = (r, w') \<Longrightarrow> only_time w w'"
  by (auto simp: wait_for_data_plane_ready_def Let_def split: sum.splits prod.splits bool.splits
      dest!: get_cluster_ports_only_time wait_listeners_only_time intro: only_time_trans)

lemma benchmark_body_passes:
  assumes "client_takes_time b" and e: "benchmark_body env bt b kind topology cfg c s = (r, s')"
  shows "passes s s'"
proof -
  obtain w d where s: "s = (w, d)" by (metis surj_pair)
  obtain q w1 where q: "wait_for_data_plane_ready env c w = (q, w1)" by (metis surj_pair)
  obtain as w2 where as: "get_cluster_addresses env c w1 = (as, w2)" by (metis surj_pair)
  note one = wait_for_data_plane_only_time [OF q]
  note two = only_time_trans [OF one get_cluster_addresses_only_time [OF as]]
  show ?thesis
  proof (cases "q = Inr () \<and> as \<in> range Inr")
    case False
    with e s q as one two show ?thesis by (auto simp: benchmark_body_def passes_def split: sum.splits)
  next
    case True
    then obtain addrs where "q = Inr ()" "as = Inr addrs" by blast
    with e s q as have "run_session bt b kind topology cfg addrs (w2, d) = (r, s')" by (simp add: benchmark_body_def)
    from run_session_passes [OF assms(1) this] two show ?thesis
      unfolding s passes_def by (auto intro: only_time_trans)
  qed
qed

definition timely :: "('d, 'a) cluster_body \<Rightarrow> bool" where
  "timely body \<longleftrightarrow> (\<forall>c s r s'. body c s = (r, s') \<longrightarrow> passes s s')"

lemma isolated_try_accounted:
  assumes a: "accounted old c w" "\<not> started c \<longrightarrow> processes c = []"
    and body: "timely body"
  shows "\<exists>r c' w' d'. isolated_try env body c (w, d) = Some (r, c', w', d') \<and> accounted old c' w'"
proof -
  from cluster_start_spec [OF a, of env] obtain r c1 w1 where
    s: "cluster_start env c w = Some (r, c1, w1)" "accounted old c1 w1" by blast
  have time: "accounted old c1 w'" if "only_time w1 w'" for w'
    using accounted_later [OF s(2) only_time_later [OF that]] that by (simp add: only_time_def)
  obtain q w2 where q: "wait_for_leader env (Some (startup_timeout (config c1))) c1 w1 = (q, w2)" by (metis surj_pair)
  note two = wait_for_leader_only_time [OF q]
  show ?thesis
  proof (cases "r = Inr () \<and> (\<exists>port. q = Inr (Some port))")
    case False
    with s q time [OF two] show ?thesis by (auto simp: isolated_try_def split: sum.splits option.splits)
  next
    case True
    obtain x w3 d3 where x: "body c1 (w2, d) = (x, w3, d3)" by (metis prod_cases3)
    from body x have "passes (w2, d) (w3, d3)" unfolding timely_def by blast
    then have "only_time w2 w3" by (simp add: passes_def)
    from time [OF only_time_trans [OF two this]] True s q x show ?thesis by (auto simp: isolated_try_def)
  qed
qed

lemma isolated_cluster_returns:
  assumes body: "timely body"
  shows "\<exists>r s'. isolated_cluster he topology grid body s = Some (r, s') \<and>
    running_pids (fst s') \<subseteq> running_pids (fst s)"
proof (cases "new_cluster (isolated_config (he_preserve he) topology grid) (he_binary he) (he_ancestors he) (files (fst s))")
  case (Inl e)
  then show ?thesis by (simp add: isolated_cluster_def)
next
  case (Inr c)
  obtain w d where s: "s = (w, d)" by (metis surj_pair)
  have "processes c = []" using Inr by (auto simp: new_cluster_def bindE_split_Inr split: if_splits)
  then have "accounted (running_pids w) c w" "\<not> started c \<longrightarrow> processes c = []"
    by (simp_all add: accounted_def known_spawned_def running_pids_def)
  then have "\<exists>r c1 w1 d1. isolated_try (he_env he) body c (w, d) = Some (r, c1, w1, d1) \<and> accounted (running_pids w) c1 w1"
    by (rule isolated_try_accounted [OF _ _ body])
  then obtain r c1 w1 d1 where
    t: "isolated_try (he_env he) body c s = Some (r, c1, w1, d1)" "accounted (running_pids w) c1 w1"
    unfolding s by blast
  from stop_tidies [OF t(2)] obtain c2 w2 where
    "cluster_stop c1 w1 = Some (c2, w2)" "\<forall>pid. running pid w2 \<longrightarrow> pid \<in> running_pids w" by blast
  with Inr s t(1) show ?thesis by (auto simp: isolated_cluster_def running_pids_def)
qed

lemma run_benchmark_returns:
  assumes "client_takes_time b"
  shows "\<exists>r s'. run_benchmark he bt b kind topology cfg s = Some (r, s') \<and> running_pids (fst s') \<subseteq> running_pids (fst s)"
  unfolding run_benchmark_def
  by (rule isolated_cluster_returns) (simp add: timely_def benchmark_body_passes [OF assms])

text \<open>A runner that returns, and leaves no new process.\<close>

definition returning :: "'d kind_runner \<Rightarrow> bool" where
  "returning run \<longleftrightarrow>
     (\<forall>k t cfg s. \<exists>r s'. run k t cfg s = Some (r, s') \<and> running_pids (fst s') \<subseteq> running_pids (fst s))"

lemma run_benchmark_returning: "client_takes_time b \<Longrightarrow> returning (run_benchmark he bt b)"
  using run_benchmark_returns unfolding returning_def by blast

subsection \<open>What a suite records\<close>

definition suite_plan :: "bool \<Rightarrow> int list \<Rightarrow> (bench_kind \<times> string) list" where
  "suite_plan mixed ts = concat (map (\<lambda>t. map (\<lambda>k. (k, show_int t)) (suite_kinds mixed)) ts)"

text \<open>The files written while \<open>new\<close> is added to \<open>old\<close>, entry by entry.\<close>

definition growing :: "'a list \<Rightarrow> 'a list \<Rightarrow> 'a list list" where
  "growing old new = map (\<lambda>i. old @ take i new) [1..<Suc (length new)]"

lemma growing_Nil [simp]: "growing old [] = []"
  by (simp add: growing_def)

lemma growing_Cons: "growing old (x # new) = (old @ [x]) # growing (old @ [x]) new"
proof -
  have "[1..<Suc (length (x # new))] = 1 # map Suc [1..<Suc (length new)]"
    by (subst upt_conv_Cons) (simp_all add: map_Suc_upt del: upt_Suc)
  then show ?thesis by (simp add: growing_def comp_def del: upt_Suc)
qed

lemma growing_append: "growing old (a @ b) = growing old a @ growing (old @ a) b"
  by (induction a arbitrary: old) (simp_all add: growing_Cons)

lemma run_kinds_spec:
  assumes run: "returning run"
    and "distinct ks" and "\<forall>k\<in>set ks. (k, show_int t) \<notin> fst ` set results"
  shows "\<exists>new s'. run_kinds run t cfg ks results saved s = Some (results @ new, saved @ growing results new, s') \<and>
    map fst new = map (\<lambda>k. (k, show_int t)) ks \<and> running_pids (fst s') \<subseteq> running_pids (fst s)"
  using assms(2,3)
proof (induction ks arbitrary: results saved s)
  case Nil
  show ?case by auto
next
  case (Cons k ks)
  obtain r s1 where r: "run k t cfg s = Some (r, s1)" "running_pids (fst s1) \<subseteq> running_pids (fst s)"
    using run unfolding returning_def by blast
  let ?x = "((k, show_int t), entry_of r)"
  have u: "AList.update (k, show_int t) (entry_of r) results = results @ [?x]"
    using Cons.prems(2) by (intro update_new_key) simp
  have "distinct ks" "\<forall>k\<in>set ks. (k, show_int t) \<notin> fst ` set (results @ [?x])" using Cons.prems by auto
  from Cons.IH [OF this] obtain new s2 where
    n: "run_kinds run t cfg ks (results @ [?x]) (saved @ [results @ [?x]]) s1 =
        Some ((results @ [?x]) @ new, (saved @ [results @ [?x]]) @ growing (results @ [?x]) new, s2)"
      "map fst new = map (\<lambda>k. (k, show_int t)) ks" "running_pids (fst s2) \<subseteq> running_pids (fst s1)"
    by blast
  show ?case
    using r n u by (intro exI [of _ "?x # new"] exI [of _ s2]) (auto simp: growing_Cons Let_def)
qed

lemma suite_kinds_distinct: "distinct (suite_kinds mixed)"
  by (simp add: suite_kinds_def)

lemma show_topology_inj: "inj_on show_int {1, 3, 5, 6}"
proof -
  have "distinct (map show_int [1, 3, 5, 6])" by code_simp
  then show ?thesis by (simp only: distinct_map) simp
qed

lemma valid_topology: "check_config (topology_bench_config protocol t cfg) = Inr () \<Longrightarrow> t \<in> {1, 3, 5, 6}"
  by (auto simp: check_config_def topology_bench_config_def split: if_splits)

lemma run_topologies_spec:
  assumes run: "returning run"
    and "\<forall>t\<in>set ts. check_config (topology_bench_config protocol t cfg) = Inr ()" and "distinct ts"
    and "\<forall>t\<in>set ts. \<forall>k. (k, show_int t) \<notin> fst ` set results"
  shows "\<exists>new s'. run_topologies run protocol cfg mixed ts results saved s =
      Some (Inr (results @ new), saved @ growing results new @ [results @ new], s') \<and>
    map fst new = suite_plan mixed ts \<and> running_pids (fst s') \<subseteq> running_pids (fst s)"
  using assms(2-)
proof (induction ts arbitrary: results saved s)
  case Nil
  show ?case by (simp add: suite_plan_def)
next
  case (Cons t ts)
  let ?cfg = "topology_bench_config protocol t cfg"
  have "\<forall>k\<in>set (suite_kinds mixed). (k, show_int t) \<notin> fst ` set results" using Cons.prems(3) by simp
  from run_kinds_spec [OF run suite_kinds_distinct this] obtain a s1 where
    a: "run_kinds run t ?cfg (suite_kinds mixed) results saved s = Some (results @ a, saved @ growing results a, s1)"
      "map fst a = map (\<lambda>k. (k, show_int t)) (suite_kinds mixed)" "running_pids (fst s1) \<subseteq> running_pids (fst s)"
    by blast
  have other: "show_int u \<noteq> show_int t" if "u \<in> set ts" for u
  proof -
    have "u \<in> {1, 3, 5, 6}" "t \<in> {1, 3, 5, 6}" by (rule valid_topology; use that Cons.prems(1) in auto)+
    moreover have "u \<noteq> t" using that Cons.prems(2) by auto
    ultimately show ?thesis using inj_on_eq_iff [OF show_topology_inj] by blast
  qed
  have "fst ` set a = (\<lambda>k. (k, show_int t)) ` set (suite_kinds mixed)" using a(2) by (metis list.set_map)
  with other Cons.prems(3) have "\<forall>u\<in>set ts. \<forall>k. (k, show_int u) \<notin> fst ` set (results @ a)"
    by (auto simp: image_Un)
  moreover have "\<forall>t\<in>set ts. check_config (topology_bench_config protocol t cfg) = Inr ()" "distinct ts"
    using Cons.prems(1,2) by simp_all
  ultimately obtain new s2 where
    n: "run_topologies run protocol cfg mixed ts (results @ a) (saved @ growing results a) s1 =
        Some (Inr ((results @ a) @ new), (saved @ growing results a) @ growing (results @ a) new @ [(results @ a) @ new], s2)"
      "map fst new = suite_plan mixed ts" "running_pids (fst s2) \<subseteq> running_pids (fst s1)"
    using Cons.IH by blast
  show ?case
    using a n Cons.prems(1)
    by (intro exI [of _ "a @ new"] exI [of _ s2]) (auto simp: Let_def growing_append suite_plan_def)
qed


subsection \<open>Every session closes its clients\<close>

text \<open>\<open>n\<close> counts the open clients.\<close>

definition counts_open :: "'c bench_client \<Rightarrow> ('c \<Rightarrow> int) \<Rightarrow> bool" where
  "counts_open b n \<longleftrightarrow>
     (\<forall>x c r c'. bk_build b x c = (r, c') \<longrightarrow> n c' = (if r = Inr () then n c + 1 else n c)) \<and>
     (\<forall>c. n (bk_close b c) = n c - 1) \<and> (\<forall>x c r c'. bk_insert b x c = (r, c') \<longrightarrow> n c' = n c) \<and>
     (\<forall>x c r c'. bk_lookup b x c = (r, c') \<longrightarrow> n c' = n c) \<and> (\<forall>c r c'. bk_clock b c = (r, c') \<longrightarrow> n c' = n c) \<and>
     (\<forall>c r c'. bk_random b c = (r, c') \<longrightarrow> n c' = n c) \<and> (\<forall>k c r c'. bk_below b k c = (r, c') \<longrightarrow> n c' = n c)"

lemma counts_openD:
  assumes "counts_open b n"
  shows "bk_build b x c = (Inr u, c') \<Longrightarrow> n c' = n c + 1" and "bk_build b x c = (Inl e, c') \<Longrightarrow> n c' = n c"
    and "n (bk_close b c) = n c - 1" and "bk_insert b es c = (r1, c') \<Longrightarrow> n c' = n c"
    and "bk_lookup b i c = (r2, c') \<Longrightarrow> n c' = n c" and "bk_clock b c = (r3, c') \<Longrightarrow> n c' = n c"
    and "bk_random b c = (r4, c') \<Longrightarrow> n c' = n c" and "bk_below b k c = (r5, c') \<Longrightarrow> n c' = n c"
  using assms unfolding counts_open_def by auto

lemma ensure_client_open:
  assumes "counts_open b n"
  shows "ensure_client b as k c = (Inr u, c') \<Longrightarrow> n c' = n c + (if k then 0 else 1)"
    and "ensure_client b as k c = (Inl e, c') \<Longrightarrow> n c' = n c \<and> \<not> k"
  using counts_openD(1,2) [OF assms] by (auto simp: ensure_client_def split: if_splits)

lemma timed_open:
  assumes "counts_open b n"
  shows "timed b (insert_ok b es) c = (x, c') \<Longrightarrow> n c' = n c" and "timed b (lookup_ok b i) c = (x, c') \<Longrightarrow> n c' = n c"
  by (auto simp: timed_def insert_ok_def lookup_ok_def split: prod.splits
      dest!: counts_openD(4) [OF assms] counts_openD(5) [OF assms] counts_openD(6) [OF assms])

lemma choice_open: "counts_open b n \<Longrightarrow> choice b xs c = (r, c') \<Longrightarrow> n c' = n c"
  by (auto simp: choice_def split: prod.splits dest: counts_openD(8))

lemma drop_client_open: "counts_open b n \<Longrightarrow> n (drop_client b k c) = n c - (if k then 1 else 0)"
  by (simp add: drop_client_def counts_openD(3))

text \<open>The open clients besides the one a workload holds.\<close>

definition balanced :: "('c \<Rightarrow> int) \<Rightarrow> ('t \<Rightarrow> bool) \<Rightarrow> 't \<times> 'c \<Rightarrow> 't \<times> 'c \<Rightarrow> bool" where
  "balanced n held s s' \<longleftrightarrow>
     n (snd s') - (if held (fst s') then 1 else 0) = n (snd s) - (if held (fst s) then 1 else 0)"

lemma every_call_balanced:
  "(\<And>t c r t' c'. w (t, c) = (r, t', c') \<Longrightarrow> balanced n held (t, c) (t', c')) \<Longrightarrow> every_call (balanced n held) w"
  unfolding every_call_def by (auto simp: balanced_def)

lemma throughput_balanced:
  assumes b: "counts_open b n"
  shows "every_call (balanced n tw_connected) (throughput_execute_one b)"
  by (rule every_call_balanced)
    (auto simp: throughput_execute_one_def balanced_def split: if_splits sum.splits prod.splits
      dest!: ensure_client_open [OF b] timed_open [OF b])

lemma read_balanced:
  assumes b: "counts_open b n"
  shows "every_call (balanced n rw_connected) (read_execute_one b)"
  by (rule every_call_balanced)
    (auto simp: read_execute_one_def balanced_def split: if_splits sum.splits prod.splits
      dest!: ensure_client_open [OF b] timed_open [OF b] choice_open [OF b])

lemma write_balanced:
  assumes b: "counts_open b n"
  shows "every_call (balanced n ww_connected) (write_execute_one b)"
  by (rule every_call_balanced)
    (auto simp: write_execute_one_def balanced_def split: if_splits sum.splits prod.splits
      dest!: ensure_client_open [OF b] timed_open [OF b])

lemma mixed_operation_open:
  assumes "counts_open b n" and "mixed_operation b is_read (t, c) = (x, t', c')"
  shows "n c' = n c \<and> mw_connected t' = mw_connected t"
  using assms(2)
  by (auto simp: mixed_operation_def execute_read_def execute_write_def execute_none_def Let_def
      split: if_splits prod.splits dest!: timed_open [OF assms(1)] choice_open [OF assms(1)] counts_openD(6) [OF assms(1)])

lemma track_sample_held [simp]: "mw_connected (track_sample x t) = mw_connected t"
  by (simp add: track_sample_def)

lemma mixed_balanced:
  assumes b: "counts_open b n"
  shows "every_call (balanced n mw_connected) (mixed_step b)"
  by (rule every_call_balanced)
    (auto simp: mixed_step_def mixed_execute_one_def balanced_def split: if_splits sum.splits prod.splits
      dest!: ensure_client_open [OF b] mixed_operation_open [OF b] counts_openD(7) [OF b])

lemma session_open:
  assumes "every_call (balanced n held) step" and "\<And>t c. n (snd (cleanup (t, c))) = n c - (if held t then 1 else 0)"
    and "session lib cfg clock name step report cleanup (t, c) = (r, c')"
  shows "n c' = n c - (if held t then 1 else 0)"
proof -
  obtain q i t1 c1 where q: "run_with_warmup lib cfg step clock 0 (t, c) = (q, i, t1, c1)" by (metis prod_cases4)
  have "c' = snd (cleanup (t1, c1))" using assms(3) q by (auto simp: session_def split: sum.splits)
  with assms(2) run_with_warmup_keep [OF assms(1) q] show ?thesis by (simp add: balanced_def)
qed

lemma cleanups_open:
  assumes "counts_open b n"
  shows "n (snd (throughput_cleanup b (t, c))) = n c - (if tw_connected t then 1 else 0)"
    and "n (snd (read_cleanup b (t1, c))) = n c - (if rw_connected t1 then 1 else 0)"
    and "n (snd (write_cleanup b (t2, c))) = n c - (if ww_connected t2 then 1 else 0)"
    and "n (snd (mixed_cleanup b (t3, c))) = n c - (if mw_connected t3 then 1 else 0)"
  using drop_client_open [OF assms]
  by (simp_all add: throughput_cleanup_def read_cleanup_def write_cleanup_def mixed_cleanup_def)

text \<open>A setup that succeeds holds a client, one that fails has opened none.\<close>

lemma setups_open:
  assumes b: "counts_open b n"
  shows "throughput_setup gen b (t, c) = (r, t', c') \<Longrightarrow> n c' = (if r = Inr () then n c + 1 else n c) \<and> (r = Inr () \<longrightarrow> tw_connected t')"
    and "read_setup b (t1, c) = (r1, t1', c') \<Longrightarrow> n c' = (if r1 = Inr () then n c + 1 else n c) \<and> (r1 = Inr () \<longrightarrow> rw_connected t1')"
    and "write_setup gen b (t2, c) = (r2, t2', c') \<Longrightarrow> n c' = (if r2 = Inr () then n c + 1 else n c) \<and> (r2 = Inr () \<longrightarrow> ww_connected t2')"
    and "mixed_setup gen b (t3, c) = (r3, t3', c') \<Longrightarrow> n c' = (if r3 = Inr () then n c + 1 else n c) \<and> (r3 = Inr () \<longrightarrow> mw_connected t3')"
proof -
  note build = counts_openD(1,2) [OF b]
  show "n c' = (if r = Inr () then n c + 1 else n c) \<and> (r = Inr () \<longrightarrow> tw_connected t')"
    if "throughput_setup gen b (t, c) = (r, t', c')"
    using that by (auto simp: throughput_setup_def split: sum.splits prod.splits if_splits dest!: build)
  show "n c' = (if r1 = Inr () then n c + 1 else n c) \<and> (r1 = Inr () \<longrightarrow> rw_connected t1')"
    if "read_setup b (t1, c) = (r1, t1', c')"
    using that by (auto simp: read_setup_def split: sum.splits prod.splits if_splits dest!: build)
  show "n c' = (if r2 = Inr () then n c + 1 else n c) \<and> (r2 = Inr () \<longrightarrow> ww_connected t2')"
    if "write_setup gen b (t2, c) = (r2, t2', c')"
    using that by (auto simp: write_setup_def split: sum.splits prod.splits if_splits dest!: build)
  have "n (snd (bk_insert b evs c1)) = n c1" for evs c1
    using counts_openD(4) [OF b] by (metis surj_pair snd_conv)
  then show "n c' = (if r3 = Inr () then n c + 1 else n c) \<and> (r3 = Inr () \<longrightarrow> mw_connected t3')"
    if "mixed_setup gen b (t3, c) = (r3, t3', c')"
    using that by (auto simp: mixed_setup_def Let_def split: sum.splits prod.splits if_splits dest!: build)
qed

lemma preload_open:
  assumes b: "counts_open b n" and "preload b addrs evs c = (r, c')"
  shows "n c' = n c"
  using assms(2)
  by (auto simp: preload_def counts_openD(3) [OF b] split: sum.splits prod.splits
      dest!: counts_openD(1,2) [OF b] counts_openD(4) [OF b])

lemma throughput_session_open:
  assumes b: "counts_open b n"
    and e: "throughput_session lib hdr gen b clock topology cfg addrs c = (r, c')"
  shows "n c' = n c"
  using e
  by (auto simp: throughput_session_def split: sum.splits prod.splits dest!: setups_open(1) [OF b]
      session_open [OF throughput_balanced [OF b] cleanups_open(1) [OF b]])

lemma write_session_open:
  assumes b: "counts_open b n"
    and e: "write_session lib np hdr gen b clock topology cfg addrs c = (r, c')"
  shows "n c' = n c"
  using e
  by (auto simp: write_session_def split: sum.splits prod.splits dest!: setups_open(3) [OF b]
      session_open [OF write_balanced [OF b] cleanups_open(3) [OF b]])

lemma mixed_session_open:
  assumes b: "counts_open b n"
    and e: "mixed_session lib np hdr gen b clock topology cfg addrs c = (r, c')"
  shows "n c' = n c"
  using e
  by (auto simp: mixed_session_def split: sum.splits prod.splits dest!: setups_open(4) [OF b]
      session_open [OF mixed_balanced [OF b] cleanups_open(4) [OF b]])

lemma read_session_open:
  assumes b: "counts_open b n"
    and e: "read_session lib np hdr gen b clock topology cfg addrs c = (r, c')"
  shows "n c' = n c"
  using e
  by (auto simp: read_session_def split: sum.splits prod.splits dest!: preload_open [OF b] setups_open(2) [OF b]
      session_open [OF read_balanced [OF b] cleanups_open(2) [OF b]])

text \<open>However a benchmark session ends - data that do not convert, a client that cannot be
  built, a workload that raises, failed operations, a report that cannot be computed - it has
  closed every client it opened.\<close>

theorem sessions_close_their_clients:
  assumes "counts_open b n" and "run_session bt b kind topology cfg addrs c = (r, c')"
  shows "n c' = n c"
  using assms(2)
  by (cases kind) (auto simp: run_session_def Let_def throughput_session_open [OF assms(1)] read_session_open [OF assms(1)]
      write_session_open [OF assms(1)] mixed_session_open [OF assms(1)])

subsection \<open>The endpoints of a benchmark\<close>

text \<open>A node whose metrics said, between the two worlds, that it is the primary.\<close>

definition said_primary :: "env \<Rightarrow> cluster \<Rightarrow> int \<Rightarrow> world \<Rightarrow> world \<Rightarrow> bool" where
  "said_primary env c p w w' \<longleftrightarrow>
     (\<exists>i port u u'. element_at (cluster_ports c) i = Inr p \<and> element_at (metrics_ports c) i = Inr port \<and>
        only_time w u \<and> metrics_say_primary env port u = (True, u') \<and> only_time u' w')"

lemma said_primary_later: "said_primary env c p v w' \<Longrightarrow> only_time w v \<Longrightarrow> said_primary env c p w w'"
  unfolding said_primary_def using only_time_trans by blast

lemma leader_pass_primary: "leader_pass env c is w = (Inr (Some p), w') \<Longrightarrow> said_primary env c p w w'"
proof (induction "is" arbitrary: w)
  case (Cons i "is")
  show ?case
  proof (cases "element_at (metrics_ports c) i")
    case (Inl e)
    with Cons.prems show ?thesis by simp
  next
    case port: (Inr port)
    obtain b u where q: "metrics_say_primary env port w = (b, u)" by (metis surj_pair)
    show ?thesis
    proof (cases b)
      case True
      with Cons.prems port q have "element_at (cluster_ports c) i = Inr p" "w' = u" by (auto simp: bindE_split_Inr)
      with port q True show ?thesis unfolding said_primary_def by (metis only_time_refl)
    next
      case False
      with Cons.prems port q have "leader_pass env c is u = (Inr (Some p), w')" by simp
      from said_primary_later [OF Cons.IH [OF this] metrics_only_time [OF q]] show ?thesis .
    qed
  qed
qed simp

lemma wait_leader_primary: "wait_leader_loop env deadline c w = (Inr (Some p), w') \<Longrightarrow> said_primary env c p w w'"
proof (induction env deadline c w arbitrary: w' rule: wait_leader_loop.induct)
  case (1 env deadline c w)
  obtain q u where q: "leader_pass env c [0..node_count (config c) - 1] w = (q, u)" by (metis surj_pair)
  show ?case
  proof (cases "now w < deadline \<and> q = Inr None")
    case True
    with q 1(2) have "wait_leader_loop env deadline c (sleep 500 u) = (Inr (Some p), w')"
      by (subst (asm) wait_leader_loop.simps) simp
    with 1(1) True q have "said_primary env c p (sleep 500 u) w'" by fastforce
    then show ?thesis using only_time_trans [OF leader_pass_only_time [OF q] only_time_sleep] by (rule said_primary_later)
  next
    case False
    with q 1(2) have "leader_pass env c [0..node_count (config c) - 1] w = (Inr (Some p), w')"
      by (subst (asm) wait_leader_loop.simps) (auto split: if_splits sum.splits option.splits)
    then show ?thesis by (rule leader_pass_primary)
  qed
qed

lemma element_at_member: "element_at xs i = Inr x \<Longrightarrow> x \<in> set xs"
  by (auto simp: element_at_def split: if_splits)

lemma said_primary_member: "said_primary env c p w w' \<Longrightarrow> p \<in> set (cluster_ports c)"
  unfolding said_primary_def by (blast dest: element_at_member)

lemma get_leader_port_spec:
  assumes "get_leader_port env c w = (Inr p, w')"
  shows "p \<in> set (cluster_ports c) \<and> (node_count (config c) \<noteq> 1 \<longrightarrow> said_primary env c p w w')"
proof (cases "node_count (config c) = 1")
  case True
  with assms have "element_at (cluster_ports c) 0 = Inr p"
    by (auto simp: get_leader_port_def wait_for_leader_def bindE_split_Inr split: if_splits sum.splits option.splits)
  with True show ?thesis by (simp add: element_at_member)
next
  case False
  with assms have "wait_leader_loop env (now w + 30000) c w = (Inr (Some p), w')"
    by (auto simp: get_leader_port_def wait_for_leader_def split: if_splits sum.splits prod.splits option.splits)
  from wait_leader_primary [OF this] show ?thesis by (simp add: said_primary_member)
qed

lemma first_n_distinct: "distinct xs \<Longrightarrow> distinct (first_n n xs)"
  by (simp add: first_n_def)

text \<open>The endpoints that a benchmark gives its client start with a node of the cluster that said
  during the lookup that it is the primary (with several nodes); the others are the voting
  replicas, each exactly once.\<close>

theorem benchmark_endpoints:
  assumes "get_cluster_addresses env c w = (Inr addrs, w')" and "distinct (cluster_ports c)"
  shows "\<exists>leader others. addrs = map node_address (leader # others) \<and> distinct (leader # others) \<and>
    leader \<in> set (cluster_ports c) \<and> (node_count (config c) \<noteq> 1 \<longrightarrow> said_primary env c leader w w') \<and>
    set (leader # others) = insert leader (set (first_n (replica_total (config c)) (cluster_ports c)))"
proof -
  from assms(1) obtain p where p: "get_leader_port env c w = (Inr p, w')" "addrs = map node_address (ordered_ports c p)"
    by (auto simp: get_cluster_addresses_def get_cluster_ports_def bindE_split_Inr split: prod.splits sum.splits)
  show ?thesis
    using get_leader_port_spec [OF p(1)] p(2) first_n_distinct [OF assms(2)]
    by (intro exI [of _ p] exI [of _ "tl (ordered_ports c p)"]) (auto simp: ordered_ports_def)
qed

text \<open>A benchmark that failed on three nodes - its entry is the error - has no target to miss:
  the check of the targets of a suite in which everything failed has no failed check.\<close>

theorem failed_suite_misses_no_target:
  assumes "\<And>k report. map_of results (k, ''3'') \<noteq> Some (Bench_Done report)"
  shows "check_targets results = Inr []"
proof -
  have "members_of results k = []" for k
    using assms [of k] by (simp add: members_of_def split: option.split bench_outcome.split)
  then show ?thesis by (simp add: check_targets_def target_entry_def)
qed

subsection \<open>Examples\<close>

text \<open>A client that answers everything at once, next to a count of the open clients.\<close>

definition quick_client :: "(world \<times> int) bench_client" where
  "quick_client = \<lparr>bk_build = \<lambda>as (w, n). (Inr (), sleep 1 w, n + 1), bk_insert = \<lambda>es (w, n). (Some 0, sleep 2 w, n),
     bk_lookup = \<lambda>i (w, n). (Some True, sleep 1 w, n), bk_close = \<lambda>(w, n). (w, n - 1),
     bk_clock = \<lambda>(w, n). (now w, w, n), bk_random = \<lambda>(w, n). (Fin 0, w, n), bk_below = \<lambda>k (w, n). (0, w, n)\<rparr>"

lemma quick_client_takes_time: "client_takes_time quick_client"
  by (simp add: client_takes_time_def quick_client_def passes_def)

lemma quick_client_counts: "counts_open quick_client snd"
  by (auto simp: counts_open_def quick_client_def)

definition demo_harness :: harness_env where
  "demo_harness = \<lparr>he_env = demo_env, he_binary = Some ''archerdb'', he_ancestors = [], he_preserve = None\<rparr>"

definition first_value :: "pyfloat list \<Rightarrow> pyfloat" where
  "first_value xs = (case xs of [] \<Rightarrow> Fin 0 | x # _ \<Rightarrow> x)"

definition demo_tools :: "unit bench_tools" where
  "demo_tools = \<lparr>bt_stats = steady_stats,
     bt_numpy = \<lparr>np_mean = first_value, np_std = \<lambda>xs. Fin 0, np_min = first_value, np_max = first_value, sp_sem = \<lambda>xs. Fin 0,
       sp_interval = \<lambda>p n m se. (m, m), sp_ttest_greater = \<lambda>xs ys. Fin 1\<rparr>,
     bt_hdr = None, bt_source = \<lambda>cfg. Inr [], bt_clock = \<lambda>kind topology n. int n\<rparr>"


theorem sessions_close_their_clients_witness:
  "\<exists>r w'. run_session demo_tools quick_client Mixed 3 (default_suite_config None) [''127.0.0.1:3100''] (empty_world, 0) = (r, w', 0)"
proof -
  obtain r w' n where q: "run_session demo_tools quick_client Mixed 3 (default_suite_config None) [''127.0.0.1:3100''] (empty_world, 0) = (r, w', n)"
    by (metis prod_cases3)
  with sessions_close_their_clients [OF quick_client_counts q] show ?thesis by simp
qed

theorem benchmark_endpoints_witness:
  "\<exists>leader others. get_cluster_addresses demo_env demo_cluster demo_world = (Inr (map node_address (leader # others)), demo_world) \<and>
     leader \<in> {3100} \<and> distinct (leader # others)"
proof -
  have a: "get_cluster_addresses demo_env demo_cluster demo_world = (Inr (map node_address [3100]), demo_world)"
    by (simp add: get_cluster_addresses_def get_cluster_ports_def get_leader_port_def wait_for_leader_def demo_defs
        element_at_def ordered_ports_def first_n_def replica_total_def)
  moreover have "distinct (cluster_ports demo_cluster)" by (simp add: demo_cluster_def)
  ultimately obtain leader others where e: "map node_address [3100] = map node_address (leader # others)"
    and d: "distinct (leader # others)" and l: "leader \<in> set (cluster_ports demo_cluster)"
    using benchmark_endpoints [of demo_env demo_cluster demo_world] by blast
  have "get_cluster_addresses demo_env demo_cluster demo_world = (Inr (map node_address (leader # others)), demo_world)"
    unfolding e [symmetric] by (rule a)
  moreover have "leader \<in> {3100}" using l by (simp add: demo_cluster_def)
  ultimately show ?thesis using d by blast
qed

theorem failed_suite_misses_no_target_witness:
  "check_targets [((Throughput, ''3''), Bench_Error Bench_Client), ((Latency_Read, ''1''), Bench_Done [])] = Inr []"
  by (rule failed_suite_misses_no_target) (simp split: if_splits)

end
