(* ===== verification/Bench_Report.thy ===== *)
theory Bench_Report
  imports Py_Json "HOL-Library.AList"
begin

section \<open>Reports and progress of a benchmark\<close>

text \<open>
  \<open>test_infrastructure/benchmarks/reporter.py\<close> and \<open>progress.py\<close>: results as rows with a
  verdict, as Markdown and as the flat items of a CSV file, and the figures of the progress
  bar.  Writing files, the \<open>rich\<close> table and the colours are left out.
\<close>

subsection \<open>Numbers in text\<close>

text \<open>\<open>f"{x:.0f}"\<close>, \<open>f"{x:,.0f}"\<close> and \<open>f"{x:+.nf}"\<close>.\<close>

fun show_rounded :: "pyfloat \<Rightarrow> string" where
  "show_rounded (Fin x) = (if x < 0 then ''-'' else []) @ show_nat (nat (rhe \<bar>x\<bar>))"
| "show_rounded x = show_fixed 1 x"

function group_digits :: "string \<Rightarrow> string" where
  "group_digits ds =
     (if length ds \<le> 3 then ds
      else group_digits (take (length ds - 3) ds) @ '','' @ drop (length ds - 3) ds)"
  by pat_completeness auto
termination by (relation "measure length") auto

declare group_digits.simps [simp del]

fun show_grouped :: "pyfloat \<Rightarrow> string" where
  "show_grouped (Fin x) = (if x < 0 then ''-'' else []) @ group_digits (show_nat (nat (rhe \<bar>x\<bar>)))"
| "show_grouped x = show_fixed 1 x"

definition show_signed :: "nat \<Rightarrow> pyfloat \<Rightarrow> string" where
  "show_signed n x = (if f_lt x (Fin 0) then show_fixed n x else ''+'' @ show_fixed n x)"

subsection \<open>One result\<close>

record result_row =
  row_metric :: string
  row_value :: string
  row_target :: string
  row_passed :: bool
  row_vs_target :: string

text \<open>\<open>1_234_567\<close> as \<open>1.23M\<close>, \<open>1_234\<close> as \<open>1.23K\<close>.\<close>

definition scaled_text :: "pyfloat \<Rightarrow> (py_exn, string) result" where
  "scaled_text x =
     (if f_le (Fin 1000000) x then bindE (f_div x (Fin 1000000)) (\<lambda>q. Inr (show_fixed 2 q @ ''M''))
      else if f_le (Fin 1000) x then bindE (f_div x (Fin 1000)) (\<lambda>q. Inr (show_fixed 2 q @ ''K''))
      else Inr (show_fixed 2 x))"

definition target_passed :: "string \<Rightarrow> pyfloat \<Rightarrow> pyfloat \<Rightarrow> bool" where
  "target_passed kind v target = (if kind = ''min'' then f_le target v else f_le v target)"

definition percent_of_target :: "pyfloat \<Rightarrow> pyfloat \<Rightarrow> (py_exn, string) result" where
  "percent_of_target v target =
     (if f_lt (Fin 0) target
      then bindE (f_div v target) (\<lambda>q. Inr (show_fixed 1 (f_mul q (Fin 100)) @ ''%''))
      else Inr ''N/A'')"

definition format_result :: "string \<Rightarrow> pyfloat \<Rightarrow> pyfloat \<Rightarrow> string \<Rightarrow> string \<Rightarrow> (py_exn, result_row) result" where
  "format_result metric v target kind unit_text =
     bindE (percent_of_target v target) (\<lambda>vs.
     bindE (scaled_text v) (\<lambda>value_text.
     bindE (scaled_text target) (\<lambda>target_text.
     Inr \<lparr>row_metric = metric, row_value = strip (value_text @ '' '' @ unit_text),
          row_target = (if kind = ''min'' then ''>='' else ''<='') @ target_text @
            (if unit_text \<noteq> [] then strip ('' '' @ unit_text) else []),
          row_passed = target_passed kind v target, row_vs_target = vs\<rparr>)))"

text \<open>The metrics of the display with their targets.\<close>

definition display_metrics :: "(string \<times> string \<times> pyfloat \<times> string \<times> string) list" where
  "display_metrics =
     [(''throughput'', ''Throughput'', Fin 770000, ''min'', ''events/sec''),
      (''read_p95_ms'', ''Read P95'', Fin 1, ''max'', ''ms''),
      (''read_p99_ms'', ''Read P99'', Fin 10, ''max'', ''ms''),
      (''write_p95_ms'', ''Write P95'', Fin 10, ''max'', ''ms''),
      (''write_p99_ms'', ''Write P99'', Fin 50, ''max'', ''ms'')]"

fun display_rows ::
    "(string \<times> json) list \<Rightarrow> (string \<times> string \<times> pyfloat \<times> string \<times> string) list \<Rightarrow> (py_exn, result_row list) result" where
  "display_rows results [] = Inr []"
| "display_rows results ((key, metric, target, kind, unit_text) # specs) =
     (case map_of results key of
        None \<Rightarrow> display_rows results specs
      | Some v \<Rightarrow>
          bindE (json_number v) (\<lambda>x.
          bindE (format_result metric x target kind unit_text) (\<lambda>row.
          bindE (display_rows results specs) (\<lambda>rows. Inr (row # rows)))))"

definition format_results_for_display :: "(string \<times> json) list \<Rightarrow> (py_exn, result_row list) result" where
  "format_results_for_display results = display_rows results display_metrics"

definition row_status :: "result_row \<Rightarrow> string" where
  "row_status row = (if row_passed row then ''PASS'' else ''FAIL'')"

text \<open>The Markdown file; \<open>raw\<close> is the dump of the results.\<close>

definition markdown_row :: "result_row \<Rightarrow> string" where
  "markdown_row row =
     ''| '' @ row_metric row @ '' | '' @ row_value row @ '' | '' @ row_target row @ '' | '' @ row_status row @ '' |''"

definition to_markdown :: "string \<Rightarrow> (string \<times> json) list \<Rightarrow> (py_exn, string) result" where
  "to_markdown raw results =
     bindE (format_results_for_display results) (\<lambda>rows.
     Inr (join_with [CHR 0x0A]
       ([''# Benchmark Results'', [], ''## Summary'', [], ''| Metric | Value | Target | Status |'',
         ''|--------|-------|--------|--------|''] @ map markdown_row rows @
        [[], ''## Raw Results'', [], ''```json'', raw, ''```''])))"

text \<open>The plain table on the terminal.\<close>

definition plain_row :: "result_row \<Rightarrow> string" where
  "plain_row row =
     pad_right 25 (row_metric row) @ '' '' @ pad_right 15 (row_value row) @ '' '' @ pad_right 15 (row_target row) @ '' '' @
     pad_right 10 (row_status row)"

subsection \<open>Flat results\<close>

text \<open>\<open>dict(items)\<close>: a later item replaces the value of an earlier one with its key.\<close>

definition dict_of :: "('k \<times> 'v) list \<Rightarrow> ('k \<times> 'v) list" where
  "dict_of items = foldl (\<lambda>d (k, v). AList.update k v d) [] items"

definition key_path :: "string \<Rightarrow> string \<Rightarrow> string" where
  "key_path parent k = (if parent = [] then k else parent @ ''.'' @ k)"

fun flatten_value :: "string \<Rightarrow> json \<Rightarrow> (string \<times> json) list"
  and flatten_items :: "string \<Rightarrow> (string \<times> json) list \<Rightarrow> (string \<times> json) list" where
  "flatten_value key (JObj d) = dict_of (flatten_items key d)"
| "flatten_value key v = [(key, v)]"
| "flatten_items parent [] = []"
| "flatten_items parent ((k, v) # d) = flatten_value (key_path parent k) v @ flatten_items parent d"

definition flatten_dict :: "(string \<times> json) list \<Rightarrow> (string \<times> json) list" where
  "flatten_dict d = dict_of (flatten_items [] d)"

text \<open>The rows of the CSV file.\<close>

definition csv_rows :: "(string \<times> json) list \<Rightarrow> (string \<times> json) list" where
  "csv_rows results = (''metric'', JStr ''value'') # flatten_dict results"

subsection \<open>Progress\<close>

record progress =
  total_ops :: "int option"
  progress_time_limit :: pyfloat
  start_time :: "pyfloat option"
  progress_count :: int
  latency_sum_us :: int
  latency_max_us :: int

definition new_progress :: "int option \<Rightarrow> pyfloat \<Rightarrow> progress" where
  "new_progress ops time_limit =
     \<lparr>total_ops = ops, progress_time_limit = time_limit, start_time = None, progress_count = 0,
      latency_sum_us = 0, latency_max_us = 0\<rparr>"

definition start_progress :: "pyfloat \<Rightarrow> progress \<Rightarrow> progress" where
  "start_progress clock p = p\<lparr>start_time := Some clock, progress_count := 0, latency_sum_us := 0, latency_max_us := 0\<rparr>"

definition update_progress :: "int \<Rightarrow> int \<Rightarrow> progress \<Rightarrow> progress" where
  "update_progress n latency p =
     p\<lparr>progress_count := n, latency_sum_us := latency_sum_us p + latency,
       latency_max_us := max (latency_max_us p) latency\<rparr>"

text \<open>What the bar shows after an update, at the clock reading \<open>clock\<close>.  A start time of 0.0 counts as
  none and is replaced by a second reading, \<open>later\<close>.\<close>

definition progress_elapsed :: "pyfloat \<Rightarrow> pyfloat \<Rightarrow> progress \<Rightarrow> pyfloat" where
  "progress_elapsed clock later p =
     f_sub clock (case start_time p of Some t \<Rightarrow> if t = Fin 0 then later else t | None \<Rightarrow> later)"

definition progress_metrics :: "pyfloat \<Rightarrow> progress \<Rightarrow> (py_exn, string) result" where
  "progress_metrics elapsed p =
     bindE (int_truediv (latency_sum_us p) (max 1 (progress_count p))) (\<lambda>avg_us.
     bindE (bindE (float_of_int (progress_count p)) (\<lambda>n. f_div n (py_max (Fin (fl (1 / 1000))) elapsed))) (\<lambda>throughput.
     bindE (f_div avg_us (Fin 1000)) (\<lambda>avg_ms.
     bindE (bindE (float_of_int (latency_max_us p)) (\<lambda>n. f_div n (Fin 1000))) (\<lambda>max_ms.
     bindE (if f_le (Fin 1000) throughput
            then bindE (f_div throughput (Fin 1000)) (\<lambda>q. Inr (show_fixed 1 q @ ''K/s''))
            else Inr (show_rounded throughput @ ''/s'')) (\<lambda>rate.
     Inr (''avg: '' @ show_fixed 2 avg_ms @ ''ms, max: '' @ show_fixed 2 max_ms @ ''ms, '' @ rate))))))"

definition progress_value :: "pyfloat \<Rightarrow> progress \<Rightarrow> (py_exn, int) result" where
  "progress_value elapsed p =
     (let timed = bindE (f_div elapsed (progress_time_limit p)) (\<lambda>q. bindE (py_int (f_mul q (Fin 100))) (\<lambda>k. Inr (min 100 k)))
      in case total_ops p of Some n \<Rightarrow> if n \<noteq> 0 then Inr (progress_count p) else timed | None \<Rightarrow> timed)"

definition elapsed_seconds :: "pyfloat \<Rightarrow> progress \<Rightarrow> pyfloat" where
  "elapsed_seconds clock p = (case start_time p of None \<Rightarrow> Fin 0 | Some t \<Rightarrow> f_sub clock t)"

subsection \<open>A flat dict has the leaves\<close>

text \<open>The value at a path of keys, when it is no object.\<close>

fun leaf_at :: "string list \<Rightarrow> (string \<times> json) list \<Rightarrow> json option" where
  "leaf_at [] d = None"
| "leaf_at (k # ks) d =
     (case map_of d k of
        None \<Rightarrow> None
      | Some (JObj d') \<Rightarrow> leaf_at ks d'
      | Some v \<Rightarrow> if ks = [] then Some v else None)"

text \<open>Keys that are distinct, not empty and without a dot, at every level.\<close>

fun plain_value :: "json \<Rightarrow> bool" and plain_items :: "(string \<times> json) list \<Rightarrow> bool" where
  "plain_value (JObj d) \<longleftrightarrow> plain_items d \<and> distinct (map fst d)"
| "plain_value v \<longleftrightarrow> True"
| "plain_items [] \<longleftrightarrow> True"
| "plain_items ((k, v) # d) \<longleftrightarrow> k \<noteq> [] \<and> CHR ''.'' \<notin> set k \<and> plain_value v \<and> plain_items d"

lemma map_of_updates: "map_of (foldl (\<lambda>d (k, v). AList.update k v d) d items) = map_of d ++ map_of (rev items)"
  by (induction items arbitrary: d) (auto simp: update_conv' map_add_def split: option.splits)

lemma map_of_dict_of: "map_of (dict_of items) = map_of (rev items)"
  by (simp add: dict_of_def map_of_updates)

lemma distinct_updates: "distinct (map fst d) \<Longrightarrow> distinct (map fst (foldl (\<lambda>d (k, v). AList.update k v d) d items))"
  by (induction items arbitrary: d) (auto simp: distinct_update)

lemma dict_of_functional:
  assumes "\<And>k x y. (k, x) \<in> set items \<Longrightarrow> (k, y) \<in> set items \<Longrightarrow> x = y"
  shows "set (dict_of items) = set items"
proof -
  have d: "distinct (map fst (dict_of items))" by (simp add: dict_of_def distinct_updates)
  have "(k, x) \<in> set (dict_of items) \<longleftrightarrow> (k, x) \<in> set items" for k x
  proof -
    have "(k, x) \<in> set (dict_of items) \<longleftrightarrow> map_of (rev items) k = Some x"
      using map_of_eq_Some_iff [OF d] by (simp add: map_of_dict_of)
    also have "\<dots> \<longleftrightarrow> (k, x) \<in> set items"
    proof
      assume "(k, x) \<in> set items"
      then obtain y where y: "map_of (rev items) k = Some y" using weak_map_of_SomeI [of k x "rev items"] by auto
      then have "(k, y) \<in> set items" by (auto dest: map_of_SomeD)
      with \<open>(k, x) \<in> set items\<close> assms y show "map_of (rev items) k = Some x" by blast
    qed (auto dest: map_of_SomeD)
    finally show ?thesis .
  qed
  then show ?thesis by auto
qed

lemma key_path_inj: "key_path p r = key_path p r' \<Longrightarrow> r = r'"
  by (auto simp: key_path_def split: if_splits)

definition value_at :: "string list \<Rightarrow> json \<Rightarrow> json option" where
  "value_at ks v = (case v of JObj d \<Rightarrow> leaf_at ks d | _ \<Rightarrow> if ks = [] then Some v else None)"

lemma leaf_at_step:
  "leaf_at (k1 # ks) ((k, v) # d) = (if k1 = k then value_at ks v else leaf_at (k1 # ks) d)"
  by (auto simp: value_at_def split: json.split)

text \<open>The entries of a flat value and of flat items.\<close>

definition flat_at :: "string \<Rightarrow> (string \<times> json) list \<Rightarrow> string \<Rightarrow> json \<Rightarrow> bool" where
  "flat_at p d key x \<longleftrightarrow> (\<exists>r. key = key_path p r \<and> leaf_at (split_on CHR ''.'' r) d = Some x)"

lemma flat_at_functional: "flat_at p d key x \<Longrightarrow> flat_at p d key y \<Longrightarrow> x = y"
  unfolding flat_at_def by (metis key_path_inj option.inject)

lemma flat_at_Cons:
  assumes "k \<noteq> []" and "CHR ''.'' \<notin> set k" and "k \<notin> fst ` set d"
  shows "flat_at p ((k, v) # d) key x \<longleftrightarrow>
    (case v of JObj d' \<Rightarrow> flat_at (key_path p k) d' key x | _ \<Rightarrow> key = key_path p k \<and> x = v) \<or> flat_at p d key x"
proof -
  have path: "key_path p k \<noteq> []" "key_path p (k @ CHR ''.'' # r) = key_path (key_path p k) r" for r
    using assms(1) by (auto simp: key_path_def)
  have here: "(\<exists>r ks. key = key_path p r \<and> split_on CHR ''.'' r = k # ks \<and> value_at ks v = Some x) \<longleftrightarrow>
      (case v of JObj d' \<Rightarrow> flat_at (key_path p k) d' key x | _ \<Rightarrow> key = key_path p k \<and> x = v)"
    (is "?l \<longleftrightarrow> ?r")
  proof
    assume ?l
    then obtain r ks where r: "key = key_path p r" "split_on CHR ''.'' r = k # ks" "value_at ks v = Some x" by blast
    have "r = k \<and> ks = [] \<or> (\<exists>r'. r = k @ CHR ''.'' # r' \<and> split_on CHR ''.'' r' = ks)"
    proof (cases "CHR ''.'' \<in> set r")
      case False
      with split_on_plain [OF False] r(2) show ?thesis by simp
    next
      case True
      from split_list_first [OF this] obtain a b where "r = a @ CHR ''.'' # b" "CHR ''.'' \<notin> set a" by blast
      with split_on_cut [of "CHR ''.''" a b] r(2) show ?thesis by auto
    qed
    with r path show ?r by (auto simp: value_at_def flat_at_def split: json.splits)
  next
    assume ?r
    show ?l
    proof (cases "\<exists>d'. v = JObj d'")
      case True
      then obtain d' where v: "v = JObj d'" by blast
      with \<open>?r\<close> obtain r' where "key = key_path (key_path p k) r'" "leaf_at (split_on CHR ''.'' r') d' = Some x"
        by (auto simp: flat_at_def)
      with split_on_cut [OF assms(2), of r'] path(2) v show ?thesis by (auto simp: value_at_def intro!: exI [of _ "k @ CHR ''.'' # r'"])
    next
      case False
      with \<open>?r\<close> have "key = key_path p k" "x = v" by (auto split: json.splits)
      with split_on_plain [OF assms(2)] False show ?thesis by (auto simp: value_at_def split: json.splits)
    qed
  qed
  have "map_of d k = None" using assms(3) by (simp add: map_of_eq_None_iff)
  then have there: "leaf_at (k # ks) d = None" for ks by simp
  have "flat_at p ((k, v) # d) key x \<longleftrightarrow>
      (\<exists>r ks. key = key_path p r \<and> split_on CHR ''.'' r = k # ks \<and> value_at ks v = Some x) \<or> flat_at p d key x"
    (is "?a \<longleftrightarrow> ?b \<or> ?c")
  proof
    assume ?a
    then obtain r where r: "key = key_path p r" "leaf_at (split_on CHR ''.'' r) ((k, v) # d) = Some x" by (auto simp: flat_at_def)
    obtain k1 ks where s: "split_on CHR ''.'' r = k1 # ks" by (metis list.exhaust split_on_nonempty)
    with r show "?b \<or> ?c" unfolding flat_at_def by (cases "k1 = k") (auto simp: leaf_at_step simp del: leaf_at.simps)
  next
    assume "?b \<or> ?c"
    then show ?a
    proof
      assume ?b
      then show ?a by (auto simp: flat_at_def leaf_at_step simp del: leaf_at.simps)
    next
      assume ?c
      then obtain r where r: "key = key_path p r" "leaf_at (split_on CHR ''.'' r) d = Some x" by (auto simp: flat_at_def)
      obtain k1 ks where s: "split_on CHR ''.'' r = k1 # ks" by (metis list.exhaust split_on_nonempty)
      with r(2) there have "k1 \<noteq> k" by auto
      with r s show ?a unfolding flat_at_def by (intro exI [of _ r]) (simp add: leaf_at_step del: leaf_at.simps)
    qed
  qed
  with here show ?thesis by simp
qed

lemma flatten_entries:
  "plain_value v \<Longrightarrow> key0 \<noteq> [] \<Longrightarrow> (key, x) \<in> set (flatten_value key0 v) \<longleftrightarrow>
     (case v of JObj d \<Rightarrow> flat_at key0 d key x | _ \<Rightarrow> key = key0 \<and> x = v)"
  "plain_items d \<Longrightarrow> distinct (map fst d) \<Longrightarrow> (key, x) \<in> set (flatten_items p d) \<longleftrightarrow> flat_at p d key x"
proof (induction key0 v and p d arbitrary: key x and key x rule: flatten_value_flatten_items.induct)
  case (1 key0 d)
  then have i: "(k, y) \<in> set (flatten_items key0 d) \<longleftrightarrow> flat_at key0 d k y" for k y by simp
  have "set (dict_of (flatten_items key0 d)) = set (flatten_items key0 d)"
    using i flat_at_functional by (intro dict_of_functional) blast
  with i show ?case by simp
next
  case (3 p)
  have "leaf_at ks [] = None" for ks by (cases ks) simp_all
  then show ?case by (simp add: flat_at_def)
next
  case (4 p k v d)
  have "key_path p k \<noteq> []" using 4(3) by (auto simp: key_path_def)
  with 4 flat_at_Cons [of k d p v key x] show ?case by auto
qed auto

text \<open>The rows of the CSV file are the leaves of the results, under their dotted paths: for keys that
  are distinct, not empty and free of dots at every level, the value of a row is the leaf
  that its key leads to, and no leaf is missing.\<close>

theorem flat_results_are_the_leaves:
  assumes "plain_items d" and "distinct (map fst d)"
  shows "map_of (flatten_dict d) key = leaf_at (split_on CHR ''.'' key) d"
proof -
  have i: "(k, y) \<in> set (flatten_items [] d) \<longleftrightarrow> leaf_at (split_on CHR ''.'' k) d = Some y" for k y
    using flatten_entries(2) [OF assms, of k y "[]"] by (simp add: flat_at_def key_path_def)
  then have "set (flatten_dict d) = set (flatten_items [] d)"
    unfolding flatten_dict_def by (intro dict_of_functional) simp
  moreover have "distinct (map fst (flatten_dict d))" by (simp add: flatten_dict_def dict_of_def distinct_updates)
  ultimately have "map_of (flatten_dict d) key = Some x \<longleftrightarrow> leaf_at (split_on CHR ''.'' key) d = Some x" for x
    using i by (simp add: map_of_eq_Some_iff)
  then show ?thesis by (metis option.exhaust)
qed

theorem flat_results_are_the_leaves_witness:
  "map_of (flatten_dict [(''a'', JObj [(''b'', JInt 1), (''c'', JNull)]), (''d'', JInt 2)]) ''a.b'' = Some (JInt 1)"
  by (subst flat_results_are_the_leaves) simp_all

subsection \<open>The figures of the progress bar\<close>

text \<open>The updates of a run: the count so far with each latency.\<close>

definition run_progress :: "int list \<Rightarrow> progress \<Rightarrow> progress" where
  "run_progress latencies p =
     foldl (\<lambda>p (i, l). update_progress (int i + 1) l p) p (zip [0..<length latencies] latencies)"

lemma run_progress_snoc:
  "run_progress (ls @ [l]) p = update_progress (int (length ls) + 1) l (run_progress ls p)"
  by (simp add: run_progress_def)

text \<open>After a run of measured latencies the bar shows their number, their sum (hence their mean) and
  their maximum, whatever the object was used for before.\<close>

theorem progress_shows_the_run:
  assumes "\<forall>l \<in> set ls. 0 \<le> l"
  shows "progress_count (run_progress ls (start_progress clock p)) = int (length ls) \<and>
    latency_sum_us (run_progress ls (start_progress clock p)) = sum_list ls \<and>
    latency_max_us (run_progress ls (start_progress clock p)) = foldr max ls 0"
  using assms
proof (induction ls rule: rev_induct)
  case Nil
  show ?case by (simp add: run_progress_def start_progress_def)
next
  case (snoc l ls)
  have "max (foldr max ls 0) l = foldr max ls (max l (0 :: int))"
    by (induction ls) (simp_all add: max.assoc max.commute)
  with snoc show ?case by (simp add: run_progress_snoc update_progress_def)
qed

theorem progress_shows_the_run_witness:
  "latency_sum_us (run_progress [3, 5] (start_progress (Fin 1) (new_progress None (Fin 60)))) = 8"
  using progress_shows_the_run [of "[3, 5]" "Fin 1" "new_progress None (Fin 60)"] by simp

subsection \<open>The rows of the display\<close>

text \<open>A row with the verdict on the number that the results have for its metric.\<close>

definition judged :: "(string \<times> json) list \<Rightarrow> result_row \<Rightarrow> string \<times> string \<times> pyfloat \<times> string \<times> string \<Rightarrow> bool" where
  "judged results row spec \<longleftrightarrow>
     (case spec of (key, metric, target, kind, u) \<Rightarrow>
        row_metric row = metric \<and>
        (\<exists>v x. map_of results key = Some v \<and> json_number v = Inr x \<and> row_passed row = target_passed kind x target))"

lemma display_rows_judged:
  "display_rows results specs = Inr rows \<Longrightarrow>
   list_all2 (judged results) rows (filter (\<lambda>spec. fst spec \<in> fst ` set results) specs)"
proof (induction results specs arbitrary: rows rule: display_rows.induct)
  case (2 results key metric target kind u specs)
  show ?case
  proof (cases "map_of results key")
    case None
    then have "key \<notin> fst ` set results" by (simp add: map_of_eq_None_iff)
    with 2 None show ?thesis by simp
  next
    case (Some v)
    then have k: "key \<in> fst ` set results" by (metis domI dom_map_of_conv_image_fst)
    from 2(3) Some obtain x row rows' where
      x: "json_number v = Inr x" "format_result metric x target kind u = Inr row" "display_rows results specs = Inr rows'"
        "rows = row # rows'" by (auto simp: bindE_split_Inr)
    have "judged results row (key, metric, target, kind, u)"
      using x(1,2) Some by (auto simp: judged_def format_result_def bindE_split_Inr)
    with 2(2) [OF Some x(3)] k x(4) show ?thesis by simp
  qed
qed simp

text \<open>The display has one row for each of its metrics that the results have, in its order, and the
  verdict compares the number of the results with the target of that metric.\<close>

theorem display_judges_the_results:
  assumes "format_results_for_display results = Inr rows"
  shows "list_all2 (judged results) rows (filter (\<lambda>spec. fst spec \<in> fst ` set results) display_metrics)"
  using assms unfolding format_results_for_display_def by (rule display_rows_judged)

theorem display_judges_the_results_witness:
  "\<exists>row. format_results_for_display [(''x'', JNull), (''read_p95_ms'', JInt 1)] = Inr [row] \<and> row_passed row"
proof -
  let ?r = "[(''x'', JNull), (''read_p95_ms'', JInt 1)]"
  obtain rows where r: "format_results_for_display ?r = Inr rows"
    by (simp add: format_results_for_display_def display_metrics_def format_result_def
        percent_of_target_def scaled_text_def json_number_def del: show_fixed.simps)
  from display_judges_the_results [OF r] r show ?thesis
    by (auto simp: display_metrics_def judged_def list_all2_Cons2 json_number_def target_passed_def)
qed

end
