(* ===== verification/Bench_Cli.thy ===== *)
theory Bench_Cli
  imports Bench_Orchestrator Bench_Report
begin

section \<open>The benchmark command line\<close>

text \<open>
  \<open>test_infrastructure/benchmarks/cli.py\<close>: the configuration from the arguments, one topology,
  its summary, the exit codes of \<open>run\<close> and \<open>compare\<close>.  Parsing the arguments and printing are
  left out; times of day and the JSON dump are parameters.
\<close>

subsection \<open>Running\<close>

record run_args =
  ra_topology :: int
  ra_time_limit :: pyfloat
  ra_op_count :: int
  ra_pattern :: string
  ra_ratio :: pyfloat
  ra_seed :: "int option"
  ra_min_samples :: "int option"
  ra_target_samples :: "int option"
  ra_warmup :: "int option"
  ra_target_cv :: "pyfloat option"
  ra_data_size :: "int option"
  ra_full_suite :: bool
  ra_no_mixed :: bool

definition given :: "'a option \<Rightarrow> 'a \<Rightarrow> 'a" where
  "given x dflt = (case x of None \<Rightarrow> dflt | Some y \<Rightarrow> y)"

definition requested_config :: "int option \<Rightarrow> run_args \<Rightarrow> benchmark_config" where
  "requested_config protocol a =
     (let d = default_benchmark_config protocol in
      d\<lparr>bc_topology := ra_topology a, time_limit_sec := ra_time_limit a, op_count_limit := ra_op_count a,
        data_pattern := ra_pattern a, read_write_ratio := ra_ratio a, bc_seed := ra_seed a,
        min_samples := given (ra_min_samples a) (min_samples d),
        target_samples := given (ra_target_samples a) (target_samples d),
        warmup_iterations := given (ra_warmup a) (warmup_iterations d),
        target_cv := given (ra_target_cv a) (target_cv d),
        data_size := given (ra_data_size a) (data_size d)\<rparr>)"

definition build_config :: "int option \<Rightarrow> run_args \<Rightarrow> (py_exn, benchmark_config) result" where
  "build_config protocol a =
     (let cfg = requested_config protocol a in bindE (check_config cfg) (\<lambda>u. Inr cfg))"

text \<open>A file name without its folder.\<close>

definition output_file_name :: "string \<Rightarrow> string \<Rightarrow> string" where
  "output_file_name time_text name = time_text @ ''-'' @ name @ ''.json''"

definition summary_file_names :: "string \<Rightarrow> string \<Rightarrow> string list" where
  "summary_file_names time_text name =
     map (\<lambda>ext. time_text @ ''-'' @ name @ ''-summary.'' @ ext) [''json'', ''csv'', ''md'']"

text \<open>The report of a benchmark, \<open>{}\<close> when there is none; an error entry holds only its message.\<close>

definition report_of :: "suite_state \<Rightarrow> bench_kind \<Rightarrow> int \<Rightarrow> (string \<times> json) list" where
  "report_of results kind topology =
     (case map_of results (kind, show_int topology) of Some (Bench_Done report) \<Rightarrow> report | _ \<Rightarrow> [])"

definition copied :: "(string \<times> json) list \<Rightarrow> string \<Rightarrow> string \<Rightarrow> (string \<times> json) list" where
  "copied report key name = (case map_of report key of None \<Rightarrow> [] | Some v \<Rightarrow> [(name, v)])"

definition summarize_topology_results :: "suite_state \<Rightarrow> int \<Rightarrow> string \<Rightarrow> (string \<times> json) list" where
  "summarize_topology_results results topology stamp =
     (let tp = report_of results Throughput topology; rd = report_of results Latency_Read topology;
          wr = report_of results Latency_Write topology; mixed = report_of results Mixed topology in
      [(''topology'', JInt topology), (''generated'', JStr stamp)] @
      copied tp ''throughput_events_per_sec'' ''throughput'' @
      copied rd ''p95_ms'' ''read_p95_ms'' @ copied rd ''p99_ms'' ''read_p99_ms'' @
      copied wr ''p95_ms'' ''write_p95_ms'' @ copied wr ''p99_ms'' ''write_p99_ms'' @
      copied mixed ''read_p95_ms'' ''mixed_read_p95_ms'' @ copied mixed ''write_p95_ms'' ''mixed_write_p95_ms'')"

text \<open>One topology: the results, what the checkpoint file held after each benchmark and at the end.\<close>

definition run_single_topology ::
    "'d kind_runner \<Rightarrow> int \<Rightarrow> bool \<Rightarrow> benchmark_config \<Rightarrow> world \<times> 'd \<Rightarrow>
     (suite_state \<times> suite_state list \<times> world \<times> 'd) option" where
  "run_single_topology run topology include_mixed cfg s =
     Option.bind (run_kinds run topology cfg (suite_kinds include_mixed) [] [] s) (\<lambda>(results, checkpoints, s).
       Some (results, checkpoints @ [results], s))"

definition has_errors :: "suite_state \<Rightarrow> bool" where
  "has_errors results =
     list_ex (\<lambda>(k, outcome). case outcome of Bench_Error e \<Rightarrow> True | Bench_Done report \<Rightarrow> map_of report ''error'' \<noteq> None)
       results"

definition exit_code :: "suite_state \<Rightarrow> int" where
  "exit_code results = (if has_errors results then 1 else 0)"

text \<open>What a run leaves: its exit code, its results and, for one topology, the summary with the
  Markdown text and the CSV rows.\<close>

record run_outcome =
  ro_exit :: int
  ro_results :: suite_state
  ro_summary :: "((string \<times> json) list \<times> string \<times> (string \<times> json) list) option"

definition cmd_run ::
    "harness_env \<Rightarrow> 'h bench_tools \<Rightarrow> (world \<times> 'd) bench_client \<Rightarrow> int option \<Rightarrow> ((string \<times> json) list \<Rightarrow> string) \<Rightarrow>
     string \<Rightarrow> run_args \<Rightarrow> world \<times> 'd \<Rightarrow> ((py_exn, run_outcome) result \<times> world \<times> 'd) option" where
  "cmd_run he bt b protocol dumps stamp a s =
     (case build_config protocol a of
        Inl e \<Rightarrow> Some (Inl e, s)
      | Inr cfg \<Rightarrow>
          if ra_full_suite a then
            Option.bind (run_full_bench_suite he bt b protocol (Some [1, 3, 5, 6]) (\<not> ra_no_mixed a) (Some cfg) s)
              (\<lambda>(r, checkpoints, s). Some (bindE r (\<lambda>results.
                 Inr \<lparr>ro_exit = exit_code results, ro_results = results, ro_summary = None\<rparr>), s))
          else
            Option.bind (run_single_topology (run_benchmark he bt b) (ra_topology a) (\<not> ra_no_mixed a) cfg s)
              (\<lambda>(results, checkpoints, s).
                 let summary = summarize_topology_results results (ra_topology a) stamp in
                 Some (bindE (to_markdown (dumps summary) summary) (\<lambda>md.
                   Inr \<lparr>ro_exit = exit_code results, ro_results = results,
                        ro_summary = Some (summary, md, csv_rows summary)\<rparr>), s)))"

subsection \<open>Comparing\<close>

datatype result_file = No_File | Bad_Json | Parsed "(string \<times> json) list"

definition compared_metrics :: "string list" where
  "compared_metrics = [''throughput'', ''read_p95_ms'', ''read_p99_ms'', ''write_p95_ms'', ''write_p99_ms'']"

text \<open>The samples handed to the test; a value that is no number would matter only to the test itself.\<close>

definition sample_of :: "json \<Rightarrow> pyfloat" where
  "sample_of v = (case json_number v of Inr x \<Rightarrow> x | Inl e \<Rightarrow> NaN)"

definition change_text :: "json \<Rightarrow> json \<Rightarrow> (py_exn, string) result" where
  "change_text b_val c_val =
     bindE (json_number b_val) (\<lambda>b. bindE (json_number c_val) (\<lambda>c.
     bindE (if b \<noteq> Fin 0 then bindE (f_div (f_sub c b) b) (\<lambda>q. Inr (f_mul q (Fin 100))) else Inr (Fin 0)) (\<lambda>change.
     Inr (show_fixed 2 b @ '' -> '' @ show_fixed 2 c @ '' ('' @ show_signed 1 change @ ''%)''))))"

fun compare_metrics ::
    "numpy \<Rightarrow> pyfloat \<Rightarrow> (string \<times> json) list \<Rightarrow> (string \<times> json) list \<Rightarrow> string list \<Rightarrow>
     (py_exn, (string \<times> bool \<times> string) list) result" where
  "compare_metrics np alpha base current [] = Inr []"
| "compare_metrics np alpha base current (m # ms) =
     (case (map_of base m, map_of current m) of
        (Some b_val, Some c_val) \<Rightarrow>
          bindE (if m = ''throughput''
                 then detect_regression np [sample_of c_val] [sample_of b_val] alpha
                 else detect_regression np [sample_of b_val] [sample_of c_val] alpha) (\<lambda>(is_reg, p_val).
          bindE (change_text b_val c_val) (\<lambda>change.
          bindE (compare_metrics np alpha base current ms) (\<lambda>rows. Inr ((m, is_reg, change) # rows))))
      | _ \<Rightarrow> compare_metrics np alpha base current ms)"

text \<open>The exit code with the regressions found.\<close>

definition cmd_compare :: "numpy \<Rightarrow> pyfloat \<Rightarrow> result_file \<Rightarrow> result_file \<Rightarrow> (py_exn, int \<times> string list) result" where
  "cmd_compare np alpha base_file current_file =
     (case (base_file, current_file) of
        (Parsed base, Parsed current) \<Rightarrow>
          bindE (compare_metrics np alpha base current compared_metrics) (\<lambda>rows.
          let regressions = map fst (filter (fst \<circ> snd) rows) in
          Inr (if regressions = [] then 0 else 1, regressions))
      | _ \<Rightarrow> Inr (1, []))"

text \<open>Comparing two result files that share one of the five metrics always ends in a
  \<open>ValueError\<close>, whatever the values are: the regression test is called with one sample on each side
  and asks for two.  Otherwise the command succeeds and finds nothing.\<close>

theorem compare_never_judges:
  "cmd_compare np alpha (Parsed base) (Parsed current) =
     (if list_ex (\<lambda>m. map_of base m \<noteq> None \<and> map_of current m \<noteq> None) compared_metrics
      then Inl ValueError else Inr (0, []))"
proof -
  have "compare_metrics np alpha base current ms =
      (if list_ex (\<lambda>m. map_of base m \<noteq> None \<and> map_of current m \<noteq> None) ms then Inl ValueError else Inr [])" for ms
    by (induction ms) (auto simp: detect_regression_def split: option.split)
  then show ?thesis by (simp add: cmd_compare_def)
qed


subsection \<open>Every report can be shown\<close>

text \<open>The figures of a report that the summary shows.\<close>

definition shown_figures :: "string list" where
  "shown_figures = [''throughput_events_per_sec'', ''p95_ms'', ''p99_ms'', ''read_p95_ms'', ''write_p95_ms'']"

definition is_number :: "json \<Rightarrow> bool" where
  "is_number v = (case json_number v of Inr x \<Rightarrow> True | Inl e \<Rightarrow> False)"

definition showable :: "(string \<times> json) list \<Rightarrow> bool" where
  "showable report =
     list_all (\<lambda>(k, v). k \<noteq> ''error'' \<and> (k \<in> set shown_figures \<longrightarrow> is_number v)) report"

lemma showable_append [simp]: "showable (a @ b) \<longleftrightarrow> showable a \<and> showable b"
  by (simp add: showable_def)

lemma showable_Nil [simp]: "showable []" by (simp add: showable_def)

lemma showable_Cons:
  "showable ((k, v) # r) \<longleftrightarrow> k \<noteq> ''error'' \<and> (k \<in> set shown_figures \<longrightarrow> is_number v) \<and> showable r"
  by (simp add: showable_def)

lemma is_number_simps [simp]: "is_number (JFloat x)" "is_number (JInt n)"
  by (simp_all add: is_number_def json_number_def)

lemma showable_percentiles: "calculate_percentiles lib ls = Inr ps \<Longrightarrow>
    showable ps \<and> showable (map (\<lambda>(k, v). (''read_'' @ k, v)) ps) \<and> showable (map (\<lambda>(k, v). (''write_'' @ k, v)) ps)"
  by (auto simp: calculate_percentiles_def Let_def bindE_split_Inr showable_Cons)

lemma showable_run_report: "run_report name t r = Inr base \<Longrightarrow> showable base"
  by (auto simp: run_report_def bindE_split_Inr showable_Cons shown_figures_def)

lemma showable_throughput_report: "throughput_report hdr t r w = Inr report \<Longrightarrow> showable report"
  by (auto simp: throughput_report_def Let_def bindE_split_Inr showable_Cons shown_figures_def
      split: if_splits dest: showable_percentiles showable_run_report)

lemma showable_latency_report: "latency_report np hdr name t r = Inr report \<Longrightarrow> showable report"
  by (auto simp: latency_report_def bindE_split_Inr showable_Cons shown_figures_def
      dest: showable_percentiles showable_run_report)

lemma showable_kind_metrics:
  "kind_metrics np hdr k samples = Inr report \<Longrightarrow> k = ''read'' \<or> k = ''write'' \<Longrightarrow> showable report"
  by (auto simp: kind_metrics_def bindE_split_Inr showable_Cons shown_figures_def
      split: if_splits dest: showable_percentiles)

lemma showable_mixed_report: "mixed_report np hdr t cfg r w = Inr report \<Longrightarrow> showable report"
  by (auto simp: mixed_report_def bindE_split_Inr showable_Cons shown_figures_def
      dest: showable_percentiles showable_run_report showable_kind_metrics)

lemma session_reports: "session lib cfg clock name step report cleanup s = (Inr rep, c) \<Longrightarrow> \<exists>r t. report r t = Inr rep"
  by (auto simp: session_def lift_py_def bindE_split_Inr split: prod.splits sum.splits)

lemma showable_session:
  "session lib cfg clock name step report cleanup s = (Inr rep, c) \<Longrightarrow> (\<And>r t x. report r t = Inr x \<Longrightarrow> showable x) \<Longrightarrow> showable rep"
  using session_reports by metis

lemma showable_run_session: "run_session bt b kind t cfg addrs c = (Inr rep, c') \<Longrightarrow> showable rep"
  by (cases kind)
    (auto simp: run_session_def Let_def throughput_session_def read_session_def write_session_def mixed_session_def
       split: sum.splits prod.splits
       elim!: showable_session dest: showable_throughput_report showable_latency_report showable_mixed_report)

definition yields :: "('d, 'a) cluster_body \<Rightarrow> 'a \<Rightarrow> bool" where
  "yields body x \<longleftrightarrow> (\<exists>c s s'. body c s = (Inr x, s'))"

lemma yieldsI: "body c s = (Inr x, s') \<Longrightarrow> yields body x"
  unfolding yields_def by blast

lemma not_Inl_unit: "(\<forall>x. r \<noteq> Inl x) \<longleftrightarrow> r = Inr ()"
  by (cases r) auto

lemma isolated_try_yields: "isolated_try env body c s = Some (Inr x, c', s') \<Longrightarrow> yields body x"
  by (auto simp: isolated_try_def bind_eq_Some_conv not_Inl_unit split: sum.splits prod.splits option.splits
      intro: yieldsI)

lemma isolated_cluster_yields: "isolated_cluster he t grid body s = Some (Inr x, s') \<Longrightarrow> yields body x"
  by (auto simp: isolated_cluster_def bind_eq_Some_conv split: sum.splits prod.splits option.splits
      dest: isolated_try_yields)

lemma showable_benchmark: "run_benchmark he bt b kind t cfg s = Some (Inr rep, s') \<Longrightarrow> showable rep"
proof -
  assume "run_benchmark he bt b kind t cfg s = Some (Inr rep, s')"
  then have "yields (benchmark_body (he_env he) bt b kind t cfg) rep"
    unfolding run_benchmark_def by (rule isolated_cluster_yields)
  then obtain c x y where "benchmark_body (he_env he) bt b kind t cfg c x = (Inr rep, y)"
    unfolding yields_def by blast
  then show ?thesis
    by (auto simp: benchmark_body_def split: prod.splits sum.splits dest: showable_run_session)
qed

subsection \<open>The exit code of a run\<close>

definition shown :: "suite_state \<Rightarrow> bool" where
  "shown results =
     list_all (\<lambda>(k, outcome). case outcome of Bench_Done report \<Rightarrow> showable report | Bench_Error e \<Rightarrow> True) results"

lemma shown_update:
  "shown results \<Longrightarrow> (\<And>report. r = Inr report \<Longrightarrow> showable report) \<Longrightarrow> shown (AList.update k (entry_of r) results)"
  by (induction results) (auto simp: shown_def entry_of_def split: sum.split)

definition reporting :: "'d kind_runner \<Rightarrow> bool" where
  "reporting run \<longleftrightarrow> (\<forall>k t cfg s rep s'. run k t cfg s = Some (Inr rep, s') \<longrightarrow> showable rep)"

lemma reportingD: "reporting run \<Longrightarrow> run k t cfg s = Some (Inr rep, s') \<Longrightarrow> showable rep"
  unfolding reporting_def by blast

lemma run_benchmark_reporting: "reporting (run_benchmark he bt b)"
  using showable_benchmark unfolding reporting_def by blast

lemma run_kinds_shown:
  "reporting run \<Longrightarrow> run_kinds run t cfg ks results saved s = Some (results', saved', s') \<Longrightarrow> shown results \<Longrightarrow>
    shown results'"
proof (induction ks arbitrary: results saved s)
  case Nil
  then show ?case by simp
next
  case (Cons x ks)
  from Cons.prems(2) obtain q s1 where q: "run x t cfg s = Some (q, s1)"
    "run_kinds run t cfg ks (AList.update (x, show_int t) (entry_of q) results)
       (saved @ [AList.update (x, show_int t) (entry_of q) results]) s1 = Some (results', saved', s')"
    by (auto simp: bind_eq_Some_conv Let_def)
  have "shown (AList.update (x, show_int t) (entry_of q) results)"
    using Cons.prems(3) reportingD [OF Cons.prems(1)] q(1) by (intro shown_update) auto
  with Cons.IH Cons.prems(1) q(2) show ?case by blast
qed

lemma run_topologies_shown:
  "reporting run \<Longrightarrow> run_topologies run protocol cfg mixed ts results saved s = Some (Inr results', saved', s') \<Longrightarrow>
    shown results \<Longrightarrow> shown results'"
proof (induction ts arbitrary: results saved s)
  case Nil
  then show ?case by simp
next
  case (Cons t ts)
  from Cons.prems(2) obtain r1 k1 s1 where
    k: "run_kinds run t (topology_bench_config protocol t cfg) (suite_kinds mixed) results saved s = Some (r1, k1, s1)"
      "run_topologies run protocol cfg mixed ts r1 k1 s1 = Some (Inr results', saved', s')"
    by (auto simp: bind_eq_Some_conv Let_def split: sum.splits)
  from run_kinds_shown [OF Cons.prems(1) k(1) Cons.prems(3)] Cons.IH [OF Cons.prems(1) k(2)] show ?case by blast
qed

lemma has_errors_iff: "shown results \<Longrightarrow> \<not> has_errors results \<longleftrightarrow> list_all (\<lambda>(k, r). \<exists>report. r = Bench_Done report) results"
proof (induction results)
  case Nil
  then show ?case by (simp add: has_errors_def)
next
  case (Cons e results)
  have "map_of report ''error'' = None" if "showable report" for report
    using that by (auto simp: showable_def list_all_iff map_of_eq_None_iff)
  with Cons show ?case by (cases e; cases "snd e") (auto simp: has_errors_def shown_def)
qed

subsection \<open>Every summary can be displayed\<close>

lemma scaled_text_ok: "\<exists>t. scaled_text x = Inr t"
  by (cases x) (auto simp: scaled_text_def)

lemma percent_of_target_ok: "\<exists>t. percent_of_target v (Fin target) = Inr t"
  by (cases v) (auto simp: percent_of_target_def)

lemma format_result_ok: "\<exists>row. format_result m v (Fin target) kind u = Inr row"
  using scaled_text_ok [of v] scaled_text_ok [of "Fin target"] percent_of_target_ok [of v target]
  by (auto simp: format_result_def)

lemma display_rows_ok:
  "\<forall>(key, metric, target, kind, u) \<in> set specs. (\<forall>v. map_of results key = Some v \<longrightarrow> is_number v) \<and> (\<exists>x. target = Fin x) \<Longrightarrow>
    \<exists>rows. display_rows results specs = Inr rows"
proof (induction specs)
  case Nil
  then show ?case by simp
next
  case (Cons spec specs)
  obtain key metric target kind u where spec: "spec = (key, metric, target, kind, u)" by (metis prod_cases5)
  from Cons obtain rows where rows: "display_rows results specs = Inr rows" by auto
  from Cons.prems spec obtain x where x: "target = Fin x" "\<forall>v. map_of results key = Some v \<longrightarrow> is_number v" by auto
  show ?case
  proof (cases "map_of results key")
    case None
    with rows spec show ?thesis by simp
  next
    case (Some v)
    with x(2) obtain y where y: "json_number v = Inr y" by (auto simp: is_number_def split: sum.splits)
    from format_result_ok [of metric y x kind u] obtain row where "format_result metric y target kind u = Inr row"
      unfolding x(1) by blast
    with Some y rows spec show ?thesis by simp
  qed
qed


lemma is_number_report:
  assumes "shown results" "map_of (report_of results k t) key = Some v" "key \<in> set shown_figures"
  shows "is_number v"
proof -
  obtain report where r: "map_of results (k, show_int t) = Some (Bench_Done report)" "map_of report key = Some v"
    using assms(2) by (auto simp: report_of_def split: option.splits bench_outcome.splits)
  then have "showable report" using assms(1) map_of_SomeD by (fastforce simp: shown_def list_all_iff)
  with r(2) assms(3) show ?thesis by (auto simp: showable_def list_all_iff dest: map_of_SomeD)
qed

lemma copied_number:
  assumes "\<And>v. map_of report key = Some v \<Longrightarrow> is_number v"
  shows "(m, v) \<in> set (copied report key name) \<Longrightarrow> m = name \<and> is_number v"
  using assms by (auto simp: copied_def split: option.splits)

lemma summary_number:
  assumes "shown results" and "(m, v) \<in> set (summarize_topology_results results t stamp)"
    and "m \<noteq> ''topology''" "m \<noteq> ''generated''"
  shows "is_number v"
proof -
  have fig: "is_number v" if "(m, v) \<in> set (copied (report_of results k t) key name)" "key \<in> set shown_figures" for k key name
  proof -
    have "is_number w" if "map_of (report_of results k t) key = Some w" for w
      using is_number_report [OF assms(1) that] \<open>key \<in> set shown_figures\<close> .
    from copied_number [OF this that(1)] show ?thesis by blast
  qed
  show ?thesis
    using assms(2-4) fig [of _ "''throughput_events_per_sec''"] fig [of _ "''p95_ms''"] fig [of _ "''p99_ms''"]
      fig [of _ "''read_p95_ms''"] fig [of _ "''write_p95_ms''"]
    unfolding summarize_topology_results_def Let_def shown_figures_def by auto
qed

lemma summary_displays:
  assumes "shown results"
  shows "\<exists>md. to_markdown raw (summarize_topology_results results t stamp) = Inr md"
proof -
  have "is_number v" if "map_of (summarize_topology_results results t stamp) m = Some v" "m \<noteq> ''topology''" "m \<noteq> ''generated''" for m v
    using summary_number [OF assms map_of_SomeD [OF that(1)] that(2,3)] .
  then have "\<exists>rows. display_rows (summarize_topology_results results t stamp) display_metrics = Inr rows"
    by (intro display_rows_ok) (auto simp: display_metrics_def)
  then show ?thesis by (auto simp: to_markdown_def format_results_for_display_def)
qed

lemma build_config_ok:
  "build_config protocol a = Inr cfg \<Longrightarrow> check_config cfg = Inr () \<and> bc_topology cfg = ra_topology a"
  by (auto simp: build_config_def requested_config_def Let_def bindE_split_Inr)

lemma valid_topology_config:
  "check_config cfg = Inr () \<Longrightarrow> t \<in> {1, 3, 5, 6} \<Longrightarrow> check_config (topology_bench_config protocol t cfg) = Inr ()"
  by (auto simp: check_config_def topology_bench_config_def split: if_splits)

definition run_plan :: "run_args \<Rightarrow> (bench_kind \<times> string) list" where
  "run_plan a = suite_plan (\<not> ra_no_mixed a) (if ra_full_suite a then [1, 3, 5, 6] else [ra_topology a])"

text \<open>C12: A \<open>run\<close> whose arguments give a valid configuration always finishes: it has one entry for every
  benchmark asked for, on every topology asked for, in the order they ran; its summary can be
  displayed whatever the benchmarks reported; the exit code is 0 when every benchmark gave a report
  and 1 when one raised; and no server is left running.\<close>

theorem run_exit_code_is_right:
  assumes "client_takes_time b" and "build_config protocol a = Inr cfg"
  shows "\<exists>out s'. cmd_run he bt b protocol dumps stamp a s = Some (Inr out, s') \<and>
    map fst (ro_results out) = run_plan a \<and>
    ro_exit out = (if list_all (\<lambda>(k, r). \<exists>report. r = Bench_Done report) (ro_results out) then 0 else 1) \<and>
    (ro_summary out = None \<longleftrightarrow> ra_full_suite a) \<and> running_pids (fst s') \<subseteq> running_pids (fst s)"
proof (cases "ra_full_suite a")
  case True
  let ?mixed = "\<not> ra_no_mixed a" and ?run = "run_benchmark he bt b"
  have "\<forall>t\<in>set [1, 3, 5, 6]. check_config (topology_bench_config protocol t cfg) = Inr ()"
    using valid_topology_config build_config_ok [OF assms(2)] by auto
  moreover have "distinct [1, 3, 5, 6 :: int]" by simp
  moreover have "\<forall>t\<in>set [1, 3, 5, 6]. \<forall>k. (k, show_int t) \<notin> fst ` set ([] :: suite_state)" by simp
  ultimately have "\<exists>new s'. run_topologies ?run protocol cfg ?mixed [1, 3, 5, 6] [] [] s =
      Some (Inr ([] @ new), [] @ growing [] new @ [[] @ new], s') \<and>
    map fst new = suite_plan ?mixed [1, 3, 5, 6] \<and> running_pids (fst s') \<subseteq> running_pids (fst s)"
    by (rule run_topologies_spec [OF run_benchmark_returning [OF assms(1)]])
  then obtain results saved s' where
    r: "run_topologies ?run protocol cfg ?mixed [1, 3, 5, 6] [] [] s = Some (Inr results, saved, s')"
      "map fst results = suite_plan ?mixed [1, 3, 5, 6]" "running_pids (fst s') \<subseteq> running_pids (fst s)"
    by auto
  have "shown results"
    using run_topologies_shown [OF run_benchmark_reporting r(1)] by (simp add: shown_def)
  with r True assms(2) show ?thesis
    by (simp add: cmd_run_def run_full_bench_suite_def run_plan_def exit_code_def flip: has_errors_iff)
next
  case False
  let ?run = "run_benchmark he bt b"
  have "\<forall>k\<in>set (suite_kinds (\<not> ra_no_mixed a)). (k, show_int (ra_topology a)) \<notin> fst ` set ([] :: suite_state)" by simp
  from run_kinds_spec [OF run_benchmark_returning [OF assms(1)] suite_kinds_distinct this, of he bt cfg "[]" s]
  obtain results saved s' where
    r: "run_kinds ?run (ra_topology a) cfg (suite_kinds (\<not> ra_no_mixed a)) [] [] s = Some (results, saved, s')"
      "map fst results = suite_plan (\<not> ra_no_mixed a) [ra_topology a]" "running_pids (fst s') \<subseteq> running_pids (fst s)"
    by (auto simp: suite_plan_def)
  have sh: "shown results" using run_kinds_shown [OF run_benchmark_reporting r(1)] by (simp add: shown_def)
  obtain md where "to_markdown (dumps (summarize_topology_results results (ra_topology a) stamp))
      (summarize_topology_results results (ra_topology a) stamp) = Inr md"
    using summary_displays [OF sh] by blast
  with r False assms(2) sh show ?thesis
    by (simp add: cmd_run_def run_single_topology_def run_plan_def exit_code_def Let_def flip: has_errors_iff)
qed


definition single_node_args :: run_args where
  "single_node_args =
     \<lparr>ra_topology = 1, ra_time_limit = Fin 60, ra_op_count = 10000, ra_pattern = ''uniform'', ra_ratio = Fin 1,
      ra_seed = Some 7, ra_min_samples = None, ra_target_samples = None, ra_warmup = Some 0, ra_target_cv = None,
      ra_data_size = None, ra_full_suite = False, ra_no_mixed = True\<rparr>"

theorem run_exit_code_is_right_witness:
  "\<exists>out s'. cmd_run demo_harness demo_tools quick_client None (\<lambda>d. ''{}'') ''2026-01-01T00:00:00Z'' single_node_args (empty_world, 0) =
       Some (Inr out, s') \<and> length (ro_results out) = 3 \<and> ro_exit out \<in> {0, 1} \<and> running_pids (fst s') = {}"
proof -
  have "check_config (requested_config None single_node_args) = Inr ()"
    by (simp add: check_config_def requested_config_def single_node_args_def default_benchmark_config_def given_def Let_def)
  then have "build_config None single_node_args = Inr (requested_config None single_node_args)"
    by (simp add: build_config_def Let_def)
  from run_exit_code_is_right [OF quick_client_takes_time this, of demo_harness demo_tools "\<lambda>d. ''{}''"
      "''2026-01-01T00:00:00Z''" "(empty_world, 0)"]
  obtain out s' where r: "cmd_run demo_harness demo_tools quick_client None (\<lambda>d. ''{}'') ''2026-01-01T00:00:00Z'' single_node_args
      (empty_world, 0) = Some (Inr out, s')" "map fst (ro_results out) = run_plan single_node_args"
      "ro_exit out = (if list_all (\<lambda>(k, r). \<exists>report. r = Bench_Done report) (ro_results out) then 0 else 1)"
      "running_pids (fst s') \<subseteq> running_pids (fst (empty_world, 0 :: int))"
    by blast
  have "length (ro_results out) = length (run_plan single_node_args)" using arg_cong [OF r(2), of length] by simp
  moreover have "running_pids empty_world = {}" by (simp add: running_pids_def running_def empty_world_def)
  ultimately show ?thesis
    using r(1,3,4) by (intro exI conjI) (auto simp: run_plan_def suite_plan_def suite_kinds_def single_node_args_def split: if_splits)
qed

text \<open>At a latency target the two judgements differ: the report passes a value equal to its target, the
  check of the suite does not.\<close>

theorem judged_twice_at_the_target:
  assumes "map_of results (Latency_Read, ''3'') = Some (Bench_Done [(''p95_ms'', JFloat (Fin 1))])"
    and "list_all (\<lambda>((k, t), r). k = Latency_Read) results"
  shows "\<exists>row check. format_result ''Read P95'' (Fin 1) (Fin 1) ''max'' ''ms'' = Inr row \<and> row_passed row \<and>
    check_targets results = Inr [(''read_latency_p95'', check)] \<and> \<not> tc_passed check"
proof -
  obtain row where row: "format_result ''Read P95'' (Fin 1) (Fin 1) ''max'' ''ms'' = Inr row"
    using format_result_ok by blast
  then have "row_passed row" by (auto simp: format_result_def bindE_split_Inr target_passed_def)
  moreover have "map_of results (k, ''3'') = None" if "k \<noteq> Latency_Read" for k
    using assms(2) that by (force simp: list_all_iff map_of_eq_None_iff)
  ultimately show ?thesis
    using row assms(1) by (simp add: check_targets_def members_of_def target_entry_def json_number_def)
qed

theorem judged_twice_at_the_target_witness:
  "\<exists>check. check_targets [((Latency_Read, ''3''), Bench_Done [(''p95_ms'', JFloat (Fin 1))])] =
     Inr [(''read_latency_p95'', check)] \<and> \<not> tc_passed check"
  using judged_twice_at_the_target [of "[((Latency_Read, ''3''), Bench_Done [(''p95_ms'', JFloat (Fin 1))])]"] by auto

end
