(* ===== verification/Sdk_Benchmark.thy ===== *)
theory Sdk_Benchmark
  imports Bench_Run Py_Json "HOL-Library.AList" "HOL-Library.List_Lexorder" "HOL-Library.Char_ord"
begin

section \<open>The benchmark of the SDKs against each other\<close>

text \<open>
  \<open>test_infrastructure/benchmarks/sdk_benchmark.py\<close>: the same operation through five SDKs, the
  latencies of the calls that answered, and the check that all are within 20 percent of
  their mean.  Parameters: the SDK runners, the clock and fresh UUIDs, as operations on a
  state \<open>'c\<close>; a runner that raises is \<open>None\<close>.  The timestamps are left out.
\<close>

record parity_status =
  ps_passed :: bool
  mean_latency_ms :: pyfloat
  threshold_ms :: pyfloat
  within_threshold :: "(string \<times> bool) list"

record sdk_benchmark_result =
  sb_operation :: string
  sdk_timings :: "(string \<times> pyfloat) list"
  sdk_p50 :: "(string \<times> pyfloat) list"
  sdk_p95 :: "(string \<times> pyfloat) list"
  parity_passed :: bool
  outlier_sdks :: "string list"

definition default_parity :: parity_status where
  "default_parity = \<lparr>ps_passed = False, mean_latency_ms = Fin 0, threshold_ms = Fin 0, within_threshold = []\<rparr>"

definition SDK_RUNNERS :: "string list" where
  "SDK_RUNNERS = [''python'', ''node'', ''go'', ''java'', ''c'']"

definition DEFAULT_OPERATIONS :: "string list" where
  "DEFAULT_OPERATIONS = [''insert'', ''query-uuid'', ''query-radius'']"

record 'c sdk_lab =
  lab_run :: "string \<Rightarrow> string \<Rightarrow> json \<Rightarrow> 'c \<Rightarrow> json option \<times> 'c"
  lab_clock :: "'c \<Rightarrow> int \<times> 'c"
  lab_uuid :: "'c \<Rightarrow> string \<times> 'c"

subsection \<open>One SDK\<close>

text \<open>\<open>"error" not in result\<close>; on a value without \<open>in\<close> the test raises and the call does not count.\<close>

definition lacks_error :: "json \<Rightarrow> bool" where
  "lacks_error result =
     (case result of
        JObj d \<Rightarrow> ''error'' \<notin> fst ` set d
      | JList xs \<Rightarrow> JStr ''error'' \<notin> set xs
      | JStr s \<Rightarrow> \<not> contains ''error'' s
      | _ \<Rightarrow> False)"

fun warm_sdk :: "'c sdk_lab \<Rightarrow> string \<Rightarrow> string \<Rightarrow> json \<Rightarrow> nat \<Rightarrow> 'c \<Rightarrow> 'c" where
  "warm_sdk lab sdk op input 0 c = c"
| "warm_sdk lab sdk op input (Suc n) c = warm_sdk lab sdk op input n (snd (lab_run lab sdk op input c))"

text \<open>\<open>(end - start) / 1e6\<close>; a difference that is no float raises, and the call does not count.\<close>

definition latency_in_ms :: "int \<Rightarrow> pyfloat list" where
  "latency_in_ms ns =
     (case bindE (float_of_int ns) (\<lambda>x. f_div x (Fin 1000000)) of Inr x \<Rightarrow> [x] | Inl e \<Rightarrow> [])"

fun time_sdk :: "'c sdk_lab \<Rightarrow> string \<Rightarrow> string \<Rightarrow> json \<Rightarrow> nat \<Rightarrow> pyfloat list \<Rightarrow> 'c \<Rightarrow> pyfloat list \<times> 'c" where
  "time_sdk lab sdk op input 0 timings c = (timings, c)"
| "time_sdk lab sdk op input (Suc n) timings c =
     (case lab_clock lab c of (start, c) \<Rightarrow>
        (case lab_run lab sdk op input c of
           (None, c) \<Rightarrow> time_sdk lab sdk op input n timings c
         | (Some result, c) \<Rightarrow>
             if lacks_error result
             then
               (case lab_clock lab c of (stop, c) \<Rightarrow>
                  time_sdk lab sdk op input n (timings @ latency_in_ms (stop - start)) c)
             else time_sdk lab sdk op input n timings c))"

definition benchmark_sdk ::
    "'c sdk_lab \<Rightarrow> string \<Rightarrow> string \<Rightarrow> json \<Rightarrow> int \<Rightarrow> int \<Rightarrow> 'c \<Rightarrow> pyfloat list \<times> 'c" where
  "benchmark_sdk lab sdk op input iterations warmups c =
     time_sdk lab sdk op input (nat iterations) [] (warm_sdk lab sdk op input (nat warmups) c)"

definition vertex_json :: "rat \<Rightarrow> rat \<Rightarrow> json" where
  "vertex_json lat lon = JObj [(''latitude'', JFloat (mk_float lat)), (''longitude'', JFloat (mk_float lon))]"

definition generate_input_data :: "'c sdk_lab \<Rightarrow> string \<Rightarrow> 'c \<Rightarrow> json \<times> 'c" where
  "generate_input_data lab op c =
     (if op = ''insert'' then
        case lab_uuid lab c of (u, c) \<Rightarrow>
          (JObj [(''events'', JList [JObj [(''entity_id'', JStr u), (''latitude'', JFloat (mk_float (407128 / 10000))),
              (''longitude'', JFloat (mk_float (- 740060 / 10000))), (''correlation_id'', JInt 12345), (''user_data'', JInt 0)]])], c)
      else if op = ''query-uuid'' then case lab_uuid lab c of (u, c) \<Rightarrow> (JObj [(''entity_id'', JStr u)], c)
      else if op = ''query-radius'' then
        (JObj [(''latitude'', JFloat (mk_float (407128 / 10000))), (''longitude'', JFloat (mk_float (- 740060 / 10000))),
           (''radius_m'', JInt 1000)], c)
      else if op = ''query-polygon'' then
        (JObj [(''vertices'', JList [vertex_json (407 / 10) (- 741 / 10), vertex_json (408 / 10) (- 741 / 10),
           vertex_json (408 / 10) (- 739 / 10), vertex_json (407 / 10) (- 739 / 10)])], c)
      else (JObj [], c))"

subsection \<open>Mean and percentile\<close>

text \<open>\<open>statistics.mean\<close> of a non-empty list: the correctly rounded exact mean; values that are not
  finite decide alone.\<close>

fun exact :: "pyfloat \<Rightarrow> rat option" where
  "exact (Fin x) = Some x"
| "exact _ = None"

definition stat_mean :: "pyfloat list \<Rightarrow> pyfloat" where
  "stat_mean xs =
     (if None \<in> set (map exact xs) then foldl f_add (Fin 0) (filter (\<lambda>x. exact x = None) xs)
      else mk_float (sum_list (map (the \<circ> exact) xs) / of_nat (length xs)))"

definition sdk_percentile :: "pyfloat list \<Rightarrow> int \<Rightarrow> (py_exn, pyfloat) result" where
  "sdk_percentile xs pct =
     (if xs = [] then Inr (Fin 0)
      else
        let ys = sort xs; top = int (length ys) - 1 in
        bindE (bindE (float_of_int pct) (\<lambda>p. f_div p (Fin 100))) (\<lambda>q.
        bindE (float_of_int top) (\<lambda>n.
        let index = f_mul q n in
        bindE (py_int index) (\<lambda>lower.
        bindE (float_of_int lower) (\<lambda>l.
        let upper = min (lower + 1) top; weight = f_sub index l in
        bindE (py_nth ys lower) (\<lambda>a.
        bindE (py_nth ys upper) (\<lambda>b.
        Inr (f_add (f_mul a (f_sub (Fin 1) weight)) (f_mul b weight)))))))))"

subsection \<open>All SDKs\<close>

definition valid_timings :: "sdk_benchmark_result \<Rightarrow> (string \<times> pyfloat) list" where
  "valid_timings r = filter (\<lambda>(sdk, t). f_lt (Fin 0) t) (sdk_timings r)"

definition check_parity :: "sdk_benchmark_result \<Rightarrow> parity_status" where
  "check_parity r =
     (if valid_timings r = [] then default_parity
      else
        let mean = stat_mean (map snd (valid_timings r));
            limit = f_mul mean (Fin (fl (1 / 5)));
            checks = map (\<lambda>(sdk, t). (sdk, f_le (f_abs (f_sub t mean)) limit)) (valid_timings r)
        in \<lparr>ps_passed = list_all snd checks, mean_latency_ms = mean, threshold_ms = limit, within_threshold = checks\<rparr>)"

definition note_timings :: "string \<Rightarrow> pyfloat list \<Rightarrow> sdk_benchmark_result \<Rightarrow> sdk_benchmark_result" where
  "note_timings sdk timings r =
     (let failed = (\<lambda>r. r\<lparr>sdk_timings := AList.update sdk (Fin 0) (sdk_timings r)\<rparr>) in
      if timings = [] then failed r
      else
        let r = r\<lparr>sdk_timings := AList.update sdk (stat_mean timings) (sdk_timings r)\<rparr> in
        case sdk_percentile timings 50 of
          Inl e \<Rightarrow> failed r
        | Inr p50 \<Rightarrow>
            let r = r\<lparr>sdk_p50 := AList.update sdk p50 (sdk_p50 r)\<rparr> in
            (case sdk_percentile timings 95 of
               Inl e \<Rightarrow> failed r
             | Inr p95 \<Rightarrow> r\<lparr>sdk_p95 := AList.update sdk p95 (sdk_p95 r)\<rparr>))"

fun bench_sdks ::
    "'c sdk_lab \<Rightarrow> string \<Rightarrow> json \<Rightarrow> int \<Rightarrow> int \<Rightarrow> string list \<Rightarrow> sdk_benchmark_result \<Rightarrow> 'c \<Rightarrow> sdk_benchmark_result \<times> 'c" where
  "bench_sdks lab op input iterations warmups [] r c = (r, c)"
| "bench_sdks lab op input iterations warmups (sdk # sdks) r c =
     (case benchmark_sdk lab sdk op input iterations warmups c of (timings, c) \<Rightarrow>
        bench_sdks lab op input iterations warmups sdks (note_timings sdk timings r) c)"

definition new_sdk_result :: "string \<Rightarrow> sdk_benchmark_result" where
  "new_sdk_result op = \<lparr>sb_operation = op, sdk_timings = [], sdk_p50 = [], sdk_p95 = [], parity_passed = False, outlier_sdks = []\<rparr>"

definition note_parity :: "sdk_benchmark_result \<Rightarrow> sdk_benchmark_result" where
  "note_parity r =
     (let parity = check_parity r in
      r\<lparr>parity_passed := ps_passed parity,
        outlier_sdks := map fst (filter (\<lambda>(sdk, ok). \<not> ok) (within_threshold parity))\<rparr>)"

definition run_sdk_benchmark :: "'c sdk_lab \<Rightarrow> string \<Rightarrow> int \<Rightarrow> int \<Rightarrow> 'c \<Rightarrow> sdk_benchmark_result \<times> 'c" where
  "run_sdk_benchmark lab op iterations warmups c =
     (case generate_input_data lab op c of (input, c) \<Rightarrow>
        (case bench_sdks lab op input iterations warmups SDK_RUNNERS (new_sdk_result op) c of
           (r, c) \<Rightarrow> (note_parity r, c)))"

fun run_sdk_suite ::
    "'c sdk_lab \<Rightarrow> int \<Rightarrow> string list \<Rightarrow> (string \<times> sdk_benchmark_result) list \<Rightarrow> 'c \<Rightarrow>
     (string \<times> sdk_benchmark_result) list \<times> 'c" where
  "run_sdk_suite lab iterations [] results c = (results, c)"
| "run_sdk_suite lab iterations (op # ops) results c =
     (case run_sdk_benchmark lab op iterations 100 c of (r, c) \<Rightarrow>
        run_sdk_suite lab iterations ops (AList.update op r results) c)"

definition run_full_sdk_suite ::
    "'c sdk_lab \<Rightarrow> string list option \<Rightarrow> int \<Rightarrow> 'c \<Rightarrow> (string \<times> sdk_benchmark_result) list \<times> 'c" where
  "run_full_sdk_suite lab operations iterations c =
     run_sdk_suite lab iterations (case operations of None \<Rightarrow> DEFAULT_OPERATIONS | Some ops \<Rightarrow> ops) [] c"

subsection \<open>The report\<close>

definition timing_or_zero :: "(string \<times> pyfloat) list \<Rightarrow> string \<Rightarrow> pyfloat" where
  "timing_or_zero d sdk = (case map_of d sdk of Some x \<Rightarrow> x | None \<Rightarrow> Fin 0)"

definition sdk_line :: "sdk_benchmark_result \<Rightarrow> string \<Rightarrow> string" where
  "sdk_line r sdk =
     ''  '' @ pad_right 15 sdk @ '' '' @ pad_left 10 (show_fixed 3 (timing_or_zero (sdk_timings r) sdk)) @
     ''    '' @ pad_left 10 (show_fixed 3 (timing_or_zero (sdk_p50 r) sdk)) @
     ''    '' @ pad_left 10 (show_fixed 3 (timing_or_zero (sdk_p95 r) sdk)) @
     (if sdk \<in> set (outlier_sdks r) then '' *'' else [])"

definition parity_line :: "sdk_benchmark_result \<Rightarrow> string" where
  "parity_line r =
     (if parity_passed r then CHR 0x0A # ''  [PASS] All SDKs within 20.0% parity''
      else CHR 0x0A # ''  [FAIL] Outliers: '' @ join_with '', '' (outlier_sdks r))"

definition operation_lines :: "string \<times> sdk_benchmark_result \<Rightarrow> string list" where
  "operation_lines entry =
     (case entry of (op, r) \<Rightarrow>
        [[], ''Operation: '' @ op, replicate 50 CHR ''-'', [],
         ''  SDK              Mean (ms)     P50 (ms)     P95 (ms)'', ''  '' @ replicate 48 CHR ''-''] @
        map (sdk_line r) (sort (map fst (sdk_timings r))) @ [parity_line r])"

definition generate_sdk_report :: "string \<Rightarrow> (string \<times> sdk_benchmark_result) list \<Rightarrow> string" where
  "generate_sdk_report timestamp results =
     join_with [CHR 0x0A]
       ([[], replicate 70 CHR ''='', ''SDK Performance Comparison Report'', ''Timestamp: '' @ timestamp @ ''Z'', replicate 70 CHR ''=''] @
        concat (map operation_lines results) @
        [[], replicate 70 CHR ''='', ''Parity threshold: 20.0% of mean latency'', ''* = outside parity threshold'', replicate 70 CHR ''=''])"

subsection \<open>What a benchmark records\<close>

lemma note_timings_keys:
  "map fst (sdk_timings (note_timings sdk ts r)) = map fst (AList.update sdk x (sdk_timings r))"
  by (auto simp: note_timings_def Let_def update_keys split: sum.split)

lemma note_timings_other:
  "s \<noteq> sdk \<Longrightarrow> map_of (sdk_timings (note_timings sdk ts r)) s = map_of (sdk_timings r) s"
  by (auto simp: note_timings_def Let_def update_conv' split: sum.split)

lemma note_timings_failed: "map_of (sdk_timings (note_timings sdk [] r)) sdk = Some (Fin 0)"
  by (simp add: note_timings_def Let_def update_conv')

lemma note_timings_p95_grows: "fst ` set (sdk_p95 r) \<subseteq> fst ` set (sdk_p95 (note_timings sdk ts r))"
  by (auto simp: note_timings_def Let_def dom_update split: sum.split)

lemma note_timings_p95:
  "sdk \<in> fst ` set (sdk_p95 (note_timings sdk ts r)) \<or> map_of (sdk_timings (note_timings sdk ts r)) sdk = Some (Fin 0)"
  by (auto simp: note_timings_def Let_def update_conv' dom_update split: sum.split)

definition accounted_sdk :: "sdk_benchmark_result \<Rightarrow> string \<Rightarrow> bool" where
  "accounted_sdk r sdk \<longleftrightarrow> sdk \<in> fst ` set (sdk_p95 r) \<or> map_of (sdk_timings r) sdk = Some (Fin 0)"

lemma note_timings_accounted: "accounted_sdk r s \<Longrightarrow> s \<noteq> sdk \<Longrightarrow> accounted_sdk (note_timings sdk ts r) s"
  unfolding accounted_sdk_def
  using subsetD [OF note_timings_p95_grows, of s r sdk ts] note_timings_other [of s sdk ts r] by argo

lemma bench_sdks_accounted:
  assumes "bench_sdks lab op input iterations warmups sdks r c = (r', c')" and "distinct sdks"
    and "set sdks \<inter> fst ` set (sdk_timings r) = {}" and "\<forall>s \<in> fst ` set (sdk_timings r). accounted_sdk r s"
  shows "map fst (sdk_timings r') = map fst (sdk_timings r) @ sdks \<and> (\<forall>s \<in> fst ` set (sdk_timings r'). accounted_sdk r' s)"
  using assms
proof (induction sdks arbitrary: r c)
  case (Cons sdk sdks)
  obtain ts c1 where ts: "benchmark_sdk lab sdk op input iterations warmups c = (ts, c1)" by (metis surj_pair)
  let ?r = "note_timings sdk ts r"
  have keys: "map fst (sdk_timings ?r) = map fst (sdk_timings r) @ [sdk]"
    using Cons.prems(3) note_timings_keys [of sdk ts r "Fin 0"] by (auto simp: update_keys)
  then have dom: "fst ` set (sdk_timings ?r) = insert sdk (fst ` set (sdk_timings r))"
    by (metis (no_types) Un_insert_right list.set_map list.simps(15) set_append list.set(1) sup_bot.right_neutral)
  have "accounted_sdk ?r s" if "s \<in> fst ` set (sdk_timings ?r)" for s
    using that Cons.prems(4) note_timings_accounted note_timings_p95 [of sdk ts r]
    unfolding dom by (cases "s = sdk") (auto simp: accounted_sdk_def [of ?r sdk])
  moreover have "set sdks \<inter> fst ` set (sdk_timings ?r) = {}" using Cons.prems(2,3) unfolding dom by auto
  moreover have "bench_sdks lab op input iterations warmups sdks ?r c1 = (r', c')" using Cons.prems(1) ts by simp
  ultimately show ?case using Cons.IH [of ?r c1] Cons.prems(2) keys by simp
qed simp

lemma note_parity_simps [simp]:
  "sdk_timings (note_parity r) = sdk_timings r" "sdk_p95 (note_parity r) = sdk_p95 r" "sdk_p50 (note_parity r) = sdk_p50 r"
  "valid_timings (note_parity r) = valid_timings r" "accounted_sdk (note_parity r) s = accounted_sdk r s"
  by (simp_all add: note_parity_def Let_def valid_timings_def accounted_sdk_def)

lemma note_parity_outliers:
  "parity_passed (note_parity r) \<longleftrightarrow> valid_timings r \<noteq> [] \<and> outlier_sdks (note_parity r) = []"
  "set (outlier_sdks (note_parity r)) \<subseteq> fst ` set (valid_timings r)"
  by (auto simp: note_parity_def check_parity_def default_parity_def Let_def list_all_iff filter_empty_conv intro: rev_image_eqI)

text \<open>A benchmark has one mean per SDK, whatever its runners do; one without percentiles has the mean
  0 of a failed one.  The parity check passes exactly when some mean is positive and no SDK
  is an outlier, and only SDKs with a positive mean can be one.\<close>

theorem sdk_benchmark_accounts:
  assumes "run_sdk_benchmark lab op iterations warmups c = (r, c')"
  shows "map fst (sdk_timings r) = SDK_RUNNERS \<and>
    (\<forall>s \<in> set SDK_RUNNERS. s \<in> fst ` set (sdk_p95 r) \<or> map_of (sdk_timings r) s = Some (Fin 0)) \<and>
    (parity_passed r \<longleftrightarrow> valid_timings r \<noteq> [] \<and> outlier_sdks r = []) \<and>
    set (outlier_sdks r) \<subseteq> fst ` set (valid_timings r)"
proof -
  obtain input c1 where i: "generate_input_data lab op c = (input, c1)" by (metis surj_pair)
  obtain q c2 where q: "bench_sdks lab op input iterations warmups SDK_RUNNERS (new_sdk_result op) c1 = (q, c2)" by (metis surj_pair)
  have "distinct SDK_RUNNERS" by (simp add: SDK_RUNNERS_def)
  from bench_sdks_accounted [OF q this] have
    "map fst (sdk_timings q) = SDK_RUNNERS" "\<forall>s \<in> fst ` set (sdk_timings q). accounted_sdk q s"
    by (simp_all add: new_sdk_result_def)
  moreover from this(1) have "fst ` set (sdk_timings q) = set SDK_RUNNERS" by (metis set_map)
  moreover have "r = note_parity q" using assms i q by (simp add: run_sdk_benchmark_def)
  ultimately show ?thesis using note_parity_outliers [of q] by (simp add: accounted_sdk_def)
qed

subsection \<open>A single survivor\<close>

lemma warm_fails: "time_sdk lab sdk op input n ts c = (ts', c') \<Longrightarrow>
    (\<And>c. fst (lab_run lab sdk op input c) = None) \<Longrightarrow> ts' = ts"
proof (induction n arbitrary: c)
  case (Suc n)
  obtain start c1 where 1: "lab_clock lab c = (start, c1)" by (metis surj_pair)
  obtain q c2 where 2: "lab_run lab sdk op input c1 = (q, c2)" by (metis surj_pair)
  have "q = None" using Suc.prems(2) [of c1] 2 by simp
  with Suc 1 2 show ?case by simp
qed simp

lemma stat_mean_float: "is_float x \<Longrightarrow> exact x \<noteq> None \<Longrightarrow> stat_mean [x] = x"
  by (cases x) (auto simp: stat_mean_def mk_float_def Let_def abs_less_iff)

lemma positive_limit: "0 < x \<Longrightarrow> f_le (Fin 0) (f_mul (Fin x) (Fin (fl (1 / 5))))"
  using fl_nonneg [of "x * fl (1 / 5)"] fl_nonneg [of "1 / 5"]
  by (auto simp: mk_float_def Let_def)

lemma parity_of_one:
  assumes "valid_timings r = [(s, t)]" and "is_float t" and "exact t \<noteq> None"
  shows "parity_passed (note_parity r)" and "outlier_sdks (note_parity r) = []"
proof -
  obtain x where t: "t = Fin x" using assms(3) by (cases t) auto
  have "(s, t) \<in> set (valid_timings r)" using assms(1) by simp
  then have x: "0 < x" by (auto simp: valid_timings_def t)
  have m: "stat_mean [t] = t" using assms(2,3) by (rule stat_mean_float)
  have "f_le (f_abs (f_sub t t)) (f_mul t (Fin (fl (1 / 5))))"
    using positive_limit [OF x] unfolding t by (simp add: f_sub_def mk_float_def del: f_mul.simps)
  then have "check_parity r = \<lparr>ps_passed = True, mean_latency_ms = t, threshold_ms = f_mul t (Fin (fl (1 / 5))), within_threshold = [(s, True)]\<rparr>"
    using assms(1) m by (simp add: check_parity_def)
  then show "parity_passed (note_parity r)" "outlier_sdks (note_parity r) = []"
    by (simp_all add: note_parity_def)
qed

lemma is_float_f_add: "is_float (f_add x y)"
  by (cases x; cases y) (simp_all add: is_float_mk_float)

lemma is_float_foldl: "is_float x \<Longrightarrow> is_float (foldl f_add x ys)"
  by (induction ys arbitrary: x) (simp_all add: is_float_f_add)

lemma is_float_mean: "is_float (stat_mean xs)"
  by (simp add: stat_mean_def is_float_mk_float is_float_foldl)

definition float_timings :: "sdk_benchmark_result \<Rightarrow> bool" where
  "float_timings r \<longleftrightarrow> (\<forall>s t. map_of (sdk_timings r) s = Some t \<longrightarrow> is_float t)"

lemma note_timings_float: "float_timings r \<Longrightarrow> float_timings (note_timings sdk ts r)"
  by (auto simp: float_timings_def note_timings_def Let_def update_conv' is_float_mean split: sum.split)

lemma bench_sdks_float:
  "bench_sdks lab op input iterations warmups sdks r c = (r', c') \<Longrightarrow> float_timings r \<Longrightarrow> float_timings r'"
  by (induction sdks arbitrary: r c) (auto split: prod.splits dest: note_timings_float)

lemma bench_sdks_other:
  "bench_sdks lab op input iterations warmups sdks r c = (r', c') \<Longrightarrow> s \<notin> set sdks \<Longrightarrow>
   map_of (sdk_timings r') s = map_of (sdk_timings r) s"
  by (induction sdks arbitrary: r c) (auto split: prod.splits simp: note_timings_other)

definition always_raises :: "'c sdk_lab \<Rightarrow> string \<Rightarrow> bool" where
  "always_raises lab sdk \<longleftrightarrow> (\<forall>op input c. fst (lab_run lab sdk op input c) = None)"

lemma bench_sdks_failed:
  assumes "bench_sdks lab op input iterations warmups sdks r c = (r', c')" and "always_raises lab s" and "s \<in> set sdks"
  shows "map_of (sdk_timings r') s = Some (Fin 0)"
  using assms(1,3)
proof (induction sdks arbitrary: r c)
  case (Cons sdk sdks)
  obtain ts c1 where ts: "benchmark_sdk lab sdk op input iterations warmups c = (ts, c1)" by (metis surj_pair)
  with Cons.prems(1) have rest: "bench_sdks lab op input iterations warmups sdks (note_timings sdk ts r) c1 = (r', c')" by simp
  show ?case
  proof (cases "s \<in> set sdks")
    case True
    with Cons.IH [OF rest] show ?thesis by simp
  next
    case False
    with Cons.prems(2) have s: "sdk = s" by simp
    have "ts = []"
      using ts assms(2) unfolding s always_raises_def benchmark_sdk_def by (auto dest: warm_fails)
    with bench_sdks_other [OF rest False] show ?thesis by (simp add: s note_timings_failed)
  qed
qed simp

lemma one_positive:
  assumes "distinct (map fst al)" and "map_of al s = Some (Fin x)" and "0 < x"
    and "\<forall>k \<in> fst ` set al. k \<noteq> s \<longrightarrow> map_of al k = Some (Fin 0)"
  shows "filter (\<lambda>(k, t). f_lt (Fin 0) t) al = [(s, Fin x)]"
  using assms
proof (induction al)
  case (Cons e al)
  obtain k t where e: "e = (k, t)" by fastforce
  show ?case
  proof (cases "k = s")
    case True
    have "filter (\<lambda>(k, t). f_lt (Fin 0) t) al = []"
    proof (rule filter_False, rule ballI)
      fix kv assume kv: "kv \<in> set al"
      obtain k' t' where "kv = (k', t')" by fastforce
      with kv Cons.prems(1) e True have "k' \<noteq> s" "map_of al k' = Some t'" by (auto simp: rev_image_eqI)
      with Cons.prems(4) kv \<open>kv = _\<close> e True show "\<not> (case kv of (k, t) \<Rightarrow> f_lt (Fin 0) t)" by force
    qed
    with Cons.prems(2,3) e True show ?thesis by simp
  next
    case False
    have "\<forall>k' \<in> fst ` set al. k' \<noteq> s \<longrightarrow> map_of al k' = Some (Fin 0)"
      using Cons.prems(1,4) e by (auto split: if_splits)
    with Cons.IH Cons.prems e False show ?thesis by simp
  qed
qed simp

text \<open>When every SDK but one raises on every call, the benchmark still reports parity, with no outlier,
  as soon as the remaining SDK has a positive mean.\<close>

theorem parity_of_one_survivor:
  assumes "run_sdk_benchmark lab op iterations warmups c = (r, c')"
    and "\<And>sdk. sdk \<noteq> s \<Longrightarrow> always_raises lab sdk" and "map_of (sdk_timings r) s = Some (Fin x)" and "0 < x"
  shows "parity_passed r \<and> outlier_sdks r = []"
proof -
  obtain input c1 where i: "generate_input_data lab op c = (input, c1)" by (metis surj_pair)
  obtain q c2 where q: "bench_sdks lab op input iterations warmups SDK_RUNNERS (new_sdk_result op) c1 = (q, c2)" by (metis surj_pair)
  have r: "r = note_parity q" using assms(1) i q by (simp add: run_sdk_benchmark_def)
  have "distinct SDK_RUNNERS" by (simp add: SDK_RUNNERS_def)
  from bench_sdks_accounted [OF q this] have keys: "map fst (sdk_timings q) = SDK_RUNNERS"
    by (simp add: new_sdk_result_def)
  have others: "map_of (sdk_timings q) sdk = Some (Fin 0)" if "sdk \<noteq> s" "sdk \<in> set SDK_RUNNERS" for sdk
    by (rule bench_sdks_failed [OF q assms(2) [OF that(1)] that(2)])
  have float: "is_float (Fin x)"
  proof -
    have "float_timings (new_sdk_result op)" by (simp add: float_timings_def new_sdk_result_def)
    from bench_sdks_float [OF q this] assms(3) show ?thesis unfolding float_timings_def r note_parity_simps by blast
  qed
  have "map_of (sdk_timings q) s = Some (Fin x)" using assms(3) r by simp
  moreover have "distinct (map fst (sdk_timings q))" using keys \<open>distinct SDK_RUNNERS\<close> by simp
  moreover have "\<forall>k \<in> fst ` set (sdk_timings q). k \<noteq> s \<longrightarrow> map_of (sdk_timings q) k = Some (Fin 0)"
    using others keys by (metis list.set_map)
  ultimately have "valid_timings q = [(s, Fin x)]"
    unfolding valid_timings_def by (intro one_positive assms(4))
  from parity_of_one [OF this float] show ?thesis by (simp add: r)
qed

definition python_only :: "nat sdk_lab" where
  "python_only = \<lparr>lab_run = \<lambda>sdk op input n. (if sdk = ''python'' then Some (JObj []) else None, n + 1),
     lab_clock = \<lambda>n. (1000000 * int n, n), lab_uuid = \<lambda>n. (''u'', n)\<rparr>"

lemma sdk_percentile_single:
  assumes "is_float (Fin x)" and "\<bar>pct\<bar> \<le> 100"
  shows "sdk_percentile [Fin x] pct = Inr (Fin x)"
proof -
  have "mk_float (of_int pct / 100) = Fin (fl (of_int pct / 100))"
    by (rule mk_float_Fin [of _ 0]) (use assms(2) in \<open>simp_all add: abs_le_iff\<close>)
  moreover have "mk_float x = Fin x" "mk_float 0 = Fin 0" "mk_float 1 = Fin 1"
    using assms(1) mk_float_Fin [of 1 0] fl_of_int [of 1] by (auto simp: mk_float_def Let_def abs_less_iff)
  ultimately show ?thesis
    using assms(2) by (simp add: sdk_percentile_def Let_def float_of_int_small f_sub_def py_nth_def trunc_of_int [of 0, simplified])
qed

lemma one_millisecond: "latency_in_ms 1000000 = [Fin 1]"
  using mk_float_Fin [of 1 0] fl_of_int [of 1] by (simp add: latency_in_ms_def float_of_int_small)

lemma fl_one: "fl 1 = 1"
  using fl_of_int [of 1] by simp

theorem parity_of_one_survivor_witness:
  "\<exists>r c'. run_sdk_benchmark python_only ''ping'' 1 0 0 = (r, c') \<and> parity_passed r \<and> outlier_sdks r = []"
proof -
  have ts: "benchmark_sdk python_only ''python'' ''ping'' (JObj []) 1 0 0 = ([Fin 1], 1)"
    by (simp add: benchmark_sdk_def python_only_def lacks_error_def one_millisecond)
  have n: "map_of (sdk_timings (note_timings ''python'' [Fin 1] r)) ''python'' = Some (Fin 1)" for r
    by (simp add: note_timings_def Let_def sdk_percentile_single fl_one stat_mean_float update_conv')
  obtain q c2 where q: "bench_sdks python_only ''ping'' (JObj []) 1 0 (tl SDK_RUNNERS) (note_timings ''python'' [Fin 1] (new_sdk_result ''ping'')) 1 = (q, c2)"
    by (metis surj_pair)
  have run: "run_sdk_benchmark python_only ''ping'' 1 0 0 = (note_parity q, c2)"
    using ts q by (simp add: run_sdk_benchmark_def generate_input_data_def SDK_RUNNERS_def)
  have "''python'' \<notin> set (tl SDK_RUNNERS)" by (simp add: SDK_RUNNERS_def)
  from bench_sdks_other [OF q this] n
  have "map_of (sdk_timings (note_parity q)) ''python'' = Some (Fin 1)" by simp
  from parity_of_one_survivor [OF run _ this] run show ?thesis
    by (simp add: always_raises_def python_only_def)
qed

subsection \<open>Percentiles\<close>

lemma fl_half: "\<bar>m\<bar> \<le> 2 ^ 53 \<Longrightarrow> fl (of_int m / 2) = of_int m / 2"
proof -
  have "(2 :: rat) powi (- 1) = 1 / 2" by (simp add: power_int_minus)
  then show "\<bar>m\<bar> \<le> 2 ^ 53 \<Longrightarrow> fl (of_int m / 2) = of_int m / 2" using fl_exact [of m "- 1"] by simp
qed

lemma mk_float_half: "\<bar>m\<bar> \<le> 2 ^ 53 \<Longrightarrow> mk_float (of_int m / 2) = Fin (of_int m / 2)"
proof -
  assume m: "\<bar>m\<bar> \<le> 2 ^ 53"
  then have "\<bar>of_int m :: rat\<bar> \<le> 2 ^ 53" by (metis of_int_abs of_int_le_iff of_int_numeral of_int_power)
  then have "mk_float (of_int m / 2) = Fin (fl (of_int m / 2))" by (intro mk_float_Fin [of _ 53]) (simp_all add: abs_divide)
  with fl_half [OF m] show ?thesis by simp
qed

lemma trunc_half: "0 \<le> k \<Longrightarrow> trunc (of_int (2 * k + 1) / 2) = k"
proof -
  assume k: "0 \<le> k"
  have "\<lfloor>of_int (2 * k + 1) / (2 :: rat)\<rfloor> = k" by (rule floor_unique) (simp_all add: field_simps)
  with k show ?thesis by (simp add: trunc_def)
qed

lemma mk_float_self: "is_float (Fin x) \<Longrightarrow> mk_float x = Fin x"
  by (simp add: mk_float_def Let_def abs_less_iff)

lemma finite_entry: "list_all (\<lambda>x. is_float x \<and> exact x \<noteq> None) xs \<Longrightarrow> i < length xs \<Longrightarrow>
    \<exists>x. sort xs ! i = Fin x \<and> is_float (Fin x)"
proof -
  assume a: "list_all (\<lambda>x. is_float x \<and> exact x \<noteq> None) xs" and i: "i < length xs"
  then have "sort xs ! i \<in> set xs" by (metis length_sort nth_mem set_sort)
  with a have "is_float (sort xs ! i)" "exact (sort xs ! i) \<noteq> None" by (auto simp: list_all_iff)
  then show ?thesis by (cases "sort xs ! i") auto
qed

lemma percentile_50_steps:
  assumes "xs \<noteq> []" and "int (length xs) - 1 = m" and "\<bar>m\<bar> \<le> 2 ^ 53" and "0 \<le> k" and "k \<le> m"
    and "trunc (of_int m / 2) = k" and "py_nth (sort xs) k = Inr a" and "py_nth (sort xs) (min (k + 1) m) = Inr b"
  shows "sdk_percentile xs 50 = Inr (f_add (f_mul a (f_sub (Fin 1) (mk_float (of_int m / 2 - of_int k))))
    (f_mul b (mk_float (of_int m / 2 - of_int k))))"
proof -
  have "mk_float (50 / 100) = Fin (1 / 2)" using mk_float_half [of 1] by simp
  then have "bindE (float_of_int 50) (\<lambda>p. f_div p (Fin 100)) = Inr (Fin (1 / 2))" by (simp add: float_of_int_small)
  moreover have "float_of_int (int (length (sort xs)) - 1) = Inr (Fin (of_int m))"
    using float_of_int_small [OF assms(3)] assms(2) by simp
  moreover have "f_mul (Fin (1 / 2)) (Fin (of_int m)) = Fin (of_int m / 2)" using mk_float_half [OF assms(3)] by simp
  moreover have "float_of_int k = Inr (Fin (of_int k))" by (rule float_of_int_small) (use assms(3-5) in simp)
  moreover have "f_sub (Fin (of_int m / 2)) (Fin (of_int k)) = mk_float (of_int m / 2 - of_int k)" by (simp add: f_sub_def)
  ultimately show ?thesis
    using assms by (simp add: sdk_percentile_def Let_def del: f_mul.simps)
qed

text \<open>The 50th percentile of finite floats is their median: the middle element of an odd number,
  and the rounded sum of the halves of the two middle elements of an even number.\<close>

theorem percentile_50_is_median:
  assumes "list_all (\<lambda>x. is_float x \<and> exact x \<noteq> None) xs" and "xs \<noteq> []" and "length xs \<le> 2 ^ 53"
  shows "sdk_percentile xs 50 = Inr
    (if odd (length xs) then sort xs ! (length xs div 2)
     else f_add (f_mul (sort xs ! (length xs div 2 - 1)) (Fin (1 / 2))) (f_mul (sort xs ! (length xs div 2)) (Fin (1 / 2))))"
proof -
  define m where "m = int (length xs) - 1"
  then have e: "int (length xs) - 1 = m" by simp
  have m: "0 \<le> m" "\<bar>m\<bar> \<le> 2 ^ 53" using assms(2,3) by (cases xs; simp add: m_def)+
  have z: "mk_float 0 = Fin 0" "mk_float 1 = Fin 1" "mk_float (1 / 2) = Fin (1 / 2)"
    using mk_float_half [of 0] mk_float_half [of 2] mk_float_half [of 1] by simp_all
  note steps = percentile_50_steps [OF assms(2) e m(2)]
  show ?thesis
  proof (cases "odd (length xs)")
    case True
    then obtain k where k: "length xs = 2 * k + 1" by (elim oddE) simp
    then have mk: "m = 2 * int k" by (simp add: m_def)
    obtain a where a: "sort xs ! k = Fin a" "is_float (Fin a)" using finite_entry [OF assms(1), of k] k by auto
    obtain b where b: "py_nth (sort xs) (min (int k + 1) m) = Inr (Fin b)"
    proof (cases "k = 0")
      case True
      with mk a k that [of a] show ?thesis by (simp add: py_nth_def)
    next
      case False
      with finite_entry [OF assms(1), of "k + 1"] k mk that show ?thesis by (auto simp: py_nth_def nat_add_distrib)
    qed
    have "py_nth (sort xs) (int k) = Inr (Fin a)" using a k by (simp add: py_nth_def)
    from steps [OF _ _ _ this b] have "sdk_percentile xs 50 = Inr (f_add (f_mul (Fin a) (f_sub (Fin 1) (mk_float 0))) (f_mul (Fin b) (mk_float 0)))"
      using trunc_of_int [of "int k"] by (simp add: mk)
    also have "\<dots> = Inr (Fin a)" using z mk_float_self [OF a(2)] by (simp add: f_sub_def)
    finally show ?thesis using True a(1) k by simp
  next
    case False
    then have "even (length xs)" by simp
    then obtain k' where "length xs = 2 * k'" by (elim evenE)
    with assms(2) obtain k where k: "length xs = 2 * k + 2" by (cases k') auto
    then have mk: "m = 2 * int k + 1" by (simp add: m_def)
    have h: "of_int m / 2 - of_int (int k) = (1 / 2 :: rat)" by (simp add: mk add_divide_distrib)
    have "py_nth (sort xs) (int k) = Inr (sort xs ! k)" "py_nth (sort xs) (min (int k + 1) m) = Inr (sort xs ! (k + 1))"
      using k by (simp_all add: py_nth_def mk nat_add_distrib)
    from steps [OF _ _ _ this] have "sdk_percentile xs 50 = Inr (f_add (f_mul (sort xs ! k) (f_sub (Fin 1) (mk_float (1 / 2))))
        (f_mul (sort xs ! (k + 1)) (mk_float (1 / 2))))"
      using trunc_half [of "int k"] unfolding h by (simp add: mk)
    also have "f_sub (Fin 1) (mk_float (1 / 2)) = Fin (1 / 2)" using z by (simp add: f_sub_def)
    finally show ?thesis using False k z(3) by simp
  qed
qed

theorem percentile_50_is_median_witness:
  "sdk_percentile [Fin 3, Fin 1, Fin 2] 50 = Inr (Fin 2)"
  using percentile_50_is_median [of "[Fin 3, Fin 1, Fin 2]"] fl_of_int [of 3] fl_of_int [of 2] fl_one
  by (simp add: numeral_eq_Suc [of "Num.One"])

subsection \<open>Parity up to rounding\<close>

definition parity_test :: "rat \<Rightarrow> rat \<Rightarrow> bool" where
  "parity_test x m \<longleftrightarrow> f_le (f_abs (f_sub (Fin x) (mk_float m))) (f_mul (mk_float m) (Fin (fl (1 / 5))))"

lemma fifth: "\<bar>fl (1 / 5) - 1 / 5\<bar> \<le> 1 / 5 / 2 ^ 53"
  using fl_error_normal [of 3 "1 / 5"] by simp

lemma parity_test_tolerance:
  assumes m: "1 / 2 ^ 500 \<le> m" "m \<le> 2 ^ 500" and x: "0 \<le> x" "x \<le> 2 ^ 500"
  shows "\<bar>x - m\<bar> \<le> (1 / 5 - 1 / 2 ^ 51) * m \<Longrightarrow> parity_test x m"
    and "(1 / 5 + 1 / 2 ^ 51) * m \<le> \<bar>x - m\<bar> \<Longrightarrow> \<not> parity_test x m"
proof -
  define a where "a = fl m"
  define c where "c = fl (1 / 5)"
  have pos: "0 < m" using m(1) by (rule less_le_trans [rotated]) simp
  have a: "\<bar>a - m\<bar> \<le> m / 2 ^ 53" using fl_error_normal [of 500 m] m(1) pos by (simp add: a_def)
  have c: "\<bar>c - 1 / 5\<bar> \<le> 1 / 5 / 2 ^ 53" using fifth by (simp add: c_def)
  have a1: "a - m \<le> m / 2 ^ 53" "m - a \<le> m / 2 ^ 53" using a by linarith+
  then have a0: "m / 2 \<le> a" "a \<le> 2 * m" using pos by (simp_all add: field_simps)
  then have apos: "0 < a" using pos by simp
  have fm: "mk_float m = Fin a" unfolding a_def by (rule mk_float_Fin [of _ 500]) (use m pos in simp_all)
  have "a \<le> 2 ^ 501" "x \<le> 2 ^ 501" using a0 m x by simp_all
  then have bound: "\<bar>x - a\<bar> \<le> 2 ^ 501" using apos x by (simp add: abs_le_iff)
  have d: "f_abs (f_sub (Fin x) (Fin a)) = Fin (fl \<bar>x - a\<bar>)"
    using mk_float_Fin [OF bound] by (simp add: f_sub_def fl_abs)
  have "1 / 5 - 1 / 5 / 2 ^ 53 \<le> c" "c \<le> 1 / 5 + 1 / 5 / 2 ^ 53" using c by linarith+
  then have "a * (1 / 5 - 1 / 5 / 2 ^ 53) \<le> a * c" "a * c \<le> a * (1 / 5 + 1 / 5 / 2 ^ 53)"
    using apos by (intro mult_left_mono, simp_all only: less_imp_le)+
  moreover define P where "P = a * c"
  ultimately have p0: "a / 5 - a / 5 / 2 ^ 53 \<le> P" "P \<le> a / 5 + a / 5 / 2 ^ 53"
    by (simp_all only: right_diff_distrib distrib_left times_divide_eq_right mult_1_right)
  have plow: "m / 20 \<le> P" using p0(1) a0(1) pos by simp
  then have P: "0 < P" using pos by simp
  have "P \<le> 2 ^ 501" using p0(2) \<open>a \<le> 2 ^ 501\<close> apos by simp
  then have p: "f_mul (Fin a) (Fin c) = Fin (fl P)"
    using mk_float_Fin [of P 501] P by (simp add: P_def)
  have test: "parity_test x m \<longleftrightarrow> fl \<bar>x - a\<bar> \<le> fl P"
    unfolding parity_test_def fm c_def [symmetric] d p by simp
  show "parity_test x m" if h: "\<bar>x - m\<bar> \<le> (1 / 5 - 1 / 2 ^ 51) * m"
  proof -
    have "\<bar>x - a\<bar> \<le> \<bar>x - m\<bar> + m / 2 ^ 53" using a by linarith
    also have "\<dots> \<le> P" using h p0(1) a1 pos by (simp add: left_diff_distrib)
    finally show ?thesis unfolding test by (rule fl_mono)
  qed
  show "\<not> parity_test x m" if h: "(1 / 5 + 1 / 2 ^ 51) * m \<le> \<bar>x - m\<bar>"
  proof -
    define Y where "Y = P + P / 2 ^ 51"
    have "\<bar>x - m\<bar> - m / 2 ^ 53 \<le> \<bar>x - a\<bar>" using a by linarith
    moreover have "Y \<le> (1 / 5 + 1 / 2 ^ 51) * m - m / 2 ^ 53"
      using p0(2) a1 pos by (simp add: Y_def distrib_right)
    ultimately have y: "Y \<le> \<bar>x - a\<bar>" using h by linarith
    have "0 < Y" using P by (simp add: Y_def)
    have small: "1 / 2 ^ 510 \<le> P" using m(1) plow by simp
    have "\<bar>fl P - P\<bar> \<le> \<bar>P\<bar> / 2 ^ 53"
      by (rule fl_error_normal [of 510]) (use small P in simp_all)
    moreover have "\<bar>fl Y - Y\<bar> \<le> \<bar>Y\<bar> / 2 ^ 53"
      by (rule fl_error_normal [of 510]) (use small P in \<open>simp_all add: Y_def\<close>)
    ultimately have "fl P \<le> P + P / 2 ^ 53" "Y - Y / 2 ^ 53 \<le> fl Y" 
      using P \<open>0 < Y\<close> by linarith+
    moreover have "P + P / 2 ^ 53 < Y - Y / 2 ^ 53" using P by (simp add: Y_def)
    ultimately have "fl P < fl Y" by linarith
    also have "\<dots> \<le> fl \<bar>x - a\<bar>" by (rule fl_mono [OF y])
    finally show ?thesis unfolding test by simp
  qed
qed

lemma mean_of_finite: "stat_mean (map Fin xs) = mk_float (sum_list xs / of_nat (length xs))"
  by (simp add: stat_mean_def comp_def)


definition three_sdks :: sdk_benchmark_result where
  "three_sdks = (new_sdk_result ''ping'')\<lparr>sdk_timings := [(''python'', Fin 1), (''go'', Fin 3), (''c'', Fin 0)]\<rparr>"


theorem sdk_benchmark_accounts_witness:
  "map fst (sdk_timings (fst (run_sdk_benchmark python_only ''insert'' 3 1 0))) = SDK_RUNNERS"
proof -
  obtain r c' where q: "run_sdk_benchmark python_only ''insert'' 3 1 0 = (r, c')" by (metis surj_pair)
  from sdk_benchmark_accounts [OF q] q show ?thesis by simp
qed

end
