(* ===== verification/Bench_History.thy ===== *)
theory Bench_History
  imports Bench_Compare Bench_Report "HOL-Library.List_Lexorder" "HOL-Library.Char_ord"
begin

section \<open>Stored results and the dashboard\<close>

text \<open>
  \<open>test_infrastructure/benchmarks/history.py\<close> (its files; its comparison is in
  \<open>Bench_Compare\<close>) and \<open>dashboard.py\<close>.  A folder is the list of its file names with the
  object each holds, \<open>None\<close> for a file that cannot be read or parsed.  Timestamps are
  parameters.
\<close>

type_synonym json_items = "(string \<times> json) list"

type_synonym folder = "(string \<times> json_items option) list"

subsection \<open>Results\<close>

definition result_file_name :: "string \<Rightarrow> string \<Rightarrow> string" where
  "result_file_name benchmark_type timestamp = benchmark_type @ ''-'' @ timestamp @ ''.json''"

definition with_meta :: "string \<Rightarrow> string \<Rightarrow> json_items \<Rightarrow> json_items" where
  "with_meta benchmark_type stamp result =
     AList.update ''benchmark_type'' (JStr benchmark_type) (AList.update ''saved_at'' (JStr (stamp @ ''Z'')) result)"

definition save_result :: "string \<Rightarrow> string \<Rightarrow> json_items \<Rightarrow> string \<Rightarrow> folder \<Rightarrow> folder" where
  "save_result timestamp stamp result benchmark_type dir =
     AList.update (result_file_name benchmark_type timestamp) (Some (with_meta benchmark_type stamp result)) dir"

text \<open>\<open>glob(prefix + "*.json")\<close>.\<close>

definition glob_json :: "string \<Rightarrow> string \<Rightarrow> bool" where
  "glob_json start name \<longleftrightarrow>
     length start + 5 \<le> length name \<and> take (length start) name = start \<and> drop (length name - 5) name = ''.json''"

definition readable :: "folder \<Rightarrow> string list \<Rightarrow> json_items list" where
  "readable dir names = concat (map (\<lambda>n. case map_of dir n of Some (Some d) \<Rightarrow> [d] | _ \<Rightarrow> []) names)"

definition load_results :: "folder \<Rightarrow> string \<Rightarrow> int \<Rightarrow> json_items list" where
  "load_results dir benchmark_type limit =
     readable dir (first_n limit (rev (sort (filter (glob_json (benchmark_type @ ''-'')) (map fst dir)))))"

record trend_point =
  tp_timestamp :: json
  tp_value :: json

definition get_trend_data :: "folder \<Rightarrow> string \<Rightarrow> string \<Rightarrow> int \<Rightarrow> trend_point list" where
  "get_trend_data dir benchmark_type metric limit =
     rev (concat (map (\<lambda>result.
       case map_of result metric of
         None \<Rightarrow> []
       | Some v \<Rightarrow>
           [\<lparr>tp_timestamp = json_get result ''saved_at'' (json_get result ''timestamp'' (JStr [])), tp_value = v\<rparr>])
       (load_results dir benchmark_type limit)))"

subsection \<open>Baselines\<close>

definition baseline_file_name :: "int \<Rightarrow> string \<Rightarrow> string" where
  "baseline_file_name topology benchmark_type =
     ''baseline-'' @ show_int topology @ ''node-'' @ benchmark_type @ ''.json''"

definition as_baseline :: "string \<Rightarrow> int \<Rightarrow> string \<Rightarrow> json_items \<Rightarrow> json_items" where
  "as_baseline stamp topology benchmark_type result =
     AList.update ''benchmark_type'' (JStr benchmark_type)
       (AList.update ''topology'' (JInt topology) (AList.update ''saved_as_baseline'' (JStr (stamp @ ''Z'')) result))"

definition save_baseline :: "string \<Rightarrow> json_items \<Rightarrow> int \<Rightarrow> string \<Rightarrow> folder \<Rightarrow> folder" where
  "save_baseline stamp result topology benchmark_type dir =
     AList.update (baseline_file_name topology benchmark_type) (Some (as_baseline stamp topology benchmark_type result)) dir"

definition load_baseline :: "folder \<Rightarrow> int \<Rightarrow> string \<Rightarrow> json_items option" where
  "load_baseline dir topology benchmark_type =
     (case map_of dir (baseline_file_name topology benchmark_type) of None \<Rightarrow> None | Some content \<Rightarrow> content)"

record baseline_entry =
  be_topology :: json
  be_benchmark_type :: json
  be_saved_at :: json

definition list_baselines :: "folder \<Rightarrow> baseline_entry list" where
  "list_baselines dir =
     map (\<lambda>d. \<lparr>be_topology = json_get d ''topology'' JNull, be_benchmark_type = json_get d ''benchmark_type'' JNull,
         be_saved_at = json_get d ''saved_as_baseline'' JNull\<rparr>)
       (readable dir (filter (glob_json ''baseline-'') (map fst dir)))"

subsection \<open>The chart\<close>

definition float_max :: "pyfloat list \<Rightarrow> pyfloat" where
  "float_max xs = foldl py_max (hd xs) (tl xs)"

definition float_min :: "pyfloat list \<Rightarrow> pyfloat" where
  "float_min xs = foldl py_min (hd xs) (tl xs)"

text \<open>\<open>values[::step]\<close> for a positive step.\<close>

function every_nth :: "nat \<Rightarrow> 'a list \<Rightarrow> 'a list" where
  "every_nth n [] = []"
| "every_nth n (x # xs) = x # every_nth n (drop (n - 1) xs)"
  by pat_completeness auto
termination by (relation "Wellfounded.measure (length \<circ> snd)") auto

definition sampled_values :: "int \<Rightarrow> 'a list \<Rightarrow> (py_exn, 'a list) result" where
  "sampled_values width data =
     (let chart_width = min width (int (length data)) in
      if chart_width = 0 then Inl ZeroDivisionError
      else
        let x_step = max 1 (int (length data) div chart_width)
        in Inr (first_n chart_width (every_nth (nat x_step) data)))"

definition point_row :: "pyfloat \<Rightarrow> pyfloat \<Rightarrow> int \<Rightarrow> pyfloat \<Rightarrow> (py_exn, int) result" where
  "point_row upper y_step height v =
     bindE (if f_lt (Fin 0) y_step then bindE (f_div (f_sub upper v) y_step) py_int else Inr 0) (\<lambda>k.
     Inr (max 0 (min (height - 1) k)))"

definition row_chars :: "int list \<Rightarrow> int \<Rightarrow> string" where
  "row_chars points row = map (\<lambda>p. if p = row then CHR ''*'' else CHR '' '') points"

record chart =
  chart_top :: pyfloat
  chart_step :: pyfloat
  chart_grid :: "string list"

definition chart_of :: "pyfloat list \<Rightarrow> int \<Rightarrow> int \<Rightarrow> (py_exn, chart) result" where
  "chart_of vals height width =
     (let low = float_min vals; high = float_max vals;
          upper = (if f_le high low \<and> f_le low high then f_add low (Fin 1) else high);
          y_range = f_sub upper low
      in
        bindE (if 1 < height then bindE (float_of_int (height - 1)) (\<lambda>h. f_div y_range h) else Inr y_range) (\<lambda>y_step.
        bindE (sampled_values width vals) (\<lambda>sample.
        bindE (if 0 < height then mapE (point_row upper y_step height) sample else Inr []) (\<lambda>points.
        Inr \<lparr>chart_top = upper, chart_step = y_step, chart_grid = map (row_chars points) [0..height - 1]\<rparr>))))"

definition grid_line :: "(pyfloat \<Rightarrow> string) \<Rightarrow> chart \<Rightarrow> int \<times> string \<Rightarrow> string" where
  "grid_line y_format ch entry =
     (case entry of (row, chars) \<Rightarrow>
        pad_left 8 (y_format (f_sub (chart_top ch) (f_mul (Fin (of_int row)) (chart_step ch)))) @ '' |'' @ chars)"

text \<open>A JSON value in an f-string; \<open>repr\<close> is the text of a list or a dict.\<close>

definition json_text :: "(json \<Rightarrow> string) \<Rightarrow> json \<Rightarrow> string" where
  "json_text repr v =
     (case v of
        JNull \<Rightarrow> ''None''
      | JBool b \<Rightarrow> if b then ''True'' else ''False''
      | JInt n \<Rightarrow> show_int n
      | JFloat x \<Rightarrow> show_float x
      | JStr s \<Rightarrow> s
      | _ \<Rightarrow> repr v)"

text \<open>\<open>value[:10]\<close>.\<close>

definition date_of :: "json \<Rightarrow> (py_exn, json) result" where
  "date_of v = (case v of JStr s \<Rightarrow> Inr (JStr (take 10 s)) | JList xs \<Rightarrow> Inr (JList (take 10 xs)) | _ \<Rightarrow> Inl TypeError)"

text \<open>\<open>text + value\<close>.\<close>

definition as_text :: "json \<Rightarrow> (py_exn, string) result" where
  "as_text v = (case v of JStr s \<Rightarrow> Inr s | _ \<Rightarrow> Inl TypeError)"

definition ascii_chart ::
    "(json \<Rightarrow> string) \<Rightarrow> (json \<times> pyfloat) list \<Rightarrow> string \<Rightarrow> (pyfloat \<Rightarrow> string) \<Rightarrow> int \<Rightarrow> int \<Rightarrow> (py_exn, string) result" where
  "ascii_chart repr data title y_format height width =
     (if data = [] then Inr (''```'' @ [CHR 0x0A] @ title @ [CHR 0x0A] @ ''No data available.'' @ [CHR 0x0A] @ ''```'')
      else
        bindE (chart_of (map snd data) height width) (\<lambda>ch.
        bindE (sampled_values width (map snd data)) (\<lambda>sample.
        bindE (date_of (fst (hd data))) (\<lambda>first_date.
        bindE (bindE (date_of (fst (last data))) as_text) (\<lambda>last_date.
        let n = length sample in
        Inr (join_with [CHR 0x0A]
          ([''```'', title, []] @ map (grid_line y_format ch) (zip [0..height - 1] (chart_grid ch)) @
           [replicate 9 CHR '' '' @ ''+'' @ replicate n CHR ''-'',
            replicate 9 CHR '' '' @ json_text repr first_date @ replicate (max 1 (n - 20)) CHR '' '' @ last_date,
            ''```''])))))))"

text \<open>The points of a trend; an int takes part as the float it equals.\<close>

fun chart_points :: "trend_point list \<Rightarrow> (py_exn, (json \<times> pyfloat) list) result" where
  "chart_points [] = Inr []"
| "chart_points (p # ps) =
     bindE (json_number (tp_value p)) (\<lambda>x.
     bindE (chart_points ps) (\<lambda>qs. Inr ((tp_timestamp p, x) # qs)))"

definition thousands :: "pyfloat \<Rightarrow> string" where
  "thousands v =
     (if f_le (Fin 1000) v then (case f_div v (Fin 1000) of Inr q \<Rightarrow> show_rounded q @ ''K'' | Inl e \<Rightarrow> [])
      else show_rounded v)"

definition plot_throughput_trend :: "(json \<Rightarrow> string) \<Rightarrow> trend_point list \<Rightarrow> (py_exn, string) result" where
  "plot_throughput_trend repr data =
     (if data = [] then Inr (''```'' @ [CHR 0x0A] @ ''No throughput data available.'' @ [CHR 0x0A] @ ''```'')
      else bindE (chart_points data) (\<lambda>ps. ascii_chart repr ps ''Throughput (events/sec)'' thousands 10 60))"

definition plot_latency_trend :: "(json \<Rightarrow> string) \<Rightarrow> trend_point list \<Rightarrow> (py_exn, string) result" where
  "plot_latency_trend repr data =
     (if data = [] then Inr (''```'' @ [CHR 0x0A] @ ''No latency data available.'' @ [CHR 0x0A] @ ''```'')
      else bindE (chart_points data) (\<lambda>ps. ascii_chart repr ps ''P95 Latency (ms)'' (show_fixed 2) 10 60))"

subsection \<open>The tables of the dashboard\<close>

definition comparison_status :: "comparison_entry \<Rightarrow> string" where
  "comparison_status c =
     (if is_regression c then ''REGRESSION'' else if is_improvement c then ''IMPROVED'' else ''OK'')"

definition format_regression_status :: "comparison_entry \<Rightarrow> string" where
  "format_regression_status c =
     ''['' @ comparison_status c @ ''] '' @ ce_metric c @ '': '' @ show_fixed 3 (ce_current c) @ '' vs '' @
     show_fixed 3 (ce_baseline c) @ '' ('' @ show_signed 1 (ce_delta_pct c) @ ''%)''"

definition shown_number :: "(pyfloat \<Rightarrow> string) \<Rightarrow> json \<Rightarrow> (py_exn, string) result" where
  "shown_number f v = (if json_bool v then bindE (json_number v) (\<lambda>x. Inr (f x)) else Inr ''-'')"

definition summary_row :: "(json \<Rightarrow> string) \<Rightarrow> json_items \<Rightarrow> (py_exn, string) result" where
  "summary_row repr result =
     bindE (date_of (json_get result ''timestamp'' (json_get result ''saved_at'' (JStr [])))) (\<lambda>date.
     bindE (shown_number show_grouped (json_get result ''throughput_events_per_sec'' (JInt 0))) (\<lambda>throughput.
     bindE (shown_number (show_fixed 2) (json_get result ''p95_ms'' (JInt 0))) (\<lambda>p95.
     Inr (''| '' @ json_text repr date @ '' | '' @ json_text repr (json_get result ''benchmark_type'' (JStr ''-'')) @ '' | '' @
          json_text repr (json_get result ''topology'' (JStr ''-'')) @ '' | '' @ throughput @ '' | '' @ p95 @ '' |''))))"

definition generate_summary_table :: "(json \<Rightarrow> string) \<Rightarrow> json_items list \<Rightarrow> (py_exn, string) result" where
  "generate_summary_table repr results =
     (if results = [] then Inr ''No benchmark results available.''
      else
        bindE (mapE (summary_row repr) (take 10 results)) (\<lambda>rows.
        Inr (join_with [CHR 0x0A]
          ([''| Date | Type | Topology | Throughput | P95 (ms) |'',
            ''|------|------|----------|------------|----------|''] @ rows))))"

definition comparison_row :: "string \<times> comparison_entry \<Rightarrow> string" where
  "comparison_row entry =
     (case entry of (metric, c) \<Rightarrow>
        ''| '' @ metric @ '' | '' @ show_fixed 3 (ce_current c) @ '' | '' @ show_fixed 3 (ce_baseline c) @ '' | '' @
        show_signed 1 (ce_delta_pct c) @ ''% | '' @ comparison_status c @ '' |'')"

definition generate_comparison_report :: "metrics \<Rightarrow> metrics \<Rightarrow> (py_exn, string) result" where
  "generate_comparison_report current base =
     bindE (history_compare_to_baseline current base (Fin 10)) (\<lambda>comparisons.
     let regressions = length (filter (is_regression \<circ> snd) comparisons);
         improvements = length (filter (is_improvement \<circ> snd) comparisons)
     in Inr (join_with [CHR 0x0A]
       ([''## Comparison to Baseline'', [], ''| Metric | Current | Baseline | Change | Status |'',
         ''|--------|---------|----------|--------|--------|''] @
        map comparison_row (sort_key fst comparisons) @
        [[], ''**Summary:** '' @ show_nat regressions @ '' regressions, '' @ show_nat improvements @ '' improvements, '' @
         show_int (int (length comparisons) - int regressions - int improvements) @ '' unchanged''])))"

definition baseline_row :: "(json \<Rightarrow> string) \<Rightarrow> baseline_entry \<Rightarrow> string" where
  "baseline_row repr b =
     ''| '' @ json_text repr (be_topology b) @ ''-node | '' @ json_text repr (be_benchmark_type b) @ '' | '' @
     json_text repr (be_saved_at b) @ '' |''"

definition baseline_lines :: "(json \<Rightarrow> string) \<Rightarrow> folder \<Rightarrow> string list" where
  "baseline_lines repr baselines =
     (let bs = list_baselines baselines in
      if bs = [] then [''No baselines set. Run benchmarks with `--save-baseline` to create.'']
      else [''| Topology | Type | Saved At |'', ''|----------|------|----------|''] @ map (baseline_row repr) bs)"

definition generate_dashboard :: "(json \<Rightarrow> string) \<Rightarrow> string \<Rightarrow> folder \<Rightarrow> folder \<Rightarrow> (py_exn, string) result" where
  "generate_dashboard repr stamp history baselines =
     bindE (generate_summary_table repr (load_results history ''throughput'' 10)) (\<lambda>recent.
     bindE (plot_throughput_trend repr (get_trend_data history ''throughput'' ''throughput_events_per_sec'' 20)) (\<lambda>throughput.
     bindE (plot_latency_trend repr (get_trend_data history ''latency_read'' ''p95_ms'' 20)) (\<lambda>latency.
     Inr (join_with [CHR 0x0A]
       ([''# Performance Dashboard'', [], ''Generated: '' @ stamp @ ''Z'', [], ''## Recent Benchmark Runs'', [], recent,
         [], ''## Throughput Trend'', [], throughput, [], ''## P95 Latency Trend'', [], latency, [], ''## Baselines'', []] @
        baseline_lines repr baselines @
        [[], ''## Performance Targets'', [], ''| Metric | Target | Status |'', ''|--------|--------|--------|'',
         ''| 3-node throughput (baseline) | 770,000 events/sec | - |'',
         ''| 3-node throughput (stretch) | 1,000,000 events/sec | - |'',
         ''| Read latency P95 | <1 ms | - |'', ''| Read latency P99 | <10 ms | - |'',
         ''| Write latency P95 | <10 ms | - |'', ''| Write latency P99 | <50 ms | - |''])))))"

subsection \<open>Baselines come back\<close>

lemma show_int_nonneg: "0 \<le> t \<Longrightarrow> list_all is_digit (show_int t)"
  by (simp add: show_int_def show_nat_digits)

lemma show_nat_inj: "show_nat a = show_nat b \<Longrightarrow> a = b"
  by (metis read_nat_show)

lemma show_int_inj: "show_int a = show_int b \<Longrightarrow> a = b"
proof -
  assume e: "show_int a = show_int b"
  have minus: "show_nat n \<noteq> ''-'' @ xs" for n xs
  proof
    assume "show_nat n = ''-'' @ xs"
    with show_nat_digits [of n] show False by (simp add: is_digit_def)
  qed
  show ?thesis
    using e minus minus [THEN not_sym] by (auto simp: show_int_def split: if_splits dest: show_nat_inj)
qed

lemma digits_before: "list_all is_digit ds \<Longrightarrow> list_all is_digit es \<Longrightarrow> \<not> is_digit x \<Longrightarrow>
    ds @ x # xs = es @ x # ys \<Longrightarrow> ds = es \<and> xs = ys"
proof (induction ds arbitrary: es)
  case Nil
  then show ?case by (cases es) auto
next
  case (Cons d ds)
  then show ?case by (cases es) auto
qed

lemma show_int_sign: "show_int t = (if t < 0 then ''-'' else []) @ show_nat (nat \<bar>t\<bar>)"
  by (simp add: show_int_def)

lemma baseline_file_name_inj:
  assumes "baseline_file_name t k = baseline_file_name t' k'"
  shows "t = t' \<and> k = k'"
proof -
  have e: "show_int t @ CHR ''n'' # ''ode-'' @ k @ ''.json'' = show_int t' @ CHR ''n'' # ''ode-'' @ k' @ ''.json''"
    using assms by (simp add: baseline_file_name_def)
  have d: "\<not> is_digit CHR ''n''" "\<not> is_digit CHR ''-''" by (simp_all add: is_digit_def)
  have s: "show_nat n \<noteq> CHR ''-'' # xs" for n xs using show_nat_digits [of n] d(2) by auto
  have sign: "(t < 0) = (t' < 0)"
  proof (rule ccontr)
    assume "(t < 0) \<noteq> (t' < 0)"
    moreover have "hd (show_int u @ CHR ''n'' # ys) = CHR ''-'' \<longleftrightarrow> u < 0" for u ys
    proof -
      obtain c cs where c: "show_nat (nat \<bar>u\<bar>) = c # cs" by (metis list.exhaust show_nat_nonempty)
      then have "c \<noteq> CHR ''-''" using s by blast
      with c show ?thesis by (simp add: show_int_sign)
    qed
    ultimately show False using e by metis
  qed
  have "show_nat (nat \<bar>t\<bar>) @ CHR ''n'' # ''ode-'' @ k @ ''.json'' = show_nat (nat \<bar>t'\<bar>) @ CHR ''n'' # ''ode-'' @ k' @ ''.json''"
    using e sign by (cases "t < 0") (simp_all add: show_int_sign)
  from digits_before [OF show_nat_digits show_nat_digits d(1) this] show_nat_inj [of "nat \<bar>t\<bar>" "nat \<bar>t'\<bar>"]
  show ?thesis using sign by auto
qed

text \<open>A saved baseline is loaded as it was saved, with its topology and type recorded, and saving it
  leaves the baselines of every other topology and type as they were.\<close>

theorem baseline_comes_back:
  "load_baseline (save_baseline stamp result t k dir) t' k' =
     (if t' = t \<and> k' = k then Some (as_baseline stamp t k result) else load_baseline dir t' k') \<and>
   json_get (as_baseline stamp t k result) ''topology'' JNull = JInt t"
  using baseline_file_name_inj [of t' k' t k]
  by (auto simp: load_baseline_def save_baseline_def as_baseline_def json_get_def update_conv')


subsection \<open>Results come back newest first\<close>

type_synonym saved_run = "string \<times> string \<times> json_items"

definition save_run :: "string \<Rightarrow> folder \<Rightarrow> saved_run \<Rightarrow> folder" where
  "save_run k dir run = (case run of (timestamp, stamp, result) \<Rightarrow> save_result timestamp stamp result k dir)"

definition stored_run :: "string \<Rightarrow> saved_run \<Rightarrow> json_items" where
  "stored_run k run = (case run of (timestamp, stamp, result) \<Rightarrow> with_meta k stamp result)"

definition run_file :: "string \<Rightarrow> saved_run \<Rightarrow> string" where
  "run_file k run = result_file_name k (fst run)"

definition in_time_order :: "saved_run list \<Rightarrow> bool" where
  "in_time_order runs \<longleftrightarrow> sorted_wrt (<) (map fst runs) \<and> (\<forall>run \<in> set runs. length (fst run) = 15)"

lemma save_run_def': "save_run k dir run = AList.update (run_file k run) (Some (stored_run k run)) dir"
  by (simp add: save_run_def save_result_def stored_run_def run_file_def split: prod.split)

lemma result_file_name_less:
  assumes "t < t'" "length t = length t'"
  shows "result_file_name k t < result_file_name k t'"
proof -
  have "(t, t') \<in> lexord {(u, v). u < v}" using assms(1) by (simp add: list_less_def)
  then have "(t @ ''.json'', t' @ ''.json'') \<in> lexord {(u, v). u < v}"
    using assms(2) by (intro lexord_sufI) auto
  then have "((k @ ''-'') @ t @ ''.json'', (k @ ''-'') @ t' @ ''.json'') \<in> lexord {(u, v). u < v}"
    by (intro lexord_append_leftI) auto
  then show ?thesis by (simp add: list_less_def result_file_name_def)
qed

lemma in_time_order_snoc:
  "in_time_order (runs @ [run]) \<longleftrightarrow>
     in_time_order runs \<and> length (fst run) = 15 \<and> (\<forall>r \<in> set runs. fst r < fst run)"
  by (auto simp: in_time_order_def sorted_wrt_append)

lemma run_files_sorted: "in_time_order runs \<Longrightarrow> sorted_wrt (<) (map (run_file k) runs)"
proof (induction runs rule: rev_induct)
  case Nil
  then show ?case by simp
next
  case (snoc run runs)
  have "run_file k r < run_file k run" if "r \<in> set runs" for r
    using snoc.prems that unfolding run_file_def
    by (intro result_file_name_less) (auto simp: in_time_order_snoc, auto simp: in_time_order_def)
  with snoc show ?case by (auto simp: sorted_wrt_append in_time_order_snoc)
qed

lemma stored_folder: "in_time_order runs \<Longrightarrow>
    foldl (save_run k) [] runs = map (\<lambda>r. (run_file k r, Some (stored_run k r))) runs"
proof (induction runs rule: rev_induct)
  case Nil
  then show ?case by simp
next
  case (snoc run runs)
  have "\<forall>r \<in> set runs. run_file k r < run_file k run"
    using run_files_sorted [OF snoc.prems, of k] by (auto simp: sorted_wrt_append)
  then have "run_file k run \<notin> fst ` set (map (\<lambda>r. (run_file k r, Some (stored_run k r))) runs)"
    by force
  with snoc show ?case by (simp add: save_run_def' update_new_key in_time_order_snoc)
qed

lemma readable_stored:
  assumes "distinct (map f rs)" "set qs \<subseteq> set rs"
  shows "readable (map (\<lambda>r. (f r, Some (g r))) rs) (map f qs) = map g qs"
proof -
  have m: "map_of (map (\<lambda>r. (f r, Some (g r))) rs) (f q) = Some (Some (g q))" if "q \<in> set rs" for q
    using assms(1) that by (intro map_of_is_SomeI) (auto simp: o_def)
  show ?thesis using assms(2) by (induction qs) (auto simp: readable_def m)
qed

lemma glob_json_file: "glob_json (k @ ''-'') (run_file k r)"
  by (simp add: glob_json_def run_file_def result_file_name_def)

lemma stored_results:
  assumes "in_time_order runs"
  shows "load_results (foldl (save_run k) [] runs) k limit = first_n limit (rev (map (stored_run k) runs))"
proof -
  let ?names = "map (run_file k) runs"
  have sorted: "sorted ?names" and dist: "distinct ?names"
    using run_files_sorted [OF assms, of k] by (simp_all add: strict_sorted_iff)
  have "filter (glob_json (k @ ''-'')) ?names = ?names" by (simp add: filter_id_conv glob_json_file)
  then have "load_results (foldl (save_run k) [] runs) k limit =
      readable (map (\<lambda>r. (run_file k r, Some (stored_run k r))) runs) (map (run_file k) (first_n limit (rev runs)))"
    using sorted
    by (simp add: load_results_def stored_folder [OF assms] o_def sorted_sort_id rev_map first_n_map)
  also have "\<dots> = map (stored_run k) (first_n limit (rev runs))"
    by (rule readable_stored [OF dist]) (auto dest: first_n_subset)
  finally show ?thesis by (simp add: first_n_map rev_map)
qed


text \<open>The point a result adds to the trend of a metric, if it has the metric.\<close>

definition trend_of :: "string \<Rightarrow> json_items \<Rightarrow> trend_point list" where
  "trend_of metric result =
     (case map_of result metric of
        None \<Rightarrow> []
      | Some v \<Rightarrow>
          [\<lparr>tp_timestamp = json_get result ''saved_at'' (json_get result ''timestamp'' (JStr [])), tp_value = v\<rparr>])"

lemma rev_concat_small: "(\<And>x. length (f x) \<le> 1) \<Longrightarrow> rev (concat (map f xs)) = concat (map f (rev xs))"
proof (induction xs)
  case Nil
  then show ?case by simp
next
  case (Cons x xs)
  have "rev (f x) = f x" using Cons.prems [of x] by (cases "f x") auto
  with Cons show ?case by simp
qed

lemma trend_of_small: "length (trend_of metric result) \<le> 1"
  by (simp add: trend_of_def split: option.split)

lemma get_trend_data_alt: "get_trend_data dir k metric limit =
    concat (map (trend_of metric) (rev (load_results dir k limit)))"
  using rev_concat_small [of "trend_of metric", OF trend_of_small]
  by (simp add: get_trend_data_def trend_of_def [abs_def])

text \<open>C37: A history in which every run was saved in a later second than the one before gives back what was
  saved: loading returns the newest results, at most the limit, newest first, each with the fields
  added when it was saved; and the trend of a metric runs over the same results oldest first, one
  point for every result that has the metric and none for the others.\<close>

theorem history_is_what_was_saved:
  assumes "in_time_order runs" and "0 \<le> limit"
  shows "load_results (foldl (save_run k) [] runs) k limit = take (nat limit) (rev (map (stored_run k) runs)) \<and>
         get_trend_data (foldl (save_run k) [] runs) k metric limit =
           concat (map (trend_of metric) (drop (length runs - nat limit) (map (stored_run k) runs)))"
proof -
  have "load_results (foldl (save_run k) [] runs) k limit = take (nat limit) (rev (map (stored_run k) runs))"
    using assms by (simp add: stored_results first_n_def)
  then show ?thesis by (simp add: get_trend_data_alt take_rev)
qed

definition two_runs :: "saved_run list" where
  "two_runs = [(''20260101-120000'', ''2026-01-01T12:00:00'', [(''p95_ms'', JFloat (Fin 1))]),
               (''20260102-120000'', ''2026-01-02T12:00:00'', [(''p95_ms'', JFloat (Fin 2))])]"

lemma two_runs_in_order: "in_time_order two_runs"
  by (simp add: in_time_order_def two_runs_def list_less_def less_char_def)

theorem history_is_what_was_saved_witness:
  "map (\<lambda>d. map_of d ''p95_ms'') (load_results (foldl (save_run ''latency_read'') [] two_runs) ''latency_read'' 1) =
     [Some (JFloat (Fin 2))] \<and>
   map tp_value (get_trend_data (foldl (save_run ''latency_read'') [] two_runs) ''latency_read'' ''p95_ms'' 50) =
     [JFloat (Fin 1), JFloat (Fin 2)]"
  using history_is_what_was_saved [OF two_runs_in_order, of 1 "''latency_read''" "''p95_ms''"]
    history_is_what_was_saved [OF two_runs_in_order, of 50 "''latency_read''" "''p95_ms''"]
  by (simp add: two_runs_def stored_run_def with_meta_def trend_of_def update_conv')

text \<open>The file name holds whole seconds: a second result of the type saved within the second takes the
  place of the first.\<close>

theorem same_second_overwrites:
  "save_result timestamp stamp' result' k (save_result timestamp stamp result k dir) =
     save_result timestamp stamp' result' k dir"
  by (simp add: save_result_def update_last)

subsection \<open>The chart has one star in every column\<close>

lemma point_row_range: "point_row u s h v = Inr p \<Longrightarrow> 0 < h \<Longrightarrow> 0 \<le> p \<and> p < h"
  by (auto simp: point_row_def bindE_def split: if_splits sum.splits)

lemma one_row_equals: "0 \<le> p \<Longrightarrow> p < h \<Longrightarrow> length (filter (\<lambda>row. p = row) [0..h - 1]) = 1"
  for p h :: int
proof -
  assume p: "0 \<le> p" "p < h"
  have "length (filter (\<lambda>row. p = row) [0..h - 1]) = card (set (filter (\<lambda>row. p = row) [0..h - 1]))"
    by (metis distinct_card distinct_filter distinct_upto)
  also have "set (filter (\<lambda>row. p = row) [0..h - 1]) = {p}" using p by auto
  finally show ?thesis by simp
qed


definition one_star_per_column :: "string list \<Rightarrow> nat \<Rightarrow> bool" where
  "one_star_per_column grid columns \<longleftrightarrow>
     list_all (\<lambda>row. length row = columns \<and> set row \<subseteq> {CHR ''*'', CHR '' ''}) grid \<and>
     list_all (\<lambda>c. length (filter (\<lambda>row. row ! c = CHR ''*'') grid) = 1) [0..<columns]"

lemma row_chars_star: "c < length points \<Longrightarrow> row_chars points row ! c = CHR ''*'' \<longleftrightarrow> points ! c = row"
  by (simp add: row_chars_def)

lemma grid_has_one_star:
  assumes "list_all (\<lambda>p. 0 \<le> p \<and> p < h) points"
  shows "one_star_per_column (map (row_chars points) [0..h - 1]) (length points)"
proof -
  have "length (filter (\<lambda>row. row ! c = CHR ''*'') (map (row_chars points) [0..h - 1])) = 1"
    if c: "c < length points" for c
  proof -
    have "0 \<le> points ! c" "points ! c < h" using assms c by (auto simp: list_all_length)
    then show ?thesis
      using one_row_equals [of "points ! c" h] by (simp add: filter_map o_def row_chars_star [OF c])
  qed
  then show ?thesis
    by (auto simp: one_star_per_column_def list_all_iff row_chars_def)
qed

text \<open>Whatever the values, a chart that is drawn has one line for each of its rows and one column for
  each sampled value, and every column holds exactly one star; its columns are at most the width
  asked for.\<close>

theorem chart_has_one_star_per_column:
  assumes "chart_of vals height width = Inr ch" and "0 < height" and "0 < width"
  shows "\<exists>sample. sampled_values width vals = Inr sample \<and> length sample \<le> nat width \<and>
           length (chart_grid ch) = nat height \<and> one_star_per_column (chart_grid ch) (length sample)"
proof -
  obtain sample points u s where
    sample: "sampled_values width vals = Inr sample" and
    points: "mapE (point_row u s height) sample = Inr points" and
    grid: "chart_grid ch = map (row_chars points) [0..height - 1]"
    using assms by (auto simp: chart_of_def Let_def bindE_def split: sum.splits if_splits)
  have "list_all (\<lambda>p. 0 \<le> p \<and> p < height) points"
    using points assms(2) by (auto simp: mapE_Inr_iff list_all2_conv_all_nth list_all_length dest!: point_row_range)
  moreover have "length points = length sample" using points by (rule mapE_length)
  moreover have "length sample \<le> nat width"
    using sample assms(3) by (auto simp: sampled_values_def Let_def first_n_def split: if_splits)
  ultimately show ?thesis using grid_has_one_star [of height points] sample grid by auto
qed

text \<open>With more values than columns and fewer than twice as many, the chart shows the oldest values and
  leaves out the newest.\<close>

theorem chart_drops_the_newest:
  assumes "0 < width" and "width < int (length vals)" and "int (length vals) < 2 * width"
  shows "sampled_values width vals = Inr (take (nat width) vals)"
proof -
  have one: "every_nth 1 xs = xs" for xs :: "'a list" by (induction xs) auto
  have "int (length vals) div width = 1"
    using assms by (intro int_div_pos_eq [where r = "int (length vals) - width"]) auto
  then show ?thesis using assms one [of vals] by (simp add: sampled_values_def Let_def min_def first_n_def)
qed

theorem chart_drops_the_newest_witness: "sampled_values 2 [10, 20, 30 :: int] = Inr [10, 20]"
  using chart_drops_the_newest [of 2 "[10, 20, 30 :: int]"] by simp

theorem chart_has_one_star_per_column_witness:
  "\<exists>ch. chart_of [Fin 1, Fin 3, Fin 2] 3 60 = Inr ch \<and> one_star_per_column (chart_grid ch) 3"
proof -
  have m: "mk_float 1 = Fin 1" "mk_float 2 = Fin 2" "mk_float 0 = Fin 0" "mk_float (- 1) = Fin (- 1)"
    using mk_float_Fin [of 1 1] mk_float_Fin [of 2 1] mk_float_Fin [of 0 1] mk_float_Fin [of "- 1" 1]
      fl_of_int [of 1] fl_of_int [of 2] by auto
  have t: "trunc 2 = 2" "trunc 1 = 1" "trunc 0 = 0" by (simp_all add: trunc_def)
  have sample: "sampled_values 60 [Fin 1, Fin 3, Fin 2] = Inr [Fin 1, Fin 3, Fin 2]"
    by (simp add: sampled_values_def first_n_def)
  have "\<exists>ch. chart_of [Fin 1, Fin 3, Fin 2] 3 60 = Inr ch"
    using float_of_int_small [of 2] sample
    by (simp add: chart_of_def float_max_def float_min_def py_max_def py_min_def f_sub_def m t point_row_def)
  then obtain ch where ch: "chart_of [Fin 1, Fin 3, Fin 2] 3 60 = Inr ch" by blast
  from chart_has_one_star_per_column [OF ch] sample show ?thesis
    using ch by (auto simp: eval_nat_numeral)
qed

end
