(* ===== verification/City_Workload.thy ===== *)
theory City_Workload
  imports Bench_Workloads
begin

section \<open>The city workload\<close>

text \<open>
  \<open>test_infrastructure/benchmarks/workloads/city_concentrated.py\<close>: batches of events scattered
  around random cities.  \<open>'s\<close> is the state of the workload's \<open>random.Random\<close>, \<open>'c\<close>
  everything outside, from which the text of a fresh \<open>uuid4\<close> comes as well.
\<close>

record 's city_workload =
  cy_data :: dataset_config
  cy_batch_size :: int
  cy_radius_km :: pyfloat
  cy_addresses :: "string list"
  cy_connected :: bool
  cy_rng :: "'s option"
  cy_coords :: "coords list"

definition new_city_workload ::
    "string list option \<Rightarrow> string option \<Rightarrow> int option \<Rightarrow> dataset_config \<Rightarrow> int \<Rightarrow> pyfloat \<Rightarrow> (py_exn, 's city_workload) result" where
  "new_city_workload addresses host port data batch_size radius =
     bindE (normalize_addresses addresses host port) (\<lambda>as.
     Inr \<lparr>cy_data = data, cy_batch_size = batch_size, cy_radius_km = radius, cy_addresses = as, cy_connected = False,
          cy_rng = None, cy_coords = []\<rparr>)"

definition city_points :: "coords list" where
  "city_points = map (\<lambda>(name, c). (Fin (fl (city_lat c)), Fin (fl (city_lon c)))) cities"

definition city_setup ::
    "(int \<Rightarrow> 's) \<Rightarrow> 'c bench_client \<Rightarrow> 's city_workload \<times> 'c \<Rightarrow> (py_exn, unit) result \<times> 's city_workload \<times> 'c" where
  "city_setup seeded b s =
     (case s of (t, c) \<Rightarrow>
        case bk_build b (cy_addresses t) c of
          (Inl e, c) \<Rightarrow> (Inl e, t, c)
        | (Inr u, c) \<Rightarrow>
            (Inr (), t\<lparr>cy_connected := True,
               cy_rng := Some (seeded (case ds_seed (cy_data t) of Some n \<Rightarrow> n | None \<Rightarrow> 42)), cy_coords := city_points\<rparr>, c))"

subsection \<open>A batch\<close>

text \<open>\<open>cosine\<close> is \<open>math.cos(math.radians(x))\<close>.\<close>

definition offset_coords ::
    "(pyfloat \<Rightarrow> pyfloat) \<Rightarrow> pyfloat \<Rightarrow> pyfloat \<Rightarrow> pyfloat \<Rightarrow> pyfloat \<Rightarrow> (py_exn, coords) result" where
  "offset_coords cosine lat lon offset_lat_km offset_lon_km =
     bindE (f_div offset_lat_km (Fin 111)) (\<lambda>dlat.
     let km_per_deg_lon = f_mul (Fin 111) (cosine lat) in
     bindE (if f_lt (Fin (fl (1 / 10))) km_per_deg_lon
            then bindE (f_div offset_lon_km km_per_deg_lon) (\<lambda>dlon. Inr (f_add lon dlon))
            else Inr lon) (\<lambda>new_lon.
     Inr (f_add lat dlat, new_lon)))"

definition clamp_lon :: "pyfloat \<Rightarrow> pyfloat" where
  "clamp_lon lon = py_max (Fin (- 180)) (py_min (Fin 180) lon)"

definition wrap_once :: "pyfloat \<Rightarrow> pyfloat" where
  "wrap_once lon =
     (if f_lt (Fin 180) lon then f_sub lon (Fin 360)
      else if f_lt lon (Fin (- 180)) then f_add lon (Fin 360) else lon)"

definition placed :: "coords \<Rightarrow> coords" where
  "placed p = (clamp_lat (fst p), wrap_once (clamp_lon (snd p)))"

definition city_event :: "string \<Rightarrow> coords \<Rightarrow> int \<Rightarrow> members" where
  "city_event uuid p correlation =
     [(''entity_id'', JStr uuid), (''latitude'', JFloat (fst p)), (''longitude'', JFloat (snd p)),
      (''correlation_id'', JInt correlation), (''user_data'', JInt 0)]"

text \<open>\<open>rng.choice\<close> raises for an empty list.\<close>

definition rng_choice :: "'s rng \<Rightarrow> 'a list \<Rightarrow> 's \<Rightarrow> (py_exn, 'a) result \<times> 's" where
  "rng_choice r xs s =
     (if xs = [] then (Inl IndexError, s) else case rng_below r (length xs) s of (i, s) \<Rightarrow> (Inr (xs ! i), s))"

definition one_city_event ::
    "(pyfloat \<Rightarrow> pyfloat) \<Rightarrow> 's rng \<Rightarrow> ('c \<Rightarrow> string \<times> 'c) \<Rightarrow> pyfloat \<Rightarrow> coords list \<Rightarrow> 's \<times> 'c \<Rightarrow>
     (py_exn, members) result \<times> 's \<times> 'c" where
  "one_city_event cosine r new_uuid std_km coords sc =
     (case sc of (s, c) \<Rightarrow>
        case rng_choice r coords s of
          (Inl e, s) \<Rightarrow> (Inl e, s, c)
        | (Inr (lat, lon), s) \<Rightarrow>
            (case rng_gauss r (Fin 0) std_km s of (dlat, s) \<Rightarrow>
              (case rng_gauss r (Fin 0) std_km s of (dlon, s) \<Rightarrow>
                (case offset_coords cosine lat lon dlat dlon of
                   Inl e \<Rightarrow> (Inl e, s, c)
                 | Inr p \<Rightarrow>
                     (case new_uuid c of (uuid, c) \<Rightarrow>
                       (case rng_randint r 0 (2 ^ 31 - 1) s of
                          (Inl e, s) \<Rightarrow> (Inl e, s, c)
                        | (Inr correlation, s) \<Rightarrow> (Inr (city_event uuid (placed p) correlation), s, c)))))))"

fun city_events ::
    "(pyfloat \<Rightarrow> pyfloat) \<Rightarrow> 's rng \<Rightarrow> ('c \<Rightarrow> string \<times> 'c) \<Rightarrow> pyfloat \<Rightarrow> coords list \<Rightarrow> nat \<Rightarrow> 's \<times> 'c \<Rightarrow>
     (py_exn, members list) result \<times> 's \<times> 'c" where
  "city_events cosine r new_uuid std_km coords 0 sc = (Inr [], sc)"
| "city_events cosine r new_uuid std_km coords (Suc n) sc =
     (case one_city_event cosine r new_uuid std_km coords sc of
        (Inl e, sc) \<Rightarrow> (Inl e, sc)
      | (Inr d, sc) \<Rightarrow>
          (case city_events cosine r new_uuid std_km coords n sc of (q, sc) \<Rightarrow> (bindE q (\<lambda>ds. Inr (d # ds)), sc)))"

definition generate_concentrated_batch ::
    "(pyfloat \<Rightarrow> pyfloat) \<Rightarrow> 's rng \<Rightarrow> ('c \<Rightarrow> string \<times> 'c) \<Rightarrow> 's city_workload \<times> 'c \<Rightarrow>
     (py_exn, members list) result \<times> 's city_workload \<times> 'c" where
  "generate_concentrated_batch cosine r new_uuid tc =
     (case tc of (t, c) \<Rightarrow>
        case cy_rng t of
          None \<Rightarrow> (Inl (RuntimeError ''RNG not initialized''), t, c)
        | Some s \<Rightarrow>
            (case f_div (cy_radius_km t) (Fin 3) of
               Inl e \<Rightarrow> (Inl e, t, c)
             | Inr std_km \<Rightarrow>
                 (case city_events cosine r new_uuid std_km (cy_coords t) (nat (cy_batch_size t)) (s, c) of
                    (q, s, c) \<Rightarrow> (q, t\<lparr>cy_rng := Some s\<rparr>, c))))"

definition city_execute_one ::
    "(pyfloat \<Rightarrow> pyfloat) \<Rightarrow> 's rng \<Rightarrow> ('c \<Rightarrow> string \<times> 'c) \<Rightarrow> 'c bench_client \<Rightarrow> ('s city_workload \<times> 'c) workload" where
  "city_execute_one cosine r new_uuid b tc =
     (case tc of (t, c) \<Rightarrow>
        if cy_rng t = None then (Inl (RuntimeError ''Workload not setup. Call setup() first.''), t, c)
        else
          case ensure_client b (cy_addresses t) (cy_connected t) c of
            (Inl e, c) \<Rightarrow> (Inl e, t, c)
          | (Inr u, c) \<Rightarrow>
              (case generate_concentrated_batch cosine r new_uuid (t\<lparr>cy_connected := True\<rparr>, c) of
                 (q, t, c) \<Rightarrow>
                   (case bindE q batch_to_geo_events of
                      Inl e \<Rightarrow> (Inl e, t, c)
                    | Inr batch \<Rightarrow> (case timed b (insert_ok b batch) c of (x, c) \<Rightarrow> (Inr x, t, c)))))"

definition city_cleanup :: "'c bench_client \<Rightarrow> 's city_workload \<times> 'c \<Rightarrow> 's city_workload \<times> 'c" where
  "city_cleanup b tc =
     (case tc of (t, c) \<Rightarrow> (t\<lparr>cy_connected := False, cy_rng := None, cy_coords := []\<rparr>, drop_client b (cy_connected t) c))"

definition get_pattern_name :: string where
  "get_pattern_name = ''city_concentrated''"

definition city_events_per_batch :: "'s city_workload \<Rightarrow> int" where
  "city_events_per_batch t = cy_batch_size t"

subsection \<open>The wrap is never reached\<close>

text \<open>The longitude is clamped before it is wrapped, so the wrap never changes it: points beyond the
  antimeridian are put on it.\<close>

theorem clamped_longitude_never_wraps: "wrap_once (clamp_lon lon) = clamp_lon lon"
  by (cases lon) (auto simp: wrap_once_def clamp_lon_def py_max_def py_min_def)

theorem east_of_the_antimeridian: "180 \<le> x \<Longrightarrow> placed (Fin lat, Fin x) = (clamp_lat (Fin lat), Fin 180)"
  by (simp add: placed_def clamp_lon_def wrap_once_def py_max_def py_min_def)

theorem east_of_the_antimeridian_witness: "placed (Fin 0, Fin 190) = (Fin 0, Fin 180)"
  using east_of_the_antimeridian [of 190 0] by (simp add: clamp_lat_def py_max_def py_min_def)


subsection \<open>A workload that was set up delivers\<close>

definition uuid_text :: "string \<Rightarrow> bool" where
  "uuid_text s \<longleftrightarrow> set s \<subseteq> insert CHR ''-'' hex_chars \<and> length (filter (\<lambda>c. c \<noteq> CHR ''-'') s) = 32"

lemma parse_uuid:
  assumes "uuid_text s"
  shows "parse_id_text s = Inr (int (read_hex (filter (\<lambda>c. c \<noteq> CHR ''-'') s)))"
proof -
  let ?h = "filter (\<lambda>c. c \<noteq> CHR ''-'') s"
  have dash: "\<not> is_space CHR ''-''" "lower_char CHR ''-'' = CHR ''-''" by code_simp+
  have c: "\<not> is_space c" "c \<noteq> CHR ''x''" "lower_char c = c" if "c \<in> set s" for c
  proof -
    have "c = CHR ''-'' \<or> c \<in> hex_chars" using assms that unfolding uuid_text_def by blast
    then show "\<not> is_space c" "c \<noteq> CHR ''x''" "lower_char c = c" using dash hex_charsD(1,5,8) by auto
  qed
  have len: "length ?h = 32" using assms unfolding uuid_text_def by blast
  have h: "?h \<noteq> []" using len by (metis list.size(3) zero_neq_numeral)
  then have ne: "s \<noteq> []" by auto
  have hex: "set ?h \<subseteq> hex_chars" using assms unfolding uuid_text_def set_filter by blast
  have drop: "dropWhile is_space s = s" "dropWhile is_space (rev s) = rev s"
    using c(1) ne by (simp_all add: dropWhile_eq_self_iff hd_rev)
  then have st: "strip s = s" by (simp add: strip_def lstrip_def rstrip_def)
  have low: "py_lower s = s" using c(3) by (simp add: py_lower_def map_idI)
  have "CHR ''x'' \<notin> set (take 2 s)" using c(2) in_set_takeD by metis
  then have "take 2 s \<noteq> ''0x''" by (intro notI) simp
  then show ?thesis
    using ne low st len int_of_hex_plain [OF h hex] by (simp add: parse_id_text_def Let_def)
qed

lemma placed_valid: "valid_point (placed p)"
proof -
  have "f_le (Fin (- 90)) (clamp_lat x) \<and> f_le (clamp_lat x) (Fin 90)" for x
    by (cases x) (auto simp: clamp_lat_def py_max_def py_min_def)
  moreover have "f_le (Fin (- 180)) (clamp_lon x) \<and> f_le (clamp_lon x) (Fin 180)" for x
    by (cases x) (auto simp: clamp_lon_def py_max_def py_min_def)
  moreover have "wrap_once (clamp_lon x) = clamp_lon x" for x
    by (cases x) (auto simp: wrap_once_def clamp_lon_def py_max_def py_min_def)
  ultimately show ?thesis by (simp add: valid_point_def placed_def)
qed

lemma f_div_returns: "y \<noteq> Fin 0 \<Longrightarrow> \<exists>q. f_div x y = Inr q"
  by (cases y; cases x) auto

lemma offset_coords_returns: "\<exists>p. offset_coords cosine lat lon dlat dlon = Inr p"
proof -
  have "km \<noteq> Fin 0" if "f_lt (Fin (fl (1 / 10))) km" for km
    using that fl_nonneg [of "1 / 10"] by auto
  then show ?thesis
    using f_div_returns [of "Fin 111" dlat] f_div_returns [of _ dlon]
    by (fastforce simp: offset_coords_def Let_def simp del: f_div.simps)
qed

definition fits_city :: "geo_event \<Rightarrow> bool" where
  "fits_city g \<longleftrightarrow> \<bar>lat_nano g\<bar> \<le> 90000000000 \<and> \<bar>lon_nano g\<bar> \<le> 180000000000 \<and>
     0 \<le> correlation_id g \<and> correlation_id g < 2 ^ 31 \<and> user_data g = 0"

lemma city_event_converts:
  assumes "uuid_text u" and "valid_point p" and "0 \<le> k" "k < 2 ^ 31"
  shows "\<exists>g. event_dict_to_geo_event (city_event u p k) = Inr g \<and> fits_city g"
proof -
  have p: "is_valid_latitude (fst p)" "is_valid_longitude (snd p)"
    using assms(2) by (simp_all add: valid_point_def is_valid_latitude_def is_valid_longitude_def LAT_MAX_def LON_MAX_def)
  obtain lat where lat: "degrees_to_nano (fst p) = Inr lat" "\<bar>lat\<bar> \<le> 90000000000"
    using degrees_to_nano_latitude [OF p(1)] by blast
  obtain lon where lon: "degrees_to_nano (snd p) = Inr lon" "\<bar>lon\<bar> \<le> 180000000000"
    using degrees_to_nano_longitude [OF p(2)] by blast
  show ?thesis
    using assms(3,4)
    by (simp add: event_dict_to_geo_event_def city_event_def json_item_def id_member_def int_member_def
        float_member_def json_get_def parse_entity_id_def parse_uuid [OF assms(1)] create_geo_event_def p lat lon
        zero_conversions fits_city_def)
qed

definition good_uuids :: "('c \<Rightarrow> string \<times> 'c) \<Rightarrow> bool" where
  "good_uuids new_uuid \<longleftrightarrow> (\<forall>c. uuid_text (fst (new_uuid c)))"

lemma one_city_event_fits:
  assumes "good_rng r" and "good_uuids new_uuid" and "coords \<noteq> []"
  shows "\<exists>d s' c' g. one_city_event cosine r new_uuid std coords (s, c) = (Inr d, s', c') \<and>
    event_dict_to_geo_event d = Inr g \<and> fits_city g"
proof -
  obtain i s1 where i: "rng_below r (length coords) s = (i, s1)" by (metis surj_pair)
  obtain lat lon where ll: "coords ! i = (lat, lon)" by (metis surj_pair)
  obtain dlat s2 where a: "rng_gauss r (Fin 0) std s1 = (dlat, s2)" by (metis surj_pair)
  obtain dlon s3 where b: "rng_gauss r (Fin 0) std s2 = (dlon, s3)" by (metis surj_pair)
  obtain p where p: "offset_coords cosine lat lon dlat dlon = Inr p" using offset_coords_returns by blast
  obtain u c' where u: "new_uuid c = (u, c')" by (metis surj_pair)
  obtain k s4 where k: "rng_randint r 0 (2 ^ 31 - 1) s3 = (Inr k, s4)" "0 \<le> k" "k \<le> 2 ^ 31 - 1"
    using rng_randint_in [OF assms(1), of 0 "2 ^ 31 - 1" s3] by auto
  have "uuid_text u" using assms(2) u unfolding good_uuids_def by (metis fst_conv)
  then obtain g where "event_dict_to_geo_event (city_event u (placed p) k) = Inr g" "fits_city g"
    using city_event_converts [OF _ placed_valid k(2)] k(3) by fastforce
  then show ?thesis
    using assms(3) by (simp add: one_city_event_def rng_choice_def i ll a b p u k(1) del: power_numeral)
qed

lemma city_events_fit:
  assumes "good_rng r" and "good_uuids new_uuid" and "coords \<noteq> []"
  shows "\<exists>ds s' c' gs. city_events cosine r new_uuid std coords n (s, c) = (Inr ds, s', c') \<and>
    batch_to_geo_events ds = Inr gs \<and> length gs = n \<and> (\<forall>g \<in> set gs. fits_city g)"
proof (induction n arbitrary: s c)
  case 0
  show ?case by simp
next
  case (Suc n)
  obtain d s1 c1 g where d: "one_city_event cosine r new_uuid std coords (s, c) = (Inr d, s1, c1)"
    "event_dict_to_geo_event d = Inr g" "fits_city g"
    using one_city_event_fits [OF assms] by blast
  from Suc [of s1 c1] d show ?case by auto
qed


definition city_ready :: "'s city_workload \<Rightarrow> bool" where
  "city_ready t \<longleftrightarrow> cy_rng t \<noteq> None \<and> cy_coords t = city_points \<and> cy_connected t"

text \<open>The inserted batch of a call.\<close>

definition delivers :: "'c bench_client \<Rightarrow> int \<Rightarrow> sample \<Rightarrow> 'c \<Rightarrow> bool" where
  "delivers b n x c' \<longleftrightarrow>
     (\<exists>gs c. timed b (insert_ok b gs) c = (x, c') \<and> length gs = nat n \<and> (\<forall>g \<in> set gs. fits_city g))"

lemma city_points_nonempty: "city_points \<noteq> []"
  by (simp add: city_points_def cities_def)

lemma city_execute_delivers:
  assumes r: "good_rng r" "good_uuids new_uuid" and ready: "city_ready t"
  shows "\<exists>x t' c'. city_execute_one cosine r new_uuid b (t, c) = (Inr x, t', c') \<and> city_ready t' \<and>
    cy_batch_size t' = cy_batch_size t \<and> delivers b (cy_batch_size t) x c'"
proof -
  obtain s where s: "cy_rng t = Some s" using ready by (auto simp: city_ready_def)
  have same: "t\<lparr>cy_connected := True\<rparr> = t" using ready by (cases t) (simp add: city_ready_def)
  obtain std where std: "f_div (cy_radius_km t) (Fin 3) = Inr std" using f_div_returns [of "Fin 3" "cy_radius_km t"] by (auto simp del: f_div.simps)
  obtain ds s' c1 gs where ds:
    "city_events cosine r new_uuid std city_points (nat (cy_batch_size t)) (s, c) = (Inr ds, s', c1)"
    "batch_to_geo_events ds = Inr gs" "length gs = nat (cy_batch_size t)" "\<forall>g \<in> set gs. fits_city g"
    using city_events_fit [OF r city_points_nonempty] by blast
  obtain x c' where x: "timed b (insert_ok b gs) c1 = (x, c')" by (metis surj_pair)
  have "city_execute_one cosine r new_uuid b (t, c) = (Inr x, t\<lparr>cy_rng := Some s'\<rparr>, c')"
    using ready s std ds(1,2) x same
    by (simp add: city_execute_one_def city_ready_def ensure_client_def generate_concentrated_batch_def del: f_div.simps)
  moreover have "delivers b (cy_batch_size t) x c'" using x ds(3,4) unfolding delivers_def by blast
  ultimately show ?thesis using ready by (simp add: city_ready_def)
qed

fun city_runs ::
    "(pyfloat \<Rightarrow> pyfloat) \<Rightarrow> 's rng \<Rightarrow> ('c \<Rightarrow> string \<times> 'c) \<Rightarrow> 'c bench_client \<Rightarrow> nat \<Rightarrow> 's city_workload \<times> 'c \<Rightarrow>
     ((py_exn, sample) result \<times> 'c) list" where
  "city_runs cosine r new_uuid b 0 tc = []"
| "city_runs cosine r new_uuid b (Suc n) tc =
     (case city_execute_one cosine r new_uuid b tc of (q, t, c) \<Rightarrow> (q, c) # city_runs cosine r new_uuid b n (t, c))"

text \<open>A city workload that was set up never raises: every one of its calls generates a whole batch,
  converts it into events of the SDK with coordinates, correlation ids and user data in their
  ranges, inserts exactly that batch between two readings of the clock, and returns the sample.\<close>

theorem city_workload_delivers:
  assumes "good_rng r" and "good_uuids new_uuid"
    and "new_city_workload addresses host port data n radius = Inr t0"
    and "city_setup seeded b (t0, c0) = (Inr (), t, c)"
  shows "length (city_runs cosine r new_uuid b calls (t, c)) = calls \<and>
    (\<forall>(q, c') \<in> set (city_runs cosine r new_uuid b calls (t, c)). \<exists>x. q = Inr x \<and> delivers b n x c')"
proof -
  have "city_ready t" "cy_batch_size t = n"
    using assms(3,4) by (auto simp: new_city_workload_def bindE_split_Inr city_setup_def city_ready_def split: prod.splits sum.splits)
  then show ?thesis
  proof (induction calls arbitrary: t c)
    case 0
    then show ?case by simp
  next
    case (Suc k)
    obtain x t' c' where x: "city_execute_one cosine r new_uuid b (t, c) = (Inr x, t', c')" "city_ready t'"
      "cy_batch_size t' = n" "delivers b n x c'"
      using city_execute_delivers [OF assms(1,2) Suc.prems(1)] Suc.prems(2) by metis
    from Suc.IH [OF x(2,3)] x show ?case by auto
  qed
qed


definition zero_uuid :: "nat \<Rightarrow> string \<times> nat" where
  "zero_uuid c = (''00000000-0000-0000-0000-000000000000'', c)"

lemma zero_uuid_good: "good_uuids zero_uuid"
  by (simp add: good_uuids_def zero_uuid_def uuid_text_def)

theorem city_workload_delivers_witness:
  "\<exists>t0 t c. new_city_workload (Some [''127.0.0.1:3001'']) None None default_dataset_config 2 (Fin 50) = Inr t0 \<and>
     city_setup nat toy_client (t0, 0) = (Inr (), t, c) \<and>
     (\<forall>(q, c') \<in> set (city_runs (\<lambda>x. Fin 1) counting_rng zero_uuid toy_client 3 (t, c)). \<exists>x. q = Inr x \<and> delivers toy_client 2 x c')"
proof -
  obtain t0 :: "nat city_workload" where t0:
    "new_city_workload (Some [''127.0.0.1:3001'']) None None default_dataset_config 2 (Fin 50) = Inr t0"
    by (simp add: new_city_workload_def normalize_addresses_def)
  obtain t c where s: "city_setup nat toy_client (t0, 0) = (Inr (), t, c)"
    by (simp add: city_setup_def toy_client_def)
  from city_workload_delivers [OF counting_rng_good zero_uuid_good t0 s, of "\<lambda>x. Fin 1" 3] t0 s show ?thesis by blast
qed

end
