(* ===== verification/Ci_Files.thy ===== *)
theory Ci_Files
  imports Py_Json
begin

section \<open>Fixtures, warmup protocols and their validation\<close>

text \<open>
  \<open>test_infrastructure/fixtures/fixture_loader.py\<close>, \<open>ci/warmup_loader.py\<close> and
  \<open>ci/validate_workflows.py\<close>.  A parsed YAML or JSON file is a \<open>json\<close> value; the folder of the
  fixtures is a function from the name of an operation to its file, if there is one.
\<close>

subsection \<open>Dicts and lists that may be something else\<close>

text \<open>\<open>k in v\<close>, \<open>v[k]\<close>, \<open>v.get(k, dflt)\<close>, \<open>v.items()\<close> and \<open>len(v)\<close> for a text \<open>k\<close>.\<close>

definition json_in :: "string \<Rightarrow> json \<Rightarrow> (py_exn, bool) result" where
  "json_in k v =
     (case v of
        JObj d \<Rightarrow> Inr (k \<in> fst ` set d)
      | JList xs \<Rightarrow> Inr (JStr k \<in> set xs)
      | JStr s \<Rightarrow> Inr (contains k s)
      | _ \<Rightarrow> Inl TypeError)"

definition json_at :: "json \<Rightarrow> string \<Rightarrow> (py_exn, json) result" where
  "json_at v k =
     (case v of
        JObj d \<Rightarrow> (case map_of d k of None \<Rightarrow> Inl KeyError | Some x \<Rightarrow> Inr x)
      | _ \<Rightarrow> Inl TypeError)"

definition json_dict :: "json \<Rightarrow> (py_exn, (string \<times> json) list) result" where
  "json_dict v = (case v of JObj d \<Rightarrow> Inr d | _ \<Rightarrow> Inl AttributeError)"

definition json_get_in :: "json \<Rightarrow> string \<Rightarrow> json \<Rightarrow> (py_exn, json) result" where
  "json_get_in v k dflt = bindE (json_dict v) (\<lambda>d. Inr (json_get d k dflt))"

definition json_len :: "json \<Rightarrow> (py_exn, nat) result" where
  "json_len v =
     (case v of JObj d \<Rightarrow> Inr (length d) | JList xs \<Rightarrow> Inr (length xs) | JStr s \<Rightarrow> Inr (length s) | _ \<Rightarrow> Inl TypeError)"

subsection \<open>Fixtures\<close>

record test_case =
  tc_name :: json
  tc_description :: json
  tc_tags :: json
  tc_input :: json
  tc_expected_output :: json
  tc_expected_error :: json

record fixture =
  fx_operation :: json
  fx_version :: json
  fx_description :: json
  fx_cases :: "test_case list"

definition load_case :: "json \<Rightarrow> (py_exn, test_case) result" where
  "load_case v =
     bindE (json_at v ''name'') (\<lambda>name.
     bindE (json_get_in v ''description'' (JStr [])) (\<lambda>description.
     bindE (json_get_in v ''tags'' (JList [])) (\<lambda>tags.
     bindE (json_get_in v ''input'' (JObj [])) (\<lambda>input.
     bindE (json_get_in v ''expected_output'' JNull) (\<lambda>output.
     bindE (json_get_in v ''expected_error'' JNull) (\<lambda>error.
     Inr \<lparr>tc_name = name, tc_description = description, tc_tags = tags, tc_input = input,
          tc_expected_output = output, tc_expected_error = error\<rparr>))))))"

definition read_fixture :: "json \<Rightarrow> (py_exn, fixture) result" where
  "read_fixture data =
     bindE (bindE (json_get_in data ''cases'' (JList [])) json_items) (\<lambda>vs.
     bindE (mapE load_case vs) (\<lambda>cases.
     bindE (json_at data ''operation'') (\<lambda>operation.
     bindE (json_at data ''version'') (\<lambda>version.
     bindE (json_get_in data ''description'' (JStr [])) (\<lambda>description.
     Inr \<lparr>fx_operation = operation, fx_version = version, fx_description = description, fx_cases = cases\<rparr>)))))"

text \<open>A file: its JSON value, \<open>None\<close> when it does not parse.\<close>

type_synonym fixtures_dir = "string \<Rightarrow> json option option"

datatype load_error = File_Not_Found | Json_Decode_Error | Load_Error py_exn

definition load_fixture :: "fixtures_dir \<Rightarrow> string \<Rightarrow> (load_error, fixture) result" where
  "load_fixture dir op =
     (case dir op of
        None \<Rightarrow> Inl File_Not_Found
      | Some None \<Rightarrow> Inl Json_Decode_Error
      | Some (Some data) \<Rightarrow> (case read_fixture data of Inl e \<Rightarrow> Inl (Load_Error e) | Inr f \<Rightarrow> Inr f))"

fun filter_cases :: "string \<Rightarrow> test_case list \<Rightarrow> (py_exn, test_case list) result" where
  "filter_cases tag [] = Inr []"
| "filter_cases tag (c # cs) =
     bindE (json_in tag (tc_tags c)) (\<lambda>yes. bindE (filter_cases tag cs) (\<lambda>rest. Inr (if yes then c # rest else rest)))"

definition filter_cases_by_tag :: "fixture \<Rightarrow> string \<Rightarrow> (py_exn, test_case list) result" where
  "filter_cases_by_tag f tag = filter_cases tag (fx_cases f)"

subsection \<open>Warmup protocols\<close>

record warmup_protocol =
  wp_sdk :: string
  wp_warmup_iterations :: json
  wp_measurement_iterations :: json
  wp_notes :: json

definition protocol_of :: "string \<Rightarrow> json \<Rightarrow> (py_exn, warmup_protocol) result" where
  "protocol_of sdk proto =
     bindE (json_at proto ''warmup_iterations'') (\<lambda>w.
     bindE (json_at proto ''measurement_iterations'') (\<lambda>m.
     bindE (json_get_in proto ''notes'' (JStr [])) (\<lambda>notes.
     Inr \<lparr>wp_sdk = sdk, wp_warmup_iterations = w, wp_measurement_iterations = m, wp_notes = notes\<rparr>)))"

definition load_warmup_protocol :: "json \<Rightarrow> string \<Rightarrow> (py_exn, warmup_protocol) result" where
  "load_warmup_protocol data sdk =
     bindE (json_at data ''protocols'') (\<lambda>protocols.
     bindE (json_in sdk protocols) (\<lambda>known.
     if \<not> known then bindE (json_dict protocols) (\<lambda>d. Inl KeyError)
     else bindE (json_at protocols sdk) (protocol_of sdk)))"

definition load_all_protocols :: "json \<Rightarrow> (py_exn, (string \<times> warmup_protocol) list) result" where
  "load_all_protocols data =
     bindE (bindE (json_at data ''protocols'') json_dict) (\<lambda>d.
     mapE (\<lambda>(sdk, proto). bindE (protocol_of sdk proto) (\<lambda>p. Inr (sdk, p))) d)"

definition get_variance_threshold :: "json \<Rightarrow> (py_exn, json) result" where
  "get_variance_threshold data = bindE (json_at data ''variance_threshold'') (\<lambda>v. json_at v ''acceptable_cv'')"

subsection \<open>Validation\<close>

definition missing_timeout :: "string \<Rightarrow> string \<times> json \<Rightarrow> (py_exn, string list) result" where
  "missing_timeout path entry =
     (case entry of (job_name, job) \<Rightarrow>
        bindE (json_in ''timeout-minutes'' job) (\<lambda>present.
        Inr (if present then [] else [path @ '': Job '' @ [CHR 0x27] @ job_name @ [CHR 0x27] @ '' missing timeout-minutes''])))"

definition validate_workflow :: "string \<Rightarrow> json \<Rightarrow> (py_exn, string list) result" where
  "validate_workflow path workflow =
     (if \<not> json_bool workflow then Inr [path @ '': Empty workflow'']
      else
        bindE (bindE (json_get_in workflow ''jobs'' (JObj [])) json_dict) (\<lambda>jobs.
        bindE (mapE (missing_timeout path) jobs) (\<lambda>errors. Inr (concat errors))))"

definition required_ops :: "string list" where
  "required_ops =
     [''insert'', ''upsert'', ''delete'', ''query-uuid'', ''query-uuid-batch'', ''query-radius'', ''query-polygon'',
      ''query-latest'', ''ping'', ''status'', ''ttl-set'', ''ttl-extend'', ''ttl-clear'', ''topology'']"

definition missing_field :: "string \<Rightarrow> nat \<Rightarrow> json \<Rightarrow> string \<Rightarrow> (py_exn, string list) result" where
  "missing_field path i v field =
     bindE (json_in field v) (\<lambda>present.
     Inr (if present then [] else [path @ '': Case '' @ show_nat i @ '' missing '' @ [CHR 0x27] @ field @ [CHR 0x27]]))"

definition validate_case :: "string \<Rightarrow> nat \<times> json \<Rightarrow> (py_exn, string list) result" where
  "validate_case path entry =
     (case entry of (i, v) \<Rightarrow>
        bindE (mapE (missing_field path i v) [''name'', ''tags'', ''input'']) (\<lambda>errors. Inr (concat errors)))"

definition cases_error :: "string \<Rightarrow> json \<Rightarrow> (py_exn, string list) result" where
  "cases_error path data =
     bindE (json_in ''cases'' data) (\<lambda>present.
     if \<not> present then Inr [path @ '': Missing '' @ [CHR 0x27] @ ''cases'' @ [CHR 0x27] @ '' array'']
     else
       bindE (bindE (json_at data ''cases'') json_len) (\<lambda>n.
       Inr (if n = 0 then [path @ '': Empty '' @ [CHR 0x27] @ ''cases'' @ [CHR 0x27] @ '' array''] else [])))"

definition validate_fixture :: "string \<Rightarrow> json \<Rightarrow> (py_exn, string list) result" where
  "validate_fixture path data =
     bindE (cases_error path data) (\<lambda>first.
     bindE (bindE (json_get_in data ''cases'' (JList [])) json_items) (\<lambda>vs.
     bindE (mapE (validate_case path) (enumerate 0 vs)) (\<lambda>errors. Inr (first @ concat errors))))"

text \<open>\<open>decode_error\<close> is the text of the parser's error.\<close>

definition validate_op :: "fixtures_dir \<Rightarrow> string \<Rightarrow> string \<Rightarrow> string \<Rightarrow> (py_exn, string list) result" where
  "validate_op dir folder_name decode_error op =
     (let path = folder_name @ ''/'' @ op @ ''.json'' in
      case dir op of
        None \<Rightarrow> Inr [''Missing fixture: '' @ path]
      | Some None \<Rightarrow> Inr [path @ '': Invalid JSON - '' @ decode_error]
      | Some (Some data) \<Rightarrow> validate_fixture path data)"

definition validate_fixtures :: "fixtures_dir \<Rightarrow> string \<Rightarrow> string \<Rightarrow> (py_exn, string list) result" where
  "validate_fixtures dir folder_name decode_error =
     bindE (mapE (validate_op dir folder_name decode_error) required_ops) (\<lambda>errors. Inr (concat errors))"

text \<open>The exit code of the script: \<open>None\<close> for a workflow file or a folder that is missing.\<close>

definition validate_all ::
    "(string \<times> json option) list \<Rightarrow> fixtures_dir option \<Rightarrow> string \<Rightarrow> string \<Rightarrow> (py_exn, int \<times> string list) result" where
  "validate_all workflows fixtures folder_name decode_error =
     bindE (mapE (\<lambda>(path, file). case file of
         None \<Rightarrow> Inr [''Missing workflow: '' @ path] | Some w \<Rightarrow> validate_workflow path w) workflows) (\<lambda>a.
     bindE (case fixtures of
         None \<Rightarrow> Inr [''Missing fixtures directory: '' @ folder_name]
       | Some dir \<Rightarrow> validate_fixtures dir folder_name decode_error) (\<lambda>b.
     let errors = concat a @ b in Inr (if errors = [] then 0 else 1, errors)))"


subsection \<open>The loaders of one protocol and of all agree\<close>

lemma map_of_protocols:
  "mapE (\<lambda>(sdk, proto). bindE (protocol_of sdk proto) (\<lambda>p. Inr (sdk, p))) d = Inr ps \<Longrightarrow>
     (case map_of d sdk of None \<Rightarrow> map_of ps sdk = None | Some proto \<Rightarrow> \<exists>p. protocol_of sdk proto = Inr p \<and> map_of ps sdk = Some p)"
proof (induction d arbitrary: ps)
  case Nil
  then show ?case by simp
next
  case (Cons x d)
  obtain k proto where x: "x = (k, proto)" by (metis surj_pair)
  from Cons.prems obtain p qs where p: "protocol_of k proto = Inr p"
    "mapE (\<lambda>(sdk, proto). bindE (protocol_of sdk proto) (\<lambda>p. Inr (sdk, p))) d = Inr qs" "ps = (k, p) # qs"
    by (auto simp: x bindE_split_Inr)
  with Cons.IH [OF p(2)] show ?case by (auto simp: x split: option.splits)
qed

lemma json_in_obj: "json_in k (JObj d) = Inr (map_of d k \<noteq> None)"
  by (simp add: json_in_def map_of_eq_None_iff)

lemma json_at_obj: "json_at (JObj d) k = (case map_of d k of None \<Rightarrow> Inl KeyError | Some x \<Rightarrow> Inr x)"
  by (simp add: json_at_def)

text \<open>When all protocols load, loading that of one SDK yields its entry among them, and raises
  \<open>KeyError\<close> exactly for an SDK without one.\<close>

theorem one_protocol_is_one_of_all:
  assumes "load_all_protocols data = Inr ps"
  shows "load_warmup_protocol data sdk = (case map_of ps sdk of None \<Rightarrow> Inl KeyError | Some p \<Rightarrow> Inr p)"
proof -
  obtain v d where d: "json_at data ''protocols'' = Inr v" "json_dict v = Inr d"
    "mapE (\<lambda>(sdk, proto). bindE (protocol_of sdk proto) (\<lambda>p. Inr (sdk, p))) d = Inr ps"
    using assms by (auto simp: load_all_protocols_def bindE_split_Inr)
  have v: "v = JObj d" using d(2) by (auto simp: json_dict_def split: json.splits)
  show ?thesis
    using map_of_protocols [OF d(3), of sdk] d(1)
    by (auto simp: load_warmup_protocol_def v json_in_obj json_at_obj json_dict_def split: option.splits)
qed

subsection \<open>What validation promises\<close>

definition good_case :: "json \<Rightarrow> bool" where
  "good_case v \<longleftrightarrow> list_all (\<lambda>field. json_in field v = Inr True) [''name'', ''tags'', ''input'']"

definition good_fixture :: "json \<Rightarrow> bool" where
  "good_fixture data \<longleftrightarrow>
     (\<exists>d v vs. data = JObj d \<and> map_of d ''cases'' = Some v \<and> json_items v = Inr vs \<and> vs \<noteq> [] \<and> list_all good_case vs)"

lemma mapE_nothing: "(bindE (mapE f xs) (\<lambda>es. Inr (concat es)) = Inr []) \<longleftrightarrow> (\<forall>x \<in> set xs. f x = Inr [])"
proof (induction xs)
  case Nil
  then show ?case by simp
next
  case (Cons x xs)
  then show ?case by (cases "f x"; cases "mapE f xs") auto
qed

lemma missing_field_nothing: "missing_field path i v field = Inr [] \<longleftrightarrow> json_in field v = Inr True"
  by (auto simp: missing_field_def bindE_split_Inr split: if_splits)

lemma validate_case_nothing: "validate_case path (i, v) = Inr [] \<longleftrightarrow> good_case v"
  unfolding validate_case_def prod.case mapE_nothing good_case_def list_all_iff missing_field_nothing ..

lemma cases_error_nothing:
  "cases_error path data = Inr [] \<longleftrightarrow>
     json_in ''cases'' data = Inr True \<and> (\<exists>v n. json_at data ''cases'' = Inr v \<and> json_len v = Inr n \<and> 0 < n)"
  by (auto simp: cases_error_def bindE_split_Inr split: if_splits)

lemma json_len_items: "json_items v = Inr vs \<Longrightarrow> json_len v = Inr n \<longleftrightarrow> n = length vs"
  by (cases v) (auto simp: json_len_def)

lemma all_cases_nothing:
  "(\<forall>x \<in> set (enumerate 0 vs). validate_case path x = Inr []) \<longleftrightarrow> list_all good_case vs"
proof
  assume a: "\<forall>x \<in> set (enumerate 0 vs). validate_case path x = Inr []"
  show "list_all good_case vs" unfolding list_all_length
  proof (intro allI impI)
    fix n assume "n < length vs"
    then have "(n, vs ! n) \<in> set (enumerate 0 vs)" by (simp add: in_set_enumerate_eq)
    with a show "good_case (vs ! n)" using validate_case_nothing by blast
  qed
next
  assume "list_all good_case vs"
  then show "\<forall>x \<in> set (enumerate 0 vs). validate_case path x = Inr []"
    by (auto simp: list_all_length in_set_enumerate_eq validate_case_nothing)
qed

lemma validate_fixture_nothing: "validate_fixture path data = Inr [] \<longleftrightarrow> good_fixture data"
proof -
  have "validate_fixture path data = Inr [] \<longleftrightarrow> cases_error path data = Inr [] \<and>
      (\<exists>v vs. json_get_in data ''cases'' (JList []) = Inr v \<and> json_items v = Inr vs \<and> (\<forall>x \<in> set (enumerate 0 vs). validate_case path x = Inr []))"
    unfolding mapE_nothing [symmetric] by (auto simp: validate_fixture_def bindE_split_Inr)
  then show ?thesis
    unfolding all_cases_nothing
    by (cases data)
      (auto simp: good_fixture_def cases_error_nothing json_get_in_def json_dict_def json_get_def json_at_obj json_in_obj
        json_len_items split: option.splits)
qed

lemma validate_fixtures_nothing:
  "validate_fixtures dir name err = Inr [] \<longleftrightarrow> (\<forall>op \<in> set required_ops. \<exists>data. dir op = Some (Some data) \<and> good_fixture data)"
proof -
  have "validate_op dir name err op = Inr [] \<longleftrightarrow> (\<exists>data. dir op = Some (Some data) \<and> good_fixture data)" for op
    by (auto simp: validate_op_def Let_def validate_fixture_nothing split: option.splits)
  then show ?thesis unfolding validate_fixtures_def mapE_nothing by simp
qed


definition is_object :: "json \<Rightarrow> bool" where
  "is_object v = (case v of JObj d \<Rightarrow> True | _ \<Rightarrow> False)"

lemma good_case_loads:
  assumes "good_case v" and "is_object v"
  shows "\<exists>c. load_case v = Inr c"
proof -
  obtain d where v: "v = JObj d" using assms(2) by (auto simp: is_object_def split: json.splits)
  obtain name where "map_of d ''name'' = Some name" using assms(1) by (auto simp: good_case_def v json_in_obj)
  then show ?thesis by (simp add: load_case_def v json_at_obj json_get_in_def json_dict_def)
qed

lemma good_cases_load:
  assumes "list_all good_case vs" and "list_all is_object vs"
  shows "\<exists>cs. mapE load_case vs = Inr cs \<and> length cs = length vs"
proof -
  have "\<exists>cs. mapE load_case vs = Inr cs" using assms
  proof (induction vs)
    case Nil
    then show ?case by simp
  next
    case (Cons v vs)
    then show ?case using good_case_loads [of v] by auto
  qed
  then show ?thesis using mapE_length by blast
qed

text \<open>When validation reports nothing, every required operation has a fixture file with cases.  If its
  cases are objects, loading the fixture gives one test case per case of the file when the file
  names its operation and version, and raises \<open>KeyError\<close> when it does not: validation does not
  look at these two fields.\<close>

theorem validated_fixtures_load:
  assumes "validate_fixtures dir folder_name err = Inr []" and "op \<in> set required_ops"
  shows "\<exists>d v vs. dir op = Some (Some (JObj d)) \<and> map_of d ''cases'' = Some v \<and> json_items v = Inr vs \<and> vs \<noteq> [] \<and>
    (list_all is_object vs \<longrightarrow>
       (if map_of d ''operation'' \<noteq> None \<and> map_of d ''version'' \<noteq> None
        then \<exists>f. load_fixture dir op = Inr f \<and> length (fx_cases f) = length vs
        else load_fixture dir op = Inl (Load_Error KeyError)))"
proof -
  from assms obtain data where data: "dir op = Some (Some data)" "good_fixture data"
    unfolding validate_fixtures_nothing by blast
  then obtain d v vs where d: "data = JObj d" "map_of d ''cases'' = Some v" "json_items v = Inr vs" "vs \<noteq> []" "list_all good_case vs"
    unfolding good_fixture_def by blast
  have "if map_of d ''operation'' \<noteq> None \<and> map_of d ''version'' \<noteq> None
        then \<exists>f. load_fixture dir op = Inr f \<and> length (fx_cases f) = length vs
        else load_fixture dir op = Inl (Load_Error KeyError)" if o: "list_all is_object vs"
  proof -
    obtain cs where "mapE load_case vs = Inr cs" "length cs = length vs" using good_cases_load [OF d(5) o] by blast
    with data d(1-3) show ?thesis
      by (auto simp: load_fixture_def read_fixture_def json_get_in_def json_dict_def json_get_def json_at_obj split: option.splits)
  qed
  with data d show ?thesis by blast
qed

definition plain_fixture :: json where
  "plain_fixture = JObj [(''operation'', JStr ''ping''), (''version'', JStr ''1''),
     (''cases'', JList [JObj [(''name'', JStr ''a''), (''tags'', JList [JStr ''smoke'']), (''input'', JObj [])]])]"

theorem validated_fixtures_load_witness:
  "\<exists>f. load_fixture (\<lambda>op. Some (Some plain_fixture)) ''ping'' = Inr f \<and> length (fx_cases f) = 1"
proof -
  have g: "good_fixture plain_fixture"
    by (simp add: good_fixture_def plain_fixture_def good_case_def json_in_def)
  have v: "validate_fixtures (\<lambda>op. Some (Some plain_fixture)) ''v1'' [] = Inr []"
    unfolding validate_fixtures_nothing using g by simp
  have "''ping'' \<in> set required_ops" by (simp add: required_ops_def)
  from validated_fixtures_load [OF v this] show ?thesis
    by (auto simp: plain_fixture_def is_object_def)
qed

theorem one_protocol_is_one_of_all_witness:
  "load_warmup_protocol (JObj [(''protocols'', JObj [])]) ''go'' = Inl KeyError"
  using one_protocol_is_one_of_all [of "JObj [(''protocols'', JObj [])]" "[]" "''go''"]
  by (simp add: load_all_protocols_def json_at_def json_dict_def)

text \<open>A workflow passes exactly when it is not empty and each of its jobs has a timeout.\<close>

theorem valid_workflow_has_timeouts:
  "validate_workflow path (JObj w) = Inr [] \<longleftrightarrow>
     w \<noteq> [] \<and> (\<exists>jobs. json_get w ''jobs'' (JObj []) = JObj jobs \<and>
       (\<forall>(name, job) \<in> set jobs. json_in ''timeout-minutes'' job = Inr True))"
proof -
  have one: "missing_timeout path e = Inr [] \<longleftrightarrow> json_in ''timeout-minutes'' (snd e) = Inr True" for e
    by (cases e) (auto simp: missing_timeout_def bindE_split_Inr split: if_splits)
  have "validate_workflow path (JObj w) = Inr [] \<longleftrightarrow> w \<noteq> [] \<and>
      (\<exists>jobs. json_get w ''jobs'' (JObj []) = JObj jobs \<and> bindE (mapE (missing_timeout path) jobs) (\<lambda>es. Inr (concat es)) = Inr [])"
    by (auto simp: validate_workflow_def json_get_in_def json_dict_def bindE_split_Inr split: json.splits)
  then show ?thesis unfolding mapE_nothing one by (auto simp: case_prod_unfold)
qed

end
