(* ===== verification/Bench_Output.thy ===== *)
theory Bench_Output
  imports Bench_Report
begin

section \<open>Reading the text of a benchmark\<close>

text \<open>
  \<open>.github/ci/parse-benchmark.py\<close> and the regular expressions of \<open>re\<close> it needs: a match is a
  list of candidates in the order in which backtracking finds them, each with the text of the
  group, if one took part, and the rest of the input.
\<close>

subsection \<open>Regular expressions\<close>

datatype re =
    Re_Empty
  | Re_Char "char \<Rightarrow> bool"
  | Re_Star "char \<Rightarrow> bool"
  | Re_Seq re re
  | Re_Alt re re
  | Re_Opt re
  | Re_Group re

definition later_group :: "string option \<Rightarrow> string option \<Rightarrow> string option" where
  "later_group a b = (case b of None \<Rightarrow> a | Some g \<Rightarrow> Some g)"

fun matches :: "re \<Rightarrow> string \<Rightarrow> (string option \<times> string) list" where
  "matches Re_Empty s = [(None, s)]"
| "matches (Re_Char p) s = (case s of [] \<Rightarrow> [] | c # cs \<Rightarrow> if p c then [(None, cs)] else [])"
| "matches (Re_Star p) s = map (\<lambda>n. (None, drop n s)) (rev [0..<Suc (length (takeWhile p s))])"
| "matches (Re_Seq r q) s =
     concat (map (\<lambda>(g, rest). map (\<lambda>(h, rest'). (later_group g h, rest')) (matches q rest)) (matches r s))"
| "matches (Re_Alt r q) s = matches r s @ matches q s"
| "matches (Re_Opt r) s = matches r s @ [(None, s)]"
| "matches (Re_Group r) s = map (\<lambda>(g, rest). (Some (take (length s - length rest) s), rest)) (matches r s)"

text \<open>\<open>re.search\<close>: the first candidate at the first position that has one; the text of the group.\<close>

fun search :: "re \<Rightarrow> string \<Rightarrow> string option option" where
  "search r [] = (case matches r [] of [] \<Rightarrow> None | (g, rest) # _ \<Rightarrow> Some g)"
| "search r (c # s) = (case matches r (c # s) of [] \<Rightarrow> search r s | (g, rest) # _ \<Rightarrow> Some g)"

text \<open>With \<open>re.IGNORECASE\<close>.\<close>

definition re_char :: "char \<Rightarrow> re" where
  "re_char c = Re_Char (\<lambda>d. lower_char d = lower_char c)"

definition re_text :: "string \<Rightarrow> re" where
  "re_text s = foldr (\<lambda>c r. Re_Seq (re_char c) r) s Re_Empty"

definition re_all :: "re list \<Rightarrow> re" where
  "re_all rs = foldr Re_Seq rs Re_Empty"

definition re_plus :: "(char \<Rightarrow> bool) \<Rightarrow> re" where
  "re_plus p = Re_Seq (Re_Char p) (Re_Star p)"

definition re_spaces :: re where "re_spaces = Re_Star is_space"

definition re_spaces1 :: re where "re_spaces1 = re_plus is_space"

definition re_equals :: re where "re_equals = Re_Char (\<lambda>c. c = CHR ''='' \<or> c = CHR '':'')"

text \<open>\<open>(\d+(?:,\d+)?)\<close> and \<open>(\d+(?:\.\d+)?)\<close>.\<close>

definition re_count :: re where
  "re_count = Re_Group (Re_Seq (re_plus is_digit) (Re_Opt (Re_Seq (re_char CHR '','') (re_plus is_digit))))"

definition re_decimal :: re where
  "re_decimal = Re_Group (Re_Seq (re_plus is_digit) (Re_Opt (Re_Seq (re_char CHR ''.'') (re_plus is_digit))))"

subsection \<open>The patterns\<close>

definition throughput_re :: re where
  "throughput_re = re_all [re_text ''throughput'', re_spaces, re_equals, re_spaces, re_count, re_spaces, re_text ''events/s'']"

definition latency_re :: "re list \<Rightarrow> re" where
  "latency_re label =
     re_all (label @ [re_spaces, re_equals, re_spaces, re_decimal, re_spaces, Re_Alt (re_text ''ms'') (re_text ''us'')])"

definition insert_p99_re :: re where
  "insert_p99_re = latency_re [re_text ''insert'', re_spaces1, Re_Opt (Re_Seq (re_text ''batch'') re_spaces1),
     re_text ''latency'', re_spaces1, re_text ''p99'']"

definition query_p99_re :: "re \<Rightarrow> re" where
  "query_p99_re kind = latency_re [kind, re_spaces1, re_text ''query'', re_spaces1,
     Re_Opt (Re_Seq (re_text ''latency'') re_spaces1), re_text ''p99'']"

definition memory_unit_re :: re where
  "memory_unit_re = Re_Alt (re_text ''MB'') (re_text ''GB'')"

definition memory_re :: re where
  "memory_re = re_all [re_text ''peak'', re_spaces1, re_text ''memory'', re_spaces, re_equals, re_spaces, re_decimal,
     re_spaces, memory_unit_re]"

definition events_re :: re where
  "events_re = re_all [re_text ''total'', re_spaces1, re_text ''events'', re_spaces, re_equals, re_spaces, re_count]"

subsection \<open>The metrics\<close>

record parsed_metric =
  pm_name :: string
  pm_unit :: string
  pm_value :: json
  pm_bigger_is_better :: bool

definition group_text :: "string option \<Rightarrow> string" where
  "group_text g = (case g of None \<Rightarrow> [] | Some s \<Rightarrow> s)"

definition count_value :: "string option \<Rightarrow> (py_exn, json) result" where
  "count_value g = bindE (int_of_string (filter (\<lambda>c. c \<noteq> CHR '','') (group_text g))) (\<lambda>n. Inr (JInt n))"

definition decimal_value :: "string option \<Rightarrow> (py_exn, json) result" where
  "decimal_value g = bindE (float_of_string (group_text g)) (\<lambda>x. Inr (JFloat x))"

definition metric_of ::
    "string \<Rightarrow> re \<Rightarrow> string \<Rightarrow> string \<Rightarrow> bool \<Rightarrow> (string option \<Rightarrow> (py_exn, json) result) \<Rightarrow> (py_exn, parsed_metric list) result" where
  "metric_of content r name unit_text bigger f =
     (case search r content of
        None \<Rightarrow> Inr []
      | Some g \<Rightarrow> bindE (f g) (\<lambda>v. Inr [\<lparr>pm_name = name, pm_unit = unit_text, pm_value = v, pm_bigger_is_better = bigger\<rparr>]))"

text \<open>The unit of the memory is the first one anywhere in the text.\<close>

definition memory_value :: "string \<Rightarrow> string option \<Rightarrow> (py_exn, json) result" where
  "memory_value content g =
     bindE (float_of_string (group_text g)) (\<lambda>x.
     Inr (JFloat (case search (Re_Group memory_unit_re) content of
        Some u \<Rightarrow> if py_lower (group_text u) = ''gb'' then f_mul x (Fin 1024) else x
      | None \<Rightarrow> x)))"

text \<open>A missing file gives no metrics.\<close>

definition parse_benchmark :: "string option \<Rightarrow> (py_exn, parsed_metric list) result" where
  "parse_benchmark file =
     (case file of
        None \<Rightarrow> Inr []
      | Some s \<Rightarrow>
          bindE (metric_of s throughput_re ''Insert Throughput'' ''events/s'' True count_value) (\<lambda>a.
          bindE (metric_of s insert_p99_re ''Insert p99 Latency'' ''ms'' False decimal_value) (\<lambda>b.
          bindE (metric_of s (query_p99_re (Re_Alt (re_text ''uuid'') (re_text ''point''))) ''UUID Query p99 Latency'' ''ms''
            False decimal_value) (\<lambda>c.
          bindE (metric_of s (query_p99_re (re_text ''radius'')) ''Radius Query p99 Latency'' ''ms'' False decimal_value) (\<lambda>d.
          bindE (metric_of s (query_p99_re (re_text ''polygon'')) ''Polygon Query p99 Latency'' ''ms'' False decimal_value) (\<lambda>e.
          bindE (metric_of s memory_re ''Peak Memory'' ''MB'' False (memory_value s)) (\<lambda>f.
          bindE (metric_of s events_re ''Total Events'' ''count'' False count_value) (\<lambda>g.
          Inr (a @ b @ c @ d @ e @ f @ g)))))))))"


subsection \<open>The first candidate\<close>

definition goes :: "re \<Rightarrow> string \<Rightarrow> string option \<Rightarrow> string \<Rightarrow> bool" where
  "goes r s g rest \<longleftrightarrow> (\<exists>more. matches r s = (g, rest) # more)"

named_theorems re_steps

lemma goes_empty [re_steps]: "goes Re_Empty s None s"
  by (simp add: goes_def)

lemma goes_char [re_steps]: "p c \<Longrightarrow> goes (Re_Char p) (c # s) None s"
  by (simp add: goes_def)

lemma goes_star: "goes (Re_Star p) s None (dropWhile p s)"
  by (simp add: goes_def dropWhile_eq_drop)

lemma goes_seq: "goes r s g rest \<Longrightarrow> goes q rest h rest' \<Longrightarrow> goes (Re_Seq r q) s (later_group g h) rest'"
  by (auto simp: goes_def)

lemma goes_opt: "goes r s g rest \<Longrightarrow> goes (Re_Opt r) s g rest"
  by (auto simp: goes_def)

lemma goes_opt_skip: "matches r s = [] \<Longrightarrow> goes (Re_Opt r) s None s"
  by (simp add: goes_def)

lemma goes_group: "goes r (u @ rest) g rest \<Longrightarrow> goes (Re_Group r) (u @ rest) (Some u) rest"
  by (auto simp: goes_def)

lemma goes_text: "map lower_char v = map lower_char w \<Longrightarrow> goes (re_text w) (v @ s) None s"
proof (induction w arbitrary: v)
  case Nil
  then show ?case by (simp add: re_text_def goes_def)
next
  case (Cons c w)
  then obtain d v' where v: "v = d # v'" "lower_char d = lower_char c" "map lower_char v' = map lower_char w"
    by (cases v) auto
  have "goes (re_char c) (v @ s) None (v' @ s)" unfolding re_char_def v(1) by (simp add: goes_char v(2))
  from goes_seq [OF this Cons.IH [OF v(3)]] show ?case by (simp add: re_text_def later_group_def)
qed

lemma goes_plus:
  assumes "list_all p ds" and "ds \<noteq> []" and "rest = [] \<or> \<not> p (hd rest)"
  shows "goes (re_plus p) (ds @ rest) None rest"
proof -
  obtain d es where ds: "ds = d # es" using assms(2) by (cases ds) auto
  have "dropWhile p (es @ rest) = rest"
    using assms(1,3) ds by (cases rest) (auto simp: list_all_iff dropWhile_append2)
  then have "goes (Re_Star p) (es @ rest) None rest" using goes_star [of p "es @ rest"] by simp
  moreover have "goes (Re_Char p) (ds @ rest) None (es @ rest)" using assms(1) by (simp add: ds goes_char)
  ultimately show ?thesis unfolding re_plus_def using goes_seq by (metis later_group_def option.simps(4))
qed

lemma goes_all_Nil: "goes (re_all []) s None s"
  by (simp add: re_all_def goes_empty)

lemma goes_all_Cons: "goes r s g rest \<Longrightarrow> goes (re_all rs) rest h rest' \<Longrightarrow> goes (re_all (r # rs)) s (later_group g h) rest'"
  using goes_seq by (fastforce simp: re_all_def)

lemma later_group_simps [simp]: "later_group a None = a" "later_group a (Some g) = Some g"
  by (simp_all add: later_group_def)

text \<open>The search passes over positions without a candidate.\<close>

lemma search_here: "goes r s g rest \<Longrightarrow> search r s = Some g"
  by (cases s) (auto simp: goes_def)

lemma search_skips: "\<forall>c s. c \<in> set pre \<longrightarrow> matches r (c # s) = [] \<Longrightarrow> search r (pre @ s) = search r s"
  by (induction pre) auto

lemma matches_text_first:
  "lower_char c \<noteq> lower_char d \<Longrightarrow> matches (re_all (re_text (d # w) # rs)) (c # s) = []"
  by (simp add: re_all_def re_text_def re_char_def)

lemma search_after:
  assumes "CHR ''t'' \<notin> set (py_lower pre)"
  shows "search (re_all (re_text (CHR ''t'' # w) # rs)) (pre @ s) = search (re_all (re_text (CHR ''t'' # w) # rs)) s"
proof (rule search_skips, intro allI impI)
  fix c s' assume "c \<in> set pre"
  then have "lower_char c \<noteq> CHR ''t''" using assms unfolding py_lower_def set_map by (metis image_eqI)
  moreover have "lower_char CHR ''t'' = CHR ''t''" by code_simp
  ultimately show "matches (re_all (re_text (CHR ''t'' # w) # rs)) (c # s') = []"
    by (intro matches_text_first) simp
qed

text \<open>A count with at most one separator is read to its end, one with more up to the second.\<close>

definition digits :: "string \<Rightarrow> bool" where
  "digits ds \<longleftrightarrow> ds \<noteq> [] \<and> list_all is_digit ds"

lemma comma_no_digit: "\<not> is_digit CHR '',''" "lower_char CHR '','' = CHR '',''"
  by code_simp+

lemma goes_count_plain:
  assumes "digits ds" and "rest = [] \<or> \<not> is_digit (hd rest) \<and> lower_char (hd rest) \<noteq> CHR '',''"
  shows "goes re_count (ds @ rest) (Some ds) rest"
proof -
  have "goes (re_plus is_digit) (ds @ rest) None rest"
    using assms by (intro goes_plus) (auto simp: digits_def)
  moreover have "matches (Re_Seq (re_char CHR '','') (re_plus is_digit)) rest = []"
    using assms(2) comma_no_digit(2) by (cases rest) (auto simp: re_char_def)
  ultimately have "goes (Re_Seq (re_plus is_digit) (Re_Opt (Re_Seq (re_char CHR '','') (re_plus is_digit)))) (ds @ rest) None rest"
    using goes_seq goes_opt_skip by fastforce
  then show ?thesis unfolding re_count_def by (rule goes_group)
qed

lemma goes_count_grouped:
  assumes "digits ds" and "digits es" and "rest = [] \<or> \<not> is_digit (hd rest)"
  shows "goes re_count ((ds @ CHR '','' # es) @ rest) (Some (ds @ CHR '','' # es)) rest"
proof -
  let ?comma = "re_char CHR '',''" and ?plus = "re_plus is_digit"
  have a: "goes ?plus (ds @ CHR '','' # es @ rest) None (CHR '','' # es @ rest)"
    using assms(1) comma_no_digit(1) by (intro goes_plus) (auto simp: digits_def)
  have "goes ?comma (CHR '','' # es @ rest) None (es @ rest)" unfolding re_char_def by (simp add: goes_char)
  moreover have "goes ?plus (es @ rest) None rest" using assms(2,3) by (intro goes_plus) (auto simp: digits_def)
  ultimately have "goes (Re_Seq ?comma ?plus) (CHR '','' # es @ rest) None rest" using goes_seq by fastforce
  then have "goes (Re_Opt (Re_Seq ?comma ?plus)) (CHR '','' # es @ rest) None rest" by (rule goes_opt)
  with a have "goes (Re_Seq ?plus (Re_Opt (Re_Seq ?comma ?plus))) ((ds @ CHR '','' # es) @ rest) None rest"
    using goes_seq by fastforce
  then show ?thesis unfolding re_count_def by (rule goes_group)
qed


subsection \<open>What is read back\<close>

lemma goes_spaces:
  assumes "list_all is_space sp" and "rest = [] \<or> \<not> is_space (hd rest)"
  shows "goes re_spaces (sp @ rest) None rest"
proof -
  have "dropWhile is_space (sp @ rest) = rest"
    using assms by (cases rest) (auto simp: list_all_iff dropWhile_append2)
  then show ?thesis using goes_star [of is_space "sp @ rest"] by (simp add: re_spaces_def)
qed

lemma goes_label: "py_lower v = w \<Longrightarrow> py_lower w = w \<Longrightarrow> goes (re_text w) (v @ s) None s"
  by (rule goes_text) (simp add: py_lower_def)

lemma lower_labels:
  "py_lower ''throughput'' = ''throughput''" "py_lower ''events/s'' = ''events/s''" "py_lower ''total'' = ''total''"
  "py_lower ''events'' = ''events''"
  by code_simp+

lemma goes_spaces1:
  "list_all is_space sp \<Longrightarrow> sp \<noteq> [] \<Longrightarrow> rest = [] \<or> \<not> is_space (hd rest) \<Longrightarrow> goes re_spaces1 (sp @ rest) None rest"
  unfolding re_spaces1_def by (rule goes_plus)

lemma goes_equals: "c = CHR ''='' \<or> c = CHR '':'' \<Longrightarrow> goes re_equals (c # s) None s"
  unfolding re_equals_def by (rule goes_char)

lemma digit_no_space: "is_digit c \<Longrightarrow> \<not> is_space c"
  by (auto simp: is_digit_def is_space_def Let_def)

lemma equals_no_space: "\<not> is_space CHR ''=''" "\<not> is_space CHR '':''"
  by code_simp+

lemma hd_digits: "digits ds \<Longrightarrow> is_digit (hd (ds @ s))"
  by (cases ds) (auto simp: digits_def)

text \<open>A label, a sign and a number behind it: the parts of a line up to its count.\<close>

definition line_to :: "string \<Rightarrow> string \<Rightarrow> char \<Rightarrow> string \<Rightarrow> string \<Rightarrow> string" where
  "line_to label sp sign sp' rest = label @ sp @ sign # sp' @ rest"

definition gaps :: "string \<Rightarrow> char \<Rightarrow> string \<Rightarrow> bool" where
  "gaps sp sign sp' \<longleftrightarrow> list_all is_space sp \<and> list_all is_space sp' \<and> (sign = CHR ''='' \<or> sign = CHR '':'')"

lemma goes_to_count:
  assumes "gaps sp sign sp'" and "is_digit (hd num)" and "num \<noteq> []"
    and count: "goes re_count (num @ rest) (Some g) rest'" and tail: "goes (re_all rs) rest' None end_text"
  shows "goes (re_all ([re_spaces, re_equals, re_spaces, re_count] @ rs)) (sp @ sign # sp' @ num @ rest) (Some g) end_text"
proof -
  have "goes re_spaces (sp @ sign # sp' @ num @ rest) None (sign # sp' @ num @ rest)"
    using assms(1) equals_no_space by (intro goes_spaces) (auto simp: gaps_def)
  moreover have "goes re_equals (sign # sp' @ num @ rest) None (sp' @ num @ rest)"
    using assms(1) by (intro goes_equals) (simp add: gaps_def)
  moreover have "goes re_spaces (sp' @ num @ rest) None (num @ rest)"
    using assms(1-3) digit_no_space by (intro goes_spaces) (auto simp: gaps_def)
  ultimately show ?thesis
    using count tail goes_all_Cons by (metis append_Cons append_Nil later_group_simps)
qed

definition count_text :: "string \<Rightarrow> int \<Rightarrow> bool" where
  "count_text num n \<longleftrightarrow>
     (digits num \<and> n = int (read_nat num)) \<or>
     (\<exists>a b. digits a \<and> digits b \<and> num = a @ CHR '','' # b \<and> n = int (read_nat (a @ b)))"

lemma digit_facts: "is_digit c \<Longrightarrow> c \<noteq> CHR '','' \<and> \<not> is_space c \<and> c \<noteq> CHR ''_'' \<and> c \<noteq> CHR ''-'' \<and> c \<noteq> CHR ''+''"
  by (auto simp: is_digit_def is_space_def Let_def)

lemma digits_no_comma: "digits ds \<Longrightarrow> filter (\<lambda>c. c \<noteq> CHR '','') ds = ds"
  using digit_facts by (auto simp: digits_def list_all_iff filter_id_conv)

lemma underscores_ok_digits: "list_all is_digit ds \<Longrightarrow> underscores_ok b ds"
  by (induction ds arbitrary: b) (auto dest: digit_facts)

lemma int_of_digits: "digits ds \<Longrightarrow> int_of_string ds = Inr (int (read_nat ds))"
proof -
  assume ds: "digits ds"
  then have sp: "\<forall>c \<in> set ds. \<not> is_space c" and ne: "ds \<noteq> []" using digit_facts by (auto simp: digits_def list_all_iff)
  then have "dropWhile is_space ds = ds" "dropWhile is_space (rev ds) = rev ds"
    by (simp_all add: dropWhile_eq_self_iff hd_rev)
  then have "strip ds = ds" by (simp add: strip_def lstrip_def rstrip_def)
  moreover have "ungroup ds = Some ds"
    using ds underscores_ok_digits digit_facts by (auto simp: ungroup_def digits_def filter_id_conv list_all_iff)
  moreover have "split_sign ds = (False, ds)"
    using ds digit_facts by (cases ds) (auto simp: split_sign_def digits_def)
  ultimately show ?thesis using ds by (simp add: int_of_string_def digits_def)
qed

lemma count_text_value: "count_text num n \<Longrightarrow> count_value (Some num) = Inr (JInt n)"
proof -
  assume "count_text num n"
  then consider "digits num" "n = int (read_nat num)"
    | a b where "digits a" "digits b" "num = a @ CHR '','' # b" "n = int (read_nat (a @ b))"
    unfolding count_text_def by blast
  then show ?thesis
  proof cases
    case 1
    then show ?thesis by (simp add: count_value_def group_text_def digits_no_comma int_of_digits)
  next
    case 2
    have "digits (a @ b)" using 2(1,2) by (simp add: digits_def)
    with 2 show ?thesis by (simp add: count_value_def group_text_def digits_no_comma int_of_digits)
  qed
qed

lemma goes_count_text:
  assumes "count_text num n" and "rest = [] \<or> \<not> is_digit (hd rest) \<and> lower_char (hd rest) \<noteq> CHR '',''"
  shows "goes re_count (num @ rest) (Some num) rest"
  using assms goes_count_plain [of num rest] goes_count_grouped [of _ _ rest] unfolding count_text_def by fastforce

lemma count_text_hd: "count_text num n \<Longrightarrow> num \<noteq> [] \<and> is_digit (hd num)"
  unfolding count_text_def digits_def by (elim disjE exE conjE) (auto simp: list_all_iff)

text \<open>The throughput of a benchmark, printed with or without one thousands separator, is read
  back, whatever stands before it (as long as it holds no letter t), whatever follows, and
  however the parts of the line are spaced and capitalised.\<close>

theorem throughput_is_read_back:
  assumes "CHR ''t'' \<notin> set (py_lower pre)" and "py_lower label = ''throughput''" and "gaps sp sign sp'"
    and "count_text num n" and "list_all is_space sp''" and "py_lower unit_text = ''events/s''"
  shows "metric_of (pre @ line_to label sp sign sp' (num @ sp'' @ unit_text @ post)) throughput_re
      ''Insert Throughput'' ''events/s'' True count_value =
    Inr [\<lparr>pm_name = ''Insert Throughput'', pm_unit = ''events/s'', pm_value = JInt n, pm_bigger_is_better = True\<rparr>]"
proof -
  obtain u us where u: "unit_text = u # us" "lower_char u = CHR ''e''" using assms(6) by (cases unit_text) (auto simp: py_lower_def)
  have e: "lower_char CHR ''e'' = CHR ''e''" "\<not> is_space u"
  proof -
    have "\<not> is_space CHR ''e''" by code_simp
    then show "\<not> is_space u" using u(2) by (auto simp: is_space_def lower_char_def Let_def split: if_splits)
    show "lower_char CHR ''e'' = CHR ''e''" by code_simp
  qed
  let ?rest = "sp'' @ unit_text @ post"
  have rest: "\<not> is_digit (hd ?rest) \<and> lower_char (hd ?rest) \<noteq> CHR '',''"
  proof (cases sp'')
    case Nil
    have "\<not> is_digit u" using u(2) by (auto simp: is_digit_def lower_char_def Let_def split: if_splits)
    with Nil u show ?thesis by simp
  next
    case (Cons c cs)
    have "\<not> is_space CHR '',''" by code_simp
    with Cons assms(5) digit_facts show ?thesis by (auto simp: lower_char_def Let_def is_space_def split: if_splits)
  qed
  have tail: "goes (re_all [re_spaces, re_text ''events/s'']) ?rest None post"
  proof -
    have "goes re_spaces ?rest None (unit_text @ post)" using assms(5) e u(1) by (intro goes_spaces) auto
    moreover have "goes (re_text ''events/s'') (unit_text @ post) None post"
      using assms(6) lower_labels(2) by (rule goes_label)
    ultimately show ?thesis using goes_all_Cons goes_all_Nil by (metis later_group_simps(1))
  qed
  let ?parts = "[re_spaces, re_equals, re_spaces, re_count] @ [re_spaces, re_text ''events/s'']"
  let ?line = "line_to label sp sign sp' (num @ ?rest)"
  have re: "throughput_re = re_all (re_text ''throughput'' # ?parts)" by (simp add: throughput_re_def)
  have count: "goes (re_all ?parts) (sp @ sign # sp' @ num @ ?rest) (Some num) post"
    using goes_to_count [OF assms(3) _ _ goes_count_text [OF assms(4) disjI2 [OF rest]] tail] count_text_hd [OF assms(4)] by blast
  have "goes (re_text ''throughput'') (label @ sp @ sign # sp' @ num @ ?rest) None (sp @ sign # sp' @ num @ ?rest)"
    using assms(2) lower_labels(1) by (rule goes_label)
  from goes_all_Cons [OF this count] have "goes throughput_re ?line (Some num) post"
    by (simp only: re line_to_def later_group_simps)
  then have "search throughput_re ?line = Some (Some num)" by (rule search_here)
  moreover have "search throughput_re (pre @ ?line) = search throughput_re ?line"
    unfolding re by (rule search_after [OF assms(1)])
  ultimately show ?thesis using count_text_value [OF assms(4)] by (simp add: metric_of_def)
qed

text \<open>The count of all events ends after the second separator: a count printed in three groups of digits
  loses the last one.\<close>

lemma group_digits_three:
  assumes "digits ds" and "length ds \<in> {7..9}"
  shows "\<exists>a b c. digits a \<and> digits b \<and> digits c \<and> ds = a @ b @ c \<and> length b = 3 \<and> length c = 3 \<and>
    group_digits ds = a @ CHR '','' # b @ CHR '','' # c"
proof -
  define c where "c = drop (length ds - 3) ds"
  define ab where "ab = take (length ds - 3) ds"
  define b where "b = drop (length ab - 3) ab"
  define a where "a = take (length ab - 3) ab"
  have len: "length c = 3" "length b = 3" "length ab = length ds - 3" "length a = length ab - 3" "a \<noteq> []" "length a \<le> 3"
    using assms(2) by (auto simp: c_def ab_def b_def a_def)
  have "ab = a @ b" unfolding a_def b_def by simp
  moreover have "ds = ab @ c" unfolding ab_def c_def by simp
  ultimately have ds: "ds = a @ b @ c" by simp
  have "group_digits a = a" using len by (subst group_digits.simps) simp
  moreover have "group_digits ab = group_digits a @ '','' @ b"
    using len assms(2) unfolding a_def b_def by (subst group_digits.simps) auto
  moreover have "group_digits ds = group_digits ab @ '','' @ c"
    using assms(2) unfolding ab_def c_def by (subst group_digits.simps) auto
  moreover have "digits a" "digits b" "digits c" using assms(1) len by (auto simp: digits_def ds)
  ultimately show ?thesis using ds len by (intro exI [of _ a] exI [of _ b] exI [of _ c]) simp
qed


lemma show_nat_div: "10 \<le> n \<Longrightarrow> length (show_nat n) = Suc (length (show_nat (n div 10)))"
  by (subst show_nat.simps) simp

lemma length_show_nat: "10 ^ k \<le> n \<Longrightarrow> n < 10 ^ Suc k \<Longrightarrow> length (show_nat n) = Suc k"
proof (induction k arbitrary: n)
  case 0
  then show ?case by (subst show_nat.simps) simp
next
  case (Suc k)
  have "1 \<le> (10 :: nat) ^ k" by simp
  with Suc.prems(1) have "10 \<le> n" unfolding power_Suc by linarith
  moreover have "10 ^ k \<le> n div 10" "n div 10 < 10 ^ Suc k"
    using Suc.prems by (simp_all add: less_mult_imp_div_less div_le_mono [of "10 * 10 ^ k" n 10, simplified])
  ultimately show ?case using Suc.IH by (simp add: show_nat_div)
qed

lemma read_nat_less: "list_all is_digit ds \<Longrightarrow> read_nat ds < 10 ^ length ds"
proof (induction ds rule: rev_induct)
  case Nil
  then show ?case by (simp add: read_nat_def)
next
  case (snoc c ds)
  have "digit_value c < 10" using snoc.prems by (auto simp: is_digit_def digit_value_def Let_def)
  moreover have "read_nat ds < 10 ^ length ds" using snoc by simp
  then have "read_nat ds * 10 + 10 \<le> 10 ^ length ds * 10" by linarith
  moreover have "read_nat (ds @ [c]) = read_nat ds * 10 + digit_value c" by (simp add: read_nat_def)
  ultimately show ?case by simp
qed

theorem total_events_lose_the_last_group:
  assumes "CHR ''t'' \<notin> set (py_lower pre)" and "gaps sp sign sp'" and "10 ^ 6 \<le> n" and "n < 10 ^ 9"
  shows "metric_of (pre @ line_to ''total events'' sp sign sp' (group_digits (show_nat n) @ post)) events_re
      ''Total Events'' ''count'' False count_value =
    Inr [\<lparr>pm_name = ''Total Events'', pm_unit = ''count'', pm_value = JInt (int (n div 1000)), pm_bigger_is_better = False\<rparr>]"
proof -
  have ds: "digits (show_nat n)" using show_nat_digits by (simp add: digits_def)
  have "n < 10 ^ 7 \<or> 10 ^ 7 \<le> n \<and> n < 10 ^ 8 \<or> 10 ^ 8 \<le> n" by linarith
  then have "length (show_nat n) \<in> {7..9}"
    using length_show_nat [of 6 n] length_show_nat [of 7 n] length_show_nat [of 8 n] assms(3,4) by auto
  from group_digits_three [OF ds this] obtain a b c where
    abc: "digits a" "digits b" "digits c" "show_nat n = a @ b @ c" "length c = 3"
      "group_digits (show_nat n) = a @ CHR '','' # b @ CHR '','' # c" by blast
  have "n = read_nat (a @ b) * 1000 + read_nat c"
    using arg_cong [OF abc(4), of read_nat] abc(5) read_nat_append [of "a @ b" c] by simp
  moreover have "read_nat c < 1000" using read_nat_less [of c] abc(3,5) by (simp add: digits_def)
  ultimately have v: "read_nat (a @ b) = n div 1000" by simp
  let ?num = "a @ CHR '','' # b" and ?rest = "CHR '','' # c @ post"
  let ?parts = "[re_spaces, re_equals, re_spaces, re_count]"
  let ?line = "line_to ''total events'' sp sign sp' (group_digits (show_nat n) @ post)"
  have num: "count_text ?num (int (n div 1000))" unfolding count_text_def by (intro disjI2 exI [of _ a] exI [of _ b]) (simp add: abc(1,2) v)
  have re: "events_re = re_all (re_text ''total'' # [re_spaces1, re_text ''events''] @ ?parts)" by (simp add: events_re_def)
  have "goes re_count (?num @ ?rest) (Some ?num) ?rest"
    using abc(1,2) comma_no_digit(1) by (intro goes_count_grouped) auto
  from goes_to_count [OF assms(2) _ _ this goes_all_Nil] count_text_hd [OF num]
  have count: "goes (re_all ?parts) (sp @ sign # sp' @ ?num @ ?rest) (Some ?num) ?rest" by simp
  have t: "goes (re_text ''total'') (''total'' @ '' '' @ ''events'' @ sp @ sign # sp' @ ?num @ ?rest) None
      ('' '' @ ''events'' @ sp @ sign # sp' @ ?num @ ?rest)"
    by (rule goes_label [OF lower_labels(3) lower_labels(3)])
  have blank: "is_space CHR '' ''" "\<not> is_space CHR ''e''" by code_simp+
  have sp: "goes re_spaces1 ('' '' @ ''events'' @ sp @ sign # sp' @ ?num @ ?rest) None (''events'' @ sp @ sign # sp' @ ?num @ ?rest)"
    using blank by (intro goes_spaces1) auto
  have e: "goes (re_text ''events'') (''events'' @ sp @ sign # sp' @ ?num @ ?rest) None (sp @ sign # sp' @ ?num @ ?rest)"
    by (rule goes_label [OF lower_labels(4) lower_labels(4)])
  from goes_all_Cons [OF t goes_all_Cons [OF sp goes_all_Cons [OF e count]]]
  have "goes events_re ?line (Some ?num) ?rest" by (simp add: re line_to_def abc(6))
  then have "search events_re ?line = Some (Some ?num)" by (rule search_here)
  moreover have "search events_re (pre @ ?line) = search events_re ?line"
    unfolding re by (rule search_after [OF assms(1)])
  ultimately show ?thesis using count_text_value [OF num] by (simp add: metric_of_def)
qed


theorem total_events_lose_the_last_group_witness:
  "metric_of (line_to ''total events'' [] CHR '':'' '' '' (group_digits (show_nat 1234567))) events_re
      ''Total Events'' ''count'' False count_value =
    Inr [\<lparr>pm_name = ''Total Events'', pm_unit = ''count'', pm_value = JInt 1234, pm_bigger_is_better = False\<rparr>]"
proof -
  have p: "CHR ''t'' \<notin> set (py_lower [])" by (simp add: py_lower_def)
  have "is_space CHR '' ''" by code_simp
  then have g: "gaps [] CHR '':'' '' ''" by (simp add: gaps_def)
  show ?thesis using total_events_lose_the_last_group [OF p g, of 1234567 "[]"] by simp
qed

theorem throughput_is_read_back_witness:
  "metric_of ''## run of 3 nodes: 99 Throughput = 123,456 events/s, good'' throughput_re ''Insert Throughput'' ''events/s'' True count_value =
    Inr [\<lparr>pm_name = ''Insert Throughput'', pm_unit = ''events/s'', pm_value = JInt 123456, pm_bigger_is_better = True\<rparr>]"
proof -
  have p: "CHR ''t'' \<notin> set (py_lower ''## run of 3 nodes: 99 '')" by code_simp
  have l: "py_lower ''Throughput'' = ''throughput''" by code_simp
  have b: "is_space CHR '' ''" by code_simp
  then have g: "gaps '' '' CHR ''='' '' ''" by (simp add: gaps_def)
  have d: "digits ''123''" "digits ''456''" by code_simp+
  have v: "read_nat ''123456'' = 123456" by (simp add: read_nat_def digit_value_def)
  have n: "count_text ''123,456'' 123456"
    unfolding count_text_def by (intro disjI2 exI [of _ "''123''"] exI [of _ "''456''"]) (simp add: d v)
  have s: "list_all is_space '' ''" using b by simp
  show ?thesis
    using throughput_is_read_back [OF p l g n s lower_labels(2), of "'', good''"] by (simp add: line_to_def)
qed

text \<open>A throughput of a million and more, printed with separators, is not found at all, and a latency in
  microseconds is taken for one in milliseconds.\<close>

theorem million_per_second_is_missed: "search throughput_re ''throughput = 1,234,567 events/s'' = None"
  by code_simp

theorem microseconds_are_milliseconds:
  "search insert_p99_re ''insert latency p99 = 850 us'' = search insert_p99_re ''insert latency p99 = 850 ms''"
  by code_simp

end
