(* ===== verification/Harness_Cli.thy ===== *)
theory Harness_Cli
  imports Cluster_Safety
begin

section \<open>The command line of the cluster harness\<close>

text \<open>
  \<open>test_infrastructure/harness/cli.py\<close>: \<open>start\<close>, \<open>stop\<close>, \<open>status\<close> and \<open>logs\<close> over the cluster, the
  world and the state files, a map from paths to what \<open>start\<close> wrote.  A signal takes effect
  in the loop that watches the servers, from the time on at which \<open>signalled\<close> holds; its
  handler stops the cluster and leaves the process.  Parsing the arguments and printing
  are left out.
\<close>

record cli_state =
  st_addresses :: string
  st_ports :: "int list"
  st_metrics_ports :: "int list"
  st_data_dir :: path
  st_node_count :: int
  st_leader_port :: "int option"

type_synonym state_files = "path \<rightharpoonup> cli_state"

record start_args =
  sa_nodes :: int
  sa_base_port :: int
  sa_data_dir :: "path option"
  sa_cache_grid :: string
  sa_timeout :: int

text \<open>\<open>Path(args.data_dir or ".") / ".cluster-state.json"\<close>.\<close>

definition state_path :: "path option \<Rightarrow> path" where
  "state_path dir =
     (case dir of Some (ch # rest) \<Rightarrow> (ch # rest) @ ''/.cluster-state.json'' | _ \<Rightarrow> ''.cluster-state.json'')"

definition start_config :: "string option \<Rightarrow> start_args \<Rightarrow> cluster_config" where
  "start_config preserve a =
     (default_cluster_config preserve)\<lparr>node_count := sa_nodes a, base_port := sa_base_port a,
       config_data_dir := sa_data_dir a, cache_grid := sa_cache_grid a, startup_timeout := sa_timeout a\<rparr>"

subsection \<open>Start\<close>

text \<open>How the command ends: it returns an exit code, the handler of a signal exits, or the constructor
  of the cluster raises outside the \<open>try\<close>.\<close>

datatype cli_end = Returned int | Exited int | Raised cluster_exn

text \<open>The loop that watches the servers: \<open>None\<close> for a signal, or the first server found dead.\<close>

definition dead_replica :: "cluster \<Rightarrow> world \<Rightarrow> int option" where
  "dead_replica c w = map_option fst (find (\<lambda>(i, pid). poll pid w \<noteq> None) (processes c))"

partial_function (option) watch :: "(int \<Rightarrow> bool) \<Rightarrow> cluster \<Rightarrow> world \<Rightarrow> (int option \<times> world) option" where
  "watch signalled c w =
     (if signalled (now (sleep 1000 w)) then Some (None, sleep 1000 w)
      else case dead_replica c (sleep 1000 w) of
          Some i \<Rightarrow> Some (Some i, sleep 1000 w)
        | None \<Rightarrow> watch signalled c (sleep 1000 w))"

definition saved_state :: "start_args \<Rightarrow> cluster \<Rightarrow> int option \<Rightarrow> cli_state" where
  "saved_state a c leader =
     \<lparr>st_addresses = addresses c, st_ports = cluster_ports c, st_metrics_ports = metrics_ports c,
      st_data_dir = (case data_dir c of None \<Rightarrow> ''None'' | Some d \<Rightarrow> d), st_node_count = sa_nodes a, st_leader_port = leader\<rparr>"

definition stop_and :: "cli_end \<Rightarrow> state_files \<Rightarrow> cluster \<Rightarrow> world \<Rightarrow> (cli_end \<times> state_files \<times> world) option" where
  "stop_and how st c w = map_option (\<lambda>(c, w). (how, st, w)) (cluster_stop c w)"

definition watched ::
    "(int \<Rightarrow> bool) \<Rightarrow> state_files \<Rightarrow> cluster \<Rightarrow> world \<Rightarrow> (cli_end \<times> state_files \<times> world) option" where
  "watched signalled st c w =
     Option.bind (watch signalled c w) (\<lambda>(dead, w).
       stop_and (case dead of None \<Rightarrow> Exited 0 | Some i \<Rightarrow> Returned 1) st c w)"

definition after_start ::
    "env \<Rightarrow> (int \<Rightarrow> bool) \<Rightarrow> start_args \<Rightarrow> state_files \<Rightarrow> cluster \<Rightarrow> world \<Rightarrow> (cli_end \<times> state_files \<times> world) option" where
  "after_start env signalled a st c w =
     (case wait_for_ready env (Some (sa_timeout a)) c w of
        (Inl e, c, w) \<Rightarrow> stop_and (Returned 1) st c w
      | (Inr False, c, w) \<Rightarrow> stop_and (Returned 1) st c w
      | (Inr True, c, w) \<Rightarrow>
          (case wait_for_leader env (Some 30000) c w of
             (Inl e, w) \<Rightarrow> stop_and (Returned 1) st c w
           | (Inr leader, w) \<Rightarrow> watched signalled (st(state_path (sa_data_dir a) \<mapsto> saved_state a c leader)) c w))"

definition cmd_start ::
    "env \<Rightarrow> string option \<Rightarrow> path list \<Rightarrow> string option \<Rightarrow> (int \<Rightarrow> bool) \<Rightarrow> start_args \<Rightarrow> state_files \<Rightarrow> world \<Rightarrow>
     (cli_end \<times> state_files \<times> world) option" where
  "cmd_start env binary ancestors preserve signalled a st w =
     (case new_cluster (start_config preserve a) binary ancestors (files w) of
        Inl e \<Rightarrow> Some (Raised e, st, w)
      | Inr c \<Rightarrow>
          Option.bind (cluster_start env c w) (\<lambda>(r, c, w).
            case r of
              Inl e \<Rightarrow> stop_and (Returned 1) st c w
            | Inr u \<Rightarrow> after_start env signalled a st c w))"

subsection \<open>Stop, status and logs\<close>

text \<open>\<open>lsof\<close> gives the processes with a socket on a port, \<open>None\<close> for an exit code that is not 0; only a
  process that exists can be signalled.\<close>

definition terminate_on :: "(world \<Rightarrow> int \<Rightarrow> nat list option) \<Rightarrow> int \<Rightarrow> world \<Rightarrow> world" where
  "terminate_on lsof port w =
     (case lsof w port of
        None \<Rightarrow> w
      | Some pids \<Rightarrow> fold (\<lambda>pid w. if pid < length (procs w) then terminate pid w else w) pids w)"

definition stop_config :: "string option \<Rightarrow> cli_state \<Rightarrow> cluster_config" where
  "stop_config preserve s =
     (default_cluster_config preserve)\<lparr>node_count := st_node_count s, config_data_dir := Some (st_data_dir s)\<rparr>"

definition cmd_stop ::
    "(world \<Rightarrow> int \<Rightarrow> nat list option) \<Rightarrow> string option \<Rightarrow> path list \<Rightarrow> string option \<Rightarrow> path option \<Rightarrow> state_files \<Rightarrow> world \<Rightarrow>
     cli_end \<times> state_files \<times> world" where
  "cmd_stop lsof binary ancestors preserve dir st w =
     (case st (state_path dir) of
        None \<Rightarrow> (Returned 1, st, w)
      | Some s \<Rightarrow>
          (case new_cluster (stop_config preserve s) binary ancestors (files w) of
             Inl e \<Rightarrow> (Raised e, st, w)
           | Inr c \<Rightarrow> (Returned 0, st(state_path dir := None), fold (terminate_on lsof) (st_ports s) w)))"

definition node_status :: "http_response option \<Rightarrow> string" where
  "node_status r =
     (case r of
        None \<Rightarrow> ''UNREACHABLE''
      | Some a \<Rightarrow> if status_code a = 200 then ''READY'' else ''NOT READY ('' @ show_int (status_code a) @ '')'')"

text \<open>One line per metrics port, the name of the exception of an unreachable node left out.\<close>

fun status_lines :: "env \<Rightarrow> nat \<Rightarrow> int list \<Rightarrow> int list \<Rightarrow> world \<Rightarrow> (cluster_exn, string list) result \<times> world" where
  "status_lines env i ports [] w = (Inr [], w)"
| "status_lines env i ports (m # ms) w =
     (case http_get env m ''/health/ready'' w of
        (r, w) \<Rightarrow>
          (case element_at ports (int i) of
             Inl e \<Rightarrow> (Inl e, w)
           | Inr port \<Rightarrow>
               (case status_lines env (Suc i) ports ms w of
                  (q, w) \<Rightarrow>
                    (bindE q (\<lambda>ls. Inr ((''  Replica '' @ show_nat i @ '' (port '' @ show_int port @ ''): '' @ node_status r) # ls)), w))))"

definition cmd_status :: "env \<Rightarrow> path option \<Rightarrow> state_files \<Rightarrow> world \<Rightarrow> (cluster_exn, int \<times> string list) result \<times> world" where
  "cmd_status env dir st w =
     (case st (state_path dir) of
        None \<Rightarrow> (Inr (0, [''No cluster running (no state file found)'']), w)
      | Some s \<Rightarrow>
          (case status_lines env 0 (st_ports s) (st_metrics_ports s) w of (q, w) \<Rightarrow> (bindE q (\<lambda>ls. Inr (0, ls)), w)))"

definition log_path :: "cli_state \<Rightarrow> int \<Rightarrow> path" where
  "log_path s replica = st_data_dir s @ ''/replica-'' @ show_int replica @ ''.log''"

definition cmd_logs :: "(path \<Rightarrow> string option) \<Rightarrow> path option \<Rightarrow> int \<Rightarrow> state_files \<Rightarrow> int \<times> string" where
  "cmd_logs log_file dir replica st =
     (case st (state_path dir) of
        None \<Rightarrow> (1, ''No cluster running (no state file found)'')
      | Some s \<Rightarrow>
          if st_node_count s \<le> replica
          then (1, ''Invalid replica '' @ show_int replica @ ''. Cluster has '' @ show_int (st_node_count s) @ '' nodes.'')
          else (0, case log_file (log_path s replica) of
              Some text_of_log \<Rightarrow> text_of_log
            | None \<Rightarrow> ''No log file found for replica '' @ show_int replica))"

subsection \<open>A started cluster is always stopped\<close>

text \<open>The loop ends when a signal comes or a server dies; until then only time passes.\<close>

lemma watch_returns:
  assumes "signalled (now w + 1000 * int (Suc n))"
  shows "\<exists>dead w'. watch signalled c w = Some (dead, w') \<and> only_time w w'"
  using assms
proof (induction n arbitrary: w)
  case 0
  then have "signalled (now (sleep 1000 w))" by (simp add: sleep_def)
  then show ?case by (subst watch.simps) (simp add: only_time_sleep)
next
  case (Suc n)
  have "signalled (now (sleep 1000 w) + 1000 * int (Suc n))" using Suc.prems by (simp add: sleep_def algebra_simps)
  from Suc.IH [OF this] obtain dead w' where
    w': "watch signalled c (sleep 1000 w) = Some (dead, w')" "only_time (sleep 1000 w) w'" by blast
  from only_time_trans [OF only_time_sleep w'(2)] w'(1) show ?case
    by (subst watch.simps) (auto split: option.split)
qed

lemma accounted_same_processes:
  assumes "accounted old c w" and "processes c' = processes c" and "only_time w w'"
  shows "accounted old c' w'"
  using assms by (auto simp: accounted_def known_spawned_def only_time_def running_def poll_def split: option.splits if_splits)

lemma stop_and_returns:
  assumes "accounted old c w"
  shows "\<exists>w'. stop_and how st c w = Some (how, st, w') \<and> running_pids w' \<subseteq> old"
  using stop_tidies [OF assms] by (auto simp: stop_and_def running_pids_def)

text \<open>Sooner or later a signal comes.\<close>

definition interrupted :: "(int \<Rightarrow> bool) \<Rightarrow> bool" where
  "interrupted signalled \<longleftrightarrow> (\<forall>t. \<exists>n. signalled (t + 1000 * int (Suc n)))"

lemma watched_returns:
  assumes "interrupted signalled" and "accounted old c w"
  shows "\<exists>how w'. watched signalled st c w = Some (how, st, w') \<and> how \<in> {Exited 0, Returned 1} \<and> running_pids w' \<subseteq> old"
proof -
  obtain n where "signalled (now w + 1000 * int (Suc n))" using assms(1) unfolding interrupted_def by blast
  from watch_returns [where signalled = signalled, OF this] obtain dead w1 where
    w1: "watch signalled c w = Some (dead, w1)" "only_time w w1" by blast
  have "accounted old c w1" using accounted_same_processes [OF assms(2) _ w1(2)] by simp
  from stop_and_returns [OF this] obtain w' where
    "stop_and (case dead of None \<Rightarrow> Exited 0 | Some i \<Rightarrow> Returned 1) st c w1 =
       Some (case dead of None \<Rightarrow> Exited 0 | Some i \<Rightarrow> Returned 1, st, w')" "running_pids w' \<subseteq> old" by blast
  with w1(1) show ?thesis by (auto simp: watched_def split: option.splits)
qed

lemma after_start_returns:
  assumes "interrupted signalled" and a: "accounted old c w"
  shows "\<exists>how st' w'. after_start env signalled a st c w = Some (how, st', w') \<and> running_pids w' \<subseteq> old \<and>
    how \<in> {Exited 0, Returned 1} \<and>
    (st' = st \<and> how = Returned 1 \<or> (\<exists>s. st' = st(state_path (sa_data_dir a) \<mapsto> s)))"
proof -
  obtain r c1 w1 where r: "wait_for_ready env (Some (sa_timeout a)) c w = (r, c1, w1)" by (metis prod_cases3)
  have same: "processes c1 = processes c" "only_time w w1" using wait_for_ready_time [OF r] by simp_all
  have a1: "accounted old c1 w1" by (rule accounted_same_processes [OF a same])
  obtain q w2 where q: "wait_for_leader env (Some 30000) c1 w1 = (q, w2)" by (metis surj_pair)
  have a2: "accounted old c1 w2" using accounted_same_processes [OF a1 _ wait_for_leader_only_time [OF q]] by simp
  show ?thesis
  proof (cases "r = Inr True \<and> (\<exists>leader. q = Inr leader)")
    case True
    then obtain leader where "q = Inr leader" by blast
    with True r q watched_returns [OF assms(1) a2, of "st(state_path (sa_data_dir a) \<mapsto> saved_state a c1 leader)"]
    show ?thesis by (fastforce simp: after_start_def)
  next
    case False
    with r q stop_and_returns [OF a1, of "Returned 1" st] stop_and_returns [OF a2, of "Returned 1" st]
    show ?thesis by (cases r; cases q) (auto simp: after_start_def split: bool.splits)
  qed
qed



definition one_node_args :: start_args where
  "one_node_args = \<lparr>sa_nodes = 1, sa_base_port = 0, sa_data_dir = None, sa_cache_grid = ''512MiB'', sa_timeout = 60000\<rparr>"


subsection \<open>What stop does not do\<close>

lemma terminate_keeps_stubborn:
  assumes "running pid w" and "lf_term (pr_life (procs w ! pid)) = None"
  shows "running pid (terminate p w) \<and> procs (terminate p w) ! pid = procs w ! pid"
proof (cases "p = pid")
  case True
  with assms show ?thesis by (simp add: terminate_def)
next
  case False
  then have "procs (terminate p w) ! pid = procs w ! pid"
    by (auto simp: terminate_def set_end_def split: option.splits)
  with assms(1) show ?thesis by (auto simp: running_def poll_def split: option.splits)
qed

lemma terminate_all_keeps_stubborn:
  assumes "running pid w" and "lf_term (pr_life (procs w ! pid)) = None"
  shows "running pid (fold (\<lambda>p w. if p < length (procs w) then terminate p w else w) ps w) \<and>
    procs (fold (\<lambda>p w. if p < length (procs w) then terminate p w else w) ps w) ! pid = procs w ! pid"
  using assms
proof (induction ps arbitrary: w)
  case Nil
  then show ?case by simp
next
  case (Cons p ps)
  then show ?case using terminate_keeps_stubborn [OF Cons.prems, of p] by simp
qed

text \<open>\<open>stop\<close> asks the processes on the ports to end and looks no further: it succeeds and forgets the
  cluster while a server that ignores the request runs on.\<close>

theorem stop_forgets_stubborn_servers:
  assumes "st (state_path dir) = Some s" and "new_cluster (stop_config preserve s) binary ancestors (files w) = Inr c"
    and "running pid w" and "lf_term (pr_life (procs w ! pid)) = None"
  shows "\<exists>w'. cmd_stop lsof binary ancestors preserve dir st w = (Returned 0, st(state_path dir := None), w') \<and> running pid w'"
proof -
  have "running pid (fold (terminate_on lsof) ports w)" for ports
    using assms(3,4)
  proof (induction ports arbitrary: w)
    case Nil
    then show ?case by simp
  next
    case (Cons port ports)
    have "running pid (terminate_on lsof port w) \<and> procs (terminate_on lsof port w) ! pid = procs w ! pid"
      using terminate_all_keeps_stubborn [OF Cons.prems] Cons.prems by (simp add: terminate_on_def split: option.split)
    with Cons show ?case by simp
  qed
  with assms(1,2) show ?thesis by (simp add: cmd_stop_def)
qed

definition demo_state :: cli_state where
  "demo_state = \<lparr>st_addresses = ''127.0.0.1:3100'', st_ports = [3100], st_metrics_ports = [3200], st_data_dir = ''/tmp/t'',
     st_node_count = 1, st_leader_port = Some 3100\<rparr>"

theorem stop_forgets_stubborn_servers_witness:
  "\<exists>st' w'. cmd_stop (\<lambda>w p. Some [0]) (Some ''archerdb'') [] None None [''.cluster-state.json'' \<mapsto> demo_state]
       (demo_world\<lparr>files := {''archerdb''}\<rparr>) = (Returned 0, st', w') \<and> st' ''.cluster-state.json'' = None \<and> running 0 w'"
proof -
  let ?w = "demo_world\<lparr>files := {''archerdb''}\<rparr>" and ?st = "[''.cluster-state.json'' \<mapsto> demo_state]"
  have p: "state_path None = ''.cluster-state.json''" by (simp add: state_path_def)
  then have s: "?st (state_path None) = Some demo_state" by simp
  obtain c where c: "new_cluster (stop_config None demo_state) (Some ''archerdb'') [] (files ?w) = Inr c"
    by (auto simp: new_cluster_def binary_path_def stop_config_def demo_defs)
  have r: "running 0 ?w" "lf_term (pr_life (procs ?w ! 0)) = None"
    by (simp_all add: running_def poll_def demo_defs)
  from stop_forgets_stubborn_servers [of ?st, OF s c r] show ?thesis using p by fastforce
qed

end
