(* ===== verification/Spec2Isabelle.thy ===== *)
theory Spec2Isabelle
  imports End_To_End Circuit_Breaker Id_Generator Geo_Router Observability Polygon_Check Geo_Format
    Region_Types Async_Client Bench_Compare Consistency_Checks Failover Partition Topology_Runner
    Bench_Cli Sdk_Benchmark Bench_History City_Workload Ci_Files Bench_Output Harness_Cli
begin

text \<open>
  A verification library for the Python code of ArcherDB: the client SDK,
  \<open>src/src/clients/python/src/archerdb/\<close>, and the test infrastructure,
  \<open>src/test_infrastructure/\<close> (files below are relative to these).  The database itself is
  written in Zig.

  \<^bold>\<open>The program.\<close>  A \<open>GeoClientSync\<close> (\<open>client.py\<close>) inserts, deletes and queries
  geospatial events.  A write is checked and collected in a batch, cut into chunks, and each
  chunk is retried (\<open>_with_retry_sync\<close>) around a call of the \<open>NativeClient\<close>
  (\<open>_native.py\<close>), which packs the events into the 128-byte wire layout, hands a packet to
  the C library under a tag and waits for the completion callback to fill it in.  The answer
  is decoded into error rows or events.  A topology (\<open>types.py\<close>) is fetched the same way and
  kept in a \<open>TopologyCache\<close> (\<open>topology.py\<close>), from which a \<open>ShardRouter\<close> routes entities
  and a \<open>ScatterGatherExecutor\<close> queries all shards and merges what they return.
  \<open>GeoClientAsync\<close> has the same interface with skeletons in place of the native calls.
  Beside them stand the circuit breaker and the id generator (\<open>client.py\<close>), the region
  discovery, latency prober and router (\<open>geo_routing.py\<close>), metrics, loggers and health
  tracking (\<open>observability.py\<close>), the error taxonomy (\<open>errors.py\<close>), and vector clocks, the
  jump hash, GeoJSON and WKT, and the polygon check (\<open>types.py\<close>).

  The test infrastructure runs clusters of database processes on one machine
  (\<open>harness/cluster.py\<close> over \<open>port_allocator.py\<close> and \<open>log_capture.py\<close>), checks them
  (\<open>topology/\<close>: consistency, failover, partitions, every SDK on every cluster size),
  generates data (\<open>generators/\<close>) and measures (\<open>benchmarks/\<close>): the orchestrator starts a
  cluster per benchmark, a workload drives the SDK through the adapter, the executor
  collects samples after a warmup, and history, regression and scalability judge them.

  \<^bold>\<open>The theories\<close>, in the order in which they build on each other:
  \<^item> \<open>Prelude\<close>: results as sums with \<open>bindE\<close>, Python slices and integers as bytes,
    strings, enums (locale \<open>int_enum\<close>), and reachability for step functions.
  \<^item> \<open>Py_Float\<close>: Python floats as binary64: a finite rational, the infinities and NaN,
    rounding to the nearest even value, conversions that raise.  \<open>Py_Text\<close>: decimal text of
    ints and floats, \<open>split\<close>, \<open>strip\<close>, \<open>join\<close>, \<open>float\<close> of a text.  \<open>Degree_Text\<close>: the
    shortest text of a coordinate.  \<open>Py_Json\<close>: JSON values with the truthiness and the
    conversions of Python.
  \<^item> \<open>Sharding\<close>: \<open>jump_hash\<close>, \<open>compute_shard_key\<close>, \<open>get_shard_for_entity\<close>; locale
    \<open>shard_assignment\<close>.  \<open>Geo_Types\<close>: records, enums and builders.  \<open>Vector_Clock\<close>,
    \<open>Region_Types\<close>: multi-region data.  \<open>Circuit_Breaker\<close>: the breaker as a transition system.
  \<^item> \<open>Wire_Format\<close>: the byte layouts.  \<open>Native_Client\<close>: tags, the inflight map, completions;
    \<open>free_tag\<close> is a partial function, whose \<open>None\<close> is a search that never ends.
    \<open>Native_Ops\<close>: each native operation from its request to its decoded answer.
  \<^item> \<open>Sdk_Errors\<close>: the exceptions and which of them are retried.  \<open>Retry\<close>: backoff and the
    retry loop.  \<open>Batch\<close>: batch builders (locale \<open>bounded_batch\<close>) and chunked submission.
    \<open>Topology\<close>: cache, router, merging and scatter-gather.
  \<^item> \<open>Client\<close>: \<open>GeoClientSync\<close> over all of these.  \<open>End_To_End\<close>: the client over a server
    that stores events; the abstract specification is the list of stored events.
    \<open>Async_Client\<close>: \<open>GeoClientAsync\<close>.
  \<^item> \<open>Id_Generator\<close>: \<open>_IDGenerator\<close>.  \<open>Region_Discovery\<close>, \<open>Latency_Prober\<close>, \<open>Geo_Router\<close>:
    \<open>geo_routing.py\<close>.  \<open>Sdk_Metrics\<close>, \<open>Observability\<close>: \<open>observability.py\<close>.
    \<open>Health_View\<close>: the locale of a component that derives its health from a run of events,
    interpreted on the prober and on the health tracker.  \<open>Polygon_Check\<close>, \<open>Geo_Format\<close>: the
    self-intersection check, GeoJSON and WKT.
  \<^item> \<open>Port_Allocator\<close>, \<open>Log_Capture\<close>, \<open>Test_Processes\<close>: the ports, the log readers, and the
    processes as lives over time with \<open>Popen\<close>, \<open>terminate\<close>, \<open>wait\<close> and \<open>kill\<close>.  \<open>Cluster\<close>:
    \<open>ArcherDBCluster\<close>; \<open>Cluster_Safety\<close>: what its operations leave behind, and \<open>only_time\<close>,
    the relation of the calls that change nothing but the clock.  \<open>Consistency_Checks\<close>,
    \<open>Failover\<close>, \<open>Partition\<close>, \<open>Topology_Runner\<close>: the checks on a cluster and their summary.
  \<^item> \<open>Data_Generator\<close>: distributions and datasets.  \<open>Bench_Run\<close>: configuration, executor and
    histogram.  \<open>Bench_Compare\<close>: history, regression, scalability.  \<open>Bench_Adapter\<close>: fixture
    events to SDK events.  \<open>Bench_Workloads\<close>: the four workloads over an SDK client.
    \<open>Bench_Orchestrator\<close>: statistics, a cluster per benchmark, the suite and its targets.
    \<open>Sdk_Benchmark\<close>: the parity of the SDKs.  \<open>Bench_Report\<close>: the reporter and the progress
    display.  \<open>Bench_History\<close>: result files, trends and the dashboard.  \<open>Bench_Cli\<close>: the
    command line, over the orchestrator and the reporter.  \<open>City_Workload\<close>: the workload around
    cities.  \<open>Bench_Output\<close>: the parser of benchmark output in \<open>.github/ci/\<close>, with a matcher for
    its regular expressions.
  \<^item> \<open>Ci_Files\<close>: fixtures, warmup protocols and their validation.  \<open>Harness_Cli\<close>: the commands
    start, stop, status and logs over a cluster and its state file.

  \<^bold>\<open>How the code is represented.\<close>  A class is a record of its attributes and a method a
  function from arguments and state to a result and the new state; exceptions are values of
  \<open>py_exn\<close>, \<open>sdk_exn\<close> or a component's own type in the left summand.  A method that the code
  runs under a lock is one step, and threads are sequences of steps in any order
  (\<open>deliver\<close> for the callbacks of the C library, \<open>run_shards\<close> for the workers of a scatter
  query, \<open>probe_step\<close> for the prober; \<open>run_tasks\<close> for the tasks of an event loop).  Clocks
  and random sources are sequences of readings.  Python's ints are \<open>int\<close>, bytes are lists of
  \<open>8 word\<close>, floats are \<open>pyfloat\<close>, dicts are maps, or association lists where their order
  is seen.  Code outside the repository is a parameter: the C library
  (\<open>transport\<close> and completions), HTTP, \<open>json.loads\<close>, \<open>fromisoformat\<close>, libm and the
  float sum (\<open>region_libs\<close>), sockets (\<open>probe_env\<close>).  The server of \<open>End_To_End\<close> is a
  hypothesis on the transport, with a concrete instance in the witnesses.

  \<^bold>\<open>What is shown.\<close>  End to end: inserting stores the accepted events once and in order and
  reports exactly the others with their positions, lookups read the last writes, a closed
  client does nothing, and failed reads look like an empty database.  Submission: the retry
  loop follows the operation's outcomes, every request is answered by its own completion,
  and tags stay unique until 65535 completions are lost.  Sharding: the jump hash ends, is in
  range and moves entities to new shards only, while the cache's assignment is another
  function.  Topology: routing, merging and partial results account for every entity and
  shard.  Breaker, vector clocks, ids, metrics and health: their invariants and abstract
  counterparts (order of events, least upper bounds, counts of observations, runs of
  failures).  Geo routing: selections come from the available regions, a failover leaves the
  failing region until it answers, and the two states it does not leave.  Formats: every
  encoder has its decoder, the parsers of both text formats agree, and where the code's
  round trips fail.  The asynchronous client: what its skeletons acknowledge and never do.
  Harness: whatever fails, a cluster that was stopped has no process left, and a suite over
  clusters ends, is complete and leaves none; ports come back; a leader is a node that said
  so.  Benchmarks: a run ends and returns consecutive samples, sessions close their clients,
  checkpoints are prefixes of the results, summaries add up, generated events are as
  configured and reach the SDK whole, and the judgements of history and report agree.
  The command line ends with the exit code its results deserve, a history gives back what was
  saved, newest first, a flat report has the leaves of the nested one, and parity means a
  fifth of the mean up to the rounding of floats.
  Theorems that state a defect of the code are named for what happens.

  \<^bold>\<open>Bounds and termination.\<close>  Loops over data are structural.  \<open>jump_loop\<close> is a
  partial function, shown total for every shard count a topology can hold; the retry loop
  runs at most \<open>max_retries + 1\<close> times, its number of attempts is its fuel; \<open>probe_loop\<close> is
  given the number of cycles the thread lives.  The waits of the harness end because each
  round takes time and the deadline is fixed; \<open>Process.wait\<close> without a timeout is the value
  \<open>None\<close> for a process that never ends, as are the loops of the generators that need luck.
  Rounding lemmas hold for magnitudes below
  \<open>2 ^ 53\<close>, which all coordinates, delays and counters of the properties respect.

  \<^bold>\<open>Not modelled.\<close>  Log texts, \<open>__repr__\<close>, user-defined metadata and custom loggers, which
  have no effect on the state; the generated \<open>bindings.py\<close> but for the event layout; the
  build of the native library.  Of the test infrastructure the parsing of arguments,
  printing and the terminal tables, and the writing of files (a file is the value that is
  written); numpy, scipy, the HDR histogram, random numbers and the SDK runners are
  parameters.  A signal reaches the start command of the harness once it watches its
  servers.  The other Python files (benchmarks of competitors and of the database's
  internals, the AMQP code generator) are programs around the database and are listed in
  the manifest as not modelled.
\<close>

end
